(* ===== verification/Canopy_Prelude.thy ===== *)
theory Canopy_Prelude
  imports Main "HOL-Library.Word" "HOL-Library.AList" "HOL-Library.Multiset"
    "HOL-Library.Char_ord" "HOL-Library.List_Lexorder"
begin

text \<open>
  Shared vocabulary of the development: the Go types every package of the server uses
  (identifiers, instants, 64-bit integers), the result type of fallible calls, the stable
  sort of package \<open>sort\<close>, map values as association lists, and the lemmas on lists and
  sums that the component theories share.
\<close>

section \<open>Collections of facts\<close>

named_theorems go_simps \<open>unfolding rules of the Go standard library model\<close>
named_theorems inv_intros \<open>invariant preservation rules of the components\<close>

section \<open>Go types\<close>

text \<open>
  \<open>uuid.UUID\<close> is an array of sixteen bytes compared bytewise, \<open>uuid.Nil\<close> the zero array.
  Printing, parsing and versioning of identifiers live in a third-party package: they are
  arguments of the definitions that use them. An instant is a count of nanoseconds since
  the zero \<open>time.Time\<close>.
\<close>

type_synonym uuid = "128 word"
type_synonym instant = int
type_synonym duration = int

abbreviation uuid_Nil :: uuid where "uuid_Nil \<equiv> 0"

definition time_IsZero :: "instant \<Rightarrow> bool" where
  "time_IsZero t \<longleftrightarrow> t = 0"

definition int64_min :: int where "int64_min = - (2 ^ 63)"
definition int64_max :: int where "int64_max = 2 ^ 63 - 1"

text \<open>Two's complement wrap-around of the 64-bit \<open>+\<close>, \<open>-\<close> and \<open>++\<close>.\<close>

definition wrap64 :: "int \<Rightarrow> int" where
  "wrap64 x = (x + 2 ^ 63) mod 2 ^ 64 - 2 ^ 63"

lemma wrap64_id [simp]: "int64_min \<le> x \<Longrightarrow> x \<le> int64_max \<Longrightarrow> wrap64 x = x"
  by (simp add: wrap64_def int64_min_def int64_max_def)

lemma wrap64_bounds: "int64_min \<le> wrap64 x \<and> wrap64 x \<le> int64_max"
proof -
  have "0 \<le> (x + 2 ^ 63) mod 2 ^ 64" and "(x + 2 ^ 63) mod 2 ^ 64 < 2 ^ 64"
    by simp_all
  then show ?thesis by (simp add: wrap64_def int64_min_def int64_max_def)
qed

text \<open>\<open>t.Sub(u)\<close> saturates at the bounds of a 64-bit duration.\<close>

definition time_Sub :: "instant \<Rightarrow> instant \<Rightarrow> duration" where
  "time_Sub t u = max int64_min (min int64_max (t - u))"

text \<open>Integer division of Go truncates towards zero.\<close>

definition go_div :: "int \<Rightarrow> int \<Rightarrow> int" where
  "go_div a b = sgn a * sgn b * (\<bar>a\<bar> div \<bar>b\<bar>)"

lemma go_div_nonneg [simp]: "0 \<le> a \<Longrightarrow> 0 < b \<Longrightarrow> go_div a b = a div b"
  by (cases "a = 0") (simp_all add: go_div_def)

section \<open>Results of fallible calls\<close>

text \<open>A Go call returning \<open>(T, error)\<close> is a sum: \<open>Inl\<close> the error, \<open>Inr\<close> the value.\<close>

definition is_err :: "'e + 'a \<Rightarrow> bool" where
  "is_err r \<longleftrightarrow> (case r of Inl _ \<Rightarrow> True | Inr _ \<Rightarrow> False)"

lemma is_err_simps [simp]: "is_err (Inl e)" "\<not> is_err (Inr x)"
  by (simp_all add: is_err_def)

section \<open>Maps as association lists\<close>

text \<open>
  A Go map is an association list read with \<open>map_of\<close>, written with \<open>AList.update\<close> and
  deleted from with \<open>AList.delete\<close>; a missing key reads as the zero value of its type.
  The update keeps one entry per key, so \<open>length\<close> is Go's \<open>len\<close>.
\<close>

type_synonym ('k, 'v) gomap = "('k \<times> 'v) list"

definition map_get :: "'v \<Rightarrow> ('k, 'v) gomap \<Rightarrow> 'k \<Rightarrow> 'v" where
  "map_get d m k = (case map_of m k of None \<Rightarrow> d | Some v \<Rightarrow> v)"

definition map_has :: "('k, 'v) gomap \<Rightarrow> 'k \<Rightarrow> bool" where
  "map_has m k \<longleftrightarrow> map_of m k \<noteq> None"

abbreviation map_put :: "'k \<Rightarrow> 'v \<Rightarrow> ('k, 'v) gomap \<Rightarrow> ('k, 'v) gomap" where
  "map_put \<equiv> AList.update"

abbreviation map_del :: "'k \<Rightarrow> ('k, 'v) gomap \<Rightarrow> ('k, 'v) gomap" where
  "map_del \<equiv> AList.delete"

abbreviation map_ok :: "('k, 'v) gomap \<Rightarrow> bool" where
  "map_ok m \<equiv> distinct (map fst m)"

lemma map_get_put [simp]: "map_get d (map_put k v m) k' = (if k' = k then v else map_get d m k')"
  by (simp add: map_get_def update_conv)

lemma map_get_del [simp]: "map_get d (map_del k m) k' = (if k' = k then d else map_get d m k')"
  by (simp add: map_get_def delete_conv)

lemma map_get_Nil [simp]: "map_get d [] k = d"
  by (simp add: map_get_def)

lemma map_has_put [simp]: "map_has (map_put k v m) k' \<longleftrightarrow> k' = k \<or> map_has m k'"
  by (simp add: map_has_def update_conv)

lemma map_has_del [simp]: "map_has (map_del k m) k' \<longleftrightarrow> k' \<noteq> k \<and> map_has m k'"
  by (simp add: map_has_def delete_conv)

lemma map_has_fst: "map_has m k \<longleftrightarrow> k \<in> fst ` set m"
  by (simp add: map_has_def map_of_eq_None_iff)

lemma map_ok_put [simp]: "map_ok m \<Longrightarrow> map_ok (map_put k v m)"
  by (rule distinct_update)

lemma map_ok_del [simp]: "map_ok m \<Longrightarrow> map_ok (map_del k m)"
  by (rule distinct_delete)

lemma length_map_put: "map_ok m \<Longrightarrow> length (map_put k v m) = length m + (if map_has m k then 0 else 1)"
  by (induction m) (auto simp: map_has_def)

lemma length_map_del: "map_ok m \<Longrightarrow> length (map_del k m) = length m - (if map_has m k then 1 else 0)"
proof (induction m)
  case (Cons p m)
  show ?case
  proof (cases "fst p = k")
    case True
    with Cons.prems have "k \<notin> fst ` set m" by auto
    then have "map_del k m = m" by simp
    with True show ?thesis by (cases p) (simp add: map_has_def)
  next
    case False
    have "map_has m k \<Longrightarrow> 0 < length m" by (cases m) (auto simp: map_has_def)
    with False Cons show ?thesis by (cases p) (auto simp: map_has_def)
  qed
qed simp

section \<open>Stable sorting\<close>

text \<open>
  \<open>sort.SliceStable\<close> with a comparison \<open>lt\<close>. For a strict weak order every stable
  sort returns the same slice, here the one of insertion sort.
\<close>

fun ins_by :: "('a \<Rightarrow> 'a \<Rightarrow> bool) \<Rightarrow> 'a \<Rightarrow> 'a list \<Rightarrow> 'a list" where
  "ins_by lt x [] = [x]"
| "ins_by lt x (y # ys) = (if lt y x then y # ins_by lt x ys else x # y # ys)"

definition sort_stable :: "('a \<Rightarrow> 'a \<Rightarrow> bool) \<Rightarrow> 'a list \<Rightarrow> 'a list" where
  "sort_stable lt xs = foldr (ins_by lt) xs []"

lemma sort_stable_simps [simp]:
  "sort_stable lt [] = []"
  "sort_stable lt (x # xs) = ins_by lt x (sort_stable lt xs)"
  by (simp_all add: sort_stable_def)

lemma mset_ins_by [simp]: "mset (ins_by lt x xs) = add_mset x (mset xs)"
  by (induction xs) auto

lemma mset_sort_stable [simp]: "mset (sort_stable lt xs) = mset xs"
  by (induction xs) auto

lemma set_sort_stable [simp]: "set (sort_stable lt xs) = set xs"
  using mset_sort_stable [of lt xs] by (metis set_mset_mset)

lemma length_sort_stable [simp]: "length (sort_stable lt xs) = length xs"
  using mset_sort_stable [of lt xs] by (metis size_mset)

lemma distinct_sort_stable [simp]: "distinct (sort_stable lt xs) = distinct xs"
  using mset_sort_stable [of lt xs] by (metis mset_eq_imp_distinct_iff)

definition weak_order :: "('a \<Rightarrow> 'a \<Rightarrow> bool) \<Rightarrow> bool" where
  "weak_order lt \<longleftrightarrow> (\<forall>x y. lt x y \<longrightarrow> \<not> lt y x) \<and>
     (\<forall>x y z. \<not> lt y x \<longrightarrow> \<not> lt z y \<longrightarrow> \<not> lt z x)"

lemma weak_orderI [intro?]:
  assumes "\<And>x y. lt x y \<Longrightarrow> \<not> lt y x" and "\<And>x y z. \<not> lt y x \<Longrightarrow> \<not> lt z y \<Longrightarrow> \<not> lt z x"
  shows "weak_order lt"
  unfolding weak_order_def using assms by blast

lemma sorted_ins_by:
  assumes "weak_order lt" and "sorted_wrt (\<lambda>x y. \<not> lt y x) ys"
  shows "sorted_wrt (\<lambda>x y. \<not> lt y x) (ins_by lt x ys)"
  using assms(2)
proof (induction ys)
  case (Cons y ys)
  have set: "set (ins_by lt x ys) = insert x (set ys)" for x
    by (metis mset_ins_by set_mset_add_mset_insert set_mset_mset)
  from assms(1) have asym: "\<And>a b. lt a b \<Longrightarrow> \<not> lt b a"
    and trans: "\<And>a b c. \<not> lt b a \<Longrightarrow> \<not> lt c b \<Longrightarrow> \<not> lt c a"
    unfolding weak_order_def by blast+
  show ?case
  proof (cases "lt y x")
    case True
    with Cons asym show ?thesis by (auto simp: set)
  next
    case False
    with Cons.prems have "\<forall>z \<in> set ys. \<not> lt z x"
      using trans [of y x] by auto
    with False Cons.prems show ?thesis by auto
  qed
qed simp

lemma sorted_sort_stable:
  "weak_order lt \<Longrightarrow> sorted_wrt (\<lambda>x y. \<not> lt y x) (sort_stable lt xs)"
  by (induction xs) (simp_all add: sorted_ins_by)

lemma sort_stable_id:
  "sorted_wrt (\<lambda>x y. \<not> lt y x) xs \<Longrightarrow> sort_stable lt xs = xs"
proof (induction xs)
  case (Cons x xs)
  then show ?case by (cases xs) simp_all
qed simp

text \<open>Stability: sorting does not reorder the elements of a class that \<open>lt\<close> does not separate.\<close>

lemma filter_ins_by:
  assumes "\<And>y. P y \<Longrightarrow> P x \<Longrightarrow> \<not> lt y x"
  shows "filter P (ins_by lt x xs) = (if P x then x # filter P xs else filter P xs)"
  using assms by (induction xs) auto

lemma filter_sort_stable:
  assumes "\<And>x y. P x \<Longrightarrow> P y \<Longrightarrow> \<not> lt x y"
  shows "filter P (sort_stable lt xs) = filter P xs"
  by (induction xs) (simp_all add: filter_ins_by assms)

section \<open>Lists and sums\<close>

lemma sum_list_update_int:
  "i < length (xs :: int list) \<Longrightarrow> sum_list (xs[i := x]) = sum_list xs - xs ! i + x"
  by (induction xs arbitrary: i) (auto split: nat.split)

lemma sum_list_mono_nth:
  fixes xs ys :: "int list"
  assumes "length xs = length ys" and "\<And>i. i < length xs \<Longrightarrow> xs ! i \<le> ys ! i"
  shows "sum_list xs \<le> sum_list ys"
  using assms
proof (induction xs ys rule: list_induct2)
  case (Cons x xs y ys)
  from Cons.prems [of 0] have "x \<le> y" by simp
  moreover have "sum_list xs \<le> sum_list ys"
    by (rule Cons.IH) (use Cons.prems [of "Suc _"] in auto)
  ultimately show ?case by simp
qed simp

text \<open>First occurrences by a key: the \<open>seen\<close>-map idiom of the server.\<close>

fun dedup_by :: "('a \<Rightarrow> 'k) \<Rightarrow> 'k list \<Rightarrow> 'a list \<Rightarrow> 'a list" where
  "dedup_by key seen [] = []"
| "dedup_by key seen (x # xs) =
     (if key x \<in> set seen then dedup_by key seen xs
      else x # dedup_by key (key x # seen) xs)"

lemma dedup_by_keys:
  "key ` set (dedup_by key seen xs) = key ` set xs - set seen"
  by (induction key seen xs rule: dedup_by.induct) auto

lemma dedup_by_set: "set (dedup_by key seen xs) \<subseteq> set xs"
  by (induction key seen xs rule: dedup_by.induct) auto

lemma dedup_by_distinct: "distinct (map key (dedup_by key seen xs))"
proof (induction key seen xs rule: dedup_by.induct)
  case (2 key seen x xs)
  have "key x \<notin> key ` set (dedup_by key (key x # seen) xs)"
    by (simp add: dedup_by_keys)
  with 2 show ?case by auto
qed simp

lemma length_dedup_by: "length (dedup_by key seen xs) \<le> length xs"
  by (induction key seen xs rule: dedup_by.induct) auto

section \<open>Evolving states\<close>

text \<open>
  The contract of a component whose steps keep an invariant and only move its state up a
  preorder: every run then does.
\<close>

locale evolving =
  fixes step :: "'s \<Rightarrow> 's \<Rightarrow> bool" and inv :: "'s \<Rightarrow> bool" and le :: "'s \<Rightarrow> 's \<Rightarrow> bool"
  assumes step_ok: "inv s \<Longrightarrow> step s s' \<Longrightarrow> inv s' \<and> le s s'"
    and le_refl: "le s s"
    and le_trans: "le s s' \<Longrightarrow> le s' s'' \<Longrightarrow> le s s''"
begin

lemma run_ok: "step\<^sup>*\<^sup>* s s' \<Longrightarrow> inv s \<Longrightarrow> inv s' \<and> le s s'"
proof (induction rule: rtranclp_induct)
  case base
  then show ?case by (simp add: le_refl)
next
  case (step y z)
  then show ?case using step_ok le_trans by blast
qed

end

end
