(* ===== verification/Go_Strings.thy ===== *)
theory Go_Strings
  imports Canopy_Prelude
begin

text \<open>
  The parts of Go's string library the server uses: UTF-8 decoding (\<open>[]rune(s)\<close>,
  \<open>string(runes)\<close>, \<open>utf8.RuneCountInString\<close>), \<open>strconv.Itoa\<close>, \<open>strings.TrimSpace\<close>,
  \<open>Fields\<close>, \<open>Split\<close> at newlines, \<open>Contains\<close> and \<open>ReplaceAll\<close>. A Go string is a
  byte string (type \<open>string\<close>, eight bits per character), so \<open>length\<close> is \<open>len\<close>.
\<close>

section \<open>UTF-8\<close>

text \<open>
  The width of the first rune: the table of \<open>utf8.DecodeRuneInString\<close>. A byte that starts
  no well-formed sequence is a rune of width one (and decodes to U+FFFD).
\<close>

definition byte_in :: "nat \<Rightarrow> nat \<Rightarrow> char \<Rightarrow> bool" where
  "byte_in lo hi c \<longleftrightarrow> lo \<le> of_char c \<and> of_char c \<le> hi"

fun rune_width :: "string \<Rightarrow> nat" where
  "rune_width [] = 0"
| "rune_width (c # s) =
     (let b = (of_char c :: nat) in
      if b < 128 then 1
      else if 194 \<le> b \<and> b \<le> 223 then
        (case s of c1 # _ \<Rightarrow> if byte_in 128 191 c1 then 2 else 1 | _ \<Rightarrow> 1)
      else if 224 \<le> b \<and> b \<le> 239 then
        (case s of c1 # c2 # _ \<Rightarrow>
           if byte_in (if b = 224 then 160 else 128) (if b = 237 then 159 else 191) c1
              \<and> byte_in 128 191 c2 then 3 else 1
         | _ \<Rightarrow> 1)
      else if 240 \<le> b \<and> b \<le> 244 then
        (case s of c1 # c2 # c3 # _ \<Rightarrow>
           if byte_in (if b = 240 then 144 else 128) (if b = 244 then 143 else 191) c1
              \<and> byte_in 128 191 c2 \<and> byte_in 128 191 c3 then 4 else 1
         | _ \<Rightarrow> 1)
      else 1)"

lemma rune_width_pos: "s \<noteq> [] \<Longrightarrow> 0 < rune_width s"
  by (cases s) (auto simp: Let_def split: list.split)

lemma rune_width_le: "rune_width s \<le> length s"
  by (cases s) (auto simp: Let_def split: list.split)

declare rune_width.simps(2) [simp del]

function rune_chunks :: "string \<Rightarrow> string list" where
  "rune_chunks s = (if s = [] then [] else take (rune_width s) s # rune_chunks (drop (rune_width s) s))"
  by pat_completeness auto
termination
  by (relation "measure length") (auto simp: rune_width_pos)

declare rune_chunks.simps [simp del]

definition rune_ok :: "string \<Rightarrow> bool" where
  "rune_ok c \<longleftrightarrow> c \<noteq> [] \<and> rune_width c = length c \<and> (length c = 1 \<longrightarrow> (of_char (hd c) :: nat) < 128)"

text \<open>A rune is kept as its UTF-8 encoding; an invalid byte becomes U+FFFD.\<close>

definition rune_error :: string where "rune_error = [CHR 0xEF, CHR 0xBF, CHR 0xBD]"

definition fix_rune :: "string \<Rightarrow> string" where
  "fix_rune c = (if rune_ok c then c else rune_error)"

definition go_runes :: "string \<Rightarrow> string list" where
  "go_runes s = map fix_rune (rune_chunks s)"

definition rune_count :: "string \<Rightarrow> nat" where
  "rune_count s = length (rune_chunks s)"

lemma rune_chunks_Nil [simp]: "rune_chunks [] = []"
  by (simp add: rune_chunks.simps)

lemma concat_rune_chunks [simp]: "concat (rune_chunks s) = s"
proof (induction s rule: rune_chunks.induct)
  case (1 s)
  then show ?case by (simp add: rune_chunks.simps [of s])
qed

lemma rune_width_append: "rune_ok c \<Longrightarrow> rune_width (c @ r) = length c"
proof (cases c rule: rune_width.cases)
  case (2 b s)
  assume "rune_ok c"
  then show ?thesis
    unfolding rune_ok_def 2
    by (cases s; cases "tl s"; cases "tl (tl s)")
      (auto simp: rune_width.simps Let_def split: if_splits)
qed (simp add: rune_ok_def)

lemma rune_chunks_append_ok:
  assumes "rune_ok c"
  shows "rune_chunks (c @ r) = c # rune_chunks r"
proof -
  from assms have "c \<noteq> []" by (simp add: rune_ok_def)
  then show ?thesis
    by (simp add: rune_chunks.simps [of "c @ r"] rune_width_append [OF assms])
qed

lemma rune_chunks_concat_append:
  "\<forall>c \<in> set cs. rune_ok c \<Longrightarrow> rune_chunks (concat cs @ r) = cs @ rune_chunks r"
  by (induction cs) (simp_all add: rune_chunks_append_ok)

lemma rune_ok_rune_error [simp]: "rune_ok rune_error"
  by (simp add: rune_ok_def rune_error_def rune_width.simps byte_in_def)

lemma rune_ok_fix_rune [simp]: "rune_ok (fix_rune c)"
  by (simp add: fix_rune_def)

lemma go_runes_ok: "c \<in> set (go_runes s) \<Longrightarrow> rune_ok c"
  by (auto simp: go_runes_def)

lemma length_go_runes [simp]: "length (go_runes s) = rune_count s"
  by (simp add: go_runes_def rune_count_def)

lemma rune_count_concat_append:
  "\<forall>c \<in> set cs. rune_ok c \<Longrightarrow> rune_count (concat cs @ r) = length cs + rune_count r"
  by (simp add: rune_count_def rune_chunks_concat_append)

lemma rune_count_Nil [simp]: "rune_count [] = 0"
  by (simp add: rune_count_def)

lemma rune_count_eq_0 [simp]: "rune_count s = 0 \<longleftrightarrow> s = []"
  by (simp add: rune_count_def rune_chunks.simps [of s])

definition ascii :: "char \<Rightarrow> bool" where
  "ascii c \<longleftrightarrow> (of_char c :: nat) < 128"

lemma rune_ok_ascii: "ascii c \<Longrightarrow> rune_ok [c]"
  by (simp add: rune_ok_def ascii_def rune_width.simps)

lemma rune_count_ascii_Cons [simp]: "ascii c \<Longrightarrow> rune_count (c # s) = Suc (rune_count s)"
  using rune_chunks_append_ok [OF rune_ok_ascii, of c s] by (simp add: rune_count_def)

lemma rune_count_ascii_append:
  "\<forall>c \<in> set a. ascii c \<Longrightarrow> rune_count (a @ s) = length a + rune_count s"
  by (induction a) simp_all

lemma rune_count_ascii: "\<forall>c \<in> set a. ascii c \<Longrightarrow> rune_count a = length a"
  using rune_count_ascii_append [of a "[]"] by simp

text \<open>An ASCII byte is never part of a longer rune, so it separates the runes around it.\<close>

lemma rune_width_ascii_mid: "x \<noteq> [] \<Longrightarrow> ascii c \<Longrightarrow> rune_width (x @ c # y) = rune_width x"
  by (cases x) (auto simp: rune_width.simps Let_def byte_in_def ascii_def split: list.splits
      simp: neq_Nil_conv append_eq_Cons_conv Cons_eq_append_conv)

lemma rune_chunks_ascii_mid: "ascii c \<Longrightarrow> rune_chunks (x @ c # y) = rune_chunks x @ [c] # rune_chunks y"
proof (induction x rule: rune_chunks.induct)
  case (1 x)
  show ?case
  proof (cases "x = []")
    case True
    with 1 show ?thesis using rune_chunks_append_ok [OF rune_ok_ascii, of c y] by simp
  next
    case False
    with 1 show ?thesis
      using rune_width_le [of x]
      by (simp add: rune_chunks.simps [of "x @ c # y"] rune_chunks.simps [of x] rune_width_ascii_mid)
  qed
qed

lemma rune_count_ascii_mid: "ascii c \<Longrightarrow> rune_count (x @ c # y) = rune_count x + Suc (rune_count y)"
  by (simp add: rune_count_def rune_chunks_ascii_mid)

text \<open>The bytes of a rune of more than one byte are not ASCII.\<close>

lemma rune_ok_wide: "rune_ok c \<Longrightarrow> length c \<noteq> 1 \<Longrightarrow> b \<in> set c \<Longrightarrow> \<not> ascii b"
  by (cases c) (auto simp: rune_ok_def rune_width.simps Let_def byte_in_def ascii_def
      split: list.splits if_splits)

section \<open>Numbers in decimal\<close>

fun nat_digits :: "nat \<Rightarrow> string" where
  "nat_digits n = (if n < 10 then [char_of (48 + n)] else nat_digits (n div 10) @ [char_of (48 + n mod 10)])"

declare nat_digits.simps [simp del]

definition itoa :: "int \<Rightarrow> string" where
  "itoa i = (if i < 0 then CHR ''-'' # nat_digits (nat (- i)) else nat_digits (nat i))"

lemma nat_digits_nonempty [simp]: "nat_digits n \<noteq> []"
  by (subst nat_digits.simps) simp

lemma digit_of_char: "d < 10 \<Longrightarrow> (of_char (char_of (48 + d :: nat)) :: nat) = 48 + d"
  by (simp add: of_char_of)

lemma nat_digits_range: "c \<in> set (nat_digits n) \<Longrightarrow> byte_in 48 57 c"
proof (induction n rule: nat_digits.induct)
  case (1 n)
  show ?case
  proof (cases "n < 10")
    case True
    with "1.prems" have "c = char_of (48 + n)" by (simp add: nat_digits.simps [of n])
    with True digit_of_char [of n] show ?thesis by (simp add: byte_in_def)
  next
    case False
    with "1.prems" consider "c \<in> set (nat_digits (n div 10))" | "c = char_of (48 + n mod 10)"
      by (auto simp: nat_digits.simps [of n])
    then show ?thesis
    proof cases
      case 1
      with False "1.IH" show ?thesis by simp
    next
      case 2
      moreover have "n mod 10 < 10" by simp
      ultimately show ?thesis using digit_of_char [of "n mod 10"] by (simp add: byte_in_def)
    qed
  qed
qed

lemma ascii_nat_digits: "c \<in> set (nat_digits n) \<Longrightarrow> ascii c"
  using nat_digits_range [of c n] by (simp add: byte_in_def ascii_def)

lemma length_nat_digits_mono: "m \<le> n \<Longrightarrow> length (nat_digits m) \<le> length (nat_digits n)"
proof (induction n arbitrary: m rule: nat_digits.induct)
  case (1 n)
  show ?case
  proof (cases "m < 10")
    case True
    then show ?thesis by (simp add: nat_digits.simps [of m] nat_digits.simps [of n])
  next
    case False
    with "1.prems" have "\<not> n < 10" and "m div 10 \<le> n div 10"
      by (simp_all add: div_le_mono)
    with "1.IH" have "length (nat_digits (m div 10)) \<le> length (nat_digits (n div 10))" by simp
    with False \<open>\<not> n < 10\<close> show ?thesis
      by (simp add: nat_digits.simps [of m] nat_digits.simps [of n])
  qed
qed

lemma length_nat_digits_less: "n < 10 ^ k \<Longrightarrow> 0 < k \<Longrightarrow> length (nat_digits n) \<le> k"
proof (induction k arbitrary: n)
  case (Suc k)
  show ?case
  proof (cases "n < 10")
    case False
    with Suc.prems have "n div 10 < 10 ^ k" "0 < k" by (auto intro: less_mult_imp_div_less gr0I)
    with Suc.IH False show ?thesis by (simp add: nat_digits.simps [of n])
  qed (simp add: nat_digits.simps)
qed simp

section \<open>White space\<close>

text \<open>The runes of \<open>unicode.IsSpace\<close>, by their encodings.\<close>

definition space_rune :: "string \<Rightarrow> bool" where
  "space_rune c \<longleftrightarrow> c \<in> set [[CHR 0x0A], [CHR 0x09], [CHR 0x0B], [CHR 0x0C], [CHR 0x0D], '' '',
     [CHR 0xC2, CHR 0x85], [CHR 0xC2, CHR 0xA0], [CHR 0xE1, CHR 0x9A, CHR 0x80],
     [CHR 0xE2, CHR 0x80, CHR 0x80], [CHR 0xE2, CHR 0x80, CHR 0x81], [CHR 0xE2, CHR 0x80, CHR 0x82],
     [CHR 0xE2, CHR 0x80, CHR 0x83], [CHR 0xE2, CHR 0x80, CHR 0x84], [CHR 0xE2, CHR 0x80, CHR 0x85],
     [CHR 0xE2, CHR 0x80, CHR 0x86], [CHR 0xE2, CHR 0x80, CHR 0x87], [CHR 0xE2, CHR 0x80, CHR 0x88],
     [CHR 0xE2, CHR 0x80, CHR 0x89], [CHR 0xE2, CHR 0x80, CHR 0x8A], [CHR 0xE2, CHR 0x80, CHR 0xA8],
     [CHR 0xE2, CHR 0x80, CHR 0xA9], [CHR 0xE2, CHR 0x80, CHR 0xAF], [CHR 0xE2, CHR 0x81, CHR 0x9F],
     [CHR 0xE3, CHR 0x80, CHR 0x80]]"

definition trim_space :: "string \<Rightarrow> string" where
  "trim_space s = concat (rev (dropWhile space_rune (rev (dropWhile space_rune (rune_chunks s)))))"

text \<open>\<open>strings.Fields\<close>: the maximal runs of runes that are not white space.\<close>

fun fields_of :: "string list \<Rightarrow> string list \<Rightarrow> string list" where
  "fields_of [] acc = (if acc = [] then [] else [concat (rev acc)])"
| "fields_of (c # cs) acc =
     (if space_rune c then (if acc = [] then fields_of cs [] else concat (rev acc) # fields_of cs [])
      else fields_of cs (c # acc))"

definition strings_Fields :: "string \<Rightarrow> string list" where
  "strings_Fields s = fields_of (rune_chunks s) []"

fun strings_Join :: "string list \<Rightarrow> string \<Rightarrow> string" where
  "strings_Join [] sep = []"
| "strings_Join [s] sep = s"
| "strings_Join (s # ss) sep = s @ sep @ strings_Join ss sep"

lemma strings_Join_snoc: "ss \<noteq> [] \<Longrightarrow> strings_Join (ss @ [s]) sep = strings_Join ss sep @ sep @ s"
  by (induction ss sep rule: strings_Join.induct) auto

lemma set_strings_Join: "set (strings_Join ss sep) \<subseteq> (\<Union>s \<in> set ss. set s) \<union> set sep"
  by (induction ss sep rule: strings_Join.induct) auto

fun split_lines :: "string \<Rightarrow> string list" where
  "split_lines [] = [[]]"
| "split_lines (c # s) =
     (if c = CHR 0x0A then [] # split_lines s
      else case split_lines s of l # ls \<Rightarrow> (c # l) # ls | [] \<Rightarrow> [[c]])"

section \<open>Searching and replacing\<close>

fun starts_with :: "string \<Rightarrow> string \<Rightarrow> bool" where
  "starts_with [] s = True"
| "starts_with (c # p) [] = False"
| "starts_with (c # p) (d # s) = (c = d \<and> starts_with p s)"

fun contains :: "string \<Rightarrow> string \<Rightarrow> bool" where
  "contains p [] = (p = [])"
| "contains p (c # s) = (starts_with p (c # s) \<or> contains p s)"

text \<open>\<open>strings.ReplaceAll\<close> for a non-empty pattern: leftmost, non-overlapping.\<close>

function replace_all :: "string \<Rightarrow> string \<Rightarrow> string \<Rightarrow> string" where
  "replace_all old new s =
     (case s of [] \<Rightarrow> []
      | c # s' \<Rightarrow> if old \<noteq> [] \<and> starts_with old s then new @ replace_all old new (drop (length old) s)
                 else c # replace_all old new s')"
  by pat_completeness auto
termination
  by (relation "measure (\<lambda>(old, new, s). length s)") auto

declare replace_all.simps [simp del]

lemma starts_with_append: "starts_with p s \<longleftrightarrow> (\<exists>r. s = p @ r)"
  by (induction p s rule: starts_with.induct) auto

lemma contains_iff: "contains p s \<longleftrightarrow> (\<exists>a b. s = a @ p @ b)"
proof (induction s)
  case (Cons c s)
  show ?case
  proof
    assume "contains p (c # s)"
    then show "\<exists>a b. c # s = a @ p @ b"
    proof (simp, elim disjE)
      assume "starts_with p (c # s)"
      then obtain r where "c # s = [] @ p @ r" by (auto simp: starts_with_append)
      then show ?thesis by blast
    next
      assume "contains p s"
      with Cons obtain a b where "c # s = (c # a) @ p @ b" by auto
      then show ?thesis by blast
    qed
  next
    assume "\<exists>a b. c # s = a @ p @ b"
    then obtain a b where ab: "c # s = a @ p @ b" by blast
    show "contains p (c # s)"
    proof (cases a)
      case Nil
      with ab have "starts_with p (c # s)" by (simp add: starts_with_append)
      then show ?thesis by simp
    next
      case (Cons x a')
      with ab have "s = a' @ p @ b" by simp
      with Cons.IH show ?thesis by auto
    qed
  qed
qed simp

lemma replace_all_Nil [simp]: "replace_all old new [] = []"
  by (simp add: replace_all.simps)

lemma replace_all_hit:
  "old \<noteq> [] \<Longrightarrow> starts_with old s \<Longrightarrow> replace_all old new s = new @ replace_all old new (drop (length old) s)"
  by (subst replace_all.simps) (auto split: list.split elim: starts_with.elims)

lemma replace_all_miss:
  "\<not> starts_with old (c # s) \<Longrightarrow> replace_all old new (c # s) = c # replace_all old new s"
  by (simp add: replace_all.simps [of old new "c # s"])

lemma contains_skip: "h \<notin> set u \<Longrightarrow> contains (h # t) (u @ v) \<longleftrightarrow> contains (h # t) v"
  by (induction u) auto

lemma starts_with_replaced:
  assumes "h \<notin> set t" and "starts_with t (replace_all (h # o') (h # n') s)"
  shows "starts_with t s"
  using assms
proof (induction t arbitrary: s)
  case (Cons e t)
  show ?case
  proof (cases s)
    case (Cons c s')
    show ?thesis
    proof (cases "starts_with (h # o') s")
      case True
      with Cons.prems show ?thesis by (simp add: replace_all_hit)
    next
      case False
      with Cons have "replace_all (h # o') (h # n') s = c # replace_all (h # o') (h # n') s'"
        by (simp add: replace_all_miss)
      with Cons Cons.prems Cons.IH [of s'] show ?thesis by simp
    qed
  qed (use Cons.prems in simp)
qed simp

text \<open>
  A replacement that starts with the marker's first character but goes on differently
  removes every occurrence: no new one can arise across a boundary, because that first
  character occurs nowhere else in the marker or in the replacement.
\<close>

lemma replace_all_removes:
  assumes "h \<notin> set (e # t)" and "d \<noteq> e" and "h \<notin> set (d # n)"
  shows "\<not> contains (h # e # t) (replace_all (h # e # t) (h # d # n) s)"
proof (induction s rule: length_induct)
  case (1 s)
  show ?case
  proof (cases s)
    case (Cons c s')
    show ?thesis
    proof (cases "starts_with (h # e # t) s")
      case True
      let ?r = "replace_all (h # e # t) (h # d # n) (drop (length (h # e # t)) s)"
      from Cons have "length (drop (length (h # e # t)) s) < length s" by simp
      with 1 have "\<not> contains (h # e # t) ?r" by blast
      with assms(3) have "\<not> contains (h # e # t) ((d # n) @ ?r)"
        by (subst contains_skip) auto
      with True assms(2) show ?thesis by (simp add: replace_all_hit)
    next
      case False
      let ?r = "replace_all (h # e # t) (h # d # n) s'"
      from 1 Cons have "\<not> contains (h # e # t) ?r" by simp
      moreover have "\<not> starts_with (h # e # t) (c # ?r)"
        using False starts_with_replaced [OF assms(1), of "e # t" "d # n" s'] by (auto simp: Cons)
      ultimately show ?thesis using False by (simp add: Cons replace_all_miss)
    qed
  qed simp
qed

text \<open>A pattern without a line break lies within one of the parts around a line break.\<close>

lemma starts_with_break: "nl \<notin> set p \<Longrightarrow> starts_with p (u @ nl # v) \<Longrightarrow> starts_with p u"
proof (induction p arbitrary: u)
  case (Cons c p)
  then show ?case by (cases u) auto
qed simp

lemma contains_break:
  assumes "nl \<notin> set p" and "contains p (u @ nl # v)"
  shows "contains p u \<or> contains p v"
  using assms(2)
proof (induction u)
  case Nil
  with assms(1) show ?case by (cases p) auto
next
  case (Cons c u)
  then show ?case using starts_with_break [OF assms(1), of "c # u" v] by auto
qed

lemma contains_Join_break:
  assumes "nl \<notin> set p" and "p \<noteq> []" and "contains p (strings_Join ss [nl, nl])"
  shows "\<exists>s \<in> set ss. contains p s"
  using assms(3)
proof (induction ss "[nl, nl]" rule: strings_Join.induct)
  case (3 s t ss)
  then have "contains p s \<or> contains p (nl # strings_Join (t # ss) [nl, nl])"
    using contains_break [OF assms(1), of s "nl # strings_Join (t # ss) [nl, nl]"] by simp
  moreover have "contains p (nl # r) \<Longrightarrow> contains p r" for r
    using contains_break [OF assms(1), of "[]" r] assms(2) by auto
  ultimately show ?case using "3.hyps" by auto
qed (use assms(2) in auto)

text \<open>Replacing invalid bytes by U+FFFD creates no occurrence of an ASCII pattern.\<close>

lemma fix_rune_cases:
  assumes "c \<noteq> []"
  obtains b where "fix_rune c = [b]" "c = [b]" "ascii b" | "\<forall>b \<in> set (fix_rune c). \<not> ascii b"
proof (cases "rune_ok c \<and> length c = 1")
  case True
  then obtain b where "c = [b]" by (auto simp: length_Suc_conv)
  with True that(1) [of b] show ?thesis by (simp add: fix_rune_def rune_ok_def ascii_def)
next
  case False
  have "\<forall>b \<in> set rune_error. \<not> ascii b" by (simp add: rune_error_def ascii_def)
  with False that(2) rune_ok_wide [of c] show ?thesis by (auto simp: fix_rune_def)
qed

lemma starts_with_fix_runes:
  "\<forall>c \<in> set cs. c \<noteq> [] \<Longrightarrow> \<forall>b \<in> set p. ascii b \<Longrightarrow> starts_with p (concat (map fix_rune cs)) \<Longrightarrow>
     starts_with p (concat cs)"
proof (induction cs arbitrary: p)
  case (Cons c cs)
  show ?case
  proof (cases p)
    case (Cons q ps)
    have "c \<noteq> []" using Cons.prems by simp
    then show ?thesis
    proof (cases rule: fix_rune_cases)
      case (1 b)
      with Cons Cons.prems Cons.IH [of ps] show ?thesis by simp
    next
      case 2
      have "fix_rune c \<noteq> []" using rune_ok_fix_rune [of c] by (simp add: rune_ok_def)
      with 2 Cons Cons.prems show ?thesis by (cases "fix_rune c") auto
    qed
  qed simp
qed simp

lemma contains_fix_runes:
  assumes "\<forall>c \<in> set cs. c \<noteq> []" and "\<forall>b \<in> set (h # t). ascii b" and "contains (h # t) (concat (map fix_rune cs))"
  shows "contains (h # t) (concat cs)"
  using assms(1,3)
proof (induction cs)
  case (Cons c cs)
  have skip: "contains (h # t) v \<Longrightarrow> contains (h # t) (u @ v)" for u v
    by (metis contains_iff append_assoc)
  have "c \<noteq> []" using Cons.prems by simp
  then show ?case
  proof (cases rule: fix_rune_cases)
    case (1 b)
    then show ?thesis
      using Cons assms(2) starts_with_fix_runes [of "c # cs" "h # t"] skip [of _ c] by auto
  next
    case 2
    with assms(2) have "h \<notin> set (fix_rune c)" by auto
    with Cons show ?thesis using skip [of _ c] by (simp add: contains_skip)
  qed
qed simp

lemma rune_chunks_nonempty: "c \<in> set (rune_chunks s) \<Longrightarrow> c \<noteq> []"
proof (induction s rule: rune_chunks.induct)
  case (1 s)
  then show ?case using rune_width_pos [of s] by (auto simp: rune_chunks.simps [of s] split: if_splits)
qed

text \<open>A contiguous run of the decoded runes contains no ASCII pattern the text does not contain.\<close>

lemma contains_go_runes:
  assumes "\<forall>b \<in> set (h # t). ascii b" and "\<not> contains (h # t) s"
  shows "\<not> contains (h # t) (concat (take k (go_runes s)))"
    and "\<not> contains (h # t) (concat (drop k (go_runes s)))"
proof -
  have part: "\<not> contains (h # t) (concat cs)" if "rune_chunks s = us @ cs @ vs" for us cs vs
  proof
    assume "contains (h # t) (concat cs)"
    then obtain a b where "concat cs = a @ (h # t) @ b" by (auto simp: contains_iff)
    then have "s = (concat us @ a) @ (h # t) @ (b @ concat vs)"
      using concat_rune_chunks [of s] that by (metis append.assoc concat_append)
    then have "contains (h # t) s" unfolding contains_iff by blast
    with assms(2) show False by simp
  qed
  have ne: "\<forall>c \<in> set (take k (rune_chunks s)). c \<noteq> []" "\<forall>c \<in> set (drop k (rune_chunks s)). c \<noteq> []"
    using rune_chunks_nonempty by (auto dest: in_set_takeD in_set_dropD)
  show "\<not> contains (h # t) (concat (take k (go_runes s)))"
    using contains_fix_runes [OF ne(1) assms(1)] part [of "[]" "take k (rune_chunks s)" "drop k (rune_chunks s)"]
    by (auto simp: go_runes_def take_map)
  show "\<not> contains (h # t) (concat (drop k (go_runes s)))"
    using contains_fix_runes [OF ne(2) assms(1)] part [of "take k (rune_chunks s)" "drop k (rune_chunks s)" "[]"]
    by (auto simp: go_runes_def drop_map)
qed

text \<open>
  A block that ends with a terminator after a line break, whose text before it does not
  contain the terminator, contains it nowhere else.
\<close>

lemma terminator_at_end:
  assumes p: "p = h # t" "h \<notin> set t" "h \<noteq> z" "nl \<notin> set p"
    and q: "\<not> contains p q" and eq: "q @ nl # p @ [z] = a @ p @ b"
  shows "b = [z]"
proof -
  from eq consider r where "q = a @ r" "r @ nl # p @ [z] = p @ b"
    | r where "a = q @ r" "nl # p @ [z] = r @ p @ b"
    unfolding append_eq_append_conv2 [of q "nl # p @ [z]"] by metis
  then show ?thesis
  proof cases
    case 1
    have "\<not> starts_with p r"
      using q 1(1) by (auto simp: contains_iff starts_with_append)
    moreover have "starts_with p (r @ nl # p @ [z])"
      by (simp add: 1(2) starts_with_append)
    ultimately show ?thesis using starts_with_break [OF p(4)] by blast
  next
    case 2
    then have len: "length r + length b = 2" by (auto dest: arg_cong [where f = length])
    from 2(2) p have "r \<noteq> []" by auto
    then obtain x r' where r: "r = x # r'" by (cases r) auto
    with 2(2) have e: "p @ [z] = r' @ p @ b" by simp
    show ?thesis
    proof (cases r')
      case Nil
      with e show ?thesis by simp
    next
      case (Cons y ys)
      with len r have "ys = []" "b = []" by auto
      with e Cons p have "t @ [z] = h # t" by simp
      with p(2,3) show ?thesis by (cases t) auto
    qed
  qed
qed

section \<open>Quoting and instants\<close>

text \<open>
  \<open>strconv.Quote\<close> for ASCII and printable Unicode text: quotes, backslashes and control
  bytes are escaped, the bytes of printable runes above ASCII are kept.
\<close>

definition hex_digit :: "nat \<Rightarrow> char" where
  "hex_digit d = (if d < 10 then char_of (48 + d) else char_of (87 + d))"

definition quote_char :: "char \<Rightarrow> string" where
  "quote_char c =
     (let b = (of_char c :: nat) in
      if c = CHR 0x22 \<or> c = CHR 0x5C then [CHR 0x5C, c]
      else if b = 7 then [CHR 0x5C, CHR ''a''] else if b = 8 then [CHR 0x5C, CHR ''b'']
      else if b = 12 then [CHR 0x5C, CHR ''f''] else if b = 10 then [CHR 0x5C, CHR ''n'']
      else if b = 13 then [CHR 0x5C, CHR ''r''] else if b = 9 then [CHR 0x5C, CHR ''t'']
      else if b = 11 then [CHR 0x5C, CHR ''v'']
      else if b < 32 \<or> b = 127 then [CHR 0x5C, CHR ''x'', hex_digit (b div 16), hex_digit (b mod 16)]
      else [c])"

definition strconv_Quote :: "string \<Rightarrow> string" where
  "strconv_Quote s = CHR 0x22 # concat (map quote_char s) @ [CHR 0x22]"

definition format_bool :: "bool \<Rightarrow> string" where
  "format_bool b = (if b then ''true'' else ''false'')"

definition pad_digits :: "nat \<Rightarrow> int \<Rightarrow> string" where
  "pad_digits w i = (let s = nat_digits (nat i) in replicate (w - length s) (CHR ''0'') @ s)"

text \<open>
  The proleptic Gregorian date of a day counted from 1 January of year 1, the zero
  \<open>time.Time\<close>, and \<open>Format(time.RFC3339)\<close> of an instant in UTC.
\<close>

definition civil_date :: "int \<Rightarrow> int \<times> int \<times> int" where
  "civil_date day =
     (let z = day + 306;
          era = z div 146097;
          doe = z mod 146097;
          yoe = (doe - doe div 1460 + doe div 36524 - doe div 146096) div 365;
          doy = doe - (365 * yoe + yoe div 4 - yoe div 100);
          mp = (5 * doy + 2) div 153;
          d = doy - (153 * mp + 2) div 5 + 1;
          m = (if mp < 10 then mp + 3 else mp - 9)
      in (yoe + era * 400 + (if m \<le> 2 then 1 else 0), m, d))"

definition format_rfc3339 :: "instant \<Rightarrow> string" where
  "format_rfc3339 t =
     (let secs = t div 1000000000;
          (y, m, d) = civil_date (secs div 86400);
          tod = secs mod 86400
      in pad_digits 4 y @ ''-'' @ pad_digits 2 m @ ''-'' @ pad_digits 2 d @ ''T''
         @ pad_digits 2 (tod div 3600) @ '':'' @ pad_digits 2 (tod div 60 mod 60) @ '':''
         @ pad_digits 2 (tod mod 60) @ ''Z'')"

text \<open>\<open>Format(time.RFC3339Nano)\<close>: the fraction without its trailing zeros.\<close>

definition format_rfc3339nano :: "instant \<Rightarrow> string" where
  "format_rfc3339nano t =
     (let frac = rev (dropWhile (\<lambda>c. c = CHR ''0'') (rev (pad_digits 9 (t mod 1000000000))))
      in butlast (format_rfc3339 t) @ (if frac = [] then [] else ''.'' @ frac) @ ''Z'')"

lemma format_rfc3339_epoch: "format_rfc3339 (719162 * 86400 * 1000000000) = ''1970-01-01T00:00:00Z''"
  by code_simp

end
