(* ===== verification/Token_Estimator.thy ===== *)
theory Token_Estimator
  imports Go_Strings
begin

text \<open>
  The token counter of the context compiler: the interface \<open>TokenEstimator\<close>
  (\<open>internal/context/types.go\<close>) as a locale, its implementation \<open>charTokenEstimator\<close>
  (\<open>internal/context/token_estimator.go\<close>) as an interpretation.
\<close>

text \<open>What the compiler relies on: counts are never negative and an empty text costs nothing.\<close>

locale token_estimator =
  fixes est :: "string \<Rightarrow> int"
  assumes est_nonneg: "0 \<le> est s"
    and est_empty: "est [] = 0"

definition charTokenEstimator_Estimate :: "string \<Rightarrow> int" where
  "charTokenEstimator_Estimate s =
     (let rc = int (rune_count s) in if rc = 0 then 0 else go_div (rc + 3) 4)"

lemma charTokenEstimator_eq: "charTokenEstimator_Estimate s = (int (rune_count s) + 3) div 4"
  by (simp add: charTokenEstimator_Estimate_def Let_def)

interpretation char_est: token_estimator charTokenEstimator_Estimate
  by unfold_locales (simp_all add: charTokenEstimator_eq)

lemma estimate_le_iff:
  "charTokenEstimator_Estimate s \<le> k \<longleftrightarrow> int (rune_count s) \<le> 4 * k"
  by (simp add: charTokenEstimator_eq) linarith

end
