(* ===== verification/Reference_Budget.thy ===== *)
theory Reference_Budget
  imports Token_Estimator
begin

text \<open>
  The selected-source budget of a multi-reference turn
  (\<open>internal/context/multi_reference.go\<close>, lines 32--472): the constants, the source
  record, the escaping of the block terminator and \<open>AllocateMultiReferenceBudget\<close> with its
  two passes, \<open>allocateRemaining\<close> (largest remainder) and \<open>redistributeUnused\<close>. The
  lemmas establish the invariants the source's comment promises for the vector.
\<close>

section \<open>Constants and sources\<close>

definition referenceMaxBudget :: int where [simp]: "referenceMaxBudget = 16384"
definition referenceMinSourceTokens :: int where [simp]: "referenceMinSourceTokens = 256"
definition referenceMaxSourceTokens :: int where [simp]: "referenceMaxSourceTokens = 2048"
definition referenceDefaultProfileBudget :: int where [simp]: "referenceDefaultProfileBudget = 8000"
definition referenceCharsPerToken :: int where [simp]: "referenceCharsPerToken = 4"
definition referenceMinSourceCount :: int where [simp]: "referenceMinSourceCount = 2"
definition referenceMaxSourceCount :: int where [simp]: "referenceMaxSourceCount = 20"

definition blockOpen :: string where "blockOpen = ''<canopy_multi_reference version='' @ [CHR 0x22] @ ''1'' @ [CHR 0x22]"
definition blockClose :: string where "blockClose = ''</canopy_multi_reference''"
definition blockTerminatorEscaped :: string where
  "blockTerminatorEscaped = [CHR ''<'', CHR 0x5C] @ ''/canopy_multi_reference''"

record source_input =
  si_NodeID :: uuid
  si_AuthorID :: uuid
  si_NodeType :: string
  si_SequenceNum :: int
  si_CreatedAt :: instant
  si_BranchRootID :: uuid
  si_ContentHash :: string
  si_SignedContentHash :: string
  si_Content :: string
  si_Label :: string
  si_ColorKey :: string

datatype multi_reference_error =
    SourceCountTooLow int
  | SourceCountTooHigh int
  | ContextBudgetExceeded int int int int \<comment> \<open>sources, required, profile budget, reserved\<close>
  | SourceNotFound string
  | SelectionStale string

section \<open>Estimation\<close>

definition escapeBlockTerminator :: "string \<Rightarrow> string \<times> bool" where
  "escapeBlockTerminator content =
     (if \<not> contains blockClose content then (content, False)
      else (replace_all blockClose blockTerminatorEscaped content, True))"

definition estimateReferenceTokens :: "string \<Rightarrow> int" where
  "estimateReferenceTokens content = charTokenEstimator_Estimate content"

definition contributionTokens :: "string \<Rightarrow> int" where
  "contributionTokens content = estimateReferenceTokens (fst (escapeBlockTerminator content))"

section \<open>Allocation\<close>

definition referenceProfileBudget :: "int \<Rightarrow> int" where
  "referenceProfileBudget profileBudget =
     (if profileBudget \<le> 0 then referenceDefaultProfileBudget else profileBudget)"

text \<open>
  \<open>int(float64(p) * 0.50)\<close> is \<open>p div 2\<close> for every positive budget below \<open>2^53\<close>, where the
  conversion is exact; above it both sides exceed the cap of 16384.
\<close>

definition referenceAvailableBudget :: "int \<Rightarrow> int" where
  "referenceAvailableBudget profileBudget =
     (let available = referenceProfileBudget profileBudget div 2
      in if available > referenceMaxBudget then referenceMaxBudget else available)"

text \<open>
  The first loop of \<open>allocateRemaining\<close>: proportional shares, capped, with the remainders
  that order the second loop. Each iteration reads and writes index \<open>i\<close> only.
\<close>

fun proportionalShares :: "int \<Rightarrow> int \<Rightarrow> int list \<Rightarrow> int list \<Rightarrow> int list \<times> int list \<times> int" where
  "proportionalShares remaining totalNeed (n # need) (a # allocations) =
     (let (as, rs, distributed) = proportionalShares remaining totalNeed need allocations
      in if n = 0 then (a # as, 0 # rs, distributed)
         else
           (let numerator = remaining * n;
                share0 = go_div numerator totalNeed;
                headroom = referenceMaxSourceTokens - a;
                share = (if share0 > headroom then headroom else share0)
            in ((a + share) # as, (numerator - share * totalNeed) # rs, share + distributed)))"
| "proportionalShares remaining totalNeed need allocations = (allocations, [], 0)"

text \<open>One round of the second loop over the candidates in remainder order.\<close>

fun handOutRound :: "nat list \<Rightarrow> int list \<Rightarrow> int \<Rightarrow> bool \<Rightarrow> int list \<times> int \<times> bool" where
  "handOutRound [] allocations leftover progressed = (allocations, leftover, progressed)"
| "handOutRound (i # order) allocations leftover progressed =
     (if leftover = 0 then (allocations, leftover, progressed)
      else if allocations ! i \<ge> referenceMaxSourceTokens
      then handOutRound order allocations leftover progressed
      else handOutRound order (allocations[i := allocations ! i + 1]) (leftover - 1) True)"

lemma handOutRound_leftover:
  "0 \<le> leftover \<Longrightarrow> handOutRound order allocations leftover p = (as, l, q) \<Longrightarrow>
     0 \<le> l \<and> l \<le> leftover \<and> (q \<longrightarrow> p \<or> l < leftover)"
proof (induction order allocations leftover p arbitrary: as l q rule: handOutRound.induct)
  case (2 i order allocations leftover p)
  show ?case
  proof (cases "leftover = 0 \<or> allocations ! i \<ge> referenceMaxSourceTokens")
    case True
    with 2 show ?thesis by (auto split: if_splits)
  next
    case False
    with "2.prems" have "handOutRound order (allocations[i := allocations ! i + 1]) (leftover - 1) True = (as, l, q)"
      by simp
    with False "2.IH"(2) "2.prems"(1) have "0 \<le> l \<and> l \<le> leftover - 1" by auto
    then show ?thesis by auto
  qed
qed auto

function handOut :: "nat list \<Rightarrow> int list \<Rightarrow> int \<Rightarrow> int list" where
  "handOut order allocations leftover =
     (if leftover > 0 then
        (case handOutRound order allocations leftover False of
           (as, l, progressed) \<Rightarrow> if progressed then handOut order as l else as)
      else allocations)"
  by pat_completeness auto
termination
  by (relation "measure (\<lambda>(order, allocations, leftover). nat leftover)")
    (auto dest!: handOutRound_leftover [rotated, OF sym])

declare handOut.simps [simp del]

definition remainderOrder :: "int list \<Rightarrow> int list \<Rightarrow> nat list" where
  "remainderOrder need remainders =
     sort_stable (\<lambda>ia ib. if remainders ! ia \<noteq> remainders ! ib then remainders ! ia > remainders ! ib else ia < ib)
       (filter (\<lambda>i. need ! i > 0) [0..<length need])"

definition allocateRemaining :: "int list \<Rightarrow> int list \<Rightarrow> int \<Rightarrow> int \<Rightarrow> int list" where
  "allocateRemaining allocations need totalNeed remaining =
     (case proportionalShares remaining totalNeed need allocations of
        (as, remainders, distributed) \<Rightarrow>
          let leftover = remaining - distributed
          in if leftover \<le> 0 then as else handOut (remainderOrder need remainders) as leftover)"

text \<open>Steps 1 and 2 of \<open>redistributeUnused\<close>: what each source leaves unused.\<close>

fun unusedTokens :: "int list \<Rightarrow> int list \<Rightarrow> int list \<times> bool list \<times> int" where
  "unusedTokens (a # allocations) (contribution # contributions) =
     (let (gs, bs, pool) = unusedTokens allocations contributions
      in if contribution \<ge> a then (0 # gs, False # bs, pool)
         else ((a - contribution) # gs, (contribution < referenceMinSourceTokens) # bs, (a - contribution) + pool))"
| "unusedTokens allocations contributions = ([], [], 0)"

text \<open>Step 3: the pool is handed out once, in canonical order.\<close>

fun placePool :: "int list \<Rightarrow> int list \<Rightarrow> int \<Rightarrow> int list \<times> int" where
  "placePool (a # allocations) (contribution # contributions) unplaced =
     (if unplaced = 0 then (a # allocations, unplaced)
      else
        (let headroom = referenceMaxSourceTokens - a;
             wanted = contribution - a
         in if headroom \<le> 0 \<or> wanted \<le> 0
            then (let (as, u) = placePool allocations contributions unplaced in (a # as, u))
            else
              (let take0 = (if unplaced > headroom then headroom else unplaced);
                   take = (if take0 > wanted then wanted else take0);
                   (as, u) = placePool allocations contributions (unplaced - take)
               in ((a + take) # as, u))))"
| "placePool allocations contributions unplaced = (allocations, unplaced)"

text \<open>Step 4: the donors settle in canonical order.\<close>

fun settleDonors :: "int list \<Rightarrow> int list \<Rightarrow> bool list \<Rightarrow> int \<Rightarrow> int list" where
  "settleDonors (a # allocations) (g # givable) (below # belowStart) placed =
     (if g = 0 then a # settleDonors allocations givable belowStart placed
      else if below then (a - g) # settleDonors allocations givable belowStart placed
      else
        (let give = (if g > placed then placed else g)
         in (a - give) # settleDonors allocations givable belowStart (placed - give)))"
| "settleDonors allocations givable belowStart placed = allocations"

definition redistributeUnused :: "int list \<Rightarrow> source_input list \<Rightarrow> int list" where
  "redistributeUnused allocations sources =
     (let contributions = map (contributionTokens \<circ> si_Content) sources;
          (givable, belowStart, pool) = unusedTokens allocations contributions
      in if pool = 0 then allocations
         else
           (let (as, unplaced) = placePool allocations contributions pool
            in settleDonors as givable belowStart (pool - unplaced)))"

definition weightedNeed :: "source_input \<Rightarrow> int" where
  "weightedNeed src =
     (let estimated0 = contributionTokens (si_Content src);
          estimated = (if estimated0 > referenceMaxSourceTokens then referenceMaxSourceTokens else estimated0)
      in if estimated > referenceMinSourceTokens then estimated - referenceMinSourceTokens else 0)"

definition AllocateMultiReferenceBudget ::
    "int \<Rightarrow> source_input list \<Rightarrow> multi_reference_error + int list \<times> int" where
  "AllocateMultiReferenceBudget profileBudget0 sources =
     (let profileBudget = referenceProfileBudget profileBudget0;
          referenceBudget = referenceAvailableBudget profileBudget;
          count = int (length sources);
          minimumRequired = count * referenceMinSourceTokens
      in if referenceBudget < minimumRequired
         then Inl (ContextBudgetExceeded count minimumRequired profileBudget referenceBudget)
         else
           (let allocations = replicate (length sources) referenceMinSourceTokens
            in if count = 0 then Inr (allocations, referenceBudget)
               else
                 (let remaining = referenceBudget - minimumRequired;
                      need = map weightedNeed sources;
                      totalNeed = sum_list need;
                      as = (if remaining > 0 \<and> totalNeed > 0
                            then allocateRemaining allocations need totalNeed remaining
                            else allocations)
                  in Inr (redistributeUnused as sources, referenceBudget))))"


section \<open>Largest-remainder pass\<close>

lemma handOutRound_spec:
  assumes "handOutRound order al leftover p = (as, l, q)" and "0 \<le> leftover"
    and "\<forall>i \<in> set order. i < length al"
  shows "length as = length al \<and> sum_list as = sum_list al + (leftover - l) \<and>
    (\<forall>i < length al. al ! i \<le> as ! i \<and> (al ! i \<le> 2048 \<longrightarrow> as ! i \<le> 2048))"
  using assms
proof (induction order al leftover p arbitrary: as l q rule: handOutRound.induct)
  case (2 i order al leftover p)
  show ?case
  proof (cases "leftover = 0 \<or> al ! i \<ge> 2048")
    case True
    with 2 show ?thesis by (auto split: if_splits)
  next
    case False
    with "2.prems" have "handOutRound order (al[i := al ! i + 1]) (leftover - 1) True = (as, l, q)"
      by simp
    with False "2.prems" have *: "length as = length al"
      "sum_list as = sum_list (al[i := al ! i + 1]) + (leftover - 1 - l)"
      "\<forall>j < length al. al[i := al ! i + 1] ! j \<le> as ! j \<and>
        (al[i := al ! i + 1] ! j \<le> 2048 \<longrightarrow> as ! j \<le> 2048)"
      using "2.IH"(2) [of as l q] by simp_all
    have "al ! j \<le> as ! j \<and> (al ! j \<le> 2048 \<longrightarrow> as ! j \<le> 2048)" if "j < length al" for j
      using *(3) that False by (cases "j = i") (force simp: nth_list_update)+
    with * "2.prems" show ?thesis by (simp add: sum_list_update_int)
  qed
qed auto

lemma handOutRound_stuck:
  "handOutRound order al leftover p = (as, l, False) \<Longrightarrow> leftover \<noteq> 0 \<Longrightarrow>
     \<not> p \<and> l = leftover \<and> as = al \<and> (\<forall>i \<in> set order. 2048 \<le> al ! i)"
proof (induction order al leftover p arbitrary: as l rule: handOutRound.induct)
  case (2 i order al leftover p)
  have "\<not> handOutRound order al' k True = (as, l, False)" for al' k
    by (induction order al' k True rule: handOutRound.induct) auto
  with 2 show ?case by (auto split: if_splits)
qed auto

lemma handOut_spec:
  assumes "0 \<le> leftover" and "\<forall>i \<in> set order. i < length al"
  shows "length (handOut order al leftover) = length al \<and>
    (\<forall>i < length al. al ! i \<le> handOut order al leftover ! i \<and>
       (al ! i \<le> 2048 \<longrightarrow> handOut order al leftover ! i \<le> 2048)) \<and>
    sum_list (handOut order al leftover) \<le> sum_list al + leftover \<and>
    (sum_list (handOut order al leftover) = sum_list al + leftover \<or>
       (\<forall>i \<in> set order. 2048 \<le> handOut order al leftover ! i))"
  using assms
proof (induction order al leftover rule: handOut.induct)
  case (1 order al leftover)
  obtain as l q where r: "handOutRound order al leftover False = (as, l, q)"
    by (cases "handOutRound order al leftover False")
  note round = handOutRound_spec [OF r "1.prems"] handOutRound_leftover [OF "1.prems"(1) r]
  show ?case
  proof (cases "leftover > 0")
    case True
    show ?thesis
    proof (cases q)
      case True
      with r \<open>leftover > 0\<close> have eq: "handOut order al leftover = handOut order as l"
        by (simp add: handOut.simps [of order al leftover])
      have "\<forall>i \<in> set order. i < length as" using "1.prems" round by auto
      with "1.IH" [OF \<open>leftover > 0\<close> r [symmetric] refl True] round
      show ?thesis unfolding eq by (smt (verit, ccfv_SIG))
    next
      case False
      with r \<open>leftover > 0\<close> have eq: "handOut order al leftover = as"
        by (simp add: handOut.simps [of order al leftover])
      from r False True have "as = al \<and> (\<forall>i \<in> set order. 2048 \<le> al ! i)"
        using handOutRound_stuck [of order al leftover False as l] by simp
      with eq True show ?thesis by simp
    qed
  qed (use "1.prems" in \<open>simp add: handOut.simps\<close>)
qed

lemma proportionalShares_spec:
  assumes "proportionalShares remaining totalNeed need al = (as, rs, d)" and "length need = length al"
    and "0 \<le> remaining" and "0 < totalNeed" and "\<forall>i < length al. 0 \<le> need ! i"
    and "\<forall>i < length al. al ! i \<le> 2048"
  shows "length as = length al \<and> sum_list as = sum_list al + d \<and>
    d * totalNeed \<le> remaining * sum_list need \<and>
    (\<forall>i < length al. al ! i \<le> as ! i \<and> as ! i \<le> 2048)"
  using assms
proof (induction remaining totalNeed need al arbitrary: as rs d rule: proportionalShares.induct)
  case (1 remaining totalNeed n need a al)
  obtain as' rs' d' where r: "proportionalShares remaining totalNeed need al = (as', rs', d')"
    by (cases "proportionalShares remaining totalNeed need al")
  from "1.prems" have IH: "length as' = length al" "sum_list as' = sum_list al + d'"
    "d' * totalNeed \<le> remaining * sum_list need" "\<forall>i < length al. al ! i \<le> as' ! i \<and> as' ! i \<le> 2048"
    using "1.IH" [OF r] by (auto simp: All_less_Suc2)
  from "1.prems" have n: "0 \<le> n" and a: "a \<le> 2048" by (auto simp: All_less_Suc2)
  show ?case
  proof (cases "n = 0")
    case True
    with "1.prems"(1) r IH a show ?thesis by (auto simp: All_less_Suc2)
  next
    case False
    define share where "share = (if remaining * n div totalNeed > 2048 - a then 2048 - a else remaining * n div totalNeed)"
    from False "1.prems" r have eq: "as = (a + share) # as'" "d = share + d'"
      by (auto simp: Let_def share_def)
    have "0 \<le> remaining * n div totalNeed"
      using n "1.prems" by (simp add: pos_imp_zdiv_nonneg_iff)
    moreover have "remaining * n div totalNeed * totalNeed \<le> remaining * n"
      using "1.prems"(4) by (metis mult_div_mod_eq mult.commute le_add_same_cancel1 pos_mod_sign)
    ultimately have "0 \<le> share" "share \<le> 2048 - a" and "share \<le> remaining * n div totalNeed"
        and "remaining * n div totalNeed * totalNeed \<le> remaining * n"
      using a by (auto simp: share_def)
    moreover from this "1.prems"(4) have "share * totalNeed \<le> remaining * n"
      by (meson mult_right_mono order_less_imp_le order_trans)
    ultimately have "0 \<le> share" "share \<le> 2048 - a" "share * totalNeed \<le> remaining * n"
      by simp_all
    with IH eq show ?thesis by (auto simp: All_less_Suc2 algebra_simps)
  qed
qed simp_all


text \<open>
  The first pass: every source starts at \<open>start\<close>, ends between it and the cap, and tokens
  are left over only when every source with weighted need is at the cap.
\<close>

lemma allocateRemaining_spec:
  assumes len: "length need = length al" and pos: "0 \<le> remaining" "0 < totalNeed"
    and need: "\<forall>i < length al. 0 \<le> need ! i" and cap: "\<forall>i < length al. al ! i \<le> 2048"
    and total: "totalNeed = sum_list need"
  defines "as \<equiv> allocateRemaining al need totalNeed remaining"
  shows "length as = length al \<and> (\<forall>i < length al. al ! i \<le> as ! i \<and> as ! i \<le> 2048) \<and>
    sum_list as \<le> sum_list al + remaining \<and>
    (sum_list as = sum_list al + remaining \<or> (\<forall>i < length al. 0 < need ! i \<longrightarrow> 2048 \<le> as ! i))"
proof -
  obtain bs rs d where r: "proportionalShares remaining totalNeed need al = (bs, rs, d)"
    by (cases "proportionalShares remaining totalNeed need al")
  from proportionalShares_spec [OF r len pos need cap]
  have bs: "length bs = length al" "sum_list bs = sum_list al + d"
      "\<forall>i < length al. al ! i \<le> bs ! i \<and> bs ! i \<le> 2048" and "d * totalNeed \<le> remaining * totalNeed"
    by (simp_all add: total)
  then have d: "d \<le> remaining" using pos(2) by simp
  show ?thesis
  proof (cases "remaining - d \<le> 0")
    case True
    with r have "as = bs" by (simp add: as_def allocateRemaining_def)
    with bs d True show ?thesis by simp
  next
    case False
    define order where "order = remainderOrder need rs"
    have set: "set order = {i. i < length al \<and> 0 < need ! i}"
      by (auto simp: order_def remainderOrder_def len)
    from False r have as: "as = handOut order bs (remaining - d)"
      by (simp add: as_def allocateRemaining_def order_def)
    have "\<forall>i \<in> set order. i < length bs" by (simp add: set bs(1))
    with False have "0 \<le> remaining - d" "\<forall>i \<in> set order. i < length bs" by simp_all
    from handOut_spec [OF this] bs show ?thesis
      unfolding as set by (simp add: algebra_simps) (smt (verit, ccfv_SIG))
  qed
qed

section \<open>Redistribution pass\<close>

lemma unusedTokens_spec:
  assumes "length al = length cs"
  shows "unusedTokens al cs =
    (map2 (\<lambda>a c. max 0 (a - c)) al cs, map2 (\<lambda>a c. c < a \<and> c < 256) al cs,
     sum_list (map2 (\<lambda>a c. max 0 (a - c)) al cs))"
  using assms by (induction al cs rule: list_induct2) auto

lemma placePool_spec:
  assumes "placePool al cs u = (as, v)" and "length al = length cs" and "0 \<le> u"
    and "\<forall>i < length al. al ! i \<le> 2048"
  shows "length as = length al \<and> 0 \<le> v \<and> v \<le> u \<and> sum_list as = sum_list al + (u - v) \<and>
    (\<forall>i < length al. al ! i \<le> as ! i \<and> as ! i \<le> 2048 \<and> (cs ! i \<le> al ! i \<longrightarrow> as ! i = al ! i)) \<and>
    (0 < v \<longrightarrow> (\<forall>i < length al. 2048 \<le> as ! i \<or> cs ! i \<le> as ! i))"
  using assms
proof (induction al cs u arbitrary: as v rule: placePool.induct)
  case (1 a al c cs u)
  consider "u = 0" | "u \<noteq> 0" "2048 - a \<le> 0 \<or> c - a \<le> 0" | "u \<noteq> 0" "\<not> (2048 - a \<le> 0 \<or> c - a \<le> 0)"
    by blast
  then show ?case
  proof cases
    case 1
    with "1.prems" show ?thesis by auto
  next
    case 2
    obtain as' v' where r: "placePool al cs u = (as', v')" by (cases "placePool al cs u")
    with 2 "1.prems"(1) have "as = a # as'" "v = v'" by auto
    with "1.IH"(1) [OF 2(1) refl refl 2(2) [folded referenceMaxSourceTokens_def], of as' v'] r "1.prems" 2
    show ?thesis by (auto simp: All_less_Suc2)
  next
    case 3
    define tk where "tk = min u (min (2048 - a) (c - a))"
    obtain as' v' where r: "placePool al cs (u - tk) = (as', v')" by (cases "placePool al cs (u - tk)")
    have tk: "(if (if u > 2048 - a then 2048 - a else u) > c - a then c - a
               else (if u > 2048 - a then 2048 - a else u)) = tk"
      by (auto simp: tk_def)
    from r 3 "1.prems"(1) have eq: "as = (a + tk) # as'" "v = v'"
      by (auto simp: Let_def tk)
    have b: "0 \<le> u - tk" "0 < tk" "a + tk \<le> 2048" "a + tk \<le> c"
      using 3 "1.prems"(3) by (auto simp: tk_def)
    have sat: "2048 \<le> a + tk \<or> c \<le> a + tk" if "0 < u - tk"
      using that by (auto simp: tk_def min_def split: if_splits)
    have "length as' = length al \<and> 0 \<le> v' \<and> v' \<le> u - tk \<and> sum_list as' = sum_list al + (u - tk - v') \<and>
      (\<forall>i < length al. al ! i \<le> as' ! i \<and> as' ! i \<le> 2048 \<and> (cs ! i \<le> al ! i \<longrightarrow> as' ! i = al ! i)) \<and>
      (0 < v' \<longrightarrow> (\<forall>i < length al. 2048 \<le> as' ! i \<or> cs ! i \<le> as' ! i))"
      using "1.IH"(2) [OF 3(1) refl refl _ refl refl, of as' v', unfolded referenceMaxSourceTokens_def tk]
        r b(1) "1.prems" 3
      by (simp add: All_less_Suc2)
    with b sat eq "1.prems" 3 show ?thesis by (auto simp: All_less_Suc2)
  qed
qed simp_all

fun belowSum :: "int list \<Rightarrow> bool list \<Rightarrow> int" where
  "belowSum (g # gs) (b # bs) = (if b then g else 0) + belowSum gs bs"
| "belowSum gs bs = 0"

lemma settleDonors_spec:
  assumes "length gs = length al" and "length bs = length al" and "0 \<le> placed"
    and "\<forall>i < length al. 0 \<le> gs ! i"
  shows "length (settleDonors al gs bs placed) = length al \<and>
    (\<forall>i < length al. al ! i - gs ! i \<le> settleDonors al gs bs placed ! i \<and>
       settleDonors al gs bs placed ! i \<le> al ! i) \<and>
    sum_list (settleDonors al gs bs placed) =
      sum_list al - belowSum gs bs - min placed (sum_list gs - belowSum gs bs) \<and>
    0 \<le> belowSum gs bs \<and> belowSum gs bs \<le> sum_list gs"
  using assms
proof (induction al gs bs placed rule: settleDonors.induct)
  case (1 a al g gs b bs placed)
  from "1.prems" have g: "0 \<le> g" and p: "length gs = length al" "length bs = length al"
    "\<forall>i < length al. 0 \<le> gs ! i" "0 \<le> placed" by (auto simp: All_less_Suc2)
  show ?case
  proof (cases "g = 0")
    case True
    with "1.IH"(1) p show ?thesis by (auto simp: All_less_Suc2)
  next
    case False
    show ?thesis
    proof (cases b)
      case True
      with "1.IH"(2) False g p show ?thesis by (auto simp: All_less_Suc2)
    next
      case nb: False
      define give where "give = (if g > placed then placed else g)"
      have gv: "0 \<le> placed - give" "0 \<le> give" "give \<le> g" using g p by (auto simp: give_def)
      have mn: "min placed (g + s) = give + min (placed - give) s" if "0 \<le> s" for s
        using that g p by (auto simp: give_def min_def)
      have eq: "settleDonors (a # al) (g # gs) (b # bs) placed = (a - give) # settleDonors al gs bs (placed - give)"
        using False nb by (simp add: give_def Let_def)
      show ?thesis
        using "1.IH"(3) [OF False nb give_def] gv p mn [of "sum_list gs - belowSum gs bs"] nb g
        unfolding eq by (auto simp: All_less_Suc2 algebra_simps)
    qed
  qed
qed (auto simp: All_less_Suc2)

lemma redistributeUnused_spec:
  assumes len: "length al = length sources" and cap: "\<forall>i < length al. 256 \<le> al ! i \<and> al ! i \<le> 2048"
  defines "cs \<equiv> map (contributionTokens \<circ> si_Content) sources" and "fin \<equiv> redistributeUnused al sources"
  shows "length fin = length al \<and>
    (\<forall>i < length al. min (cs ! i) 256 \<le> fin ! i \<and> fin ! i \<le> 2048) \<and>
    sum_list fin \<le> sum_list al \<and>
    (\<forall>i < length al. fin ! i < 2048 \<and> fin ! i < cs ! i \<longrightarrow> al ! i < cs ! i \<and> al ! i < 2048 \<and> sum_list fin = sum_list al)"
proof -
  define gs where "gs = map2 (\<lambda>a c. max 0 (a - c)) al cs"
  define bs where "bs = map2 (\<lambda>a c. c < a \<and> c < (256::int)) al cs"
  have lc: "length al = length cs" by (simp add: cs_def len)
  have un: "unusedTokens al cs = (gs, bs, sum_list gs)"
    unfolding gs_def bs_def by (rule unusedTokens_spec [OF lc])
  have gs: "length gs = length al" "length bs = length al" "\<forall>i < length al. gs ! i = max 0 (al ! i - cs ! i)"
    by (simp_all add: gs_def bs_def lc)
  then have pool: "0 \<le> sum_list gs" by (intro sum_list_nonneg) (auto simp: in_set_conv_nth)
  show ?thesis
  proof (cases "sum_list gs = 0")
    case True
    then have "fin = al" by (simp add: fin_def redistributeUnused_def un [unfolded cs_def])
    with cap show ?thesis by (auto simp: min_def)
  next
    case False
    obtain as v where pp: "placePool al cs (sum_list gs) = (as, v)" by (cases "placePool al cs (sum_list gs)")
    from placePool_spec [OF pp lc pool] cap
    have as: "length as = length al" "0 \<le> v" "v \<le> sum_list gs" "sum_list as = sum_list al + (sum_list gs - v)"
      "\<And>i. i < length al \<Longrightarrow> al ! i \<le> as ! i \<and> as ! i \<le> 2048 \<and> (cs ! i \<le> al ! i \<longrightarrow> as ! i = al ! i)"
      "\<And>i. 0 < v \<Longrightarrow> i < length al \<Longrightarrow> 2048 \<le> as ! i \<or> cs ! i \<le> as ! i"
      by auto
    have fin: "fin = settleDonors as gs bs (sum_list gs - v)"
      using False by (simp add: fin_def redistributeUnused_def un [unfolded cs_def] pp [unfolded cs_def])
    have "\<forall>i < length as. 0 \<le> gs ! i" using gs(3) as(1) by simp
    with settleDonors_spec [of gs as bs "sum_list gs - v"] gs as(1,3)
    have st: "length fin = length al"
      "\<And>i. i < length al \<Longrightarrow> as ! i - gs ! i \<le> fin ! i \<and> fin ! i \<le> as ! i"
      "sum_list fin = sum_list as - belowSum gs bs - min (sum_list gs - v) (sum_list gs - belowSum gs bs)"
      "0 \<le> belowSum gs bs" "belowSum gs bs \<le> sum_list gs"
      unfolding fin by simp_all
    have "min (cs ! i) 256 \<le> fin ! i \<and> fin ! i \<le> 2048" if "i < length al" for i
      using st(2) [OF that] as(5) [OF that] gs(3) cap that by (smt (verit, ccfv_SIG))
    moreover have "sum_list fin \<le> sum_list al"
      using st(3-5) as(2-4) by (auto simp: min_def split: if_splits)
    moreover have "al ! i < cs ! i \<and> al ! i < 2048 \<and> sum_list fin = sum_list al"
      if "i < length al" "fin ! i < 2048 \<and> fin ! i < cs ! i" for i
    proof -
      have "al ! i < cs ! i" using st(2) [OF that(1)] as(5) [OF that(1)] gs(3) that by (smt (verit, ccfv_SIG))
      then have "gs ! i = 0" using gs(3) that by simp
      with st(2) [OF that(1)] that(2) have "as ! i < 2048" "as ! i < cs ! i" by auto
      with as(2) as(6) [of i] that(1) have "v = 0" by (cases "v = 0") auto
      with st(3,4,5) as(4) \<open>as ! i < 2048\<close> as(5) [OF that(1)] \<open>al ! i < cs ! i\<close> show ?thesis
        by (auto simp: min_def)
    qed
    ultimately show ?thesis using st(1) by blast
  qed
qed


section \<open>Properties\<close>

lemma weightedNeed_nonneg: "0 \<le> weightedNeed src"
  by (simp add: weightedNeed_def Let_def)

lemma weightedNeed_pos: "256 < contributionTokens (si_Content src) \<Longrightarrow> 0 < weightedNeed src"
  by (simp add: weightedNeed_def Let_def)

lemma referenceAvailableBudget_bounds:
  "0 \<le> referenceAvailableBudget p \<and> referenceAvailableBudget p \<le> 16384"
  by (simp add: referenceAvailableBudget_def referenceProfileBudget_def Let_def)

text \<open>The vector before the redistribution pass.\<close>

definition startVector :: "int \<Rightarrow> source_input list \<Rightarrow> int list" where
  "startVector referenceBudget sources =
     (let al = replicate (length sources) 256;
          need = map weightedNeed sources;
          remaining = referenceBudget - int (length sources) * 256
      in if remaining > 0 \<and> sum_list need > 0 then allocateRemaining al need (sum_list need) remaining else al)"

lemma AllocateMultiReferenceBudget_Inr:
  assumes "AllocateMultiReferenceBudget p sources = Inr (al, budget)"
  shows "al = redistributeUnused (startVector budget sources) sources \<and>
    budget = referenceAvailableBudget (referenceProfileBudget p) \<and> int (length sources) * 256 \<le> budget"
proof (cases "sources = []")
  case True
  then have "startVector b sources = [] \<and> redistributeUnused [] sources = []" for b
    by (simp add: startVector_def redistributeUnused_def)
  with True assms show ?thesis
    by (simp add: AllocateMultiReferenceBudget_def Let_def split: if_splits)
next
  case False
  with assms show ?thesis
    by (auto simp: AllocateMultiReferenceBudget_def startVector_def Let_def split: if_splits)
qed

lemma startVector_spec:
  assumes "int (length sources) * 256 \<le> budget"
  defines "as \<equiv> startVector budget sources"
  shows "length as = length sources \<and> (\<forall>i < length sources. 256 \<le> as ! i \<and> as ! i \<le> 2048) \<and>
    sum_list as \<le> budget \<and>
    (\<forall>i < length sources. 0 < weightedNeed (sources ! i) \<and> as ! i < 2048 \<longrightarrow> sum_list as = budget)"
proof -
  define need where "need = map weightedNeed sources"
  define remaining where "remaining = budget - int (length sources) * 256"
  have nn: "\<forall>i < length sources. 0 \<le> need ! i" by (simp add: need_def weightedNeed_nonneg)
  have s0: "sum_list (replicate (length sources) (256 :: int)) = int (length sources) * 256"
    by (simp add: sum_list_replicate)
  show ?thesis
  proof (cases "remaining > 0 \<and> sum_list need > 0")
    case True
    then have "as = allocateRemaining (replicate (length sources) 256) need (sum_list need) remaining"
      by (simp add: as_def startVector_def Let_def need_def remaining_def)
    with allocateRemaining_spec [of need "replicate (length sources) 256" remaining "sum_list need"] True nn s0
    show ?thesis by (auto simp: need_def remaining_def)
  next
    case False
    then have as: "as = replicate (length sources) 256"
      by (auto simp: as_def startVector_def Let_def need_def remaining_def)
    have "sum_list as = budget" if "i < length sources" "0 < weightedNeed (sources ! i)" for i
    proof -
      from that have "weightedNeed (sources ! i) \<in> set need" by (auto simp: need_def)
      moreover have "\<And>x. x \<in> set need \<Longrightarrow> 0 \<le> x" by (auto simp: need_def weightedNeed_nonneg)
      ultimately have "0 < sum_list need" using that(2) sum_list_nonneg [of need]
        by (metis order_less_le sum_list_nonneg_eq_0_iff)
      with False assms(1) s0 show ?thesis by (simp add: as remaining_def)
    qed
    with as assms(1) s0 show ?thesis by auto
  qed
qed


lemma contributionTokens_nonneg: "0 \<le> contributionTokens s"
  by (simp add: contributionTokens_def estimateReferenceTokens_def char_est.est_nonneg)

lemma contributionTokens_plain:
  assumes "\<forall>c \<in> set s. ascii c" and "CHR ''<'' \<notin> set s"
  shows "contributionTokens s = (int (length s) + 3) div 4"
proof -
  have "\<not> contains blockClose s"
    using contains_skip [of "CHR ''<''" s _ "[]"] assms(2) by (simp add: blockClose_def)
  with assms(1) show ?thesis
    by (simp add: contributionTokens_def estimateReferenceTokens_def escapeBlockTerminator_def
        charTokenEstimator_eq rune_count_ascii)
qed

lemma allocation_bounds:
  assumes "AllocateMultiReferenceBudget profileBudget sources = Inr (allocations, budget)"
  shows "length allocations = length sources \<and>
    (\<forall>i < length sources.
       min (contributionTokens (si_Content (sources ! i))) 256 \<le> allocations ! i \<and> allocations ! i \<le> 2048) \<and>
    sum_list allocations \<le> budget \<and> budget = referenceAvailableBudget (referenceProfileBudget profileBudget)"
proof -
  from AllocateMultiReferenceBudget_Inr [OF assms]
  have al: "allocations = redistributeUnused (startVector budget sources) sources"
    and b: "budget = referenceAvailableBudget (referenceProfileBudget profileBudget)"
    and le: "int (length sources) * 256 \<le> budget" by auto
  note st = startVector_spec [OF le]
  then have "length (startVector budget sources) = length sources" by blast
  with redistributeUnused_spec [OF this] st b show ?thesis unfolding al by auto
qed

lemma referenceAvailableBudget_idem [simp]:
  "referenceAvailableBudget (referenceProfileBudget p) = referenceAvailableBudget p"
  by (simp add: referenceAvailableBudget_def referenceProfileBudget_def)

lemma allocation_fails_iff:
  "is_err (AllocateMultiReferenceBudget p sources) \<longleftrightarrow> referenceAvailableBudget p < 256 * int (length sources)"
  by (auto simp: AllocateMultiReferenceBudget_def Let_def mult.commute)

text \<open>
  C1: the invariants of the allocation vector. Whenever the allocation succeeds the vector
  has one entry per source, every entry lies between the smaller of 256 and the source's own
  token count and the 2048 cap, the entries add up to at most the reference budget, and the
  reference budget is half of the profile budget, at most 16384.
\<close>

theorem allocation_invariants:
  assumes "AllocateMultiReferenceBudget profileBudget sources = Inr (allocations, budget)"
  shows "length allocations = length sources \<and>
    (\<forall>i < length sources.
       min (contributionTokens (si_Content (sources ! i))) 256 \<le> allocations ! i \<and> allocations ! i \<le> 2048) \<and>
    sum_list allocations \<le> budget \<and>
    budget = min ((if profileBudget \<le> 0 then 8000 else profileBudget) div 2) 16384"
  using allocation_bounds [OF assms]
  by (auto simp: referenceAvailableBudget_def referenceProfileBudget_def Let_def min_def)

text \<open>
  no stranded budget. If some source is below the 2048 cap and still has tokens of its
  own to place, then the allocation spends the whole reference budget.
\<close>

lemma allocation_no_stranded_budget:
  assumes "AllocateMultiReferenceBudget profileBudget sources = Inr (allocations, budget)"
    and "i < length sources" and "allocations ! i < 2048"
    and "allocations ! i < contributionTokens (si_Content (sources ! i))"
  shows "sum_list allocations = budget"
proof -
  from AllocateMultiReferenceBudget_Inr [OF assms(1)]
  have al: "allocations = redistributeUnused (startVector budget sources) sources"
    and le: "int (length sources) * 256 \<le> budget" by auto
  note st = startVector_spec [OF le]
  then have len: "length (startVector budget sources) = length sources" by blast
  with redistributeUnused_spec [OF len] st assms(2-4)
  have 1: "startVector budget sources ! i < contributionTokens (si_Content (sources ! i))"
    and 2: "startVector budget sources ! i < 2048"
    and 3: "sum_list allocations = sum_list (startVector budget sources)"
    unfolding al by auto
  have "0 < weightedNeed (sources ! i)"
    using 1 st assms(2) by (intro weightedNeed_pos) (smt (verit, ccfv_SIG))
  with st assms(2) 2 3 show ?thesis by simp
qed

text \<open>
  admission. The allocation fails exactly when the reference budget cannot reserve 256
  tokens for every source, and the error names the count, the requirement and the budgets.
\<close>

lemma allocation_admission:
  "(is_err (AllocateMultiReferenceBudget profileBudget sources) \<longleftrightarrow>
      referenceAvailableBudget profileBudget < 256 * int (length sources)) \<and>
   (\<forall>e. AllocateMultiReferenceBudget profileBudget sources = Inl e \<longrightarrow>
      e = ContextBudgetExceeded (int (length sources)) (256 * int (length sources))
            (referenceProfileBudget profileBudget) (referenceAvailableBudget profileBudget))"
  using allocation_fails_iff [of profileBudget sources]
  by (auto simp: AllocateMultiReferenceBudget_def Let_def mult.commute)

subsection \<open>Witnesses\<close>

definition demoSource :: "string \<Rightarrow> source_input" where
  "demoSource content = \<lparr>si_NodeID = 7, si_AuthorID = 1, si_NodeType = ''message'', si_SequenceNum = 3,
     si_CreatedAt = 0, si_BranchRootID = 5, si_ContentHash = ''h'', si_SignedContentHash = ''h'',
     si_Content = content, si_Label = [], si_ColorKey = ''ref-1''\<rparr>"

lemma demo_tokens [simp]: "contributionTokens (replicate n CHR ''a'') = (int n + 3) div 4"
  by (subst contributionTokens_plain) (auto simp: ascii_def)

lemma demoSource_Content [simp]: "si_Content (demoSource c) = c"
  by (simp add: demoSource_def)

lemma demo_allocation:
  "AllocateMultiReferenceBudget 1024 [demoSource (replicate 8 CHR ''a''), demoSource (replicate 4000 CHR ''a'')]
     = Inr ([2, 510], 512)"
  by (simp add: AllocateMultiReferenceBudget_def referenceAvailableBudget_def referenceProfileBudget_def
      Let_def redistributeUnused_def numeral_2_eq_2)

theorem allocation_invariants_witness:
  "sum_list [2, 510 :: int] \<le> 512 \<and> min (contributionTokens (replicate 8 CHR ''a'')) 256 \<le> 2"
  using allocation_invariants [OF demo_allocation] by (auto simp: All_less_Suc2)

theorem allocation_no_stranded_budget_witness: "sum_list [2, 510 :: int] = 512"
  by (rule allocation_no_stranded_budget [OF demo_allocation, where i = 1]) simp_all

theorem allocation_admission_witness:
  "is_err (AllocateMultiReferenceBudget 100 [demoSource ''a''])"
  using allocation_admission [of 100 "[demoSource ''a'']"]
  by (simp add: referenceAvailableBudget_def referenceProfileBudget_def)

end
