(* ===== verification/Multi_Reference.thy ===== *)
theory Multi_Reference
  imports Reference_Budget
begin

text \<open>
  Compilation of a multi-message selection (\<open>internal/context/multi_reference.go\<close>, lines
  139--184 and 474--741, with the metadata types of \<open>internal/db/models.go\<close>): verification
  against the signed hashes, rendering of each source against its allocation and of the
  provenance block. \<open>ustr\<close> is \<open>uuid.UUID.String\<close> of the third-party package. The lemmas
  show that a compilation is all or nothing, that every rendered source stays within its
  allocation, and that selected content cannot terminate the block.
\<close>

section \<open>Data\<close>

record reference_branch_source =
  rbs_SourceID :: uuid
  rbs_BranchRootID :: uuid
  rbs_DistanceFromRoot :: int

record branch_span_metadata =
  bsm_CommonAncestorID :: uuid
  bsm_SourceBranches :: "reference_branch_source list"

record multi_reference_metadata =
  mrm_Version :: int
  mrm_PrimarySourceID :: uuid
  mrm_CanonicalSourceIDs :: "uuid list"
  mrm_IsSyntheticMergePoint :: bool
  mrm_BranchSpan :: "branch_span_metadata option"
  mrm_ContextManifestHash :: string
  mrm_ContextTokenBudget :: int
  mrm_RequestID :: string
  mrm_RequestHash :: string

record multi_reference_selection =
  mrs_TreeID :: uuid
  mrs_Metadata :: multi_reference_metadata
  mrs_Sources :: "source_input list"
  mrs_ProfileBudget :: int

record multi_reference_source =
  mr_ReferenceIndex :: int
  mr_SourceLabel :: string
  mr_ColorKey :: string
  mr_NodeID :: uuid
  mr_AuthorID :: uuid
  mr_NodeType :: string
  mr_SequenceNum :: int
  mr_CreatedAt :: instant
  mr_BranchRootID :: uuid
  mr_ContentHash :: string
  mr_TokenCount :: int
  mr_Truncated :: bool
  mr_OmittedTokens :: int
  mr_Content :: string

record multi_reference_context =
  mrc_TreeID :: uuid
  mrc_PrimarySourceID :: uuid
  mrc_Sources :: "multi_reference_source list"
  mrc_IsSyntheticMergePoint :: bool
  mrc_BranchSpan :: "branch_span_metadata option"
  mrc_TokenBudget :: int
  mrc_TokensUsed :: int
  mrc_ManifestHash :: string

record multi_reference_manifest_entry =
  mre_PrimarySourceID :: uuid
  mre_SourceCount :: int
  mre_ManifestHash :: string
  mre_TokenBudget :: int
  mre_TokensUsed :: int
  mre_CommonAncestorID :: string
  mre_Sources :: "multi_reference_source list"

record multi_reference_compilation =
  comp_Context :: multi_reference_context
  comp_Block :: string
  comp_AllFit :: bool
  comp_Escaped :: "string list"

section \<open>Errors on the wire\<close>

fun MultiReferenceError_Code :: "multi_reference_error \<Rightarrow> string" where
  "MultiReferenceError_Code (SourceCountTooLow n) = ''REFERENCE_SOURCE_COUNT_TOO_LOW''"
| "MultiReferenceError_Code (SourceCountTooHigh n) = ''REFERENCE_SOURCE_COUNT_TOO_HIGH''"
| "MultiReferenceError_Code (ContextBudgetExceeded n r p b) = ''REFERENCE_CONTEXT_BUDGET_EXCEEDED''"
| "MultiReferenceError_Code (SourceNotFound m) = ''REFERENCE_SOURCE_NOT_FOUND''"
| "MultiReferenceError_Code (SelectionStale m) = ''REFERENCE_SELECTION_STALE''"

fun MultiReferenceError_Message :: "multi_reference_error \<Rightarrow> string" where
  "MultiReferenceError_Message (SourceCountTooLow n) =
     ''a multi-reference selection needs at least '' @ itoa referenceMinSourceCount @ '' sources, got '' @ itoa n"
| "MultiReferenceError_Message (SourceCountTooHigh n) =
     ''a multi-reference selection allows at most '' @ itoa referenceMaxSourceCount @ '' sources, got '' @ itoa n"
| "MultiReferenceError_Message (ContextBudgetExceeded n r p b) =
     itoa n @ '' sources require '' @ itoa r @ '' tokens but a profile budget of '' @ itoa p
       @ '' only reserves '' @ itoa b"
| "MultiReferenceError_Message (SourceNotFound m) = m"
| "MultiReferenceError_Message (SelectionStale m) = m"

definition MultiReferenceError_Error :: "multi_reference_error \<Rightarrow> string" where
  "MultiReferenceError_Error e = MultiReferenceError_Code e @ '': '' @ MultiReferenceError_Message e"

section \<open>Rendering one source\<close>

definition sourceLabel :: "source_input \<Rightarrow> nat \<Rightarrow> string" where
  "sourceLabel src index =
     (if si_Label src \<noteq> [] then si_Label src else ''R'' @ itoa (int index + 1))"

text \<open>The loop of \<open>groupThousands\<close> cuts groups of three from the end of the digits.\<close>

function groupDigits :: "string \<Rightarrow> string list" where
  "groupDigits digits =
     (if length digits > 3
      then groupDigits (take (length digits - 3) digits) @ [drop (length digits - 3) digits]
      else [digits])"
  by pat_completeness auto
termination
  by (relation "measure length") auto

declare groupDigits.simps [simp del]

definition groupThousands :: "int \<Rightarrow> string" where
  "groupThousands n =
     (let sgn = (if n < 0 then ''-'' else []);
          digits = itoa (if n < 0 then - n else n)
      in if length digits \<le> 3 then sgn @ digits
         else sgn @ strings_Join (groupDigits digits) '','')"

definition omittedMarker :: "int \<Rightarrow> string \<Rightarrow> string" where
  "omittedMarker omitted label =
     ''[... '' @ groupThousands omitted @ '' tokens omitted from source '' @ label @ '' ...]''"

definition truncateReferenceContent :: "string \<Rightarrow> int \<Rightarrow> int \<Rightarrow> string \<Rightarrow> string \<times> int" where
  "truncateReferenceContent content allocation totalTokens label =
     (let runes = go_runes content;
          largestMarker = omittedMarker totalTokens label;
          keep0 = allocation * referenceCharsPerToken - int (rune_count largestMarker) - 2;
          keep1 = (if keep0 < 2 then 2 else keep0);
          keepChars = (if keep1 > int (length runes) then int (length runes) else keep1);
          head = go_div keepChars 2;
          tail = keepChars - head;
          retainedTokens = go_div (keepChars + referenceCharsPerToken - 1) referenceCharsPerToken;
          omitted0 = totalTokens - retainedTokens;
          omitted = (if omitted0 < 1 then 1 else omitted0);
          marker = omittedMarker omitted label
      in (concat (take (nat head) runes) @ [CHR 0x0A] @ marker @ [CHR 0x0A]
            @ concat (drop (length runes - nat tail) runes), omitted))"

text \<open>Text, whether content was cut, omitted tokens and used tokens.\<close>

definition renderSourceContent :: "string \<Rightarrow> int \<Rightarrow> string \<Rightarrow> string \<times> bool \<times> int \<times> int" where
  "renderSourceContent content allocation0 label =
     (let allocation = (if allocation0 \<le> 0 then referenceMinSourceTokens else allocation0);
          totalTokens = estimateReferenceTokens content
      in if totalTokens \<le> allocation then (content, False, 0, totalTokens)
         else (let (retained, omitted) = truncateReferenceContent content allocation totalTokens label
               in (retained, True, omitted, allocation)))"

definition sourceHeader :: "(uuid \<Rightarrow> string) \<Rightarrow> multi_reference_source \<Rightarrow> string" where
  "sourceHeader ustr src =
     ''[Source '' @ mr_SourceLabel src @ '' | color='' @ mr_ColorKey src
       @ '' | node_id='' @ ustr (mr_NodeID src) @ '' | branch_root='' @ ustr (mr_BranchRootID src)
       @ '' | author='' @ ustr (mr_AuthorID src) @ '' |'' @ [CHR 0x0A]
       @ '' sequence='' @ itoa (mr_SequenceNum src) @ '' | created_at='' @ format_rfc3339 (mr_CreatedAt src)
       @ '' | node_type='' @ mr_NodeType src @ '' | tokens='' @ itoa (mr_TokenCount src)
       @ '' | truncated='' @ format_bool (mr_Truncated src) @ '']''"

section \<open>The block\<close>

fun headerLines :: "string list \<Rightarrow> string" where
  "headerLines [] = []"
| "headerLines [attr] = attr @ ''>'' @ [CHR 0x0A]"
| "headerLines (attr # attrs) = attr @ [CHR 0x0A] @ headerLines attrs"

definition blockHeader :: "(uuid \<Rightarrow> string) \<Rightarrow> multi_reference_selection \<Rightarrow> multi_reference_context \<Rightarrow> string" where
  "blockHeader ustr sel ctx =
     (let attrs =
        [''  target_tree_id='' @ strconv_Quote (ustr (mrs_TreeID sel)),
         ''  primary_source_id='' @ strconv_Quote (ustr (mrc_PrimarySourceID ctx)),
         ''  source_count='' @ strconv_Quote (itoa (int (length (mrc_Sources ctx)))),
         ''  synthetic_context_merge='' @ strconv_Quote (format_bool (mrc_IsSyntheticMergePoint ctx))]
        @ (case mrm_BranchSpan (mrs_Metadata sel) of
             None \<Rightarrow> []
           | Some sp \<Rightarrow> [''  common_ancestor_id='' @ strconv_Quote (ustr (bsm_CommonAncestorID sp))])
      in blockOpen @ [CHR 0x0A] @ headerLines attrs)"

definition renderMultiReferenceBlock ::
    "(uuid \<Rightarrow> string) \<Rightarrow> multi_reference_selection \<Rightarrow> multi_reference_context \<Rightarrow> string" where
  "renderMultiReferenceBlock ustr sel ctx =
     strings_Join
       ([blockHeader ustr sel ctx]
        @ map (\<lambda>src. sourceHeader ustr src @ [CHR 0x0A] @ mr_Content src) (mrc_Sources ctx)
        @ [blockClose @ ''>'']) [CHR 0x0A, CHR 0x0A]"

section \<open>Compilation\<close>

fun verifySources :: "nat \<Rightarrow> source_input list \<Rightarrow> multi_reference_error option" where
  "verifySources i [] = None"
| "verifySources i (src # sources) =
     (let label = sourceLabel src i in
      if si_SignedContentHash src \<noteq> [] \<and> si_ContentHash src = []
      then Some (SelectionStale (''source '' @ label @ '' was part of the signed selection but can no longer be loaded''))
      else if si_ContentHash src = []
      then Some (SourceNotFound (''source '' @ label @ '' could not be loaded''))
      else if si_SignedContentHash src \<noteq> [] \<and> si_ContentHash src \<noteq> si_SignedContentHash src
      then Some (SelectionStale (''source '' @ label @ '' changed after the selection was signed''))
      else verifySources (Suc i) sources)"

definition compileSource :: "nat \<Rightarrow> source_input \<Rightarrow> int \<Rightarrow> multi_reference_source \<times> bool" where
  "compileSource i src allocation =
     (let label = sourceLabel src i;
          (content, escaped) = escapeBlockTerminator (si_Content src);
          (text, truncated, omitted, used) = renderSourceContent content allocation label
      in (\<lparr>mr_ReferenceIndex = int i + 1, mr_SourceLabel = label, mr_ColorKey = si_ColorKey src,
           mr_NodeID = si_NodeID src, mr_AuthorID = si_AuthorID src, mr_NodeType = si_NodeType src,
           mr_SequenceNum = si_SequenceNum src, mr_CreatedAt = si_CreatedAt src,
           mr_BranchRootID = si_BranchRootID src, mr_ContentHash = si_ContentHash src,
           mr_TokenCount = used, mr_Truncated = truncated, mr_OmittedTokens = omitted, mr_Content = text\<rparr>,
          escaped))"

text \<open>The rendering loop threads the compilation under construction.\<close>

fun compileSources :: "nat \<Rightarrow> source_input list \<Rightarrow> int list \<Rightarrow> multi_reference_compilation \<Rightarrow> multi_reference_compilation" where
  "compileSources i (src # sources) (a # allocations) compiled =
     (let (out, escaped) = compileSource i src a;
          ctx = comp_Context compiled;
          compiled' = compiled
            \<lparr>comp_Escaped := (if escaped then comp_Escaped compiled @ [mr_SourceLabel out] else comp_Escaped compiled),
             comp_AllFit := (if mr_Truncated out then False else comp_AllFit compiled),
             comp_Context := ctx\<lparr>mrc_TokensUsed := mrc_TokensUsed ctx + mr_TokenCount out,
                                 mrc_Sources := mrc_Sources ctx @ [out]\<rparr>\<rparr>
      in compileSources (Suc i) sources allocations compiled')"
| "compileSources i sources allocations compiled = compiled"

definition compileMultiReference ::
    "(uuid \<Rightarrow> string) \<Rightarrow> multi_reference_selection option \<Rightarrow> multi_reference_error + multi_reference_compilation option" where
  "compileMultiReference ustr selection =
     (case selection of None \<Rightarrow> Inr None
      | Some sel \<Rightarrow>
        let count = int (length (mrs_Sources sel)) in
        if count < referenceMinSourceCount then Inl (SourceCountTooLow count)
        else if count > referenceMaxSourceCount then Inl (SourceCountTooHigh count)
        else case verifySources 0 (mrs_Sources sel) of
          Some e \<Rightarrow> Inl e
        | None \<Rightarrow>
          (case AllocateMultiReferenceBudget (mrs_ProfileBudget sel) (mrs_Sources sel) of
             Inl e \<Rightarrow> Inl e
           | Inr (allocations, referenceBudget) \<Rightarrow>
             let ctx = \<lparr>mrc_TreeID = mrs_TreeID sel, mrc_PrimarySourceID = mrm_PrimarySourceID (mrs_Metadata sel),
                        mrc_Sources = [], mrc_IsSyntheticMergePoint = mrm_IsSyntheticMergePoint (mrs_Metadata sel),
                        mrc_BranchSpan = mrm_BranchSpan (mrs_Metadata sel), mrc_TokenBudget = referenceBudget,
                        mrc_TokensUsed = 0, mrc_ManifestHash = mrm_ContextManifestHash (mrs_Metadata sel)\<rparr>;
                 compiled = compileSources 0 (mrs_Sources sel) allocations
                   \<lparr>comp_Context = ctx, comp_Block = [], comp_AllFit = True, comp_Escaped = []\<rparr>
             in Inr (Some (compiled\<lparr>comp_Block := renderMultiReferenceBlock ustr sel (comp_Context compiled)\<rparr>))))"

definition CompileMultiReference ::
    "(uuid \<Rightarrow> string) \<Rightarrow> multi_reference_selection option \<Rightarrow>
     multi_reference_error + multi_reference_context option \<times> string" where
  "CompileMultiReference ustr sel =
     (case compileMultiReference ustr sel of
        Inl e \<Rightarrow> Inl e
      | Inr None \<Rightarrow> Inr (None, [])
      | Inr (Some compiled) \<Rightarrow> Inr (Some (comp_Context compiled), comp_Block compiled))"

definition multiRefManifestEntry :: "(uuid \<Rightarrow> string) \<Rightarrow> multi_reference_context \<Rightarrow> multi_reference_manifest_entry" where
  "multiRefManifestEntry ustr ctx =
     \<lparr>mre_PrimarySourceID = mrc_PrimarySourceID ctx, mre_SourceCount = int (length (mrc_Sources ctx)),
      mre_ManifestHash = mrc_ManifestHash ctx, mre_TokenBudget = mrc_TokenBudget ctx,
      mre_TokensUsed = mrc_TokensUsed ctx,
      mre_CommonAncestorID = (case mrc_BranchSpan ctx of None \<Rightarrow> [] | Some sp \<Rightarrow> ustr (bsm_CommonAncestorID sp)),
      mre_Sources = mrc_Sources ctx\<rparr>"


section \<open>The omission marker\<close>

lemma groupDigits_nonempty [simp]: "groupDigits d \<noteq> []"
  by (simp add: groupDigits.simps)

lemma length_join_groupDigits:
  "length (strings_Join (groupDigits d) '','') = length d + (length d - 1) div 3"
proof (induction d rule: groupDigits.induct)
  case (1 d)
  show ?case
  proof (cases "length d > 3")
    case True
    then have "(length d - 1) div 3 = Suc ((length d - 3 - 1) div 3)" by linarith
    with True "1.IH" [OF True] show ?thesis
      by (simp add: groupDigits.simps [of d] strings_Join_snoc)
  qed (simp add: groupDigits.simps [of d])
qed

lemma set_groupDigits: "x \<in> set (groupDigits d) \<Longrightarrow> set x \<subseteq> set d"
proof (induction d rule: groupDigits.induct)
  case (1 d)
  then show ?case
    by (auto simp: groupDigits.simps [of d] split: if_splits dest: in_set_takeD in_set_dropD)
qed

lemma length_groupThousands:
  "0 \<le> n \<Longrightarrow> length (groupThousands n) = length (itoa n) + (length (itoa n) - 1) div 3"
  by (simp add: groupThousands_def Let_def length_join_groupDigits)

lemma ascii_groupThousands: "0 \<le> n \<Longrightarrow> c \<in> set (groupThousands n) \<Longrightarrow> ascii c"
proof -
  assume n: "0 \<le> n" and c: "c \<in> set (groupThousands n)"
  have "set (groupThousands n) \<subseteq> set (itoa n) \<union> {CHR '',''}"
    using n set_strings_Join [of "groupDigits (itoa n)" "'',''"] set_groupDigits [of _ "itoa n"]
    by (auto simp: groupThousands_def Let_def)
  with c have "c \<in> set (nat_digits (nat n)) \<or> c = CHR '',''" using n by (auto simp: itoa_def)
  then show ?thesis by (auto dest: ascii_nat_digits simp: ascii_def)
qed

lemma rune_count_omittedMarker:
  assumes "0 \<le> n"
  shows "rune_count (omittedMarker n label) =
    5 + length (groupThousands n) + rune_count ('' tokens omitted from source '' @ label @ '' ...]'')"
proof -
  have "rune_count (''[... '' @ (groupThousands n @ r)) = 5 + (length (groupThousands n) + rune_count r)" for r
    using assms rune_count_ascii_append [of "''[... ''" "groupThousands n @ r"]
      rune_count_ascii_append [of "groupThousands n" r]
    by (simp add: ascii_groupThousands) (simp add: ascii_def)
  then show ?thesis unfolding omittedMarker_def by simp
qed

lemma omittedMarker_mono:
  assumes "0 \<le> m" and "m \<le> n"
  shows "rune_count (omittedMarker m label) \<le> rune_count (omittedMarker n label)"
proof -
  have "length (itoa m) \<le> length (itoa n)"
    using assms by (simp add: itoa_def length_nat_digits_mono nat_mono)
  then have "length (groupThousands m) \<le> length (groupThousands n)"
    using assms by (simp add: length_groupThousands add_mono diff_le_mono div_le_mono)
  with assms show ?thesis by (simp add: rune_count_omittedMarker)
qed

section \<open>A rendered source stays within its allocation\<close>

lemma rune_count_concat: "\<forall>c \<in> set cs. rune_ok c \<Longrightarrow> rune_count (concat cs) = length cs"
  using rune_count_concat_append [of cs "[]"] by simp

lemma truncateReferenceContent_fits:
  assumes trunc: "truncateReferenceContent content allocation tot label = (text, omitted)"
    and pos: "0 < tot" and room: "int (rune_count (omittedMarker tot label)) + 4 \<le> 4 * allocation"
  shows "estimateReferenceTokens text \<le> allocation \<and> 1 \<le> omitted \<and> omitted \<le> tot"
proof -
  define runes where "runes = go_runes content"
  define room' where "room' = allocation * 4 - int (rune_count (omittedMarker tot label)) - 2"
  define keep where "keep = (if (if room' < 2 then 2 else room') > int (length runes) then int (length runes)
    else (if room' < 2 then 2 else room'))"
  define hd' where "hd' = nat (keep div 2)"
  define tl' where "tl' = nat (keep - keep div 2)"
  have keep: "0 \<le> keep" "keep \<le> int (length runes)" and keep_le: "keep \<le> room'"
    using room by (simp_all add: keep_def room'_def)
  then have ht: "int hd' + int tl' = keep" unfolding hd'_def tl'_def by linarith
  have om: "omitted = max 1 (tot - (keep + 3) div 4)"
    and tx: "text = concat (take hd' runes) @ [CHR 0x0A] @ omittedMarker omitted label @ [CHR 0x0A]
      @ concat (drop (length runes - tl') runes)"
    using trunc [unfolded truncateReferenceContent_def Let_def referenceCharsPerToken_def,
        folded runes_def, folded room'_def, folded keep_def] keep
    by (auto simp: hd'_def tl'_def max_def add.commute split: if_splits)
  have ok: "\<forall>c \<in> set runes. rune_ok c" using go_runes_ok by (auto simp: runes_def)
  then have "\<forall>c \<in> set (take hd' runes). rune_ok c" "\<forall>c \<in> set (drop (length runes - tl') runes). rune_ok c"
    by (auto dest: in_set_takeD in_set_dropD)
  moreover have "ascii CHR 0x0A" by (simp add: ascii_def)
  ultimately have "rune_count text = length (take hd' runes) + Suc (rune_count (omittedMarker omitted label)
      + Suc (length (drop (length runes - tl') runes)))"
    unfolding tx by (simp add: rune_count_concat_append rune_count_ascii_mid rune_count_concat)
  also have "\<dots> \<le> hd' + tl' + 2 + rune_count (omittedMarker omitted label)"
    using ht keep by simp
  finally have "int (rune_count text) \<le> keep + 2 + int (rune_count (omittedMarker omitted label))"
    using ht by linarith
  moreover have bounds: "1 \<le> omitted" "omitted \<le> tot" using om pos keep by auto
  then have "rune_count (omittedMarker omitted label) \<le> rune_count (omittedMarker tot label)"
    by (intro omittedMarker_mono) auto
  ultimately have "int (rune_count text) \<le> 4 * allocation" using keep_le room'_def by linarith
  with bounds show ?thesis by (simp add: estimateReferenceTokens_def estimate_le_iff)
qed


text \<open>
  A persisted label is short (\<open>R1\<close> to \<open>R20\<close>); for any label of at most 900 runes and any
  content that fits an address space the marker leaves room in an allocation of 256 tokens.
\<close>

lemma omittedMarker_room:
  assumes "0 \<le> n" and "n < 10 ^ 19" and "rune_count label \<le> 900"
  shows "int (rune_count (omittedMarker n label)) + 4 \<le> 1024"
proof -
  have "length (itoa n) \<le> 19"
    using assms by (simp add: itoa_def) (intro length_nat_digits_less, auto simp: nat_less_iff)
  then have "length (groupThousands n) \<le> 25" using assms(1) by (simp add: length_groupThousands)
  moreover have "rune_count ('' tokens omitted from source '' @ label @ '' ...]'') = 28 + (rune_count label + 5)"
    using rune_count_ascii_append [of "'' tokens omitted from source ''" "label @ '' ...]''"]
      rune_count_ascii_mid [of "CHR '' ''" label "''...]''"]
    by (auto simp: ascii_def rune_count_ascii)
  ultimately show ?thesis using assms by (simp add: rune_count_omittedMarker)
qed

lemma escape_estimate: "estimateReferenceTokens (fst (escapeBlockTerminator c)) = contributionTokens c"
  by (simp add: contributionTokens_def)

lemma compileSource_fields [simp]:
  "mr_NodeID (fst (compileSource i src a)) = si_NodeID src"
  "mr_ReferenceIndex (fst (compileSource i src a)) = int i + 1"
  "mr_SourceLabel (fst (compileSource i src a)) = sourceLabel src i"
  "mr_ColorKey (fst (compileSource i src a)) = si_ColorKey src"
  "mr_NodeType (fst (compileSource i src a)) = si_NodeType src"
  "mr_ContentHash (fst (compileSource i src a)) = si_ContentHash src"
  by (simp_all add: compileSource_def Let_def split: prod.split)

lemma compileSource_tokens:
  assumes "min (contributionTokens (si_Content src)) 256 \<le> a"
  shows "0 \<le> mr_TokenCount (fst (compileSource i src a)) \<and> mr_TokenCount (fst (compileSource i src a)) \<le> a \<and>
    mr_TokenCount (fst (compileSource i src a)) \<le> contributionTokens (si_Content src) \<and>
    (mr_Truncated (fst (compileSource i src a)) \<longleftrightarrow> a < contributionTokens (si_Content src))"
  using assms contributionTokens_nonneg [of "si_Content src"]
  by (auto simp: compileSource_def renderSourceContent_def escape_estimate [symmetric] Let_def min_def
      split: prod.splits if_splits)

lemma compileSource_fits:
  assumes "min (contributionTokens (si_Content src)) 256 \<le> a"
    and "contributionTokens (si_Content src) < 10 ^ 19" and "rune_count (sourceLabel src i) \<le> 900"
  shows "estimateReferenceTokens (mr_Content (fst (compileSource i src a)))
    \<le> mr_TokenCount (fst (compileSource i src a))"
proof (cases "contributionTokens (si_Content src) \<le> (if a \<le> 0 then 256 else a)")
  case True
  then show ?thesis
    by (auto simp: compileSource_def renderSourceContent_def escape_estimate [symmetric] Let_def
        split: prod.splits if_splits)
next
  case False
  define content where "content = fst (escapeBlockTerminator (si_Content src))"
  define tot where "tot = estimateReferenceTokens content"
  have tot: "tot = contributionTokens (si_Content src)" by (simp add: tot_def content_def escape_estimate)
  with False assms(1) have a: "256 \<le> a" "a < tot" by (auto simp: min_def split: if_splits)
  obtain body omitted where t: "truncateReferenceContent content a tot (sourceLabel src i) = (body, omitted)"
    by (cases "truncateReferenceContent content a tot (sourceLabel src i)")
  have "int (rune_count (omittedMarker tot (sourceLabel src i))) + 4 \<le> 4 * a"
    using omittedMarker_room [of tot "sourceLabel src i"] a assms tot by simp
  with truncateReferenceContent_fits [OF t] a
  have "estimateReferenceTokens body \<le> a" by simp
  moreover have "mr_Content (fst (compileSource i src a)) = body" "mr_TokenCount (fst (compileSource i src a)) = a"
    using a t by (cases "escapeBlockTerminator (si_Content src)",
        simp add: compileSource_def renderSourceContent_def Let_def content_def tot_def)+
  ultimately show ?thesis by simp
qed

section \<open>The rendering loop\<close>

fun compiledSources :: "nat \<Rightarrow> source_input list \<Rightarrow> int list \<Rightarrow> multi_reference_source list" where
  "compiledSources i (src # sources) (a # allocations) =
     fst (compileSource i src a) # compiledSources (Suc i) sources allocations"
| "compiledSources i sources allocations = []"

lemma compileSources_Context:
  "comp_Context (compileSources i sources al c) =
     (comp_Context c)\<lparr>mrc_Sources := mrc_Sources (comp_Context c) @ compiledSources i sources al,
       mrc_TokensUsed := mrc_TokensUsed (comp_Context c) + sum_list (map mr_TokenCount (compiledSources i sources al))\<rparr>"
  by (induction i sources al c rule: compileSources.induct) (simp_all add: Let_def split: prod.split)

lemma length_compiledSources [simp]:
  "length sources = length al \<Longrightarrow> length (compiledSources i sources al) = length sources"
  by (induction i sources al rule: compiledSources.induct) simp_all

lemma nth_compiledSources [simp]:
  "length sources = length al \<Longrightarrow> k < length sources \<Longrightarrow>
     compiledSources i sources al ! k = fst (compileSource (i + k) (sources ! k) (al ! k))"
proof (induction i sources al arbitrary: k rule: compiledSources.induct)
  case (1 i src sources a al)
  then show ?case by (cases k) simp_all
qed simp_all

lemma compileMultiReference_Some:
  assumes "compileMultiReference ustr (Some sel) = Inr (Some c)"
  shows "\<exists>al budget. verifySources 0 (mrs_Sources sel) = None \<and>
    AllocateMultiReferenceBudget (mrs_ProfileBudget sel) (mrs_Sources sel) = Inr (al, budget) \<and>
    2 \<le> length (mrs_Sources sel) \<and> length (mrs_Sources sel) \<le> 20 \<and>
    mrc_Sources (comp_Context c) = compiledSources 0 (mrs_Sources sel) al \<and>
    mrc_TokensUsed (comp_Context c) = sum_list (map mr_TokenCount (compiledSources 0 (mrs_Sources sel) al)) \<and>
    mrc_TokenBudget (comp_Context c) = budget \<and>
    mrc_ManifestHash (comp_Context c) = mrm_ContextManifestHash (mrs_Metadata sel) \<and>
    comp_Block c = renderMultiReferenceBlock ustr sel (comp_Context c)"
  using assms
  by (auto simp: compileMultiReference_def Let_def compileSources_Context split: if_splits option.splits sum.splits)

lemma verifySources_None:
  "verifySources i sources = None \<longleftrightarrow>
     (\<forall>s \<in> set sources. si_ContentHash s \<noteq> [] \<and> (si_SignedContentHash s = [] \<or> si_SignedContentHash s = si_ContentHash s))"
  by (induction i sources rule: verifySources.induct) (auto simp: Let_def)


section \<open>Selected content cannot terminate the block\<close>

lemma blockClose_Cons: "blockClose = CHR ''<'' # CHR ''/'' # ''canopy_multi_reference''"
  by (simp add: blockClose_def)

lemma blockClose_ascii: "\<forall>b \<in> set blockClose. ascii b"
  by (simp add: blockClose_def ascii_def)

lemma newline_blockClose [simp]: "CHR 0x0A \<notin> set blockClose"
  by (simp add: blockClose_def)

lemma escaped_content: "\<not> contains blockClose (fst (escapeBlockTerminator content))"
  using replace_all_removes [of "CHR ''<''" "CHR ''/''" "''canopy_multi_reference''" "CHR 0x5C"
      "''/canopy_multi_reference''" content]
  by (simp add: escapeBlockTerminator_def blockTerminatorEscaped_def blockClose_Cons)

lemma no_angle: "CHR ''<'' \<notin> set u \<Longrightarrow> \<not> contains blockClose u"
  using contains_skip [of "CHR ''<''" u _ "[]"] by (simp add: blockClose_Cons)

lemma no_angle_groupThousands: "0 \<le> n \<Longrightarrow> CHR ''<'' \<notin> set (groupThousands n)"
proof -
  assume "0 \<le> n"
  have "set (groupThousands n) \<subseteq> set (itoa n) \<union> {CHR '',''}"
    using \<open>0 \<le> n\<close> set_strings_Join [of "groupDigits (itoa n)" "'',''"] set_groupDigits [of _ "itoa n"]
    by (auto simp: groupThousands_def Let_def)
  moreover have "CHR ''<'' \<notin> set (itoa n)"
    using \<open>0 \<le> n\<close> nat_digits_range [of "CHR ''<''" "nat n"] by (auto simp: itoa_def byte_in_def)
  ultimately show ?thesis by auto
qed

lemma truncated_content:
  assumes "\<not> contains blockClose content" and "CHR ''<'' \<notin> set label"
    and trunc: "truncateReferenceContent content a tot label = (body, omitted)"
  shows "\<not> contains blockClose body"
proof -
  obtain h k where body: "body = concat (take h (go_runes content)) @ CHR 0x0A # omittedMarker omitted label
      @ CHR 0x0A # concat (drop k (go_runes content))" and om: "1 \<le> omitted"
    using trunc by (auto simp: truncateReferenceContent_def Let_def)
  have "\<not> contains blockClose (omittedMarker omitted label)"
    using no_angle_groupThousands [of omitted] om assms(2) by (intro no_angle) (auto simp: omittedMarker_def)
  with contains_go_runes [OF blockClose_ascii [unfolded blockClose_Cons] assms(1) [unfolded blockClose_Cons]]
  show ?thesis
    unfolding body using contains_break [OF newline_blockClose] blockClose_Cons by metis
qed

lemma compileSource_content:
  assumes "CHR ''<'' \<notin> set (sourceLabel src i)"
  shows "\<not> contains blockClose (mr_Content (fst (compileSource i src a)))"
  using escaped_content [of "si_Content src"] truncated_content [OF _ assms]
  by (auto simp: compileSource_def renderSourceContent_def Let_def split: prod.splits if_splits)

lemma itoa_no_angle [simp]: "CHR ''<'' \<notin> set (itoa i)"
  using nat_digits_range [of "CHR ''<''"] by (auto simp: itoa_def byte_in_def)

lemma format_rfc3339_no_angle [simp]: "CHR ''<'' \<notin> set (format_rfc3339 t)"
proof -
  have "CHR ''<'' \<notin> set (pad_digits w i)" for w i
    using nat_digits_range [of "CHR ''<''"] by (auto simp: pad_digits_def Let_def byte_in_def)
  then show ?thesis by (auto simp: format_rfc3339_def Let_def split: prod.split)
qed

lemma hex_digit_no_angle: "d < 16 \<Longrightarrow> hex_digit d \<noteq> CHR ''<''"
proof -
  assume "d < 16"
  then have "(of_char (hex_digit d) :: nat) \<noteq> 60"
    by (simp add: hex_digit_def)
  then show ?thesis by auto
qed

lemma quote_char_no_angle: "c \<noteq> CHR ''<'' \<Longrightarrow> CHR ''<'' \<notin> set (quote_char c)"
proof -
  assume c: "c \<noteq> CHR ''<''"
  have "of_char c < (256 :: nat)" by simp
  then have "of_char c div 16 < (16 :: nat)" by (simp only: div_less_iff_less_mult)
  then have h: "CHR ''<'' \<noteq> hex_digit (of_char c div 16)" "CHR ''<'' \<noteq> hex_digit (of_char c mod 16)"
    using hex_digit_no_angle [of "of_char c div 16"] hex_digit_no_angle [of "of_char c mod 16"] by auto
  define x y where "x = hex_digit (of_char c div 16)" and "y = hex_digit (of_char c mod 16)"
  have "quote_char c \<in> {[CHR 0x5C, c], [CHR 0x5C, CHR ''a''], [CHR 0x5C, CHR ''b''], [CHR 0x5C, CHR ''f''],
      [CHR 0x5C, CHR ''n''], [CHR 0x5C, CHR ''r''], [CHR 0x5C, CHR ''t''], [CHR 0x5C, CHR ''v''],
      [CHR 0x5C, CHR ''x'', x, y], [c]}"
    unfolding quote_char_def Let_def x_def y_def by (simp split: if_split)
  with c h [folded x_def y_def] show ?thesis by auto
qed

lemma quote_no_angle:
  assumes "CHR ''<'' \<notin> set s"
  shows "CHR ''<'' \<notin> set (strconv_Quote s)"
proof -
  have "\<And>c. c \<in> set s \<Longrightarrow> CHR ''<'' \<notin> set (quote_char c)"
    using assms by (intro quote_char_no_angle) auto
  then show ?thesis by (auto simp: strconv_Quote_def)
qed

lemma headerLines_no_angle:
  "\<forall>a \<in> set attrs. CHR ''<'' \<notin> set a \<Longrightarrow> CHR ''<'' \<notin> set (headerLines attrs)"
  by (induction attrs rule: headerLines.induct) auto

text \<open>The fields the server prints into headers hold no angle bracket.\<close>

definition plainField :: "string \<Rightarrow> bool" where
  "plainField s \<longleftrightarrow> CHR ''<'' \<notin> set s"

lemma blockHeader_no_close:
  assumes "\<And>u. plainField (ustr u)"
  shows "\<not> contains blockClose (blockHeader ustr sel ctx)"
proof -
  have "CHR ''<'' \<notin> set (headerLines attrs)"
    if "attrs = [''  target_tree_id='' @ strconv_Quote (ustr (mrs_TreeID sel)),
         ''  primary_source_id='' @ strconv_Quote (ustr (mrc_PrimarySourceID ctx)),
         ''  source_count='' @ strconv_Quote (itoa (int (length (mrc_Sources ctx)))),
         ''  synthetic_context_merge='' @ strconv_Quote (format_bool (mrc_IsSyntheticMergePoint ctx))]
        @ (case mrm_BranchSpan (mrs_Metadata sel) of None \<Rightarrow> []
           | Some sp \<Rightarrow> [''  common_ancestor_id='' @ strconv_Quote (ustr (bsm_CommonAncestorID sp))])" for attrs
    using assms unfolding that
    by (intro headerLines_no_angle) (auto simp: quote_no_angle plainField_def format_bool_def split: option.splits)
  then have "CHR ''<'' \<notin> set (tl (blockHeader ustr sel ctx))"
    by (simp add: blockHeader_def Let_def blockOpen_def)
  moreover have "blockHeader ustr sel ctx = CHR ''<'' # CHR ''c'' # drop 2 (blockHeader ustr sel ctx)"
    by (simp add: blockHeader_def Let_def blockOpen_def)
  moreover have "\<not> contains blockClose (CHR ''<'' # CHR ''c'' # u)" if "CHR ''<'' \<notin> set u" for u
    using no_angle [of "CHR ''c'' # u"] that by (simp add: blockClose_Cons)
  ultimately show ?thesis by (metis list.sel(3) list.set_intros(2))
qed

lemma sourceHeader_no_angle:
  assumes "\<And>u. plainField (ustr u)" and "plainField (mr_SourceLabel src)" and "plainField (mr_ColorKey src)"
    and "plainField (mr_NodeType src)"
  shows "CHR ''<'' \<notin> set (sourceHeader ustr src)"
  using assms by (auto simp: sourceHeader_def plainField_def format_bool_def)

lemma block_terminator_last:
  assumes ustr: "\<And>u. plainField (ustr u)"
    and srcs: "\<And>s. s \<in> set (mrc_Sources ctx) \<Longrightarrow>
      plainField (mr_SourceLabel s) \<and> plainField (mr_ColorKey s) \<and> plainField (mr_NodeType s)
      \<and> \<not> contains blockClose (mr_Content s)"
    and eq: "renderMultiReferenceBlock ustr sel ctx = a @ blockClose @ b"
  shows "b = ''>''"
proof -
  define parts where "parts = blockHeader ustr sel ctx #
    map (\<lambda>src. sourceHeader ustr src @ [CHR 0x0A] @ mr_Content src) (mrc_Sources ctx)"
  have "\<not> contains blockClose s" if "s \<in> set parts" for s
  proof (cases "s = blockHeader ustr sel ctx")
    case False
    with that obtain src where src: "src \<in> set (mrc_Sources ctx)"
      and s: "s = (sourceHeader ustr src @ [CHR 0x0A]) @ mr_Content src" by (auto simp: parts_def)
    have "CHR ''<'' \<notin> set (sourceHeader ustr src @ [CHR 0x0A])"
      using sourceHeader_no_angle [OF ustr] srcs [OF src] by auto
    with srcs [OF src] show ?thesis unfolding s blockClose_Cons by (subst contains_skip) auto
  qed (simp add: blockHeader_no_close [OF ustr])
  then have "\<not> contains blockClose (strings_Join parts [CHR 0x0A, CHR 0x0A])"
    using contains_Join_break [OF newline_blockClose] blockClose_Cons by (metis list.discI)
  then have "\<not> contains blockClose (strings_Join parts [CHR 0x0A, CHR 0x0A] @ CHR 0x0A # [])"
    using contains_break [OF newline_blockClose, of "strings_Join parts [CHR 0x0A, CHR 0x0A]" "[]"]
    by (auto simp: blockClose_Cons)
  then show ?thesis
  proof (rule terminator_at_end [OF blockClose_Cons _ _ newline_blockClose, rotated 2])
    have "parts \<noteq> []" by (simp add: parts_def)
    from strings_Join_snoc [OF this, of "blockClose @ ''>''" "[CHR 0x0A, CHR 0x0A]"] eq
    show "(strings_Join parts [CHR 0x0A, CHR 0x0A] @ [CHR 0x0A]) @ CHR 0x0A # blockClose @ ''>'' = a @ blockClose @ b"
      by (simp add: renderMultiReferenceBlock_def parts_def)
  qed simp_all
qed


section \<open>Properties\<close>

text \<open>
  C3: a compilation is complete. When a selection compiles it has 2 to 20 sources, every
  source is loaded and matches its signed hash, the context lists exactly the selected nodes
  in selection order under the indices 1, 2, ..., the tokens used stay within the token
  budget, and the manifest hash is carried over from the metadata.
\<close>

theorem multi_reference_all_or_nothing:
  assumes "compileMultiReference ustr (Some sel) = Inr (Some c)"
  shows "2 \<le> length (mrs_Sources sel) \<and> length (mrs_Sources sel) \<le> 20 \<and>
    (\<forall>s \<in> set (mrs_Sources sel). si_ContentHash s \<noteq> [] \<and>
       (si_SignedContentHash s = [] \<or> si_SignedContentHash s = si_ContentHash s)) \<and>
    map mr_NodeID (mrc_Sources (comp_Context c)) = map si_NodeID (mrs_Sources sel) \<and>
    map mr_ReferenceIndex (mrc_Sources (comp_Context c)) = map (\<lambda>i. int i + 1) [0..<length (mrs_Sources sel)] \<and>
    mrc_TokensUsed (comp_Context c) \<le> mrc_TokenBudget (comp_Context c) \<and>
    mrc_ManifestHash (comp_Context c) = mrm_ContextManifestHash (mrs_Metadata sel)"
proof -
  from compileMultiReference_Some [OF assms] obtain al budget where
    v: "verifySources 0 (mrs_Sources sel) = None"
    and al: "AllocateMultiReferenceBudget (mrs_ProfileBudget sel) (mrs_Sources sel) = Inr (al, budget)"
    and n: "2 \<le> length (mrs_Sources sel)" "length (mrs_Sources sel) \<le> 20"
    and c: "mrc_Sources (comp_Context c) = compiledSources 0 (mrs_Sources sel) al"
      "mrc_TokensUsed (comp_Context c) = sum_list (map mr_TokenCount (compiledSources 0 (mrs_Sources sel) al))"
      "mrc_TokenBudget (comp_Context c) = budget"
      "mrc_ManifestHash (comp_Context c) = mrm_ContextManifestHash (mrs_Metadata sel)" by blast
  note inv = allocation_bounds [OF al]
  then have len: "length (mrs_Sources sel) = length al" by simp
  have "sum_list (map mr_TokenCount (compiledSources 0 (mrs_Sources sel) al)) \<le> sum_list al"
    using inv len compileSource_tokens by (intro sum_list_mono_nth) auto
  moreover have "map mr_NodeID (compiledSources 0 (mrs_Sources sel) al) = map si_NodeID (mrs_Sources sel)"
    "map mr_ReferenceIndex (compiledSources 0 (mrs_Sources sel) al) = map (\<lambda>i. int i + 1) [0..<length (mrs_Sources sel)]"
    using len by (auto intro: nth_equalityI)
  ultimately show ?thesis using v n c inv by (simp add: verifySources_None)
qed

text \<open>
  when a compilation fails. It fails exactly when the selection has fewer than 2 or more
  than 20 sources, a source is not loaded or changed since it was signed, or the budget
  cannot reserve 256 tokens per source; no selection compiles to nothing without an error.
\<close>

lemma multi_reference_error_iff:
  "is_err (compileMultiReference ustr (Some sel)) \<longleftrightarrow>
     length (mrs_Sources sel) < 2 \<or> 20 < length (mrs_Sources sel) \<or>
     (\<exists>s \<in> set (mrs_Sources sel). si_ContentHash s = [] \<or>
        si_SignedContentHash s \<noteq> [] \<and> si_SignedContentHash s \<noteq> si_ContentHash s) \<or>
     referenceAvailableBudget (mrs_ProfileBudget sel) < 256 * int (length (mrs_Sources sel))"
proof (cases "verifySources 0 (mrs_Sources sel)")
  case None
  then have "\<not> (\<exists>s \<in> set (mrs_Sources sel). si_ContentHash s = [] \<or>
        si_SignedContentHash s \<noteq> [] \<and> si_SignedContentHash s \<noteq> si_ContentHash s)"
    by (auto simp: verifySources_None)
  with None allocation_fails_iff [of "mrs_ProfileBudget sel" "mrs_Sources sel"] show ?thesis
    by (auto simp: compileMultiReference_def Let_def split: sum.splits)
next
  case (Some e)
  then have "\<exists>s \<in> set (mrs_Sources sel). si_ContentHash s = [] \<or>
        si_SignedContentHash s \<noteq> [] \<and> si_SignedContentHash s \<noteq> si_ContentHash s"
    using verifySources_None [of 0 "mrs_Sources sel"] by auto
  with Some show ?thesis by (auto simp: compileMultiReference_def Let_def)
qed

text \<open>
  C2: selected content is data. However the selected messages read, the block terminator
  occurs in the compiled block only at its very end, provided identifiers, labels, colour
  keys and node types print without an angle bracket.
\<close>

theorem multi_reference_terminator_only_at_end:
  assumes "compileMultiReference ustr (Some sel) = Inr (Some c)"
    and "\<And>u. plainField (ustr u)"
    and "\<And>s. s \<in> set (mrs_Sources sel) \<Longrightarrow>
      plainField (si_Label s) \<and> plainField (si_ColorKey s) \<and> plainField (si_NodeType s)"
    and "comp_Block c = a @ blockClose @ b"
  shows "b = ''>''"
proof -
  from compileMultiReference_Some [OF assms(1)] obtain al budget where
    al: "AllocateMultiReferenceBudget (mrs_ProfileBudget sel) (mrs_Sources sel) = Inr (al, budget)"
    and c: "mrc_Sources (comp_Context c) = compiledSources 0 (mrs_Sources sel) al"
      "comp_Block c = renderMultiReferenceBlock ustr sel (comp_Context c)" by blast
  have len: "length (mrs_Sources sel) = length al" using allocation_bounds [OF al] by simp
  have "plainField (mr_SourceLabel s) \<and> plainField (mr_ColorKey s) \<and> plainField (mr_NodeType s)
      \<and> \<not> contains blockClose (mr_Content s)" if "s \<in> set (mrc_Sources (comp_Context c))" for s
  proof -
    from that c(1) len obtain k where k: "k < length al" and s: "s = fst (compileSource k (mrs_Sources sel ! k) (al ! k))"
      by (auto simp: in_set_conv_nth)
    from k len assms(3) [of "mrs_Sources sel ! k"] have "plainField (sourceLabel (mrs_Sources sel ! k) k)"
      by (auto simp: sourceLabel_def plainField_def)
    with k len assms(3) [of "mrs_Sources sel ! k"] show ?thesis
      unfolding s by (simp add: compileSource_content plainField_def)
  qed
  then show ?thesis
    using block_terminator_last [of ustr "comp_Context c" sel a b] assms(2,4) c(2) by simp
qed

text \<open>
  what is rendered for a source fits. Every compiled source's text, omission marker
  included, is estimated at no more than the token count reported for it, which is at most
  the source's own tokens and the 2048 cap; a source is truncated only when its allocation is
  smaller than its content. Labels have at most 900 runes, contents fewer than \<open>10^19\<close> tokens.
\<close>

lemma multi_reference_rendered_fits:
  assumes "compileMultiReference ustr (Some sel) = Inr (Some c)" and "k < length (mrs_Sources sel)"
    and "rune_count (sourceLabel (mrs_Sources sel ! k) k) \<le> 900"
    and "contributionTokens (si_Content (mrs_Sources sel ! k)) < 10 ^ 19"
  shows "estimateReferenceTokens (mr_Content (mrc_Sources (comp_Context c) ! k))
      \<le> mr_TokenCount (mrc_Sources (comp_Context c) ! k) \<and>
    mr_TokenCount (mrc_Sources (comp_Context c) ! k)
      \<le> min 2048 (contributionTokens (si_Content (mrs_Sources sel ! k)))"
proof -
  from compileMultiReference_Some [OF assms(1)] obtain al budget where
    al: "AllocateMultiReferenceBudget (mrs_ProfileBudget sel) (mrs_Sources sel) = Inr (al, budget)"
    and c: "mrc_Sources (comp_Context c) = compiledSources 0 (mrs_Sources sel) al" by blast
  note inv = allocation_bounds [OF al]
  with assms(2) have k: "min (contributionTokens (si_Content (mrs_Sources sel ! k))) 256 \<le> al ! k" "al ! k \<le> 2048"
    and len: "length (mrs_Sources sel) = length al" by simp_all
  from compileSource_fits [OF k(1) assms(4,3)] compileSource_tokens [OF k(1), of k] k(2) assms(2) show ?thesis
    unfolding c using len by simp
qed

subsection \<open>Witnesses\<close>

definition demoUuid :: "uuid \<Rightarrow> string" where
  "demoUuid u = itoa (uint u)"

definition demoSelection :: multi_reference_selection where
  "demoSelection = \<lparr>mrs_TreeID = 1,
     mrs_Metadata = \<lparr>mrm_Version = 1, mrm_PrimarySourceID = 7, mrm_CanonicalSourceIDs = [7],
       mrm_IsSyntheticMergePoint = False, mrm_BranchSpan = None, mrm_ContextManifestHash = ''m'',
       mrm_ContextTokenBudget = 0, mrm_RequestID = [], mrm_RequestHash = []\<rparr>,
     mrs_Sources = [demoSource (replicate 8 CHR ''a''), demoSource (replicate 4000 CHR ''a'')],
     mrs_ProfileBudget = 1024\<rparr>"

lemma demoSelection_compiles:
  "\<exists>c. compileMultiReference demoUuid (Some demoSelection) = Inr (Some c)"
  by (simp add: compileMultiReference_def demoSelection_def Let_def demo_allocation)
    (simp add: demoSource_def)

lemma demoUuid_plain: "plainField (demoUuid u)"
  by (simp add: plainField_def demoUuid_def)

theorem multi_reference_all_or_nothing_witness:
  "\<exists>c. compileMultiReference demoUuid (Some demoSelection) = Inr (Some c) \<and>
     mrc_TokensUsed (comp_Context c) \<le> mrc_TokenBudget (comp_Context c)"
  using demoSelection_compiles multi_reference_all_or_nothing [of demoUuid demoSelection] by blast

theorem multi_reference_terminator_only_at_end_witness:
  "\<exists>c. compileMultiReference demoUuid (Some demoSelection) = Inr (Some c) \<and>
     (\<forall>a b. comp_Block c = a @ blockClose @ b \<longrightarrow> b = ''>'')"
proof -
  obtain c where c: "compileMultiReference demoUuid (Some demoSelection) = Inr (Some c)"
    using demoSelection_compiles by blast
  have "\<And>s. s \<in> set (mrs_Sources demoSelection) \<Longrightarrow>
      plainField (si_Label s) \<and> plainField (si_ColorKey s) \<and> plainField (si_NodeType s)"
    by (auto simp: demoSelection_def demoSource_def plainField_def)
  from multi_reference_terminator_only_at_end [OF c demoUuid_plain this] c show ?thesis by blast
qed

theorem multi_reference_rendered_fits_witness:
  "\<exists>c. compileMultiReference demoUuid (Some demoSelection) = Inr (Some c) \<and>
     estimateReferenceTokens (mr_Content (mrc_Sources (comp_Context c) ! 1)) \<le> 1000"
proof -
  obtain c where c: "compileMultiReference demoUuid (Some demoSelection) = Inr (Some c)"
    using demoSelection_compiles by blast
  have "itoa 2 = ''2''" by code_simp
  then have "sourceLabel (demoSource x) 1 = ''R2''" for x
    by (simp add: sourceLabel_def demoSource_def)
  with multi_reference_rendered_fits [OF c, of 1] c show ?thesis
    by (auto simp: demoSelection_def rune_count_ascii ascii_def)
qed

end
