(* ===== verification/Reference_Parser.thy ===== *)
theory Reference_Parser
  imports Go_Strings
begin

text \<open>
  The parsers of \<open>#topic-slug\<close> and \<open>#card:\<close> references in message content
  (\<open>internal/reference/parser.go\<close>, \<open>card_ref.go\<close> and the parsed types of \<open>types.go\<close>).
  The two regular expressions are scanners over the bytes of the content: a boundary is the
  start of the text or a byte outside \<open>[a-zA-Z0-9#]\<close> that no earlier match has consumed.
  Every byte of a rune of more than one byte is outside that class, so the byte before a
  \<open>#\<close> decides as the rune does. \<open>uparse\<close>, \<open>uversion\<close> and \<open>ustr\<close> are \<open>uuid.Parse\<close>,
  \<open>UUID.Version\<close> and \<open>UUID.String\<close> of the third-party package.
\<close>

section \<open>Data\<close>

record parsed_reference =
  pr_Raw :: string
  pr_Slug :: string
  pr_Offset :: nat
  pr_Length :: nat

datatype card_ref_reason =
    InvalidUUID | NotUUIDv7 | UnknownType | EmptyType | EmptyID

record card_reference =
  cr_Raw :: string
  cr_URI :: string
  cr_CardType :: string
  cr_CardID :: uuid
  cr_Bare :: bool
  cr_Offset :: nat
  cr_Length :: nat
  cr_Invalid :: "card_ref_reason option"

record card_ref_span =
  span_start :: nat
  span_end :: nat
  span_token :: string

fun CardRefReason :: "card_ref_reason \<Rightarrow> string" where
  "CardRefReason InvalidUUID = ''invalid_uuid''"
| "CardRefReason NotUUIDv7 = ''not_uuid_v7''"
| "CardRefReason UnknownType = ''unknown_card_type''"
| "CardRefReason EmptyType = ''empty_card_type''"
| "CardRefReason EmptyID = ''empty_card_id''"

definition CardRefURIPrefix :: string where "CardRefURIPrefix = ''ref://card/''"
definition cardRefKeyword :: string where "cardRefKeyword = ''#card:''"
definition CardRefTypes :: "string list" where "CardRefTypes = [''compact'', ''expanded'', ''iteration'']"

section \<open>Character classes\<close>

definition lower :: "char \<Rightarrow> bool" where "lower c \<longleftrightarrow> byte_in 97 122 c"
definition digit :: "char \<Rightarrow> bool" where "digit c \<longleftrightarrow> byte_in 48 57 c"
definition wordHash :: "char \<Rightarrow> bool" where
  "wordHash c \<longleftrightarrow> lower c \<or> byte_in 65 90 c \<or> digit c \<or> c = CHR ''#''"
definition tokenChar :: "char \<Rightarrow> bool" where
  "tokenChar c \<longleftrightarrow> digit c \<or> byte_in 65 90 c \<or> lower c \<or> c = CHR ''/'' \<or> c = CHR ''-''"
definition slugChar :: "char \<Rightarrow> bool" where
  "slugChar c \<longleftrightarrow> lower c \<or> digit c \<or> c = CHR ''-''"

section \<open>Scanning\<close>

text \<open>
  One scanner for both expressions: \<open>body s\<close> is the length the expression consumes after the
  boundary at the start of \<open>s\<close>, if it matches there. The scanner returns offset and length
  of every leftmost non-overlapping match; \<open>bnd\<close> says whether a match may start here.
\<close>

definition matchLen :: "(string \<Rightarrow> nat option) \<Rightarrow> string \<Rightarrow> nat" where
  "matchLen body s = (case body s of None \<Rightarrow> 0 | Some n \<Rightarrow> n)"

fun scan :: "(string \<Rightarrow> nat option) \<Rightarrow> nat \<Rightarrow> bool \<Rightarrow> nat \<Rightarrow> string \<Rightarrow> (nat \<times> nat) list" where
  "scan body off bnd skip [] = []"
| "scan body off bnd 0 (c # s) =
     (if bnd \<and> 0 < matchLen body (c # s)
      then (off, matchLen body (c # s)) # scan body (Suc off) False (matchLen body (c # s) - 1) s
      else scan body (Suc off) (\<not> wordHash c) 0 s)"
| "scan body off bnd (Suc skip) (c # s) = scan body (Suc off) False skip s"

definition cardRefBody :: "string \<Rightarrow> nat option" where
  "cardRefBody s =
     (if starts_with cardRefKeyword s
      then Some (length cardRefKeyword + length (takeWhile tokenChar (drop (length cardRefKeyword) s)))
      else None)"

text \<open>The slug at the start of a text: greedy, without trailing hyphens.\<close>

definition slugPrefix :: "string \<Rightarrow> string" where
  "slugPrefix s =
     (case s of [] \<Rightarrow> []
      | c # s' \<Rightarrow> if lower c
                 then c # rev (dropWhile (\<lambda>d. d = CHR ''-'') (rev (takeWhile slugChar s'))) else [])"

definition referenceBody :: "string \<Rightarrow> nat option" where
  "referenceBody s =
     (case s of [] \<Rightarrow> None
      | c # s' \<Rightarrow> if c = CHR ''#'' \<and> slugPrefix s' \<noteq> [] then Some (Suc (length (slugPrefix s'))) else None)"

text \<open>\<open>^[a-z]([a-z0-9-]*[a-z0-9])?$\<close>\<close>

definition ValidSlug :: "string \<Rightarrow> bool" where
  "ValidSlug s \<longleftrightarrow> s \<noteq> [] \<and> lower (hd s) \<and> list_all slugChar (tl s) \<and> last s \<noteq> CHR ''-''"

section \<open>Card references\<close>

definition substr :: "nat \<Rightarrow> nat \<Rightarrow> string \<Rightarrow> string" where
  "substr off len s = take len (drop off s)"

definition cardRefSpans :: "string \<Rightarrow> card_ref_span list" where
  "cardRefSpans content =
     map (\<lambda>(off, len). \<lparr>span_start = off, span_end = off + len,
            span_token = substr (off + length cardRefKeyword) (len - length cardRefKeyword) content\<rparr>)
       (scan cardRefBody 0 True 0 content)"

definition IsUUIDv7 :: "(uuid \<Rightarrow> nat) \<Rightarrow> uuid \<Rightarrow> bool" where
  "IsUUIDv7 uversion u \<longleftrightarrow> uversion u = 7"

definition parseCardRefID :: "(string \<Rightarrow> uuid option) \<Rightarrow> (uuid \<Rightarrow> nat) \<Rightarrow> string \<Rightarrow> card_ref_reason + uuid" where
  "parseCardRefID uparse uversion raw =
     (case uparse raw of None \<Rightarrow> Inl InvalidUUID
      | Some parsed \<Rightarrow> if \<not> IsUUIDv7 uversion parsed then Inl NotUUIDv7 else Inr parsed)"

text \<open>Type, identifier, bare flag and the reason of a malformed token.\<close>

definition classifyCardRefToken ::
    "(string \<Rightarrow> uuid option) \<Rightarrow> (uuid \<Rightarrow> nat) \<Rightarrow> string \<Rightarrow> string \<times> uuid \<times> bool \<times> card_ref_reason option" where
  "classifyCardRefToken uparse uversion token =
     (if token = [] then ([], uuid_Nil, True, Some EmptyID)
      else if CHR ''/'' \<in> set token then
        (let typ = takeWhile (\<lambda>c. c \<noteq> CHR ''/'') token;
             rawID = tl (dropWhile (\<lambda>c. c \<noteq> CHR ''/'') token)
         in if typ = [] then ([], uuid_Nil, False, Some EmptyType)
            else if typ \<notin> set CardRefTypes then ([], uuid_Nil, False, Some UnknownType)
            else if rawID = [] then (typ, uuid_Nil, False, Some EmptyID)
            else case parseCardRefID uparse uversion rawID of
              Inl e \<Rightarrow> (typ, uuid_Nil, False, Some e)
            | Inr parsed \<Rightarrow> (typ, parsed, False, None))
      else case parseCardRefID uparse uversion token of
          Inl e \<Rightarrow> ([], uuid_Nil, True, Some e)
        | Inr parsed \<Rightarrow> ([], parsed, True, None))"

definition cardRefURI :: "(uuid \<Rightarrow> string) \<Rightarrow> string \<Rightarrow> uuid \<Rightarrow> string" where
  "cardRefURI ustr cardType u =
     (if cardType = [] then CardRefURIPrefix @ ustr u else CardRefURIPrefix @ cardType @ ''/'' @ ustr u)"

definition ParseCardReferences ::
    "(uuid \<Rightarrow> string) \<Rightarrow> (string \<Rightarrow> uuid option) \<Rightarrow> (uuid \<Rightarrow> nat) \<Rightarrow> string \<Rightarrow> card_reference list" where
  "ParseCardReferences ustr uparse uversion content =
     map (\<lambda>span.
       let (cardType, u, bare, reason) = classifyCardRefToken uparse uversion (span_token span);
           ref = \<lparr>cr_Raw = substr (span_start span) (span_end span - span_start span) content,
                  cr_URI = [], cr_CardType = cardType, cr_CardID = uuid_Nil, cr_Bare = bare,
                  cr_Offset = span_start span, cr_Length = span_end span - span_start span,
                  cr_Invalid = reason\<rparr>
       in if reason \<noteq> None then ref
          else ref\<lparr>cr_CardID := u, cr_URI := cardRefURI ustr cardType u\<rparr>)
     (cardRefSpans content)"

section \<open>Topic references\<close>

definition withinCardRefSpan :: "card_ref_span list \<Rightarrow> nat \<Rightarrow> bool" where
  "withinCardRefSpan spans offset \<longleftrightarrow> list_ex (\<lambda>sp. offset \<ge> span_start sp \<and> offset < span_end sp) spans"

definition ParseReferences :: "string \<Rightarrow> parsed_reference list" where
  "ParseReferences content =
     map (\<lambda>(off, len). \<lparr>pr_Raw = substr off len content, pr_Slug = substr (Suc off) (len - 1) content,
                        pr_Offset = off, pr_Length = len\<rparr>)
       (filter (\<lambda>(off, len). \<not> withinCardRefSpan (cardRefSpans content) off)
          (scan referenceBody 0 True 0 content))"

definition DedupeBySlug :: "parsed_reference list \<Rightarrow> parsed_reference list" where
  "DedupeBySlug refs = dedup_by pr_Slug [] refs"

section \<open>The scanner\<close>

text \<open>
  Every match is one of the body on the content at its offset, after a boundary, and the
  matches follow each other without overlap.
\<close>

lemma scan_sound:
  assumes "(o', n) \<in> set (scan body off bnd skip s)"
  shows "\<exists>k. o' = off + k \<and> k < length s \<and> matchLen body (drop k s) = n \<and> 0 < n \<and> skip \<le> k \<and>
    (k = skip \<longrightarrow> bnd \<and> skip = 0) \<and> (0 < k \<longrightarrow> \<not> wordHash (s ! (k - 1)))"
  using assms
proof (induction body off bnd skip s arbitrary: o' n rule: scan.induct)
  case (2 body off bnd c s)
  show ?case
  proof (cases "(o', n) = (off, matchLen body (c # s)) \<and> bnd \<and> 0 < matchLen body (c # s)")
    case False
    then obtain b m where "(o', n) \<in> set (scan body (Suc off) b m s)" and bm: "b \<longrightarrow> \<not> wordHash c"
      and k: "\<exists>k. o' = Suc off + k \<and> k < length s \<and> matchLen body (drop k s) = n \<and> 0 < n \<and> m \<le> k \<and>
        (k = m \<longrightarrow> b \<and> m = 0) \<and> (0 < k \<longrightarrow> \<not> wordHash (s ! (k - 1)))"
      using 2 by (cases "bnd \<and> 0 < matchLen body (c # s)") (auto split: if_splits)
    from k obtain k where "o' = Suc off + k \<and> k < length s \<and> matchLen body (drop k s) = n \<and> 0 < n \<and> m \<le> k \<and>
        (k = m \<longrightarrow> b \<and> m = 0) \<and> (0 < k \<longrightarrow> \<not> wordHash (s ! (k - 1)))" by blast
    with bm show ?thesis by (intro exI [of _ "Suc k"]) (auto simp: nth_Cons')
  qed (auto intro!: exI [of _ 0])
next
  case (3 body off bnd skip c s)
  from 3(1) [of o' n] 3(2) obtain k where "o' = Suc off + k \<and> k < length s \<and> matchLen body (drop k s) = n \<and>
      0 < n \<and> skip \<le> k \<and> (k = skip \<longrightarrow> False) \<and> (0 < k \<longrightarrow> \<not> wordHash (s ! (k - 1)))"
    by auto
  then show ?case by (intro exI [of _ "Suc k"]) (auto simp: nth_Cons')
qed simp

lemma scan_disjoint: "sorted_wrt (\<lambda>(o1, n1) (o2, n2). o1 + n1 < o2) (scan body off bnd skip s)"
proof (induction body off bnd skip s rule: scan.induct)
  case (2 body off bnd c s)
  show ?case
  proof (cases "bnd \<and> 0 < matchLen body (c # s)")
    case True
    have "off + matchLen body (c # s) < o2" if "(o2, n2) \<in> set (scan body (Suc off) False (matchLen body (c # s) - 1) s)" for o2 n2
      using scan_sound [OF that] True by auto
    with True "2.IH"(1) show ?thesis by auto
  qed (use "2.IH"(2) in auto)
qed simp_all

text \<open>Completeness: a text that is a boundary followed by a match of the body is found first.\<close>

lemma scan_skip:
  "scan body off False skip s = (if skip < length s then scan body (off + skip) False 0 (drop skip s) else [])"
proof (induction body off "False" skip s rule: scan.induct)
  case (2 body off c s)
  then show ?case by simp
next
  case (3 body off skip c s)
  then show ?case by simp
qed simp

lemma length_cardRefKeyword [simp]: "length cardRefKeyword = 6"
  by (simp add: cardRefKeyword_def)

lemma cardRefKeyword_Cons: "cardRefKeyword = CHR ''#'' # ''card:''"
  by (simp add: cardRefKeyword_def)

lemma matchLen_card:
  "matchLen cardRefBody s = (if starts_with cardRefKeyword s
     then 6 + length (takeWhile tokenChar (drop 6 s)) else 0)"
  by (simp add: matchLen_def cardRefBody_def)

lemma cardRefSpans_sound:
  assumes "sp \<in> set (cardRefSpans content)"
  shows "span_start sp < length content \<and> span_end sp \<le> length content \<and>
    substr (span_start sp) (span_end sp - span_start sp) content = cardRefKeyword @ span_token sp \<and>
    list_all tokenChar (span_token sp) \<and>
    (span_start sp = 0 \<or> \<not> wordHash (content ! (span_start sp - 1)))"
proof -
  from assms obtain off len where sp: "(off, len) \<in> set (scan cardRefBody 0 True 0 content)"
    "sp = \<lparr>span_start = off, span_end = off + len, span_token = substr (off + 6) (len - 6) content\<rparr>"
    by (auto simp: cardRefSpans_def)
  from scan_sound [OF sp(1)] have o: "off < length content" "matchLen cardRefBody (drop off content) = len" "0 < len"
    "0 < off \<longrightarrow> \<not> wordHash (content ! (off - 1))" by auto
  then have st: "starts_with cardRefKeyword (drop off content)"
    and len: "len = 6 + length (takeWhile tokenChar (drop (off + 6) content))"
    by (auto simp: matchLen_card add.commute split: if_splits)
  from st obtain r where r: "drop off content = cardRefKeyword @ r" by (auto simp: starts_with_append)
  have d6: "drop (off + 6) content = r" using drop_drop [of 6 off content] by (simp add: r add.commute)
  have "off + len \<le> length content"
    using len d6 length_takeWhile_le [of tokenChar r] arg_cong [OF r, of length] o(1)
    by (simp only: length_append length_drop length_cardRefKeyword)
  moreover have "substr (off + 6) (len - 6) content = takeWhile tokenChar r"
    using len d6 by (simp add: substr_def takeWhile_eq_take [symmetric])
  moreover have "substr off len content = cardRefKeyword @ takeWhile tokenChar r"
    using len d6 r by (simp add: substr_def takeWhile_eq_take [symmetric])
  ultimately show ?thesis using sp(2) o by (auto simp: list_all_iff dest: set_takeWhileD)
qed

section \<open>Slugs\<close>

lemma rev_dropWhile_rev_prefix: "\<exists>r. xs = rev (dropWhile P (rev xs)) @ r \<and> (rev (dropWhile P (rev xs)) \<noteq> [] \<longrightarrow>
    \<not> P (last (rev (dropWhile P (rev xs)))))"
  by (metis (no_types, lifting) dropWhile_eq_Nil_conv hd_dropWhile hd_rev last_rev rev_append rev_is_Nil_conv rev_rev_ident
      set_rev takeWhile_dropWhile_id)

lemma slugPrefix_valid:
  assumes "slugPrefix s \<noteq> []"
  shows "ValidSlug (slugPrefix s) \<and> starts_with (slugPrefix s) s"
proof -
  from assms obtain c s' where s: "s = c # s'" "lower c" by (auto simp: slugPrefix_def split: list.splits if_splits)
  define w where "w = takeWhile slugChar s'"
  define z where "z = rev (dropWhile (\<lambda>d. d = CHR ''-'') (rev w))"
  from rev_dropWhile_rev_prefix [of w "\<lambda>d. d = CHR ''-''"] obtain r where
    r: "w = z @ r" "z \<noteq> [] \<longrightarrow> last z \<noteq> CHR ''-''" unfolding z_def by auto
  have sp: "slugPrefix s = c # z" by (simp add: slugPrefix_def s z_def w_def)
  have "set w \<subseteq> {d. slugChar d}" by (auto simp: w_def dest: set_takeWhileD)
  with r have "list_all slugChar z" by (auto simp: list_all_iff)
  moreover have "c \<noteq> CHR ''-''" using s(2) by (auto simp: lower_def byte_in_def)
  moreover have "starts_with z s'"
    using r(1) takeWhile_dropWhile_id [of slugChar s'] by (simp add: starts_with_append w_def) (metis append_assoc)
  ultimately show ?thesis unfolding sp using s r(2) by (auto simp: ValidSlug_def)
qed

lemma matchLen_reference:
  assumes "matchLen referenceBody s = n" and "0 < n"
  shows "\<exists>s'. s = CHR ''#'' # s' \<and> n = Suc (length (slugPrefix s')) \<and> slugPrefix s' \<noteq> []"
  using assms by (auto simp: matchLen_def referenceBody_def split: option.splits list.splits if_splits)

section \<open>Properties\<close>

text \<open>
  topic references are found where they are. Every parsed reference is the text at its
  offset, a hash sign followed by a valid slug, after a boundary, outside every card
  reference attempt, and the references appear in text order without overlap.
\<close>

lemma ParseReferences_sound:
  "(\<forall>r \<in> set (ParseReferences content).
      substr (pr_Offset r) (pr_Length r) content = pr_Raw r \<and> pr_Raw r = CHR ''#'' # pr_Slug r \<and>
      ValidSlug (pr_Slug r) \<and> pr_Offset r < length content \<and>
      (pr_Offset r = 0 \<or> \<not> wordHash (content ! (pr_Offset r - 1))) \<and>
      \<not> withinCardRefSpan (cardRefSpans content) (pr_Offset r)) \<and>
   sorted_wrt (\<lambda>r1 r2. pr_Offset r1 + pr_Length r1 < pr_Offset r2) (ParseReferences content)"
proof (intro conjI ballI)
  fix r assume "r \<in> set (ParseReferences content)"
  then obtain off len where m: "(off, len) \<in> set (scan referenceBody 0 True 0 content)"
    and nc: "\<not> withinCardRefSpan (cardRefSpans content) off"
    and r: "r = \<lparr>pr_Raw = substr off len content, pr_Slug = substr (Suc off) (len - 1) content,
                 pr_Offset = off, pr_Length = len\<rparr>" by (auto simp: ParseReferences_def)
  from scan_sound [OF m] have o: "off < length content" "matchLen referenceBody (drop off content) = len" "0 < len"
    "0 < off \<longrightarrow> \<not> wordHash (content ! (off - 1))" by auto
  from matchLen_reference [OF o(2,3)] obtain s' where s': "drop off content = CHR ''#'' # s'"
    "len = Suc (length (slugPrefix s'))" "slugPrefix s' \<noteq> []" by blast
  from slugPrefix_valid [OF s'(3)] obtain t where t: "ValidSlug (slugPrefix s')" "s' = slugPrefix s' @ t"
    by (auto simp: starts_with_append)
  have "drop (Suc off) content = s'" using s'(1) by (metis drop_Suc list.sel(3) tl_drop)
  then have "substr (Suc off) (len - 1) content = slugPrefix s'" "substr off len content = CHR ''#'' # slugPrefix s'"
    using s' t by (simp_all add: substr_def) (metis append_eq_conv_conj)+
  with t nc o r show "substr (pr_Offset r) (pr_Length r) content = pr_Raw r" "pr_Raw r = CHR ''#'' # pr_Slug r"
    "ValidSlug (pr_Slug r)" "pr_Offset r < length content"
    "pr_Offset r = 0 \<or> \<not> wordHash (content ! (pr_Offset r - 1))"
    "\<not> withinCardRefSpan (cardRefSpans content) (pr_Offset r)" by auto
next
  have "sorted_wrt (\<lambda>(o1, n1) (o2, n2). o1 + n1 < o2)
      (filter (\<lambda>(off, len). \<not> withinCardRefSpan (cardRefSpans content) off) (scan referenceBody 0 True 0 content))"
    by (intro sorted_wrt_filter scan_disjoint)
  then show "sorted_wrt (\<lambda>r1 r2. pr_Offset r1 + pr_Length r1 < pr_Offset r2) (ParseReferences content)"
    by (simp add: ParseReferences_def sorted_wrt_map case_prod_unfold)
qed


text \<open>
  card references are classified soundly. Every parsed card reference is the text at its
  offset, the keyword followed by the characters of a token; a reference that is not
  malformed carries a version-7 identifier that its token parses to, a known type or none,
  and the reference URI of both; a malformed one carries neither identifier nor URI.
\<close>

lemma ParseCardReferences_sound:
  "\<forall>r \<in> set (ParseCardReferences ustr uparse uversion content).
     (\<exists>token. list_all tokenChar token \<and> cr_Raw r = cardRefKeyword @ token \<and>
        substr (cr_Offset r) (cr_Length r) content = cr_Raw r \<and>
        (if cr_Invalid r = None
         then uversion (cr_CardID r) = 7 \<and> cr_URI r = cardRefURI ustr (cr_CardType r) (cr_CardID r) \<and>
              (if cr_Bare r then cr_CardType r = [] \<and> uparse token = Some (cr_CardID r)
               else cr_CardType r \<in> set CardRefTypes \<and>
                    (\<exists>rawID. token = cr_CardType r @ ''/'' @ rawID \<and> uparse rawID = Some (cr_CardID r)))
         else cr_CardID r = uuid_Nil \<and> cr_URI r = []))"
proof
  fix r assume "r \<in> set (ParseCardReferences ustr uparse uversion content)"
  then obtain sp where sp: "sp \<in> set (cardRefSpans content)"
    and r: "r = (let (cardType, u, bare, reason) = classifyCardRefToken uparse uversion (span_token sp);
           ref = \<lparr>cr_Raw = substr (span_start sp) (span_end sp - span_start sp) content,
                  cr_URI = [], cr_CardType = cardType, cr_CardID = uuid_Nil, cr_Bare = bare,
                  cr_Offset = span_start sp, cr_Length = span_end sp - span_start sp, cr_Invalid = reason\<rparr>
       in if reason \<noteq> None then ref else ref\<lparr>cr_CardID := u, cr_URI := cardRefURI ustr cardType u\<rparr>)"
    unfolding ParseCardReferences_def by auto
  note snd = cardRefSpans_sound [OF sp]
  define token where "token = span_token sp"
  have split: "token = takeWhile (\<lambda>c. c \<noteq> CHR ''/'') token @ ''/'' @ tl (dropWhile (\<lambda>c. c \<noteq> CHR ''/'') token)"
    if "CHR ''/'' \<in> set token"
    using that by (induction token) auto
  obtain ty u bare reason where cl: "classifyCardRefToken uparse uversion token = (ty, u, bare, reason)"
    by (cases "classifyCardRefToken uparse uversion token")
  have cls: "uversion u = 7 \<and> (if bare then ty = [] \<and> uparse token = Some u
      else ty \<in> set CardRefTypes \<and> (\<exists>rawID. token = ty @ ''/'' @ rawID \<and> uparse rawID = Some u))"
    if "reason = None"
    using cl that split
    by (auto simp: classifyCardRefToken_def parseCardRefID_def IsUUIDv7_def Let_def split: if_splits option.splits sum.splits)
  have "r = \<lparr>cr_Raw = substr (span_start sp) (span_end sp - span_start sp) content,
      cr_URI = (if reason = None then cardRefURI ustr ty u else []), cr_CardType = ty,
      cr_CardID = (if reason = None then u else uuid_Nil), cr_Bare = bare, cr_Offset = span_start sp,
      cr_Length = span_end sp - span_start sp, cr_Invalid = reason\<rparr>"
    unfolding r token_def [symmetric] cl by simp
  with snd cls show "\<exists>token. list_all tokenChar token \<and> cr_Raw r = cardRefKeyword @ token \<and>
        substr (cr_Offset r) (cr_Length r) content = cr_Raw r \<and>
        (if cr_Invalid r = None
         then uversion (cr_CardID r) = 7 \<and> cr_URI r = cardRefURI ustr (cr_CardType r) (cr_CardID r) \<and>
              (if cr_Bare r then cr_CardType r = [] \<and> uparse token = Some (cr_CardID r)
               else cr_CardType r \<in> set CardRefTypes \<and>
                    (\<exists>rawID. token = cr_CardType r @ ''/'' @ rawID \<and> uparse rawID = Some (cr_CardID r)))
         else cr_CardID r = uuid_Nil \<and> cr_URI r = [])"
    unfolding token_def by (intro exI [of _ "span_token sp"]) auto
qed

lemma scan_no_hash:
  "CHR ''#'' \<notin> set s \<Longrightarrow> scan cardRefBody off bnd 0 (s @ t) =
     scan cardRefBody (off + length s) (if s = [] then bnd else \<not> wordHash (last s)) 0 t"
proof (induction s arbitrary: off bnd)
  case (Cons c s)
  then have "matchLen cardRefBody (c # s @ t) = 0" by (simp add: matchLen_card cardRefKeyword_Cons)
  with Cons show ?case by simp
qed simp



theorem ParseReferences_sound_witness:
  "ParseReferences ''a #b-c- #card:x'' = [\<lparr>pr_Raw = ''#b-c'', pr_Slug = ''b-c'', pr_Offset = 2, pr_Length = 4\<rparr>] \<and>
   ValidSlug ''b-c''"
proof -
  have p: "ParseReferences ''a #b-c- #card:x'' = [\<lparr>pr_Raw = ''#b-c'', pr_Slug = ''b-c'', pr_Offset = 2, pr_Length = 4\<rparr>]"
    by code_simp
  with ParseReferences_sound [of "''a #b-c- #card:x''"] show ?thesis by simp
qed

theorem ParseCardReferences_sound_witness:
  "cr_Invalid (hd (ParseCardReferences (\<lambda>u. []) (\<lambda>s. None) (\<lambda>u. 0) ''#card:'')) = Some EmptyID \<and>
   cr_URI (hd (ParseCardReferences (\<lambda>u. []) (\<lambda>s. None) (\<lambda>u. 0) ''#card:'')) = []"
proof -
  have p: "ParseCardReferences (\<lambda>u. []) (\<lambda>s. None) (\<lambda>u. 0) ''#card:'' =
    [\<lparr>cr_Raw = ''#card:'', cr_URI = [], cr_CardType = [], cr_CardID = 0, cr_Bare = True, cr_Offset = 0,
      cr_Length = 6, cr_Invalid = Some EmptyID\<rparr>]" by code_simp
  with ParseCardReferences_sound [of "\<lambda>u. []" "\<lambda>s. None" "\<lambda>u. 0" "''#card:''"] show ?thesis by auto
qed

end
