(* ===== verification/Canopy_Models.thy ===== *)
theory Canopy_Models
  imports Go_Strings Complex_Main
begin

text \<open>
  Data shared by the packages of the server: decoded JSON values, the nodes, edges and topics
  of a conversation tree (\<open>internal/db/models.go\<close>) and the errors a repository reports.
\<close>

section \<open>JSON values\<close>

text \<open>
  A value decoded by \<open>encoding/json\<close>; an object keeps its members in document order. A
  \<open>json.RawMessage\<close> is absent, text that does not decode, or a value.
\<close>

datatype json =
    JNull
  | JBool bool
  | JNum rat
  | JStr string
  | JArr "json list"
  | JObj "(string \<times> json) list"

datatype raw_message = RawNil | RawInvalid string | RawJSON json

text \<open>Decoding an object into a Go map keeps the last of duplicate members.\<close>

definition json_field :: "string \<Rightarrow> (string \<times> json) list \<Rightarrow> json option" where
  "json_field k members = map_of (rev members) k"

text \<open>
  Decoding an object into a Go struct: a member is assigned to the field whose name it
  matches up to case (the Kelvin sign folds to \<open>k\<close>, the long \<open>s\<close> to \<open>s\<close>), members in
  document order. \<open>assign\<close> returns \<open>None\<close> for a value of the wrong type, which makes the whole
  decoding fail.
\<close>

definition fold_key_rune :: "string \<Rightarrow> string" where
  "fold_key_rune r =
     (if r = [CHR 0xE2, CHR 0x84, CHR 0xAA] then ''k'' else if r = [CHR 0xC5, CHR 0xBF] then ''s''
      else map (\<lambda>c. if byte_in 65 90 c then char_of (of_char c + 32 :: nat) else c) r)"

definition fold_key :: "string \<Rightarrow> string" where
  "fold_key k = concat (map fold_key_rune (rune_chunks k))"

fun decode_members :: "(string \<Rightarrow> json \<Rightarrow> 'a \<Rightarrow> 'a option) \<Rightarrow> (string \<times> json) list \<Rightarrow> 'a \<Rightarrow> 'a option" where
  "decode_members assign [] x = Some x"
| "decode_members assign ((k, v) # members) x =
     (case assign (fold_key k) v x of None \<Rightarrow> None | Some x' \<Rightarrow> decode_members assign members x')"

definition decode_struct :: "(string \<Rightarrow> json \<Rightarrow> 'a \<Rightarrow> 'a option) \<Rightarrow> raw_message \<Rightarrow> 'a \<Rightarrow> 'a option" where
  "decode_struct assign raw zero =
     (case raw of RawJSON (JObj members) \<Rightarrow> decode_members assign members zero
      | RawJSON JNull \<Rightarrow> Some zero | _ \<Rightarrow> None)"

text \<open>An integer field accepts integers of its range; \<open>null\<close> leaves a field alone.\<close>

definition json_int64 :: "json \<Rightarrow> int option" where
  "json_int64 v =
     (case v of JNum r \<Rightarrow> if r = rat_of_int \<lfloor>r\<rfloor> \<and> int64_min \<le> \<lfloor>r\<rfloor> \<and> \<lfloor>r\<rfloor> \<le> int64_max then Some \<lfloor>r\<rfloor> else None
      | _ \<Rightarrow> None)"

section \<open>Repository results\<close>

datatype reader_error = NotFound string | Failure string

fun reader_error_text :: "reader_error \<Rightarrow> string" where
  "reader_error_text (NotFound t) = t"
| "reader_error_text (Failure t) = t"

section \<open>Trees\<close>

record node =
  n_ID :: uuid
  n_TreeID :: uuid
  n_ParentID :: "uuid option"
  n_ParentMode :: string
  n_AuthorID :: uuid
  n_Content :: string
  n_ContentFormat :: string
  n_NodeType :: string
  n_SequenceNum :: int
  n_Metadata :: raw_message
  n_CreatedAt :: instant
  n_EditedAt :: "instant option"
  n_DeletedAt :: "instant option"

record topic =
  t_ID :: uuid
  t_TreeID :: uuid
  t_RootNodeID :: uuid
  t_Title :: string
  t_Description :: string
  t_Slug :: string
  t_ParentTopicID :: "uuid option"
  t_Status :: string
  t_TopicTags :: "string list"
  t_NodeCount :: int
  t_CreatedAt :: instant
  t_ArchivedAt :: "instant option"
  t_DeletedAt :: "instant option"

end
