(* ===== verification/Context_Compiler.thy ===== *)
theory Context_Compiler
  imports Multi_Reference Reference_Parser Canopy_Models
begin

text \<open>
  The context compiler (\<open>internal/context/compiler.go\<close>, \<open>types.go\<close>, \<open>summarizer.go\<close>,
  \<open>retrieval.go\<close>, \<open>card_reference.go\<close>, \<open>manifest_hash.go\<close>). A compiler is a record of the
  readers it was built with; a reader is a function returning an error or a value. Functions
  of third-party packages and the JSON text encoding are fields of the same record:
  \<open>uuid.UUID.String\<close>, \<open>uuid.Parse\<close>, \<open>UUID.Version\<close>, the SHA-256 hex digest, and
  \<open>json.Marshal\<close> of a manifest and of a card envelope.
\<close>

section \<open>Requests and manifests\<close>

record compile_request =
  req_TreeID :: uuid
  req_NodeID :: uuid
  req_TokenBudget :: int
  req_MaxAncestors :: int
  req_IncludeCards :: bool
  req_ResolveRefs :: bool
  req_MultiReference :: "multi_reference_selection option"

record manifest_item =
  mi_ID :: uuid
  mi_Kind :: string
  mi_Title :: string
  mi_TokenCount :: int
  mi_Truncated :: bool
  mi_Pinned :: bool
  mi_Relevance :: rat

record manifest =
  m_RequestID :: string
  m_NodeID :: uuid
  m_CompiledAt :: instant
  m_TokenBudget :: int
  m_TokensUsed :: int
  m_Ancestry :: "manifest_item list"
  m_References :: "manifest_item list"
  m_Cards :: "manifest_item list"
  m_OmittedCount :: int
  m_OmittedReason :: string
  m_TruncationMarkers :: "string list"
  m_Warnings :: "string list"
  m_ManifestHash :: string
  m_PinnedCount :: int
  m_MultiReference :: "multi_reference_manifest_entry option"
  m_Retrieved :: "manifest_item list"
  m_RetrievalBudget :: int
  m_SummaryText :: string
  m_SummaryTokenCount :: int
  m_SummarizedCount :: int

record retrieval_item =
  ri_ID :: uuid
  ri_Slug :: string
  ri_Title :: string
  ri_Content :: string
  ri_Relevance :: rat

text \<open>The columns of a card that the compiler reads.\<close>

record card =
  c_ID :: uuid
  c_AppID :: string
  c_CardType :: string
  c_Data :: string

record card_summary =
  cs_ID :: uuid
  cs_AppID :: string
  cs_Type :: string
  cs_Status :: string
  cs_Revision :: int
  cs_ContextHash :: string
  cs_Data :: json
  cs_LastEventSeq :: int

record card_event =
  ev_Sequence :: int
  ev_EventID :: uuid
  ev_EventType :: string
  ev_ActorKind :: string
  ev_ActorID :: string
  ev_Payload :: raw_message
  ev_CreatedAt :: instant

record card_reference_envelope =
  env_ID :: uuid
  env_URI :: string
  env_CardType :: string
  env_DeclaredType :: string
  env_AppID :: string
  env_Status :: string
  env_Revision :: int
  env_ContextHash :: string
  env_Data :: raw_message
  env_Events :: "card_event list"

record card_ref_reader =
  GetCard :: "uuid \<Rightarrow> reader_error + card_summary option"
  ListCardEvents :: "uuid \<Rightarrow> int \<Rightarrow> int \<Rightarrow> reader_error + card_event list"

record compiler =
  cc_GetByID :: "uuid \<Rightarrow> reader_error + node"
  cc_GetAncestors :: "uuid \<Rightarrow> reader_error + node list"
  cc_GetTopicsForNode :: "uuid \<Rightarrow> reader_error + topic list"
  cc_GetResolvedTopicsForNode :: "uuid \<Rightarrow> reader_error + topic list"
  cc_GetByContextHash :: "string \<Rightarrow> reader_error + card list"
  cc_est :: "string \<Rightarrow> int"
  cc_maxRefs :: int
  cc_retrieval :: "(uuid \<Rightarrow> string \<Rightarrow> int \<Rightarrow> reader_error + retrieval_item list) option"
  cc_retrievalMax :: int
  cc_cardRefs :: "card_ref_reader option"
  cc_ustr :: "uuid \<Rightarrow> string"
  cc_uparse :: "string \<Rightarrow> uuid option"
  cc_uversion :: "uuid \<Rightarrow> nat"
  cc_sha256hex :: "string \<Rightarrow> string"
  cc_marshalManifest :: "manifest \<Rightarrow> string"
  cc_marshalEnvelope :: "card_reference_envelope \<Rightarrow> string"

datatype compile_error =
    ErrInvalidBudget
  | ErrMultiReference multi_reference_error
  | ErrNodeNotFound string
  | ErrDatabaseUnavailable string

abbreviation nl :: char where "nl \<equiv> CHR 0x0A"

definition new_item :: "uuid \<Rightarrow> string \<Rightarrow> string \<Rightarrow> int \<Rightarrow> manifest_item" where
  "new_item i kind title tokens = \<lparr>mi_ID = i, mi_Kind = kind, mi_Title = title, mi_TokenCount = tokens,
     mi_Truncated = False, mi_Pinned = False, mi_Relevance = 0\<rparr>"

section \<open>Helpers\<close>

definition isPinned :: "raw_message \<Rightarrow> bool" where
  "isPinned metadata =
     (case metadata of RawJSON (JObj members) \<Rightarrow> json_field ''pinned'' members = Some (JBool True) | _ \<Rightarrow> False)"

definition contentPreview :: "string \<Rightarrow> nat \<Rightarrow> string" where
  "contentPreview s n = takeWhile (\<lambda>c. c \<noteq> nl \<and> c \<noteq> CHR 0x0D) (concat (take n (go_runes s)))"

definition WithRetrieval ::
    "(uuid \<Rightarrow> string \<Rightarrow> int \<Rightarrow> reader_error + retrieval_item list) option \<Rightarrow> int \<Rightarrow> compiler \<Rightarrow> compiler" where
  "WithRetrieval reader mx c =
     (if Option.is_none reader \<or> mx \<le> 0 then c else c\<lparr>cc_retrieval := reader, cc_retrievalMax := mx\<rparr>)"

definition WithCardReferences :: "card_ref_reader option \<Rightarrow> compiler \<Rightarrow> compiler" where
  "WithCardReferences reader c = (if Option.is_none reader then c else c\<lparr>cc_cardRefs := reader\<rparr>)"

definition joinSections :: "string list \<Rightarrow> string" where
  "joinSections sections = strings_Join sections [nl, nl]"

definition RetrievalSharePercent :: int where [simp]: "RetrievalSharePercent = 12"

section \<open>Summary of dropped nodes\<close>

record omitted_node =
  on_ID :: uuid
  on_Author :: uuid
  on_Content :: string

definition sentence_end :: "string \<Rightarrow> bool" where
  "sentence_end r \<longleftrightarrow> r = ''.'' \<or> r = ''!'' \<or> r = ''?''"

definition firstSentence :: "string \<Rightarrow> string" where
  "firstSentence content =
     (let line = (case find (\<lambda>l. trim_space l \<noteq> []) (split_lines content) of None \<Rightarrow> [] | Some l \<Rightarrow> trim_space l)
      in if line = [] then ''(empty)''
         else
           (let runes = take 200 (go_runes (strings_Join (strings_Fields line) '' ''));
                before = takeWhile (\<lambda>r. \<not> sentence_end r) runes
            in if length before < length runes then trim_space (concat (take (Suc (length before)) runes))
               else if length runes > 160 then trim_space (concat (take 160 runes))
               else concat runes))"

definition summarizeOmittedNodes :: "compiler \<Rightarrow> omitted_node list \<Rightarrow> string \<times> int" where
  "summarizeOmittedNodes c nodes =
     (if nodes = [] then ([], 0)
      else
        (let body = ''--- summarized older messages ('' @ itoa (int (length nodes)) @ '') ---''
               @ concat (map (\<lambda>n. [nl] @ ''[node '' @ cc_ustr c (on_ID n) @ '' by '' @ cc_ustr c (on_Author n) @ ''] ''
                                  @ firstSentence (on_Content n)) nodes)
         in (body, cc_est c body)))"

section \<open>Ancestry and the budget walk\<close>

record ancestry_entry =
  ae_text :: string
  ae_item :: manifest_item
  ae_pinned :: bool
  ae_node :: node

definition renderAncestor :: "compiler \<Rightarrow> node \<Rightarrow> ancestry_entry" where
  "renderAncestor c n =
     (let body = ''--- node '' @ cc_ustr c (n_ID n) @ '' ('' @ cc_ustr c (n_AuthorID n) @ '') ---'' @ [nl] @ n_Content n
      in \<lparr>ae_text = body,
          ae_item = new_item (n_ID n) ''node'' (contentPreview (n_Content n) 120) (cc_est c body),
          ae_pinned = isPinned (n_Metadata n), ae_node = n\<rparr>)"

text \<open>
  Step 2: the chain comes newest first from the reader, is reversed and cut to the newest
  \<open>maxAncestors\<close>; step 3 renders it newest first again.
\<close>

definition limitDepth :: "int \<Rightarrow> node list \<Rightarrow> node list \<times> int" where
  "limitDepth maxAncestors chain =
     (let ancestors = rev chain in
      if int (length ancestors) > maxAncestors
      then (let omittedByDepth = length ancestors - nat maxAncestors
            in (drop omittedByDepth ancestors, int omittedByDepth))
      else (ancestors, 0))"

record budget_walk =
  bw_remaining :: int
  bw_content :: "string list"
  bw_items :: "manifest_item list"
  bw_omitted :: int
  bw_pinnedKept :: int
  bw_tail :: bool
  bw_dropped :: "omitted_node list"

definition omittedOf :: "ancestry_entry \<Rightarrow> omitted_node" where
  "omittedOf e = \<lparr>on_ID = n_ID (ae_node e), on_Author = n_AuthorID (ae_node e), on_Content = n_Content (ae_node e)\<rparr>"

definition dropEntry :: "ancestry_entry \<Rightarrow> budget_walk \<Rightarrow> budget_walk" where
  "dropEntry e w = w\<lparr>bw_omitted := bw_omitted w + 1, bw_dropped := bw_dropped w @ [omittedOf e]\<rparr>"

definition keepEntry :: "int \<Rightarrow> ancestry_entry \<Rightarrow> budget_walk \<Rightarrow> budget_walk" where
  "keepEntry tokens e w =
     w\<lparr>bw_remaining := bw_remaining w - tokens,
       bw_content := bw_content w @ [ae_text e],
       bw_items := bw_items w @ [if ae_pinned e then (ae_item e)\<lparr>mi_Pinned := True\<rparr> else ae_item e],
       bw_pinnedKept := bw_pinnedKept w + (if ae_pinned e then 1 else 0)\<rparr>"

definition walkStep :: "compiler \<Rightarrow> ancestry_entry \<Rightarrow> budget_walk \<Rightarrow> budget_walk" where
  "walkStep c e w =
     (let tokens = cc_est c (ae_text e); pinned = ae_pinned e in
      if bw_tail w \<and> \<not> pinned then dropEntry e w
      else if bw_remaining w \<ge> tokens \<or> pinned then keepEntry tokens e w
      else dropEntry e (w\<lparr>bw_tail := True\<rparr>))"

definition budgetWalk :: "compiler \<Rightarrow> int \<Rightarrow> ancestry_entry list \<Rightarrow> budget_walk" where
  "budgetWalk c budget entries =
     fold (walkStep c) entries
       \<lparr>bw_remaining = budget, bw_content = [], bw_items = [], bw_omitted = 0, bw_pinnedKept = 0,
        bw_tail = False, bw_dropped = []\<rparr>"

text \<open>A walk that kept nothing keeps the newest node anyway.\<close>

definition keepNewest :: "ancestry_entry list \<Rightarrow> budget_walk \<Rightarrow> budget_walk \<times> string list" where
  "keepNewest entries w =
     (case entries of
        e # _ \<Rightarrow>
          if bw_content w = []
          then (w\<lparr>bw_omitted := (if bw_omitted w > 0 then bw_omitted w - 1 else bw_omitted w),
                  bw_dropped := (if bw_dropped w \<noteq> [] then tl (bw_dropped w) else bw_dropped w),
                  bw_content := bw_content w @ [ae_text e], bw_items := bw_items w @ [ae_item e]\<rparr>,
                [''budget too small for single node''])
          else (w, [])
      | [] \<Rightarrow> (w, []))"

text \<open>Step 4 ends with the accounting of what was omitted, step 4b with the digest.\<close>

definition accountWalk :: "budget_walk \<Rightarrow> string list \<Rightarrow> manifest \<Rightarrow> manifest" where
  "accountWalk w warn m =
     (let m1 = m\<lparr>m_Warnings := m_Warnings m @ warn
                  @ (if bw_remaining w < 0
                     then [''pinned nodes exceed the token budget by '' @ itoa (- bw_remaining w) @ '' tokens''] else [])\<rparr>
      in if bw_omitted w > 0
         then m1\<lparr>m_OmittedCount := m_OmittedCount m1 + bw_omitted w,
                 m_OmittedReason := (if m_OmittedReason m1 = [] then ''budget'' else m_OmittedReason m1),
                 m_TruncationMarkers := m_TruncationMarkers m1 @ [itoa (bw_omitted w) @ '' messages omitted'']\<rparr>
         else m1)"

definition addSummary :: "compiler \<Rightarrow> budget_walk \<Rightarrow> manifest \<Rightarrow> manifest \<times> int" where
  "addSummary c w m =
     (if bw_dropped w = [] then (m, bw_remaining w)
      else
        (let ordered = rev (bw_dropped w);
             (summaryText, summaryTokens) = summarizeOmittedNodes c ordered
         in if bw_remaining w > 0 \<and> summaryTokens \<le> bw_remaining w
            then (m\<lparr>m_SummaryText := summaryText, m_SummaryTokenCount := summaryTokens,
                    m_SummarizedCount := int (length ordered)\<rparr>, bw_remaining w - summaryTokens)
            else (m\<lparr>m_Warnings := m_Warnings m @ [''summary omitted: no budget for digest'']\<rparr>, bw_remaining w)))"


section \<open>References\<close>

text \<open>Sections, items and warnings of one step.\<close>

type_synonym step_result = "string list \<times> manifest_item list \<times> string list"

definition mergeTopics :: "topic list \<Rightarrow> topic list \<Rightarrow> topic list" where
  "mergeTopics dst src = dst @ dedup_by t_ID [] src"

text \<open>
  The greedy loops of steps 5 and 6: an element is rendered and estimated, kept while the
  budget lasts, and the first that does not fit ends the loop.
\<close>

fun fillBudget :: "compiler \<Rightarrow> ('a \<Rightarrow> string) \<Rightarrow> ('a \<Rightarrow> int \<Rightarrow> manifest_item) \<Rightarrow> int \<Rightarrow> 'a list \<Rightarrow> string list \<times> manifest_item list" where
  "fillBudget c render item remaining [] = ([], [])"
| "fillBudget c render item remaining (x # xs) =
     (let body = render x; tokens = cc_est c body in
      if remaining \<ge> tokens
      then (let (sections, items) = fillBudget c render item (remaining - tokens) xs
            in (body # sections, item x tokens # items))
      else ([], []))"

definition renderTopic :: "topic \<Rightarrow> string" where
  "renderTopic t = ''--- topic boundary: '' @ t_Slug t @ '' ---'' @ [nl] @ t_Title t @ [nl]
     @ concat (take 200 (rune_chunks (t_Description t)))"

definition capReferences :: "int \<Rightarrow> topic list \<Rightarrow> topic list \<times> string list" where
  "capReferences maxRefs topics =
     (let softCap = (if maxRefs \<le> 0 then 5 else maxRefs);
          hardCap = (if maxRefs \<le> 0 then 10 else maxRefs * 2);
          n = int (length topics);
          w = (if n > softCap then [itoa n @ '' references: context becoming unfocused''] else [])
      in if n > hardCap
         then (take (nat hardCap) topics,
               w @ [''reference limit reached; '' @ itoa (n - hardCap) @ '' references omitted''])
         else (topics, w))"

definition compileReferences :: "compiler \<Rightarrow> compile_request \<Rightarrow> int \<Rightarrow> step_result" where
  "compileReferences c req budget =
     (if \<not> req_ResolveRefs req then ([], [], [])
      else case cc_GetTopicsForNode c (req_NodeID req) of
        Inl e \<Rightarrow> ([], [], [''reference resolution failed: '' @ reader_error_text e])
      | Inr scoped \<Rightarrow>
        let (topics, w1) =
              (case cc_GetResolvedTopicsForNode c (req_NodeID req) of
                 Inl e \<Rightarrow> (scoped, [''resolved-reference lookup failed: '' @ reader_error_text e])
               | Inr resolved \<Rightarrow> (mergeTopics scoped resolved, []));
            (capped, w2) = capReferences (cc_maxRefs c) (dedup_by t_ID [] topics);
            (sections, items) =
              fillBudget c renderTopic (\<lambda>t tokens. new_item (t_ID t) ''topic'' (t_Slug t) tokens) budget capped
        in (sections, items, w1 @ w2))"

section \<open>Retrieved tier\<close>

definition retrievalLess :: "(uuid \<Rightarrow> string) \<Rightarrow> retrieval_item \<Rightarrow> retrieval_item \<Rightarrow> bool" where
  "retrievalLess ustr x y =
     (if ri_Relevance x \<noteq> ri_Relevance y then ri_Relevance x > ri_Relevance y
      else if ri_Slug x \<noteq> ri_Slug y then ri_Slug x < ri_Slug y
      else ustr (ri_ID x) < ustr (ri_ID y))"

definition renderRetrieved :: "retrieval_item \<Rightarrow> string" where
  "renderRetrieved item = ''--- retrieved topic '' @ ri_Slug item @ '' ---'' @ [nl] @ ri_Title item @ [nl]
     @ contentPreview (ri_Content item) 200"

text \<open>This loop skips an element that does not fit and goes on; it counts the skipped ones.\<close>

fun fillRetrieved :: "compiler \<Rightarrow> int \<Rightarrow> retrieval_item list \<Rightarrow> string list \<times> manifest_item list \<times> int" where
  "fillRetrieved c local [] = ([], [], 0)"
| "fillRetrieved c local (x # xs) =
     (let body = renderRetrieved x; tokens = cc_est c body in
      if tokens > local
      then (let (sections, items, omitted) = fillRetrieved c local xs in (sections, items, omitted + 1))
      else (let (sections, items, omitted) = fillRetrieved c (local - tokens) xs
            in (body # sections,
                (new_item (ri_ID x) ''retrieved_topic'' (ri_Slug x) tokens)\<lparr>mi_Relevance := ri_Relevance x\<rparr> # items,
                omitted)))"

definition retrievalQuery :: "node \<Rightarrow> string" where
  "retrievalQuery currentNode =
     (let query = strings_Join (strings_Fields (n_Content currentNode)) '' ''; runes = go_runes query
      in if length runes > 300 then concat (take 300 runes) else query)"

text \<open>The result and the tier allocation, \<open>None\<close> when no search was issued.\<close>

definition compileRetrieved ::
    "compiler \<Rightarrow> compile_request \<Rightarrow> node \<Rightarrow> manifest \<Rightarrow> int \<Rightarrow> step_result \<times> int option" where
  "compileRetrieved c req currentNode m remainingBudget =
     (case cc_retrieval c of None \<Rightarrow> (([], [], []), None)
      | Some retrieve \<Rightarrow>
        let query = retrievalQuery currentNode;
            tierBudget = go_div (req_TokenBudget req * RetrievalSharePercent) 100;
            effective = (if remainingBudget < tierBudget then remainingBudget else tierBudget)
        in if cc_retrievalMax c \<le> 0 \<or> n_TreeID currentNode = uuid_Nil \<or> query = [] \<or> effective \<le> 0
           then (([], [], []), None)
           else case retrieve (n_TreeID currentNode) query (cc_retrievalMax c) of
             Inl e \<Rightarrow> (([], [], [''retrieval failed: '' @ reader_error_text e]), Some tierBudget)
           | Inr retrieved \<Rightarrow>
             let candidates = sort_stable (retrievalLess (cc_ustr c))
                   (dedup_by ri_ID (map mi_ID (m_References m)) retrieved);
                 (sections, items, omitted) = fillRetrieved c effective candidates
             in ((sections, items,
                  if omitted > 0 then [itoa omitted @ '' retrieved items omitted (budget)''] else []),
                 Some tierBudget))"

section \<open>Card references\<close>

definition CardRefMaxEvents :: int where [simp]: "CardRefMaxEvents = 20"
definition CardRefStatusMissing :: string where "CardRefStatusMissing = ''missing''"
definition CardRefPrivateKeyPrefix :: string where "CardRefPrivateKeyPrefix = ''_''"
definition cardRefBlockOpen :: string where
  "cardRefBlockOpen = ''<canopy_card version='' @ [CHR 0x22] @ ''1'' @ [CHR 0x22]"
definition cardRefBlockClose :: string where "cardRefBlockClose = ''</canopy_card''"
definition cardRefBlockTerminatorEscaped :: string where
  "cardRefBlockTerminatorEscaped = [CHR ''<'', CHR 0x5C] @ ''/canopy_card''"

definition selectCardRefData :: "json \<Rightarrow> raw_message" where
  "selectCardRefData data =
     (case data of JNull \<Rightarrow> RawNil
      | JObj members \<Rightarrow> RawJSON (JObj (filter (\<lambda>(k, v). \<not> starts_with CardRefPrivateKeyPrefix k) members))
      | v \<Rightarrow> RawJSON v)"

definition selectCardRefPayload :: "raw_message \<Rightarrow> raw_message" where
  "selectCardRefPayload payload =
     (case payload of RawNil \<Rightarrow> RawNil | RawInvalid t \<Rightarrow> RawInvalid t | RawJSON v \<Rightarrow> selectCardRefData v)"

definition loadCardRefEvents ::
    "(uuid \<Rightarrow> string) \<Rightarrow> card_ref_reader \<Rightarrow> card_summary \<Rightarrow> card_event list \<times> string list" where
  "loadCardRefEvents ustr reader summary =
     (let after0 = cs_LastEventSeq summary - CardRefMaxEvents;
          after = (if after0 < 0 then 0 else after0)
      in case ListCardEvents reader (cs_ID summary) after CardRefMaxEvents of
           Inl e \<Rightarrow> ([], [''card reference '' @ ustr (cs_ID summary) @ '': event lookup failed: '' @ reader_error_text e])
         | Inr events \<Rightarrow>
           let recent = (if int (length events) > CardRefMaxEvents
                         then drop (length events - nat CardRefMaxEvents) events else events)
           in (map (\<lambda>ev. ev\<lparr>ev_Payload := selectCardRefPayload (ev_Payload ev)\<rparr>) recent, []))"

definition ResolveCardReference ::
    "(uuid \<Rightarrow> string) \<Rightarrow> card_ref_reader \<Rightarrow> card_reference \<Rightarrow> card_reference_envelope \<times> string list" where
  "ResolveCardReference ustr reader ref =
     (let env0 = \<lparr>env_ID = cr_CardID ref, env_URI = cr_URI ref, env_CardType = cr_CardType ref,
                  env_DeclaredType = cr_CardType ref, env_AppID = [], env_Status = CardRefStatusMissing,
                  env_Revision = 0, env_ContextHash = [], env_Data = RawNil, env_Events = []\<rparr>;
          resolved = '' (resolved with status '' @ strconv_Quote CardRefStatusMissing @ '')'';
          here = ''card reference '' @ cr_Raw ref
      in case GetCard reader (cr_CardID ref) of
           Inl (NotFound _) \<Rightarrow> (env0, [here @ '': card '' @ ustr (cr_CardID ref) @ '' not found'' @ resolved])
         | Inl (Failure t) \<Rightarrow> (env0, [here @ '': card lookup failed: '' @ t @ resolved])
         | Inr None \<Rightarrow> (env0, [here @ '': card '' @ ustr (cr_CardID ref) @ '' returned no summary'' @ resolved])
         | Inr (Some summary) \<Rightarrow>
           let (events, warnings) = loadCardRefEvents ustr reader summary;
               env = env0\<lparr>env_CardType := cs_Type summary, env_AppID := cs_AppID summary,
                          env_Status := cs_Status summary, env_Revision := cs_Revision summary,
                          env_ContextHash := cs_ContextHash summary,
                          env_Data := selectCardRefData (cs_Data summary), env_Events := events\<rparr>
           in (env, warnings @
                (if cr_CardType ref \<noteq> [] \<and> env_CardType env \<noteq> [] \<and> cr_CardType ref \<noteq> env_CardType env
                 then [here @ '' declares card type '' @ strconv_Quote (cr_CardType ref) @ '' but card ''
                       @ ustr (cr_CardID ref) @ '' is '' @ strconv_Quote (env_CardType env)
                       @ ''; resolved with the card'' @ [CHR 0x27] @ ''s own type''] else [])))"

definition escapeCardRefTerminator :: "string \<Rightarrow> string \<times> bool" where
  "escapeCardRefTerminator s =
     (if \<not> contains cardRefBlockClose s then (s, False)
      else (replace_all cardRefBlockClose cardRefBlockTerminatorEscaped s, True))"

definition renderCardReferenceBlock :: "compiler \<Rightarrow> card_reference_envelope \<Rightarrow> string \<times> bool" where
  "renderCardReferenceBlock c env =
     (let body = cc_marshalEnvelope c env;
          attrs = [''  id='' @ strconv_Quote (cc_ustr c (env_ID env)),
                   ''  uri='' @ strconv_Quote (env_URI env),
                   ''  card_type='' @ strconv_Quote (env_CardType env),
                   ''  app_id='' @ strconv_Quote (env_AppID env),
                   ''  status='' @ strconv_Quote (env_Status env)]
                  @ (if env_ContextHash env \<noteq> [] then [''  context_hash='' @ strconv_Quote (env_ContextHash env)] else []);
          header = cardRefBlockOpen @ [nl] @ headerLines attrs;
          (escaped, didEscape) = escapeCardRefTerminator (header @ body)
      in (escaped @ [nl] @ cardRefBlockClose @ ''>'', didEscape))"

fun fillCardRefs ::
    "compiler \<Rightarrow> card_ref_reader \<Rightarrow> uuid list \<Rightarrow> int \<Rightarrow> card_reference list \<Rightarrow> step_result" where
  "fillCardRefs c reader seen remaining [] = ([], [], [])"
| "fillCardRefs c reader seen remaining (ref # refs) =
     (case cr_Invalid ref of
        Some reason \<Rightarrow>
          (let (sections, items, warnings) = fillCardRefs c reader seen remaining refs
           in (sections, items, (''card reference '' @ cr_Raw ref @ '' is malformed ('' @ CardRefReason reason
                @ ''); not resolved'') # warnings))
      | None \<Rightarrow>
        if cr_CardID ref \<in> set seen then fillCardRefs c reader seen remaining refs
        else
          (let (env, w1) = ResolveCardReference (cc_ustr c) reader ref;
               (block, escaped) = renderCardReferenceBlock c env;
               w2 = (if escaped then [''card reference '' @ cr_Raw ref @ '' contained the block terminator; escaped''] else []);
               tokens = cc_est c block;
               item = new_item (env_ID env) ''card'' (env_CardType env)
           in if remaining < tokens
              then (let (sections, items, warnings) = fillCardRefs c reader (cr_CardID ref # seen) remaining refs
                    in (sections, (item 0)\<lparr>mi_Truncated := True\<rparr> # items,
                        w1 @ w2 @ [''card reference '' @ cr_Raw ref @ '' omitted: '' @ itoa tokens
                          @ '' tokens exceed the remaining budget of '' @ itoa remaining] @ warnings))
              else (let (sections, items, warnings) =
                          fillCardRefs c reader (cr_CardID ref # seen) (remaining - tokens) refs
                    in (block # sections, item tokens # items, w1 @ w2 @ warnings))))"

definition compileCardReferences :: "compiler \<Rightarrow> compile_request \<Rightarrow> string \<Rightarrow> int \<Rightarrow> step_result" where
  "compileCardReferences c req nodeContent budget =
     (case cc_cardRefs c of None \<Rightarrow> ([], [], [])
      | Some reader \<Rightarrow>
        if \<not> req_ResolveRefs req \<or> nodeContent = [] then ([], [], [])
        else fillCardRefs c reader [] budget
               (ParseCardReferences (cc_ustr c) (cc_uparse c) (cc_uversion c) nodeContent))"

section \<open>Cards\<close>

definition ContextHash :: "compiler \<Rightarrow> string \<Rightarrow> string" where
  "ContextHash c content = cc_sha256hex c content"

definition renderCard :: "card \<Rightarrow> string" where
  "renderCard cd = ''--- card '' @ c_CardType cd @ '' ---'' @ [nl] @ c_AppID cd @ [nl] @ take 200 (c_Data cd)"

definition compileCards :: "compiler \<Rightarrow> compile_request \<Rightarrow> string \<Rightarrow> int \<Rightarrow> step_result" where
  "compileCards c req nodeContent budget =
     (if \<not> req_IncludeCards req then ([], [], [])
      else case cc_GetByContextHash c (ContextHash c nodeContent) of
        Inl e \<Rightarrow> ([], [], [''card lookup failed: '' @ reader_error_text e])
      | Inr cards \<Rightarrow>
        let (sections, items) =
              fillBudget c renderCard (\<lambda>cd tokens. new_item (c_ID cd) ''card'' (c_CardType cd) tokens) budget cards
        in (sections, items, []))"

section \<open>The manifest digest\<close>

definition manifestCanonicalJSON :: "compiler \<Rightarrow> manifest \<Rightarrow> string" where
  "manifestCanonicalJSON c m =
     cc_marshalManifest c (m\<lparr>m_RequestID := [], m_CompiledAt := 0, m_ManifestHash := []\<rparr>)"

definition ManifestDigest :: "compiler \<Rightarrow> manifest \<Rightarrow> string" where
  "ManifestDigest c m = cc_sha256hex c (manifestCanonicalJSON c m)"

text \<open>\<open>unmarshal\<close> is \<open>json.Unmarshal\<close> into a manifest.\<close>

definition ManifestDigestFromJSON :: "compiler \<Rightarrow> (string \<Rightarrow> manifest option) \<Rightarrow> string \<Rightarrow> string + string" where
  "ManifestDigestFromJSON c unmarshal raw =
     (if raw = [] then Inl ''context: empty manifest JSON''
      else case unmarshal raw of None \<Rightarrow> Inl ''context: decode manifest'' | Some m \<Rightarrow> Inr (ManifestDigest c m))"

section \<open>Compile\<close>

definition multiRefItems :: "multi_reference_compilation \<Rightarrow> manifest_item list" where
  "multiRefItems mr =
     map (\<lambda>src. (new_item (mr_NodeID src) ''reference'' (mr_SourceLabel src) (mr_TokenCount src))
                  \<lparr>mi_Truncated := mr_Truncated src\<rparr>) (mrc_Sources (comp_Context mr))"

definition accountMultiRef :: "compiler \<Rightarrow> multi_reference_compilation option \<Rightarrow> manifest \<Rightarrow> manifest" where
  "accountMultiRef c multiRef m =
     (case multiRef of None \<Rightarrow> m
      | Some mr \<Rightarrow>
        let ctx = comp_Context mr in
        m\<lparr>m_References := m_References m @ multiRefItems mr,
          m_MultiReference := Some (multiRefManifestEntry (cc_ustr c) ctx),
          m_Warnings := m_Warnings m
            @ (if comp_AllFit mr
               then [''multi-reference: '' @ itoa (int (length (mrc_Sources ctx))) @ '' sources used ''
                     @ itoa (mrc_TokensUsed ctx) @ '' of '' @ itoa (mrc_TokenBudget ctx) @ '' allocated tokens (''
                     @ itoa (mrc_TokenBudget ctx - mrc_TokensUsed ctx) @ '' unused, no padding)''] else [])
            @ map (\<lambda>label. ''multi-reference: source '' @ label @ '' contained the block terminator; escaped'')
                (comp_Escaped mr)\<rparr>)"

definition appendSections :: "string \<Rightarrow> string list \<Rightarrow> string" where
  "appendSections content sections = (if sections \<noteq> [] then content @ [nl, nl] @ joinSections sections else content)"

definition assemble ::
    "string list \<Rightarrow> string list \<Rightarrow> string list \<Rightarrow> string list \<Rightarrow> string list \<Rightarrow> string
     \<Rightarrow> multi_reference_compilation option \<Rightarrow> string" where
  "assemble ancestry refs retrieved cardRefs cards summaryText multiRef =
     (let c1 = joinSections ancestry;
          c5 = appendSections (appendSections (appendSections (appendSections c1 refs) retrieved) cardRefs) cards;
          c6 = (if summaryText \<noteq> [] then c5 @ [nl, nl] @ summaryText else c5)
      in case multiRef of None \<Rightarrow> c6
         | Some mr \<Rightarrow> if c6 = [] then comp_Block mr else comp_Block mr @ [nl, nl] @ c6)"

definition sumTokens :: "manifest_item list \<Rightarrow> int" where
  "sumTokens items = sum_list (map mi_TokenCount items)"

text \<open>Steps 1 to 4b: the manifest after the ancestry, the kept texts and the remaining budget.\<close>

definition compileAncestry :: "compiler \<Rightarrow> compile_request \<Rightarrow> node list \<Rightarrow> manifest \<Rightarrow> manifest \<times> string list \<times> int" where
  "compileAncestry c req chain m0 =
     (let maxAncestors = (if req_MaxAncestors req \<le> 0 then 50 else req_MaxAncestors req);
          (ancestors, omittedByDepth) = limitDepth maxAncestors chain;
          m1 = (if omittedByDepth > 0 then m0\<lparr>m_OmittedCount := omittedByDepth, m_OmittedReason := ''depth''\<rparr> else m0);
          entries = map (renderAncestor c) (rev ancestors);
          (w, warn) = keepNewest entries (budgetWalk c (req_TokenBudget req) entries);
          (m2, remaining) = addSummary c w (accountWalk w warn m1)
      in (m2\<lparr>m_Ancestry := bw_items w, m_PinnedCount := bw_pinnedKept w\<rparr>, bw_content w, remaining))"

text \<open>Steps 5 to 8: references, selected sources, retrieved tier, cards, assembly and digest.\<close>

definition compileTiers ::
    "compiler \<Rightarrow> compile_request \<Rightarrow> multi_reference_compilation option \<Rightarrow> node \<Rightarrow> manifest \<Rightarrow> string list \<Rightarrow> int
     \<Rightarrow> string \<times> manifest" where
  "compileTiers c req multiRef currentNode m1 ancestryContent r1 =
     (let (refContent, refItems, refWarnings) = compileReferences c req r1;
          m2 = m1\<lparr>m_References := refItems, m_Warnings := m_Warnings m1 @ refWarnings\<rparr>;
          r2 = r1 - sumTokens refItems;
          m3 = accountMultiRef c multiRef m2;
          ((retContent, retItems, retWarnings), tier) = compileRetrieved c req currentNode m3 r2;
          m4 = m3\<lparr>m_RetrievalBudget := (case tier of None \<Rightarrow> m_RetrievalBudget m3 | Some b \<Rightarrow> b),
                  m_Retrieved := retItems, m_Warnings := m_Warnings m3 @ retWarnings\<rparr>;
          r3 = r2 - sumTokens retItems;
          (cardRefContent, cardRefItems, cardRefWarnings) =
            compileCardReferences c req (n_Content currentNode) r3;
          r4 = r3 - sumTokens cardRefItems;
          (cardContent, cardItems, cardWarnings) = compileCards c req (n_Content currentNode) r4;
          m5 = m4\<lparr>m_Cards := m_Cards m4 @ cardRefItems @ cardItems,
                  m_Warnings := m_Warnings m4 @ cardRefWarnings @ cardWarnings\<rparr>;
          finalContent = assemble ancestryContent refContent retContent cardRefContent cardContent
                           (m_SummaryText m5) multiRef;
          used = cc_est c finalContent;
          m6 = m5\<lparr>m_TokensUsed := used,
                  m_Warnings := m_Warnings m5
                    @ (if used > req_TokenBudget req
                       then [''tokens used ('' @ itoa used @ '') exceeds budget ('' @ itoa (req_TokenBudget req) @ '')'']
                       else [])\<rparr>
      in (finalContent, m6\<lparr>m_ManifestHash := ManifestDigest c m6\<rparr>))"

definition startManifest :: "string \<Rightarrow> instant \<Rightarrow> compile_request \<Rightarrow> manifest" where
  "startManifest requestID now req =
     \<lparr>m_RequestID = requestID, m_NodeID = req_NodeID req, m_CompiledAt = now,
      m_TokenBudget = req_TokenBudget req, m_TokensUsed = 0, m_Ancestry = [], m_References = [],
      m_Cards = [], m_OmittedCount = 0, m_OmittedReason = [], m_TruncationMarkers = [],
      m_Warnings = [], m_ManifestHash = [], m_PinnedCount = 0, m_MultiReference = None,
      m_Retrieved = [], m_RetrievalBudget = 0, m_SummaryText = [], m_SummaryTokenCount = 0,
      m_SummarizedCount = 0\<rparr>"

text \<open>\<open>requestID\<close> is the fresh identifier, \<open>now\<close> the clock reading of the call.\<close>

definition Compile :: "compiler \<Rightarrow> string \<Rightarrow> instant \<Rightarrow> compile_request \<Rightarrow> compile_error + string \<times> manifest" where
  "Compile c requestID now req =
     (if req_TokenBudget req < 1 then Inl ErrInvalidBudget
      else case compileMultiReference (cc_ustr c) (req_MultiReference req) of
        Inl e \<Rightarrow> Inl (ErrMultiReference e)
      | Inr multiRef \<Rightarrow>
        case cc_GetByID c (req_NodeID req) of
          Inl (NotFound t) \<Rightarrow> Inl (ErrNodeNotFound t)
        | Inl (Failure t) \<Rightarrow> Inl (ErrDatabaseUnavailable (''get current node: '' @ t))
        | Inr currentNode \<Rightarrow>
          case cc_GetAncestors c (req_NodeID req) of
            Inl e \<Rightarrow> Inl (ErrDatabaseUnavailable (''get ancestors: '' @ reader_error_text e))
          | Inr chain \<Rightarrow>
            let (m1, ancestryContent, r1) = compileAncestry c req chain (startManifest requestID now req)
            in Inr (compileTiers c req multiRef currentNode m1 ancestryContent r1))"

end
