(* ===== verification/Context_Properties.thy ===== *)
theory Context_Properties
  imports Context_Compiler "HOL-Library.Sublist"
begin

text \<open>
  Properties of the context compiler: what the budget walk keeps and drops, the accounting of
  omitted nodes, the token budget of every tier, the privacy of card data and the stability
  of the manifest digest.
\<close>

section \<open>The budget walk\<close>

text \<open>
  The entries a walk keeps and drops, as a function of the budget and the phase: the walk's
  specification.
\<close>

fun walkKeeps :: "compiler \<Rightarrow> int \<Rightarrow> bool \<Rightarrow> ancestry_entry list \<Rightarrow> bool list" where
  "walkKeeps c remaining tail [] = []"
| "walkKeeps c remaining tail (e # es) =
     (let tokens = cc_est c (ae_text e) in
      if ae_pinned e \<or> \<not> tail \<and> tokens \<le> remaining
      then True # walkKeeps c (remaining - tokens) tail es
      else False # walkKeeps c remaining True es)"

definition keptEntries :: "compiler \<Rightarrow> int \<Rightarrow> bool \<Rightarrow> ancestry_entry list \<Rightarrow> ancestry_entry list" where
  "keptEntries c remaining tail es = map fst (filter snd (zip es (walkKeeps c remaining tail es)))"

definition droppedEntries :: "compiler \<Rightarrow> int \<Rightarrow> bool \<Rightarrow> ancestry_entry list \<Rightarrow> ancestry_entry list" where
  "droppedEntries c remaining tail es = map fst (filter (Not \<circ> snd) (zip es (walkKeeps c remaining tail es)))"

definition keptItem :: "ancestry_entry \<Rightarrow> manifest_item" where
  "keptItem e = (if ae_pinned e then (ae_item e)\<lparr>mi_Pinned := True\<rparr> else ae_item e)"

lemma kept_Cons:
  "keptEntries c r t (e # es) =
     (if ae_pinned e \<or> \<not> t \<and> cc_est c (ae_text e) \<le> r
      then e # keptEntries c (r - cc_est c (ae_text e)) t es else keptEntries c r True es)"
  "droppedEntries c r t (e # es) =
     (if ae_pinned e \<or> \<not> t \<and> cc_est c (ae_text e) \<le> r
      then droppedEntries c (r - cc_est c (ae_text e)) t es else e # droppedEntries c r True es)"
  by (simp_all add: keptEntries_def droppedEntries_def Let_def)

lemma kept_Nil [simp]: "keptEntries c r t [] = []" "droppedEntries c r t [] = []"
  by (simp_all add: keptEntries_def droppedEntries_def)

lemma fold_walkStep:
  "fold (walkStep c) es w =
     w\<lparr>bw_remaining := bw_remaining w - sum_list (map (cc_est c \<circ> ae_text) (keptEntries c (bw_remaining w) (bw_tail w) es)),
       bw_content := bw_content w @ map ae_text (keptEntries c (bw_remaining w) (bw_tail w) es),
       bw_items := bw_items w @ map keptItem (keptEntries c (bw_remaining w) (bw_tail w) es),
       bw_omitted := bw_omitted w + int (length (droppedEntries c (bw_remaining w) (bw_tail w) es)),
       bw_pinnedKept := bw_pinnedKept w + int (length (filter ae_pinned es)),
       bw_tail := bw_tail w \<or> droppedEntries c (bw_remaining w) (bw_tail w) es \<noteq> [],
       bw_dropped := bw_dropped w @ map omittedOf (droppedEntries c (bw_remaining w) (bw_tail w) es)\<rparr>"
proof (induction es arbitrary: w)
  case Nil
  show ?case by simp
next
  case (Cons e es)
  show ?case
  proof (cases "ae_pinned e \<or> \<not> bw_tail w \<and> cc_est c (ae_text e) \<le> bw_remaining w")
    case True
    then have "walkStep c e w = keepEntry (cc_est c (ae_text e)) e w"
      by (auto simp: walkStep_def Let_def)
    then show ?thesis
      by (simp add: Cons keepEntry_def kept_Cons if_P [OF True] keptItem_def algebra_simps)
  next
    case False
    then have "walkStep c e w = dropEntry e (w\<lparr>bw_tail := True\<rparr>)"
      by (auto simp: walkStep_def Let_def dropEntry_def)
    moreover have "keptEntries c (bw_remaining w) (bw_tail w) (e # es) = keptEntries c (bw_remaining w) True es"
      "droppedEntries c (bw_remaining w) (bw_tail w) (e # es) = e # droppedEntries c (bw_remaining w) True es"
      by (simp_all only: kept_Cons if_not_P [OF False])
    moreover have "\<not> ae_pinned e" using False by simp
    ultimately show ?thesis by (simp add: Cons dropEntry_def)
  qed
qed

lemma length_walkKeeps [simp]: "length (walkKeeps c r t es) = length es"
  by (induction c r t es rule: walkKeeps.induct) (auto simp: Let_def)

lemma kept_plus_dropped:
  "length (keptEntries c r t es) + length (droppedEntries c r t es) = length es"
  using sum_length_filter_compl [of snd "zip es (walkKeeps c r t es)"]
  by (simp add: keptEntries_def droppedEntries_def o_def)

lemma pinned_kept: "filter ae_pinned (keptEntries c r t es) = filter ae_pinned es"
  by (induction es arbitrary: r t) (simp_all add: kept_Cons)

lemma dropped_unpinned: "e \<in> set (droppedEntries c r t es) \<Longrightarrow> \<not> ae_pinned e"
  by (induction es arbitrary: r t) (auto simp: kept_Cons split: if_splits)

lemma kept_subseq: "set (keptEntries c r t es) \<subseteq> set es"
  by (induction es arbitrary: r t) (auto simp: kept_Cons split: if_splits)

text \<open>Without pins the walk keeps a prefix, and it spends at most the budget.\<close>

lemma kept_tail_unpinned:
  "\<forall>e \<in> set es. \<not> ae_pinned e \<Longrightarrow> keptEntries c r True es = []"
  by (induction es arbitrary: r) (simp_all add: kept_Cons)

lemma kept_prefix:
  assumes "\<forall>e \<in> set es. \<not> ae_pinned e"
  shows "es = keptEntries c r t es @ droppedEntries c r t es"
  using assms
proof (induction es arbitrary: r t)
  case (Cons e es)
  from Cons.prems have e: "\<not> ae_pinned e" and es: "\<forall>e \<in> set es. \<not> ae_pinned e" by auto
  show ?case
  proof (cases "\<not> t \<and> cc_est c (ae_text e) \<le> r")
    case True
    with e Cons.IH [OF es] show ?thesis by (simp add: kept_Cons)
  next
    case False
    then have "keptEntries c r t (e # es) = []" "droppedEntries c r t (e # es) = e # droppedEntries c r True es"
      using e kept_tail_unpinned [OF es] by (auto simp: kept_Cons)
    with Cons.IH [OF es, of r True] kept_tail_unpinned [OF es, of c r] show ?thesis by simp
  qed
qed simp

lemma kept_within_budget:
  assumes "\<forall>e \<in> set es. \<not> ae_pinned e" and "0 \<le> r"
  shows "sum_list (map (cc_est c \<circ> ae_text) (keptEntries c r t es)) \<le> r"
  using assms
proof (induction es arbitrary: r t)
  case (Cons e es)
  show ?case
  proof (cases "\<not> t \<and> cc_est c (ae_text e) \<le> r")
    case True
    with Cons.IH [of "r - cc_est c (ae_text e)" t] Cons.prems show ?thesis by (simp add: kept_Cons)
  next
    case False
    with Cons.IH [of r True] Cons.prems show ?thesis by (auto simp: kept_Cons)
  qed
qed simp

lemma dropped_when_none_kept:
  "keptEntries c r t es = [] \<Longrightarrow> droppedEntries c r t es = es"
  by (induction es arbitrary: r t) (auto simp: kept_Cons split: if_splits)


section \<open>Steps 1 to 4b\<close>

definition maxDepth :: "compile_request \<Rightarrow> nat" where
  "maxDepth req = nat (if req_MaxAncestors req \<le> 0 then 50 else req_MaxAncestors req)"

lemma limitDepth_spec:
  "limitDepth (if req_MaxAncestors req \<le> 0 then 50 else req_MaxAncestors req) chain =
     (rev (take (maxDepth req) chain), int (length chain - maxDepth req))"
proof -
  have "rev (drop (length chain - k) (rev chain)) = take k chain" if "k \<le> length chain" for k
    using that by (simp add: rev_drop)
  then show ?thesis
    by (auto simp: limitDepth_def Let_def maxDepth_def rev_swap)
qed

definition entriesOf :: "compiler \<Rightarrow> compile_request \<Rightarrow> node list \<Rightarrow> ancestry_entry list" where
  "entriesOf c req chain = map (renderAncestor c) (take (maxDepth req) chain)"

text \<open>The walk after the floor: what step 4 leaves in the manifest.\<close>

definition finalKept :: "compiler \<Rightarrow> compile_request \<Rightarrow> node list \<Rightarrow> ancestry_entry list" where
  "finalKept c req chain =
     (let es = entriesOf c req chain; kept = keptEntries c (req_TokenBudget req) False es
      in if kept = [] then take 1 es else kept)"

definition walkSpent :: "compiler \<Rightarrow> compile_request \<Rightarrow> node list \<Rightarrow> int" where
  "walkSpent c req chain =
     sum_list (map (cc_est c \<circ> ae_text) (keptEntries c (req_TokenBudget req) False (entriesOf c req chain)))"

lemma budgetWalk_spec:
  fixes c es budget
  defines "kept \<equiv> keptEntries c budget False es" and "dropped \<equiv> droppedEntries c budget False es"
  shows "budgetWalk c budget es =
    \<lparr>bw_remaining = budget - sum_list (map (cc_est c \<circ> ae_text) kept), bw_content = map ae_text kept,
     bw_items = map keptItem kept, bw_omitted = int (length dropped),
     bw_pinnedKept = int (length (filter ae_pinned es)), bw_tail = (dropped \<noteq> []),
     bw_dropped = map omittedOf dropped\<rparr>"
  by (simp add: budgetWalk_def fold_walkStep kept_def dropped_def)

lemma keepNewest_spec:
  fixes c es budget
  defines "kept \<equiv> keptEntries c budget False es" and "w \<equiv> fst (keepNewest es (budgetWalk c budget es))"
  shows "bw_items w = map keptItem (if kept = [] then take 1 es else kept) \<and>
    bw_content w = map ae_text (if kept = [] then take 1 es else kept) \<and>
    bw_omitted w = int (length es - length (if kept = [] then take 1 es else kept)) \<and>
    length (bw_dropped w) = length es - length (if kept = [] then take 1 es else kept) \<and>
    bw_pinnedKept w = int (length (filter ae_pinned es)) \<and>
    bw_remaining w = budget - sum_list (map (cc_est c \<circ> ae_text) kept)"
proof (cases "kept = []")
  case True
  then have d: "droppedEntries c budget False es = es" unfolding kept_def by (rule dropped_when_none_kept)
  have np: "filter ae_pinned es = []" using True pinned_kept [of c budget False es] by (simp add: kept_def)
  show ?thesis
  proof (cases es)
    case (Cons e es')
    with np have "\<not> ae_pinned e" by (auto split: if_splits)
    with Cons True d show ?thesis
      by (simp add: w_def keepNewest_def budgetWalk_spec kept_def keptItem_def)
  qed (simp add: w_def keepNewest_def budgetWalk_spec kept_def)
next
  case False
  then have "w = budgetWalk c budget es"
    by (cases es) (simp_all add: w_def keepNewest_def budgetWalk_spec kept_def)
  with False kept_plus_dropped [of c budget False es] show ?thesis
    by (auto simp: budgetWalk_spec kept_def)
qed

lemma accountWalk_fields [simp]:
  "m_Ancestry (accountWalk w warn m) = m_Ancestry m"
  "m_OmittedCount (accountWalk w warn m) = m_OmittedCount m + (if bw_omitted w > 0 then bw_omitted w else 0)"
  "m_SummaryTokenCount (accountWalk w warn m) = m_SummaryTokenCount m"
  "m_SummarizedCount (accountWalk w warn m) = m_SummarizedCount m"
  by (simp_all add: accountWalk_def Let_def)

lemma addSummary_fields:
  assumes "addSummary c w m = (m', r)" and "0 \<le> m_SummaryTokenCount m" and "m_SummaryTokenCount m = 0"
  shows "m_Ancestry m' = m_Ancestry m \<and> m_OmittedCount m' = m_OmittedCount m \<and>
    r = bw_remaining w - m_SummaryTokenCount m' \<and>
    (m_SummaryTokenCount m' \<noteq> 0 \<longrightarrow> 0 \<le> r) \<and> (0 \<le> bw_remaining w \<longrightarrow> 0 \<le> r) \<and>
    (m_SummarizedCount m = 0 \<longrightarrow> m_SummarizedCount m' = 0 \<or> m_SummarizedCount m' = int (length (bw_dropped w)))"
  using assms by (auto simp: addSummary_def Let_def split: if_splits prod.splits)

text \<open>The manifest before step 5, with its empty fields.\<close>

definition freshManifest :: "manifest \<Rightarrow> bool" where
  "freshManifest m \<longleftrightarrow> m_OmittedCount m = 0 \<and> m_SummaryTokenCount m = 0 \<and> m_SummarizedCount m = 0 \<and> m_Cards m = []"

lemma compileAncestry_spec:
  assumes "compileAncestry c req chain m0 = (m, texts, r)" and "freshManifest m0"
  shows "m_Ancestry m = map keptItem (finalKept c req chain) \<and> texts = map ae_text (finalKept c req chain) \<and>
    m_OmittedCount m = int (length chain) - int (length (finalKept c req chain)) \<and>
    m_PinnedCount m = int (length (filter ae_pinned (entriesOf c req chain))) \<and>
    r = req_TokenBudget req - walkSpent c req chain - m_SummaryTokenCount m \<and>
    (0 \<le> req_TokenBudget req - walkSpent c req chain \<longrightarrow> 0 \<le> r) \<and>
    (m_SummarizedCount m = 0 \<or> m_SummarizedCount m =
       int (length (entriesOf c req chain)) - int (length (finalKept c req chain)))"
proof -
  define es where "es = entriesOf c req chain"
  define w where "w = fst (keepNewest es (budgetWalk c (req_TokenBudget req) es))"
  define warn where "warn = snd (keepNewest es (budgetWalk c (req_TokenBudget req) es))"
  define m1 where "m1 = (if int (length chain - maxDepth req) > 0
    then m0\<lparr>m_OmittedCount := int (length chain - maxDepth req), m_OmittedReason := ''depth''\<rparr> else m0)"
  obtain m2 r' where s: "addSummary c w (accountWalk w warn m1) = (m2, r')" by fastforce
  have m: "m = m2\<lparr>m_Ancestry := bw_items w, m_PinnedCount := bw_pinnedKept w\<rparr>" "texts = bw_content w" "r = r'"
    using assms(1) s unfolding compileAncestry_def Let_def limitDepth_spec
    by (auto simp: entriesOf_def [symmetric] es_def w_def warn_def m1_def rev_map [symmetric] split: prod.splits)
  have fr: "m_SummaryTokenCount m1 = 0" "m_SummarizedCount m1 = 0" "m_OmittedCount m1 = int (length chain - maxDepth req)"
    using assms(2) by (auto simp: m1_def freshManifest_def)
  note kn = keepNewest_spec [of es c "req_TokenBudget req", folded w_def]
  have fk: "finalKept c req chain = (if keptEntries c (req_TokenBudget req) False es = [] then take 1 es
      else keptEntries c (req_TokenBudget req) False es)"
    by (simp add: finalKept_def es_def Let_def)
  have le: "length (finalKept c req chain) \<le> length es"
    using kept_plus_dropped [of c "req_TokenBudget req" False es] by (auto simp: fk)
  have len: "length es + (length chain - maxDepth req) = length chain" by (simp add: es_def entriesOf_def)
  note sm = addSummary_fields [OF s]
  from len have "int (length chain) = int (length es) + int (length chain - maxDepth req)" by simp
  with kn [folded fk] sm fr m le show ?thesis
    unfolding walkSpent_def es_def [symmetric] by (auto simp: of_nat_diff split: if_splits)
qed


section \<open>The later steps\<close>

lemma fillBudget_spec:
  assumes "fillBudget c render item r xs = (sections, items)" and "token_estimator (cc_est c)"
    and "\<forall>x t. mi_TokenCount (item x t) = t"
  shows "length items \<le> length xs \<and> sections = map render (take (length items) xs) \<and>
    items = map (\<lambda>x. item x (cc_est c (render x))) (take (length items) xs) \<and>
    (0 \<le> r \<longrightarrow> sumTokens items \<le> r) \<and> (r < 0 \<longrightarrow> items = [])"
  using assms
proof (induction c render item r xs arbitrary: sections items rule: fillBudget.induct)
  case (2 c render item r x xs)
  have nn: "0 \<le> cc_est c (render x)" using "2.prems"(2) by (rule token_estimator.est_nonneg)
  show ?case
  proof (cases "cc_est c (render x) \<le> r")
    case True
    obtain ss its where rec: "fillBudget c render item (r - cc_est c (render x)) xs = (ss, its)" by fastforce
    with True "2.prems"(1) have "sections = render x # ss" "items = item x (cc_est c (render x)) # its"
      by (auto simp: Let_def)
    with "2.IH" [OF refl refl True rec "2.prems"(2,3)] True nn "2.prems"(3) show ?thesis
      by (auto simp: sumTokens_def)
  next
    case False
    with "2.prems"(1) nn show ?thesis by (auto simp: Let_def sumTokens_def)
  qed
qed (auto simp: sumTokens_def)

lemma new_item_fields [simp]:
  "mi_TokenCount (new_item i k t n) = n" "mi_ID (new_item i k t n) = i" "mi_Pinned (new_item i k t n) = False"
  "mi_Relevance (new_item i k t n) = 0" "mi_Truncated (new_item i k t n) = False"
  "mi_Kind (new_item i k t n) = k" "mi_Title (new_item i k t n) = t"
  by (simp_all add: new_item_def)

definition refHardCap :: "compiler \<Rightarrow> int" where
  "refHardCap c = (if cc_maxRefs c \<le> 0 then 10 else cc_maxRefs c * 2)"

lemma capReferences_spec:
  assumes "distinct (map t_ID topics)"
  shows "distinct (map t_ID (fst (capReferences (cc_maxRefs c) topics))) \<and>
    int (length (fst (capReferences (cc_maxRefs c) topics))) \<le> refHardCap c"
  using assms by (auto simp: capReferences_def refHardCap_def Let_def take_map [symmetric])

lemma compileReferences_cases:
  assumes "compileReferences c req budget = (sections, items, warnings)"
  shows "sections = [] \<and> items = [] \<or> (\<exists>topics.
    fillBudget c renderTopic (\<lambda>t tokens. new_item (t_ID t) ''topic'' (t_Slug t) tokens) budget
      (fst (capReferences (cc_maxRefs c) (dedup_by t_ID [] topics))) = (sections, items))"
proof (cases "req_ResolveRefs req")
  case True
  show ?thesis
  proof (cases "cc_GetTopicsForNode c (req_NodeID req)")
    case (Inr scoped)
    define topics where "topics = (case cc_GetResolvedTopicsForNode c (req_NodeID req) of
      Inl e \<Rightarrow> scoped | Inr resolved \<Rightarrow> mergeTopics scoped resolved)"
    have "fillBudget c renderTopic (\<lambda>t tokens. new_item (t_ID t) ''topic'' (t_Slug t) tokens) budget
      (fst (capReferences (cc_maxRefs c) (dedup_by t_ID [] topics))) = (sections, items)"
      using assms True Inr
      by (simp add: compileReferences_def case_prod_unfold Let_def topics_def prod_eq_iff split: sum.splits)
    then show ?thesis by blast
  qed (use assms True in \<open>simp add: compileReferences_def\<close>)
qed (use assms in \<open>simp add: compileReferences_def\<close>)

lemma compileReferences_spec:
  assumes "compileReferences c req budget = (sections, items, warnings)" and "token_estimator (cc_est c)"
  shows "distinct (map mi_ID items) \<and> int (length items) \<le> refHardCap c \<and>
    (0 \<le> budget \<longrightarrow> sumTokens items \<le> budget) \<and> (budget < 0 \<longrightarrow> items = []) \<and> length sections = length items"
  using compileReferences_cases [OF assms(1)]
proof
  assume "sections = [] \<and> items = []"
  then show ?thesis by (auto simp: sumTokens_def refHardCap_def)
next
  assume "\<exists>topics. fillBudget c renderTopic (\<lambda>t tokens. new_item (t_ID t) ''topic'' (t_Slug t) tokens) budget
      (fst (capReferences (cc_maxRefs c) (dedup_by t_ID [] topics))) = (sections, items)"
  then obtain topics hc where hc: "hc = fst (capReferences (cc_maxRefs c) (dedup_by t_ID [] topics))"
    and f: "fillBudget c renderTopic (\<lambda>t tokens. new_item (t_ID t) ''topic'' (t_Slug t) tokens) budget hc = (sections, items)"
    by blast
  from fillBudget_spec [OF f assms(2)]
  have i: "items = map (\<lambda>t. new_item (t_ID t) ''topic'' (t_Slug t) (cc_est c (renderTopic t))) (take (length items) hc)"
    and s: "sections = map renderTopic (take (length items) hc)" and l: "length items \<le> length hc"
    and b: "(0 \<le> budget \<longrightarrow> sumTokens items \<le> budget) \<and> (budget < 0 \<longrightarrow> items = [])" by auto
  have cap: "distinct (map t_ID hc)" "int (length hc) \<le> refHardCap c"
    using capReferences_spec [of "dedup_by t_ID [] topics" c] dedup_by_distinct [of t_ID] by (auto simp: hc)
  have "map mi_ID items = map t_ID (take (length items) hc)" by (subst i) simp
  moreover have "distinct (map t_ID (take (length items) hc))"
    using cap(1) by (simp add: take_map [symmetric])
  moreover have "length sections = length items" using s l by simp
  ultimately show ?thesis using l b cap(2) by auto
qed

lemma fillRetrieved_spec:
  assumes "fillRetrieved c r xs = (sections, items, omitted)" and "token_estimator (cc_est c)" and "0 \<le> r"
  shows "sumTokens items \<le> r \<and> (\<exists>ys. subseq ys xs \<and> sections = map renderRetrieved ys \<and>
      map mi_ID items = map ri_ID ys \<and> map mi_Relevance items = map ri_Relevance ys) \<and>
    int (length items) + omitted = int (length xs)"
  using assms
proof (induction c r xs arbitrary: sections items omitted rule: fillRetrieved.induct)
  case (2 c r x xs)
  have nn: "0 \<le> cc_est c (renderRetrieved x)" using "2.prems"(2) by (rule token_estimator.est_nonneg)
  show ?case
  proof (cases "cc_est c (renderRetrieved x) > r")
    case True
    obtain ss its om where rec: "fillRetrieved c r xs = (ss, its, om)" by (cases "fillRetrieved c r xs")
    with True "2.prems"(1) have "sections = ss" "items = its" "omitted = om + 1" by (auto simp: Let_def)
    with "2.IH"(1) [OF refl refl True rec "2.prems"(2,3)] show ?thesis by auto
  next
    case False
    obtain ss its om where rec: "fillRetrieved c (r - cc_est c (renderRetrieved x)) xs = (ss, its, om)"
      by (cases "fillRetrieved c (r - cc_est c (renderRetrieved x)) xs")
    with False "2.prems"(1) have eq: "sections = renderRetrieved x # ss" "omitted = om"
      "items = (new_item (ri_ID x) ''retrieved_topic'' (ri_Slug x) (cc_est c (renderRetrieved x)))
         \<lparr>mi_Relevance := ri_Relevance x\<rparr> # its" by (auto simp: Let_def)
    from "2.IH"(2) [OF refl refl False rec "2.prems"(2)] False obtain ys where
      "sumTokens its \<le> r - cc_est c (renderRetrieved x)" "subseq ys xs" "ss = map renderRetrieved ys"
      "map mi_ID its = map ri_ID ys" "map mi_Relevance its = map ri_Relevance ys"
      "int (length its) + om = int (length xs)" by auto
    with eq show ?thesis by (auto simp: sumTokens_def intro!: exI [of _ "x # ys"])
  qed
qed (auto simp: sumTokens_def)


lemma subseq_set: "subseq xs ys \<Longrightarrow> set xs \<subseteq> set ys"
  by (induction rule: list_emb.induct) auto

lemma subseq_sorted_wrt: "subseq xs ys \<Longrightarrow> sorted_wrt P ys \<Longrightarrow> sorted_wrt P xs"
  by (induction rule: list_emb.induct) (auto dest: subseq_set)

lemma subseq_distinct_map: "subseq xs ys \<Longrightarrow> distinct (map f ys) \<Longrightarrow> distinct (map f xs)"
  by (induction rule: list_emb.induct) (auto dest: subseq_set)

lemma retrievalLess_weak_order: "weak_order (retrievalLess ustr)"
  by (rule weak_orderI) (auto simp: retrievalLess_def split: if_splits)

lemma compileRetrieved_spec:
  assumes "compileRetrieved c req cur m r = ((sections, items, warnings), tier)" and "token_estimator (cc_est c)"
    and "0 \<le> req_TokenBudget req"
  shows "(0 \<le> r \<longrightarrow> sumTokens items \<le> r) \<and> (r \<le> 0 \<longrightarrow> items = []) \<and>
    sumTokens items \<le> req_TokenBudget req * 12 div 100 \<and>
    distinct (map mi_ID items) \<and> set (map mi_ID items) \<inter> set (map mi_ID (m_References m)) = {} \<and>
    sorted_wrt (\<ge>) (map mi_Relevance items)"
proof (cases "items = []")
  case True
  with assms(3) show ?thesis by (simp add: sumTokens_def)
next
  case False
  define tb where "tb = go_div (req_TokenBudget req * RetrievalSharePercent) 100"
  define effective where "effective = (if r < tb then r else tb)"
  have tb: "tb = req_TokenBudget req * 12 div 100" using assms(3) by (simp add: tb_def)
  from False assms(1) obtain retrieve where re: "cc_retrieval c = Some retrieve"
    by (auto simp: compileRetrieved_def split: option.splits)
  have go: "\<not> (cc_retrievalMax c \<le> 0 \<or> n_TreeID cur = uuid_Nil \<or> retrievalQuery cur = [] \<or> effective \<le> 0)"
    using False assms(1) re unfolding compileRetrieved_def Let_def tb_def [symmetric] effective_def [symmetric]
    by (auto split: if_splits)
  then have e: "0 < effective" by simp
  from False assms(1) re go obtain retrieved where
    rt: "retrieve (n_TreeID cur) (retrievalQuery cur) (cc_retrievalMax c) = Inr retrieved"
    unfolding compileRetrieved_def Let_def tb_def [symmetric] effective_def [symmetric]
    by (cases "retrieve (n_TreeID cur) (retrievalQuery cur) (cc_retrievalMax c)") auto
  define cs where "cs = sort_stable (retrievalLess (cc_ustr c)) (dedup_by ri_ID (map mi_ID (m_References m)) retrieved)"
  obtain om where "fillRetrieved c effective cs = (sections, items, om)"
    using assms(1) re go rt unfolding compileRetrieved_def Let_def tb_def [symmetric] effective_def [symmetric]
    by (cases "fillRetrieved c effective cs") (simp add: cs_def)
  from fillRetrieved_spec [OF this assms(2)] e obtain ys where ys: "subseq ys cs"
    "map mi_ID items = map ri_ID ys" "map mi_Relevance items = map ri_Relevance ys" "sumTokens items \<le> effective" by auto
  have "mset (map ri_ID cs) = mset (map ri_ID (dedup_by ri_ID (map mi_ID (m_References m)) retrieved))"
    by (simp add: cs_def)
  then have "distinct (map ri_ID cs)"
    using dedup_by_distinct [of ri_ID] mset_eq_imp_distinct_iff by blast
  then have "distinct (map ri_ID ys)" using ys(1) by (metis subseq_distinct_map)
  moreover have "set ys \<subseteq> set cs" using ys(1) by (rule subseq_set)
  then have "ri_ID ` set ys \<subseteq> ri_ID ` set (dedup_by ri_ID (map mi_ID (m_References m)) retrieved)"
    by (auto simp: cs_def)
  then have "ri_ID ` set ys \<inter> set (map mi_ID (m_References m)) = {}"
    using dedup_by_keys [of ri_ID "map mi_ID (m_References m)" retrieved] by auto
  moreover have "sorted_wrt (\<lambda>x y. \<not> retrievalLess (cc_ustr c) y x) ys"
    using sorted_sort_stable [OF retrievalLess_weak_order] ys(1) unfolding cs_def by (metis subseq_sorted_wrt)
  then have "sorted_wrt (\<lambda>x y. ri_Relevance x \<ge> ri_Relevance y) ys"
    by (rule sorted_wrt_mono_rel [rotated]) (auto simp: retrievalLess_def split: if_splits)
  moreover have "sorted_wrt (\<ge>) (map mi_Relevance items)" using calculation by (simp add: ys(3) sorted_wrt_map)
  ultimately show ?thesis using ys(2,4) e by (auto simp: effective_def tb split: if_splits)
qed

lemma fillCardRefs_spec:
  assumes "fillCardRefs c reader seen r refs = (sections, items, warnings)" and "token_estimator (cc_est c)"
  shows "(0 \<le> r \<longrightarrow> sumTokens items \<le> r) \<and> (r < 0 \<longrightarrow> sumTokens items = 0 \<and> sections = [])"
  using assms
proof (induction c reader seen r refs arbitrary: sections items warnings rule: fillCardRefs.induct)
  case (2 c reader seen r ref refs)
  show ?case
  proof (cases "cr_Invalid ref")
    case (Some reason)
    obtain ss its ws where rec: "fillCardRefs c reader seen r refs = (ss, its, ws)"
      by (cases "fillCardRefs c reader seen r refs")
    with Some "2.prems"(1) have "sections = ss \<and> items = its" by simp
    with "2.IH"(4) [OF Some rec "2.prems"(2)] show ?thesis by simp
  next
    case None
    show ?thesis
    proof (cases "cr_CardID ref \<in> set seen")
      case True
      with None "2.prems"(1) have "fillCardRefs c reader seen r refs = (sections, items, warnings)" by simp
      from "2.IH"(1) [OF None True this "2.prems"(2)] show ?thesis .
    next
      case False
      obtain env w1 where env: "ResolveCardReference (cc_ustr c) reader ref = (env, w1)" by fastforce
      obtain block escaped where block: "renderCardReferenceBlock c env = (block, escaped)" by fastforce
      have nn: "0 \<le> cc_est c block" using "2.prems"(2) by (rule token_estimator.est_nonneg)
      show ?thesis
      proof (cases "r < cc_est c block")
        case True
        obtain ss its ws where rec: "fillCardRefs c reader (cr_CardID ref # seen) r refs = (ss, its, ws)"
          by (cases "fillCardRefs c reader (cr_CardID ref # seen) r refs")
        with True None False "2.prems"(1) env block have "sections = ss \<and> sumTokens items = sumTokens its"
          by (auto simp: Let_def sumTokens_def)
        moreover have "(0 \<le> r \<longrightarrow> sumTokens its \<le> r) \<and> (r < 0 \<longrightarrow> sumTokens its = 0 \<and> ss = [])"
          by (rule "2.IH"(2) [OF None False refl env [symmetric] refl block [symmetric] refl refl refl True rec "2.prems"(2)])
        ultimately show ?thesis by simp
      next
        case fits: False
        obtain ss its ws where rec: "fillCardRefs c reader (cr_CardID ref # seen) (r - cc_est c block) refs = (ss, its, ws)"
          by (cases "fillCardRefs c reader (cr_CardID ref # seen) (r - cc_est c block) refs")
        with fits None False "2.prems"(1) env block have "sumTokens items = cc_est c block + sumTokens its"
          by (auto simp: Let_def sumTokens_def)
        moreover have "0 \<le> r - cc_est c block \<longrightarrow> sumTokens its \<le> r - cc_est c block"
          using "2.IH"(3) [OF None False refl env [symmetric] refl block [symmetric] refl refl refl fits rec "2.prems"(2)]
          by simp
        ultimately show ?thesis using fits nn by simp
      qed
    qed
  qed
qed (auto simp: sumTokens_def)


lemma compileCardReferences_spec:
  assumes "compileCardReferences c req content r = (sections, items, warnings)" and "token_estimator (cc_est c)"
  shows "(0 \<le> r \<longrightarrow> sumTokens items \<le> r) \<and> (r < 0 \<longrightarrow> sumTokens items = 0)"
  using assms fillCardRefs_spec
  by (fastforce simp: compileCardReferences_def sumTokens_def split: option.splits if_splits)

lemma compileCards_spec:
  assumes "compileCards c req content r = (sections, items, warnings)" and "token_estimator (cc_est c)"
  shows "(0 \<le> r \<longrightarrow> sumTokens items \<le> r) \<and> (r < 0 \<longrightarrow> items = [])"
proof (cases "items = []")
  case False
  with assms(1) obtain cards where
    "fillBudget c renderCard (\<lambda>cd tokens. new_item (c_ID cd) ''card'' (c_CardType cd) tokens) r cards = (sections, items)"
    by (auto simp: compileCards_def split: if_splits sum.splits prod.splits)
  from fillBudget_spec [OF this assms(2)] show ?thesis by auto
qed (simp add: sumTokens_def)

lemma accountMultiRef_fields [simp]:
  "m_Ancestry (accountMultiRef c mr m) = m_Ancestry m"
  "m_OmittedCount (accountMultiRef c mr m) = m_OmittedCount m"
  "m_PinnedCount (accountMultiRef c mr m) = m_PinnedCount m"
  "m_SummaryTokenCount (accountMultiRef c mr m) = m_SummaryTokenCount m"
  "m_SummarizedCount (accountMultiRef c mr m) = m_SummarizedCount m"
  "m_SummaryText (accountMultiRef c mr m) = m_SummaryText m"
  "m_Cards (accountMultiRef c mr m) = m_Cards m"
  "m_References (accountMultiRef c mr m) =
     m_References m @ (case mr of None \<Rightarrow> [] | Some x \<Rightarrow> multiRefItems x)"
  by (simp_all add: accountMultiRef_def Let_def split: option.split)

lemma compileAncestry_Cards:
  "compileAncestry c req chain m0 = (m, texts, r) \<Longrightarrow> m_Cards m = m_Cards m0"
  by (auto simp: compileAncestry_def addSummary_def accountWalk_def Let_def split: prod.splits if_splits)

lemma freshManifest_start: "freshManifest (startManifest requestID now req)"
  by (simp add: freshManifest_def startManifest_def)

text \<open>What a successful compilation went through.\<close>

lemma Compile_Inr:
  assumes "Compile c requestID now req = Inr (content, m)"
  shows "\<exists>multiRef cur chain m1 texts r1. 1 \<le> req_TokenBudget req \<and>
    compileMultiReference (cc_ustr c) (req_MultiReference req) = Inr multiRef \<and>
    cc_GetByID c (req_NodeID req) = Inr cur \<and> cc_GetAncestors c (req_NodeID req) = Inr chain \<and>
    compileAncestry c req chain (startManifest requestID now req) = (m1, texts, r1) \<and>
    compileTiers c req multiRef cur m1 texts r1 = (content, m)"
  using assms by (auto simp: Compile_def split: if_splits sum.splits reader_error.splits prod.splits)

lemma compileTiers_spec:
  assumes "compileTiers c req multiRef cur m1 texts r1 = (content, m)" and "token_estimator (cc_est c)"
    and "0 \<le> req_TokenBudget req"
  shows "\<exists>refs. m_Ancestry m = m_Ancestry m1 \<and> m_OmittedCount m = m_OmittedCount m1 \<and>
    m_PinnedCount m = m_PinnedCount m1 \<and> m_SummaryTokenCount m = m_SummaryTokenCount m1 \<and>
    m_SummarizedCount m = m_SummarizedCount m1 \<and>
    m_References m = refs @ (case multiRef of None \<Rightarrow> [] | Some x \<Rightarrow> multiRefItems x) \<and>
    distinct (map mi_ID refs) \<and> int (length refs) \<le> refHardCap c \<and>
    sumTokens (m_Retrieved m) \<le> req_TokenBudget req * 12 div 100 \<and>
    distinct (map mi_ID (m_Retrieved m)) \<and>
    set (map mi_ID (m_Retrieved m)) \<inter> set (map mi_ID (m_References m)) = {} \<and>
    sorted_wrt (\<ge>) (map mi_Relevance (m_Retrieved m)) \<and>
    (0 \<le> r1 \<and> m_Cards m1 = [] \<longrightarrow> sumTokens refs + sumTokens (m_Retrieved m) + sumTokens (m_Cards m) \<le> r1) \<and>
    m_TokensUsed m = cc_est c content \<and> m_ManifestHash m = ManifestDigest c m"
proof -
  obtain s2 i2 w2 where refs: "compileReferences c req r1 = (s2, i2, w2)" by (cases "compileReferences c req r1")
  define m3 where "m3 = accountMultiRef c multiRef (m1\<lparr>m_References := i2, m_Warnings := m_Warnings m1 @ w2\<rparr>)"
  obtain s3 i3 w3 tier where ret: "compileRetrieved c req cur m3 (r1 - sumTokens i2) = ((s3, i3, w3), tier)"
    by (metis prod.collapse)
  obtain s4 i4 w4 where cr: "compileCardReferences c req (n_Content cur) (r1 - sumTokens i2 - sumTokens i3) = (s4, i4, w4)"
    by (cases "compileCardReferences c req (n_Content cur) (r1 - sumTokens i2 - sumTokens i3)")
  obtain s5 i5 w5 where cd: "compileCards c req (n_Content cur) (r1 - sumTokens i2 - sumTokens i3 - sumTokens i4) = (s5, i5, w5)"
    by (cases "compileCards c req (n_Content cur) (r1 - sumTokens i2 - sumTokens i3 - sumTokens i4)")
  have m: "m_Ancestry m = m_Ancestry m3" "m_OmittedCount m = m_OmittedCount m3" "m_PinnedCount m = m_PinnedCount m3"
    "m_SummaryTokenCount m = m_SummaryTokenCount m3" "m_SummarizedCount m = m_SummarizedCount m3"
    "m_References m = m_References m3" "m_Retrieved m = i3" "m_Cards m = m_Cards m3 @ i4 @ i5"
    "m_TokensUsed m = cc_est c content" "m_ManifestHash m = ManifestDigest c m"
    using assms(1) unfolding compileTiers_def refs Let_def prod.case m3_def [symmetric] ret cr cd
    by (auto simp: ManifestDigest_def manifestCanonicalJSON_def)
  note rs = compileReferences_spec [OF refs assms(2)] compileRetrieved_spec [OF ret assms(2,3)]
    compileCardReferences_spec [OF cr assms(2)] compileCards_spec [OF cd assms(2)]
  have "sumTokens i2 + sumTokens i3 + sumTokens (i4 @ i5) \<le> r1" if "0 \<le> r1"
    using rs that by (auto simp: sumTokens_def)
  with m rs show ?thesis by (intro exI [of _ i2]) (simp add: m3_def)
qed


section \<open>Stamps\<close>

text \<open>The two volatile fields do not influence the rest of a compilation.\<close>

definition stamp :: "string \<Rightarrow> instant \<Rightarrow> manifest \<Rightarrow> manifest" where
  "stamp requestID now m = m\<lparr>m_RequestID := requestID, m_CompiledAt := now\<rparr>"

lemma stamp_fields [simp]:
  "m_References (stamp i t m) = m_References m" "m_Warnings (stamp i t m) = m_Warnings m"
  "m_Cards (stamp i t m) = m_Cards m" "m_SummaryText (stamp i t m) = m_SummaryText m"
  "m_RetrievalBudget (stamp i t m) = m_RetrievalBudget m" "m_ManifestHash (stamp i t m) = m_ManifestHash m"
  by (simp_all add: stamp_def)

lemma accountWalk_stamp: "accountWalk w warn (stamp i t m) = stamp i t (accountWalk w warn m)"
  by (simp add: accountWalk_def stamp_def Let_def)

lemma addSummary_stamp:
  "addSummary c w (stamp i t m) = (stamp i t (fst (addSummary c w m)), snd (addSummary c w m))"
  by (simp add: addSummary_def stamp_def Let_def split: prod.split)

lemma compileAncestry_stamp:
  "compileAncestry c req chain (stamp i t m) =
     (case compileAncestry c req chain m of (m', texts, r) \<Rightarrow> (stamp i t m', texts, r))"
proof -
  have "(if b then (stamp i t m)\<lparr>m_OmittedCount := k, m_OmittedReason := y\<rparr> else stamp i t m) =
      stamp i t (if b then m\<lparr>m_OmittedCount := k, m_OmittedReason := y\<rparr> else m)" for b k y
    by (simp add: stamp_def)
  moreover have "(stamp i t m')\<lparr>m_Ancestry := a, m_PinnedCount := p\<rparr> = stamp i t (m'\<lparr>m_Ancestry := a, m_PinnedCount := p\<rparr>)"
    for m' a p by (simp add: stamp_def)
  ultimately show ?thesis
    unfolding compileAncestry_def Let_def case_prod_unfold
    by (simp only: accountWalk_stamp addSummary_stamp fst_conv snd_conv)
qed

lemma accountMultiRef_stamp: "accountMultiRef c mr (stamp i t m) = stamp i t (accountMultiRef c mr m)"
  by (simp add: accountMultiRef_def stamp_def Let_def split: option.split)

lemma compileRetrieved_stamp: "compileRetrieved c req cur (stamp i t m) r = compileRetrieved c req cur m r"
  unfolding compileRetrieved_def stamp_fields ..

lemma ManifestDigest_stamp: "ManifestDigest c (stamp i t m) = ManifestDigest c m"
  by (simp add: ManifestDigest_def manifestCanonicalJSON_def stamp_def)

lemma compileTiers_stamp:
  "compileTiers c req mr cur (stamp i t m) texts r =
     (fst (compileTiers c req mr cur m texts r), stamp i t (snd (compileTiers c req mr cur m texts r)))"
proof -
  have 1: "(stamp i t m)\<lparr>m_References := a, m_Warnings := b\<rparr> = stamp i t (m\<lparr>m_References := a, m_Warnings := b\<rparr>)"
    for m a b by (simp add: stamp_def)
  have 2: "(stamp i t m)\<lparr>m_RetrievalBudget := a, m_Retrieved := b, m_Warnings := d\<rparr> =
      stamp i t (m\<lparr>m_RetrievalBudget := a, m_Retrieved := b, m_Warnings := d\<rparr>)" for m a b d by (simp add: stamp_def)
  have 3: "(stamp i t m)\<lparr>m_Cards := a, m_Warnings := b\<rparr> = stamp i t (m\<lparr>m_Cards := a, m_Warnings := b\<rparr>)"
    for m a b by (simp add: stamp_def)
  have 4: "(stamp i t m)\<lparr>m_TokensUsed := a, m_Warnings := b\<rparr> = stamp i t (m\<lparr>m_TokensUsed := a, m_Warnings := b\<rparr>)"
    for m a b by (simp add: stamp_def)
  have 5: "(stamp i t m)\<lparr>m_ManifestHash := a\<rparr> = stamp i t (m\<lparr>m_ManifestHash := a\<rparr>)" for m a
    by (simp add: stamp_def)
  show ?thesis
    unfolding compileTiers_def Let_def case_prod_unfold
    by (simp only: stamp_fields 1 2 3 4 5 accountMultiRef_stamp compileRetrieved_stamp ManifestDigest_stamp fst_conv snd_conv)
qed

lemma startManifest_stamp: "startManifest i t req = stamp i t (startManifest i' t' req)"
  by (simp add: startManifest_def stamp_def)


section \<open>Properties\<close>

lemma renderAncestor_fields [simp]:
  "ae_node (renderAncestor c n) = n" "ae_pinned (renderAncestor c n) = isPinned (n_Metadata n)"
  "mi_Pinned (ae_item (renderAncestor c n)) = False" "mi_ID (ae_item (renderAncestor c n)) = n_ID n"
  "mi_TokenCount (ae_item (renderAncestor c n)) = cc_est c (ae_text (renderAncestor c n))"
  by (simp_all add: renderAncestor_def Let_def)

lemma keptItem_fields [simp]:
  "mi_ID (keptItem e) = mi_ID (ae_item e)" "mi_TokenCount (keptItem e) = mi_TokenCount (ae_item e)"
  "mi_Pinned (keptItem e) = (ae_pinned e \<or> mi_Pinned (ae_item e))"
  by (simp_all add: keptItem_def)

lemma finalKept_pinned:
  "filter ae_pinned (finalKept c req chain) = filter ae_pinned (entriesOf c req chain)"
proof (cases "keptEntries c (req_TokenBudget req) False (entriesOf c req chain) = []")
  case True
  with pinned_kept [of c "req_TokenBudget req" False "entriesOf c req chain"]
  have "filter ae_pinned (entriesOf c req chain) = []" by simp
  with True show ?thesis by (auto simp: finalKept_def Let_def filter_empty_conv dest: in_set_takeD)
qed (simp add: finalKept_def Let_def pinned_kept)

lemma finalKept_entries: "e \<in> set (finalKept c req chain) \<Longrightarrow> \<exists>n \<in> set chain. e = renderAncestor c n"
  using kept_subseq [of c "req_TokenBudget req" False "entriesOf c req chain"]
  by (auto simp: finalKept_def Let_def entriesOf_def split: if_splits dest!: in_set_takeD) 



text \<open>
  the token budget without pins. When no node is pinned and the newest node fits, the
  payload keeps the newest nodes of the chain in order, and the tokens accounted for them,
  for the digest, the topic references, the retrieved tier and the cards together stay
  within the budget of the request.
\<close>

lemma compile_within_budget:
  assumes "Compile c requestID now req = Inr (content, m)" and "cc_GetAncestors c (req_NodeID req) = Inr (n # chain)"
    and est: "token_estimator (cc_est c)" and unpinned: "\<forall>x \<in> set (n # chain). \<not> isPinned (n_Metadata x)"
    and fits: "cc_est c (ae_text (renderAncestor c n)) \<le> req_TokenBudget req"
    and single: "req_MultiReference req = None"
  shows "map mi_ID (m_Ancestry m) = map n_ID (take (length (m_Ancestry m)) (n # chain)) \<and>
    sumTokens (m_Ancestry m) + m_SummaryTokenCount m + sumTokens (m_References m) + sumTokens (m_Retrieved m)
      + sumTokens (m_Cards m) \<le> req_TokenBudget req"
proof -
  from Compile_Inr [OF assms(1)] assms(2) obtain multiRef cur m1 texts r1 where
    b: "1 \<le> req_TokenBudget req" and a: "compileAncestry c req (n # chain) (startManifest requestID now req) = (m1, texts, r1)"
    and t: "compileTiers c req multiRef cur m1 texts r1 = (content, m)"
    and mr: "compileMultiReference (cc_ustr c) (req_MultiReference req) = Inr multiRef" by auto
  from mr single have "multiRef = None" by (simp add: compileMultiReference_def)
  define es where "es = entriesOf c req (n # chain)"
  have np: "\<forall>e \<in> set es. \<not> ae_pinned e" using unpinned set_take_subset [of "maxDepth req" "n # chain"] unfolding es_def entriesOf_def by auto
  have ne: "es = renderAncestor c n # tl es" by (simp add: es_def entriesOf_def maxDepth_def take_Cons' nat_eq_iff)
  then have "keptEntries c (req_TokenBudget req) False es \<noteq> []"
    using fits by (metis kept_Cons(1) list.discI)
  then have fk: "finalKept c req (n # chain) = keptEntries c (req_TokenBudget req) False es"
    by (simp add: finalKept_def es_def)
  have ws: "walkSpent c req (n # chain) \<le> req_TokenBudget req"
    using kept_within_budget [OF np] b by (simp add: walkSpent_def es_def)
  note sa = compileAncestry_spec [OF a freshManifest_start]
  note st = compileTiers_spec [OF t est]
  have anc: "m_Ancestry m = map keptItem (finalKept c req (n # chain))" using sa st b by auto
  have "mi_TokenCount (keptItem e) = cc_est c (ae_text e)" if "e \<in> set (finalKept c req (n # chain))" for e
    using finalKept_entries [OF that] by auto
  then have "sumTokens (m_Ancestry m) = walkSpent c req (n # chain)"
    unfolding sumTokens_def anc walkSpent_def es_def [symmetric] fk [symmetric] map_map
    by (intro arg_cong [of _ _ sum_list] map_cong) auto
  moreover have "m_Cards m1 = []" using compileAncestry_Cards [OF a] by (simp add: startManifest_def)
  ultimately have sums: "sumTokens (m_Ancestry m) + m_SummaryTokenCount m + sumTokens (m_References m)
      + sumTokens (m_Retrieved m) + sumTokens (m_Cards m) \<le> req_TokenBudget req"
    using sa st b ws \<open>multiRef = None\<close> by auto
  have "finalKept c req (n # chain) = take (length (finalKept c req (n # chain))) es"
    using kept_prefix [OF np, of c "req_TokenBudget req" False] fk by (metis append_eq_conv_conj)
  moreover have "map (mi_ID \<circ> keptItem) es = map n_ID (take (maxDepth req) (n # chain))"
    by (simp add: es_def entriesOf_def)
  ultimately have "map mi_ID (m_Ancestry m) = take (length (m_Ancestry m)) (map n_ID (take (maxDepth req) (n # chain)))"
    by (metis anc length_map map_map take_map)
  moreover have "length (m_Ancestry m) \<le> length (take (maxDepth req) (n # chain))"
  proof -
    have "length es = length (take (maxDepth req) (n # chain))" by (simp add: es_def entriesOf_def)
    moreover have "length (keptEntries c (req_TokenBudget req) False es) \<le> length es"
      using kept_plus_dropped [of c "req_TokenBudget req" False es] by linarith
    ultimately show ?thesis by (simp add: anc fk)
  qed
  ultimately show ?thesis using sums by (simp add: take_map)
qed


text \<open>
  the folded tiers are bounded and disjoint. Topic references are distinct and at most
  the hard cap, retrieved topics are distinct, in descending order of relevance, never repeat
  a reference and take at most twelve percent of the token budget.
\<close>

lemma compile_tiers_bounded:
  assumes "Compile c requestID now req = Inr (content, m)" and "token_estimator (cc_est c)"
    and "req_MultiReference req = None"
  shows "distinct (map mi_ID (m_References m)) \<and> int (length (m_References m)) \<le> refHardCap c \<and>
    distinct (map mi_ID (m_Retrieved m)) \<and>
    set (map mi_ID (m_Retrieved m)) \<inter> set (map mi_ID (m_References m)) = {} \<and>
    sorted_wrt (\<ge>) (map mi_Relevance (m_Retrieved m)) \<and>
    sumTokens (m_Retrieved m) \<le> req_TokenBudget req * 12 div 100"
proof -
  from Compile_Inr [OF assms(1)] obtain multiRef cur m1 texts r1 where
    b: "1 \<le> req_TokenBudget req" and t: "compileTiers c req multiRef cur m1 texts r1 = (content, m)"
    and mr: "compileMultiReference (cc_ustr c) (req_MultiReference req) = Inr multiRef" by auto
  from mr assms(3) have "multiRef = None" by (simp add: compileMultiReference_def)
  with compileTiers_spec [OF t assms(2)] b show ?thesis by auto
qed

text \<open>
  the digest identifies the content. Compiling the same request again under another
  request identifier and at another time gives the same payload and the same manifest up to
  these two fields, in particular the same manifest hash, and the hash of a returned manifest
  is the digest recomputed from it.
\<close>

lemma compile_digest_stable:
  assumes "Compile c requestID now req = Inr (content, m)" and "token_estimator (cc_est c)"
  shows "Compile c requestID' now' req = Inr (content, m\<lparr>m_RequestID := requestID', m_CompiledAt := now'\<rparr>) \<and>
    ManifestDigest c (m\<lparr>m_RequestID := requestID', m_CompiledAt := now'\<rparr>) = m_ManifestHash m"
proof -
  from Compile_Inr [OF assms(1)] obtain multiRef cur chain m1 texts r1 where
    b: "1 \<le> req_TokenBudget req" and mr: "compileMultiReference (cc_ustr c) (req_MultiReference req) = Inr multiRef"
    and n: "cc_GetByID c (req_NodeID req) = Inr cur" and ch: "cc_GetAncestors c (req_NodeID req) = Inr chain"
    and a: "compileAncestry c req chain (startManifest requestID now req) = (m1, texts, r1)"
    and t: "compileTiers c req multiRef cur m1 texts r1 = (content, m)" by auto
  have "compileAncestry c req chain (startManifest requestID' now' req) = (stamp requestID' now' m1, texts, r1)"
    using compileAncestry_stamp [of c req chain requestID' now' "startManifest requestID now req"] a
    by (simp add: startManifest_stamp [of requestID' now' req requestID now, symmetric])
  moreover have "compileTiers c req multiRef cur (stamp requestID' now' m1) texts r1 = (content, stamp requestID' now' m)"
    using compileTiers_stamp [of c req multiRef cur requestID' now' m1 texts r1] t by simp
  ultimately have "Compile c requestID' now' req = Inr (content, stamp requestID' now' m)"
    using b mr n ch by (simp add: Compile_def)
  moreover have "m_ManifestHash m = ManifestDigest c m"
    using compileTiers_spec [OF t assms(2)] b by auto
  ultimately show ?thesis
    using ManifestDigest_stamp [of c requestID' now' m] by (simp add: stamp_def)
qed

section \<open>Card references\<close>

definition publicKeys :: "raw_message \<Rightarrow> bool" where
  "publicKeys r = (case r of RawJSON (JObj members) \<Rightarrow> \<forall>k \<in> fst ` set members. \<not> starts_with CardRefPrivateKeyPrefix k | _ \<Rightarrow> True)"

lemma selectCardRefData_public: "publicKeys (selectCardRefData d)"
  by (auto simp: publicKeys_def selectCardRefData_def split: json.splits)

lemma selectCardRefPayload_public: "publicKeys (selectCardRefPayload p)"
proof (cases p)
  case (RawJSON v)
  then show ?thesis by (simp add: selectCardRefPayload_def selectCardRefData_public)
qed (simp_all add: selectCardRefPayload_def publicKeys_def)

text \<open>
  C6: private data stays out of the envelope. However the card reads, the envelope of a
  reference carries no top-level data or payload key with the private prefix, at most twenty
  events and the identifier of the reference; its status and type are the card's own, and it
  has the missing status and no data when the reader has no such card.
\<close>

theorem card_envelope_public:
  assumes "ResolveCardReference ustr reader ref = (env, warnings)"
  shows "publicKeys (env_Data env) \<and> (\<forall>ev \<in> set (env_Events env). publicKeys (ev_Payload ev)) \<and>
    length (env_Events env) \<le> 20 \<and> env_ID env = cr_CardID ref \<and>
    (case GetCard reader (cr_CardID ref) of
       Inr (Some summary) \<Rightarrow> env_Status env = cs_Status summary \<and> env_CardType env = cs_Type summary
     | _ \<Rightarrow> env_Status env = CardRefStatusMissing \<and> env_Events env = [] \<and> env_Data env = RawNil)"
proof -
  have ev: "length (fst (loadCardRefEvents ustr reader s)) \<le> 20 \<and>
      (\<forall>e \<in> set (fst (loadCardRefEvents ustr reader s)). publicKeys (ev_Payload e))" for s
    by (auto simp: loadCardRefEvents_def Let_def selectCardRefPayload_public split: sum.split)
  show ?thesis
  proof (cases "GetCard reader (cr_CardID ref)")
    case (Inl e)
    with assms show ?thesis
      by (cases e) (auto simp: ResolveCardReference_def Let_def publicKeys_def)
  next
    case (Inr s)
    show ?thesis
    proof (cases s)
      case None
      with Inr assms show ?thesis by (auto simp: ResolveCardReference_def Let_def publicKeys_def)
    next
      case (Some summary)
      obtain evs ws where l: "loadCardRefEvents ustr reader summary = (evs, ws)" by fastforce
      from Some Inr assms l have "env = \<lparr>env_ID = cr_CardID ref, env_URI = cr_URI ref, env_CardType = cs_Type summary,
          env_DeclaredType = cr_CardType ref, env_AppID = cs_AppID summary, env_Status = cs_Status summary,
          env_Revision = cs_Revision summary, env_ContextHash = cs_ContextHash summary,
          env_Data = selectCardRefData (cs_Data summary), env_Events = evs\<rparr>"
        by (simp add: ResolveCardReference_def Let_def)
      with Some Inr ev [of summary] l show ?thesis by (simp add: selectCardRefData_public)
    qed
  qed
qed

lemma cardRefBlockClose_Cons: "cardRefBlockClose = CHR ''<'' # CHR ''/'' # ''canopy_card''"
  by (simp add: cardRefBlockClose_def)

text \<open>
  card content cannot terminate its block. For every envelope, whatever its fields and
  its JSON rendering contain, the terminator occurs in the rendered block only at its end.
\<close>

lemma card_block_terminator_only_at_end:
  assumes "fst (renderCardReferenceBlock c env) = a @ cardRefBlockClose @ b"
  shows "b = ''>''"
proof -
  obtain body where body: "fst (renderCardReferenceBlock c env) = fst (escapeCardRefTerminator body) @ nl # cardRefBlockClose @ ''>''"
    unfolding renderCardReferenceBlock_def Let_def case_prod_unfold fst_conv by (metis append_Cons append_Nil)
  have "\<not> contains cardRefBlockClose (fst (escapeCardRefTerminator body))"
    using replace_all_removes [of "CHR ''<''" "CHR ''/''" "''canopy_card''" "CHR 0x5C" "''/canopy_card''" body]
    by (simp add: escapeCardRefTerminator_def cardRefBlockTerminatorEscaped_def cardRefBlockClose_Cons)
  from terminator_at_end [OF cardRefBlockClose_Cons _ _ _ this, of "CHR ''>''" nl a b] assms body
  show ?thesis by (simp add: cardRefBlockClose_Cons)
qed


section \<open>Witnesses\<close>

definition demoNode :: "uuid \<Rightarrow> string \<Rightarrow> raw_message \<Rightarrow> node" where
  "demoNode i content metadata = \<lparr>n_ID = i, n_TreeID = 9, n_ParentID = None, n_ParentMode = ''lineage'', n_AuthorID = 2,
     n_Content = content, n_ContentFormat = ''plain'', n_NodeType = ''message'', n_SequenceNum = 1,
     n_Metadata = metadata, n_CreatedAt = 0, n_EditedAt = None, n_DeletedAt = None\<rparr>"

definition demoCompiler :: "node list \<Rightarrow> compiler" where
  "demoCompiler chain = \<lparr>cc_GetByID = (\<lambda>i. Inr (demoNode i [] RawNil)), cc_GetAncestors = (\<lambda>i. Inr chain),
     cc_GetTopicsForNode = (\<lambda>i. Inr []), cc_GetResolvedTopicsForNode = (\<lambda>i. Inr []),
     cc_GetByContextHash = (\<lambda>h. Inr []), cc_est = charTokenEstimator_Estimate, cc_maxRefs = 5,
     cc_retrieval = None, cc_retrievalMax = 0, cc_cardRefs = None, cc_ustr = demoUuid, cc_uparse = (\<lambda>s. None),
     cc_uversion = (\<lambda>u. 7), cc_sha256hex = (\<lambda>s. s), cc_marshalManifest = (\<lambda>m. m_RequestID m),
     cc_marshalEnvelope = (\<lambda>e. env_URI e)\<rparr>"

definition demoRequest :: "int \<Rightarrow> compile_request" where
  "demoRequest budget = \<lparr>req_TreeID = 9, req_NodeID = 3, req_TokenBudget = budget, req_MaxAncestors = 0,
     req_IncludeCards = True, req_ResolveRefs = True, req_MultiReference = None\<rparr>"

definition demoChain :: "node list" where
  "demoChain = [demoNode 3 ''b'' RawNil, demoNode 1 ''a'' RawNil]"

definition pinnedChain :: "node list" where
  "pinnedChain = [demoNode 3 ''b'' RawNil, demoNode 1 ''a'' (RawJSON (JObj [(''pinned'', JBool True)]))]"

lemma demo_est: "token_estimator (cc_est (demoCompiler chain))"
  by (simp add: demoCompiler_def char_est.token_estimator_axioms)

lemma demo_chain: "cc_GetAncestors (demoCompiler chain) i = Inr chain"
  by (simp add: demoCompiler_def)

lemma demo_compiles: "1 \<le> budget \<Longrightarrow> \<exists>content m. Compile (demoCompiler chain) rid now (demoRequest budget) = Inr (content, m)"
  by (auto simp: Compile_def demoRequest_def compileMultiReference_def demoCompiler_def split: prod.split)



lemma demo_newest_cost:
  "cc_est (demoCompiler demoChain) (ae_text (renderAncestor (demoCompiler demoChain) (demoNode 3 ''b'' RawNil))) = 5"
  by code_simp

theorem compile_within_budget_witness:
  "\<exists>content m. Compile (demoCompiler demoChain) ''r'' 0 (demoRequest 7) = Inr (content, m) \<and>
     sumTokens (m_Ancestry m) + m_SummaryTokenCount m + sumTokens (m_References m) + sumTokens (m_Retrieved m)
      + sumTokens (m_Cards m) \<le> 7"
proof -
  obtain content m where r: "Compile (demoCompiler demoChain) ''r'' 0 (demoRequest 7) = Inr (content, m)"
    using demo_compiles by fastforce
  have ch: "cc_GetAncestors (demoCompiler demoChain) (req_NodeID (demoRequest 7)) =
      Inr (demoNode 3 ''b'' RawNil # [demoNode 1 ''a'' RawNil])"
    by (simp add: demo_chain demoChain_def)
  have "\<forall>x \<in> set (demoNode 3 ''b'' RawNil # [demoNode 1 ''a'' RawNil]). \<not> isPinned (n_Metadata x)"
    by (simp add: demoNode_def isPinned_def)
  moreover have "req_TokenBudget (demoRequest 7) = 7" "req_MultiReference (demoRequest 7) = None"
    by (simp_all add: demoRequest_def)
  ultimately show ?thesis
    using compile_within_budget [OF r ch demo_est] demo_newest_cost r by auto
qed

theorem compile_tiers_bounded_witness:
  "\<exists>content m. Compile (demoCompiler demoChain) ''r'' 0 (demoRequest 7) = Inr (content, m) \<and>
     distinct (map mi_ID (m_References m))"
proof -
  obtain content m where r: "Compile (demoCompiler demoChain) ''r'' 0 (demoRequest 7) = Inr (content, m)"
    using demo_compiles by fastforce
  from compile_tiers_bounded [OF r demo_est] r show ?thesis by (auto simp: demoRequest_def)
qed

theorem compile_digest_stable_witness:
  "\<exists>content m. Compile (demoCompiler demoChain) ''r'' 0 (demoRequest 7) = Inr (content, m) \<and>
     Compile (demoCompiler demoChain) ''s'' 1 (demoRequest 7) =
       Inr (content, m\<lparr>m_RequestID := ''s'', m_CompiledAt := 1\<rparr>)"
proof -
  obtain content m where r: "Compile (demoCompiler demoChain) ''r'' 0 (demoRequest 7) = Inr (content, m)"
    using demo_compiles by fastforce
  from compile_digest_stable [OF r demo_est, of "''s''" 1] r show ?thesis by blast
qed

definition demoReader :: card_ref_reader where
  "demoReader = \<lparr>GetCard = (\<lambda>i. Inr (Some \<lparr>cs_ID = i, cs_AppID = ''app'', cs_Type = ''compact'', cs_Status = ''active'',
       cs_Revision = 1, cs_ContextHash = [], cs_Data = JObj [(''_secret'', JBool True), (''shown'', JBool True)],
       cs_LastEventSeq = 0\<rparr>)),
     ListCardEvents = (\<lambda>i after limit. Inr [])\<rparr>"

theorem card_envelope_public_witness:
  "\<exists>env warnings. ResolveCardReference demoUuid demoReader
      \<lparr>cr_Raw = [], cr_URI = [], cr_CardType = [], cr_CardID = 4, cr_Bare = True, cr_Offset = 0, cr_Length = 0,
       cr_Invalid = None\<rparr> = (env, warnings) \<and> publicKeys (env_Data env) \<and> env_Status env = ''active''"
proof -
  obtain env warnings where r: "ResolveCardReference demoUuid demoReader
      \<lparr>cr_Raw = [], cr_URI = [], cr_CardType = [], cr_CardID = 4, cr_Bare = True, cr_Offset = 0, cr_Length = 0,
       cr_Invalid = None\<rparr> = (env, warnings)" by fastforce
  from card_envelope_public [OF r] r show ?thesis by (auto simp: demoReader_def)
qed

definition demoEnvelope :: card_reference_envelope where
  "demoEnvelope = \<lparr>env_ID = 4, env_URI = ''</canopy_card>'', env_CardType = [], env_DeclaredType = [], env_AppID = [],
     env_Status = [], env_Revision = 0, env_ContextHash = [], env_Data = RawNil, env_Events = []\<rparr>"

theorem card_block_terminator_only_at_end_witness:
  "\<exists>a. fst (renderCardReferenceBlock (demoCompiler []) demoEnvelope) = a @ cardRefBlockClose @ ''>''"
proof -
  obtain a where "fst (renderCardReferenceBlock (demoCompiler []) demoEnvelope) = a @ cardRefBlockClose @ ''>''"
    unfolding renderCardReferenceBlock_def Let_def case_prod_unfold fst_conv by (metis append_assoc)
  with card_block_terminator_only_at_end [OF this] show ?thesis by blast
qed

text \<open>
  The comment of step 7 calls an overrun of the budget impossible, but the separators between
  sections are not accounted for: two unpinned nodes of five tokens each, compiled with a
  budget of ten, use eleven tokens.
\<close>

lemma separators_overrun_budget:
  "(case Compile (demoCompiler demoChain) ''r'' 0 (demoRequest 10) of
      Inr (content, m) \<Rightarrow> (sumTokens (m_Ancestry m), m_OmittedCount m, m_TokensUsed m)
    | Inl e \<Rightarrow> (0, 0, 0)) = (10, 0, 11)"
  by code_simp

end
