(* ===== verification/Federation_Clock.thy ===== *)
theory Federation_Clock
  imports Canopy_Models
begin

text \<open>
  Vector clocks and conflict resolution of federated trees (\<open>internal/federation/clock.go\<close>,
  \<open>conflict.go\<close>). A clock is a map from peers to counters. The conflict store is the three
  tables it reads and writes, as association lists; a statement that fails in the database is
  outside the model, every check the code itself makes is a branch. The theorems show that
  comparison decides causal order, that merging is the least upper bound, and when replicas
  that receive the same mutations in different orders agree.
\<close>

section \<open>Vector clocks\<close>

datatype clock_comparison = Before | After | Equal | Concurrent

type_synonym vector_clock = "(string, int) gomap"

definition Increment :: "string \<Rightarrow> vector_clock \<Rightarrow> vector_clock" where
  "Increment peerID c = map_put peerID (wrap64 (map_get 0 c peerID + 1)) c"

definition Merge :: "vector_clock \<Rightarrow> vector_clock \<Rightarrow> vector_clock" where
  "Merge c other =
     fold (\<lambda>(peer, counter) merged. if counter > map_get 0 merged peer then map_put peer counter merged else merged)
       other (fold (\<lambda>(peer, counter) merged. map_put peer counter merged) c [])"

definition Compare :: "vector_clock \<Rightarrow> vector_clock \<Rightarrow> clock_comparison" where
  "Compare c other =
     (let lessC = list_ex (\<lambda>(peer, counter). counter < map_get 0 other peer) c;
          greaterC = list_ex (\<lambda>(peer, counter). \<not> counter < map_get 0 other peer \<and> counter > map_get 0 other peer) c;
          lessO = list_ex (\<lambda>(peer, counter). \<not> map_has c peer \<and> counter > 0) other;
          lt = lessC \<or> lessO; gt = greaterC
      in if lt \<and> gt then Concurrent else if lt then Before else if gt then After else Equal)"

section \<open>The conflict store\<close>

datatype federation_error =
    ErrFederationNotFound | ErrTokenInvalid | ErrTokenExpired | ErrLinkAlreadyExists | ErrLinkRevoked
  | ErrInvalidInput | ErrSignatureMismatch | ErrDecryptionFailed | ErrNoSharedSecret
  | ErrPeerOffline federation_error | ErrRateLimited | ErrConflictNotFound | ErrRouteNotFound
  | ErrDelivery string | ErrDuplicateKey

record mutation_snapshot =
  ms_NodeID :: uuid
  ms_Payload :: raw_message
  ms_Clock :: vector_clock
  ms_Lamport :: int
  ms_PeerID :: uuid

record node_clock_row =
  ncr_clock :: vector_clock
  ncr_payload :: raw_message
  ncr_lamport :: int
  ncr_peer :: uuid

record node_row =
  nr_content :: string
  nr_content_format :: string
  nr_metadata :: json

record conflict =
  cf_ID :: uuid
  cf_TreeID :: uuid
  cf_NodeID :: uuid
  cf_LeftPayload :: raw_message
  cf_RightPayload :: raw_message
  cf_DetectedAt :: instant
  cf_ResolutionState :: string
  cf_Resolution :: "string option"
  cf_ResolvedAt :: "instant option"

record conflict_db =
  db_clocks :: "(uuid \<times> uuid, node_clock_row) gomap"
  db_nodes :: "(uuid \<times> uuid, node_row) gomap"
  db_conflicts :: "conflict list"

text \<open>An envelope and its decrypted payload.\<close>

record ftl_envelope =
  fe_FTLVersion :: int
  fe_SenderServerID :: uuid
  fe_SenderProfileID :: uuid
  fe_Sequence :: int
  fe_Clock :: vector_clock
  fe_Timestamp :: instant
  fe_TreeID :: uuid
  fe_Ciphertext :: string
  fe_Nonce :: string
  fe_Signature :: string
  fe_SigningKeyFP :: string
  fe_PeerID :: uuid

record ftl_inner_payload =
  fi_EventType :: string
  fi_Payload :: raw_message
  fi_RefEventID :: string

definition assignHeader :: "(string \<Rightarrow> uuid option) \<Rightarrow> string \<Rightarrow> json \<Rightarrow> uuid \<times> int \<Rightarrow> (uuid \<times> int) option" where
  "assignHeader uparse key v header =
     (if key = ''node_id'' then
        (case v of JNull \<Rightarrow> Some header
         | JStr s \<Rightarrow> (case uparse s of None \<Rightarrow> None | Some u \<Rightarrow> Some (u, snd header)) | _ \<Rightarrow> None)
      else if key = ''lamport'' then
        (case v of JNull \<Rightarrow> Some header
         | _ \<Rightarrow> (case json_int64 v of None \<Rightarrow> None | Some n \<Rightarrow> Some (fst header, n)))
      else Some header)"

definition decodeMutation ::
    "(string \<Rightarrow> uuid option) \<Rightarrow> ftl_inner_payload \<Rightarrow> ftl_envelope \<Rightarrow> mutation_snapshot option" where
  "decodeMutation uparse inner envelope =
     (if fi_EventType inner \<noteq> ''node_updated'' \<and> fi_EventType inner \<noteq> ''remote_node_updated'' then None
      else case decode_struct (assignHeader uparse) (fi_Payload inner) (uuid_Nil, 0) of
        None \<Rightarrow> None
      | Some (nodeID, lamport) \<Rightarrow>
        if nodeID = uuid_Nil then None
        else Some \<lparr>ms_NodeID = nodeID, ms_Payload = fi_Payload inner, ms_Clock = fe_Clock envelope,
                   ms_Lamport = (if lamport = 0 then fe_Sequence envelope else lamport),
                   ms_PeerID = (if fe_SenderServerID envelope = uuid_Nil then fe_PeerID envelope
                                else fe_SenderServerID envelope)\<rparr>)"

text \<open>\<open>applyNodePayload\<close>: the present fields of the payload replace the columns.\<close>

record payload_fields =
  pf_Content :: "string option"
  pf_ContentFormat :: "string option"
  pf_Metadata :: "json option"

definition assignFields :: "string \<Rightarrow> json \<Rightarrow> payload_fields \<Rightarrow> payload_fields option" where
  "assignFields key v f =
     (if key = ''content'' then
        (case v of JNull \<Rightarrow> Some (f\<lparr>pf_Content := None\<rparr>) | JStr s \<Rightarrow> Some (f\<lparr>pf_Content := Some s\<rparr>) | _ \<Rightarrow> None)
      else if key = ''content_format'' then
        (case v of JNull \<Rightarrow> Some (f\<lparr>pf_ContentFormat := None\<rparr>) | JStr s \<Rightarrow> Some (f\<lparr>pf_ContentFormat := Some s\<rparr>) | _ \<Rightarrow> None)
      else if key = ''metadata'' then Some (f\<lparr>pf_Metadata := (if v = JNull then None else Some v)\<rparr>)
      else Some f)"

definition coalesce :: "'a option \<Rightarrow> 'a \<Rightarrow> 'a" where
  "coalesce x d = (case x of None \<Rightarrow> d | Some v \<Rightarrow> v)"

definition applyNodePayload :: "uuid \<Rightarrow> uuid \<Rightarrow> raw_message \<Rightarrow> conflict_db \<Rightarrow> federation_error + conflict_db" where
  "applyNodePayload treeID nodeID payload db =
     (case decode_struct assignFields payload \<lparr>pf_Content = None, pf_ContentFormat = None, pf_Metadata = None\<rparr> of
        None \<Rightarrow> Inl ErrInvalidInput
      | Some f \<Rightarrow>
        (case map_of (db_nodes db) (treeID, nodeID) of
           None \<Rightarrow> Inl ErrInvalidInput
         | Some row \<Rightarrow>
           Inr (db\<lparr>db_nodes := map_put (treeID, nodeID)
                 \<lparr>nr_content = coalesce (pf_Content f) (nr_content row),
                  nr_content_format = coalesce (pf_ContentFormat f) (nr_content_format row),
                  nr_metadata = coalesce (pf_Metadata f) (nr_metadata row)\<rparr> (db_nodes db)\<rparr>)))"

text \<open>
  The tie-break of concurrent mutations: the stored winner stays when its Lamport time is
  later, or equal and its peer prints as the larger string.
\<close>

definition keepsCurrent :: "(uuid \<Rightarrow> string) \<Rightarrow> node_clock_row \<Rightarrow> mutation_snapshot \<Rightarrow> bool" where
  "keepsCurrent ustr row incoming \<longleftrightarrow>
     ncr_lamport row > ms_Lamport incoming \<or>
     ncr_lamport row = ms_Lamport incoming \<and> ustr (ncr_peer row) > ustr (ms_PeerID incoming)"

text \<open>\<open>fresh\<close> and \<open>now\<close> are the identifier and the time the database gives a recorded conflict.\<close>

definition conflict_apply ::
    "(uuid \<Rightarrow> string) \<Rightarrow> uuid \<Rightarrow> instant \<Rightarrow> uuid \<Rightarrow> mutation_snapshot \<Rightarrow> conflict_db \<Rightarrow> federation_error + conflict_db" where
  "conflict_apply ustr fresh now treeID incoming db =
     (let key = (treeID, ms_NodeID incoming) in
      case map_of (db_clocks db) key of
        None \<Rightarrow>
          (case applyNodePayload treeID (ms_NodeID incoming) (ms_Payload incoming) db of
             Inl e \<Rightarrow> Inl e
           | Inr db' \<Rightarrow>
             Inr (db'\<lparr>db_clocks := map_put key
                    \<lparr>ncr_clock = ms_Clock incoming, ncr_payload = ms_Payload incoming,
                     ncr_lamport = ms_Lamport incoming, ncr_peer = ms_PeerID incoming\<rparr> (db_clocks db')\<rparr>))
      | Some row \<Rightarrow>
        (let relation = Compare (ncr_clock row) (ms_Clock incoming) in
         if relation = Equal \<or> relation = After then Inr db
         else
           (let merged = Merge (ncr_clock row) (ms_Clock incoming);
                db1 = (if relation = Concurrent
                       then db\<lparr>db_conflicts := db_conflicts db @
                              [\<lparr>cf_ID = fresh, cf_TreeID = treeID, cf_NodeID = ms_NodeID incoming,
                                cf_LeftPayload = ncr_payload row, cf_RightPayload = ms_Payload incoming,
                                cf_DetectedAt = now, cf_ResolutionState = ''unresolved'', cf_Resolution = None,
                                cf_ResolvedAt = None\<rparr>]\<rparr>
                       else db);
                (winnerPayload, winnerLamport, winnerPeer) =
                  (if relation = Concurrent \<and> keepsCurrent ustr row incoming
                   then (ncr_payload row, ncr_lamport row, ncr_peer row)
                   else (ms_Payload incoming, ms_Lamport incoming, ms_PeerID incoming))
            in case applyNodePayload treeID (ms_NodeID incoming) winnerPayload db1 of
                 Inl e \<Rightarrow> Inl e
               | Inr db2 \<Rightarrow>
                 Inr (db2\<lparr>db_clocks := map_put key
                        \<lparr>ncr_clock = merged, ncr_payload = winnerPayload, ncr_lamport = winnerLamport,
                         ncr_peer = winnerPeer\<rparr> (db_clocks db2)\<rparr>))))"

definition conflict_resolve :: "instant \<Rightarrow> uuid \<Rightarrow> string \<Rightarrow> conflict_db \<Rightarrow> federation_error + conflict \<times> conflict_db" where
  "conflict_resolve now i resolution db =
     (if resolution \<noteq> ''left'' \<and> resolution \<noteq> ''right'' then Inl ErrInvalidInput
      else case find (\<lambda>c. cf_ID c = i) (db_conflicts db) of
        None \<Rightarrow> Inl ErrConflictNotFound
      | Some c \<Rightarrow>
        if cf_ResolvedAt c \<noteq> None then Inr (c, db)
        else
          (let payload = (if resolution = ''right'' then cf_RightPayload c else cf_LeftPayload c);
               key = (cf_TreeID c, cf_NodeID c)
           in case applyNodePayload (cf_TreeID c) (cf_NodeID c) payload db of
                Inl e \<Rightarrow> Inl e
              | Inr db1 \<Rightarrow>
                (let db2 = (case map_of (db_clocks db1) key of None \<Rightarrow> db1
                            | Some row \<Rightarrow> db1\<lparr>db_clocks := map_put key (row\<lparr>ncr_payload := payload\<rparr>) (db_clocks db1)\<rparr>);
                     c' = c\<lparr>cf_ResolutionState := ''resolved'', cf_Resolution := Some resolution, cf_ResolvedAt := Some now\<rparr>
                 in Inr (c', db2\<lparr>db_conflicts := map (\<lambda>x. if cf_ID x = i then c' else x) (db_conflicts db2)\<rparr>))))"

definition conflict_list :: "uuid option \<Rightarrow> bool \<Rightarrow> conflict_db \<Rightarrow> conflict list" where
  "conflict_list treeID unresolved db =
     sort_stable (\<lambda>x y. cf_DetectedAt x > cf_DetectedAt y \<or> cf_DetectedAt x = cf_DetectedAt y \<and> cf_ID x < cf_ID y)
       (filter (\<lambda>c. (treeID = None \<or> treeID = Some (cf_TreeID c)) \<and> (\<not> unresolved \<or> cf_ResolutionState c = ''unresolved''))
         (db_conflicts db))"


section \<open>Causal order\<close>

text \<open>A clock as the server keeps it: one entry per peer, counters not negative.\<close>

definition clock_ok :: "vector_clock \<Rightarrow> bool" where
  "clock_ok c \<longleftrightarrow> map_ok c \<and> (\<forall>(p, n) \<in> set c. 0 \<le> n)"

definition clock_le :: "vector_clock \<Rightarrow> vector_clock \<Rightarrow> bool" where
  "clock_le c d \<longleftrightarrow> (\<forall>p. map_get 0 c p \<le> map_get 0 d p)"

lemma clock_get_entry: "clock_ok c \<Longrightarrow> (p, n) \<in> set c \<Longrightarrow> map_get 0 c p = n"
  by (simp add: clock_ok_def map_get_def)

lemma clock_get_absent: "\<not> map_has (c :: vector_clock) p \<Longrightarrow> map_get 0 c p = 0"
  by (simp add: map_has_def map_get_def)

lemma clock_get_nonneg: "clock_ok c \<Longrightarrow> 0 \<le> map_get 0 c p"
  by (cases "map_of c p") (auto simp: clock_ok_def map_get_def dest: map_of_SomeD)

lemma clock_has_entry: "map_has c p \<Longrightarrow> \<exists>n. (p, n) \<in> set c"
  by (auto simp: map_has_def dest: map_of_SomeD)

lemma fold_put_get:
  fixes c m :: vector_clock
  shows "map_ok c \<Longrightarrow> map_get 0 (fold (\<lambda>(p, n) m. map_put p n m) c m) q =
     (case map_of c q of None \<Rightarrow> map_get 0 m q | Some n \<Rightarrow> n)"
proof (induction c arbitrary: m)
  case (Cons x c)
  obtain p n where x: "x = (p, n)" by (cases x)
  with Cons have "map_of c p = None" by (auto simp: map_of_eq_None_iff)
  with x Cons show ?case by (auto split: option.split)
qed simp

lemma fold_max_get:
  fixes c m :: vector_clock
  shows "map_ok c \<Longrightarrow> map_get 0 (fold (\<lambda>(p, n) m. if n > map_get 0 m p then map_put p n m else m) c m) q =
     (case map_of c q of None \<Rightarrow> map_get 0 m q | Some n \<Rightarrow> max n (map_get 0 m q))"
proof (induction c arbitrary: m)
  case (Cons x c)
  obtain p n where x: "x = (p, n)" by (cases x)
  with Cons have "map_of c p = None" by (auto simp: map_of_eq_None_iff)
  with x Cons show ?case
    by (cases "q = p"; cases "n > map_get 0 m p") (auto simp: max_absorb1 max_absorb2 split: option.split)
qed simp

lemma Merge_get:
  assumes "clock_ok c" and "clock_ok d"
  shows "map_get 0 (Merge c d) p = max (map_get 0 c p) (map_get 0 d p)"
proof -
  have "map_get 0 (fold (\<lambda>(p, n) m. map_put p n m) c []) p = map_get 0 c p"
    using assms(1) by (simp add: fold_put_get clock_ok_def map_get_def [of 0 c] split: option.split)
  then have "map_get 0 (Merge c d) p = (case map_of d p of None \<Rightarrow> map_get 0 c p | Some n \<Rightarrow> max n (map_get 0 c p))"
    using assms(2) by (simp add: Merge_def fold_max_get clock_ok_def split: option.split)
  with clock_get_nonneg [OF assms(1), of p] show ?thesis
    by (simp add: map_get_def [of 0 d] max.commute split: option.split)
qed

lemma fold_put_ok: "map_ok m \<Longrightarrow> map_ok (fold (\<lambda>(p, n) m. map_put p n m) c m)"
  by (induction c arbitrary: m) (auto split: prod.split)

lemma fold_max_ok:
  "map_ok m \<Longrightarrow> map_ok (fold (\<lambda>(p, n) m. if n > map_get 0 m p then map_put p n m else m) c m)"
  by (induction c arbitrary: m) (auto split: prod.split)

lemma clock_okI: "map_ok (c :: vector_clock) \<Longrightarrow> (\<And>p. 0 \<le> map_get 0 c p) \<Longrightarrow> clock_ok c"
proof -
  assume ok: "map_ok c" and nonneg: "\<And>p. 0 \<le> map_get 0 c p"
  have "0 \<le> n" if "(p, n) \<in> set c" for p n
    using map_of_is_SomeI [OF ok that] nonneg [of p] by (simp add: map_get_def)
  with ok show ?thesis by (auto simp: clock_ok_def)
qed

lemma Merge_ok: assumes "clock_ok c" and "clock_ok d" shows "clock_ok (Merge c d)"
proof (rule clock_okI)
  show "map_ok (Merge c d)" unfolding Merge_def by (intro fold_max_ok fold_put_ok) simp
  show "0 \<le> map_get 0 (Merge c d) p" for p
    using Merge_get [OF assms] clock_get_nonneg [OF assms(1), of p] by simp
qed

lemma Compare_flags:
  assumes "clock_ok c" and "clock_ok d"
  shows "(list_ex (\<lambda>(p, n). n < map_get 0 d p) c \<or> list_ex (\<lambda>(p, n). \<not> map_has c p \<and> n > 0) d) \<longleftrightarrow> \<not> clock_le d c"
    and "list_ex (\<lambda>(p, n). \<not> n < map_get 0 d p \<and> n > map_get 0 d p) c \<longleftrightarrow> \<not> clock_le c d"
proof -
  show "list_ex (\<lambda>(p, n). \<not> n < map_get 0 d p \<and> n > map_get 0 d p) c \<longleftrightarrow> \<not> clock_le c d"
  proof
    assume "\<not> clock_le c d"
    then obtain p where p: "map_get 0 d p < map_get 0 c p" unfolding clock_le_def not_all not_le by (elim exE)
    with clock_get_nonneg [OF assms(2), of p] have "map_get 0 c p \<noteq> 0" by linarith
    then have "map_has c p" using clock_get_absent by blast
    then obtain n where "(p, n) \<in> set c" by (rule clock_has_entry [THEN exE])
    moreover from this have "map_get 0 c p = n" by (rule clock_get_entry [OF assms(1)])
    ultimately show "list_ex (\<lambda>(p, n). \<not> n < map_get 0 d p \<and> n > map_get 0 d p) c"
      using p by (auto simp: list_ex_iff intro!: bexI [of _ "(p, n)"])
  next
    assume "list_ex (\<lambda>(p, n). \<not> n < map_get 0 d p \<and> n > map_get 0 d p) c"
    then obtain p n where "(p, n) \<in> set c" and "n > map_get 0 d p" by (auto simp: list_ex_iff)
    with clock_get_entry [OF assms(1)] show "\<not> clock_le c d" by (metis clock_le_def not_le)
  qed
  show "(list_ex (\<lambda>(p, n). n < map_get 0 d p) c \<or> list_ex (\<lambda>(p, n). \<not> map_has c p \<and> n > 0) d) \<longleftrightarrow> \<not> clock_le d c"
  proof
    assume "\<not> clock_le d c"
    then obtain p where p: "map_get 0 c p < map_get 0 d p" unfolding clock_le_def not_all not_le by (elim exE)
    show "list_ex (\<lambda>(p, n). n < map_get 0 d p) c \<or> list_ex (\<lambda>(p, n). \<not> map_has c p \<and> n > 0) d"
    proof (cases "map_has c p")
      case True
      then obtain n where "(p, n) \<in> set c" by (rule clock_has_entry [THEN exE])
      moreover from this have "map_get 0 c p = n" by (rule clock_get_entry [OF assms(1)])
      ultimately show ?thesis using p by (auto simp: list_ex_iff intro!: bexI [of _ "(p, n)"])
    next
      case False
      with p have "0 < map_get 0 d p" by (simp add: clock_get_absent)
      then have "map_has d p" using clock_get_absent [of d p] by auto
      then obtain n where "(p, n) \<in> set d" by (rule clock_has_entry [THEN exE])
      moreover from this have "map_get 0 d p = n" by (rule clock_get_entry [OF assms(2)])
      ultimately show ?thesis using False \<open>0 < map_get 0 d p\<close>
        by (auto simp: list_ex_iff intro!: bexI [of _ "(p, n)"])
    qed
  next
    assume "list_ex (\<lambda>(p, n). n < map_get 0 d p) c \<or> list_ex (\<lambda>(p, n). \<not> map_has c p \<and> n > 0) d"
    then consider p n where "(p, n) \<in> set c" "n < map_get 0 d p" | p n where "(p, n) \<in> set d" "\<not> map_has c p" "n > 0"
      by (auto simp: list_ex_iff)
    then show "\<not> clock_le d c"
      using clock_get_entry [OF assms(1)] clock_get_entry [OF assms(2)] clock_get_absent [of c]
      by cases (metis clock_le_def not_le)+
  qed
qed

lemma Compare_cases:
  assumes "clock_ok c" and "clock_ok d"
  shows "Compare c d = (if clock_le c d then (if clock_le d c then Equal else Before)
    else (if clock_le d c then After else Concurrent))"
  using Compare_flags [OF assms] by (simp add: Compare_def Let_def)


text \<open>
  What the conflict store relies on: comparison decides an order with least upper bounds.
\<close>

locale causal_clock =
  fixes ok :: "'c \<Rightarrow> bool" and le :: "'c \<Rightarrow> 'c \<Rightarrow> bool" and merge :: "'c \<Rightarrow> 'c \<Rightarrow> 'c"
    and cmp :: "'c \<Rightarrow> 'c \<Rightarrow> clock_comparison"
  assumes cmp_spec: "ok c \<Longrightarrow> ok d \<Longrightarrow> cmp c d = (if le c d then (if le d c then Equal else Before)
      else (if le d c then After else Concurrent))"
    and le_refl: "le c c"
    and le_trans: "le c d \<Longrightarrow> le d e \<Longrightarrow> le c e"
    and merge_ok: "ok c \<Longrightarrow> ok d \<Longrightarrow> ok (merge c d)"
    and merge_upper: "ok c \<Longrightarrow> ok d \<Longrightarrow> le c (merge c d) \<and> le d (merge c d)"
    and merge_least: "ok c \<Longrightarrow> ok d \<Longrightarrow> le c e \<Longrightarrow> le d e \<Longrightarrow> le (merge c d) e"
begin

lemma cmp_swap: "ok c \<Longrightarrow> ok d \<Longrightarrow>
    cmp d c = (case cmp c d of Before \<Rightarrow> After | After \<Rightarrow> Before | Equal \<Rightarrow> Equal | Concurrent \<Rightarrow> Concurrent)"
  by (simp add: cmp_spec)

lemma seen_iff: "ok c \<Longrightarrow> ok d \<Longrightarrow> cmp c d \<in> {Equal, After} \<longleftrightarrow> le d c"
  by (simp add: cmp_spec)

lemma redelivered: "ok c \<Longrightarrow> ok d \<Longrightarrow> cmp (merge c d) d \<in> {Equal, After}"
  using seen_iff [of "merge c d" d] merge_ok merge_upper by blast

lemma merge_sym: "ok c \<Longrightarrow> ok d \<Longrightarrow> cmp (merge c d) (merge d c) = Equal"
  by (simp add: cmp_spec merge_ok merge_upper merge_least)

lemma merge_absorb: "ok c \<Longrightarrow> ok d \<Longrightarrow> le d c \<Longrightarrow> cmp (merge c d) c = Equal"
  by (simp add: cmp_spec merge_ok merge_upper merge_least le_refl)

lemma merge_assoc: "ok c \<Longrightarrow> ok d \<Longrightarrow> ok e \<Longrightarrow> cmp (merge (merge c d) e) (merge c (merge d e)) = Equal"
proof -
  assume ok: "ok c" "ok d" "ok e"
  note up = merge_upper [OF ok(1,2)] merge_upper [OF ok(2,3)]
    merge_upper [OF ok(1) merge_ok [OF ok(2,3)]] merge_upper [OF merge_ok [OF ok(1,2)] ok(3)]
  have "le (merge (merge c d) e) (merge c (merge d e))"
    using ok up by (intro merge_least merge_ok) (blast intro: le_trans)+
  moreover have "le (merge c (merge d e)) (merge (merge c d) e)"
    using ok up by (intro merge_least merge_ok) (blast intro: le_trans)+
  ultimately show ?thesis using ok by (simp add: cmp_spec merge_ok)
qed

end

interpretation vc: causal_clock clock_ok clock_le Merge Compare
proof unfold_locales
  fix c d e :: vector_clock
  show "clock_le c c" by (simp add: clock_le_def)
  show "clock_le c d \<Longrightarrow> clock_le d e \<Longrightarrow> clock_le c e"
    unfolding clock_le_def by (meson order_trans)
  assume ok: "clock_ok c" "clock_ok d"
  show "Compare c d = (if clock_le c d then (if clock_le d c then Equal else Before)
    else (if clock_le d c then After else Concurrent))" by (rule Compare_cases [OF ok])
  show "clock_ok (Merge c d)" by (rule Merge_ok [OF ok])
  show "clock_le c (Merge c d) \<and> clock_le d (Merge c d)" by (simp add: clock_le_def Merge_get [OF ok])
  show "clock_le c e \<Longrightarrow> clock_le d e \<Longrightarrow> clock_le (Merge c d) e" by (simp add: clock_le_def Merge_get [OF ok])
qed

lemma Increment_after:
  assumes "clock_ok c" and "map_get 0 c p < int64_max"
  shows "clock_ok (Increment p c)" and "Compare c (Increment p c) = Before"
proof -
  have n: "wrap64 (map_get 0 c p + 1) = map_get 0 c p + 1"
    using assms clock_get_nonneg [of c p] by (simp add: int64_min_def)
  show ok: "clock_ok (Increment p c)"
    using assms(1) clock_get_nonneg [OF assms(1)] by (intro clock_okI) (auto simp: Increment_def n clock_ok_def)
  have "clock_le c (Increment p c)" by (simp add: clock_le_def Increment_def n)
  moreover have "\<not> clock_le (Increment p c) c"
    unfolding clock_le_def by (rule notI, drule spec [of _ p]) (simp add: Increment_def n)
  ultimately show "Compare c (Increment p c) = Before" by (simp add: vc.cmp_spec assms(1) ok)
qed

section \<open>Replicas\<close>

text \<open>A payload that carries all three columns, and the row it writes.\<close>

definition payload_row :: "raw_message \<Rightarrow> node_row option" where
  "payload_row payload =
     (case decode_struct assignFields payload \<lparr>pf_Content = None, pf_ContentFormat = None, pf_Metadata = None\<rparr> of
        None \<Rightarrow> None
      | Some f \<Rightarrow>
        (case (pf_Content f, pf_ContentFormat f, pf_Metadata f) of
           (Some c, Some g, Some m) \<Rightarrow> Some \<lparr>nr_content = c, nr_content_format = g, nr_metadata = m\<rparr>
         | _ \<Rightarrow> None))"

lemma applyNodePayload_full:
  assumes "payload_row payload = Some r" and "map_of (db_nodes db) (t, n) = Some r0"
  shows "applyNodePayload t n payload db = Inr (db\<lparr>db_nodes := map_put (t, n) r (db_nodes db)\<rparr>)"
  using assms by (auto simp: payload_row_def applyNodePayload_def coalesce_def split: option.splits)

text \<open>The calls of one replica, each with the identifier and the time the database would give.\<close>

fun conflict_apply_all ::
    "(uuid \<Rightarrow> string) \<Rightarrow> uuid \<Rightarrow> (uuid \<times> instant \<times> mutation_snapshot) list \<Rightarrow> conflict_db \<Rightarrow> federation_error + conflict_db" where
  "conflict_apply_all ustr treeID [] db = Inr db"
| "conflict_apply_all ustr treeID ((fresh, now, m) # ms) db =
     (case conflict_apply ustr fresh now treeID m db of Inl e \<Rightarrow> Inl e
      | Inr db' \<Rightarrow> conflict_apply_all ustr treeID ms db')"

text \<open>
  Mutations as \<open>EncryptEnvelope\<close> stamps them: the clock names the sending server with the
  sequence of the envelope. A sender numbers its envelopes and its Lamport times do not go back.
\<close>

definition ms_seq :: "mutation_snapshot \<Rightarrow> int" where
  "ms_seq m = map_get 0 (ms_Clock m) (fst (hd (ms_Clock m)))"

definition stamped :: "(uuid \<Rightarrow> string) \<Rightarrow> uuid \<Rightarrow> mutation_snapshot \<Rightarrow> bool" where
  "stamped ustr n m \<longleftrightarrow> ms_NodeID m = n \<and> ms_Clock m = [(ustr (ms_PeerID m), ms_seq m)] \<and> 0 < ms_seq m \<and>
     payload_row (ms_Payload m) \<noteq> None"

definition sender_ordered :: "mutation_snapshot \<Rightarrow> mutation_snapshot \<Rightarrow> bool" where
  "sender_ordered m m' \<longleftrightarrow> (ms_PeerID m = ms_PeerID m' \<longrightarrow>
     (ms_seq m < ms_seq m' \<longrightarrow> ms_Lamport m \<le> ms_Lamport m') \<and> (ms_seq m = ms_seq m' \<longrightarrow> m = m'))"

definition mutations_ok :: "(uuid \<Rightarrow> string) \<Rightarrow> uuid \<Rightarrow> mutation_snapshot set \<Rightarrow> bool" where
  "mutations_ok ustr n M \<longleftrightarrow> (\<forall>m \<in> M. stamped ustr n m) \<and> (\<forall>m \<in> M. \<forall>m' \<in> M. sender_ordered m m') \<and>
     inj_on ustr (ms_PeerID ` M)"

text \<open>The order the tie-break follows.\<close>

definition loses :: "(uuid \<Rightarrow> string) \<Rightarrow> mutation_snapshot \<Rightarrow> mutation_snapshot \<Rightarrow> bool" where
  "loses ustr m w \<longleftrightarrow> ms_Lamport m < ms_Lamport w \<or> ms_Lamport m = ms_Lamport w \<and>
     (ustr (ms_PeerID m) < ustr (ms_PeerID w) \<or> ustr (ms_PeerID m) = ustr (ms_PeerID w) \<and> ms_seq m \<le> ms_seq w)"

lemma loses_refl [simp]: "loses ustr m m"
  by (simp add: loses_def)

lemma loses_trans: "loses ustr a b \<Longrightarrow> loses ustr b c \<Longrightarrow> loses ustr a c"
  unfolding loses_def by (elim disjE conjE) auto

lemma loses_antisym:
  assumes "mutations_ok ustr n M" and "m \<in> M" and "w \<in> M" and "loses ustr m w" and "loses ustr w m"
  shows "m = w"
proof -
  from assms(4,5) have "ustr (ms_PeerID m) = ustr (ms_PeerID w)" and seq: "ms_seq m = ms_seq w"
    by (auto simp: loses_def)
  with assms(1-3) have "ms_PeerID m = ms_PeerID w" by (auto simp: mutations_ok_def dest: inj_onD)
  with seq assms(1-3) show ?thesis by (auto simp: mutations_ok_def sender_ordered_def)
qed

lemma later_same_sender:
  assumes "mutations_ok ustr n M" and "m \<in> M" and "w \<in> M"
    and "ustr (ms_PeerID m) = ustr (ms_PeerID w)" and "ms_seq m \<le> ms_seq w"
  shows "loses ustr m w"
proof -
  from assms(1-4) have "ms_PeerID m = ms_PeerID w" by (auto simp: mutations_ok_def dest: inj_onD)
  moreover from assms(1-3) have "sender_ordered m w" by (simp add: mutations_ok_def)
  ultimately show ?thesis using assms(5) by (cases "ms_seq m = ms_seq w") (auto simp: sender_ordered_def loses_def)
qed

lemma stamped_get: "stamped ustr n m \<Longrightarrow> map_get 0 (ms_Clock m) p = (if p = ustr (ms_PeerID m) then ms_seq m else 0)"
  unfolding stamped_def by (elim conjE) (simp only: map_get_def, simp)

lemma stamped_ok: "stamped ustr n m \<Longrightarrow> clock_ok (ms_Clock m)"
  unfolding stamped_def clock_ok_def by (elim conjE) (simp only:, simp)

text \<open>What a replica that has received the mutations \<open>M\<close> of a node holds.\<close>

definition replica_holds :: "(uuid \<Rightarrow> string) \<Rightarrow> uuid \<Rightarrow> uuid \<Rightarrow> mutation_snapshot set \<Rightarrow> conflict_db \<Rightarrow> bool" where
  "replica_holds ustr t n M db \<longleftrightarrow>
     (\<exists>row w. map_of (db_clocks db) (t, n) = Some row \<and> clock_ok (ncr_clock row) \<and>
        (\<forall>m \<in> M. ms_seq m \<le> map_get 0 (ncr_clock row) (ustr (ms_PeerID m))) \<and>
        (\<forall>p. map_get 0 (ncr_clock row) p \<noteq> 0 \<longrightarrow>
           (\<exists>m \<in> M. ustr (ms_PeerID m) = p \<and> ms_seq m = map_get 0 (ncr_clock row) p)) \<and>
        w \<in> M \<and> (\<forall>m \<in> M. loses ustr m w) \<and>
        ncr_payload row = ms_Payload w \<and> ncr_lamport row = ms_Lamport w \<and> ncr_peer row = ms_PeerID w \<and>
        map_of (db_nodes db) (t, n) = payload_row (ms_Payload w))"

lemma replica_first:
  assumes "stamped ustr n m" and "map_of (db_clocks db) (t, n) = None" and "map_of (db_nodes db) (t, n) \<noteq> None"
  shows "\<exists>db'. conflict_apply ustr fresh now t m db = Inr db' \<and> replica_holds ustr t n {m} db'"
proof -
  from assms(1) obtain r where r: "payload_row (ms_Payload m) = Some r" and n: "ms_NodeID m = n"
    by (auto simp: stamped_def)
  from assms(3) obtain r0 where "map_of (db_nodes db) (t, n) = Some r0" by auto
  note written = applyNodePayload_full [OF r this]
  show ?thesis
    by (simp add: conflict_apply_def Let_def written n assms(2) replica_holds_def update_conv' stamped_get [OF assms(1)]
      stamped_ok [OF assms(1)] r)
qed

lemma replica_seen:
  assumes "mutations_ok ustr n (insert m M)" and "replica_holds ustr t n M db"
    and "map_of (db_clocks db) (t, n) = Some row" and "ms_seq m \<le> map_get 0 (ncr_clock row) (ustr (ms_PeerID m))"
  shows "conflict_apply ustr fresh now t m db = Inr db \<and> replica_holds ustr t n (insert m M) db"
proof -
  let ?c = "ncr_clock row"
  from assms(1) have m: "stamped ustr n m" by (simp add: mutations_ok_def)
  from assms(2,3) obtain w where ok: "clock_ok ?c" and upper: "\<forall>m \<in> M. ms_seq m \<le> map_get 0 ?c (ustr (ms_PeerID m))"
    and origin: "\<forall>p. map_get 0 ?c p \<noteq> 0 \<longrightarrow> (\<exists>m \<in> M. ustr (ms_PeerID m) = p \<and> ms_seq m = map_get 0 ?c p)"
    and w: "w \<in> M" "\<forall>m \<in> M. loses ustr m w" "ncr_payload row = ms_Payload w" "ncr_lamport row = ms_Lamport w"
      "ncr_peer row = ms_PeerID w" "map_of (db_nodes db) (t, n) = payload_row (ms_Payload w)"
    by (auto simp: replica_holds_def)
  have "clock_le (ms_Clock m) ?c"
    using assms(4) clock_get_nonneg [OF ok] by (simp add: clock_le_def stamped_get [OF m])
  then have "Compare ?c (ms_Clock m) = Equal \<or> Compare ?c (ms_Clock m) = After"
    using vc.seen_iff [OF ok stamped_ok [OF m]] by simp
  then have "conflict_apply ustr fresh now t m db = Inr db"
    using m assms(3) by (simp add: conflict_apply_def stamped_def)
  moreover from m assms(4) have "map_get 0 ?c (ustr (ms_PeerID m)) \<noteq> 0" by (auto simp: stamped_def)
  with origin obtain m' where m': "m' \<in> M" "ustr (ms_PeerID m') = ustr (ms_PeerID m)"
    "ms_seq m' = map_get 0 ?c (ustr (ms_PeerID m))" by blast
  then have "loses ustr m m'" using assms(1,4) by (intro later_same_sender [of _ n "insert m M"]) auto
  then have "loses ustr m w" using m'(1) w(2) loses_trans by blast
  then have "replica_holds ustr t n (insert m M) db"
    unfolding replica_holds_def using assms(3,4) ok upper origin w by (intro exI [of _ row] exI [of _ w]) auto
  ultimately show ?thesis by blast
qed

lemma merged_holds:
  assumes "stamped ustr n m" and "clock_ok c" and "map_get 0 c (ustr (ms_PeerID m)) < ms_seq m"
    and "\<forall>m \<in> M. ms_seq m \<le> map_get 0 c (ustr (ms_PeerID m))"
    and "\<forall>p. map_get 0 c p \<noteq> 0 \<longrightarrow> (\<exists>m \<in> M. ustr (ms_PeerID m) = p \<and> ms_seq m = map_get 0 c p)"
  defines "c' \<equiv> Merge c (ms_Clock m)"
  shows "clock_ok c'" and "\<forall>m \<in> insert m M. ms_seq m \<le> map_get 0 c' (ustr (ms_PeerID m))"
    and "\<forall>p. map_get 0 c' p \<noteq> 0 \<longrightarrow> (\<exists>m \<in> insert m M. ustr (ms_PeerID m) = p \<and> ms_seq m = map_get 0 c' p)"
proof -
  note ok = stamped_ok [OF assms(1)]
  have get: "map_get 0 c' p = (if p = ustr (ms_PeerID m) then ms_seq m else map_get 0 c p)" for p
    using assms(3) clock_get_nonneg [OF assms(2), of p]
    by (simp add: c'_def Merge_get [OF assms(2) ok] stamped_get [OF assms(1)])
  show "clock_ok c'" unfolding c'_def by (rule Merge_ok [OF assms(2) ok])
  show "\<forall>m \<in> insert m M. ms_seq m \<le> map_get 0 c' (ustr (ms_PeerID m))"
    using assms(3,4) by (auto simp: get)
  show "\<forall>p. map_get 0 c' p \<noteq> 0 \<longrightarrow> (\<exists>m \<in> insert m M. ustr (ms_PeerID m) = p \<and> ms_seq m = map_get 0 c' p)"
    using assms(5) by (simp add: get)
qed

text \<open>Whatever the comparison, an unseen mutation leaves the larger of the two as the winner.\<close>

lemma unseen_winner:
  assumes "mutations_ok ustr n (insert m M)" and "w \<in> M" and "\<forall>m \<in> M. loses ustr m w"
    and "\<forall>m \<in> M. ms_seq m \<le> map_get 0 c (ustr (ms_PeerID m))" and "clock_ok c"
    and "map_get 0 c (ustr (ms_PeerID m)) < ms_seq m"
    and "ncr_lamport row = ms_Lamport w" and "ncr_peer row = ms_PeerID w"
  shows "if Compare c (ms_Clock m) = Concurrent \<and> keepsCurrent ustr row m then loses ustr m w
    else \<forall>x \<in> insert m M. loses ustr x m"
proof -
  from assms(1) have m: "stamped ustr n m" and pos: "\<And>x. x \<in> M \<Longrightarrow> 0 < ms_seq x"
    by (auto simp: mutations_ok_def stamped_def)
  have same: "loses ustr x m" if "x \<in> M" "ustr (ms_PeerID x) = ustr (ms_PeerID m)" for x
    using that assms(1,4,6) by (intro later_same_sender [of _ n "insert m M"]) fastforce+
  show ?thesis
  proof (cases "Compare c (ms_Clock m) = Concurrent")
    case True
    have "loses ustr w m" if "\<not> keepsCurrent ustr row m"
      using that same [OF assms(2)] assms(7,8) by (auto simp: keepsCurrent_def loses_def not_less)
    then show ?thesis using True assms(3,7,8) loses_trans
      by (auto simp: keepsCurrent_def loses_def)
  next
    case False
    have "\<not> clock_le (ms_Clock m) c"
      using assms(6) by (auto simp: clock_le_def stamped_get [OF m] not_le intro!: exI [of _ "ustr (ms_PeerID m)"])
    with False have le: "clock_le c (ms_Clock m)"
      by (simp add: vc.cmp_spec assms(5) stamped_ok [OF m] split: if_splits)
    have "ustr (ms_PeerID x) = ustr (ms_PeerID m)" if "x \<in> M" for x
    proof (rule ccontr)
      assume "ustr (ms_PeerID x) \<noteq> ustr (ms_PeerID m)"
      with le have "map_get 0 c (ustr (ms_PeerID x)) \<le> 0"
        unfolding clock_le_def stamped_get [OF m] by metis
      with that assms(4) pos [OF that] show False by fastforce
    qed
    with False same show ?thesis by auto
  qed
qed

lemma replica_unseen:
  assumes "mutations_ok ustr n (insert m M)" and "replica_holds ustr t n M db"
    and "map_of (db_clocks db) (t, n) = Some row" and "\<not> ms_seq m \<le> map_get 0 (ncr_clock row) (ustr (ms_PeerID m))"
  shows "\<exists>db'. conflict_apply ustr fresh now t m db = Inr db' \<and> replica_holds ustr t n (insert m M) db'"
proof -
  let ?c = "ncr_clock row"
  from assms(1) have m: "stamped ustr n m" and n: "ms_NodeID m = n" by (auto simp: mutations_ok_def stamped_def)
  from assms(2,3) obtain w where ok: "clock_ok ?c" and upper: "\<forall>m \<in> M. ms_seq m \<le> map_get 0 ?c (ustr (ms_PeerID m))"
    and origin: "\<forall>p. map_get 0 ?c p \<noteq> 0 \<longrightarrow> (\<exists>m \<in> M. ustr (ms_PeerID m) = p \<and> ms_seq m = map_get 0 ?c p)"
    and w: "w \<in> M" "\<forall>m \<in> M. loses ustr m w" "ncr_payload row = ms_Payload w" "ncr_lamport row = ms_Lamport w"
      "ncr_peer row = ms_PeerID w" "map_of (db_nodes db) (t, n) = payload_row (ms_Payload w)"
    by (auto simp: replica_holds_def)
  from assms(4) have less: "map_get 0 ?c (ustr (ms_PeerID m)) < ms_seq m" by simp
  note merged = merged_holds [OF m ok less upper origin]
  define v where "v = (if Compare ?c (ms_Clock m) = Concurrent \<and> keepsCurrent ustr row m then w else m)"
  have v: "v \<in> insert m M" "\<forall>x \<in> insert m M. loses ustr x v"
    using unseen_winner [OF assms(1) w(1,2) upper ok less w(4,5)] w(1,2) by (auto simp: v_def split: if_splits)
  from v(1) assms(1) obtain r where r: "payload_row (ms_Payload v) = Some r" by (auto simp: mutations_ok_def stamped_def)
  from w(1) assms(1) w(6) obtain r0 where r0: "map_of (db_nodes db) (t, n) = Some r0"
    by (auto simp: mutations_ok_def stamped_def)
  have "\<not> clock_le (ms_Clock m) ?c"
    using less by (auto simp: clock_le_def stamped_get [OF m] not_le intro!: exI [of _ "ustr (ms_PeerID m)"])
  then have fresh: "Compare ?c (ms_Clock m) \<noteq> Equal" "Compare ?c (ms_Clock m) \<noteq> After"
    using vc.seen_iff [OF ok stamped_ok [OF m]] by auto
  define db1 where "db1 = (if Compare ?c (ms_Clock m) = Concurrent
     then db\<lparr>db_conflicts := db_conflicts db @
            [\<lparr>cf_ID = fresh, cf_TreeID = t, cf_NodeID = n, cf_LeftPayload = ncr_payload row, cf_RightPayload = ms_Payload m,
              cf_DetectedAt = now, cf_ResolutionState = ''unresolved'', cf_Resolution = None, cf_ResolvedAt = None\<rparr>]\<rparr>
     else db)"
  have nodes: "db_nodes db1 = db_nodes db" "db_clocks db1 = db_clocks db" by (simp_all add: db1_def)
  define row' where "row' = \<lparr>ncr_clock = Merge ?c (ms_Clock m), ncr_payload = ms_Payload v,
    ncr_lamport = ms_Lamport v, ncr_peer = ms_PeerID v\<rparr>"
  define db' where "db' = db1\<lparr>db_nodes := map_put (t, n) r (db_nodes db), db_clocks := map_put (t, n) row' (db_clocks db)\<rparr>"
  have won: "(if Compare ?c (ms_Clock m) = Concurrent \<and> keepsCurrent ustr row m
      then (ncr_payload row, ncr_lamport row, ncr_peer row) else (ms_Payload m, ms_Lamport m, ms_PeerID m)) =
    (ms_Payload v, ms_Lamport v, ms_PeerID v)"
    by (simp add: v_def w)
  have "applyNodePayload t n (ms_Payload v) db1 = Inr (db1\<lparr>db_nodes := map_put (t, n) r (db_nodes db)\<rparr>)"
    using applyNodePayload_full [OF r, of db1 t n] r0 nodes by simp
  then have "conflict_apply ustr fresh now t m db = Inr db'"
    unfolding conflict_apply_def Let_def n assms(3) option.case won prod.case
    using fresh by (simp add: db1_def [symmetric] db'_def row'_def nodes)
  moreover have "replica_holds ustr t n (insert m M) db'"
    unfolding replica_holds_def using merged v r
    by (intro exI [of _ row'] exI [of _ v]) (simp add: db'_def row'_def update_conv')
  ultimately show ?thesis by blast
qed

lemma replica_step:
  assumes "mutations_ok ustr n (insert m M)" and "replica_holds ustr t n M db"
  shows "\<exists>db'. conflict_apply ustr fresh now t m db = Inr db' \<and> replica_holds ustr t n (insert m M) db'"
proof -
  from assms(2) obtain row where row: "map_of (db_clocks db) (t, n) = Some row" by (auto simp: replica_holds_def)
  show ?thesis
    using replica_seen [OF assms row] replica_unseen [OF assms row] by blast
qed

lemma mutations_ok_subset: "mutations_ok ustr n M \<Longrightarrow> N \<subseteq> M \<Longrightarrow> mutations_ok ustr n N"
  unfolding mutations_ok_def by (meson image_mono inj_on_subset subsetD)

lemma replica_run:
  assumes "mutations_ok ustr n (M \<union> (snd \<circ> snd) ` set ms)" and "replica_holds ustr t n M db"
  shows "\<exists>db'. conflict_apply_all ustr t ms db = Inr db' \<and> replica_holds ustr t n (M \<union> (snd \<circ> snd) ` set ms) db'"
  using assms
proof (induction ms arbitrary: M db)
  case (Cons x ms)
  obtain f now m where x: "x = (f, now, m)" by (cases x)
  have "mutations_ok ustr n (insert m M)" by (rule mutations_ok_subset [OF Cons.prems(1)]) (auto simp: x)
  from replica_step [OF this Cons.prems(2)] obtain db1
    where "conflict_apply ustr f now t m db = Inr db1" "replica_holds ustr t n (insert m M) db1" by blast
  then show ?case using Cons.IH [of "insert m M" db1] Cons.prems(1) by (simp add: x)
qed simp

lemma replica_runs:
  assumes "mutations_ok ustr n ((snd \<circ> snd) ` set ms)" and "ms \<noteq> []"
    and "map_of (db_clocks db) (t, n) = None" and "map_of (db_nodes db) (t, n) \<noteq> None"
  shows "\<exists>db'. conflict_apply_all ustr t ms db = Inr db' \<and> replica_holds ustr t n ((snd \<circ> snd) ` set ms) db'"
proof (cases ms)
  case (Cons x ms')
  obtain f now m where x: "x = (f, now, m)" by (cases x)
  have "stamped ustr n m" using assms(1) by (simp add: Cons x mutations_ok_def)
  from replica_first [OF this assms(3,4)] obtain db1
    where "conflict_apply ustr f now t m db = Inr db1" "replica_holds ustr t n {m} db1" by blast
  then show ?thesis using replica_run [of ustr n "{m}" ms' t db1] assms(1) by (simp add: Cons x)
qed (use assms in simp)

lemma replica_holds_unique:
  assumes "mutations_ok ustr n M" and "replica_holds ustr t n M db" and "replica_holds ustr t n M db'"
  shows "\<exists>row row'. map_of (db_clocks db) (t, n) = Some row \<and> map_of (db_clocks db') (t, n) = Some row' \<and>
    Compare (ncr_clock row) (ncr_clock row') = Equal \<and> ncr_payload row = ncr_payload row' \<and>
    ncr_lamport row = ncr_lamport row' \<and> ncr_peer row = ncr_peer row' \<and>
    map_of (db_nodes db) (t, n) = map_of (db_nodes db') (t, n)"
proof -
  have le: "clock_le (ncr_clock row) (ncr_clock row')"
    if "\<forall>p. map_get 0 (ncr_clock row) p \<noteq> 0 \<longrightarrow> (\<exists>m \<in> M. ustr (ms_PeerID m) = p \<and> ms_seq m = map_get 0 (ncr_clock row) p)"
      and "\<forall>m \<in> M. ms_seq m \<le> map_get 0 (ncr_clock row') (ustr (ms_PeerID m))" and "clock_ok (ncr_clock row')"
    for row row' :: node_clock_row
    unfolding clock_le_def using that clock_get_nonneg [OF that(3)] by metis
  from assms(2) obtain row w where 1: "map_of (db_clocks db) (t, n) = Some row" "clock_ok (ncr_clock row)"
    "\<forall>m \<in> M. ms_seq m \<le> map_get 0 (ncr_clock row) (ustr (ms_PeerID m))"
    "\<forall>p. map_get 0 (ncr_clock row) p \<noteq> 0 \<longrightarrow> (\<exists>m \<in> M. ustr (ms_PeerID m) = p \<and> ms_seq m = map_get 0 (ncr_clock row) p)"
    and w: "w \<in> M" "\<forall>m \<in> M. loses ustr m w" "ncr_payload row = ms_Payload w" "ncr_lamport row = ms_Lamport w"
      "ncr_peer row = ms_PeerID w" "map_of (db_nodes db) (t, n) = payload_row (ms_Payload w)"
    by (auto simp: replica_holds_def)
  from assms(3) obtain row' w' where 2: "map_of (db_clocks db') (t, n) = Some row'" "clock_ok (ncr_clock row')"
    "\<forall>m \<in> M. ms_seq m \<le> map_get 0 (ncr_clock row') (ustr (ms_PeerID m))"
    "\<forall>p. map_get 0 (ncr_clock row') p \<noteq> 0 \<longrightarrow> (\<exists>m \<in> M. ustr (ms_PeerID m) = p \<and> ms_seq m = map_get 0 (ncr_clock row') p)"
    and w': "w' \<in> M" "\<forall>m \<in> M. loses ustr m w'" "ncr_payload row' = ms_Payload w'" "ncr_lamport row' = ms_Lamport w'"
      "ncr_peer row' = ms_PeerID w'" "map_of (db_nodes db') (t, n) = payload_row (ms_Payload w')"
    by (auto simp: replica_holds_def)
  have "w = w'" using w w' by (intro loses_antisym [OF assms(1)]) auto
  moreover have "Compare (ncr_clock row) (ncr_clock row') = Equal"
    using le [OF 1(4) 2(3,2)] le [OF 2(4) 1(3,2)] by (simp add: vc.cmp_spec 1(2) 2(2))
  ultimately show ?thesis using 1(1) 2(1) w w' by simp
qed

lemma applyNodePayload_clocks:
  "applyNodePayload t n payload db = Inr db' \<Longrightarrow> db_clocks db' = db_clocks db \<and> db_conflicts db' = db_conflicts db"
  by (auto simp: applyNodePayload_def split: option.splits)

lemma conflict_apply_clock:
  assumes "conflict_apply ustr fresh now t m db = Inr db'"
  shows "map_of (db_clocks db) (t, ms_NodeID m) = None \<and>
      (\<exists>row'. map_of (db_clocks db') (t, ms_NodeID m) = Some row' \<and> ncr_clock row' = ms_Clock m) \<or>
    (\<exists>row. map_of (db_clocks db) (t, ms_NodeID m) = Some row \<and>
      (Compare (ncr_clock row) (ms_Clock m) \<in> {Equal, After} \<and> db' = db \<or>
       (\<exists>row'. map_of (db_clocks db') (t, ms_NodeID m) = Some row' \<and> ncr_clock row' = Merge (ncr_clock row) (ms_Clock m))))"
proof (cases "map_of (db_clocks db) (t, ms_NodeID m)")
  case None
  with assms show ?thesis
    by (auto simp: conflict_apply_def Let_def update_conv' split: sum.splits dest: applyNodePayload_clocks)
next
  case (Some row)
  with assms show ?thesis
    by (auto simp: conflict_apply_def Let_def case_prod_unfold update_conv' split: sum.splits if_splits
      dest: applyNodePayload_clocks)
qed

lemma find_updated:
  "find (\<lambda>x. cf_ID x = i) cs = Some old \<Longrightarrow> cf_ID c = i \<Longrightarrow>
    find (\<lambda>x. cf_ID x = i) (map (\<lambda>x. if cf_ID x = i then c else x) cs) = Some c"
  by (induction cs) (auto split: if_splits)

lemma filter_updated:
  "cf_ID c = i \<Longrightarrow> filter (\<lambda>x. cf_ID x \<noteq> i) (map (\<lambda>x. if cf_ID x = i then c else x) cs) = filter (\<lambda>x. cf_ID x \<noteq> i) cs"
  by (induction cs) auto

section \<open>Properties\<close>

text \<open>
  comparison of vector clocks decides causality. \<open>Before\<close> means every counter is at most
  the other's and one is smaller, \<open>After\<close> the converse, \<open>Equal\<close> that all agree (a missing peer
  counts zero), \<open>Concurrent\<close> that neither includes the other.
\<close>

lemma Compare_decides_causality:
  assumes "clock_ok c" and "clock_ok d"
  shows "(Compare c d = Before \<longleftrightarrow> (\<forall>p. map_get 0 c p \<le> map_get 0 d p) \<and> (\<exists>p. map_get 0 c p < map_get 0 d p)) \<and>
    (Compare c d = After \<longleftrightarrow> (\<forall>p. map_get 0 d p \<le> map_get 0 c p) \<and> (\<exists>p. map_get 0 d p < map_get 0 c p)) \<and>
    (Compare c d = Equal \<longleftrightarrow> (\<forall>p. map_get 0 c p = map_get 0 d p)) \<and>
    (Compare c d = Concurrent \<longleftrightarrow> (\<exists>p q. map_get 0 c p < map_get 0 d p \<and> map_get 0 d q < map_get 0 c q))"
proof -
  have lt: "(\<exists>p. map_get 0 a p < map_get 0 b p) \<longleftrightarrow> \<not> clock_le b a" for a b by (simp add: clock_le_def not_le)
  have eq: "(\<forall>p. map_get 0 c p = map_get 0 d p) \<longleftrightarrow> clock_le c d \<and> clock_le d c"
    by (auto simp: clock_le_def intro: order.antisym)
  have con: "(\<exists>p q. map_get 0 c p < map_get 0 d p \<and> map_get 0 d q < map_get 0 c q) \<longleftrightarrow> \<not> clock_le d c \<and> \<not> clock_le c d"
    unfolding lt [symmetric] by blast
  show ?thesis unfolding lt eq con clock_le_def [symmetric] Compare_cases [OF assms] by auto
qed

text \<open>
  delivering a mutation twice is delivering it once, and the clock stored for the node is
  then at least the clock of the mutation and never behind the clock stored before.
\<close>

lemma conflict_apply_idempotent:
  assumes "conflict_apply ustr fresh now t m db = Inr db'" and "clock_ok (ms_Clock m)"
    and "\<And>row. map_of (db_clocks db) (t, ms_NodeID m) = Some row \<Longrightarrow> clock_ok (ncr_clock row)"
  shows "conflict_apply ustr fresh' now' t m db' = Inr db' \<and>
    (\<exists>row'. map_of (db_clocks db') (t, ms_NodeID m) = Some row' \<and> clock_ok (ncr_clock row') \<and>
       Compare (ncr_clock row') (ms_Clock m) \<in> {Equal, After} \<and>
       (\<forall>row. map_of (db_clocks db) (t, ms_NodeID m) = Some row \<longrightarrow>
          Compare (ncr_clock row') (ncr_clock row) \<in> {Equal, After}))"
proof -
  obtain row' where row': "map_of (db_clocks db') (t, ms_NodeID m) = Some row'" "clock_ok (ncr_clock row')"
    "clock_le (ms_Clock m) (ncr_clock row')"
    "\<forall>row. map_of (db_clocks db) (t, ms_NodeID m) = Some row \<longrightarrow> clock_le (ncr_clock row) (ncr_clock row')"
    using conflict_apply_clock [OF assms(1)]
  proof (elim disjE exE conjE, goal_cases)
    case (1 row')
    then show ?thesis using assms(2) vc.le_refl that by simp
  next
    case (2 row)
    then show ?thesis using vc.seen_iff [OF assms(3) assms(2)] assms(3) vc.le_refl that [of row] by simp
  next
    case (3 row row')
    then show ?thesis using vc.merge_ok [OF assms(3) assms(2)] vc.merge_upper [OF assms(3) assms(2)] that [of row'] by simp
  qed
  then have seen: "Compare (ncr_clock row') (ms_Clock m) \<in> {Equal, After}"
    using vc.seen_iff assms(2) by blast
  then have "conflict_apply ustr fresh' now' t m db' = Inr db'"
    using row'(1) by (auto simp: conflict_apply_def)
  moreover have "\<forall>row. map_of (db_clocks db) (t, ms_NodeID m) = Some row \<longrightarrow>
      Compare (ncr_clock row') (ncr_clock row) \<in> {Equal, After}"
    using row'(2,4) assms(3) vc.seen_iff by blast
  ultimately show ?thesis using row'(1,2) seen by blast
qed


text \<open>
  a resolution is final. A successful call records the conflict as resolved and leaves the
  other conflicts alone; a conflict open before then has its node written from the side chosen;
  and any later resolution of the same conflict, by whatever side, changes nothing and
  reports the first.
\<close>

lemma conflict_resolve_final:
  assumes "conflict_resolve now i resolution db = Inr (c, db')"
    and "resolution' = ''left'' \<or> resolution' = ''right''"
  shows "cf_ID c = i \<and> cf_ResolvedAt c \<noteq> None \<and> conflict_resolve now' i resolution' db' = Inr (c, db') \<and>
    filter (\<lambda>x. cf_ID x \<noteq> i) (db_conflicts db') = filter (\<lambda>x. cf_ID x \<noteq> i) (db_conflicts db) \<and>
    (\<forall>old r. find (\<lambda>x. cf_ID x = i) (db_conflicts db) = Some old \<longrightarrow> cf_ResolvedAt old = None \<longrightarrow>
       payload_row (if resolution = ''left'' then cf_LeftPayload old else cf_RightPayload old) = Some r \<longrightarrow>
       cf_Resolution c = Some resolution \<and> map_of (db_nodes db') (cf_TreeID old, cf_NodeID old) = Some r)"
proof -
  from assms(1) have side: "resolution = ''left'' \<or> resolution = ''right''"
    by (auto simp: conflict_resolve_def split: if_splits)
  from assms(1) side obtain old where found: "find (\<lambda>x. cf_ID x = i) (db_conflicts db) = Some old"
    by (cases "find (\<lambda>x. cf_ID x = i) (db_conflicts db)") (auto simp: conflict_resolve_def)
  then have id: "cf_ID old = i" by (auto simp: find_Some_iff)
  show ?thesis
  proof (cases "cf_ResolvedAt old = None")
    case False
    with assms side found id show ?thesis by (auto simp: conflict_resolve_def)
  next
    case True
    let ?p = "if resolution = ''right'' then cf_RightPayload old else cf_LeftPayload old"
    obtain db1 where db1: "applyNodePayload (cf_TreeID old) (cf_NodeID old) ?p db = Inr db1"
      using assms(1) side found True by (auto simp: conflict_resolve_def Let_def split: sum.splits)
    note kept = applyNodePayload_clocks [OF db1]
    from assms(1) side found True db1 have c: "c = old\<lparr>cf_ResolutionState := ''resolved'', cf_Resolution := Some resolution,
        cf_ResolvedAt := Some now\<rparr>" and nodes: "db_nodes db' = db_nodes db1"
      and conflicts: "db_conflicts db' = map (\<lambda>x. if cf_ID x = i then c else x) (db_conflicts db)"
      using kept by (auto simp: conflict_resolve_def Let_def split: option.splits)
    have idc: "cf_ID c = i" and at: "cf_ResolvedAt c \<noteq> None" by (simp_all add: c id)
    have "conflict_resolve now' i resolution' db' = Inr (c, db')"
      using assms(2) find_updated [OF found, of c] idc at by (auto simp: conflict_resolve_def conflicts)
    moreover have "filter (\<lambda>x. cf_ID x \<noteq> i) (db_conflicts db') = filter (\<lambda>x. cf_ID x \<noteq> i) (db_conflicts db)"
      by (simp add: conflicts filter_updated idc)
    moreover have "map_of (db_nodes db') (cf_TreeID old, cf_NodeID old) = Some r" if "payload_row ?p = Some r" for r
    proof -
      from db1 obtain r0 where "map_of (db_nodes db) (cf_TreeID old, cf_NodeID old) = Some r0"
        by (auto simp: applyNodePayload_def split: option.splits)
      from applyNodePayload_full [OF that this] db1 show ?thesis by (auto simp: nodes update_conv')
    qed
    ultimately show ?thesis using idc at side found by (auto simp: c)
  qed
qed

text \<open>
  With payloads that carry only some of the columns the replicas need not agree: the column of
  the losing mutation stays where the loser was applied first.
\<close>

definition demoMutation :: "uuid \<Rightarrow> int \<Rightarrow> (string \<times> json) list \<Rightarrow> mutation_snapshot" where
  "demoMutation peer seq members = \<lparr>ms_NodeID = 9, ms_Payload = RawJSON (JObj members),
     ms_Clock = [(if peer = 1 then ''a'' else ''b'', seq)], ms_Lamport = seq, ms_PeerID = peer\<rparr>"

definition demoStore :: conflict_db where
  "demoStore = \<lparr>db_clocks = [], db_nodes = [((4, 9), \<lparr>nr_content = ''x'', nr_content_format = ''f'', nr_metadata = JNull\<rparr>)],
     db_conflicts = []\<rparr>"

definition demoPrint :: "uuid \<Rightarrow> string" where
  "demoPrint u = (if u = 1 then ''a'' else ''b'')"

definition demoContent :: "federation_error + conflict_db \<Rightarrow> (string \<times> string) option" where
  "demoContent r = (case r of Inl _ \<Rightarrow> None
     | Inr db \<Rightarrow> map_option (\<lambda>row. (nr_content row, nr_content_format row)) (map_of (db_nodes db) (4, 9)))"

lemma partial_payloads_diverge:
  "demoContent (conflict_apply_all demoPrint 4 [(0, 0, demoMutation 1 1 [(''content'', JStr ''l'')]),
     (0, 0, demoMutation 2 2 [(''content_format'', JStr ''g'')])] demoStore) = Some (''l'', ''g'') \<and>
   demoContent (conflict_apply_all demoPrint 4 [(0, 0, demoMutation 2 2 [(''content_format'', JStr ''g'')]),
     (0, 0, demoMutation 1 1 [(''content'', JStr ''l'')])] demoStore) = Some (''x'', ''g'')"
  by code_simp

subsection \<open>Witnesses\<close>

theorem Compare_decides_causality_witness:
  "clock_ok [(''a'', 2)] \<and> clock_ok [(''b'', 1)] \<and> Compare [(''a'', 2)] [(''b'', 1)] = Concurrent"
proof -
  have ok: "clock_ok [(''a'', 2)]" "clock_ok [(''b'', 1)]" by (simp_all add: clock_ok_def)
  have "\<exists>p q. map_get 0 [(''a'', 2::int)] p < map_get 0 [(''b'', 1)] p \<and> map_get 0 [(''b'', 1::int)] q < map_get 0 [(''a'', 2)] q"
    by (rule exI [of _ "''b''"], rule exI [of _ "''a''"]) (simp add: map_get_def)
  with Compare_decides_causality [OF ok] ok show ?thesis by blast
qed

definition demoFull :: "string \<Rightarrow> (string \<times> json) list" where
  "demoFull c = [(''content'', JStr c), (''content_format'', JStr ''g''), (''metadata'', JBool True)]"

lemma demo_stamped:
  "mutations_ok demoPrint 9 {demoMutation 1 1 (demoFull ''l''), demoMutation 2 2 (demoFull ''r'')}"
proof -
  have "payload_row (RawJSON (JObj (demoFull ''l''))) \<noteq> None" "payload_row (RawJSON (JObj (demoFull ''r''))) \<noteq> None"
    by code_simp+
  then show ?thesis
    by (simp add: mutations_ok_def stamped_def sender_ordered_def ms_seq_def demoMutation_def map_get_def demoPrint_def)
qed

lemma demo_apply:
  "\<exists>db'. conflict_apply demoPrint 0 0 4 (demoMutation 1 1 (demoFull ''l'')) demoStore = Inr db'"
proof -
  have "stamped demoPrint 9 (demoMutation 1 1 (demoFull ''l''))" using demo_stamped by (simp add: mutations_ok_def)
  moreover have "map_of (db_clocks demoStore) (4, 9) = None" "map_of (db_nodes demoStore) (4, 9) \<noteq> None"
    by (simp_all add: demoStore_def)
  ultimately show ?thesis using replica_first by blast
qed

theorem conflict_apply_idempotent_witness:
  "\<exists>db'. conflict_apply demoPrint 0 0 4 (demoMutation 1 1 (demoFull ''l'')) demoStore = Inr db' \<and>
     conflict_apply demoPrint 5 6 4 (demoMutation 1 1 (demoFull ''l'')) db' = Inr db'"
proof -
  obtain db' where db': "conflict_apply demoPrint 0 0 4 (demoMutation 1 1 (demoFull ''l'')) demoStore = Inr db'"
    using demo_apply by blast
  have "clock_ok (ms_Clock (demoMutation 1 1 (demoFull ''l'')))" by (simp add: demoMutation_def clock_ok_def)
  from conflict_apply_idempotent [OF db' this, of 5 6] db' show ?thesis by (simp add: demoStore_def)
qed


definition demoConflict :: conflict where
  "demoConflict = \<lparr>cf_ID = 3, cf_TreeID = 4, cf_NodeID = 9, cf_LeftPayload = RawJSON (JObj (demoFull ''l'')),
     cf_RightPayload = RawJSON (JObj (demoFull ''r'')), cf_DetectedAt = 1, cf_ResolutionState = ''unresolved'',
     cf_Resolution = None, cf_ResolvedAt = None\<rparr>"

theorem conflict_resolve_final_witness:
  "\<exists>c db'. conflict_resolve 7 3 ''right'' (demoStore\<lparr>db_conflicts := [demoConflict]\<rparr>) = Inr (c, db') \<and>
     conflict_resolve 8 3 ''left'' db' = Inr (c, db') \<and> cf_Resolution c = Some ''right''"
proof -
  have "payload_row (RawJSON (JObj (demoFull ''r''))) \<noteq> None" by code_simp
  then obtain r where r: "payload_row (cf_RightPayload demoConflict) = Some r" by (auto simp: demoConflict_def)
  have "map_of (db_nodes (demoStore\<lparr>db_conflicts := [demoConflict]\<rparr>)) (4, 9) \<noteq> None" by (simp add: demoStore_def)
  then obtain r0 where "map_of (db_nodes (demoStore\<lparr>db_conflicts := [demoConflict]\<rparr>)) (4, 9) = Some r0" by blast
  from applyNodePayload_full [OF r this]
  have "\<exists>c db'. conflict_resolve 7 3 ''right'' (demoStore\<lparr>db_conflicts := [demoConflict]\<rparr>) = Inr (c, db')"
    by (simp add: conflict_resolve_def demoConflict_def Let_def)
  then obtain c db' where 1: "conflict_resolve 7 3 ''right'' (demoStore\<lparr>db_conflicts := [demoConflict]\<rparr>) = Inr (c, db')" by blast
  have 2: "find (\<lambda>x. cf_ID x = 3) (db_conflicts (demoStore\<lparr>db_conflicts := [demoConflict]\<rparr>)) = Some demoConflict"
    "cf_ResolvedAt demoConflict = None" by (simp_all add: demoConflict_def)
  from conflict_resolve_final [OF 1, of "''left''" 8] 1 2 r show ?thesis by simp
qed

end
