(* ===== verification/Federation_Relay.thy ===== *)
theory Federation_Relay
  imports Federation_Clock
begin

text \<open>
  Links between servers and the relay that carries events over them
  (\<open>internal/federation/federation.go\<close>, \<open>repository.go\<close>, \<open>relay.go\<close>, \<open>router.go\<close>,
  \<open>ratelimit.go\<close>, and the reassembly of \<open>internal/handler/federation_handler.go\<close>). A table is
  a list of rows; the unique keys of the migrations are checked on insertion. The network is
  the list of replies the requests will get.
\<close>

section \<open>Peers\<close>

datatype federation_role = RoleInitiator | RoleAcceptor

datatype peer_state =
    PeerDisconnected | PeerConnecting | PeerConnected | PeerReconnecting | PeerRevoked | PeerQuarantined
  | PeerStateOf int

fun PeerState_String :: "peer_state \<Rightarrow> string" where
  "PeerState_String PeerDisconnected = ''disconnected''"
| "PeerState_String PeerConnecting = ''connecting''"
| "PeerState_String PeerConnected = ''connected''"
| "PeerState_String PeerReconnecting = ''reconnecting''"
| "PeerState_String PeerRevoked = ''revoked''"
| "PeerState_String PeerQuarantined = ''quarantined''"
| "PeerState_String (PeerStateOf _) = ''unknown''"

record federation_peer =
  fp_ID :: uuid
  fp_ServerURL :: string
  fp_SigningKeyFP :: string
  fp_ECDHEPublicKey :: string
  fp_SigningPublicKey :: string
  fp_Role :: federation_role
  fp_State :: peer_state
  fp_TreeID :: uuid
  fp_CreatedBy :: uuid
  fp_CreatedAt :: instant
  fp_ConnectedAt :: "instant option"
  fp_LastHeartbeat :: "instant option"
  fp_RevokedAt :: "instant option"
  fp_RevokeReason :: "string option"

type_synonym peer_table = "federation_peer list"

definition FindByServerTree :: "string \<Rightarrow> uuid \<Rightarrow> peer_table \<Rightarrow> federation_error + federation_peer" where
  "FindByServerTree serverURL treeID peers =
     (case find (\<lambda>p. fp_ServerURL p = serverURL \<and> fp_TreeID p = treeID) peers of
        None \<Rightarrow> Inl ErrFederationNotFound | Some p \<Rightarrow> Inr p)"

definition peer_Get :: "uuid \<Rightarrow> peer_table \<Rightarrow> federation_error + federation_peer" where
  "peer_Get i peers = (case find (\<lambda>p. fp_ID p = i) peers of None \<Rightarrow> Inl ErrFederationNotFound | Some p \<Rightarrow> Inr p)"

text \<open>The row an insertion writes: identity, creation time and the columns left to their defaults.\<close>

definition new_peer :: "uuid \<Rightarrow> instant \<Rightarrow> federation_peer \<Rightarrow> federation_peer" where
  "new_peer fresh now p = p\<lparr>fp_ID := fresh, fp_CreatedAt := now, fp_LastHeartbeat := None, fp_RevokedAt := None,
     fp_RevokeReason := None\<rparr>"

definition peer_Create ::
    "uuid \<Rightarrow> instant \<Rightarrow> federation_peer \<Rightarrow> peer_table \<Rightarrow> federation_error + federation_peer \<times> peer_table" where
  "peer_Create fresh now p peers =
     (if \<exists>q \<in> set peers. fp_ServerURL q = fp_ServerURL p \<and> fp_TreeID q = fp_TreeID p then Inl ErrDuplicateKey
      else Inr (new_peer fresh now p, peers @ [new_peer fresh now p]))"

definition UpsertAccepted ::
    "uuid \<Rightarrow> instant \<Rightarrow> federation_peer \<Rightarrow> peer_table \<Rightarrow> federation_error + federation_peer \<times> peer_table" where
  "UpsertAccepted fresh now p peers =
     (case find (\<lambda>q. fp_ServerURL q = fp_ServerURL p \<and> fp_TreeID q = fp_TreeID p) peers of
        None \<Rightarrow> Inr (new_peer fresh now p, peers @ [new_peer fresh now p])
      | Some q \<Rightarrow>
        if fp_State q = PeerRevoked then Inl ErrFederationNotFound
        else
          (let q' = q\<lparr>fp_SigningKeyFP := fp_SigningKeyFP p, fp_ECDHEPublicKey := fp_ECDHEPublicKey p,
                      fp_SigningPublicKey := fp_SigningPublicKey p, fp_State := fp_State p, fp_ConnectedAt := fp_ConnectedAt p\<rparr>
           in Inr (q', map (\<lambda>r. if fp_ID r = fp_ID q then q' else r) peers)))"

definition peer_List :: "uuid option \<Rightarrow> bool \<Rightarrow> peer_table \<Rightarrow> peer_table" where
  "peer_List treeID activeOnly peers =
     sort_stable (\<lambda>p q. fp_CreatedAt p > fp_CreatedAt q)
       (filter (\<lambda>p. (treeID = None \<or> treeID = Some (fp_TreeID p)) \<and> (activeOnly \<longrightarrow> fp_State p \<noteq> PeerRevoked)) peers)"

definition peer_SetState ::
    "uuid \<Rightarrow> peer_state \<Rightarrow> instant option \<Rightarrow> string option \<Rightarrow> peer_table \<Rightarrow> federation_error + peer_table" where
  "peer_SetState i state revokedAt reason peers =
     (if \<exists>p \<in> set peers. fp_ID p = i
      then Inr (map (\<lambda>p. if fp_ID p = i then p\<lparr>fp_State := state, fp_RevokedAt := revokedAt, fp_RevokeReason := reason\<rparr> else p) peers)
      else Inl ErrFederationNotFound)"

definition RevokeFederationLink :: "instant \<Rightarrow> uuid \<Rightarrow> peer_table \<Rightarrow> federation_error + peer_table" where
  "RevokeFederationLink now peerID peers = peer_SetState peerID PeerRevoked (Some now) (Some ''revoked by user'') peers"

section \<open>The relay queue\<close>

definition DefaultRelayChunkSize :: int where [simp]: "DefaultRelayChunkSize = 512 * 1024"
definition DefaultReplayLimit :: int where [simp]: "DefaultReplayLimit = 100"
definition MaxReplayLimit :: int where [simp]: "MaxReplayLimit = 500"
definition DefaultFailureLimit :: int where [simp]: "DefaultFailureLimit = 5"
definition MaxPeerQueueDepth :: nat where [simp]: "MaxPeerQueueDepth = 10000"

datatype relay_status = RelayPending | RelayDelivered | RelayFailed

record relay_event =
  re_EventID :: uuid
  re_TreeID :: uuid
  re_SenderProfileID :: uuid
  re_TargetPeerID :: uuid
  re_SequenceNo :: int
  re_Payload :: string
  re_Status :: relay_status
  re_DeliveryAttempts :: int
  re_LastError :: "string option"
  re_CreatedAt :: instant
  re_DeliveredAt :: "instant option"

record relay_frame =
  rf_EventID :: uuid
  rf_PeerID :: uuid
  rf_SequenceNo :: int
  rf_ChunkSeq :: int
  rf_ChunkTotal :: int
  rf_ChunkPayload :: string

record relay_db =
  rd_events :: "relay_event list"
  rd_cursors :: "(uuid, int) gomap"
  rd_receipts :: "(uuid, uuid \<times> int) gomap"

text \<open>
  \<open>PGRelayRepository.Enqueue\<close>: insert, then delete the rows of the peer ranked after the
  first ten thousand, undelivered ones ranked before delivered ones and later sequences first.
\<close>

definition ranks_before :: "relay_event \<Rightarrow> relay_event \<Rightarrow> bool" where
  "ranks_before x y \<longleftrightarrow>
     re_Status x \<noteq> RelayDelivered \<and> re_Status y = RelayDelivered \<or>
     (re_Status x \<noteq> RelayDelivered) = (re_Status y \<noteq> RelayDelivered) \<and> re_SequenceNo x > re_SequenceNo y"

definition trim_queue :: "uuid \<Rightarrow> relay_event list \<Rightarrow> relay_event list" where
  "trim_queue peerID events =
     (let doomed = map re_EventID (drop MaxPeerQueueDepth
                     (sort_stable ranks_before (filter (\<lambda>e. re_TargetPeerID e = peerID) events)))
      in filter (\<lambda>e. re_EventID e \<notin> set doomed) events)"

definition pg_Enqueue :: "uuid \<Rightarrow> instant \<Rightarrow> relay_event \<Rightarrow> relay_db \<Rightarrow> federation_error + relay_event \<times> relay_db" where
  "pg_Enqueue fresh now event db =
     (let row = event\<lparr>re_EventID := (if re_EventID event = uuid_Nil then fresh else re_EventID event),
                      re_Status := RelayPending, re_DeliveryAttempts := 0, re_LastError := None,
                      re_CreatedAt := now, re_DeliveredAt := None\<rparr>
      in if \<exists>e \<in> set (rd_events db). re_EventID e = re_EventID row \<or>
              re_TargetPeerID e = re_TargetPeerID row \<and> re_SequenceNo e = re_SequenceNo row
         then Inl ErrDuplicateKey
         else Inr (row, db\<lparr>rd_events := trim_queue (re_TargetPeerID row) (rd_events db @ [row])\<rparr>))"

definition pg_QueueDepth :: "uuid \<Rightarrow> relay_db \<Rightarrow> nat" where
  "pg_QueueDepth peerID db =
     length (filter (\<lambda>e. re_TargetPeerID e = peerID \<and> (re_Status e = RelayPending \<or> re_Status e = RelayFailed)) (rd_events db))"

definition pg_Replay :: "uuid \<Rightarrow> int \<Rightarrow> int \<Rightarrow> relay_db \<Rightarrow> relay_event list" where
  "pg_Replay peerID cursor limit db =
     take (nat limit) (sort_stable (\<lambda>x y. re_SequenceNo x < re_SequenceNo y)
       (filter (\<lambda>e. re_TargetPeerID e = peerID \<and> re_SequenceNo e > cursor) (rd_events db)))"

definition pg_Pending :: "uuid \<Rightarrow> int \<Rightarrow> relay_db \<Rightarrow> relay_event list" where
  "pg_Pending peerID limit db =
     take (nat limit) (sort_stable (\<lambda>x y. re_SequenceNo x < re_SequenceNo y)
       (filter (\<lambda>e. re_TargetPeerID e = peerID \<and> (re_Status e = RelayPending \<or> re_Status e = RelayFailed)) (rd_events db)))"

text \<open>A delivery attempt: \<open>None\<close> is success, \<open>Some\<close> the text of the failure.\<close>

definition attempted :: "instant \<Rightarrow> string option \<Rightarrow> relay_event \<Rightarrow> relay_event" where
  "attempted now failure e =
     (case failure of
        None \<Rightarrow> e\<lparr>re_Status := RelayDelivered, re_DeliveryAttempts := re_DeliveryAttempts e + 1, re_LastError := None,
                  re_DeliveredAt := Some now\<rparr>
      | Some t \<Rightarrow> e\<lparr>re_Status := RelayFailed, re_DeliveryAttempts := re_DeliveryAttempts e + 1, re_LastError := Some t\<rparr>)"

definition pg_MarkAttempt :: "instant \<Rightarrow> uuid \<Rightarrow> string option \<Rightarrow> relay_db \<Rightarrow> relay_db" where
  "pg_MarkAttempt now eventID failure db =
     db\<lparr>rd_events := map (\<lambda>e. if re_EventID e = eventID then attempted now failure e else e) (rd_events db)\<rparr>"

definition pg_Cursor :: "uuid \<Rightarrow> relay_db \<Rightarrow> int" where
  "pg_Cursor peerID db = map_get 0 (rd_cursors db) peerID"

definition pg_AdvanceCursor :: "uuid \<Rightarrow> int \<Rightarrow> relay_db \<Rightarrow> relay_db" where
  "pg_AdvanceCursor peerID cursor db =
     db\<lparr>rd_cursors := map_put peerID
          (case map_of (rd_cursors db) peerID of None \<Rightarrow> cursor | Some c \<Rightarrow> max c cursor) (rd_cursors db)\<rparr>"

definition pg_RecordReceipt :: "uuid \<Rightarrow> uuid \<Rightarrow> int \<Rightarrow> relay_db \<Rightarrow> bool \<times> relay_db" where
  "pg_RecordReceipt eventID peerID sequence db =
     (if map_has (rd_receipts db) eventID then (False, db)
      else (True, db\<lparr>rd_receipts := map_put eventID (peerID, sequence) (rd_receipts db)\<rparr>))"

section \<open>The relay service\<close>

record relay_service =
  rs_chunkSize :: int
  rs_failureLimit :: int

definition NewRelayService :: relay_service where
  "NewRelayService = \<lparr>rs_chunkSize = DefaultRelayChunkSize, rs_failureLimit = DefaultFailureLimit\<rparr>"

text \<open>The network: the replies still to come and the frames sent so far.\<close>

record network =
  nw_replies :: "(federation_error + int) list"
  nw_sent :: "relay_frame list"

definition post_frame :: "relay_frame \<Rightarrow> network \<Rightarrow> (federation_error + int) \<times> network" where
  "post_frame frame w =
     (case nw_replies w of
        [] \<Rightarrow> (Inl (ErrDelivery ''connection refused''), w\<lparr>nw_sent := nw_sent w @ [frame]\<rparr>)
      | r # rs \<Rightarrow> (r, \<lparr>nw_replies = rs, nw_sent = nw_sent w @ [frame]\<rparr>))"

fun federation_error_text :: "federation_error \<Rightarrow> string" where
  "federation_error_text ErrFederationNotFound = ''federation: peer not found''"
| "federation_error_text ErrTokenInvalid = ''federation: federation token is invalid or expired''"
| "federation_error_text ErrTokenExpired = ''federation: federation token has expired''"
| "federation_error_text ErrLinkAlreadyExists = ''federation: link to this server+tree already exists''"
| "federation_error_text ErrLinkRevoked = ''federation: federation link has been revoked''"
| "federation_error_text ErrInvalidInput = ''federation: invalid input''"
| "federation_error_text ErrSignatureMismatch = ''federation: envelope signature does not match sender''"
| "federation_error_text ErrDecryptionFailed = ''federation: payload decryption failed''"
| "federation_error_text ErrNoSharedSecret = ''federation: ECDH session not established; call EstablishSession first''"
| "federation_error_text (ErrPeerOffline e) =
     ''federation: peer is offline, event queued for later delivery: '' @ federation_error_text e"
| "federation_error_text ErrRateLimited = ''federation: rate limit exceeded for this peer''"
| "federation_error_text ErrConflictNotFound = ''federation: conflict not found''"
| "federation_error_text ErrRouteNotFound = ''federation: profile route not found''"
| "federation_error_text (ErrDelivery t) = t"
| "federation_error_text ErrDuplicateKey = ''duplicate key value violates unique constraint''"

definition relay_Enqueue ::
    "(ftl_envelope \<Rightarrow> string) \<Rightarrow> uuid \<Rightarrow> instant \<Rightarrow> uuid \<Rightarrow> ftl_envelope option \<Rightarrow> relay_db \<Rightarrow>
       federation_error + relay_event \<times> relay_db" where
  "relay_Enqueue encode fresh now peerID envelope db =
     (case envelope of None \<Rightarrow> Inl ErrInvalidInput
      | Some env \<Rightarrow>
        if peerID = uuid_Nil then Inl ErrInvalidInput
        else pg_Enqueue fresh now \<lparr>re_EventID = fresh, re_TreeID = fe_TreeID env, re_SenderProfileID = fe_SenderProfileID env,
               re_TargetPeerID = peerID, re_SequenceNo = fe_Sequence env, re_Payload = encode env, re_Status = RelayPending,
               re_DeliveryAttempts = 0, re_LastError = None, re_CreatedAt = now, re_DeliveredAt = None\<rparr> db)"

definition relay_Replay :: "uuid \<Rightarrow> int \<Rightarrow> int \<Rightarrow> relay_db \<Rightarrow> relay_event list" where
  "relay_Replay peerID cursor limit db =
     (let limit1 = (if limit \<le> 0 then DefaultReplayLimit else limit);
          limit2 = (if limit1 > MaxReplayLimit then MaxReplayLimit else limit1)
      in pg_Replay peerID cursor limit2 db)"

definition frame_at :: "int \<Rightarrow> relay_event \<Rightarrow> int \<Rightarrow> nat \<Rightarrow> relay_frame" where
  "frame_at sz event chunks i =
     (let start = int i * sz; ende = (int i + 1) * sz;
          ende' = (if ende > int (length (re_Payload event)) then int (length (re_Payload event)) else ende)
      in \<lparr>rf_EventID = re_EventID event, rf_PeerID = re_TargetPeerID event, rf_SequenceNo = re_SequenceNo event,
          rf_ChunkSeq = int i + 1, rf_ChunkTotal = chunks,
          rf_ChunkPayload = take (nat (ende' - start)) (drop (nat start) (re_Payload event))\<rparr>)"

definition Frames :: "relay_service \<Rightarrow> relay_event \<Rightarrow> relay_frame list" where
  "Frames s event =
     (let sz = (if rs_chunkSize s \<le> 0 then DefaultRelayChunkSize else rs_chunkSize s);
          total0 = go_div (int (length (re_Payload event)) + sz - 1) sz;
          chunks = (if total0 = 0 then 1 else total0)
      in map (frame_at sz event chunks) [0..<nat chunks])"

fun post_frames :: "relay_frame list \<Rightarrow> network \<Rightarrow> federation_error option \<times> network" where
  "post_frames [] w = (None, w)"
| "post_frames (frame # frames) w =
     (case post_frame frame w of
        (Inl e, w') \<Rightarrow> (Some e, w')
      | (Inr status, w') \<Rightarrow>
        if status \<noteq> 202 \<and> status \<noteq> 200
        then (Some (ErrDelivery (''federation relay: peer ACK status '' @ itoa status)), w')
        else post_frames frames w')"

definition relay_deliver ::
    "relay_service \<Rightarrow> (federation_peer \<Rightarrow> federation_error + string) \<Rightarrow> federation_peer \<Rightarrow> relay_event \<Rightarrow> network \<Rightarrow>
       federation_error option \<times> network" where
  "relay_deliver s token peer event w =
     (case token peer of Inl e \<Rightarrow> (Some e, w) | Inr _ \<Rightarrow> post_frames (Frames s event) w)"

record relay_state =
  st_db :: relay_db
  st_peers :: peer_table
  st_net :: network

text \<open>The loop of \<open>DeliverPending\<close> over the events it read, in the order of their sequences.\<close>

fun deliver_events ::
    "relay_service \<Rightarrow> (federation_peer \<Rightarrow> federation_error + string) \<Rightarrow> instant \<Rightarrow> federation_peer \<Rightarrow> uuid \<Rightarrow>
       relay_event list \<Rightarrow> relay_state \<Rightarrow> federation_error option \<times> relay_state" where
  "deliver_events s token now peer peerID [] st = (None, st)"
| "deliver_events s token now peer peerID (event # events) st =
     (case relay_deliver s token peer event (st_net st) of
        (Some e, w) \<Rightarrow>
          (let db = pg_MarkAttempt now (re_EventID event) (Some (federation_error_text e)) (st_db st);
               peers = (if re_DeliveryAttempts event + 1 \<ge> rs_failureLimit s
                        then (case peer_SetState peerID PeerDisconnected None None (st_peers st) of
                                Inl _ \<Rightarrow> st_peers st | Inr ps \<Rightarrow> ps)
                        else st_peers st)
           in (Some e, \<lparr>st_db = db, st_peers = peers, st_net = w\<rparr>))
      | (None, w) \<Rightarrow>
          deliver_events s token now peer peerID events
            (st\<lparr>st_db := pg_AdvanceCursor peerID (re_SequenceNo event) (pg_MarkAttempt now (re_EventID event) None (st_db st)),
                st_net := w\<rparr>))"

definition DeliverPending ::
    "relay_service \<Rightarrow> (federation_peer \<Rightarrow> federation_error + string) \<Rightarrow> instant \<Rightarrow> uuid \<Rightarrow> relay_state \<Rightarrow>
       federation_error option \<times> relay_state" where
  "DeliverPending s token now peerID st =
     (case peer_Get peerID (st_peers st) of
        Inl e \<Rightarrow> (Some e, st)
      | Inr peer \<Rightarrow> deliver_events s token now peer peerID (pg_Pending peerID DefaultReplayLimit (st_db st)) st)"

definition Dispatch ::
    "relay_service \<Rightarrow> (federation_peer \<Rightarrow> federation_error + string) \<Rightarrow> (ftl_envelope \<Rightarrow> string) \<Rightarrow> uuid \<Rightarrow> instant \<Rightarrow> uuid \<Rightarrow>
       ftl_envelope option \<Rightarrow> relay_state \<Rightarrow> relay_event option \<times> federation_error option \<times> relay_state" where
  "Dispatch s token encode fresh now peerID envelope st =
     (case relay_Enqueue encode fresh now peerID envelope (st_db st) of
        Inl e \<Rightarrow> (None, Some e, st)
      | Inr (event, db) \<Rightarrow>
        (case DeliverPending s token now peerID (st\<lparr>st_db := db\<rparr>) of
           (Some e, st') \<Rightarrow> (Some event, Some (ErrPeerOffline e), st')
         | (None, st') \<Rightarrow> (Some event, None, st')))"

text \<open>One round of \<open>Run\<close>: every active peer in turn, then the backoff of the next round.\<close>

fun deliver_round ::
    "relay_service \<Rightarrow> (federation_peer \<Rightarrow> federation_error + string) \<Rightarrow> instant \<Rightarrow> federation_peer list \<Rightarrow> relay_state \<Rightarrow>
       bool \<times> relay_state" where
  "deliver_round s token now [] st = (False, st)"
| "deliver_round s token now (peer # peers) st =
     (if fp_State peer = PeerRevoked \<or> fp_State peer = PeerQuarantined then deliver_round s token now peers st
      else (case DeliverPending s token now (fp_ID peer) st of
              (e, st') \<Rightarrow> (case deliver_round s token now peers st' of (failed, st'') \<Rightarrow> (e \<noteq> None \<or> failed, st''))))"

definition second :: duration where [simp]: "second = 1000000000"

definition next_backoff :: "bool \<Rightarrow> duration \<Rightarrow> duration" where
  "next_backoff failed backoff =
     (let b = (if \<not> failed then second else if backoff < 30 * second then backoff * 2 else backoff)
      in if b > 30 * second then 30 * second else b)"

definition relay_Run_round ::
    "relay_service \<Rightarrow> (federation_peer \<Rightarrow> federation_error + string) \<Rightarrow> instant \<Rightarrow> duration \<Rightarrow> relay_state \<Rightarrow> duration \<times> relay_state" where
  "relay_Run_round s token now backoff st =
     (case deliver_round s token now (peer_List None True (st_peers st)) st of
        (failed, st') \<Rightarrow> (next_backoff failed backoff, st'))"

section \<open>Reassembly\<close>

record relay_assembly =
  ra_peerID :: uuid
  ra_sequence :: int
  ra_total :: int
  ra_parts :: "(int, string) gomap"

type_synonym relay_chunks = "(uuid, relay_assembly) gomap"

fun join_parts :: "(int, string) gomap \<Rightarrow> int list \<Rightarrow> string option" where
  "join_parts parts [] = Some []"
| "join_parts parts (i # is) =
     (case map_of parts i of None \<Rightarrow> None
      | Some part \<Rightarrow> map_option (\<lambda>rest. part @ rest) (join_parts parts is))"

text \<open>\<open>acceptFrame\<close> returns the error, or the payload when the frame completes the event.\<close>

definition acceptFrame :: "relay_frame \<Rightarrow> relay_chunks \<Rightarrow> (string + string option) \<times> relay_chunks" where
  "acceptFrame frame chunks =
     (if rf_ChunkTotal frame < 1 \<or> rf_ChunkSeq frame < 1 \<or> rf_ChunkSeq frame > rf_ChunkTotal frame
      then (Inl ''invalid chunk metadata'', chunks)
      else
        (let a = (case map_of chunks (rf_EventID frame) of
                    None \<Rightarrow> \<lparr>ra_peerID = rf_PeerID frame, ra_sequence = rf_SequenceNo frame, ra_total = rf_ChunkTotal frame, ra_parts = []\<rparr>
                  | Some a \<Rightarrow> a);
             chunks1 = map_put (rf_EventID frame) a chunks
         in if ra_peerID a \<noteq> rf_PeerID frame \<or> ra_sequence a \<noteq> rf_SequenceNo frame \<or> ra_total a \<noteq> rf_ChunkTotal frame
            then (Inl ''inconsistent chunk metadata'', chunks1)
            else
              (let a' = a\<lparr>ra_parts := map_put (rf_ChunkSeq frame) (rf_ChunkPayload frame) (ra_parts a)\<rparr>;
                   chunks2 = map_put (rf_EventID frame) a' chunks1
               in if int (length (ra_parts a')) \<noteq> ra_total a' then (Inr None, chunks2)
                  else case join_parts (ra_parts a') [1..ra_total a'] of
                    None \<Rightarrow> (Inr None, chunks2)
                  | Some payload \<Rightarrow> (Inr (Some payload), map_del (rf_EventID frame) chunks2))))"

fun acceptFrames :: "relay_frame list \<Rightarrow> relay_chunks \<Rightarrow> (string + string option) list \<times> relay_chunks" where
  "acceptFrames [] chunks = ([], chunks)"
| "acceptFrames (frame # frames) chunks =
     (case acceptFrame frame chunks of (r, chunks1) \<Rightarrow>
        (case acceptFrames frames chunks1 of (rs, chunks2) \<Rightarrow> (r # rs, chunks2)))"

section \<open>The ingress limiter\<close>

record rate_bucket =
  rb_started :: instant
  rb_count :: int

record peer_rate_limiter =
  prl_limit :: int
  prl_window :: duration
  prl_buckets :: "(string, rate_bucket) gomap"

definition NewPeerRateLimiter :: "int \<Rightarrow> duration \<Rightarrow> peer_rate_limiter" where
  "NewPeerRateLimiter limit window = \<lparr>prl_limit = limit, prl_window = window, prl_buckets = []\<rparr>"

definition limiter_Allow :: "instant \<Rightarrow> string \<Rightarrow> peer_rate_limiter \<Rightarrow> bool \<times> peer_rate_limiter" where
  "limiter_Allow now key l =
     (if prl_limit l \<le> 0 \<or> prl_window l \<le> 0 then (True, l)
      else
        (let b0 = map_get \<lparr>rb_started = 0, rb_count = 0\<rparr> (prl_buckets l) key;
             b = (if time_IsZero (rb_started b0) \<or> time_Sub now (rb_started b0) \<ge> prl_window l
                  then \<lparr>rb_started = now, rb_count = 0\<rparr> else b0)
         in if rb_count b \<ge> prl_limit l then (False, l)
            else (True, l\<lparr>prl_buckets := map_put key (b\<lparr>rb_count := rb_count b + 1\<rparr>) (prl_buckets l)\<rparr>)))"

section \<open>Routes\<close>

datatype route_type = RouteLocal | RouteRemote | RouteTypeOf string

record route =
  ro_ID :: uuid
  ro_ProfileID :: uuid
  ro_TreeID :: "uuid option"
  ro_PeerID :: "uuid option"
  ro_RouteType :: route_type
  ro_Priority :: int
  ro_CreatedAt :: instant
  ro_UpdatedAt :: instant

record route_update =
  ru_TreeID :: "uuid option option"
  ru_PeerID :: "uuid option option"
  ru_RouteType :: "route_type option"
  ru_Priority :: "int option"

definition validateRoute :: "route_type \<Rightarrow> uuid option \<Rightarrow> federation_error option" where
  "validateRoute routeType peerID =
     (if routeType \<noteq> RouteLocal \<and> routeType \<noteq> RouteRemote then Some ErrInvalidInput
      else if routeType = RouteRemote \<and> (peerID = None \<or> peerID = Some uuid_Nil) then Some ErrInvalidInput
      else if routeType = RouteLocal \<and> peerID \<noteq> None then Some ErrInvalidInput
      else None)"

definition route_before :: "route \<Rightarrow> route \<Rightarrow> bool" where
  "route_before x y \<longleftrightarrow> ro_Priority x > ro_Priority y \<or>
     ro_Priority x = ro_Priority y \<and>
       (ro_CreatedAt x < ro_CreatedAt y \<or> ro_CreatedAt x = ro_CreatedAt y \<and> ro_ID x < ro_ID y)"

definition router_Create :: "uuid \<Rightarrow> instant \<Rightarrow> route option \<Rightarrow> route list \<Rightarrow> federation_error + route \<times> route list" where
  "router_Create fresh now r routes =
     (case r of None \<Rightarrow> Inl ErrInvalidInput
      | Some ro \<Rightarrow>
        if ro_ProfileID ro = uuid_Nil \<or> validateRoute (ro_RouteType ro) (ro_PeerID ro) \<noteq> None then Inl ErrInvalidInput
        else if \<exists>x \<in> set routes. ro_ProfileID x = ro_ProfileID ro \<and> ro_TreeID x = ro_TreeID ro then Inl ErrDuplicateKey
        else
          (let row = ro\<lparr>ro_ID := fresh, ro_CreatedAt := now, ro_UpdatedAt := now\<rparr> in Inr (row, routes @ [row])))"

definition router_List :: "uuid option \<Rightarrow> uuid option \<Rightarrow> route list \<Rightarrow> route list" where
  "router_List profileID treeID routes =
     sort_stable route_before
       (filter (\<lambda>r. (profileID = None \<or> profileID = Some (ro_ProfileID r)) \<and> (treeID = None \<or> treeID = ro_TreeID r)) routes)"

definition router_Update :: "instant \<Rightarrow> uuid \<Rightarrow> route_update \<Rightarrow> route list \<Rightarrow> federation_error + route \<times> route list" where
  "router_Update now i update routes =
     (if i = uuid_Nil then Inl ErrInvalidInput
      else case find (\<lambda>r. ro_ID r = i) routes of
        None \<Rightarrow> Inl ErrRouteNotFound
      | Some current \<Rightarrow>
        (let treeID = (case ru_TreeID update of None \<Rightarrow> ro_TreeID current | Some t \<Rightarrow> t);
             peerID = (case ru_PeerID update of None \<Rightarrow> ro_PeerID current | Some p \<Rightarrow> p);
             routeType = (case ru_RouteType update of None \<Rightarrow> ro_RouteType current | Some t \<Rightarrow> t);
             priority = (case ru_Priority update of None \<Rightarrow> ro_Priority current | Some p \<Rightarrow> p);
             row = current\<lparr>ro_TreeID := treeID, ro_PeerID := peerID, ro_RouteType := routeType, ro_Priority := priority,
                           ro_UpdatedAt := now\<rparr>
         in case validateRoute routeType peerID of
              Some e \<Rightarrow> Inl e
            | None \<Rightarrow>
              if \<exists>x \<in> set routes. ro_ID x \<noteq> i \<and> ro_ProfileID x = ro_ProfileID current \<and> ro_TreeID x = treeID
              then Inl ErrDuplicateKey
              else Inr (row, map (\<lambda>r. if ro_ID r = i then row else r) routes)))"

definition router_Delete :: "uuid \<Rightarrow> route list \<Rightarrow> federation_error + route list" where
  "router_Delete i routes =
     (if i = uuid_Nil then Inl ErrInvalidInput
      else if \<exists>r \<in> set routes. ro_ID r = i then Inr (filter (\<lambda>r. ro_ID r \<noteq> i) routes) else Inl ErrRouteNotFound)"

definition router_Resolve :: "uuid \<Rightarrow> uuid \<Rightarrow> route list \<Rightarrow> federation_error + route" where
  "router_Resolve profileID treeID routes =
     (if profileID = uuid_Nil \<or> treeID = uuid_Nil then Inl ErrInvalidInput
      else case sort_stable route_before
             (filter (\<lambda>r. ro_ProfileID r = profileID \<and> (ro_TreeID r = Some treeID \<or> ro_TreeID r = None)) routes) of
        [] \<Rightarrow> Inl ErrRouteNotFound | r # _ \<Rightarrow> Inr r)"

section \<open>Frames and reassembly\<close>

definition chunk_size :: "relay_service \<Rightarrow> int" where
  "chunk_size s = (if rs_chunkSize s \<le> 0 then DefaultRelayChunkSize else rs_chunkSize s)"

definition chunk_count :: "relay_service \<Rightarrow> relay_event \<Rightarrow> int" where
  "chunk_count s e = max 1 ((int (length (re_Payload e)) + chunk_size s - 1) div chunk_size s)"

lemma chunk_size_pos: "0 < chunk_size s"
  by (simp add: chunk_size_def)

lemma chunk_count_pos: "1 \<le> chunk_count s e"
  by (simp add: chunk_count_def)

lemma Frames_eq: "Frames s e = map (frame_at (chunk_size s) e (chunk_count s e)) [0..<nat (chunk_count s e)]"
proof -
  have "0 \<le> (int (length (re_Payload e)) + chunk_size s - 1) div chunk_size s"
    using chunk_size_pos [of s] by (simp add: pos_imp_zdiv_nonneg_iff)
  then show ?thesis
    using chunk_size_pos [of s]
    by (simp add: Frames_def Let_def chunk_size_def [symmetric] chunk_count_def max_def del: DefaultRelayChunkSize_def)
qed

lemma frame_at_payload:
  assumes "0 < c"
  shows "rf_ChunkPayload (frame_at c e k i) = take (nat c) (drop (i * nat c) (re_Payload e))"
proof -
  obtain m where c: "c = int m" using assms by (metis nonneg_int_cases less_imp_le)
  have short: "take (nat (int (length xs) - int i * int m)) (drop (i * m) xs) = take m (drop (i * m) xs)"
    if "int (length xs) < (int i + 1) * int m" for xs :: string
  proof -
    define k where "k = i * m"
    then have k: "int i * int m = int k" by simp
    with that have "int (length xs) < int k + int m" by (simp add: distrib_right)
    then have "length (drop k xs) \<le> m" by simp
    moreover have "nat (int (length xs) - int k) = length (drop k xs)" by (simp add: nat_minus_as_int)
    ultimately show ?thesis unfolding k k_def [symmetric] by simp
  qed
  have full: "nat ((int i + 1) * int m - int i * int m) = m" by (simp add: distrib_right)
  have start: "nat (int i * int m) = i * m" by (simp add: nat_mult_distrib)
  show ?thesis
    by (cases "int (length (re_Payload e)) < (int i + 1) * int m")
      (simp_all only: frame_at_def Let_def c relay_frame.simps if_True if_False short full start nat_int)
qed

lemma concat_chunks: "concat (map (\<lambda>i. take m (drop (i * m) xs)) [0..<n]) = take (n * m) xs"
proof (induction n)
  case (Suc n)
  have "take (n * m) xs @ take m (drop (n * m) xs) = take (n * m + m) xs" by (simp add: take_add)
  with Suc show ?case by (simp add: add.commute)
qed simp

lemma chunks_cover: "length (re_Payload e) \<le> nat (chunk_count s e) * nat (chunk_size s)"
proof -
  let ?c = "chunk_size s" and ?n = "int (length (re_Payload e))"
  have c: "0 < ?c" by (rule chunk_size_pos)
  have "?n + ?c - 1 = (?n + ?c - 1) div ?c * ?c + (?n + ?c - 1) mod ?c" by simp
  moreover have "(?n + ?c - 1) mod ?c < ?c" using c by simp
  ultimately have "?n \<le> (?n + ?c - 1) div ?c * ?c" by linarith
  also have "\<dots> \<le> chunk_count s e * ?c" using c by (intro mult_right_mono) (auto simp: chunk_count_def)
  finally show ?thesis using c chunk_count_pos [of s e] by (simp add: nat_mult_distrib le_nat_iff flip: nat_mult_distrib)
qed

lemma Frames_concat: "concat (map rf_ChunkPayload (Frames s e)) = re_Payload e"
  using concat_chunks [of "nat (chunk_size s)" "re_Payload e" "nat (chunk_count s e)"] chunks_cover [of e s]
  by (simp add: Frames_eq frame_at_payload chunk_size_pos comp_def)

lemma Frames_length: "length (Frames s e) = nat (chunk_count s e)"
  by (simp add: Frames_eq)

lemma Frames_nth: "i < nat (chunk_count s e) \<Longrightarrow> Frames s e ! i = frame_at (chunk_size s) e (chunk_count s e) i"
  by (simp add: Frames_eq)

lemma Frames_meta:
  assumes "f \<in> set (Frames s e)"
  shows "rf_EventID f = re_EventID e" "rf_PeerID f = re_TargetPeerID e" "rf_SequenceNo f = re_SequenceNo e"
    "rf_ChunkTotal f = chunk_count s e" "1 \<le> rf_ChunkSeq f" "rf_ChunkSeq f \<le> chunk_count s e"
  using assms by (auto simp: Frames_eq frame_at_def Let_def)

lemma Frames_seqs: "map rf_ChunkSeq (Frames s e) = [1..chunk_count s e]"
  by (rule nth_equalityI) (auto simp: Frames_eq frame_at_def Let_def)

lemma Frames_inj: "inj_on rf_ChunkSeq (set (Frames s e))"
proof -
  have "distinct (map rf_ChunkSeq (Frames s e))" unfolding Frames_seqs by simp
  then show ?thesis by (simp add: distinct_map)
qed

lemma Frames_card: "card (set (Frames s e)) = nat (chunk_count s e)"
proof -
  have "distinct (Frames s e)"
    using Frames_seqs [of s e] distinct_map [of rf_ChunkSeq "Frames s e"] by simp
  then show ?thesis by (simp add: distinct_card Frames_length)
qed

lemma join_parts_concat:
  "(\<And>f. f \<in> set fs \<Longrightarrow> map_of parts (rf_ChunkSeq f) = Some (rf_ChunkPayload f)) \<Longrightarrow>
     join_parts parts (map rf_ChunkSeq fs) = Some (concat (map rf_ChunkPayload fs))"
  by (induction fs) simp_all

text \<open>The assembly a receiver holds after the frames \<open>S\<close> of an event.\<close>

definition assembling :: "relay_service \<Rightarrow> relay_event \<Rightarrow> relay_frame set \<Rightarrow> relay_chunks \<Rightarrow> bool" where
  "assembling s e S chunks \<longleftrightarrow>
     (if S = {} then map_of chunks (re_EventID e) = None
      else \<exists>a. map_of chunks (re_EventID e) = Some a \<and> ra_peerID a = re_TargetPeerID e \<and>
             ra_sequence a = re_SequenceNo e \<and> ra_total a = chunk_count s e \<and> map_ok (ra_parts a) \<and>
             fst ` set (ra_parts a) = rf_ChunkSeq ` S \<and>
             (\<forall>f \<in> S. map_of (ra_parts a) (rf_ChunkSeq f) = Some (rf_ChunkPayload f)))"

lemma acceptFrame_other:
  "rf_EventID g \<noteq> i \<Longrightarrow> map_of (snd (acceptFrame g chunks)) i = map_of chunks i"
  by (auto simp: acceptFrame_def Let_def update_conv' delete_conv' split: option.splits)

lemma acceptFrame_assembly:
  assumes "assembling s e S chunks" and "S \<subseteq> set (Frames s e)" and "f \<in> set (Frames s e)"
  shows "\<exists>a. ra_peerID a = re_TargetPeerID e \<and> ra_sequence a = re_SequenceNo e \<and> ra_total a = chunk_count s e \<and>
    map_ok (ra_parts a) \<and> fst ` set (ra_parts a) = rf_ChunkSeq ` insert f S \<and>
    (\<forall>g \<in> insert f S. map_of (ra_parts a) (rf_ChunkSeq g) = Some (rf_ChunkPayload g)) \<and>
    acceptFrame f chunks =
      (if int (length (ra_parts a)) \<noteq> ra_total a then (Inr None, map_put (re_EventID e) a chunks)
       else case join_parts (ra_parts a) [1..ra_total a] of
         None \<Rightarrow> (Inr None, map_put (re_EventID e) a chunks)
       | Some payload \<Rightarrow> (Inr (Some payload), map_del (re_EventID e) (map_put (re_EventID e) a chunks)))"
proof -
  note meta = Frames_meta [OF assms(3)]
  define a0 where "a0 = (case map_of chunks (re_EventID e) of
      None \<Rightarrow> \<lparr>ra_peerID = re_TargetPeerID e, ra_sequence = re_SequenceNo e, ra_total = chunk_count s e, ra_parts = []\<rparr>
    | Some a \<Rightarrow> a)"
  have "ra_peerID a0 = re_TargetPeerID e \<and> ra_sequence a0 = re_SequenceNo e \<and> ra_total a0 = chunk_count s e \<and>
    map_ok (ra_parts a0) \<and> fst ` set (ra_parts a0) = rf_ChunkSeq ` S \<and>
    (\<forall>g \<in> S. map_of (ra_parts a0) (rf_ChunkSeq g) = Some (rf_ChunkPayload g))"
  proof (cases "S = {}")
    case True
    with assms(1) show ?thesis by (simp add: assembling_def a0_def)
  next
    case False
    with assms(1) show ?thesis unfolding assembling_def a0_def if_not_P [OF False] by (elim exE conjE) simp
  qed
  then have a0: "ra_peerID a0 = re_TargetPeerID e" "ra_sequence a0 = re_SequenceNo e" "ra_total a0 = chunk_count s e"
    "map_ok (ra_parts a0)" "fst ` set (ra_parts a0) = rf_ChunkSeq ` S"
    "\<forall>g \<in> S. map_of (ra_parts a0) (rf_ChunkSeq g) = Some (rf_ChunkPayload g)"
    by blast+
  define a where "a = a0\<lparr>ra_parts := map_put (rf_ChunkSeq f) (rf_ChunkPayload f) (ra_parts a0)\<rparr>"
  have "map_of (ra_parts a) (rf_ChunkSeq g) = Some (rf_ChunkPayload g)" if "g \<in> insert f S" for g
    using that a0(6) assms(2,3) Frames_inj [of s e] by (auto simp: a_def update_conv' dest: inj_onD)
  moreover have "fst ` set (ra_parts a) = rf_ChunkSeq ` insert f S"
    using a0(5) by (simp add: a_def dom_update)
  moreover have "acceptFrame f chunks =
      (if int (length (ra_parts a)) \<noteq> ra_total a then (Inr None, map_put (re_EventID e) a chunks)
       else case join_parts (ra_parts a) [1..ra_total a] of
         None \<Rightarrow> (Inr None, map_put (re_EventID e) a chunks)
       | Some payload \<Rightarrow> (Inr (Some payload), map_del (re_EventID e) (map_put (re_EventID e) a chunks)))"
    using meta a0(1-3) chunk_count_pos [of s e]
    by (simp add: acceptFrame_def Let_def a_def a0_def [symmetric] update_last cong: option.case_cong)
  ultimately show ?thesis using a0(1-4) by (intro exI [of _ a]) (simp add: a_def)
qed

lemma acceptFrame_own:
  assumes "assembling s e S chunks" and "S \<subseteq> set (Frames s e)" and "f \<in> set (Frames s e)"
  shows "insert f S \<noteq> set (Frames s e) \<Longrightarrow>
      fst (acceptFrame f chunks) = Inr None \<and> assembling s e (insert f S) (snd (acceptFrame f chunks))"
    and "insert f S = set (Frames s e) \<Longrightarrow>
      fst (acceptFrame f chunks) = Inr (Some (re_Payload e)) \<and> map_of (snd (acceptFrame f chunks)) (re_EventID e) = None"
proof -
  obtain a where a: "ra_peerID a = re_TargetPeerID e" "ra_sequence a = re_SequenceNo e" "ra_total a = chunk_count s e"
    "map_ok (ra_parts a)" "fst ` set (ra_parts a) = rf_ChunkSeq ` insert f S"
    "\<forall>g \<in> insert f S. map_of (ra_parts a) (rf_ChunkSeq g) = Some (rf_ChunkPayload g)"
    and acc: "acceptFrame f chunks =
      (if int (length (ra_parts a)) \<noteq> ra_total a then (Inr None, map_put (re_EventID e) a chunks)
       else case join_parts (ra_parts a) [1..ra_total a] of
         None \<Rightarrow> (Inr None, map_put (re_EventID e) a chunks)
       | Some payload \<Rightarrow> (Inr (Some payload), map_del (re_EventID e) (map_put (re_EventID e) a chunks)))"
    using acceptFrame_assembly [OF assms] by blast
  have sub: "insert f S \<subseteq> set (Frames s e)" using assms(2,3) by simp
  have "length (ra_parts a) = card (set (map fst (ra_parts a)))" using a(4) by (metis distinct_card length_map)
  also have "\<dots> = card (insert f S)"
    using a(5) card_image [OF inj_on_subset [OF Frames_inj sub]] by simp
  finally have len: "length (ra_parts a) = card (insert f S)" .
  show "fst (acceptFrame f chunks) = Inr None \<and> assembling s e (insert f S) (snd (acceptFrame f chunks))"
    if "insert f S \<noteq> set (Frames s e)"
  proof -
    have "card (insert f S) < card (set (Frames s e))" using sub that by (intro psubset_card_mono) auto
    then have "int (length (ra_parts a)) \<noteq> ra_total a"
      using a(3) chunk_count_pos [of s e] by (simp add: len Frames_card)
    then show ?thesis using a by (simp add: acc assembling_def update_conv' del: image_insert)
  qed
  show "fst (acceptFrame f chunks) = Inr (Some (re_Payload e)) \<and> map_of (snd (acceptFrame f chunks)) (re_EventID e) = None"
    if "insert f S = set (Frames s e)"
  proof -
    have "int (length (ra_parts a)) = ra_total a"
      using a(3) chunk_count_pos [of s e] that by (simp add: len Frames_card)
    moreover have "join_parts (ra_parts a) [1..ra_total a] = Some (re_Payload e)"
      unfolding a(3) Frames_seqs [symmetric] Frames_concat [of s e, symmetric]
      using a(6) that by (intro join_parts_concat) simp
    ultimately show ?thesis by (simp add: acc delete_conv')
  qed
qed

lemma acceptFrames_other:
  "filter (\<lambda>g. rf_EventID g = i) fs = [] \<Longrightarrow>
     map snd (filter (\<lambda>(g, r). rf_EventID g = i) (zip fs (fst (acceptFrames fs chunks)))) = [] \<and>
     map_of (snd (acceptFrames fs chunks)) i = map_of chunks i"
proof (induction fs arbitrary: chunks)
  case (Cons g fs)
  then show ?case using acceptFrame_other [of g i chunks] by (auto simp: case_prod_unfold split: if_splits)
qed simp

lemma acceptFrames_reassemble:
  assumes "assembling s e S chunks" and "S \<union> set gs \<subseteq> set (Frames s e)" and "f \<notin> S \<union> set gs"
    and "insert f (S \<union> set gs) = set (Frames s e)" and "filter (\<lambda>g. rf_EventID g = re_EventID e) fs = gs @ [f]"
  shows "map snd (filter (\<lambda>(g, r). rf_EventID g = re_EventID e) (zip fs (fst (acceptFrames fs chunks)))) =
      replicate (length gs) (Inr None) @ [Inr (Some (re_Payload e))] \<and>
    map_of (snd (acceptFrames fs chunks)) (re_EventID e) = None"
  using assms
proof (induction fs arbitrary: S gs chunks)
  case (Cons g fs)
  let ?r = "acceptFrame g chunks"
  show ?case
  proof (cases "rf_EventID g = re_EventID e")
    case False
    then have "assembling s e S (snd ?r)"
      using Cons.prems(1) acceptFrame_other [OF False, of chunks] by (simp add: assembling_def)
    from Cons.IH [OF this Cons.prems(2-4)] Cons.prems(5) False show ?thesis by (simp add: case_prod_unfold)
  next
    case True
    show ?thesis
    proof (cases gs)
      case Nil
      with Cons.prems(5) True have g: "g = f" and none: "filter (\<lambda>g. rf_EventID g = re_EventID e) fs = []" by simp_all
      have "fst ?r = Inr (Some (re_Payload e)) \<and> map_of (snd ?r) (re_EventID e) = None"
        using Cons.prems Nil g by (intro acceptFrame_own(2) [of s e S]) auto
      with acceptFrames_other [OF none, of "snd ?r"] True Nil show ?thesis by (simp add: case_prod_unfold)
    next
      case (Cons g' gs')
      with Cons.prems(5) True have g: "g = g'" and fs: "filter (\<lambda>g. rf_EventID g = re_EventID e) fs = gs' @ [f]" by simp_all
      have own: "fst ?r = Inr None \<and> assembling s e (insert g S) (snd ?r)"
        using Cons.prems(1-4) Cons g by (intro acceptFrame_own(1)) auto
      from Cons.IH [OF conjunct2 [OF own] _ _ _ fs] Cons.prems(2-4) Cons g own True show ?thesis
        by (simp add: case_prod_unfold)
    qed
  qed
qed simp

section \<open>Delivery\<close>

text \<open>The effect of a run over the events of a peer: a prefix delivered, then at most one failure.\<close>

definition mark_events :: "instant \<Rightarrow> uuid set \<Rightarrow> string option \<Rightarrow> relay_event list \<Rightarrow> relay_event list" where
  "mark_events now ids failure = map (\<lambda>x. if re_EventID x \<in> ids then attempted now failure x else x)"

lemma mark_events_empty [simp]: "mark_events now {} failure xs = xs"
  by (simp add: mark_events_def)

lemma re_EventID_attempted [simp]: "re_EventID (attempted now failure x) = re_EventID x"
  by (simp add: attempted_def split: option.split)

lemma MarkAttempt_events [simp]: "rd_events (pg_MarkAttempt now i failure db) = mark_events now {i} failure (rd_events db)"
  by (simp add: pg_MarkAttempt_def mark_events_def)

lemma mark_events_insert:
  "i \<notin> ids \<Longrightarrow> mark_events now ids failure (mark_events now {i} failure xs) = mark_events now (insert i ids) failure xs"
  by (auto simp: mark_events_def)

lemma post_frames_sent:
  "\<exists>k \<le> length fs. nw_sent (snd (post_frames fs w)) = nw_sent w @ take k fs \<and>
     (fst (post_frames fs w) = None \<longrightarrow> k = length fs)"
proof (induction fs arbitrary: w)
  case (Cons f fs)
  let ?w = "snd (post_frame f w)"
  have sent: "nw_sent ?w = nw_sent w @ [f]" by (simp add: post_frame_def split: list.split)
  have step: "post_frames (f # fs) w = (case fst (post_frame f w) of Inl e \<Rightarrow> (Some e, ?w)
      | Inr st \<Rightarrow> if st \<noteq> 202 \<and> st \<noteq> 200
          then (Some (ErrDelivery (''federation relay: peer ACK status '' @ itoa st)), ?w) else post_frames fs ?w)"
    by (simp add: case_prod_unfold)
  from Cons.IH [of ?w] obtain k where k: "k \<le> length fs \<and> nw_sent (snd (post_frames fs ?w)) = nw_sent ?w @ take k fs \<and>
    (fst (post_frames fs ?w) = None \<longrightarrow> k = length fs)" ..
  show ?case
  proof (cases "post_frames (f # fs) w = post_frames fs ?w")
    case True
    then show ?thesis using sent k by (intro exI [of _ "Suc k"]) simp
  next
    case False
    then have "snd (post_frames (f # fs) w) = ?w" "fst (post_frames (f # fs) w) \<noteq> None"
      unfolding step by (simp_all split: sum.splits if_splits)
    then show ?thesis using sent by (intro exI [of _ 1]) (auto simp del: post_frames.simps)
  qed
qed simp

lemma relay_deliver_sent:
  "\<exists>k \<le> length (Frames s e). nw_sent (snd (relay_deliver s token peer e w)) = nw_sent w @ take k (Frames s e) \<and>
     (fst (relay_deliver s token peer e w) = None \<longrightarrow> k = length (Frames s e))"
  using post_frames_sent [of "Frames s e" w]
  by (cases "token peer") (auto simp: relay_deliver_def intro!: exI [of _ 0])

definition advance_all :: "uuid \<Rightarrow> relay_event list \<Rightarrow> relay_db \<Rightarrow> relay_db" where
  "advance_all p = fold (\<lambda>e. pg_AdvanceCursor p (re_SequenceNo e))"

lemma advance_all_simps [simp]:
  "advance_all p [] db = db" "advance_all p (e # es) db = advance_all p es (pg_AdvanceCursor p (re_SequenceNo e) db)"
  by (simp_all add: advance_all_def)

definition delivered_upto ::
    "relay_service \<Rightarrow> instant \<Rightarrow> uuid \<Rightarrow> relay_event list \<Rightarrow> relay_state \<Rightarrow> federation_error option \<Rightarrow> relay_state \<Rightarrow> nat \<Rightarrow> nat \<Rightarrow> bool" where
  "delivered_upto s now peerID events st err st' k j \<longleftrightarrow>
     k \<le> length events \<and> (err = None \<longleftrightarrow> k = length events) \<and>
     rd_events (st_db st') =
       (let ms = mark_events now (re_EventID ` set (take k events)) None (rd_events (st_db st))
        in case err of None \<Rightarrow> ms | Some e \<Rightarrow> mark_events now {re_EventID (events ! k)} (Some (federation_error_text e)) ms) \<and>
     rd_cursors (st_db st') = rd_cursors (advance_all peerID (take k events) (st_db st)) \<and>
     rd_receipts (st_db st') = rd_receipts (st_db st) \<and>
     nw_sent (st_net st') = nw_sent (st_net st) @ concat (map (Frames s) (take k events)) @
       (case err of None \<Rightarrow> [] | Some e \<Rightarrow> take j (Frames s (events ! k)))"

lemma advance_cursors_cong:
  "rd_cursors db = rd_cursors db' \<Longrightarrow>
     rd_cursors (advance_all p es db) = rd_cursors (advance_all p es db')"
  by (induction es arbitrary: db db') (simp_all add: pg_AdvanceCursor_def)

lemma deliver_events_spec:
  assumes "distinct (map re_EventID events)"
  shows "\<exists>k j. delivered_upto s now peerID events st (fst (deliver_events s token now peer peerID events st))
    (snd (deliver_events s token now peer peerID events st)) k j"
  using assms
proof (induction events arbitrary: st)
  case Nil
  then show ?case by (intro exI [of _ 0]) (simp add: delivered_upto_def)
next
  case (Cons ev events)
  obtain err w where d: "relay_deliver s token peer ev (st_net st) = (err, w)" by (cases "relay_deliver s token peer ev (st_net st)")
  obtain j where j: "j \<le> length (Frames s ev) \<and> nw_sent w = nw_sent (st_net st) @ take j (Frames s ev) \<and>
      (err = None \<longrightarrow> j = length (Frames s ev))"
    using relay_deliver_sent [of s ev token peer "st_net st"] unfolding d fst_conv snd_conv ..
  show ?case
  proof (cases err)
    case (Some e)
    then show ?thesis using d j
      by (intro exI [of _ 0] exI [of _ j]) (simp add: delivered_upto_def Let_def pg_MarkAttempt_def mark_events_def)
  next
    case None
    define st1 where "st1 = st\<lparr>st_db := pg_AdvanceCursor peerID (re_SequenceNo ev) (pg_MarkAttempt now (re_EventID ev) None (st_db st)),
      st_net := w\<rparr>"
    have run: "deliver_events s token now peer peerID (ev # events) st = deliver_events s token now peer peerID events st1"
      by (simp add: d None st1_def)
    obtain k j' where k: "delivered_upto s now peerID events st1 (fst (deliver_events s token now peer peerID events st1))
      (snd (deliver_events s token now peer peerID events st1)) k j'"
      using Cons.IH [of st1] Cons.prems by (metis distinct.simps(2) list.simps(9))
    have new: "re_EventID ev \<notin> re_EventID ` set (take k events)"
      using Cons.prems by (auto dest: in_set_takeD)
    have "rd_events (st_db st1) = mark_events now {re_EventID ev} None (rd_events (st_db st))"
      "nw_sent (st_net st1) = nw_sent (st_net st) @ Frames s ev" "rd_receipts (st_db st1) = rd_receipts (st_db st)"
      using j None by (simp_all add: st1_def pg_AdvanceCursor_def pg_MarkAttempt_def mark_events_def)
    moreover have "rd_cursors (advance_all peerID es (st_db st1)) =
        rd_cursors (advance_all peerID (ev # es) (st_db st))" for es
      by (simp, rule advance_cursors_cong) (simp add: st1_def pg_AdvanceCursor_def pg_MarkAttempt_def)
    ultimately have "delivered_upto s now peerID (ev # events) st (fst (deliver_events s token now peer peerID events st1))
      (snd (deliver_events s token now peer peerID events st1)) (Suc k) j'"
      using k new unfolding delivered_upto_def by (simp add: mark_events_insert Let_def cong: option.case_cong)
    then show ?thesis unfolding run by blast
  qed
qed

lemma cursor_bounds:
  "(\<forall>e \<in> set es. re_SequenceNo e \<le> pg_Cursor p (advance_all p es db)) \<and>
    (pg_Cursor p (advance_all p es db) = pg_Cursor p db \<or> (\<exists>e \<in> set es. pg_Cursor p (advance_all p es db) = re_SequenceNo e)) \<and>
    (map_has (rd_cursors db) p \<longrightarrow> map_has (rd_cursors (advance_all p es db)) p \<and> pg_Cursor p db \<le> pg_Cursor p (advance_all p es db))"
proof (induction es arbitrary: db)
  case (Cons e es)
  let ?db = "pg_AdvanceCursor p (re_SequenceNo e) db"
  have "map_has (rd_cursors ?db) p" and "re_SequenceNo e \<le> pg_Cursor p ?db"
    and "map_has (rd_cursors db) p \<Longrightarrow> pg_Cursor p db \<le> pg_Cursor p ?db"
    and "pg_Cursor p ?db = pg_Cursor p db \<or> pg_Cursor p ?db = re_SequenceNo e"
    by (auto simp: pg_AdvanceCursor_def pg_Cursor_def map_has_def map_get_def max_def update_conv' split: option.split)
  with Cons.IH [of ?db] show ?case by fastforce
qed simp

lemma sequence_order: "weak_order (\<lambda>x y. re_SequenceNo x < re_SequenceNo y)"
  by (rule weak_orderI) auto

section \<open>Queue bound\<close>

lemma ranks_before_order: "weak_order ranks_before"
  by (rule weak_orderI) (auto simp: ranks_before_def)

lemma trim_queue_kept:
  fixes p :: uuid
  assumes "distinct (map re_EventID events)"
  defines "L \<equiv> sort_stable ranks_before (filter (\<lambda>e. re_TargetPeerID e = p) events)"
  shows "e \<in> set (trim_queue p events) \<longleftrightarrow> e \<in> set events \<and> (re_TargetPeerID e = p \<longrightarrow> e \<in> set (take MaxPeerQueueDepth L))"
proof -
  let ?N = "MaxPeerQueueDepth"
  have L: "set L = {e \<in> set events. re_TargetPeerID e = p}" by (auto simp: L_def)
  have split: "set L = set (take ?N L) \<union> set (drop ?N L)" by (metis append_take_drop_id set_append)
  have "distinct L" using assms(1) by (simp add: L_def distinct_map)
  then have disj: "set (take ?N L) \<inter> set (drop ?N L) = {}" by (metis append_take_drop_id distinct_append)
  have inj: "x = y" if "x \<in> set events" "y \<in> set events" "re_EventID x = re_EventID y" for x y
    using assms(1) that by (auto simp: distinct_map dest: inj_onD)
  have "e \<in> set (trim_queue p events) \<longleftrightarrow> e \<in> set events \<and> e \<notin> set (drop ?N L)"
  proof -
    have "x \<in> set events" if "x \<in> set (drop ?N L)" for x using L set_drop_subset [of ?N L] that by blast
    then have "e \<in> set events \<Longrightarrow> re_EventID e \<in> re_EventID ` set (drop ?N L) \<longleftrightarrow> e \<in> set (drop ?N L)"
      using inj [of e] by blast
    then show ?thesis
      by (auto simp: trim_queue_def Let_def L_def [symmetric] simp del: MaxPeerQueueDepth_def)
  qed
  then show ?thesis using L split disj by (auto simp del: MaxPeerQueueDepth_def)
qed

lemma trim_queue_depth:
  assumes "distinct (map re_EventID events)"
  shows "length (filter (\<lambda>e. re_TargetPeerID e = p) (trim_queue p events)) \<le> MaxPeerQueueDepth"
proof -
  let ?L = "sort_stable ranks_before (filter (\<lambda>e. re_TargetPeerID e = p) events)"
  let ?K = "filter (\<lambda>e. re_TargetPeerID e = p) (trim_queue p events)"
  have "distinct events" using assms by (simp add: distinct_map)
  then have "distinct ?K" by (simp add: trim_queue_def Let_def)
  then have "length ?K = card (set ?K)" by (rule distinct_card [symmetric])
  also have "\<dots> \<le> card (set (take MaxPeerQueueDepth ?L))"
    using trim_queue_kept [OF assms] by (intro card_mono) auto
  also have "\<dots> \<le> length (take MaxPeerQueueDepth ?L)" by (rule card_length)
  finally show ?thesis by simp
qed

lemma trim_queue_rank:
  assumes "distinct (map re_EventID events)" and "x \<in> set (trim_queue p events)" and "re_TargetPeerID x = p"
    and "d \<in> set events" and "d \<notin> set (trim_queue p events)"
  shows "\<not> ranks_before d x"
proof -
  let ?L = "sort_stable ranks_before (filter (\<lambda>e. re_TargetPeerID e = p) events)"
  let ?N = MaxPeerQueueDepth
  from assms have x: "x \<in> set (take ?N ?L)" and d: "re_TargetPeerID d = p" "d \<notin> set (take ?N ?L)"
    by (auto simp: trim_queue_kept [OF assms(1)] simp del: MaxPeerQueueDepth_def)
  moreover have "d \<in> set ?L" using assms(4) d(1) by simp
  ultimately have "d \<in> set (drop ?N ?L)"
    using set_append [of "take ?N ?L" "drop ?N ?L"] unfolding append_take_drop_id by blast
  moreover have "sorted_wrt (\<lambda>x y. \<not> ranks_before y x) (take ?N ?L @ drop ?N ?L)"
    unfolding append_take_drop_id by (rule sorted_sort_stable [OF ranks_before_order])
  ultimately show ?thesis using x unfolding sorted_wrt_append by blast
qed

section \<open>The limiter\<close>

fun allow_all :: "(instant \<times> string) list \<Rightarrow> peer_rate_limiter \<Rightarrow> (instant \<times> string) list \<times> peer_rate_limiter" where
  "allow_all [] l = ([], l)"
| "allow_all ((now, key) # calls) l =
     (case limiter_Allow now key l of (ok, l1) \<Rightarrow>
        (case allow_all calls l1 of (accepted, l2) \<Rightarrow> (if ok then (now, key) # accepted else accepted, l2)))"

definition count_in :: "(instant \<Rightarrow> bool) \<Rightarrow> instant list \<Rightarrow> int" where
  "count_in P A = int (length (filter P A))"

lemma count_in_simps [simp]:
  "count_in P [] = 0" "count_in P (A @ [t]) = count_in P A + (if P t then 1 else 0)"
  by (simp_all add: count_in_def)

lemma count_in_mono: "(\<And>x. x \<in> set A \<Longrightarrow> P x \<Longrightarrow> Q x) \<Longrightarrow> count_in P A \<le> count_in Q A"
  by (induction A) (auto simp: count_in_def)

lemma count_in_or: "(\<And>x. x \<in> set A \<Longrightarrow> P x \<Longrightarrow> Q x \<or> R x) \<Longrightarrow> count_in P A \<le> count_in Q A + count_in R A"
  by (induction A) (auto simp: count_in_def)

lemma count_in_none: "(\<And>x. x \<in> set A \<Longrightarrow> \<not> P x) \<Longrightarrow> count_in P A = 0"
  by (simp add: count_in_def filter_empty_conv)

text \<open>What a bucket says about the accepted times of its key.\<close>

definition bucket_ok :: "int \<Rightarrow> duration \<Rightarrow> rate_bucket \<Rightarrow> instant list \<Rightarrow> bool" where
  "bucket_ok limit w b A \<longleftrightarrow>
     (let s = rb_started b in
      if s = 0 then A = []
      else (\<forall>x \<in> set A. x < s + w) \<and> count_in (\<lambda>x. s \<le> x) A = rb_count b \<and> rb_count b \<le> limit \<and>
        (\<forall>a. s - w < a \<longrightarrow> count_in (\<lambda>x. a \<le> x \<and> x < s) A \<le> limit) \<and>
        (\<forall>a. count_in (\<lambda>x. a \<le> x \<and> x < a + w) A \<le> 2 * limit))"

lemma bucket_fresh:
  assumes "bucket_ok limit w b A" and "0 < limit" and "0 < w" and "0 < t" and "rb_started b = 0 \<or> t \<ge> rb_started b + w"
  shows "bucket_ok limit w \<lparr>rb_started = t, rb_count = 1\<rparr> (A @ [t])"
proof -
  let ?s = "rb_started b"
  have before: "x < t" if "x \<in> set A" for x
    using assms(1,5) that by (fastforce simp: bucket_ok_def Let_def split: if_splits)
  have recent: "count_in (\<lambda>x. a \<le> x \<and> x < t) A \<le> limit" if "t - w < a" for a
  proof (cases "?s = 0")
    case True
    with assms(1,2) show ?thesis by (simp add: bucket_ok_def)
  next
    case False
    with assms(5) that have "?s \<le> a" by simp
    then have "count_in (\<lambda>x. a \<le> x \<and> x < t) A \<le> count_in (\<lambda>x. ?s \<le> x) A" by (intro count_in_mono) simp
    with False assms(1) show ?thesis by (simp add: bucket_ok_def Let_def)
  qed
  have "count_in (\<lambda>x. a \<le> x \<and> x < a + w) (A @ [t]) \<le> 2 * limit" for a
  proof (cases "a \<le> t \<and> t < a + w")
    case True
    have "count_in (\<lambda>x. a \<le> x \<and> x < a + w) A \<le> count_in (\<lambda>x. a \<le> x \<and> x < t) A" by (intro count_in_mono) (simp add: before)
    with recent [of a] True assms(2) show ?thesis by simp
  next
    case False
    with assms(1,2) show ?thesis by (cases "?s = 0") (auto simp: bucket_ok_def Let_def, auto simp: count_in_def)
  qed
  moreover have "count_in (\<lambda>x. t \<le> x) A = 0" using before by (intro count_in_none) fastforce
  moreover have "x < t + w" if "x \<in> set A" for x using before [OF that] assms(3) by linarith
  ultimately show ?thesis using assms(2-4) recent by (simp add: bucket_ok_def)
qed

lemma bucket_more:
  assumes "bucket_ok limit w b A" and "0 < limit" and "0 < w" and "rb_started b \<noteq> 0" and "t < rb_started b + w"
    and "rb_started b \<le> t" and "rb_count b < limit"
  shows "bucket_ok limit w (b\<lparr>rb_count := rb_count b + 1\<rparr>) (A @ [t])"
proof -
  let ?s = "rb_started b"
  from assms(1,4) have old: "\<forall>x \<in> set A. x < ?s + w" "count_in (\<lambda>x. ?s \<le> x) A = rb_count b"
    "\<And>a. ?s - w < a \<Longrightarrow> count_in (\<lambda>x. a \<le> x \<and> x < ?s) A \<le> limit"
    "\<And>a. count_in (\<lambda>x. a \<le> x \<and> x < a + w) A \<le> 2 * limit"
    by (simp_all add: bucket_ok_def Let_def)
  have "count_in (\<lambda>x. a \<le> x \<and> x < a + w) (A @ [t]) \<le> 2 * limit" for a
  proof (cases "a \<le> t \<and> t < a + w")
    case True
    then have "count_in (\<lambda>x. a \<le> x \<and> x < ?s) A \<le> limit" using old(3) assms(6) by simp
    moreover have "count_in (\<lambda>x. a \<le> x \<and> x < a + w) A \<le> count_in (\<lambda>x. a \<le> x \<and> x < ?s) A + count_in (\<lambda>x. ?s \<le> x) A"
      by (rule count_in_or) auto
    ultimately show ?thesis using True old(2) assms(7) by simp
  qed (use old(4) [of a] in auto)
  then show ?thesis using old assms(4-7) by (simp add: bucket_ok_def)
qed

abbreviation no_bucket :: rate_bucket where "no_bucket \<equiv> \<lparr>rb_started = 0, rb_count = 0\<rparr>"

definition times_of :: "string \<Rightarrow> (instant \<times> string) list \<Rightarrow> instant list" where
  "times_of key calls = map fst (filter (\<lambda>(t, k). k = key) calls)"

lemma times_of_simps [simp]:
  "times_of key [] = []" "times_of key (calls @ [(t, k)]) = times_of key calls @ (if k = key then [t] else [])"
  by (simp_all add: times_of_def)

definition limiter_ok :: "peer_rate_limiter \<Rightarrow> (instant \<times> string) list \<Rightarrow> instant \<Rightarrow> bool" where
  "limiter_ok l accepted now \<longleftrightarrow> (\<forall>key.
     bucket_ok (prl_limit l) (prl_window l) (map_get no_bucket (prl_buckets l) key) (times_of key accepted) \<and>
     rb_started (map_get no_bucket (prl_buckets l) key) \<le> now)"

lemma time_Sub_ge: "w \<le> int64_max \<Longrightarrow> int64_min < w \<Longrightarrow> time_Sub t s \<ge> w \<longleftrightarrow> t \<ge> s + w"
  by (auto simp: time_Sub_def)

lemma limiter_Allow_ok:
  assumes "limiter_ok l accepted now0" and "0 < prl_limit l" and "0 < prl_window l" and "prl_window l \<le> int64_max"
    and "0 < now" and "now0 \<le> now"
  shows "limiter_ok (snd (limiter_Allow now key l)) (if fst (limiter_Allow now key l) then accepted @ [(now, key)] else accepted) now \<and>
    prl_limit (snd (limiter_Allow now key l)) = prl_limit l \<and> prl_window (snd (limiter_Allow now key l)) = prl_window l"
proof -
  let ?b = "map_get no_bucket (prl_buckets l) key" and ?A = "times_of key accepted"
  from assms(1) have ok: "bucket_ok (prl_limit l) (prl_window l) ?b ?A" and le: "rb_started ?b \<le> now"
    using assms(6) by (auto simp: limiter_ok_def intro: order_trans)
  define reset where "reset \<longleftrightarrow> rb_started ?b = 0 \<or> now \<ge> rb_started ?b + prl_window l"
  define b where "b = (if reset then \<lparr>rb_started = now, rb_count = 0\<rparr> else ?b)"
  have "int64_min < prl_window l" using assms(3) by (simp add: int64_min_def)
  then have run: "limiter_Allow now key l = (if rb_count b \<ge> prl_limit l then (False, l)
      else (True, l\<lparr>prl_buckets := map_put key (b\<lparr>rb_count := rb_count b + 1\<rparr>) (prl_buckets l)\<rparr>))"
    using assms(2-4) by (simp add: limiter_Allow_def Let_def time_IsZero_def time_Sub_ge b_def reset_def cong: if_cong)
  show ?thesis
  proof (cases "rb_count b \<ge> prl_limit l")
    case True
    then show ?thesis using assms(1,6) run by (auto simp: limiter_ok_def intro: order_trans)
  next
    case False
    have "bucket_ok (prl_limit l) (prl_window l) (b\<lparr>rb_count := rb_count b + 1\<rparr>) (?A @ [now])"
    proof (cases reset)
      case True
      with bucket_fresh [OF ok assms(2,3,5)] show ?thesis by (simp add: b_def reset_def)
    next
      case F: False
      with bucket_more [OF ok assms(2,3)] le False show ?thesis by (simp add: b_def reset_def)
    qed
    moreover have "rb_started b \<le> now" using le by (simp add: b_def)
    moreover have "rb_started (map_get no_bucket (prl_buckets l) k) \<le> now" for k
      using assms(1,6) by (auto simp: limiter_ok_def intro: order_trans)
    ultimately show ?thesis using assms(1) False run by (simp add: limiter_ok_def)
  qed
qed

lemma limiter_run_ok:
  assumes "limiter_ok l accepted now0" and "0 < prl_limit l" and "0 < prl_window l" and "prl_window l \<le> int64_max"
    and "sorted (now0 # map fst calls)" and "\<forall>(t, k) \<in> set calls. 0 < t"
  shows "\<exists>now. limiter_ok (snd (allow_all calls l)) (accepted @ fst (allow_all calls l)) now \<and>
    prl_limit (snd (allow_all calls l)) = prl_limit l \<and> prl_window (snd (allow_all calls l)) = prl_window l"
  using assms
proof (induction calls arbitrary: l accepted now0)
  case (Cons c calls)
  obtain t k where c: "c = (t, k)" by (cases c)
  let ?r = "limiter_Allow t k l"
  from Cons.prems have "0 < t" "now0 \<le> t" "sorted (t # map fst calls)" "\<forall>(t, k) \<in> set calls. 0 < t" by (auto simp: c)
  with limiter_Allow_ok [OF Cons.prems(1-4), of t k]
    Cons.IH [of "snd ?r" "if fst ?r then accepted @ [(t, k)] else accepted" t] Cons.prems(2-4)
  show ?case by (auto simp: c case_prod_unfold split: if_splits)
qed auto

section \<open>Routes\<close>

definition route_ok :: "route \<Rightarrow> bool" where
  "route_ok r \<longleftrightarrow> ro_ProfileID r \<noteq> uuid_Nil \<and>
     (ro_RouteType r = RouteLocal \<and> ro_PeerID r = None \<or>
      ro_RouteType r = RouteRemote \<and> ro_PeerID r \<noteq> None \<and> ro_PeerID r \<noteq> Some uuid_Nil)"

definition routes_ok :: "route list \<Rightarrow> bool" where
  "routes_ok rs \<longleftrightarrow> (\<forall>r \<in> set rs. route_ok r) \<and> distinct (map ro_ID rs) \<and>
     distinct (map (\<lambda>r. (ro_ProfileID r, ro_TreeID r)) rs)"

lemma validateRoute_ok:
  "validateRoute ty p = None \<longleftrightarrow> ty = RouteLocal \<and> p = None \<or> ty = RouteRemote \<and> p \<noteq> None \<and> p \<noteq> Some uuid_Nil"
  by (auto simp: validateRoute_def)

lemma route_before_order: "weak_order route_before"
  by (rule weak_orderI) (auto simp: route_before_def)

lemma router_Create_ok:
  assumes "routes_ok rs" and "router_Create fresh now r rs = Inr (row, rs')" and "fresh \<notin> ro_ID ` set rs"
  shows "routes_ok rs' \<and> row \<in> set rs'"
proof -
  from assms(2) obtain ro where row: "row = ro\<lparr>ro_ID := fresh, ro_CreatedAt := now, ro_UpdatedAt := now\<rparr>" "rs' = rs @ [row]"
    and valid: "ro_ProfileID ro \<noteq> uuid_Nil" "validateRoute (ro_RouteType ro) (ro_PeerID ro) = None"
    and uniq: "\<not> (\<exists>x \<in> set rs. ro_ProfileID x = ro_ProfileID ro \<and> ro_TreeID x = ro_TreeID ro)"
    by (auto simp: router_Create_def Let_def split: option.splits if_splits)
  have "route_ok row" using valid by (simp add: row route_ok_def validateRoute_ok)
  moreover have "ro_ID row = fresh" by (simp add: row)
  moreover have "(ro_ProfileID row, ro_TreeID row) \<notin> (\<lambda>r. (ro_ProfileID r, ro_TreeID r)) ` set rs"
    using uniq by (auto simp: row)
  ultimately show ?thesis using assms(1,3) unfolding row(2) routes_ok_def by simp
qed

lemma distinct_map_update:
  assumes "distinct (map f xs)" and "distinct (map g xs)" and "\<And>x. x \<in> set xs \<Longrightarrow> f x \<noteq> i \<Longrightarrow> g x \<noteq> g row"
  shows "distinct (map g (map (\<lambda>x. if f x = i then row else x) xs))"
  using assms
proof (induction xs)
  case (Cons x xs)
  then have tail: "distinct (map g (map (\<lambda>x. if f x = i then row else x) xs))" by simp
  show ?case
  proof (cases "f x = i")
    case True
    with Cons.prems(1) have "map (\<lambda>x. if f x = i then row else x) xs = xs"
      by (intro map_idI) (auto simp: image_iff)
    moreover have "g row \<noteq> g y" if "y \<in> set xs" for y
      using Cons.prems(1) Cons.prems(3) [of y] True that by (auto simp: image_iff)
    then have "g row \<notin> g ` set xs" by blast
    ultimately show ?thesis using True tail by simp
  next
    case False
    with Cons.prems(2) Cons.prems(3) [of x] have "g x \<noteq> g row" "g x \<notin> g ` set xs" by auto
    then show ?thesis using False tail by (auto split: if_splits)
  qed
qed simp

lemma router_Update_ok:
  assumes "routes_ok rs" and "router_Update now i u rs = Inr (row, rs')"
  shows "routes_ok rs' \<and> row \<in> set rs'"
proof -
  from assms(2) obtain current where cur: "find (\<lambda>r. ro_ID r = i) rs = Some current"
    by (auto simp: router_Update_def split: if_splits option.splits)
  then have in_rs: "current \<in> set rs" "ro_ID current = i" by (auto simp: find_Some_iff)
  let ?u = "\<lambda>r. if ro_ID r = i then row else r"
  from assms(2) cur in_rs have row: "ro_ID row = i" "ro_ProfileID row = ro_ProfileID current"
    and valid: "validateRoute (ro_RouteType row) (ro_PeerID row) = None"
    and uniq: "\<And>x. x \<in> set rs \<Longrightarrow> ro_ID x \<noteq> i \<Longrightarrow> (ro_ProfileID x, ro_TreeID x) \<noteq> (ro_ProfileID row, ro_TreeID row)"
    and rs': "rs' = map ?u rs"
    by (auto simp: router_Update_def Let_def split: if_splits option.splits)
  have "route_ok row" using valid row(2) in_rs assms(1) by (auto simp: route_ok_def routes_ok_def validateRoute_ok)
  moreover have "map ro_ID rs' = map ro_ID rs" using row(1) by (simp add: rs')
  moreover have "distinct (map (\<lambda>r. (ro_ProfileID r, ro_TreeID r)) rs')"
    unfolding rs' using assms(1) uniq by (intro distinct_map_update) (auto simp: routes_ok_def)
  moreover have "row \<in> set rs'" "set rs' \<subseteq> insert row (set rs)" using in_rs by (auto simp: rs')
  ultimately show ?thesis using assms(1) unfolding routes_ok_def by auto
qed

lemma router_Delete_ok:
  "routes_ok rs \<Longrightarrow> router_Delete i rs = Inr rs' \<Longrightarrow> routes_ok rs'"
  by (auto simp: router_Delete_def routes_ok_def distinct_map_filter split: if_splits)

text \<open>The route tables the server can reach; the database gives a new row an unused identifier.\<close>

inductive routes_reachable :: "route list \<Rightarrow> bool" where
  empty: "routes_reachable []"
| create: "routes_reachable rs \<Longrightarrow> fresh \<notin> ro_ID ` set rs \<Longrightarrow> router_Create fresh now r rs = Inr (row, rs') \<Longrightarrow>
    routes_reachable rs'"
| update: "routes_reachable rs \<Longrightarrow> router_Update now i u rs = Inr (row, rs') \<Longrightarrow> routes_reachable rs'"
| delete: "routes_reachable rs \<Longrightarrow> router_Delete i rs = Inr rs' \<Longrightarrow> routes_reachable rs'"

lemma routes_reachable_ok: "routes_reachable rs \<Longrightarrow> routes_ok rs"
proof (induction rule: routes_reachable.induct)
  case empty
  then show ?case by (simp add: routes_ok_def)
qed (blast dest: router_Create_ok router_Update_ok router_Delete_ok)+

lemma router_Resolve_best:
  assumes "router_Resolve p t rs = Inr r"
  defines "cs \<equiv> filter (\<lambda>r. ro_ProfileID r = p \<and> (ro_TreeID r = Some t \<or> ro_TreeID r = None)) rs"
  shows "r \<in> set cs \<and> (\<forall>r' \<in> set cs. \<not> route_before r' r)"
proof -
  from assms obtain rest where sorted: "sort_stable route_before cs = r # rest"
    by (auto simp: router_Resolve_def split: if_splits list.splits)
  then have "set cs = insert r (set rest)" using set_sort_stable [of route_before cs] by simp
  moreover have "\<forall>r' \<in> set rest. \<not> route_before r' r"
    using sorted_sort_stable [OF route_before_order, of cs] by (simp add: sorted)
  moreover have "\<not> route_before r r" by (simp add: route_before_def)
  ultimately show ?thesis by auto
qed

section \<open>Properties\<close>

text \<open>
  C9: frames survive the network. The frames of an event, each received at least once, in any
  order, with repetitions and interleaved with the frames of other events, leave the
  receiver waiting until the last missing one, which returns exactly the payload sent; the
  assembly is then forgotten.
\<close>

theorem relay_frames_roundtrip:
  assumes "filter (\<lambda>g. rf_EventID g = re_EventID e) received = early @ [final]"
    and "set (early @ [final]) = set (Frames s e)" and "final \<notin> set early"
    and "map_of chunks (re_EventID e) = None"
  shows "map snd (filter (\<lambda>(g, r). rf_EventID g = re_EventID e) (zip received (fst (acceptFrames received chunks)))) =
      replicate (length early) (Inr None) @ [Inr (Some (re_Payload e))] \<and>
    map_of (snd (acceptFrames received chunks)) (re_EventID e) = None"
  using assms by (intro acceptFrames_reassemble [where S = "{}"]) (auto simp: assembling_def)

text \<open>
  C10: delivery never passes a failed sequence. A run over the pending events of a peer, which
  are in the order of their sequences, delivers a prefix of them and stops at the first
  failure: the events of the prefix become delivered, the one that failed counts an attempt,
  no other row changes; the frames sent are those of the prefix and some of the failed event;
  and the replay cursor covers every delivered event and moves only to one of them.
\<close>

theorem deliver_pending_in_order:
  assumes "DeliverPending s token now peerID st = (err, st')" and "peer_Get peerID (st_peers st) = Inr peer"
    and "distinct (map re_EventID (rd_events (st_db st)))"
  defines "evs \<equiv> pg_Pending peerID 100 (st_db st)"
  shows "\<exists>k j. k \<le> length evs \<and> (err = None \<longleftrightarrow> k = length evs) \<and>
    sorted_wrt (\<lambda>x y. re_SequenceNo x \<le> re_SequenceNo y) evs \<and>
    rd_events (st_db st') = map (\<lambda>x. if x \<in> set (take k evs) then attempted now None x
      else if k < length evs \<and> x = evs ! k then attempted now (map_option federation_error_text err) x else x) (rd_events (st_db st)) \<and>
    nw_sent (st_net st') = nw_sent (st_net st) @ concat (map (Frames s) (take k evs)) @
      (if k < length evs then take j (Frames s (evs ! k)) else []) \<and>
    (\<forall>x \<in> set (take k evs). re_SequenceNo x \<le> pg_Cursor peerID (st_db st')) \<and>
    (pg_Cursor peerID (st_db st') = pg_Cursor peerID (st_db st) \<or>
      (\<exists>x \<in> set (take k evs). pg_Cursor peerID (st_db st') = re_SequenceNo x))"
proof -
  let ?rows = "rd_events (st_db st)"
  have set_evs: "set evs \<subseteq> set ?rows" by (auto simp: evs_def pg_Pending_def dest: in_set_takeD)
  have inj: "inj_on re_EventID (set ?rows)" and rows: "distinct ?rows" using assms(3) by (auto simp: distinct_map)
  have "distinct evs" using rows by (simp add: evs_def pg_Pending_def)
  then have ids: "distinct (map re_EventID evs)" using inj set_evs by (simp add: distinct_map inj_on_subset)
  have sorted: "sorted_wrt (\<lambda>x y. re_SequenceNo x \<le> re_SequenceNo y) evs"
    using sorted_wrt_take [OF sorted_sort_stable [OF sequence_order]] by (simp add: evs_def pg_Pending_def not_less)
  have run: "deliver_events s token now peer peerID evs st = (err, st')"
    using assms(1,2) by (simp add: DeliverPending_def evs_def)
  obtain k j where d: "delivered_upto s now peerID evs st err st' k j"
    using deliver_events_spec [OF ids, of s now peerID st token peer] unfolding run by auto
  have member: "re_EventID x \<in> re_EventID ` set (take k evs) \<longleftrightarrow> x \<in> set (take k evs)" if "x \<in> set ?rows" for x
    using that inj set_evs by (auto dest: inj_onD in_set_takeD)
  have row: "re_EventID x = re_EventID (evs ! k) \<longleftrightarrow> x = evs ! k" if "x \<in> set ?rows" "k < length evs" for x
    using that inj set_evs by (auto dest: inj_onD nth_mem)
  have apart: "evs ! k \<notin> set (take k evs)" if "k < length evs"
    using that \<open>distinct evs\<close> by (auto simp: in_set_conv_nth nth_eq_iff_index_eq)
  have "rd_events (st_db st') = map (\<lambda>x. if x \<in> set (take k evs) then attempted now None x
      else if k < length evs \<and> x = evs ! k then attempted now (map_option federation_error_text err) x else x) ?rows"
  proof (cases err)
    case None
    with d have k: "k = length evs" by (simp add: delivered_upto_def)
    with d None show ?thesis using member by (auto simp: delivered_upto_def mark_events_def)
  next
    case (Some e)
    with d have k: "k < length evs" by (auto simp: delivered_upto_def)
    with d Some show ?thesis by (auto simp: delivered_upto_def Let_def mark_events_def member row apart)
  qed
  moreover have "pg_Cursor peerID (st_db st') = pg_Cursor peerID (advance_all peerID (take k evs) (st_db st))"
    using d by (simp add: delivered_upto_def pg_Cursor_def)
  ultimately show ?thesis
    using d sorted cursor_bounds [of "take k evs" peerID "st_db st"]
    by (intro exI [of _ k] exI [of _ j]) (auto simp: delivered_upto_def split: option.splits)
qed

text \<open>
  the queue of a peer is bounded. After an event is enqueued a peer has at most ten
  thousand rows, the rows of the other peers are those there were, and no row that was
  dropped ranks before one that was kept: a delivered event goes before an undelivered one,
  and an older one before a later one.
\<close>

lemma enqueue_bounded:
  assumes "pg_Enqueue fresh now event db = Inr (row, db')" and "distinct (map re_EventID (rd_events db))"
  shows "length (filter (\<lambda>e. re_TargetPeerID e = re_TargetPeerID row) (rd_events db')) \<le> 10000 \<and>
    filter (\<lambda>e. re_TargetPeerID e \<noteq> re_TargetPeerID row) (rd_events db') =
      filter (\<lambda>e. re_TargetPeerID e \<noteq> re_TargetPeerID row) (rd_events db) \<and>
    (\<forall>kept \<in> set (rd_events db'). \<forall>dropped \<in> set (rd_events db @ [row]) - set (rd_events db').
       re_TargetPeerID kept = re_TargetPeerID row \<longrightarrow> \<not> ranks_before dropped kept)"
proof -
  let ?p = "re_TargetPeerID row" and ?rows = "rd_events db @ [row]"
  from assms(1) have db': "rd_events db' = trim_queue ?p ?rows"
    and new: "re_EventID row \<notin> re_EventID ` set (rd_events db)"
    by (auto simp: pg_Enqueue_def Let_def split: if_splits)
  from assms(2) new have ids: "distinct (map re_EventID ?rows)" by simp
  have "filter (\<lambda>e. re_TargetPeerID e \<noteq> ?p) (rd_events db') = filter (\<lambda>e. re_TargetPeerID e \<noteq> ?p) ?rows"
  proof -
    obtain P where P: "trim_queue ?p ?rows = filter P ?rows" unfolding trim_queue_def Let_def by blast
    have "P x" if "x \<in> set ?rows" "re_TargetPeerID x \<noteq> ?p" for x
    proof -
      have "x \<in> set (trim_queue ?p ?rows)" using that by (simp only: trim_queue_kept [OF ids]) blast
      then show ?thesis unfolding P set_filter by blast
    qed
    then show ?thesis unfolding db' P filter_filter by (intro filter_cong) auto
  qed
  then show ?thesis
    using trim_queue_depth [OF ids, of ?p] trim_queue_rank [OF ids] unfolding db' by auto
qed

text \<open>
  the ingress limiter. Whatever the calls, in any interval as long as the window a key has
  at most twice the limit of its calls accepted.
\<close>

lemma limiter_window_bound:
  assumes "0 < limit" and "0 < window" and "window \<le> int64_max"
    and "sorted (map fst calls)" and "\<forall>(t, k) \<in> set calls. 0 < t"
  shows "int (length (filter (\<lambda>(t, k). k = key \<and> start \<le> t \<and> t < start + window)
    (fst (allow_all calls (NewPeerRateLimiter limit window))))) \<le> 2 * limit"
proof -
  let ?l = "NewPeerRateLimiter limit window"
  have "limiter_ok ?l [] 0" by (simp add: limiter_ok_def NewPeerRateLimiter_def bucket_ok_def)
  moreover have "sorted (0 # map fst calls)" using assms(4,5) by (auto simp: less_imp_le)
  ultimately obtain now where "limiter_ok (snd (allow_all calls ?l)) (fst (allow_all calls ?l)) now"
    and "prl_limit (snd (allow_all calls ?l)) = limit" "prl_window (snd (allow_all calls ?l)) = window"
    using limiter_run_ok [of ?l "[]" 0 calls] assms by (auto simp: NewPeerRateLimiter_def)
  then have "count_in (\<lambda>x. start \<le> x \<and> x < start + window) (times_of key (fst (allow_all calls ?l))) \<le> 2 * limit"
    using assms(1) by (auto simp: limiter_ok_def bucket_ok_def Let_def dest!: spec [of _ key] split: if_splits)
  moreover have "count_in (\<lambda>x. start \<le> x \<and> x < start + window) (times_of key xs) =
      int (length (filter (\<lambda>(t, k). k = key \<and> start \<le> t \<and> t < start + window) xs))" for xs
    by (auto simp: count_in_def times_of_def filter_map comp_def case_prod_unfold conj_commute intro!: arg_cong [where f = length] filter_cong)
  ultimately show ?thesis by simp
qed


text \<open>
  A handshake does not reopen a revoked link, but a failed delivery does: at the failure limit
  the peer becomes disconnected, whatever its state was, and its revocation is erased.
\<close>

lemma revoked_not_accepted:
  assumes "RevokeFederationLink now i peers = Inr peers'" and "p \<in> set peers" and "fp_ID p = i"
    and "distinct (map fp_ID peers)" and "distinct (map (\<lambda>p. (fp_ServerURL p, fp_TreeID p)) peers)"
    and "fp_ServerURL q = fp_ServerURL p" and "fp_TreeID q = fp_TreeID p"
  shows "UpsertAccepted fresh now' q peers' = Inl ErrFederationNotFound"
proof -
  let ?r = "\<lambda>x. if fp_ID x = i then x\<lparr>fp_State := PeerRevoked, fp_RevokedAt := Some now, fp_RevokeReason := Some ''revoked by user''\<rparr> else x"
  have peers': "peers' = map ?r peers"
    using assms(1) by (auto simp: RevokeFederationLink_def peer_SetState_def split: if_splits)
  have "find (\<lambda>x. fp_ServerURL x = fp_ServerURL q \<and> fp_TreeID x = fp_TreeID q) (map ?r xs) = Some (?r p)"
    if "p \<in> set xs" "distinct (map (\<lambda>p. (fp_ServerURL p, fp_TreeID p)) xs)" for xs
    using that
  proof (induction xs)
    case (Cons x xs)
    show ?case
    proof (cases "(fp_ServerURL x, fp_TreeID x) = (fp_ServerURL p, fp_TreeID p)")
      case True
      with Cons.prems have "p \<notin> set xs" by force
      with Cons.prems have "x = p" by simp
      with assms(6,7) show ?thesis by simp
    next
      case False
      then have "p \<in> set xs" using Cons.prems(1) by auto
      with Cons.IH Cons.prems(2) False assms(6,7) show ?thesis by auto
    qed
  qed simp
  from this [OF assms(2,5)] show ?thesis by (simp add: UpsertAccepted_def peers' assms(3))
qed

definition demoPeer :: federation_peer where
  "demoPeer = \<lparr>fp_ID = 2, fp_ServerURL = ''https://b'', fp_SigningKeyFP = [], fp_ECDHEPublicKey = [], fp_SigningPublicKey = [],
     fp_Role = RoleInitiator, fp_State = PeerRevoked, fp_TreeID = 4, fp_CreatedBy = 1, fp_CreatedAt = 1, fp_ConnectedAt = None,
     fp_LastHeartbeat = None, fp_RevokedAt = Some 5, fp_RevokeReason = Some ''revoked by user''\<rparr>"

definition demoEvent :: "uuid \<Rightarrow> int \<Rightarrow> string \<Rightarrow> int \<Rightarrow> relay_event" where
  "demoEvent i seq payload attempts = \<lparr>re_EventID = i, re_TreeID = 4, re_SenderProfileID = 1, re_TargetPeerID = 2,
     re_SequenceNo = seq, re_Payload = payload, re_Status = RelayPending, re_DeliveryAttempts = attempts, re_LastError = None,
     re_CreatedAt = 1, re_DeliveredAt = None\<rparr>"

definition demoState :: "int \<Rightarrow> relay_state" where
  "demoState attempts = \<lparr>st_db = \<lparr>rd_events = [demoEvent 7 1 ''ab'' attempts], rd_cursors = [], rd_receipts = []\<rparr>,
     st_peers = [demoPeer], st_net = \<lparr>nw_replies = [], nw_sent = []\<rparr>\<rparr>"

lemma failed_delivery_reopens_revoked_link:
  "map fp_State (st_peers (snd (DeliverPending NewRelayService (\<lambda>_. Inr ''t'') 9 2 (demoState 4)))) = [PeerDisconnected] \<and>
   map fp_RevokedAt (st_peers (snd (DeliverPending NewRelayService (\<lambda>_. Inr ''t'') 9 2 (demoState 4)))) = [None]"
  by (simp add: DeliverPending_def demoState_def demoPeer_def demoEvent_def peer_Get_def pg_Pending_def relay_deliver_def
      NewRelayService_def Frames_def Let_def post_frame_def peer_SetState_def)

subsection \<open>Witnesses\<close>

definition smallFrames :: relay_service where
  "smallFrames = \<lparr>rs_chunkSize = 2, rs_failureLimit = 5\<rparr>"

lemma demo_frames: "Frames smallFrames (demoEvent 7 1 ''abc'' 0) =
    [\<lparr>rf_EventID = 7, rf_PeerID = 2, rf_SequenceNo = 1, rf_ChunkSeq = 1, rf_ChunkTotal = 2, rf_ChunkPayload = ''ab''\<rparr>,
     \<lparr>rf_EventID = 7, rf_PeerID = 2, rf_SequenceNo = 1, rf_ChunkSeq = 2, rf_ChunkTotal = 2, rf_ChunkPayload = ''c''\<rparr>]"
  by code_simp

theorem relay_frames_roundtrip_witness:
  "map_of (snd (acceptFrames (rev (Frames smallFrames (demoEvent 7 1 ''abc'' 0))) [])) 7 = None \<and>
   map snd (filter (\<lambda>(g, r). rf_EventID g = 7) (zip (rev (Frames smallFrames (demoEvent 7 1 ''abc'' 0)))
     (fst (acceptFrames (rev (Frames smallFrames (demoEvent 7 1 ''abc'' 0))) [])))) = [Inr None, Inr (Some ''abc'')]"
proof -
  have e: "re_EventID (demoEvent 7 1 ''abc'' 0) = 7" "re_Payload (demoEvent 7 1 ''abc'' 0) = ''abc''" by (simp_all add: demoEvent_def)
  have "filter (\<lambda>g. rf_EventID g = re_EventID (demoEvent 7 1 ''abc'' 0)) (rev (Frames smallFrames (demoEvent 7 1 ''abc'' 0))) =
      [Frames smallFrames (demoEvent 7 1 ''abc'' 0) ! 1] @ [Frames smallFrames (demoEvent 7 1 ''abc'' 0) ! 0]"
    unfolding demo_frames e by simp
  from relay_frames_roundtrip [OF this, of smallFrames "[]"] show ?thesis
    unfolding e by (auto simp: demo_frames)
qed

theorem deliver_pending_in_order_witness:
  "\<exists>k j. k \<le> length (pg_Pending 2 100 (st_db (demoState 0))) \<and>
     nw_sent (st_net (snd (DeliverPending smallFrames (\<lambda>_. Inr ''t'') 9 2 (demoState 0)))) =
       nw_sent (st_net (demoState 0)) @ concat (map (Frames smallFrames) (take k (pg_Pending 2 100 (st_db (demoState 0))))) @
       (if k < length (pg_Pending 2 100 (st_db (demoState 0)))
        then take j (Frames smallFrames (pg_Pending 2 100 (st_db (demoState 0)) ! k)) else [])"
proof -
  have 1: "peer_Get 2 (st_peers (demoState 0)) = Inr demoPeer" by (simp add: demoState_def peer_Get_def demoPeer_def)
  have 2: "distinct (map re_EventID (rd_events (st_db (demoState 0))))" by (simp add: demoState_def)
  show ?thesis
    using deliver_pending_in_order [OF prod.collapse [symmetric] 1 2, of smallFrames "\<lambda>_. Inr ''t''" 9] by (elim exE conjE) (intro exI conjI)
qed

theorem enqueue_bounded_witness:
  "\<exists>row db'. pg_Enqueue 8 1 (demoEvent 8 2 ''c'' 0) (st_db (demoState 0)) = Inr (row, db') \<and>
     length (filter (\<lambda>e. re_TargetPeerID e = re_TargetPeerID row) (rd_events db')) \<le> 10000"
proof -
  have 1: "\<exists>row db'. pg_Enqueue 8 1 (demoEvent 8 2 ''c'' 0) (st_db (demoState 0)) = Inr (row, db')"
    by (simp add: pg_Enqueue_def Let_def demoState_def demoEvent_def)
  have 2: "distinct (map re_EventID (rd_events (st_db (demoState 0))))" by (simp add: demoState_def)
  from 1 show ?thesis using enqueue_bounded [OF _ 2] by blast
qed

theorem limiter_window_bound_witness:
  "int (length (filter (\<lambda>(t, k). k = ''a'' \<and> 1 \<le> t \<and> t < 1 + 10)
     (fst (allow_all [(1, ''a''), (2, ''a''), (3, ''b'')] (NewPeerRateLimiter 1 10))))) \<le> 2"
  using limiter_window_bound [of 1 10 "[(1, ''a''), (2, ''a''), (3, ''b'')]" "''a''" 1] by (simp add: int64_max_def)


end
