(* ===== verification/Event_Hub.thy ===== *)
theory Event_Hub
  imports Canopy_Prelude "HOL-Library.Sublist"
begin

text \<open>
  The live fan-out hubs of the card packages (\<open>CardEventHub\<close> of
  \<open>internal/card/events_stream.go\<close>, \<open>eventHub\<close> of \<open>internal/card/iteration/feedback.go\<close>):
  subscribers of a card, each with a bounded channel; publishing never blocks and skips a full
  channel. The two hubs differ in the capacity only, which is an argument. A channel is the
  list of the events it holds; \<open>hub_Receive\<close> is the subscriber taking one.
\<close>

section \<open>Operations\<close>

record 'a event_hub =
  eh_subs :: "(uuid, (nat, 'a list) gomap) gomap"
  eh_nextID :: nat
  eh_published :: int

definition NewCardEventHub :: "'a event_hub" where
  "NewCardEventHub = \<lparr>eh_subs = [], eh_nextID = 0, eh_published = 0\<rparr>"

definition cardEventBuffer :: nat where [simp]: "cardEventBuffer = 64"

definition hub_send :: "nat \<Rightarrow> 'a \<Rightarrow> 'a list \<Rightarrow> 'a list" where
  "hub_send cap ev ch = (if length ch < cap then ch @ [ev] else ch)"

definition hub_Publish :: "nat \<Rightarrow> uuid \<Rightarrow> 'a \<Rightarrow> 'a event_hub \<Rightarrow> 'a event_hub" where
  "hub_Publish cap cardID ev h =
     h\<lparr>eh_published := eh_published h + 1,
       eh_subs := (case map_of (eh_subs h) cardID of None \<Rightarrow> eh_subs h
                   | Some byID \<Rightarrow> map_put cardID (map (\<lambda>(i, ch). (i, hub_send cap ev ch)) byID) (eh_subs h))\<rparr>"

definition hub_Subscribe :: "uuid \<Rightarrow> 'a event_hub \<Rightarrow> nat \<times> 'a event_hub" where
  "hub_Subscribe cardID h =
     (let i = eh_nextID h + 1
      in (i, h\<lparr>eh_nextID := i, eh_subs := map_put cardID (map_put i [] (map_get [] (eh_subs h) cardID)) (eh_subs h)\<rparr>))"

definition hub_Unsubscribe :: "uuid \<Rightarrow> nat \<Rightarrow> 'a event_hub \<Rightarrow> 'a event_hub" where
  "hub_Unsubscribe cardID i h =
     (case map_of (eh_subs h) cardID of
        None \<Rightarrow> h
      | Some byID \<Rightarrow>
        (case map_of byID i of
           None \<Rightarrow> h
         | Some _ \<Rightarrow>
           (let byID' = map_del i byID
            in h\<lparr>eh_subs := (if byID' = [] then map_del cardID (eh_subs h) else map_put cardID byID' (eh_subs h))\<rparr>)))"

definition hub_SubscriberCount :: "uuid \<Rightarrow> 'a event_hub \<Rightarrow> nat" where
  "hub_SubscriberCount cardID h = length (map_get [] (eh_subs h) cardID)"

definition hub_TotalSubscribers :: "'a event_hub \<Rightarrow> nat" where
  "hub_TotalSubscribers h = sum_list (map (\<lambda>(c, byID). length byID) (eh_subs h))"

definition hub_channel :: "uuid \<Rightarrow> nat \<Rightarrow> 'a event_hub \<Rightarrow> 'a list option" where
  "hub_channel cardID i h = (case map_of (eh_subs h) cardID of None \<Rightarrow> None | Some byID \<Rightarrow> map_of byID i)"

definition hub_Receive :: "uuid \<Rightarrow> nat \<Rightarrow> 'a event_hub \<Rightarrow> 'a option \<times> 'a event_hub" where
  "hub_Receive cardID i h =
     (case hub_channel cardID i h of
        Some (ev # rest) \<Rightarrow>
          (Some ev, h\<lparr>eh_subs := map_put cardID (map_put i rest (map_get [] (eh_subs h) cardID)) (eh_subs h)\<rparr>)
      | _ \<Rightarrow> (None, h))"

section \<open>What an operation does to a channel\<close>

datatype 'a hub_op = OpPublish uuid 'a | OpSubscribe uuid | OpUnsubscribe uuid nat | OpReceive uuid nat

fun hub_step :: "nat \<Rightarrow> 'a hub_op \<Rightarrow> 'a event_hub \<Rightarrow> 'a event_hub" where
  "hub_step cap (OpPublish c ev) h = hub_Publish cap c ev h"
| "hub_step cap (OpSubscribe c) h = snd (hub_Subscribe c h)"
| "hub_step cap (OpUnsubscribe c i) h = hub_Unsubscribe c i h"
| "hub_step cap (OpReceive c i) h = snd (hub_Receive c i h)"

definition hub_ok :: "nat \<Rightarrow> 'a event_hub \<Rightarrow> bool" where
  "hub_ok cap h \<longleftrightarrow> (\<forall>c i ch. hub_channel c i h = Some ch \<longrightarrow> i \<le> eh_nextID h \<and> length ch \<le> cap)"

lemma map_of_map_snd: "map_of (map (\<lambda>(i, ch). (i, f ch)) xs) i = map_option f (map_of xs i)"
  by (induction xs) auto

lemma channel_Publish [simp]:
  "hub_channel c i (hub_Publish cap c' ev h) =
     (if c = c' then map_option (hub_send cap ev) (hub_channel c i h) else hub_channel c i h)"
  by (auto simp: hub_channel_def hub_Publish_def update_conv' map_of_map_snd split: option.split)

lemma channel_Subscribe [simp]:
  "hub_channel c i (snd (hub_Subscribe c' h)) =
     (if c = c' \<and> i = eh_nextID h + 1 then Some [] else hub_channel c i h)"
  by (auto simp: hub_channel_def hub_Subscribe_def Let_def update_conv' map_get_def split: option.split)

lemma channel_Unsubscribe [simp]:
  "hub_channel c i (hub_Unsubscribe c' i' h) = (if c = c' \<and> i = i' then None else hub_channel c i h)"
proof (cases "map_of (eh_subs h) c'")
  case None
  then show ?thesis by (auto simp: hub_channel_def hub_Unsubscribe_def)
next
  case (Some byID)
  show ?thesis
  proof (cases "map_of byID i'")
    case None
    with Some show ?thesis by (auto simp: hub_channel_def hub_Unsubscribe_def)
  next
    case (Some ch)
    have "map_of (map_del i' byID) = (map_of byID)(i' := None)" by (simp add: delete_conv')
    moreover have "map_del i' byID = [] \<Longrightarrow> map_of byID j = None" if "j \<noteq> i'" for j
      using fun_cong [OF delete_conv' [of i' byID], of j] that by simp
    ultimately show ?thesis using Some \<open>map_of (eh_subs h) c' = Some byID\<close>
      by (auto simp: hub_channel_def hub_Unsubscribe_def Let_def update_conv' delete_conv' split: option.split)
  qed
qed

lemma channel_Receive [simp]:
  "hub_channel c i (snd (hub_Receive c' i' h)) =
     (if c = c' \<and> i = i' then map_option tl (hub_channel c i h) else hub_channel c i h)"
  by (auto simp: hub_channel_def hub_Receive_def update_conv' map_get_def split: option.split list.split)

lemma nextID_simps [simp]:
  "eh_nextID (hub_Publish cap c ev h) = eh_nextID h"
  "eh_nextID (snd (hub_Subscribe c h)) = eh_nextID h + 1"
  "eh_nextID (hub_Unsubscribe c i h) = eh_nextID h"
  "eh_nextID (snd (hub_Receive c i h)) = eh_nextID h"
  by (simp_all add: hub_Publish_def hub_Subscribe_def Let_def hub_Unsubscribe_def hub_Receive_def split: option.split list.split)

lemma hub_step_ok: "hub_ok cap h \<Longrightarrow> hub_ok cap (hub_step cap op h)"
  by (cases op) (auto simp: hub_ok_def hub_send_def le_Suc_eq le_diff_conv intro: le_SucI split: if_splits)

section \<open>Streams\<close>

text \<open>
  A run from the point of view of one subscriber: what it received, and what was published
  to its card.
\<close>

fun hub_run :: "nat \<Rightarrow> 'a hub_op list \<Rightarrow> 'a event_hub \<Rightarrow> 'a event_hub" where
  "hub_run cap [] h = h"
| "hub_run cap (op # ops) h = hub_run cap ops (hub_step cap op h)"

fun received :: "nat \<Rightarrow> uuid \<Rightarrow> nat \<Rightarrow> 'a hub_op list \<Rightarrow> 'a event_hub \<Rightarrow> 'a list" where
  "received cap c i [] h = []"
| "received cap c i (op # ops) h =
     (if op = OpReceive c i then (case fst (hub_Receive c i h) of None \<Rightarrow> [] | Some ev \<Rightarrow> [ev]) else [])
     @ received cap c i ops (hub_step cap op h)"

fun published_to :: "uuid \<Rightarrow> 'a hub_op list \<Rightarrow> 'a list" where
  "published_to c [] = []"
| "published_to c (OpPublish c' ev # ops) = (if c' = c then ev # published_to c ops else published_to c ops)"
| "published_to c (_ # ops) = published_to c ops"

fun never_full :: "nat \<Rightarrow> uuid \<Rightarrow> nat \<Rightarrow> 'a hub_op list \<Rightarrow> 'a event_hub \<Rightarrow> bool" where
  "never_full cap c i [] h = True"
| "never_full cap c i (op # ops) h \<longleftrightarrow>
     (case hub_channel c i h of Some ch \<Rightarrow> length ch < cap | None \<Rightarrow> True) \<and> never_full cap c i ops (hub_step cap op h)"

lemma step_channel:
  assumes "hub_ok cap h" and "hub_channel c i h = Some ch" and "op \<noteq> OpUnsubscribe c i"
  shows "\<exists>ch'. hub_channel c i (hub_step cap op h) = Some ch' \<and>
    (if op = OpReceive c i then (case fst (hub_Receive c i h) of None \<Rightarrow> [] | Some ev \<Rightarrow> [ev]) else []) @ ch' =
      ch @ (case op of OpPublish c' ev \<Rightarrow> if c' = c \<and> length ch < cap then [ev] else [] | _ \<Rightarrow> [])"
proof (cases op)
  case (OpSubscribe c')
  moreover have "i \<noteq> eh_nextID h + 1" using assms(1,2) by (fastforce simp: hub_ok_def)
  ultimately show ?thesis using assms(2) by simp
next
  case (OpReceive c' i')
  have "fst (hub_Receive c i h) = (case ch of [] \<Rightarrow> None | ev # _ \<Rightarrow> Some ev)"
    using assms(2) by (simp add: hub_Receive_def split: list.split)
  with OpReceive show ?thesis using assms(2) by (auto split: list.split)
qed (use assms in \<open>auto simp: hub_send_def\<close>)

lemma run_stream:
  assumes "hub_ok cap h" and "hub_channel c i h = Some ch" and "OpUnsubscribe c i \<notin> set ops"
  shows "\<exists>ch' zs. hub_channel c i (hub_run cap ops h) = Some ch' \<and> received cap c i ops h @ ch' = ch @ zs \<and>
    subseq zs (published_to c ops) \<and> (never_full cap c i ops h \<longrightarrow> zs = published_to c ops)"
  using assms
proof (induction ops arbitrary: h ch)
  case (Cons op ops)
  from Cons.prems have "op \<noteq> OpUnsubscribe c i" by auto
  from step_channel [OF Cons.prems(1,2) this] obtain ch1 where ch1: "hub_channel c i (hub_step cap op h) = Some ch1"
    and got: "(if op = OpReceive c i then (case fst (hub_Receive c i h) of None \<Rightarrow> [] | Some ev \<Rightarrow> [ev]) else []) @ ch1 =
      ch @ (case op of OpPublish c' ev \<Rightarrow> if c' = c \<and> length ch < cap then [ev] else [] | _ \<Rightarrow> [])" by blast
  from Cons.IH [OF hub_step_ok [OF Cons.prems(1)] ch1] Cons.prems(3) obtain ch' zs
    where ch': "hub_channel c i (hub_run cap ops (hub_step cap op h)) = Some ch'"
      "received cap c i ops (hub_step cap op h) @ ch' = ch1 @ zs" "subseq zs (published_to c ops)"
      "never_full cap c i ops (hub_step cap op h) \<longrightarrow> zs = published_to c ops" by auto
  let ?new = "case op of OpPublish c' ev \<Rightarrow> if c' = c \<and> length ch < cap then [ev] else [] | _ \<Rightarrow> []"
  have "received cap c i (op # ops) h @ ch' = ch @ ?new @ zs"
    using got ch'(2) unfolding received.simps append_assoc by (metis append_assoc)
  moreover have "subseq (?new @ zs) (published_to c (op # ops))"
    using ch'(3) by (cases op) auto
  moreover have "never_full cap c i (op # ops) h \<longrightarrow> ?new @ zs = published_to c (op # ops)"
    using ch'(4) Cons.prems(2) by (cases op) auto
  ultimately show ?case using ch'(1) by auto
qed simp

section \<open>Properties\<close>

text \<open>
  a live subscriber sees the events of its card in the order they were published and
  none twice: what it has received and still has buffered is a subsequence of what was
  published since it subscribed, all of it when its channel was never full. Channels never
  exceed their capacity, whatever the other subscribers do.
\<close>

lemma hub_stream_in_order:
  assumes "hub_ok cap h" and "OpUnsubscribe c (fst (hub_Subscribe c h)) \<notin> set ops"
  defines "i \<equiv> fst (hub_Subscribe c h)" and "h' \<equiv> snd (hub_Subscribe c h)"
  shows "\<exists>ch. hub_channel c i (hub_run cap ops h') = Some ch \<and> length ch \<le> cap \<and>
    subseq (received cap c i ops h' @ ch) (published_to c ops) \<and>
    (never_full cap c i ops h' \<longrightarrow> received cap c i ops h' @ ch = published_to c ops)"
proof -
  have ok: "hub_ok cap h'" using hub_step_ok [OF assms(1), of "OpSubscribe c"] by (simp add: h'_def)
  have "hub_channel c i h' = Some []" by (simp add: h'_def i_def hub_Subscribe_def Let_def hub_channel_def update_conv')
  from run_stream [OF ok this assms(2) [folded i_def]] obtain ch zs where
    "hub_channel c i (hub_run cap ops h') = Some ch" "received cap c i ops h' @ ch = zs"
    "subseq zs (published_to c ops)" "never_full cap c i ops h' \<longrightarrow> zs = published_to c ops"
    by auto
  moreover have "hub_ok cap (hub_run cap ops h)" if "hub_ok cap h" for h
    using that by (induction ops arbitrary: h) (auto intro: hub_step_ok)
  ultimately show ?thesis using ok by (auto simp: hub_ok_def)
qed

theorem hub_stream_in_order_witness:
  "\<exists>ch. hub_channel 3 1 (hub_run 64 [OpPublish 3 ''a'', OpReceive 3 1, OpPublish 3 ''b''] (snd (hub_Subscribe 3 NewCardEventHub))) = Some ch \<and>
     subseq (received 64 3 1 [OpPublish 3 ''a'', OpReceive 3 1, OpPublish 3 ''b''] (snd (hub_Subscribe 3 NewCardEventHub)) @ ch) [''a'', ''b'']"
proof -
  have "hub_ok 64 (NewCardEventHub :: string event_hub)" by (simp add: hub_ok_def NewCardEventHub_def hub_channel_def)
  from hub_stream_in_order [OF this, of 3 "[OpPublish 3 ''a'', OpReceive 3 1, OpPublish 3 ''b'']"]
  show ?thesis by (auto simp: hub_Subscribe_def NewCardEventHub_def Let_def)
qed

end
