(* ===== verification/Card_Store.thy ===== *)
theory Card_Store
  imports Canopy_Models Event_Hub
begin

text \<open>
  App cards (\<open>internal/card\<close>): the cards and events tables of a card type and their
  repository (\<open>repo.go\<close>), the card service over the databases of the three types
  (\<open>service.go\<close>) and declared actions (\<open>action.go\<close>). Times are kept as instants, their text
  form matters for the order of \<open>List\<close> only. Identifiers the code draws and the clock are
  arguments. A call that can fail after a write returns its result and the state it leaves.
\<close>

section \<open>Cards and events\<close>

datatype card_type = CardTypeCompact | CardTypeExpanded | CardTypeIteration | CardTypeOf string

definition IsValidCardType :: "card_type \<Rightarrow> bool" where
  "IsValidCardType ct \<longleftrightarrow> ct = CardTypeCompact \<or> ct = CardTypeExpanded \<or> ct = CardTypeIteration"

datatype card_status = CardStatusActive | CardStatusDismissed | CardStatusArchived | CardStatusOf string

fun card_status_text :: "card_status \<Rightarrow> string" where
  "card_status_text CardStatusActive = ''active''"
| "card_status_text CardStatusDismissed = ''dismissed''"
| "card_status_text CardStatusArchived = ''archived''"
| "card_status_text (CardStatusOf s) = s"

definition card_status_of :: "string \<Rightarrow> card_status" where
  "card_status_of s = (if s = ''active'' then CardStatusActive else if s = ''dismissed'' then CardStatusDismissed
     else if s = ''archived'' then CardStatusArchived else CardStatusOf s)"

datatype card_error =
    ErrRevisionConflict | ErrStatusArchived | ErrStatusDismissed | ErrInvalidTransition
  | ErrCardNotFound | ErrCardInsert | ErrEventInsert | ErrInvalidCardType
  | ErrCardActionHandlerRequired | ErrCardActionPayloadInvalid | ErrCardActionNotDeclared | ErrCardActionFailed string

datatype actor_kind = ActorAgent | ActorUser | ActorSystem | ActorSync

record card_action =
  ca_Label :: string
  ca_Handler :: string

record card_row =
  cr_ID :: uuid
  cr_TreeID :: uuid
  cr_NodeID :: uuid
  cr_AppID :: string
  cr_CardType :: card_type
  cr_Data :: raw_message
  cr_Actions :: "card_action list"
  cr_Status :: card_status
  cr_ContextHash :: string
  cr_Revision :: int
  cr_CreatedAt :: instant
  cr_UpdatedAt :: instant
  cr_DismissedAt :: "instant option"
  cr_ArchivedAt :: "instant option"

record stored_event =
  se_Sequence :: int
  se_EventID :: uuid
  se_CardID :: uuid
  se_EventType :: string
  se_ActorKind :: actor_kind
  se_ActorID :: string
  se_Payload :: raw_message
  se_CreatedAt :: instant

record create_card_input =
  ci_ID :: uuid
  ci_TreeID :: uuid
  ci_NodeID :: uuid
  ci_AppID :: string
  ci_CardType :: card_type
  ci_Data :: raw_message
  ci_Actions :: "card_action list"
  ci_ContextHash :: string

record patch_card_input =
  pi_Data :: "raw_message option"
  pi_Actions :: "card_action list option"
  pi_Status :: "card_status option"
  pi_ContextHash :: "string option"

record append_event_input =
  ai_EventID :: uuid
  ai_EventType :: string
  ai_ActorKind :: actor_kind
  ai_ActorID :: string
  ai_Payload :: raw_message

record list_cards_options =
  lo_TreeID :: "uuid option"
  lo_NodeID :: "uuid option"
  lo_AppID :: string
  lo_CardType :: "card_type option"
  lo_Status :: "card_status option"
  lo_Limit :: int
  lo_Offset :: int

section \<open>The repository of a card type\<close>

text \<open>
  The two tables, and the last sequence the events table has given out. Identifiers of cards
  and events are unique, an event needs its card.
\<close>

record card_db =
  cd_cards :: "card_row list"
  cd_events :: "stored_event list"
  cd_sequence :: int

definition empty_object :: raw_message where
  "empty_object = RawJSON (JObj [])"

definition or_empty_object :: "raw_message \<Rightarrow> raw_message" where
  "or_empty_object raw = (if raw = RawNil then empty_object else raw)"

definition repo_Get :: "uuid \<Rightarrow> card_db \<Rightarrow> card_row option" where
  "repo_Get i db = find (\<lambda>c. cr_ID c = i) (cd_cards db)"

definition repo_Create :: "instant \<Rightarrow> create_card_input \<Rightarrow> card_db \<Rightarrow> (card_error + card_row) \<times> card_db" where
  "repo_Create now inp db =
     (if repo_Get (ci_ID inp) db \<noteq> None then (Inl ErrCardInsert, db)
      else
        (let row = \<lparr>cr_ID = ci_ID inp, cr_TreeID = ci_TreeID inp, cr_NodeID = ci_NodeID inp, cr_AppID = ci_AppID inp,
                    cr_CardType = ci_CardType inp, cr_Data = or_empty_object (ci_Data inp), cr_Actions = ci_Actions inp,
                    cr_Status = CardStatusActive, cr_ContextHash = ci_ContextHash inp, cr_Revision = 1,
                    cr_CreatedAt = now, cr_UpdatedAt = now, cr_DismissedAt = None, cr_ArchivedAt = None\<rparr>
         in (Inr row, db\<lparr>cd_cards := cd_cards db @ [row]\<rparr>)))"

definition repo_List :: "list_cards_options \<Rightarrow> card_db \<Rightarrow> card_row list" where
  "repo_List opts db =
     (let rows = filter (\<lambda>c. (lo_TreeID opts = None \<or> lo_TreeID opts = Some (cr_TreeID c)) \<and>
                       (lo_NodeID opts = None \<or> lo_NodeID opts = Some (cr_NodeID c)) \<and>
                       (lo_CardType opts = None \<or> lo_CardType opts = Some (cr_CardType c)) \<and>
                       (lo_Status opts = None \<or> lo_Status opts = Some (cr_Status c)) \<and>
                       (lo_AppID opts = [] \<or> lo_AppID opts = cr_AppID c)) (cd_cards db);
          ordered = sort_stable (\<lambda>x y. format_rfc3339nano (cr_UpdatedAt x) > format_rfc3339nano (cr_UpdatedAt y)) rows;
          limit = (if lo_Limit opts \<le> 0 then 50 else lo_Limit opts)
      in take (nat limit) (if lo_Offset opts > 0 then drop (nat (lo_Offset opts)) ordered else ordered))"

definition patch_row :: "instant \<Rightarrow> patch_card_input \<Rightarrow> card_row \<Rightarrow> card_row" where
  "patch_row now inp c =
     c\<lparr>cr_Revision := cr_Revision c + 1, cr_UpdatedAt := now,
       cr_Data := (case pi_Data inp of None \<Rightarrow> cr_Data c | Some d \<Rightarrow> d),
       cr_Actions := (case pi_Actions inp of None \<Rightarrow> cr_Actions c | Some a \<Rightarrow> a),
       cr_Status := (case pi_Status inp of None \<Rightarrow> cr_Status c | Some s \<Rightarrow> s),
       cr_DismissedAt := (if pi_Status inp = Some CardStatusDismissed then Some now
                          else if pi_Status inp = Some CardStatusActive then None else cr_DismissedAt c),
       cr_ArchivedAt := (if pi_Status inp = Some CardStatusArchived then Some now else cr_ArchivedAt c),
       cr_ContextHash := (case pi_ContextHash inp of None \<Rightarrow> cr_ContextHash c | Some h \<Rightarrow> h)\<rparr>"

definition repo_Patch ::
    "instant \<Rightarrow> uuid \<Rightarrow> int \<Rightarrow> patch_card_input \<Rightarrow> card_db \<Rightarrow> (card_error + card_row) \<times> card_db" where
  "repo_Patch now i expectedRevision inp db =
     (case repo_Get i db of
        None \<Rightarrow> (Inl ErrCardNotFound, db)
      | Some c \<Rightarrow>
        if cr_Revision c \<noteq> expectedRevision then (Inl ErrRevisionConflict, db)
        else (Inr (patch_row now inp c),
              db\<lparr>cd_cards := map (\<lambda>x. if cr_ID x = i then patch_row now inp x else x) (cd_cards db)\<rparr>))"

definition repo_AppendEvent ::
    "instant \<Rightarrow> uuid \<Rightarrow> append_event_input \<Rightarrow> card_db \<Rightarrow> (card_error + stored_event) \<times> card_db" where
  "repo_AppendEvent now cardID inp db =
     (if repo_Get cardID db = None \<or> (\<exists>e \<in> set (cd_events db). se_EventID e = ai_EventID inp) then (Inl ErrEventInsert, db)
      else
        (let e = \<lparr>se_Sequence = cd_sequence db + 1, se_EventID = ai_EventID inp, se_CardID = cardID,
                  se_EventType = ai_EventType inp, se_ActorKind = ai_ActorKind inp, se_ActorID = ai_ActorID inp,
                  se_Payload = or_empty_object (ai_Payload inp), se_CreatedAt = now\<rparr>
         in (Inr e, db\<lparr>cd_events := cd_events db @ [e], cd_sequence := cd_sequence db + 1\<rparr>)))"

definition repo_ListEvents :: "uuid \<Rightarrow> int \<Rightarrow> int \<Rightarrow> card_db \<Rightarrow> stored_event list" where
  "repo_ListEvents cardID afterSequence limit db =
     take (nat (if limit \<le> 0 then 50 else limit))
       (sort_stable (\<lambda>x y. se_Sequence x < se_Sequence y)
         (filter (\<lambda>e. se_CardID e = cardID \<and> se_Sequence e > afterSequence) (cd_events db)))"

definition repo_MaxSequence :: "uuid \<Rightarrow> card_db \<Rightarrow> int" where
  "repo_MaxSequence cardID db =
     (case filter (\<lambda>e. se_CardID e = cardID) (cd_events db) of [] \<Rightarrow> 0
      | e # es \<Rightarrow> fold (\<lambda>x m. max (se_Sequence x) m) es (se_Sequence e))"

definition repo_GetByContextHash :: "string \<Rightarrow> card_db \<Rightarrow> card_row list" where
  "repo_GetByContextHash h db = filter (\<lambda>c. cr_ContextHash c = h) (cd_cards db)"

section \<open>The card service\<close>

text \<open>One database per card type, and the hub of live subscribers when one is installed.\<close>

record card_service =
  sv_dbs :: "card_type \<Rightarrow> card_db"
  sv_hub :: "stored_event event_hub option"

definition put_db :: "card_type \<Rightarrow> card_db \<Rightarrow> card_service \<Rightarrow> card_service" where
  "put_db ct db s = s\<lparr>sv_dbs := (sv_dbs s)(ct := db)\<rparr>"

definition publishEvent :: "stored_event \<Rightarrow> card_service \<Rightarrow> card_service" where
  "publishEvent ev s = s\<lparr>sv_hub := map_option (hub_Publish cardEventBuffer (se_CardID ev) ev) (sv_hub s)\<rparr>"

fun find_in :: "uuid \<Rightarrow> card_type list \<Rightarrow> card_service \<Rightarrow> (card_row \<times> card_type) option" where
  "find_in i [] s = None"
| "find_in i (ct # cts) s = (case repo_Get i (sv_dbs s ct) of Some c \<Rightarrow> Some (c, ct) | None \<Rightarrow> find_in i cts s)"

definition findCardAndRepo :: "uuid \<Rightarrow> card_service \<Rightarrow> (card_row \<times> card_type) option" where
  "findCardAndRepo i s = find_in i [CardTypeCompact, CardTypeExpanded, CardTypeIteration] s"

definition append_and_publish ::
    "instant \<Rightarrow> card_type \<Rightarrow> uuid \<Rightarrow> append_event_input \<Rightarrow> card_service \<Rightarrow> (card_error + stored_event) \<times> card_service" where
  "append_and_publish now ct cardID inp s =
     (case repo_AppendEvent now cardID inp (sv_dbs s ct) of
        (Inl e, db) \<Rightarrow> (Inl e, put_db ct db s)
      | (Inr ev, db) \<Rightarrow> (Inr ev, publishEvent ev (put_db ct db s)))"

text \<open>The view of a card: the row, its data decoded, and the last event sequence.\<close>

record card_view =
  cv_Card :: card_row
  cv_Data :: json
  cv_LastEventSeq :: int

definition CardToSummary :: "card_row \<Rightarrow> card_view" where
  "CardToSummary c = \<lparr>cv_Card = c, cv_Data = (case cr_Data c of RawJSON v \<Rightarrow> v | _ \<Rightarrow> JNull), cv_LastEventSeq = 0\<rparr>"

definition svc_CreateCard ::
    "uuid \<Rightarrow> uuid \<Rightarrow> instant \<Rightarrow> uuid \<Rightarrow> uuid \<Rightarrow> string \<Rightarrow> card_type \<Rightarrow> json \<Rightarrow> card_service \<Rightarrow> (card_error + card_view) \<times> card_service" where
  "svc_CreateCard newID eventID now treeID nodeID appID ct data s =
     (if \<not> IsValidCardType ct then (Inl ErrInvalidCardType, s)
      else case repo_Create now \<lparr>ci_ID = newID, ci_TreeID = treeID, ci_NodeID = nodeID, ci_AppID = appID, ci_CardType = ct,
                  ci_Data = RawJSON data, ci_Actions = [], ci_ContextHash = []\<rparr> (sv_dbs s ct) of
        (Inl e, db) \<Rightarrow> (Inl e, put_db ct db s)
      | (Inr row, db) \<Rightarrow>
        (case append_and_publish now ct (cr_ID row) \<lparr>ai_EventID = eventID, ai_EventType = ''card_created'', ai_ActorKind = ActorUser,
                ai_ActorID = ''user'', ai_Payload = RawJSON data\<rparr> (put_db ct db s) of
           (Inl e, s') \<Rightarrow> (Inl e, s')
         | (Inr _, s') \<Rightarrow> (Inr (CardToSummary row), s')))"

definition svc_GetCard :: "uuid \<Rightarrow> card_service \<Rightarrow> card_error + card_view" where
  "svc_GetCard i s =
     (case findCardAndRepo i s of None \<Rightarrow> Inl ErrCardNotFound
      | Some (row, ct) \<Rightarrow> Inr ((CardToSummary row)\<lparr>cv_LastEventSeq := repo_MaxSequence i (sv_dbs s ct)\<rparr>))"

definition svc_ListCards ::
    "uuid option \<Rightarrow> uuid option \<Rightarrow> card_type option \<Rightarrow> int \<Rightarrow> int \<Rightarrow> card_service \<Rightarrow> card_error + card_view list" where
  "svc_ListCards treeID nodeID cardType limit offset s =
     (let ctypes = (case cardType of Some ct \<Rightarrow> [ct] | None \<Rightarrow> [CardTypeCompact, CardTypeExpanded, CardTypeIteration])
      in if (case cardType of Some ct \<Rightarrow> \<not> IsValidCardType ct | None \<Rightarrow> False) then Inl ErrInvalidCardType
         else Inr (concat (map (\<lambda>ct. map (\<lambda>c. (CardToSummary c)\<lparr>cv_LastEventSeq := repo_MaxSequence (cr_ID c) (sv_dbs s ct)\<rparr>)
                (repo_List \<lparr>lo_TreeID = treeID, lo_NodeID = nodeID, lo_AppID = [], lo_CardType = Some ct, lo_Status = None,
                   lo_Limit = limit, lo_Offset = offset\<rparr> (sv_dbs s ct))) ctypes)))"

text \<open>\<open>lifecycle_event\<close>: the legal transitions of a row and the event each records.\<close>

definition lifecycle_event :: "card_status \<Rightarrow> card_status \<Rightarrow> string option" where
  "lifecycle_event current target =
     (if current = CardStatusActive \<and> target = CardStatusDismissed then Some ''card_dismissed''
      else if current = CardStatusDismissed \<and> target = CardStatusActive then Some ''card_restored''
      else if (current = CardStatusActive \<or> current = CardStatusDismissed) \<and> target = CardStatusArchived then Some ''card_archived''
      else None)"

definition has_data_mutation :: "patch_card_input \<Rightarrow> bool" where
  "has_data_mutation inp \<longleftrightarrow> pi_Data inp \<noteq> None \<or> pi_Actions inp \<noteq> None \<or> pi_ContextHash inp \<noteq> None"

definition check_patch :: "card_row \<Rightarrow> int \<Rightarrow> patch_card_input \<Rightarrow> card_error option" where
  "check_patch row expectedRevision inp =
     (if cr_Revision row \<noteq> expectedRevision then Some ErrRevisionConflict
      else if cr_Status row = CardStatusArchived then Some ErrStatusArchived
      else if cr_Status row = CardStatusDismissed \<and> has_data_mutation inp then Some ErrStatusDismissed
      else if pi_Status inp = None \<and> \<not> has_data_mutation inp then Some ErrInvalidTransition
      else case pi_Status inp of
        None \<Rightarrow> None
      | Some target \<Rightarrow>
        if lifecycle_event (cr_Status row) target = None then Some ErrInvalidTransition
        else if target = CardStatusArchived \<and> has_data_mutation inp then Some ErrStatusArchived
        else None)"

definition append_or_error ::
    "instant \<Rightarrow> card_type \<Rightarrow> uuid \<Rightarrow> append_event_input \<Rightarrow> card_service \<Rightarrow> card_error option \<times> card_service" where
  "append_or_error now ct cardID inp s =
     (case append_and_publish now ct cardID inp s of (Inl e, s') \<Rightarrow> (Some e, s') | (Inr _, s') \<Rightarrow> (None, s'))"

definition patch_lifecycle ::
    "uuid \<Rightarrow> instant \<Rightarrow> card_type \<Rightarrow> card_row \<Rightarrow> patch_card_input \<Rightarrow> card_service \<Rightarrow> card_error option \<times> card_service" where
  "patch_lifecycle ev now ct row inp s =
     (case pi_Status inp of
        None \<Rightarrow> (None, s)
      | Some target \<Rightarrow>
        append_or_error now ct (cr_ID row)
          \<lparr>ai_EventID = ev, ai_EventType = (case lifecycle_event (cr_Status row) target of Some t \<Rightarrow> t | None \<Rightarrow> []),
           ai_ActorKind = ActorUser, ai_ActorID = ''user'',
           ai_Payload = RawJSON (JObj [(''status'', JStr (card_status_text target))])\<rparr> s)"

definition patch_updated ::
    "uuid \<Rightarrow> instant \<Rightarrow> card_type \<Rightarrow> card_row \<Rightarrow> patch_card_input \<Rightarrow> card_service \<Rightarrow> card_error option \<times> card_service" where
  "patch_updated ev now ct row inp s =
     (if \<not> has_data_mutation inp then (None, s)
      else append_or_error now ct (cr_ID row)
        \<lparr>ai_EventID = ev, ai_EventType = ''card_updated'', ai_ActorKind = ActorUser, ai_ActorID = ''user'',
         ai_Payload = (case pi_Data inp of None \<Rightarrow> empty_object | Some d \<Rightarrow> d)\<rparr> s)"

definition svc_PatchCard ::
    "uuid \<Rightarrow> uuid \<Rightarrow> instant \<Rightarrow> uuid \<Rightarrow> int \<Rightarrow> patch_card_input \<Rightarrow> card_service \<Rightarrow> (card_error + card_view) \<times> card_service" where
  "svc_PatchCard ev1 ev2 now cardID expectedRevision inp s =
     (case findCardAndRepo cardID s of
        None \<Rightarrow> (Inl ErrCardNotFound, s)
      | Some (row, ct) \<Rightarrow>
        (case check_patch row expectedRevision inp of
           Some e \<Rightarrow> (Inl e, s)
         | None \<Rightarrow>
           (case repo_Patch now cardID expectedRevision inp (sv_dbs s ct) of
              (Inl e, db) \<Rightarrow> (Inl e, put_db ct db s)
            | (Inr updated, db) \<Rightarrow>
              (case patch_lifecycle ev1 now ct row inp (put_db ct db s) of
                 (Some e, s2) \<Rightarrow> (Inl e, s2)
               | (None, s2) \<Rightarrow>
                 (case patch_updated ev2 now ct row inp s2 of
                    (Some e, s3) \<Rightarrow> (Inl e, s3)
                  | (None, s3) \<Rightarrow>
                    (Inr ((CardToSummary updated)\<lparr>cv_LastEventSeq := repo_MaxSequence cardID (sv_dbs s3 ct)\<rparr>), s3))))))"

definition svc_UpdateCardData ::
    "uuid \<Rightarrow> uuid \<Rightarrow> instant \<Rightarrow> uuid \<Rightarrow> json \<Rightarrow> card_service \<Rightarrow> (card_error + card_view) \<times> card_service" where
  "svc_UpdateCardData ev1 ev2 now cardID data s =
     (case findCardAndRepo cardID s of
        None \<Rightarrow> (Inl ErrCardNotFound, s)
      | Some (row, ct) \<Rightarrow>
        svc_PatchCard ev1 ev2 now cardID (cr_Revision row)
          \<lparr>pi_Data = Some (RawJSON data), pi_Actions = None, pi_Status = None, pi_ContextHash = None\<rparr> s)"

definition svc_ArchiveCard ::
    "uuid \<Rightarrow> uuid \<Rightarrow> instant \<Rightarrow> uuid \<Rightarrow> int option \<Rightarrow> card_service \<Rightarrow> card_error option \<times> card_service" where
  "svc_ArchiveCard ev1 ev2 now cardID expectedRevision s =
     (case findCardAndRepo cardID s of
        None \<Rightarrow> (Some ErrCardNotFound, s)
      | Some (row, ct) \<Rightarrow>
        (case svc_PatchCard ev1 ev2 now cardID (case expectedRevision of None \<Rightarrow> cr_Revision row | Some r \<Rightarrow> r)
            \<lparr>pi_Data = None, pi_Actions = None, pi_Status = Some CardStatusArchived, pi_ContextHash = None\<rparr> s of
           (Inl e, s') \<Rightarrow> (Some e, s') | (Inr _, s') \<Rightarrow> (None, s')))"

definition svc_ListCardEvents :: "uuid \<Rightarrow> int \<Rightarrow> int \<Rightarrow> card_service \<Rightarrow> card_error + stored_event list" where
  "svc_ListCardEvents cardID afterSequence limit s =
     (case findCardAndRepo cardID s of None \<Rightarrow> Inl ErrCardNotFound
      | Some (row, ct) \<Rightarrow> Inr (repo_ListEvents cardID afterSequence limit (sv_dbs s ct)))"

section \<open>Actions\<close>

definition findDeclaredAction :: "card_action list \<Rightarrow> string \<Rightarrow> card_action option" where
  "findDeclaredAction actions handler = find (\<lambda>a. ca_Handler a = handler) actions"

definition normalizeActionPayload :: "raw_message \<Rightarrow> card_error + raw_message" where
  "normalizeActionPayload payload =
     (case payload of RawNil \<Rightarrow> Inr empty_object | RawJSON JNull \<Rightarrow> Inr empty_object
      | RawJSON (JObj ms) \<Rightarrow> Inr payload | _ \<Rightarrow> Inl ErrCardActionPayloadInvalid)"

definition echoActionExecutor :: "card_row \<Rightarrow> card_action \<Rightarrow> raw_message \<Rightarrow> string + raw_message" where
  "echoActionExecutor row action payload = Inr (or_empty_object payload)"

record card_action_outcome =
  co_CardID :: uuid
  co_Handler :: string
  co_Payload :: raw_message
  co_Status :: string
  co_RequestedSeq :: int
  co_ResultSeq :: int
  co_ResultEventID :: uuid
  co_ResultEventType :: string
  co_Result :: raw_message
  co_Error :: string

text \<open>
  \<open>exec\<close> is the executor; a result that is no JSON value counts as a failure. A failed
  action returns both its outcome and the error.
\<close>

definition action_result :: "(card_row \<Rightarrow> card_action \<Rightarrow> raw_message \<Rightarrow> string + raw_message) \<Rightarrow> card_row \<Rightarrow> card_action \<Rightarrow> raw_message \<Rightarrow> string + json" where
  "action_result exec row action payload =
     (case exec row action payload of
        Inl e \<Rightarrow> Inl e
      | Inr RawNil \<Rightarrow> Inr (JObj [])
      | Inr (RawInvalid _) \<Rightarrow> Inl (''card: action '' @ strconv_Quote (ca_Handler action) @ '' returned an invalid JSON result'')
      | Inr (RawJSON v) \<Rightarrow> Inr v)"

definition SubmitCardAction ::
    "(card_row \<Rightarrow> card_action \<Rightarrow> raw_message \<Rightarrow> string + raw_message) \<Rightarrow> uuid \<Rightarrow> uuid \<Rightarrow> instant \<Rightarrow> uuid \<Rightarrow> string \<Rightarrow> raw_message \<Rightarrow>
       card_service \<Rightarrow> (card_action_outcome option \<times> card_error option) \<times> card_service" where
  "SubmitCardAction exec ev1 ev2 now cardID handler0 payload0 s =
     (let handler = trim_space handler0 in
      if handler = [] then ((None, Some ErrCardActionHandlerRequired), s)
      else case normalizeActionPayload payload0 of
        Inl e \<Rightarrow> ((None, Some e), s)
      | Inr payload \<Rightarrow>
        (case findCardAndRepo cardID s of
           None \<Rightarrow> ((None, Some ErrCardNotFound), s)
         | Some (row, ct) \<Rightarrow>
           if cr_Status row = CardStatusArchived then ((None, Some ErrStatusArchived), s)
           else if cr_Status row = CardStatusDismissed then ((None, Some ErrStatusDismissed), s)
           else case findDeclaredAction (cr_Actions row) handler of
             None \<Rightarrow> ((None, Some ErrCardActionNotDeclared), s)
           | Some action \<Rightarrow>
             (case append_and_publish now ct cardID \<lparr>ai_EventID = ev1, ai_EventType = ''action_requested'', ai_ActorKind = ActorUser,
                     ai_ActorID = ''user'', ai_Payload = RawJSON (JObj [(''handler'', JStr handler),
                       (''payload'', (case payload of RawJSON v \<Rightarrow> v | _ \<Rightarrow> JNull))])\<rparr> s of
                (Inl e, s1) \<Rightarrow> ((None, Some e), s1)
              | (Inr requested, s1) \<Rightarrow>
                (case action_result exec row action payload of
                   Inl err \<Rightarrow>
                     (case append_and_publish now ct cardID \<lparr>ai_EventID = ev2, ai_EventType = ''agent_error'', ai_ActorKind = ActorAgent,
                             ai_ActorID = handler, ai_Payload = RawJSON (JObj [(''handler'', JStr handler), (''error'', JStr err)])\<rparr> s1 of
                        (Inl e, s2) \<Rightarrow> ((None, Some e), s2)
                      | (Inr failure, s2) \<Rightarrow>
                        ((Some \<lparr>co_CardID = cardID, co_Handler = handler, co_Payload = payload, co_Status = ''error'',
                                co_RequestedSeq = se_Sequence requested, co_ResultSeq = se_Sequence failure,
                                co_ResultEventID = se_EventID failure, co_ResultEventType = ''agent_error'',
                                co_Result = RawNil, co_Error = err\<rparr>, Some (ErrCardActionFailed err)), s2))
                 | Inr result \<Rightarrow>
                     (case append_and_publish now ct cardID \<lparr>ai_EventID = ev2, ai_EventType = ''action_completed'', ai_ActorKind = ActorAgent,
                             ai_ActorID = handler, ai_Payload = RawJSON (JObj [(''handler'', JStr handler), (''result'', result)])\<rparr> s1 of
                        (Inl e, s2) \<Rightarrow> ((None, Some e), s2)
                      | (Inr completed, s2) \<Rightarrow>
                        ((Some \<lparr>co_CardID = cardID, co_Handler = handler, co_Payload = payload, co_Status = ''completed'',
                                co_RequestedSeq = se_Sequence requested, co_ResultSeq = se_Sequence completed,
                                co_ResultEventID = se_EventID completed, co_ResultEventType = ''action_completed'',
                                co_Result = RawJSON result, co_Error = []\<rparr>, None), s2))))))"

section \<open>Invariant and growth\<close>

definition db_ok :: "card_db \<Rightarrow> bool" where
  "db_ok db \<longleftrightarrow> distinct (map cr_ID (cd_cards db)) \<and> sorted_wrt (<) (map se_Sequence (cd_events db)) \<and>
     (\<forall>e \<in> set (cd_events db). 0 < se_Sequence e \<and> se_Sequence e \<le> cd_sequence db) \<and> 0 \<le> cd_sequence db"

definition row_le :: "card_row \<Rightarrow> card_row \<Rightarrow> bool" where
  "row_le c c' \<longleftrightarrow> cr_ID c' = cr_ID c \<and> cr_TreeID c' = cr_TreeID c \<and> cr_NodeID c' = cr_NodeID c \<and> cr_AppID c' = cr_AppID c \<and>
     cr_CardType c' = cr_CardType c \<and> cr_CreatedAt c' = cr_CreatedAt c \<and>
     (c' = c \<or> cr_Revision c < cr_Revision c' \<and> cr_Status c \<noteq> CardStatusArchived)"

definition db_le :: "card_db \<Rightarrow> card_db \<Rightarrow> bool" where
  "db_le db db' \<longleftrightarrow> (\<exists>es. cd_events db' = cd_events db @ es) \<and>
     (\<forall>c \<in> set (cd_cards db). \<exists>c' \<in> set (cd_cards db'). row_le c c')"

definition service_ok :: "card_service \<Rightarrow> bool" where
  "service_ok s \<longleftrightarrow> (\<forall>ct. db_ok (sv_dbs s ct))"

definition service_le :: "card_service \<Rightarrow> card_service \<Rightarrow> bool" where
  "service_le s s' \<longleftrightarrow> (\<forall>ct. db_le (sv_dbs s ct) (sv_dbs s' ct))"

definition grows :: "card_service \<Rightarrow> card_service \<Rightarrow> bool" where
  "grows s s' \<longleftrightarrow> (service_ok s \<longrightarrow> service_ok s' \<and> service_le s s')"

lemma row_le_refl [simp]: "row_le c c"
  by (simp add: row_le_def)

lemma row_le_trans: "row_le a b \<Longrightarrow> row_le b c \<Longrightarrow> row_le a c"
  by (auto simp: row_le_def)

lemma db_le_refl [simp]: "db_le db db"
  unfolding db_le_def using row_le_refl by blast

lemma db_le_trans: "db_le a b \<Longrightarrow> db_le b c \<Longrightarrow> db_le a c"
  unfolding db_le_def by (meson row_le_trans append_assoc) (metis append.assoc row_le_trans)

lemma service_le_refl [simp]: "service_le s s"
  by (simp add: service_le_def)

lemma service_le_trans: "service_le a b \<Longrightarrow> service_le b c \<Longrightarrow> service_le a c"
  unfolding service_le_def by (meson db_le_trans)

lemma grows_refl [simp]: "grows s s"
  by (simp add: grows_def)

lemma grows_trans: "grows a b \<Longrightarrow> grows b c \<Longrightarrow> grows a c"
  unfolding grows_def using service_le_trans by blast

lemma grows_put_db: "(db_ok (sv_dbs s ct) \<Longrightarrow> db_ok db \<and> db_le (sv_dbs s ct) db) \<Longrightarrow> grows s (put_db ct db s)"
  by (auto simp: grows_def service_ok_def service_le_def put_db_def)

lemma put_db_same [simp]: "put_db ct (sv_dbs s ct) s = s"
  by (simp add: put_db_def)

lemma sv_dbs_put [simp]: "sv_dbs (put_db ct db s) = (sv_dbs s)(ct := db)"
  by (simp add: put_db_def)

lemma sv_dbs_publish [simp]: "sv_dbs (publishEvent ev s) = sv_dbs s"
  by (simp add: publishEvent_def)

lemma grows_publish [simp]: "grows s (publishEvent ev s)"
  by (simp add: grows_def service_ok_def service_le_def)

lemma repo_Get_Some: "repo_Get i db = Some c \<Longrightarrow> c \<in> set (cd_cards db) \<and> cr_ID c = i"
  by (auto simp: repo_Get_def find_Some_iff)

lemma repo_AppendEvent_grows:
  "db_ok db \<Longrightarrow> db_ok (snd (repo_AppendEvent now i inp db)) \<and> db_le db (snd (repo_AppendEvent now i inp db))"
  by (auto simp: repo_AppendEvent_def Let_def db_ok_def db_le_def sorted_wrt_append intro: row_le_refl)

lemma append_and_publish_grows [simp]: "grows s (snd (append_and_publish now ct i inp s))"
proof -
  let ?r = "repo_AppendEvent now i inp (sv_dbs s ct)"
  have put: "grows s (put_db ct (snd ?r) s)" by (rule grows_put_db) (rule repo_AppendEvent_grows)
  show ?thesis
  proof (cases "fst ?r")
    case (Inl e)
    then show ?thesis using put by (simp add: append_and_publish_def case_prod_unfold)
  next
    case (Inr ev)
    then show ?thesis using grows_trans [OF put grows_publish, of ev] by (simp add: append_and_publish_def case_prod_unfold)
  qed
qed

lemma repo_Create_grows:
  "db_ok db \<Longrightarrow> db_ok (snd (repo_Create now inp db)) \<and> db_le db (snd (repo_Create now inp db))"
  by (auto simp: repo_Create_def repo_Get_def Let_def db_ok_def db_le_def find_None_iff image_iff intro: row_le_refl)

lemma repo_Patch_grows:
  assumes "db_ok db" and "\<And>c. repo_Get i db = Some c \<Longrightarrow> cr_Status c \<noteq> CardStatusArchived"
  shows "db_ok (snd (repo_Patch now i r inp db)) \<and> db_le db (snd (repo_Patch now i r inp db))"
proof (cases "repo_Get i db")
  case None
  then show ?thesis using assms(1) by (simp add: repo_Patch_def)
next
  case (Some c)
  let ?f = "\<lambda>x. if cr_ID x = i then patch_row now inp x else x"
  have id: "cr_ID (patch_row now inp x) = cr_ID x" for x by (simp add: patch_row_def)
  have same: "x = c" if "x \<in> set (cd_cards db)" "cr_ID x = i" for x
    using that repo_Get_Some [OF Some] assms(1) by (auto simp: db_ok_def distinct_map dest: inj_onD)
  have "row_le x (?f x)" if "x \<in> set (cd_cards db)" for x
    using same [OF that] assms(2) [OF Some] by (auto simp: row_le_def patch_row_def)
  then have "\<exists>x' \<in> set (map ?f (cd_cards db)). row_le x x'" if "x \<in> set (cd_cards db)" for x
    using that by (intro bexI [of _ "?f x"]) (simp_all only: set_map image_eqI)
  then have "db_le db (db\<lparr>cd_cards := map ?f (cd_cards db)\<rparr>)" unfolding db_le_def by simp
  moreover have ids: "map cr_ID (map ?f (cd_cards db)) = map cr_ID (cd_cards db)" by (simp add: id)
  have "db_ok (db\<lparr>cd_cards := cs\<rparr>)" if "map cr_ID cs = map cr_ID (cd_cards db)" for cs
    using assms(1) that by (simp add: db_ok_def)
  from this [OF ids] have "db_ok (db\<lparr>cd_cards := map ?f (cd_cards db)\<rparr>)" .
  ultimately show ?thesis using assms(1) Some by (simp add: repo_Patch_def)
qed

lemma findCardAndRepo_Get: "findCardAndRepo i s = Some (c, ct) \<Longrightarrow> repo_Get i (sv_dbs s ct) = Some c"
  by (auto simp: findCardAndRepo_def split: option.splits)

lemma append_or_error_grows [simp]: "grows s (snd (append_or_error now ct i inp s))"
  by (simp add: append_or_error_def case_prod_unfold split: sum.split)

lemma patch_events_grow [simp]:
  "grows s (snd (patch_lifecycle ev now ct row inp s))" "grows s (snd (patch_updated ev now ct row inp s))"
  by (simp_all add: patch_lifecycle_def patch_updated_def split: option.split)

lemma svc_PatchCard_grows: "grows s (snd (svc_PatchCard ev1 ev2 now i r inp s))"
proof (cases "findCardAndRepo i s")
  case None
  then show ?thesis by (simp add: svc_PatchCard_def)
next
  case (Some a)
  obtain row ct where a: "a = (row, ct)" by (cases a)
  note row = findCardAndRepo_Get [OF Some [unfolded a]]
  show ?thesis
  proof (cases "check_patch row r inp")
    case (Some e)
    with \<open>findCardAndRepo i s = Some a\<close> show ?thesis by (simp add: svc_PatchCard_def a)
  next
    case None
    let ?p = "repo_Patch now i r inp (sv_dbs s ct)" and ?s1 = "put_db ct (snd (repo_Patch now i r inp (sv_dbs s ct))) s"
    let ?l = "patch_lifecycle ev1 now ct row inp ?s1"
    have "cr_Status row \<noteq> CardStatusArchived" using None by (auto simp: check_patch_def split: if_splits)
    then have 1: "grows s ?s1" using row by (intro grows_put_db repo_Patch_grows) auto
    have 2: "grows s (snd ?l)" by (rule grows_trans [OF 1 patch_events_grow(1)])
    have 3: "grows s (snd (patch_updated ev2 now ct row inp (snd ?l)))" by (rule grows_trans [OF 2 patch_events_grow(2)])
    show ?thesis using 1 2 3 None \<open>findCardAndRepo i s = Some a\<close>
      by (auto simp: svc_PatchCard_def a split: prod.splits sum.splits option.splits)
  qed
qed

lemma svc_CreateCard_grows: "grows s (snd (svc_CreateCard newID ev now t n app ct data s))"
proof -
  let ?c = "repo_Create now \<lparr>ci_ID = newID, ci_TreeID = t, ci_NodeID = n, ci_AppID = app, ci_CardType = ct,
    ci_Data = RawJSON data, ci_Actions = [], ci_ContextHash = []\<rparr> (sv_dbs s ct)"
  have 1: "grows s (put_db ct (snd ?c) s)" by (rule grows_put_db) (rule repo_Create_grows)
  have "grows s (snd (append_and_publish now ct i inp (put_db ct (snd ?c) s)))" for i inp
    by (rule grows_trans [OF 1 append_and_publish_grows])
  with 1 show ?thesis by (auto simp: svc_CreateCard_def case_prod_unfold split: sum.splits)
qed

lemma SubmitCardAction_grows: "grows s (snd (SubmitCardAction exec ev1 ev2 now i handler payload s))"
proof -
  have 2: "grows s (snd (append_and_publish now ct i inp' (snd (append_and_publish now ct i inp s))))" for ct inp inp'
    by (rule grows_trans [OF append_and_publish_grows append_and_publish_grows])
  show ?thesis using append_and_publish_grows 2
    by (auto simp: SubmitCardAction_def Let_def case_prod_unfold split: sum.splits option.splits)
qed

text \<open>The calls of the service that write, as steps.\<close>

inductive card_step :: "card_service \<Rightarrow> card_service \<Rightarrow> bool" where
  step_create: "card_step s (snd (svc_CreateCard newID ev now t n app ct data s))"
| step_patch: "card_step s (snd (svc_PatchCard ev1 ev2 now i r inp s))"
| step_update: "card_step s (snd (svc_UpdateCardData ev1 ev2 now i data s))"
| step_archive: "card_step s (snd (svc_ArchiveCard ev1 ev2 now i r' s))"
| step_action: "card_step s (snd (SubmitCardAction exec ev1 ev2 now i handler payload s))"

lemma card_step_grows: "card_step s s' \<Longrightarrow> grows s s'"
proof (induction rule: card_step.induct)
  case (step_update s ev1 ev2 now i data)
  then show ?case using svc_PatchCard_grows by (auto simp: svc_UpdateCardData_def split: option.splits)
next
  case (step_archive s ev1 ev2 now i r')
  show ?case
  proof (cases "findCardAndRepo i s")
    case (Some a)
    have "snd (case x of (Inl e, s') \<Rightarrow> (Some e, s') | (Inr y, s') \<Rightarrow> (None, s')) = snd x" for x :: "(card_error + card_view) \<times> card_service"
      by (simp split: prod.split sum.split)
    then show ?thesis using Some svc_PatchCard_grows by (simp add: svc_ArchiveCard_def case_prod_unfold)
  qed (simp add: svc_ArchiveCard_def)
qed (rule svc_CreateCard_grows svc_PatchCard_grows SubmitCardAction_grows)+

interpretation cards: evolving card_step service_ok service_le
  by unfold_locales (use card_step_grows grows_def service_le_trans in auto)


text \<open>A service over empty databases, with no live subscribers.\<close>

definition new_card_service :: card_service where
  "new_card_service = \<lparr>sv_dbs = (\<lambda>_. \<lparr>cd_cards = [], cd_events = [], cd_sequence = 0\<rparr>), sv_hub = None\<rparr>"

lemma new_card_service_ok [simp]: "service_ok new_card_service"
  by (simp add: new_card_service_def service_ok_def db_ok_def)

lemma reachable_service_ok: "card_step\<^sup>*\<^sup>* new_card_service s \<Longrightarrow> service_ok s"
  using cards.run_ok new_card_service_ok by blast

section \<open>The history of cards\<close>

lemma card_history_grows_parts:
  assumes "card_step\<^sup>*\<^sup>* new_card_service s" and "card_step\<^sup>*\<^sup>* s s'"
  shows "\<forall>ct. \<forall>c \<in> set (cd_cards (sv_dbs s ct)). \<exists>c' \<in> set (cd_cards (sv_dbs s' ct)).
           cr_ID c' = cr_ID c \<and> cr_TreeID c' = cr_TreeID c \<and> cr_NodeID c' = cr_NodeID c \<and> cr_AppID c' = cr_AppID c \<and>
           cr_CardType c' = cr_CardType c \<and> cr_CreatedAt c' = cr_CreatedAt c \<and>
           (c' = c \<or> cr_Revision c < cr_Revision c' \<and> cr_Status c \<noteq> CardStatusArchived)"
    and "\<forall>ct. \<exists>es. cd_events (sv_dbs s' ct) = cd_events (sv_dbs s ct) @ es \<and>
           sorted_wrt (<) (map se_Sequence (cd_events (sv_dbs s ct) @ es)) \<and> distinct (map cr_ID (cd_cards (sv_dbs s' ct)))"
proof -
  have ok: "service_ok s' \<and> service_le s s'"
    using cards.run_ok [OF assms(2)] reachable_service_ok [OF assms(1)] by blast
  then show "\<forall>ct. \<forall>c \<in> set (cd_cards (sv_dbs s ct)). \<exists>c' \<in> set (cd_cards (sv_dbs s' ct)).
           cr_ID c' = cr_ID c \<and> cr_TreeID c' = cr_TreeID c \<and> cr_NodeID c' = cr_NodeID c \<and> cr_AppID c' = cr_AppID c \<and>
           cr_CardType c' = cr_CardType c \<and> cr_CreatedAt c' = cr_CreatedAt c \<and>
           (c' = c \<or> cr_Revision c < cr_Revision c' \<and> cr_Status c \<noteq> CardStatusArchived)"
    by (simp add: service_le_def db_le_def row_le_def)
  show "\<forall>ct. \<exists>es. cd_events (sv_dbs s' ct) = cd_events (sv_dbs s ct) @ es \<and>
           sorted_wrt (<) (map se_Sequence (cd_events (sv_dbs s ct) @ es)) \<and> distinct (map cr_ID (cd_cards (sv_dbs s' ct)))"
    using ok unfolding service_ok_def db_ok_def service_le_def db_le_def by metis
qed

text \<open>
  C12: Whatever calls run against the service, no card is lost and none loses its identity: it
  keeps identifier, tree, node, application, type and creation time. A card that reads
  differently later has a greater revision and was not archived before, so archived cards
  never change. The event log of each type is append-only with strictly increasing sequences.
\<close>

theorem card_history_grows:
  assumes "card_step\<^sup>*\<^sup>* new_card_service s" and "card_step\<^sup>*\<^sup>* s s'"
  shows "(\<forall>ct. \<forall>c \<in> set (cd_cards (sv_dbs s ct)). \<exists>c' \<in> set (cd_cards (sv_dbs s' ct)).
           cr_ID c' = cr_ID c \<and> cr_TreeID c' = cr_TreeID c \<and> cr_NodeID c' = cr_NodeID c \<and> cr_AppID c' = cr_AppID c \<and>
           cr_CardType c' = cr_CardType c \<and> cr_CreatedAt c' = cr_CreatedAt c \<and>
           (c' = c \<or> cr_Revision c < cr_Revision c' \<and> cr_Status c \<noteq> CardStatusArchived)) \<and>
         (\<forall>ct. \<exists>es. cd_events (sv_dbs s' ct) = cd_events (sv_dbs s ct) @ es \<and>
           sorted_wrt (<) (map se_Sequence (cd_events (sv_dbs s ct) @ es)) \<and> distinct (map cr_ID (cd_cards (sv_dbs s' ct))))"
  by (intro conjI card_history_grows_parts [OF assms])

definition demo_created :: card_service where
  "demo_created = snd (svc_CreateCard 1 100 5 2 3 ''app'' CardTypeCompact (JObj []) new_card_service)"

definition demo_archived :: card_service where
  "demo_archived = snd (svc_ArchiveCard 101 102 6 1 None demo_created)"

lemma demo_created_step: "card_step\<^sup>*\<^sup>* new_card_service demo_created"
  unfolding demo_created_def using step_create by blast

lemma demo_archived_step: "card_step\<^sup>*\<^sup>* demo_created demo_archived"
  unfolding demo_archived_def using step_archive by blast

theorem card_history_grows_witness:
  "(\<exists>c' \<in> set (cd_cards (sv_dbs demo_archived CardTypeCompact)). cr_ID c' = 1 \<and> cr_Revision c' = 2) \<and>
   (\<exists>es. cd_events (sv_dbs demo_archived CardTypeCompact) = cd_events (sv_dbs demo_created CardTypeCompact) @ es)"
proof -
  have "cd_events (sv_dbs demo_archived CardTypeCompact) \<noteq> cd_events (sv_dbs demo_created CardTypeCompact)" by code_simp
  moreover have "\<exists>c' \<in> set (cd_cards (sv_dbs demo_archived CardTypeCompact)). cr_ID c' = 1 \<and> cr_Revision c' = 2" by code_simp
  ultimately show ?thesis using card_history_grows [OF demo_created_step demo_archived_step] by blast
qed

section \<open>Patching\<close>

lemma repo_Get_patched:
  assumes "repo_Get i db = Some c"
  shows "repo_Get i (db\<lparr>cd_cards := map (\<lambda>x. if cr_ID x = i then patch_row now inp x else x) (cd_cards db)\<rparr>) = Some (patch_row now inp c)"
proof -
  have "find (\<lambda>x. cr_ID x = i) (map (\<lambda>x. if cr_ID x = i then patch_row now inp x else x) cs) = Some (patch_row now inp c)"
    if "find (\<lambda>x. cr_ID x = i) cs = Some c" for cs
    using that by (induction cs) (auto simp: patch_row_def split: if_splits)
  then show ?thesis using assms by (simp add: repo_Get_def)
qed

lemma append_and_publish_cards [simp]:
  "cd_cards (sv_dbs (snd (append_and_publish now ct i inp s)) ct') = cd_cards (sv_dbs s ct')"
  by (auto simp: append_and_publish_def repo_AppendEvent_def Let_def split: prod.splits sum.splits if_splits)

lemma append_or_error_cards [simp]:
  "cd_cards (sv_dbs (snd (append_or_error now ct i inp s)) ct') = cd_cards (sv_dbs s ct')"
  by (simp add: append_or_error_def case_prod_unfold split: sum.split)

lemma patch_events_cards [simp]:
  "cd_cards (sv_dbs (snd (patch_lifecycle ev now ct row inp s)) ct') = cd_cards (sv_dbs s ct')"
  "cd_cards (sv_dbs (snd (patch_updated ev now ct row inp s)) ct') = cd_cards (sv_dbs s ct')"
  by (simp_all add: patch_lifecycle_def patch_updated_def split: option.split)

lemma find_in_cong:
  "(\<And>ct. ct \<in> set cts \<Longrightarrow> repo_Get i (sv_dbs s ct) = repo_Get i (sv_dbs s' ct)) \<Longrightarrow> find_in i cts s = find_in i cts s'"
  by (induction cts) (auto split: option.split)

lemma find_in_put:
  "find_in i cts s = Some (c, ct) \<Longrightarrow> repo_Get i db = Some c' \<Longrightarrow> find_in i cts (put_db ct db s) = Some (c', ct)"
  by (induction cts) (auto split: option.splits if_splits)

text \<open>What a successful \<open>PatchCard\<close> went through.\<close>

lemma svc_PatchCard_ok:
  assumes "findCardAndRepo i s = Some (row, ct)" and "svc_PatchCard ev1 ev2 now i r inp s = (Inr view, s')"
  shows "check_patch row r inp = None" and "cv_Card view = patch_row now inp row"
    and "findCardAndRepo i s' = Some (patch_row now inp row, ct)"
proof -
  note row = findCardAndRepo_Get [OF assms(1)]
  show check: "check_patch row r inp = None"
    using assms by (auto simp: svc_PatchCard_def split: option.splits)
  let ?db = "(sv_dbs s ct)\<lparr>cd_cards := map (\<lambda>x. if cr_ID x = i then patch_row now inp x else x) (cd_cards (sv_dbs s ct))\<rparr>"
  let ?l = "patch_lifecycle ev1 now ct row inp (put_db ct ?db s)"
  have rev: "cr_Revision row = r" using check by (simp add: check_patch_def split: if_splits)
  have *: "cv_Card view = patch_row now inp row \<and> s' = snd (patch_updated ev2 now ct row inp (snd ?l))"
    using assms row check rev
    by (auto simp: svc_PatchCard_def repo_Patch_def CardToSummary_def split: prod.splits option.splits)
  then show "cv_Card view = patch_row now inp row" ..
  have "repo_Get i (sv_dbs s' t) = repo_Get i (sv_dbs (put_db ct ?db s) t)" for t
    using * by (simp add: repo_Get_def)
  then have "findCardAndRepo i s' = findCardAndRepo i (put_db ct ?db s)"
    unfolding findCardAndRepo_def by (intro find_in_cong) simp
  then show "findCardAndRepo i s' = Some (patch_row now inp row, ct)"
    using find_in_put [OF assms(1) [unfolded findCardAndRepo_def] repo_Get_patched [OF row]] by (simp add: findCardAndRepo_def)
qed

lemma patch_card_compare_and_swap_parts:
  assumes "findCardAndRepo i s = Some (row, ct)" and "svc_PatchCard ev1 ev2 now i r inp s = (Inr view, s')"
  shows "cr_Revision row = r" and "cr_Status row \<noteq> CardStatusArchived"
    and "pi_Status inp = Some target \<Longrightarrow> lifecycle_event (cr_Status row) target \<noteq> None"
    and "cr_Status row = CardStatusDismissed \<Longrightarrow> cr_Data (cv_Card view) = cr_Data row \<and> cr_Actions (cv_Card view) = cr_Actions row"
    and "cr_Revision (cv_Card view) = r + 1" and "findCardAndRepo i s' = Some (cv_Card view, ct)"
    and "svc_PatchCard ev3 ev4 now' i r inp' s' = (Inl ErrRevisionConflict, s')"
proof -
  note found = svc_PatchCard_ok [OF assms]
  show "cr_Revision row = r" and "cr_Status row \<noteq> CardStatusArchived"
    and "pi_Status inp = Some target \<Longrightarrow> lifecycle_event (cr_Status row) target \<noteq> None"
    using found(1) by (auto simp: check_patch_def split: if_splits)
  then show "cr_Revision (cv_Card view) = r + 1" using found(2) by (simp add: patch_row_def)
  show "cr_Data (cv_Card view) = cr_Data row \<and> cr_Actions (cv_Card view) = cr_Actions row"
    if "cr_Status row = CardStatusDismissed"
    using found(1,2) that by (auto simp: check_patch_def has_data_mutation_def patch_row_def split: if_splits)
  show "findCardAndRepo i s' = Some (cv_Card view, ct)" using found(2,3) by simp
  show "svc_PatchCard ev3 ev4 now' i r inp' s' = (Inl ErrRevisionConflict, s')"
    using found(3) \<open>cr_Revision row = r\<close> by (simp add: svc_PatchCard_def check_patch_def patch_row_def)
qed


text \<open>
  \<open>PatchCard\<close> is a compare-and-swap: when it succeeds the card had the expected revision and
  was not archived, a status change was one of the legal transitions, a dismissed card kept
  its data and actions, and the card read back is the patched row at revision \<open>r + 1\<close>; a
  second patch that still expects revision \<open>r\<close> then fails and changes nothing.
\<close>

lemma patch_card_compare_and_swap:
  assumes "findCardAndRepo i s = Some (row, ct)" and "svc_PatchCard ev1 ev2 now i r inp s = (Inr view, s')"
  shows "cr_Revision row = r \<and> cr_Status row \<noteq> CardStatusArchived \<and>
    (\<forall>target. pi_Status inp = Some target \<longrightarrow> lifecycle_event (cr_Status row) target \<noteq> None) \<and>
    (cr_Status row = CardStatusDismissed \<longrightarrow> cr_Data (cv_Card view) = cr_Data row \<and> cr_Actions (cv_Card view) = cr_Actions row) \<and>
    cr_Revision (cv_Card view) = r + 1 \<and> findCardAndRepo i s' = Some (cv_Card view, ct) \<and>
    (\<forall>ev3 ev4 now' inp'. svc_PatchCard ev3 ev4 now' i r inp' s' = (Inl ErrRevisionConflict, s'))"
  using patch_card_compare_and_swap_parts [OF assms] by blast

theorem patch_card_compare_and_swap_witness:
  "\<exists>view s'. svc_PatchCard 101 102 6 1 1 \<lparr>pi_Data = None, pi_Actions = None, pi_Status = Some CardStatusDismissed, pi_ContextHash = None\<rparr>
       demo_created = (Inr view, s') \<and> cr_Revision (cv_Card view) = 2"
proof -
  let ?inp = "\<lparr>pi_Data = None, pi_Actions = None, pi_Status = Some CardStatusDismissed, pi_ContextHash = None\<rparr>"
  let ?p = "svc_PatchCard 101 102 6 1 1 ?inp demo_created"
  have "case fst ?p of Inl _ \<Rightarrow> False | Inr _ \<Rightarrow> True" by code_simp
  then obtain view s' where p: "?p = (Inr view, s')" by (cases ?p) (auto split: sum.splits)
  have "case findCardAndRepo 1 demo_created of Some (c, ct) \<Rightarrow> True | None \<Rightarrow> False" by code_simp
  then obtain row ct where "findCardAndRepo 1 demo_created = Some (row, ct)" by (auto split: option.splits)
  from patch_card_compare_and_swap [OF this p] p show ?thesis by auto
qed

section \<open>The trail of an action\<close>

definition fresh_event :: "uuid \<Rightarrow> card_db \<Rightarrow> bool" where
  "fresh_event ev db \<longleftrightarrow> (\<forall>e \<in> set (cd_events db). se_EventID e \<noteq> ev)"

text \<open>Appending to an existing card under a fresh event identifier succeeds.\<close>

lemma append_and_publish_fresh:
  assumes "repo_Get i (sv_dbs s ct) = Some row" and "fresh_event (ai_EventID inp) (sv_dbs s ct)"
  obtains e s' where "append_and_publish now ct i inp s = (Inr e, s')"
    and "cd_events (sv_dbs s' ct) = cd_events (sv_dbs s ct) @ [e]" and "repo_Get i (sv_dbs s' ct) = Some row"
    and "se_EventType e = ai_EventType inp" and "se_EventID e = ai_EventID inp" and "se_CardID e = i"
    and "se_Payload e = or_empty_object (ai_Payload inp)"
    and "se_Sequence e = cd_sequence (sv_dbs s ct) + 1" and "cd_sequence (sv_dbs s' ct) = cd_sequence (sv_dbs s ct) + 1"
proof -
  let ?e = "\<lparr>se_Sequence = cd_sequence (sv_dbs s ct) + 1, se_EventID = ai_EventID inp, se_CardID = i,
    se_EventType = ai_EventType inp, se_ActorKind = ai_ActorKind inp, se_ActorID = ai_ActorID inp,
    se_Payload = or_empty_object (ai_Payload inp), se_CreatedAt = now\<rparr>"
  let ?db = "(sv_dbs s ct)\<lparr>cd_events := cd_events (sv_dbs s ct) @ [?e], cd_sequence := cd_sequence (sv_dbs s ct) + 1\<rparr>"
  have "append_and_publish now ct i inp s = (Inr ?e, publishEvent ?e (put_db ct ?db s))"
    using assms by (auto simp: append_and_publish_def repo_AppendEvent_def fresh_event_def Let_def)
  from that [OF this] assms(1) show thesis by (simp add: repo_Get_def)
qed

lemma findDeclaredAction_Some: "findDeclaredAction as h = Some a \<Longrightarrow> a \<in> set as \<and> ca_Handler a = h"
  by (auto simp: findDeclaredAction_def find_Some_iff)

text \<open>
  A submitted action either is refused and leaves no trace (no handler, no JSON object,
  archived or dismissed card, handler not declared), or it leaves exactly two events: the
  request, then the completion when the executor gave a JSON result and the error event
  otherwise, with consecutive sequences, and the answer says which.
\<close>

lemma submit_action_trail:
  assumes found: "findCardAndRepo i s = Some (row, ct)"
    and fresh: "fresh_event ev1 (sv_dbs s ct)" "fresh_event ev2 (sv_dbs s ct)" "ev1 \<noteq> ev2"
    and run: "SubmitCardAction exec ev1 ev2 now i handler payload s = (res, s')"
  shows "s' = s \<and> fst res = None \<and> snd res \<in> Some ` {ErrCardActionHandlerRequired, ErrCardActionPayloadInvalid, ErrStatusArchived, ErrStatusDismissed,
           ErrCardActionNotDeclared} \<or>
         (\<exists>a pl e1 e2. a \<in> set (cr_Actions row) \<and> ca_Handler a = trim_space handler \<and> normalizeActionPayload payload = Inr pl \<and>
            cr_Status row \<notin> {CardStatusArchived, CardStatusDismissed} \<and>
            cd_events (sv_dbs s' ct) = cd_events (sv_dbs s ct) @ [e1, e2] \<and> se_CardID e1 = i \<and> se_CardID e2 = i \<and>
            se_Sequence e2 = se_Sequence e1 + 1 \<and> se_EventType e1 = ''action_requested'' \<and>
            (case action_result exec row a pl of
               Inl err \<Rightarrow> se_EventType e2 = ''agent_error'' \<and> snd res = Some (ErrCardActionFailed err)
             | Inr v \<Rightarrow> se_EventType e2 = ''action_completed'' \<and> snd res = None) \<and>
            (\<exists>out. fst res = Some out \<and> co_RequestedSeq out = se_Sequence e1 \<and> co_ResultSeq out = se_Sequence e2 \<and>
               co_ResultEventType out = se_EventType e2))"
    (is "?refused \<or> ?done")
proof (cases "\<exists>pl a. trim_space handler \<noteq> [] \<and> normalizeActionPayload payload = Inr pl \<and> cr_Status row \<notin> {CardStatusArchived, CardStatusDismissed}
    \<and> findDeclaredAction (cr_Actions row) (trim_space handler) = Some a")
  case False
  have "normalizeActionPayload payload = Inl e \<Longrightarrow> e = ErrCardActionPayloadInvalid" for e
    by (auto simp: normalizeActionPayload_def split: raw_message.splits json.splits)
  with False run found have ?refused
    by (auto simp: SubmitCardAction_def Let_def split: sum.splits option.splits if_splits)
  then show ?thesis ..
next
  case True
  then obtain pl a where h: "trim_space handler \<noteq> []" and pl: "normalizeActionPayload payload = Inr pl"
    and st: "cr_Status row \<notin> {CardStatusArchived, CardStatusDismissed}"
    and a: "findDeclaredAction (cr_Actions row) (trim_space handler) = Some a" by blast
  define req where "req = \<lparr>ai_EventID = ev1, ai_EventType = ''action_requested'', ai_ActorKind = ActorUser, ai_ActorID = ''user'',
    ai_Payload = RawJSON (JObj [(''handler'', JStr (trim_space handler)), (''payload'', (case pl of RawJSON v \<Rightarrow> v | _ \<Rightarrow> JNull))])\<rparr>"
  have "fresh_event (ai_EventID req) (sv_dbs s ct)" using fresh(1) by (simp add: req_def)
  from append_and_publish_fresh [OF findCardAndRepo_Get [OF found] this, of now]
  obtain e1 s1 where 1: "append_and_publish now ct i req s = (Inr e1, s1)"
    "cd_events (sv_dbs s1 ct) = cd_events (sv_dbs s ct) @ [e1]" "repo_Get i (sv_dbs s1 ct) = Some row"
    "se_EventType e1 = ai_EventType req" "se_EventID e1 = ai_EventID req" "se_CardID e1 = i"
    "se_Sequence e1 = cd_sequence (sv_dbs s ct) + 1" "cd_sequence (sv_dbs s1 ct) = cd_sequence (sv_dbs s ct) + 1" by blast
  have fresh2: "fresh_event ev2 (sv_dbs s1 ct)" using fresh 1(2,5) by (auto simp: fresh_event_def req_def)
  let ?res = "action_result exec row a pl"
  define inp where "inp = (case ?res of
      Inl err \<Rightarrow> \<lparr>ai_EventID = ev2, ai_EventType = ''agent_error'', ai_ActorKind = ActorAgent, ai_ActorID = trim_space handler,
        ai_Payload = RawJSON (JObj [(''handler'', JStr (trim_space handler)), (''error'', JStr err)])\<rparr>
    | Inr v \<Rightarrow> \<lparr>ai_EventID = ev2, ai_EventType = ''action_completed'', ai_ActorKind = ActorAgent, ai_ActorID = trim_space handler,
        ai_Payload = RawJSON (JObj [(''handler'', JStr (trim_space handler)), (''result'', v)])\<rparr>)"
  have "fresh_event (ai_EventID inp) (sv_dbs s1 ct)" using fresh2 by (simp add: inp_def split: sum.split)
  from append_and_publish_fresh [OF 1(3) this, of now]
  obtain e2 s2 where 2: "append_and_publish now ct i inp s1 = (Inr e2, s2)"
    "cd_events (sv_dbs s2 ct) = cd_events (sv_dbs s1 ct) @ [e2]" "se_EventType e2 = ai_EventType inp" "se_CardID e2 = i"
    "se_Sequence e2 = cd_sequence (sv_dbs s1 ct) + 1" by blast
  have "s' = s2 \<and> snd res = (case ?res of Inl err \<Rightarrow> Some (ErrCardActionFailed err) | Inr v \<Rightarrow> None) \<and>
      (\<exists>out. fst res = Some out \<and> co_RequestedSeq out = se_Sequence e1 \<and> co_ResultSeq out = se_Sequence e2 \<and>
         co_ResultEventType out = ai_EventType inp)"
    using run found h pl st a 1(1) 2(1) by (auto simp: SubmitCardAction_def Let_def inp_def req_def split: sum.splits)
  then have "a \<in> set (cr_Actions row) \<and> ca_Handler a = trim_space handler \<and> normalizeActionPayload payload = Inr pl \<and>
            cr_Status row \<notin> {CardStatusArchived, CardStatusDismissed} \<and>
            cd_events (sv_dbs s' ct) = cd_events (sv_dbs s ct) @ [e1, e2] \<and> se_CardID e1 = i \<and> se_CardID e2 = i \<and>
            se_Sequence e2 = se_Sequence e1 + 1 \<and> se_EventType e1 = ''action_requested'' \<and>
            (case ?res of
               Inl err \<Rightarrow> se_EventType e2 = ''agent_error'' \<and> snd res = Some (ErrCardActionFailed err)
             | Inr v \<Rightarrow> se_EventType e2 = ''action_completed'' \<and> snd res = None) \<and>
            (\<exists>out. fst res = Some out \<and> co_RequestedSeq out = se_Sequence e1 \<and> co_ResultSeq out = se_Sequence e2 \<and>
               co_ResultEventType out = se_EventType e2)"
    using pl st findDeclaredAction_Some [OF a] 1 2 by (auto simp: inp_def req_def split: sum.splits)
  then show ?thesis by blast
qed

definition demo_action :: card_service where
  "demo_action = snd (svc_PatchCard 101 102 6 1 1 \<lparr>pi_Data = None, pi_Actions = Some [\<lparr>ca_Label = ''Run'', ca_Handler = ''run''\<rparr>],
     pi_Status = None, pi_ContextHash = None\<rparr> demo_created)"

theorem submit_action_trail_witness:
  "\<exists>e1 e2. cd_events (sv_dbs (snd (SubmitCardAction echoActionExecutor 103 104 7 1 ''run'' RawNil demo_action)) CardTypeCompact) =
     cd_events (sv_dbs demo_action CardTypeCompact) @ [e1, e2]"
proof -
  let ?r = "SubmitCardAction echoActionExecutor 103 104 7 1 ''run'' RawNil demo_action"
  have fresh: "fresh_event 103 (sv_dbs demo_action CardTypeCompact)" "fresh_event 104 (sv_dbs demo_action CardTypeCompact)" by code_simp+
  have "case findCardAndRepo 1 demo_action of Some (c, ct) \<Rightarrow> ct = CardTypeCompact | None \<Rightarrow> False" by code_simp
  then obtain row where found: "findCardAndRepo 1 demo_action = Some (row, CardTypeCompact)" by (auto split: option.splits)
  have "fst (fst ?r) \<noteq> None" by code_simp
  with submit_action_trail [OF found fresh _ surjective_pairing [of ?r]] show ?thesis by fastforce
qed

text \<open>
  \<open>List\<close> orders by the text of the update time, whose fraction has no trailing zeros: a card
  updated 3 ms after another can come behind it.
\<close>

lemma list_order_not_chronological:
  "(120000000::int) < 123000000" and "format_rfc3339nano 123000000 < format_rfc3339nano 120000000"
proof -
  have "pad_digits 9 120000000 = ''120000000''" "pad_digits 9 123000000 = ''123000000''"
    by (simp_all add: pad_digits_def nat_digits.simps char_of_def bit_0)
  moreover have "format_rfc3339 120000000 = ''0001-01-01T00:00:00Z''" "format_rfc3339 123000000 = ''0001-01-01T00:00:00Z''"
    by code_simp+
  ultimately have "format_rfc3339nano 120000000 = ''0001-01-01T00:00:00.12Z''"
    and "format_rfc3339nano 123000000 = ''0001-01-01T00:00:00.123Z''"
    by (simp_all add: format_rfc3339nano_def)
  then show "format_rfc3339nano 123000000 < format_rfc3339nano 120000000" by (simp add: less_char_def)
qed simp

end
