(* ===== verification/Message_Queue.thy ===== *)
theory Message_Queue
  imports Canopy_Prelude
begin

text \<open>
  The offline queue of a peer (\<open>internal/transport/message_queue.go\<close>): a ring buffer that
  drops its oldest message when full. A message is a pointer, \<open>None\<close> the nil pointer; positions
  and sizes, never negative, are natural numbers. The locale \<open>bounded_queue\<close> is the contract the
  connection manager relies on: a list of at most \<open>capacity\<close> messages.
\<close>

section \<open>The ring buffer\<close>

definition DefaultQueueCapacity :: nat where [simp]: "DefaultQueueCapacity = 10000"

record 'a message_queue =
  mq_buffer :: "'a option list"
  mq_head :: nat
  mq_tail :: nat
  mq_capacity :: nat
  mq_size :: nat

definition NewMessageQueue :: "int \<Rightarrow> 'a message_queue" where
  "NewMessageQueue capacity =
     (let c = (if capacity \<le> 0 then DefaultQueueCapacity else nat capacity)
      in \<lparr>mq_buffer = replicate c None, mq_head = 0, mq_tail = 0, mq_capacity = c, mq_size = 0\<rparr>)"

definition ensureInitialized :: "'a message_queue \<Rightarrow> 'a message_queue" where
  "ensureInitialized mq =
     (if mq_capacity mq > 0 \<and> length (mq_buffer mq) = mq_capacity mq then mq
      else \<lparr>mq_buffer = replicate DefaultQueueCapacity None, mq_head = 0, mq_tail = 0,
            mq_capacity = DefaultQueueCapacity, mq_size = 0\<rparr>)"

text \<open>Forgetting the entry at the tail: the step \<open>Enqueue\<close>, \<open>Dequeue\<close> and \<open>Drain\<close> share.\<close>

definition advance :: "'a message_queue \<Rightarrow> 'a message_queue" where
  "advance mq = mq\<lparr>mq_buffer := (mq_buffer mq)[mq_tail mq := None],
     mq_tail := (mq_tail mq + 1) mod mq_capacity mq, mq_size := mq_size mq - 1\<rparr>"

text \<open>The flag tells that the queue was full, reported as \<open>ErrNoTransportAvailable\<close>.\<close>

definition mq_Enqueue :: "'a option \<Rightarrow> 'a message_queue \<Rightarrow> bool \<times> 'a message_queue" where
  "mq_Enqueue msg mq0 =
     (let mq = ensureInitialized mq0;
          full = (mq_size mq = mq_capacity mq);
          mq1 = (if full then advance mq else mq)
      in (full, mq1\<lparr>mq_buffer := (mq_buffer mq1)[mq_head mq1 := msg],
            mq_head := (mq_head mq1 + 1) mod mq_capacity mq1, mq_size := mq_size mq1 + 1\<rparr>))"

definition mq_Peek :: "'a message_queue \<Rightarrow> 'a option" where
  "mq_Peek mq = (if mq_size mq = 0 then None else mq_buffer mq ! mq_tail mq)"

definition mq_Dequeue :: "'a message_queue \<Rightarrow> 'a option \<times> 'a message_queue" where
  "mq_Dequeue mq = (if mq_size mq = 0 then (None, mq) else (mq_buffer mq ! mq_tail mq, advance mq))"

definition mq_IsFull :: "'a message_queue \<Rightarrow> bool" where
  "mq_IsFull mq \<longleftrightarrow> mq_capacity mq > 0 \<and> mq_size mq = mq_capacity mq"

function mq_Drain :: "'a message_queue \<Rightarrow> 'a option list \<times> 'a message_queue" where
  "mq_Drain mq =
     (if mq_size mq = 0 then ([], mq)
      else (case mq_Drain (advance mq) of (ms, mq') \<Rightarrow> (mq_buffer mq ! mq_tail mq # ms, mq')))"
  by auto
termination by (relation "measure mq_size") (auto simp: advance_def)

declare mq_Drain.simps [simp del]

section \<open>The bounded queue it implements\<close>

text \<open>Dropping the oldest of a list that would outgrow its bound.\<close>

definition push_bounded :: "nat \<Rightarrow> 'b \<Rightarrow> 'b list \<Rightarrow> 'b list" where
  "push_bounded c x xs = (if length xs = c then tl xs @ [x] else xs @ [x])"

lemma push_bounded_drop: "length xs \<le> c \<Longrightarrow> 0 < c \<Longrightarrow> push_bounded c x xs = drop (length xs + 1 - c) (xs @ [x])"
  by (cases xs) (auto simp: push_bounded_def)

lemma fold_push_bounded:
  "length xs \<le> c \<Longrightarrow> 0 < c \<Longrightarrow> fold (push_bounded c) ys xs = drop (length xs + length ys - c) (xs @ ys)"
proof (induction ys arbitrary: xs)
  case (Cons y ys)
  have "length (push_bounded c y xs) \<le> c" using Cons.prems by (auto simp: push_bounded_def)
  from Cons.IH [OF this Cons.prems(2)] have
    "fold (push_bounded c) (y # ys) xs = drop (length (push_bounded c y xs) + length ys - c) (push_bounded c y xs @ ys)" by simp
  also have "\<dots> = drop (length xs + length (y # ys) - c) (xs @ y # ys)"
  proof (cases "length xs = c")
    case True
    with Cons.prems obtain z zs where "xs = z # zs" by (cases xs) auto
    with True show ?thesis by (simp add: push_bounded_def)
  next
    case False
    then show ?thesis by (simp add: push_bounded_def)
  qed
  finally show ?case .
qed simp

locale bounded_queue =
  fixes ok :: "'q \<Rightarrow> bool" and contents :: "'q \<Rightarrow> 'b list" and capacity :: "'q \<Rightarrow> nat"
    and enqueue :: "'b \<Rightarrow> 'q \<Rightarrow> bool \<times> 'q" and drain :: "'q \<Rightarrow> 'b list \<times> 'q"
  assumes capacity_pos: "ok q \<Longrightarrow> 0 < capacity q"
    and contents_bound: "ok q \<Longrightarrow> length (contents q) \<le> capacity q"
    and enqueue_ok: "ok q \<Longrightarrow> ok (snd (enqueue x q)) \<and> capacity (snd (enqueue x q)) = capacity q"
    and enqueue_contents: "ok q \<Longrightarrow> contents (snd (enqueue x q)) = push_bounded (capacity q) x (contents q)"
    and enqueue_full: "ok q \<Longrightarrow> fst (enqueue x q) \<longleftrightarrow> length (contents q) = capacity q"
    and drain_ok: "ok q \<Longrightarrow> ok (snd (drain q)) \<and> capacity (snd (drain q)) = capacity q"
    and drain_contents: "ok q \<Longrightarrow> fst (drain q) = contents q \<and> contents (snd (drain q)) = []"
begin

definition enqueue_all :: "'b list \<Rightarrow> 'q \<Rightarrow> 'q" where
  "enqueue_all xs q = fold (\<lambda>x q. snd (enqueue x q)) xs q"

lemma enqueue_all_ok:
  "ok q \<Longrightarrow> ok (enqueue_all xs q) \<and> capacity (enqueue_all xs q) = capacity q \<and>
     contents (enqueue_all xs q) = fold (push_bounded (capacity q)) xs (contents q)"
  unfolding enqueue_all_def
  by (induction xs arbitrary: q) (simp_all add: enqueue_ok enqueue_contents)

text \<open>The queue keeps the newest \<open>capacity\<close> messages, in order.\<close>

lemma enqueue_all_newest:
  "ok q \<Longrightarrow> contents (enqueue_all xs q) = drop (length (contents q) + length xs - capacity q) (contents q @ xs)"
  by (simp add: enqueue_all_ok fold_push_bounded contents_bound capacity_pos)

text \<open>Draining and putting back a suffix leaves that suffix: nothing is dropped.\<close>

lemma requeue_suffix:
  assumes "ok q" and "length xs \<le> length (contents q)"
  shows "ok (enqueue_all xs (snd (drain q)))" and "contents (enqueue_all xs (snd (drain q))) = xs"
    and "capacity (enqueue_all xs (snd (drain q))) = capacity q"
proof -
  note d = drain_ok [OF assms(1)] drain_contents [OF assms(1)]
  show "ok (enqueue_all xs (snd (drain q)))" "capacity (enqueue_all xs (snd (drain q))) = capacity q"
    using enqueue_all_ok [of "snd (drain q)" xs] d by simp_all
  show "contents (enqueue_all xs (snd (drain q))) = xs"
    using enqueue_all_newest [of "snd (drain q)" xs] d contents_bound [OF assms(1)] assms(2) by simp
qed

end

section \<open>Refinement\<close>

definition mq_ok :: "'a message_queue \<Rightarrow> bool" where
  "mq_ok mq \<longleftrightarrow> 0 < mq_capacity mq \<and> length (mq_buffer mq) = mq_capacity mq \<and> mq_size mq \<le> mq_capacity mq \<and>
     mq_tail mq < mq_capacity mq \<and> mq_head mq = (mq_tail mq + mq_size mq) mod mq_capacity mq"

definition mq_contents :: "'a message_queue \<Rightarrow> 'a option list" where
  "mq_contents mq = map (\<lambda>i. mq_buffer mq ! ((mq_tail mq + i) mod mq_capacity mq)) [0..<mq_size mq]"

lemma length_mq_contents [simp]: "length (mq_contents mq) = mq_size mq"
  by (simp add: mq_contents_def)

lemma mq_contents_nth: "i < mq_size mq \<Longrightarrow> mq_contents mq ! i = mq_buffer mq ! ((mq_tail mq + i) mod mq_capacity mq)"
  by (simp add: mq_contents_def)

text \<open>Different offsets below the capacity are different slots.\<close>

lemma slot_inj:
  assumes "i < c" and "j < c" and "(t + i) mod c = (t + j) mod c"
  shows "i = (j::nat)"
proof -
  have "j = i" if "i \<le> j" "j < c" "(t + i) mod c = (t + j) mod c" for i j :: nat
  proof -
    have "c dvd j - i" using that mod_eq_dvd_iff_nat [of "t + i" "t + j" c] by simp
    with that show ?thesis by (auto dest: dvd_imp_le)
  qed
  from this [of i j] this [of j i] assms show ?thesis by linarith
qed

lemma advance_ok:
  assumes "mq_ok mq" and "0 < mq_size mq"
  shows "mq_ok (advance mq)" and "mq_contents (advance mq) = tl (mq_contents mq)"
    and "mq_buffer mq ! mq_tail mq = hd (mq_contents mq)"
proof -
  let ?c = "mq_capacity mq"
  have wrap: "((mq_tail mq + 1) mod ?c + k) mod ?c = (mq_tail mq + Suc k) mod ?c" for k
    by (simp add: mod_add_left_eq)
  from assms wrap [of "mq_size mq - 1"] show "mq_ok (advance mq)"
    by (auto simp: mq_ok_def advance_def)
  show "mq_contents (advance mq) = tl (mq_contents mq)"
  proof (rule nth_equalityI)
    show "length (mq_contents (advance mq)) = length (tl (mq_contents mq))" by (simp add: advance_def)
    fix i assume "i < length (mq_contents (advance mq))"
    then have i: "Suc i < mq_size mq" by (simp add: advance_def)
    have "(mq_tail mq + Suc i) mod ?c \<noteq> mq_tail mq"
      using slot_inj [of "Suc i" ?c 0 "mq_tail mq"] i assms(1) by (auto simp: mq_ok_def)
    then show "mq_contents (advance mq) ! i = tl (mq_contents mq) ! i"
      using i wrap [of i] by (simp add: nth_tl mq_contents_nth advance_def)
  qed
  show "mq_buffer mq ! mq_tail mq = hd (mq_contents mq)"
    using assms by (simp add: hd_conv_nth [symmetric] mq_contents_def mq_ok_def upt_conv_Cons)
qed

lemma write_ok:
  fixes mq :: "'a message_queue" and msg :: "'a option"
  assumes "mq_ok mq" and "mq_size mq < mq_capacity mq"
  defines "mq' \<equiv> mq\<lparr>mq_buffer := (mq_buffer mq)[mq_head mq := msg], mq_head := (mq_head mq + 1) mod mq_capacity mq, mq_size := mq_size mq + 1\<rparr>"
  shows "mq_ok mq'" and "mq_contents mq' = mq_contents mq @ [msg]"
proof -
  let ?c = "mq_capacity mq"
  have head: "mq_head mq = (mq_tail mq + mq_size mq) mod ?c" and c: "0 < ?c" "length (mq_buffer mq) = ?c"
    using assms(1) by (auto simp: mq_ok_def)
  show "mq_ok mq'" using assms(1,2) unfolding mq'_def by (auto simp: mq_ok_def mod_Suc_eq)
  show "mq_contents mq' = mq_contents mq @ [msg]"
  proof (rule nth_equalityI)
    show "length (mq_contents mq') = length (mq_contents mq @ [msg])" by (simp add: mq'_def)
    fix i assume "i < length (mq_contents mq')"
    then have i: "i < Suc (mq_size mq)" by (simp add: mq'_def)
    show "mq_contents mq' ! i = (mq_contents mq @ [msg]) ! i"
    proof (cases "i = mq_size mq")
      case True
      with c head show ?thesis by (simp add: mq_contents_nth nth_append mq'_def)
    next
      case False
      with i have less: "i < mq_size mq" by simp
      then have "(mq_tail mq + i) mod ?c \<noteq> mq_head mq"
        using slot_inj [of i ?c "mq_size mq" "mq_tail mq"] assms(2) head by auto
      with less show ?thesis by (simp add: mq_contents_nth nth_append mq'_def)
    qed
  qed
qed

lemma ensureInitialized_ok [simp]: "mq_ok mq \<Longrightarrow> ensureInitialized mq = mq"
  by (simp add: mq_ok_def ensureInitialized_def)

lemma advance_fields [simp]: "mq_capacity (advance mq) = mq_capacity mq" "mq_size (advance mq) = mq_size mq - 1"
  by (simp_all add: advance_def)

lemma mq_Enqueue_ok:
  assumes "mq_ok mq"
  shows "mq_ok (snd (mq_Enqueue msg mq))" and "mq_capacity (snd (mq_Enqueue msg mq)) = mq_capacity mq"
    and "mq_contents (snd (mq_Enqueue msg mq)) = push_bounded (mq_capacity mq) msg (mq_contents mq)"
    and "fst (mq_Enqueue msg mq) \<longleftrightarrow> mq_size mq = mq_capacity mq"
proof -
  let ?m = "if mq_size mq = mq_capacity mq then advance mq else mq"
  have pos: "0 < mq_capacity mq" using assms by (simp add: mq_ok_def)
  have ok: "mq_ok ?m" and sz: "mq_size ?m < mq_capacity ?m"
    and cap: "mq_capacity ?m = mq_capacity mq"
    using assms pos advance_ok(1) [OF assms] by (auto simp: mq_ok_def)
  have cont: "mq_contents ?m @ [msg] = push_bounded (mq_capacity mq) msg (mq_contents mq)"
    using advance_ok(2) [OF assms] pos by (simp add: push_bounded_def)
  note w = write_ok [OF ok sz, of msg]
  show "mq_ok (snd (mq_Enqueue msg mq))" "mq_contents (snd (mq_Enqueue msg mq)) = push_bounded (mq_capacity mq) msg (mq_contents mq)"
    using w cont assms by (simp_all add: mq_Enqueue_def Let_def)
  show "mq_capacity (snd (mq_Enqueue msg mq)) = mq_capacity mq" "fst (mq_Enqueue msg mq) \<longleftrightarrow> mq_size mq = mq_capacity mq"
    using assms by (simp_all add: mq_Enqueue_def Let_def)
qed

lemma mq_Drain_ok:
  "mq_ok mq \<Longrightarrow> fst (mq_Drain mq) = mq_contents mq \<and> mq_ok (snd (mq_Drain mq)) \<and> mq_size (snd (mq_Drain mq)) = 0 \<and>
     mq_capacity (snd (mq_Drain mq)) = mq_capacity mq"
proof (induction mq rule: mq_Drain.induct)
  case (1 mq)
  show ?case
  proof (cases "mq_size mq = 0")
    case True
    with 1 show ?thesis by (simp add: mq_Drain.simps [of mq] mq_contents_def)
  next
    case False
    then have "mq_contents mq \<noteq> []" by (metis length_0_conv length_mq_contents)
    with False 1 advance_ok [OF 1(2)] show ?thesis by (simp add: mq_Drain.simps [of mq] case_prod_unfold)
  qed
qed

interpretation offline: bounded_queue mq_ok mq_contents mq_capacity mq_Enqueue mq_Drain
  by unfold_locales
    (auto simp: mq_Enqueue_ok mq_Drain_ok mq_contents_def [of "snd (mq_Drain _)"], auto simp: mq_ok_def)

lemma NewMessageQueue_ok [simp]: "mq_ok (NewMessageQueue capacity)" "mq_contents (NewMessageQueue capacity) = []"
  "mq_capacity (NewMessageQueue capacity) = (if capacity \<le> 0 then DefaultQueueCapacity else nat capacity)"
  by (auto simp: mq_ok_def NewMessageQueue_def mq_contents_def Let_def)

lemma message_queue_refines_bounded_list_parts:
  assumes "mq_ok mq"
  shows "mq_contents (snd (mq_Enqueue msg mq)) = push_bounded (mq_capacity mq) msg (mq_contents mq)"
    and "fst (mq_Enqueue msg mq) \<longleftrightarrow> length (mq_contents mq) = mq_capacity mq"
    and "fst (mq_Dequeue mq) = (case mq_contents mq of [] \<Rightarrow> None | m # ms \<Rightarrow> m)"
    and "mq_contents (snd (mq_Dequeue mq)) = tl (mq_contents mq)"
    and "mq_Peek mq = (case mq_contents mq of [] \<Rightarrow> None | m # ms \<Rightarrow> m)"
    and "fst (mq_Drain mq) = mq_contents mq" and "mq_contents (snd (mq_Drain mq)) = []"
    and "mq_ok (snd (mq_Enqueue msg mq)) \<and> mq_ok (snd (mq_Dequeue mq)) \<and> mq_ok (snd (mq_Drain mq)) \<and> mq_ok (NewMessageQueue capacity)"
proof -
  show "mq_contents (snd (mq_Enqueue msg mq)) = push_bounded (mq_capacity mq) msg (mq_contents mq)"
    "fst (mq_Enqueue msg mq) \<longleftrightarrow> length (mq_contents mq) = mq_capacity mq"
    using offline.enqueue_contents [OF assms] offline.enqueue_full [OF assms] by simp_all
  show "fst (mq_Drain mq) = mq_contents mq" "mq_contents (snd (mq_Drain mq)) = []"
    using offline.drain_contents [OF assms] by simp_all
  have head: "mq_size mq \<noteq> 0 \<Longrightarrow> mq_buffer mq ! mq_tail mq = (case mq_contents mq of [] \<Rightarrow> None | m # ms \<Rightarrow> m)"
    using advance_ok(3) [OF assms] by (cases "mq_contents mq") (auto simp: mq_contents_def)
  have empty: "mq_size mq = 0 \<Longrightarrow> mq_contents mq = []" by (simp add: mq_contents_def)
  show "fst (mq_Dequeue mq) = (case mq_contents mq of [] \<Rightarrow> None | m # ms \<Rightarrow> m)"
    "mq_Peek mq = (case mq_contents mq of [] \<Rightarrow> None | m # ms \<Rightarrow> m)"
    using head empty by (simp_all add: mq_Dequeue_def mq_Peek_def)
  show "mq_contents (snd (mq_Dequeue mq)) = tl (mq_contents mq)"
    using advance_ok(2) [OF assms] empty by (simp add: mq_Dequeue_def)
  show "mq_ok (snd (mq_Enqueue msg mq)) \<and> mq_ok (snd (mq_Dequeue mq)) \<and> mq_ok (snd (mq_Drain mq)) \<and> mq_ok (NewMessageQueue capacity)"
    using offline.enqueue_ok [OF assms] offline.drain_ok [OF assms] advance_ok(1) [OF assms] assms by (simp add: mq_Dequeue_def)
qed

text \<open>
  C13: The ring buffer implements the bounded list: from any queue \<open>NewMessageQueue\<close> and the
  calls reach, enqueueing appends and drops the oldest message exactly when the capacity is
  reached (and says so), dequeueing and peeking give the head, draining gives all messages in
  order and leaves none.
\<close>

theorem message_queue_refines_bounded_list:
  assumes "mq_ok mq"
  shows "mq_contents (snd (mq_Enqueue msg mq)) = push_bounded (mq_capacity mq) msg (mq_contents mq) \<and>
    (fst (mq_Enqueue msg mq) \<longleftrightarrow> length (mq_contents mq) = mq_capacity mq) \<and>
    fst (mq_Dequeue mq) = (case mq_contents mq of [] \<Rightarrow> None | m # ms \<Rightarrow> m) \<and>
    mq_contents (snd (mq_Dequeue mq)) = tl (mq_contents mq) \<and>
    mq_Peek mq = (case mq_contents mq of [] \<Rightarrow> None | m # ms \<Rightarrow> m) \<and>
    fst (mq_Drain mq) = mq_contents mq \<and> mq_contents (snd (mq_Drain mq)) = [] \<and>
    mq_ok (snd (mq_Enqueue msg mq)) \<and> mq_ok (snd (mq_Dequeue mq)) \<and> mq_ok (snd (mq_Drain mq)) \<and> mq_ok (NewMessageQueue capacity :: 'a message_queue)"
  using message_queue_refines_bounded_list_parts [OF assms] by blast

theorem message_queue_refines_bounded_list_witness:
  "mq_contents (snd (mq_Enqueue (Some (3::nat)) (snd (mq_Enqueue (Some 2) (snd (mq_Enqueue (Some 1) (NewMessageQueue 2))))))) = [Some 2, Some 3]"
proof -
  let ?q = "snd (mq_Enqueue (Some (2::nat)) (snd (mq_Enqueue (Some 1) (NewMessageQueue 2))))"
  have "mq_ok ?q" and "mq_capacity ?q = 2" and "mq_contents ?q = [Some 1, Some 2]" and "mq_size ?q = 2" by code_simp+
  with message_queue_refines_bounded_list [of ?q "Some 3"] show ?thesis by (simp add: push_bounded_def)
qed

end
