(* ===== verification/Transport_Selector.thy ===== *)
theory Transport_Selector
  imports Go_Strings Complex_Main
begin

text \<open>
  Choosing a transport (\<open>internal/transport\<close>): transport types and deployment modes, the
  selector with its priority matrix (\<open>selector.go\<close>), the health monitor (\<open>health.go\<close>), the token
  bucket of a connection (\<open>rate_limiter.go\<close>) and the namespaces of tenants (\<open>tenant.go\<close>).
  Adapters are code behind an interface: the selector knows which types are registered, what a
  probe answers is an argument. Seconds and tokens, 64-bit floats in the code, are rationals.
\<close>

section \<open>Types\<close>

datatype transport_type = TransportSSE | TransportWebRTC | TransportNATS | TransportRedis | TransportRelay | TransportOf string

definition AllTransportTypes :: "transport_type list" where
  "AllTransportTypes = [TransportSSE, TransportWebRTC, TransportNATS, TransportRedis, TransportRelay]"

datatype transport_error =
    ErrConnectionRefused | ErrAuthFailed | ErrAuthExpired | ErrTransportUnreachable | ErrTransportMismatch
  | ErrConnectionClosed | ErrSendTimeout | ErrPayloadTooLarge | ErrSequenceGap | ErrRateLimited
  | ErrNoTransportAvailable | ErrNotConnected | ErrConnectionFailed | ErrUnsupportedOpcode
  | ErrTenantTokenInvalid | ErrInvalidEnvelope | ErrContext string

datatype deployment_mode = ModeLocal | ModeLAN | ModeSelfHosted | ModeSaaS | ModeP2P | ModeFederated | ModeAirGapped | ModeOf int

datatype network_topology = TopologyLoopback | TopologyLAN | TopologyNAT | TopologyPublic | TopologyAirGapped | TopologyOf int

datatype connection_state =
  StateInit | StateConnecting | StateActive | StateDegraded | StateDisconnecting | StateClosed | StateOf int

fun ConnectionState_String :: "connection_state \<Rightarrow> string" where
  "ConnectionState_String StateInit = ''init''"
| "ConnectionState_String StateConnecting = ''connecting''"
| "ConnectionState_String StateActive = ''active''"
| "ConnectionState_String StateDegraded = ''degraded''"
| "ConnectionState_String StateDisconnecting = ''disconnecting''"
| "ConnectionState_String StateClosed = ''closed''"
| "ConnectionState_String (StateOf i) = ''unknown''"

definition ParseConnectionState :: "string \<Rightarrow> connection_state" where
  "ParseConnectionState s =
     (if s = ''init'' then StateInit else if s = ''connecting'' then StateConnecting
      else if s = ''active'' then StateActive else if s = ''degraded'' then StateDegraded
      else if s = ''disconnecting'' then StateDisconnecting else if s = ''closed'' then StateClosed
      else StateInit)"

record transport_config =
  tc_Enabled :: bool
  tc_Priority :: int

record transport_event =
  te_Type :: transport_type
  te_Degraded :: bool
  te_Reason :: string
  te_FallbackChain :: "transport_type list"

section \<open>The selector\<close>

record transport_selector =
  ts_mode :: deployment_mode
  ts_topology :: network_topology
  ts_adapters :: "transport_type list"
  ts_configs :: "(transport_type, transport_config) gomap"
  ts_available :: "transport_type list"
  ts_fallbacks :: "(transport_type, transport_type) gomap"
  ts_healthInterval :: duration
  ts_upThreshold :: int
  ts_downThreshold :: int
  ts_health :: "(transport_type, bool) gomap"
  ts_emit :: bool

fun priority_matrix :: "deployment_mode \<Rightarrow> transport_type list" where
  "priority_matrix ModeLocal = [TransportSSE]"
| "priority_matrix ModeLAN = [TransportWebRTC, TransportNATS, TransportSSE]"
| "priority_matrix ModeSelfHosted = [TransportWebRTC, TransportNATS, TransportSSE, TransportRedis, TransportRelay]"
| "priority_matrix ModeSaaS = [TransportWebRTC, TransportNATS, TransportSSE, TransportRelay]"
| "priority_matrix ModeP2P = [TransportWebRTC, TransportNATS, TransportSSE, TransportRelay]"
| "priority_matrix ModeFederated = [TransportNATS, TransportRedis, TransportWebRTC, TransportRelay]"
| "priority_matrix ModeAirGapped = [TransportRelay]"
| "priority_matrix (ModeOf i) = []"

definition applyPriorityMatrix :: "transport_selector \<Rightarrow> transport_selector" where
  "applyPriorityMatrix ts =
     (let m = priority_matrix (ts_mode ts);
          available = (if m = [] then [TransportSSE] else m)
      in ts\<lparr>ts_available := available,
            ts_fallbacks := fold (\<lambda>(a, b) f. map_put a b f) (zip available (tl available)) (ts_fallbacks ts)\<rparr>)"

definition NewTransportSelector :: "deployment_mode \<Rightarrow> network_topology \<Rightarrow> transport_selector" where
  "NewTransportSelector mode topology = applyPriorityMatrix
     \<lparr>ts_mode = mode, ts_topology = topology, ts_adapters = [], ts_configs = [], ts_available = [], ts_fallbacks = [],
      ts_healthInterval = 20000000000, ts_upThreshold = 3, ts_downThreshold = 3, ts_health = [], ts_emit = False\<rparr>"

definition sel_RegisterAdapter :: "transport_type \<Rightarrow> transport_selector \<Rightarrow> transport_selector" where
  "sel_RegisterAdapter tt ts =
     ts\<lparr>ts_adapters := List.insert tt (ts_adapters ts), ts_health := map_put tt True (ts_health ts)\<rparr>"

definition SetConfigs :: "(transport_type \<times> transport_config) list \<Rightarrow> transport_selector \<Rightarrow> transport_selector" where
  "SetConfigs configs ts = ts\<lparr>ts_configs := fold (\<lambda>(t, c) m. map_put t c m) configs []\<rparr>"

definition usable :: "transport_selector \<Rightarrow> transport_type \<Rightarrow> bool" where
  "usable ts tt \<longleftrightarrow>
     (case map_of (ts_configs ts) tt of Some c \<Rightarrow> tc_Enabled c | None \<Rightarrow> True) \<and>
     tt \<in> set (ts_adapters ts) \<and> map_get False (ts_health ts) tt"

definition sel_Select :: "transport_selector \<Rightarrow> transport_error + transport_type" where
  "sel_Select ts = (case find (usable ts) (ts_available ts) of Some tt \<Rightarrow> Inr tt | None \<Rightarrow> Inl ErrNoTransportAvailable)"

definition SelectFallback :: "transport_type \<Rightarrow> transport_selector \<Rightarrow> transport_error + transport_type" where
  "SelectFallback current ts =
     (case dropWhile (\<lambda>tt. tt \<noteq> current) (ts_available ts) of
        _ # tt # _ \<Rightarrow> Inr tt | _ \<Rightarrow> Inl ErrNoTransportAvailable)"

definition IsHealthy :: "transport_type \<Rightarrow> transport_selector \<Rightarrow> bool" where
  "IsHealthy tt ts = map_get False (ts_health ts) tt"

definition setHealthy :: "transport_type \<Rightarrow> bool \<Rightarrow> transport_selector \<Rightarrow> transport_selector" where
  "setHealthy tt healthy ts = ts\<lparr>ts_health := map_put tt healthy (ts_health ts)\<rparr>"

definition HealthSettings :: "duration \<Rightarrow> int \<Rightarrow> int \<Rightarrow> transport_selector \<Rightarrow> transport_selector" where
  "HealthSettings interval up down ts =
     ts\<lparr>ts_healthInterval := (if interval > 0 then interval else ts_healthInterval ts),
        ts_upThreshold := (if up > 0 then up else ts_upThreshold ts),
        ts_downThreshold := (if down > 0 then down else ts_downThreshold ts)\<rparr>"

definition MarkDegraded :: "transport_type \<Rightarrow> string \<Rightarrow> transport_selector \<Rightarrow> transport_event list \<times> transport_selector" where
  "MarkDegraded tt reason ts =
     ((if map_get False (ts_health ts) tt \<and> ts_emit ts
       then [\<lparr>te_Type = tt, te_Degraded = True, te_Reason = reason, te_FallbackChain = ts_available ts\<rparr>] else []),
      ts\<lparr>ts_health := map_put tt False (ts_health ts)\<rparr>)"

section \<open>The health monitor\<close>

record health_counters =
  hc_successes :: int
  hc_failures :: int

type_synonym monitor = "(transport_type, health_counters) gomap"

definition count_probe :: "bool \<Rightarrow> health_counters \<Rightarrow> health_counters" where
  "count_probe good c = (if good then \<lparr>hc_successes = hc_successes c + 1, hc_failures = 0\<rparr>
                         else \<lparr>hc_successes = 0, hc_failures = hc_failures c + 1\<rparr>)"

text \<open>One turn of the loop over the adapters; \<open>hasEmit\<close> tells that the monitor has a handler.\<close>

definition check_one ::
    "bool \<Rightarrow> (transport_type \<Rightarrow> bool) \<Rightarrow> transport_type \<Rightarrow> monitor \<times> transport_selector \<times> transport_event list \<Rightarrow>
       monitor \<times> transport_selector \<times> transport_event list" where
  "check_one hasEmit probe tt = (\<lambda>(h, ts, evs).
     (let c = count_probe (probe tt) (map_get \<lparr>hc_successes = 0, hc_failures = 0\<rparr> h tt);
          was = IsHealthy tt ts;
          now = (if was \<and> hc_failures c \<ge> ts_downThreshold ts then False else was);
          now' = (if \<not> was \<and> hc_successes c \<ge> ts_upThreshold ts then True else now)
      in (map_put tt c h,
          (if now' \<noteq> was then setHealthy tt now' ts else ts),
          (if now' \<noteq> was \<and> hasEmit
           then evs @ [\<lparr>te_Type = tt, te_Degraded = \<not> now',
                  te_Reason = (if now' then ''health_recovery'' else ''health_check_failed''),
                  te_FallbackChain = ts_available ts\<rparr>] else evs))))"

text \<open>\<open>order\<close> is the order the runtime iterates over the registered adapters in.\<close>

definition monitor_Check ::
    "bool \<Rightarrow> transport_type list \<Rightarrow> (transport_type \<Rightarrow> bool) \<Rightarrow> monitor \<times> transport_selector \<Rightarrow>
       (monitor \<times> transport_selector) \<times> transport_event list" where
  "monitor_Check hasEmit order probe = (\<lambda>(h, ts).
     (case fold (check_one hasEmit probe) order (h, ts, []) of (h', ts', evs) \<Rightarrow> ((h', ts'), evs)))"

section \<open>The token bucket\<close>

record rate_limiter =
  rl_rate :: rat
  rl_burst :: int
  rl_tokens :: rat
  rl_lastTime :: instant

definition NewRateLimiter :: "rat \<Rightarrow> int \<Rightarrow> instant \<Rightarrow> rate_limiter" where
  "NewRateLimiter rate burst now =
     \<lparr>rl_rate = max 0 rate, rl_burst = max 0 burst, rl_tokens = of_int (max 0 burst), rl_lastTime = now\<rparr>"

definition seconds :: "duration \<Rightarrow> rat" where
  "seconds d = of_int d / 1000000000"

definition refill :: "instant \<Rightarrow> rate_limiter \<Rightarrow> rate_limiter" where
  "refill now rl =
     (if time_IsZero (rl_lastTime rl) then rl\<lparr>rl_lastTime := now\<rparr>
      else
        (let elapsed = seconds (time_Sub now (rl_lastTime rl))
         in rl\<lparr>rl_tokens := (if elapsed > 0 then min (rl_tokens rl + rl_rate rl * elapsed) (of_int (rl_burst rl)) else rl_tokens rl),
               rl_lastTime := now\<rparr>))"

definition AllowN :: "instant \<Rightarrow> int \<Rightarrow> rate_limiter \<Rightarrow> bool \<times> rate_limiter" where
  "AllowN now n rl =
     (if n \<le> 0 then (True, rl)
      else
        (let rl1 = refill now rl
         in if of_int n > rl_tokens rl1 then (False, rl1)
            else (True, rl1\<lparr>rl_tokens := rl_tokens rl1 - of_int n\<rparr>)))"

definition bucket_Allow :: "instant \<Rightarrow> rate_limiter \<Rightarrow> bool \<times> rate_limiter" where
  "bucket_Allow now rl = AllowN now 1 rl"

section \<open>Tenants\<close>

text \<open>
  \<open>mac\<close> is the hexadecimal HMAC of the tenant identifier, cut to sixteen bytes: a cryptographic
  primitive outside this development.
\<close>

definition TenantPrefix :: string where "TenantPrefix = ''canopy:tenant''"

definition TenantNamespace :: "(string \<Rightarrow> string) \<Rightarrow> string \<Rightarrow> string" where
  "TenantNamespace mac tenantID =
     (if tenantID = [] then TenantPrefix @ '':public'' else TenantPrefix @ '':'' @ mac tenantID)"

definition TenantChannel :: "(string \<Rightarrow> string) \<Rightarrow> string \<Rightarrow> string \<Rightarrow> string" where
  "TenantChannel mac tenantID subChannel = TenantNamespace mac tenantID @ '':'' @ subChannel"

text \<open>\<open>connTenant\<close> is the tenant of the connection, \<open>None\<close> for a nil connection.\<close>

definition ValidateTenantConnection :: "string option \<Rightarrow> string \<Rightarrow> transport_error option" where
  "ValidateTenantConnection conn tenantID =
     (case conn of
        None \<Rightarrow> Some ErrConnectionClosed
      | Some connTenant \<Rightarrow>
        if connTenant = [] \<and> tenantID = [] then None
        else if connTenant = [] then Some ErrAuthFailed
        else if tenantID = [] then Some ErrAuthFailed
        else if connTenant \<noteq> tenantID then Some ErrAuthFailed
        else None)"

definition TenantTokenPrefix :: string where "TenantTokenPrefix = ''tct_''"

definition tenant_char :: "char \<Rightarrow> bool" where
  "tenant_char r \<longleftrightarrow> byte_in 97 122 r \<or> byte_in 65 90 r \<or> byte_in 48 57 r \<or> r = CHR ''-'' \<or> r = CHR ''_''"

text \<open>Runes outside ASCII are refused, so the check reads the bytes.\<close>

definition ExtractTenantIDFromToken :: "string \<Rightarrow> transport_error + string" where
  "ExtractTenantIDFromToken token =
     (if token = [] then Inr []
      else if take 4 token \<noteq> TenantTokenPrefix then Inl ErrTenantTokenInvalid
      else
        (let tenantID = drop 4 token
         in if tenantID = [] then Inl ErrTenantTokenInvalid
            else if list_all tenant_char tenantID then Inr tenantID else Inl ErrTenantTokenInvalid))"


section \<open>Selection\<close>

text \<open>
  \<open>Select\<close> returns the first transport of the mode's chain that is registered, not disabled
  by its configuration and healthy, and an error exactly when there is none; marking a
  transport degraded takes it out, so a second selection never returns it.
\<close>

lemma select_first_usable:
  "sel_Select ts = Inr tt \<longleftrightarrow> (\<exists>before after. ts_available ts = before @ tt # after \<and> usable ts tt \<and> list_all (\<lambda>x. \<not> usable ts x) before)"
  "sel_Select ts = Inl e \<longleftrightarrow> e = ErrNoTransportAvailable \<and> list_all (\<lambda>x. \<not> usable ts x) (ts_available ts)"
  "sel_Select (snd (MarkDegraded tt reason ts)) \<noteq> Inr tt"
proof -
  have *: "find P xs = Some x \<longleftrightarrow> (\<exists>ys zs. xs = ys @ x # zs \<and> P x \<and> list_all (\<lambda>y. \<not> P y) ys)" for P x and xs :: "transport_type list"
  proof (induction xs)
    case (Cons a xs)
    show ?case
    proof (cases "P a")
      case True
      then show ?thesis by (auto simp: Cons_eq_append_conv)
    next
      case False
      have "(\<exists>ys zs. a # xs = ys @ x # zs \<and> P x \<and> list_all (\<lambda>y. \<not> P y) ys) \<longleftrightarrow>
          (\<exists>ys zs. xs = ys @ x # zs \<and> P x \<and> list_all (\<lambda>y. \<not> P y) ys)" (is "?l \<longleftrightarrow> ?r")
      proof
        assume ?l
        then obtain ys zs where ys: "a # xs = ys @ x # zs" "P x" "list_all (\<lambda>y. \<not> P y) ys" by blast
        with False show ?r by (cases ys) auto
      next
        assume ?r
        then obtain ys zs where ys: "xs = ys @ x # zs" "P x" "list_all (\<lambda>y. \<not> P y) ys" by blast
        with False have "a # xs = (a # ys) @ x # zs \<and> list_all (\<lambda>y. \<not> P y) (a # ys)" by simp
        with ys(2) show ?l by blast
      qed
      with False Cons show ?thesis by simp
    qed
  qed simp
  show "sel_Select ts = Inr tt \<longleftrightarrow> (\<exists>before after. ts_available ts = before @ tt # after \<and> usable ts tt \<and> list_all (\<lambda>x. \<not> usable ts x) before)"
    unfolding * [symmetric] by (simp add: sel_Select_def split: option.split)
  show "sel_Select ts = Inl e \<longleftrightarrow> e = ErrNoTransportAvailable \<and> list_all (\<lambda>x. \<not> usable ts x) (ts_available ts)"
    by (auto simp: sel_Select_def list_all_iff find_None_iff split: option.split) (metis find_Some_iff nth_mem)
  have "\<not> usable (snd (MarkDegraded tt reason ts)) tt" by (simp add: usable_def MarkDegraded_def)
  then show "sel_Select (snd (MarkDegraded tt reason ts)) \<noteq> Inr tt"
    by (auto simp: sel_Select_def * split: option.split)
qed

section \<open>Health hysteresis\<close>

text \<open>The monitor after a list of rounds, each its iteration order and its probe results.\<close>

definition run_checks ::
    "bool \<Rightarrow> (transport_type list \<times> (transport_type \<Rightarrow> bool)) list \<Rightarrow> monitor \<times> transport_selector \<Rightarrow> monitor \<times> transport_selector" where
  "run_checks hasEmit rounds st = fold (\<lambda>(order, probe) st. fst (monitor_Check hasEmit order probe st)) rounds st"

definition trailing :: "bool \<Rightarrow> bool list \<Rightarrow> int" where
  "trailing b ps = int (length (takeWhile (\<lambda>p. p = b) (rev ps)))"

lemma trailing_simps [simp]: "trailing b [] = 0" "trailing b (ps @ [p]) = (if p = b then trailing b ps + 1 else 0)"
  by (simp_all add: trailing_def)

abbreviation zero_counters :: health_counters where
  "zero_counters \<equiv> \<lparr>hc_successes = 0, hc_failures = 0\<rparr>"

text \<open>What one turn does to the transport it probes, and to another.\<close>

definition next_health :: "transport_selector \<Rightarrow> health_counters \<Rightarrow> bool \<Rightarrow> bool" where
  "next_health ts c was = (if was then \<not> hc_failures c \<ge> ts_downThreshold ts else hc_successes c \<ge> ts_upThreshold ts)"

lemma setHealthy_simps [simp]:
  "IsHealthy x (setHealthy tt b ts) = (if x = tt then b else IsHealthy x ts)"
  "ts_upThreshold (setHealthy tt b ts) = ts_upThreshold ts" "ts_downThreshold (setHealthy tt b ts) = ts_downThreshold ts"
  "ts_adapters (setHealthy tt b ts) = ts_adapters ts"
  by (simp_all add: setHealthy_def IsHealthy_def)

lemma check_one_effect:
  assumes "check_one hasEmit probe tt (h, ts, evs) = (h', ts', evs')"
  shows "ts_upThreshold ts' = ts_upThreshold ts" and "ts_downThreshold ts' = ts_downThreshold ts" and "ts_adapters ts' = ts_adapters ts"
    and "x \<noteq> tt \<Longrightarrow> IsHealthy x ts' = IsHealthy x ts \<and> map_get zero_counters h' x = map_get zero_counters h x"
    and "map_get zero_counters h' tt = count_probe (probe tt) (map_get zero_counters h tt)"
    and "IsHealthy tt ts' = next_health ts (count_probe (probe tt) (map_get zero_counters h tt)) (IsHealthy tt ts)"
proof -
  let ?c = "count_probe (probe tt) (map_get zero_counters h tt)"
  let ?now = "next_health ts ?c (IsHealthy tt ts)"
  have h': "h' = map_put tt ?c h" using arg_cong [OF assms, of fst] by (simp add: check_one_def Let_def)
  have ts': "ts' = (if ?now \<noteq> IsHealthy tt ts then setHealthy tt ?now ts else ts)"
    using arg_cong [OF assms, of "\<lambda>r. fst (snd r)"]
    by (cases "IsHealthy tt ts") (auto simp: check_one_def Let_def next_health_def split: if_splits)
  show "ts_upThreshold ts' = ts_upThreshold ts" "ts_downThreshold ts' = ts_downThreshold ts" "ts_adapters ts' = ts_adapters ts"
    "map_get zero_counters h' tt = ?c" "IsHealthy tt ts' = ?now" by (simp_all add: h' ts')
  show "IsHealthy x ts' = IsHealthy x ts \<and> map_get zero_counters h' x = map_get zero_counters h x" if "x \<noteq> tt"
    using that by (simp add: h' ts')
qed

lemma checks_effect:
  assumes "fold (check_one hasEmit probe) order (h, ts, evs) = (h', ts', evs')" and "distinct order"
  shows "ts_upThreshold ts' = ts_upThreshold ts \<and> ts_downThreshold ts' = ts_downThreshold ts \<and> ts_adapters ts' = ts_adapters ts \<and>
    map_get zero_counters h' x = (if x \<in> set order then count_probe (probe x) (map_get zero_counters h x) else map_get zero_counters h x) \<and>
    IsHealthy x ts' = (if x \<in> set order then next_health ts (count_probe (probe x) (map_get zero_counters h x)) (IsHealthy x ts)
      else IsHealthy x ts)"
  using assms
proof (induction order arbitrary: h ts evs)
  case (Cons tt order)
  obtain h1 ts1 evs1 where 1: "check_one hasEmit probe tt (h, ts, evs) = (h1, ts1, evs1)" by (metis prod_cases3)
  note e = check_one_effect [OF 1]
  have "next_health ts1 = next_health ts" using e(1,2) by (intro ext) (simp add: next_health_def)
  moreover have "fold (check_one hasEmit probe) order (h1, ts1, evs1) = (h', ts', evs')" using Cons.prems(1) 1 by simp
  note Cons.IH [OF this]
  ultimately show ?case using e(1-3) e(4) [of x] e(5,6) Cons.prems(2) by (cases "x = tt") simp_all
qed simp

text \<open>The state of one transport after the rounds, given its probe results.\<close>

definition health_inv :: "bool list \<Rightarrow> transport_type \<Rightarrow> int \<Rightarrow> int \<Rightarrow> monitor \<times> transport_selector \<Rightarrow> bool" where
  "health_inv ps tt up down = (\<lambda>(h, ts).
     ts_upThreshold ts = up \<and> ts_downThreshold ts = down \<and>
     hc_failures (map_get zero_counters h tt) = trailing False ps \<and>
     hc_successes (map_get zero_counters h tt) = trailing True ps)"

lemma check_round:
  fixes probe :: "transport_type \<Rightarrow> bool" and hasEmit :: bool
  assumes "health_inv ps tt up down st" and "distinct order" and "tt \<in> set order"
  defines "st' \<equiv> fst (monitor_Check hasEmit order probe st)"
  shows "health_inv (ps @ [probe tt]) tt up down st'"
    and "IsHealthy tt (snd st') =
      (if IsHealthy tt (snd st) then \<not> trailing False (ps @ [probe tt]) \<ge> down else trailing True (ps @ [probe tt]) \<ge> up)"
proof -
  obtain h ts where st: "st = (h, ts)" by (cases st)
  obtain h' ts' evs' where r: "fold (check_one hasEmit probe) order (h, ts, []) = (h', ts', evs')" by (metis prod_cases3)
  have st': "st' = (h', ts')" by (simp add: st'_def st monitor_Check_def r)
  note e = checks_effect [OF r assms(2), of tt]
  show "health_inv (ps @ [probe tt]) tt up down st'"
    using e assms(1,3) by (auto simp: health_inv_def st st' count_probe_def)
  show "IsHealthy tt (snd st') =
      (if IsHealthy tt (snd st) then \<not> trailing False (ps @ [probe tt]) \<ge> down else trailing True (ps @ [probe tt]) \<ge> up)"
    using e assms(1,3) by (auto simp: health_inv_def st st' count_probe_def next_health_def)
qed

lemma run_checks_snoc:
  "run_checks hasEmit (rounds @ [(order, probe)]) st = fst (monitor_Check hasEmit order probe (run_checks hasEmit rounds st))"
  by (simp add: run_checks_def)

lemma run_checks_inv:
  assumes "health_inv [] tt up down st" and "\<forall>(order, probe) \<in> set rounds. distinct order \<and> tt \<in> set order"
  shows "health_inv (map (\<lambda>(order, probe). probe tt) rounds) tt up down (run_checks hasEmit rounds st)"
  using assms(2)
proof (induction rounds rule: rev_induct)
  case Nil
  then show ?case using assms(1) by (simp add: run_checks_def)
next
  case (snoc r rounds)
  then show ?case by (cases r) (auto simp: run_checks_snoc intro: check_round(1))
qed

lemma health_hysteresis_parts:
  fixes rounds :: "(transport_type list \<times> (transport_type \<Rightarrow> bool)) list" and hasEmit :: bool
  assumes rounds: "\<forall>(order, probe) \<in> set (rounds @ [(order, probe)]). distinct order \<and> tt \<in> set order"
    and pos: "0 < ts_upThreshold ts" "0 < ts_downThreshold ts"
  defines "before \<equiv> snd (run_checks hasEmit rounds ([], ts))" and "after \<equiv> snd (run_checks hasEmit (rounds @ [(order, probe)]) ([], ts))"
    and "ps \<equiv> map (\<lambda>(order, probe). probe tt) (rounds @ [(order, probe)])"
  shows "IsHealthy tt after \<noteq> IsHealthy tt before \<Longrightarrow>
      (if IsHealthy tt before then trailing False ps \<ge> ts_downThreshold ts else trailing True ps \<ge> ts_upThreshold ts)"
    and "trailing True ps \<ge> ts_upThreshold ts \<Longrightarrow> IsHealthy tt after"
    and "trailing False ps \<ge> ts_downThreshold ts \<Longrightarrow> \<not> IsHealthy tt after"
proof -
  let ?qs = "map (\<lambda>(order, probe). probe tt) rounds"
  have "health_inv [] tt (ts_upThreshold ts) (ts_downThreshold ts) ([], ts)" by (simp add: health_inv_def)
  then have "health_inv ?qs tt (ts_upThreshold ts) (ts_downThreshold ts) (run_checks hasEmit rounds ([], ts))"
    using rounds by (intro run_checks_inv) auto
  from check_round(2) [OF this, of order hasEmit probe] rounds
  have eq: "IsHealthy tt after = (if IsHealthy tt before then \<not> trailing False ps \<ge> ts_downThreshold ts else trailing True ps \<ge> ts_upThreshold ts)"
    by (simp add: before_def after_def ps_def run_checks_snoc)
  have zero: "trailing True ps = 0 \<or> trailing False ps = 0" by (simp add: ps_def)
  show "(if IsHealthy tt before then trailing False ps \<ge> ts_downThreshold ts else trailing True ps \<ge> ts_upThreshold ts)"
    if "IsHealthy tt after \<noteq> IsHealthy tt before" using that eq by (auto split: if_splits)
  show "IsHealthy tt after" if "trailing True ps \<ge> ts_upThreshold ts" using that eq zero pos by auto
  show "\<not> IsHealthy tt after" if "trailing False ps \<ge> ts_downThreshold ts" using that eq zero pos by auto
qed


text \<open>
  C16: The health monitor is a hysteresis: whatever the rounds, a transport changes state in a round
  only when its last \<open>down\<close> probes failed (if it was healthy) or its last \<open>up\<close> probes succeeded
  (if it was not); and \<open>up\<close> successful probes in a row always end with a healthy transport,
  \<open>down\<close> failures in a row with an unhealthy one.
\<close>

theorem health_hysteresis:
  fixes rounds :: "(transport_type list \<times> (transport_type \<Rightarrow> bool)) list" and hasEmit :: bool
  assumes rounds: "\<forall>(order, probe) \<in> set (rounds @ [(order, probe)]). distinct order \<and> tt \<in> set order"
    and pos: "0 < ts_upThreshold ts" "0 < ts_downThreshold ts"
  defines "before \<equiv> snd (run_checks hasEmit rounds ([], ts))" and "after \<equiv> snd (run_checks hasEmit (rounds @ [(order, probe)]) ([], ts))"
    and "ps \<equiv> map (\<lambda>(order, probe). probe tt) (rounds @ [(order, probe)])"
  shows "(IsHealthy tt after \<noteq> IsHealthy tt before \<longrightarrow>
      (if IsHealthy tt before then trailing False ps \<ge> ts_downThreshold ts else trailing True ps \<ge> ts_upThreshold ts)) \<and>
    (trailing True ps \<ge> ts_upThreshold ts \<longrightarrow> IsHealthy tt after) \<and> (trailing False ps \<ge> ts_downThreshold ts \<longrightarrow> \<not> IsHealthy tt after)"
  using health_hysteresis_parts [OF rounds pos, of hasEmit] unfolding before_def after_def ps_def by blast

theorem health_hysteresis_witness:
  "let sel = setHealthy TransportSSE False (sel_RegisterAdapter TransportSSE (NewTransportSelector ModeLocal TopologyLoopback));
       good = ([TransportSSE], \<lambda>_. True)
   in \<not> IsHealthy TransportSSE sel \<and> IsHealthy TransportSSE (snd (run_checks True [good, good, good] ([], sel)))"
proof -
  let ?sel = "setHealthy TransportSSE False (sel_RegisterAdapter TransportSSE (NewTransportSelector ModeLocal TopologyLoopback))"
  let ?good = "([TransportSSE], \<lambda>_::transport_type. True)"
  have th: "ts_upThreshold ?sel = 3" "ts_downThreshold ?sel = 3"
    by (simp_all add: setHealthy_def sel_RegisterAdapter_def NewTransportSelector_def applyPriorityMatrix_def Let_def)
  have "trailing True (map (\<lambda>(order, probe). probe TransportSSE) ([?good, ?good] @ [?good])) = 3" by code_simp
  with health_hysteresis [of "[?good, ?good]" "[TransportSSE]" "\<lambda>_. True" TransportSSE ?sel True] th
  have "IsHealthy TransportSSE (snd (run_checks True [?good, ?good, ?good] ([], ?sel)))" by simp
  moreover have "\<not> IsHealthy TransportSSE ?sel" by (simp add: IsHealthy_def setHealthy_def)
  ultimately show ?thesis by simp
qed

section \<open>The bucket bound\<close>

fun accepted_tokens :: "(instant \<times> int) list \<Rightarrow> rate_limiter \<Rightarrow> int" where
  "accepted_tokens [] rl = 0"
| "accepted_tokens ((now, n) # calls) rl =
     (case AllowN now n rl of (ok, rl') \<Rightarrow> (if ok then n else 0) + accepted_tokens calls rl')"

definition bucket_inv :: "rate_limiter \<Rightarrow> bool" where
  "bucket_inv rl \<longleftrightarrow> 0 \<le> rl_rate rl \<and> 0 \<le> rl_tokens rl \<and> rl_tokens rl \<le> of_int (rl_burst rl) \<and> 0 < rl_lastTime rl"

lemma bucket_inv_new: "0 < now \<Longrightarrow> bucket_inv (NewRateLimiter rate burst now)"
  by (simp add: bucket_inv_def NewRateLimiter_def)

lemma seconds_mono: "a \<le> b \<Longrightarrow> seconds a \<le> seconds b"
  by (simp add: seconds_def divide_right_mono)

lemma seconds_split: "seconds (c - a) = seconds (c - b) + seconds (b - a)"
  by (simp add: seconds_def add_divide_distrib [symmetric])

lemma refill_bound:
  assumes "bucket_inv rl" and "rl_lastTime rl \<le> now"
  shows "bucket_inv (refill now rl)" and "rl_lastTime (refill now rl) = now"
    and "rl_rate (refill now rl) = rl_rate rl" and "rl_burst (refill now rl) = rl_burst rl"
    and "rl_tokens (refill now rl) \<le> rl_tokens rl + rl_rate rl * seconds (now - rl_lastTime rl)"
proof -
  have pos: "0 < rl_lastTime rl" "0 \<le> rl_rate rl" using assms(1) by (auto simp: bucket_inv_def)
  let ?e = "seconds (time_Sub now (rl_lastTime rl))"
  have "time_Sub now (rl_lastTime rl) \<le> now - rl_lastTime rl"
    using assms(2) by (simp add: time_Sub_def int64_min_def)
  then have le: "rl_rate rl * ?e \<le> rl_rate rl * seconds (now - rl_lastTime rl)"
    using pos(2) by (intro mult_left_mono seconds_mono)
  have nonneg: "0 \<le> rl_rate rl * seconds (now - rl_lastTime rl)" using pos(2) assms(2) by (simp add: seconds_def)
  from pos(1) show "rl_lastTime (refill now rl) = now" "rl_rate (refill now rl) = rl_rate rl" "rl_burst (refill now rl) = rl_burst rl"
    by (simp_all add: refill_def Let_def)
  show "rl_tokens (refill now rl) \<le> rl_tokens rl + rl_rate rl * seconds (now - rl_lastTime rl)"
    using pos(1) le nonneg by (simp add: refill_def Let_def time_IsZero_def min_le_iff_disj)
  have "0 \<le> rl_rate rl * ?e" if "?e > 0" using pos(2) that by simp
  then show "bucket_inv (refill now rl)"
    using assms pos by (auto simp: bucket_inv_def refill_def Let_def time_IsZero_def)
qed

lemma AllowN_bound:
  assumes "bucket_inv rl" and "rl_lastTime rl \<le> now" and "AllowN now n rl = (good, rl')" and "0 < n"
  shows "bucket_inv rl'" and "rl_lastTime rl' = now" and "rl_rate rl' = rl_rate rl" and "rl_burst rl' = rl_burst rl"
    and "of_int (if good then n else 0) + rl_tokens rl' \<le> rl_tokens rl + rl_rate rl * seconds (now - rl_lastTime rl)"
proof -
  note r = refill_bound [OF assms(1,2)]
  show "bucket_inv rl'" using assms(3,4) r(1) by (auto simp: AllowN_def Let_def bucket_inv_def split: if_splits)
  show "rl_lastTime rl' = now" "rl_rate rl' = rl_rate rl" "rl_burst rl' = rl_burst rl"
    "of_int (if good then n else 0) + rl_tokens rl' \<le> rl_tokens rl + rl_rate rl * seconds (now - rl_lastTime rl)"
    using assms(3,4) r by (auto simp: AllowN_def Let_def split: if_splits)
qed

lemma accepted_tokens_bound:
  assumes "bucket_inv rl" and "sorted (rl_lastTime rl # map fst calls)" and "\<forall>(now, n) \<in> set calls. 0 < n"
  shows "of_int (accepted_tokens calls rl) \<le> rl_tokens rl + rl_rate rl * seconds (last (rl_lastTime rl # map fst calls) - rl_lastTime rl)"
  using assms
proof (induction calls arbitrary: rl)
  case Nil
  then show ?case by (simp add: bucket_inv_def seconds_def)
next
  case (Cons c calls)
  obtain now n where c: "c = (now, n)" by (cases c)
  obtain good rl' where a: "AllowN now n rl = (good, rl')" by (cases "AllowN now n rl")
  from Cons.prems have t: "rl_lastTime rl \<le> now" "0 < n" by (auto simp: c)
  note b = AllowN_bound [OF Cons.prems(1) t(1) a t(2)]
  have "of_int (accepted_tokens calls rl') \<le> rl_tokens rl' + rl_rate rl' * seconds (last (rl_lastTime rl' # map fst calls) - rl_lastTime rl')"
    using Cons.prems b(1,2) by (intro Cons.IH) (auto simp: c)
  moreover have "rl_rate rl * seconds (last (now # map fst calls) - rl_lastTime rl) =
      rl_rate rl * seconds (last (now # map fst calls) - now) + rl_rate rl * seconds (now - rl_lastTime rl)"
    by (subst seconds_split [where b = now]) (simp add: distrib_left)
  ultimately show ?case using b(2-5) by (simp add: c a)
qed

lemma token_bucket_bound_parts:
  assumes "bucket_inv rl" and "sorted (rl_lastTime rl # map fst calls)" and "\<forall>(now, n) \<in> set calls. 0 < n"
  shows "of_int (accepted_tokens calls rl) \<le>
    of_int (rl_burst rl) + rl_rate rl * seconds (last (rl_lastTime rl # map fst calls) - rl_lastTime rl)"
    and "0 < now \<Longrightarrow> bucket_inv (NewRateLimiter rate burst now)"
    and "rl_lastTime rl \<le> now \<Longrightarrow> 0 < n \<Longrightarrow> bucket_inv (snd (AllowN now n rl))"
proof -
  show "of_int (accepted_tokens calls rl) \<le>
    of_int (rl_burst rl) + rl_rate rl * seconds (last (rl_lastTime rl # map fst calls) - rl_lastTime rl)"
    using accepted_tokens_bound [OF assms] assms(1) by (simp add: bucket_inv_def)
  show "0 < now \<Longrightarrow> bucket_inv (NewRateLimiter rate burst now)" by (rule bucket_inv_new)
  show "rl_lastTime rl \<le> now \<Longrightarrow> 0 < n \<Longrightarrow> bucket_inv (snd (AllowN now n rl))"
    using AllowN_bound(1) [OF assms(1)] by (metis prod.collapse)
qed

text \<open>
  The token bucket bounds the outbound rate: of any calls at times that do not go back, from
  any state the limiter reaches, at most \<open>burst + rate * elapsed seconds\<close> messages are allowed.
\<close>

lemma token_bucket_bound:
  assumes "bucket_inv rl" and "sorted (rl_lastTime rl # map fst calls)" and "\<forall>(now, n) \<in> set calls. 0 < n"
  shows "of_int (accepted_tokens calls rl) \<le>
      of_int (rl_burst rl) + rl_rate rl * seconds (last (rl_lastTime rl # map fst calls) - rl_lastTime rl) \<and>
    (\<forall>rate burst now. 0 < now \<longrightarrow> bucket_inv (NewRateLimiter rate burst now)) \<and>
    (\<forall>now n. rl_lastTime rl \<le> now \<longrightarrow> 0 < n \<longrightarrow> bucket_inv (snd (AllowN now n rl)))"
  using token_bucket_bound_parts [OF assms] by blast

theorem token_bucket_bound_witness:
  "accepted_tokens [(1, 3), (1, 2), (2000000001, 2)] (NewRateLimiter 1 4 1) = 5 \<and>
   (of_int (accepted_tokens [(1, 3), (1, 2), (2000000001, 2)] (NewRateLimiter 1 4 1)) :: rat) \<le> 4 + 2"
proof -
  let ?rl = "NewRateLimiter 1 4 1" and ?calls = "[(1, 3), (1, 2), (2000000001, 2)] :: (instant \<times> int) list"
  have "rl_lastTime ?rl = 1" "rl_rate ?rl = 1" "rl_burst ?rl = 4" by (simp_all add: NewRateLimiter_def)
  moreover have "bucket_inv ?rl" by (simp add: bucket_inv_new)
  moreover have "accepted_tokens ?calls ?rl = 5" by code_simp
  ultimately show ?thesis using token_bucket_bound [of ?rl ?calls] by (simp add: seconds_def)
qed

section \<open>Tenant isolation\<close>

definition mac_ok :: "(string \<Rightarrow> string) \<Rightarrow> bool" where
  "mac_ok mac \<longleftrightarrow> (\<forall>t. length (mac t) = 32 \<and> list_all (\<lambda>c. byte_in 48 57 c \<or> byte_in 97 102 c) (mac t))"

lemma append_eq_same_length: "length a = length b \<Longrightarrow> a @ x = b @ y \<longleftrightarrow> a = b \<and> x = y"
  by simp

lemma tenant_channels_isolated_parts:
  assumes "mac_ok mac" and "t \<noteq> t'" and "mac t \<noteq> mac t'"
  shows "TenantChannel mac t sub \<noteq> TenantChannel mac t' sub'"
    and "ValidateTenantConnection (Some c) t = None \<longleftrightarrow> c = t"
proof -
  have len: "length (mac x) = 32" for x using assms(1) by (simp add: mac_ok_def)
  have pub: "mac x @ y \<noteq> ''public'' @ z" for x y z
  proof
    assume eq: "mac x @ y = ''public'' @ z"
    then have "mac x ! 0 = CHR ''p''" using len [of x] by (metis append_Cons length_greater_0_conv nth_Cons_0 nth_append zero_less_numeral)
    moreover have "mac x ! 0 \<in> set (mac x)" using len [of x] by simp
    ultimately have "CHR ''p'' \<in> set (mac x)" by simp
    with assms(1) have "byte_in 48 57 (CHR ''p'') \<or> byte_in 97 102 (CHR ''p'')" unfolding mac_ok_def list_all_iff by metis
    then show False by code_simp
  qed
  show "TenantChannel mac t sub \<noteq> TenantChannel mac t' sub'"
  proof (cases "t = [] \<or> t' = []")
    case True
    with assms(2) pub [of t' "'':'' @ sub'" "'':'' @ sub"] pub [of t "'':'' @ sub" "'':'' @ sub'"] show ?thesis
      by (auto simp: TenantChannel_def TenantNamespace_def dest: sym)
  next
    case False
    then show ?thesis using assms(3) append_eq_same_length [of "mac t" "mac t'"] len
      by (auto simp: TenantChannel_def TenantNamespace_def)
  qed
  show "ValidateTenantConnection (Some c) t = None \<longleftrightarrow> c = t"
    by (auto simp: ValidateTenantConnection_def)
qed

text \<open>
  Tenants do not share channels: when the keyed hash tells two tenants apart, no channel of
  one is a channel of the other, and none is public; and a connection is valid for exactly the
  tenant it is scoped to.
\<close>

lemma tenant_channels_isolated:
  assumes "mac_ok mac" and "t \<noteq> t'" and "mac t \<noteq> mac t'"
  shows "TenantChannel mac t sub \<noteq> TenantChannel mac t' sub' \<and> (\<forall>c. ValidateTenantConnection (Some c) t = None \<longleftrightarrow> c = t)"
  using tenant_channels_isolated_parts [OF assms] by blast

theorem tenant_channels_isolated_witness:
  "TenantChannel (\<lambda>t. replicate 32 (if t = ''a'' then CHR ''0'' else CHR ''1'')) ''a'' ''x'' \<noteq>
   TenantChannel (\<lambda>t. replicate 32 (if t = ''a'' then CHR ''0'' else CHR ''1'')) ''b'' ''x''"
  by (rule conjunct1 [OF tenant_channels_isolated]) (auto simp: mac_ok_def list_all_iff byte_in_def)

text \<open>The identifier of a token is read back, and only well-formed identifiers are accepted.\<close>

lemma ExtractTenantID_roundtrip:
  "ExtractTenantIDFromToken (TenantTokenPrefix @ t) = Inr t \<longleftrightarrow> t \<noteq> [] \<and> list_all tenant_char t"
  by (simp add: ExtractTenantIDFromToken_def TenantTokenPrefix_def Let_def)

lemma ParseConnectionState_String: "(\<forall>i. s \<noteq> StateOf i) \<Longrightarrow> ParseConnectionState (ConnectionState_String s) = s"
  by (cases s) (simp_all add: ParseConnectionState_def)

end
