(* ===== verification/Connection_Manager.thy ===== *)
theory Connection_Manager
  imports Message_Queue Transport_Selector Canopy_Models "HOL-Library.Sublist"
begin

text \<open>
  Routing (\<open>internal/transport/connection_manager.go\<close>, \<open>message.go\<close>, \<open>bandwidth.go\<close>) and the
  store-and-forward relay (\<open>relay_service.go\<close>). Connections are shared objects: the manager
  holds their addresses, the store what they contain. What the adapters answer, the clock and
  the state of a context are arguments; \<open>RouteMessage\<close> also returns the trace of its calls of
  \<open>Send\<close>.
\<close>

section \<open>Messages and connections\<close>

record message =
  ms_Opcode :: "8 word"
  ms_TreeID :: string
  ms_Sequence :: "64 word"
  ms_Timestamp :: int
  ms_Payload :: raw_message
  ms_Origin :: string

definition Opcode_String :: "8 word \<Rightarrow> string" where
  "Opcode_String o1 =
     (if o1 = 0x01 then ''tree_create'' else if o1 = 0x02 then ''node_add'' else if o1 = 0x03 then ''node_update''
      else if o1 = 0x04 then ''node_delete'' else if o1 = 0x05 then ''edge_add'' else if o1 = 0x06 then ''edge_remove''
      else if o1 = 0x07 then ''approval_change'' else if o1 = 0x08 then ''user_join'' else if o1 = 0x09 then ''user_leave''
      else if o1 = 0x0A then ''tree_snapshot'' else if o1 = 0x0B then ''tree_delta'' else if o1 = 0x0C then ''heartbeat''
      else if o1 = 0x0D then ''ack'' else ''unknown'')"

type_synonym addr = nat

record connection =
  cn_ID :: string
  cn_TransportType :: transport_type
  cn_Peer :: string
  cn_TenantID :: string
  cn_Metadata :: "(string, string) gomap"
  cn_State :: connection_state
  cn_EstablishedAt :: instant
  cn_LastActivity :: instant
  cn_SequenceWatermark :: "64 word"

record bandwidth_profile =
  bp_BytesPerSecond :: int
  bp_LatencyMs :: int
  bp_PacketLoss :: rat

definition bandwidth_Record :: "int \<Rightarrow> duration \<Rightarrow> bandwidth_profile \<Rightarrow> bandwidth_profile" where
  "bandwidth_Record bytes latency bp =
     bp\<lparr>bp_BytesPerSecond := (if bytes < 0 then 0 else bytes), bp_LatencyMs := go_div (if latency < 0 then 0 else latency) 1000000\<rparr>"

definition bandwidth_Tier :: "bandwidth_profile \<Rightarrow> string" where
  "bandwidth_Tier bp =
     (if bp_BytesPerSecond bp > 1000000 then ''full'' else if bp_BytesPerSecond bp \<ge> 100000 then ''reduced'' else ''minimal'')"

section \<open>The manager\<close>

definition DefaultRateLimitOutbound :: int where [simp]: "DefaultRateLimitOutbound = 500"

record connection_manager =
  cm_store :: "addr \<Rightarrow> connection"
  cm_connections :: "(string, addr list) gomap"
  cm_messageQueues :: "(string, message message_queue) gomap"
  cm_selector :: "transport_selector option"
  cm_bandwidth :: "(string, bandwidth_profile) gomap"
  cm_rateLimiters :: "(string, rate_limiter) gomap"
  cm_adapters :: "transport_type list"

definition NewConnectionManager :: "(addr \<Rightarrow> connection) \<Rightarrow> transport_selector option \<Rightarrow> transport_type list \<Rightarrow> connection_manager" where
  "NewConnectionManager store selector adapters =
     \<lparr>cm_store = store, cm_connections = [], cm_messageQueues = [], cm_selector = map_option (fold sel_RegisterAdapter adapters) selector,
      cm_bandwidth = [], cm_rateLimiters = [], cm_adapters = remdups adapters\<rparr>"

definition SetSelector :: "transport_selector option \<Rightarrow> connection_manager \<Rightarrow> connection_manager" where
  "SetSelector selector cm = cm\<lparr>cm_selector := map_option (fold sel_RegisterAdapter (cm_adapters cm)) selector\<rparr>"

definition cm_RegisterAdapter :: "transport_type \<Rightarrow> connection_manager \<Rightarrow> transport_error option \<times> connection_manager" where
  "cm_RegisterAdapter tt cm =
     (if tt \<notin> set AllTransportTypes then (Some ErrTransportMismatch, cm)
      else (None, cm\<lparr>cm_adapters := List.insert tt (cm_adapters cm), cm_selector := map_option (sel_RegisterAdapter tt) (cm_selector cm)\<rparr>))"

definition peer_connections :: "string \<Rightarrow> connection_manager \<Rightarrow> addr list" where
  "peer_connections peer cm = map_get [] (cm_connections cm) peer"

definition active_list :: "string \<Rightarrow> connection_manager \<Rightarrow> addr list" where
  "active_list peer cm = filter (\<lambda>a. cn_State (cm_store cm a) = StateActive) (peer_connections peer cm)"

definition activeConnection :: "string \<Rightarrow> connection_manager \<Rightarrow> addr option" where
  "activeConnection peer cm =
     (case active_list peer cm of
        [] \<Rightarrow> None
      | a # _ \<Rightarrow>
        (case cm_selector cm of
           None \<Rightarrow> Some a
         | Some ts \<Rightarrow>
           (case sel_Select ts of Inl _ \<Rightarrow> None
            | Inr tt \<Rightarrow> find (\<lambda>a. cn_TransportType (cm_store cm a) = tt) (active_list peer cm))))"

definition GetConnection :: "string \<Rightarrow> connection_manager \<Rightarrow> addr option" where
  "GetConnection peer cm = (case active_list peer cm of [] \<Rightarrow> None | a # _ \<Rightarrow> Some a)"

definition queueFor :: "string \<Rightarrow> connection_manager \<Rightarrow> message message_queue" where
  "queueFor peer cm = map_get (NewMessageQueue (int DefaultQueueCapacity)) (cm_messageQueues cm) peer"

definition enqueueOffline :: "string \<Rightarrow> message option \<Rightarrow> connection_manager \<Rightarrow> bool \<times> connection_manager" where
  "enqueueOffline peer msg cm =
     (case mq_Enqueue msg (queueFor peer cm) of
        (full, q) \<Rightarrow> (full, cm\<lparr>cm_messageQueues := map_put peer q (cm_messageQueues cm)\<rparr>))"

definition EnforceRateLimit :: "instant \<Rightarrow> string \<Rightarrow> connection_manager \<Rightarrow> transport_error option \<times> connection_manager" where
  "EnforceRateLimit now peer cm =
     (let limiter = map_get (NewRateLimiter (of_int DefaultRateLimitOutbound) (DefaultRateLimitOutbound * 2) now) (cm_rateLimiters cm) peer
      in case bucket_Allow now limiter of
           (allowed, limiter') \<Rightarrow>
             ((if allowed then None else Some ErrRateLimited), cm\<lparr>cm_rateLimiters := map_put peer limiter' (cm_rateLimiters cm)\<rparr>))"

text \<open>
  The answers one call of \<open>RouteMessage\<close> gets: the two checks of the context, the adapters'
  \<open>Send\<close> by attempt, the relay, and whether the connection was found inactive after sending.
\<close>

record route_env =
  re_ctx :: "transport_error option"
  re_ctx2 :: "transport_error option"
  re_send :: "nat \<Rightarrow> transport_type \<Rightarrow> transport_error option"
  re_relayConnect :: "transport_error option"
  re_relaySend :: "transport_error option"
  re_stale :: bool
  re_now :: instant

type_synonym send_trace = "(transport_type \<times> transport_error option) list"

definition routeViaRelay :: "route_env \<Rightarrow> connection_manager \<Rightarrow> transport_error option \<times> send_trace" where
  "routeViaRelay env cm =
     (if TransportRelay \<notin> set (cm_adapters cm) then (Some ErrNoTransportAvailable, [])
      else case re_relayConnect env of
        Some e \<Rightarrow> (Some e, [])
      | None \<Rightarrow> (re_relaySend env, [(TransportRelay, re_relaySend env)]))"

definition route_offline ::
    "string \<Rightarrow> message option \<Rightarrow> connection_manager \<Rightarrow> send_trace \<Rightarrow> transport_error option \<times> send_trace \<times> connection_manager" where
  "route_offline peer msg cm trace =
     (case enqueueOffline peer msg cm of
        (full, cm') \<Rightarrow> ((if full then Some ErrNoTransportAvailable else None), trace, cm'))"

text \<open>\<open>route_failed\<close>: the primary adapter answered \<open>e\<close>.\<close>

definition route_failed ::
    "route_env \<Rightarrow> string \<Rightarrow> message option \<Rightarrow> transport_type \<Rightarrow> transport_error \<Rightarrow> connection_manager \<Rightarrow>
       transport_error option \<times> send_trace \<times> connection_manager" where
  "route_failed env peer msg tt e cm =
     (if e = ErrConnectionClosed \<or> e = ErrNotConnected \<or> e = ErrTransportUnreachable
      then
        (let cm1 = cm\<lparr>cm_selector := map_option (\<lambda>ts. snd (MarkDegraded tt ''connection_closed'' ts)) (cm_selector cm)\<rparr>;
             fallback = (if cm_selector cm = None then None else activeConnection peer cm1);
             fallbackType = map_option (\<lambda>a. cn_TransportType (cm_store cm1 a)) fallback;
             attempt = (case fallbackType of Some ft \<Rightarrow> if ft \<in> set (cm_adapters cm1) then [(ft, re_send env 1 ft)] else [] | None \<Rightarrow> [])
         in case attempt of
              [(ft, None)] \<Rightarrow> (None, (tt, Some e) # attempt, cm1)
            | _ \<Rightarrow> (Some e, (tt, Some e) # attempt, snd (enqueueOffline peer msg cm1)))
      else (Some e, [(tt, Some e)], cm))"

definition RouteMessage ::
    "route_env \<Rightarrow> string \<Rightarrow> message option \<Rightarrow> connection_manager \<Rightarrow> transport_error option \<times> send_trace \<times> connection_manager" where
  "RouteMessage env peer msg cm =
     (case re_ctx env of
        Some e \<Rightarrow> (Some e, [], cm)
      | None \<Rightarrow>
        (case activeConnection peer cm of
           None \<Rightarrow>
             (case routeViaRelay env cm of
                (None, trace) \<Rightarrow> (None, trace, cm)
              | (Some _, trace) \<Rightarrow> route_offline peer msg cm trace)
         | Some a \<Rightarrow>
             (case EnforceRateLimit (re_now env) peer cm of
                (Some e, cm1) \<Rightarrow> (Some e, [], cm1)
              | (None, cm1) \<Rightarrow>
                (case re_ctx2 env of
                   Some e \<Rightarrow> (Some e, [], cm1)
                 | None \<Rightarrow>
                   (let tt = cn_TransportType (cm_store cm1 a)
                    in if tt \<notin> set (cm_adapters cm1) then (Some ErrNotConnected, [], cm1)
                       else case re_send env 0 tt of
                         Some e \<Rightarrow> route_failed env peer msg tt e cm1
                       | None \<Rightarrow>
                         if re_stale env then route_offline peer msg cm1 [(tt, None)]
                         else (None, [(tt, None)],
                               cm1\<lparr>cm_store := (cm_store cm1)(a := (cm_store cm1 a)\<lparr>cn_LastActivity := re_now env\<rparr>)\<rparr>))))))"

text \<open>
  Registering a connection: connections with its identity go, an active one of the same
  transport is closed, then the offline queue is replayed; \<open>send i\<close> is the answer to the
  \<open>i\<close>-th pending message.
\<close>

fun keep_connections :: "addr \<Rightarrow> connection \<Rightarrow> addr list \<Rightarrow> (addr \<Rightarrow> connection) \<Rightarrow> addr list \<times> (addr \<Rightarrow> connection)" where
  "keep_connections a conn [] store = ([], store)"
| "keep_connections a conn (x # xs) store =
     (if x = a \<or> cn_ID conn \<noteq> [] \<and> cn_ID (store x) = cn_ID conn then keep_connections a conn xs store
      else if cn_State (store x) = StateActive \<and> cn_TransportType (store x) = cn_TransportType conn
      then keep_connections a conn xs (store(x := (store x)\<lparr>cn_State := StateClosed\<rparr>))
      else (case keep_connections a conn xs store of (ys, store') \<Rightarrow> (x # ys, store')))"

fun replay :: "(nat \<Rightarrow> transport_error option) \<Rightarrow> nat \<Rightarrow> message option list \<Rightarrow> message message_queue \<Rightarrow> message message_queue" where
  "replay send i [] q = q"
| "replay send i (m # ms) q =
     (case send i of
        None \<Rightarrow> replay send (i + 1) ms q
      | Some _ \<Rightarrow> fold (\<lambda>x q. snd (mq_Enqueue x q)) (m # ms) q)"

definition OnConnect ::
    "instant \<Rightarrow> (nat \<Rightarrow> transport_error option) \<Rightarrow> addr option \<Rightarrow> connection_manager \<Rightarrow> transport_error option \<times> connection_manager" where
  "OnConnect now send conn cm =
     (case conn of
        None \<Rightarrow> (Some ErrConnectionClosed, cm)
      | Some a \<Rightarrow>
        (let c = cm_store cm a; peer = cn_Peer c;
             (kept, store) = keep_connections a c (peer_connections peer cm) (cm_store cm);
             c' = (store a)\<lparr>cn_State := StateActive,
                    cn_EstablishedAt := (if time_IsZero (cn_EstablishedAt (store a)) then now else cn_EstablishedAt (store a)),
                    cn_LastActivity := now\<rparr>;
             limiters = (if map_has (cm_rateLimiters cm) peer then cm_rateLimiters cm
                else map_put peer (NewRateLimiter (of_int DefaultRateLimitOutbound) (DefaultRateLimitOutbound * 2) now) (cm_rateLimiters cm));
             queues = (case map_of (cm_messageQueues cm) peer of
                 None \<Rightarrow> cm_messageQueues cm
               | Some q \<Rightarrow>
                 if cn_TransportType c \<notin> set (cm_adapters cm) then cm_messageQueues cm
                 else (case mq_Drain q of (pending, q') \<Rightarrow> map_put peer (replay send 0 pending q') (cm_messageQueues cm)))
         in (None, cm\<lparr>cm_store := store(a := c'), cm_connections := map_put peer (kept @ [a]) (cm_connections cm),
                     cm_rateLimiters := limiters, cm_messageQueues := queues\<rparr>)))"

definition OnDisconnect :: "addr option \<Rightarrow> connection_manager \<Rightarrow> connection_manager" where
  "OnDisconnect conn cm =
     (case conn of
        None \<Rightarrow> cm
      | Some a \<Rightarrow>
        (let c = cm_store cm a; peer = cn_Peer c;
             gone = (\<lambda>x. x = a \<or> cn_ID c \<noteq> [] \<and> cn_ID (cm_store cm x) = cn_ID c);
             filtered = filter (\<lambda>x. \<not> gone x) (peer_connections peer cm);
             removed = list_ex gone (peer_connections peer cm)
         in cm\<lparr>cm_connections := (if filtered = [] then map_del peer (cm_connections cm) else map_put peer filtered (cm_connections cm)),
               cm_store := (if removed then (cm_store cm)(a := c\<lparr>cn_State := StateClosed\<rparr>) else cm_store cm)\<rparr>))"

definition DegradeTransport :: "transport_error option \<Rightarrow> transport_type \<Rightarrow> connection_manager \<Rightarrow> transport_error option \<times> connection_manager" where
  "DegradeTransport ctx tt cm =
     (case ctx of
        Some e \<Rightarrow> (Some e, cm)
      | None \<Rightarrow>
        (None, cm\<lparr>cm_store := (\<lambda>a. if a \<in> \<Union> (set ` snd ` set (cm_connections cm)) \<and> cn_TransportType (cm_store cm a) = tt \<and>
                cn_State (cm_store cm a) \<noteq> StateClosed
              then (cm_store cm a)\<lparr>cn_State := StateDegraded\<rparr> else cm_store cm a)\<rparr>))"

definition DrainQueue :: "string \<Rightarrow> connection_manager \<Rightarrow> message option list \<times> connection_manager" where
  "DrainQueue peer cm =
     (case map_of (cm_messageQueues cm) peer of
        None \<Rightarrow> ([], cm)
      | Some q \<Rightarrow> (case mq_Drain q of (ms, q') \<Rightarrow> (ms, cm\<lparr>cm_messageQueues := map_put peer q' (cm_messageQueues cm)\<rparr>)))"

definition AllConnections :: "connection_manager \<Rightarrow> addr list" where
  "AllConnections cm = concat (map snd (cm_connections cm))"

definition ConnectionCount :: "transport_type \<Rightarrow> connection_manager \<Rightarrow> nat" where
  "ConnectionCount tt cm =
     length (filter (\<lambda>a. tt = TransportOf [] \<or> cn_TransportType (cm_store cm a) = tt) (AllConnections cm))"

definition TransportState :: "transport_type \<Rightarrow> connection_manager \<Rightarrow> connection_state" where
  "TransportState tt cm =
     (let states = map (\<lambda>a. cn_State (cm_store cm a)) (filter (\<lambda>a. cn_TransportType (cm_store cm a) = tt) (AllConnections cm))
      in if StateActive \<in> set states then StateActive
         else case find (\<lambda>s. s \<noteq> StateClosed) states of Some s \<Rightarrow> s | None \<Rightarrow> StateClosed)"

definition MeasureBandwidth :: "string \<Rightarrow> connection_manager \<Rightarrow> bandwidth_profile \<times> connection_manager" where
  "MeasureBandwidth peer cm =
     (case map_of (cm_bandwidth cm) peer of
        Some p \<Rightarrow> (p, cm)
      | None \<Rightarrow>
        (let p = \<lparr>bp_BytesPerSecond = 0, bp_LatencyMs = 0, bp_PacketLoss = 0\<rparr>
         in (p, cm\<lparr>cm_bandwidth := map_put peer p (cm_bandwidth cm)\<rparr>)))"


section \<open>Invariant of the manager\<close>

definition queues_ok :: "connection_manager \<Rightarrow> bool" where
  "queues_ok cm \<longleftrightarrow> (\<forall>p q. map_of (cm_messageQueues cm) p = Some q \<longrightarrow> mq_ok q \<and> mq_capacity q = DefaultQueueCapacity)"

definition conns_ok :: "connection_manager \<Rightarrow> bool" where
  "conns_ok cm \<longleftrightarrow> map_ok (cm_connections cm) \<and>
     (\<forall>p. distinct (peer_connections p cm) \<and>
        (\<forall>a \<in> set (peer_connections p cm). cn_Peer (cm_store cm a) = p) \<and>
        (\<forall>a \<in> set (active_list p cm). \<forall>b \<in> set (active_list p cm).
           cn_TransportType (cm_store cm a) = cn_TransportType (cm_store cm b) \<longrightarrow> a = b))"

definition cm_ok :: "connection_manager \<Rightarrow> bool" where
  "cm_ok cm \<longleftrightarrow> conns_ok cm \<and> queues_ok cm"

lemma active_list_iff: "a \<in> set (active_list p cm) \<longleftrightarrow> a \<in> set (peer_connections p cm) \<and> cn_State (cm_store cm a) = StateActive"
  by (auto simp: active_list_def)

text \<open>The connection part survives every change that keeps the lists and only deactivates objects.\<close>

lemma conns_ok_store:
  assumes "conns_ok cm" and "cm_connections cm' = cm_connections cm"
    and "\<And>a p. a \<in> set (peer_connections p cm) \<Longrightarrow> cn_Peer (cm_store cm' a) = cn_Peer (cm_store cm a) \<and>
      cn_TransportType (cm_store cm' a) = cn_TransportType (cm_store cm a) \<and>
      (cn_State (cm_store cm' a) = StateActive \<longrightarrow> cn_State (cm_store cm a) = StateActive)"
  shows "conns_ok cm'"
proof -
  have pc: "peer_connections p cm' = peer_connections p cm" for p using assms(2) by (simp add: peer_connections_def)
  show ?thesis using assms(1,3) unfolding conns_ok_def assms(2) pc by (auto simp: active_list_iff pc)
qed

lemma keep_connections_effect:
  assumes "keep_connections a conn xs store = (ys, store')" and "distinct xs"
  shows "set ys \<subseteq> set xs - {a} \<and> distinct ys \<and>
    (\<forall>x. store' x = store x \<or> x \<in> set xs \<and> x \<noteq> a \<and> store' x = (store x)\<lparr>cn_State := StateClosed\<rparr>) \<and>
    (\<forall>x \<in> set ys. store' x = store x \<and> \<not> (cn_State (store x) = StateActive \<and> cn_TransportType (store x) = cn_TransportType conn))"
  using assms
proof (induction a conn xs store arbitrary: ys store' rule: keep_connections.induct)
  case (2 a conn x xs store)
  let ?same = "x = a \<or> cn_ID conn \<noteq> [] \<and> cn_ID (store x) = cn_ID conn"
  let ?closes = "cn_State (store x) = StateActive \<and> cn_TransportType (store x) = cn_TransportType conn"
  consider ?same | "\<not> ?same" ?closes | "\<not> ?same" "\<not> ?closes" by blast
  then show ?case
  proof cases
    case 1
    then have "keep_connections a conn xs store = (ys, store')" and "distinct xs" using 2(4,5) by auto
    from 2(1) [OF 1 this] show ?thesis by auto
  next
    case c: 2
    let ?s = "store(x := (store x)\<lparr>cn_State := StateClosed\<rparr>)"
    have run: "keep_connections a conn xs ?s = (ys, store')" and d: "distinct xs" "x \<notin> set xs" using 2(4,5) c by auto
    note ih = 2(2) [OF c run d(1)]
    have "?s y = store y" if "y \<in> set ys" for y using ih that d(2) by auto
    moreover have "x \<noteq> a" using c(1) by simp
    ultimately show ?thesis using ih d(2) by (auto split: if_splits)
  next
    case k: 3
    obtain zs where zs: "keep_connections a conn xs store = (zs, store')" and ys: "ys = x # zs" and d: "distinct xs" "x \<notin> set xs"
      using 2(4,5) k by (auto split: prod.splits)
    note ih = 2(3) [OF k zs d(1)]
    have "store' x = store x" using ih d(2) by blast
    then show ?thesis using ih ys d(2) k by auto
  qed
qed simp

lemma OnConnect_conns_ok:
  assumes "conns_ok cm"
  shows "conns_ok (snd (OnConnect now send conn cm))"
proof (cases conn)
  case None
  then show ?thesis using assms by (simp add: OnConnect_def)
next
  case (Some a)
  let ?c = "cm_store cm a" and ?p = "cn_Peer (cm_store cm a)" and ?cm = "snd (OnConnect now send conn cm)"
  obtain kept store where k: "keep_connections a ?c (peer_connections ?p cm) (cm_store cm) = (kept, store)" by fastforce
  have d: "distinct (peer_connections p cm)" for p using assms by (simp add: conns_ok_def)
  note e = keep_connections_effect [OF k d]
  have sa: "store a = ?c" using e by blast
  have conns: "cm_connections ?cm = map_put ?p (kept @ [a]) (cm_connections cm)" by (simp add: OnConnect_def Some k Let_def)
  have list: "peer_connections q ?cm = (if q = ?p then kept @ [a] else peer_connections q cm)" for q
    by (simp add: conns peer_connections_def)
  have st: "cm_store ?cm x = (if x = a then ?c\<lparr>cn_State := StateActive,
      cn_EstablishedAt := (if time_IsZero (cn_EstablishedAt ?c) then now else cn_EstablishedAt ?c), cn_LastActivity := now\<rparr> else store x)" for x
    by (simp add: OnConnect_def Some k Let_def sa)
  have peer: "cn_Peer (cm_store cm x) = q" if "x \<in> set (peer_connections q cm)" for x q
    using assms that by (simp add: conns_ok_def)
  have other: "cm_store ?cm x = cm_store cm x" if "x \<in> set (peer_connections q cm)" "q \<noteq> ?p" for x q
  proof -
    have "x \<noteq> a" "x \<notin> set (peer_connections ?p cm)" using peer that by blast+
    then show ?thesis using e st by (metis)
  qed
  have keptS: "cm_store ?cm x = cm_store cm x \<and> x \<noteq> a" if "x \<in> set kept" for x using e st that by auto
  have uniq: "x = y" if "x \<in> set (active_list q cm)" "y \<in> set (active_list q cm)"
    "cn_TransportType (cm_store cm x) = cn_TransportType (cm_store cm y)" for x y q
    using assms that by (simp add: conns_ok_def)
  have "map_ok (cm_connections ?cm)" using assms by (simp add: conns_ok_def conns)
  moreover have "distinct (peer_connections q ?cm) \<and> (\<forall>x \<in> set (peer_connections q ?cm). cn_Peer (cm_store ?cm x) = q)" for q
  proof (cases "q = ?p")
    case True
    then show ?thesis using e keptS peer list [of q] st by auto
  next
    case False
    then show ?thesis using d peer other list [of q] by auto
  qed
  moreover have "x = y" if xy: "x \<in> set (active_list q ?cm)" "y \<in> set (active_list q ?cm)"
    "cn_TransportType (cm_store ?cm x) = cn_TransportType (cm_store ?cm y)" for x y q
  proof (cases "q = ?p")
    case False
    then have "x \<in> set (active_list q cm)" "y \<in> set (active_list q cm)"
      "cn_TransportType (cm_store cm x) = cn_TransportType (cm_store cm y)"
      using xy other list [of q] by (auto simp: active_list_iff)
    then show ?thesis by (rule uniq)
  next
    case True
    have not_same: "\<not> (cn_State (cm_store cm z) = StateActive \<and> cn_TransportType (cm_store cm z) = cn_TransportType ?c)" if "z \<in> set kept" for z
      using e that by blast
    have old: "z \<in> set (active_list q cm) \<and> cn_TransportType (cm_store ?cm z) = cn_TransportType (cm_store cm z) \<and>
        cn_TransportType (cm_store cm z) \<noteq> cn_TransportType ?c" if "z \<in> set (active_list q ?cm)" "z \<noteq> a" for z
    proof -
      from that True list [of q] have z: "z \<in> set kept" by (auto simp: active_list_iff)
      then have "z \<in> set (peer_connections q cm)" using e True by blast
      then show ?thesis using that(1) keptS [OF z] not_same [OF z] by (simp add: active_list_iff)
    qed
    have "cn_TransportType (cm_store ?cm a) = cn_TransportType ?c" by (simp add: st)
    then show ?thesis using old [OF xy(1)] old [OF xy(2)] uniq xy(3) by metis
  qed
  ultimately show ?thesis unfolding conns_ok_def by blast
qed

lemma OnDisconnect_conns_ok:
  assumes "conns_ok cm"
  shows "conns_ok (OnDisconnect conn cm)"
proof (cases conn)
  case None
  then show ?thesis using assms by (simp add: OnDisconnect_def)
next
  case (Some a)
  let ?cm = "OnDisconnect conn cm"
  have sub: "set (peer_connections q ?cm) \<subseteq> set (peer_connections q cm) \<and> (distinct (peer_connections q cm) \<longrightarrow> distinct (peer_connections q ?cm))" for q
    by (auto simp: OnDisconnect_def Some Let_def peer_connections_def)
  have st: "cn_Peer (cm_store ?cm x) = cn_Peer (cm_store cm x) \<and> cn_TransportType (cm_store ?cm x) = cn_TransportType (cm_store cm x) \<and>
      (cn_State (cm_store ?cm x) = StateActive \<longrightarrow> cn_State (cm_store cm x) = StateActive)" for x
    by (auto simp: OnDisconnect_def Some Let_def)
  have "map_ok (cm_connections ?cm)" using assms by (simp add: conns_ok_def OnDisconnect_def Some Let_def)
  moreover have "set (active_list q ?cm) \<subseteq> set (active_list q cm)" for q
    using sub st unfolding subset_iff active_list_iff by blast
  ultimately show ?thesis using assms sub st unfolding conns_ok_def by (metis (no_types, lifting) subset_iff)
qed


section \<open>Offline queues\<close>

definition offline_messages :: "string \<Rightarrow> connection_manager \<Rightarrow> message option list" where
  "offline_messages peer cm = mq_contents (queueFor peer cm)"

lemma queueFor_ok: "queues_ok cm \<Longrightarrow> mq_ok (queueFor peer cm) \<and> mq_capacity (queueFor peer cm) = DefaultQueueCapacity"
  by (auto simp: queueFor_def map_get_def queues_ok_def split: option.split)

lemma queues_ok_put:
  "queues_ok cm \<Longrightarrow> mq_ok q \<Longrightarrow> mq_capacity q = DefaultQueueCapacity \<Longrightarrow> cm_messageQueues cm' = map_put p q (cm_messageQueues cm) \<Longrightarrow> queues_ok cm'"
  by (auto simp: queues_ok_def update_conv)

lemma enqueueOffline_effect:
  assumes "queues_ok cm" and "enqueueOffline peer msg cm = (full, cm')"
  shows "queues_ok cm'" and "offline_messages peer cm' = push_bounded DefaultQueueCapacity msg (offline_messages peer cm)"
    and "p \<noteq> peer \<Longrightarrow> offline_messages p cm' = offline_messages p cm"
    and "cm_connections cm' = cm_connections cm" and "cm_store cm' = cm_store cm"
    and "full \<longleftrightarrow> length (offline_messages peer cm) = DefaultQueueCapacity"
proof -
  let ?q = "queueFor peer cm"
  obtain q where q: "mq_Enqueue msg ?q = (full, q)" and cm': "cm' = cm\<lparr>cm_messageQueues := map_put peer q (cm_messageQueues cm)\<rparr>"
    using assms(2) by (auto simp: enqueueOffline_def split: prod.splits)
  note ok = queueFor_ok [OF assms(1), of peer]
  have e: "mq_ok q" "mq_capacity q = DefaultQueueCapacity" "mq_contents q = push_bounded DefaultQueueCapacity msg (mq_contents ?q)"
    "full \<longleftrightarrow> length (mq_contents ?q) = DefaultQueueCapacity"
    using offline.enqueue_ok [of ?q msg] offline.enqueue_contents [of ?q msg] offline.enqueue_full [of ?q msg] ok q by auto
  show "queues_ok cm'" by (rule queues_ok_put [OF assms(1) e(1,2), of _ peer]) (simp add: cm')
  show "offline_messages peer cm' = push_bounded DefaultQueueCapacity msg (offline_messages peer cm)"
    "full \<longleftrightarrow> length (offline_messages peer cm) = DefaultQueueCapacity"
    using e(3,4) by (simp_all add: offline_messages_def queueFor_def cm')
  show "p \<noteq> peer \<Longrightarrow> offline_messages p cm' = offline_messages p cm" "cm_connections cm' = cm_connections cm" "cm_store cm' = cm_store cm"
    by (simp_all add: offline_messages_def queueFor_def cm')
qed

text \<open>Replaying sends a prefix, stops at the first refusal and leaves the rest as it was.\<close>

lemma replay_split:
  "\<exists>sent rest. pending = sent @ rest \<and> (\<forall>j < length sent. send (i + j) = None) \<and> (rest = [] \<or> send (i + length sent) \<noteq> None) \<and>
     replay send i pending q = fold (\<lambda>x q. snd (mq_Enqueue x q)) rest q"
proof (induction pending arbitrary: i)
  case (Cons m ms)
  show ?case
  proof (cases "send i")
    case None
    obtain sent rest where s: "ms = sent @ rest" "\<forall>j < length sent. send (i + 1 + j) = None" "rest = [] \<or> send (i + 1 + length sent) \<noteq> None"
      "replay send (i + 1) ms q = fold (\<lambda>x q. snd (mq_Enqueue x q)) rest q" using Cons.IH [of "i + 1"] by blast
    have "send (i + j) = None" if "j < length (m # sent)" for j using that None s(2) by (cases j) auto
    with s None have "m # ms = (m # sent) @ rest \<and> (\<forall>j < length (m # sent). send (i + j) = None) \<and>
      (rest = [] \<or> send (i + length (m # sent)) \<noteq> None) \<and> replay send i (m # ms) q = fold (\<lambda>x q. snd (mq_Enqueue x q)) rest q" by simp
    then show ?thesis by blast
  next
    case (Some e)
    then have "m # ms = [] @ (m # ms) \<and> (\<forall>j < length ([] :: message option list). send (i + j) = None) \<and>
      (m # ms = [] \<or> send (i + length ([] :: message option list)) \<noteq> None) \<and>
      replay send i (m # ms) q = fold (\<lambda>x q. snd (mq_Enqueue x q)) (m # ms) q" by simp
    then show ?thesis by blast
  qed
qed simp

lemma replay_effect:
  assumes "mq_ok q"
  obtains sent rest where "mq_contents q = sent @ rest" and "\<forall>j < length sent. send j = None" and "rest = [] \<or> send (length sent) \<noteq> None"
    and "mq_ok (replay send 0 (fst (mq_Drain q)) (snd (mq_Drain q)))"
    and "mq_contents (replay send 0 (fst (mq_Drain q)) (snd (mq_Drain q))) = rest"
    and "mq_capacity (replay send 0 (fst (mq_Drain q)) (snd (mq_Drain q))) = mq_capacity q"
proof -
  obtain sent rest where s: "fst (mq_Drain q) = sent @ rest" "\<forall>j < length sent. send (0 + j) = None" "rest = [] \<or> send (0 + length sent) \<noteq> None"
    "replay send 0 (fst (mq_Drain q)) (snd (mq_Drain q)) = offline.enqueue_all rest (snd (mq_Drain q))"
    using replay_split [of "fst (mq_Drain q)" send 0 "snd (mq_Drain q)"] unfolding offline.enqueue_all_def by blast
  have c: "mq_contents q = sent @ rest" using s(1) offline.drain_contents [OF assms] by simp
  then have "length rest \<le> length (mq_contents q)" by simp
  note r = offline.requeue_suffix [OF assms this]
  show thesis using that [OF c] s(2,3) r unfolding s(4) by simp
qed

lemma OnConnect_queues:
  assumes "peer = cn_Peer (cm_store cm a)"
  shows "cm_messageQueues (snd (OnConnect now send (Some a) cm)) =
    (case map_of (cm_messageQueues cm) peer of None \<Rightarrow> cm_messageQueues cm
    | Some q \<Rightarrow> if cn_TransportType (cm_store cm a) \<notin> set (cm_adapters cm) then cm_messageQueues cm
        else map_put peer (replay send 0 (fst (mq_Drain q)) (snd (mq_Drain q))) (cm_messageQueues cm))"
  unfolding assms by (simp add: OnConnect_def Let_def case_prod_unfold split: option.split)

lemma OnConnect_queues_ok:
  assumes "queues_ok cm"
  shows "queues_ok (snd (OnConnect now send (Some a) cm))"
proof -
  let ?peer = "cn_Peer (cm_store cm a)"
  note qs = OnConnect_queues [of ?peer cm a now send, OF refl]
  show ?thesis
  proof (cases "map_of (cm_messageQueues cm) ?peer")
    case None
    then show ?thesis using assms qs by (simp add: queues_ok_def)
  next
    case (Some q)
    then have q: "mq_ok q" "mq_capacity q = DefaultQueueCapacity" using assms by (auto simp: queues_ok_def)
    show ?thesis
    proof (cases "cn_TransportType (cm_store cm a) \<in> set (cm_adapters cm)")
      case True
      then have "cm_messageQueues (snd (OnConnect now send (Some a) cm)) =
          map_put ?peer (replay send 0 (fst (mq_Drain q)) (snd (mq_Drain q))) (cm_messageQueues cm)"
        using qs Some by simp
      then show ?thesis using replay_effect [OF q(1), of send] queues_ok_put [OF assms] q(2) by metis
    qed (use assms qs Some in \<open>simp add: queues_ok_def\<close>)
  qed
qed

lemma connect_replays_in_order_parts:
  assumes "queues_ok cm" and "peer = cn_Peer (cm_store cm a)" and "snd (OnConnect now send (Some a) cm) = cm'"
  shows "cn_TransportType (cm_store cm a) \<in> set (cm_adapters cm) \<Longrightarrow>
      \<exists>sent rest. offline_messages peer cm = sent @ rest \<and> (\<forall>j < length sent. send j = None) \<and>
        (rest = [] \<or> send (length sent) \<noteq> None) \<and> offline_messages peer cm' = rest"
    and "cn_TransportType (cm_store cm a) \<notin> set (cm_adapters cm) \<Longrightarrow> offline_messages peer cm' = offline_messages peer cm"
    and "p \<noteq> peer \<Longrightarrow> offline_messages p cm' = offline_messages p cm"
    and "queues_ok cm'"
proof -
  note qs = OnConnect_queues [OF assms(2), of now send, unfolded assms(3)]
  show "p \<noteq> peer \<Longrightarrow> offline_messages p cm' = offline_messages p cm"
    by (simp add: offline_messages_def queueFor_def qs split: option.split)
  show "cn_TransportType (cm_store cm a) \<notin> set (cm_adapters cm) \<Longrightarrow> offline_messages peer cm' = offline_messages peer cm"
    by (simp add: offline_messages_def queueFor_def qs split: option.split)
  show "queues_ok cm'" using OnConnect_queues_ok [OF assms(1)] assms(3) by blast
  assume adapter: "cn_TransportType (cm_store cm a) \<in> set (cm_adapters cm)"
  show "\<exists>sent rest. offline_messages peer cm = sent @ rest \<and> (\<forall>j < length sent. send j = None) \<and>
        (rest = [] \<or> send (length sent) \<noteq> None) \<and> offline_messages peer cm' = rest"
  proof (cases "map_of (cm_messageQueues cm) peer")
    case None
    then show ?thesis using qs by (simp add: offline_messages_def queueFor_def map_get_def)
  next
    case (Some q)
    then have "mq_ok q" using assms(1) by (auto simp: queues_ok_def)
    then obtain sent rest where "mq_contents q = sent @ rest" "\<forall>j < length sent. send j = None" "rest = [] \<or> send (length sent) \<noteq> None"
      "mq_contents (replay send 0 (fst (mq_Drain q)) (snd (mq_Drain q))) = rest" by (rule replay_effect)
    moreover have "offline_messages peer cm = mq_contents q"
      "offline_messages peer cm' = mq_contents (replay send 0 (fst (mq_Drain q)) (snd (mq_Drain q)))"
      using Some adapter qs by (simp_all add: offline_messages_def queueFor_def map_get_def update_conv)
    ultimately show ?thesis by metis
  qed
qed


text \<open>
  Replay on reconnection: when a peer connects over a registered transport, the messages
  queued for it are sent oldest first up to the first refusal, and exactly the messages not
  sent stay queued, in order; without an adapter, and for other peers, nothing changes.
\<close>

lemma connect_replays_in_order:
  assumes "queues_ok cm" and "peer = cn_Peer (cm_store cm a)" and "snd (OnConnect now send (Some a) cm) = cm'"
  shows "(cn_TransportType (cm_store cm a) \<in> set (cm_adapters cm) \<longrightarrow>
      (\<exists>sent rest. offline_messages peer cm = sent @ rest \<and> (\<forall>j < length sent. send j = None) \<and>
        (rest = [] \<or> send (length sent) \<noteq> None) \<and> offline_messages peer cm' = rest)) \<and>
    (cn_TransportType (cm_store cm a) \<notin> set (cm_adapters cm) \<longrightarrow> offline_messages peer cm' = offline_messages peer cm) \<and>
    (\<forall>p. p \<noteq> peer \<longrightarrow> offline_messages p cm' = offline_messages p cm) \<and> queues_ok cm'"
  using connect_replays_in_order_parts [OF assms] by blast

text \<open>An example connection, used in the witnesses.\<close>

definition demo_connection :: "string \<Rightarrow> transport_type \<Rightarrow> connection" where
  "demo_connection i tt = \<lparr>cn_ID = i, cn_TransportType = tt, cn_Peer = ''p'', cn_TenantID = [], cn_Metadata = [], cn_State = StateInit,
     cn_EstablishedAt = 0, cn_LastActivity = 0, cn_SequenceWatermark = 0\<rparr>"

definition demo_message :: message where
  "demo_message = \<lparr>ms_Opcode = 2, ms_TreeID = ''t'', ms_Sequence = 1, ms_Timestamp = 5, ms_Payload = RawNil, ms_Origin = []\<rparr>"

definition demo_queue :: "message message_queue" where
  "demo_queue = snd (mq_Enqueue None (snd (mq_Enqueue (Some demo_message) (NewMessageQueue (int DefaultQueueCapacity)))))"

lemma demo_queue_ok: "mq_ok demo_queue" "mq_capacity demo_queue = DefaultQueueCapacity" "mq_contents demo_queue = [Some demo_message, None]"
  by (simp_all add: demo_queue_def mq_Enqueue_ok push_bounded_def del: length_mq_contents)

theorem connect_replays_in_order_witness:
  "offline_messages ''p'' (snd (OnConnect 9 (\<lambda>j. if j = 0 then None else Some ErrSendTimeout) (Some 0)
     ((NewConnectionManager (\<lambda>_. demo_connection ''c'' TransportSSE) None [TransportSSE])\<lparr>cm_messageQueues := [(''p'', demo_queue)]\<rparr>))) = [None]"
proof -
  let ?cm = "(NewConnectionManager (\<lambda>_. demo_connection ''c'' TransportSSE) None [TransportSSE])\<lparr>cm_messageQueues := [(''p'', demo_queue)]\<rparr>"
  let ?send = "\<lambda>j::nat. if j = 0 then None else Some ErrSendTimeout"
  have "queues_ok ?cm" by (simp add: queues_ok_def demo_queue_ok)
  moreover have "''p'' = cn_Peer (cm_store ?cm 0)" "cn_TransportType (cm_store ?cm 0) \<in> set (cm_adapters ?cm)"
    by (simp_all add: NewConnectionManager_def demo_connection_def)
  ultimately obtain sent rest where s: "offline_messages ''p'' ?cm = sent @ rest" "\<forall>j < length sent. ?send j = None"
    "rest = [] \<or> ?send (length sent) \<noteq> None" "offline_messages ''p'' (snd (OnConnect 9 ?send (Some 0) ?cm)) = rest"
    using connect_replays_in_order [OF _ _ refl, of ?cm "''p''" 0 ?send 9] by blast
  have two: "sent @ rest = [Some demo_message, None]" using s(1) by (simp add: offline_messages_def queueFor_def map_get_def demo_queue_ok)
  have "length sent \<le> 1" using s(2) by (auto dest: spec [of _ 1])
  moreover have "sent \<noteq> []" using s(3) two by auto
  ultimately obtain x where "sent = [x]" by (cases sent) auto
  then show ?thesis using two s(4) by simp
qed

section \<open>Routing\<close>

abbreviation queued :: "string \<Rightarrow> message option \<Rightarrow> connection_manager \<Rightarrow> connection_manager \<Rightarrow> bool" where
  "queued peer msg cm cm' \<equiv> offline_messages peer cm' = push_bounded DefaultQueueCapacity msg (offline_messages peer cm)"

lemma offline_messages_cong: "cm_messageQueues cm' = cm_messageQueues cm \<Longrightarrow> offline_messages peer cm' = offline_messages peer cm"
  by (simp add: offline_messages_def queueFor_def)

lemma queues_ok_cong: "cm_messageQueues cm' = cm_messageQueues cm \<Longrightarrow> queues_ok cm \<Longrightarrow> queues_ok cm'"
  by (simp add: queues_ok_def)

lemma route_offline_effect:
  assumes "queues_ok cm" and "route_offline peer msg cm tr = (res, trace, cm')"
  shows "queued peer msg cm cm'" and "trace = tr" and "queues_ok cm'" and "res \<noteq> Some ErrRateLimited"
    and "cm_connections cm' = cm_connections cm" and "cm_store cm' = cm_store cm"
proof -
  obtain full c where e: "enqueueOffline peer msg cm = (full, c)" by fastforce
  have eq: "res = (if full then Some ErrNoTransportAvailable else None)" "trace = tr" "cm' = c"
    using assms(2) by (auto simp: route_offline_def e)
  show "queued peer msg cm cm'" "queues_ok cm'" "cm_connections cm' = cm_connections cm" "cm_store cm' = cm_store cm"
    using enqueueOffline_effect [OF assms(1) e] eq(3) by simp_all
  show "trace = tr" "res \<noteq> Some ErrRateLimited" using eq by simp_all
qed

lemma route_failed_effect:
  assumes "queues_ok cm" and "route_failed env peer msg tt e cm = (res, trace, cm')"
  shows "res = None \<Longrightarrow> \<exists>tt. (tt, None) \<in> set trace" and "\<exists>rest. trace = (tt, Some e) # rest" and "queues_ok cm'"
    and "res \<noteq> None \<Longrightarrow> e \<in> {ErrConnectionClosed, ErrNotConnected, ErrTransportUnreachable} \<Longrightarrow> queued peer msg cm cm'"
    and "cm_connections cm' = cm_connections cm" and "cm_store cm' = cm_store cm"
proof -
  define cm1 where "cm1 = cm\<lparr>cm_selector := map_option (\<lambda>ts. snd (MarkDegraded tt ''connection_closed'' ts)) (cm_selector cm)\<rparr>"
  obtain full c where q: "enqueueOffline peer msg cm1 = (full, c)" by fastforce
  have same: "cm_messageQueues cm1 = cm_messageQueues cm" and frame: "cm_connections cm1 = cm_connections cm" "cm_store cm1 = cm_store cm"
    by (simp_all add: cm1_def)
  note e = enqueueOffline_effect [OF queues_ok_cong [OF same assms(1)] q]
  consider "\<exists>ft. res = None \<and> trace = [(tt, Some e), (ft, None)] \<and> cm' = cm1"
    | "\<exists>rest. res = Some e \<and> trace = (tt, Some e) # rest \<and> cm' = c"
    | "e \<notin> {ErrConnectionClosed, ErrNotConnected, ErrTransportUnreachable} \<and> res = Some e \<and> trace = [(tt, Some e)] \<and> cm' = cm"
    using assms(2) unfolding route_failed_def Let_def cm1_def [symmetric] q snd_conv
    by (auto split: if_splits option.splits list.splits prod.splits)
  note cases = this
  show "queues_ok cm'" using cases e(1) assms(1) queues_ok_cong [OF same assms(1)] by cases auto
  show "\<exists>rest. trace = (tt, Some e) # rest" using cases by cases auto
  show "\<exists>tt. (tt, None) \<in> set trace" if "res = None" using cases that by cases auto
  show "cm_connections cm' = cm_connections cm" using cases e(4) frame(1) by cases auto
  show "cm_store cm' = cm_store cm" using cases e(5) frame(2) by cases auto
  have "queued peer msg cm c" using e(2) offline_messages_cong [OF same] by simp
  then show "queued peer msg cm cm'" if "res \<noteq> None" "e \<in> {ErrConnectionClosed, ErrNotConnected, ErrTransportUnreachable}"
    using cases that by cases auto
qed

lemma EnforceRateLimit_frame [simp]:
  "cm_messageQueues (snd (EnforceRateLimit now peer cm)) = cm_messageQueues cm"
  "cm_connections (snd (EnforceRateLimit now peer cm)) = cm_connections cm"
  "cm_store (snd (EnforceRateLimit now peer cm)) = cm_store cm" "cm_adapters (snd (EnforceRateLimit now peer cm)) = cm_adapters cm"
  by (simp_all add: EnforceRateLimit_def Let_def case_prod_unfold)

text \<open>The ways a call of \<open>RouteMessage\<close> ends.\<close>

lemma RouteMessage_cases:
  assumes "RouteMessage env peer msg cm = (res, trace, cm')"
  obtains (none) "res = re_ctx env" "res \<noteq> None" "trace = []" "cm' = cm"
  | (relay) "res = None" "trace = [(TransportRelay, None)]" "cm' = cm"
  | (offline) tr where "route_offline peer msg cm tr = (res, trace, cm')"
  | (refused) cm1 where "res \<noteq> None" "trace = []" "cm' = cm1" "cm_messageQueues cm1 = cm_messageQueues cm"
      "cm_connections cm1 = cm_connections cm" "cm_store cm1 = cm_store cm"
  | (failed) cm1 tt e where "route_failed env peer msg tt e cm1 = (res, trace, cm')" "cm_messageQueues cm1 = cm_messageQueues cm"
      "cm_connections cm1 = cm_connections cm" "cm_store cm1 = cm_store cm"
  | (stale) cm1 tt where "route_offline peer msg cm1 [(tt, None)] = (res, trace, cm')" "cm_messageQueues cm1 = cm_messageQueues cm"
      "cm_connections cm1 = cm_connections cm" "cm_store cm1 = cm_store cm"
  | (sent) a tt where "res = None" "trace = [(tt, None)]" "cm_messageQueues cm' = cm_messageQueues cm" "cm_connections cm' = cm_connections cm"
      "cm_store cm' = (cm_store cm)(a := (cm_store cm a)\<lparr>cn_LastActivity := re_now env\<rparr>)"
proof (cases "re_ctx env")
  case (Some e)
  then show thesis using none assms by (simp add: RouteMessage_def)
next
  case ctx: None
  show thesis
  proof (cases "activeConnection peer cm")
    case None
    obtain r tr where v: "routeViaRelay env cm = (r, tr)" by fastforce
    show thesis
    proof (cases r)
      case r: None
      then have "tr = [(TransportRelay, None)]" using v by (auto simp: routeViaRelay_def split: if_splits option.splits)
      then show thesis using relay assms ctx None v r by (simp add: RouteMessage_def)
    next
      case (Some e)
      then show thesis using offline [of tr] assms ctx None v by (simp add: RouteMessage_def)
    qed
  next
    case (Some a)
    obtain l cm1 where lim: "EnforceRateLimit (re_now env) peer cm = (l, cm1)" by fastforce
    have frame: "cm_messageQueues cm1 = cm_messageQueues cm" "cm_connections cm1 = cm_connections cm" "cm_store cm1 = cm_store cm"
      using EnforceRateLimit_frame [of "re_now env" peer cm] lim by simp_all
    let ?tt = "cn_TransportType (cm_store cm1 a)"
    note run = assms [unfolded RouteMessage_def Let_def, simplified ctx Some lim option.case prod.case]
    consider e where "l = Some e" | e where "l = None" "re_ctx2 env = Some e"
      | "l = None" "re_ctx2 env = None" "?tt \<notin> set (cm_adapters cm1)"
      | e where "l = None" "re_ctx2 env = None" "?tt \<in> set (cm_adapters cm1)" "re_send env 0 ?tt = Some e"
      | "l = None" "re_ctx2 env = None" "?tt \<in> set (cm_adapters cm1)" "re_send env 0 ?tt = None" by blast
    then show thesis
    proof cases
      case 1
      then show thesis using refused [of cm1] run frame by auto
    next
      case 2
      then have "res = Some e" "trace = []" "cm' = cm1" using run by simp_all
      then show thesis using refused [of cm1] frame by simp
    next
      case 3
      then show thesis using refused [of cm1] run frame by auto
    next
      case 4
      then show thesis using failed [of ?tt e cm1] run frame by simp
    next
      case 5
      then show thesis using stale [of cm1 ?tt] sent [of ?tt a] run frame by (auto split: if_splits)
    qed
  qed
qed

lemma RouteMessage_queues_ok:
  assumes "queues_ok cm" and "RouteMessage env peer msg cm = (res, trace, cm')"
  shows "queues_ok cm'"
  using assms(2)
proof (cases rule: RouteMessage_cases)
  case (offline tr)
  then show ?thesis using route_offline_effect(3) assms(1) by blast
next
  case (failed cm1 tt e)
  then show ?thesis using route_failed_effect(3) queues_ok_cong assms(1) by blast
next
  case (stale cm1 tt)
  then show ?thesis using route_offline_effect(3) queues_ok_cong assms(1) by blast
qed (use queues_ok_cong [of cm' cm] assms(1) in simp_all)

lemma route_message_not_lost_parts:
  assumes "queues_ok cm" and "RouteMessage env peer msg cm = (res, trace, cm')"
  shows "res = None \<Longrightarrow> (\<exists>tt. (tt, None) \<in> set trace) \<or>
      offline_messages peer cm' = push_bounded DefaultQueueCapacity msg (offline_messages peer cm)"
    and "trace = (tt, Some e) # rest \<Longrightarrow> e \<in> {ErrConnectionClosed, ErrNotConnected, ErrTransportUnreachable} \<Longrightarrow> res \<noteq> None \<Longrightarrow>
      offline_messages peer cm' = push_bounded DefaultQueueCapacity msg (offline_messages peer cm)"
    and "res = Some ErrRateLimited \<Longrightarrow> trace = [] \<Longrightarrow> offline_messages peer cm' = offline_messages peer cm"
    and "queues_ok cm'"
proof -
  show "queues_ok cm'" by (rule RouteMessage_queues_ok [OF assms])
  show "(\<exists>tt. (tt, None) \<in> set trace) \<or> queued peer msg cm cm'" if "res = None" using assms(2)
  proof (cases rule: RouteMessage_cases)
    case (offline tr)
    then show ?thesis using route_offline_effect(1) assms(1) by blast
  next
    case (failed cm1 tt e)
    then show ?thesis using route_failed_effect(1) queues_ok_cong assms(1) that by blast
  next
    case (stale cm1 tt)
    then show ?thesis using route_offline_effect(2) [OF queues_ok_cong [OF stale(2) assms(1)]] by fastforce
  qed (use that in auto)
  show "queued peer msg cm cm'" if t: "trace = (tt, Some e) # rest" "e \<in> {ErrConnectionClosed, ErrNotConnected, ErrTransportUnreachable}" "res \<noteq> None"
    using assms(2)
  proof (cases rule: RouteMessage_cases)
    case (offline tr)
    then show ?thesis using route_offline_effect(1) assms(1) by blast
  next
    case (failed cm1 tt' e')
    note ok = queues_ok_cong [OF failed(2) assms(1)]
    have "e' = e" using route_failed_effect(2) [OF ok failed(1)] t(1) by auto
    then show ?thesis using route_failed_effect(4) [OF ok failed(1) t(3)] t(2) offline_messages_cong [OF failed(2)] by simp
  next
    case (stale cm1 tt')
    then show ?thesis using route_offline_effect(2) [OF queues_ok_cong [OF stale(2) assms(1)] stale(1)] t(1) by simp
  qed (use t in auto)
  show "offline_messages peer cm' = offline_messages peer cm" if "res = Some ErrRateLimited" "trace = []" using assms(2)
  proof (cases rule: RouteMessage_cases)
    case (offline tr)
    then show ?thesis using route_offline_effect(4) assms(1) that by blast
  next
    case (failed cm1 tt e)
    then show ?thesis using route_failed_effect(2) queues_ok_cong assms(1) that by blast
  next
    case (stale cm1 tt)
    then show ?thesis using route_offline_effect(4) queues_ok_cong assms(1) that by blast
  qed (use that offline_messages_cong [of cm' cm] in simp_all)
qed


text \<open>
  C14: A routed message is not lost silently. \<open>RouteMessage\<close> reports success only if an adapter
  accepted the message or it is now the newest message of the peer's offline queue; when the
  connection it tried was closed, missing or unreachable and no fallback took the message, it
  was queued as well; and a call that returns without sending anything but an error leaves the
  queue as it was, unless the queue overflowed.
\<close>

theorem route_message_not_lost:
  assumes "queues_ok cm" and "RouteMessage env peer msg cm = (res, trace, cm')"
  shows "(res = None \<longrightarrow> (\<exists>tt. (tt, None) \<in> set trace) \<or>
      offline_messages peer cm' = push_bounded DefaultQueueCapacity msg (offline_messages peer cm)) \<and>
    (\<forall>tt e rest. trace = (tt, Some e) # rest \<longrightarrow> e \<in> {ErrConnectionClosed, ErrNotConnected, ErrTransportUnreachable} \<longrightarrow> res \<noteq> None \<longrightarrow>
      offline_messages peer cm' = push_bounded DefaultQueueCapacity msg (offline_messages peer cm)) \<and>
    (res = Some ErrRateLimited \<longrightarrow> trace = [] \<longrightarrow> offline_messages peer cm' = offline_messages peer cm) \<and> queues_ok cm'"
  using route_message_not_lost_parts [OF assms] by blast

definition demo_env :: route_env where
  "demo_env = \<lparr>re_ctx = None, re_ctx2 = None, re_send = (\<lambda>_ _. None), re_relayConnect = None, re_relaySend = None, re_stale = False, re_now = 5\<rparr>"

theorem route_message_not_lost_witness:
  "offline_messages ''p'' (snd (snd (RouteMessage demo_env ''p'' (Some demo_message)
     (NewConnectionManager (\<lambda>_. demo_connection ''c'' TransportSSE) None [])))) = [Some demo_message]"
proof -
  let ?cm = "NewConnectionManager (\<lambda>_. demo_connection ''c'' TransportSSE) None []"
  obtain res trace cm' where r: "RouteMessage demo_env ''p'' (Some demo_message) ?cm = (res, trace, cm')" by (metis prod_cases3)
  have "activeConnection ''p'' ?cm = None"
    by (simp add: NewConnectionManager_def activeConnection_def active_list_def peer_connections_def)
  then have off: "route_offline ''p'' (Some demo_message) ?cm [] = (res, trace, cm')"
    using r by (simp add: RouteMessage_def demo_env_def routeViaRelay_def NewConnectionManager_def)
  have ok: "queues_ok ?cm" by (simp add: queues_ok_def NewConnectionManager_def)
  have empty: "offline_messages ''p'' ?cm = []"
    by (simp add: offline_messages_def queueFor_def NewConnectionManager_def)
  obtain full c where e: "enqueueOffline ''p'' (Some demo_message) ?cm = (full, c)" by fastforce
  have "\<not> full" using enqueueOffline_effect(6) [OF ok e] empty by simp
  then have "res = None" "trace = []" using off by (auto simp: route_offline_def e)
  with route_message_not_lost [OF ok r] r empty show ?thesis by (simp add: push_bounded_def)
qed

text \<open>
  With a selector the route is the selected transport or nothing: a peer whose active
  connection runs over another transport than the one selected gets its message queued.
\<close>

definition demo_two_transports :: connection_manager where
  "demo_two_transports = snd (OnConnect 3 (\<lambda>_. None) (Some 0)
     (NewConnectionManager (\<lambda>_. demo_connection ''c'' TransportSSE) (Some (NewTransportSelector ModeLAN TopologyLAN)) [TransportWebRTC, TransportSSE]))"

lemma connected_peer_not_routed:
  "GetConnection ''p'' demo_two_transports = Some 0"
  "fst (snd (RouteMessage demo_env ''p'' (Some demo_message) demo_two_transports)) = []"
  "cn_TransportType (cm_store demo_two_transports 0) = TransportSSE \<and> IsHealthy TransportSSE (the (cm_selector demo_two_transports))"
proof -
  have fst_route: "fst (snd (RouteMessage demo_env ''p'' m cm)) = []" if "activeConnection ''p'' cm = None" "TransportRelay \<notin> set (cm_adapters cm)" for m cm
    using that by (simp add: RouteMessage_def demo_env_def routeViaRelay_def route_offline_def case_prod_unfold)
  show "GetConnection ''p'' demo_two_transports = Some 0" by code_simp
  show "fst (snd (RouteMessage demo_env ''p'' (Some demo_message) demo_two_transports)) = []"
    by (rule fst_route) (code_simp, code_simp)
  show "cn_TransportType (cm_store demo_two_transports 0) = TransportSSE \<and> IsHealthy TransportSSE (the (cm_selector demo_two_transports))"
    by code_simp
qed

section \<open>Steps of the manager\<close>

text \<open>
  The calls of the manager, and what adapters do to connection objects: they make new ones,
  and change those registered without moving them to another peer or transport and without
  activating them.
\<close>

inductive cm_step :: "connection_manager \<Rightarrow> connection_manager \<Rightarrow> bool" where
  step_route: "cm_step cm (snd (snd (RouteMessage env peer msg cm)))"
| step_connect: "cm_step cm (snd (OnConnect now send conn cm))"
| step_disconnect: "cm_step cm (OnDisconnect conn cm)"
| step_degrade: "cm_step cm (snd (DegradeTransport ctx tt cm))"
| step_drain: "cm_step cm (snd (DrainQueue peer cm))"
| step_limit: "cm_step cm (snd (EnforceRateLimit now peer cm))"
| step_register: "cm_step cm (snd (cm_RegisterAdapter tt cm))"
| step_selector: "cm_step cm (SetSelector sel cm)"
| step_bandwidth: "cm_step cm (snd (MeasureBandwidth peer cm))"
| step_new: "(\<And>p. a \<notin> set (peer_connections p cm)) \<Longrightarrow> cm_step cm (cm\<lparr>cm_store := (cm_store cm)(a := c)\<rparr>)"
| step_object: "cn_Peer c = cn_Peer (cm_store cm a) \<Longrightarrow> cn_TransportType c = cn_TransportType (cm_store cm a) \<Longrightarrow>
    (cn_State c = StateActive \<Longrightarrow> cn_State (cm_store cm a) = StateActive) \<Longrightarrow> cm_step cm (cm\<lparr>cm_store := (cm_store cm)(a := c)\<rparr>)"

lemma RouteMessage_cm_ok:
  assumes "cm_ok cm"
  shows "cm_ok (snd (snd (RouteMessage env peer msg cm)))"
proof -
  obtain res trace cm' where r: "RouteMessage env peer msg cm = (res, trace, cm')" by (metis prod_cases3)
  have q: "queues_ok cm" and c: "conns_ok cm" using assms by (simp_all add: cm_ok_def)
  have "queues_ok cm'" by (rule RouteMessage_queues_ok [OF q r])
  moreover have "conns_ok cm'" using r
  proof (cases rule: RouteMessage_cases)
    case (offline tr)
    then show ?thesis using conns_ok_store [OF c] route_offline_effect(5,6) [OF q offline] by simp
  next
    case (failed cm1 tt e)
    then show ?thesis using conns_ok_store [OF c] route_failed_effect(5,6) [OF queues_ok_cong [OF failed(2) q] failed(1)] by simp
  next
    case (stale cm1 tt)
    then show ?thesis using conns_ok_store [OF c] route_offline_effect(5,6) [OF queues_ok_cong [OF stale(2) q] stale(1)] by simp
  next
    case (sent a tt)
    then show ?thesis using conns_ok_store [OF c] by (simp add: fun_upd_def)
  qed (use conns_ok_store [OF c] c in simp_all)
  ultimately show ?thesis by (simp add: r cm_ok_def)
qed


lemma cm_ok_frame:
  assumes "cm_ok cm" and "cm_connections cm' = cm_connections cm" and "cm_messageQueues cm' = cm_messageQueues cm"
    and "\<And>a p. a \<in> set (peer_connections p cm) \<Longrightarrow> cn_Peer (cm_store cm' a) = cn_Peer (cm_store cm a) \<and>
      cn_TransportType (cm_store cm' a) = cn_TransportType (cm_store cm a) \<and>
      (cn_State (cm_store cm' a) = StateActive \<longrightarrow> cn_State (cm_store cm a) = StateActive)"
  shows "cm_ok cm'"
  using conns_ok_store [of cm cm'] queues_ok_cong [of cm' cm] assms unfolding cm_ok_def by simp

lemma cm_step_ok: "cm_step cm cm' \<Longrightarrow> cm_ok cm \<Longrightarrow> cm_ok cm'"
proof (induction rule: cm_step.induct)
  case (step_route cm env peer msg)
  then show ?case by (rule RouteMessage_cm_ok)
next
  case (step_connect cm now send conn)
  have "queues_ok (snd (OnConnect now send conn cm))"
  proof (cases conn)
    case None
    then show ?thesis using step_connect by (simp add: OnConnect_def cm_ok_def)
  next
    case (Some a)
    then show ?thesis using OnConnect_queues_ok step_connect by (simp add: cm_ok_def)
  qed
  then show ?case using OnConnect_conns_ok step_connect by (simp add: cm_ok_def)
next
  case (step_disconnect cm conn)
  have "cm_messageQueues (OnDisconnect conn cm) = cm_messageQueues cm" by (simp add: OnDisconnect_def Let_def split: option.split)
  then show ?case using step_disconnect OnDisconnect_conns_ok queues_ok_cong by (auto simp: cm_ok_def)
next
  case (step_degrade cm ctx tt)
  then show ?case by (rule cm_ok_frame) (auto simp: DegradeTransport_def split: option.splits)
next
  case (step_drain cm peer)
  show ?case
  proof (cases "map_of (cm_messageQueues cm) peer")
    case None
    then show ?thesis using step_drain by (simp add: DrainQueue_def)
  next
    case (Some q)
    let ?cm = "snd (DrainQueue peer cm)"
    have q: "mq_ok q" "mq_capacity q = DefaultQueueCapacity" using Some step_drain by (auto simp: cm_ok_def queues_ok_def)
    have eq: "?cm = cm\<lparr>cm_messageQueues := map_put peer (snd (mq_Drain q)) (cm_messageQueues cm)\<rparr>"
      by (simp add: DrainQueue_def Some case_prod_unfold)
    have "queues_ok ?cm"
      by (rule queues_ok_put [of cm "snd (mq_Drain q)" _ peer])
        (use step_drain offline.drain_ok [OF q(1)] q(2) in \<open>simp_all add: cm_ok_def eq\<close>)
    moreover have "conns_ok ?cm" by (rule conns_ok_store [of cm]) (use step_drain in \<open>simp_all add: cm_ok_def eq\<close>)
    ultimately show ?thesis by (simp add: cm_ok_def)
  qed
next
  case (step_limit cm now peer)
  then show ?case by (rule cm_ok_frame) simp_all
next
  case (step_register cm tt)
  then show ?case by (rule cm_ok_frame) (simp_all add: cm_RegisterAdapter_def)
next
  case (step_selector cm sel)
  then show ?case by (rule cm_ok_frame) (simp_all add: SetSelector_def)
next
  case (step_bandwidth cm peer)
  then show ?case by (rule cm_ok_frame) (simp_all add: MeasureBandwidth_def Let_def split: option.split)
next
  case (step_new a cm c)
  from step_new(2) show ?case by (rule cm_ok_frame) (use step_new(1) in auto)
next
  case (step_object c cm a)
  from step_object(4) show ?case by (rule cm_ok_frame) (use step_object(1-3) in auto)
qed

interpretation manager: evolving cm_step cm_ok "\<lambda>_ _. True"
  by unfold_locales (auto intro: cm_step_ok)

lemma NewConnectionManager_ok: "cm_ok (NewConnectionManager store selector adapters)"
  by (simp add: cm_ok_def conns_ok_def queues_ok_def NewConnectionManager_def peer_connections_def active_list_def)

lemma connections_unique_per_transport_parts:
  assumes "cm_step\<^sup>*\<^sup>* (NewConnectionManager store selector adapters) cm"
  shows "distinct (filter (\<lambda>a. cn_TransportType (cm_store cm a) = tt \<and> cn_State (cm_store cm a) = StateActive) (peer_connections p cm)) \<and>
      length (filter (\<lambda>a. cn_TransportType (cm_store cm a) = tt \<and> cn_State (cm_store cm a) = StateActive) (peer_connections p cm)) \<le> 1"
    and "a \<in> set (peer_connections p cm) \<Longrightarrow> cn_Peer (cm_store cm a) = p"
    and "mq_ok (queueFor p cm)"
    and "activeConnection p cm = Some a \<Longrightarrow> a \<in> set (peer_connections p cm) \<and> cn_State (cm_store cm a) = StateActive \<and>
      (\<forall>ts. cm_selector cm = Some ts \<longrightarrow> sel_Select ts = Inr (cn_TransportType (cm_store cm a)))"
proof -
  have ok: "cm_ok cm" using manager.run_ok [OF assms NewConnectionManager_ok] by simp
  then have conns: "conns_ok cm" by (simp add: cm_ok_def)
  let ?fs = "filter (\<lambda>a. cn_TransportType (cm_store cm a) = tt \<and> cn_State (cm_store cm a) = StateActive) (peer_connections p cm)"
  have d: "distinct ?fs" using conns by (simp add: conns_ok_def)
  have uniq: "x = y" if "x \<in> set ?fs" "y \<in> set ?fs" for x y
    using conns that unfolding conns_ok_def by (auto simp: active_list_iff)
  have "length ?fs \<le> 1"
  proof (cases ?fs)
    case (Cons x xs)
    have "xs = []" using uniq [of x] d Cons by (cases xs) auto
    with Cons show ?thesis by simp
  qed simp
  with d show "distinct ?fs \<and> length ?fs \<le> 1" ..
  show "a \<in> set (peer_connections p cm) \<Longrightarrow> cn_Peer (cm_store cm a) = p" using conns by (simp add: conns_ok_def)
  show "mq_ok (queueFor p cm)" using ok queueFor_ok by (simp add: cm_ok_def)
  assume act: "activeConnection p cm = Some a"
  show "a \<in> set (peer_connections p cm) \<and> cn_State (cm_store cm a) = StateActive \<and>
      (\<forall>ts. cm_selector cm = Some ts \<longrightarrow> sel_Select ts = Inr (cn_TransportType (cm_store cm a)))"
  proof (cases "active_list p cm")
    case Nil
    then show ?thesis using act by (simp add: activeConnection_def)
  next
    case (Cons x xs)
    have "a \<in> set (active_list p cm) \<and> (\<forall>ts. cm_selector cm = Some ts \<longrightarrow> sel_Select ts = Inr (cn_TransportType (cm_store cm a)))"
      using act by (auto simp: activeConnection_def Cons find_Some_iff nth_Cons' split: option.splits sum.splits if_splits)
    then show ?thesis by (simp add: active_list_iff)
  qed
qed

text \<open>
  In every state the manager reaches, a peer has at most one active connection per
  transport, every connection is filed under its own peer and once, the offline queues are
  well formed, and the connection a message is routed over is active and of the selected
  transport.
\<close>

lemma connections_unique_per_transport:
  assumes "cm_step\<^sup>*\<^sup>* (NewConnectionManager store selector adapters) cm"
  shows "(\<forall>p tt. distinct (filter (\<lambda>a. cn_TransportType (cm_store cm a) = tt \<and> cn_State (cm_store cm a) = StateActive) (peer_connections p cm)) \<and>
      length (filter (\<lambda>a. cn_TransportType (cm_store cm a) = tt \<and> cn_State (cm_store cm a) = StateActive) (peer_connections p cm)) \<le> 1) \<and>
    (\<forall>p. \<forall>a \<in> set (peer_connections p cm). cn_Peer (cm_store cm a) = p) \<and> (\<forall>p. mq_ok (queueFor p cm)) \<and>
    (\<forall>p a. activeConnection p cm = Some a \<longrightarrow> a \<in> set (peer_connections p cm) \<and> cn_State (cm_store cm a) = StateActive \<and>
      (\<forall>ts. cm_selector cm = Some ts \<longrightarrow> sel_Select ts = Inr (cn_TransportType (cm_store cm a))))"
  using connections_unique_per_transport_parts [OF assms] by blast

theorem connections_unique_per_transport_witness:
  "let cm = snd (OnConnect 4 (\<lambda>_. None) (Some 1) demo_two_transports)
   in length (filter (\<lambda>a. cn_TransportType (cm_store cm a) = TransportSSE \<and> cn_State (cm_store cm a) = StateActive)
        (peer_connections ''p'' cm)) \<le> 1"
proof -
  let ?new = "NewConnectionManager (\<lambda>_. demo_connection ''c'' TransportSSE) (Some (NewTransportSelector ModeLAN TopologyLAN)) [TransportWebRTC, TransportSSE]"
  have "cm_step\<^sup>*\<^sup>* ?new demo_two_transports" unfolding demo_two_transports_def by (rule r_into_rtranclp) (rule step_connect)
  from rtranclp.rtrancl_into_rtrancl [OF this step_connect]
  have "cm_step\<^sup>*\<^sup>* ?new (snd (OnConnect 4 (\<lambda>_. None) (Some 1) demo_two_transports))" .
  from connections_unique_per_transport [OF this] show ?thesis unfolding Let_def by blast
qed

end
