(* ===== verification/Relay_Service.thy ===== *)
theory Relay_Service
  imports Connection_Manager
begin

text \<open>
  The store-and-forward relay (\<open>internal/transport/relay_service.go\<close>): one bounded queue per
  peer, with the identifiers of the last \<open>capacity\<close> envelopes accepted remembered, so that a
  repeated event is accepted once. The hash that names a message without identifier is an
  argument, and so is the clock. Metrics and the HTTP wrapping are outside.
\<close>

section \<open>Operations\<close>

definition DefaultRelayQueueCapacity :: nat where [simp]: "DefaultRelayQueueCapacity = 10000"

record relay_envelope =
  en_EventID :: string
  en_PeerID :: string
  en_EnqueuedAt :: int
  en_Message :: "message option"

record relay_peer_queue =
  rq_items :: "relay_envelope list"
  rq_seen :: "string set"
  rq_order :: "string list"

record relay_store =
  rs_queues :: "(string, relay_peer_queue) gomap"
  rs_capacity :: nat
  rs_closed :: bool

definition NewRelayStore :: "int list \<Rightarrow> relay_store" where
  "NewRelayStore capacities =
     \<lparr>rs_queues = [],
      rs_capacity = (case capacities of c # _ \<Rightarrow> if c > 0 then nat c else DefaultRelayQueueCapacity | [] \<Rightarrow> DefaultRelayQueueCapacity),
      rs_closed = False\<rparr>"

text \<open>\<open>copy(xs, xs[1:]); xs[len-1] = x\<close> on a full slice, \<open>append\<close> otherwise.\<close>

definition shift_in :: "nat \<Rightarrow> 'b \<Rightarrow> 'b list \<Rightarrow> 'b list" where
  "shift_in cap x xs = (if length xs = cap then (tl xs @ [last xs])[length xs - 1 := x] else xs @ [x])"

text \<open>\<open>nowMs\<close> is the clock in milliseconds.\<close>

definition store_Enqueue ::
    "(message \<Rightarrow> string) \<Rightarrow> int \<Rightarrow> relay_envelope option \<Rightarrow> relay_store \<Rightarrow> transport_error option \<times> relay_store" where
  "store_Enqueue hash nowMs envelope s =
     (case envelope of
        None \<Rightarrow> (Some ErrInvalidEnvelope, s)
      | Some e0 \<Rightarrow>
        (case en_Message e0 of
           None \<Rightarrow> (Some ErrInvalidEnvelope, s)
         | Some m \<Rightarrow>
           if en_PeerID e0 = [] then (Some ErrInvalidEnvelope, s)
           else
             (let e = e0\<lparr>en_EventID := (if en_EventID e0 = [] then hash m else en_EventID e0)\<rparr>
              in if rs_closed s then (Some ErrConnectionClosed, s)
                 else
                   (let q = map_get \<lparr>rq_items = [], rq_seen = {}, rq_order = []\<rparr> (rs_queues s) (en_PeerID e)
                    in if en_EventID e \<in> rq_seen q then (None, s\<lparr>rs_queues := map_put (en_PeerID e) q (rs_queues s)\<rparr>)
                       else
                         (let seen = (if length (rq_order q) = rs_capacity s then rq_seen q - {hd (rq_order q)} else rq_seen q);
                              order = shift_in (rs_capacity s) (en_EventID e) (rq_order q);
                              copyEnvelope = e\<lparr>en_EnqueuedAt := (if en_EnqueuedAt e = 0 then nowMs else en_EnqueuedAt e)\<rparr>;
                              items = shift_in (rs_capacity s) copyEnvelope (rq_items q)
                          in (None, s\<lparr>rs_queues := map_put (en_PeerID e)
                                \<lparr>rq_items = items, rq_seen = insert (en_EventID e) seen, rq_order = order\<rparr> (rs_queues s)\<rparr>))))))"

definition relay_Poll :: "string \<Rightarrow> relay_store \<Rightarrow> relay_envelope list \<times> relay_store" where
  "relay_Poll peerID s =
     (case map_of (rs_queues s) peerID of
        None \<Rightarrow> ([], s)
      | Some q \<Rightarrow> (rq_items q, s\<lparr>rs_queues := map_put peerID (q\<lparr>rq_items := []\<rparr>) (rs_queues s)\<rparr>))"

definition QueueDepth :: "relay_store \<Rightarrow> nat" where
  "QueueDepth s = sum_list (map (\<lambda>(p, q). length (rq_items q)) (rs_queues s))"

definition relay_Shutdown :: "relay_store \<Rightarrow> nat \<times> relay_store" where
  "relay_Shutdown s = (QueueDepth s, s\<lparr>rs_queues := [], rs_closed := True\<rparr>)"

definition relay_Connect ::
    "string \<Rightarrow> instant \<Rightarrow> string \<Rightarrow> transport_type \<Rightarrow> string \<Rightarrow> (string, string) gomap \<Rightarrow> relay_store \<Rightarrow> transport_error + connection" where
  "relay_Connect newID now target tt tenantID metadata s =
     (if tt \<noteq> TransportOf [] \<and> tt \<noteq> TransportRelay then Inl ErrTransportMismatch
      else if target = [] then Inl ErrConnectionFailed
      else if rs_closed s then Inl ErrConnectionClosed
      else Inr \<lparr>cn_ID = newID, cn_TransportType = TransportRelay, cn_Peer = target, cn_TenantID = tenantID, cn_Metadata = metadata,
                cn_State = StateActive, cn_EstablishedAt = now, cn_LastActivity = now, cn_SequenceWatermark = 0\<rparr>)"

definition relay_Send ::
    "(message \<Rightarrow> string) \<Rightarrow> int \<Rightarrow> connection option \<Rightarrow> message option \<Rightarrow> relay_store \<Rightarrow> transport_error option \<times> relay_store" where
  "relay_Send hash nowMs conn msg s =
     (case conn of
        None \<Rightarrow> (Some ErrConnectionClosed, s)
      | Some c \<Rightarrow>
        if cn_State c \<noteq> StateActive then (Some ErrConnectionClosed, s)
        else store_Enqueue hash nowMs (Some \<lparr>en_EventID = (case msg of None \<Rightarrow> [] | Some m \<Rightarrow> hash m), en_PeerID = cn_Peer c,
               en_EnqueuedAt = 0, en_Message = msg\<rparr>) s)"

definition relay_Health :: "relay_store \<Rightarrow> transport_error option" where
  "relay_Health s = (if rs_closed s then Some ErrConnectionClosed else None)"

section \<open>Delivery\<close>

text \<open>
  Calls on the service, and what they mean for one peer: the events accepted for it and the
  events its polls returned.
\<close>

datatype relay_op = RelayEnqueue int "relay_envelope option" | RelayPoll string

fun relay_step :: "(message \<Rightarrow> string) \<Rightarrow> relay_op \<Rightarrow> relay_store \<Rightarrow> relay_store" where
  "relay_step hash (RelayEnqueue nowMs e) s = snd (store_Enqueue hash nowMs e s)"
| "relay_step hash (RelayPoll p) s = snd (relay_Poll p s)"

definition peer_queue :: "string \<Rightarrow> relay_store \<Rightarrow> relay_peer_queue" where
  "peer_queue p s = map_get \<lparr>rq_items = [], rq_seen = {}, rq_order = []\<rparr> (rs_queues s) p"

definition event_of :: "(message \<Rightarrow> string) \<Rightarrow> relay_envelope \<Rightarrow> string" where
  "event_of hash e = (if en_EventID e = [] then (case en_Message e of Some m \<Rightarrow> hash m | None \<Rightarrow> []) else en_EventID e)"

fun accepted_event :: "(message \<Rightarrow> string) \<Rightarrow> string \<Rightarrow> relay_op \<Rightarrow> relay_store \<Rightarrow> string list" where
  "accepted_event hash p (RelayEnqueue nowMs (Some e)) s =
     (if en_PeerID e = p \<and> p \<noteq> [] \<and> en_Message e \<noteq> None \<and> \<not> rs_closed s \<and> event_of hash e \<notin> rq_seen (peer_queue p s)
      then [event_of hash e] else [])"
| "accepted_event hash p _ s = []"

fun polled_events :: "string \<Rightarrow> relay_op \<Rightarrow> relay_store \<Rightarrow> string list" where
  "polled_events p (RelayPoll p') s = (if p' = p then map en_EventID (fst (relay_Poll p s)) else [])"
| "polled_events p _ s = []"

fun relay_run :: "(message \<Rightarrow> string) \<Rightarrow> string \<Rightarrow> relay_op list \<Rightarrow> relay_store \<Rightarrow> string list \<times> string list \<times> relay_store" where
  "relay_run hash p [] s = ([], [], s)"
| "relay_run hash p (x # ops) s =
     (case relay_run hash p ops (relay_step hash x s) of
        (acc, polled, s') \<Rightarrow> (accepted_event hash p x s @ acc, polled_events p x s @ polled, s'))"

text \<open>
  The invariant ties a peer's queue to the events accepted and polled so far: the queue
  remembers the last \<open>capacity\<close> accepted events, which are distinct, and holds the newest ones.
\<close>

definition last_n :: "nat \<Rightarrow> 'b list \<Rightarrow> 'b list" where
  "last_n n xs = drop (length xs - n) xs"

lemma shift_in_push: "0 < cap \<Longrightarrow> length xs \<le> cap \<Longrightarrow> shift_in cap x xs = push_bounded cap x xs"
  by (cases xs rule: rev_cases) (auto simp: shift_in_def push_bounded_def list_update_append)

lemma push_bounded_last_n: "0 < cap \<Longrightarrow> push_bounded cap x (last_n cap xs) = last_n cap (xs @ [x])"
  by (auto simp: push_bounded_def last_n_def tl_drop Suc_diff_le drop_Suc)

definition relay_inv :: "string \<Rightarrow> string list \<Rightarrow> string list \<Rightarrow> relay_store \<Rightarrow> bool" where
  "relay_inv p acc polled s \<longleftrightarrow> 0 < rs_capacity s \<and>
     rq_order (peer_queue p s) = last_n (rs_capacity s) acc \<and> distinct (last_n (rs_capacity s) acc) \<and>
     rq_seen (peer_queue p s) = set (last_n (rs_capacity s) acc) \<and>
     suffix (map en_EventID (rq_items (peer_queue p s))) acc \<and> length (rq_items (peer_queue p s)) \<le> rs_capacity s \<and>
     subseq (polled @ map en_EventID (rq_items (peer_queue p s))) acc \<and>
     (length acc \<le> rs_capacity s \<longrightarrow> polled @ map en_EventID (rq_items (peer_queue p s)) = acc) \<and>
     (\<forall>i j. i < j \<longrightarrow> j < length acc \<longrightarrow> j \<le> i + rs_capacity s \<longrightarrow> acc ! i \<noteq> acc ! j)"


lemma peer_queue_put [simp]: "peer_queue p (s\<lparr>rs_queues := map_put p' q (rs_queues s)\<rparr>) = (if p = p' then q else peer_queue p s)"
  by (simp add: peer_queue_def)

lemma store_Enqueue_effect:
  assumes "relay_step hash (RelayEnqueue nowMs env) s = s'"
  shows "accepted_event hash p (RelayEnqueue nowMs env) s = [] \<Longrightarrow> peer_queue p s' = peer_queue p s"
    and "accepted_event hash p (RelayEnqueue nowMs env) s = [ev] \<Longrightarrow> ev \<notin> rq_seen (peer_queue p s) \<and>
      (\<exists>c. en_EventID c = ev \<and> peer_queue p s' =
        \<lparr>rq_items = shift_in (rs_capacity s) c (rq_items (peer_queue p s)),
         rq_seen = insert ev (if length (rq_order (peer_queue p s)) = rs_capacity s then rq_seen (peer_queue p s) - {hd (rq_order (peer_queue p s))}
           else rq_seen (peer_queue p s)),
         rq_order = shift_in (rs_capacity s) ev (rq_order (peer_queue p s))\<rparr>)"
    and "rs_capacity s' = rs_capacity s"
proof -
  show "peer_queue p s' = peer_queue p s" if "accepted_event hash p (RelayEnqueue nowMs env) s = []"
    using that assms by (cases env) (auto simp: store_Enqueue_def Let_def event_of_def peer_queue_def split: option.splits if_splits)
  show "ev \<notin> rq_seen (peer_queue p s) \<and>
      (\<exists>c. en_EventID c = ev \<and> peer_queue p s' =
        \<lparr>rq_items = shift_in (rs_capacity s) c (rq_items (peer_queue p s)),
         rq_seen = insert ev (if length (rq_order (peer_queue p s)) = rs_capacity s then rq_seen (peer_queue p s) - {hd (rq_order (peer_queue p s))}
           else rq_seen (peer_queue p s)),
         rq_order = shift_in (rs_capacity s) ev (rq_order (peer_queue p s))\<rparr>)"
    if acc: "accepted_event hash p (RelayEnqueue nowMs env) s = [ev]"
  proof (cases env)
    case (Some e)
    let ?c = "e\<lparr>en_EventID := ev, en_EnqueuedAt := (if en_EnqueuedAt e = 0 then nowMs else en_EnqueuedAt e)\<rparr>"
    have a: "en_PeerID e = p" "p \<noteq> []" "en_Message e \<noteq> None" "\<not> rs_closed s" "event_of hash e \<notin> rq_seen (peer_queue p s)" "ev = event_of hash e"
      using acc Some by (auto split: if_splits)
    then obtain m where m: "en_Message e = Some m" by auto
    have "e\<lparr>en_EventID := (if en_EventID e = [] then hash m else en_EventID e)\<rparr> = e\<lparr>en_EventID := ev\<rparr>" using a(6) m by (simp add: event_of_def)
    then have "peer_queue p s' = \<lparr>rq_items = shift_in (rs_capacity s) ?c (rq_items (peer_queue p s)),
         rq_seen = insert ev (if length (rq_order (peer_queue p s)) = rs_capacity s then rq_seen (peer_queue p s) - {hd (rq_order (peer_queue p s))}
           else rq_seen (peer_queue p s)),
         rq_order = shift_in (rs_capacity s) ev (rq_order (peer_queue p s))\<rparr>"
      using assms Some a m by (auto simp: store_Enqueue_def Let_def peer_queue_def cong: if_cong)
    moreover have "en_EventID ?c = ev" by simp
    ultimately show ?thesis using a(5,6) by blast
  qed (use acc in simp)
  show "rs_capacity s' = rs_capacity s"
    using assms by (auto simp: store_Enqueue_def Let_def split: option.splits if_splits)
qed

lemma map_push_bounded: "map f (push_bounded c x xs) = push_bounded c (f x) (map f xs)"
  by (simp add: push_bounded_def map_tl)

lemma suffix_push: "suffix xs ys \<Longrightarrow> suffix (push_bounded c x xs) (ys @ [x])"
  by (cases xs) (auto simp: push_bounded_def suffix_def)

lemma subseq_push: "subseq (ps @ xs) ys \<Longrightarrow> subseq (ps @ push_bounded c x xs) (ys @ [x])"
proof -
  assume "subseq (ps @ xs) ys"
  moreover have "subseq (ps @ tl xs) (ps @ xs)" by (cases xs) (auto simp: subseq_append_iff)
  ultimately have "subseq (ps @ tl xs) ys" by (rule subseq_order.order_trans [rotated])
  then show ?thesis using \<open>subseq (ps @ xs) ys\<close> by (auto simp: push_bounded_def simp flip: append_assoc)
qed

lemma relay_inv_accept:
  assumes inv: "relay_inv p acc polled s" and new: "ev \<notin> rq_seen (peer_queue p s)" and cap: "rs_capacity s' = rs_capacity s"
    and q: "peer_queue p s' = \<lparr>rq_items = shift_in (rs_capacity s) c (rq_items (peer_queue p s)),
         rq_seen = insert ev (if length (rq_order (peer_queue p s)) = rs_capacity s then rq_seen (peer_queue p s) - {hd (rq_order (peer_queue p s))}
           else rq_seen (peer_queue p s)),
         rq_order = shift_in (rs_capacity s) ev (rq_order (peer_queue p s))\<rparr>"
    and c: "en_EventID c = ev"
  shows "relay_inv p (acc @ [ev]) polled s'"
proof -
  let ?n = "rs_capacity s" and ?o = "rq_order (peer_queue p s)" and ?i = "map en_EventID (rq_items (peer_queue p s))"
  have n: "0 < ?n" "?o = last_n ?n acc" "distinct ?o" "rq_seen (peer_queue p s) = set ?o" "suffix ?i acc" "length ?i \<le> ?n"
    "subseq (polled @ ?i) acc" "length acc \<le> ?n \<longrightarrow> polled @ ?i = acc"
    and win: "\<And>i j. i < j \<Longrightarrow> j < length acc \<Longrightarrow> j \<le> i + ?n \<Longrightarrow> acc ! i \<noteq> acc ! j"
    using inv by (auto simp: relay_inv_def)
  have len: "length ?o \<le> ?n" using n(2) by (simp add: last_n_def)
  have o': "rq_order (peer_queue p s') = push_bounded ?n ev ?o" using q shift_in_push [OF n(1) len] by simp
  have i': "map en_EventID (rq_items (peer_queue p s')) = push_bounded ?n ev ?i"
    using q shift_in_push [OF n(1), of "rq_items (peer_queue p s)"] n(6) c by (simp add: map_push_bounded)
  have new': "ev \<notin> set ?o" using new n(4) by simp
  have "rq_order (peer_queue p s') = last_n ?n (acc @ [ev])" using o' n(2) push_bounded_last_n [OF n(1)] by simp
  moreover have "distinct (push_bounded ?n ev ?o)" using n(3) new' by (cases ?o) (auto simp: push_bounded_def)
  moreover have "rq_seen (peer_queue p s') = set (push_bounded ?n ev ?o)"
    using q n(1,3,4) by (cases ?o) (auto simp: push_bounded_def)
  moreover have "suffix (push_bounded ?n ev ?i) (acc @ [ev])" using n(5) by (rule suffix_push)
  moreover have "length (push_bounded ?n ev ?i) \<le> ?n" using n(1,6) by (auto simp: push_bounded_def)
  moreover have "subseq (polled @ push_bounded ?n ev ?i) (acc @ [ev])" using n(7) by (rule subseq_push)
  moreover have "polled @ push_bounded ?n ev ?i = acc @ [ev]" if "length (acc @ [ev]) \<le> ?n"
  proof -
    from that have eq: "polled @ ?i = acc" using n(8) by simp
    then have "length ?i < ?n" using that by (metis Suc_le_eq le_add2 le_trans length_append_singleton length_append not_less_eq_eq)
    then show ?thesis using eq by (simp add: push_bounded_def flip: append_assoc)
  qed
  moreover have "(acc @ [ev]) ! i \<noteq> (acc @ [ev]) ! j" if "i < j" "j < length (acc @ [ev])" "j \<le> i + ?n" for i j
  proof (cases "j < length acc")
    case True
    then show ?thesis using win that by (simp add: nth_append)
  next
    case False
    then have j: "j = length acc" "i < length acc" using that by auto
    have "acc ! i \<in> set (last_n ?n acc)"
    proof -
      have "length acc - ?n \<le> i" using that(3) j by linarith
      then have "acc ! i = last_n ?n acc ! (i - (length acc - ?n))" "i - (length acc - ?n) < length (last_n ?n acc)"
        using j by (auto simp: last_n_def)
      then show ?thesis by simp
    qed
    then show ?thesis using j new' n(2) by (auto simp: nth_append)
  qed
  ultimately show ?thesis using n(1) o' i' length_map [of en_EventID "rq_items (peer_queue p s')"] unfolding relay_inv_def cap
    by metis
qed


lemma accepted_event_cases: "accepted_event hash p x s = [] \<or> (\<exists>ev. accepted_event hash p x s = [ev])"
  by (induction hash p x s rule: accepted_event.induct) simp_all

lemma relay_inv_same:
  "relay_inv p acc polled s \<Longrightarrow> peer_queue p s' = peer_queue p s \<Longrightarrow> rs_capacity s' = rs_capacity s \<Longrightarrow> relay_inv p acc polled s'"
  by (simp add: relay_inv_def)

lemma relay_inv_step:
  assumes "relay_inv p acc polled s"
  shows "relay_inv p (acc @ accepted_event hash p x s) (polled @ polled_events p x s) (relay_step hash x s)"
proof (cases x)
  case (RelayEnqueue nowMs e)
  note eff = store_Enqueue_effect [of hash nowMs e s, OF refl, folded RelayEnqueue]
  show ?thesis
  proof (cases "accepted_event hash p x s")
    case Nil
    with eff(1,3) relay_inv_same [OF assms] show ?thesis by (simp add: RelayEnqueue)
  next
    case (Cons ev evs)
    then have acc: "accepted_event hash p x s = [ev]" using accepted_event_cases [of hash p x s] by auto
    from eff(2) [OF acc] obtain c where "ev \<notin> rq_seen (peer_queue p s)" "en_EventID c = ev" and
      q: "peer_queue p (relay_step hash x s) = \<lparr>rq_items = shift_in (rs_capacity s) c (rq_items (peer_queue p s)),
         rq_seen = insert ev (if length (rq_order (peer_queue p s)) = rs_capacity s then rq_seen (peer_queue p s) - {hd (rq_order (peer_queue p s))}
           else rq_seen (peer_queue p s)),
         rq_order = shift_in (rs_capacity s) ev (rq_order (peer_queue p s))\<rparr>" by blast
    from relay_inv_accept [OF assms this(1) eff(3) q this(2)] show ?thesis by (simp add: acc) (simp add: RelayEnqueue)
  qed
next
  case (RelayPoll p')
  have cap: "rs_capacity (relay_step hash x s) = rs_capacity s"
    by (simp add: RelayPoll relay_Poll_def split: option.split)
  show ?thesis
  proof (cases "p' = p \<and> map_of (rs_queues s) p \<noteq> None")
    case True
    then obtain q where q: "map_of (rs_queues s) p = Some q" by auto
    then have pq: "peer_queue p s = q" by (simp add: peer_queue_def map_get_def)
    have "peer_queue p (relay_step hash x s) = q\<lparr>rq_items := []\<rparr>" "polled_events p x s = map en_EventID (rq_items q)"
      using True q by (simp_all add: RelayPoll relay_Poll_def)
    then show ?thesis using assms cap pq by (simp add: relay_inv_def RelayPoll)
  next
    case False
    then have "peer_queue p (relay_step hash x s) = peer_queue p s" "polled_events p x s = []"
      by (auto simp: RelayPoll relay_Poll_def split: option.split)
    then show ?thesis using relay_inv_same [OF assms] cap by (simp add: RelayPoll)
  qed
qed

lemma relay_run_inv:
  "relay_inv p acc0 polled0 s \<Longrightarrow> relay_run hash p ops s = (acc, polled, s') \<Longrightarrow> relay_inv p (acc0 @ acc) (polled0 @ polled) s'"
proof (induction ops arbitrary: acc0 polled0 s acc polled)
  case (Cons x ops)
  obtain a b where r: "relay_run hash p ops (relay_step hash x s) = (a, b, s')" "acc = accepted_event hash p x s @ a" "polled = polled_events p x s @ b"
    using Cons.prems(2) by (auto split: prod.splits)
  from Cons.IH [OF relay_inv_step [OF Cons.prems(1)] r(1)] r(2,3) show ?case by simp
qed simp

lemma relay_delivers_once_in_order_parts:
  assumes "relay_run hash p ops (NewRelayStore capacities) = (accepted, polled, s)"
  shows "subseq (polled @ map en_EventID (rq_items (peer_queue p s))) accepted"
    and "length accepted \<le> rs_capacity s \<Longrightarrow> polled @ map en_EventID (rq_items (peer_queue p s)) = accepted"
    and "length (rq_items (peer_queue p s)) \<le> rs_capacity s"
    and "i < j \<Longrightarrow> j < length accepted \<Longrightarrow> j \<le> i + rs_capacity s \<Longrightarrow> accepted ! i \<noteq> accepted ! j"
proof -
  have "relay_inv p [] [] (NewRelayStore capacities)"
    by (auto simp: relay_inv_def peer_queue_def NewRelayStore_def last_n_def split: list.split)
  from relay_run_inv [OF this assms]
  show "subseq (polled @ map en_EventID (rq_items (peer_queue p s))) accepted"
    "length accepted \<le> rs_capacity s \<Longrightarrow> polled @ map en_EventID (rq_items (peer_queue p s)) = accepted"
    "length (rq_items (peer_queue p s)) \<le> rs_capacity s"
    "i < j \<Longrightarrow> j < length accepted \<Longrightarrow> j \<le> i + rs_capacity s \<Longrightarrow> accepted ! i \<noteq> accepted ! j"
    by (simp_all add: relay_inv_def)
qed

text \<open>
  C15: What a peer polls from the relay is a subsequence of the events accepted for it, in
  order, and, with what is still queued, all of them as long as no more than \<open>capacity\<close> events
  were accepted; the queue never exceeds the capacity; and an event is not accepted again
  within the next \<open>capacity\<close> accepted events, polled or not.
\<close>

theorem relay_delivers_once_in_order:
  assumes "relay_run hash p ops (NewRelayStore capacities) = (accepted, polled, s)"
  shows "subseq (polled @ map en_EventID (rq_items (peer_queue p s))) accepted \<and>
    (length accepted \<le> rs_capacity s \<longrightarrow> polled @ map en_EventID (rq_items (peer_queue p s)) = accepted) \<and>
    length (rq_items (peer_queue p s)) \<le> rs_capacity s \<and>
    (\<forall>i j. i < j \<longrightarrow> j < length accepted \<longrightarrow> j \<le> i + rs_capacity s \<longrightarrow> accepted ! i \<noteq> accepted ! j)"
  using relay_delivers_once_in_order_parts [OF assms] by blast

definition demo_envelope :: "string \<Rightarrow> relay_envelope option" where
  "demo_envelope i = Some \<lparr>en_EventID = i, en_PeerID = ''p'', en_EnqueuedAt = 0, en_Message = Some demo_message\<rparr>"

theorem relay_delivers_once_in_order_witness:
  "let (accepted, polled, s) = relay_run (\<lambda>_. ''h'') ''p''
         [RelayEnqueue 1 (demo_envelope ''a''), RelayEnqueue 2 (demo_envelope ''b''), RelayPoll ''p'', RelayEnqueue 3 (demo_envelope ''a'')]
         (NewRelayStore [2])
   in accepted = [''a'', ''b''] \<and> polled @ map en_EventID (rq_items (peer_queue ''p'' s)) = accepted"
proof -
  let ?r = "relay_run (\<lambda>_. ''h'') ''p''
         [RelayEnqueue 1 (demo_envelope ''a''), RelayEnqueue 2 (demo_envelope ''b''), RelayPoll ''p'', RelayEnqueue 3 (demo_envelope ''a'')]
         (NewRelayStore [2])"
  obtain accepted polled s where r: "?r = (accepted, polled, s)" by (metis prod_cases3)
  have "fst ?r = [''a'', ''b'']" "rs_capacity (snd (snd ?r)) = 2" by code_simp+
  then have "accepted = [''a'', ''b'']" "rs_capacity s = 2" unfolding r by simp_all
  with relay_delivers_once_in_order [OF r] show ?thesis unfolding r by simp
qed

end
