(* ===== verification/Iteration_Model.thy ===== *)
theory Iteration_Model
  imports Card_Store
begin

text \<open>
  Iteration cards (\<open>internal/card/iteration\<close>), the cards an agent keeps of its work: their
  vocabulary (\<open>models.go\<close>), the validators of card data, events and feedback (\<open>validate.go\<close>)
  and the reducer that folds an event into the card data (\<open>reducer.go\<close>). A decoded JSON
  object is a map from member names; the order of members in re-encoded text is not modelled.
  Numbers decode to rationals. The functions of the identifier package are the record
  \<open>iteration_lib\<close>, with the length of the text a raw JSON value was read from, which the value
  does not determine. A conversion of a number outside the 64-bit range, which Go
  leaves to the machine, gives the smallest integer.
\<close>

section \<open>Vocabulary\<close>

record iteration_lib =
  il_String :: "uuid \<Rightarrow> string"
  il_Parse :: "string \<Rightarrow> uuid option"
  il_Version :: "uuid \<Rightarrow> int"
  il_Length :: "raw_message \<Rightarrow> nat"

datatype iteration_subtype = SubtypeSearch | SubtypeCodeExec | SubtypeFileRead | SubtypeThinking | SubtypeToolCall

fun subtype_text :: "iteration_subtype \<Rightarrow> string" where
  "subtype_text SubtypeSearch = ''iteration_search''"
| "subtype_text SubtypeCodeExec = ''iteration_code_exec''"
| "subtype_text SubtypeFileRead = ''iteration_file_read''"
| "subtype_text SubtypeThinking = ''iteration_thinking''"
| "subtype_text SubtypeToolCall = ''iteration_tool_call''"

text \<open>\<open>ValidateSubtype\<close>: the text of a subtype outside the closed list is refused.\<close>

definition ValidateSubtype :: "string \<Rightarrow> iteration_subtype option" where
  "ValidateSubtype s = find (\<lambda>x. subtype_text x = s) [SubtypeSearch, SubtypeCodeExec, SubtypeFileRead, SubtypeThinking, SubtypeToolCall]"

datatype iteration_state = StRunning | StWaitingForUser | StCompleted | StFailed | StCancelled | StInterrupted

fun state_text :: "iteration_state \<Rightarrow> string" where
  "state_text StRunning = ''running''"
| "state_text StWaitingForUser = ''waiting_for_user''"
| "state_text StCompleted = ''completed''"
| "state_text StFailed = ''failed''"
| "state_text StCancelled = ''cancelled''"
| "state_text StInterrupted = ''interrupted''"

definition state_of :: "string \<Rightarrow> iteration_state option" where
  "state_of s = find (\<lambda>x. state_text x = s) [StRunning, StWaitingForUser, StCompleted, StFailed, StCancelled, StInterrupted]"

definition isTerminalState :: "iteration_state \<Rightarrow> bool" where
  "isTerminalState s \<longleftrightarrow> s = StCompleted \<or> s = StFailed \<or> s = StCancelled"

record iteration_data =
  id_Subtype :: iteration_subtype
  id_Title :: string
  id_State :: iteration_state
  id_AgentID :: string

section \<open>Decoded objects\<close>

type_synonym jobj = "(string, json) gomap"

definition decode_map :: "(string \<times> json) list \<Rightarrow> jobj" where
  "decode_map members = fold (\<lambda>(k, v) m. map_put k v m) members []"

definition as_object :: "json \<Rightarrow> jobj option" where
  "as_object v = (case v of JObj members \<Rightarrow> Some (decode_map members) | _ \<Rightarrow> None)"

definition decodeObject :: "raw_message \<Rightarrow> jobj option" where
  "decodeObject raw = (case raw of RawJSON v \<Rightarrow> as_object v | _ \<Rightarrow> None)"

definition stringField :: "jobj \<Rightarrow> string \<Rightarrow> string option" where
  "stringField obj name = (case map_of obj name of Some (JStr s) \<Rightarrow> Some s | _ \<Rightarrow> None)"

definition is_int64 :: "rat \<Rightarrow> bool" where
  "is_int64 r \<longleftrightarrow> r = of_int \<lfloor>r\<rfloor> \<and> int64_min \<le> \<lfloor>r\<rfloor> \<and> \<lfloor>r\<rfloor> \<le> int64_max"

definition intField :: "jobj \<Rightarrow> string \<Rightarrow> int option" where
  "intField obj name = (case map_of obj name of Some (JNum r) \<Rightarrow> if 0 \<le> r \<and> is_int64 r then Some \<lfloor>r\<rfloor> else None | _ \<Rightarrow> None)"

definition requireFields :: "jobj \<Rightarrow> string list \<Rightarrow> bool" where
  "requireFields obj names \<longleftrightarrow> list_all (map_has obj) names"

section \<open>Absolute URLs\<close>

text \<open>
  \<open>url.Parse\<close>, as far as its error, scheme and host go: the scheme before the first colon, an
  authority after two slashes with user information, host and port, percent escapes.
\<close>

definition alpha :: "char \<Rightarrow> bool" where "alpha c \<longleftrightarrow> byte_in 65 90 c \<or> byte_in 97 122 c"
definition digit :: "char \<Rightarrow> bool" where "digit c \<longleftrightarrow> byte_in 48 57 c"
definition hex_char :: "char \<Rightarrow> bool" where "hex_char c \<longleftrightarrow> digit c \<or> byte_in 97 102 c \<or> byte_in 65 70 c"

definition cut_at :: "char \<Rightarrow> string \<Rightarrow> string \<times> string option" where
  "cut_at c s = (let r = dropWhile (\<lambda>x. x \<noteq> c) s in (takeWhile (\<lambda>x. x \<noteq> c) s, if r = [] then None else Some (tl r)))"

fun get_scheme :: "string \<Rightarrow> string \<Rightarrow> (string \<times> string) option" where
  "get_scheme acc [] = Some ([], rev acc)"
| "get_scheme acc (c # s) =
     (if alpha c \<or> (acc \<noteq> [] \<and> (digit c \<or> c \<in> set ''+-.'')) then get_scheme (c # acc) s
      else if c = CHR '':'' then if acc = [] then None else Some (rev acc, s)
      else Some ([], rev acc @ c # s))"

definition lower :: "string \<Rightarrow> string" where
  "lower s = map (\<lambda>c. if byte_in 65 90 c then char_of (of_char c + 32 :: nat) else c) s"

text \<open>\<open>ok\<close> says which unescaped bytes are legal, \<open>esc\<close> which escapes.\<close>

fun escapes_ok :: "(char \<Rightarrow> bool) \<Rightarrow> (char \<Rightarrow> char \<Rightarrow> bool) \<Rightarrow> string \<Rightarrow> bool" where
  "escapes_ok ok esc [] = True"
| "escapes_ok ok esc (c # s) =
     (if c = CHR ''%'' then (case s of a # b # r \<Rightarrow> hex_char a \<and> hex_char b \<and> esc a b \<and> escapes_ok ok esc r | _ \<Rightarrow> False)
      else ok c \<and> escapes_ok ok esc s)"

definition plain_host_byte :: "char \<Rightarrow> bool" where
  "plain_host_byte c \<longleftrightarrow> alpha c \<or> digit c \<or> c \<in> set (CHR 0x22 # ''-_.~!$&()*+,;=:[]<>'') \<or> c = CHR 0x27"

definition host_byte :: "char \<Rightarrow> bool" where
  "host_byte c \<longleftrightarrow> \<not> byte_in 0 127 c \<or> plain_host_byte c"

definition valid_optional_port :: "string \<Rightarrow> bool" where
  "valid_optional_port p \<longleftrightarrow> (case p of [] \<Rightarrow> True | c # ds \<Rightarrow> c = CHR '':'' \<and> list_all digit ds)"

definition last_index :: "char \<Rightarrow> string \<Rightarrow> nat option" where
  "last_index c s = (case dropWhile (\<lambda>x. x \<noteq> c) (rev s) of [] \<Rightarrow> None | r \<Rightarrow> Some (length r - 1))"

text \<open>
  A host escape is a non-ASCII byte or the percent sign, an escape in the zone of an address
  the percent sign, a space or a host byte.
\<close>

definition host_escape :: "char \<Rightarrow> char \<Rightarrow> bool" where
  "host_escape a b \<longleftrightarrow> \<not> byte_in 48 55 a \<or> (a = CHR ''2'' \<and> b = CHR ''5'')"

definition hex_val :: "char \<Rightarrow> nat" where
  "hex_val c = (if digit c then of_char c - 48 else if byte_in 97 102 c then of_char c - 87 else of_char c - 55)"

definition zone_escape :: "char \<Rightarrow> char \<Rightarrow> bool" where
  "zone_escape a b \<longleftrightarrow> (let v = 16 * hex_val a + hex_val b in v = 37 \<or> v = 32 \<or> plain_host_byte (char_of v))"

fun find_sub :: "string \<Rightarrow> string \<Rightarrow> nat option" where
  "find_sub p [] = (if p = [] then Some 0 else None)"
| "find_sub p (c # s) = (if starts_with p (c # s) then Some 0 else map_option Suc (find_sub p s))"

definition valid_host :: "string \<Rightarrow> bool" where
  "valid_host h \<longleftrightarrow>
     (if starts_with ''['' h then
        (case last_index (CHR '']'') h of None \<Rightarrow> False
         | Some i \<Rightarrow> valid_optional_port (drop (Suc i) h) \<and>
             (case find_sub ''%25'' (take i h) of
                None \<Rightarrow> escapes_ok host_byte host_escape h
              | Some z \<Rightarrow> escapes_ok host_byte host_escape (take z h) \<and> escapes_ok host_byte zone_escape (drop z (take i h)) \<and>
                  escapes_ok host_byte host_escape (drop i h)))
      else (case last_index (CHR '':'') h of None \<Rightarrow> True | Some i \<Rightarrow> valid_optional_port (drop i h)) \<and>
           escapes_ok host_byte host_escape h)"

definition valid_userinfo :: "string \<Rightarrow> bool" where
  "valid_userinfo u \<longleftrightarrow> list_all (\<lambda>c. alpha c \<or> digit c \<or> c \<in> set ''-._:~!$&()*+,;=%@'' \<or> c = CHR 0x27) u \<and>
     (case cut_at (CHR '':'') u of (a, b) \<Rightarrow> escapes_ok (\<lambda>_. True) (\<lambda>_ _. True) a \<and>
        (case b of None \<Rightarrow> True | Some p \<Rightarrow> escapes_ok (\<lambda>_. True) (\<lambda>_ _. True) p))"

definition parse_authority :: "string \<Rightarrow> string option" where
  "parse_authority a =
     (case last_index (CHR ''@'') a of
        None \<Rightarrow> if valid_host a then Some a else None
      | Some i \<Rightarrow> if valid_host (drop (Suc i) a) \<and> valid_userinfo (take i a) then Some (drop (Suc i) a) else None)"

text \<open>The scheme in lower case and the host, empty without an authority.\<close>

definition url_Parse :: "string \<Rightarrow> (string \<times> string) option" where
  "url_Parse raw =
     (let (u, frag) = cut_at (CHR ''#'') raw;
          fragOK = (case frag of None \<Rightarrow> True | Some f \<Rightarrow> escapes_ok (\<lambda>_. True) (\<lambda>_ _. True) f)
      in if list_ex (\<lambda>c. byte_in 0 31 c \<or> byte_in 127 127 c) u \<or> \<not> fragOK then None
         else case get_scheme [] u of None \<Rightarrow> None
         | Some (scheme, rest0) \<Rightarrow>
           (let rest = fst (cut_at (CHR ''?'') rest0) in
            if u = ''*'' then Some ([], [])
            else if \<not> starts_with ''/'' rest then
              (if scheme \<noteq> [] then Some (lower scheme, [])
               else if CHR '':'' \<in> set (fst (cut_at (CHR ''/'') rest)) then None
               else if escapes_ok (\<lambda>_. True) (\<lambda>_ _. True) rest then Some ([], []) else None)
            else if starts_with ''//'' rest \<and> (scheme \<noteq> [] \<or> \<not> starts_with ''///'' rest) then
              (let (authority, path) = cut_at (CHR ''/'') (drop 2 rest)
               in case parse_authority authority of None \<Rightarrow> None
                  | Some host \<Rightarrow> if escapes_ok (\<lambda>_. True) (\<lambda>_ _. True) (case path of None \<Rightarrow> [] | Some p \<Rightarrow> p)
                                 then Some (lower scheme, host) else None)
            else if escapes_ok (\<lambda>_. True) (\<lambda>_ _. True) rest then Some (lower scheme, []) else None))"

lemma url_Parse_examples:
  "url_Parse ''HTTPS://user@example.org:80/a?b#c'' = Some (''https'', ''example.org:80'')"
  "url_Parse ''http://example.org:x/'' = None" "url_Parse ''http://a/%zz'' = None"
  "url_Parse ''mailto:a@b'' = Some (''mailto'', [])" "url_Parse '':a'' = None"
  by code_simp+

section \<open>Validators\<close>

definition id_char :: "char \<Rightarrow> bool" where
  "id_char c \<longleftrightarrow> byte_in 65 90 c \<or> byte_in 97 122 c \<or> byte_in 48 57 c \<or> c \<in> set ''._:-''"

definition agentIDPattern :: "string \<Rightarrow> bool" where
  "agentIDPattern s \<longleftrightarrow> 1 \<le> length s \<and> length s \<le> 128 \<and> list_all id_char s"

definition uuidV7Pattern :: "string \<Rightarrow> bool" where
  "uuidV7Pattern s \<longleftrightarrow> length s = 36 \<and>
     list_all (\<lambda>(i, c). if i \<in> {8, 13, 18, 23} then c = CHR ''-''
                        else if i = 14 then c = CHR ''7''
                        else if i = 19 then c \<in> set ''89abAB''
                        else hex_char c) (zip [0..<36] s)"

definition validateUUIDv7String :: "iteration_lib \<Rightarrow> string \<Rightarrow> bool" where
  "validateUUIDv7String lib value \<longleftrightarrow> uuidV7Pattern value \<and>
     (case il_Parse lib value of None \<Rightarrow> False | Some u \<Rightarrow> il_Version lib u = 7)"

definition validateUUIDv7 :: "iteration_lib \<Rightarrow> uuid \<Rightarrow> bool" where
  "validateUUIDv7 lib u \<longleftrightarrow> u \<noteq> uuid_Nil \<and> uuidV7Pattern (il_String lib u) \<and> il_Version lib u = 7"

definition valid_title :: "string option \<Rightarrow> bool" where
  "valid_title t = (case t of None \<Rightarrow> False | Some s \<Rightarrow> trim_space s \<noteq> [] \<and> rune_count s \<le> 160)"

definition progress_types :: "string list" where
  "progress_types = [''search'', ''code_exec'', ''file_read'', ''thinking'', ''tool_call'']"

definition progress_statuses :: "string list" where
  "progress_statuses = [''running'', ''completed'', ''failed'', ''cancelled'']"

definition validateProgress :: "iteration_lib \<Rightarrow> json option \<Rightarrow> bool" where
  "validateProgress lib value =
     (case value of None \<Rightarrow> False | Some v \<Rightarrow>
       (case as_object v of None \<Rightarrow> False | Some obj \<Rightarrow>
          requireFields obj [''cardId'', ''type'', ''title'', ''current'', ''total'', ''status'', ''updatedAt''] \<and>
          (case stringField obj ''cardId'' of None \<Rightarrow> False | Some s \<Rightarrow> validateUUIDv7String lib s) \<and>
          (case stringField obj ''type'' of None \<Rightarrow> False | Some s \<Rightarrow> s \<in> set progress_types) \<and>
          valid_title (stringField obj ''title'') \<and>
          (case (intField obj ''current'', intField obj ''total'') of
             (Some c, Some t) \<Rightarrow> \<not> (t > 0 \<and> c > t) | _ \<Rightarrow> False) \<and>
          (case stringField obj ''status'' of None \<Rightarrow> False | Some s \<Rightarrow> s \<in> set progress_statuses) \<and>
          (case stringField obj ''updatedAt'' of None \<Rightarrow> False | Some s \<Rightarrow> trim_space s \<noteq> [])))"

definition ValidateCardData :: "iteration_lib \<Rightarrow> raw_message \<Rightarrow> iteration_data option" where
  "ValidateCardData lib raw =
     (case decodeObject raw of None \<Rightarrow> None | Some obj \<Rightarrow>
       (case stringField obj ''subtype'' of None \<Rightarrow> None | Some subtypeValue \<Rightarrow>
         (case ValidateSubtype subtypeValue of None \<Rightarrow> None | Some subtype \<Rightarrow>
           if \<not> valid_title (stringField obj ''title'') then None
           else
             (case stringField obj ''state'' of None \<Rightarrow> None | Some stateValue \<Rightarrow>
               (case state_of stateValue of None \<Rightarrow> None | Some state \<Rightarrow>
                 (case stringField obj ''agentId'' of None \<Rightarrow> None | Some agentID \<Rightarrow>
                    if \<not> agentIDPattern agentID then None
                    else
                      (case stringField obj ''sessionId'' of None \<Rightarrow> None | Some sessionID \<Rightarrow>
                         if \<not> validateUUIDv7String lib sessionID then None
                         else if \<not> (case map_of obj ''topicId'' of None \<Rightarrow> True | Some JNull \<Rightarrow> True
                                     | Some (JStr t) \<Rightarrow> validateUUIDv7String lib t | Some _ \<Rightarrow> False) then None
                         else if \<not> validateProgress lib (map_of obj ''progress'') then None
                         else Some \<lparr>id_Subtype = subtype, id_Title = the (stringField obj ''title''),
                                    id_State = state, id_AgentID = agentID\<rparr>)))))))"

definition validateURL :: "string \<Rightarrow> bool" where
  "validateURL value \<longleftrightarrow>
     (case url_Parse value of None \<Rightarrow> False | Some (scheme, host) \<Rightarrow> host \<noteq> [] \<and> (scheme = ''http'' \<or> scheme = ''https'')) \<and>
     length value \<le> 4096"

fun allowed_events :: "iteration_subtype \<Rightarrow> string list" where
  "allowed_events SubtypeSearch = [''search_started'', ''url_discovered'', ''snippet_retrieved'', ''search_completed'', ''search_error'']"
| "allowed_events SubtypeCodeExec = [''exec_start'', ''exec_output'', ''exec_complete'', ''exec_error'']"
| "allowed_events SubtypeFileRead = [''file_read_opened'', ''file_read_content'', ''file_read_error'']"
| "allowed_events SubtypeThinking = [''thought_started'', ''thought_progress'', ''thought_complete'', ''thought_error'']"
| "allowed_events SubtypeToolCall = [''tool_call_started'', ''tool_call_result'', ''tool_call_error'']"

definition valid_step :: "jobj \<Rightarrow> bool" where
  "valid_step obj \<longleftrightarrow> (case stringField obj ''step_id'' of None \<Rightarrow> False | Some s \<Rightarrow> agentIDPattern s)"

definition short_field :: "jobj \<Rightarrow> string \<Rightarrow> nat \<Rightarrow> bool" where
  "short_field obj name bound \<longleftrightarrow> (case stringField obj name of None \<Rightarrow> False | Some s \<Rightarrow> length s \<le> bound)"

definition valid_url_field :: "jobj \<Rightarrow> bool" where
  "valid_url_field obj \<longleftrightarrow> (case stringField obj ''url'' of None \<Rightarrow> False | Some s \<Rightarrow> validateURL s)"

definition valid_event_fields :: "string \<Rightarrow> jobj \<Rightarrow> bool" where
  "valid_event_fields eventType obj =
     (if eventType = ''search_started'' then requireFields obj [''query'', ''batch_total''] \<and> intField obj ''batch_total'' \<noteq> None
      else if eventType = ''url_discovered'' then valid_url_field obj
      else if eventType = ''snippet_retrieved'' then
        requireFields obj [''url'', ''snippet_id'', ''snippet''] \<and> valid_url_field obj \<and> short_field obj ''snippet'' 16384
      else if eventType = ''search_completed'' then
        requireFields obj [''completed'', ''total''] \<and>
        (case (intField obj ''completed'', intField obj ''total'') of (Some c, Some t) \<Rightarrow> \<not> (t > 0 \<and> c > t) | _ \<Rightarrow> False)
      else if eventType = ''search_error'' then requireFields obj [''code'', ''message'']
      else if eventType = ''exec_start'' then requireFields obj [''command'', ''start_time'']
      else if eventType = ''exec_output'' then
        requireFields obj [''stream'', ''chunk'', ''offset''] \<and>
        (case stringField obj ''stream'' of None \<Rightarrow> False | Some s \<Rightarrow> s = ''stdout'' \<or> s = ''stderr'') \<and>
        short_field obj ''chunk'' 32768 \<and> intField obj ''offset'' \<noteq> None
      else if eventType = ''exec_complete'' then requireFields obj [''exit_code'', ''end_time'', ''cancelled'', ''duration_ms'']
      else if eventType = ''exec_error'' then requireFields obj [''code'', ''message'']
      else if eventType = ''file_read_opened'' then requireFields obj [''path'', ''absolute_path'', ''size'', ''mime_type'', ''language'']
      else if eventType = ''file_read_content'' then
        requireFields obj [''start_line'', ''end_line'', ''content'', ''line_count''] \<and>
        (case (intField obj ''start_line'', intField obj ''end_line'') of (Some s, Some e) \<Rightarrow> s \<noteq> 0 \<and> s \<le> e | _ \<Rightarrow> False)
      else if eventType = ''file_read_error'' then requireFields obj [''code'', ''message'']
      else if eventType = ''thought_started'' then requireFields obj [''step_id'', ''title''] \<and> valid_step obj
      else if eventType = ''thought_progress'' then
        requireFields obj [''step_id'', ''content''] \<and> valid_step obj \<and> short_field obj ''content'' 32768
      else if eventType = ''thought_complete'' then
        requireFields obj [''step_id'', ''duration_ms''] \<and> valid_step obj \<and> intField obj ''duration_ms'' \<noteq> None
      else if eventType = ''thought_error'' then requireFields obj [''step_id'', ''error''] \<and> valid_step obj
      else if eventType = ''tool_call_started'' then requireFields obj [''tool_name'', ''params'', ''start_time'', ''gated'']
      else if eventType = ''tool_call_result'' then requireFields obj [''result'', ''end_time'', ''duration_ms'']
      else if eventType = ''tool_call_error'' then requireFields obj [''code'', ''message'']
      else True)"

definition ValidateEventPair :: "iteration_subtype \<Rightarrow> string \<Rightarrow> raw_message \<Rightarrow> bool" where
  "ValidateEventPair subtype eventType raw =
     (case decodeObject raw of None \<Rightarrow> False | Some obj \<Rightarrow>
        if eventType = ''card_cancelled'' \<or> eventType = ''card_steered'' then True
        else eventType \<in> set (allowed_events subtype) \<and> valid_event_fields eventType obj)"

section \<open>The reducer\<close>

definition data_progress :: "jobj \<Rightarrow> jobj option" where
  "data_progress data = (case map_of data ''progress'' of None \<Rightarrow> None | Some v \<Rightarrow> as_object v)"

text \<open>Changing the progress object in place, when there is one.\<close>

definition on_progress :: "(jobj \<Rightarrow> jobj) \<Rightarrow> jobj \<Rightarrow> jobj" where
  "on_progress f data = (case data_progress data of None \<Rightarrow> data | Some p \<Rightarrow> map_put ''progress'' (JObj (f p)) data)"

definition setState :: "iteration_state \<Rightarrow> jobj \<Rightarrow> jobj" where
  "setState state data =
     on_progress (\<lambda>p.
       (let p1 = (if state = StCompleted then map_put ''status'' (JStr ''completed'') p
                  else if state = StFailed then map_put ''status'' (JStr ''failed'') p
                  else if state = StCancelled then map_put ''status'' (JStr ''cancelled'') p else p)
        in if isTerminalState state then map_del ''segmentStatus'' p1 else p1))
       (map_put ''state'' (JStr (state_text state)) data)"

definition json_of_int :: "int \<Rightarrow> json" where
  "json_of_int i = JNum (of_int i)"

definition setProgress :: "int \<Rightarrow> int \<Rightarrow> jobj \<Rightarrow> jobj" where
  "setProgress current total1 data =
     on_progress (\<lambda>p. map_put ''total'' (json_of_int total1) (map_put ''current'' (json_of_int current) p)) data"

definition numberField :: "jobj \<Rightarrow> string \<Rightarrow> int option" where
  "numberField event name = (case map_of event name of Some (JNum r) \<Rightarrow> if is_int64 r then Some \<lfloor>r\<rfloor> else None | _ \<Rightarrow> None)"

definition json_list :: "json option \<Rightarrow> json list" where
  "json_list v = (case v of Some (JArr xs) \<Rightarrow> xs | _ \<Rightarrow> [])"

definition field_or_null :: "jobj \<Rightarrow> string \<Rightarrow> json" where
  "field_or_null event name = (case map_of event name of None \<Rightarrow> JNull | Some v \<Rightarrow> v)"

definition reduce_search :: "string \<Rightarrow> jobj \<Rightarrow> jobj \<Rightarrow> jobj option" where
  "reduce_search eventType event data =
     (if eventType = ''search_started'' then
        (case numberField event ''batch_total'' of
           None \<Rightarrow> None
         | Some b \<Rightarrow> Some (setState StRunning (setProgress 0 b
             (map_put ''searchProgress'' (JObj [(''completed'', json_of_int 0), (''total'', json_of_int b)]) data))))
      else if eventType = ''url_discovered'' then
        (case stringField event ''url'' of
           None \<Rightarrow> None
         | Some url \<Rightarrow>
           (let urls = json_list (map_of data ''urlsSearched'')
            in Some (if JStr url \<in> set urls then data else map_put ''urlsSearched'' (JArr (urls @ [JStr url])) data)))
      else if eventType = ''snippet_retrieved'' then
        Some (map_put ''currentBatch'' (JArr (json_list (map_of data ''currentBatch'') @
          [JObj [(''url'', field_or_null event ''url''), (''snippet'', field_or_null event ''snippet''),
                 (''snippetId'', field_or_null event ''snippet_id''), (''status'', JStr ''retrieved'')]])) data)
      else if eventType = ''search_completed'' then
        (case (numberField event ''completed'', numberField event ''total'') of
           (Some c, Some t) \<Rightarrow>
             (let d = setProgress c t (map_put ''searchProgress'' (JObj [(''completed'', json_of_int c), (''total'', json_of_int t)]) data)
              in Some (if c \<ge> t then setState StCompleted d else d))
         | _ \<Rightarrow> None)
      else if eventType = ''search_error'' then Some (setState StFailed data)
      else Some data)"

definition json_true :: "json option \<Rightarrow> bool" where
  "json_true v \<longleftrightarrow> v = Some (JBool True)"

definition json_num :: "json option \<Rightarrow> rat" where
  "json_num v = (case v of Some (JNum r) \<Rightarrow> r | _ \<Rightarrow> 0)"

text \<open>\<open>int(f)\<close> of a decoded number.\<close>

definition go_int :: "rat \<Rightarrow> int" where
  "go_int r = (let t = (if r < 0 then \<lceil>r\<rceil> else \<lfloor>r\<rfloor>) in if int64_min \<le> t \<and> t \<le> int64_max then t else int64_min)"

definition run_progress :: "jobj \<Rightarrow> jobj" where
  "run_progress p = map_put ''status'' (JStr ''running'') p"

definition reduce_exec :: "string \<Rightarrow> jobj \<Rightarrow> jobj \<Rightarrow> jobj" where
  "reduce_exec eventType event data =
     (if eventType = ''exec_start'' \<or> eventType = ''exec_output'' then
        map_put ''state'' (JStr ''running'') (on_progress (\<lambda>p. map_del ''segmentStatus'' (run_progress p)) (setProgress 0 0 data))
      else if eventType = ''exec_complete'' then
        setState (if json_true (map_of event ''cancelled'') then StCancelled
                  else if json_num (map_of event ''exit_code'') \<noteq> 0 then StFailed else StCompleted) (setProgress 1 1 data)
      else if eventType = ''exec_error'' then setState StFailed data
      else data)"

definition reduce_file :: "string \<Rightarrow> jobj \<Rightarrow> jobj \<Rightarrow> jobj" where
  "reduce_file eventType event data =
     (if eventType = ''file_read_opened'' then
        map_put ''state'' (JStr ''running'') (on_progress run_progress (setProgress 0 0 data))
      else if eventType = ''file_read_content'' then
        (let lineCount = json_num (map_of event ''line_count'');
             v = go_int (json_num (map_of event ''end_line'') - json_num (map_of event ''start_line'') + 1);
             visible = (if v < 0 then 0 else v)
         in if lineCount > 0 then setProgress visible (go_int lineCount) data else setProgress visible 0 data)
      else if eventType = ''file_read_error'' then setState StFailed data
      else data)"

definition reduce_tool :: "string \<Rightarrow> jobj \<Rightarrow> jobj \<Rightarrow> jobj" where
  "reduce_tool eventType event data =
     (if eventType = ''tool_call_started'' then
        (let gated = json_true (map_of event ''gated'')
         in map_put ''state'' (JStr (if gated then ''waiting_for_user'' else ''running''))
              (on_progress (\<lambda>p. if gated then map_put ''segmentStatus'' (JStr ''pending_approval'') (run_progress p)
                                else map_del ''segmentStatus'' (run_progress p)) (setProgress 0 1 data)))
      else if eventType = ''tool_call_result'' then setState StCompleted (setProgress 1 1 data)
      else if eventType = ''tool_call_error'' then setState StFailed data
      else data)"

definition is_step :: "string \<Rightarrow> json \<Rightarrow> bool" where
  "is_step i v \<longleftrightarrow> (case as_object v of None \<Rightarrow> False | Some step \<Rightarrow> map_of step ''id'' = Some (JStr i))"

text \<open>The first step with the identifier, and replacing it.\<close>

fun update_step :: "string \<Rightarrow> (jobj \<Rightarrow> jobj) \<Rightarrow> json list \<Rightarrow> json list option" where
  "update_step i f [] = None"
| "update_step i f (v # vs) =
     (if is_step i v then Some (JObj (f (the (as_object v))) # vs)
      else (case update_step i f vs of None \<Rightarrow> None | Some vs' \<Rightarrow> Some (v # vs')))"

definition reduce_thinking :: "string \<Rightarrow> jobj \<Rightarrow> jobj \<Rightarrow> jobj option" where
  "reduce_thinking eventType event data =
     (let steps = json_list (map_of data ''steps'');
          stepID = (case stringField event ''step_id'' of Some s \<Rightarrow> s | None \<Rightarrow> []);
          store = (\<lambda>current steps'. map_put ''currentStepId'' current (map_put ''steps'' (JArr steps') data))
      in if eventType = ''thought_started'' then
           (case update_step stepID (map_put ''status'' (JStr ''active'')) steps of
              Some steps' \<Rightarrow> Some (store (JStr stepID) steps')
            | None \<Rightarrow> Some (store (JStr stepID) (steps @
                [JObj [(''id'', JStr stepID), (''title'', field_or_null event ''title''), (''status'', JStr ''active''),
                       (''content'', JNull), (''durationMs'', JNull), (''error'', JNull)]])))
         else if eventType = ''thought_progress'' then
           map_option (store (JStr stepID))
             (update_step stepID (\<lambda>s. map_put ''status'' (JStr ''active'') (map_put ''content'' (field_or_null event ''content'') s)) steps)
         else if eventType = ''thought_complete'' then
           map_option (store JNull)
             (update_step stepID (\<lambda>s. map_put ''error'' JNull (map_put ''durationMs'' (field_or_null event ''duration_ms'')
                (if map_has event ''content'' then map_put ''content'' (field_or_null event ''content'') (map_put ''status'' (JStr ''completed'') s)
                 else map_put ''status'' (JStr ''completed'') s))) steps)
         else if eventType = ''thought_error'' then
           map_option (\<lambda>steps'. setState StFailed (store JNull steps'))
             (update_step stepID (\<lambda>s.
                (let s1 = map_put ''error'' (field_or_null event ''error'') (map_put ''status'' (JStr ''failed'') s)
                 in if map_has event ''duration_ms'' then map_put ''durationMs'' (field_or_null event ''duration_ms'') s1 else s1)) steps)
         else Some data)"

definition reduce_lifecycle :: "string \<Rightarrow> jobj \<Rightarrow> jobj \<Rightarrow> jobj" where
  "reduce_lifecycle eventType event data =
     (let d1 = (if eventType = ''agent_error'' then setState StInterrupted data else data);
          d2 = (if eventType = ''agent_progress'' \<and> stringField event ''message'' = Some ''resumed'' then setState StRunning d1 else d1);
          d3 = (if eventType = ''card_cancelled'' then setState StCancelled d2 else d2)
      in if eventType = ''card_steered'' \<and> \<not> map_has d3 ''state'' then setState StRunning d3 else d3)"

definition phase_fields :: "jobj \<Rightarrow> jobj \<Rightarrow> jobj" where
  "phase_fields event p =
     (let p1 = (case stringField event ''phase'' of Some s \<Rightarrow> if s = [] then p else map_put ''phase'' (JStr s) p | None \<Rightarrow> p);
          p2 = (case map_of event ''phase_ordinal'' of
                  Some (JNum r) \<Rightarrow> if is_int64 r then map_put ''phaseOrdinal'' (json_of_int \<lfloor>r\<rfloor>) p1 else p1 | _ \<Rightarrow> p1)
      in case stringField event ''parent_card_id'' of Some s \<Rightarrow> if s = [] then p2 else map_put ''parentCardId'' (JStr s) p2 | None \<Rightarrow> p2)"

definition reduce_phase :: "jobj \<Rightarrow> jobj \<Rightarrow> jobj" where
  "reduce_phase event data = on_progress (phase_fields event) data"

definition reduce_subtype :: "iteration_subtype \<Rightarrow> string \<Rightarrow> jobj \<Rightarrow> jobj \<Rightarrow> jobj option" where
  "reduce_subtype subtype eventType event data =
     (case subtype of
        SubtypeSearch \<Rightarrow> reduce_search eventType event data
      | SubtypeCodeExec \<Rightarrow> Some (reduce_exec eventType event data)
      | SubtypeFileRead \<Rightarrow> Some (reduce_file eventType event data)
      | SubtypeToolCall \<Rightarrow> Some (reduce_tool eventType event data)
      | SubtypeThinking \<Rightarrow> reduce_thinking eventType event data)"

text \<open>The data and the event decode to objects: the callers validated both.\<close>

definition reduceEvent :: "raw_message \<Rightarrow> iteration_subtype \<Rightarrow> string \<Rightarrow> raw_message \<Rightarrow> raw_message option" where
  "reduceEvent current subtype eventType eventData =
     (case (decodeObject current, decodeObject eventData) of
        (Some data, Some event) \<Rightarrow>
          (case reduce_subtype subtype eventType event data of
             None \<Rightarrow> None
           | Some d \<Rightarrow> Some (RawJSON (JObj (reduce_phase event (reduce_lifecycle eventType event d)))))
      | _ \<Rightarrow> None)"

end
