(* ===== verification/Iteration_Reducer.thy ===== *)
theory Iteration_Reducer
  imports Iteration_Model
begin

text \<open>
  The reducer of iteration cards (\<open>reducer.go\<close>) against the lifecycle it implements: every
  event moves the state of a valid card as the abstract \<open>event_state\<close> says and leaves valid
  card data with the same identity, but for one event whose progress the code does not check.
\<close>

section \<open>Decoded objects\<close>

lemma map_of_put: "map_of (map_put k v m) k' = (if k' = k then Some v else map_of m k')"
  by (simp add: update_conv')

lemma map_of_del: "map_of (map_del k m) k' = (if k' = k then None else map_of m k')"
  by (simp add: delete_conv')

lemma fold_map_put_ok: "map_ok m \<Longrightarrow> map_ok (fold (\<lambda>(k, v) m. map_put k v m) xs m)"
  by (induction xs arbitrary: m) (auto simp: map_ok_put)

lemma decode_map_ok [simp]: "map_ok (decode_map ms)"
  unfolding decode_map_def by (rule fold_map_put_ok) simp

lemma put_new: "k \<notin> fst ` set m \<Longrightarrow> map_put k v m = m @ [(k, v)]"
  by (induction m) auto

lemma decode_map_id: "map_ok m \<Longrightarrow> decode_map m = m"
proof -
  have "map_ok (acc @ xs) \<Longrightarrow> fold (\<lambda>(k, v) m. map_put k v m) xs acc = acc @ xs" for acc xs :: jobj
    by (induction xs arbitrary: acc) (auto simp: put_new)
  from this [of "[]" m] show "map_ok m \<Longrightarrow> decode_map m = m" by (simp add: decode_map_def)
qed

lemma decodeObject_encoded [simp]: "map_ok d \<Longrightarrow> decodeObject (RawJSON (JObj d)) = Some d"
  by (simp add: decodeObject_def as_object_def decode_map_id)

lemma decodeObject_ok: "decodeObject raw = Some d \<Longrightarrow> map_ok d"
  by (auto simp: decodeObject_def as_object_def split: raw_message.splits json.splits)

lemma stringField_put: "stringField (map_put k v m) k' = (if k' = k then (case v of JStr s \<Rightarrow> Some s | _ \<Rightarrow> None) else stringField m k')"
  by (simp add: stringField_def map_of_put split: json.split)

lemma stringField_del: "stringField (map_del k m) k' = (if k' = k then None else stringField m k')"
  by (simp add: stringField_def map_of_del)

lemma intField_put: "intField (map_put k v m) k' = (if k' = k then (case v of JNum r \<Rightarrow> if 0 \<le> r \<and> is_int64 r then Some \<lfloor>r\<rfloor> else None | _ \<Rightarrow> None) else intField m k')"
  by (simp add: intField_def map_of_put split: json.split)

lemma intField_del: "intField (map_del k m) k' = (if k' = k then None else intField m k')"
  by (simp add: intField_def map_of_del)

lemmas field_simps' = map_of_put map_of_del stringField_put stringField_del intField_put intField_del

lemma is_int64_of_int [simp]: "is_int64 (of_int i) \<longleftrightarrow> int64_min \<le> i \<and> i \<le> int64_max"
  by (simp add: is_int64_def)

section \<open>Progress objects\<close>

definition prog_ok :: "iteration_lib \<Rightarrow> jobj \<Rightarrow> bool" where
  "prog_ok lib p \<longleftrightarrow> map_ok p \<and> validateProgress lib (Some (JObj p))"

lemma prog_ok_iff:
  "prog_ok lib p \<longleftrightarrow> map_ok p \<and>
     requireFields p [''cardId'', ''type'', ''title'', ''current'', ''total'', ''status'', ''updatedAt''] \<and>
     (case stringField p ''cardId'' of None \<Rightarrow> False | Some s \<Rightarrow> validateUUIDv7String lib s) \<and>
     (case stringField p ''type'' of None \<Rightarrow> False | Some s \<Rightarrow> s \<in> set progress_types) \<and>
     valid_title (stringField p ''title'') \<and>
     (case (intField p ''current'', intField p ''total'') of (Some c, Some t) \<Rightarrow> \<not> (t > 0 \<and> c > t) | _ \<Rightarrow> False) \<and>
     (case stringField p ''status'' of None \<Rightarrow> False | Some s \<Rightarrow> s \<in> set progress_statuses) \<and>
     (case stringField p ''updatedAt'' of None \<Rightarrow> False | Some s \<Rightarrow> trim_space s \<noteq> [])"
  by (cases "map_ok p") (simp_all add: prog_ok_def validateProgress_def as_object_def decode_map_id)

definition progress_keys :: "string list" where
  "progress_keys = [''cardId'', ''type'', ''title'', ''current'', ''total'', ''status'', ''updatedAt'']"

lemma prog_ok_put_other: "prog_ok lib p \<Longrightarrow> k \<notin> set progress_keys \<Longrightarrow> prog_ok lib (map_put k v p)"
  by (auto simp: prog_ok_iff map_ok_put progress_keys_def requireFields_def stringField_put intField_put)

lemma prog_ok_del_other: "prog_ok lib p \<Longrightarrow> k \<notin> set progress_keys \<Longrightarrow> prog_ok lib (map_del k p)"
  by (auto simp: prog_ok_iff map_ok_del progress_keys_def requireFields_def stringField_del intField_del)

lemma prog_ok_status: "prog_ok lib p \<Longrightarrow> s \<in> set progress_statuses \<Longrightarrow> prog_ok lib (map_put ''status'' (JStr s) p)"
  by (simp add: prog_ok_iff map_ok_put requireFields_def stringField_put intField_put)

lemma prog_ok_counts:
  assumes "prog_ok lib p" and "0 \<le> c" "c \<le> int64_max" "0 \<le> t" "t \<le> int64_max" and "\<not> (t > 0 \<and> c > t)"
  shows "prog_ok lib (map_put ''total'' (json_of_int t) (map_put ''current'' (json_of_int c) p))"
proof -
  have "int64_min \<le> c" "int64_min \<le> t" using assms(2,4) by (simp_all add: int64_min_def)
  then show ?thesis using assms
    by (simp add: prog_ok_iff map_ok_put requireFields_def stringField_put intField_put json_of_int_def)
qed

lemma data_progress_put: "k \<noteq> ''progress'' \<Longrightarrow> data_progress (map_put k v d) = data_progress d"
  by (simp add: data_progress_def map_of_put)

lemma data_progress_on: "(\<And>p. data_progress d = Some p \<Longrightarrow> map_ok (f p)) \<Longrightarrow> data_progress (on_progress f d) = map_option f (data_progress d)"
  by (auto simp: on_progress_def data_progress_def map_of_put as_object_def decode_map_id split: option.splits json.splits)

section \<open>The effect of reducer steps\<close>

definition head_keys :: "string list" where
  "head_keys = [''subtype'', ''title'', ''agentId'', ''sessionId'', ''topicId'']"

text \<open>
  \<open>reduces lib d s d'\<close>: the data \<open>d'\<close> has the identity of \<open>d\<close>, state \<open>s\<close> and valid progress.
\<close>

definition reduces :: "iteration_lib \<Rightarrow> jobj \<Rightarrow> iteration_state \<Rightarrow> jobj \<Rightarrow> bool" where
  "reduces lib d s d' \<longleftrightarrow> map_ok d' \<and> (\<forall>k \<in> set head_keys. map_of d' k = map_of d k) \<and>
     stringField d' ''state'' = Some (state_text s) \<and> (\<exists>p. data_progress d' = Some p \<and> prog_ok lib p)"

lemma on_progress_other: "k \<noteq> ''progress'' \<Longrightarrow> map_of (on_progress f d) k = map_of d k"
  by (simp add: on_progress_def map_of_put split: option.split)

lemma stringField_on_progress: "k \<noteq> ''progress'' \<Longrightarrow> stringField (on_progress f d) k = stringField d k"
  by (simp add: stringField_def on_progress_other)

lemma map_ok_on_progress: "map_ok d \<Longrightarrow> map_ok (on_progress f d)"
  by (simp add: on_progress_def map_ok_put split: option.split)

lemma reduces_on_progress:
  assumes "reduces lib d s d'" and "\<And>p. prog_ok lib p \<Longrightarrow> prog_ok lib (f p)"
  shows "reduces lib d s (on_progress f d')"
proof -
  from assms(1) obtain p where p: "data_progress d' = Some p" "prog_ok lib p" by (auto simp: reduces_def)
  have "map_ok (f p)" using assms(2) [OF p(2)] by (simp add: prog_ok_def)
  then have "data_progress (on_progress f d') = Some (f p)" using p(1) data_progress_on [of d' f] by simp
  moreover have "k \<noteq> ''progress''" if "k \<in> set head_keys" for k using that by (auto simp: head_keys_def)
  ultimately show ?thesis using assms p unfolding reduces_def
    by (auto simp: on_progress_other stringField_on_progress map_ok_on_progress)
qed

lemma reduces_put: "reduces lib d s d' \<Longrightarrow> k \<notin> set head_keys \<union> {''state'', ''progress''} \<Longrightarrow> reduces lib d s (map_put k v d')"
  unfolding reduces_def by (auto simp: map_of_put stringField_put data_progress_put map_ok_put)

lemma reduces_state: "reduces lib d s d' \<Longrightarrow> reduces lib d s' (map_put ''state'' (JStr (state_text s')) d')"
  unfolding reduces_def by (auto simp: map_of_put stringField_put data_progress_put map_ok_put head_keys_def)

lemma reduces_setState: "reduces lib d s d' \<Longrightarrow> reduces lib d s' (setState s' d')"
  unfolding setState_def
  by (intro reduces_on_progress reduces_state) (simp_all add: Let_def progress_statuses_def prog_ok_status prog_ok_del_other progress_keys_def)

lemma reduces_setProgress:
  "reduces lib d s d' \<Longrightarrow> 0 \<le> c \<Longrightarrow> c \<le> int64_max \<Longrightarrow> 0 \<le> t \<Longrightarrow> t \<le> int64_max \<Longrightarrow> \<not> (t > 0 \<and> c > t) \<Longrightarrow>
     reduces lib d s (setProgress c t d')"
  unfolding setProgress_def by (intro reduces_on_progress prog_ok_counts) auto

lemma reduces_running: "reduces lib d s d' \<Longrightarrow> reduces lib d StRunning (map_put ''state'' (JStr ''running'') d')"
  using reduces_state [of lib d s d' StRunning] by simp

lemma run_progress_ok: "prog_ok lib p \<Longrightarrow> prog_ok lib (run_progress p)"
  unfolding run_progress_def by (rule prog_ok_status) (simp_all add: progress_statuses_def)

lemma prog_ok_phase:
  "prog_ok lib p \<Longrightarrow> prog_ok lib (map_put ''phase'' v p)" "prog_ok lib p \<Longrightarrow> prog_ok lib (map_put ''phaseOrdinal'' v p)"
  "prog_ok lib p \<Longrightarrow> prog_ok lib (map_put ''parentCardId'' v p)" "prog_ok lib p \<Longrightarrow> prog_ok lib (map_put ''segmentStatus'' v p)"
  "prog_ok lib p \<Longrightarrow> prog_ok lib (map_del ''segmentStatus'' p)"
  by (erule prog_ok_put_other prog_ok_del_other, simp add: progress_keys_def)+

lemma reduces_phase: "reduces lib d s d' \<Longrightarrow> reduces lib d s (reduce_phase event d')"
  unfolding reduce_phase_def
  by (rule reduces_on_progress) (simp_all add: phase_fields_def Let_def prog_ok_phase split: option.split json.split)

lemma go_int_range: "int64_min \<le> go_int r" "go_int r \<le> int64_max"
  by (auto simp: go_int_def Let_def int64_min_def int64_max_def)

section \<open>The lifecycle of a card\<close>

text \<open>The abstract lifecycle: the state an event of a card leads to.\<close>

definition event_state :: "string \<Rightarrow> jobj \<Rightarrow> iteration_state \<Rightarrow> iteration_state" where
  "event_state eventType event s =
     (if eventType \<in> {''search_started'', ''exec_start'', ''exec_output'', ''file_read_opened''} then StRunning
      else if eventType \<in> {''search_error'', ''exec_error'', ''file_read_error'', ''tool_call_error'', ''thought_error''} then StFailed
      else if eventType = ''search_completed'' then
        (if json_num (map_of event ''total'') \<le> json_num (map_of event ''completed'') then StCompleted else s)
      else if eventType = ''exec_complete'' then
        (if json_true (map_of event ''cancelled'') then StCancelled
         else if json_num (map_of event ''exit_code'') \<noteq> 0 then StFailed else StCompleted)
      else if eventType = ''tool_call_started'' then (if json_true (map_of event ''gated'') then StWaitingForUser else StRunning)
      else if eventType = ''tool_call_result'' then StCompleted
      else if eventType = ''card_cancelled'' then StCancelled
      else if eventType = ''agent_error'' then StInterrupted
      else if eventType = ''agent_progress'' \<and> stringField event ''message'' = Some ''resumed'' then StRunning
      else s)"

text \<open>The one event whose counts are stored unchecked.\<close>

definition overrun :: "string \<Rightarrow> jobj \<Rightarrow> bool" where
  "overrun eventType event \<longleftrightarrow> eventType = ''file_read_content'' \<and>
     (let lines = json_num (map_of event ''line_count''); first = json_num (map_of event ''start_line''); final = json_num (map_of event ''end_line'')
      in lines > 0 \<and> (go_int lines < 0 \<or> 0 < go_int lines \<and> go_int (final - first + 1) > go_int lines))"


lemma intField_numberField: "intField obj k = Some i \<Longrightarrow> numberField obj k = Some i \<and> json_num (map_of obj k) = of_int i \<and> 0 \<le> i \<and> i \<le> int64_max"
  by (auto simp: intField_def numberField_def json_num_def is_int64_def split: option.splits json.splits if_splits)

lemma reduces_puts:
  assumes "reduces lib d s data"
  shows "reduces lib d s (map_put ''searchProgress'' v data)" "reduces lib d s (map_put ''urlsSearched'' v data)"
    "reduces lib d s (map_put ''currentBatch'' v data)" "reduces lib d s (map_put ''currentStepId'' v (map_put ''steps'' w data))"
  by (intro reduces_put assms; simp add: head_keys_def)+

lemma search_effect:
  assumes "reduces lib d s data" and "reduce_search eventType event data = Some d'" and "valid_event_fields eventType event"
  shows "eventType = ''search_started'' \<Longrightarrow> reduces lib d StRunning d'"
    and "eventType = ''url_discovered'' \<Longrightarrow> reduces lib d s d'"
    and "eventType = ''snippet_retrieved'' \<Longrightarrow> reduces lib d s d'"
    and "eventType = ''search_completed'' \<Longrightarrow>
      reduces lib d (if json_num (map_of event ''total'') \<le> json_num (map_of event ''completed'') then StCompleted else s) d'"
    and "eventType = ''search_error'' \<Longrightarrow> reduces lib d StFailed d'"
proof -
  note puts = reduces_puts [OF assms(1)]
  show "reduces lib d StRunning d'" if e: "eventType = ''search_started''"
  proof -
    obtain b where "intField event ''batch_total'' = Some b" using assms(3) e by (auto simp: valid_event_fields_def)
    note b = intField_numberField [OF this]
    have "d' = setState StRunning (setProgress 0 b
             (map_put ''searchProgress'' (JObj [(''completed'', json_of_int 0), (''total'', json_of_int b)]) data))"
      using assms(2) e b by (simp add: reduce_search_def)
    then show ?thesis using reduces_setState [OF reduces_setProgress [OF puts(1)]] b by (simp add: int64_max_def)
  qed
  show "reduces lib d s d'" if e: "eventType = ''url_discovered''"
    using assms(1,2) e puts(2) by (auto simp: reduce_search_def Let_def split: option.splits if_splits)
  show "reduces lib d s d'" if e: "eventType = ''snippet_retrieved''"
    using assms(2) e puts(3) by (auto simp: reduce_search_def)
  show "reduces lib d (if json_num (map_of event ''total'') \<le> json_num (map_of event ''completed'') then StCompleted else s) d'"
    if e: "eventType = ''search_completed''"
  proof -
    obtain c t where ct: "intField event ''completed'' = Some c" "intField event ''total'' = Some t" and le: "\<not> (t > 0 \<and> c > t)"
      using assms(3) e by (auto simp: valid_event_fields_def split: option.splits)
    note c = intField_numberField [OF ct(1)] and t = intField_numberField [OF ct(2)]
    let ?d = "setProgress c t (map_put ''searchProgress'' (JObj [(''completed'', json_of_int c), (''total'', json_of_int t)]) data)"
    have d: "reduces lib d s ?d" using reduces_setProgress [OF puts(1), of c t] c t le by simp
    have "d' = (if c \<ge> t then setState StCompleted ?d else ?d)" using assms(2) e c t by (simp add: reduce_search_def Let_def)
    then show ?thesis using d reduces_setState [OF d] c t by simp
  qed
  show "reduces lib d StFailed d'" if e: "eventType = ''search_error''"
    using assms(2) e reduces_setState [OF assms(1)] by (auto simp: reduce_search_def)
qed

lemma exec_effect:
  assumes "reduces lib d s data"
  shows "eventType = ''exec_start'' \<or> eventType = ''exec_output'' \<Longrightarrow> reduces lib d StRunning (reduce_exec eventType event data)"
    and "eventType = ''exec_complete'' \<Longrightarrow> reduces lib d (if json_true (map_of event ''cancelled'') then StCancelled
         else if json_num (map_of event ''exit_code'') \<noteq> 0 then StFailed else StCompleted) (reduce_exec eventType event data)"
    and "eventType = ''exec_error'' \<Longrightarrow> reduces lib d StFailed (reduce_exec eventType event data)"
proof -
  have 0: "reduces lib d s (setProgress 0 0 data)" "reduces lib d s (setProgress 1 1 data)"
    using reduces_setProgress [OF assms] by (simp_all add: int64_max_def)
  have "reduces lib d StRunning (map_put ''state'' (JStr ''running'')
        (on_progress (\<lambda>p. map_del ''segmentStatus'' (run_progress p)) (setProgress 0 0 data)))"
    by (rule reduces_running, rule reduces_on_progress [OF 0(1)]) (simp add: prog_ok_phase run_progress_ok)
  then show "eventType = ''exec_start'' \<or> eventType = ''exec_output'' \<Longrightarrow> reduces lib d StRunning (reduce_exec eventType event data)"
    by (simp only: reduce_exec_def if_True)
  show "eventType = ''exec_complete'' \<Longrightarrow> reduces lib d (if json_true (map_of event ''cancelled'') then StCancelled
         else if json_num (map_of event ''exit_code'') \<noteq> 0 then StFailed else StCompleted) (reduce_exec eventType event data)"
    using reduces_setState [OF 0(2)] by (simp add: reduce_exec_def)
  show "eventType = ''exec_error'' \<Longrightarrow> reduces lib d StFailed (reduce_exec eventType event data)"
    using reduces_setState [OF assms] by (simp add: reduce_exec_def)
qed

lemma tool_effect:
  assumes "reduces lib d s data"
  shows "eventType = ''tool_call_started'' \<Longrightarrow>
      reduces lib d (if json_true (map_of event ''gated'') then StWaitingForUser else StRunning) (reduce_tool eventType event data)"
    and "eventType = ''tool_call_result'' \<Longrightarrow> reduces lib d StCompleted (reduce_tool eventType event data)"
    and "eventType = ''tool_call_error'' \<Longrightarrow> reduces lib d StFailed (reduce_tool eventType event data)"
proof -
  have 0: "reduces lib d s (setProgress 0 1 data)" "reduces lib d s (setProgress 1 1 data)"
    using reduces_setProgress [OF assms] by (simp_all add: int64_max_def)
  let ?g = "json_true (map_of event ''gated'')"
  have "reduces lib d (if ?g then StWaitingForUser else StRunning)
        (map_put ''state'' (JStr (state_text (if ?g then StWaitingForUser else StRunning)))
           (on_progress (\<lambda>p. if ?g then map_put ''segmentStatus'' (JStr ''pending_approval'') (run_progress p)
                          else map_del ''segmentStatus'' (run_progress p)) (setProgress 0 1 data)))"
    by (rule reduces_state, rule reduces_on_progress [OF 0(1)]) (simp add: prog_ok_phase run_progress_ok)
  then show "eventType = ''tool_call_started'' \<Longrightarrow> reduces lib d (if ?g then StWaitingForUser else StRunning) (reduce_tool eventType event data)"
    by (cases ?g) (simp_all add: reduce_tool_def Let_def)
  show "eventType = ''tool_call_result'' \<Longrightarrow> reduces lib d StCompleted (reduce_tool eventType event data)"
    using reduces_setState [OF 0(2)] by (simp add: reduce_tool_def)
  show "eventType = ''tool_call_error'' \<Longrightarrow> reduces lib d StFailed (reduce_tool eventType event data)"
    using reduces_setState [OF assms] by (simp add: reduce_tool_def)
qed

lemma file_effect:
  assumes "reduces lib d s data" and "valid_event_fields eventType event" and "\<not> overrun eventType event"
  shows "eventType = ''file_read_opened'' \<Longrightarrow> reduces lib d StRunning (reduce_file eventType event data)"
    and "eventType = ''file_read_content'' \<Longrightarrow> reduces lib d s (reduce_file eventType event data)"
    and "eventType = ''file_read_error'' \<Longrightarrow> reduces lib d StFailed (reduce_file eventType event data)"
proof -
  have 0: "reduces lib d s (setProgress 0 0 data)" using reduces_setProgress [OF assms(1)] by (simp add: int64_max_def)
  have "reduces lib d StRunning (map_put ''state'' (JStr ''running'') (on_progress run_progress (setProgress 0 0 data)))"
    by (rule reduces_running, rule reduces_on_progress [OF 0]) (rule run_progress_ok)
  then show "eventType = ''file_read_opened'' \<Longrightarrow> reduces lib d StRunning (reduce_file eventType event data)"
    by (simp add: reduce_file_def)
  show "eventType = ''file_read_error'' \<Longrightarrow> reduces lib d StFailed (reduce_file eventType event data)"
    using reduces_setState [OF assms(1)] by (simp add: reduce_file_def)
  show "reduces lib d s (reduce_file eventType event data)" if e: "eventType = ''file_read_content''"
  proof -
    let ?lines = "json_num (map_of event ''line_count'')"
    let ?v = "go_int (json_num (map_of event ''end_line'') - json_num (map_of event ''start_line'') + 1)"
    let ?visible = "if ?v < 0 then 0 else ?v"
    let ?total = "if ?lines > 0 then go_int ?lines else 0"
    have v: "0 \<le> ?visible" "?visible \<le> int64_max" using go_int_range by (auto simp: int64_max_def)
    have t: "0 \<le> ?total" "?total \<le> int64_max" "\<not> (?total > 0 \<and> ?visible > ?total)"
      using assms(3) e go_int_range by (auto simp: overrun_def Let_def int64_max_def)
    have "reduce_file eventType event data = setProgress ?visible ?total data" using e by (simp add: reduce_file_def Let_def)
    then show ?thesis using reduces_setProgress [OF assms(1) v t] by simp
  qed
qed

lemma thinking_effect:
  assumes "reduces lib d s data" and "reduce_thinking eventType event data = Some d'"
  shows "eventType = ''thought_started'' \<Longrightarrow> reduces lib d s d'"
    and "eventType = ''thought_progress'' \<Longrightarrow> reduces lib d s d'"
    and "eventType = ''thought_complete'' \<Longrightarrow> reduces lib d s d'"
    and "eventType = ''thought_error'' \<Longrightarrow> reduces lib d StFailed d'"
proof -
  note puts = reduces_puts(4) [OF assms(1)]
  show "eventType = ''thought_started'' \<Longrightarrow> reduces lib d s d'" using assms(2) puts
    by (auto simp: reduce_thinking_def Let_def split: option.splits)
  show "eventType = ''thought_progress'' \<Longrightarrow> reduces lib d s d'" using assms(2) puts
    by (auto simp: reduce_thinking_def Let_def)
  show "eventType = ''thought_complete'' \<Longrightarrow> reduces lib d s d'" using assms(2) puts
    by (auto simp: reduce_thinking_def Let_def)
  show "eventType = ''thought_error'' \<Longrightarrow> reduces lib d StFailed d'" using assms(2) reduces_setState [OF puts]
    by (auto simp: reduce_thinking_def Let_def)
qed

section \<open>Every event\<close>

lemma event_state_simps:
  "event_state ''search_started'' event s = StRunning"
  "event_state ''url_discovered'' event s = s"
  "event_state ''snippet_retrieved'' event s = s"
  "event_state ''search_completed'' event s = (if json_num (map_of event ''total'') \<le> json_num (map_of event ''completed'') then StCompleted else s)"
  "event_state ''search_error'' event s = StFailed"
  "event_state ''exec_start'' event s = StRunning"
  "event_state ''exec_output'' event s = StRunning"
  "event_state ''exec_complete'' event s = (if json_true (map_of event ''cancelled'') then StCancelled
     else if json_num (map_of event ''exit_code'') \<noteq> 0 then StFailed else StCompleted)"
  "event_state ''exec_error'' event s = StFailed"
  "event_state ''file_read_opened'' event s = StRunning"
  "event_state ''file_read_content'' event s = s"
  "event_state ''file_read_error'' event s = StFailed"
  "event_state ''thought_started'' event s = s"
  "event_state ''thought_progress'' event s = s"
  "event_state ''thought_complete'' event s = s"
  "event_state ''thought_error'' event s = StFailed"
  "event_state ''tool_call_started'' event s = (if json_true (map_of event ''gated'') then StWaitingForUser else StRunning)"
  "event_state ''tool_call_result'' event s = StCompleted"
  "event_state ''tool_call_error'' event s = StFailed"
  "event_state ''card_cancelled'' event s = StCancelled"
  "event_state ''card_steered'' event s = s"
  "event_state ''agent_error'' event s = StInterrupted"
  "event_state ''agent_progress'' event s = (if stringField event ''message'' = Some ''resumed'' then StRunning else s)"
  by (simp_all add: event_state_def)

definition lifecycle_events :: "string list" where
  "lifecycle_events = [''agent_error'', ''agent_progress'', ''card_cancelled'', ''card_steered'']"

lemma subtype_effect:
  assumes r: "reduces lib d s data" and a: "eventType \<in> set (allowed_events t)" and v: "valid_event_fields eventType event"
    and o: "\<not> overrun eventType event" and e: "reduce_subtype t eventType event data = Some d'"
  shows "reduces lib d (event_state eventType event s) d'"
proof (cases t)
  case SubtypeSearch
  with e have e': "reduce_search eventType event data = Some d'" by (simp add: reduce_subtype_def)
  note f = search_effect [OF r e' v]
  have "eventType = ''search_started'' \<or> eventType = ''url_discovered'' \<or> eventType = ''snippet_retrieved'' \<or> eventType = ''search_completed'' \<or> eventType = ''search_error''"
    using a unfolding SubtypeSearch allowed_events.simps by (simp only: list.set insert_iff empty_iff simp_thms)
  then show ?thesis
  proof (elim disjE, goal_cases)
    case 1
    then show ?thesis using f(1) by (simp only: event_state_simps refl simp_thms)
  next
    case 2
    then show ?thesis using f(2) by (simp only: event_state_simps refl simp_thms)
  next
    case 3
    then show ?thesis using f(3) by (simp only: event_state_simps refl simp_thms)
  next
    case 4
    then show ?thesis using f(4) by (simp only: event_state_simps refl simp_thms)
  next
    case 5
    then show ?thesis using f(5) by (simp only: event_state_simps refl simp_thms)
  qed
next
  case SubtypeCodeExec
  with e have e': "d' = reduce_exec eventType event data" by (simp add: reduce_subtype_def)
  note f = exec_effect [OF r, where eventType = eventType and event = event, folded e']
  have "eventType = ''exec_start'' \<or> eventType = ''exec_output'' \<or> eventType = ''exec_complete'' \<or> eventType = ''exec_error''"
    using a unfolding SubtypeCodeExec allowed_events.simps by (simp only: list.set insert_iff empty_iff simp_thms)
  then show ?thesis
  proof (elim disjE, goal_cases)
    case 1
    then show ?thesis using f(1) by (simp only: event_state_simps refl simp_thms)
  next
    case 2
    then show ?thesis using f(1) by (simp only: event_state_simps refl simp_thms)
  next
    case 3
    then show ?thesis using f(2) by (simp only: event_state_simps refl simp_thms)
  next
    case 4
    then show ?thesis using f(3) by (simp only: event_state_simps refl simp_thms)
  qed
next
  case SubtypeFileRead
  with e have e': "d' = reduce_file eventType event data" by (simp add: reduce_subtype_def)
  note f = file_effect [OF r v o, folded e']
  have "eventType = ''file_read_opened'' \<or> eventType = ''file_read_content'' \<or> eventType = ''file_read_error''"
    using a unfolding SubtypeFileRead allowed_events.simps by (simp only: list.set insert_iff empty_iff simp_thms)
  then show ?thesis
  proof (elim disjE, goal_cases)
    case 1
    then show ?thesis using f(1) by (simp only: event_state_simps refl simp_thms)
  next
    case 2
    then show ?thesis using f(2) by (simp only: event_state_simps refl simp_thms)
  next
    case 3
    then show ?thesis using f(3) by (simp only: event_state_simps refl simp_thms)
  qed
next
  case SubtypeThinking
  with e have e': "reduce_thinking eventType event data = Some d'" by (simp add: reduce_subtype_def)
  note f = thinking_effect [OF r e']
  have "eventType = ''thought_started'' \<or> eventType = ''thought_progress'' \<or> eventType = ''thought_complete'' \<or> eventType = ''thought_error''"
    using a unfolding SubtypeThinking allowed_events.simps by (simp only: list.set insert_iff empty_iff simp_thms)
  then show ?thesis
  proof (elim disjE, goal_cases)
    case 1
    then show ?thesis using f(1) by (simp only: event_state_simps refl simp_thms)
  next
    case 2
    then show ?thesis using f(2) by (simp only: event_state_simps refl simp_thms)
  next
    case 3
    then show ?thesis using f(3) by (simp only: event_state_simps refl simp_thms)
  next
    case 4
    then show ?thesis using f(4) by (simp only: event_state_simps refl simp_thms)
  qed
next
  case SubtypeToolCall
  with e have e': "d' = reduce_tool eventType event data" by (simp add: reduce_subtype_def)
  note f = tool_effect [OF r, where eventType = eventType and event = event, folded e']
  have "eventType = ''tool_call_started'' \<or> eventType = ''tool_call_result'' \<or> eventType = ''tool_call_error''"
    using a unfolding SubtypeToolCall allowed_events.simps by (simp only: list.set insert_iff empty_iff simp_thms)
  then show ?thesis
  proof (elim disjE, goal_cases)
    case 1
    then show ?thesis using f(1) by (simp only: event_state_simps refl simp_thms)
  next
    case 2
    then show ?thesis using f(2) by (simp only: event_state_simps refl simp_thms)
  next
    case 3
    then show ?thesis using f(3) by (simp only: event_state_simps refl simp_thms)
  qed
qed

lemma lifecycle_identity: "eventType \<in> set lifecycle_events \<Longrightarrow> reduce_subtype t eventType event data = Some data"
  by (cases t) (auto simp: lifecycle_events_def reduce_subtype_def reduce_search_def reduce_exec_def reduce_file_def reduce_tool_def reduce_thinking_def Let_def)

lemma allowed_not_lifecycle: "eventType \<in> set (allowed_events t) \<Longrightarrow> reduce_lifecycle eventType event data = data"
  by (cases t) (auto simp: reduce_lifecycle_def)

lemma lifecycle_effect:
  assumes r: "reduces lib d s data" and e: "eventType \<in> set lifecycle_events"
  shows "reduces lib d (event_state eventType event s) (reduce_lifecycle eventType event data)"
proof -
  note set = reduces_setState [OF r]
  have "map_has data ''state''" using r by (auto simp: reduces_def stringField_def map_has_def split: option.splits)
  then have "eventType = ''card_steered'' \<Longrightarrow> ?thesis" using r by (simp add: event_state_simps reduce_lifecycle_def)
  moreover have "eventType = ''agent_error'' \<Longrightarrow> ?thesis" using set by (simp add: event_state_simps reduce_lifecycle_def)
  moreover have "eventType = ''card_cancelled'' \<Longrightarrow> ?thesis" using set by (simp add: event_state_simps reduce_lifecycle_def)
  moreover have "eventType = ''agent_progress'' \<Longrightarrow> ?thesis" using set r by (simp add: event_state_simps reduce_lifecycle_def)
  ultimately show ?thesis using e unfolding lifecycle_events_def by auto
qed

section \<open>Valid card data\<close>

lemma state_of_state_text [simp]: "state_of (state_text s) = Some s"
  by (cases s) (simp_all add: state_of_def)

lemma state_of_text: "state_of t = Some s \<longleftrightarrow> t = state_text s"
  by (metis (mono_tags, lifting) find_Some_iff state_of_def state_of_state_text)

lemma state_text_inject [simp]: "state_text s = state_text s' \<longleftrightarrow> s = s'"
  using state_of_text [of "state_text s" s'] by auto

lemma as_object_ok: "as_object v = Some p \<Longrightarrow> map_ok p"
  by (auto simp: as_object_def split: json.splits)

lemma validateProgress_object: "as_object v = Some p \<Longrightarrow> validateProgress lib (Some v) = prog_ok lib p"
  by (simp add: prog_ok_iff validateProgress_def as_object_ok)

lemma validateProgress_iff: "validateProgress lib (map_of d ''progress'') \<longleftrightarrow> (\<exists>p. data_progress d = Some p \<and> prog_ok lib p)"
proof (cases "map_of d ''progress''")
  case None
  then show ?thesis by (simp add: data_progress_def validateProgress_def)
next
  case (Some v)
  then show ?thesis
    by (cases "as_object v") (simp_all add: data_progress_def validateProgress_object, simp add: validateProgress_def)
qed

lemma ValidateCardData_iff:
  "ValidateCardData lib raw = Some x \<longleftrightarrow> (\<exists>d. decodeObject raw = Some d \<and>
     (\<exists>st. stringField d ''subtype'' = Some st \<and> ValidateSubtype st = Some (id_Subtype x)) \<and>
     valid_title (stringField d ''title'') \<and> id_Title x = the (stringField d ''title'') \<and>
     stringField d ''state'' = Some (state_text (id_State x)) \<and>
     stringField d ''agentId'' = Some (id_AgentID x) \<and> agentIDPattern (id_AgentID x) \<and>
     (\<exists>s. stringField d ''sessionId'' = Some s \<and> validateUUIDv7String lib s) \<and>
     (case map_of d ''topicId'' of None \<Rightarrow> True | Some JNull \<Rightarrow> True | Some (JStr t) \<Rightarrow> validateUUIDv7String lib t | Some _ \<Rightarrow> False) \<and>
     (\<exists>p. data_progress d = Some p \<and> prog_ok lib p))"
proof (cases "decodeObject raw")
  case None
  then show ?thesis by (simp add: ValidateCardData_def)
next
  case (Some d)
  have eq: "id_Subtype x = a \<and> id_Title x = b \<and> id_State x = c \<and> id_AgentID x = e \<longleftrightarrow>
      \<lparr>id_Subtype = a, id_Title = b, id_State = c, id_AgentID = e\<rparr> = x" for a b c e by (cases x) auto
  show ?thesis unfolding ValidateCardData_def validateProgress_iff [symmetric] state_of_text [symmetric] using Some
    by (auto simp: eq [symmetric] state_of_text split: option.splits if_splits)
qed

lemma valid_card_reduces:
  assumes "ValidateCardData lib raw = Some x"
  obtains d where "decodeObject raw = Some d" "reduces lib d (id_State x) d"
  using assms by (auto simp: ValidateCardData_iff reduces_def dest: decodeObject_ok)

lemma valid_card_frame:
  assumes "ValidateCardData lib raw = Some x" and "decodeObject raw = Some d" and r: "reduces lib d s d'"
  shows "ValidateCardData lib (RawJSON (JObj d')) = Some (x\<lparr>id_State := s\<rparr>)"
proof -
  have heads: "map_of d' ''subtype'' = map_of d ''subtype''" "map_of d' ''title'' = map_of d ''title''"
    "map_of d' ''agentId'' = map_of d ''agentId''" "map_of d' ''sessionId'' = map_of d ''sessionId''"
    "map_of d' ''topicId'' = map_of d ''topicId''"
    using r unfolding reduces_def head_keys_def by simp_all
  moreover have "stringField d' ''subtype'' = stringField d ''subtype''" "stringField d' ''title'' = stringField d ''title''"
    "stringField d' ''agentId'' = stringField d ''agentId''" "stringField d' ''sessionId'' = stringField d ''sessionId''"
    by (simp_all add: stringField_def heads)
  moreover have "decodeObject (RawJSON (JObj d')) = Some d'" using r by (simp add: reduces_def)
  ultimately show ?thesis using assms unfolding ValidateCardData_iff reduces_def by simp
qed

lemma reduceEvent_effect:
  assumes x: "ValidateCardData lib raw = Some x" and "decodeObject ev = Some event"
    and v: "ValidateEventPair (id_Subtype x) eventType ev \<or> eventType \<in> set lifecycle_events"
    and o: "\<not> overrun eventType event"
    and e: "reduceEvent raw (id_Subtype x) eventType ev = Some raw'"
  shows "ValidateCardData lib raw' = Some (x\<lparr>id_State := event_state eventType event (id_State x)\<rparr>)"
proof -
  from x obtain d where d: "decodeObject raw = Some d" "reduces lib d (id_State x) d" by (rule valid_card_reduces)
  from e d(1) assms(2) obtain d1 where d1: "reduce_subtype (id_Subtype x) eventType event d = Some d1"
    and raw': "raw' = RawJSON (JObj (reduce_phase event (reduce_lifecycle eventType event d1)))"
    by (auto simp: reduceEvent_def split: option.splits)
  have "reduces lib d (event_state eventType event (id_State x)) (reduce_lifecycle eventType event d1)"
  proof (cases "eventType \<in> set lifecycle_events")
    case True
    with lifecycle_identity d1 have "d1 = d" by (metis option.inject)
    then show ?thesis using lifecycle_effect [OF d(2) True] by simp
  next
    case False
    then have "eventType \<noteq> ''card_cancelled''" "eventType \<noteq> ''card_steered''" by (simp_all add: lifecycle_events_def)
    with v False assms(2) have a: "eventType \<in> set (allowed_events (id_Subtype x))" "valid_event_fields eventType event"
      by (simp_all add: ValidateEventPair_def)
    from subtype_effect [OF d(2) a o d1] show ?thesis by (simp add: allowed_not_lifecycle [OF a(1)])
  qed
  then show ?thesis using valid_card_frame [OF x d(1) reduces_phase] raw' by simp
qed

section \<open>The reducer and the lifecycle\<close>

text \<open>A thought event names a step of the card.\<close>

definition known_step :: "raw_message \<Rightarrow> jobj \<Rightarrow> bool" where
  "known_step raw event \<longleftrightarrow> (case decodeObject raw of None \<Rightarrow> False | Some d \<Rightarrow>
     list_ex (is_step (case stringField event ''step_id'' of Some s \<Rightarrow> s | None \<Rightarrow> [])) (json_list (map_of d ''steps'')))"

lemma update_step_None: "update_step i f vs = None \<longleftrightarrow> \<not> list_ex (is_step i) vs"
  by (induction vs) (auto split: option.split)

lemma search_total:
  assumes "valid_event_fields eventType event"
  shows "reduce_search eventType event data \<noteq> None"
proof -
  have 1: "\<exists>b. numberField event ''batch_total'' = Some b" if "eventType = ''search_started''"
    using assms that by (auto simp: valid_event_fields_def dest: intField_numberField)
  have 2: "\<exists>u. stringField event ''url'' = Some u" if "eventType = ''url_discovered''"
    using assms that by (cases "stringField event ''url''") (simp_all add: valid_event_fields_def valid_url_field_def)
  have 3: "\<exists>c t. numberField event ''completed'' = Some c \<and> numberField event ''total'' = Some t" if e: "eventType = ''search_completed''"
  proof -
    obtain c t where "intField event ''completed'' = Some c" "intField event ''total'' = Some t"
      using assms e by (auto simp: valid_event_fields_def split: option.splits)
    then show ?thesis using intField_numberField by blast
  qed
  have "eventType = ''search_started'' \<Longrightarrow> ?thesis" using 1 by (auto simp: reduce_search_def)
  moreover have "eventType = ''url_discovered'' \<Longrightarrow> ?thesis" using 2 by (auto simp: reduce_search_def Let_def)
  moreover have "eventType = ''search_completed'' \<Longrightarrow> ?thesis" using 3 by (auto simp: reduce_search_def Let_def)
  moreover have "eventType \<noteq> ''search_started'' \<Longrightarrow> eventType \<noteq> ''url_discovered'' \<Longrightarrow> eventType \<noteq> ''search_completed'' \<Longrightarrow> ?thesis"
    by (simp add: reduce_search_def)
  ultimately show ?thesis by argo
qed

lemma thinking_None:
  "reduce_thinking eventType event data = None \<longleftrightarrow>
     eventType \<in> {''thought_progress'', ''thought_complete'', ''thought_error''} \<and>
     \<not> list_ex (is_step (case stringField event ''step_id'' of Some s \<Rightarrow> s | None \<Rightarrow> [])) (json_list (map_of data ''steps''))"
proof -
  have "eventType = ''thought_started'' \<Longrightarrow> ?thesis" by (simp add: reduce_thinking_def Let_def split: option.split)
  moreover have "eventType = ''thought_progress'' \<Longrightarrow> ?thesis" by (simp add: reduce_thinking_def Let_def update_step_None)
  moreover have "eventType = ''thought_complete'' \<Longrightarrow> ?thesis" by (simp add: reduce_thinking_def Let_def update_step_None)
  moreover have "eventType = ''thought_error'' \<Longrightarrow> ?thesis" by (simp add: reduce_thinking_def Let_def update_step_None)
  moreover have "eventType \<noteq> ''thought_started'' \<Longrightarrow> eventType \<noteq> ''thought_progress'' \<Longrightarrow> eventType \<noteq> ''thought_complete'' \<Longrightarrow>
      eventType \<noteq> ''thought_error'' \<Longrightarrow> ?thesis" by (simp add: reduce_thinking_def Let_def)
  ultimately show ?thesis by argo
qed

lemma reduceEvent_None:
  assumes "decodeObject raw = Some d" and "decodeObject ev = Some event"
    and v: "valid_event_fields eventType event"
  shows "reduceEvent raw t eventType ev = None \<longleftrightarrow> t = SubtypeThinking \<and>
     eventType \<in> {''thought_progress'', ''thought_complete'', ''thought_error''} \<and> \<not> known_step raw event"
proof -
  have "reduceEvent raw t eventType ev = None \<longleftrightarrow> reduce_subtype t eventType event d = None"
    using assms(1,2) by (simp add: reduceEvent_def split: option.split)
  also have "\<dots> \<longleftrightarrow> t = SubtypeThinking \<and> reduce_thinking eventType event d = None"
    using search_total [OF v] by (cases t) (simp_all add: reduce_subtype_def)
  finally show ?thesis using assms(1) by (simp only: thinking_None known_step_def option.case)
qed

lemma pair_fields:
  assumes "ValidateEventPair t eventType ev \<or> eventType \<in> set lifecycle_events" and "decodeObject ev = Some event"
  shows "valid_event_fields eventType event"
proof (cases "eventType \<in> set lifecycle_events")
  case True
  then have "eventType = ''agent_error'' \<or> eventType = ''agent_progress'' \<or> eventType = ''card_cancelled'' \<or> eventType = ''card_steered''"
    by (simp only: lifecycle_events_def list.set insert_iff empty_iff simp_thms)
  then show ?thesis by (elim disjE) (simp_all add: valid_event_fields_def)
next
  case False
  then have "eventType \<noteq> ''card_cancelled''" "eventType \<noteq> ''card_steered''" by (simp_all add: lifecycle_events_def)
  with assms False show ?thesis by (simp add: ValidateEventPair_def)
qed

text \<open>
  C17: An event accepted for a card is refused by the reducer only when it continues, completes or
  fails a thinking step the card does not have; otherwise the reduced data is again valid card
  data with the same subtype, title and agent, in the state the lifecycle assigns to the event.
  The only exception is a \<open>file_read_content\<close> event with more visible lines than its line count.
\<close>

theorem reducer_refines_lifecycle:
  assumes "ValidateCardData lib raw = Some x" and "decodeObject ev = Some event"
    and "ValidateEventPair (id_Subtype x) eventType ev \<or> eventType \<in> set lifecycle_events"
    and "\<not> overrun eventType event"
  shows "case reduceEvent raw (id_Subtype x) eventType ev of
      None \<Rightarrow> id_Subtype x = SubtypeThinking \<and> eventType \<in> {''thought_progress'', ''thought_complete'', ''thought_error''} \<and>
        \<not> known_step raw event
    | Some raw' \<Rightarrow> ValidateCardData lib raw' = Some (x\<lparr>id_State := event_state eventType event (id_State x)\<rparr>)"
proof (cases "reduceEvent raw (id_Subtype x) eventType ev")
  case None
  from assms(1) obtain d where "decodeObject raw = Some d" by (rule valid_card_reduces)
  from reduceEvent_None [OF this assms(2) pair_fields [OF assms(3,2)], of "id_Subtype x"] None
  show ?thesis by (simp only: option.case simp_thms)
next
  case (Some raw')
  with reduceEvent_effect [OF assms this] show ?thesis by simp
qed

definition sample_lib :: iteration_lib where
  "sample_lib = \<lparr>il_String = (\<lambda>_. ''00000000-0000-7000-8000-000000000000''), il_Parse = (\<lambda>_. Some 1), il_Version = (\<lambda>_. 7),
     il_Length = (\<lambda>_. 0)\<rparr>"

definition sample_progress :: json where
  "sample_progress = JObj [(''cardId'', JStr ''00000000-0000-7000-8000-000000000001''), (''type'', JStr ''search''), (''title'', JStr ''Search''),
     (''current'', JNum 0), (''total'', JNum 0), (''status'', JStr ''running''), (''updatedAt'', JStr ''2025-01-01'')]"

definition sample_card :: "iteration_subtype \<Rightarrow> iteration_state \<Rightarrow> raw_message" where
  "sample_card t s = RawJSON (JObj [(''subtype'', JStr (subtype_text t)), (''title'', JStr ''Search''), (''state'', JStr (state_text s)),
     (''agentId'', JStr ''agent''), (''sessionId'', JStr ''00000000-0000-7000-8000-000000000002''), (''progress'', sample_progress)])"

lemma sample_card_valid:
  "ValidateCardData sample_lib (sample_card SubtypeSearch StRunning) =
     Some \<lparr>id_Subtype = SubtypeSearch, id_Title = ''Search'', id_State = StRunning, id_AgentID = ''agent''\<rparr>"
  by code_simp

definition sample_done :: jobj where
  "sample_done = [(''completed'', JNum 2), (''total'', JNum 2)]"

lemma reducer_refines_lifecycle_witness:
  "case reduceEvent (sample_card SubtypeSearch StRunning) SubtypeSearch ''search_completed'' (RawJSON (JObj sample_done)) of
      None \<Rightarrow> False
    | Some raw' \<Rightarrow> ValidateCardData sample_lib raw' = Some \<lparr>id_Subtype = SubtypeSearch, id_Title = ''Search'', id_State = StCompleted, id_AgentID = ''agent''\<rparr>"
proof -
  have d: "decodeObject (RawJSON (JObj sample_done)) = Some sample_done" by code_simp
  have v: "ValidateEventPair SubtypeSearch ''search_completed'' (RawJSON (JObj sample_done))" by code_simp
  have o: "\<not> overrun ''search_completed'' sample_done" by code_simp
  have e: "event_state ''search_completed'' sample_done StRunning = StCompleted" by code_simp
  show ?thesis
    using reducer_refines_lifecycle [OF sample_card_valid d _ o, unfolded iteration_data.simps e, OF disjI1 [OF v]]
    by (simp split: option.splits)
qed

text \<open>
  A \<open>file_read_content\<close> event that shows more lines than its \<open>line_count\<close> passes the
  validator, and the reduced data is not valid card data: no later operation accepts the card.
\<close>

definition bad_counts :: "jobj \<Rightarrow> bool" where
  "bad_counts p \<longleftrightarrow> (case (intField p ''current'', intField p ''total'') of (Some c, Some t) \<Rightarrow> t > 0 \<and> c > t | _ \<Rightarrow> True)"

lemma bad_counts_invalid: "bad_counts p \<Longrightarrow> \<not> prog_ok lib p"
  by (auto simp: prog_ok_iff bad_counts_def split: option.splits)

lemma bad_counts_put:
  "k \<noteq> ''current'' \<Longrightarrow> k \<noteq> ''total'' \<Longrightarrow> bad_counts (map_put k v p) = bad_counts p"
  by (simp add: bad_counts_def intField_put)

lemma setProgress_bad:
  assumes "data_progress d = Some p" "map_ok p" and "t > 0 \<and> c > t \<or> t < 0"
  shows "\<exists>p'. data_progress (setProgress c t d) = Some p' \<and> map_ok p' \<and> bad_counts p'"
proof -
  let ?p = "map_put ''total'' (json_of_int t) (map_put ''current'' (json_of_int c) p)"
  have ok: "map_ok ?p" using assms(2) by (simp add: map_ok_put)
  have "data_progress (setProgress c t d) = Some ?p"
    unfolding setProgress_def using data_progress_on [of d] assms(1) ok by auto
  moreover have "bad_counts ?p" using assms(3) by (auto simp: bad_counts_def intField_put json_of_int_def split: option.splits if_splits)
  ultimately show ?thesis using ok by blast
qed

lemma reduce_phase_bad:
  assumes "data_progress d = Some p" "map_ok p" "bad_counts p"
  shows "\<exists>p'. data_progress (reduce_phase event d) = Some p' \<and> bad_counts p'"
proof -
  have "map_ok (phase_fields event p) \<and> bad_counts (phase_fields event p)" using assms(2,3)
    by (simp add: phase_fields_def Let_def map_ok_put bad_counts_put split: option.split json.split)
  then show ?thesis using data_progress_on [of d "phase_fields event"] assms(1) by (simp add: reduce_phase_def)
qed

lemma file_overrun_invalidates:
  assumes x: "ValidateCardData lib raw = Some x" and ev: "decodeObject ev = Some event"
    and o: "overrun ''file_read_content'' event"
  shows "\<exists>raw'. reduceEvent raw SubtypeFileRead ''file_read_content'' ev = Some raw' \<and> ValidateCardData lib raw' = None"
proof -
  from x obtain d where d: "decodeObject raw = Some d" "reduces lib d (id_State x) d" by (rule valid_card_reduces)
  then obtain p where p: "data_progress d = Some p" "map_ok p" by (auto simp: reduces_def prog_ok_def)
  let ?lines = "json_num (map_of event ''line_count'')"
  let ?v = "go_int (json_num (map_of event ''end_line'') - json_num (map_of event ''start_line'') + 1)"
  let ?c = "if ?v < 0 then 0 else ?v" and ?t = "go_int ?lines"
  let ?d = "reduce_phase event (setProgress ?c ?t d)"
  have "reduce_file ''file_read_content'' event d = setProgress ?c ?t d" using o by (simp add: reduce_file_def Let_def overrun_def)
  then have e: "reduceEvent raw SubtypeFileRead ''file_read_content'' ev = Some (RawJSON (JObj ?d))"
    using d(1) ev by (simp add: reduceEvent_def reduce_subtype_def reduce_lifecycle_def)
  have "?t > 0 \<and> ?c > ?t \<or> ?t < 0" using o by (auto simp: overrun_def Let_def)
  from setProgress_bad [OF p this] reduce_phase_bad obtain p' where p': "data_progress ?d = Some p'" "bad_counts p'" by blast
  have "map_ok ?d" using decodeObject_ok [OF d(1)] by (simp add: setProgress_def reduce_phase_def map_ok_on_progress)
  then have "ValidateCardData lib (RawJSON (JObj ?d)) = None"
    using p' bad_counts_invalid [OF p'(2)] ValidateCardData_iff [of lib "RawJSON (JObj ?d)"]
    by (cases "ValidateCardData lib (RawJSON (JObj ?d))") auto
  with e show ?thesis by blast
qed

end
