(* ===== verification/Iteration_Progress.thy ===== *)
theory Iteration_Progress
  imports Iteration_Model
begin

text \<open>
  The progress header over iteration cards (\<open>internal/card/iteration/progress.go\<close>): the
  normalized progress of a card, its projection from the stored data
  (\<open>progressRecordFromCard\<close>, \<open>service.go\<close>), and the aggregation into phase groups and
  prioritized segments. The Go map of groups, with its insertion order, is an association list.
\<close>

section \<open>Parsing instants\<close>

text \<open>\<open>time.Time.UnmarshalJSON\<close>: strict RFC 3339, to the nanosecond, any zone offset.\<close>

definition digit_val :: "char \<Rightarrow> int option" where
  "digit_val c = (if byte_in 48 57 c then Some (int (of_char c) - 48) else None)"

fun digits_val :: "int \<Rightarrow> string \<Rightarrow> int option" where
  "digits_val acc [] = Some acc"
| "digits_val acc (c # cs) = (case digit_val c of None \<Rightarrow> None | Some d \<Rightarrow> digits_val (acc * 10 + d) cs)"

definition digits_in :: "int \<Rightarrow> int \<Rightarrow> string \<Rightarrow> int option" where
  "digits_in lo hi s = (case digits_val 0 s of None \<Rightarrow> None | Some n \<Rightarrow> if lo \<le> n \<and> n \<le> hi then Some n else None)"

definition leap_year :: "int \<Rightarrow> bool" where
  "leap_year y \<longleftrightarrow> y mod 4 = 0 \<and> (y mod 100 \<noteq> 0 \<or> y mod 400 = 0)"

definition days_in :: "int \<Rightarrow> int \<Rightarrow> int" where
  "days_in m y = (if m = 2 then if leap_year y then 29 else 28 else if m \<in> {4, 6, 9, 11} then 30 else 31)"

text \<open>Days from 1 January of year 1, the inverse of \<open>civil_date\<close>.\<close>

definition civil_day :: "int \<Rightarrow> int \<Rightarrow> int \<Rightarrow> int" where
  "civil_day y m d =
     (let y' = (if m \<le> 2 then y - 1 else y);
          mp = (if m > 2 then m - 3 else m + 9)
      in 365 * y' + y' div 4 - y' div 100 + y' div 400 + (153 * mp + 2) div 5 + d - 1 - 306)"

definition parse_fraction :: "string \<Rightarrow> (int \<times> string) option" where
  "parse_fraction s =
     (case s of
        c # rest \<Rightarrow>
          if c = CHR ''.'' \<and> takeWhile (byte_in 48 57) rest \<noteq> [] then
            (let ds = take 9 (takeWhile (byte_in 48 57) rest)
             in Some (the (digits_val 0 (ds @ replicate (9 - length ds) (CHR ''0''))), dropWhile (byte_in 48 57) rest))
          else Some (0, s)
      | [] \<Rightarrow> None)"

definition parse_zone :: "string \<Rightarrow> int option" where
  "parse_zone s =
     (if s = ''Z'' then Some 0
      else if length s = 6 \<and> (s ! 0 = CHR ''+'' \<or> s ! 0 = CHR ''-'') \<and> s ! 3 = CHR '':'' then
        (case (digits_in 0 23 (take 2 (drop 1 s)), digits_in 0 59 (take 2 (drop 4 s))) of
           (Some h, Some m) \<Rightarrow> Some ((if s ! 0 = CHR ''-'' then - 1 else 1) * (h * 3600 + m * 60))
         | _ \<Rightarrow> None)
      else None)"

definition parse_rfc3339 :: "string \<Rightarrow> instant option" where
  "parse_rfc3339 s =
     (if length s < 20 \<or> s ! 4 \<noteq> CHR ''-'' \<or> s ! 7 \<noteq> CHR ''-'' \<or> s ! 10 \<noteq> CHR ''T'' \<or> s ! 13 \<noteq> CHR '':'' \<or> s ! 16 \<noteq> CHR '':'' then None
      else case (digits_in 0 9999 (take 4 s), digits_in 1 12 (take 2 (drop 5 s))) of
        (Some y, Some m) \<Rightarrow>
          (case (digits_in 1 (days_in m y) (take 2 (drop 8 s)), digits_in 0 23 (take 2 (drop 11 s)),
                 digits_in 0 59 (take 2 (drop 14 s)), digits_in 0 59 (take 2 (drop 17 s))) of
             (Some d, Some hh, Some mm, Some ss) \<Rightarrow>
               (case parse_fraction (drop 19 s) of
                  None \<Rightarrow> None
                | Some (ns, zone) \<Rightarrow>
                  map_option (\<lambda>off. (civil_day y m d * 86400 + hh * 3600 + mm * 60 + ss - off) * 1000000000 + ns) (parse_zone zone))
           | _ \<Rightarrow> None)
      | _ \<Rightarrow> None)"

lemma parse_rfc3339_examples:
  "parse_rfc3339 ''1970-01-01T00:00:00Z'' = Some (719162 * 86400 * 1000000000)"
  "parse_rfc3339 ''1970-01-01T01:00:00.25+01:00'' = Some (719162 * 86400 * 1000000000 + 250000000)"
  "parse_rfc3339 ''2023-02-29T00:00:00Z'' = None"
  by code_simp+

section \<open>Progress of a card\<close>

record card_progress =
  cp_CardID :: uuid
  cp_ParentCardID :: "uuid option"
  cp_Type :: string
  cp_Title :: string
  cp_Current :: int
  cp_Total :: int
  cp_Status :: string
  cp_Phase :: string
  cp_PhaseOrdinal :: "int option"
  cp_UpdatedAt :: instant

datatype segment_status =
    SegPendingApproval | SegWaitingForUser | SegRunning | SegFailed | SegCancelled | SegCompleted | SegOf string

definition segment_status_of :: "string \<Rightarrow> segment_status" where
  "segment_status_of s =
     (if s = ''pending_approval'' then SegPendingApproval else if s = ''waiting_for_user'' then SegWaitingForUser
      else if s = ''running'' then SegRunning else if s = ''failed'' then SegFailed
      else if s = ''cancelled'' then SegCancelled else if s = ''completed'' then SegCompleted else SegOf s)"

definition segmentStatusFor :: "string \<Rightarrow> segment_status" where
  "segmentStatusFor status =
     (if status = ''failed'' then SegFailed else if status = ''cancelled'' then SegCancelled
      else if status = ''completed'' then SegCompleted else SegRunning)"

record progress_segment =
  ps_CardID :: uuid
  ps_ParentCardID :: "uuid option"
  ps_Type :: string
  ps_Title :: string
  ps_Current :: int
  ps_Total :: int
  ps_Status :: segment_status
  ps_Phase :: string
  ps_UpdatedAt :: instant
  ps_Indeterminate :: bool

record progress_group =
  pg_Name :: string
  pg_Phase :: string
  pg_Current :: int
  pg_Total :: int
  pg_Indeterminate :: int
  pg_Records :: "card_progress list"

record progress_header =
  ph_Groups :: "progress_group list"
  ph_Segments :: "progress_segment list"
  ph_AllSegments :: "progress_segment list"

record progress_record =
  pr_progress :: card_progress
  pr_segmentStatus :: segment_status
  pr_phaseOrdinal :: "int option"

section \<open>Aggregation\<close>

definition maxHeaderSegments :: nat where [simp]: "maxHeaderSegments = 3"

record aggregate =
  ag_groups :: "(string, progress_group) gomap"
  ag_ordinals :: "(string, int) gomap"
  ag_first :: "(string, instant) gomap"

definition group_key :: "card_progress \<Rightarrow> string" where
  "group_key p = (if cp_Phase p = [] then ''Ungrouped'' else cp_Phase p)"

definition add_to_group :: "card_progress \<Rightarrow> progress_group \<Rightarrow> progress_group" where
  "add_to_group p g =
     (let g1 = g\<lparr>pg_Records := pg_Records g @ [p]\<rparr>
      in if cp_Total p > 0 then g1\<lparr>pg_Current := wrap64 (pg_Current g + cp_Current p), pg_Total := wrap64 (pg_Total g + cp_Total p)\<rparr>
         else g1\<lparr>pg_Indeterminate := pg_Indeterminate g + 1\<rparr>)"

definition aggregate_record :: "progress_record \<Rightarrow> aggregate \<Rightarrow> aggregate" where
  "aggregate_record r ag =
     (let p = pr_progress r; key = group_key p;
          g = (case map_of (ag_groups ag) key of Some g \<Rightarrow> g
               | None \<Rightarrow> \<lparr>pg_Name = key, pg_Phase = cp_Phase p, pg_Current = 0, pg_Total = 0, pg_Indeterminate = 0, pg_Records = []\<rparr>)
      in \<lparr>ag_groups = map_put key (add_to_group p g) (ag_groups ag),
          ag_ordinals = (case pr_phaseOrdinal r of None \<Rightarrow> ag_ordinals ag
            | Some i \<Rightarrow> (case map_of (ag_ordinals ag) key of
                Some current \<Rightarrow> if i < current then map_put key i (ag_ordinals ag) else ag_ordinals ag
              | None \<Rightarrow> map_put key i (ag_ordinals ag))),
          ag_first = (case map_of (ag_first ag) key of
              None \<Rightarrow> map_put key (cp_UpdatedAt p) (ag_first ag)
            | Some t \<Rightarrow> if cp_UpdatedAt p < t then map_put key (cp_UpdatedAt p) (ag_first ag) else ag_first ag)\<rparr>)"

definition aggregate_records :: "progress_record list \<Rightarrow> aggregate" where
  "aggregate_records records = fold aggregate_record records \<lparr>ag_groups = [], ag_ordinals = [], ag_first = []\<rparr>"

definition segment_of :: "progress_record \<Rightarrow> progress_segment" where
  "segment_of r =
     (let p = pr_progress r
      in \<lparr>ps_CardID = cp_CardID p, ps_ParentCardID = cp_ParentCardID p, ps_Type = cp_Type p, ps_Title = cp_Title p,
          ps_Current = cp_Current p, ps_Total = cp_Total p, ps_Status = pr_segmentStatus r, ps_Phase = cp_Phase p,
          ps_UpdatedAt = cp_UpdatedAt p, ps_Indeterminate = cp_Total p \<le> 0\<rparr>)"

definition group_before :: "aggregate \<Rightarrow> string \<Rightarrow> string \<Rightarrow> bool" where
  "group_before ag left right =
     (let byTime = map_get 0 (ag_first ag) left < map_get 0 (ag_first ag) right
      in if ag_ordinals ag = [] then byTime
         else case (map_of (ag_ordinals ag) left, map_of (ag_ordinals ag) right) of
             (Some l, Some r) \<Rightarrow> if l \<noteq> r then l < r else byTime
           | (Some _, None) \<Rightarrow> True
           | (None, Some _) \<Rightarrow> False
           | (None, None) \<Rightarrow> byTime)"

definition segmentPriority :: "segment_status \<Rightarrow> nat" where
  "segmentPriority status =
     (if status = SegPendingApproval \<or> status = SegWaitingForUser then 0
      else if status = SegRunning then 1
      else if status = SegFailed \<or> status = SegCancelled then 2 else 3)"

definition segment_before :: "progress_segment \<Rightarrow> progress_segment \<Rightarrow> bool" where
  "segment_before x y \<longleftrightarrow> segmentPriority (ps_Status x) < segmentPriority (ps_Status y)"

definition aggregateProgressHeader :: "progress_record list \<Rightarrow> progress_header" where
  "aggregateProgressHeader records =
     (let ag = aggregate_records records;
          groupOrder = sort_stable (group_before ag) (map fst (ag_groups ag));
          all = sort_stable segment_before (map segment_of records)
      in \<lparr>ph_Groups = map (\<lambda>key. the (map_of (ag_groups ag) key)) groupOrder,
          ph_Segments = (if length all > maxHeaderSegments then take maxHeaderSegments all else all),
          ph_AllSegments = all\<rparr>)"

definition AggregateHeader :: "card_progress list \<Rightarrow> progress_header" where
  "AggregateHeader records =
     aggregateProgressHeader (map (\<lambda>p. \<lparr>pr_progress = p, pr_segmentStatus = segmentStatusFor (cp_Status p),
       pr_phaseOrdinal = cp_PhaseOrdinal p\<rparr>) records)"

section \<open>The record of a stored card\<close>

text \<open>
  The two typed decodings of the card data; \<open>null\<close> leaves a field alone, and member names
  match up to case. The second one reads \<open>segmentStatus\<close> and its failure is ignored.
\<close>

definition assign_string :: "json \<Rightarrow> (string \<Rightarrow> 'a) \<Rightarrow> 'a \<Rightarrow> 'a option" where
  "assign_string v f x = (case v of JStr s \<Rightarrow> Some (f s) | JNull \<Rightarrow> Some x | _ \<Rightarrow> None)"

definition assign_int :: "json \<Rightarrow> (int \<Rightarrow> 'a) \<Rightarrow> 'a \<Rightarrow> 'a option" where
  "assign_int v f x = (case v of JNull \<Rightarrow> Some x | _ \<Rightarrow> map_option f (json_int64 v))"

definition assign_uuid :: "iteration_lib \<Rightarrow> json \<Rightarrow> (uuid \<Rightarrow> 'a) \<Rightarrow> 'a \<Rightarrow> 'a option" where
  "assign_uuid lib v f x = (case v of JStr s \<Rightarrow> map_option f (il_Parse lib s) | JNull \<Rightarrow> Some x | _ \<Rightarrow> None)"

definition assign_time :: "json \<Rightarrow> (instant \<Rightarrow> 'a) \<Rightarrow> 'a \<Rightarrow> 'a option" where
  "assign_time v f x = (case v of JStr s \<Rightarrow> map_option f (parse_rfc3339 s) | JNull \<Rightarrow> Some x | _ \<Rightarrow> None)"

definition assignProgress :: "iteration_lib \<Rightarrow> string \<Rightarrow> json \<Rightarrow> card_progress \<Rightarrow> card_progress option" where
  "assignProgress lib k v p =
     (if k = ''cardid'' then assign_uuid lib v (\<lambda>u. p\<lparr>cp_CardID := u\<rparr>) p
      else if k = ''parentcardid'' then
        (if v = JNull then Some (p\<lparr>cp_ParentCardID := None\<rparr>) else assign_uuid lib v (\<lambda>u. p\<lparr>cp_ParentCardID := Some u\<rparr>) p)
      else if k = ''type'' then assign_string v (\<lambda>s. p\<lparr>cp_Type := s\<rparr>) p
      else if k = ''title'' then assign_string v (\<lambda>s. p\<lparr>cp_Title := s\<rparr>) p
      else if k = ''current'' then assign_int v (\<lambda>i. p\<lparr>cp_Current := i\<rparr>) p
      else if k = ''total'' then assign_int v (\<lambda>i. p\<lparr>cp_Total := i\<rparr>) p
      else if k = ''status'' then assign_string v (\<lambda>s. p\<lparr>cp_Status := s\<rparr>) p
      else if k = ''phase'' then assign_string v (\<lambda>s. p\<lparr>cp_Phase := s\<rparr>) p
      else if k = ''phaseordinal'' then
        (if v = JNull then Some (p\<lparr>cp_PhaseOrdinal := None\<rparr>) else assign_int v (\<lambda>i. p\<lparr>cp_PhaseOrdinal := Some i\<rparr>) p)
      else if k = ''updatedat'' then assign_time v (\<lambda>t. p\<lparr>cp_UpdatedAt := t\<rparr>) p
      else Some p)"

definition zero_progress :: card_progress where
  "zero_progress = \<lparr>cp_CardID = uuid_Nil, cp_ParentCardID = None, cp_Type = [], cp_Title = [], cp_Current = 0, cp_Total = 0,
     cp_Status = [], cp_Phase = [], cp_PhaseOrdinal = None, cp_UpdatedAt = 0\<rparr>"

definition assignEnvelope :: "iteration_lib \<Rightarrow> string \<Rightarrow> json \<Rightarrow> card_progress \<times> string \<Rightarrow> (card_progress \<times> string) option" where
  "assignEnvelope lib k v x =
     (if k = ''progress'' then map_option (\<lambda>p. (p, snd x)) (decode_struct (assignProgress lib) (RawJSON v) (fst x))
      else if k = ''state'' then assign_string v (\<lambda>s. (fst x, s)) x
      else Some x)"

definition assignSegment :: "string \<Rightarrow> json \<Rightarrow> string \<Rightarrow> string option" where
  "assignSegment k v x =
     (if k = ''progress'' then decode_struct (\<lambda>k' v' y. if k' = ''segmentstatus'' then assign_string v' (\<lambda>s. s) y else Some y) (RawJSON v) x
      else Some x)"

definition progressRecordFromCard :: "iteration_lib \<Rightarrow> card_row \<Rightarrow> progress_record option" where
  "progressRecordFromCard lib row =
     (case decode_struct (assignEnvelope lib) (cr_Data row) (zero_progress, []) of
        None \<Rightarrow> None
      | Some (p0, state) \<Rightarrow>
        (let p1 = (if cp_CardID p0 = uuid_Nil then p0\<lparr>cp_CardID := cr_ID row\<rparr> else p0);
             p2 = (if cp_UpdatedAt p1 = 0 \<or> cr_UpdatedAt row > cp_UpdatedAt p1 then p1\<lparr>cp_UpdatedAt := cr_UpdatedAt row\<rparr> else p1);
             status = segmentStatusFor (cp_Status p2);
             status' = (case decode_struct assignSegment (cr_Data row) [] of
                          Some s \<Rightarrow> if s \<noteq> [] then segment_status_of s else status | None \<Rightarrow> status)
         in Some \<lparr>pr_progress = p2, pr_segmentStatus = (if state = ''waiting_for_user'' then SegWaitingForUser else status'),
                  pr_phaseOrdinal = cp_PhaseOrdinal p2\<rparr>))"

section \<open>What the header holds\<close>

text \<open>The group of a phase: its records in order, added up.\<close>

definition group_of :: "string \<Rightarrow> card_progress list \<Rightarrow> progress_group" where
  "group_of key ps = fold add_to_group ps
     \<lparr>pg_Name = key, pg_Phase = cp_Phase (hd ps), pg_Current = 0, pg_Total = 0, pg_Indeterminate = 0, pg_Records = []\<rparr>"

definition in_group :: "string \<Rightarrow> progress_record list \<Rightarrow> card_progress list" where
  "in_group key rs = filter (\<lambda>p. group_key p = key) (map pr_progress rs)"

lemma group_of_snoc: "ps \<noteq> [] \<Longrightarrow> group_of key (ps @ [p]) = add_to_group p (group_of key ps)"
  by (simp add: group_of_def)

lemma in_group_snoc: "in_group key (rs @ [r]) = (if group_key (pr_progress r) = key then in_group key rs @ [pr_progress r] else in_group key rs)"
  by (simp add: in_group_def)

lemma aggregate_records_snoc: "aggregate_records (rs @ [r]) = aggregate_record r (aggregate_records rs)"
  by (simp add: aggregate_records_def)

lemma aggregate_groups:
  "map_of (ag_groups (aggregate_records rs)) key = (if in_group key rs = [] then None else Some (group_of key (in_group key rs)))"
proof (induction rs rule: rev_induct)
  case Nil
  then show ?case by (simp add: aggregate_records_def in_group_def)
next
  case (snoc r rs)
  show ?case
  proof (cases "group_key (pr_progress r) = key")
    case True
    then show ?thesis using snoc
      by (simp add: aggregate_records_snoc aggregate_record_def Let_def in_group_snoc group_of_snoc update_conv')
        (simp add: group_of_def)
  next
    case False
    then show ?thesis using snoc
      by (auto simp: aggregate_records_snoc aggregate_record_def Let_def in_group_snoc update_conv')
  qed
qed

lemma aggregate_groups_ok: "map_ok (ag_groups (aggregate_records rs))"
  by (induction rs rule: rev_induct)
    (auto simp: aggregate_records_def aggregate_record_def Let_def)

lemma aggregate_keys: "set (map fst (ag_groups (aggregate_records rs))) = (\<lambda>r. group_key (pr_progress r)) ` set rs"
proof -
  have "key \<in> set (map fst (ag_groups (aggregate_records rs))) \<longleftrightarrow> map_of (ag_groups (aggregate_records rs)) key \<noteq> None" for key
    by (simp add: map_of_eq_None_iff)
  then have "key \<in> set (map fst (ag_groups (aggregate_records rs))) \<longleftrightarrow> in_group key rs \<noteq> []" for key
    by (simp only: aggregate_groups) simp
  moreover have "in_group key rs \<noteq> [] \<longleftrightarrow> key \<in> (\<lambda>r. group_key (pr_progress r)) ` set rs" for key
    by (auto simp: in_group_def filter_empty_conv)
  ultimately show ?thesis by blast
qed

lemma fold_add_to_group:
  "pg_Records (fold add_to_group ps g) = pg_Records g @ ps" "pg_Name (fold add_to_group ps g) = pg_Name g"
  "pg_Phase (fold add_to_group ps g) = pg_Phase g"
  by (induction ps arbitrary: g) (simp_all add: add_to_group_def Let_def)

lemma group_of_simps [simp]: "pg_Records (group_of key ps) = ps" "pg_Name (group_of key ps) = key"
  by (simp_all add: group_of_def fold_add_to_group)

lemma wrap64_add: "wrap64 (wrap64 a + b) = wrap64 (a + b)"
proof -
  have "wrap64 a = a + 2 ^ 64 * (- ((a + 2 ^ 63) div 2 ^ 64))"
    by (simp add: wrap64_def flip: minus_mult_div_eq_mod)
  then have "wrap64 a + b + 2 ^ 63 = (a + b + 2 ^ 63) + 2 ^ 64 * (- ((a + 2 ^ 63) div 2 ^ 64))" by simp
  then have "(wrap64 a + b + 2 ^ 63) mod 2 ^ 64 = (a + b + 2 ^ 63) mod 2 ^ 64" by (simp only: mod_mult_self2)
  then show ?thesis by (simp add: wrap64_def)
qed

definition counted :: "card_progress list \<Rightarrow> card_progress list" where
  "counted ps = filter (\<lambda>p. cp_Total p > 0) ps"

lemma fold_add_sums:
  "pg_Current (fold add_to_group ps g) = (if counted ps = [] then pg_Current g else wrap64 (pg_Current g + sum_list (map cp_Current (counted ps)))) \<and>
   pg_Total (fold add_to_group ps g) = (if counted ps = [] then pg_Total g else wrap64 (pg_Total g + sum_list (map cp_Total (counted ps)))) \<and>
   pg_Indeterminate (fold add_to_group ps g) = pg_Indeterminate g + int (length ps - length (counted ps))"
proof (induction ps arbitrary: g)
  case (Cons p ps)
  have "length (counted ps) \<le> length ps" by (simp add: counted_def)
  then show ?case using Cons [of "add_to_group p g"]
    by (auto simp: counted_def add_to_group_def Let_def wrap64_add algebra_simps Suc_diff_le)
qed (simp add: counted_def)

lemma group_of_sums:
  "pg_Current (group_of key ps) = wrap64 (sum_list (map cp_Current (counted ps)))"
  "pg_Total (group_of key ps) = wrap64 (sum_list (map cp_Total (counted ps)))"
  "pg_Indeterminate (group_of key ps) = int (length ps - length (counted ps))"
  using fold_add_sums [of ps] by (simp_all add: group_of_def wrap64_def)

lemma mset_by_keys:
  assumes "distinct ks" and "key ` set xs \<subseteq> set ks"
  shows "mset (concat (map (\<lambda>k. filter (\<lambda>x. key x = k) xs) ks)) = mset xs"
proof -
  have "mset (concat (map (\<lambda>k. filter (\<lambda>x. key x = k) xs) ks)) = filter_mset (\<lambda>x. key x \<in> set ks) (mset xs)"
    using assms(1)
  proof (induction ks)
    case (Cons k ks)
    then have "k \<notin> set ks" by simp
    then have "filter_mset (\<lambda>x. key x = k \<or> key x \<in> set ks) (mset xs) =
        filter_mset (\<lambda>x. key x = k) (mset xs) + filter_mset (\<lambda>x. key x \<in> set ks) (mset xs)"
      by (intro multiset_eqI) auto
    with Cons show ?case by simp
  qed simp
  also have "\<dots> = filter_mset (\<lambda>_. True) (mset xs)" using assms(2) by (intro filter_mset_cong) auto
  finally show ?thesis by simp
qed

lemma weak_order_key: "weak_order (\<lambda>x y. f x < (f y :: 'a :: linorder))"
  by (rule weak_orderI) auto

lemma weak_order_group_before: "weak_order (group_before ag)"
proof -
  define rank :: "string \<Rightarrow> int option" where "rank = (\<lambda>k. if ag_ordinals ag = [] then None else map_of (ag_ordinals ag) k)"
  define time where "time = (\<lambda>k. map_get 0 (ag_first ag) k)"
  have eq: "group_before ag l r \<longleftrightarrow>
      (case (rank l, rank r) of (Some a, Some b) \<Rightarrow> a < b \<or> a = b \<and> time l < time r
       | (Some _, None) \<Rightarrow> True | (None, Some _) \<Rightarrow> False | (None, None) \<Rightarrow> time l < time r)" for l r
    by (auto simp: group_before_def Let_def rank_def time_def split: option.splits)
  show ?thesis unfolding weak_order_def eq by (auto split: option.splits)
qed

lemma weak_order_segment_before: "weak_order segment_before"
  using weak_order_key [of "\<lambda>x. segmentPriority (ps_Status x)"] by (simp add: segment_before_def [abs_def])

lemma header_groups:
  "ph_Groups (aggregateProgressHeader rs) =
     map (\<lambda>key. group_of key (in_group key rs)) (sort_stable (group_before (aggregate_records rs)) (map fst (ag_groups (aggregate_records rs))))"
proof -
  have "the (map_of (ag_groups (aggregate_records rs)) key) = group_of key (in_group key rs)"
    if "key \<in> set (map fst (ag_groups (aggregate_records rs)))" for key
  proof -
    from that have "map_of (ag_groups (aggregate_records rs)) key \<noteq> None" by (simp add: map_of_eq_None_iff)
    then show ?thesis using aggregate_groups [of rs key] by (auto split: if_splits)
  qed
  then show ?thesis by (simp add: aggregateProgressHeader_def Let_def)
qed

lemma header_parts:
  fixes rs :: "progress_record list"
  defines "h \<equiv> aggregateProgressHeader rs"
  shows "mset (ph_AllSegments h) = mset (map segment_of rs)"
    and "sorted_wrt (\<lambda>x y. segmentPriority (ps_Status x) \<le> segmentPriority (ps_Status y)) (ph_AllSegments h)"
    and "ph_Segments h = take 3 (ph_AllSegments h)"
    and "mset (concat (map pg_Records (ph_Groups h))) = mset (map pr_progress rs)"
    and "distinct (map pg_Name (ph_Groups h))"
    and "\<forall>g \<in> set (ph_Groups h). pg_Records g = in_group (pg_Name g) rs \<and> pg_Records g \<noteq> [] \<and>
      pg_Current g = wrap64 (sum_list (map cp_Current (counted (pg_Records g)))) \<and>
      pg_Total g = wrap64 (sum_list (map cp_Total (counted (pg_Records g))))"
proof -
  let ?ag = "aggregate_records rs"
  let ?ks = "sort_stable (group_before ?ag) (map fst (ag_groups ?ag))"
  have ks: "distinct ?ks" "set ?ks = (\<lambda>r. group_key (pr_progress r)) ` set rs"
    using aggregate_groups_ok [of rs] aggregate_keys [of rs] by simp_all
  show "mset (ph_AllSegments h) = mset (map segment_of rs)" by (simp add: h_def aggregateProgressHeader_def Let_def)
  show "sorted_wrt (\<lambda>x y. segmentPriority (ps_Status x) \<le> segmentPriority (ps_Status y)) (ph_AllSegments h)"
    using sorted_sort_stable [OF weak_order_segment_before, of "map segment_of rs"]
    by (simp add: h_def aggregateProgressHeader_def Let_def segment_before_def not_less)
  show "ph_Segments h = take 3 (ph_AllSegments h)" by (simp add: h_def aggregateProgressHeader_def Let_def)
  have "concat (map pg_Records (ph_Groups h)) = concat (map (\<lambda>k. filter (\<lambda>p. group_key p = k) (map pr_progress rs)) ?ks)"
    by (simp add: h_def header_groups in_group_def comp_def)
  then show "mset (concat (map pg_Records (ph_Groups h))) = mset (map pr_progress rs)"
    using mset_by_keys [OF ks(1), of group_key "map pr_progress rs"] ks(2) by (simp add: image_image)
  show "distinct (map pg_Name (ph_Groups h))" using ks(1) by (simp add: h_def header_groups comp_def)
  have "in_group k rs \<noteq> []" if "k \<in> set ?ks" for k
    using that unfolding ks(2) by (auto simp: in_group_def filter_empty_conv)
  then show "\<forall>g \<in> set (ph_Groups h). pg_Records g = in_group (pg_Name g) rs \<and> pg_Records g \<noteq> [] \<and>
      pg_Current g = wrap64 (sum_list (map cp_Current (counted (pg_Records g)))) \<and>
      pg_Total g = wrap64 (sum_list (map cp_Total (counted (pg_Records g))))"
    by (auto simp: h_def header_groups group_of_sums)
qed

text \<open>
  The header keeps one segment per record, most urgent first, and shows the first three.
  Its groups partition the records by phase: every record is in the one group of its phase, and
  a group adds up exactly its records with a known total.
\<close>

lemma header_partitions_records:
  "mset (ph_AllSegments (aggregateProgressHeader rs)) = mset (map segment_of rs) \<and>
   sorted_wrt (\<lambda>x y. segmentPriority (ps_Status x) \<le> segmentPriority (ps_Status y)) (ph_AllSegments (aggregateProgressHeader rs)) \<and>
   ph_Segments (aggregateProgressHeader rs) = take 3 (ph_AllSegments (aggregateProgressHeader rs)) \<and>
   mset (concat (map pg_Records (ph_Groups (aggregateProgressHeader rs)))) = mset (map pr_progress rs) \<and>
   distinct (map pg_Name (ph_Groups (aggregateProgressHeader rs))) \<and>
   (\<forall>g \<in> set (ph_Groups (aggregateProgressHeader rs)). pg_Records g = in_group (pg_Name g) rs \<and> pg_Records g \<noteq> [] \<and>
      pg_Current g = wrap64 (sum_list (map cp_Current (counted (pg_Records g)))) \<and>
      pg_Total g = wrap64 (sum_list (map cp_Total (counted (pg_Records g)))))"
  using header_parts [of rs] by blast

definition sample_record :: "uuid \<Rightarrow> string \<Rightarrow> int \<Rightarrow> int \<Rightarrow> segment_status \<Rightarrow> progress_record" where
  "sample_record i phase c t s =
     \<lparr>pr_progress = zero_progress\<lparr>cp_CardID := i, cp_Phase := phase, cp_Current := c, cp_Total := t\<rparr>, pr_segmentStatus = s, pr_phaseOrdinal = None\<rparr>"

definition sample_records :: "progress_record list" where
  "sample_records = [sample_record 1 ''plan'' 1 4 SegRunning, sample_record 2 [] 0 0 SegCompleted,
     sample_record 3 ''plan'' 2 3 SegWaitingForUser, sample_record 4 [] 5 9 SegFailed]"

lemma header_partitions_records_witness:
  "map ps_CardID (ph_Segments (aggregateProgressHeader sample_records)) = [3, 1, 4] \<and>
   mset (concat (map pg_Records (ph_Groups (aggregateProgressHeader sample_records)))) = mset (map pr_progress sample_records) \<and>
   map pg_Current (ph_Groups (aggregateProgressHeader sample_records)) = [3, 5]"
proof -
  have "map ps_CardID (ph_Segments (aggregateProgressHeader sample_records)) = [3, 1, 4]"
    "map pg_Current (ph_Groups (aggregateProgressHeader sample_records)) = [3, 5]" by code_simp+
  then show ?thesis using header_partitions_records [of sample_records] by blast
qed

end
