(* ===== verification/Iteration_Service.thy ===== *)
theory Iteration_Service
  imports Iteration_Reducer Iteration_Progress
begin

text \<open>
  The service of iteration cards (\<open>internal/card/iteration/service.go\<close>, \<open>recovery.go\<close>,
  \<open>feedback.go\<close>): creation, events, patches, feedback and its acknowledgement, cancellation,
  crash and recovery, over one card database and the in-memory registries. A call is one
  step; the transaction that stores an event and the card data it leads to is
  \<open>commit_event\<close>, which also covers a card changed since it was read. Identifiers the code
  draws and the clock are arguments. Member names of decoded payloads match up to case.
\<close>

section \<open>Payloads\<close>

record payload_envelope =
  pe_Subtype :: iteration_subtype
  pe_Data :: raw_message
  pe_AgentSessionID :: uuid
  pe_TraceID :: "uuid option"

definition mustParseUUID :: "iteration_lib \<Rightarrow> string \<Rightarrow> uuid" where
  "mustParseUUID lib value = (case il_Parse lib value of Some u \<Rightarrow> u | None \<Rightarrow> uuid_Nil)"

definition json_of :: "raw_message \<Rightarrow> json" where
  "json_of raw = (case raw of RawJSON v \<Rightarrow> v | _ \<Rightarrow> JNull)"

definition encode_envelope :: "iteration_lib \<Rightarrow> payload_envelope \<Rightarrow> raw_message" where
  "encode_envelope lib e = RawJSON (JObj
     ([(''subtype'', JStr (subtype_text (pe_Subtype e))), (''data'', json_of (pe_Data e)),
       (''agent_session_id'', JStr (il_String lib (pe_AgentSessionID e)))] @
      (case pe_TraceID e of None \<Rightarrow> [] | Some t \<Rightarrow> [(''trace_id'', JStr (il_String lib t))])))"

definition ValidatePayloadEnvelope :: "iteration_lib \<Rightarrow> raw_message \<Rightarrow> payload_envelope option" where
  "ValidatePayloadEnvelope lib raw =
     (case decodeObject raw of None \<Rightarrow> None | Some obj \<Rightarrow>
       (case stringField obj ''subtype'' of None \<Rightarrow> None | Some subtypeValue \<Rightarrow>
         (case ValidateSubtype subtypeValue of None \<Rightarrow> None | Some subtype \<Rightarrow>
           (case map_of obj ''data'' of None \<Rightarrow> None | Some data \<Rightarrow>
             (case stringField obj ''agent_session_id'' of None \<Rightarrow> None | Some session \<Rightarrow>
               if \<not> validateUUIDv7String lib session then None
               else case map_of obj ''trace_id'' of
                   None \<Rightarrow> Some \<lparr>pe_Subtype = subtype, pe_Data = RawJSON data, pe_AgentSessionID = mustParseUUID lib session, pe_TraceID = None\<rparr>
                 | Some JNull \<Rightarrow> Some \<lparr>pe_Subtype = subtype, pe_Data = RawJSON data, pe_AgentSessionID = mustParseUUID lib session, pe_TraceID = None\<rparr>
                 | Some (JStr t) \<Rightarrow>
                     if validateUUIDv7String lib t
                     then Some \<lparr>pe_Subtype = subtype, pe_Data = RawJSON data, pe_AgentSessionID = mustParseUUID lib session, pe_TraceID = Some (mustParseUUID lib t)\<rparr>
                     else None
                 | Some _ \<Rightarrow> None)))))"

record iteration_event =
  ie_Sequence :: int
  ie_Subtype :: string
  ie_EventType :: string
  ie_Data :: raw_message
  ie_CardID :: uuid
  ie_AgentID :: string
  ie_AgentSessionID :: uuid
  ie_TraceID :: "uuid option"
  ie_CreatedAt :: instant

record feedback_input =
  fi_CardID :: uuid
  fi_Subtype :: string
  fi_Kind :: string
  fi_Target :: raw_message
  fi_Note :: string
  fi_ActorID :: string
  fi_SessionID :: uuid
  fi_Timestamp :: instant

record feedback_event =
  fb_ID :: uuid
  fb_CardID :: uuid
  fb_Subtype :: string
  fb_Kind :: string
  fb_Target :: raw_message
  fb_Note :: string
  fb_ActorID :: string
  fb_SessionID :: uuid
  fb_CreatedAt :: instant
  fb_Acknowledged :: bool

definition encode_feedback :: "iteration_lib \<Rightarrow> feedback_event \<Rightarrow> raw_message" where
  "encode_feedback lib f = RawJSON (JObj
     ([(''id'', JStr (il_String lib (fb_ID f))), (''cardId'', JStr (il_String lib (fb_CardID f))),
       (''subtype'', JStr (fb_Subtype f)), (''feedbackKind'', JStr (fb_Kind f))] @
      (case fb_Target f of RawJSON v \<Rightarrow> [(''target'', v)] | _ \<Rightarrow> []) @
      (if fb_Note f = [] then [] else [(''note'', JStr (fb_Note f))]) @
      [(''actorId'', JStr (fb_ActorID f)), (''sessionId'', JStr (il_String lib (fb_SessionID f))),
       (''createdAt'', JStr (format_rfc3339nano (fb_CreatedAt f))), (''acknowledged'', JBool (fb_Acknowledged f))]))"

definition assignFeedback :: "iteration_lib \<Rightarrow> string \<Rightarrow> json \<Rightarrow> feedback_event \<Rightarrow> feedback_event option" where
  "assignFeedback lib k v f =
     (if k = ''id'' then assign_uuid lib v (\<lambda>u. f\<lparr>fb_ID := u\<rparr>) f
      else if k = ''cardid'' then assign_uuid lib v (\<lambda>u. f\<lparr>fb_CardID := u\<rparr>) f
      else if k = ''subtype'' then assign_string v (\<lambda>s. f\<lparr>fb_Subtype := s\<rparr>) f
      else if k = ''feedbackkind'' then assign_string v (\<lambda>s. f\<lparr>fb_Kind := s\<rparr>) f
      else if k = ''target'' then Some (f\<lparr>fb_Target := RawJSON v\<rparr>)
      else if k = ''note'' then assign_string v (\<lambda>s. f\<lparr>fb_Note := s\<rparr>) f
      else if k = ''actorid'' then assign_string v (\<lambda>s. f\<lparr>fb_ActorID := s\<rparr>) f
      else if k = ''sessionid'' then assign_uuid lib v (\<lambda>u. f\<lparr>fb_SessionID := u\<rparr>) f
      else if k = ''createdat'' then assign_time v (\<lambda>t. f\<lparr>fb_CreatedAt := t\<rparr>) f
      else if k = ''acknowledged'' then
        (case v of JBool b \<Rightarrow> Some (f\<lparr>fb_Acknowledged := b\<rparr>) | JNull \<Rightarrow> Some f | _ \<Rightarrow> None)
      else Some f)"

definition zero_feedback :: feedback_event where
  "zero_feedback = \<lparr>fb_ID = uuid_Nil, fb_CardID = uuid_Nil, fb_Subtype = [], fb_Kind = [], fb_Target = RawNil, fb_Note = [],
     fb_ActorID = [], fb_SessionID = uuid_Nil, fb_CreatedAt = 0, fb_Acknowledged = False\<rparr>"

definition decode_feedback :: "iteration_lib \<Rightarrow> raw_message \<Rightarrow> feedback_event option" where
  "decode_feedback lib raw = decode_struct (assignFeedback lib) raw zero_feedback"

definition decode_ack :: "iteration_lib \<Rightarrow> raw_message \<Rightarrow> uuid option" where
  "decode_ack lib raw =
     decode_struct (\<lambda>k v u. if k = ''feedback_id'' then assign_uuid lib v (\<lambda>x. x) u else Some u) raw uuid_Nil"

definition feedback_kinds :: "string list" where
  "feedback_kinds = [''relevance'', ''correction'', ''steer'', ''cancel'', ''highlight'', ''approve'', ''reject'']"

text \<open>A raw message of length zero is \<open>RawNil\<close>.\<close>

definition validateFeedback :: "iteration_lib \<Rightarrow> feedback_input \<Rightarrow> iteration_data \<Rightarrow> bool" where
  "validateFeedback lib inp data \<longleftrightarrow>
     (let kind = fi_Kind inp; target = fi_Target inp in
      kind \<in> set feedback_kinds \<and> fi_ActorID inp \<noteq> [] \<and> validateUUIDv7 lib (fi_SessionID inp) \<and>
      (kind = ''relevance'' \<longrightarrow> id_Subtype data = SubtypeSearch) \<and>
      (kind = ''highlight'' \<longrightarrow> id_Subtype data = SubtypeFileRead \<or> id_Subtype data = SubtypeSearch) \<and>
      (kind \<in> {''relevance'', ''highlight'', ''approve'', ''reject''} \<longrightarrow> target \<noteq> RawNil) \<and>
      (kind = ''cancel'' \<longrightarrow> target = RawNil \<or> target = RawJSON JNull) \<and>
      length (fi_Note inp) \<le> 16384 \<and> il_Length lib target \<le> 65536 \<and>
      (target \<noteq> RawNil \<longrightarrow> decodeObject target \<noteq> None) \<and>
      (kind = ''relevance'' \<longrightarrow>
        (case decodeObject target of None \<Rightarrow> False | Some obj \<Rightarrow>
          (let url = stringField obj ''url'';
               snippet = (case stringField obj ''snippetId'' of Some s \<Rightarrow> Some s | None \<Rightarrow> stringField obj ''snippet_id'')
           in (url \<noteq> None \<or> snippet \<noteq> None) \<and>
              (case url of None \<Rightarrow> True | Some u \<Rightarrow> validateURL u) \<and>
              (case snippet of None \<Rightarrow> True | Some s \<Rightarrow> trim_space s \<noteq> [])))))"

section \<open>The feedback hub\<close>

record feedback_hub =
  fh_hub :: "feedback_event event_hub"
  fh_pending :: "(uuid, (uuid, feedback_event) gomap) gomap"

definition feedbackBuffer :: nat where [simp]: "feedbackBuffer = 32"

definition newFeedbackHub :: feedback_hub where
  "newFeedbackHub = \<lparr>fh_hub = NewCardEventHub, fh_pending = []\<rparr>"

definition retainLocked :: "feedback_event \<Rightarrow> feedback_hub \<Rightarrow> feedback_hub" where
  "retainLocked f h =
     h\<lparr>fh_pending := map_put (fb_CardID f) (map_put (fb_ID f) f (map_get [] (fh_pending h) (fb_CardID f))) (fh_pending h)\<rparr>"

definition feedback_publish :: "feedback_event \<Rightarrow> feedback_hub \<Rightarrow> feedback_hub" where
  "feedback_publish f h = (retainLocked f h)\<lparr>fh_hub := hub_Publish feedbackBuffer (fb_CardID f) f (fh_hub h)\<rparr>"

text \<open>The channel of a new subscriber: the durable items, then the other retained ones.\<close>

definition send_to :: "uuid \<Rightarrow> nat \<Rightarrow> feedback_event \<Rightarrow> feedback_event event_hub \<Rightarrow> feedback_event event_hub" where
  "send_to cardID i f h =
     h\<lparr>eh_subs := map_put cardID (map_put i (hub_send feedbackBuffer f (map_get [] (map_get [] (eh_subs h) cardID) i))
         (map_get [] (eh_subs h) cardID)) (eh_subs h)\<rparr>"

definition feedback_subscribe :: "uuid \<Rightarrow> feedback_event list \<Rightarrow> feedback_hub \<Rightarrow> nat \<times> feedback_hub" where
  "feedback_subscribe cardID durable h =
     (let (i, hub) = hub_Subscribe cardID (fh_hub h);
          replayed = filter (\<lambda>f. \<not> fb_Acknowledged f \<and> fb_ID f \<noteq> uuid_Nil) durable;
          h1 = fold (\<lambda>f x. (retainLocked f x)\<lparr>fh_hub := send_to cardID i f (fh_hub x)\<rparr>) replayed (h\<lparr>fh_hub := hub\<rparr>);
          others = filter (\<lambda>(k, f). k \<notin> fb_ID ` set replayed) (map_get [] (fh_pending h1) cardID)
      in (i, fold (\<lambda>(k, f) x. x\<lparr>fh_hub := send_to cardID i f (fh_hub x)\<rparr>) others h1))"

definition feedback_cleanup :: "uuid \<Rightarrow> nat \<Rightarrow> feedback_hub \<Rightarrow> feedback_hub" where
  "feedback_cleanup cardID i h = h\<lparr>fh_hub := hub_Unsubscribe cardID i (fh_hub h)\<rparr>"

definition feedback_acknowledge :: "uuid \<Rightarrow> feedback_hub \<Rightarrow> feedback_hub" where
  "feedback_acknowledge feedbackID h =
     h\<lparr>fh_pending := filter (\<lambda>(c, items). items \<noteq> []) (map (\<lambda>(c, items). (c, map_del feedbackID items)) (fh_pending h))\<rparr>"

text \<open>The queue the event log holds: feedback without acknowledgement, each item once.\<close>

definition feedback_items :: "iteration_lib \<Rightarrow> stored_event list \<Rightarrow> feedback_event list" where
  "feedback_items lib events =
     concat (map (\<lambda>e. if se_EventType e = ''user_feedback'' then
         (case decode_feedback lib (se_Payload e) of
            Some f \<Rightarrow> if fb_ID f = uuid_Nil then [] else [f\<lparr>fb_Acknowledged := False\<rparr>] | None \<Rightarrow> [])
         else []) events)"

definition acknowledged_ids :: "iteration_lib \<Rightarrow> stored_event list \<Rightarrow> uuid list" where
  "acknowledged_ids lib events =
     concat (map (\<lambda>e. if se_EventType e = ''feedback_acknowledged'' then
         (case decode_ack lib (se_Payload e) of Some u \<Rightarrow> if u = uuid_Nil then [] else [u] | None \<Rightarrow> [])
         else []) events)"

definition durablePending :: "iteration_lib \<Rightarrow> stored_event list \<Rightarrow> feedback_event list" where
  "durablePending lib events =
     dedup_by fb_ID [] (filter (\<lambda>f. fb_ID f \<notin> set (acknowledged_ids lib events)) (feedback_items lib events))"

section \<open>The service\<close>

datatype process_status = ProcStarting | ProcRunning | ProcStopping | ProcStopped | ProcCrashed | ProcOf string

fun process_status_text :: "process_status \<Rightarrow> string" where
  "process_status_text ProcStarting = ''starting''"
| "process_status_text ProcRunning = ''running''"
| "process_status_text ProcStopping = ''stopping''"
| "process_status_text ProcStopped = ''stopped''"
| "process_status_text ProcCrashed = ''crashed''"
| "process_status_text (ProcOf s) = s"

text \<open>What the service asks of an agent process: its identifier, its status, whether it accepts a cancellation.\<close>

record agent_process =
  ap_ID :: string
  ap_Status :: process_status
  ap_Cancel :: bool

datatype iteration_error =
    ErrAgentNotRegistered | ErrCardNotActive | ErrTerminalCard | ErrPatchForbidden | ErrRecoveryRequired
  | ErrInvalidInput | ErrCardStore card_error | ErrMaterializeConflict | ErrCancelRejected | ErrFeedbackNotFound

record recovery_state =
  rs_agentID :: string
  rs_replaySent :: bool

record iter_service =
  is_db :: card_db
  is_agents :: "(uuid, string) gomap"
  is_processes :: "(uuid, agent_process) gomap"
  is_events :: "iteration_event event_hub"
  is_feedback :: feedback_hub
  is_recovery :: "(uuid, recovery_state) gomap"

definition eventBuffer :: nat where [simp]: "eventBuffer = 32"

definition NewIterationCardService :: "card_db \<Rightarrow> iter_service" where
  "NewIterationCardService db = \<lparr>is_db = db, is_agents = [], is_processes = [], is_events = NewCardEventHub,
     is_feedback = newFeedbackHub, is_recovery = []\<rparr>"

definition publish_event :: "uuid \<Rightarrow> iteration_event \<Rightarrow> iter_service \<Rightarrow> iter_service" where
  "publish_event cardID ev s = s\<lparr>is_events := hub_Publish eventBuffer cardID ev (is_events s)\<rparr>"

definition cardSessionID :: "raw_message \<Rightarrow> string" where
  "cardSessionID raw =
     (case decodeObject raw of None \<Rightarrow> [] | Some obj \<Rightarrow> (case stringField obj ''sessionId'' of Some v \<Rightarrow> v | None \<Rightarrow> []))"

definition fromCardEvent :: "stored_event \<Rightarrow> string \<Rightarrow> iteration_event" where
  "fromCardEvent e subtype = \<lparr>ie_Sequence = se_Sequence e, ie_Subtype = subtype, ie_EventType = se_EventType e,
     ie_Data = se_Payload e, ie_CardID = se_CardID e, ie_AgentID = [], ie_AgentSessionID = uuid_Nil, ie_TraceID = None,
     ie_CreatedAt = se_CreatedAt e\<rparr>"

text \<open>\<open>findCard\<close> and \<open>ValidateCardData\<close>, the start of every call.\<close>

definition find_valid :: "iteration_lib \<Rightarrow> uuid \<Rightarrow> card_db \<Rightarrow> iteration_error + card_row \<times> iteration_data" where
  "find_valid lib cardID db =
     (case repo_Get cardID db of
        None \<Rightarrow> Inl (ErrCardStore ErrCardNotFound)
      | Some row \<Rightarrow> (case ValidateCardData lib (cr_Data row) of None \<Rightarrow> Inl ErrInvalidInput | Some data \<Rightarrow> Inr (row, data)))"

definition append_card_event ::
    "instant \<Rightarrow> uuid \<Rightarrow> append_event_input \<Rightarrow> iter_service \<Rightarrow> (iteration_error + stored_event) \<times> iter_service" where
  "append_card_event now cardID inp s =
     (case repo_AppendEvent now cardID inp (is_db s) of
        (Inl e, db) \<Rightarrow> (Inl (ErrCardStore e), s\<lparr>is_db := db\<rparr>)
      | (Inr ev, db) \<Rightarrow> (Inr ev, s\<lparr>is_db := db\<rparr>))"

section \<open>Creation\<close>

fun subtype_progress :: "iteration_subtype \<Rightarrow> string" where
  "subtype_progress SubtypeSearch = ''search''"
| "subtype_progress SubtypeCodeExec = ''code_exec''"
| "subtype_progress SubtypeFileRead = ''file_read''"
| "subtype_progress SubtypeThinking = ''thinking''"
| "subtype_progress SubtypeToolCall = ''tool_call''"

fun subtype_fields :: "iteration_subtype \<Rightarrow> (string \<times> json) list" where
  "subtype_fields SubtypeSearch =
     [(''urlsSearched'', JArr []), (''currentBatch'', JArr []),
      (''searchProgress'', JObj [(''completed'', JNum 0), (''total'', JNum 0)]), (''focusUrls'', JNull)]"
| "subtype_fields SubtypeThinking = [(''steps'', JArr []), (''currentStepId'', JNull)]"
| "subtype_fields _ = []"

definition defaultData :: "iteration_lib \<Rightarrow> uuid \<Rightarrow> instant \<Rightarrow> uuid \<Rightarrow> iteration_subtype \<Rightarrow> string \<Rightarrow> raw_message" where
  "defaultData lib sessionID now cardID subtype agentID = RawJSON (JObj
     ([(''subtype'', JStr (subtype_text subtype)), (''title'', JStr (subtype_text subtype)),
       (''state'', JStr (state_text StRunning)), (''agentId'', JStr agentID), (''sessionId'', JStr (il_String lib sessionID)),
       (''progress'', JObj [(''cardId'', JStr (il_String lib cardID)), (''type'', JStr (subtype_progress subtype)),
          (''title'', JStr (subtype_text subtype)), (''current'', JNum 0), (''total'', JNum 0), (''status'', JStr ''running''),
          (''updatedAt'', JStr (format_rfc3339nano now))])] @ subtype_fields subtype))"

record create_iteration_input =
  cx_ID :: uuid
  cx_TreeID :: uuid
  cx_NodeID :: uuid
  cx_AppID :: string
  cx_Subtype :: string
  cx_Data :: raw_message
  cx_Actions :: "card_action list"
  cx_ContextHash :: string
  cx_AgentID :: string
  cx_Process :: "agent_process option"

text \<open>The row, its first event and the registration of the agent.\<close>

definition store_created ::
    "uuid \<Rightarrow> instant \<Rightarrow> create_card_input \<Rightarrow> string \<Rightarrow> agent_process option \<Rightarrow> iter_service \<Rightarrow>
       (iteration_error + card_row) \<times> iter_service" where
  "store_created eventID now ci agentID process s =
     (case repo_Create now ci (is_db s) of
        (Inl e, db) \<Rightarrow> (Inl (ErrCardStore e), s\<lparr>is_db := db\<rparr>)
      | (Inr created, db) \<Rightarrow>
        (case append_card_event now (ci_ID ci) \<lparr>ai_EventID = eventID, ai_EventType = ''card_created'', ai_ActorKind = ActorAgent,
                ai_ActorID = agentID, ai_Payload = ci_Data ci\<rparr> (s\<lparr>is_db := db\<rparr>) of
           (Inl e, s') \<Rightarrow> (Inl e, s')
         | (Inr _, s') \<Rightarrow>
           (Inr created, s'\<lparr>is_agents := map_put (ci_ID ci) agentID (is_agents s'),
              is_processes := (case process of Some p \<Rightarrow> map_put (ci_ID ci) p (is_processes s') | None \<Rightarrow> is_processes s')\<rparr>)))"

definition CreateCardWithInput ::
    "iteration_lib \<Rightarrow> uuid \<Rightarrow> uuid \<Rightarrow> uuid \<Rightarrow> instant \<Rightarrow> create_iteration_input \<Rightarrow> iter_service \<Rightarrow>
       (iteration_error + card_row) \<times> iter_service" where
  "CreateCardWithInput lib newID sessionID eventID now inp s =
     (case ValidateSubtype (cx_Subtype inp) of None \<Rightarrow> (Inl ErrInvalidInput, s) | Some subtype \<Rightarrow>
        if cx_AgentID inp = [] \<or> \<not> agentIDPattern (cx_AgentID inp) then (Inl ErrInvalidInput, s)
        else if (case cx_Process inp of Some p \<Rightarrow> ap_ID p \<noteq> cx_AgentID inp | None \<Rightarrow> False) then (Inl ErrInvalidInput, s)
        else
          (let i = (if cx_ID inp = uuid_Nil then newID else cx_ID inp);
               data = (if cx_Data inp = RawNil then defaultData lib sessionID now i subtype (cx_AgentID inp) else cx_Data inp)
           in case ValidateCardData lib data of None \<Rightarrow> (Inl ErrInvalidInput, s) | Some parsed \<Rightarrow>
             if id_Subtype parsed \<noteq> subtype \<or> id_AgentID parsed \<noteq> cx_AgentID inp then (Inl ErrInvalidInput, s)
             else store_created eventID now \<lparr>ci_ID = i, ci_TreeID = cx_TreeID inp, ci_NodeID = cx_NodeID inp, ci_AppID = cx_AppID inp,
                    ci_CardType = CardTypeIteration, ci_Data = data, ci_Actions = cx_Actions inp,
                    ci_ContextHash = cx_ContextHash inp\<rparr> (cx_AgentID inp) (cx_Process inp) s))"

definition CreateCard ::
    "iteration_lib \<Rightarrow> uuid \<Rightarrow> uuid \<Rightarrow> uuid \<Rightarrow> instant \<Rightarrow> string \<Rightarrow> string \<Rightarrow> iter_service \<Rightarrow> (iteration_error + card_row) \<times> iter_service" where
  "CreateCard lib newID sessionID eventID now subtype agentID s =
     (if ValidateSubtype subtype = None \<or> agentID = [] \<or> \<not> agentIDPattern agentID then (Inl ErrInvalidInput, s)
      else CreateCardWithInput lib newID sessionID eventID now
        \<lparr>cx_ID = uuid_Nil, cx_TreeID = uuid_Nil, cx_NodeID = uuid_Nil, cx_AppID = ''canopy.agent'', cx_Subtype = subtype,
         cx_Data = RawNil, cx_Actions = [], cx_ContextHash = [], cx_AgentID = agentID, cx_Process = None\<rparr> s)"

definition RegisterProcess ::
    "iteration_lib \<Rightarrow> uuid \<Rightarrow> agent_process option \<Rightarrow> iter_service \<Rightarrow> iteration_error option \<times> iter_service" where
  "RegisterProcess lib cardID process s =
     (case process of None \<Rightarrow> (Some ErrInvalidInput, s) | Some p \<Rightarrow>
       (case find_valid lib cardID (is_db s) of Inl e \<Rightarrow> (Some e, s) | Inr (row, data) \<Rightarrow>
          if ap_ID p \<noteq> id_AgentID data then (Some ErrAgentNotRegistered, s)
          else (None, s\<lparr>is_agents := map_put cardID (id_AgentID data) (is_agents s), is_processes := map_put cardID p (is_processes s)\<rparr>)))"

definition UnregisterProcess :: "uuid \<Rightarrow> iter_service \<Rightarrow> iter_service" where
  "UnregisterProcess cardID s = s\<lparr>is_processes := map_del cardID (is_processes s)\<rparr>"

section \<open>Events\<close>

definition materialize_row :: "instant \<Rightarrow> raw_message \<Rightarrow> card_row \<Rightarrow> card_row" where
  "materialize_row now materialized c = c\<lparr>cr_Data := materialized, cr_Revision := cr_Revision c + 1, cr_UpdatedAt := now\<rparr>"

text \<open>
  The transaction: insert the event, then update the card if its revision is still the one of
  the row \<open>current\<close> that was read; otherwise everything is rolled back.
\<close>

definition commit_event ::
    "instant \<Rightarrow> card_row \<Rightarrow> append_event_input \<Rightarrow> raw_message \<Rightarrow> card_db \<Rightarrow> (iteration_error + stored_event) \<times> card_db" where
  "commit_event now current inp materialized db =
     (case repo_AppendEvent now (cr_ID current) inp db of
        (Inl e, _) \<Rightarrow> (Inl (ErrCardStore e), db)
      | (Inr ev, db') \<Rightarrow>
        if list_ex (\<lambda>c. cr_ID c = cr_ID current \<and> cr_Revision c = cr_Revision current) (cd_cards db')
        then (Inr ev, db'\<lparr>cd_cards := map (\<lambda>c. if cr_ID c = cr_ID current \<and> cr_Revision c = cr_Revision current
                                               then materialize_row now materialized c else c) (cd_cards db')\<rparr>)
        else (Inl ErrMaterializeConflict, db))"

text \<open>What \<open>AppendEvent\<close> computes from the card it read: the completed event, its payload, the new data.\<close>

definition prepare_append ::
    "iteration_lib \<Rightarrow> string option \<Rightarrow> uuid \<Rightarrow> iteration_event \<Rightarrow> card_row \<Rightarrow> iteration_error + iteration_event \<times> raw_message \<times> raw_message" where
  "prepare_append lib agent cardID event0 current =
     (if cr_Status current \<noteq> CardStatusActive then Inl ErrCardNotActive
      else case ValidateCardData lib (cr_Data current) of None \<Rightarrow> Inl ErrInvalidInput | Some data \<Rightarrow>
        if isTerminalState (id_State data) then Inl ErrTerminalCard
        else if id_State data = StInterrupted then Inl ErrRecoveryRequired
        else if ie_Subtype event0 \<noteq> subtype_text (id_Subtype data) then Inl ErrInvalidInput
        else
          (let registered = (case agent of Some a \<Rightarrow> if a = [] then id_AgentID data else a | None \<Rightarrow> id_AgentID data)
           in if ie_AgentID event0 \<noteq> [] \<and> ie_AgentID event0 \<noteq> registered then Inl ErrAgentNotRegistered
              else
                (let session = (if ie_AgentSessionID event0 = uuid_Nil then mustParseUUID lib (cardSessionID (cr_Data current))
                                else ie_AgentSessionID event0);
                     event = event0\<lparr>ie_AgentID := registered, ie_AgentSessionID := session\<rparr>
                 in if \<not> validateUUIDv7 lib session then Inl ErrInvalidInput
                    else if il_String lib session \<noteq> cardSessionID (cr_Data current) then Inl ErrInvalidInput
                    else if \<not> ValidateEventPair (id_Subtype data) (ie_EventType event) (ie_Data event) then Inl ErrInvalidInput
                    else if ie_CardID event \<noteq> uuid_Nil \<and> ie_CardID event \<noteq> cardID then Inl ErrInvalidInput
                    else case reduceEvent (cr_Data current) (id_Subtype data) (ie_EventType event) (ie_Data event) of
                        None \<Rightarrow> Inl ErrInvalidInput
                      | Some materialized \<Rightarrow>
                        (let payload = encode_envelope lib \<lparr>pe_Subtype = id_Subtype data, pe_Data = ie_Data event,
                               pe_AgentSessionID = session, pe_TraceID = ie_TraceID event\<rparr>
                         in if ValidatePayloadEnvelope lib payload = None then Inl ErrInvalidInput
                            else Inr (event, payload, materialized)))))"

definition AppendEvent ::
    "iteration_lib \<Rightarrow> uuid \<Rightarrow> instant \<Rightarrow> uuid \<Rightarrow> iteration_event \<Rightarrow> iter_service \<Rightarrow> iteration_error option \<times> iter_service" where
  "AppendEvent lib eventID now cardID event0 s =
     (case repo_Get cardID (is_db s) of
        None \<Rightarrow> (Some (ErrCardStore ErrCardNotFound), s)
      | Some current \<Rightarrow>
        (case prepare_append lib (map_of (is_agents s) cardID) cardID event0 current of
           Inl e \<Rightarrow> (Some e, s)
         | Inr (event, payload, materialized) \<Rightarrow>
           (case commit_event now current \<lparr>ai_EventID = eventID, ai_EventType = ie_EventType event, ai_ActorKind = ActorAgent,
                   ai_ActorID = ie_AgentID event, ai_Payload = payload\<rparr> materialized (is_db s) of
              (Inl e, db) \<Rightarrow> (Some e, s\<lparr>is_db := db\<rparr>)
            | (Inr stored, db) \<Rightarrow>
              (None, publish_event cardID (event\<lparr>ie_Sequence := se_Sequence stored, ie_CardID := cardID, ie_CreatedAt := now\<rparr>)
                 (s\<lparr>is_db := db\<rparr>)))))"

section \<open>Patches\<close>

record iteration_patch =
  ip_Data :: raw_message
  ip_Presentation :: raw_message
  ip_Agent :: bool

definition protected_fields :: "string list" where
  "protected_fields = [''agentId'', ''sessionId'', ''subtype'', ''command'', ''path'', ''absolutePath'', ''params'', ''result'']"

text \<open>The data a patch asks for, from an agent and from a browser.\<close>

definition patch_data ::
    "(uuid, agent_process) gomap \<Rightarrow> uuid \<Rightarrow> card_row \<Rightarrow> iteration_data \<Rightarrow> iteration_patch \<Rightarrow> iteration_error + raw_message" where
  "patch_data processes cardID current data inp =
     (if ip_Agent inp then
        (if ip_Data inp = RawNil then Inl ErrPatchForbidden
         else case decodeObject (ip_Data inp) of None \<Rightarrow> Inl ErrInvalidInput | Some patchObject \<Rightarrow>
           if (case map_of processes cardID of None \<Rightarrow> True | Some p \<Rightarrow> ap_ID p \<noteq> id_AgentID data) then Inl ErrAgentNotRegistered
           else if list_ex (map_has patchObject) protected_fields then Inl ErrPatchForbidden
           else case decodeObject (cr_Data current) of None \<Rightarrow> Inl ErrInvalidInput | Some currentObject \<Rightarrow>
             if ip_Presentation inp \<noteq> RawNil then Inl ErrPatchForbidden
             else Inr (RawJSON (JObj (fold (\<lambda>(k, v) m. map_put k v m) patchObject currentObject))))
      else
        (case ip_Presentation inp of
           RawNil \<Rightarrow> Inl ErrPatchForbidden
         | RawInvalid _ \<Rightarrow> Inl ErrInvalidInput
         | RawJSON presentation \<Rightarrow>
           (case decodeObject (cr_Data current) of None \<Rightarrow> Inl ErrInvalidInput
            | Some currentObject \<Rightarrow> Inr (RawJSON (JObj (map_put ''presentation'' presentation currentObject))))))"

definition PatchCard ::
    "iteration_lib \<Rightarrow> uuid \<Rightarrow> instant \<Rightarrow> uuid \<Rightarrow> int \<Rightarrow> iteration_patch \<Rightarrow> iter_service \<Rightarrow> (iteration_error + card_row) \<times> iter_service" where
  "PatchCard lib eventID now cardID expectedRevision inp s =
     (case find_valid lib cardID (is_db s) of Inl e \<Rightarrow> (Inl e, s) | Inr (current, data) \<Rightarrow>
        if isTerminalState (id_State data) then (Inl ErrTerminalCard, s)
        else if id_State data = StInterrupted then (Inl ErrRecoveryRequired, s)
        else case patch_data (is_processes s) cardID current data inp of Inl e \<Rightarrow> (Inl e, s) | Inr patched \<Rightarrow>
          if ValidateCardData lib patched = None then (Inl ErrInvalidInput, s)
          else case repo_Patch now cardID expectedRevision
              \<lparr>pi_Data = Some patched, pi_Actions = None, pi_Status = None, pi_ContextHash = None\<rparr> (is_db s) of
            (Inl e, db) \<Rightarrow> (Inl (ErrCardStore e), s\<lparr>is_db := db\<rparr>)
          | (Inr updated, db) \<Rightarrow>
            (case append_card_event now cardID \<lparr>ai_EventID = eventID, ai_EventType = ''card_updated'',
                    ai_ActorKind = (if ip_Agent inp then ActorAgent else ActorUser),
                    ai_ActorID = (if ip_Agent inp then id_AgentID data else ''user''), ai_Payload = patched\<rparr> (s\<lparr>is_db := db\<rparr>) of
               (Inl e, s') \<Rightarrow> (Inl e, s')
             | (Inr _, s') \<Rightarrow> (Inr updated, s')))"

section \<open>Feedback\<close>

definition SubmitFeedbackEvent ::
    "iteration_lib \<Rightarrow> uuid \<Rightarrow> uuid \<Rightarrow> instant \<Rightarrow> uuid \<Rightarrow> feedback_input \<Rightarrow> iter_service \<Rightarrow>
       (iteration_error + feedback_event) \<times> iter_service" where
  "SubmitFeedbackEvent lib feedbackID eventID now cardID inp s =
     (case repo_Get cardID (is_db s) of None \<Rightarrow> (Inl (ErrCardStore ErrCardNotFound), s) | Some row \<Rightarrow>
        if cr_Status row \<noteq> CardStatusActive then (Inl ErrCardNotActive, s)
        else case ValidateCardData lib (cr_Data row) of None \<Rightarrow> (Inl ErrInvalidInput, s) | Some parsed \<Rightarrow>
          if fi_CardID inp \<noteq> uuid_Nil \<and> fi_CardID inp \<noteq> cardID then (Inl ErrInvalidInput, s)
          else if fi_Subtype inp \<noteq> subtype_text (id_Subtype parsed) then (Inl ErrInvalidInput, s)
          else if il_String lib (fi_SessionID inp) \<noteq> cardSessionID (cr_Data row) then (Inl ErrInvalidInput, s)
          else if \<not> validateFeedback lib inp parsed then (Inl ErrInvalidInput, s)
          else
            (let feedback = \<lparr>fb_ID = feedbackID, fb_CardID = cardID, fb_Subtype = fi_Subtype inp, fb_Kind = fi_Kind inp,
                   fb_Target = fi_Target inp, fb_Note = fi_Note inp, fb_ActorID = fi_ActorID inp, fb_SessionID = fi_SessionID inp,
                   fb_CreatedAt = (if time_IsZero (fi_Timestamp inp) then now else fi_Timestamp inp), fb_Acknowledged = False\<rparr>
             in case append_card_event now cardID \<lparr>ai_EventID = eventID, ai_EventType = ''user_feedback'', ai_ActorKind = ActorUser,
                       ai_ActorID = fi_ActorID inp, ai_Payload = encode_feedback lib feedback\<rparr> s of
                  (Inl e, s') \<Rightarrow> (Inl e, s')
                | (Inr stored, s') \<Rightarrow>
                  (Inr feedback, publish_event cardID (fromCardEvent stored (subtype_text (id_Subtype parsed)))
                     (s'\<lparr>is_feedback := feedback_publish feedback (is_feedback s')\<rparr>))))"

definition feedback_found :: "iteration_lib \<Rightarrow> uuid \<Rightarrow> stored_event list \<Rightarrow> string option" where
  "feedback_found lib feedbackID events =
     fold (\<lambda>e found. if se_EventType e = ''user_feedback'' then
         (case decode_feedback lib (se_Payload e) of
            Some f \<Rightarrow> if fb_ID f = feedbackID then Some (fb_Subtype f) else found | None \<Rightarrow> found) else found) events None"

definition ack_found :: "iteration_lib \<Rightarrow> uuid \<Rightarrow> stored_event list \<Rightarrow> bool" where
  "ack_found lib feedbackID events \<longleftrightarrow>
     list_ex (\<lambda>e. se_EventType e = ''feedback_acknowledged'' \<and> decode_ack lib (se_Payload e) = Some feedbackID) events"

definition Acknowledge ::
    "iteration_lib \<Rightarrow> uuid \<Rightarrow> instant \<Rightarrow> uuid \<Rightarrow> uuid \<Rightarrow> iter_service \<Rightarrow> iteration_error option \<times> iter_service" where
  "Acknowledge lib eventID now cardID feedbackID s =
     (if repo_Get cardID (is_db s) = None then (Some (ErrCardStore ErrCardNotFound), s)
      else
        (let events = repo_ListEvents cardID 0 10000 (is_db s) in
         case feedback_found lib feedbackID events of None \<Rightarrow> (Some ErrFeedbackNotFound, s) | Some feedbackSubtype \<Rightarrow>
           if ack_found lib feedbackID events then (None, s)
           else case append_card_event now cardID \<lparr>ai_EventID = eventID, ai_EventType = ''feedback_acknowledged'', ai_ActorKind = ActorAgent,
                    ai_ActorID = ''agent'', ai_Payload = RawJSON (JObj [(''feedback_id'', JStr (il_String lib feedbackID))])\<rparr> s of
               (Inl e, s') \<Rightarrow> (Some e, s')
             | (Inr stored, s') \<Rightarrow>
               (None, publish_event cardID (fromCardEvent stored feedbackSubtype)
                  (s'\<lparr>is_feedback := feedback_acknowledge feedbackID (is_feedback s')\<rparr>))))"

definition SubscribeFeedback ::
    "iteration_lib \<Rightarrow> uuid \<Rightarrow> iter_service \<Rightarrow> (iteration_error + nat) \<times> iter_service" where
  "SubscribeFeedback lib cardID s =
     (if repo_Get cardID (is_db s) = None then (Inl (ErrCardStore ErrCardNotFound), s)
      else (case feedback_subscribe cardID (durablePending lib (repo_ListEvents cardID 0 10000 (is_db s))) (is_feedback s) of
              (i, h) \<Rightarrow> (Inr i, s\<lparr>is_feedback := h\<rparr>)))"

text \<open>A cancellation draws three identifiers for events and one for the feedback.\<close>

definition CancelCard ::
    "iteration_lib \<Rightarrow> uuid \<Rightarrow> uuid \<Rightarrow> uuid \<Rightarrow> uuid \<Rightarrow> instant \<Rightarrow> uuid \<Rightarrow> iter_service \<Rightarrow> iteration_error option \<times> iter_service" where
  "CancelCard lib ev1 feedbackID ev2 ev3 now cardID s =
     (case find_valid lib cardID (is_db s) of Inl e \<Rightarrow> (Some e, s) | Inr (current, data) \<Rightarrow>
        if isTerminalState (id_State data) then (None, s)
        else case append_card_event now cardID \<lparr>ai_EventID = ev1, ai_EventType = ''action_requested'', ai_ActorKind = ActorUser,
                 ai_ActorID = ''user'', ai_Payload = RawJSON (JObj [(''action'', JStr ''cancel'')])\<rparr> s of
          (Inl e, s1) \<Rightarrow> (Some e, s1)
        | (Inr _, s1) \<Rightarrow>
          (let session = mustParseUUID lib (cardSessionID (cr_Data current)) in
           case SubmitFeedbackEvent lib feedbackID ev2 now cardID
               \<lparr>fi_CardID = cardID, fi_Subtype = subtype_text (id_Subtype data), fi_Kind = ''cancel'', fi_Target = RawNil, fi_Note = [],
                fi_ActorID = ''user'', fi_SessionID = session, fi_Timestamp = now\<rparr> s1 of
             (Inl e, s2) \<Rightarrow> (Some e, s2)
           | (Inr _, s2) \<Rightarrow>
             (case map_of (is_processes s2) cardID of
                None \<Rightarrow> (Some ErrAgentNotRegistered, s2)
              | Some process \<Rightarrow>
                if \<not> ap_Cancel process then (Some ErrCancelRejected, s2)
                else AppendEvent lib ev3 now cardID
                  \<lparr>ie_Sequence = 0, ie_Subtype = subtype_text (id_Subtype data), ie_EventType = ''card_cancelled'',
                   ie_Data = RawJSON (JObj [(''reason'', JStr ''accepted'')]), ie_CardID = uuid_Nil, ie_AgentID = id_AgentID data,
                   ie_AgentSessionID = session, ie_TraceID = None, ie_CreatedAt = 0\<rparr> s2)))"

section \<open>Reading\<close>

definition svc_GetIterationCard :: "iteration_lib \<Rightarrow> uuid \<Rightarrow> iter_service \<Rightarrow> iteration_error + card_row" where
  "svc_GetIterationCard lib cardID s = (case find_valid lib cardID (is_db s) of Inl e \<Rightarrow> Inl e | Inr (row, _) \<Rightarrow> Inr row)"

definition active_state :: "iteration_lib \<Rightarrow> card_row \<Rightarrow> bool" where
  "active_state lib row \<longleftrightarrow> (case ValidateCardData lib (cr_Data row) of None \<Rightarrow> False
     | Some d \<Rightarrow> id_State d \<in> {StRunning, StWaitingForUser, StInterrupted})"

definition ListActiveCards :: "iteration_lib \<Rightarrow> iter_service \<Rightarrow> card_row list" where
  "ListActiveCards lib s =
     (let cards = repo_List \<lparr>lo_TreeID = None, lo_NodeID = None, lo_AppID = [], lo_CardType = Some CardTypeIteration,
                    lo_Status = Some CardStatusActive, lo_Limit = 10000, lo_Offset = 0\<rparr> (is_db s);
          seq = (\<lambda>c. repo_MaxSequence (cr_ID c) (is_db s))
      in sort_stable (\<lambda>x y. if seq x \<noteq> seq y then seq x > seq y else cr_UpdatedAt x > cr_UpdatedAt y)
           (filter (active_state lib) cards))"

fun all_some :: "'a option list \<Rightarrow> 'a list option" where
  "all_some [] = Some []"
| "all_some (None # xs) = None"
| "all_some (Some x # xs) = map_option (Cons x) (all_some xs)"

definition activeProgressRecords :: "iteration_lib \<Rightarrow> iter_service \<Rightarrow> progress_record list option" where
  "activeProgressRecords lib s = all_some (map (progressRecordFromCard lib) (ListActiveCards lib s))"

definition GetProgress :: "iteration_lib \<Rightarrow> iter_service \<Rightarrow> card_progress list option" where
  "GetProgress lib s = map_option (map pr_progress) (activeProgressRecords lib s)"

definition GetCardProgress :: "iteration_lib \<Rightarrow> uuid \<Rightarrow> iter_service \<Rightarrow> card_progress option" where
  "GetCardProgress lib cardID s =
     (case svc_GetIterationCard lib cardID s of Inl _ \<Rightarrow> None | Inr row \<Rightarrow> map_option pr_progress (progressRecordFromCard lib row))"

definition svc_AggregateHeader :: "iteration_lib \<Rightarrow> iter_service \<Rightarrow> progress_header option" where
  "svc_AggregateHeader lib s = map_option aggregateProgressHeader (activeProgressRecords lib s)"

definition AggregateCardHeader :: "iteration_lib \<Rightarrow> uuid \<Rightarrow> iter_service \<Rightarrow> progress_header option" where
  "AggregateCardHeader lib cardID s =
     (case svc_GetIterationCard lib cardID s of Inl _ \<Rightarrow> None
      | Inr row \<Rightarrow> map_option (\<lambda>r. aggregateProgressHeader [r]) (progressRecordFromCard lib row))"

definition SubscribeEvents :: "iteration_lib \<Rightarrow> uuid \<Rightarrow> iter_service \<Rightarrow> (iteration_error + nat) \<times> iter_service" where
  "SubscribeEvents lib cardID s =
     (case find_valid lib cardID (is_db s) of Inl e \<Rightarrow> (Inl e, s)
      | Inr _ \<Rightarrow> (case hub_Subscribe cardID (is_events s) of (i, h) \<Rightarrow> (Inr i, s\<lparr>is_events := h\<rparr>)))"

text \<open>The typed decoding of a stored payload: all of its fields must have the right type.\<close>

definition assignPayload :: "iteration_lib \<Rightarrow> string \<Rightarrow> json \<Rightarrow> raw_message \<times> uuid \<Rightarrow> (raw_message \<times> uuid) option" where
  "assignPayload lib k v x =
     (if k = ''subtype'' then assign_string v (\<lambda>_. x) x
      else if k = ''data'' then Some (RawJSON v, snd x)
      else if k = ''agent_session_id'' then assign_uuid lib v (\<lambda>u. (fst x, u)) x
      else if k = ''trace_id'' then assign_uuid lib v (\<lambda>_. x) x
      else Some x)"

definition event_data :: "iteration_lib \<Rightarrow> raw_message \<Rightarrow> raw_message" where
  "event_data lib payload =
     (case decode_struct (assignPayload lib) payload (RawNil, uuid_Nil) of
        Some (d, _) \<Rightarrow> if d \<noteq> RawNil then d else payload | None \<Rightarrow> payload)"

definition svc_ListIterationEvents ::
    "iteration_lib \<Rightarrow> uuid \<Rightarrow> int \<Rightarrow> int \<Rightarrow> iter_service \<Rightarrow> iteration_error + iteration_event list" where
  "svc_ListIterationEvents lib cardID afterSequence limit s =
     (case find_valid lib cardID (is_db s) of Inl e \<Rightarrow> Inl e | Inr (_, parsed) \<Rightarrow>
        Inr (map (\<lambda>e. \<lparr>ie_Sequence = se_Sequence e, ie_Subtype = subtype_text (id_Subtype parsed), ie_EventType = se_EventType e,
               ie_Data = event_data lib (se_Payload e), ie_CardID = se_CardID e, ie_AgentID = se_ActorID e,
               ie_AgentSessionID = uuid_Nil, ie_TraceID = None, ie_CreatedAt = se_CreatedAt e\<rparr>)
             (repo_ListEvents cardID afterSequence limit (is_db s))))"

section \<open>Crash and recovery\<close>

definition removeLiveProcess :: "uuid \<Rightarrow> iter_service \<Rightarrow> iter_service" where
  "removeLiveProcess cardID s = s\<lparr>is_processes := map_del cardID (is_processes s), is_recovery := map_del cardID (is_recovery s)\<rparr>"

definition commitRecoveryEvent ::
    "iteration_lib \<Rightarrow> uuid \<Rightarrow> instant \<Rightarrow> card_row \<Rightarrow> iteration_data \<Rightarrow> string \<Rightarrow> raw_message \<Rightarrow> raw_message \<Rightarrow> iter_service \<Rightarrow>
       (iteration_error + iteration_event) \<times> iter_service" where
  "commitRecoveryEvent lib eventID now current data eventType eventData materialized s =
     (let session = mustParseUUID lib (cardSessionID (cr_Data current));
          payload = encode_envelope lib \<lparr>pe_Subtype = id_Subtype data, pe_Data = eventData, pe_AgentSessionID = session, pe_TraceID = None\<rparr>
      in if ValidatePayloadEnvelope lib payload = None then (Inl ErrInvalidInput, s)
         else case commit_event now current \<lparr>ai_EventID = eventID, ai_EventType = eventType, ai_ActorKind = ActorAgent,
                  ai_ActorID = id_AgentID data, ai_Payload = payload\<rparr> materialized (is_db s) of
             (Inl e, db) \<Rightarrow> (Inl e, s\<lparr>is_db := db\<rparr>)
           | (Inr stored, db) \<Rightarrow>
             (Inr \<lparr>ie_Sequence = se_Sequence stored, ie_Subtype = subtype_text (id_Subtype data), ie_EventType = eventType,
                   ie_Data = eventData, ie_CardID = cr_ID current, ie_AgentID = id_AgentID data, ie_AgentSessionID = session,
                   ie_TraceID = None, ie_CreatedAt = now\<rparr>, s\<lparr>is_db := db\<rparr>))"

definition crash_data :: "string \<Rightarrow> process_status option \<Rightarrow> raw_message" where
  "crash_data agentID status = RawJSON (JObj
     [(''agent_id'', JStr agentID),
      (''code'', JStr (if status \<noteq> None then ''ITERATION_PROCESS_CRASHED'' else ''ITERATION_AGENT_NOT_FOUND'')),
      (''message'', JStr (if status \<noteq> None then ''agent process reported an unexpected exit''
                         else ''agent process disappeared without a status report'')),
      (''status'', JStr (case status of Some p \<Rightarrow> process_status_text p | None \<Rightarrow> []))])"

text \<open>Storing a crash, dropping the process and telling the subscribers, with a snapshot of the card.\<close>

definition store_crash ::
    "iteration_lib \<Rightarrow> uuid \<Rightarrow> instant \<Rightarrow> uuid \<Rightarrow> card_row \<Rightarrow> iteration_data \<Rightarrow> raw_message \<Rightarrow> iter_service \<Rightarrow>
       iteration_error option \<times> iter_service" where
  "store_crash lib eventID now cardID current data eventData s =
     (case reduceEvent (cr_Data current) (id_Subtype data) ''agent_error'' eventData of
        None \<Rightarrow> (Some ErrInvalidInput, s)
      | Some materialized \<Rightarrow>
        (case commitRecoveryEvent lib eventID now current data ''agent_error'' eventData materialized s of
           (Inl e, s') \<Rightarrow> (Some e, s')
         | (Inr stored, s') \<Rightarrow>
           (None, publish_event cardID
              (stored\<lparr>ie_EventType := ''card_snapshot'', ie_Data := materialized, ie_CardID := cardID\<rparr>)
              (publish_event cardID stored (removeLiveProcess cardID s')))))"

definition live_agent :: "uuid \<Rightarrow> iter_service \<Rightarrow> string" where
  "live_agent cardID s = (case map_of (is_processes s) cardID of Some p \<Rightarrow> ap_ID p | None \<Rightarrow> [])"

text \<open>The empty status, of a process that vanished, is \<open>None\<close>.\<close>

definition ReportProcessStatus ::
    "iteration_lib \<Rightarrow> uuid \<Rightarrow> instant \<Rightarrow> uuid \<Rightarrow> string \<Rightarrow> process_status option \<Rightarrow> iter_service \<Rightarrow> iteration_error option \<times> iter_service" where
  "ReportProcessStatus lib eventID now cardID agentID0 status s =
     (case find_valid lib cardID (is_db s) of Inl e \<Rightarrow> (Some e, s) | Inr (current, data) \<Rightarrow>
        (let agentID = (if agentID0 = [] then live_agent cardID s else agentID0)
         in if agentID \<noteq> id_AgentID data then (Some ErrAgentNotRegistered, s)
            else if status \<noteq> None \<and> status \<noteq> Some ProcCrashed \<and> status \<noteq> Some ProcStopped then (Some ErrInvalidInput, s)
            else if isTerminalState (id_State data) then (None, removeLiveProcess cardID s)
            else if cr_Status current \<noteq> CardStatusActive then (Some ErrCardNotActive, s)
            else if id_State data = StInterrupted then (None, removeLiveProcess cardID s)
            else if status \<noteq> None \<and> (map_of (is_processes s) cardID = None \<or> live_agent cardID s \<noteq> agentID) then (Some ErrAgentNotRegistered, s)
            else store_crash lib eventID now cardID current data (crash_data agentID status) s))"

definition ReportMissingProcess ::
    "iteration_lib \<Rightarrow> uuid \<Rightarrow> instant \<Rightarrow> uuid \<Rightarrow> string \<Rightarrow> iter_service \<Rightarrow> iteration_error option \<times> iter_service" where
  "ReportMissingProcess lib eventID now cardID agentID s = ReportProcessStatus lib eventID now cardID agentID None s"

definition BeginRecovery ::
    "iteration_lib \<Rightarrow> uuid \<Rightarrow> agent_process option \<Rightarrow> iter_service \<Rightarrow> (iteration_error + nat) \<times> iter_service" where
  "BeginRecovery lib cardID process s =
     (case find_valid lib cardID (is_db s) of Inl e \<Rightarrow> (Inl e, s) | Inr (row, parsed) \<Rightarrow>
        if id_State parsed \<noteq> StInterrupted then (Inl ErrRecoveryRequired, s)
        else case RegisterProcess lib cardID process s of
            (Some e, s1) \<Rightarrow> (Inl e, s1)
          | (None, s1) \<Rightarrow>
            (case SubscribeFeedback lib cardID s1 of
               (Inl e, s2) \<Rightarrow> (Inl e, UnregisterProcess cardID s2)
             | (Inr i, s2) \<Rightarrow>
               (Inr i, s2\<lparr>is_recovery := map_put cardID \<lparr>rs_agentID = (case process of Some p \<Rightarrow> ap_ID p | None \<Rightarrow> []),
                  rs_replaySent = True\<rparr> (is_recovery s2)\<rparr>)))"

definition resume_data :: "string \<Rightarrow> raw_message" where
  "resume_data agentID = RawJSON (JObj [(''message'', JStr ''resumed''), (''recovered_from'', JStr agentID)])"

definition ResumeProcess ::
    "iteration_lib \<Rightarrow> uuid \<Rightarrow> instant \<Rightarrow> uuid \<Rightarrow> string \<Rightarrow> iter_service \<Rightarrow> iteration_error option \<times> iter_service" where
  "ResumeProcess lib eventID now cardID agentID s =
     (case find_valid lib cardID (is_db s) of Inl e \<Rightarrow> (Some e, s) | Inr (current, data) \<Rightarrow>
        if id_State data \<noteq> StInterrupted then (Some ErrRecoveryRequired, s)
        else if (case map_of (is_processes s) cardID of Some p \<Rightarrow> ap_ID p \<noteq> agentID | None \<Rightarrow> True) \<or>
                (case map_of (is_recovery s) cardID of Some r \<Rightarrow> rs_agentID r \<noteq> agentID | None \<Rightarrow> True)
        then (Some ErrRecoveryRequired, s)
        else if durablePending lib (repo_ListEvents cardID 0 10000 (is_db s)) \<noteq> [] then (Some ErrRecoveryRequired, s)
        else case reduceEvent (cr_Data current) (id_Subtype data) ''agent_progress'' (resume_data agentID) of
            None \<Rightarrow> (Some ErrInvalidInput, s)
          | Some m \<Rightarrow>
            (case decodeObject m of None \<Rightarrow> (Some ErrInvalidInput, s) | Some object \<Rightarrow>
              (case commitRecoveryEvent lib eventID now current data ''agent_progress'' (resume_data agentID)
                      (RawJSON (JObj (map_put ''state'' (JStr (state_text StRunning)) object))) s of
                 (Inl e, s') \<Rightarrow> (Some e, s')
               | (Inr stored, s') \<Rightarrow>
                 (None, publish_event cardID stored (s'\<lparr>is_recovery := map_del cardID (is_recovery s')\<rparr>)))))"

text \<open>
  A poll reports the crashed processes of the snapshot it takes, in the order the map gives,
  with an identifier and a time each; an error other than an unknown agent stops it.
\<close>

fun poll_processes ::
    "iteration_lib \<Rightarrow> instant \<Rightarrow> (uuid \<times> agent_process) list \<Rightarrow> uuid list \<Rightarrow> iter_service \<Rightarrow> iteration_error option \<times> iter_service" where
  "poll_processes lib now [] ids s = (None, s)"
| "poll_processes lib now ((cardID, p) # ps) ids s =
     (if ap_Status p \<noteq> ProcCrashed \<and> ap_Status p \<noteq> ProcStopped then poll_processes lib now ps ids s
      else case ReportProcessStatus lib (hd ids) now cardID (ap_ID p) (Some (ap_Status p)) s of
          (Some e, s') \<Rightarrow> if e = ErrAgentNotRegistered then poll_processes lib now ps (tl ids) s' else (Some e, s')
        | (None, s') \<Rightarrow> poll_processes lib now ps (tl ids) s')"

definition monitor_Poll :: "iteration_lib \<Rightarrow> instant \<Rightarrow> uuid list \<Rightarrow> iter_service \<Rightarrow> iteration_error option \<times> iter_service" where
  "monitor_Poll lib now ids s = poll_processes lib now (is_processes s) ids s"

end
