(* ===== verification/Iteration_Lifecycle.thy ===== *)
theory Iteration_Lifecycle
  imports Iteration_Service
begin

text \<open>
  What the calls of the iteration card service do to a card: the identity of its data never
  changes, settled cards never change, an interrupted card leaves its state only by
  \<open>ResumeProcess\<close>, and an event and the data it leads to are stored together or not at all.
\<close>

section \<open>The reducer and the identity of a card\<close>

definition identity :: "raw_message \<Rightarrow> (json option \<times> json option \<times> json option) option" where
  "identity raw = map_option (\<lambda>d. (map_of d ''subtype'', map_of d ''agentId'', map_of d ''sessionId'')) (decodeObject raw)"

definition kept :: "string \<Rightarrow> bool" where
  "kept k \<longleftrightarrow> k \<in> {''subtype'', ''agentId'', ''sessionId''}"

lemma kept_neq:
  assumes "kept k"
  shows "k \<noteq> ''state''" "k \<noteq> ''progress''" "k \<noteq> ''searchProgress''" "k \<noteq> ''urlsSearched''" "k \<noteq> ''currentBatch''"
    "k \<noteq> ''steps''" "k \<noteq> ''currentStepId''" "k \<noteq> ''presentation''"
  using assms by (auto simp: kept_def)

lemma setState_frame: "kept k \<Longrightarrow> map_of (setState st d) k = map_of d k"
  by (simp add: setState_def on_progress_other map_of_put kept_neq)

lemma setProgress_frame: "kept k \<Longrightarrow> map_of (setProgress c t d) k = map_of d k"
  by (simp add: setProgress_def on_progress_other kept_neq)

lemma put_frame: "kept k \<Longrightarrow> k \<noteq> k' \<Longrightarrow> map_of (map_put k' v d) k = map_of d k"
  by (simp add: map_of_put)

lemmas frames = setState_frame setProgress_frame put_frame kept_neq on_progress_other

lemma search_frame: "kept k \<Longrightarrow> reduce_search e ev d = Some d' \<Longrightarrow> map_of d' k = map_of d k"
  unfolding reduce_search_def by (auto simp: Let_def frames split: if_splits option.splits)

lemma exec_frame: "kept k \<Longrightarrow> map_of (reduce_exec e ev d) k = map_of d k"
  unfolding reduce_exec_def by (simp add: frames)

lemma file_frame: "kept k \<Longrightarrow> map_of (reduce_file e ev d) k = map_of d k"
  unfolding reduce_file_def by (simp add: frames Let_def)

lemma tool_frame: "kept k \<Longrightarrow> map_of (reduce_tool e ev d) k = map_of d k"
  unfolding reduce_tool_def by (simp add: frames Let_def)

lemma thinking_frame: "kept k \<Longrightarrow> reduce_thinking e ev d = Some d' \<Longrightarrow> map_of d' k = map_of d k"
  unfolding reduce_thinking_def by (auto simp: Let_def frames split: if_splits option.splits)

lemma subtype_frame: "kept k \<Longrightarrow> reduce_subtype t e ev d = Some d' \<Longrightarrow> map_of d' k = map_of d k"
  using search_frame thinking_frame
  by (cases t) (auto simp: reduce_subtype_def exec_frame file_frame tool_frame)

lemma lifecycle_frame: "kept k \<Longrightarrow> map_of (reduce_lifecycle e ev d) k = map_of d k"
  unfolding reduce_lifecycle_def by (simp add: frames Let_def)

lemma phase_frame: "kept k \<Longrightarrow> map_of (reduce_phase ev d) k = map_of d k"
  unfolding reduce_phase_def by (simp add: frames)

lemma set_ok: "map_ok d \<Longrightarrow> map_ok (setState st d)" "map_ok d \<Longrightarrow> map_ok (setProgress c t d)"
  by (simp_all add: setState_def setProgress_def map_ok_on_progress)

lemma subtype_ok: "map_ok d \<Longrightarrow> reduce_subtype t e ev d = Some d' \<Longrightarrow> map_ok d'"
proof -
  assume d: "map_ok d" and r: "reduce_subtype t e ev d = Some d'"
  have "map_ok d'" if "reduce_search e ev d = Some d'"
    using that d unfolding reduce_search_def by (auto simp: Let_def set_ok split: if_splits option.splits)
  moreover have "map_ok (reduce_exec e ev d)" "map_ok (reduce_file e ev d)" "map_ok (reduce_tool e ev d)"
    using d by (simp_all add: reduce_exec_def reduce_file_def reduce_tool_def Let_def set_ok map_ok_on_progress)
  moreover have "map_ok d'" if "reduce_thinking e ev d = Some d'"
    using that d unfolding reduce_thinking_def by (auto simp: Let_def set_ok split: if_splits option.splits)
  ultimately show ?thesis using r by (cases t) (auto simp: reduce_subtype_def)
qed

lemma lifecycle_ok: "map_ok d \<Longrightarrow> map_ok (reduce_lifecycle e ev d)"
  by (simp add: reduce_lifecycle_def Let_def set_ok)

lemma identity_encoded: "map_ok d \<Longrightarrow> identity (RawJSON (JObj d)) = Some (map_of d ''subtype'', map_of d ''agentId'', map_of d ''sessionId'')"
  by (simp add: identity_def)

lemma kept_keys [simp]: "kept ''subtype''" "kept ''agentId''" "kept ''sessionId''"
  by (simp_all add: kept_def)

lemma identity_cong:
  assumes "decodeObject raw = Some d" "map_ok d'" "\<And>k. kept k \<Longrightarrow> map_of d' k = map_of d k"
  shows "identity (RawJSON (JObj d')) = identity raw"
  using assms by (simp add: identity_def)

lemma reduceEvent_identity:
  assumes "reduceEvent raw t e ev = Some raw'"
  shows "identity raw' = identity raw"
proof -
  obtain d event d1 where d: "decodeObject raw = Some d" "reduce_subtype t e event d = Some d1"
    and raw': "raw' = RawJSON (JObj (reduce_phase event (reduce_lifecycle e event d1)))"
    using assms by (auto simp: reduceEvent_def split: option.splits)
  have "map_ok (reduce_phase event (reduce_lifecycle e event d1))"
    using subtype_ok [OF decodeObject_ok [OF d(1)] d(2)] by (simp add: reduce_phase_def map_ok_on_progress lifecycle_ok)
  then show ?thesis unfolding raw' by (rule identity_cong [OF d(1)]) (simp add: phase_frame lifecycle_frame subtype_frame [OF _ d(2)])
qed

section \<open>Patches and the identity of a card\<close>

lemma fold_put_frame:
  "k \<notin> fst ` set xs \<Longrightarrow> map_of (fold (\<lambda>(k, v) m. map_put k v m) xs m) k = map_of m k"
  by (induction xs arbitrary: m) (auto simp: map_of_put)

lemma patch_data_identity:
  assumes "patch_data processes cardID current data inp = Inr patched"
  shows "identity patched = identity (cr_Data current)"
proof (cases "ip_Agent inp")
  case True
  with assms obtain patch obj where p: "decodeObject (cr_Data current) = Some obj" "\<not> list_ex (map_has patch) protected_fields"
    and eq: "patched = RawJSON (JObj (fold (\<lambda>(k, v) m. map_put k v m) patch obj))"
    by (auto simp: patch_data_def split: if_splits option.splits)
  show ?thesis unfolding eq
  proof (rule identity_cong [OF p(1)])
    show "map_ok (fold (\<lambda>(k, v) m. map_put k v m) patch obj)" by (rule fold_map_put_ok [OF decodeObject_ok [OF p(1)]])
    fix k :: string
    assume "kept k"
    then have "\<not> map_has patch k" using p(2) by (auto simp: kept_def protected_fields_def)
    then show "map_of (fold (\<lambda>(k, v) m. map_put k v m) patch obj) k = map_of obj k"
      by (intro fold_put_frame) (simp add: map_has_fst)
  qed
next
  case False
  with assms obtain v obj where p: "decodeObject (cr_Data current) = Some obj" and eq: "patched = RawJSON (JObj (map_put ''presentation'' v obj))"
    by (auto simp: patch_data_def split: raw_message.splits option.splits)
  show ?thesis unfolding eq using decodeObject_ok [OF p] by (intro identity_cong [OF p]) (simp_all add: frames)
qed

section \<open>How cards move\<close>

text \<open>The lifecycle state of a card; a card whose data is invalid has none.\<close>

definition life :: "iteration_lib \<Rightarrow> card_row \<Rightarrow> iteration_state option" where
  "life lib c = map_option id_State (ValidateCardData lib (cr_Data c))"

text \<open>
  Between the two databases no event is lost and every card is still there with its identity;
  it has changed only if its state was in \<open>F\<close>, and then its revision is greater.
\<close>

definition moved :: "iteration_lib \<Rightarrow> iteration_state option set \<Rightarrow> card_row \<Rightarrow> card_row \<Rightarrow> bool" where
  "moved lib F c c' \<longleftrightarrow> cr_ID c' = cr_ID c \<and> cr_Status c' = cr_Status c \<and> identity (cr_Data c') = identity (cr_Data c) \<and>
     (c' = c \<or> cr_Revision c < cr_Revision c' \<and> life lib c \<in> F)"

definition db_moved :: "iteration_lib \<Rightarrow> iteration_state option set \<Rightarrow> card_db \<Rightarrow> card_db \<Rightarrow> bool" where
  "db_moved lib F db db' \<longleftrightarrow> (\<exists>es. cd_events db' = cd_events db @ es) \<and>
     (\<forall>c \<in> set (cd_cards db). \<exists>c' \<in> set (cd_cards db'). moved lib F c c')"

lemma moved_refl [simp]: "moved lib F c c"
  by (simp add: moved_def)

lemma moved_trans: "moved lib F a b \<Longrightarrow> moved lib F b c \<Longrightarrow> moved lib F a c"
  by (auto simp: moved_def)

lemma db_moved_refl [simp]: "db_moved lib F db db"
  unfolding db_moved_def using moved_refl by blast

lemma db_moved_trans: "db_moved lib F a b \<Longrightarrow> db_moved lib F b c \<Longrightarrow> db_moved lib F a c"
  unfolding db_moved_def by (meson moved_trans append_assoc) (metis append.assoc moved_trans)

lemma moved_mono: "F \<subseteq> G \<Longrightarrow> moved lib F c c' \<Longrightarrow> moved lib G c c'"
  by (auto simp: moved_def)

lemma db_moved_mono: "F \<subseteq> G \<Longrightarrow> db_moved lib F db db' \<Longrightarrow> db_moved lib G db db'"
  unfolding db_moved_def using moved_mono by blast

definition keeps_db :: "iteration_lib \<Rightarrow> iteration_state option set \<Rightarrow> card_db \<Rightarrow> card_db \<Rightarrow> bool" where
  "keeps_db lib F db db' \<longleftrightarrow> (db_ok db \<longrightarrow> db_ok db' \<and> db_moved lib F db db')"

lemma keeps_refl [simp]: "keeps_db lib F db db"
  by (simp add: keeps_db_def)

lemma keeps_trans: "keeps_db lib F a b \<Longrightarrow> keeps_db lib F b c \<Longrightarrow> keeps_db lib F a c"
  unfolding keeps_db_def using db_moved_trans by blast

lemma repo_Create_keeps: "keeps_db lib F db (snd (repo_Create now inp db))"
  unfolding keeps_db_def
  by (auto simp: repo_Create_def repo_Get_def Let_def db_ok_def db_moved_def find_None_iff image_iff intro: moved_refl)

lemma repo_AppendEvent_cards [simp]: "cd_cards (snd (repo_AppendEvent now i inp db)) = cd_cards db"
  by (simp add: repo_AppendEvent_def Let_def)

lemma repo_AppendEvent_keeps: "keeps_db lib F db (snd (repo_AppendEvent now i inp db))"
  unfolding keeps_db_def using repo_AppendEvent_grows [of db now i inp] unfolding db_moved_def db_le_def
  by (auto intro: moved_refl)

lemma db_ok_cards: "db_ok db \<Longrightarrow> map cr_ID cs = map cr_ID (cd_cards db) \<Longrightarrow> db_ok (db\<lparr>cd_cards := cs\<rparr>)"
  by (simp add: db_ok_def)

text \<open>Changing the data of the rows that a predicate selects, all equal to one row.\<close>

lemma update_keeps:
  assumes "\<And>c. c \<in> set (cd_cards db) \<Longrightarrow> P c \<Longrightarrow> moved lib F c (f c)"
  shows "keeps_db lib F db (db\<lparr>cd_cards := map (\<lambda>c. if P c then f c else c) (cd_cards db)\<rparr>)"
proof -
  let ?f = "\<lambda>c. if P c then f c else c"
  have m: "moved lib F c (?f c)" if "c \<in> set (cd_cards db)" for c using assms [OF that] by simp
  then have "\<exists>c' \<in> set (map ?f (cd_cards db)). moved lib F c c'" if "c \<in> set (cd_cards db)" for c
    using that by (intro bexI [of _ "?f c"]) (simp_all only: set_map image_eqI)
  moreover have "map cr_ID (map ?f (cd_cards db)) = map cr_ID (cd_cards db)"
    using m by (simp add: moved_def)
  then have "db_ok db \<Longrightarrow> db_ok (db\<lparr>cd_cards := map ?f (cd_cards db)\<rparr>)" using db_ok_cards by blast
  ultimately show ?thesis unfolding keeps_db_def db_moved_def by simp
qed

lemma same_row: "db_ok db \<Longrightarrow> repo_Get i db = Some c \<Longrightarrow> x \<in> set (cd_cards db) \<Longrightarrow> cr_ID x = i \<Longrightarrow> x = c"
  using repo_Get_Some [of i db c] by (auto simp: db_ok_def distinct_map dest: inj_onD)

lemma commit_event_keeps:
  assumes "repo_Get i db = Some current" and "life lib current \<in> F" and "identity materialized = identity (cr_Data current)"
  shows "keeps_db lib F db (snd (commit_event now current inp materialized db))"
proof (cases "repo_AppendEvent now (cr_ID current) inp db")
  case (Pair r db1)
  have app: "keeps_db lib F db db1" using repo_AppendEvent_keeps [of lib F db now "cr_ID current" inp] Pair by simp
  have cards: "cd_cards db1 = cd_cards db" using repo_AppendEvent_cards [of now "cr_ID current" inp db] Pair by simp
  let ?P = "\<lambda>c. cr_ID c = cr_ID current \<and> cr_Revision c = cr_Revision current"
  let ?db2 = "db1\<lparr>cd_cards := map (\<lambda>c. if ?P c then materialize_row now materialized c else c) (cd_cards db1)\<rparr>"
  have "keeps_db lib F db ?db2"
  proof (cases "db_ok db")
    case True
    have "keeps_db lib F db1 ?db2"
    proof (rule update_keeps)
      fix c assume c: "c \<in> set (cd_cards db1)" "?P c"
      then have "c = current" using same_row [OF True assms(1), of c] repo_Get_Some [OF assms(1)] cards by simp
      then show "moved lib F c (materialize_row now materialized c)"
        using assms(2,3) by (simp add: moved_def materialize_row_def)
    qed
    with app show ?thesis by (rule keeps_trans)
  qed (simp add: keeps_db_def)
  then show ?thesis using Pair by (simp add: commit_event_def split: sum.split)
qed

lemma repo_Patch_keeps:
  assumes "repo_Get i db = Some current" and "life lib current \<in> F" and "identity patched = identity (cr_Data current)"
    and "pi_Data inp = Some patched" "pi_Status inp = None"
  shows "keeps_db lib F db (snd (repo_Patch now i r inp db))"
proof (cases "cr_Revision current = r")
  case True
  have "keeps_db lib F db (db\<lparr>cd_cards := map (\<lambda>c. if cr_ID c = i then patch_row now inp c else c) (cd_cards db)\<rparr>)"
  proof (cases "db_ok db")
    case ok: True
    show ?thesis
    proof (rule update_keeps)
      fix c assume "c \<in> set (cd_cards db)" "cr_ID c = i"
      then have "c = current" using same_row [OF ok assms(1)] by simp
      then show "moved lib F c (patch_row now inp c)" using assms(2-5) by (simp add: moved_def patch_row_def)
    qed
  qed (simp add: keeps_db_def)
  with True assms(1) show ?thesis by (simp add: repo_Patch_def)
qed (use assms(1) in \<open>simp add: repo_Patch_def\<close>)

section \<open>Calls\<close>

definition keeps :: "iteration_lib \<Rightarrow> iteration_state option set \<Rightarrow> iter_service \<Rightarrow> iter_service \<Rightarrow> bool" where
  "keeps lib F s s' \<longleftrightarrow> keeps_db lib F (is_db s) (is_db s')"

abbreviation working :: "iteration_state option set" where
  "working \<equiv> {Some StRunning, Some StWaitingForUser}"

lemma keeps_self [simp]: "keeps lib F s s"
  by (simp add: keeps_def)

lemma keeps_step: "keeps lib F a b \<Longrightarrow> keeps lib F b c \<Longrightarrow> keeps lib F a c"
  unfolding keeps_def by (rule keeps_trans)

lemma is_db_publish [simp]: "is_db (publish_event c ev s) = is_db s"
  by (simp add: publish_event_def)

lemma append_card_event_db [simp]: "is_db (snd (append_card_event now c inp s)) = snd (repo_AppendEvent now c inp (is_db s))"
  by (simp add: append_card_event_def split: prod.split sum.split)

lemma append_card_event_keeps [simp]: "keeps lib F s (snd (append_card_event now c inp s))"
  by (simp add: keeps_def repo_AppendEvent_keeps)

lemma find_valid_Inr:
  "find_valid lib i db = Inr (row, data) \<longleftrightarrow> repo_Get i db = Some row \<and> ValidateCardData lib (cr_Data row) = Some data"
  by (auto simp: find_valid_def split: option.splits)

lemma working_state: "\<not> isTerminalState x \<Longrightarrow> x \<noteq> StInterrupted \<Longrightarrow> Some x \<in> working"
  by (cases x) (simp_all add: isTerminalState_def)

lemma prepare_append_life:
  assumes "prepare_append lib agent cardID event current = Inr (ev, payload, materialized)"
  shows "life lib current \<in> working" and "identity materialized = identity (cr_Data current)"
  using assms working_state reduceEvent_identity
  by (auto simp: prepare_append_def Let_def life_def split: if_splits option.splits)

lemma AppendEvent_keeps: "keeps lib working s (snd (AppendEvent lib eventID now cardID event s))"
proof (cases "repo_Get cardID (is_db s)")
  case (Some current)
  show ?thesis
  proof (cases "prepare_append lib (map_of (is_agents s) cardID) cardID event current")
    case (Inr p)
    then obtain ev payload materialized where p: "prepare_append lib (map_of (is_agents s) cardID) cardID event current = Inr (ev, payload, materialized)"
      by (cases p) auto
    let ?c = "\<lambda>inp. commit_event now current inp materialized (is_db s)"
    have "keeps_db lib working (is_db s) (snd (?c inp))" for inp
      using commit_event_keeps [OF Some prepare_append_life [OF p]] .
    then show ?thesis using Some p by (simp add: AppendEvent_def keeps_def case_prod_unfold split: sum.split)
  qed (use Some in \<open>simp add: AppendEvent_def\<close>)
qed (simp add: AppendEvent_def)

lemma PatchCard_keeps: "keeps lib working s (snd (PatchCard lib eventID now cardID r inp s))"
proof (cases "find_valid lib cardID (is_db s)")
  case (Inr p)
  then obtain current data where f: "find_valid lib cardID (is_db s) = Inr (current, data)" by (cases p) auto
  then have g: "repo_Get cardID (is_db s) = Some current" "life lib current = Some (id_State data)" by (simp_all add: find_valid_Inr life_def)
  show ?thesis
  proof (cases "isTerminalState (id_State data) \<or> id_State data = StInterrupted")
    case False
    then have w: "life lib current \<in> working" using g working_state by simp
    show ?thesis
    proof (cases "patch_data (is_processes s) cardID current data inp")
      case (Inr patched)
      let ?pi = "\<lparr>pi_Data = Some patched, pi_Actions = None, pi_Status = None, pi_ContextHash = None\<rparr>"
      let ?s1 = "s\<lparr>is_db := snd (repo_Patch now cardID r ?pi (is_db s))\<rparr>"
      have 1: "keeps lib working s ?s1" unfolding keeps_def
        using repo_Patch_keeps [OF g(1) w patch_data_identity [OF Inr]] by simp
      have "keeps lib working s (snd (append_card_event now cardID a ?s1))" for a
        by (rule keeps_step [OF 1 append_card_event_keeps])
      with 1 show ?thesis using f False Inr by (simp add: PatchCard_def case_prod_unfold split: sum.split)
    qed (use f False in \<open>simp add: PatchCard_def\<close>)
  qed (use f in \<open>auto simp: PatchCard_def\<close>)
qed (simp add: PatchCard_def)

lemma store_created_keeps: "keeps lib F s (snd (store_created eventID now ci agent process s))"
proof -
  have 1: "keeps lib F s (s\<lparr>is_db := snd (repo_Create now ci (is_db s))\<rparr>)"
    by (simp add: keeps_def repo_Create_keeps)
  have 2: "keeps lib F s (snd (append_card_event now i a (s\<lparr>is_db := snd (repo_Create now ci (is_db s))\<rparr>)))" for i a
    by (rule keeps_step [OF 1 append_card_event_keeps])
  have 3: "keeps lib F s (s'\<lparr>is_agents := x, is_processes := y\<rparr>) = keeps lib F s s'" for s' x y by (simp add: keeps_def)
  show ?thesis using 1 2 by (simp add: store_created_def case_prod_unfold 3 split: sum.split)
qed

lemma CreateCardWithInput_keeps: "keeps lib F s (snd (CreateCardWithInput lib newID sessionID eventID now inp s))"
  using store_created_keeps by (simp add: CreateCardWithInput_def Let_def split: option.split)

lemma SubmitFeedbackEvent_keeps: "keeps lib F s (snd (SubmitFeedbackEvent lib fid eventID now cardID inp s))"
proof -
  have "keeps lib F s (publish_event c ev (s'\<lparr>is_feedback := h\<rparr>)) = keeps lib F s s'" for c ev s' h by (simp add: keeps_def)
  then show ?thesis
    by (auto simp: SubmitFeedbackEvent_def Let_def case_prod_unfold split: option.split sum.split)
qed

lemma Acknowledge_keeps: "keeps lib F s (snd (Acknowledge lib eventID now cardID fid s))"
proof -
  have "keeps lib F s (publish_event c ev (s'\<lparr>is_feedback := h\<rparr>)) = keeps lib F s s'" for c ev s' h by (simp add: keeps_def)
  then show ?thesis
    by (auto simp: Acknowledge_def Let_def case_prod_unfold split: option.split sum.split)
qed

lemma CancelCard_keeps: "keeps lib working s (snd (CancelCard lib ev1 fid ev2 ev3 now cardID s))"
proof -
  have 2: "keeps lib working s (snd (SubmitFeedbackEvent lib f e now c i (snd (append_card_event now c a s))))" for f e c i a
    by (rule keeps_step [OF append_card_event_keeps SubmitFeedbackEvent_keeps])
  have 3: "keeps lib working s (snd (AppendEvent lib e' now c ev (snd (SubmitFeedbackEvent lib f e now c i (snd (append_card_event now c a s))))))"
    for e' ev f e c i a by (rule keeps_step [OF 2 AppendEvent_keeps])
  show ?thesis using append_card_event_keeps 2 3
    by (auto simp: CancelCard_def Let_def case_prod_unfold split: option.split sum.split)
qed

lemma CreateCard_keeps: "keeps lib F s (snd (CreateCard lib newID sessionID eventID now t a s))"
  using CreateCardWithInput_keeps by (simp add: CreateCard_def)

lemma RegisterProcess_db [simp]: "is_db (snd (RegisterProcess lib cardID p s)) = is_db s"
  by (simp add: RegisterProcess_def split: option.split sum.split prod.split)

lemma SubscribeFeedback_db [simp]: "is_db (snd (SubscribeFeedback lib cardID s)) = is_db s"
  by (simp add: SubscribeFeedback_def case_prod_unfold)

lemma SubscribeEvents_db [simp]: "is_db (snd (SubscribeEvents lib cardID s)) = is_db s"
  by (simp add: SubscribeEvents_def case_prod_unfold split: sum.split)

lemma UnregisterProcess_db [simp]: "is_db (UnregisterProcess cardID s) = is_db s"
  by (simp add: UnregisterProcess_def)

lemma removeLiveProcess_db [simp]: "is_db (removeLiveProcess cardID s) = is_db s"
  by (simp add: removeLiveProcess_def)

lemma BeginRecovery_db [simp]: "is_db (snd (BeginRecovery lib cardID p s)) = is_db s"
proof -
  obtain e1 s1 where r: "RegisterProcess lib cardID p s = (e1, s1)" by fastforce
  obtain r2 s2 where f: "SubscribeFeedback lib cardID s1 = (r2, s2)" by fastforce
  have "is_db s1 = is_db s" using RegisterProcess_db [of lib cardID p s] r by simp
  moreover have "is_db s2 = is_db s1" using SubscribeFeedback_db [of lib cardID s1] f by simp
  ultimately show ?thesis
    by (cases "find_valid lib cardID (is_db s)"; cases e1; cases r2) (simp_all add: BeginRecovery_def r f case_prod_unfold)
qed

lemma commitRecoveryEvent_keeps:
  assumes "repo_Get i (is_db s) = Some current" and "life lib current \<in> F" and "identity materialized = identity (cr_Data current)"
  shows "keeps lib F s (snd (commitRecoveryEvent lib eventID now current data e ed materialized s))"
proof -
  have "keeps_db lib F (is_db s) (snd (commit_event now current inp materialized (is_db s)))" for inp
    by (rule commit_event_keeps [OF assms])
  then show ?thesis by (simp add: commitRecoveryEvent_def Let_def keeps_def case_prod_unfold split: sum.split)
qed

lemma keeps_db_cong: "is_db b = is_db c \<Longrightarrow> keeps lib F a b = keeps lib F a c"
  by (simp add: keeps_def)

lemma store_crash_keeps:
  assumes "repo_Get cardID (is_db s) = Some current" and "life lib current \<in> working"
  shows "keeps lib working s (snd (store_crash lib eventID now cardID current data ed s))"
proof (cases "reduceEvent (cr_Data current) (id_Subtype data) ''agent_error'' ed")
  case (Some m)
  have "keeps lib working s (snd (commitRecoveryEvent lib eventID now current data ''agent_error'' ed m s))"
    by (rule commitRecoveryEvent_keeps [OF assms reduceEvent_identity [OF Some]])
  then show ?thesis using Some by (simp add: store_crash_def case_prod_unfold keeps_def split: sum.split)
qed (simp add: store_crash_def)

lemma ReportProcessStatus_keeps: "keeps lib working s (snd (ReportProcessStatus lib eventID now cardID agentID status s))"
proof (cases "find_valid lib cardID (is_db s)")
  case (Inr p)
  then obtain current data where f: "find_valid lib cardID (is_db s) = Inr (current, data)" by (cases p) auto
  then have g: "repo_Get cardID (is_db s) = Some current" "life lib current = Some (id_State data)" by (simp_all add: find_valid_Inr life_def)
  have 1: "keeps lib working s (removeLiveProcess cardID s)" by (simp add: keeps_def)
  have "keeps lib working s (snd (store_crash lib eventID now cardID current data ed s))"
    if "\<not> isTerminalState (id_State data)" "id_State data \<noteq> StInterrupted" for ed
    using that g(2) working_state by (intro store_crash_keeps [OF g(1)]) simp
  with 1 show ?thesis unfolding ReportProcessStatus_def f sum.case prod.case Let_def by (simp only: snd_conv keeps_self if_split split: if_split) blast
qed (simp add: ReportProcessStatus_def)

lemma ResumeProcess_keeps: "keeps lib {Some StInterrupted} s (snd (ResumeProcess lib eventID now cardID agentID s))"
proof (cases "find_valid lib cardID (is_db s)")
  case (Inr p)
  then obtain current data where f: "find_valid lib cardID (is_db s) = Inr (current, data)" by (cases p) auto
  then have g: "repo_Get cardID (is_db s) = Some current" "life lib current = Some (id_State data)" by (simp_all add: find_valid_Inr life_def)
  have "keeps lib {Some StInterrupted} s (snd (commitRecoveryEvent lib eventID now current data e ed (RawJSON (JObj (map_put ''state'' v d))) s))"
    if "id_State data = StInterrupted" "reduceEvent (cr_Data current) t e' ed' = Some m" "decodeObject m = Some d" for e ed e' ed' m d v t
  proof (rule commitRecoveryEvent_keeps [OF g(1)])
    show "life lib current \<in> {Some StInterrupted}" using that g by simp
    have "identity (RawJSON (JObj (map_put ''state'' v d))) = identity m"
      using decodeObject_ok [OF that(3)] by (intro identity_cong [OF that(3)]) (simp_all add: frames)
    then show "identity (RawJSON (JObj (map_put ''state'' v d))) = identity (cr_Data current)" using reduceEvent_identity [OF that(2)] by simp
  qed
  then show ?thesis using f
    by (auto simp: ResumeProcess_def case_prod_unfold keeps_def split: option.split sum.split)
qed (simp add: ResumeProcess_def)

lemma poll_processes_keeps: "keeps lib working s (snd (poll_processes lib now ps ids s))"
proof (induction ps arbitrary: ids s)
  case (Cons p ps)
  obtain cardID proc where p: "p = (cardID, proc)" by (cases p)
  note report = ReportProcessStatus_keeps [of lib s "hd ids" now cardID "ap_ID proc" "Some (ap_Status proc)"]
  have "keeps lib working s (snd (poll_processes lib now ps (tl ids) (snd (ReportProcessStatus lib (hd ids) now cardID (ap_ID proc) (Some (ap_Status proc)) s))))"
    by (rule keeps_step [OF report Cons.IH])
  moreover obtain e s1 where r: "ReportProcessStatus lib (hd ids) now cardID (ap_ID proc) (Some (ap_Status proc)) s = (e, s1)" by fastforce
  ultimately show ?case using Cons.IH report unfolding p poll_processes.simps r by (cases e) simp_all
qed simp

section \<open>Agents\<close>

text \<open>The registry of agents agrees with the agent each card stores.\<close>

definition stored_agent :: "card_row \<Rightarrow> string option" where
  "stored_agent c = (case decodeObject (cr_Data c) of None \<Rightarrow> None | Some d \<Rightarrow> stringField d ''agentId'')"

definition agents_ok :: "iter_service \<Rightarrow> bool" where
  "agents_ok s \<longleftrightarrow> (\<forall>i a. map_of (is_agents s) i = Some a \<longrightarrow>
     (\<exists>c \<in> set (cd_cards (is_db s)). cr_ID c = i \<and> stored_agent c = Some a))"

lemma stored_agent_identity:
  "stored_agent c = (case identity (cr_Data c) of Some (_, Some (JStr a), _) \<Rightarrow> Some a | _ \<Rightarrow> None)"
  by (cases "decodeObject (cr_Data c)") (simp_all add: stored_agent_def identity_def stringField_def split: option.split json.split)

lemma stored_agent_moved: "moved lib F c c' \<Longrightarrow> stored_agent c' = stored_agent c"
  by (simp add: moved_def stored_agent_identity)

lemma agents_ok_moved:
  assumes "agents_ok s" and "db_moved lib F (is_db s) (is_db s')" and "is_agents s' = is_agents s"
  shows "agents_ok s'"
  unfolding agents_ok_def
proof (intro allI impI)
  fix i a
  assume "map_of (is_agents s') i = Some a"
  then obtain c where c: "c \<in> set (cd_cards (is_db s))" "cr_ID c = i" "stored_agent c = Some a"
    using assms(1,3) by (auto simp: agents_ok_def)
  then obtain c' where "c' \<in> set (cd_cards (is_db s'))" "moved lib F c c'" using assms(2) unfolding db_moved_def by blast
  then show "\<exists>c \<in> set (cd_cards (is_db s')). cr_ID c = i \<and> stored_agent c = Some a"
    using c stored_agent_moved [of lib F c c'] by (intro bexI [of _ c']) (simp_all add: moved_def)
qed

lemma agents_simps [simp]:
  "is_agents (publish_event c ev s) = is_agents s" "is_agents (snd (append_card_event now c inp s)) = is_agents s"
  "is_agents (UnregisterProcess cardID s) = is_agents s" "is_agents (removeLiveProcess cardID s) = is_agents s"
  "is_agents (snd (SubscribeFeedback lib cardID s)) = is_agents s" "is_agents (snd (SubscribeEvents lib cardID s)) = is_agents s"
  "is_agents (snd (commitRecoveryEvent lib eventID now current data e ed m s)) = is_agents s"
  by (simp_all add: publish_event_def append_card_event_def UnregisterProcess_def removeLiveProcess_def SubscribeFeedback_def
      SubscribeEvents_def commitRecoveryEvent_def Let_def case_prod_unfold split: sum.split)

lemma call_agents [simp]:
  "is_agents (snd (AppendEvent lib eventID now cardID event s)) = is_agents s"
  "is_agents (snd (PatchCard lib eventID now cardID r inp s)) = is_agents s"
  by (auto simp: AppendEvent_def PatchCard_def case_prod_unfold split: option.split sum.split)

lemma feedback_agents [simp]:
  "is_agents (snd (SubmitFeedbackEvent lib fid eventID now cardID fi s)) = is_agents s"
  "is_agents (snd (Acknowledge lib eventID now cardID fid s)) = is_agents s"
  by (auto simp: SubmitFeedbackEvent_def Acknowledge_def Let_def case_prod_unfold split: option.split sum.split)

lemma recovery_agents [simp]:
  "is_agents (snd (CancelCard lib ev1 fid ev2 ev3 now cardID s)) = is_agents s"
  "is_agents (snd (ResumeProcess lib eventID now cardID agentID s)) = is_agents s"
  by (auto simp: CancelCard_def ResumeProcess_def Let_def case_prod_unfold split: option.split sum.split)

lemma crash_agents [simp]:
  "is_agents (snd (store_crash lib eventID now cardID current data ed s)) = is_agents s"
  "is_agents (snd (ReportProcessStatus lib eventID now cardID agentID status s)) = is_agents s"
proof -
  show 1: "is_agents (snd (store_crash lib eventID now cardID current data ed s)) = is_agents s" for eventID now cardID current data ed
    by (simp add: store_crash_def case_prod_unfold split: option.split sum.split)
  show "is_agents (snd (ReportProcessStatus lib eventID now cardID agentID status s)) = is_agents s"
    by (cases "find_valid lib cardID (is_db s)") (simp_all add: ReportProcessStatus_def case_prod_unfold Let_def 1)
qed

lemma poll_agents [simp]: "is_agents (snd (poll_processes lib now ps ids s)) = is_agents s"
proof (induction ps arbitrary: ids s)
  case (Cons p ps)
  obtain cardID proc where p: "p = (cardID, proc)" by (cases p)
  obtain e s1 where r: "ReportProcessStatus lib (hd ids) now cardID (ap_ID proc) (Some (ap_Status proc)) s = (e, s1)" by fastforce
  have "is_agents s1 = is_agents s" using crash_agents(2) [of lib "hd ids" now cardID "ap_ID proc" "Some (ap_Status proc)" s] r by simp
  then show ?case using Cons.IH unfolding p poll_processes.simps r by (cases e) simp_all
qed simp

lemma valid_stored_agent: "ValidateCardData lib (cr_Data c) = Some data \<Longrightarrow> stored_agent c = Some (id_AgentID data)"
  by (auto simp: ValidateCardData_iff stored_agent_def)

lemma RegisterProcess_agents_ok:
  assumes "agents_ok s" shows "agents_ok (snd (RegisterProcess lib cardID p s))"
proof (cases p)
  case (Some proc)
  show ?thesis
  proof (cases "find_valid lib cardID (is_db s)")
    case (Inr x)
    then obtain row data where f: "find_valid lib cardID (is_db s) = Inr (row, data)" by (cases x) auto
    then have "row \<in> set (cd_cards (is_db s))" "cr_ID row = cardID" "stored_agent row = Some (id_AgentID data)"
      using repo_Get_Some [of cardID "is_db s" row] valid_stored_agent [of lib row data] by (simp_all add: find_valid_Inr)
    then show ?thesis using assms Some f by (auto simp: RegisterProcess_def agents_ok_def update_conv')
  qed (use assms Some in \<open>simp add: RegisterProcess_def\<close>)
qed (use assms in \<open>simp add: RegisterProcess_def\<close>)

lemma BeginRecovery_agents_ok:
  assumes "agents_ok s" shows "agents_ok (snd (BeginRecovery lib cardID p s))"
proof -
  obtain e1 s1 where r: "RegisterProcess lib cardID p s = (e1, s1)" by fastforce
  obtain r2 s2 where f: "SubscribeFeedback lib cardID s1 = (r2, s2)" by fastforce
  have 1: "agents_ok s1" using RegisterProcess_agents_ok [OF assms, of lib cardID p] r by simp
  moreover have "is_agents s2 = is_agents s1 \<and> is_db s2 = is_db s1"
    using agents_simps(5) [of lib cardID s1] SubscribeFeedback_db [of lib cardID s1] f by simp
  ultimately have "agents_ok (s2\<lparr>is_recovery := x\<rparr>)" "agents_ok (UnregisterProcess cardID s2)" for x
    by (simp_all add: agents_ok_def)
  with 1 assms show ?thesis
    by (cases "find_valid lib cardID (is_db s)"; cases e1; cases r2) (simp_all add: BeginRecovery_def r f case_prod_unfold)
qed

lemma store_created_agents_ok:
  assumes ok: "agents_ok s" and data: "ValidateCardData lib (ci_Data ci) = Some data" "id_AgentID data = agent"
  shows "agents_ok (snd (store_created eventID now ci agent process s))"
proof (cases "fst (repo_Create now ci (is_db s))")
  case (Inl e)
  then have "snd (repo_Create now ci (is_db s)) = is_db s" by (auto simp: repo_Create_def Let_def split: if_splits)
  with Inl ok show ?thesis by (simp add: store_created_def case_prod_unfold)
next
  case (Inr row)
  have raw: "ci_Data ci \<noteq> RawNil" using data(1) by (auto simp: ValidateCardData_def decodeObject_def)
  from Inr have row: "cr_ID row = ci_ID ci" "cr_Data row = ci_Data ci"
    and db: "cd_cards (snd (repo_Create now ci (is_db s))) = cd_cards (is_db s) @ [row]"
    using raw by (auto simp: repo_Create_def Let_def or_empty_object_def split: if_splits)
  have new: "stored_agent row = Some agent" using valid_stored_agent [of lib row data] row data by simp
  let ?s1 = "s\<lparr>is_db := snd (repo_Create now ci (is_db s))\<rparr>"
  let ?s2 = "\<lambda>a. snd (append_card_event now (ci_ID ci) a ?s1)"
  have cards: "cd_cards (is_db (?s2 a)) = cd_cards (is_db s) @ [row]" for a by (simp add: db)
  have "agents_ok (?s2 a)" "agents_ok ((?s2 a)\<lparr>is_agents := map_put (ci_ID ci) agent (is_agents s), is_processes := ps\<rparr>)" for a ps
    using ok new row(1) cards by (auto simp: agents_ok_def update_conv')
  then show ?thesis using Inr by (simp add: store_created_def case_prod_unfold split: sum.split)
qed

lemma CreateCardWithInput_agents_ok:
  "agents_ok s \<Longrightarrow> agents_ok (snd (CreateCardWithInput lib newID sessionID eventID now inp s))"
  using store_created_agents_ok [of s lib] by (auto simp: CreateCardWithInput_def Let_def split: option.split)

lemma CreateCard_agents_ok: "agents_ok s \<Longrightarrow> agents_ok (snd (CreateCard lib newID sessionID eventID now t a s))"
  using CreateCardWithInput_agents_ok by (simp add: CreateCard_def)

section \<open>The service as a step relation\<close>

text \<open>Every call that changes something, but for \<open>ResumeProcess\<close>.\<close>

inductive other_step :: "iteration_lib \<Rightarrow> iter_service \<Rightarrow> iter_service \<Rightarrow> bool" for lib where
  create_card: "other_step lib s (snd (CreateCardWithInput lib newID sessionID eventID now inp s))"
| create_default: "other_step lib s (snd (CreateCard lib newID sessionID eventID now t a s))"
| register: "other_step lib s (snd (RegisterProcess lib cardID p s))"
| unregister: "other_step lib s (UnregisterProcess cardID s)"
| append: "other_step lib s (snd (AppendEvent lib eventID now cardID event s))"
| patch: "other_step lib s (snd (PatchCard lib eventID now cardID r ip s))"
| feedback: "other_step lib s (snd (SubmitFeedbackEvent lib fid eventID now cardID fi s))"
| acknowledge: "other_step lib s (snd (Acknowledge lib eventID now cardID fid s))"
| subscribe: "other_step lib s (snd (SubscribeFeedback lib cardID s))"
| subscribe_events: "other_step lib s (snd (SubscribeEvents lib cardID s))"
| cancel: "other_step lib s (snd (CancelCard lib ev1 fid ev2 ev3 now cardID s))"
| report: "other_step lib s (snd (ReportProcessStatus lib eventID now cardID agentID status s))"
| poll: "other_step lib s (snd (monitor_Poll lib now ids s))"
| begin_recovery: "other_step lib s (snd (BeginRecovery lib cardID p s))"

inductive iter_step :: "iteration_lib \<Rightarrow> iter_service \<Rightarrow> iter_service \<Rightarrow> bool" for lib where
  other: "other_step lib s s' \<Longrightarrow> iter_step lib s s'"
| resume: "iter_step lib s (snd (ResumeProcess lib eventID now cardID agentID s))"

definition iter_ok :: "iter_service \<Rightarrow> bool" where
  "iter_ok s \<longleftrightarrow> db_ok (is_db s) \<and> agents_ok s"

definition iter_moved :: "iteration_lib \<Rightarrow> iteration_state option set \<Rightarrow> iter_service \<Rightarrow> iter_service \<Rightarrow> bool" where
  "iter_moved lib F s s' \<longleftrightarrow> db_moved lib F (is_db s) (is_db s')"

lemma keeps_iter:
  "iter_ok s \<Longrightarrow> keeps lib F s s' \<Longrightarrow> is_agents s' = is_agents s \<or> (agents_ok s \<longrightarrow> agents_ok s') \<Longrightarrow> iter_ok s' \<and> iter_moved lib F s s'"
  unfolding iter_ok_def keeps_def keeps_db_def iter_moved_def using agents_ok_moved by blast

lemma other_step_ok:
  assumes "iter_ok s" and "other_step lib s s'"
  shows "iter_ok s' \<and> iter_moved lib working s s'"
  using assms(2,1)
proof (induction rule: other_step.induct)
  case (create_card s newID sessionID eventID now inp)
  then show ?case using CreateCardWithInput_keeps CreateCardWithInput_agents_ok by (intro keeps_iter) auto
next
  case (create_default s newID sessionID eventID now t a)
  then show ?case using CreateCard_keeps CreateCard_agents_ok by (intro keeps_iter) auto
next
  case (register s cardID p)
  then show ?case using RegisterProcess_agents_ok by (intro keeps_iter) (auto simp: keeps_def)
next
  case (begin_recovery s cardID p)
  then show ?case using BeginRecovery_agents_ok by (intro keeps_iter) (auto simp: keeps_def)
next
  case (poll s now ids)
  then show ?case using poll_processes_keeps by (intro keeps_iter) (auto simp: monitor_Poll_def)
qed (intro keeps_iter; simp add: AppendEvent_keeps PatchCard_keeps SubmitFeedbackEvent_keeps Acknowledge_keeps CancelCard_keeps
      ReportProcessStatus_keeps keeps_def [of lib working s "snd (SubscribeFeedback lib cardID s)" for s cardID]
      keeps_def [of lib working s "snd (SubscribeEvents lib cardID s)" for s cardID]
      keeps_def [of lib working s "UnregisterProcess cardID s" for s cardID])+

abbreviation unsettled :: "iteration_state option set" where
  "unsettled \<equiv> {Some StRunning, Some StWaitingForUser, Some StInterrupted}"

lemma iter_step_ok:
  assumes "iter_ok s" and "iter_step lib s s'"
  shows "iter_ok s' \<and> iter_moved lib unsettled s s'"
  using assms(2,1)
proof (induction rule: iter_step.induct)
  case (other s s')
  then show ?case using other_step_ok [of s lib s'] db_moved_mono [of working unsettled lib "is_db s" "is_db s'"]
    by (auto simp: iter_moved_def)
next
  case (resume s eventID now cardID agentID)
  then have "iter_ok (snd (ResumeProcess lib eventID now cardID agentID s)) \<and>
      iter_moved lib {Some StInterrupted} s (snd (ResumeProcess lib eventID now cardID agentID s))"
    using ResumeProcess_keeps by (intro keeps_iter) auto
  then show ?case using db_moved_mono [of "{Some StInterrupted}" unsettled] by (auto simp: iter_moved_def)
qed

interpretation calm: evolving "other_step lib" iter_ok "iter_moved lib working" for lib
  by unfold_locales (use other_step_ok db_moved_trans in \<open>auto simp: iter_moved_def\<close>)

interpretation iteration: evolving "iter_step lib" iter_ok "iter_moved lib unsettled" for lib
  by unfold_locales (use iter_step_ok db_moved_trans in \<open>auto simp: iter_moved_def\<close>)

section \<open>Settled and interrupted cards\<close>

definition new_iteration_service :: iter_service where
  "new_iteration_service = NewIterationCardService \<lparr>cd_cards = [], cd_events = [], cd_sequence = 0\<rparr>"

lemma new_iteration_service_ok [simp]: "iter_ok new_iteration_service"
  by (simp add: iter_ok_def new_iteration_service_def NewIterationCardService_def db_ok_def agents_ok_def)

lemma reachable_iter_ok: "(iter_step lib)\<^sup>*\<^sup>* new_iteration_service s \<Longrightarrow> iter_ok s"
  using iteration.run_ok new_iteration_service_ok by blast


lemma resumed_valid:
  assumes x: "ValidateCardData lib raw = Some x" and r: "reduceEvent raw (id_Subtype x) ''agent_progress'' (resume_data a) = Some m"
    and d: "decodeObject m = Some d"
  shows "ValidateCardData lib (RawJSON (JObj (map_put ''state'' (JStr (state_text StRunning)) d))) = Some (x\<lparr>id_State := StRunning\<rparr>)"
proof -
  let ?ev = "[(''message'', JStr ''resumed''), (''recovered_from'', JStr a)]"
  have ev: "decodeObject (resume_data a) = Some ?ev" by (simp add: resume_data_def decodeObject_def as_object_def decode_map_def)
  have "\<not> overrun ''agent_progress'' ?ev" by (simp add: overrun_def)
  from reduceEvent_effect [OF x ev _ this r]
  have m: "ValidateCardData lib m = Some (x\<lparr>id_State := event_state ''agent_progress'' ?ev (id_State x)\<rparr>)"
    by (simp add: lifecycle_events_def)
  have "event_state ''agent_progress'' ?ev (id_State x) = StRunning" by (simp add: event_state_simps stringField_def)
  with m have m: "ValidateCardData lib m = Some (x\<lparr>id_State := StRunning\<rparr>)" by simp
  from valid_card_reduces [OF m] d have "reduces lib d StRunning d" by auto
  from valid_card_frame [OF m d reduces_state [OF this, of StRunning]] show ?thesis by simp
qed

lemma commit_event_ok:
  assumes "commit_event now current inp m db = (Inr ev, db')" and "repo_Get i db = Some current" and "db_ok db"
  shows "repo_Get i db' = Some (materialize_row now m current)" "cd_events db' = cd_events db @ [ev]" "se_Sequence ev = cd_sequence db + 1"
    "\<And>j. j \<noteq> i \<Longrightarrow> repo_Get j db' = repo_Get j db" "se_EventType ev = ai_EventType inp" "se_Payload ev = or_empty_object (ai_Payload inp)"
    "cd_sequence db' = cd_sequence db + 1" "se_CardID ev = i" "se_EventID ev = ai_EventID inp"
proof -
  let ?P = "\<lambda>c. cr_ID c = cr_ID current \<and> cr_Revision c = cr_Revision current"
  let ?f = "\<lambda>c. if ?P c then materialize_row now m c else c"
  note cur = repo_Get_Some [OF assms(2)]
  from assms(1) obtain db1 where app: "repo_AppendEvent now (cr_ID current) inp db = (Inr ev, db1)"
    and db': "db' = db1\<lparr>cd_cards := map ?f (cd_cards db1)\<rparr>"
    by (auto simp: commit_event_def split: prod.splits sum.splits if_splits)
  from app have ev: "db1 = db\<lparr>cd_events := cd_events db @ [ev], cd_sequence := cd_sequence db + 1\<rparr>" "se_Sequence ev = cd_sequence db + 1"
      "se_EventType ev = ai_EventType inp" "se_Payload ev = or_empty_object (ai_Payload inp)" "se_CardID ev = cr_ID current" "se_EventID ev = ai_EventID inp"
    by (auto simp: repo_AppendEvent_def Let_def split: if_splits)
  have id: "cr_ID (?f c) = cr_ID c" for c by (simp add: materialize_row_def)
  have find: "find (\<lambda>c. cr_ID c = j) (map ?f cs) = map_option ?f (find (\<lambda>c. cr_ID c = j) cs)" for j cs
    by (induction cs) (simp_all add: id del: if_image_distrib)
  have get: "repo_Get j db' = map_option ?f (repo_Get j db)" for j
    using find [of j "cd_cards db"] by (simp add: repo_Get_def db' ev(1))
  show "repo_Get i db' = Some (materialize_row now m current)" using get [of i] assms(2) by simp
  show "repo_Get j db' = repo_Get j db" if "j \<noteq> i" for j
    using get [of j] that cur repo_Get_Some [of j db] by (cases "repo_Get j db") auto
  show "cd_events db' = cd_events db @ [ev]" "se_Sequence ev = cd_sequence db + 1" "se_EventType ev = ai_EventType inp"
    "se_Payload ev = or_empty_object (ai_Payload inp)" "cd_sequence db' = cd_sequence db + 1" "se_CardID ev = i" "se_EventID ev = ai_EventID inp"
    using ev db' cur by simp_all
qed

lemma commitRecoveryEvent_Inr:
  assumes "commitRecoveryEvent lib eventID now c data e ed m s = (Inr stored', s1)"
  shows "\<exists>inp stored db'. ai_EventType inp = e \<and> commit_event now c inp m (is_db s) = (Inr stored, db') \<and> s1 = s\<lparr>is_db := db'\<rparr>"
proof -
  have "\<exists>a stored db'. commit_event now c \<lparr>ai_EventID = eventID, ai_EventType = e, ai_ActorKind = ActorAgent, ai_ActorID = id_AgentID data,
      ai_Payload = a\<rparr> m (is_db s) = (Inr stored, db') \<and> s1 = s\<lparr>is_db := db'\<rparr>"
    using assms by (auto simp: commitRecoveryEvent_def Let_def split: if_splits prod.splits sum.splits)
  then show ?thesis by (metis append_event_input.select_convs(2))
qed

lemma ResumeProcess_None:
  assumes "ResumeProcess lib eventID now i agentID s = (None, s')"
  obtains c data m d stored db' where "repo_Get i (is_db s) = Some c" "ValidateCardData lib (cr_Data c) = Some data" "id_State data = StInterrupted"
    "\<exists>p. map_of (is_processes s) i = Some p \<and> ap_ID p = agentID" "\<exists>r. map_of (is_recovery s) i = Some r \<and> rs_agentID r = agentID"
    "durablePending lib (repo_ListEvents i 0 10000 (is_db s)) = []"
    "reduceEvent (cr_Data c) (id_Subtype data) ''agent_progress'' (resume_data agentID) = Some m" "decodeObject m = Some d"
    "\<exists>inp. ai_EventType inp = ''agent_progress'' \<and>
       commit_event now c inp (RawJSON (JObj (map_put ''state'' (JStr (state_text StRunning)) d))) (is_db s) = (Inr stored, db')"
    "is_db s' = db'" "is_recovery s' = map_del i (is_recovery s)"
proof -
  obtain c data where f: "find_valid lib i (is_db s) = Inr (c, data)" using assms
    by (cases "find_valid lib i (is_db s)") (auto simp: ResumeProcess_def)
  have st: "id_State data = StInterrupted"
    and p: "\<not> (case map_of (is_processes s) i of Some p \<Rightarrow> ap_ID p \<noteq> agentID | None \<Rightarrow> True)"
    and r: "\<not> (case map_of (is_recovery s) i of Some r \<Rightarrow> rs_agentID r \<noteq> agentID | None \<Rightarrow> True)"
    and q: "durablePending lib (repo_ListEvents i 0 10000 (is_db s)) = []"
    using assms by (auto simp: ResumeProcess_def f split: if_splits)
  obtain m where m: "reduceEvent (cr_Data c) (id_Subtype data) ''agent_progress'' (resume_data agentID) = Some m"
    using assms st p r q by (cases "reduceEvent (cr_Data c) (id_Subtype data) ''agent_progress'' (resume_data agentID)") (auto simp: ResumeProcess_def f)
  obtain d where d: "decodeObject m = Some d"
    using assms st p r q m by (cases "decodeObject m") (auto simp: ResumeProcess_def f)
  let ?new = "RawJSON (JObj (map_put ''state'' (JStr (state_text StRunning)) d))"
  obtain stored' s1 where c1: "commitRecoveryEvent lib eventID now c data ''agent_progress'' (resume_data agentID) ?new s = (Inr stored', s1)"
    and s': "s' = publish_event i stored' (s1\<lparr>is_recovery := map_del i (is_recovery s1)\<rparr>)"
    using assms st p r q m d by (auto simp: ResumeProcess_def f split: prod.splits sum.splits)
  obtain inp stored db' where c2: "ai_EventType inp = ''agent_progress''" "commit_event now c inp ?new (is_db s) = (Inr stored, db')"
      "s1 = s\<lparr>is_db := db'\<rparr>"
    using commitRecoveryEvent_Inr [OF c1] by blast
  have s'': "is_db s' = db'" "is_recovery s' = map_del i (is_recovery s)" using s' c2 by (simp_all add: publish_event_def)
  have "\<exists>p. map_of (is_processes s) i = Some p \<and> ap_ID p = agentID" using p by (auto split: option.splits)
  moreover have "\<exists>r. map_of (is_recovery s) i = Some r \<and> rs_agentID r = agentID" using r by (auto split: option.splits)
  ultimately show ?thesis using that [OF _ _ st _ _ q m d _ s''] f c2 by (auto simp: find_valid_Inr)
qed


lemma commit_event_db_ok:
  assumes "db_ok db" shows "db_ok (snd (commit_event now c inp m db))"
proof (cases "repo_AppendEvent now (cr_ID c) inp db")
  case (Pair r db1)
  have "db_ok db1" using repo_AppendEvent_grows [OF assms, of now "cr_ID c" inp] Pair by simp
  moreover have "map cr_ID (map (\<lambda>x. if P x then materialize_row now m x else x) cs) = map cr_ID cs" for P cs
    by (simp add: materialize_row_def)
  ultimately have "db_ok (db1\<lparr>cd_cards := map (\<lambda>x. if P x then materialize_row now m x else x) (cd_cards db1)\<rparr>)" for P
    using db_ok_cards by blast
  then show ?thesis using assms Pair by (simp add: commit_event_def split: sum.split)
qed

lemma stale_commit:
  assumes "db_ok db0" and "repo_Get i db0 = Some c" and "commit_event now c inp m db0 = (Inr ev, db)"
  shows "\<exists>err. commit_event now' c inp' m' db = (Inl err, db)"
proof -
  have ok: "db_ok db" using commit_event_db_ok [OF assms(1), of now c inp m] assms(3) by simp
  note new = commit_event_ok(1) [OF assms(3,2,1)]
  have "\<not> (cr_ID x = cr_ID c \<and> cr_Revision x = cr_Revision c)" if "x \<in> set (cd_cards db)" for x
  proof
    assume x: "cr_ID x = cr_ID c \<and> cr_Revision x = cr_Revision c"
    then have "x = materialize_row now m c" using same_row [OF ok new that] repo_Get_Some [OF assms(2)] by simp
    with x show False by (simp add: materialize_row_def)
  qed
  then have "\<not> list_ex (\<lambda>x. cr_ID x = cr_ID c \<and> cr_Revision x = cr_Revision c) (cd_cards db)" by (auto simp: list_ex_iff)
  then show ?thesis using repo_AppendEvent_cards [of now' "cr_ID c" inp' db]
    by (cases "repo_AppendEvent now' (cr_ID c) inp' db") (auto simp: commit_event_def split: sum.splits)
qed

lemma AppendEvent_failed: "AppendEvent lib eventID now i event s = (Some err, s') \<Longrightarrow> s' = s"
proof -
  have "commit_event now c inp m db = (Inl e, db') \<Longrightarrow> db' = db" for c inp m db e db'
    by (auto simp: commit_event_def split: prod.splits sum.splits if_splits)
  then show "AppendEvent lib eventID now i event s = (Some err, s') \<Longrightarrow> s' = s"
    by (auto simp: AppendEvent_def split: option.splits sum.splits prod.splits)
qed

lemma AppendEvent_stored:
  assumes "AppendEvent lib eventID now i event s = (None, s')"
  obtains c ev payload m inp stored db' where "repo_Get i (is_db s) = Some c"
    "prepare_append lib (map_of (is_agents s) i) i event c = Inr (ev, payload, m)" "ai_EventType inp = ie_EventType ev"
    "commit_event now c inp m (is_db s) = (Inr stored, db')" "is_db s' = db'"
proof -
  obtain c where c: "repo_Get i (is_db s) = Some c" using assms by (auto simp: AppendEvent_def split: option.splits)
  obtain ev payload m where p: "prepare_append lib (map_of (is_agents s) i) i event c = Inr (ev, payload, m)"
    using assms c by (auto simp: AppendEvent_def split: sum.splits)
  let ?inp = "\<lparr>ai_EventID = eventID, ai_EventType = ie_EventType ev, ai_ActorKind = ActorAgent, ai_ActorID = ie_AgentID ev, ai_Payload = payload\<rparr>"
  obtain stored db' where "commit_event now c ?inp m (is_db s) = (Inr stored, db')" "is_db s' = db'"
    using assms c p by (auto simp: AppendEvent_def split: sum.splits prod.splits)
  then show ?thesis using that [OF c p, of ?inp] by simp
qed

lemma prepare_append_ok:
  assumes "prepare_append lib agent i event c = Inr (ev, payload, m)"
  obtains data where "cr_Status c = CardStatusActive" "ValidateCardData lib (cr_Data c) = Some data" "id_State data \<in> {StRunning, StWaitingForUser}"
    "ie_AgentID event = [] \<or> ie_AgentID event = (case agent of Some a \<Rightarrow> if a = [] then id_AgentID data else a | None \<Rightarrow> id_AgentID data)"
    "ie_EventType ev = ie_EventType event" "reduceEvent (cr_Data c) (id_Subtype data) (ie_EventType event) (ie_Data event) = Some m"
proof -
  obtain data where v: "ValidateCardData lib (cr_Data c) = Some data"
    using assms by (cases "ValidateCardData lib (cr_Data c)") (auto simp: prepare_append_def split: if_splits)
  have "id_State data \<in> {StRunning, StWaitingForUser}"
    using prepare_append_life(1) [OF assms] v by (simp add: life_def)
  then show ?thesis using assms v that [of data] by (auto simp: prepare_append_def Let_def split: if_splits option.splits)
qed

text \<open>
  C20: \<open>AppendEvent\<close> stores the event together with the data it leads to, or changes nothing. It
  succeeds only for an active card that is running or waiting, and an event that names an
  agent only when it is the card's agent; then the log has one more event and the card the
  reduced data, one revision later. Of two appends prepared from the same read of a card only
  the first is stored: the other fails and leaves the database as it is.
\<close>

theorem append_event_atomic:
  assumes "(iter_step lib)\<^sup>*\<^sup>* new_iteration_service s"
  shows "(\<forall>eventID now i event s' err. AppendEvent lib eventID now i event s = (Some err, s') \<longrightarrow> s' = s) \<and>
    (\<forall>eventID now i event s'. AppendEvent lib eventID now i event s = (None, s') \<longrightarrow>
      (\<exists>c data m ev. repo_Get i (is_db s) = Some c \<and> cr_Status c = CardStatusActive \<and> ValidateCardData lib (cr_Data c) = Some data \<and>
        id_State data \<in> {StRunning, StWaitingForUser} \<and> (ie_AgentID event = [] \<or> ie_AgentID event = id_AgentID data) \<and>
        reduceEvent (cr_Data c) (id_Subtype data) (ie_EventType event) (ie_Data event) = Some m \<and>
        cd_events (is_db s') = cd_events (is_db s) @ [ev] \<and> se_EventType ev = ie_EventType event \<and>
        repo_Get i (is_db s') = Some (materialize_row now m c) \<and> (\<forall>j. j \<noteq> i \<longrightarrow> repo_Get j (is_db s') = repo_Get j (is_db s)))) \<and>
    (\<forall>i c inp m now ev db inp' m' now'. repo_Get i (is_db s) = Some c \<longrightarrow> commit_event now c inp m (is_db s) = (Inr ev, db) \<longrightarrow>
      (\<exists>err. commit_event now' c inp' m' db = (Inl err, db)))"
proof (intro conjI allI impI)
  note inv = reachable_iter_ok [OF assms, unfolded iter_ok_def]
  show "s' = s" if "AppendEvent lib eventID now i event s = (Some err, s')" for eventID now i event s' err
    using that by (rule AppendEvent_failed)
  show "\<exists>err. commit_event now' c inp' m' db = (Inl err, db)"
    if "repo_Get i (is_db s) = Some c" "commit_event now c inp m (is_db s) = (Inr ev, db)" for i c inp m now ev db inp' m' now'
    using stale_commit [OF _ that] inv by blast
  fix eventID now i event s'
  assume "AppendEvent lib eventID now i event s = (None, s')"
  then show "\<exists>c data m ev. repo_Get i (is_db s) = Some c \<and> cr_Status c = CardStatusActive \<and> ValidateCardData lib (cr_Data c) = Some data \<and>
        id_State data \<in> {StRunning, StWaitingForUser} \<and> (ie_AgentID event = [] \<or> ie_AgentID event = id_AgentID data) \<and>
        reduceEvent (cr_Data c) (id_Subtype data) (ie_EventType event) (ie_Data event) = Some m \<and>
        cd_events (is_db s') = cd_events (is_db s) @ [ev] \<and> se_EventType ev = ie_EventType event \<and>
        repo_Get i (is_db s') = Some (materialize_row now m c) \<and> (\<forall>j. j \<noteq> i \<longrightarrow> repo_Get j (is_db s') = repo_Get j (is_db s))"
  proof (rule AppendEvent_stored)
    fix c ev payload m inp stored db'
    assume c: "repo_Get i (is_db s) = Some c" "prepare_append lib (map_of (is_agents s) i) i event c = Inr (ev, payload, m)"
      "ai_EventType inp = ie_EventType ev" "commit_event now c inp m (is_db s) = (Inr stored, db')" "is_db s' = db'"
    obtain data where p: "cr_Status c = CardStatusActive" "ValidateCardData lib (cr_Data c) = Some data" "id_State data \<in> {StRunning, StWaitingForUser}"
      and agent: "ie_AgentID event = [] \<or> ie_AgentID event = (case map_of (is_agents s) i of Some a \<Rightarrow> if a = [] then id_AgentID data else a | None \<Rightarrow> id_AgentID data)"
      and e: "ie_EventType ev = ie_EventType event" "reduceEvent (cr_Data c) (id_Subtype data) (ie_EventType event) (ie_Data event) = Some m"
      by (rule prepare_append_ok [OF c(2)])
    have "a = id_AgentID data" if "map_of (is_agents s) i = Some a" for a
    proof -
      from inv that obtain c2 where c2: "c2 \<in> set (cd_cards (is_db s))" "cr_ID c2 = i" "stored_agent c2 = Some a"
        unfolding agents_ok_def by blast
      then have "c2 = c" using same_row [OF _ c(1)] inv by blast
      then show ?thesis using c2(3) valid_stored_agent [OF p(2)] by simp
    qed
    then have "ie_AgentID event = [] \<or> ie_AgentID event = id_AgentID data" using agent by (auto split: option.splits if_splits)
    moreover note commit_event_ok [OF c(4,1)]
    ultimately show ?thesis using inv c p e by auto
  qed
qed

section \<open>Feedback\<close>

lemma ListEvents_take:
  assumes "db_ok db"
  shows "repo_ListEvents i 0 10000 db = take 10000 (filter (\<lambda>e. se_CardID e = i) (cd_events db))"
proof -
  have pos: "filter (\<lambda>e. se_CardID e = i \<and> se_Sequence e > 0) (cd_events db) = filter (\<lambda>e. se_CardID e = i) (cd_events db)"
    using assms(1) by (intro filter_cong) (auto simp: db_ok_def)
  have "sorted_wrt (\<lambda>x y. se_Sequence x < se_Sequence y) (cd_events db)" using assms(1) by (simp add: db_ok_def sorted_wrt_map)
  then have "sorted_wrt (\<lambda>x y. \<not> se_Sequence y < se_Sequence x) (filter (\<lambda>e. se_CardID e = i) (cd_events db))"
    by (intro sorted_wrt_filter) (auto elim: sorted_wrt_mono_rel [rotated])
  then have "sort_stable (\<lambda>x y. se_Sequence x < se_Sequence y) (filter (\<lambda>e. se_CardID e = i) (cd_events db)) = filter (\<lambda>e. se_CardID e = i) (cd_events db)"
    by (rule sort_stable_id)
  then show ?thesis by (simp add: repo_ListEvents_def pos)
qed

lemma ListEvents_all:
  "db_ok db \<Longrightarrow> length (filter (\<lambda>e. se_CardID e = i) (cd_events db)) \<le> 10000 \<Longrightarrow>
     repo_ListEvents i 0 10000 db = filter (\<lambda>e. se_CardID e = i) (cd_events db)"
  by (simp add: ListEvents_take)

lemma fold_keys:
  "fold_key ''id'' = ''id''" "fold_key ''cardId'' = ''cardid''" "fold_key ''subtype'' = ''subtype''" "fold_key ''feedbackKind'' = ''feedbackkind''"
  "fold_key ''target'' = ''target''" "fold_key ''note'' = ''note''" "fold_key ''actorId'' = ''actorid''" "fold_key ''sessionId'' = ''sessionid''"
  "fold_key ''createdAt'' = ''createdat''" "fold_key ''acknowledged'' = ''acknowledged''" "fold_key ''feedback_id'' = ''feedback_id''"
  by code_simp+

text \<open>Identifiers print and parse back: what the identifier package promises.\<close>

definition uuid_roundtrip :: "iteration_lib \<Rightarrow> bool" where
  "uuid_roundtrip lib \<longleftrightarrow> (\<forall>u. il_Parse lib (il_String lib u) = Some u)"

lemma decode_encode_feedback:
  assumes "uuid_roundtrip lib" and "parse_rfc3339 (format_rfc3339nano (fb_CreatedAt f)) = Some (fb_CreatedAt f)"
    and "fb_Target f = RawNil \<or> decodeObject (fb_Target f) \<noteq> None"
  shows "decode_feedback lib (encode_feedback lib f) = Some f"
proof -
  have 1: "decode_members (assignFeedback lib) (xs @ ys) x = (case decode_members (assignFeedback lib) xs x of None \<Rightarrow> None | Some x' \<Rightarrow> decode_members (assignFeedback lib) ys x')"
    for xs ys x by (induction xs arbitrary: x) (auto split: option.split)
  show ?thesis using assms
    by (cases f; cases "fb_Target f"; cases "fb_Note f = []")
      (simp_all add: decode_feedback_def encode_feedback_def decode_struct_def 1 fold_keys assignFeedback_def assign_uuid_def
        assign_string_def assign_time_def uuid_roundtrip_def zero_feedback_def decodeObject_def)
qed

lemma decode_ack_payload:
  "uuid_roundtrip lib \<Longrightarrow> decode_ack lib (RawJSON (JObj [(''feedback_id'', JStr (il_String lib u))])) = Some u"
  by (simp add: decode_ack_def decode_struct_def fold_keys assign_uuid_def uuid_roundtrip_def)

lemma durablePending_ids:
  "fb_ID ` set (durablePending lib events) = fb_ID ` set (feedback_items lib events) - set (acknowledged_ids lib events)"
  unfolding durablePending_def dedup_by_keys by auto

lemma items_append: "feedback_items lib (xs @ ys) = feedback_items lib xs @ feedback_items lib ys"
  "acknowledged_ids lib (xs @ ys) = acknowledged_ids lib xs @ acknowledged_ids lib ys"
  by (simp_all add: feedback_items_def acknowledged_ids_def)

lemma repo_AppendEvent_Inr:
  "repo_AppendEvent now i a db = (Inr e, db') \<Longrightarrow> cd_events db' = cd_events db @ [e] \<and> se_CardID e = i \<and>
     se_EventType e = ai_EventType a \<and> se_Payload e = or_empty_object (ai_Payload a) \<and> (db_ok db \<longrightarrow> db_ok db')"
  using repo_AppendEvent_grows [of db now i a] by (auto simp: repo_AppendEvent_def Let_def split: if_splits)

lemma SubmitFeedbackEvent_Inr:
  assumes "SubmitFeedbackEvent lib fid eventID now i inp s = (Inr f, s')"
  obtains stored where "fb_ID f = fid" "fb_Target f = RawNil \<or> decodeObject (fb_Target f) \<noteq> None"
    "fb_CreatedAt f = (if time_IsZero (fi_Timestamp inp) then now else fi_Timestamp inp)"
    "cd_events (is_db s') = cd_events (is_db s) @ [stored]" "se_CardID stored = i" "se_EventType stored = ''user_feedback''"
    "se_Payload stored = encode_feedback lib f" "db_ok (is_db s) \<Longrightarrow> db_ok (is_db s')"
proof -
  let ?f = "\<lparr>fb_ID = fid, fb_CardID = i, fb_Subtype = fi_Subtype inp, fb_Kind = fi_Kind inp,
     fb_Target = fi_Target inp, fb_Note = fi_Note inp, fb_ActorID = fi_ActorID inp, fb_SessionID = fi_SessionID inp,
     fb_CreatedAt = (if time_IsZero (fi_Timestamp inp) then now else fi_Timestamp inp), fb_Acknowledged = False\<rparr>"
  let ?a = "\<lparr>ai_EventID = eventID, ai_EventType = ''user_feedback'', ai_ActorKind = ActorUser, ai_ActorID = fi_ActorID inp,
     ai_Payload = encode_feedback lib ?f\<rparr>"
  obtain row where row: "repo_Get i (is_db s) = Some row" using assms by (auto simp: SubmitFeedbackEvent_def split: option.splits)
  obtain parsed where parsed: "ValidateCardData lib (cr_Data row) = Some parsed"
    using assms row by (auto simp: SubmitFeedbackEvent_def split: option.splits if_splits)
  have v: "validateFeedback lib inp parsed" using assms row parsed by (auto simp: SubmitFeedbackEvent_def split: if_splits)
  obtain stored s1 where st: "append_card_event now i ?a s = (Inr stored, s1)" and f: "f = ?f" and db: "is_db s' = is_db s1"
    using assms row parsed by (auto simp: SubmitFeedbackEvent_def Let_def publish_event_def split: if_splits prod.splits sum.splits)
  have "repo_AppendEvent now i ?a (is_db s) = (Inr stored, is_db s1)"
    using st by (auto simp: append_card_event_def split: prod.splits sum.splits)
  from repo_AppendEvent_Inr [OF this]
  have ev: "cd_events (is_db s1) = cd_events (is_db s) @ [stored]" "se_CardID stored = i" "se_EventType stored = ''user_feedback''"
    "se_Payload stored = or_empty_object (encode_feedback lib f)" "db_ok (is_db s) \<Longrightarrow> db_ok (is_db s1)"
    by (simp_all add: f)
  moreover have "or_empty_object (encode_feedback lib f) = encode_feedback lib f" by (simp add: or_empty_object_def encode_feedback_def)
  ultimately have ev: "cd_events (is_db s1) = cd_events (is_db s) @ [stored]" "se_CardID stored = i" "se_EventType stored = ''user_feedback''"
    "se_Payload stored = encode_feedback lib f" "db_ok (is_db s) \<Longrightarrow> db_ok (is_db s1)" by simp_all
  have "fi_Target inp = RawNil \<or> decodeObject (fi_Target inp) \<noteq> None" 
    using v unfolding validateFeedback_def Let_def by argo
  then show ?thesis using that [of stored] ev db f by simp
qed

lemma ack_member:
  "e \<in> set events \<Longrightarrow> se_EventType e = ''feedback_acknowledged'' \<Longrightarrow> decode_ack lib (se_Payload e) = Some u \<Longrightarrow> u \<noteq> uuid_Nil \<Longrightarrow>
     u \<in> set (acknowledged_ids lib events)"
proof -
  assume "e \<in> set events" and e: "se_EventType e = ''feedback_acknowledged''" "decode_ack lib (se_Payload e) = Some u" "u \<noteq> uuid_Nil"
  then obtain xs ys where "events = xs @ [e] @ ys" using split_list [of e events] by auto
  moreover have "acknowledged_ids lib [e] = [u]" using e by (simp add: acknowledged_ids_def)
  ultimately show ?thesis by (simp add: items_append del: append_Cons)
qed

lemma Acknowledge_None:
  assumes "Acknowledge lib eventID now i fid s = (None, s')"
  shows "fid \<in> set (acknowledged_ids lib (repo_ListEvents i 0 10000 (is_db s))) \<and> s' = s \<or> fid = uuid_Nil \<or>
    (\<exists>stored. cd_events (is_db s') = cd_events (is_db s) @ [stored] \<and> se_CardID stored = i \<and> se_EventType stored = ''feedback_acknowledged'' \<and>
      se_Payload stored = RawJSON (JObj [(''feedback_id'', JStr (il_String lib fid))]) \<and> (db_ok (is_db s) \<longrightarrow> db_ok (is_db s')))"
proof -
  let ?events = "repo_ListEvents i 0 10000 (is_db s)"
  let ?a = "\<lparr>ai_EventID = eventID, ai_EventType = ''feedback_acknowledged'', ai_ActorKind = ActorAgent,
     ai_ActorID = ''agent'', ai_Payload = RawJSON (JObj [(''feedback_id'', JStr (il_String lib fid))])\<rparr>"
  have row: "repo_Get i (is_db s) \<noteq> None" using assms by (auto simp: Acknowledge_def split: if_splits)
  obtain t where found: "feedback_found lib fid ?events = Some t"
    using assms row by (auto simp: Acknowledge_def Let_def split: option.splits)
  show ?thesis
  proof (cases "ack_found lib fid ?events")
    case True
    then have "fid = uuid_Nil \<or> fid \<in> set (acknowledged_ids lib ?events)"
      using ack_member [of _ ?events lib fid] by (auto simp: ack_found_def list_ex_iff)
    moreover have "s' = s" using True assms row found by (simp add: Acknowledge_def)
    ultimately show ?thesis by blast
  next
    case False
    obtain stored s1 where st: "append_card_event now i ?a s = (Inr stored, s1)" and db: "is_db s' = is_db s1"
      using assms row found False by (auto simp: Acknowledge_def Let_def publish_event_def split: prod.splits sum.splits)
    have "repo_AppendEvent now i ?a (is_db s) = (Inr stored, is_db s1)"
      using st by (auto simp: append_card_event_def split: prod.splits sum.splits)
    from repo_AppendEvent_Inr [OF this] show ?thesis using db by (simp add: or_empty_object_def)
  qed
qed

abbreviation card_log :: "uuid \<Rightarrow> iter_service \<Rightarrow> stored_event list" where
  "card_log i s \<equiv> filter (\<lambda>e. se_CardID e = i) (cd_events (is_db s))"

definition pending_ids :: "iteration_lib \<Rightarrow> uuid \<Rightarrow> iter_service \<Rightarrow> uuid set" where
  "pending_ids lib i s = fb_ID ` set (durablePending lib (repo_ListEvents i 0 10000 (is_db s)))"

lemma pending_ids_log:
  "db_ok (is_db s) \<Longrightarrow> length (card_log i s) \<le> 10000 \<Longrightarrow>
     pending_ids lib i s = fb_ID ` set (feedback_items lib (card_log i s)) - set (acknowledged_ids lib (card_log i s))"
  by (simp add: pending_ids_def ListEvents_all durablePending_ids)


text \<open>
  Past its limit the replay no longer sees feedback: an item submitted to a card with 10000
  events is stored, but it is not pending, so it holds up no recovery, and it cannot be
  acknowledged.
\<close>

lemma feedback_found_None:
  "fid \<notin> fb_ID ` set (feedback_items lib events) \<Longrightarrow> fid \<noteq> uuid_Nil \<Longrightarrow> feedback_found lib fid events = None"
proof (induction events rule: rev_induct)
  case (snoc e events)
  from snoc.prems(1) have e: "fid \<notin> fb_ID ` set (feedback_items lib events)" "fid \<notin> fb_ID ` set (feedback_items lib [e])"
    unfolding items_append by auto
  have "feedback_found lib fid events = None" by (rule snoc.IH [OF e(1) snoc.prems(2)])
  then have none: "fold (\<lambda>e found. if se_EventType e = ''user_feedback'' then
         (case decode_feedback lib (se_Payload e) of
            Some f \<Rightarrow> if fb_ID f = fid then Some (fb_Subtype f) else found | None \<Rightarrow> found) else found) events None = None"
    by (simp only: feedback_found_def)
  show ?case
  proof (cases "decode_feedback lib (se_Payload e)")
    case (Some f)
    then have "se_EventType e = ''user_feedback'' \<Longrightarrow> fb_ID f \<noteq> fid" using e(2) snoc.prems(2) by (auto simp: feedback_items_def)
    with Some none show ?thesis by (simp add: feedback_found_def)
  qed (use none in \<open>simp add: feedback_found_def\<close>)
qed (simp add: feedback_found_def)

lemma feedback_beyond_limit:
  assumes ok: "db_ok (is_db s)" and long: "10000 \<le> length (card_log i s)" and sub: "SubmitFeedbackEvent lib fid eventID now i inp s = (Inr f, s')"
    and fresh: "fid \<notin> fb_ID ` set (feedback_items lib (card_log i s))" "fid \<noteq> uuid_Nil"
  shows "pending_ids lib i s' = pending_ids lib i s" and "fst (Acknowledge lib ev n i fid s') \<noteq> None"
proof -
  obtain stored where st: "cd_events (is_db s') = cd_events (is_db s) @ [stored]" "se_CardID stored = i" "db_ok (is_db s) \<Longrightarrow> db_ok (is_db s')"
    using SubmitFeedbackEvent_Inr [OF sub] by metis
  have same: "repo_ListEvents i 0 10000 (is_db s') = take 10000 (card_log i s)" "repo_ListEvents i 0 10000 (is_db s) = take 10000 (card_log i s)"
    using ListEvents_take [OF ok, of i] ListEvents_take [OF st(3) [OF ok], of i] st(1,2) long by simp_all
  then show "pending_ids lib i s' = pending_ids lib i s" by (simp add: pending_ids_def)
  have "feedback_items lib (card_log i s) = feedback_items lib (take 10000 (card_log i s)) @ feedback_items lib (drop 10000 (card_log i s))"
    by (simp flip: items_append)
  then have "fid \<notin> fb_ID ` set (feedback_items lib (take 10000 (card_log i s)))" using fresh(1) by auto
  from feedback_found_None [OF this fresh(2)] show "fst (Acknowledge lib ev n i fid s') \<noteq> None"
    by (simp add: Acknowledge_def same)
qed

section \<open>One card can hide the progress of all\<close>

text \<open>
  The validator accepts any \<open>updatedAt\<close> that is not blank, the projection only RFC 3339: an
  active card with another text makes the progress of every card unavailable.
\<close>

lemma all_some_None: "None \<in> set xs \<Longrightarrow> all_some xs = None"
  by (induction xs rule: all_some.induct) auto

lemma unreadable_card_hides_progress:
  assumes "row \<in> set (ListActiveCards lib s)" and "progressRecordFromCard lib row = None"
  shows "GetProgress lib s = None" and "svc_AggregateHeader lib s = None"
proof -
  have "None \<in> set (map (progressRecordFromCard lib) (ListActiveCards lib s))" using assms by force
  then show "GetProgress lib s = None" "svc_AggregateHeader lib s = None"
    by (simp_all add: GetProgress_def svc_AggregateHeader_def activeProgressRecords_def all_some_None)
qed

section \<open>A run of the service\<close>

definition demo_session :: string where
  "demo_session = ''00000000-0000-7000-8000-000000000002''"

definition demo_lib :: iteration_lib where
  "demo_lib = \<lparr>il_String = (\<lambda>u. if u = 7 then demo_session else replicate (unat u) (CHR ''a'')),
     il_Parse = (\<lambda>s. if s = demo_session then Some 7 else Some (of_nat (length s))), il_Version = (\<lambda>_. 7), il_Length = (\<lambda>_. 0)\<rparr>"

lemma demo_lib_roundtrip: "uuid_roundtrip demo_lib"
proof -
  have "replicate n (CHR ''a'') \<noteq> demo_session" for n by (cases n) (simp_all add: demo_session_def)
  then show ?thesis by (simp add: uuid_roundtrip_def demo_lib_def)
qed

definition demo_process :: agent_process where
  "demo_process = \<lparr>ap_ID = ''agent'', ap_Status = ProcRunning, ap_Cancel = True\<rparr>"

definition demo_input :: create_iteration_input where
  "demo_input = \<lparr>cx_ID = 1, cx_TreeID = 2, cx_NodeID = 3, cx_AppID = ''app'', cx_Subtype = ''iteration_search'',
     cx_Data = sample_card SubtypeSearch StRunning, cx_Actions = [], cx_ContextHash = [], cx_AgentID = ''agent'', cx_Process = Some demo_process\<rparr>"

definition demo_row :: "iteration_state \<Rightarrow> int \<Rightarrow> instant \<Rightarrow> card_row" where
  "demo_row st r t = \<lparr>cr_ID = 1, cr_TreeID = 2, cr_NodeID = 3, cr_AppID = ''app'', cr_CardType = CardTypeIteration,
     cr_Data = sample_card SubtypeSearch st, cr_Actions = [], cr_Status = CardStatusActive, cr_ContextHash = [], cr_Revision = r,
     cr_CreatedAt = 5, cr_UpdatedAt = t, cr_DismissedAt = None, cr_ArchivedAt = None\<rparr>"

definition demo_log :: "stored_event list" where
  "demo_log = [\<lparr>se_Sequence = 1, se_EventID = 100, se_CardID = 1, se_EventType = ''card_created'', se_ActorKind = ActorAgent,
     se_ActorID = ''agent'', se_Payload = sample_card SubtypeSearch StRunning, se_CreatedAt = 5\<rparr>]"

definition demo_running :: iter_service where
  "demo_running = \<lparr>is_db = \<lparr>cd_cards = [demo_row StRunning 1 5], cd_events = demo_log, cd_sequence = 1\<rparr>, is_agents = [(1, ''agent'')],
     is_processes = [(1, demo_process)], is_events = NewCardEventHub, is_feedback = newFeedbackHub, is_recovery = []\<rparr>"

lemma demo_running_created: "snd (CreateCardWithInput demo_lib 1 7 100 5 demo_input new_iteration_service) = demo_running"
  by code_simp

definition demo_event :: iteration_event where
  "demo_event = \<lparr>ie_Sequence = 0, ie_Subtype = ''iteration_search'', ie_EventType = ''search_completed'', ie_Data = RawJSON (JObj sample_done),
     ie_CardID = 1, ie_AgentID = ''agent'', ie_AgentSessionID = uuid_Nil, ie_TraceID = None, ie_CreatedAt = 0\<rparr>"

definition demo_completed :: iter_service where
  "demo_completed = snd (AppendEvent demo_lib 101 6 1 demo_event demo_running)"

definition demo_crash_event :: stored_event where
  "demo_crash_event = \<lparr>se_Sequence = 2, se_EventID = 101, se_CardID = 1, se_EventType = ''agent_error'', se_ActorKind = ActorAgent,
     se_ActorID = ''agent'', se_Payload = encode_envelope demo_lib \<lparr>pe_Subtype = SubtypeSearch,
       pe_Data = crash_data ''agent'' (Some ProcCrashed), pe_AgentSessionID = 7, pe_TraceID = None\<rparr>, se_CreatedAt = 6\<rparr>"

definition demo_crashed :: iter_service where
  "demo_crashed = \<lparr>is_db = \<lparr>cd_cards = [demo_row StInterrupted 2 6], cd_events = demo_log @ [demo_crash_event], cd_sequence = 2\<rparr>,
     is_agents = [(1, ''agent'')], is_processes = [], is_events = NewCardEventHub\<lparr>eh_published := 2\<rparr>, is_feedback = newFeedbackHub,
     is_recovery = []\<rparr>"

lemma demo_crashed_reported: "snd (ReportProcessStatus demo_lib 101 6 1 ''agent'' (Some ProcCrashed) demo_running) = demo_crashed"
  by code_simp

definition demo_recovering :: iter_service where
  "demo_recovering = snd (BeginRecovery demo_lib 1 (Some demo_process) demo_crashed)"

lemma demo_running_reachable: "(iter_step demo_lib)\<^sup>*\<^sup>* new_iteration_service demo_running"
  using iter_step.other [OF other_step.create_card [of demo_lib new_iteration_service 1 7 100 5 demo_input]]
  unfolding demo_running_created by (rule r_into_rtranclp)

lemma demo_completed_step: "(iter_step demo_lib)\<^sup>*\<^sup>* demo_running demo_completed"
  unfolding demo_completed_def using iter_step.other other_step.append by blast

lemma demo_recovering_reachable: "(iter_step demo_lib)\<^sup>*\<^sup>* new_iteration_service demo_recovering"
proof -
  have "iter_step demo_lib demo_running demo_crashed"
    using iter_step.other [OF other_step.report [of demo_lib demo_running 101 6 1 "''agent''" "Some ProcCrashed"]] by (simp only: demo_crashed_reported)
  moreover have "iter_step demo_lib demo_crashed demo_recovering" unfolding demo_recovering_def by (intro iter_step.other other_step.begin_recovery)
  ultimately show ?thesis using demo_running_reachable by (meson rtranclp.rtrancl_into_rtrancl)
qed

lemma demo_completed_card: "map (life demo_lib) (cd_cards (is_db demo_completed)) = [Some StCompleted]"
  by code_simp

lemma demo_resume: "fst (ResumeProcess demo_lib 102 7 1 ''agent'' demo_recovering) = None"
  by code_simp

lemma demo_append: "fst (AppendEvent demo_lib 101 6 1 demo_event demo_running) = None"
  by code_simp

lemma demo_life: "life demo_lib (demo_row StRunning 1 5) = Some StRunning" "life demo_lib (demo_row StInterrupted 2 6) = Some StInterrupted"
  by code_simp+



lemma append_event_atomic_witness:
  "\<exists>m ev. cd_events (is_db demo_completed) = demo_log @ [ev] \<and> se_EventType ev = ''search_completed'' \<and>
     repo_Get 1 (is_db demo_completed) = Some (materialize_row 6 m (demo_row StRunning 1 5))"
proof -
  have "AppendEvent demo_lib 101 6 1 demo_event demo_running = (None, demo_completed)"
    using demo_append by (metis demo_completed_def prod.collapse)
  moreover have "repo_Get 1 (is_db demo_running) = Some (demo_row StRunning 1 5)" "cd_events (is_db demo_running) = demo_log"
      "ie_EventType demo_event = ''search_completed''"
    by (simp_all add: demo_running_def demo_row_def repo_Get_def demo_event_def)
  moreover note append_event_atomic [OF demo_running_reachable, THEN conjunct2, THEN conjunct1, rule_format, of 101 6 1 demo_event demo_completed]
  ultimately show ?thesis by auto
qed

definition demo_feedback :: feedback_input where
  "demo_feedback = \<lparr>fi_CardID = 1, fi_Subtype = ''iteration_search'', fi_Kind = ''steer'', fi_Target = RawNil, fi_Note = ''focus'',
     fi_ActorID = ''user'', fi_SessionID = 7, fi_Timestamp = 0\<rparr>"

lemma demo_submit: "\<exists>f s'. SubmitFeedbackEvent demo_lib 9 101 6 1 demo_feedback demo_running = (Inr f, s') \<and> fb_CreatedAt f = 6"
proof -
  let ?x = "\<lparr>id_Subtype = SubtypeSearch, id_Title = ''Search'', id_State = StRunning, id_AgentID = ''agent''\<rparr>"
  have row: "repo_Get 1 (is_db demo_running) = Some (demo_row StRunning 1 5)" "cr_Status (demo_row StRunning 1 5) = CardStatusActive"
    by (simp_all add: demo_running_def demo_row_def repo_Get_def)
  have x: "ValidateCardData demo_lib (cr_Data (demo_row StRunning 1 5)) = Some ?x" by code_simp
  have session: "il_String demo_lib 7 = cardSessionID (cr_Data (demo_row StRunning 1 5))" by code_simp
  have "validateUUIDv7 demo_lib 7" by code_simp
  then have v: "validateFeedback demo_lib demo_feedback ?x"
    by (simp add: validateFeedback_def demo_feedback_def feedback_kinds_def demo_lib_def)
  have "100 \<noteq> (101 :: uuid)" by simp
  then show ?thesis using row x session v
    by (simp add: SubmitFeedbackEvent_def demo_feedback_def append_card_event_def repo_AppendEvent_def Let_def time_IsZero_def)
      (simp add: demo_running_def demo_log_def)
qed


text \<open>A valid card whose progress time is no RFC 3339 time.\<close>

definition soon_card :: raw_message where
  "soon_card = RawJSON (JObj [(''subtype'', JStr ''iteration_search''), (''title'', JStr ''Search''), (''state'', JStr ''running''),
     (''agentId'', JStr ''agent''), (''sessionId'', JStr demo_session), (''progress'',
       JObj [(''cardId'', JStr demo_session), (''type'', JStr ''search''), (''title'', JStr ''Search''),
         (''current'', JNum 0), (''total'', JNum 0), (''status'', JStr ''running''), (''updatedAt'', JStr ''soon'')])])"

lemma soon_card_unreadable:
  "life demo_lib ((demo_row StRunning 1 5)\<lparr>cr_Data := soon_card\<rparr>) = Some StRunning"
  "progressRecordFromCard demo_lib ((demo_row StRunning 1 5)\<lparr>cr_Data := soon_card\<rparr>) = None"
  by code_simp+

end
