(* ===== verification/Tree_Store.thy ===== *)
theory Tree_Store
  imports Canopy_Models
begin

text \<open>
  The tables of the conversation graph and their repositories: \<open>internal/db/node_repo.go\<close>,
  \<open>edge_repo.go\<close> and \<open>tree_repo.go\<close>, with the constraints and triggers of the migrations that
  create the tables. A table is the list of its rows in insertion order; a statement is a
  function of the tables. A recursive query is \<open>recursive_query\<close>, with the depth at which its
  cycle guard stops it. Rows that an \<open>ORDER BY\<close> does not separate keep their insertion order.
\<close>

section \<open>Rows\<close>

record edge_row =
  e_ID :: uuid
  e_TreeID :: uuid
  e_SourceID :: uuid
  e_TargetID :: uuid
  e_EdgeType :: string
  e_SequenceNum :: int
  e_Metadata :: json
  e_CreatedAt :: instant
  e_DeletedAt :: "instant option"

record tree_row =
  tr_ID :: uuid
  tr_OwnerID :: uuid
  tr_Title :: string
  tr_Description :: string
  tr_RootNodeID :: "uuid option"
  tr_Metadata :: json
  tr_CreatedAt :: instant
  tr_EditedAt :: "instant option"
  tr_DeletedAt :: "instant option"

record member_row =
  tm_TreeID :: uuid
  tm_UserID :: uuid
  tm_Role :: string
  tm_JoinedAt :: instant

record user_row =
  us_ID :: uuid
  us_DisplayName :: string

record graph_db =
  g_trees :: "tree_row list"
  g_nodes :: "node list"
  g_edges :: "edge_row list"
  g_members :: "member_row list"
  g_users :: "user_row list"

definition n_active :: "node \<Rightarrow> bool" where "n_active n \<longleftrightarrow> n_DeletedAt n = None"
definition e_active :: "edge_row \<Rightarrow> bool" where "e_active e \<longleftrightarrow> e_DeletedAt e = None"
definition tr_active :: "tree_row \<Rightarrow> bool" where "tr_active t \<longleftrightarrow> tr_DeletedAt t = None"

text \<open>The values of \<open>content_format\<close>, \<open>node_type\<close>, \<open>edge_type\<close> and \<open>parent_mode\<close>.\<close>

definition db_formats :: "string list" where "db_formats = [''markdown'', ''plain'', ''rich'']"
definition db_node_types :: "string list" where "db_node_types = [''message'', ''synthesis'', ''system'']"
definition db_edge_types :: "string list" where
  "db_edge_types = [''reply'', ''fork'', ''synthesis'', ''reference'']"
definition db_parent_modes :: "string list" where "db_parent_modes = [''lineage'', ''multi_reference'']"

section \<open>Inserting rows\<close>

text \<open>What a violated constraint makes of a statement.\<close>

datatype pg_error = NotNullViolation | UniqueViolation | ForeignKeyViolation string | CheckViolation

definition has_tree :: "graph_db \<Rightarrow> uuid \<Rightarrow> bool" where
  "has_tree db t \<longleftrightarrow> list_ex (\<lambda>r. tr_ID r = t) (g_trees db)"

definition has_node :: "graph_db \<Rightarrow> uuid \<Rightarrow> bool" where
  "has_node db i \<longleftrightarrow> list_ex (\<lambda>n. n_ID n = i) (g_nodes db)"

definition insert_tree :: "tree_row \<Rightarrow> graph_db \<Rightarrow> pg_error + graph_db" where
  "insert_tree t db =
     (if 500 < rune_count (tr_Title t) then Inl CheckViolation
      else if has_tree db (tr_ID t) then Inl UniqueViolation
      else Inr (db\<lparr>g_trees := g_trees db @ [t]\<rparr>))"

definition insert_member :: "member_row \<Rightarrow> graph_db \<Rightarrow> pg_error + graph_db" where
  "insert_member m db =
     (if list_ex (\<lambda>r. tm_TreeID r = tm_TreeID m \<and> tm_UserID r = tm_UserID m) (g_members db) then Inl UniqueViolation
      else if \<not> has_tree db (tm_TreeID m) then Inl (ForeignKeyViolation ''tree_members_tree_id_fkey'')
      else if \<not> list_ex (\<lambda>u. us_ID u = tm_UserID m) (g_users db)
      then Inl (ForeignKeyViolation ''tree_members_user_id_fkey'')
      else Inr (db\<lparr>g_members := g_members db @ [m]\<rparr>))"

text \<open>The highest sequence number of the rows of a tree, deleted ones included.\<close>

definition next_node_seq :: "graph_db \<Rightarrow> uuid \<Rightarrow> int" where
  "next_node_seq db t = fold max (map n_SequenceNum (filter (\<lambda>n. n_TreeID n = t) (g_nodes db))) 0 + 1"

definition last_edge_seq :: "graph_db \<Rightarrow> uuid \<Rightarrow> int" where
  "last_edge_seq db t = fold max (map e_SequenceNum (filter (\<lambda>e. e_TreeID e = t) (g_edges db))) 0"

definition node_checks :: "node \<Rightarrow> bool" where
  "node_checks n \<longleftrightarrow> n_ContentFormat n \<in> set db_formats \<and> n_NodeType n \<in> set db_node_types
     \<and> n_ParentMode n \<in> set db_parent_modes
     \<and> (n_ParentMode n \<noteq> ''multi_reference'' \<or> n_ParentID n \<noteq> None)"

definition insert_node :: "node \<Rightarrow> graph_db \<Rightarrow> pg_error + graph_db" where
  "insert_node n db =
     (if \<not> node_checks n then Inl CheckViolation
      else if has_node db (n_ID n) then Inl UniqueViolation
      else if \<not> has_tree db (n_TreeID n) then Inl (ForeignKeyViolation ''fk_nodes_tree'')
      else if (case n_ParentID n of None \<Rightarrow> False | Some p \<Rightarrow> \<not> has_node db p \<and> p \<noteq> n_ID n)
      then Inl (ForeignKeyViolation ''nodes_parent_id_fkey'')
      else Inr (db\<lparr>g_nodes := g_nodes db @ [n]\<rparr>))"

definition edge_checks :: "edge_row \<Rightarrow> bool" where
  "edge_checks e \<longleftrightarrow> e_EdgeType e \<in> set db_edge_types \<and> e_SourceID e \<noteq> e_TargetID e"

definition same_edge :: "edge_row \<Rightarrow> edge_row \<Rightarrow> bool" where
  "same_edge a b \<longleftrightarrow> e_SourceID a = e_SourceID b \<and> e_TargetID a = e_TargetID b \<and> e_EdgeType a = e_EdgeType b"

definition insert_edge :: "edge_row \<Rightarrow> graph_db \<Rightarrow> pg_error + graph_db" where
  "insert_edge e db =
     (if \<not> edge_checks e then Inl CheckViolation
      else if list_ex (\<lambda>r. e_ID r = e_ID e \<or> same_edge r e) (g_edges db) then Inl UniqueViolation
      else if \<not> has_node db (e_SourceID e) then Inl (ForeignKeyViolation ''edges_source_id_fkey'')
      else if \<not> has_node db (e_TargetID e) then Inl (ForeignKeyViolation ''edges_target_id_fkey'')
      else if \<not> has_tree db (e_TreeID e) then Inl (ForeignKeyViolation ''fk_edges_tree'')
      else Inr (db\<lparr>g_edges := g_edges db @ [e]\<rparr>))"

text \<open>An update that changes content or metadata stamps \<open>edited_at\<close> (trigger \<open>trg_node_edited_at\<close>).\<close>

definition set_edited_at :: "instant \<Rightarrow> node \<Rightarrow> node \<Rightarrow> node" where
  "set_edited_at now old new =
     (if n_Content old \<noteq> n_Content new \<or> n_Metadata old \<noteq> n_Metadata new then new\<lparr>n_EditedAt := Some now\<rparr> else new)"

text \<open>\<open>UPDATE nodes SET \<dots> WHERE id = $1 AND deleted_at IS NULL RETURNING \<dots>\<close>.\<close>

definition update_node :: "instant \<Rightarrow> uuid \<Rightarrow> (node \<Rightarrow> node) \<Rightarrow> graph_db \<Rightarrow> (node \<times> graph_db) option" where
  "update_node now i f db =
     (case find (\<lambda>n. n_ID n = i \<and> n_active n) (g_nodes db) of None \<Rightarrow> None
      | Some n \<Rightarrow> (let n' = set_edited_at now n (f n)
                  in Some (n', db\<lparr>g_nodes := map (\<lambda>m. if n_ID m = i \<and> n_active m then n' else m) (g_nodes db)\<rparr>)))"

section \<open>Recursive queries\<close>

text \<open>
  \<open>WITH RECURSIVE q AS (seed UNION ALL step)\<close> with a guard on the depth: the rows with the
  depth at which they were found, one level after the other.
\<close>

function recursive_query :: "('a \<Rightarrow> 'a list) \<Rightarrow> nat \<Rightarrow> nat \<Rightarrow> 'a list \<Rightarrow> ('a \<times> nat) list" where
  "recursive_query step guard d level =
     map (\<lambda>x. (x, d)) level @
     (if level = [] \<or> guard \<le> d then [] else recursive_query step guard (Suc d) (concat (map step level)))"
  by pat_completeness auto
termination by (relation "measure (\<lambda>(step, guard, d, level). guard - d)") auto

declare recursive_query.simps [simp del]

definition max_depth_of :: "('a \<times> nat) list \<Rightarrow> int" where
  "max_depth_of rows = int (fold max (map snd rows) 0)"

definition depth_guard :: nat where "depth_guard = 10000"

section \<open>Nodes\<close>

definition seq_before :: "node \<Rightarrow> node \<Rightarrow> bool" where
  "seq_before a b \<longleftrightarrow> n_SequenceNum a < n_SequenceNum b"

definition keyset_before :: "node \<Rightarrow> node \<Rightarrow> bool" where
  "keyset_before a b \<longleftrightarrow> n_SequenceNum a < n_SequenceNum b \<or> n_SequenceNum a = n_SequenceNum b \<and> n_ID a < n_ID b"

definition node_at :: "graph_db \<Rightarrow> uuid \<Rightarrow> node option" where
  "node_at db i = find (\<lambda>n. n_ID n = i) (g_nodes db)"

definition node_GetByID :: "graph_db \<Rightarrow> uuid \<Rightarrow> node option" where
  "node_GetByID db i = find (\<lambda>n. n_ID n = i \<and> n_active n) (g_nodes db)"

definition tree_nodes :: "graph_db \<Rightarrow> uuid \<Rightarrow> node list" where
  "tree_nodes db t = filter (\<lambda>n. n_TreeID n = t \<and> n_active n) (g_nodes db)"

definition node_GetByTree :: "graph_db \<Rightarrow> uuid \<Rightarrow> node list" where
  "node_GetByTree db t = sort_stable seq_before (tree_nodes db t)"

definition node_CountByTree :: "graph_db \<Rightarrow> uuid \<Rightarrow> int" where
  "node_CountByTree db t = int (length (tree_nodes db t))"

definition node_ListKeyset :: "graph_db \<Rightarrow> uuid \<Rightarrow> uuid option \<Rightarrow> int \<Rightarrow> node list" where
  "node_ListKeyset db t cursor limit =
     (let page = sort_stable keyset_before (tree_nodes db t)
      in take (nat limit)
           (case cursor of None \<Rightarrow> page
            | Some c \<Rightarrow> (case find (\<lambda>n. n_ID n = c) (tree_nodes db t) of None \<Rightarrow> []
                        | Some m \<Rightarrow> filter (keyset_before m) page)))"

text \<open>The rows of \<open>nodes n JOIN edges e ON e.target_id = n.id\<close> with an active node and edge.\<close>

definition child_rows :: "graph_db \<Rightarrow> uuid \<Rightarrow> (edge_row \<times> node) list" where
  "child_rows db p =
     concat (map (\<lambda>n. map (\<lambda>e. (e, n)) (filter (\<lambda>e. e_TargetID e = n_ID n \<and> e_SourceID e = p \<and> e_active e) (g_edges db)))
              (filter n_active (g_nodes db)))"

definition child_before :: "edge_row \<times> node \<Rightarrow> edge_row \<times> node \<Rightarrow> bool" where
  "child_before a b \<longleftrightarrow> e_SequenceNum (fst a) < e_SequenceNum (fst b)
     \<or> e_SequenceNum (fst a) = e_SequenceNum (fst b) \<and> n_SequenceNum (snd a) < n_SequenceNum (snd b)"

definition node_GetChildren :: "graph_db \<Rightarrow> uuid \<Rightarrow> node list" where
  "node_GetChildren db p = map snd (sort_stable child_before (child_rows db p))"

text \<open>
  One step up the display parents. \<open>live\<close> is the condition of the recursive part on the rows it
  adds: the repository and the creation path skip deleted parents, \<open>computeDepth\<close> does not.
\<close>

definition parent_rows :: "(node \<Rightarrow> bool) \<Rightarrow> graph_db \<Rightarrow> node \<Rightarrow> node list" where
  "parent_rows live db n =
     (case n_ParentID n of None \<Rightarrow> [] | Some p \<Rightarrow> filter (\<lambda>m. n_ID m = p \<and> live m) (g_nodes db))"

definition parent_chain :: "(node \<Rightarrow> bool) \<Rightarrow> graph_db \<Rightarrow> uuid \<Rightarrow> (node \<times> nat) list" where
  "parent_chain live db i =
     recursive_query (parent_rows live db) depth_guard 0 (filter (\<lambda>n. n_ID n = i \<and> n_active n) (g_nodes db))"

definition node_GetAncestors :: "graph_db \<Rightarrow> uuid \<Rightarrow> node list" where
  "node_GetAncestors db i = sort_stable seq_before (map fst (parent_chain n_active db i))"

definition node_GetSubtree :: "graph_db \<Rightarrow> uuid \<Rightarrow> int \<Rightarrow> node list" where
  "node_GetSubtree db rootID maxDepth =
     (let guard = (if maxDepth \<le> 0 then depth_guard else min (nat maxDepth) depth_guard);
          rows = recursive_query (\<lambda>n. map snd (child_rows db (n_ID n))) guard 0
                   (filter (\<lambda>n. n_ID n = rootID \<and> n_active n) (g_nodes db))
      in sort_stable seq_before (dedup_by n_ID [] (map fst rows)))"

fun index_of :: "uuid \<Rightarrow> node list \<Rightarrow> nat option" where
  "index_of i [] = None"
| "index_of i (n # ns) = (if n_ID n = i then Some 0 else map_option Suc (index_of i ns))"

text \<open>
  \<open>GetPath\<close>: the common ancestor with the greatest identifier, then the two ancestor lists
  around it as the loops of the code walk them.
\<close>

definition common_ancestor :: "graph_db \<Rightarrow> uuid \<Rightarrow> uuid \<Rightarrow> uuid option" where
  "common_ancestor db fromID toID =
     (let up = map n_ID (map fst (parent_chain n_active db fromID));
          up' = map n_ID (map fst (parent_chain n_active db toID));
          both = filter (\<lambda>i. i \<in> set up') up
      in if both = [] then None else Some (fold max both 0))"

definition node_GetPath :: "graph_db \<Rightarrow> uuid \<Rightarrow> uuid \<Rightarrow> node list option" where
  "node_GetPath db fromID toID =
     (case common_ancestor db fromID toID of None \<Rightarrow> None
      | Some lca \<Rightarrow>
          (let ancFrom = node_GetAncestors db fromID; ancTo = node_GetAncestors db toID
           in case index_of lca ancFrom of None \<Rightarrow> None
              | Some lcaIdx \<Rightarrow>
                  (let toIdx = (case index_of lca ancTo of None \<Rightarrow> 0 | Some i \<Rightarrow> i)
                   in Some (rev (take (Suc lcaIdx) ancFrom) @ rev (take toIdx ancTo)))))"

definition node_Update :: "instant \<Rightarrow> graph_db \<Rightarrow> uuid \<Rightarrow> string \<Rightarrow> json option \<Rightarrow> (node \<times> graph_db) option" where
  "node_Update now db i content metadata =
     update_node now i (\<lambda>n. n\<lparr>n_Content := content,
       n_Metadata := RawJSON (case metadata of None \<Rightarrow> JObj [] | Some m \<Rightarrow> m)\<rparr>) db"

definition node_SoftDelete :: "instant \<Rightarrow> graph_db \<Rightarrow> uuid \<Rightarrow> graph_db option" where
  "node_SoftDelete now db i = map_option snd (update_node now i (\<lambda>n. n\<lparr>n_DeletedAt := Some now\<rparr>) db)"

text \<open>
  \<open>node_GetCounts\<close>: total and active nodes, total and active edges, and the depth of the forest
  of the tree's rows, deleted ones included. A tree without a row that has no parent yields no
  row of the joined query, which reads as five zeros.
\<close>

definition node_GetCounts :: "graph_db \<Rightarrow> uuid \<Rightarrow> int list" where
  "node_GetCounts db t =
     (let ns = filter (\<lambda>n. n_TreeID n = t) (g_nodes db); es = filter (\<lambda>e. e_TreeID e = t) (g_edges db);
          depths = recursive_query (\<lambda>n. filter (\<lambda>m. n_ParentID m = Some (n_ID n)) ns) depth_guard 0
                     (filter (\<lambda>n. n_ParentID n = None) ns)
      in if depths = [] then [0, 0, 0, 0, 0]
         else [int (length ns), int (length (filter n_active ns)), int (length es), int (length (filter e_active es)),
               max_depth_of depths])"


section \<open>Edges\<close>

datatype edge_error =
    EdgeNotFound
  | SelfEdge
  | MultipleParents
  | ReferenceSourceCount
  | ReferenceSourceDuplicate
  | ReferenceRequiresMultiReferenceMode
  | RefParentInvariant string
  | ReferenceTargetType
  | SystemNodeParentForbidden
  | EdgeIDRequired
  | EdgeInsertFailed pg_error

text \<open>The edge passed to the repository: type, sequence number and metadata may be left to defaults.\<close>

record edge_input =
  ei_TreeID :: uuid
  ei_SourceID :: uuid
  ei_TargetID :: uuid
  ei_EdgeType :: string
  ei_SequenceNum :: int
  ei_Metadata :: "json option"

definition incoming :: "graph_db \<Rightarrow> uuid \<Rightarrow> edge_row list" where
  "incoming db t = filter (\<lambda>e. e_TargetID e = t \<and> e_active e) (g_edges db)"

text \<open>The decision table of \<open>Create\<close> for a parent edge of the given type.\<close>

definition edge_allowed :: "graph_db \<Rightarrow> node \<Rightarrow> string \<Rightarrow> edge_error option" where
  "edge_allowed db target edgeType =
     (if n_NodeType target = ''system'' then Some SystemNodeParentForbidden
      else if n_NodeType target = ''synthesis''
      then (if edgeType = ''reference'' then Some ReferenceTargetType
            else if n_ParentMode target = ''multi_reference'' then Some (RefParentInvariant []) else None)
      else if n_ParentMode target = ''multi_reference'' then Some (RefParentInvariant [])
      else if edgeType = ''reference'' then Some ReferenceRequiresMultiReferenceMode
      else if incoming db (n_ID target) \<noteq> [] then Some MultipleParents
      else None)"

text \<open>The sequence number has no default and no trigger: zero is passed as \<open>NULL\<close>.\<close>

definition edge_Create :: "uuid \<Rightarrow> instant \<Rightarrow> graph_db \<Rightarrow> edge_input \<Rightarrow> edge_error + edge_row \<times> graph_db" where
  "edge_Create newID now db input =
     (if ei_SourceID input = ei_TargetID input then Inl SelfEdge
      else case node_GetByID db (ei_TargetID input) of None \<Rightarrow> Inl EdgeNotFound
      | Some target \<Rightarrow>
          (case edge_allowed db target (ei_EdgeType input) of Some e \<Rightarrow> Inl e
           | None \<Rightarrow>
               if ei_SequenceNum input = 0 then Inl (EdgeInsertFailed NotNullViolation)
               else (let row = \<lparr>e_ID = newID, e_TreeID = ei_TreeID input, e_SourceID = ei_SourceID input,
                        e_TargetID = ei_TargetID input, e_EdgeType = ei_EdgeType input,
                        e_SequenceNum = ei_SequenceNum input,
                        e_Metadata = (case ei_Metadata input of None \<Rightarrow> JObj [] | Some m \<Rightarrow> m),
                        e_CreatedAt = now, e_DeletedAt = None\<rparr>
                     in case insert_edge row db of Inl e \<Rightarrow> Inl (EdgeInsertFailed e)
                        | Inr db' \<Rightarrow> Inr (row, db'))))"

definition eseq_before :: "edge_row \<Rightarrow> edge_row \<Rightarrow> bool" where
  "eseq_before a b \<longleftrightarrow> e_SequenceNum a < e_SequenceNum b"

definition edge_GetByID :: "graph_db \<Rightarrow> uuid \<Rightarrow> edge_row option" where
  "edge_GetByID db i = find (\<lambda>e. e_ID e = i \<and> e_active e) (g_edges db)"

definition edge_GetBySource :: "graph_db \<Rightarrow> uuid \<Rightarrow> edge_row list" where
  "edge_GetBySource db i = sort_stable eseq_before (filter (\<lambda>e. e_SourceID e = i \<and> e_active e) (g_edges db))"

definition edge_GetByTarget :: "graph_db \<Rightarrow> uuid \<Rightarrow> edge_row list" where
  "edge_GetByTarget db i = sort_stable eseq_before (incoming db i)"

definition edge_GetByTree :: "graph_db \<Rightarrow> uuid \<Rightarrow> edge_row list" where
  "edge_GetByTree db t =
     sort_stable (\<lambda>a b. e_SourceID a < e_SourceID b \<or> e_SourceID a = e_SourceID b \<and> eseq_before a b)
       (filter (\<lambda>e. e_TreeID e = t \<and> e_active e) (g_edges db))"

definition edge_SoftDelete :: "instant \<Rightarrow> graph_db \<Rightarrow> uuid \<Rightarrow> graph_db option" where
  "edge_SoftDelete now db i =
     (if edge_GetByID db i = None then None
      else Some (db\<lparr>g_edges := map (\<lambda>e. if e_ID e = i \<and> e_active e then e\<lparr>e_DeletedAt := Some now\<rparr> else e) (g_edges db)\<rparr>))"

definition edge_GetParents :: "graph_db \<Rightarrow> uuid \<Rightarrow> node list" where
  "edge_GetParents db t =
     concat (map (\<lambda>e. filter (\<lambda>n. n_ID n = e_SourceID e \<and> n_active n) (g_nodes db)) (edge_GetByTarget db t))"

definition edge_GetSiblings :: "graph_db \<Rightarrow> uuid \<Rightarrow> uuid \<Rightarrow> node list" where
  "edge_GetSiblings db source target =
     (case find (\<lambda>e. e_SourceID e = source \<and> e_TargetID e = target \<and> e_active e) (g_edges db) of None \<Rightarrow> []
      | Some e \<Rightarrow>
          map snd (sort_stable (\<lambda>a b. eseq_before (fst a) (fst b))
            (filter (\<lambda>r. e_EdgeType (fst r) = e_EdgeType e) (child_rows db source))))"

definition edge_counts :: "graph_db \<Rightarrow> uuid \<Rightarrow> int \<times> int \<times> (string, int) gomap" where
  "edge_counts db t =
     (let es = filter (\<lambda>e. e_TreeID e = t) (g_edges db); live = filter e_active es
      in (int (length es), int (length live),
          fold (\<lambda>e m. map_put (e_EdgeType e) (map_get 0 m (e_EdgeType e) + 1) m) live []))"

text \<open>\<open>Move\<close> keeps tree, target and type; the schema rejects a duplicate or an unknown source.\<close>

definition edge_Move :: "graph_db \<Rightarrow> uuid \<Rightarrow> uuid \<Rightarrow> edge_error + edge_row \<times> graph_db" where
  "edge_Move db i newSource =
     (case find (\<lambda>e. e_ID e = i \<and> e_active e \<and> e_SourceID e \<noteq> newSource) (g_edges db) of None \<Rightarrow> Inl EdgeNotFound
      | Some e \<Rightarrow>
          (let e' = e\<lparr>e_SourceID := newSource,
                      e_SequenceNum := fold max (map e_SequenceNum (edge_GetBySource db newSource)) 0 + 1\<rparr>
           in if \<not> edge_checks e' then Inl (EdgeInsertFailed CheckViolation)
              else if list_ex (\<lambda>r. e_ID r \<noteq> i \<and> same_edge r e') (g_edges db) then Inl (EdgeInsertFailed UniqueViolation)
              else if \<not> has_node db newSource then Inl (EdgeInsertFailed (ForeignKeyViolation ''edges_source_id_fkey''))
              else Inr (e', db\<lparr>g_edges := map (\<lambda>r. if e_ID r = i then e' else r) (g_edges db)\<rparr>)))"

section \<open>Reference sets\<close>

text \<open>FNV-1a over the bytes of a string, in 64 bits.\<close>

definition fnv1a64 :: "string \<Rightarrow> 64 word" where
  "fnv1a64 s = foldl (\<lambda>h c. xor h (of_char c) * 1099511628211) 14695981039346656037 s"

definition ReferenceSourceLabel :: "int \<Rightarrow> string" where
  "ReferenceSourceLabel index = ''R'' @ itoa (index + 1)"

definition ReferenceColorKey :: "(uuid \<Rightarrow> string) \<Rightarrow> uuid \<Rightarrow> uuid \<Rightarrow> uuid \<Rightarrow> string" where
  "ReferenceColorKey ustr treeID targetID sourceID =
     ''ref-'' @ itoa (uint (fnv1a64 (ustr treeID @ '':'' @ ustr targetID @ '':'' @ ustr sourceID)) mod 8)"

definition jint :: "int \<Rightarrow> json" where "jint i = JNum (rat_of_int i)"

definition ReferenceEdgeMetadataFor :: "(uuid \<Rightarrow> string) \<Rightarrow> int \<Rightarrow> uuid \<Rightarrow> uuid \<Rightarrow> uuid \<Rightarrow> json" where
  "ReferenceEdgeMetadataFor ustr index treeID targetID sourceID =
     JObj [(''reference_index'', jint index), (''source_label'', JStr (ReferenceSourceLabel index)),
           (''color_key'', JStr (ReferenceColorKey ustr treeID targetID sourceID)),
           (''selection_order'', jint index), (''role'', JStr ''context_source'')]"

fun check_sources :: "uuid \<Rightarrow> uuid list \<Rightarrow> uuid list \<Rightarrow> edge_error option" where
  "check_sources target seen [] = None"
| "check_sources target seen (s # ss) =
     (if s = uuid_Nil then Some EdgeIDRequired
      else if s = target then Some SelfEdge
      else if s \<in> set seen then Some ReferenceSourceDuplicate
      else check_sources target (s # seen) ss)"

text \<open>
  The inserts of \<open>CreateReferenceSet\<close>: one edge per source, in order, sequence numbers rising.
  \<open>newID index\<close> is the identifier the database draws for the edge of that index.
\<close>

fun insert_reference_edges ::
    "(uuid \<Rightarrow> string) \<Rightarrow> (nat \<Rightarrow> uuid) \<Rightarrow> instant \<Rightarrow> uuid \<Rightarrow> uuid \<Rightarrow> nat \<Rightarrow> int \<Rightarrow> uuid list \<Rightarrow> graph_db
     \<Rightarrow> edge_error + edge_row list \<times> graph_db" where
  "insert_reference_edges ustr newID now treeID targetID index sq [] db = Inr ([], db)"
| "insert_reference_edges ustr newID now treeID targetID index sq (src # rest) db =
     (let row = \<lparr>e_ID = newID index, e_TreeID = treeID, e_SourceID = src, e_TargetID = targetID,
          e_EdgeType = ''reference'', e_SequenceNum = sq + 1,
          e_Metadata = ReferenceEdgeMetadataFor ustr (int index) treeID targetID src,
          e_CreatedAt = now, e_DeletedAt = None\<rparr>
      in case insert_edge row db of
           Inl e \<Rightarrow> Inl (if e = UniqueViolation then ReferenceSourceDuplicate else EdgeInsertFailed e)
         | Inr db' \<Rightarrow>
             (case insert_reference_edges ustr newID now treeID targetID (Suc index) (sq + 1) rest db' of
                Inl e \<Rightarrow> Inl e | Inr (rows, db'') \<Rightarrow> Inr (row # rows, db'')))"

definition CreateReferenceSet ::
    "(uuid \<Rightarrow> string) \<Rightarrow> (nat \<Rightarrow> uuid) \<Rightarrow> instant \<Rightarrow> uuid \<Rightarrow> uuid \<Rightarrow> uuid list \<Rightarrow> graph_db
     \<Rightarrow> edge_error + edge_row list \<times> graph_db" where
  "CreateReferenceSet ustr newID now treeID targetID sources db =
     (if treeID = uuid_Nil \<or> targetID = uuid_Nil then Inl EdgeIDRequired
      else if length sources < 2 \<or> 20 < length sources then Inl ReferenceSourceCount
      else case check_sources targetID [] sources of Some e \<Rightarrow> Inl e
      | None \<Rightarrow> insert_reference_edges ustr newID now treeID targetID 0 (last_edge_seq db treeID) sources db)"

definition GetActiveIncoming :: "graph_db \<Rightarrow> uuid \<Rightarrow> edge_row list" where
  "GetActiveIncoming db t =
     sort_stable (\<lambda>a b. eseq_before a b \<or> e_SequenceNum a = e_SequenceNum b \<and> e_ID a < e_ID b) (incoming db t)"

text \<open>\<open>COALESCE((metadata->>'selection_order')::int, 2147483647)\<close>.\<close>

definition selection_order :: "edge_row \<Rightarrow> int" where
  "selection_order e =
     (case e_Metadata e of
        JObj ms \<Rightarrow> (case json_field ''selection_order'' ms of Some (JNum r) \<Rightarrow> \<lfloor>r\<rfloor> | _ \<Rightarrow> 2147483647)
      | _ \<Rightarrow> 2147483647)"

definition reference_before :: "edge_row \<Rightarrow> edge_row \<Rightarrow> bool" where
  "reference_before a b \<longleftrightarrow> selection_order a < selection_order b \<or> selection_order a = selection_order b \<and> eseq_before a b"

definition reference_edges :: "graph_db \<Rightarrow> uuid \<Rightarrow> edge_row list" where
  "reference_edges db t = sort_stable reference_before (filter (\<lambda>e. e_EdgeType e = ''reference'') (incoming db t))"

definition GetActiveReferenceParents :: "(uuid \<Rightarrow> string) \<Rightarrow> graph_db \<Rightarrow> uuid \<Rightarrow> (edge_row \<times> uuid \<times> int \<times> string \<times> string) list" where
  "GetActiveReferenceParents ustr db t =
     map (\<lambda>(i, e). (e, e_SourceID e, int i, ReferenceSourceLabel (int i),
                    ReferenceColorKey ustr (e_TreeID e) (e_TargetID e) (e_SourceID e)))
       (enumerate 0 (reference_edges db t))"

text \<open>The first edge that a multi-reference target cannot have, in words.\<close>

fun bad_reference_edge :: "(uuid \<Rightarrow> string) \<Rightarrow> uuid \<Rightarrow> edge_row list \<Rightarrow> string option" where
  "bad_reference_edge ustr t [] = None"
| "bad_reference_edge ustr t (e # es) =
     (if e_EdgeType e \<noteq> ''reference''
      then Some (''multi_reference target has incoming '' @ strconv_Quote (e_EdgeType e) @ '' edge'')
      else if e_TreeID e \<noteq> t then Some (''incoming edge '' @ ustr (e_ID e) @ '' is in another tree'')
      else bad_reference_edge ustr t es)"

definition reference_set_error :: "(uuid \<Rightarrow> string) \<Rightarrow> node \<Rightarrow> edge_row list \<Rightarrow> string option" where
  "reference_set_error ustr target inc =
     (if length inc < 2 \<or> 20 < length inc
      then Some (''multi_reference target has '' @ itoa (int (length inc)) @ '' incoming edges (need 2-20)'')
      else case bad_reference_edge ustr (n_TreeID target) inc of Some m \<Rightarrow> Some m
      | None \<Rightarrow>
          (case n_ParentID target of None \<Rightarrow> Some ''multi_reference target has no display anchor''
           | Some p \<Rightarrow>
               if p \<notin> e_SourceID ` set inc
               then Some (''display anchor '' @ ustr p @ '' is not an active reference source'')
               else if length (remdups (map e_SourceID inc)) \<noteq> length inc then Some ''duplicate reference sources''
               else None))"

definition ValidateIncomingInvariant :: "(uuid \<Rightarrow> string) \<Rightarrow> graph_db \<Rightarrow> node \<Rightarrow> edge_error option" where
  "ValidateIncomingInvariant ustr db target =
     (let inc = GetActiveIncoming db (n_ID target)
      in if n_NodeType target = ''system'' then (if inc \<noteq> [] then Some SystemNodeParentForbidden else None)
         else if n_NodeType target = ''synthesis''
         then (if n_ParentMode target = ''multi_reference'' then Some (RefParentInvariant [])
               else if list_ex (\<lambda>e. e_EdgeType e = ''reference'') inc then Some ReferenceTargetType else None)
         else if n_ParentMode target = ''multi_reference''
         then map_option RefParentInvariant (reference_set_error ustr target inc)
         else if 1 < length inc then Some MultipleParents
         else if list_ex (\<lambda>e. e_EdgeType e = ''reference'') inc then Some ReferenceRequiresMultiReferenceMode
         else None)"

section \<open>Trees\<close>

definition tree_GetByID :: "graph_db \<Rightarrow> uuid \<Rightarrow> tree_row option" where
  "tree_GetByID db i = find (\<lambda>t. tr_ID t = i \<and> tr_active t) (g_trees db)"

definition newest_first :: "tree_row \<Rightarrow> tree_row \<Rightarrow> bool" where
  "newest_first a b \<longleftrightarrow> tr_CreatedAt b < tr_CreatedAt a"

definition tree_keyset_before :: "tree_row \<Rightarrow> tree_row \<Rightarrow> bool" where
  "tree_keyset_before a b \<longleftrightarrow> tr_CreatedAt b < tr_CreatedAt a \<or> tr_CreatedAt a = tr_CreatedAt b \<and> tr_ID b < tr_ID a"

definition active_trees :: "graph_db \<Rightarrow> tree_row list" where
  "active_trees db = filter tr_active (g_trees db)"

definition tree_GetByOwner :: "graph_db \<Rightarrow> uuid \<Rightarrow> tree_row list" where
  "tree_GetByOwner db owner = sort_stable newest_first (filter (\<lambda>t. tr_OwnerID t = owner) (active_trees db))"

definition update_tree :: "uuid \<Rightarrow> (tree_row \<Rightarrow> tree_row) \<Rightarrow> graph_db \<Rightarrow> graph_db" where
  "update_tree i f db = db\<lparr>g_trees := map (\<lambda>t. if tr_ID t = i \<and> tr_active t then f t else t) (g_trees db)\<rparr>"

definition tree_Update :: "instant \<Rightarrow> graph_db \<Rightarrow> tree_row \<Rightarrow> pg_error option + tree_row \<times> graph_db" where
  "tree_Update now db tree =
     (case tree_GetByID db (tr_ID tree) of None \<Rightarrow> Inl None
      | Some t \<Rightarrow>
          if 500 < rune_count (tr_Title tree) then Inl (Some CheckViolation)
          else (let t' = t\<lparr>tr_Title := tr_Title tree, tr_Description := tr_Description tree,
                  tr_RootNodeID := tr_RootNodeID tree, tr_Metadata := tr_Metadata tree, tr_EditedAt := Some now\<rparr>
                in Inr (t', update_tree (tr_ID tree) (\<lambda>_. t') db)))"

definition tree_SoftDelete :: "instant \<Rightarrow> graph_db \<Rightarrow> uuid \<Rightarrow> graph_db option" where
  "tree_SoftDelete now db i =
     (if tree_GetByID db i = None then None else Some (update_tree i (\<lambda>t. t\<lparr>tr_DeletedAt := Some now\<rparr>) db))"

definition clamp_page :: "int \<Rightarrow> int" where
  "clamp_page limit = (if limit \<le> 0 \<or> 200 < limit then 50 else limit)"

definition tree_List :: "graph_db \<Rightarrow> int \<Rightarrow> int \<Rightarrow> tree_row list" where
  "tree_List db limit offset =
     take (nat (clamp_page limit)) (drop (nat (max 0 offset)) (sort_stable newest_first (active_trees db)))"

definition tree_Count :: "graph_db \<Rightarrow> int" where
  "tree_Count db = int (length (active_trees db))"

text \<open>The grouped counts of a page: trees without a row are absent.\<close>

definition count_rows :: "('r \<Rightarrow> uuid) \<Rightarrow> 'r list \<Rightarrow> uuid list \<Rightarrow> (uuid, int) gomap" where
  "count_rows key rows ids =
     fold (\<lambda>r m. if key r \<in> set ids then map_put (key r) (map_get 0 m (key r) + 1) m else m) rows []"

definition CountNodesByTreeIDs :: "graph_db \<Rightarrow> uuid list \<Rightarrow> (uuid, int) gomap" where
  "CountNodesByTreeIDs db ids = count_rows n_TreeID (filter n_active (g_nodes db)) ids"

definition CountMembersByTreeIDs :: "graph_db \<Rightarrow> uuid list \<Rightarrow> (uuid, int) gomap" where
  "CountMembersByTreeIDs db ids = count_rows tm_TreeID (g_members db) ids"

definition LastActivityByTreeIDs :: "graph_db \<Rightarrow> uuid list \<Rightarrow> (uuid, instant) gomap" where
  "LastActivityByTreeIDs db ids =
     fold (\<lambda>n m. if n_TreeID n \<in> set ids
                 then map_put (n_TreeID n) (max (map_get (n_CreatedAt n) m (n_TreeID n)) (n_CreatedAt n)) m else m)
       (filter n_active (g_nodes db)) []"

definition tree_ListKeyset :: "graph_db \<Rightarrow> uuid option \<Rightarrow> int \<Rightarrow> tree_row list" where
  "tree_ListKeyset db cursor limit =
     (let page = sort_stable tree_keyset_before (active_trees db)
      in take (nat (clamp_page limit))
           (case cursor of None \<Rightarrow> page
            | Some c \<Rightarrow> (case find (\<lambda>t. tr_ID t = c) (g_trees db) of None \<Rightarrow> []
                        | Some m \<Rightarrow> filter (tree_keyset_before m) page)))"

text \<open>\<open>ilike pattern text\<close> is the pattern matching of the database; an empty query is \<open>ErrNotFound\<close>.\<close>

definition tree_Search :: "(string \<Rightarrow> string \<Rightarrow> bool) \<Rightarrow> graph_db \<Rightarrow> string \<Rightarrow> int \<Rightarrow> int \<Rightarrow> tree_row list option" where
  "tree_Search ilike db query limit offset =
     (if query = [] then None
      else (let pattern = ''%'' @ query @ ''%''
            in Some (take (nat (clamp_page limit)) (drop (nat (max 0 offset))
                 (sort_stable newest_first
                   (filter (\<lambda>t. ilike pattern (tr_Title t) \<or> ilike pattern (tr_Description t)) (active_trees db)))))))"

end
