(* ===== verification/Node_Service.thy ===== *)
theory Node_Service
  imports Tree_Store
begin

text \<open>
  The node service (\<open>internal/service/node_service.go\<close>, \<open>card_ref.go\<close>, \<open>tree_role_context.go\<close>):
  creation, replies and forks, reads, pages, partial updates and soft deletion. A call is one
  transaction over the tables of \<open>Tree_Store\<close>; it returns its result, the effects that follow
  the commit in their order, and the tables. The role and the requester of the request context,
  the clock and the identifiers drawn by the database are arguments.
\<close>

section \<open>Requests, results and errors\<close>

text \<open>Functions of third-party packages, the encoding of JSON text, the pattern matching of the database
  and the Unicode tables of \<open>strings.ToLower\<close>.\<close>

record tree_lib =
  tl_ustr :: "uuid \<Rightarrow> string"
  tl_uparse :: "string \<Rightarrow> uuid option"
  tl_sha256hex :: "string \<Rightarrow> string"
  tl_rawlen :: "raw_message \<Rightarrow> nat"
  tl_marshal :: "json \<Rightarrow> string"
  tl_ilike :: "string \<Rightarrow> string \<Rightarrow> bool"
  tl_lower :: "string \<Rightarrow> string"

record req_ctx =
  rc_role :: string
  rc_requester :: uuid

text \<open>
  The error sentinels of the service package. \<open>APIError\<close> is a catalogued rejection of the merge and
  reference endpoints: code, status and message.
\<close>

datatype svc_error =
    NodeMissing | NodeDeleted "instant option" | NodeAlreadyDeleted | ParentMissing | ParentDeleted "instant option"
  | ContentTooLong | SynthesisViaMergeOnly | SystemNodeForbidden | InvalidEdgeType | MetadataTooLarge
  | NodeAuthorRequired | NoUpdateFields | ForkRequiresChildren | ViewerReadOnly | InvalidCardRef string
  | TreeMissing | TreeDeleted "instant option" | TreeAlreadyDeleted | NotTreeMember
  | TitleRequired | TitleTooLong | DescriptionTooLong | RootContentRequired | RootContentTooLarge
  | InvalidContentFormat | InvalidNodeType | InvalidCursor | InvalidSort | InvalidStatus | InvalidRole | SearchTooShort
  | MetadataNotObject | ManifestUnreadable | SelectionUnconfigured
  | DatabaseUnavailable string
  | APIError string nat string

datatype effect =
    Broadcast uuid string uuid json
  | RefreshTopics uuid
  | DetectTopics node "node list"

record create_node_input =
  cn_ParentID :: uuid
  cn_Content :: string
  cn_ContentFormat :: string
  cn_NodeType :: string
  cn_EdgeType :: string
  cn_AuthorID :: uuid
  cn_Metadata :: raw_message

record update_node_input =
  un_Content :: "string option"
  un_ContentFormat :: "string option"
  un_Metadata :: "raw_message option"
  un_Pinned :: "bool option"

record reply_input =
  ri2_Content :: string
  ri2_ContentFormat :: string
  ri2_NodeType :: string
  ri2_AuthorID :: uuid
  ri2_Metadata :: raw_message

record node_detail =
  nd_Node :: node
  nd_AuthorDisplayName :: string
  nd_Depth :: int
  nd_ChildCount :: int

record node_page =
  np_Nodes :: "node_detail list"
  np_NextCursor :: "uuid option"
  np_HasMore :: bool
  np_Total :: int
  np_Limit :: int

definition maxContentLen :: nat where "maxContentLen = 65536"
definition maxMetadataBytes :: nat where "maxMetadataBytes = 16384"

definition isViewer :: "req_ctx \<Rightarrow> bool" where "isViewer ctx \<longleftrightarrow> rc_role ctx = ''viewer''"

section \<open>Card references in metadata\<close>

record card_ref_metadata =
  crm_ID :: string
  crm_CardType :: string
  crm_AppID :: string
  crm_ContextHash :: string

definition zero_card_ref :: card_ref_metadata where
  "zero_card_ref = \<lparr>crm_ID = [], crm_CardType = [], crm_AppID = [], crm_ContextHash = []\<rparr>"

definition string_member :: "json \<Rightarrow> (string \<Rightarrow> 'a) \<Rightarrow> 'a \<Rightarrow> 'a option" where
  "string_member v f x = (case v of JStr s \<Rightarrow> Some (f s) | JNull \<Rightarrow> Some x | _ \<Rightarrow> None)"

definition assign_card_ref :: "string \<Rightarrow> json \<Rightarrow> card_ref_metadata \<Rightarrow> card_ref_metadata option" where
  "assign_card_ref key v c =
     (if key = ''id'' then string_member v (\<lambda>s. c\<lparr>crm_ID := s\<rparr>) c
      else if key = ''card_type'' then string_member v (\<lambda>s. c\<lparr>crm_CardType := s\<rparr>) c
      else if key = ''app_id'' then string_member v (\<lambda>s. c\<lparr>crm_AppID := s\<rparr>) c
      else if key = ''context_hash'' then string_member v (\<lambda>s. c\<lparr>crm_ContextHash := s\<rparr>) c
      else Some c)"

definition validCardRefHash :: "string \<Rightarrow> bool" where
  "validCardRefHash h \<longleftrightarrow> length h = 64 \<and> list_all (\<lambda>c. byte_in 48 57 c \<or> byte_in 97 102 c \<or> byte_in 65 70 c) h"

definition validCardRefType :: "string \<Rightarrow> bool" where
  "validCardRefType t \<longleftrightarrow> t \<in> set [''compact'', ''expanded'', ''iteration'']"

definition validate_card_ref :: "tree_lib \<Rightarrow> card_ref_metadata \<Rightarrow> svc_error option" where
  "validate_card_ref lib c =
     (if trim_space (crm_ID c) = [] then Some (InvalidCardRef ''id is required'')
      else if tl_uparse lib (crm_ID c) = None then Some (InvalidCardRef ''id must be a UUID'')
      else if \<not> validCardRefType (crm_CardType c)
      then Some (InvalidCardRef ''card_type must be one of: compact, expanded, iteration'')
      else if trim_space (crm_AppID c) = [] then Some (InvalidCardRef ''app_id is required'')
      else if crm_ContextHash c \<noteq> [] \<and> \<not> validCardRefHash (crm_ContextHash c)
      then Some (InvalidCardRef ''context_hash must be 64 hex characters'')
      else None)"

text \<open>\<open>Inr None\<close>: the metadata carries no \<open>card_ref\<close>.\<close>

definition ParseNodeMetadataCardRef :: "raw_message \<Rightarrow> svc_error + card_ref_metadata option" where
  "ParseNodeMetadataCardRef metadata =
     (case metadata of
        RawJSON (JObj ms) \<Rightarrow>
          (case json_field ''card_ref'' ms of None \<Rightarrow> Inr None
           | Some v \<Rightarrow>
               (case decode_struct assign_card_ref (RawJSON v) zero_card_ref of
                  None \<Rightarrow> Inl (InvalidCardRef ''card_ref must be an object with id, card_type and app_id'')
                | Some c \<Rightarrow> Inr (Some c)))
      | _ \<Rightarrow> Inr None)"

definition ValidateNodeMetadataCardRef :: "tree_lib \<Rightarrow> raw_message \<Rightarrow> svc_error option" where
  "ValidateNodeMetadataCardRef lib metadata =
     (case ParseNodeMetadataCardRef metadata of
        Inl e \<Rightarrow> Some e | Inr None \<Rightarrow> None | Inr (Some c) \<Rightarrow> validate_card_ref lib c)"

section \<open>Reads\<close>

definition resolveAuthorDisplayName :: "graph_db \<Rightarrow> uuid \<Rightarrow> string" where
  "resolveAuthorDisplayName db author =
     (case find (\<lambda>u. us_ID u = author) (g_users db) of None \<Rightarrow> [] | Some u \<Rightarrow> us_DisplayName u)"

definition resolveAuthorDisplayNames :: "graph_db \<Rightarrow> uuid list \<Rightarrow> (uuid, string) gomap" where
  "resolveAuthorDisplayNames db ids =
     (let unique = dedup_by id [] ids
      in fold (\<lambda>u m. map_put (us_ID u) (us_DisplayName u) m) (filter (\<lambda>u. us_ID u \<in> set unique) (g_users db)) [])"

definition computeDepth :: "graph_db \<Rightarrow> uuid \<Rightarrow> uuid option \<Rightarrow> int" where
  "computeDepth db i parentID =
     (case parentID of None \<Rightarrow> 0 | Some _ \<Rightarrow> max_depth_of (parent_chain (\<lambda>_. True) db i))"

definition computeChildCount :: "graph_db \<Rightarrow> uuid \<Rightarrow> int" where
  "computeChildCount db i = int (length (child_rows db i))"

text \<open>\<open>nodeToDetail\<close> copies the columns; the label and the counts are filled in by its callers.\<close>

definition nodeToDetail :: "node \<Rightarrow> node_detail" where
  "nodeToDetail n = \<lparr>nd_Node = n, nd_AuthorDisplayName = [], nd_Depth = 0, nd_ChildCount = 0\<rparr>"

definition with_counts :: "graph_db \<Rightarrow> node \<Rightarrow> node_detail" where
  "with_counts db n =
     (nodeToDetail n)\<lparr>nd_Depth := computeDepth db (n_ID n) (n_ParentID n), nd_ChildCount := computeChildCount db (n_ID n)\<rparr>"

definition with_name :: "graph_db \<Rightarrow> node \<Rightarrow> node_detail" where
  "with_name db n = (with_counts db n)\<lparr>nd_AuthorDisplayName := resolveAuthorDisplayName db (n_AuthorID n)\<rparr>"

text \<open>The batched labels of a list: an author without a row reads as the empty name.\<close>

definition fill_names :: "graph_db \<Rightarrow> node_detail list \<Rightarrow> node_detail list" where
  "fill_names db details =
     (let names = resolveAuthorDisplayNames db (map (\<lambda>d. n_AuthorID (nd_Node d)) details)
      in map (\<lambda>d. d\<lparr>nd_AuthorDisplayName := map_get [] names (n_AuthorID (nd_Node d))\<rparr>) details)"

definition svc_GetNode :: "graph_db \<Rightarrow> uuid \<Rightarrow> svc_error + node_detail" where
  "svc_GetNode db i =
     (if i = uuid_Nil then Inl NodeMissing
      else case node_GetByID db i of
        Some n \<Rightarrow> Inr (with_name db n)
      | None \<Rightarrow> (case node_at db i of Some n \<Rightarrow> Inl (NodeDeleted (n_DeletedAt n)) | None \<Rightarrow> Inl NodeMissing))"

definition svc_ListByTree :: "graph_db \<Rightarrow> uuid \<Rightarrow> node_detail list" where
  "svc_ListByTree db t =
     (if t = uuid_Nil then [] else fill_names db (map (with_counts db) (node_GetByTree db t)))"

definition page_limit :: "int \<Rightarrow> int" where
  "page_limit limit = (let l = (if limit \<le> 0 then 100 else limit) in if 500 < l then 500 else l)"

definition ListByTreePage :: "graph_db \<Rightarrow> uuid \<Rightarrow> uuid option \<Rightarrow> int \<Rightarrow> node_page" where
  "ListByTreePage db t cursor limit0 =
     (let limit = page_limit limit0
      in if t = uuid_Nil
         then \<lparr>np_Nodes = [], np_NextCursor = None, np_HasMore = False, np_Total = 0, np_Limit = limit\<rparr>
         else (let nodes = node_ListKeyset db t cursor (limit + 1);
                   hasMore = limit < int (length nodes);
                   kept = (if hasMore then take (nat limit) nodes else nodes)
               in \<lparr>np_Nodes = fill_names db (map (with_counts db) kept),
                   np_NextCursor = (if hasMore \<and> kept \<noteq> [] then Some (n_ID (last kept)) else None),
                   np_HasMore = hasMore, np_Total = node_CountByTree db t, np_Limit = limit\<rparr>))"

section \<open>Creation\<close>

definition or_default :: "string \<Rightarrow> string \<Rightarrow> string" where
  "or_default d s = (let s' = trim_space s in if s' = [] then d else s')"

definition validateCreateInput :: "tree_lib \<Rightarrow> create_node_input \<Rightarrow> svc_error option" where
  "validateCreateInput lib input =
     (let format = or_default ''markdown'' (cn_ContentFormat input);
          nodeType = or_default ''message'' (cn_NodeType input);
          edgeType = or_default ''reply'' (cn_EdgeType input)
      in if maxContentLen < rune_count (cn_Content input) then Some ContentTooLong
         else if format \<notin> set db_formats then Some InvalidContentFormat
         else if nodeType \<notin> set db_node_types then Some InvalidNodeType
         else if nodeType = ''synthesis'' then Some SynthesisViaMergeOnly
         else if nodeType = ''system'' then Some SystemNodeForbidden
         else if edgeType \<notin> set [''reply'', ''fork''] then Some InvalidEdgeType
         else if maxMetadataBytes < tl_rawlen lib (cn_Metadata input) then Some MetadataTooLarge
         else ValidateNodeMetadataCardRef lib (cn_Metadata input))"

text \<open>The parent of a new node: its depth, or why it cannot take a child of the tree.\<close>

definition check_parent :: "graph_db \<Rightarrow> uuid \<Rightarrow> uuid \<Rightarrow> svc_error + int" where
  "check_parent db treeID parentID =
     (if parentID = uuid_Nil then Inr 0
      else case node_GetByID db parentID of
        None \<Rightarrow> (case node_at db parentID of Some n \<Rightarrow> Inl (ParentDeleted (n_DeletedAt n)) | None \<Rightarrow> Inl ParentMissing)
      | Some p \<Rightarrow> if n_TreeID p \<noteq> treeID then Inl ParentMissing
                  else Inr (max_depth_of (parent_chain n_active db parentID)))"

definition classifyNodeInsertError :: "pg_error \<Rightarrow> svc_error" where
  "classifyNodeInsertError e =
     (if e = ForeignKeyViolation ''fk_nodes_tree'' then TreeMissing else DatabaseUnavailable ''insert node'')"

definition nullableUUID :: "uuid \<Rightarrow> uuid option" where
  "nullableUUID i = (if i = uuid_Nil then None else Some i)"

text \<open>Storing JSON text in a \<open>jsonb\<close> column: text that is not JSON is rejected.\<close>

definition stored_metadata :: "raw_message \<Rightarrow> json option" where
  "stored_metadata raw = (case raw of RawNil \<Rightarrow> Some (JObj []) | RawInvalid _ \<Rightarrow> None | RawJSON j \<Rightarrow> Some j)"

definition new_node_row :: "uuid \<Rightarrow> instant \<Rightarrow> uuid \<Rightarrow> create_node_input \<Rightarrow> json \<Rightarrow> graph_db \<Rightarrow> node" where
  "new_node_row newID now treeID input metadata db =
     \<lparr>n_ID = newID, n_TreeID = treeID, n_ParentID = nullableUUID (cn_ParentID input), n_ParentMode = ''lineage'',
      n_AuthorID = cn_AuthorID input, n_Content = cn_Content input,
      n_ContentFormat = or_default ''markdown'' (cn_ContentFormat input),
      n_NodeType = or_default ''message'' (cn_NodeType input), n_SequenceNum = next_node_seq db treeID,
      n_Metadata = RawJSON metadata, n_CreatedAt = now, n_EditedAt = None, n_DeletedAt = None\<rparr>"

definition new_edge_row :: "uuid \<Rightarrow> instant \<Rightarrow> uuid \<Rightarrow> uuid \<Rightarrow> uuid \<Rightarrow> string \<Rightarrow> int \<Rightarrow> edge_row" where
  "new_edge_row newID now treeID source target edgeType sq =
     \<lparr>e_ID = newID, e_TreeID = treeID, e_SourceID = source, e_TargetID = target, e_EdgeType = edgeType,
      e_SequenceNum = sq, e_Metadata = JObj [], e_CreatedAt = now, e_DeletedAt = None\<rparr>"

text \<open>The edge of a new node: none for a root.\<close>

definition insert_parent_edge ::
    "uuid \<Rightarrow> instant \<Rightarrow> uuid \<Rightarrow> create_node_input \<Rightarrow> uuid \<Rightarrow> graph_db \<Rightarrow> svc_error + edge_row option \<times> graph_db" where
  "insert_parent_edge newID now treeID input nodeID db =
     (if cn_ParentID input = uuid_Nil then Inr (None, db)
      else (let row = new_edge_row newID now treeID (cn_ParentID input) nodeID (or_default ''reply'' (cn_EdgeType input))
                        (last_edge_seq db treeID + 1)
            in case insert_edge row db of Inl e \<Rightarrow> Inl (DatabaseUnavailable ''insert edge'')
               | Inr db' \<Rightarrow> Inr (Some row, db')))"

definition node_event :: "tree_lib \<Rightarrow> uuid \<Rightarrow> string \<Rightarrow> uuid \<Rightarrow> uuid \<Rightarrow> effect" where
  "node_event lib treeID eventType nodeID actor =
     Broadcast treeID eventType actor
       (JObj [(''actor_id'', JStr (tl_ustr lib actor)), (''event'', JStr eventType),
              (''node_id'', JStr (tl_ustr lib nodeID)), (''tree_id'', JStr (tl_ustr lib treeID))])"

text \<open>Up to ten active nodes before the given one in sequence order, the newest first.\<close>

definition loadDetectionContext :: "graph_db \<Rightarrow> node \<Rightarrow> node list" where
  "loadDetectionContext db n =
     (let ns = node_GetByTree db (n_TreeID n)
      in take 10 (tl (dropWhile (\<lambda>m. n_ID m \<noteq> n_ID n) (rev ns))))"

definition insert_created ::
    "tree_lib \<Rightarrow> uuid \<times> uuid \<Rightarrow> instant \<Rightarrow> uuid \<Rightarrow> create_node_input \<Rightarrow> graph_db
     \<Rightarrow> svc_error + (node \<times> edge_row option) \<times> graph_db" where
  "insert_created lib newIDs now treeID input db =
     (case stored_metadata (cn_Metadata input) of None \<Rightarrow> Inl (DatabaseUnavailable ''insert node'')
      | Some metadata \<Rightarrow>
          (let row = new_node_row (fst newIDs) now treeID input metadata db
           in case insert_node row db of Inl e \<Rightarrow> Inl (classifyNodeInsertError e)
              | Inr db' \<Rightarrow>
                  (case insert_parent_edge (snd newIDs) now treeID input (fst newIDs) db' of
                     Inl e \<Rightarrow> Inl e | Inr (edge, db'') \<Rightarrow> Inr ((row, edge), db''))))"

definition svc_CreateNode ::
    "tree_lib \<Rightarrow> req_ctx \<Rightarrow> uuid \<times> uuid \<Rightarrow> instant \<Rightarrow> uuid \<Rightarrow> create_node_input \<Rightarrow> graph_db
     \<Rightarrow> svc_error + (node_detail \<times> edge_row option) \<times> effect list \<times> graph_db" where
  "svc_CreateNode lib ctx newIDs now treeID input db =
     (if isViewer ctx then Inl ViewerReadOnly
      else case validateCreateInput lib input of Some e \<Rightarrow> Inl e
      | None \<Rightarrow>
          if treeID = uuid_Nil then Inl ParentMissing
          else case check_parent db treeID (cn_ParentID input) of Inl e \<Rightarrow> Inl e
          | Inr parentDepth \<Rightarrow>
              (case insert_created lib newIDs now treeID input db of Inl e \<Rightarrow> Inl e
               | Inr ((created, edge), db') \<Rightarrow>
                   Inr (((nodeToDetail created)\<lparr>nd_AuthorDisplayName := resolveAuthorDisplayName db' (n_AuthorID created),
                           nd_Depth := parentDepth + 1, nd_ChildCount := 0\<rparr>, edge),
                        [node_event lib treeID ''node_added'' (n_ID created) (n_AuthorID created),
                         RefreshTopics (n_ID created), DetectTopics created (loadDetectionContext db' created)],
                        db')))"

text \<open>Where a reply or a fork goes: the tree of its active parent.\<close>

definition parent_tree :: "graph_db \<Rightarrow> uuid \<Rightarrow> svc_error + uuid" where
  "parent_tree db i =
     (if i = uuid_Nil then Inl ParentMissing
      else case node_GetByID db i of
        Some p \<Rightarrow> Inr (n_TreeID p)
      | None \<Rightarrow> (case node_at db i of Some n \<Rightarrow> Inl (ParentDeleted (n_DeletedAt n)) | None \<Rightarrow> Inl ParentMissing))"

definition child_input :: "string \<Rightarrow> uuid \<Rightarrow> reply_input \<Rightarrow> create_node_input" where
  "child_input edgeType parentID input =
     \<lparr>cn_ParentID = parentID, cn_Content = ri2_Content input,
      cn_ContentFormat = (if trim_space (ri2_ContentFormat input) = [] then ''markdown'' else ri2_ContentFormat input),
      cn_NodeType = (if trim_space (ri2_NodeType input) = [] then ''message'' else ri2_NodeType input),
      cn_EdgeType = edgeType, cn_AuthorID = ri2_AuthorID input, cn_Metadata = ri2_Metadata input\<rparr>"

definition Reply where
  "Reply lib ctx newIDs now parentID input db =
     (if isViewer ctx then Inl ViewerReadOnly
      else case parent_tree db parentID of Inl e \<Rightarrow> Inl e
      | Inr treeID \<Rightarrow> svc_CreateNode lib ctx newIDs now treeID (child_input ''reply'' parentID input) db)"

definition Fork where
  "Fork lib ctx newIDs now parentID input db =
     (if isViewer ctx then Inl ViewerReadOnly
      else case parent_tree db parentID of Inl e \<Rightarrow> Inl e
      | Inr treeID \<Rightarrow>
          if node_GetChildren db parentID = [] then Inl ForkRequiresChildren
          else svc_CreateNode lib ctx newIDs now treeID (child_input ''fork'' parentID input) db)"

section \<open>Update and deletion\<close>

text \<open>\<open>||\<close> and \<open>- key\<close> on \<open>jsonb\<close>; deleting from a scalar is an error of the database.\<close>

definition obj_put :: "string \<Rightarrow> json \<Rightarrow> (string \<times> json) list \<Rightarrow> (string \<times> json) list" where
  "obj_put k v ms = filter (\<lambda>m. fst m \<noteq> k) ms @ [(k, v)]"

fun jsonb_concat :: "json \<Rightarrow> json \<Rightarrow> json" where
  "jsonb_concat (JObj a) (JObj b) = JObj (fold (\<lambda>(k, v) ms. obj_put k v ms) b a)"
| "jsonb_concat (JArr a) (JArr b) = JArr (a @ b)"
| "jsonb_concat (JArr a) y = JArr (a @ [y])"
| "jsonb_concat x (JArr b) = JArr (x # b)"
| "jsonb_concat x y = JArr [x, y]"

fun jsonb_delete :: "string \<Rightarrow> json \<Rightarrow> json option" where
  "jsonb_delete k (JObj ms) = Some (JObj (filter (\<lambda>m. fst m \<noteq> k) ms))"
| "jsonb_delete k (JArr vs) = Some (JArr (filter (\<lambda>v. v \<noteq> JStr k) vs))"
| "jsonb_delete k _ = None"

definition is_object :: "json \<Rightarrow> bool" where
  "is_object j \<longleftrightarrow> (case j of JObj _ \<Rightarrow> True | _ \<Rightarrow> False)"

text \<open>\<open>metadataPinMergeExpr\<close>: \<open>explicit\<close> is the replacement of \<open>$4\<close>, \<open>pin\<close> the action of \<open>$5\<close>.\<close>

definition metadataPinMerge :: "json \<Rightarrow> json option \<Rightarrow> bool option \<Rightarrow> json option" where
  "metadataPinMerge old explicit pin =
     (let replaced = (case explicit of Some m \<Rightarrow> m | None \<Rightarrow> old);
          base = (if is_object old then replaced else JObj [])
      in case pin of None \<Rightarrow> Some replaced
         | Some True \<Rightarrow> Some (jsonb_concat base (JObj [(''pinned'', JBool True)]))
         | Some False \<Rightarrow> jsonb_delete ''pinned'' base)"

definition jsonb_of :: "raw_message \<Rightarrow> json" where
  "jsonb_of raw = (case raw of RawJSON j \<Rightarrow> j | _ \<Rightarrow> JObj [])"

text \<open>The explicit replacement passed to the statement: \<open>Inl\<close> for text that is not JSON.\<close>

definition explicit_metadata :: "raw_message option \<Rightarrow> unit + json option" where
  "explicit_metadata raw =
     (case raw of None \<Rightarrow> Inr None | Some RawNil \<Rightarrow> Inr None | Some (RawInvalid _) \<Rightarrow> Inl () | Some (RawJSON j) \<Rightarrow> Inr (Some j))"

definition applyUpdate :: "instant \<Rightarrow> uuid \<Rightarrow> update_node_input \<Rightarrow> graph_db \<Rightarrow> svc_error + node \<times> graph_db" where
  "applyUpdate now i input db =
     (case node_GetByID db i of None \<Rightarrow> Inl NodeMissing
      | Some n \<Rightarrow>
          (case explicit_metadata (un_Metadata input) of Inl _ \<Rightarrow> Inl (DatabaseUnavailable ''update node'')
           | Inr explicit \<Rightarrow>
               (case metadataPinMerge (jsonb_of (n_Metadata n)) explicit (un_Pinned input) of
                  None \<Rightarrow> Inl (DatabaseUnavailable ''update node'')
                | Some metadata \<Rightarrow>
                    (case update_node now i
                       (\<lambda>m. m\<lparr>n_Content := (case un_Content input of Some c \<Rightarrow> c | None \<Rightarrow> n_Content m),
                              n_ContentFormat := (case un_ContentFormat input of Some f \<Rightarrow> f | None \<Rightarrow> n_ContentFormat m),
                              n_Metadata := RawJSON metadata, n_EditedAt := Some now\<rparr>) db of
                       None \<Rightarrow> Inl NodeMissing | Some r \<Rightarrow> Inr r))))"

definition validateUpdate :: "tree_lib \<Rightarrow> update_node_input \<Rightarrow> svc_error option" where
  "validateUpdate lib input =
     (if (case un_Content input of Some c \<Rightarrow> maxContentLen < rune_count c | None \<Rightarrow> False) then Some ContentTooLong
      else if (case un_ContentFormat input of Some f \<Rightarrow> f \<notin> set db_formats | None \<Rightarrow> False) then Some InvalidContentFormat
      else case un_Metadata input of None \<Rightarrow> None
      | Some raw \<Rightarrow> if maxMetadataBytes < tl_rawlen lib raw then Some MetadataTooLarge
                    else ValidateNodeMetadataCardRef lib raw)"

definition svc_UpdateNode ::
    "tree_lib \<Rightarrow> req_ctx \<Rightarrow> instant \<Rightarrow> uuid \<Rightarrow> update_node_input \<Rightarrow> graph_db
     \<Rightarrow> svc_error + node_detail \<times> effect list \<times> graph_db" where
  "svc_UpdateNode lib ctx now i input db =
     (if isViewer ctx then Inl ViewerReadOnly
      else if i = uuid_Nil then Inl NodeMissing
      else if un_Content input = None \<and> un_ContentFormat input = None \<and> un_Metadata input = None \<and> un_Pinned input = None
      then Inl NoUpdateFields
      else if node_GetByID db i = None then Inl NodeMissing
      else case validateUpdate lib input of Some e \<Rightarrow> Inl e
      | None \<Rightarrow>
          (case applyUpdate now i input db of Inl e \<Rightarrow> Inl e
           | Inr (updated, db') \<Rightarrow>
               Inr (with_name db' updated,
                    [node_event lib (n_TreeID updated) ''node_updated'' i (n_AuthorID updated), RefreshTopics i], db')))"

definition svc_DeleteNode ::
    "tree_lib \<Rightarrow> req_ctx \<Rightarrow> instant \<Rightarrow> uuid \<Rightarrow> graph_db \<Rightarrow> svc_error + (uuid \<times> uuid \<times> instant) \<times> effect list \<times> graph_db" where
  "svc_DeleteNode lib ctx now i db =
     (if isViewer ctx then Inl ViewerReadOnly
      else if i = uuid_Nil then Inl NodeMissing
      else case update_node now i
                  (\<lambda>n. n\<lparr>n_DeletedAt := Some now, n_Content := [], n_Metadata := RawJSON (JObj [])\<rparr>) db of
        Some (n, db') \<Rightarrow> Inr ((n_ID n, n_TreeID n, now),
                              [node_event lib (n_TreeID n) ''node_deleted'' (n_ID n) uuid_Nil], db')
      | None \<Rightarrow> if node_at db i = None then Inl NodeMissing else Inl NodeAlreadyDeleted)"

end
