(* ===== verification/Merge_Service.thy ===== *)
theory Merge_Service
  imports Node_Service
begin

text \<open>
  The merge service (\<open>internal/service/merge_service.go\<close>): a synthesis node with one reply edge
  from its display parent and one synthesis edge from each of 2 to 100 sources, in one
  transaction. Rejections carry the code, status and message of the error catalog.
\<close>

section \<open>Error catalog\<close>

datatype merge_sentinel =
    MergeSourceIDsInvalid | MergeSourceCountTooLow | MergeSourceCountTooHigh | MergeSourceDuplicate
  | MergeSourceIDInvalid | MergeSourceNotFound | MergeSourceDeleted | MergeTreeMismatch
  | MergeTargetParentInvalid | MergeTargetParentNotFound | MergeTargetParentDeleted | MergeSourceTargetOverlap
  | MergeContentTooLong | MergeInvalidContentFormat | MergeMetadataTooLarge | MergeInvalidCardRef

fun mergeErrorCatalog :: "merge_sentinel \<Rightarrow> string \<times> nat \<times> string" where
  "mergeErrorCatalog MergeSourceIDsInvalid = (''INVALID_SOURCE_NODE_IDS'', 400, ''source_node_ids must be an array of node ids'')"
| "mergeErrorCatalog MergeSourceCountTooLow = (''MIN_SOURCE_NODES'', 400, ''merge requires at least 2 source nodes'')"
| "mergeErrorCatalog MergeSourceCountTooHigh = (''MAX_SOURCE_NODES'', 400, ''merge supports at most 100 source nodes'')"
| "mergeErrorCatalog MergeSourceDuplicate = (''DUPLICATE_SOURCE_NODES'', 400, ''source_node_ids contains duplicate entries'')"
| "mergeErrorCatalog MergeSourceIDInvalid = (''INVALID_SOURCE_NODE_ID'', 400, ''a source_node_id is not a valid UUIDv7'')"
| "mergeErrorCatalog MergeSourceNotFound = (''SOURCE_NODE_NOT_FOUND'', 404, ''one or more source nodes not found'')"
| "mergeErrorCatalog MergeSourceDeleted = (''SOURCE_NODE_DELETED'', 410, ''one or more source nodes have been deleted'')"
| "mergeErrorCatalog MergeTreeMismatch = (''TREE_MISMATCH'', 400, ''a source node belongs to a different tree'')"
| "mergeErrorCatalog MergeTargetParentInvalid = (''INVALID_TARGET_PARENT_ID'', 400, ''target_parent_id is not a valid UUIDv7'')"
| "mergeErrorCatalog MergeTargetParentNotFound = (''TARGET_PARENT_NOT_FOUND'', 404, ''target parent node not found'')"
| "mergeErrorCatalog MergeTargetParentDeleted = (''TARGET_PARENT_DELETED'', 409, ''target parent node has been deleted'')"
| "mergeErrorCatalog MergeSourceTargetOverlap = (''SOURCE_TARGET_OVERLAP'', 400, ''target parent is one of the source nodes'')"
| "mergeErrorCatalog MergeContentTooLong = (''CONTENT_TOO_LONG'', 400, ''content must not exceed 65536 characters'')"
| "mergeErrorCatalog MergeInvalidContentFormat = (''INVALID_CONTENT_FORMAT'', 400, ''content_format must be one of: markdown, plain, rich'')"
| "mergeErrorCatalog MergeMetadataTooLarge = (''METADATA_TOO_LARGE'', 400, ''metadata must not exceed 16KB'')"
| "mergeErrorCatalog MergeInvalidCardRef = (''INVALID_CARD_REF'', 400,
     ''metadata card_ref must be an object with id, card_type and app_id and an optional 64-hex context_hash'')"

text \<open>An empty message keeps the one of the catalog.\<close>

definition newMergeAPIError :: "merge_sentinel \<Rightarrow> string \<Rightarrow> svc_error" where
  "newMergeAPIError sentinel message =
     (case mergeErrorCatalog sentinel of (code, status, d) \<Rightarrow> APIError code status (if message = [] then d else message))"

section \<open>Requests\<close>

record merge_request =
  mq_SourceNodeIDs :: "string list option"
  mq_Content :: string
  mq_ContentFormat :: string
  mq_TargetParentID :: "string option"
  mq_Metadata :: raw_message

record merge_input =
  mi2_SourceNodeIDs :: "uuid list"
  mi2_Content :: string
  mi2_ContentFormat :: string
  mi2_TargetParentID :: "uuid option"
  mi2_Metadata :: json

record merge_result =
  mr2_Node :: node
  mr2_AuthorDisplayName :: string
  mr2_Depth :: int
  mr2_Edges :: "edge_row list"
  mr2_MergedSourceIDs :: "uuid list"

fun first_duplicate :: "string list \<Rightarrow> string list \<Rightarrow> string option" where
  "first_duplicate seen [] = None"
| "first_duplicate seen (x # xs) = (if x \<in> set seen then Some x else first_duplicate (x # seen) xs)"

fun parse_ids :: "(string \<Rightarrow> uuid option) \<Rightarrow> int \<Rightarrow> string list \<Rightarrow> (int \<times> string) + uuid list" where
  "parse_ids uparse i [] = Inr []"
| "parse_ids uparse i (raw # raws) =
     (case uparse raw of None \<Rightarrow> Inl (i, raw)
      | Some u \<Rightarrow> if u = uuid_Nil then Inl (i, raw)
                  else (case parse_ids uparse (i + 1) raws of Inl e \<Rightarrow> Inl e | Inr us \<Rightarrow> Inr (u # us)))"

text \<open>Encoding a decoded map sorts its members; of duplicate members the last was kept.\<close>

definition compact_object :: "(string \<times> json) list \<Rightarrow> json" where
  "compact_object ms = JObj (sort_stable (\<lambda>a b. fst a < fst b) (fold (\<lambda>(k, v) m. map_put k v m) ms []))"

definition card_ref_error_text :: "svc_error \<Rightarrow> string" where
  "card_ref_error_text e =
     (case e of InvalidCardRef m \<Rightarrow> ''node service: metadata card_ref is invalid: '' @ m | _ \<Rightarrow> [])"

definition normalizeMergeMetadata :: "tree_lib \<Rightarrow> raw_message \<Rightarrow> svc_error + json" where
  "normalizeMergeMetadata lib raw =
     (case raw of
        RawNil \<Rightarrow> Inr (JObj [])
      | RawJSON JNull \<Rightarrow> Inr (JObj [])
      | RawJSON (JObj ms) \<Rightarrow>
          (let doc = compact_object ms; size = length (tl_marshal lib doc)
           in if maxMetadataBytes < size
              then Inl (newMergeAPIError MergeMetadataTooLarge
                     (''metadata must not exceed '' @ itoa (int maxMetadataBytes) @ '' bytes (received '' @ itoa (int size) @ '')''))
              else case ValidateNodeMetadataCardRef lib (RawJSON doc) of
                Some e \<Rightarrow> Inl (newMergeAPIError MergeInvalidCardRef (card_ref_error_text e))
              | None \<Rightarrow> Inr doc)
      | _ \<Rightarrow> Inl MetadataNotObject)"

definition check_source_ids :: "tree_lib \<Rightarrow> string list option \<Rightarrow> svc_error + uuid list" where
  "check_source_ids lib raws0 =
     (case raws0 of None \<Rightarrow> Inl (newMergeAPIError MergeSourceIDsInvalid [])
      | Some raws \<Rightarrow>
          if length raws < 2
          then Inl (newMergeAPIError MergeSourceCountTooLow
                 (''merge requires at least 2 source nodes (received '' @ itoa (int (length raws)) @ '')''))
          else if 100 < length raws
          then Inl (newMergeAPIError MergeSourceCountTooHigh
                 (''merge supports at most 100 source nodes (received '' @ itoa (int (length raws)) @ '')''))
          else (case first_duplicate [] raws of
                  Some d \<Rightarrow> Inl (newMergeAPIError MergeSourceDuplicate
                              (''source_node_ids contains duplicate entries: '' @ strconv_Quote d))
                | None \<Rightarrow>
                    (case parse_ids (tl_uparse lib) 0 raws of
                       Inl (i, raw) \<Rightarrow> Inl (newMergeAPIError MergeSourceIDInvalid
                         (''source_node_ids['' @ itoa i @ ''] is not a valid UUIDv7: '' @ strconv_Quote raw))
                     | Inr ids \<Rightarrow> Inr ids)))"

definition check_target :: "tree_lib \<Rightarrow> string option \<Rightarrow> uuid list \<Rightarrow> svc_error + uuid option" where
  "check_target lib raw0 ids =
     (case raw0 of None \<Rightarrow> Inr None
      | Some raw \<Rightarrow>
          (case tl_uparse lib (trim_space raw) of
             None \<Rightarrow> Inl (newMergeAPIError MergeTargetParentInvalid
                       (''target_parent_id is not a valid UUIDv7: '' @ strconv_Quote raw))
           | Some t \<Rightarrow>
               if t = uuid_Nil then Inl (newMergeAPIError MergeTargetParentInvalid
                       (''target_parent_id is not a valid UUIDv7: '' @ strconv_Quote raw))
               else if t \<in> set ids then Inl (newMergeAPIError MergeSourceTargetOverlap
                       (''target_parent_id '' @ strconv_Quote (tl_ustr lib t) @ '' is also a source node''))
               else Inr (Some t)))"

definition ToInput :: "tree_lib \<Rightarrow> merge_request \<Rightarrow> svc_error + merge_input" where
  "ToInput lib r =
     (case check_source_ids lib (mq_SourceNodeIDs r) of Inl e \<Rightarrow> Inl e
      | Inr ids \<Rightarrow>
          (let format = or_default ''markdown'' (mq_ContentFormat r)
           in if maxContentLen < rune_count (mq_Content r)
              then Inl (newMergeAPIError MergeContentTooLong
                     (''content must not exceed '' @ itoa (int maxContentLen) @ '' characters''))
              else if format \<notin> set db_formats then Inl (newMergeAPIError MergeInvalidContentFormat [])
              else case normalizeMergeMetadata lib (mq_Metadata r) of Inl e \<Rightarrow> Inl e
              | Inr metadata \<Rightarrow>
                  (case check_target lib (mq_TargetParentID r) ids of Inl e \<Rightarrow> Inl e
                   | Inr target \<Rightarrow>
                       Inr \<lparr>mi2_SourceNodeIDs = ids, mi2_Content = mq_Content r, mi2_ContentFormat = format,
                            mi2_TargetParentID = target, mi2_Metadata = metadata\<rparr>)))"

section \<open>Validation inside the transaction\<close>

definition lockTreeRow :: "graph_db \<Rightarrow> uuid \<Rightarrow> svc_error option" where
  "lockTreeRow db t =
     (case find (\<lambda>r. tr_ID r = t) (g_trees db) of None \<Rightarrow> Some TreeMissing
      | Some r \<Rightarrow> if tr_active r then None else Some (TreeDeleted (tr_DeletedAt r)))"

definition nodeDepth :: "graph_db \<Rightarrow> uuid \<Rightarrow> int" where
  "nodeDepth db i = max_depth_of (parent_chain n_active db i)"

definition merge_target :: "tree_lib \<Rightarrow> graph_db \<Rightarrow> uuid \<Rightarrow> merge_input \<Rightarrow> svc_error + uuid" where
  "merge_target lib db treeID input =
     (case mi2_TargetParentID input of Some t \<Rightarrow> Inr t
      | None \<Rightarrow>
          (case find (\<lambda>r. tr_ID r = treeID) (g_trees db) of None \<Rightarrow> Inl (DatabaseUnavailable ''read tree root'')
           | Some r \<Rightarrow>
               if tr_RootNodeID r = None \<or> tr_RootNodeID r = Some uuid_Nil
               then Inl (newMergeAPIError MergeTargetParentNotFound
                      (''tree '' @ tl_ustr lib treeID @ '' has no root node to merge into''))
               else Inr (case tr_RootNodeID r of Some i \<Rightarrow> i | None \<Rightarrow> uuid_Nil)))"

definition resolveTargetParent :: "tree_lib \<Rightarrow> graph_db \<Rightarrow> uuid \<Rightarrow> merge_input \<Rightarrow> svc_error + uuid \<times> int" where
  "resolveTargetParent lib db treeID input =
     (case merge_target lib db treeID input of Inl e \<Rightarrow> Inl e
      | Inr t \<Rightarrow>
          (let q = strconv_Quote (tl_ustr lib t)
           in if t \<in> set (mi2_SourceNodeIDs input)
              then Inl (newMergeAPIError MergeSourceTargetOverlap (''the merge target '' @ q @ '' is also a source node''))
              else case node_at db t of
                None \<Rightarrow> Inl (newMergeAPIError MergeTargetParentNotFound (''target parent node not found: '' @ q))
              | Some n \<Rightarrow>
                  if n_TreeID n \<noteq> treeID
                  then Inl (newMergeAPIError MergeTreeMismatch (''target_parent_id belongs to a different tree: '' @ q))
                  else if \<not> n_active n
                  then Inl (newMergeAPIError MergeTargetParentDeleted (''target parent node has been deleted: '' @ q))
                  else Inr (t, nodeDepth db t)))"

fun validateMergeSources :: "tree_lib \<Rightarrow> graph_db \<Rightarrow> uuid \<Rightarrow> uuid list \<Rightarrow> svc_error option" where
  "validateMergeSources lib db treeID [] = None"
| "validateMergeSources lib db treeID (i # is) =
     (let q = strconv_Quote (tl_ustr lib i)
      in case node_at db i of
           None \<Rightarrow> Some (newMergeAPIError MergeSourceNotFound (''source node not found: '' @ q))
         | Some n \<Rightarrow>
             if \<not> n_active n then Some (newMergeAPIError MergeSourceDeleted (''source node has been deleted: '' @ q))
             else if n_TreeID n \<noteq> treeID
             then Some (newMergeAPIError MergeTreeMismatch (''source node belongs to a different tree: '' @ q))
             else validateMergeSources lib db treeID is)"

section \<open>Creation\<close>

text \<open>
  The edges in order, each from a source and of a type; \<open>newID\<close> are the identifiers the database
  draws, the one of the node first.
\<close>

fun insert_edges ::
    "(nat \<Rightarrow> uuid) \<Rightarrow> nat \<Rightarrow> instant \<Rightarrow> uuid \<Rightarrow> uuid \<Rightarrow> int \<Rightarrow> (uuid \<times> string) list \<Rightarrow> graph_db
     \<Rightarrow> svc_error + edge_row list \<times> graph_db" where
  "insert_edges newID k now treeID target sq [] db = Inr ([], db)"
| "insert_edges newID k now treeID target sq ((source, edgeType) # rest) db =
     (let row = new_edge_row (newID k) now treeID source target edgeType sq
      in case insert_edge row db of Inl e \<Rightarrow> Inl (DatabaseUnavailable ''insert edge'')
         | Inr db' \<Rightarrow>
             (case insert_edges newID (Suc k) now treeID target (sq + 1) rest db' of
                Inl e \<Rightarrow> Inl e | Inr (rows, db'') \<Rightarrow> Inr (row # rows, db'')))"

definition synthesis_row :: "uuid \<Rightarrow> instant \<Rightarrow> uuid \<Rightarrow> uuid \<Rightarrow> uuid \<Rightarrow> merge_input \<Rightarrow> graph_db \<Rightarrow> node" where
  "synthesis_row newID now treeID target author input db =
     \<lparr>n_ID = newID, n_TreeID = treeID, n_ParentID = Some target, n_ParentMode = ''lineage'', n_AuthorID = author,
      n_Content = mi2_Content input, n_ContentFormat = mi2_ContentFormat input, n_NodeType = ''synthesis'',
      n_SequenceNum = next_node_seq db treeID, n_Metadata = RawJSON (mi2_Metadata input), n_CreatedAt = now,
      n_EditedAt = None, n_DeletedAt = None\<rparr>"

definition edge_json :: "tree_lib \<Rightarrow> edge_row \<Rightarrow> json" where
  "edge_json lib e =
     JObj [(''id'', JStr (tl_ustr lib (e_ID e))), (''tree_id'', JStr (tl_ustr lib (e_TreeID e))),
           (''source_node_id'', JStr (tl_ustr lib (e_SourceID e))), (''target_node_id'', JStr (tl_ustr lib (e_TargetID e))),
           (''edge_type'', JStr (e_EdgeType e)), (''created_at'', JStr (format_rfc3339nano (e_CreatedAt e)))]"

text \<open>\<open>node_added\<close>, one \<open>edge_added\<close> per edge, then \<open>tree_merged\<close>.\<close>

definition merge_events :: "tree_lib \<Rightarrow> uuid \<Rightarrow> uuid \<Rightarrow> node \<Rightarrow> edge_row list \<Rightarrow> uuid list \<Rightarrow> effect list" where
  "merge_events lib treeID author created edges sources =
     node_event lib treeID ''node_added'' (n_ID created) author
     # map (\<lambda>e. Broadcast treeID ''edge_added'' author (edge_json lib e)) edges
     @ [Broadcast treeID ''tree_merged'' author
          (JObj [(''tree_id'', JStr (tl_ustr lib treeID)), (''merge_node_id'', JStr (tl_ustr lib (n_ID created))),
                 (''source_node_ids'', JArr (map (\<lambda>i. JStr (tl_ustr lib i)) sources)),
                 (''timestamp'', JStr (format_rfc3339 (n_CreatedAt created)))])]"

definition insert_merge ::
    "(nat \<Rightarrow> uuid) \<Rightarrow> instant \<Rightarrow> uuid \<Rightarrow> uuid \<Rightarrow> uuid \<Rightarrow> merge_input \<Rightarrow> graph_db
     \<Rightarrow> svc_error + (node \<times> edge_row list) \<times> graph_db" where
  "insert_merge newID now treeID target author input db =
     (let row = synthesis_row (newID 0) now treeID target author input db;
          plan = (target, ''reply'') # map (\<lambda>i. (i, ''synthesis'')) (mi2_SourceNodeIDs input)
      in case insert_node row db of Inl e \<Rightarrow> Inl (DatabaseUnavailable ''insert synthesis node'')
         | Inr db' \<Rightarrow>
             (case insert_edges newID 1 now treeID (n_ID row) (last_edge_seq db' treeID + 1) plan db' of
                Inl e \<Rightarrow> Inl e | Inr (edges, db'') \<Rightarrow> Inr ((row, edges), db'')))"

definition CreateMerge ::
    "tree_lib \<Rightarrow> req_ctx \<Rightarrow> (nat \<Rightarrow> uuid) \<Rightarrow> instant \<Rightarrow> uuid \<Rightarrow> merge_request \<Rightarrow> graph_db
     \<Rightarrow> svc_error + merge_result \<times> effect list \<times> graph_db" where
  "CreateMerge lib ctx newID now treeID req db =
     (let author = rc_requester ctx
      in if author = uuid_Nil then Inl NodeAuthorRequired
         else case ToInput lib req of Inl e \<Rightarrow> Inl e
         | Inr input \<Rightarrow>
             (case lockTreeRow db treeID of Some e \<Rightarrow> Inl e
              | None \<Rightarrow>
                  (case resolveTargetParent lib db treeID input of Inl e \<Rightarrow> Inl e
                   | Inr (target, depth) \<Rightarrow>
                       (case validateMergeSources lib db treeID (mi2_SourceNodeIDs input) of Some e \<Rightarrow> Inl e
                        | None \<Rightarrow>
                            (case insert_merge newID now treeID target author input db of Inl e \<Rightarrow> Inl e
                             | Inr ((created, edges), db') \<Rightarrow>
                                 Inr (\<lparr>mr2_Node = created\<lparr>n_AuthorID := (if n_AuthorID created = uuid_Nil then author
                                                                       else n_AuthorID created)\<rparr>,
                                        mr2_AuthorDisplayName = resolveAuthorDisplayName db' author,
                                        mr2_Depth = depth + 1, mr2_Edges = edges,
                                        mr2_MergedSourceIDs = mi2_SourceNodeIDs input\<rparr>,
                                      merge_events lib treeID author created edges (mi2_SourceNodeIDs input), db'))))))"

end
