(* ===== verification/Reference_Selection.thy ===== *)
theory Reference_Selection
  imports Merge_Service Multi_Reference
begin

text \<open>
  Multi-message references (\<open>internal/service/multi_reference.go\<close>, \<open>multi_reference_reply.go\<close>,
  \<open>multi_reference_context.go\<close>, \<open>multi_reference_compile.go\<close>): the preflight that signs a
  selection, the reply that redeems the token in one transaction, and the two reads of the
  stored provenance. The HMAC, the JSON text and the printing of identifiers are parameters;
  the base64 alphabet of the token is modelled.
\<close>

section \<open>Error catalog\<close>

datatype ref_sentinel =
    RefCountTooLow | RefCountTooHigh | RefDuplicate | RefInvalid | RefNotFound | RefDeleted | RefSystemForbidden
  | RefTreeMismatch | RefPrimaryNotSelected | RefBudgetExceeded | RefTokenInvalid | RefTokenExpired | RefStale
  | RefInvariant | RefRequestIDConflict | RefContextNotFound

fun referenceErrorCatalog :: "ref_sentinel \<Rightarrow> string \<times> nat \<times> string" where
  "referenceErrorCatalog RefCountTooLow = (''REFERENCE_SOURCE_COUNT_TOO_LOW'', 400, ''select at least 2 messages'')"
| "referenceErrorCatalog RefCountTooHigh = (''REFERENCE_SOURCE_COUNT_TOO_HIGH'', 400, ''select at most 20 messages'')"
| "referenceErrorCatalog RefDuplicate = (''REFERENCE_SOURCE_DUPLICATE'', 400, ''the selection contains a duplicate message id'')"
| "referenceErrorCatalog RefInvalid = (''REFERENCE_SOURCE_INVALID'', 400, ''source_node_ids must contain valid UUIDs'')"
| "referenceErrorCatalog RefNotFound = (''REFERENCE_SOURCE_NOT_FOUND'', 404, ''a selected message does not exist in this tree'')"
| "referenceErrorCatalog RefDeleted = (''REFERENCE_SOURCE_DELETED'', 410, ''a selected message has been deleted'')"
| "referenceErrorCatalog RefSystemForbidden = (''REFERENCE_SOURCE_SYSTEM_FORBIDDEN'', 400, ''system nodes cannot be selected'')"
| "referenceErrorCatalog RefTreeMismatch = (''REFERENCE_TREE_MISMATCH'', 400, ''a selected message belongs to another tree'')"
| "referenceErrorCatalog RefPrimaryNotSelected = (''REFERENCE_PRIMARY_NOT_SELECTED'', 400,
     ''primary_source_id must be one of source_node_ids'')"
| "referenceErrorCatalog RefBudgetExceeded = (''REFERENCE_CONTEXT_BUDGET_EXCEEDED'', 422,
     ''profile budget cannot reserve 256 tokens per selected message'')"
| "referenceErrorCatalog RefTokenInvalid = (''REFERENCE_SELECTION_TOKEN_INVALID'', 400, ''selection token is invalid'')"
| "referenceErrorCatalog RefTokenExpired = (''REFERENCE_SELECTION_TOKEN_EXPIRED'', 410, ''selection token has expired'')"
| "referenceErrorCatalog RefStale = (''REFERENCE_SELECTION_STALE'', 409,
     ''a selected message changed or was deleted since preflight'')"
| "referenceErrorCatalog RefInvariant = (''REFERENCE_PARENT_INVARIANT'', 409, ''reference parent invariant violated'')"
| "referenceErrorCatalog RefRequestIDConflict = (''REFERENCE_REQUEST_ID_CONFLICT'', 409,
     ''request_id was reused with a different payload'')"
| "referenceErrorCatalog RefContextNotFound = (''REFERENCE_CONTEXT_NOT_FOUND'', 404,
     ''target node is not a multi-reference reply'')"

definition newReferenceAPIError :: "ref_sentinel \<Rightarrow> string \<Rightarrow> svc_error" where
  "newReferenceAPIError sentinel message =
     (case referenceErrorCatalog sentinel of (code, status, d) \<Rightarrow> APIError code status (if message = [] then d else message))"

section \<open>Selection tokens\<close>

record selection_claims =
  sc_Version :: int
  sc_TreeID :: uuid
  sc_RequesterID :: uuid
  sc_PrimarySourceID :: uuid
  sc_SourceIDs :: "uuid list"
  sc_SourceHashes :: "string list"
  sc_Budget :: int
  sc_ExpiresAt :: int

text \<open>\<open>tk_hmac secret text\<close> is HMAC-SHA256; \<open>tk_unmarshal\<close> reads JSON text.\<close>

record token_lib = tree_lib +
  tk_hmac :: "string \<Rightarrow> string \<Rightarrow> string"
  tk_unmarshal :: "string \<Rightarrow> raw_message"

definition b64_char :: "nat \<Rightarrow> char" where
  "b64_char n =
     (if n < 26 then char_of (65 + n) else if n < 52 then char_of (71 + n) else if n < 62 then char_of (n - 4)
      else if n = 62 then CHR ''-'' else CHR ''_'')"

definition b64_value :: "char \<Rightarrow> nat option" where
  "b64_value c =
     (let n = of_char c :: nat
      in if byte_in 65 90 c then Some (n - 65) else if byte_in 97 122 c then Some (n - 71)
         else if byte_in 48 57 c then Some (n + 4) else if c = CHR ''-'' then Some 62
         else if c = CHR ''_'' then Some 63 else None)"

fun b64_sextets :: "nat list \<Rightarrow> nat list" where
  "b64_sextets [] = []"
| "b64_sextets [a] = [a div 4, a mod 4 * 16]"
| "b64_sextets [a, b] = [a div 4, a mod 4 * 16 + b div 16, b mod 16 * 4]"
| "b64_sextets (a # b # c # r) = a div 4 # (a mod 4 * 16 + b div 16) # (b mod 16 * 4 + c div 64) # c mod 64 # b64_sextets r"

fun b64_bytes :: "nat list \<Rightarrow> nat list option" where
  "b64_bytes [] = Some []"
| "b64_bytes [x] = None"
| "b64_bytes [x, y] = Some [x * 4 + y div 16]"
| "b64_bytes [x, y, z] = Some [x * 4 + y div 16, y mod 16 * 16 + z div 4]"
| "b64_bytes (x # y # z # w # r) =
     map_option (\<lambda>bs. (x * 4 + y div 16) # (y mod 16 * 16 + z div 4) # (z mod 4 * 64 + w) # bs) (b64_bytes r)"

fun b64_values :: "string \<Rightarrow> nat list option" where
  "b64_values [] = Some []"
| "b64_values (c # cs) =
     (case b64_value c of None \<Rightarrow> None | Some v \<Rightarrow> map_option (\<lambda>vs. v # vs) (b64_values cs))"

definition base64url :: "string \<Rightarrow> string" where
  "base64url raw = map b64_char (b64_sextets (map of_char raw))"

text \<open>\<open>RawURLEncoding.DecodeString\<close>: line breaks are skipped, surplus bits of the last character ignored.\<close>

definition base64url_decode :: "string \<Rightarrow> string option" where
  "base64url_decode s =
     (case b64_values (filter (\<lambda>c. c \<noteq> CHR 0x0A \<and> c \<noteq> CHR 0x0D) s) of None \<Rightarrow> None
      | Some vs \<Rightarrow> map_option (map char_of) (b64_bytes vs))"

fun split_on :: "char \<Rightarrow> string \<Rightarrow> string list" where
  "split_on d [] = [[]]"
| "split_on d (c # cs) =
     (if c = d then [] # split_on d cs
      else (case split_on d cs of [] \<Rightarrow> [[c]] | p # ps \<Rightarrow> (c # p) # ps))"

definition claims_json :: "(uuid \<Rightarrow> string) \<Rightarrow> selection_claims \<Rightarrow> json" where
  "claims_json ustr c =
     JObj [(''v'', jint (sc_Version c)), (''tree_id'', JStr (ustr (sc_TreeID c))),
           (''requester_id'', JStr (ustr (sc_RequesterID c))), (''primary_source_id'', JStr (ustr (sc_PrimarySourceID c))),
           (''source_ids'', JArr (map (\<lambda>i. JStr (ustr i)) (sc_SourceIDs c))),
           (''source_hashes'', JArr (map JStr (sc_SourceHashes c))), (''budget'', jint (sc_Budget c)),
           (''exp'', jint (sc_ExpiresAt c))]"

definition uuid_member :: "(string \<Rightarrow> uuid option) \<Rightarrow> json \<Rightarrow> (uuid \<Rightarrow> 'a) \<Rightarrow> 'a \<Rightarrow> 'a option" where
  "uuid_member uparse v f x = (case v of JStr s \<Rightarrow> map_option f (uparse s) | JNull \<Rightarrow> Some x | _ \<Rightarrow> None)"

definition uuid_list_member :: "(string \<Rightarrow> uuid option) \<Rightarrow> json \<Rightarrow> (uuid list \<Rightarrow> 'a) \<Rightarrow> 'a option" where
  "uuid_list_member uparse v f =
     (case v of JNull \<Rightarrow> Some (f [])
      | JArr vs \<Rightarrow> map_option f (those (map (\<lambda>w. uuid_member uparse w (\<lambda>u. u) uuid_Nil) vs)) | _ \<Rightarrow> None)"

definition strings_member :: "json \<Rightarrow> (string list \<Rightarrow> 'a) \<Rightarrow> 'a option" where
  "strings_member v f =
     (case v of JNull \<Rightarrow> Some (f [])
      | JArr vs \<Rightarrow> map_option f (those (map (\<lambda>w. string_member w (\<lambda>s. s) []) vs)) | _ \<Rightarrow> None)"

definition int_member :: "json \<Rightarrow> (int \<Rightarrow> 'a) \<Rightarrow> 'a \<Rightarrow> 'a option" where
  "int_member v f x = (case v of JNull \<Rightarrow> Some x | _ \<Rightarrow> map_option f (json_int64 v))"

definition bool_member :: "json \<Rightarrow> (bool \<Rightarrow> 'a) \<Rightarrow> 'a \<Rightarrow> 'a option" where
  "bool_member v f x = (case v of JNull \<Rightarrow> Some x | JBool b \<Rightarrow> Some (f b) | _ \<Rightarrow> None)"

definition assign_claims :: "(string \<Rightarrow> uuid option) \<Rightarrow> string \<Rightarrow> json \<Rightarrow> selection_claims \<Rightarrow> selection_claims option" where
  "assign_claims uparse key v c =
     (if key = ''v'' then int_member v (\<lambda>x. c\<lparr>sc_Version := x\<rparr>) c
      else if key = ''tree_id'' then uuid_member uparse v (\<lambda>x. c\<lparr>sc_TreeID := x\<rparr>) c
      else if key = ''requester_id'' then uuid_member uparse v (\<lambda>x. c\<lparr>sc_RequesterID := x\<rparr>) c
      else if key = ''primary_source_id'' then uuid_member uparse v (\<lambda>x. c\<lparr>sc_PrimarySourceID := x\<rparr>) c
      else if key = ''source_ids'' then uuid_list_member uparse v (\<lambda>x. c\<lparr>sc_SourceIDs := x\<rparr>)
      else if key = ''source_hashes'' then strings_member v (\<lambda>x. c\<lparr>sc_SourceHashes := x\<rparr>)
      else if key = ''budget'' then int_member v (\<lambda>x. c\<lparr>sc_Budget := x\<rparr>) c
      else if key = ''exp'' then int_member v (\<lambda>x. c\<lparr>sc_ExpiresAt := x\<rparr>) c
      else Some c)"

definition zero_claims :: selection_claims where
  "zero_claims = \<lparr>sc_Version = 0, sc_TreeID = uuid_Nil, sc_RequesterID = uuid_Nil, sc_PrimarySourceID = uuid_Nil,
     sc_SourceIDs = [], sc_SourceHashes = [], sc_Budget = 0, sc_ExpiresAt = 0\<rparr>"

definition decode_claims :: "token_lib \<Rightarrow> string \<Rightarrow> selection_claims option" where
  "decode_claims lib payload = decode_struct (assign_claims (tl_uparse lib)) (tk_unmarshal lib payload) zero_claims"

text \<open>Seconds of the Unix epoch, of an instant counted from year 1.\<close>

definition unix_seconds :: "instant \<Rightarrow> int" where
  "unix_seconds t = t div 1000000000 - 62135596800"

definition ReferenceSelectionTTL :: duration where "ReferenceSelectionTTL = 300 * 1000000000"

definition Sign :: "token_lib \<Rightarrow> string \<Rightarrow> instant \<Rightarrow> selection_claims \<Rightarrow> string" where
  "Sign lib secret now claims =
     (let stamped = claims\<lparr>sc_Version := 1, sc_ExpiresAt := unix_seconds (now + ReferenceSelectionTTL)\<rparr>;
          encoded = base64url (tl_marshal lib (claims_json (tl_ustr lib) stamped))
      in ''mrs.v1.'' @ encoded @ ''.'' @ base64url (tk_hmac lib secret encoded))"

definition check_claims :: "instant \<Rightarrow> uuid \<Rightarrow> selection_claims \<Rightarrow> svc_error + selection_claims" where
  "check_claims now caller c =
     (if sc_Version c \<noteq> 1 \<or> sc_TreeID c = uuid_Nil \<or> sc_SourceIDs c = [] then Inl (newReferenceAPIError RefTokenInvalid [])
      else if sc_RequesterID c \<noteq> caller
      then Inl (newReferenceAPIError RefTokenInvalid ''selection token was issued to a different caller'')
      else if sc_ExpiresAt c < unix_seconds now then Inl (newReferenceAPIError RefTokenExpired [])
      else Inr c)"

definition Verify :: "token_lib \<Rightarrow> string \<Rightarrow> instant \<Rightarrow> string \<Rightarrow> uuid \<Rightarrow> svc_error + selection_claims" where
  "Verify lib secret now token caller =
     (if secret = [] then Inl SelectionUnconfigured
      else case split_on (CHR ''.'') token of
        [a, b, encoded, sig] \<Rightarrow>
          if a \<noteq> ''mrs'' \<or> b \<noteq> ''v1'' then Inl (newReferenceAPIError RefTokenInvalid [])
          else if base64url_decode sig \<noteq> Some (tk_hmac lib secret encoded)
          then Inl (newReferenceAPIError RefTokenInvalid [])
          else (case Option.bind (base64url_decode encoded) (decode_claims lib) of
                  None \<Rightarrow> Inl (newReferenceAPIError RefTokenInvalid [])
                | Some c \<Rightarrow> check_claims now caller c)
      | _ \<Rightarrow> Inl (newReferenceAPIError RefTokenInvalid []))"

definition claimedExpiry :: "token_lib \<Rightarrow> instant \<Rightarrow> string \<Rightarrow> int" where
  "claimedExpiry lib now token =
     (case split_on (CHR ''.'') token of
        [a, b, encoded, sig] \<Rightarrow>
          (case Option.bind (base64url_decode encoded) (decode_claims lib) of
             None \<Rightarrow> unix_seconds (now + ReferenceSelectionTTL) | Some c \<Rightarrow> sc_ExpiresAt c)
      | _ \<Rightarrow> unix_seconds (now + ReferenceSelectionTTL))"


section \<open>Sources and budget\<close>

record reference_source =
  rfs_ID :: uuid
  rfs_Content :: string
  rfs_ContentHash :: string
  rfs_SequenceNum :: int

text \<open>The trigger on \<open>nodes\<close> keeps \<open>content_hash\<close> the hash of the content.\<close>

definition content_hash :: "(string \<Rightarrow> string) \<Rightarrow> node \<Rightarrow> string" where
  "content_hash sha n = sha (n_Content n)"

definition source_of :: "(string \<Rightarrow> string) \<Rightarrow> node \<Rightarrow> reference_source" where
  "source_of sha n = \<lparr>rfs_ID = n_ID n, rfs_Content = n_Content n, rfs_ContentHash = content_hash sha n,
     rfs_SequenceNum = n_SequenceNum n\<rparr>"

text \<open>The precise rejection of the preflight, or the stale selection of the creation.\<close>

datatype load_mode = LoadPreflight | LoadCreation

definition load_error :: "load_mode \<Rightarrow> ref_sentinel \<Rightarrow> string \<Rightarrow> svc_error" where
  "load_error mode sentinel message =
     (if mode = LoadCreation then newReferenceAPIError RefStale message else newReferenceAPIError sentinel [])"

fun resolve_sources :: "(string \<Rightarrow> string) \<Rightarrow> load_mode \<Rightarrow> graph_db \<Rightarrow> uuid \<Rightarrow> uuid list \<Rightarrow> svc_error + reference_source list" where
  "resolve_sources sha mode db treeID [] = Inr []"
| "resolve_sources sha mode db treeID (i # is) =
     (case node_at db i of None \<Rightarrow> Inl (load_error mode RefNotFound ''a selected message no longer exists'')
      | Some n \<Rightarrow>
          if \<not> n_active n then Inl (load_error mode RefDeleted ''a selected message was deleted since preflight'')
          else if n_TreeID n \<noteq> treeID
          then Inl (load_error mode RefTreeMismatch ''a selected message left this tree since preflight'')
          else if n_NodeType n = ''system'' then Inl (newReferenceAPIError RefSystemForbidden [])
          else (case resolve_sources sha mode db treeID is of Inl e \<Rightarrow> Inl e | Inr rest \<Rightarrow> Inr (source_of sha n # rest)))"

fun check_ordered :: "uuid list \<Rightarrow> uuid list \<Rightarrow> svc_error option" where
  "check_ordered seen [] = None"
| "check_ordered seen (i # is) =
     (if i = uuid_Nil then Some (newReferenceAPIError RefInvalid [])
      else if i \<in> set seen then Some (newReferenceAPIError RefDuplicate [])
      else check_ordered (i # seen) is)"

definition loadReferenceSources ::
    "(string \<Rightarrow> string) \<Rightarrow> load_mode \<Rightarrow> graph_db \<Rightarrow> uuid \<Rightarrow> uuid list \<Rightarrow> svc_error + reference_source list" where
  "loadReferenceSources sha mode db treeID ids =
     (if length ids < 2 then Inl (newReferenceAPIError RefCountTooLow [])
      else if 20 < length ids then Inl (newReferenceAPIError RefCountTooHigh [])
      else case check_ordered [] ids of Some e \<Rightarrow> Inl e | None \<Rightarrow> resolve_sources sha mode db treeID ids)"

definition lockReferenceSources :: "(string \<Rightarrow> string) \<Rightarrow> graph_db \<Rightarrow> uuid \<Rightarrow> uuid list \<Rightarrow> svc_error + reference_source list" where
  "lockReferenceSources sha db treeID ids =
     (if length ids < 2 \<or> 20 < length ids
      then Inl (newReferenceAPIError RefStale ''selection size is outside the 2-20 range'')
      else resolve_sources sha LoadCreation db treeID ids)"

definition estimateSourceTokens :: "string \<Rightarrow> int" where
  "estimateSourceTokens content =
     (let rc = int (rune_count content) in if rc = 0 then 0 else (rc + 3) div 4)"

text \<open>Half of the profile budget; the float product of the code is exact below the cap.\<close>

definition svc_availableBudget :: "int \<Rightarrow> int" where
  "svc_availableBudget profileBudget =
     (let p = (if profileBudget \<le> 0 then 8000 else profileBudget); available = p div 2
      in if 16384 < available then 16384 else available)"

definition referenceEstimatedTokens :: "reference_source list \<Rightarrow> int" where
  "referenceEstimatedTokens sources =
     sum_list (map (\<lambda>s. let est = estimateSourceTokens (rfs_Content s) in if 2048 < est then 2048 else est) sources)"

record context_preview =
  cp_AvailableTokens :: int
  cp_MinimumRequiredTokens :: int
  cp_EstimatedTokens :: int
  cp_Fits :: bool

definition referenceBudgetPreview :: "reference_source list \<Rightarrow> int \<Rightarrow> svc_error + context_preview \<times> int" where
  "referenceBudgetPreview sources profileBudget =
     (let available = svc_availableBudget profileBudget; minimum = int (length sources) * 256;
          estimated = referenceEstimatedTokens sources
      in if available < minimum then Inl (newReferenceAPIError RefBudgetExceeded [])
         else Inr (\<lparr>cp_AvailableTokens = available, cp_MinimumRequiredTokens = minimum, cp_EstimatedTokens = estimated,
                   cp_Fits = (estimated \<le> available)\<rparr>, available))"

definition manifest_part :: "(uuid \<Rightarrow> string) \<Rightarrow> nat \<times> reference_source \<Rightarrow> string" where
  "manifest_part ustr p =
     (let (i, s) = p
      in ''|'' @ itoa (int i) @ ''|'' @ ustr (rfs_ID s) @ ''|'' @ rfs_ContentHash s @ ''|'' @ itoa (rfs_SequenceNum s))"

definition referenceManifestHash :: "tree_lib \<Rightarrow> uuid \<Rightarrow> uuid \<Rightarrow> reference_source list \<Rightarrow> int \<Rightarrow> string" where
  "referenceManifestHash lib treeID primary sources budget =
     tl_sha256hex lib
       (''canopy-multi-reference|v1|'' @ tl_ustr lib treeID @ ''|'' @ tl_ustr lib primary @ ''|'' @ itoa budget
        @ concat (map (manifest_part (tl_ustr lib)) (enumerate 0 sources)))"

section \<open>Branch bspan\<close>

text \<open>A source with its display chain from the root of the tree down to it.\<close>

type_synonym display_chain = "uuid \<times> uuid list"

definition display_chain_of :: "graph_db \<Rightarrow> uuid \<Rightarrow> uuid \<Rightarrow> uuid list" where
  "display_chain_of db treeID i =
     rev (map (\<lambda>r. n_ID (fst r))
       (recursive_query (parent_rows (\<lambda>m. n_active m \<and> n_TreeID m = treeID) db) depth_guard 0
          (filter (\<lambda>n. n_ID n = i \<and> n_TreeID n = treeID \<and> n_active n) (g_nodes db))))"

fun loadDisplayChains :: "graph_db \<Rightarrow> uuid \<Rightarrow> uuid list \<Rightarrow> svc_error + display_chain list" where
  "loadDisplayChains db treeID [] = Inr []"
| "loadDisplayChains db treeID (i # is) =
     (let c = display_chain_of db treeID i
      in if c = [] then Inl (newReferenceAPIError RefNotFound ''a selected message has no display chain in this tree'')
         else (case loadDisplayChains db treeID is of Inl e \<Rightarrow> Inl e | Inr cs \<Rightarrow> Inr ((i, c) # cs)))"

text \<open>The deepest identifier of the first chain that every chain holds, with its depth.\<close>

definition common_of :: "display_chain list \<Rightarrow> (nat \<times> uuid) option" where
  "common_of paths =
     (case filter (\<lambda>p. list_all (\<lambda>c. snd p \<in> set (snd c)) (tl paths)) (enumerate 0 (snd (hd paths))) of
        [] \<Rightarrow> None | ps \<Rightarrow> Some (last ps))"

definition branch_of :: "nat \<Rightarrow> uuid \<Rightarrow> display_chain \<Rightarrow> reference_branch_source" where
  "branch_of commonDepth commonAncestor c =
     (let sourceDepth = length (snd c) - 1
      in if commonDepth < sourceDepth
         then \<lparr>rbs_SourceID = fst c, rbs_BranchRootID = snd c ! (commonDepth + 1),
               rbs_DistanceFromRoot = int sourceDepth - (int commonDepth + 1)\<rparr>
         else \<lparr>rbs_SourceID = fst c, rbs_BranchRootID = commonAncestor, rbs_DistanceFromRoot = 0\<rparr>)"

definition computeBranchSpan :: "graph_db \<Rightarrow> uuid \<Rightarrow> uuid list \<Rightarrow> svc_error + branch_span_metadata option" where
  "computeBranchSpan db treeID ids =
     (case loadDisplayChains db treeID ids of Inl e \<Rightarrow> Inl e
      | Inr [] \<Rightarrow> Inr None
      | Inr paths \<Rightarrow>
          (case common_of paths of
             None \<Rightarrow> Inl (newReferenceAPIError RefTreeMismatch ''selected messages share no common display ancestor'')
           | Some (d, a) \<Rightarrow> Inr (Some \<lparr>bsm_CommonAncestorID = a, bsm_SourceBranches = map (branch_of d a) paths\<rparr>)))"

definition IsSyntheticMergePoint :: "branch_span_metadata option \<Rightarrow> bool" where
  "IsSyntheticMergePoint bspan =
     (case bspan of None \<Rightarrow> False
      | Some s \<Rightarrow> (case map rbs_BranchRootID (bsm_SourceBranches s) of
                    first # second # rest \<Rightarrow> list_ex (\<lambda>r. r \<noteq> first) (second # rest) | _ \<Rightarrow> False))"

definition AnalyzeReferenceBranchSpan :: "graph_db \<Rightarrow> uuid \<Rightarrow> uuid list \<Rightarrow> svc_error + branch_span_metadata option" where
  "AnalyzeReferenceBranchSpan db treeID ids =
     (if length ids < 2 then Inl (newReferenceAPIError RefCountTooLow []) else computeBranchSpan db treeID ids)"

section \<open>Preflight\<close>

record selection_input =
  si2_SourceNodeIDs :: "uuid list"
  si2_PrimarySourceID :: "uuid option"
  si2_ProfileContextBudget :: int

record reference_parent =
  rp_NodeID :: uuid
  rp_SourceLabel :: string
  rp_ColorKey :: string
  rp_BranchRootID :: uuid
  rp_ContentHash :: string
  rp_SequenceNum :: int
  rp_ContentPreview :: string

record selection_result =
  sr_SelectionToken :: string
  sr_ExpiresAt :: int
  sr_TreeID :: uuid
  sr_CanonicalSourceIDs :: "uuid list"
  sr_PrimarySourceID :: uuid
  sr_IsSyntheticMergePoint :: bool
  sr_BranchSpan :: "branch_span_metadata option"
  sr_ContextBudget :: context_preview
  sr_Sources :: "reference_parent list"

definition previewOf :: "string \<Rightarrow> string" where
  "previewOf content =
     (let runes = go_runes content
      in if length runes \<le> 200 then content
         else concat (take 200 runes) @ [CHR 0xE2, CHR 0x80, CHR 0xA6])"

text \<open>Without a primary the first source is it: \<open>None\<close> is the index panic of an empty selection.\<close>

definition normalise_primary :: "uuid list \<Rightarrow> uuid option \<Rightarrow> (svc_error + uuid \<times> uuid list) option" where
  "normalise_primary ordered primary =
     (case ordered of [] \<Rightarrow> None
      | first # _ \<Rightarrow>
          Some (if primary = None \<or> primary = Some uuid_Nil then Inr (first, ordered)
                else (let p = (case primary of Some p \<Rightarrow> p | None \<Rightarrow> first)
                      in if p \<in> set ordered then Inr (p, p # filter (\<lambda>i. i \<noteq> p) ordered)
                         else Inl (newReferenceAPIError RefPrimaryNotSelected []))))"

definition referenceBudget :: "int \<Rightarrow> int \<Rightarrow> int" where
  "referenceBudget refBudget requested = (if 0 < requested then requested else if 0 < refBudget then refBudget else 8000)"

definition branch_roots :: "branch_span_metadata option \<Rightarrow> (uuid, uuid) gomap" where
  "branch_roots bspan =
     (case bspan of None \<Rightarrow> []
      | Some s \<Rightarrow> fold (\<lambda>b m. map_put (rbs_SourceID b) (rbs_BranchRootID b) m) (bsm_SourceBranches s) [])"

definition preview_parents :: "(uuid \<Rightarrow> string) \<Rightarrow> uuid \<Rightarrow> branch_span_metadata option \<Rightarrow> reference_source list \<Rightarrow> reference_parent list" where
  "preview_parents ustr treeID bspan sources =
     map (\<lambda>(i, s). \<lparr>rp_NodeID = rfs_ID s, rp_SourceLabel = ReferenceSourceLabel (int i),
             rp_ColorKey = ReferenceColorKey ustr treeID uuid_Nil (rfs_ID s),
             rp_BranchRootID = map_get uuid_Nil (branch_roots bspan) (rfs_ID s), rp_ContentHash = rfs_ContentHash s,
             rp_SequenceNum = rfs_SequenceNum s, rp_ContentPreview = previewOf (rfs_Content s)\<rparr>)
       (enumerate 0 sources)"

text \<open>The outer \<open>None\<close> is the panic. \<open>cfg\<close> is the secret of the signer and the configured budget.\<close>

definition ValidateReferenceSelection ::
    "token_lib \<Rightarrow> string \<times> int \<Rightarrow> req_ctx \<Rightarrow> instant \<Rightarrow> uuid \<Rightarrow> selection_input \<Rightarrow> graph_db
     \<Rightarrow> (svc_error + selection_result) option" where
  "ValidateReferenceSelection lib cfg ctx now treeID input db =
     (if fst cfg = [] then Some (Inl SelectionUnconfigured)
      else if treeID = uuid_Nil then Some (Inl (newReferenceAPIError RefTreeMismatch ''tree_id is required''))
      else if rc_requester ctx = uuid_Nil then Some (Inl NotTreeMember)
      else map_option (\<lambda>normalised. case normalised of Inl e \<Rightarrow> Inl e
        | Inr (primary, ordered) \<Rightarrow>
            (case loadReferenceSources (tl_sha256hex lib) LoadPreflight db treeID ordered of Inl e \<Rightarrow> Inl e
             | Inr sources \<Rightarrow>
                 (case referenceBudgetPreview sources (referenceBudget (snd cfg) (si2_ProfileContextBudget input)) of Inl e \<Rightarrow> Inl e
                  | Inr (preview, available) \<Rightarrow>
                      (case computeBranchSpan db treeID ordered of Inl e \<Rightarrow> Inl e
                       | Inr bspan \<Rightarrow>
                           (let token = Sign lib (fst cfg) now
                                  \<lparr>sc_Version = 0, sc_TreeID = treeID, sc_RequesterID = rc_requester ctx,
                                   sc_PrimarySourceID = primary, sc_SourceIDs = ordered,
                                   sc_SourceHashes = map rfs_ContentHash sources, sc_Budget = available, sc_ExpiresAt = 0\<rparr>
                            in Inr \<lparr>sr_SelectionToken = token, sr_ExpiresAt = claimedExpiry lib now token,
                                    sr_TreeID = treeID, sr_CanonicalSourceIDs = ordered, sr_PrimarySourceID = primary,
                                    sr_IsSyntheticMergePoint = IsSyntheticMergePoint bspan, sr_BranchSpan = bspan,
                                    sr_ContextBudget = preview,
                                    sr_Sources = preview_parents (tl_ustr lib) treeID bspan sources\<rparr>)))))
        (normalise_primary (si2_SourceNodeIDs input) (si2_PrimarySourceID input)))"

text \<open>The rows of \<open>GetReferenceParents\<close>: reference edges whose source is still active.\<close>

definition live_reference_rows :: "graph_db \<Rightarrow> uuid \<Rightarrow> (edge_row \<times> node) list" where
  "live_reference_rows db i =
     concat (map (\<lambda>e. case node_GetByID db (e_SourceID e) of None \<Rightarrow> [] | Some n \<Rightarrow> [(e, n)]) (reference_edges db i))"

definition GetReferenceParents :: "tree_lib \<Rightarrow> graph_db \<Rightarrow> uuid \<Rightarrow> uuid \<Rightarrow> svc_error + reference_parent list" where
  "GetReferenceParents lib db treeID i =
     (case node_GetByID db i of None \<Rightarrow> Inl TreeMissing
      | Some n \<Rightarrow>
          if n_TreeID n \<noteq> treeID then Inl (newReferenceAPIError RefTreeMismatch [])
          else if n_ParentMode n \<noteq> ''multi_reference'' then Inr []
          else Inr (map (\<lambda>(k, e, s). \<lparr>rp_NodeID = e_SourceID e, rp_SourceLabel = ReferenceSourceLabel (int k),
                  rp_ColorKey = ReferenceColorKey (tl_ustr lib) treeID i (e_SourceID e), rp_BranchRootID = uuid_Nil,
                  rp_ContentHash = content_hash (tl_sha256hex lib) s, rp_SequenceNum = n_SequenceNum s,
                  rp_ContentPreview = []\<rparr>) (enumerate 0 (live_reference_rows db i))))"

end
