(* ===== verification/Reference_Reply.thy ===== *)
theory Reference_Reply
  imports Reference_Selection
begin

text \<open>
  Redeeming a selection (\<open>internal/service/multi_reference_reply.go\<close>), the provenance read of a
  reply (\<open>multi_reference_context.go\<close>) and the selection handed to the context compiler
  (\<open>multi_reference_compile.go\<close>). The reserved metadata of a reply is the JSON document that the
  code stores and decodes again.
\<close>

section \<open>Reserved metadata\<close>

definition branch_json :: "(uuid \<Rightarrow> string) \<Rightarrow> reference_branch_source \<Rightarrow> json" where
  "branch_json ustr b =
     JObj [(''sourceId'', JStr (ustr (rbs_SourceID b))), (''branchRootId'', JStr (ustr (rbs_BranchRootID b))),
           (''distanceFromRoot'', jint (rbs_DistanceFromRoot b))]"

definition span_json :: "(uuid \<Rightarrow> string) \<Rightarrow> branch_span_metadata \<Rightarrow> json" where
  "span_json ustr s =
     JObj [(''commonAncestorId'', JStr (ustr (bsm_CommonAncestorID s))),
           (''sourceBranches'', JArr (map (branch_json ustr) (bsm_SourceBranches s)))]"

definition optional_string :: "string \<Rightarrow> string \<Rightarrow> (string \<times> json) list" where
  "optional_string k v = (if v = [] then [] else [(k, JStr v)])"

definition reserved_json :: "(uuid \<Rightarrow> string) \<Rightarrow> multi_reference_metadata \<Rightarrow> json" where
  "reserved_json ustr m =
     JObj ([(''version'', jint (mrm_Version m)), (''primarySourceId'', JStr (ustr (mrm_PrimarySourceID m))),
            (''canonicalSourceIds'', JArr (map (\<lambda>i. JStr (ustr i)) (mrm_CanonicalSourceIDs m))),
            (''isSyntheticMergePoint'', JBool (mrm_IsSyntheticMergePoint m))]
           @ (case mrm_BranchSpan m of None \<Rightarrow> [] | Some s \<Rightarrow> [(''branchSpan'', span_json ustr s)])
           @ [(''contextManifestHash'', JStr (mrm_ContextManifestHash m)), (''contextTokenBudget'', jint (mrm_ContextTokenBudget m))]
           @ optional_string ''requestId'' (mrm_RequestID m) @ optional_string ''requestHash'' (mrm_RequestHash m))"

definition zero_branch :: reference_branch_source where
  "zero_branch = \<lparr>rbs_SourceID = uuid_Nil, rbs_BranchRootID = uuid_Nil, rbs_DistanceFromRoot = 0\<rparr>"

definition assign_branch :: "(string \<Rightarrow> uuid option) \<Rightarrow> string \<Rightarrow> json \<Rightarrow> reference_branch_source \<Rightarrow> reference_branch_source option" where
  "assign_branch uparse key v b =
     (if key = ''sourceid'' then uuid_member uparse v (\<lambda>x. b\<lparr>rbs_SourceID := x\<rparr>) b
      else if key = ''branchrootid'' then uuid_member uparse v (\<lambda>x. b\<lparr>rbs_BranchRootID := x\<rparr>) b
      else if key = ''distancefromroot'' then int_member v (\<lambda>x. b\<lparr>rbs_DistanceFromRoot := x\<rparr>) b
      else Some b)"

definition zero_span :: branch_span_metadata where
  "zero_span = \<lparr>bsm_CommonAncestorID = uuid_Nil, bsm_SourceBranches = []\<rparr>"

definition assign_span :: "(string \<Rightarrow> uuid option) \<Rightarrow> string \<Rightarrow> json \<Rightarrow> branch_span_metadata \<Rightarrow> branch_span_metadata option" where
  "assign_span uparse key v s =
     (if key = ''commonancestorid'' then uuid_member uparse v (\<lambda>x. s\<lparr>bsm_CommonAncestorID := x\<rparr>) s
      else if key = ''sourcebranches''
      then (case v of JNull \<Rightarrow> Some (s\<lparr>bsm_SourceBranches := []\<rparr>)
            | JArr vs \<Rightarrow> map_option (\<lambda>bs. s\<lparr>bsm_SourceBranches := bs\<rparr>)
                          (those (map (\<lambda>w. decode_struct (assign_branch uparse) (RawJSON w) zero_branch) vs))
            | _ \<Rightarrow> None)
      else Some s)"

definition zero_reserved :: multi_reference_metadata where
  "zero_reserved = \<lparr>mrm_Version = 0, mrm_PrimarySourceID = uuid_Nil, mrm_CanonicalSourceIDs = [],
     mrm_IsSyntheticMergePoint = False, mrm_BranchSpan = None, mrm_ContextManifestHash = [], mrm_ContextTokenBudget = 0,
     mrm_RequestID = [], mrm_RequestHash = []\<rparr>"

definition assign_reserved ::
    "(string \<Rightarrow> uuid option) \<Rightarrow> string \<Rightarrow> json \<Rightarrow> multi_reference_metadata \<Rightarrow> multi_reference_metadata option" where
  "assign_reserved uparse key v m =
     (if key = ''version'' then int_member v (\<lambda>x. m\<lparr>mrm_Version := x\<rparr>) m
      else if key = ''primarysourceid'' then uuid_member uparse v (\<lambda>x. m\<lparr>mrm_PrimarySourceID := x\<rparr>) m
      else if key = ''canonicalsourceids'' then uuid_list_member uparse v (\<lambda>x. m\<lparr>mrm_CanonicalSourceIDs := x\<rparr>)
      else if key = ''issyntheticmergepoint'' then bool_member v (\<lambda>x. m\<lparr>mrm_IsSyntheticMergePoint := x\<rparr>) m
      else if key = ''branchspan''
      then (case v of JNull \<Rightarrow> Some (m\<lparr>mrm_BranchSpan := None\<rparr>)
            | _ \<Rightarrow> map_option (\<lambda>s. m\<lparr>mrm_BranchSpan := Some s\<rparr>)
                    (decode_struct (assign_span uparse) (RawJSON v) (case mrm_BranchSpan m of Some s \<Rightarrow> s | None \<Rightarrow> zero_span)))
      else if key = ''contextmanifesthash'' then string_member v (\<lambda>x. m\<lparr>mrm_ContextManifestHash := x\<rparr>) m
      else if key = ''contexttokenbudget'' then int_member v (\<lambda>x. m\<lparr>mrm_ContextTokenBudget := x\<rparr>) m
      else if key = ''requestid'' then string_member v (\<lambda>x. m\<lparr>mrm_RequestID := x\<rparr>) m
      else if key = ''requesthash'' then string_member v (\<lambda>x. m\<lparr>mrm_RequestHash := x\<rparr>) m
      else Some m)"

definition metadataSection :: "json \<Rightarrow> string \<Rightarrow> json option" where
  "metadataSection metadata key = (case metadata of JObj ms \<Rightarrow> json_field key ms | _ \<Rightarrow> None)"

definition decode_reserved :: "tree_lib \<Rightarrow> json \<Rightarrow> multi_reference_metadata option" where
  "decode_reserved lib metadata =
     (case metadataSection metadata ''multi_reference'' of None \<Rightarrow> None
      | Some v \<Rightarrow> decode_struct (assign_reserved (tl_uparse lib)) (RawJSON v) zero_reserved)"

definition decodeMetadataObject :: "raw_message \<Rightarrow> svc_error + (string, json) gomap" where
  "decodeMetadataObject raw =
     (case raw of RawNil \<Rightarrow> Inr [] | RawJSON JNull \<Rightarrow> Inr []
      | RawJSON (JObj ms) \<Rightarrow> Inr (fold (\<lambda>(k, v) m. map_put k v m) ms []) | _ \<Rightarrow> Inl MetadataNotObject)"

definition sorted_object :: "(string, json) gomap \<Rightarrow> json" where
  "sorted_object m = JObj (sort_stable (\<lambda>a b. fst a < fst b) m)"

text \<open>Client members first, then the two server-owned ones, which a client cannot supply.\<close>

definition merged_metadata ::
    "(uuid \<Rightarrow> string) \<Rightarrow> (string, json) gomap \<Rightarrow> multi_reference_metadata \<Rightarrow> (string, json) gomap \<Rightarrow> (string, json) gomap" where
  "merged_metadata ustr client reserved audit =
     (let kept = filter (\<lambda>p. fst p \<noteq> ''multi_reference'' \<and> fst p \<noteq> ''context_audit'') client;
          m = map_put ''multi_reference'' (reserved_json ustr reserved) kept
      in if audit = [] then m else map_put ''context_audit'' (sorted_object audit) m)"

definition buildMultiReferenceMetadata ::
    "tree_lib \<Rightarrow> (string, json) gomap \<Rightarrow> multi_reference_metadata \<Rightarrow> (string, json) gomap \<Rightarrow> uuid option \<Rightarrow> string
     \<Rightarrow> svc_error + json" where
  "buildMultiReferenceMetadata lib client reserved audit requestID requestHash =
     (let stamped = (case requestID of None \<Rightarrow> reserved
            | Some r \<Rightarrow> reserved\<lparr>mrm_RequestID := tl_ustr lib r, mrm_RequestHash := requestHash\<rparr>);
          doc = sorted_object (merged_metadata (tl_ustr lib) client stamped audit)
      in if maxMetadataBytes < length (tl_marshal lib doc) then Inl MetadataTooLarge else Inr doc)"

section \<open>Creation\<close>

record reply_request =
  rq_SelectionToken :: string
  rq_Content :: string
  rq_ContentFormat :: string
  rq_Metadata :: raw_message
  rq_RequestID :: "uuid option"

record reply_result =
  rr_Node :: node
  rr_Edges :: "edge_row list"
  rr_ManifestHash :: string
  rr_IsSyntheticMergePoint :: bool
  rr_Replayed :: bool

definition referenceRequestHash :: "tree_lib \<Rightarrow> string \<Rightarrow> string \<Rightarrow> uuid \<Rightarrow> uuid list \<Rightarrow> string" where
  "referenceRequestHash lib content format primary ids =
     tl_sha256hex lib (''canopy-multi-reference|v1|'' @ content @ [CHR 0x00] @ format @ [CHR 0x00] @ tl_ustr lib primary
       @ concat (map (\<lambda>i. CHR 0x00 # tl_ustr lib i) ids))"

fun edge_error_text :: "edge_error \<Rightarrow> string" where
  "edge_error_text (RefParentInvariant m) =
     ''db: target violates the multi-reference parent invariant'' @ (if m = [] then [] else '': '' @ m)"
| "edge_error_text MultipleParents = ''db: target already has a parent''"
| "edge_error_text SystemNodeParentForbidden = ''db: system nodes may not receive user-created parent edges''"
| "edge_error_text ReferenceTargetType = ''db: node type cannot take reference parents''"
| "edge_error_text ReferenceRequiresMultiReferenceMode = ''db: reference edges require parent_mode='' @ [CHR 0x27] @ ''multi_reference'' @ [CHR 0x27]"
| "edge_error_text ReferenceSourceCount = ''db: reference set requires 2 to 20 sources''"
| "edge_error_text ReferenceSourceDuplicate = ''db: reference set contains a duplicate source''"
| "edge_error_text SelfEdge = ''db: source and target cannot be the same''"
| "edge_error_text _ = []"

definition referenceRepoError :: "edge_error \<Rightarrow> svc_error" where
  "referenceRepoError e =
     (case e of EdgeNotFound \<Rightarrow> DatabaseUnavailable ''reference write'' | EdgeIDRequired \<Rightarrow> DatabaseUnavailable ''reference write''
      | EdgeInsertFailed _ \<Rightarrow> DatabaseUnavailable ''reference write''
      | _ \<Rightarrow> newReferenceAPIError RefInvariant (edge_error_text e))"

text \<open>\<open>metadata->'multi_reference'->>'requestId'\<close>.\<close>

definition stored_request_id :: "tree_lib \<Rightarrow> node \<Rightarrow> string option" where
  "stored_request_id lib n =
     (case metadataSection (jsonb_of (n_Metadata n)) ''multi_reference'' of None \<Rightarrow> None
      | Some section \<Rightarrow>
          (case metadataSection section ''requestId'' of None \<Rightarrow> None | Some JNull \<Rightarrow> None | Some (JStr s) \<Rightarrow> Some s
           | Some v \<Rightarrow> Some (tl_marshal lib v)))"

definition loadReplayedReply ::
    "tree_lib \<Rightarrow> graph_db \<Rightarrow> uuid \<Rightarrow> uuid \<Rightarrow> uuid \<Rightarrow> string \<Rightarrow> svc_error + reply_result option" where
  "loadReplayedReply lib db treeID author requestID requestHash =
     (case find (\<lambda>n. n_TreeID n = treeID \<and> n_AuthorID n = author \<and> n_active n
                   \<and> stored_request_id lib n = Some (tl_ustr lib requestID)) (g_nodes db) of
        None \<Rightarrow> Inr None
      | Some prior \<Rightarrow>
          (case decode_reserved lib (jsonb_of (n_Metadata prior)) of None \<Rightarrow> Inl (DatabaseUnavailable ''decode prior metadata'')
           | Some reserved \<Rightarrow>
               if mrm_RequestHash reserved \<noteq> requestHash then Inl (newReferenceAPIError RefRequestIDConflict [])
               else Inr (Some \<lparr>rr_Node = prior, rr_Edges = GetActiveIncoming db (n_ID prior),
                              rr_ManifestHash = mrm_ContextManifestHash reserved,
                              rr_IsSyntheticMergePoint = mrm_IsSyntheticMergePoint reserved, rr_Replayed = True\<rparr>)))"

definition context_audit :: "(uuid \<Rightarrow> string) \<Rightarrow> reference_source list \<Rightarrow> (string, json) gomap" where
  "context_audit ustr sources = fold (\<lambda>s m. map_put (ustr (rfs_ID s)) (JStr (rfs_ContentHash s)) m) sources []"

text \<open>The snapshot under the locks against the one that was signed.\<close>

definition check_snapshot :: "reference_source list \<Rightarrow> string list \<Rightarrow> svc_error option" where
  "check_snapshot sources hashes =
     (if length sources \<noteq> length hashes then Some (newReferenceAPIError RefStale ''selection size changed since preflight'')
      else if map rfs_ContentHash sources \<noteq> hashes
      then Some (newReferenceAPIError RefStale ''a selected message changed since preflight'') else None)"

definition reply_row ::
    "uuid \<Rightarrow> instant \<Rightarrow> uuid \<Rightarrow> uuid \<Rightarrow> uuid \<Rightarrow> string \<Rightarrow> string \<Rightarrow> json \<Rightarrow> graph_db \<Rightarrow> node" where
  "reply_row newID now treeID primary author content format metadata db =
     \<lparr>n_ID = newID, n_TreeID = treeID, n_ParentID = Some primary, n_ParentMode = ''multi_reference'', n_AuthorID = author,
      n_Content = content, n_ContentFormat = format, n_NodeType = ''message'', n_SequenceNum = next_node_seq db treeID,
      n_Metadata = RawJSON metadata, n_CreatedAt = now, n_EditedAt = None, n_DeletedAt = None\<rparr>"

definition insert_reply ::
    "tree_lib \<Rightarrow> (nat \<Rightarrow> uuid) \<Rightarrow> instant \<Rightarrow> uuid \<Rightarrow> selection_claims \<Rightarrow> node \<Rightarrow> graph_db
     \<Rightarrow> svc_error + edge_row list \<times> graph_db" where
  "insert_reply lib newID now treeID claims row db =
     (case insert_node row db of Inl e \<Rightarrow> Inl (DatabaseUnavailable ''insert multi-reference node'')
      | Inr db1 \<Rightarrow>
          (case CreateReferenceSet (tl_ustr lib) (\<lambda>i. newID (Suc i)) now treeID (n_ID row) (sc_SourceIDs claims) db1 of
             Inl e \<Rightarrow> Inl (referenceRepoError e)
           | Inr (edges, db2) \<Rightarrow>
               (case ValidateIncomingInvariant (tl_ustr lib) db2 row of
                  Some e \<Rightarrow> Inl (referenceRepoError e) | None \<Rightarrow> Inr (edges, db2))))"

definition reference_edge_json :: "tree_lib \<Rightarrow> edge_row \<Rightarrow> json" where
  "reference_edge_json lib e =
     JObj [(''id'', JStr (tl_ustr lib (e_ID e))), (''tree_id'', JStr (tl_ustr lib (e_TreeID e))),
           (''source_node_id'', JStr (tl_ustr lib (e_SourceID e))), (''target_node_id'', JStr (tl_ustr lib (e_TargetID e))),
           (''edge_type'', JStr (e_EdgeType e)), (''sequence_num'', jint (e_SequenceNum e)), (''metadata'', e_Metadata e),
           (''created_at'', JStr (format_rfc3339nano (e_CreatedAt e)))]"

definition commonAncestorID :: "branch_span_metadata option \<Rightarrow> uuid option" where
  "commonAncestorID bspan = (case bspan of None \<Rightarrow> None | Some s \<Rightarrow> nullableUUID (bsm_CommonAncestorID s))"

definition converged_json :: "tree_lib \<Rightarrow> uuid \<Rightarrow> selection_claims \<Rightarrow> node \<Rightarrow> edge_row list \<Rightarrow> multi_reference_metadata \<Rightarrow> json" where
  "converged_json lib treeID claims row edges reserved =
     JObj [(''tree_id'', JStr (tl_ustr lib treeID)), (''node_id'', JStr (tl_ustr lib (n_ID row))),
           (''parent_mode'', JStr ''multi_reference''), (''primary_source_id'', JStr (tl_ustr lib (sc_PrimarySourceID claims))),
           (''source_node_ids'', JArr (map (\<lambda>i. JStr (tl_ustr lib i)) (sc_SourceIDs claims))),
           (''edge_ids'', JArr (map (\<lambda>e. JStr (tl_ustr lib (e_ID e))) edges)),
           (''is_synthetic_merge_point'', JBool (mrm_IsSyntheticMergePoint reserved)),
           (''common_ancestor_id'', case commonAncestorID (mrm_BranchSpan reserved) of None \<Rightarrow> JNull | Some i \<Rightarrow> JStr (tl_ustr lib i)),
           (''context_manifest_hash'', JStr (mrm_ContextManifestHash reserved)),
           (''created_at'', JStr (format_rfc3339 (n_CreatedAt row)))]"

definition reply_events ::
    "tree_lib \<Rightarrow> uuid \<Rightarrow> uuid \<Rightarrow> selection_claims \<Rightarrow> node \<Rightarrow> edge_row list \<Rightarrow> multi_reference_metadata \<Rightarrow> effect list" where
  "reply_events lib treeID author claims row edges reserved =
     node_event lib treeID ''node_added'' (n_ID row) author
     # map (\<lambda>e. Broadcast treeID ''edge_added'' author (reference_edge_json lib e)) edges
     @ [Broadcast treeID ''multi_reference_converged'' author (converged_json lib treeID claims row edges reserved)]"

text \<open>The transaction after the replay check, on verified claims.\<close>

definition create_reply ::
    "tree_lib \<Rightarrow> (nat \<Rightarrow> uuid) \<Rightarrow> instant \<Rightarrow> uuid \<Rightarrow> uuid \<Rightarrow> reply_request \<Rightarrow> string \<Rightarrow> (string, json) gomap
     \<Rightarrow> selection_claims \<Rightarrow> graph_db \<Rightarrow> svc_error + reply_result \<times> effect list \<times> graph_db" where
  "create_reply lib newID now treeID author input format client claims db =
     (case lockTreeRow db treeID of Some e \<Rightarrow> Inl e
      | None \<Rightarrow>
          (case lockReferenceSources (tl_sha256hex lib) db treeID (sc_SourceIDs claims) of Inl e \<Rightarrow> Inl e
           | Inr sources \<Rightarrow>
               (case check_snapshot sources (sc_SourceHashes claims) of Some e \<Rightarrow> Inl e
                | None \<Rightarrow>
                    (case computeBranchSpan db treeID (sc_SourceIDs claims) of Inl e \<Rightarrow> Inl e
                     | Inr bspan \<Rightarrow>
                         (let budget = (if sc_Budget claims \<le> 0 then svc_availableBudget 8000 else sc_Budget claims);
                              reserved = \<lparr>mrm_Version = 1, mrm_PrimarySourceID = sc_PrimarySourceID claims,
                                mrm_CanonicalSourceIDs = sc_SourceIDs claims, mrm_IsSyntheticMergePoint = IsSyntheticMergePoint bspan,
                                mrm_BranchSpan = bspan,
                                mrm_ContextManifestHash = referenceManifestHash lib treeID (sc_PrimarySourceID claims) sources budget,
                                mrm_ContextTokenBudget = budget, mrm_RequestID = [], mrm_RequestHash = []\<rparr>
                          in case buildMultiReferenceMetadata lib client reserved (context_audit (tl_ustr lib) sources) (rq_RequestID input)
                                    (referenceRequestHash lib (rq_Content input) format (sc_PrimarySourceID claims) (sc_SourceIDs claims)) of
                               Inl e \<Rightarrow> Inl e
                             | Inr metadata \<Rightarrow>
                                 (let row = reply_row (newID 0) now treeID (sc_PrimarySourceID claims) author (rq_Content input) format metadata db
                                  in case insert_reply lib newID now treeID claims row db of Inl e \<Rightarrow> Inl e
                                     | Inr (edges, db') \<Rightarrow>
                                         Inr (\<lparr>rr_Node = row, rr_Edges = edges, rr_ManifestHash = mrm_ContextManifestHash reserved,
                                                rr_IsSyntheticMergePoint = mrm_IsSyntheticMergePoint reserved, rr_Replayed = False\<rparr>,
                                              reply_events lib treeID author claims row edges reserved, db')))))))"

definition CreateMultiReferenceReply ::
    "token_lib \<Rightarrow> string \<Rightarrow> req_ctx \<Rightarrow> (nat \<Rightarrow> uuid) \<Rightarrow> instant \<Rightarrow> uuid \<Rightarrow> reply_request \<Rightarrow> graph_db
     \<Rightarrow> svc_error + reply_result \<times> effect list \<times> graph_db" where
  "CreateMultiReferenceReply lib secret ctx newID now treeID input db =
     (let author = rc_requester ctx; format = or_default ''markdown'' (rq_ContentFormat input); tlib = tree_lib.truncate lib
      in if isViewer ctx then Inl ViewerReadOnly
         else if treeID = uuid_Nil then Inl ParentMissing
         else if author = uuid_Nil then Inl NodeAuthorRequired
         else if format \<notin> set db_formats then Inl InvalidContentFormat
         else if maxContentLen < rune_count (rq_Content input) then Inl ContentTooLong
         else case decodeMetadataObject (rq_Metadata input) of Inl e \<Rightarrow> Inl e
         | Inr client \<Rightarrow>
             (case Verify lib secret now (rq_SelectionToken input) author of Inl e \<Rightarrow> Inl e
              | Inr claims \<Rightarrow>
                  if sc_TreeID claims \<noteq> treeID
                  then Inl (newReferenceAPIError RefTreeMismatch ''selection token belongs to another tree'')
                  else (case rq_RequestID input of
                          None \<Rightarrow> create_reply tlib newID now treeID author input format client claims db
                        | Some r \<Rightarrow>
                            (case loadReplayedReply tlib db treeID author r
                                    (referenceRequestHash tlib (rq_Content input) format (sc_PrimarySourceID claims) (sc_SourceIDs claims)) of
                               Inl e \<Rightarrow> Inl e
                             | Inr (Some replay) \<Rightarrow> Inr (replay, [], db)
                             | Inr None \<Rightarrow> create_reply tlib newID now treeID author input format client claims db))))"


section \<open>Provenance reads\<close>

text \<open>The active reference edges of a reply with their sources, deleted sources included.\<close>

definition reference_rows :: "graph_db \<Rightarrow> uuid \<Rightarrow> (edge_row \<times> node) list" where
  "reference_rows db i =
     concat (map (\<lambda>e. map (\<lambda>n. (e, n)) (filter (\<lambda>n. n_ID n = e_SourceID e) (g_nodes db))) (reference_edges db i))"

record context_options =
  co_IncludeContent :: bool
  co_MaxSourceTokens :: int
  co_VerifyHash :: bool

record context_source =
  cxs_SourceLabel :: string
  cxs_NodeID :: uuid
  cxs_Content :: "string option"
  cxs_Truncated :: bool

record invalidation =
  inv_SourceNodeID :: uuid
  inv_OldHash :: string
  inv_NewHash :: string
  inv_Reason :: string

record context_result =
  cx_NodeID :: uuid
  cx_TreeID :: uuid
  cx_PrimarySourceID :: uuid
  cx_Sources :: "context_source list"
  cx_IsSyntheticMergePoint :: bool
  cx_CommonAncestorID :: "uuid option"
  cx_SourceBranches :: "reference_branch_source list"
  cx_TokenBudget :: int
  cx_TokensUsed :: int
  cx_ManifestHash :: string
  cx_SourceChanged :: bool
  cx_ContextInvalidated :: bool
  cx_InvalidationReasons :: "string list"

definition isManifestHash :: "string \<Rightarrow> bool" where
  "isManifestHash s \<longleftrightarrow> length s = 64 \<and> list_all (\<lambda>c. byte_in 48 57 c \<or> byte_in 97 102 c) s"

definition contextAuditMetadata :: "json \<Rightarrow> (string, string) gomap" where
  "contextAuditMetadata metadata =
     (case metadataSection metadata ''context_audit'' of
        Some (JObj ms) \<Rightarrow>
          (case those (map (\<lambda>(k, v). string_member v (\<lambda>s. (k, s)) (k, [])) ms) of
             None \<Rightarrow> [] | Some ps \<Rightarrow> fold (\<lambda>(k, v) m. map_put k v m) ps [])
      | _ \<Rightarrow> [])"

definition invalidation_of :: "tree_lib \<Rightarrow> (string, string) gomap \<Rightarrow> edge_row \<times> node \<Rightarrow> invalidation option" where
  "invalidation_of lib audit row =
     (let hash = content_hash (tl_sha256hex lib) (snd row); src = e_SourceID (fst row)
      in case map_of audit (tl_ustr lib src) of None \<Rightarrow> None
         | Some old \<Rightarrow>
             if \<not> n_active (snd row)
             then Some \<lparr>inv_SourceNodeID = src, inv_OldHash = old, inv_NewHash = [], inv_Reason = ''source_deleted''\<rparr>
             else if hash \<noteq> old
             then Some \<lparr>inv_SourceNodeID = src, inv_OldHash = old, inv_NewHash = hash, inv_Reason = ''source_modified''\<rparr>
             else None)"

definition checkReferenceContextInvalidated :: "tree_lib \<Rightarrow> (string, string) gomap \<Rightarrow> (edge_row \<times> node) list \<Rightarrow> invalidation list" where
  "checkReferenceContextInvalidated lib audit rows = List.map_filter (invalidation_of lib audit) rows"

definition invalidationReasons :: "invalidation list \<Rightarrow> string list" where
  "invalidationReasons invs = map inv_Reason (dedup_by inv_Reason [] invs)"

text \<open>Head and tail of a source around an omission marker.\<close>

definition referenceTruncateContent :: "string \<Rightarrow> int \<Rightarrow> string \<Rightarrow> string \<times> bool" where
  "referenceTruncateContent content maxTokens0 label =
     (let maxTokens = (if maxTokens0 \<le> 0 then 2048 else maxTokens0); all = estimateSourceTokens content
      in if all \<le> maxTokens then (content, False)
         else (let runes = go_runes content; len = int (length runes);
                   half = min (maxTokens * 4 div 2) len; back = min half (len - half);
                   omitted = max 1 (all - (half + back) div 4);
                   marker = ''[... '' @ itoa omitted @ '' tokens omitted from source '' @ label @ '' ...]''
               in (concat (take (nat half) runes) @ [CHR 0x0A] @ marker @ [CHR 0x0A]
                   @ concat (drop (nat (len - back)) runes), True)))"

definition primary_of :: "multi_reference_metadata \<Rightarrow> node \<Rightarrow> uuid" where
  "primary_of reserved n =
     (if mrm_PrimarySourceID reserved \<noteq> uuid_Nil then mrm_PrimarySourceID reserved
      else case n_ParentID n of Some p \<Rightarrow> p | None \<Rightarrow> uuid_Nil)"

text \<open>Whether the sources as they are now are the snapshot that was signed.\<close>

definition snapshot_holds :: "tree_lib \<Rightarrow> node \<Rightarrow> multi_reference_metadata \<Rightarrow> (edge_row \<times> node) list \<Rightarrow> bool" where
  "snapshot_holds lib n reserved rows \<longleftrightarrow>
     referenceManifestHash lib (n_TreeID n) (primary_of reserved n) (map (\<lambda>r. source_of (tl_sha256hex lib) (snd r)) rows)
       (mrm_ContextTokenBudget reserved) = mrm_ContextManifestHash reserved
     \<and> list_all (\<lambda>r. n_active (snd r)) rows"

definition context_source_of :: "context_options \<Rightarrow> int \<Rightarrow> nat \<times> edge_row \<times> node \<Rightarrow> context_source" where
  "context_source_of opts maxTokens r =
     (let label = ReferenceSourceLabel (int (fst r)); content = n_Content (snd (snd r))
      in \<lparr>cxs_SourceLabel = label, cxs_NodeID = e_SourceID (fst (snd r)),
          cxs_Content = (if co_IncludeContent opts then Some (fst (referenceTruncateContent content maxTokens label)) else None),
          cxs_Truncated = (maxTokens < estimateSourceTokens content)\<rparr>)"

definition buildReferenceContext ::
    "tree_lib \<Rightarrow> node \<Rightarrow> multi_reference_metadata \<Rightarrow> (edge_row \<times> node) list \<Rightarrow> context_options \<Rightarrow> svc_error + context_result" where
  "buildReferenceContext lib n reserved rows opts =
     (if \<not> isManifestHash (mrm_ContextManifestHash reserved) then Inl ManifestUnreadable
      else (let maxTokens = (if co_MaxSourceTokens opts \<le> 0 \<or> 2048 < co_MaxSourceTokens opts then 2048 else co_MaxSourceTokens opts)
            in Inr \<lparr>cx_NodeID = n_ID n, cx_TreeID = n_TreeID n, cx_PrimarySourceID = primary_of reserved n,
                    cx_Sources = map (context_source_of opts maxTokens) (enumerate 0 rows),
                    cx_IsSyntheticMergePoint = mrm_IsSyntheticMergePoint reserved,
                    cx_CommonAncestorID = commonAncestorID (mrm_BranchSpan reserved),
                    cx_SourceBranches = (case mrm_BranchSpan reserved of None \<Rightarrow> [] | Some s \<Rightarrow> bsm_SourceBranches s),
                    cx_TokenBudget = mrm_ContextTokenBudget reserved,
                    cx_TokensUsed = referenceEstimatedTokens (map (\<lambda>r. source_of (tl_sha256hex lib) (snd r)) rows),
                    cx_ManifestHash = mrm_ContextManifestHash reserved,
                    cx_SourceChanged = (co_VerifyHash opts \<and> \<not> snapshot_holds lib n reserved rows),
                    cx_ContextInvalidated = False, cx_InvalidationReasons = []\<rparr>))"

definition invalidated_event :: "tree_lib \<Rightarrow> req_ctx \<Rightarrow> node \<Rightarrow> invalidation \<Rightarrow> effect" where
  "invalidated_event lib ctx n i =
     Broadcast (n_TreeID n) ''reference_context_invalidated'' (rc_requester ctx)
       (JObj [(''tree_id'', JStr (tl_ustr lib (n_TreeID n))), (''node_id'', JStr (tl_ustr lib (n_ID n))),
              (''source_node_id'', JStr (tl_ustr lib (inv_SourceNodeID i))), (''old_hash'', JStr (inv_OldHash i)),
              (''new_hash'', JStr (inv_NewHash i)), (''reason'', JStr (inv_Reason i))])"

text \<open>One answer for a node that is missing, deleted or no multi-reference reply.\<close>

definition reply_node :: "graph_db \<Rightarrow> uuid \<Rightarrow> node option" where
  "reply_node db i =
     (case node_at db i of None \<Rightarrow> None
      | Some n \<Rightarrow> if \<not> n_active n \<or> n_ParentMode n \<noteq> ''multi_reference'' then None else Some n)"

definition GetReferenceContext ::
    "tree_lib \<Rightarrow> req_ctx \<Rightarrow> graph_db \<Rightarrow> uuid \<Rightarrow> context_options \<Rightarrow> svc_error + context_result \<times> effect list" where
  "GetReferenceContext lib ctx db i opts =
     (case reply_node db i of None \<Rightarrow> Inl (newReferenceAPIError RefContextNotFound [])
      | Some n \<Rightarrow>
          (case decode_reserved lib (jsonb_of (n_Metadata n)) of None \<Rightarrow> Inl ManifestUnreadable
           | Some reserved \<Rightarrow>
               (let rows = reference_rows db i;
                    invs = checkReferenceContextInvalidated lib (contextAuditMetadata (jsonb_of (n_Metadata n))) rows
                in case buildReferenceContext lib n reserved rows opts of Inl e \<Rightarrow> Inl e
                   | Inr result \<Rightarrow>
                       Inr (if co_VerifyHash opts \<and> invs \<noteq> []
                            then (result\<lparr>cx_ContextInvalidated := True, cx_InvalidationReasons := invalidationReasons invs\<rparr>,
                                  map (invalidated_event lib ctx n) invs)
                            else (result, [])))))"

record compile_source =
  cps_NodeID :: uuid
  cps_AuthorID :: uuid
  cps_NodeType :: string
  cps_SequenceNum :: int
  cps_CreatedAt :: instant
  cps_BranchRootID :: uuid
  cps_ContentHash :: string
  cps_Content :: string
  cps_Label :: string
  cps_ColorKey :: string

record compile_selection =
  csel_TreeID :: uuid
  csel_Metadata :: multi_reference_metadata
  csel_Sources :: "compile_source list"

text \<open>\<open>metadata->>'key'\<close> of an edge, if it is a string that is not empty.\<close>

definition nonempty_text :: "string \<Rightarrow> string option" where
  "nonempty_text s = (if s = [] then None else Some s)"

definition edge_text :: "edge_row \<Rightarrow> string \<Rightarrow> string option" where
  "edge_text e key = (case metadataSection (e_Metadata e) key of Some (JStr s) \<Rightarrow> nonempty_text s | _ \<Rightarrow> None)"

definition compile_source_of ::
    "tree_lib \<Rightarrow> node \<Rightarrow> (uuid, uuid) gomap \<Rightarrow> nat \<times> edge_row \<times> node \<Rightarrow> compile_source" where
  "compile_source_of lib target roots r =
     (let (i, e, n) = r; branchRoot = map_get uuid_Nil roots (e_SourceID e)
      in \<lparr>cps_NodeID = e_SourceID e, cps_AuthorID = n_AuthorID n, cps_NodeType = n_NodeType n,
          cps_SequenceNum = n_SequenceNum n, cps_CreatedAt = n_CreatedAt n,
          cps_BranchRootID = (if branchRoot = uuid_Nil then e_SourceID e else branchRoot),
          cps_ContentHash = content_hash (tl_sha256hex lib) n, cps_Content = n_Content n,
          cps_Label = (case edge_text e ''source_label'' of Some l \<Rightarrow> l | None \<Rightarrow> ReferenceSourceLabel (int i)),
          cps_ColorKey = (case edge_text e ''color_key'' of Some k \<Rightarrow> k
             | None \<Rightarrow> ReferenceColorKey (tl_ustr lib) (n_TreeID target) (n_ID target) (e_SourceID e))\<rparr>)"

text \<open>\<open>Inr None\<close>: the target is no multi-reference reply and compiles as an ordinary node.\<close>

definition LoadCompileSelection :: "tree_lib \<Rightarrow> graph_db \<Rightarrow> uuid \<Rightarrow> svc_error + compile_selection option" where
  "LoadCompileSelection lib db i =
     (case reply_node db i of None \<Rightarrow> Inr None
      | Some n \<Rightarrow>
          (case decode_reserved lib (jsonb_of (n_Metadata n)) of None \<Rightarrow> Inl ManifestUnreadable
           | Some reserved \<Rightarrow>
               if \<not> isManifestHash (mrm_ContextManifestHash reserved) then Inl ManifestUnreadable
               else (let rows = reference_rows db i
                     in if \<not> snapshot_holds lib n reserved rows
                        then Inl (newReferenceAPIError RefStale
                               ''the selected messages changed or were deleted after this reply was created'')
                        else Inr (Some \<lparr>csel_TreeID = n_TreeID n, csel_Metadata = reserved,
                               csel_Sources = map (compile_source_of lib n (branch_roots (mrm_BranchSpan reserved))) (enumerate 0 rows)\<rparr>))))"

end
