(* ===== verification/Tree_Service.thy ===== *)
theory Tree_Service
  imports Node_Service
begin

text \<open>
  The tree service (\<open>internal/service/tree_service.go\<close>): creation of a tree with its root and
  owner, keyset and window pages, details with statistics and session lineage, partial updates
  and soft deletion. Conventions are those of \<open>Node_Service\<close>.
\<close>

section \<open>Requests and results\<close>

record create_tree_params =
  ct_OwnerID :: uuid
  ct_Title :: string
  ct_Description :: string
  ct_RootContent :: string
  ct_ContentFormat :: string
  ct_NodeType :: string
  ct_Metadata :: raw_message

record list_trees_params =
  lt_Cursor :: "uuid option"
  lt_Limit :: int
  lt_Sort :: string
  lt_Status :: string
  lt_Role :: "string option"
  lt_Search :: string

record svc_tree =
  st_ID :: uuid
  st_Title :: string
  st_Description :: string
  st_OwnerID :: uuid
  st_RootNodeID :: uuid
  st_NodeCount :: int
  st_MemberCount :: int
  st_CreatedAt :: instant
  st_UpdatedAt :: instant
  st_Role :: string

record tree_summary =
  ts_ID :: uuid
  ts_Title :: string
  ts_Description :: string
  ts_OwnerID :: uuid
  ts_NodeCount :: int
  ts_MemberCount :: int
  ts_RootNodeID :: uuid
  ts_CreatedAt :: instant
  ts_UpdatedAt :: instant
  ts_Role :: string
  ts_LastActivity :: "instant option"
  ts_SessionID :: string
  ts_ParentSessionID :: string
  ts_Source :: string

record list_trees_result =
  lr_Trees :: "tree_summary list"
  lr_NextCursor :: "uuid option"
  lr_HasMore :: bool
  lr_Total :: int
  lr_Limit :: int

record tree_stats =
  sts_NodeCount :: int
  sts_MemberCount :: int
  sts_BranchCount :: int
  sts_MaxDepth :: int
  sts_PendingApprovals :: int

record related =
  rel_Parent :: "(uuid \<times> string) option"
  rel_Children :: "(uuid \<times> string) list"
  rel_BoardTask :: "string option"
  rel_Project :: "string option"
  rel_CommitHash :: "string option"
  rel_DelegationGoals :: "(string \<times> string) list"

record tree_detail =
  td_Summary :: tree_summary
  td_Stats :: "tree_stats option"
  td_Members :: "uuid list option"
  td_Related :: "related option"

record get_tree_options =
  go_IncludeStats :: bool
  go_IncludeMembers :: bool
  go_IncludeRelated :: bool

definition sort_orders :: "string list" where
  "sort_orders = [''created_desc'', ''created_asc'', ''updated_desc'', ''updated_asc'', ''title_asc'', ''title_desc'']"

definition status_filters :: "string list" where "status_filters = [''active'', ''deleted'', ''all'']"
definition member_roles :: "string list" where "member_roles = [''owner'', ''admin'', ''member'', ''viewer'']"
definition svc_formats :: "string list" where "svc_formats = [''markdown'', ''plain'', ''code'']"
definition svc_node_types :: "string list" where "svc_node_types = [''message'', ''announcement'']"

section \<open>Validation\<close>

definition validateCreateTree :: "create_tree_params \<Rightarrow> svc_error option" where
  "validateCreateTree p =
     (let title = trim_space (ct_Title p)
      in if title = [] then Some TitleRequired
         else if 200 < rune_count title then Some TitleTooLong
         else if 2000 < rune_count (ct_Description p) then Some DescriptionTooLong
         else if trim_space (ct_RootContent p) = [] then Some RootContentRequired
         else if 100000 < rune_count (ct_RootContent p) then Some RootContentTooLarge
         else if ct_ContentFormat p \<notin> set svc_formats then Some InvalidContentFormat
         else if ct_NodeType p \<notin> set svc_node_types then Some InvalidNodeType
         else None)"

definition validateListTrees :: "list_trees_params \<Rightarrow> svc_error option" where
  "validateListTrees p =
     (let search = trim_space (lt_Search p)
      in if lt_Cursor p = Some uuid_Nil then Some InvalidCursor
         else if lt_Sort p \<noteq> [] \<and> lt_Sort p \<notin> set sort_orders then Some InvalidSort
         else if lt_Status p \<noteq> [] \<and> lt_Status p \<notin> set status_filters then Some InvalidStatus
         else if (case lt_Role p of None \<Rightarrow> False | Some r \<Rightarrow> r \<notin> set member_roles) then Some InvalidRole
         else if search \<noteq> [] \<and> (rune_count search < 3 \<or> 200 < rune_count search) then Some SearchTooShort
         else None)"

definition clampLimit :: "int \<Rightarrow> int" where
  "clampLimit n = (if n \<le> 0 then 50 else if 100 < n then 100 else n)"

definition coalesceTime :: "instant option \<Rightarrow> instant \<Rightarrow> instant" where
  "coalesceTime a b = (case a of Some t \<Rightarrow> t | None \<Rightarrow> b)"

section \<open>Creation\<close>

definition new_tree_row :: "uuid \<Rightarrow> instant \<Rightarrow> create_tree_params \<Rightarrow> json \<Rightarrow> tree_row" where
  "new_tree_row treeID now p metadata =
     \<lparr>tr_ID = treeID, tr_OwnerID = ct_OwnerID p, tr_Title = trim_space (ct_Title p), tr_Description = ct_Description p,
      tr_RootNodeID = None, tr_Metadata = metadata, tr_CreatedAt = now, tr_EditedAt = None, tr_DeletedAt = None\<rparr>"

text \<open>The root is inserted without a sequence number: the trigger assigns it.\<close>

definition root_row :: "uuid \<Rightarrow> instant \<Rightarrow> uuid \<Rightarrow> create_tree_params \<Rightarrow> graph_db \<Rightarrow> node" where
  "root_row rootID now treeID p db =
     \<lparr>n_ID = rootID, n_TreeID = treeID, n_ParentID = None, n_ParentMode = ''lineage'', n_AuthorID = ct_OwnerID p,
      n_Content = ct_RootContent p, n_ContentFormat = ct_ContentFormat p, n_NodeType = ct_NodeType p,
      n_SequenceNum = next_node_seq db treeID, n_Metadata = RawJSON (JObj []), n_CreatedAt = now,
      n_EditedAt = None, n_DeletedAt = None\<rparr>"

definition db_bind :: "pg_error + 'a \<Rightarrow> string \<Rightarrow> ('a \<Rightarrow> svc_error + 'b) \<Rightarrow> svc_error + 'b" where
  "db_bind r what k = (case r of Inl e \<Rightarrow> Inl (DatabaseUnavailable what) | Inr x \<Rightarrow> k x)"

definition CreateTree ::
    "uuid \<times> uuid \<Rightarrow> instant \<Rightarrow> create_tree_params \<Rightarrow> graph_db \<Rightarrow> svc_error + svc_tree \<times> graph_db" where
  "CreateTree newIDs now p db =
     (case validateCreateTree p of Some e \<Rightarrow> Inl e
      | None \<Rightarrow>
          (case stored_metadata (ct_Metadata p) of None \<Rightarrow> Inl (DatabaseUnavailable ''insert tree'')
           | Some metadata \<Rightarrow>
               (let treeID = fst newIDs; rootID = snd newIDs; row = new_tree_row treeID now p metadata
                in db_bind (insert_tree row db) ''insert tree'' (\<lambda>db1.
                   db_bind (insert_member \<lparr>tm_TreeID = treeID, tm_UserID = ct_OwnerID p, tm_Role = ''owner'',
                              tm_JoinedAt = now\<rparr> db1) ''insert tree_members'' (\<lambda>db2.
                   db_bind (insert_node (root_row rootID now treeID p db2) db2) ''insert root node'' (\<lambda>db3.
                     Inr (\<lparr>st_ID = treeID, st_Title = tr_Title row, st_Description = tr_Description row,
                            st_OwnerID = tr_OwnerID row, st_RootNodeID = rootID, st_NodeCount = 1, st_MemberCount = 1,
                            st_CreatedAt = now, st_UpdatedAt = now, st_Role = ''owner''\<rparr>,
                          db3\<lparr>g_trees := map (\<lambda>t. if tr_ID t = treeID
                                then t\<lparr>tr_RootNodeID := Some rootID, tr_EditedAt := Some now\<rparr> else t) (g_trees db3)\<rparr>)))))))"

section \<open>Session fields\<close>

record session_meta =
  sm_SessionID :: string
  sm_ParentSessionID :: string
  sm_Source :: string
  sm_ChildSessionIDs :: "string list"
  sm_Project :: string
  sm_BoardTask :: string
  sm_CommitHash :: string
  sm_DelegationGoals :: "(string \<times> string) list"

definition zero_session :: session_meta where
  "zero_session = \<lparr>sm_SessionID = [], sm_ParentSessionID = [], sm_Source = [], sm_ChildSessionIDs = [],
     sm_Project = [], sm_BoardTask = [], sm_CommitHash = [], sm_DelegationGoals = []\<rparr>"

fun decode_all :: "(json \<Rightarrow> 'a option) \<Rightarrow> json list \<Rightarrow> 'a list option" where
  "decode_all f [] = Some []"
| "decode_all f (v # vs) =
     (case f v of None \<Rightarrow> None | Some x \<Rightarrow> map_option (\<lambda>xs. x # xs) (decode_all f vs))"

definition string_list_member :: "json \<Rightarrow> (string list \<Rightarrow> 'a) \<Rightarrow> 'a option" where
  "string_list_member v f =
     (case v of JNull \<Rightarrow> Some (f [])
      | JArr vs \<Rightarrow> map_option f (decode_all (\<lambda>w. string_member w (\<lambda>s. s) []) vs) | _ \<Rightarrow> None)"

definition assign_goal :: "string \<Rightarrow> json \<Rightarrow> string \<times> string \<Rightarrow> (string \<times> string) option" where
  "assign_goal key v g =
     (if key = ''delegation_id'' then string_member v (\<lambda>s. (s, snd g)) g
      else if key = ''goal'' then string_member v (\<lambda>s. (fst g, s)) g else Some g)"

text \<open>The struct of \<open>fillSessionFields\<close> reads three of the fields, that of \<open>extractRelated\<close> all but the source.\<close>

definition assign_session :: "string \<Rightarrow> json \<Rightarrow> session_meta \<Rightarrow> session_meta option" where
  "assign_session key v m =
     (if key = ''session_id'' then string_member v (\<lambda>s. m\<lparr>sm_SessionID := s\<rparr>) m
      else if key = ''parent_session_id'' then string_member v (\<lambda>s. m\<lparr>sm_ParentSessionID := s\<rparr>) m
      else if key = ''source'' then string_member v (\<lambda>s. m\<lparr>sm_Source := s\<rparr>) m
      else Some m)"

definition assign_lineage :: "string \<Rightarrow> json \<Rightarrow> session_meta \<Rightarrow> session_meta option" where
  "assign_lineage key v m =
     (if key = ''session_id'' then string_member v (\<lambda>s. m\<lparr>sm_SessionID := s\<rparr>) m
      else if key = ''parent_session_id'' then string_member v (\<lambda>s. m\<lparr>sm_ParentSessionID := s\<rparr>) m
      else if key = ''child_session_ids'' then string_list_member v (\<lambda>s. m\<lparr>sm_ChildSessionIDs := s\<rparr>)
      else if key = ''project'' then string_member v (\<lambda>s. m\<lparr>sm_Project := s\<rparr>) m
      else if key = ''board_task'' then string_member v (\<lambda>s. m\<lparr>sm_BoardTask := s\<rparr>) m
      else if key = ''commit_hash'' then string_member v (\<lambda>s. m\<lparr>sm_CommitHash := s\<rparr>) m
      else if key = ''delegation_goals''
      then (case v of JNull \<Rightarrow> Some (m\<lparr>sm_DelegationGoals := []\<rparr>)
            | JArr vs \<Rightarrow> map_option (\<lambda>gs. m\<lparr>sm_DelegationGoals := gs\<rparr>)
                          (decode_all (\<lambda>w. decode_struct assign_goal (RawJSON w) ([], [])) vs)
            | _ \<Rightarrow> None)
      else Some m)"

fun strings_Index :: "string \<Rightarrow> string \<Rightarrow> nat option" where
  "strings_Index s p =
     (if starts_with p s then Some 0 else case s of [] \<Rightarrow> None | _ # r \<Rightarrow> map_option Suc (strings_Index r p))"

text \<open>The text after \<open>source=\<close> up to the next separator, a space and a middle dot.\<close>

definition sourceFromDescription :: "string \<Rightarrow> string" where
  "sourceFromDescription d =
     (case strings_Index d ''source='' of None \<Rightarrow> []
      | Some i \<Rightarrow>
          (let rest = drop (i + 7) d
           in trim_space (case strings_Index rest [CHR 0x20, CHR 0xC2, CHR 0xB7] of None \<Rightarrow> rest | Some e \<Rightarrow> take e rest)))"

definition fillSessionFields :: "tree_summary \<Rightarrow> json \<Rightarrow> string \<Rightarrow> tree_summary" where
  "fillSessionFields base metadata description =
     (case decode_struct assign_session (RawJSON metadata) zero_session of None \<Rightarrow> base
      | Some m \<Rightarrow>
          if sm_SessionID m = [] then base
          else base\<lparr>ts_SessionID := sm_SessionID m, ts_ParentSessionID := sm_ParentSessionID m,
                   ts_Source := (if sm_Source m = [] then sourceFromDescription description else sm_Source m)\<rparr>)"

definition treeToSummary :: "tree_row \<Rightarrow> tree_summary" where
  "treeToSummary t =
     fillSessionFields
       \<lparr>ts_ID = tr_ID t, ts_Title = tr_Title t, ts_Description = tr_Description t, ts_OwnerID = tr_OwnerID t,
        ts_NodeCount = 1, ts_MemberCount = 1,
        ts_RootNodeID = (case tr_RootNodeID t of Some r \<Rightarrow> r | None \<Rightarrow> uuid_Nil),
        ts_CreatedAt = tr_CreatedAt t, ts_UpdatedAt = coalesceTime (tr_EditedAt t) (tr_CreatedAt t), ts_Role = ''owner'',
        ts_LastActivity = None, ts_SessionID = [], ts_ParentSessionID = [], ts_Source = []\<rparr>
       (tr_Metadata t) (tr_Description t)"

text \<open>\<open>metadata->>'session_id'\<close>: the text of the member, if it is there and not null.\<close>

definition session_id_of :: "tree_lib \<Rightarrow> json \<Rightarrow> string option" where
  "session_id_of lib metadata =
     (case metadata of
        JObj ms \<Rightarrow> (case json_field ''session_id'' ms of None \<Rightarrow> None | Some JNull \<Rightarrow> None | Some (JStr s) \<Rightarrow> Some s
                    | Some v \<Rightarrow> Some (tl_marshal lib v))
      | _ \<Rightarrow> None)"

definition ImportedBefore :: "tree_lib \<Rightarrow> graph_db \<Rightarrow> string \<Rightarrow> bool" where
  "ImportedBefore lib db sessionID \<longleftrightarrow>
     list_ex (\<lambda>n. n_active n \<and> session_id_of lib (jsonb_of (n_Metadata n)) = Some sessionID) (g_nodes db)
     \<or> list_ex (\<lambda>t. session_id_of lib (tr_Metadata t) = Some sessionID) (active_trees db)"

definition GetTreesBySessionIDs :: "tree_lib \<Rightarrow> graph_db \<Rightarrow> string list \<Rightarrow> (string, tree_summary) gomap" where
  "GetTreesBySessionIDs lib db ids =
     fold (\<lambda>t m. (case decode_struct assign_session (RawJSON (tr_Metadata t)) zero_session of
                    None \<Rightarrow> m
                  | Some sm \<Rightarrow> if sm_SessionID sm = [] then m else map_put (sm_SessionID sm) (treeToSummary t) m))
       (filter (\<lambda>t. case session_id_of lib (tr_Metadata t) of None \<Rightarrow> False | Some s \<Rightarrow> s \<in> set ids) (active_trees db)) []"

definition nonempty :: "string \<Rightarrow> string option" where
  "nonempty s = (if s = [] then None else Some s)"

definition extractRelated :: "tree_lib \<Rightarrow> graph_db \<Rightarrow> json \<Rightarrow> related option" where
  "extractRelated lib db metadata =
     (case decode_struct assign_lineage (RawJSON metadata) zero_session of None \<Rightarrow> None
      | Some m \<Rightarrow>
          if sm_SessionID m = [] then None
          else (let needed = (if sm_ParentSessionID m = [] then [] else [sm_ParentSessionID m]) @ sm_ChildSessionIDs m;
                    lookup = GetTreesBySessionIDs lib db needed;
                    ref = (\<lambda>s. map_option (\<lambda>t. (ts_ID t, ts_Title t)) (map_of lookup s));
                    r = \<lparr>rel_Parent = (if sm_ParentSessionID m = [] then None else ref (sm_ParentSessionID m)),
                         rel_Children = List.map_filter ref (sm_ChildSessionIDs m),
                         rel_BoardTask = nonempty (sm_BoardTask m), rel_Project = nonempty (sm_Project m),
                         rel_CommitHash = nonempty (sm_CommitHash m), rel_DelegationGoals = sm_DelegationGoals m\<rparr>
                in if rel_Parent r = None \<and> rel_Children r = [] \<and> rel_BoardTask r = None \<and> rel_Project r = None
                      \<and> rel_CommitHash r = None \<and> rel_DelegationGoals r = [] then None else Some r))"

section \<open>Lists\<close>

definition fillLastActivity :: "graph_db \<Rightarrow> tree_summary list \<Rightarrow> tree_summary list" where
  "fillLastActivity db ss =
     (let latest = LastActivityByTreeIDs db (map ts_ID ss)
      in map (\<lambda>s. case map_of latest (ts_ID s) of None \<Rightarrow> s | Some t \<Rightarrow> s\<lparr>ts_LastActivity := Some t\<rparr>) ss)"

definition fillNodeCounts :: "graph_db \<Rightarrow> tree_summary list \<Rightarrow> tree_summary list" where
  "fillNodeCounts db ss =
     (let counts = CountNodesByTreeIDs db (map ts_ID ss)
      in fillLastActivity db (map (\<lambda>s. case map_of counts (ts_ID s) of None \<Rightarrow> s | Some n \<Rightarrow> s\<lparr>ts_NodeCount := n\<rparr>) ss))"

definition fillMemberCounts :: "graph_db \<Rightarrow> tree_summary list \<Rightarrow> tree_summary list" where
  "fillMemberCounts db ss =
     (let counts = CountMembersByTreeIDs db (map ts_ID ss)
      in map (\<lambda>s. case map_of counts (ts_ID s) of None \<Rightarrow> s | Some n \<Rightarrow> s\<lparr>ts_MemberCount := n\<rparr>) ss)"

definition summaries_of :: "graph_db \<Rightarrow> tree_row list \<Rightarrow> tree_summary list" where
  "summaries_of db rows = fillMemberCounts db (fillNodeCounts db (map treeToSummary rows))"

definition next_cursor :: "bool \<Rightarrow> tree_summary list \<Rightarrow> uuid option" where
  "next_cursor hasMore ss = (if hasMore \<and> ss \<noteq> [] then Some (ts_ID (last ss)) else None)"

definition listTreesKeyset :: "graph_db \<Rightarrow> list_trees_params \<Rightarrow> int \<Rightarrow> list_trees_result" where
  "listTreesKeyset db p limit =
     (let rows = tree_ListKeyset db (lt_Cursor p) (limit + 1);
          hasMore = limit < int (length rows);
          page = (if hasMore then take (nat limit) rows else rows);
          kept = (if lt_Role p \<noteq> None \<and> lt_Role p \<noteq> Some ''owner'' then [] else page);
          ss = summaries_of db kept
      in \<lparr>lr_Trees = ss, lr_NextCursor = next_cursor hasMore ss, lr_HasMore = hasMore, lr_Total = tree_Count db,
          lr_Limit = limit\<rparr>)"

definition treeLess :: "tree_lib \<Rightarrow> string \<Rightarrow> tree_row \<Rightarrow> tree_row \<Rightarrow> bool" where
  "treeLess lib order a b \<longleftrightarrow>
     (let ida = tl_ustr lib (tr_ID a); idb = tl_ustr lib (tr_ID b);
          ua = coalesceTime (tr_EditedAt a) (tr_CreatedAt a); ub = coalesceTime (tr_EditedAt b) (tr_CreatedAt b)
      in if order = ''created_asc'' then tr_CreatedAt a < tr_CreatedAt b \<or> tr_CreatedAt a = tr_CreatedAt b \<and> ida < idb
         else if order = ''updated_asc'' then ua < ub \<or> ua = ub \<and> ida < idb
         else if order = ''updated_desc'' then ub < ua \<or> ua = ub \<and> idb < ida
         else if order = ''title_asc'' then tl_lower lib (tr_Title a) < tl_lower lib (tr_Title b)
         else if order = ''title_desc'' then tl_lower lib (tr_Title b) < tl_lower lib (tr_Title a)
         else if order = ''created_desc'' \<or> order = [] then
           tr_CreatedAt b < tr_CreatedAt a \<or> tr_CreatedAt a = tr_CreatedAt b \<and> idb < ida
         else False)"

text \<open>
  The insertion sort of \<open>sortTreeRows\<close>: the sorted prefix is kept in reverse, and a row moves
  towards its front while it is less than its neighbour.
\<close>

fun move_down :: "('a \<Rightarrow> 'a \<Rightarrow> bool) \<Rightarrow> 'a \<Rightarrow> 'a list \<Rightarrow> 'a list" where
  "move_down lt x [] = [x]"
| "move_down lt x (y # ys) = (if lt x y then y # move_down lt x ys else x # y # ys)"

definition sortTreeRows :: "tree_lib \<Rightarrow> string \<Rightarrow> tree_row list \<Rightarrow> tree_row list" where
  "sortTreeRows lib order rows = rev (foldl (\<lambda>acc x. move_down (treeLess lib order) x acc) [] rows)"

definition pastCursor :: "tree_lib \<Rightarrow> uuid \<Rightarrow> uuid \<Rightarrow> string \<Rightarrow> bool" where
  "pastCursor lib i cursor order =
     (if order \<in> set [''created_asc'', ''updated_asc'', ''title_asc''] then tl_ustr lib cursor < tl_ustr lib i
      else tl_ustr lib i < tl_ustr lib cursor)"

definition listAllIncludingDeleted :: "graph_db \<Rightarrow> int \<Rightarrow> tree_row list" where
  "listAllIncludingDeleted db limit =
     take (nat limit) (sort_stable (\<lambda>a b. tr_active a \<and> \<not> tr_active b \<or> tr_active a = tr_active b \<and> newest_first a b) (g_trees db))"

definition listDeletedOnly :: "graph_db \<Rightarrow> int \<Rightarrow> tree_row list" where
  "listDeletedOnly db limit =
     take (nat limit) (sort_stable (\<lambda>a b. coalesceTime (tr_DeletedAt b) 0 < coalesceTime (tr_DeletedAt a) 0)
       (filter (\<lambda>t. \<not> tr_active t) (g_trees db)))"

definition searchTrees :: "tree_lib \<Rightarrow> graph_db \<Rightarrow> string \<Rightarrow> int \<Rightarrow> tree_row list" where
  "searchTrees lib db query limit = (case tree_Search (tl_ilike lib) db query limit 0 of None \<Rightarrow> [] | Some rows \<Rightarrow> rows)"

definition list_window :: "tree_lib \<Rightarrow> graph_db \<Rightarrow> list_trees_params \<Rightarrow> string \<Rightarrow> bool \<Rightarrow> int \<Rightarrow> tree_row list" where
  "list_window lib db p status hasSearch limit =
     (if hasSearch then searchTrees lib db (lt_Search p) (limit + 1)
      else if status = ''active'' then tree_List db (limit + 1) 0
      else if status = ''all'' then listAllIncludingDeleted db (limit + 1)
      else if status = ''deleted'' then listDeletedOnly db (limit + 1)
      else [])"

definition list_legacy :: "tree_lib \<Rightarrow> graph_db \<Rightarrow> list_trees_params \<Rightarrow> string \<Rightarrow> string \<Rightarrow> bool \<Rightarrow> int \<Rightarrow> list_trees_result" where
  "list_legacy lib db p status order hasSearch limit =
     (let sorted = sortTreeRows lib order (list_window lib db p status hasSearch limit);
          rest = (case lt_Cursor p of None \<Rightarrow> sorted | Some c \<Rightarrow> filter (\<lambda>t. pastCursor lib (tr_ID t) c order) sorted);
          rows = (if lt_Role p \<noteq> None \<and> lt_Role p \<noteq> Some ''owner'' then [] else rest);
          hasMore = limit < int (length rows);
          ss = summaries_of db (if hasMore then take (nat limit) rows else rows)
      in \<lparr>lr_Trees = ss, lr_NextCursor = next_cursor hasMore ss, lr_HasMore = hasMore,
          lr_Total = (if status = ''active'' \<and> \<not> hasSearch then tree_Count db else int (length rows)), lr_Limit = limit\<rparr>)"

definition ListTrees :: "tree_lib \<Rightarrow> graph_db \<Rightarrow> list_trees_params \<Rightarrow> svc_error + list_trees_result" where
  "ListTrees lib db p =
     (case validateListTrees p of Some e \<Rightarrow> Inl e
      | None \<Rightarrow>
          (let limit = clampLimit (lt_Limit p);
               status = (if lt_Status p = [] then ''active'' else lt_Status p);
               order = (if lt_Sort p = [] then ''created_desc'' else lt_Sort p);
               hasSearch = (trim_space (lt_Search p) \<noteq> [])
           in Inr (if status = ''active'' \<and> \<not> hasSearch \<and> order = ''created_desc'' then listTreesKeyset db p limit
                   else list_legacy lib db p status order hasSearch limit)))"

section \<open>Details, updates and deletion\<close>

definition computeStats :: "graph_db \<Rightarrow> tree_row \<Rightarrow> tree_stats" where
  "computeStats db t =
     (let ns = tree_nodes db (tr_ID t)
      in \<lparr>sts_NodeCount = int (length ns),
          sts_MemberCount = int (length (filter (\<lambda>m. tm_TreeID m = tr_ID t) (g_members db))),
          sts_BranchCount = int (length (dedup_by id [] (List.map_filter n_ParentID ns))),
          sts_MaxDepth =
            (case tr_RootNodeID t of None \<Rightarrow> 1
             | Some r \<Rightarrow>
                 max_depth_of (recursive_query (\<lambda>n. filter (\<lambda>m. n_ParentID m = Some (n_ID n) \<and> n_active m) (g_nodes db))
                   depth_guard 0 (filter (\<lambda>n. n_ID n = r \<and> n_active n) (g_nodes db))) + 1),
          sts_PendingApprovals = 0\<rparr>)"

definition tree_missing :: "graph_db \<Rightarrow> uuid \<Rightarrow> svc_error" where
  "tree_missing db i =
     (case find (\<lambda>t. tr_ID t = i \<and> \<not> tr_active t) (g_trees db) of Some t \<Rightarrow> TreeDeleted (tr_DeletedAt t) | None \<Rightarrow> TreeMissing)"

definition GetTree :: "tree_lib \<Rightarrow> graph_db \<Rightarrow> uuid \<Rightarrow> get_tree_options \<Rightarrow> svc_error + tree_detail" where
  "GetTree lib db i opts =
     (if i = uuid_Nil then Inl TreeMissing
      else case tree_GetByID db i of None \<Rightarrow> Inl (tree_missing db i)
      | Some t \<Rightarrow>
          (let stats = computeStats db t; s = treeToSummary t;
               counted = hd (fillMemberCounts db (fillNodeCounts db [s]))
           in Inr \<lparr>td_Summary = (if go_IncludeStats opts
                      then s\<lparr>ts_NodeCount := sts_NodeCount stats, ts_MemberCount := sts_MemberCount stats\<rparr>
                      else s\<lparr>ts_NodeCount := ts_NodeCount counted, ts_MemberCount := ts_MemberCount counted\<rparr>),
                   td_Stats = (if go_IncludeStats opts then Some stats else None),
                   td_Members = (if go_IncludeMembers opts then Some [] else None),
                   td_Related = (if go_IncludeRelated opts then extractRelated lib db (tr_Metadata t) else None)\<rparr>))"

definition svc_DeleteTree :: "instant \<Rightarrow> uuid \<Rightarrow> graph_db \<Rightarrow> svc_error + instant \<times> graph_db" where
  "svc_DeleteTree now i db =
     (if i = uuid_Nil then Inl TreeMissing
      else case tree_SoftDelete now db i of
        None \<Rightarrow> Inl (if has_tree db i then TreeAlreadyDeleted else TreeMissing)
      | Some db' \<Rightarrow> Inr (now, db'))"

text \<open>\<open>UpdateTree\<close> reads the row, changes the copy, and writes all of it back: two statements.\<close>

definition UpdateTree_read :: "uuid \<Rightarrow> string option \<Rightarrow> string option \<Rightarrow> graph_db \<Rightarrow> svc_error + tree_row" where
  "UpdateTree_read i title description db =
     (if i = uuid_Nil then Inl TreeMissing
      else case tree_GetByID db i of None \<Rightarrow> Inl TreeMissing
      | Some t \<Rightarrow>
          (let titled = (case title of None \<Rightarrow> Inr t
             | Some s \<Rightarrow> (let s' = trim_space s
                 in if s' = [] then Inl TitleRequired else if 200 < rune_count s' then Inl TitleTooLong
                    else Inr (t\<lparr>tr_Title := s'\<rparr>)))
           in case titled of Inl e \<Rightarrow> Inl e
              | Inr t1 \<Rightarrow> (case description of None \<Rightarrow> Inr t1
                 | Some d \<Rightarrow> if 2000 < rune_count d then Inl DescriptionTooLong else Inr (t1\<lparr>tr_Description := d\<rparr>))))"

definition UpdateTree_write :: "instant \<Rightarrow> tree_row \<Rightarrow> graph_db \<Rightarrow> svc_error + svc_tree \<times> graph_db" where
  "UpdateTree_write now t db =
     (case tree_Update now db t of Inl e \<Rightarrow> Inl (DatabaseUnavailable ''update tree'')
      | Inr (t', db') \<Rightarrow>
          Inr (\<lparr>st_ID = tr_ID t', st_Title = tr_Title t', st_Description = tr_Description t', st_OwnerID = tr_OwnerID t',
                 st_RootNodeID = (case tr_RootNodeID t' of Some r \<Rightarrow> r | None \<Rightarrow> uuid_Nil), st_NodeCount = 1,
                 st_MemberCount = int (length (filter (\<lambda>m. tm_TreeID m = tr_ID t') (g_members db'))),
                 st_CreatedAt = tr_CreatedAt t', st_UpdatedAt = coalesceTime (tr_EditedAt t') (tr_CreatedAt t'),
                 st_Role = ''owner''\<rparr>, db'))"

definition UpdateTree :: "instant \<Rightarrow> uuid \<Rightarrow> string option \<Rightarrow> string option \<Rightarrow> graph_db \<Rightarrow> svc_error + svc_tree \<times> graph_db" where
  "UpdateTree now i title description db =
     (case UpdateTree_read i title description db of Inl e \<Rightarrow> Inl e | Inr t \<Rightarrow> UpdateTree_write now t db)"

definition UpdateTreeMetadata :: "instant \<Rightarrow> uuid \<Rightarrow> raw_message \<Rightarrow> graph_db \<Rightarrow> svc_error + graph_db" where
  "UpdateTreeMetadata now i metadata db =
     (if i = uuid_Nil then Inl TreeMissing
      else if tree_GetByID db i = None then Inl TreeMissing
      else case stored_metadata metadata of None \<Rightarrow> Inl (DatabaseUnavailable ''update tree metadata'')
      | Some j \<Rightarrow> Inr (update_tree i (\<lambda>t. t\<lparr>tr_Metadata := j, tr_EditedAt := Some now\<rparr>) db))"

end
