(* ===== verification/Tree_Graph.thy ===== *)
theory Tree_Graph
  imports Reference_Reply Tree_Service
begin

text \<open>
  What the services promise of the conversation graph, without contents: trees with a root,
  vertices with a display parent, a parent mode and a place in their tree's sequence, and typed
  arcs. \<open>skeleton\<close> abstracts the tables; \<open>skel_step\<close> is the specification, in which a graph only
  grows by a tree with its root or by a vertex with its parent arcs. The calls of the four
  services are shown to be such steps or to leave the skeleton alone.
\<close>

section \<open>Specification\<close>

record vertex =
  v_ID :: uuid
  v_Tree :: uuid
  v_Parent :: "uuid option"
  v_Mode :: string
  v_Type :: string
  v_Seq :: int
  v_Author :: uuid
  v_CreatedAt :: instant

record arc =
  a_Source :: uuid
  a_Target :: uuid
  a_Type :: string
  a_Tree :: uuid

record skeleton =
  sk_roots :: "(uuid \<times> uuid option) list"
  sk_vertices :: "vertex list"
  sk_arcs :: "arc list"

definition arcs_into :: "arc list \<Rightarrow> uuid \<Rightarrow> arc list" where
  "arcs_into as i = filter (\<lambda>a. a_Target a = i) as"

text \<open>The parent arcs a vertex has, by its mode and type.\<close>

definition reference_parents :: "vertex \<Rightarrow> arc list \<Rightarrow> bool" where
  "reference_parents v as \<longleftrightarrow> v_Type v = ''message'' \<and> 2 \<le> length as \<and> length as \<le> 20
     \<and> (\<forall>a \<in> set as. a_Type a = ''reference'') \<and> distinct (map a_Source as)
     \<and> (\<exists>p \<in> a_Source ` set as. v_Parent v = Some p)"

definition synthesis_parents :: "vertex \<Rightarrow> arc list \<Rightarrow> bool" where
  "synthesis_parents v as \<longleftrightarrow>
     (case as of [] \<Rightarrow> False
      | a # ss \<Rightarrow> a_Type a = ''reply'' \<and> v_Parent v = Some (a_Source a) \<and> 2 \<le> length ss \<and> length ss \<le> 100
          \<and> (\<forall>s \<in> set ss. a_Type s = ''synthesis'') \<and> distinct (map a_Source as))"

definition lineage_parents :: "vertex \<Rightarrow> arc list \<Rightarrow> bool" where
  "lineage_parents v as \<longleftrightarrow>
     (case v_Parent v of None \<Rightarrow> as = []
      | Some p \<Rightarrow> (case as of [a] \<Rightarrow> a_Source a = p \<and> a_Type a \<in> {''reply'', ''fork''} | _ \<Rightarrow> False))"

definition parents_ok :: "vertex \<Rightarrow> arc list \<Rightarrow> bool" where
  "parents_ok v as \<longleftrightarrow>
     (if v_Mode v = ''multi_reference'' then reference_parents v as
      else if v_Type v = ''synthesis'' then synthesis_parents v as
      else v_Type v = ''message'' \<and> lineage_parents v as)"

text \<open>A parent comes before its child in the sequence of the same tree.\<close>

definition before :: "vertex \<Rightarrow> vertex \<Rightarrow> bool" where
  "before u v \<longleftrightarrow> v_Tree u = v_Tree v \<and> v_Seq u < v_Seq v"

definition vertex_ok :: "skeleton \<Rightarrow> vertex \<Rightarrow> bool" where
  "vertex_ok sk v \<longleftrightarrow> v_Tree v \<in> fst ` set (sk_roots sk) \<and> 1 \<le> v_Seq v
     \<and> (\<forall>p. v_Parent v = Some p \<longrightarrow> (\<exists>u \<in> set (sk_vertices sk). v_ID u = p \<and> before u v))
     \<and> parents_ok v (arcs_into (sk_arcs sk) (v_ID v))"

definition arc_ok :: "skeleton \<Rightarrow> arc \<Rightarrow> bool" where
  "arc_ok sk a \<longleftrightarrow> (\<exists>u \<in> set (sk_vertices sk). \<exists>v \<in> set (sk_vertices sk).
     v_ID u = a_Source a \<and> v_ID v = a_Target a \<and> before u v \<and> v_Tree v = a_Tree a)"

definition root_ok :: "skeleton \<Rightarrow> uuid \<times> uuid option \<Rightarrow> bool" where
  "root_ok sk r \<longleftrightarrow> (\<exists>v \<in> set (sk_vertices sk). snd r = Some (v_ID v) \<and> v_Tree v = fst r \<and> v_Parent v = None)"

definition skel_ok :: "skeleton \<Rightarrow> bool" where
  "skel_ok sk \<longleftrightarrow> distinct (map fst (sk_roots sk)) \<and> distinct (map v_ID (sk_vertices sk))
     \<and> distinct (map (\<lambda>v. (v_Tree v, v_Seq v)) (sk_vertices sk))
     \<and> (\<forall>v \<in> set (sk_vertices sk). vertex_ok sk v) \<and> (\<forall>a \<in> set (sk_arcs sk). arc_ok sk a)
     \<and> (\<forall>r \<in> set (sk_roots sk). root_ok sk r)"

text \<open>A vertex that can be added: fresh, in a tree, last in its sequence, with its parents in place.\<close>

definition addable :: "skeleton \<Rightarrow> vertex \<Rightarrow> arc list \<Rightarrow> bool" where
  "addable sk v as \<longleftrightarrow> v_ID v \<notin> v_ID ` set (sk_vertices sk) \<and> v_Tree v \<in> fst ` set (sk_roots sk) \<and> 1 \<le> v_Seq v
     \<and> (\<forall>u \<in> set (sk_vertices sk). v_Tree u = v_Tree v \<longrightarrow> v_Seq u < v_Seq v)
     \<and> (\<forall>p. v_Parent v = Some p \<longrightarrow> (\<exists>u \<in> set (sk_vertices sk). v_ID u = p \<and> v_Tree u = v_Tree v))
     \<and> (\<forall>a \<in> set as. a_Target a = v_ID v \<and> a_Tree a = v_Tree v
          \<and> (\<exists>u \<in> set (sk_vertices sk). v_ID u = a_Source a \<and> v_Tree u = v_Tree v))
     \<and> parents_ok v as"

definition add_vertex :: "vertex \<Rightarrow> arc list \<Rightarrow> skeleton \<Rightarrow> skeleton" where
  "add_vertex v as sk = sk\<lparr>sk_vertices := sk_vertices sk @ [v], sk_arcs := sk_arcs sk @ as\<rparr>"

definition add_tree :: "vertex \<Rightarrow> skeleton \<Rightarrow> skeleton" where
  "add_tree v sk = sk\<lparr>sk_roots := sk_roots sk @ [(v_Tree v, Some (v_ID v))], sk_vertices := sk_vertices sk @ [v]\<rparr>"

inductive skel_step :: "skeleton \<Rightarrow> skeleton \<Rightarrow> bool" where
  grow: "addable sk v as \<Longrightarrow> skel_step sk (add_vertex v as sk)"
| plant: "v_Tree v \<notin> fst ` set (sk_roots sk) \<Longrightarrow> v_ID v \<notin> v_ID ` set (sk_vertices sk) \<Longrightarrow> 1 \<le> v_Seq v \<Longrightarrow>
    v_Parent v = None \<Longrightarrow> parents_ok v [] \<Longrightarrow> skel_step sk (add_tree v sk)"

inductive_cases skel_stepE: "skel_step sk sk'"

section \<open>The specification keeps the graph well formed\<close>

lemma arcs_into_append [simp]: "arcs_into (as @ bs) i = arcs_into as i @ arcs_into bs i"
  by (simp add: arcs_into_def)

lemma arcs_into_all: "\<forall>a \<in> set as. a_Target a = i \<Longrightarrow> arcs_into as i = as"
  by (simp add: arcs_into_def)

lemma arcs_into_none: "\<forall>a \<in> set as. a_Target a \<noteq> i \<Longrightarrow> arcs_into as i = []"
  by (simp add: arcs_into_def filter_empty_conv)

lemma skel_okD:
  assumes "skel_ok sk"
  shows "distinct (map fst (sk_roots sk))" "distinct (map v_ID (sk_vertices sk))"
    "distinct (map (\<lambda>v. (v_Tree v, v_Seq v)) (sk_vertices sk))"
    "v \<in> set (sk_vertices sk) \<Longrightarrow> vertex_ok sk v" "a \<in> set (sk_arcs sk) \<Longrightarrow> arc_ok sk a"
    "r \<in> set (sk_roots sk) \<Longrightarrow> root_ok sk r"
  using assms by (simp_all add: skel_ok_def)

lemma skel_okI:
  assumes "distinct (map fst (sk_roots sk))" "distinct (map v_ID (sk_vertices sk))"
    "distinct (map (\<lambda>v. (v_Tree v, v_Seq v)) (sk_vertices sk))"
    "\<And>v. v \<in> set (sk_vertices sk) \<Longrightarrow> vertex_ok sk v" "\<And>a. a \<in> set (sk_arcs sk) \<Longrightarrow> arc_ok sk a"
    "\<And>r. r \<in> set (sk_roots sk) \<Longrightarrow> root_ok sk r"
  shows "skel_ok sk"
  using assms by (simp add: skel_ok_def)

lemma arc_ok_ends:
  assumes "arc_ok sk a"
  obtains u v where "u \<in> set (sk_vertices sk)" "v \<in> set (sk_vertices sk)" "v_ID u = a_Source a"
    "v_ID v = a_Target a" "before u v" "v_Tree v = a_Tree a"
  using assms unfolding arc_ok_def by (elim bexE conjE)

text \<open>No arc of a well-formed graph ends in an identifier that is not a vertex.\<close>

lemma arcs_into_fresh:
  assumes ok: "skel_ok sk" and fresh: "i \<notin> v_ID ` set (sk_vertices sk)"
  shows "arcs_into (sk_arcs sk) i = []"
proof (rule arcs_into_none, intro ballI notI)
  fix a assume a: "a \<in> set (sk_arcs sk)" "a_Target a = i"
  from skel_okD(5) [OF ok a(1)] obtain v where "v \<in> set (sk_vertices sk)" "v_ID v = a_Target a" by (rule arc_ok_ends)
  with a(2) fresh show False by (metis image_eqI)
qed

lemma vertex_ok_grow:
  assumes "vertex_ok sk v" and "fst ` set (sk_roots sk) \<subseteq> fst ` set (sk_roots sk')"
    and "set (sk_vertices sk) \<subseteq> set (sk_vertices sk')"
    and "arcs_into (sk_arcs sk') (v_ID v) = arcs_into (sk_arcs sk) (v_ID v)"
  shows "vertex_ok sk' v"
proof -
  have "\<exists>u \<in> set (sk_vertices sk'). v_ID u = p \<and> before u v" if "v_Parent v = Some p" for p
    using assms(1,3) that unfolding vertex_ok_def by (meson subsetD)
  moreover have "v_Tree v \<in> fst ` set (sk_roots sk')" using assms(1,2) unfolding vertex_ok_def by (meson subsetD)
  ultimately show ?thesis using assms(1,4) by (simp add: vertex_ok_def)
qed

lemma arc_ok_grow: "arc_ok sk a \<Longrightarrow> set (sk_vertices sk) \<subseteq> set (sk_vertices sk') \<Longrightarrow> arc_ok sk' a"
  unfolding arc_ok_def by blast

lemma root_ok_grow: "root_ok sk r \<Longrightarrow> set (sk_vertices sk) \<subseteq> set (sk_vertices sk') \<Longrightarrow> root_ok sk' r"
  unfolding root_ok_def by blast

lemma add_vertex_ok:
  assumes ok: "skel_ok sk" and add: "addable sk v as"
  shows "skel_ok (add_vertex v as sk)"
proof (rule skel_okI)
  let ?sk = "add_vertex v as sk"
  have fresh: "v_ID v \<notin> v_ID ` set (sk_vertices sk)" and tree: "v_Tree v \<in> fst ` set (sk_roots sk)" and seq: "1 \<le> v_Seq v"
    and last: "\<And>u. u \<in> set (sk_vertices sk) \<Longrightarrow> v_Tree u = v_Tree v \<Longrightarrow> v_Seq u < v_Seq v"
    and par: "\<And>p. v_Parent v = Some p \<Longrightarrow> \<exists>u \<in> set (sk_vertices sk). v_ID u = p \<and> v_Tree u = v_Tree v"
    and targets: "\<And>a. a \<in> set as \<Longrightarrow> a_Target a = v_ID v \<and> a_Tree a = v_Tree v"
    and sources: "\<And>a. a \<in> set as \<Longrightarrow> \<exists>u \<in> set (sk_vertices sk). v_ID u = a_Source a \<and> v_Tree u = v_Tree v"
    and parents: "parents_ok v as"
    using add by (simp_all add: addable_def)
  have sub: "set (sk_vertices sk) \<subseteq> set (sk_vertices ?sk)" by (simp add: add_vertex_def subset_insertI)
  have roots: "sk_roots ?sk = sk_roots sk" by (simp add: add_vertex_def)
  show "distinct (map fst (sk_roots ?sk))" using skel_okD(1) [OF ok] roots by simp
  show "distinct (map v_ID (sk_vertices ?sk))" using skel_okD(2) [OF ok] fresh by (simp add: add_vertex_def)
  show "distinct (map (\<lambda>u. (v_Tree u, v_Seq u)) (sk_vertices ?sk))"
    using skel_okD(3) [OF ok] last by (fastforce simp add: add_vertex_def)
  show "root_ok ?sk r" if "r \<in> set (sk_roots ?sk)" for r
    using skel_okD(6) [OF ok] that sub roots root_ok_grow by metis
  show "arc_ok ?sk a" if "a \<in> set (sk_arcs ?sk)" for a
  proof (cases "a \<in> set (sk_arcs sk)")
    case True
    then show ?thesis using skel_okD(5) [OF ok] sub arc_ok_grow by metis
  next
    case False
    with that have a: "a \<in> set as" by (simp add: add_vertex_def)
    obtain u where "u \<in> set (sk_vertices sk)" "v_ID u = a_Source a" "v_Tree u = v_Tree v" using sources [OF a] by blast
    with targets [OF a] last [of u] show ?thesis unfolding arc_ok_def before_def by (simp add: add_vertex_def) metis
  qed
  show "vertex_ok ?sk u" if "u \<in> set (sk_vertices ?sk)" for u
  proof (cases "u \<in> set (sk_vertices sk)")
    case True
    with fresh have "v_ID u \<noteq> v_ID v" by (metis image_eqI)
    then have "arcs_into as (v_ID u) = []" by (intro arcs_into_none ballI) (simp add: targets)
    then have "arcs_into (sk_arcs ?sk) (v_ID u) = arcs_into (sk_arcs sk) (v_ID u)" by (simp add: add_vertex_def)
    with True show ?thesis by (intro vertex_ok_grow [OF skel_okD(4) [OF ok] _ sub]) (simp_all add: roots)
  next
    case False
    with that have u: "u = v" by (simp add: add_vertex_def)
    have "arcs_into (sk_arcs ?sk) (v_ID v) = as"
      using arcs_into_fresh [OF ok fresh] targets by (simp add: add_vertex_def arcs_into_all)
    moreover have "\<exists>w \<in> set (sk_vertices ?sk). v_ID w = p \<and> before w v" if p: "v_Parent v = Some p" for p
    proof -
      obtain w where "w \<in> set (sk_vertices sk)" "v_ID w = p" "v_Tree w = v_Tree v" using par [OF p] by blast
      with last [of w] show ?thesis unfolding before_def by (intro bexI [of _ w]) (simp_all add: add_vertex_def)
    qed
    ultimately show ?thesis using tree seq parents unfolding u vertex_ok_def by (simp add: roots)
  qed
qed

lemma add_tree_ok:
  assumes ok: "skel_ok sk" and fresh: "v_Tree v \<notin> fst ` set (sk_roots sk)" "v_ID v \<notin> v_ID ` set (sk_vertices sk)"
    and v: "1 \<le> v_Seq v" "v_Parent v = None" "parents_ok v []"
  shows "skel_ok (add_tree v sk)"
proof (rule skel_okI)
  let ?sk = "add_tree v sk"
  have sub: "set (sk_vertices sk) \<subseteq> set (sk_vertices ?sk)" and arcs: "sk_arcs ?sk = sk_arcs sk"
    and roots: "fst ` set (sk_roots sk) \<subseteq> fst ` set (sk_roots ?sk)"
    by (simp_all add: add_tree_def subset_insertI)
  have other: "v_Tree u \<noteq> v_Tree v" if "u \<in> set (sk_vertices sk)" for u
    using skel_okD(4) [OF ok that] fresh(1) by (metis vertex_ok_def)
  show "distinct (map fst (sk_roots ?sk))" using skel_okD(1) [OF ok] fresh(1) by (simp add: add_tree_def)
  show "distinct (map v_ID (sk_vertices ?sk))" using skel_okD(2) [OF ok] fresh(2) by (simp add: add_tree_def)
  show "distinct (map (\<lambda>u. (v_Tree u, v_Seq u)) (sk_vertices ?sk))"
    using skel_okD(3) [OF ok] other by (fastforce simp add: add_tree_def)
  show "root_ok ?sk r" if r: "r \<in> set (sk_roots ?sk)" for r
  proof (cases "r \<in> set (sk_roots sk)")
    case True
    then show ?thesis by (rule root_ok_grow [OF skel_okD(6) [OF ok] sub])
  next
    case False
    with r v(2) show ?thesis by (simp add: root_ok_def add_tree_def)
  qed
  show "arc_ok ?sk a" if "a \<in> set (sk_arcs ?sk)" for a
    using that arcs by (intro arc_ok_grow [OF skel_okD(5) [OF ok] sub]) simp
  show "vertex_ok ?sk u" if u: "u \<in> set (sk_vertices ?sk)" for u
  proof (cases "u \<in> set (sk_vertices sk)")
    case True
    then show ?thesis by (intro vertex_ok_grow [OF skel_okD(4) [OF ok] roots sub]) (simp_all add: arcs)
  next
    case False
    with u have "u = v" by (simp add: add_tree_def)
    with v arcs_into_fresh [OF ok fresh(2)] show ?thesis by (simp add: vertex_ok_def add_tree_def)
  qed
qed

lemma skel_step_ok: "skel_step sk sk' \<Longrightarrow> skel_ok sk \<Longrightarrow> skel_ok sk'"
  by (erule skel_stepE) (simp_all add: add_vertex_ok add_tree_ok)

text \<open>Rows are only appended.\<close>

definition extends :: "skeleton \<Rightarrow> skeleton \<Rightarrow> bool" where
  "extends sk sk' \<longleftrightarrow> (\<exists>rs vs as. sk_roots sk' = sk_roots sk @ rs \<and> sk_vertices sk' = sk_vertices sk @ vs \<and> sk_arcs sk' = sk_arcs sk @ as)"

lemma extends_refl: "extends sk sk"
  by (simp add: extends_def)

lemma extends_trans: "extends a b \<Longrightarrow> extends b c \<Longrightarrow> extends a c"
  unfolding extends_def by (metis append.assoc)

lemma skel_step_extends: "skel_step sk sk' \<Longrightarrow> extends sk sk'"
  by (erule skel_stepE) (simp_all add: extends_def add_vertex_def add_tree_def)

interpretation graph_spec: evolving skel_step skel_ok extends
  by unfold_locales (auto intro: skel_step_ok skel_step_extends extends_refl extends_trans)

end
