(* ===== verification/Tree_Lifecycle.thy ===== *)
theory Tree_Lifecycle
  imports Tree_Graph
begin

text \<open>
  The calls of the tree, node, merge and multi-reference services as steps over the tables, and
  what every history of calls keeps: the specification of \<open>Tree_Graph\<close> on the skeleton of the
  tables, and the immutability of deleted rows.
\<close>

section \<open>The skeleton of the tables\<close>

definition vertex_of :: "node \<Rightarrow> vertex" where
  "vertex_of n = \<lparr>v_ID = n_ID n, v_Tree = n_TreeID n, v_Parent = n_ParentID n, v_Mode = n_ParentMode n,
     v_Type = n_NodeType n, v_Seq = n_SequenceNum n, v_Author = n_AuthorID n, v_CreatedAt = n_CreatedAt n\<rparr>"

definition arc_of :: "edge_row \<Rightarrow> arc" where
  "arc_of e = \<lparr>a_Source = e_SourceID e, a_Target = e_TargetID e, a_Type = e_EdgeType e, a_Tree = e_TreeID e\<rparr>"

definition skeleton :: "graph_db \<Rightarrow> skeleton" where
  "skeleton db = \<lparr>sk_roots = map (\<lambda>t. (tr_ID t, tr_RootNodeID t)) (g_trees db),
     sk_vertices = map vertex_of (g_nodes db), sk_arcs = map arc_of (g_edges db)\<rparr>"

lemma skeleton_simps [simp]:
  "sk_roots (skeleton db) = map (\<lambda>t. (tr_ID t, tr_RootNodeID t)) (g_trees db)"
  "sk_vertices (skeleton db) = map vertex_of (g_nodes db)" "sk_arcs (skeleton db) = map arc_of (g_edges db)"
  by (simp_all add: skeleton_def)

lemma vertex_of_simps [simp]:
  "v_ID (vertex_of n) = n_ID n" "v_Tree (vertex_of n) = n_TreeID n" "v_Parent (vertex_of n) = n_ParentID n"
  "v_Mode (vertex_of n) = n_ParentMode n" "v_Type (vertex_of n) = n_NodeType n" "v_Seq (vertex_of n) = n_SequenceNum n"
  by (simp_all add: vertex_of_def)

lemma arc_of_simps [simp]:
  "a_Source (arc_of e) = e_SourceID e" "a_Target (arc_of e) = e_TargetID e" "a_Type (arc_of e) = e_EdgeType e"
  "a_Tree (arc_of e) = e_TreeID e"
  by (simp_all add: arc_of_def)

lemma has_tree_roots: "has_tree db t \<longleftrightarrow> t \<in> fst ` set (sk_roots (skeleton db))"
  by (auto simp: has_tree_def list_ex_iff image_image)

lemma has_node_vertices: "has_node db i \<longleftrightarrow> i \<in> v_ID ` set (sk_vertices (skeleton db))"
  by (auto simp: has_node_def list_ex_iff image_image)

section \<open>Rows the statements write\<close>

lemma max_fold_ge: "x \<in> set xs \<Longrightarrow> x \<le> fold max xs (a :: int)" "a \<le> fold max xs (a :: int)"
proof -
  have base: "a \<le> fold max xs a" for xs and a :: int
    by (induction xs arbitrary: a) (simp_all, meson le_max_iff_disj order.trans max.cobounded2)
  show "a \<le> fold max xs a" by (rule base)
  show "x \<in> set xs \<Longrightarrow> x \<le> fold max xs a"
    by (induction xs arbitrary: a) (auto intro: order_trans [OF _ base])
qed

lemma next_node_seq_bound:
  "1 \<le> next_node_seq db t" "n \<in> set (g_nodes db) \<Longrightarrow> n_TreeID n = t \<Longrightarrow> n_SequenceNum n < next_node_seq db t"
  using max_fold_ge(2) [of 0 "map n_SequenceNum (filter (\<lambda>n. n_TreeID n = t) (g_nodes db))"]
    max_fold_ge(1) [of "n_SequenceNum n" "map n_SequenceNum (filter (\<lambda>n. n_TreeID n = t) (g_nodes db))" 0]
  by (auto simp: next_node_seq_def)

lemma insert_nodeD:
  assumes "insert_node n db = Inr db'"
  shows "db' = db\<lparr>g_nodes := g_nodes db @ [n]\<rparr>" "node_checks n" "\<not> has_node db (n_ID n)" "has_tree db (n_TreeID n)"
  using assms by (auto simp: insert_node_def split: if_splits)

lemma insert_edgeD:
  assumes "insert_edge e db = Inr db'"
  shows "db' = db\<lparr>g_edges := g_edges db @ [e]\<rparr>" "edge_checks e" "\<forall>r \<in> set (g_edges db). \<not> same_edge r e"
  using assms by (auto simp: insert_edge_def list_ex_iff split: if_splits)

lemma node_at_mem: "node_at db i = Some n \<Longrightarrow> n \<in> set (g_nodes db) \<and> n_ID n = i"
  by (auto simp: node_at_def find_Some_iff)

lemma node_GetByID_mem: "node_GetByID db i = Some n \<Longrightarrow> n \<in> set (g_nodes db) \<and> n_ID n = i \<and> n_active n"
  by (auto simp: node_GetByID_def find_Some_iff)

text \<open>A node of the tree, the way the services check it.\<close>

definition in_tree :: "graph_db \<Rightarrow> uuid \<Rightarrow> uuid \<Rightarrow> bool" where
  "in_tree db t i \<longleftrightarrow> (\<exists>n \<in> set (g_nodes db). n_ID n = i \<and> n_TreeID n = t)"

lemma in_treeI: "node_GetByID db i = Some n \<Longrightarrow> in_tree db (n_TreeID n) i" "node_at db i = Some n \<Longrightarrow> in_tree db (n_TreeID n) i"
  unfolding in_tree_def using node_GetByID_mem node_at_mem by metis+

text \<open>A new last node of a tree with its edges is a step of the specification.\<close>

lemma grow_node:
  assumes n: "insert_node n db = Inr db1" "n_SequenceNum n = next_node_seq db (n_TreeID n)"
    and parent: "\<And>p. n_ParentID n = Some p \<Longrightarrow> in_tree db (n_TreeID n) p"
    and rows: "\<And>e. e \<in> set es \<Longrightarrow> e_TargetID e = n_ID n \<and> e_TreeID e = n_TreeID n \<and> in_tree db (n_TreeID n) (e_SourceID e)"
    and parents: "parents_ok (vertex_of n) (map arc_of es)"
  shows "skel_step (skeleton db) (skeleton (db1\<lparr>g_edges := g_edges db1 @ es\<rparr>))"
proof -
  have "addable (skeleton db) (vertex_of n) (map arc_of es)"
    using insert_nodeD(3,4) [OF n(1)] n(2) next_node_seq_bound parent rows parents
    by (simp add: addable_def has_tree_roots has_node_vertices in_tree_def)
  moreover have "skeleton (db1\<lparr>g_edges := g_edges db1 @ es\<rparr>) = add_vertex (vertex_of n) (map arc_of es) (skeleton db)"
    using insert_nodeD(1) [OF n(1)] by (simp add: skeleton_def add_vertex_def)
  ultimately show ?thesis by (simp add: skel_step.grow)
qed

section \<open>Creation of nodes\<close>

lemma svc_CreateNodeE:
  assumes "svc_CreateNode lib ctx newIDs now treeID input db = Inr (r, effs, db')"
  obtains metadata db1 depth where "validateCreateInput lib input = None" "stored_metadata (cn_Metadata input) = Some metadata"
    "check_parent db treeID (cn_ParentID input) = Inr depth"
    "insert_node (new_node_row (fst newIDs) now treeID input metadata db) db = Inr db1"
    "insert_parent_edge (snd newIDs) now treeID input (fst newIDs) db1 = Inr (snd r, db')"
    "nd_Node (fst r) = new_node_row (fst newIDs) now treeID input metadata db" "nd_Depth (fst r) = depth + 1"
  using assms
  by (simp add: svc_CreateNode_def insert_created_def Let_def split: if_splits option.splits sum.splits prod.splits)
    (auto simp: nodeToDetail_def)

lemma insert_parent_edgeE:
  assumes "insert_parent_edge newID now treeID input nodeID db = Inr (edge, db')"
  obtains (root) "cn_ParentID input = uuid_Nil" "edge = None" "db' = db"
  | (child) e where "cn_ParentID input \<noteq> uuid_Nil" "edge = Some e" "db' = db\<lparr>g_edges := g_edges db @ [e]\<rparr>"
      "e_SourceID e = cn_ParentID input" "e_TargetID e = nodeID" "e_TreeID e = treeID"
      "e_EdgeType e = or_default ''reply'' (cn_EdgeType input)" "e_active e"
  using assms
  by (simp add: insert_parent_edge_def Let_def split: if_splits sum.splits)
    (auto simp: new_edge_row_def e_active_def dest: insert_edgeD)

lemma validateCreateInputD:
  assumes "validateCreateInput lib input = None"
  shows "or_default ''message'' (cn_NodeType input) = ''message''"
    "or_default ''reply'' (cn_EdgeType input) \<in> {''reply'', ''fork''}"
  using assms by (auto simp: validateCreateInput_def Let_def db_node_types_def split: if_splits)

lemma check_parent_in_tree: "check_parent db treeID p = Inr d \<Longrightarrow> p \<noteq> uuid_Nil \<Longrightarrow> in_tree db treeID p"
  using in_treeI(1) by (auto simp: check_parent_def split: option.splits if_splits)

lemma new_node_row_simps [simp]:
  "n_ID (new_node_row i now t input m db) = i" "n_TreeID (new_node_row i now t input m db) = t"
  "n_ParentID (new_node_row i now t input m db) = nullableUUID (cn_ParentID input)"
  "n_ParentMode (new_node_row i now t input m db) = ''lineage''"
  "n_NodeType (new_node_row i now t input m db) = or_default ''message'' (cn_NodeType input)"
  "n_SequenceNum (new_node_row i now t input m db) = next_node_seq db t"
  "n_DeletedAt (new_node_row i now t input m db) = None"
  by (simp_all add: new_node_row_def)

lemma create_node_step:
  assumes "svc_CreateNode lib ctx newIDs now treeID input db = Inr (r, effs, db')"
  shows "skel_step (skeleton db) (skeleton db')"
  using assms
proof (rule svc_CreateNodeE)
  fix metadata db1 depth
  let ?n = "new_node_row (fst newIDs) now treeID input metadata db"
  assume v: "validateCreateInput lib input = None" and p: "check_parent db treeID (cn_ParentID input) = Inr depth"
    and n: "insert_node ?n db = Inr db1" and e: "insert_parent_edge (snd newIDs) now treeID input (fst newIDs) db1 = Inr (snd r, db')"
  note vs = validateCreateInputD [OF v]
  from e show ?thesis
  proof (cases rule: insert_parent_edgeE)
    case root
    then show ?thesis
      using grow_node [OF n, of "[]"] vs by (simp add: nullableUUID_def parents_ok_def lineage_parents_def)
  next
    case (child e)
    then show ?thesis
      using grow_node [OF n, of "[e]"] vs check_parent_in_tree [OF p]
      by (simp add: nullableUUID_def parents_ok_def lineage_parents_def)
  qed
qed

section \<open>Merges\<close>

text \<open>The edges appended by a sequence of inserts: the planned ones, with no repetition.\<close>

lemma insert_edges_rows:
  assumes "insert_edges newID k now treeID target sq plan db = Inr (rows, db')"
  shows "db' = db\<lparr>g_edges := g_edges db @ rows\<rparr> \<and> map (\<lambda>e. (e_SourceID e, e_EdgeType e)) rows = plan
    \<and> (\<forall>e \<in> set rows. e_TargetID e = target \<and> e_TreeID e = treeID \<and> e_active e)
    \<and> distinct plan \<and> (\<forall>e \<in> set rows. \<forall>r \<in> set (g_edges db). \<not> same_edge r e)"
  using assms
proof (induction plan arbitrary: k sq db rows)
  case (Cons a plan)
  obtain src ty where a: "a = (src, ty)" by (cases a)
  define row where "row = new_edge_row (newID k) now treeID src target ty sq"
  obtain db1 rows1 where ins: "insert_edge row db = Inr db1"
    and rest: "insert_edges newID (Suc k) now treeID target (sq + 1) plan db1 = Inr (rows1, db')" and rows: "rows = row # rows1"
    using Cons.prems by (auto simp: a row_def Let_def split: sum.splits)
  note db1 = insert_edgeD [OF ins]
  have row [simp]: "e_SourceID row = src" "e_EdgeType row = ty" "e_TargetID row = target" "e_TreeID row = treeID" "e_active row"
    by (simp_all add: row_def new_edge_row_def e_active_def)
  note IH = Cons.IH [OF rest]
  have "(src, ty) \<notin> set plan"
  proof
    have plan: "set plan = (\<lambda>e. (e_SourceID e, e_EdgeType e)) ` set rows1" using IH by (metis list.set_map)
    assume "(src, ty) \<in> set plan"
    then obtain e where "e \<in> set rows1" "e_SourceID e = src" "e_EdgeType e = ty" unfolding plan by auto
    with IH db1(1) show False by (auto simp: same_edge_def)
  qed
  with IH db1 show ?case by (simp add: a rows)
qed simp

lemma CreateMergeE:
  assumes "CreateMerge lib ctx newID now treeID req db = Inr (r, effs, db')"
  obtains input target depth edges where "ToInput lib req = Inr input" "lockTreeRow db treeID = None"
    "resolveTargetParent lib db treeID input = Inr (target, depth)"
    "validateMergeSources lib db treeID (mi2_SourceNodeIDs input) = None"
    "insert_merge newID now treeID target (rc_requester ctx) input db
       = Inr ((synthesis_row (newID 0) now treeID target (rc_requester ctx) input db, edges), db')"
  using assms
  by (simp add: CreateMerge_def insert_merge_def Let_def split: if_splits option.splits sum.splits prod.splits)

lemma ToInput_count: "ToInput lib req = Inr input \<Longrightarrow> 2 \<le> length (mi2_SourceNodeIDs input) \<and> length (mi2_SourceNodeIDs input) \<le> 100"
proof -
  have len: "parse_ids f i raws = Inr ids \<Longrightarrow> length ids = length raws" for f i raws ids
    by (induction raws arbitrary: i ids) (auto split: option.splits if_splits sum.splits)
  have "check_source_ids lib raws = Inr ids \<Longrightarrow> 2 \<le> length ids \<and> length ids \<le> 100" for raws ids
    by (auto simp: check_source_ids_def split: option.splits if_splits sum.splits dest: len)
  then show "ToInput lib req = Inr input \<Longrightarrow> ?thesis"
    by (auto simp: ToInput_def Let_def split: sum.splits if_splits option.splits)
qed

lemma resolveTargetParentD:
  assumes "resolveTargetParent lib db treeID input = Inr (target, depth)"
  shows "target \<notin> set (mi2_SourceNodeIDs input)" "in_tree db treeID target"
  using assms in_treeI(2)
  by (auto simp: resolveTargetParent_def Let_def split: sum.splits if_splits option.splits)

lemma validateMergeSourcesD:
  "validateMergeSources lib db treeID ids = None \<Longrightarrow> i \<in> set ids \<Longrightarrow>
     in_tree db treeID i \<and> (\<exists>n. node_at db i = Some n \<and> n_active n)"
  by (induction ids) (auto simp: Let_def split: option.splits if_splits dest: in_treeI(2))

lemma synthesis_row_simps [simp]:
  "n_ID (synthesis_row i now t p a input db) = i" "n_TreeID (synthesis_row i now t p a input db) = t"
  "n_ParentID (synthesis_row i now t p a input db) = Some p" "n_ParentMode (synthesis_row i now t p a input db) = ''lineage''"
  "n_NodeType (synthesis_row i now t p a input db) = ''synthesis''"
  "n_SequenceNum (synthesis_row i now t p a input db) = next_node_seq db t"
  "n_DeletedAt (synthesis_row i now t p a input db) = None"
  by (simp_all add: synthesis_row_def)

lemma merge_step:
  assumes "CreateMerge lib ctx newID now treeID req db = Inr (r, effs, db')"
  shows "skel_step (skeleton db) (skeleton db')"
  using assms
proof (rule CreateMergeE)
  fix input target depth edges
  let ?n = "synthesis_row (newID 0) now treeID target (rc_requester ctx) input db"
  let ?ids = "mi2_SourceNodeIDs input"
  assume input: "ToInput lib req = Inr input" and target: "resolveTargetParent lib db treeID input = Inr (target, depth)"
    and sources: "validateMergeSources lib db treeID ?ids = None"
    and ins: "insert_merge newID now treeID target (rc_requester ctx) input db = Inr ((?n, edges), db')"
  obtain db1 where n: "insert_node ?n db = Inr db1"
    and edges: "insert_edges newID 1 now treeID (newID 0) (last_edge_seq db1 treeID + 1)
                  ((target, ''reply'') # map (\<lambda>i. (i, ''synthesis'')) ?ids) db1 = Inr (edges, db')"
    using ins by (auto simp: insert_merge_def Let_def split: sum.splits)
  note rows = insert_edges_rows [OF edges]
  obtain e es where es: "edges = e # es" "e_SourceID e = target" "e_EdgeType e = ''reply''"
    and plan: "map (\<lambda>e. (e_SourceID e, e_EdgeType e)) es = map (\<lambda>i. (i, ''synthesis'')) ?ids"
    using rows by auto
  have ids: "map e_SourceID es = ?ids" using arg_cong [OF plan, of "map fst"] by (simp add: comp_def)
  have dist: "distinct ?ids" using rows by (simp add: distinct_map inj_on_def)
  have len: "length es = length ?ids" using ids by (metis length_map)
  have src: "e_SourceID e' \<in> set ?ids \<and> e_EdgeType e' = ''synthesis''" if "e' \<in> set es" for e'
  proof -
    have "(e_SourceID e', e_EdgeType e') \<in> set (map (\<lambda>i. (i, ''synthesis'')) ?ids)"
      unfolding plan [symmetric] using that by simp
    then show ?thesis by auto
  qed
  have "parents_ok (vertex_of ?n) (map arc_of edges)"
    using ToInput_count [OF input] resolveTargetParentD(1) [OF target] dist ids len src
    by (simp add: parents_ok_def synthesis_parents_def es comp_def)
  moreover have "in_tree db treeID (e_SourceID e')" if "e' \<in> set edges" for e'
    using that es src resolveTargetParentD(2) [OF target] validateMergeSourcesD [OF sources] by auto
  ultimately have "skel_step (skeleton db) (skeleton (db1\<lparr>g_edges := g_edges db1 @ edges\<rparr>))"
    using rows resolveTargetParentD(2) [OF target] by (intro grow_node [OF n]) simp_all
  with rows show ?thesis by simp
qed

section \<open>Multi-reference replies\<close>

lemma check_sources_distinct:
  "check_sources t seen ids = None \<Longrightarrow> distinct ids \<and> set ids \<inter> set seen = {} \<and> t \<notin> set ids"
proof (induction ids arbitrary: seen)
  case (Cons i ids)
  then show ?case using Cons.IH [of "i # seen"] by (simp split: if_splits)
qed simp

lemma insert_reference_edges_rows:
  assumes "insert_reference_edges ustr newID now treeID target k sq sources db = Inr (rows, db')"
  shows "db' = db\<lparr>g_edges := g_edges db @ rows\<rparr> \<and> map e_SourceID rows = sources
    \<and> (\<forall>e \<in> set rows. e_TargetID e = target \<and> e_TreeID e = treeID \<and> e_active e \<and> e_EdgeType e = ''reference'')"
  using assms
proof (induction sources arbitrary: k sq db rows)
  case (Cons src sources)
  obtain row db1 rows1 where ins: "insert_edge row db = Inr db1"
    and rest: "insert_reference_edges ustr newID now treeID target (Suc k) (sq + 1) sources db1 = Inr (rows1, db')"
    and rows: "rows = row # rows1" "e_SourceID row = src" "e_TargetID row = target" "e_TreeID row = treeID" "e_active row"
      "e_EdgeType row = ''reference''"
    using Cons.prems by (auto simp: Let_def e_active_def split: sum.splits)
  show ?case using Cons.IH [OF rest] insert_edgeD(1) [OF ins] rows by simp
qed simp

lemma CreateReferenceSetD:
  assumes "CreateReferenceSet ustr newID now treeID target sources db = Inr (rows, db')"
  shows "db' = db\<lparr>g_edges := g_edges db @ rows\<rparr>" "map e_SourceID rows = sources" "distinct sources"
    "2 \<le> length sources" "length sources \<le> 20"
    "e \<in> set rows \<Longrightarrow> e_TargetID e = target \<and> e_TreeID e = treeID \<and> e_active e \<and> e_EdgeType e = ''reference''"
proof -
  have ins: "insert_reference_edges ustr newID now treeID target 0 (last_edge_seq db treeID) sources db = Inr (rows, db')"
    and chk: "check_sources target [] sources = None" and len: "\<not> (length sources < 2 \<or> 20 < length sources)"
    using assms by (simp_all add: CreateReferenceSet_def split: if_splits option.splits)
  note rows = insert_reference_edges_rows [OF ins]
  show "db' = db\<lparr>g_edges := g_edges db @ rows\<rparr>" "map e_SourceID rows = sources"
    "e \<in> set rows \<Longrightarrow> e_TargetID e = target \<and> e_TreeID e = treeID \<and> e_active e \<and> e_EdgeType e = ''reference''"
    using rows by simp_all
  show "distinct sources" "2 \<le> length sources" "length sources \<le> 20"
    using check_sources_distinct [OF chk] len by simp_all
qed

lemma resolve_sources_active:
  "resolve_sources sha mode db treeID ids = Inr ss \<Longrightarrow> i \<in> set ids \<Longrightarrow>
     in_tree db treeID i \<and> (\<exists>n. node_at db i = Some n \<and> n_active n)"
  by (induction ids arbitrary: ss) (auto split: option.splits if_splits sum.splits dest: in_treeI(2))

lemma insert_replyE:
  assumes "insert_reply lib newID now treeID claims row db = Inr (edges, db')"
  obtains db1 where "insert_node row db = Inr db1"
    "CreateReferenceSet (tl_ustr lib) (\<lambda>i. newID (Suc i)) now treeID (n_ID row) (sc_SourceIDs claims) db1 = Inr (edges, db')"
    "ValidateIncomingInvariant (tl_ustr lib) db' row = None"
  using assms by (auto simp: insert_reply_def split: sum.splits option.splits)

lemma create_replyE:
  assumes "create_reply lib newID now treeID author input format client claims db = Inr (r, effs, db')"
  obtains sources metadata edges where "lockTreeRow db treeID = None"
    "lockReferenceSources (tl_sha256hex lib) db treeID (sc_SourceIDs claims) = Inr sources"
    "check_snapshot sources (sc_SourceHashes claims) = None"
    "insert_reply lib newID now treeID claims
       (reply_row (newID 0) now treeID (sc_PrimarySourceID claims) author (rq_Content input) format metadata db) db = Inr (edges, db')"
    "rr_Node r = reply_row (newID 0) now treeID (sc_PrimarySourceID claims) author (rq_Content input) format metadata db"
    "rr_Edges r = edges"
  using assms
  by (simp add: create_reply_def Let_def split: if_splits option.splits sum.splits prod.splits) auto

lemma reply_row_simps [simp]:
  "n_ID (reply_row i now t p a c f m db) = i" "n_TreeID (reply_row i now t p a c f m db) = t"
  "n_ParentID (reply_row i now t p a c f m db) = Some p" "n_ParentMode (reply_row i now t p a c f m db) = ''multi_reference''"
  "n_NodeType (reply_row i now t p a c f m db) = ''message''"
  "n_SequenceNum (reply_row i now t p a c f m db) = next_node_seq db t"
  "n_DeletedAt (reply_row i now t p a c f m db) = None"
  by (simp_all add: reply_row_def)

text \<open>The active edges into a node that was not there before are the ones just inserted.\<close>

lemma incoming_new:
  assumes "skel_ok (skeleton db)" and "\<not> has_node db i" and "\<forall>e \<in> set rows. e_TargetID e = i \<and> e_active e"
  shows "incoming (db1\<lparr>g_edges := g_edges db @ rows\<rparr>) i = rows"
proof -
  have "filter (\<lambda>e. e_TargetID e = i) (g_edges db) = []"
    using arcs_into_fresh [OF assms(1)] assms(2) by (simp add: has_node_vertices arcs_into_def filter_map comp_def)
  then have "filter (\<lambda>e. e_TargetID e = i \<and> e_active e) (g_edges db) = []" by (auto simp: filter_empty_conv)
  with assms(3) show ?thesis by (simp add: incoming_def)
qed

lemma reference_set_errorD:
  assumes "ValidateIncomingInvariant ustr db n = None" "n_NodeType n = ''message''" "n_ParentMode n = ''multi_reference''"
    "n_ParentID n = Some p"
  shows "p \<in> e_SourceID ` set (incoming db (n_ID n))"
  using assms
  by (simp add: ValidateIncomingInvariant_def Let_def reference_set_error_def GetActiveIncoming_def split: if_splits option.splits)

lemma create_reply_step:
  assumes ok: "skel_ok (skeleton db)" and "create_reply lib newID now treeID author input format client claims db = Inr (r, effs, db')"
  shows "skel_step (skeleton db) (skeleton db')"
  using assms(2)
proof (rule create_replyE)
  fix sources metadata edges
  let ?n = "reply_row (newID 0) now treeID (sc_PrimarySourceID claims) author (rq_Content input) format metadata db"
  assume src: "lockReferenceSources (tl_sha256hex lib) db treeID (sc_SourceIDs claims) = Inr sources"
    and ins: "insert_reply lib newID now treeID claims ?n db = Inr (edges, db')"
  have "resolve_sources (tl_sha256hex lib) LoadCreation db treeID (sc_SourceIDs claims) = Inr sources"
    using src by (simp add: lockReferenceSources_def split: if_splits)
  note src = resolve_sources_active [OF this]
  from ins obtain db1 where n: "insert_node ?n db = Inr db1"
    and set: "CreateReferenceSet (tl_ustr lib) (\<lambda>i. newID (Suc i)) now treeID (newID 0) (sc_SourceIDs claims) db1 = Inr (edges, db')"
    and inv: "ValidateIncomingInvariant (tl_ustr lib) db' ?n = None"
    by (rule insert_replyE) simp
  note rows = CreateReferenceSetD [OF set] and new = insert_nodeD [OF n]
  have "db' = db1\<lparr>g_edges := g_edges db @ edges\<rparr>" using rows(1) new(1) by simp
  then have "incoming db' (newID 0) = edges" using incoming_new [OF ok, of "newID 0" edges] new(3) rows(6) by simp
  then have primary: "sc_PrimarySourceID claims \<in> e_SourceID ` set edges" using reference_set_errorD [OF inv] by simp
  have len: "length edges = length (sc_SourceIDs claims)" using rows(2) by (metis length_map)
  have tree: "in_tree db treeID (e_SourceID e)" if "e \<in> set edges" for e
    using that src rows(2) by (metis image_eqI list.set_map)
  have "parents_ok (vertex_of ?n) (map arc_of edges)"
    using rows len primary by (simp add: parents_ok_def reference_parents_def comp_def image_image)
  moreover have "in_tree db treeID (sc_PrimarySourceID claims)" using primary tree by (metis imageE)
  ultimately have "skel_step (skeleton db) (skeleton (db1\<lparr>g_edges := g_edges db1 @ edges\<rparr>))"
    using rows(6) tree by (intro grow_node [OF n]) simp_all
  with rows(1) show ?thesis by simp
qed

lemma reply_outcome:
  assumes "CreateMultiReferenceReply lib secret ctx newID now treeID input db = Inr (r, effs, db')"
  obtains (replay) "db' = db" "effs = []" "rr_Replayed r"
  | (fresh) claims client where "Verify lib secret now (rq_SelectionToken input) (rc_requester ctx) = Inr claims"
      "sc_TreeID claims = treeID"
      "create_reply (tree_lib.truncate lib) newID now treeID (rc_requester ctx) input
         (or_default ''markdown'' (rq_ContentFormat input)) client claims db = Inr (r, effs, db')"
proof -
  note c = assms [unfolded CreateMultiReferenceReply_def Let_def]
  obtain client where client: "decodeMetadataObject (rq_Metadata input) = Inr client"
    using c by (cases "decodeMetadataObject (rq_Metadata input)") (simp_all split: if_splits)
  obtain claims where claims: "Verify lib secret now (rq_SelectionToken input) (rc_requester ctx) = Inr claims" "sc_TreeID claims = treeID"
    using c client by (cases "Verify lib secret now (rq_SelectionToken input) (rc_requester ctx)") (simp_all split: if_splits)
  show ?thesis
  proof (cases "create_reply (tree_lib.truncate lib) newID now treeID (rc_requester ctx) input
         (or_default ''markdown'' (rq_ContentFormat input)) client claims db = Inr (r, effs, db')")
    case True
    with claims show ?thesis by (rule fresh)
  next
    case False
    with c client claims obtain i where i: "rq_RequestID input = Some i"
      by (cases "rq_RequestID input") (simp_all split: if_splits)
    show ?thesis
    proof (cases "loadReplayedReply (tree_lib.truncate lib) db treeID (rc_requester ctx) i
        (referenceRequestHash (tree_lib.truncate lib) (rq_Content input) (or_default ''markdown'' (rq_ContentFormat input))
           (sc_PrimarySourceID claims) (sc_SourceIDs claims))")
      case (Inr res)
      with False c client claims i obtain rep where rep: "res = Some rep"
        by (cases res) (simp_all split: if_splits)
      have "rr_Replayed rep" using Inr rep by (auto simp: loadReplayedReply_def split: option.splits if_splits)
      moreover have "r = rep" "effs = []" "db' = db" using Inr rep c client claims i by (simp_all split: if_splits)
      ultimately show ?thesis using replay by simp
    qed (use c client claims i in \<open>simp split: if_splits\<close>)
  qed
qed

lemma reply_step:
  assumes "skel_ok (skeleton db)" and "CreateMultiReferenceReply lib secret ctx newID now treeID input db = Inr (r, effs, db')"
  shows "skeleton db' = skeleton db \<or> skel_step (skeleton db) (skeleton db')"
  using assms(2) by (cases rule: reply_outcome) (use create_reply_step [OF assms(1)] in auto)

section \<open>Trees\<close>

lemma validateCreateTree_db:
  assumes "validateCreateTree p = None" "ct_NodeType p \<in> set db_node_types"
  shows "ct_NodeType p = ''message''"
  using assms by (auto simp: validateCreateTree_def svc_node_types_def db_node_types_def Let_def split: if_splits)

lemma insert_treeD: "insert_tree t db = Inr db' \<Longrightarrow> db' = db\<lparr>g_trees := g_trees db @ [t]\<rparr> \<and> \<not> has_tree db (tr_ID t)"
  by (auto simp: insert_tree_def split: if_splits)

lemma insert_memberD: "insert_member m db = Inr db' \<Longrightarrow> db' = db\<lparr>g_members := g_members db @ [m]\<rparr>"
  by (auto simp: insert_member_def split: if_splits)

lemma CreateTreeE:
  assumes "CreateTree newIDs now p db = Inr (r, db')"
  obtains t n where "db' = db\<lparr>g_trees := g_trees db @ [t], g_members := g_members db @
      [\<lparr>tm_TreeID = tr_ID t, tm_UserID = tr_OwnerID t, tm_Role = ''owner'', tm_JoinedAt = now\<rparr>], g_nodes := g_nodes db @ [n]\<rparr>"
    "tr_ID t = fst newIDs" "tr_RootNodeID t = Some (n_ID n)" "tr_active t" "tr_OwnerID t = ct_OwnerID p" "\<not> has_tree db (tr_ID t)"
    "\<not> has_node db (n_ID n)" "n_TreeID n = tr_ID t" "n_ParentID n = None" "n_ParentMode n = ''lineage''"
    "n_NodeType n = ''message''" "1 \<le> n_SequenceNum n" "n_active n" "node_checks n"
proof -
  obtain metadata where valid: "validateCreateTree p = None" and "stored_metadata (ct_Metadata p) = Some metadata"
    using assms by (auto simp: CreateTree_def split: option.splits)
  define row where "row = new_tree_row (fst newIDs) now p metadata"
  define m where "m = \<lparr>tm_TreeID = fst newIDs, tm_UserID = ct_OwnerID p, tm_Role = ''owner'', tm_JoinedAt = now\<rparr>"
  obtain db1 db2 db3 where ins: "insert_tree row db = Inr db1" "insert_member m db1 = Inr db2"
      "insert_node (root_row (snd newIDs) now (fst newIDs) p db2) db2 = Inr db3"
    and db': "db' = db3\<lparr>g_trees := map (\<lambda>t. if tr_ID t = fst newIDs
                 then t\<lparr>tr_RootNodeID := Some (snd newIDs), tr_EditedAt := Some now\<rparr> else t) (g_trees db3)\<rparr>"
    using assms valid \<open>stored_metadata (ct_Metadata p) = Some metadata\<close>
    by (auto simp: CreateTree_def Let_def db_bind_def row_def m_def split: sum.splits)
  define n where "n = root_row (snd newIDs) now (fst newIDs) p db2"
  define t where "t = row\<lparr>tr_RootNodeID := Some (snd newIDs), tr_EditedAt := Some now\<rparr>"
  note tree = insert_treeD [OF ins(1)] and member = insert_memberD [OF ins(2)] and node = insert_nodeD [OF ins(3)]
  have row: "tr_ID row = fst newIDs" "tr_OwnerID row = ct_OwnerID p" "tr_active row"
    by (simp_all add: row_def new_tree_row_def tr_active_def)
  have "map (\<lambda>t. if tr_ID t = fst newIDs then t\<lparr>tr_RootNodeID := Some (snd newIDs), tr_EditedAt := Some now\<rparr> else t) (g_trees db) = g_trees db"
    using tree row by (intro map_idI) (auto simp: has_tree_def list_ex_iff)
  then have db'': "db' = db\<lparr>g_trees := g_trees db @ [t], g_members := g_members db @ [m], g_nodes := g_nodes db @ [n]\<rparr>"
    using tree member node(1) row by (simp add: db' t_def n_def)
  have m: "m = \<lparr>tm_TreeID = tr_ID t, tm_UserID = tr_OwnerID t, tm_Role = ''owner'', tm_JoinedAt = now\<rparr>"
    using row by (simp add: m_def t_def)
  have "n_NodeType n = ''message''"
    using node(2) validateCreateTree_db [OF valid] by (simp add: node_checks_def n_def root_row_def)
  then show ?thesis
    using that [where t = t and n = n] db'' m row tree node(2,3) member next_node_seq_bound(1)
    by (simp add: t_def n_def root_row_def tr_active_def n_active_def has_node_def)
qed

lemma create_tree_step:
  assumes "CreateTree newIDs now p db = Inr (r, db')"
  shows "skel_step (skeleton db) (skeleton db')"
  using assms
proof (rule CreateTreeE)
  fix t n
  assume db': "db' = db\<lparr>g_trees := g_trees db @ [t], g_members := g_members db @
      [\<lparr>tm_TreeID = tr_ID t, tm_UserID = tr_OwnerID t, tm_Role = ''owner'', tm_JoinedAt = now\<rparr>], g_nodes := g_nodes db @ [n]\<rparr>"
    and root: "tr_RootNodeID t = Some (n_ID n)" "n_TreeID n = tr_ID t"
    and fresh: "\<not> has_tree db (tr_ID t)" "\<not> has_node db (n_ID n)"
    and n: "n_ParentID n = None" "n_ParentMode n = ''lineage''" "n_NodeType n = ''message''" "1 \<le> n_SequenceNum n"
  have "skeleton db' = add_tree (vertex_of n) (skeleton db)"
    using root by (simp add: db' skeleton_def add_tree_def)
  moreover have "skel_step (skeleton db) (add_tree (vertex_of n) (skeleton db))"
    using fresh n root(2) by (intro skel_step.plant)
      (simp_all only: has_tree_roots has_node_vertices vertex_of_simps parents_ok_def, simp_all add: lineage_parents_def)
  ultimately show ?thesis by simp
qed

end
