(* ===== verification/Graph_History.thy ===== *)
theory Graph_History
  imports Tree_Lifecycle
begin

text \<open>
  Histories of the conversation graph. \<open>db_change\<close> lists what a call does to the rows;
  \<open>graph_step\<close> is one call of one of the services, in any order and from any client, with the
  update of a tree as the two statements it is. Every history keeps \<open>graph_ok\<close> and moves up
  \<open>graph_le\<close>.
\<close>

section \<open>Changes of rows\<close>

definition erased :: "node \<Rightarrow> bool" where
  "erased n \<longleftrightarrow> n_Content n = [] \<and> n_Metadata n = RawJSON (JObj [])"

definition same_tree :: "tree_row \<Rightarrow> tree_row \<Rightarrow> bool" where
  "same_tree t t' \<longleftrightarrow> tr_ID t' = tr_ID t \<and> tr_OwnerID t' = tr_OwnerID t \<and> tr_RootNodeID t' = tr_RootNodeID t
     \<and> tr_CreatedAt t' = tr_CreatedAt t"

inductive db_change :: "graph_db \<Rightarrow> graph_db \<Rightarrow> bool" where
  no_change: "db_change db db"
| add_node: "n_active n \<Longrightarrow> \<forall>e \<in> set es. e_active e \<Longrightarrow>
    db_change db (db\<lparr>g_nodes := g_nodes db @ [n], g_edges := g_edges db @ es\<rparr>)"
| plant_tree: "tr_active t \<Longrightarrow> n_active n \<Longrightarrow> tm_TreeID m = tr_ID t \<Longrightarrow> tm_UserID m = tr_OwnerID t \<Longrightarrow> tm_Role m = ''owner'' \<Longrightarrow>
    db_change db (db\<lparr>g_trees := g_trees db @ [t], g_members := g_members db @ [m], g_nodes := g_nodes db @ [n]\<rparr>)"
| edit_node: "n \<in> set (g_nodes db) \<Longrightarrow> n_active n \<Longrightarrow> n_ID n = i \<Longrightarrow> vertex_of n' = vertex_of n \<Longrightarrow> n_active n' \<or> erased n' \<Longrightarrow>
    db_change db (db\<lparr>g_nodes := map (\<lambda>m. if n_ID m = i \<and> n_active m then n' else m) (g_nodes db)\<rparr>)"
| edit_tree: "\<forall>t \<in> set (g_trees db). tr_ID t = i \<longrightarrow> same_tree t (f t) \<Longrightarrow> db_change db (update_tree i f db)"
| edit_users: "db_change db (db\<lparr>g_users := us\<rparr>)"

text \<open>\<open>rows_grow R xs ys\<close>: the rows of \<open>xs\<close> are still there, each related to what it became.\<close>

definition rows_grow :: "('a \<Rightarrow> 'a \<Rightarrow> bool) \<Rightarrow> 'a list \<Rightarrow> 'a list \<Rightarrow> bool" where
  "rows_grow R xs ys \<longleftrightarrow> length xs \<le> length ys \<and> (\<forall>k < length xs. R (xs ! k) (ys ! k))"

lemma rows_grow_refl: "(\<And>x. R x x) \<Longrightarrow> rows_grow R xs xs"
  by (simp add: rows_grow_def)

lemma rows_grow_append: "(\<And>x. R x x) \<Longrightarrow> rows_grow R xs (xs @ ys)"
  by (simp add: rows_grow_def nth_append)

lemma rows_grow_map: "(\<And>x. x \<in> set xs \<Longrightarrow> R x (f x)) \<Longrightarrow> rows_grow R xs (map f xs)"
  by (simp add: rows_grow_def)

lemma rows_grow_trans:
  assumes "rows_grow R xs ys" "rows_grow R ys zs" "\<And>x y z. R x y \<Longrightarrow> R y z \<Longrightarrow> R x z"
  shows "rows_grow R xs zs"
  using assms by (simp add: rows_grow_def) (meson order_less_le_trans order_trans)

lemma rows_grow_mem: "rows_grow R xs ys \<Longrightarrow> x \<in> set xs \<Longrightarrow> \<exists>y \<in> set ys. R x y"
  by (auto simp: rows_grow_def in_set_conv_nth) (meson nth_mem order_less_le_trans)

text \<open>What becomes of a row: its place in the graph stays, and once deleted it stays as it is.\<close>

definition node_le :: "node \<Rightarrow> node \<Rightarrow> bool" where
  "node_le n n' \<longleftrightarrow> vertex_of n' = vertex_of n \<and> (\<not> n_active n \<longrightarrow> n' = n)"

definition tree_le :: "tree_row \<Rightarrow> tree_row \<Rightarrow> bool" where
  "tree_le t t' \<longleftrightarrow> same_tree t t' \<and> (\<not> tr_active t \<longrightarrow> t' = t)"

definition graph_le :: "graph_db \<Rightarrow> graph_db \<Rightarrow> bool" where
  "graph_le db db' \<longleftrightarrow> rows_grow node_le (g_nodes db) (g_nodes db') \<and> rows_grow tree_le (g_trees db) (g_trees db')
     \<and> rows_grow (=) (g_edges db) (g_edges db') \<and> rows_grow (=) (g_members db) (g_members db')"

lemma node_le_refl: "node_le n n" and node_le_trans: "node_le a b \<Longrightarrow> node_le b c \<Longrightarrow> node_le a c"
  by (auto simp: node_le_def)

lemma tree_le_refl: "tree_le t t" and tree_le_trans: "tree_le a b \<Longrightarrow> tree_le b c \<Longrightarrow> tree_le a c"
  by (auto simp: tree_le_def same_tree_def)

lemma graph_le_refl: "graph_le db db"
  by (simp add: graph_le_def rows_grow_refl node_le_refl tree_le_refl)

lemma graph_le_trans: "graph_le a b \<Longrightarrow> graph_le b c \<Longrightarrow> graph_le a c"
  unfolding graph_le_def using rows_grow_trans [of node_le] rows_grow_trans [of tree_le] rows_grow_trans [of "(=)"]
    node_le_trans tree_le_trans by metis

section \<open>What every change keeps\<close>

definition rows_ok :: "graph_db \<Rightarrow> bool" where
  "rows_ok db \<longleftrightarrow> (\<forall>e \<in> set (g_edges db). e_active e) \<and> (\<forall>n \<in> set (g_nodes db). n_active n \<or> erased n)
     \<and> (\<forall>t \<in> set (g_trees db). \<exists>m \<in> set (g_members db). tm_TreeID m = tr_ID t \<and> tm_UserID m = tr_OwnerID t \<and> tm_Role m = ''owner'')"

definition graph_ok :: "graph_db \<Rightarrow> bool" where
  "graph_ok db \<longleftrightarrow> skel_ok (skeleton db) \<and> rows_ok db"

lemma unique_node:
  assumes "skel_ok (skeleton db)" "n \<in> set (g_nodes db)" "m \<in> set (g_nodes db)" "n_ID m = n_ID n"
  shows "m = n"
  using skel_okD(2) [OF assms(1)] assms(2-) by (simp add: comp_def distinct_map inj_on_def)

lemma db_change_le:
  assumes "db_change db db'" "skel_ok (skeleton db)"
  shows "graph_le db db'"
  using assms(1)
proof cases
  case (edit_node n i n')
  have "node_le m (if n_ID m = i \<and> n_active m then n' else m)" if "m \<in> set (g_nodes db)" for m
    using unique_node [OF assms(2) edit_node(2) that] edit_node by (auto simp: node_le_def)
  then have "rows_grow node_le (g_nodes db) (g_nodes db')" unfolding edit_node(1) by (simp add: rows_grow_map)
  with edit_node(1) show ?thesis by (simp add: graph_le_def rows_grow_refl tree_le_refl)
next
  case (edit_tree i f)
  have "tree_le t (if tr_ID t = i \<and> tr_active t then f t else t)" if "t \<in> set (g_trees db)" for t
    using that edit_tree(2) by (auto simp: tree_le_def same_tree_def)
  then have "rows_grow tree_le (g_trees db) (g_trees db')" unfolding edit_tree(1) update_tree_def by (simp add: rows_grow_map)
  with edit_tree(1) show ?thesis by (simp add: graph_le_def rows_grow_refl node_le_refl update_tree_def)
qed (simp_all add: graph_le_refl, simp_all add: graph_le_def rows_grow_refl rows_grow_append node_le_refl tree_le_refl)

lemma db_change_rows:
  assumes "db_change db db'" "rows_ok db"
  shows "rows_ok db'"
  using assms(1)
proof cases
  case (edit_tree i f)
  define g where "g t = (if tr_ID t = i \<and> tr_active t then f t else t)" for t
  have "\<exists>m \<in> set (g_members db). tm_TreeID m = tr_ID (g t) \<and> tm_UserID m = tr_OwnerID (g t) \<and> tm_Role m = ''owner''"
    if "t \<in> set (g_trees db)" for t
  proof -
    have "same_tree t (g t)" using that edit_tree(2) by (auto simp: g_def same_tree_def)
    with assms(2) that show ?thesis by (simp add: rows_ok_def same_tree_def)
  qed
  moreover have "db' = db\<lparr>g_trees := map g (g_trees db)\<rparr>" using edit_tree(1) by (simp add: update_tree_def g_def [abs_def])
  ultimately show ?thesis using assms(2) by (simp add: rows_ok_def)
qed (use assms(2) in \<open>auto simp: rows_ok_def\<close>)

text \<open>The changes that leave the skeleton alone.\<close>

lemma edit_node_skeleton:
  assumes "skel_ok (skeleton db)" "n \<in> set (g_nodes db)" "n_ID n = i" "vertex_of n' = vertex_of n"
  shows "skeleton (db\<lparr>g_nodes := map (\<lambda>m. if n_ID m = i \<and> n_active m then n' else m) (g_nodes db)\<rparr>) = skeleton db"
proof -
  have "vertex_of (if n_ID m = i \<and> n_active m then n' else m) = vertex_of m" if "m \<in> set (g_nodes db)" for m
    using unique_node [OF assms(1,2) that] assms(3,4) by simp
  then show ?thesis by (simp add: skeleton_def)
qed

lemma edit_tree_skeleton:
  assumes "\<forall>t \<in> set (g_trees db). tr_ID t = i \<longrightarrow> same_tree t (f t)"
  shows "skeleton (update_tree i f db) = skeleton db"
  using assms by (simp add: skeleton_def update_tree_def same_tree_def)

lemma update_node_change:
  assumes "update_node now i f db = Some (n', db')" "skel_ok (skeleton db)"
    and "\<And>n. vertex_of (f n) = vertex_of n" "\<And>n. n_active n \<Longrightarrow> n_active (f n) \<or> erased (f n)"
  shows "db_change db db' \<and> skeleton db' = skeleton db"
proof -
  obtain n where found: "find (\<lambda>n. n_ID n = i \<and> n_active n) (g_nodes db) = Some n" and n': "n' = set_edited_at now n (f n)"
    and db': "db' = db\<lparr>g_nodes := map (\<lambda>m. if n_ID m = i \<and> n_active m then n' else m) (g_nodes db)\<rparr>"
    using assms(1) by (auto simp: update_node_def Let_def split: option.splits)
  have n: "n \<in> set (g_nodes db)" "n_ID n = i" "n_active n" using found by (auto simp: find_Some_iff)
  have stamp: "vertex_of (set_edited_at now n m) = vertex_of m" "n_active (set_edited_at now n m) = n_active m"
    "erased (set_edited_at now n m) = erased m" for m
    by (simp_all add: set_edited_at_def vertex_of_def n_active_def erased_def)
  have "vertex_of n' = vertex_of n" "n_active n' \<or> erased n'"
    using assms(3,4) [of n] n(3) by (simp_all add: n' stamp)
  then show ?thesis
    using db_change.edit_node [OF n(1,3,2)] edit_node_skeleton [OF assms(2) n(1,2)] by (simp add: db')
qed

section \<open>Calls as steps\<close>

text \<open>\<open>gs_reads\<close> are the rows that an \<open>UpdateTree\<close> has read and not yet written.\<close>

record graph_state =
  gs_db :: graph_db
  gs_reads :: "tree_row list"

inductive graph_step :: "token_lib \<Rightarrow> string \<Rightarrow> graph_state \<Rightarrow> graph_state \<Rightarrow> bool" for lib secret where
  create_tree: "CreateTree newIDs now p (gs_db s) = Inr (tr, db') \<Longrightarrow> graph_step lib secret s (s\<lparr>gs_db := db'\<rparr>)"
| create_node: "svc_CreateNode (tree_lib.truncate lib) ctx newIDs now t input (gs_db s) = Inr (r, effs, db') \<Longrightarrow>
    graph_step lib secret s (s\<lparr>gs_db := db'\<rparr>)"
| reply: "Reply (tree_lib.truncate lib) ctx newIDs now p rinput (gs_db s) = Inr (r, effs, db') \<Longrightarrow>
    graph_step lib secret s (s\<lparr>gs_db := db'\<rparr>)"
| fork: "Fork (tree_lib.truncate lib) ctx newIDs now p rinput (gs_db s) = Inr (r, effs, db') \<Longrightarrow>
    graph_step lib secret s (s\<lparr>gs_db := db'\<rparr>)"
| update: "svc_UpdateNode (tree_lib.truncate lib) ctx now i uinput (gs_db s) = Inr (d, effs, db') \<Longrightarrow>
    graph_step lib secret s (s\<lparr>gs_db := db'\<rparr>)"
| delete: "svc_DeleteNode (tree_lib.truncate lib) ctx now i (gs_db s) = Inr (x, effs, db') \<Longrightarrow>
    graph_step lib secret s (s\<lparr>gs_db := db'\<rparr>)"
| merge: "CreateMerge (tree_lib.truncate lib) ctx newID now t req (gs_db s) = Inr (mres, effs, db') \<Longrightarrow>
    graph_step lib secret s (s\<lparr>gs_db := db'\<rparr>)"
| reference_reply: "CreateMultiReferenceReply lib secret ctx newID now t rr (gs_db s) = Inr (rres, effs, db') \<Longrightarrow>
    graph_step lib secret s (s\<lparr>gs_db := db'\<rparr>)"
| read_tree: "UpdateTree_read i title description (gs_db s) = Inr row \<Longrightarrow>
    graph_step lib secret s (s\<lparr>gs_reads := row # gs_reads s\<rparr>)"
| write_tree: "row \<in> set (gs_reads s) \<Longrightarrow> UpdateTree_write now row (gs_db s) = Inr (tr, db') \<Longrightarrow>
    graph_step lib secret s (s\<lparr>gs_db := db', gs_reads := remove1 row (gs_reads s)\<rparr>)"
| update_metadata: "UpdateTreeMetadata now i raw (gs_db s) = Inr db' \<Longrightarrow> graph_step lib secret s (s\<lparr>gs_db := db'\<rparr>)"
| delete_tree: "svc_DeleteTree now i (gs_db s) = Inr (stamp, db') \<Longrightarrow> graph_step lib secret s (s\<lparr>gs_db := db'\<rparr>)"
| accounts: "graph_step lib secret s (s\<lparr>gs_db := (gs_db s)\<lparr>g_users := us\<rparr>\<rparr>)"

definition db_move :: "graph_db \<Rightarrow> graph_db \<Rightarrow> bool" where
  "db_move db db' \<longleftrightarrow> db_change db db' \<and> (skeleton db' = skeleton db \<or> skel_step (skeleton db) (skeleton db'))"

text \<open>A row read is the one of its tree, up to what an update may change.\<close>

definition reads_ok :: "graph_state \<Rightarrow> bool" where
  "reads_ok s \<longleftrightarrow> (\<forall>r \<in> set (gs_reads s). \<exists>t \<in> set (g_trees (gs_db s)). tr_ID t = tr_ID r \<and> tr_RootNodeID t = tr_RootNodeID r)"

lemma create_node_move: "svc_CreateNode lib ctx newIDs now t input db = Inr (r, effs, db') \<Longrightarrow> db_move db db'"
proof -
  assume c: "svc_CreateNode lib ctx newIDs now t input db = Inr (r, effs, db')"
  then have "db_change db db'"
  proof (rule svc_CreateNodeE)
    fix metadata db1
    let ?n = "new_node_row (fst newIDs) now t input metadata db"
    assume n: "insert_node ?n db = Inr db1" and e: "insert_parent_edge (snd newIDs) now t input (fst newIDs) db1 = Inr (snd r, db')"
    note db1 = insert_nodeD(1) [OF n]
    have live: "n_active ?n" by (simp add: n_active_def)
    from e show ?thesis
    proof (cases rule: insert_parent_edgeE)
      case root
      then show ?thesis using db_change.add_node [OF live, of "[]" db] db1 by simp
    next
      case (child e)
      then show ?thesis using db_change.add_node [OF live, of "[e]" db] db1 by simp
    qed
  qed
  with create_node_step [OF c] show ?thesis by (simp add: db_move_def)
qed

lemma reply_create: "Reply lib ctx newIDs now p input db = Inr x \<Longrightarrow> \<exists>t. svc_CreateNode lib ctx newIDs now t (child_input ''reply'' p input) db = Inr x"
  by (auto simp: Reply_def split: if_splits sum.splits)

lemma fork_create: "Fork lib ctx newIDs now p input db = Inr x \<Longrightarrow> \<exists>t. svc_CreateNode lib ctx newIDs now t (child_input ''fork'' p input) db = Inr x"
  by (auto simp: Fork_def split: if_splits sum.splits)

lemma merge_move: "CreateMerge lib ctx newID now t req db = Inr (r, effs, db') \<Longrightarrow> db_move db db'"
proof -
  assume c: "CreateMerge lib ctx newID now t req db = Inr (r, effs, db')"
  then have "db_change db db'"
  proof (rule CreateMergeE)
    fix input target edges
    let ?n = "synthesis_row (newID 0) now t target (rc_requester ctx) input db"
    assume ins: "insert_merge newID now t target (rc_requester ctx) input db = Inr ((?n, edges), db')"
    obtain db1 where n: "insert_node ?n db = Inr db1"
      and edges: "insert_edges newID 1 now t (newID 0) (last_edge_seq db1 t + 1)
                    ((target, ''reply'') # map (\<lambda>i. (i, ''synthesis'')) (mi2_SourceNodeIDs input)) db1 = Inr (edges, db')"
      using ins by (auto simp: insert_merge_def Let_def split: sum.splits)
    show ?thesis
      using db_change.add_node [of ?n edges db] insert_edges_rows [OF edges] insert_nodeD(1) [OF n] by (simp add: n_active_def)
  qed
  with merge_step [OF c] show ?thesis by (simp add: db_move_def)
qed

lemma reference_reply_move:
  assumes ok: "skel_ok (skeleton db)" and c: "CreateMultiReferenceReply lib secret ctx newID now t input db = Inr (r, effs, db')"
  shows "db_move db db'"
proof -
  from c have "db_change db db'"
  proof (cases rule: reply_outcome)
    case replay
    then show ?thesis by (simp add: no_change)
  next
    case (fresh claims client)
    from fresh(3) show ?thesis
    proof (rule create_replyE)
      fix sources metadata edges
      let ?n = "reply_row (newID 0) now t (sc_PrimarySourceID claims) (rc_requester ctx) (rq_Content input)
                  (or_default ''markdown'' (rq_ContentFormat input)) metadata db"
      assume "insert_reply (tree_lib.truncate lib) newID now t claims ?n db = Inr (edges, db')"
      then obtain db1 where n: "insert_node ?n db = Inr db1"
        and set: "CreateReferenceSet (tl_ustr (tree_lib.truncate lib)) (\<lambda>i. newID (Suc i)) now t (n_ID ?n) (sc_SourceIDs claims) db1
                    = Inr (edges, db')"
        by (rule insert_replyE)
      show ?thesis
        using db_change.add_node [of ?n edges db] CreateReferenceSetD(1,6) [OF set] insert_nodeD(1) [OF n]
        by (simp add: n_active_def)
    qed
  qed
  with reply_step [OF ok c] show ?thesis by (simp add: db_move_def)
qed

lemma create_tree_move: "CreateTree newIDs now p db = Inr (r, db') \<Longrightarrow> db_move db db'"
proof -
  assume c: "CreateTree newIDs now p db = Inr (r, db')"
  then have "db_change db db'"
  proof (rule CreateTreeE)
    fix t :: tree_row and n :: node
    let ?m = "\<lparr>tm_TreeID = tr_ID t, tm_UserID = tr_OwnerID t, tm_Role = ''owner'', tm_JoinedAt = now\<rparr>"
    assume "db' = db\<lparr>g_trees := g_trees db @ [t], g_members := g_members db @ [?m], g_nodes := g_nodes db @ [n]\<rparr>"
      "tr_active t" "n_active n"
    then show ?thesis using db_change.plant_tree [of t n ?m db] by simp
  qed
  with create_tree_step [OF c] show ?thesis by (simp add: db_move_def)
qed

lemma applyUpdate_update:
  assumes "applyUpdate now i input db = Inr (n, db')"
  obtains f where "update_node now i f db = Some (n, db')" "\<And>m. vertex_of (f m) = vertex_of m" "\<And>m. n_active (f m) = n_active m"
proof -
  obtain metadata where u: "update_node now i
     (\<lambda>m. m\<lparr>n_Content := (case un_Content input of Some c \<Rightarrow> c | None \<Rightarrow> n_Content m),
            n_ContentFormat := (case un_ContentFormat input of Some f \<Rightarrow> f | None \<Rightarrow> n_ContentFormat m),
            n_Metadata := RawJSON metadata, n_EditedAt := Some now\<rparr>) db = Some (n, db')"
    using assms by (auto simp: applyUpdate_def split: option.splits sum.splits)
  then show ?thesis by (rule that) (simp_all add: vertex_of_def n_active_def)
qed

lemma update_move:
  assumes ok: "skel_ok (skeleton db)" and c: "svc_UpdateNode lib ctx now i input db = Inr (d, effs, db')"
  shows "db_move db db'"
proof -
  obtain n where "applyUpdate now i input db = Inr (n, db')"
    using c by (auto simp: svc_UpdateNode_def split: if_splits option.splits sum.splits)
  then show ?thesis
  proof (rule applyUpdate_update)
    fix f assume u: "update_node now i f db = Some (n, db')" "\<And>m. vertex_of (f m) = vertex_of m" "\<And>m. n_active (f m) = n_active m"
    show ?thesis using update_node_change [OF u(1) ok u(2)] u(3) by (simp add: db_move_def)
  qed
qed

lemma svc_DeleteNode_update:
  assumes "svc_DeleteNode lib ctx now i db = Inr (r, effs, db')"
  shows "\<exists>n. update_node now i (\<lambda>n. n\<lparr>n_DeletedAt := Some now, n_Content := [], n_Metadata := RawJSON (JObj [])\<rparr>) db = Some (n, db')
     \<and> r = (n_ID n, n_TreeID n, now)"
  using assms by (auto simp: svc_DeleteNode_def split: if_splits option.splits prod.splits)

lemma delete_move:
  assumes ok: "skel_ok (skeleton db)" and c: "svc_DeleteNode lib ctx now i db = Inr (r, effs, db')"
  shows "db_move db db'"
proof -
  obtain n where u: "update_node now i (\<lambda>n. n\<lparr>n_DeletedAt := Some now, n_Content := [], n_Metadata := RawJSON (JObj [])\<rparr>) db = Some (n, db')"
    using svc_DeleteNode_update [OF c] by blast
  show ?thesis using update_node_change [OF u ok] by (simp add: db_move_def vertex_of_def erased_def)
qed

lemma edit_tree_move: "\<forall>t \<in> set (g_trees db). tr_ID t = i \<longrightarrow> same_tree t (f t) \<Longrightarrow> db_move db (update_tree i f db)"
  by (simp add: db_move_def db_change.edit_tree edit_tree_skeleton)

lemma update_metadata_move: "UpdateTreeMetadata now i raw db = Inr db' \<Longrightarrow> db_move db db'"
  by (auto simp: UpdateTreeMetadata_def same_tree_def split: if_splits option.splits intro!: edit_tree_move)

lemma delete_tree_move: "svc_DeleteTree now i db = Inr (stamp, db') \<Longrightarrow> db_move db db'"
  by (auto simp: svc_DeleteTree_def tree_SoftDelete_def same_tree_def split: if_splits option.splits intro!: edit_tree_move)

lemma tree_GetByID_mem: "tree_GetByID db i = Some t \<Longrightarrow> t \<in> set (g_trees db) \<and> tr_ID t = i \<and> tr_active t"
  by (auto simp: tree_GetByID_def find_Some_iff)

lemma unique_tree:
  assumes "skel_ok (skeleton db)" "t \<in> set (g_trees db)" "u \<in> set (g_trees db)" "tr_ID u = tr_ID t"
  shows "u = t"
  using skel_okD(1) [OF assms(1)] assms(2-) by (simp add: comp_def distinct_map inj_on_def)

lemma write_tree_move:
  assumes ok: "skel_ok (skeleton db)" and row: "t0 \<in> set (g_trees db)" "tr_ID t0 = tr_ID row" "tr_RootNodeID t0 = tr_RootNodeID row"
    and c: "UpdateTree_write now row db = Inr (r, db')"
  shows "db_move db db'"
proof -
  obtain t where u: "tree_Update now db row = Inr (t, db')"
    using c by (auto simp: UpdateTree_write_def split: sum.splits)
  obtain t1 where t1: "tree_GetByID db (tr_ID row) = Some t1"
    and t: "t = t1\<lparr>tr_Title := tr_Title row, tr_Description := tr_Description row,
              tr_RootNodeID := tr_RootNodeID row, tr_Metadata := tr_Metadata row, tr_EditedAt := Some now\<rparr>"
    and db': "db' = update_tree (tr_ID row) (\<lambda>_. t) db"
    using u by (auto simp: tree_Update_def Let_def split: option.splits if_splits)
  note mem = tree_GetByID_mem [OF t1]
  have "t1 = t0" using unique_tree [OF ok row(1), of t1] mem row(2) by simp
  then have "same_tree t1 t" using row(3) by (simp add: same_tree_def t)
  then have "same_tree u t" if "u \<in> set (g_trees db)" "tr_ID u = tr_ID row" for u
    using unique_tree [OF ok, of t1 u] that mem by simp
  then show ?thesis unfolding db' by (simp add: edit_tree_move)
qed

lemma graph_step_move:
  assumes "graph_step lib secret s s'" "skel_ok (skeleton (gs_db s))" "reads_ok s"
  shows "db_move (gs_db s) (gs_db s')"
  using assms(1)
proof cases
  case (reply ctx newIDs now p rinput r effs db')
  from reply_create [OF reply(2)] obtain t where
    "svc_CreateNode (tree_lib.truncate lib) ctx newIDs now t (child_input ''reply'' p rinput) (gs_db s) = Inr (r, effs, db')" ..
  from create_node_move [OF this] reply(1) show ?thesis by simp
next
  case (fork ctx newIDs now p rinput r effs db')
  from fork_create [OF fork(2)] obtain t where
    "svc_CreateNode (tree_lib.truncate lib) ctx newIDs now t (child_input ''fork'' p rinput) (gs_db s) = Inr (r, effs, db')" ..
  from create_node_move [OF this] fork(1) show ?thesis by simp
next
  case (write_tree row now tr db')
  then obtain t0 where "t0 \<in> set (g_trees (gs_db s))" "tr_ID t0 = tr_ID row" "tr_RootNodeID t0 = tr_RootNodeID row"
    using assms(3) by (auto simp: reads_ok_def)
  from write_tree_move [OF assms(2) this write_tree(3)] write_tree(1) show ?thesis by simp
next
  case (read_tree i title description row)
  then show ?thesis by (simp add: db_move_def no_change)
next
  case (accounts us)
  then show ?thesis by (simp add: db_move_def edit_users skeleton_def)
qed (simp_all add: create_tree_move create_node_move update_move [OF assms(2)] delete_move [OF assms(2)] merge_move
      reference_reply_move [OF assms(2)] update_metadata_move delete_tree_move)

lemma db_move_ok:
  assumes "db_move db db'" "graph_ok db"
  shows "graph_ok db' \<and> graph_le db db'"
proof -
  have "skel_ok (skeleton db)" "rows_ok db" using assms(2) by (simp_all add: graph_ok_def)
  then show ?thesis
    using assms(1) db_change_le db_change_rows skel_step_ok unfolding db_move_def graph_ok_def by metis
qed

text \<open>The rows that are read stay what they are in the graph.\<close>

lemma read_tree_mem: "UpdateTree_read i title description db = Inr row \<Longrightarrow>
    \<exists>t \<in> set (g_trees db). tr_ID t = tr_ID row \<and> tr_RootNodeID t = tr_RootNodeID row"
  by (auto simp: UpdateTree_read_def Let_def dest!: tree_GetByID_mem split: if_splits option.splits)

lemma reads_ok_le:
  assumes "reads_ok s" "graph_le (gs_db s) (gs_db s')" "set (gs_reads s') \<subseteq> set (gs_reads s)"
  shows "reads_ok s'"
proof -
  have "\<exists>t \<in> set (g_trees (gs_db s')). tr_ID t = tr_ID r \<and> tr_RootNodeID t = tr_RootNodeID r" if r: "r \<in> set (gs_reads s')" for r
  proof -
    obtain t where t: "t \<in> set (g_trees (gs_db s))" "tr_ID t = tr_ID r" "tr_RootNodeID t = tr_RootNodeID r"
      using assms(1) subsetD [OF assms(3) r] unfolding reads_ok_def by blast
    from assms(2) have "rows_grow tree_le (g_trees (gs_db s)) (g_trees (gs_db s'))" by (simp add: graph_le_def)
    from rows_grow_mem [OF this t(1)] obtain t' where "t' \<in> set (g_trees (gs_db s'))" "tree_le t t'" by blast
    with t(2,3) show ?thesis by (intro bexI [of _ t']) (simp_all add: tree_le_def same_tree_def)
  qed
  then show ?thesis by (simp add: reads_ok_def)
qed

definition state_ok :: "graph_state \<Rightarrow> bool" where
  "state_ok s \<longleftrightarrow> graph_ok (gs_db s) \<and> reads_ok s"

definition state_le :: "graph_state \<Rightarrow> graph_state \<Rightarrow> bool" where
  "state_le s s' \<longleftrightarrow> graph_le (gs_db s) (gs_db s')"

lemma graph_step_ok:
  assumes step: "graph_step lib secret s s'" and ok: "state_ok s"
  shows "state_ok s' \<and> state_le s s'"
proof -
  have ok': "graph_ok (gs_db s)" "reads_ok s" "skel_ok (skeleton (gs_db s))" using ok by (simp_all add: state_ok_def graph_ok_def)
  have db: "graph_ok (gs_db s')" "graph_le (gs_db s) (gs_db s')"
    using db_move_ok [OF graph_step_move [OF step ok'(3,2)] ok'(1)] by simp_all
  have "set (gs_reads s') \<subseteq> set (gs_reads s) \<or> (\<exists>r. gs_db s' = gs_db s \<and> gs_reads s' = r # gs_reads s
          \<and> (\<exists>t \<in> set (g_trees (gs_db s)). tr_ID t = tr_ID r \<and> tr_RootNodeID t = tr_RootNodeID r))"
    using step
  proof cases
    case (read_tree i title description row)
    then show ?thesis using read_tree_mem [OF read_tree(2)] by simp
  next
    case (write_tree row now tr db')
    then show ?thesis by (simp add: set_remove1_subset)
  qed simp_all
  then have "reads_ok s'"
  proof (elim disjE exE conjE)
    assume "set (gs_reads s') \<subseteq> set (gs_reads s)"
    from reads_ok_le [OF ok'(2) db(2) this] show ?thesis .
  qed (use ok'(2) in \<open>auto simp: reads_ok_def\<close>)
  with db show ?thesis by (simp add: state_ok_def state_le_def)
qed

interpretation graph_history: evolving "graph_step lib secret" state_ok state_le for lib secret
  by unfold_locales (auto simp: state_le_def graph_le_refl intro: graph_le_trans dest: graph_step_ok)

section \<open>The parent invariant of the repository\<close>

lemma incoming_arcs:
  assumes "\<forall>e \<in> set (g_edges db). e_active e"
  shows "map arc_of (incoming db i) = arcs_into (sk_arcs (skeleton db)) i"
  using assms by (auto simp: incoming_def arcs_into_def filter_map comp_def intro!: arg_cong [of _ _ "map arc_of"] filter_cong)

lemma bad_reference_edge_None:
  "\<forall>e \<in> set es. e_EdgeType e = ''reference'' \<and> e_TreeID e = t \<Longrightarrow> bad_reference_edge ustr t es = None"
  by (induction es) simp_all

lemma graph_ok_vertex:
  assumes "graph_ok db" "n \<in> set (g_nodes db)"
  shows "parents_ok (vertex_of n) (map arc_of (incoming db (n_ID n)))" "e \<in> set (incoming db (n_ID n)) \<Longrightarrow> e_TreeID e = n_TreeID n"
proof -
  have sk: "skel_ok (skeleton db)" and act: "\<forall>e \<in> set (g_edges db). e_active e"
    using assms(1) by (simp_all add: graph_ok_def rows_ok_def)
  have "vertex_ok (skeleton db) (vertex_of n)" using skel_okD(4) [OF sk] assms(2) by simp
  then show "parents_ok (vertex_of n) (map arc_of (incoming db (n_ID n)))"
    by (simp add: vertex_ok_def incoming_arcs [OF act])
  assume e: "e \<in> set (incoming db (n_ID n))"
  then have "arc_ok (skeleton db) (arc_of e)" using skel_okD(5) [OF sk] by (simp add: incoming_def)
  then obtain v where "v \<in> set (sk_vertices (skeleton db))" "v_ID v = e_TargetID e" "v_Tree v = e_TreeID e"
    by (rule arc_ok_ends) simp
  then obtain m where m: "m \<in> set (g_nodes db)" "n_ID m = e_TargetID e" "n_TreeID m = e_TreeID e" by auto
  have "m = n" using unique_node [OF sk assms(2) m(1)] m(2) e by (simp add: incoming_def)
  with m(3) show "e_TreeID e = n_TreeID n" by simp
qed

lemma length_remdups_distinct: "length (remdups xs) = length xs \<longleftrightarrow> distinct xs"
  by (metis length_remdups_card_conv card_distinct distinct_card)

lemma graph_ok_invariant:
  assumes ok: "graph_ok db" and n: "n \<in> set (g_nodes db)"
  shows "ValidateIncomingInvariant ustr db n = None"
proof -
  define inc where "inc = GetActiveIncoming db (n_ID n)"
  have perm: "mset inc = mset (incoming db (n_ID n))" by (simp add: inc_def GetActiveIncoming_def)
  then have inc: "set inc = set (incoming db (n_ID n))" "length inc = length (incoming db (n_ID n))"
    by (metis set_mset_mset, metis size_mset)
  have dist: "distinct (map e_SourceID inc) = distinct (map e_SourceID (incoming db (n_ID n)))"
    using perm by (metis mset_map mset_eq_imp_distinct_iff)
  note parents = graph_ok_vertex [OF ok n, folded inc(1)]
  consider (multi) "n_ParentMode n = ''multi_reference''" | (synthesis) "n_ParentMode n \<noteq> ''multi_reference''" "n_NodeType n = ''synthesis''"
    | (lineage) "n_ParentMode n \<noteq> ''multi_reference''" "n_NodeType n \<noteq> ''synthesis''" by blast
  then show ?thesis
  proof cases
    case multi
    then have p: "reference_parents (vertex_of n) (map arc_of (incoming db (n_ID n)))" using parents(1) by (simp add: parents_ok_def)
    then obtain q where q: "n_ParentID n = Some q" "q \<in> e_SourceID ` set inc"
      by (auto simp: reference_parents_def inc image_image)
    have "\<forall>e \<in> set inc. e_EdgeType e = ''reference'' \<and> e_TreeID e = n_TreeID n" "n_NodeType n = ''message''"
        "2 \<le> length inc" "length inc \<le> 20" "distinct (map e_SourceID inc)"
      using p parents(2) by (simp_all add: reference_parents_def inc dist comp_def)
    moreover from this(5) have "length (remdups (map e_SourceID inc)) = length inc"
      using length_remdups_distinct [of "map e_SourceID inc"] by simp
    ultimately have "reference_set_error ustr n inc = None"
      using q by (simp add: reference_set_error_def bad_reference_edge_None)
    with multi \<open>n_NodeType n = ''message''\<close> show ?thesis by (simp add: ValidateIncomingInvariant_def inc_def Let_def)
  next
    case synthesis
    then have p: "synthesis_parents (vertex_of n) (map arc_of (incoming db (n_ID n)))" using parents(1) by (simp add: parents_ok_def)
    then have "\<forall>e \<in> set inc. e_EdgeType e \<noteq> ''reference''"
      unfolding inc by (cases "incoming db (n_ID n)") (auto simp: synthesis_parents_def)
    with synthesis show ?thesis by (simp add: ValidateIncomingInvariant_def list_ex_iff Let_def flip: inc_def)
  next
    case lineage
    then have p: "n_NodeType n = ''message''" "lineage_parents (vertex_of n) (map arc_of (incoming db (n_ID n)))"
      using parents(1) by (simp_all add: parents_ok_def)
    then have "length inc \<le> 1 \<and> (\<forall>e \<in> set inc. e_EdgeType e \<noteq> ''reference'')"
      unfolding inc by (auto simp: lineage_parents_def split: option.splits list.splits)
    with lineage p(1) show ?thesis by (auto simp: ValidateIncomingInvariant_def list_ex_iff Let_def simp flip: inc_def)
  qed
qed

section \<open>A small history\<close>

text \<open>An owner plants a tree, replies to its root and deletes the reply.\<close>

definition graph_lib :: token_lib where
  "graph_lib = \<lparr>tl_ustr = (\<lambda>u. itoa (uint u)), tl_uparse = (\<lambda>_. None), tl_sha256hex = (\<lambda>s. s), tl_rawlen = (\<lambda>_. 0),
     tl_marshal = (\<lambda>_. []), tl_ilike = (\<lambda>_ _. True), tl_lower = (\<lambda>s. s), tk_hmac = (\<lambda>_ s. s), tk_unmarshal = RawInvalid\<rparr>"

definition demo_start :: graph_state where
  "demo_start = \<lparr>gs_db = \<lparr>g_trees = [], g_nodes = [], g_edges = [], g_members = [], g_users = [\<lparr>us_ID = 1, us_DisplayName = ''ann''\<rparr>]\<rparr>,
     gs_reads = []\<rparr>"

definition demo_tree :: create_tree_params where
  "demo_tree = \<lparr>ct_OwnerID = 1, ct_Title = ''t'', ct_Description = [], ct_RootContent = ''r'', ct_ContentFormat = ''markdown'',
     ct_NodeType = ''message'', ct_Metadata = RawNil\<rparr>"

definition demo_node :: create_node_input where
  "demo_node = \<lparr>cn_ParentID = 11, cn_Content = ''hi'', cn_ContentFormat = [], cn_NodeType = [], cn_EdgeType = [], cn_AuthorID = 1,
     cn_Metadata = RawNil\<rparr>"

definition demo_ctx :: req_ctx where "demo_ctx = \<lparr>rc_role = ''member'', rc_requester = 1\<rparr>"

definition demo_root :: node where
  "demo_root = \<lparr>n_ID = 11, n_TreeID = 10, n_ParentID = None, n_ParentMode = ''lineage'', n_AuthorID = 1, n_Content = ''r'',
     n_ContentFormat = ''markdown'', n_NodeType = ''message'', n_SequenceNum = 1, n_Metadata = RawJSON (JObj []), n_CreatedAt = 5,
     n_EditedAt = None, n_DeletedAt = None\<rparr>"

definition demo_reply :: node where
  "demo_reply = \<lparr>n_ID = 12, n_TreeID = 10, n_ParentID = Some 11, n_ParentMode = ''lineage'', n_AuthorID = 1, n_Content = ''hi'',
     n_ContentFormat = ''markdown'', n_NodeType = ''message'', n_SequenceNum = 2, n_Metadata = RawJSON (JObj []), n_CreatedAt = 6,
     n_EditedAt = None, n_DeletedAt = None\<rparr>"

definition demo_edge :: edge_row where
  "demo_edge = \<lparr>e_ID = 13, e_TreeID = 10, e_SourceID = 11, e_TargetID = 12, e_EdgeType = ''reply'', e_SequenceNum = 1,
     e_Metadata = JObj [], e_CreatedAt = 6, e_DeletedAt = None\<rparr>"

definition demo1 :: graph_state where
  "demo1 = demo_start\<lparr>gs_db := (gs_db demo_start)\<lparr>
     g_trees := [\<lparr>tr_ID = 10, tr_OwnerID = 1, tr_Title = ''t'', tr_Description = [], tr_RootNodeID = Some 11, tr_Metadata = JObj [],
        tr_CreatedAt = 5, tr_EditedAt = Some 5, tr_DeletedAt = None\<rparr>],
     g_nodes := [demo_root], g_members := [\<lparr>tm_TreeID = 10, tm_UserID = 1, tm_Role = ''owner'', tm_JoinedAt = 5\<rparr>]\<rparr>\<rparr>"

definition demo2 :: graph_state where
  "demo2 = demo1\<lparr>gs_db := (gs_db demo1)\<lparr>g_nodes := [demo_root, demo_reply], g_edges := [demo_edge]\<rparr>\<rparr>"

definition demo3 :: graph_state where
  "demo3 = demo2\<lparr>gs_db := (gs_db demo2)\<lparr>g_nodes :=
     [demo_root, demo_reply\<lparr>n_Content := [], n_EditedAt := Some 7, n_DeletedAt := Some 7\<rparr>]\<rparr>\<rparr>"

lemmas demo_defs = demo_start_def demo_tree_def demo_node_def demo_ctx_def demo_root_def demo_reply_def demo_edge_def
  demo1_def demo2_def demo3_def

lemmas db_defs = db_formats_def db_node_types_def db_parent_modes_def db_edge_types_def has_tree_def has_node_def
  node_checks_def edge_checks_def stored_metadata_def n_active_def e_active_def tr_active_def

lemma demo_strings [simp]: "trim_space ''t'' = ''t''" "trim_space ''r'' = ''r''" "trim_space [] = []"
  "rune_count ''t'' = 1" "rune_count ''r'' = 1" "rune_count ''hi'' = 2" "rune_count [] = 0"
  by code_simp+

lemma demo_create: "\<exists>r. CreateTree (10, 11) 5 demo_tree (gs_db demo_start) = Inr (r, gs_db demo1)"
  by (simp add: CreateTree_def validateCreateTree_def db_bind_def insert_tree_def insert_member_def insert_node_def
      new_tree_row_def root_row_def svc_formats_def svc_node_types_def next_node_seq_def db_defs demo_defs)

lemma demo_node: "\<exists>r effs. svc_CreateNode (tree_lib.truncate graph_lib) demo_ctx (12, 13) 6 10 demo_node (gs_db demo1) = Inr (r, effs, gs_db demo2)"
  by (simp add: svc_CreateNode_def isViewer_def validateCreateInput_def or_default_def maxContentLen_def maxMetadataBytes_def
      check_parent_def node_GetByID_def insert_created_def new_node_row_def nullableUUID_def insert_node_def insert_parent_edge_def
      new_edge_row_def insert_edge_def next_node_seq_def last_edge_seq_def Let_def ValidateNodeMetadataCardRef_def
      ParseNodeMetadataCardRef_def db_defs demo_defs graph_lib_def tree_lib.truncate_def)

lemma demo_delete: "\<exists>r effs. svc_DeleteNode (tree_lib.truncate graph_lib) demo_ctx 7 12 (gs_db demo2) = Inr (r, effs, gs_db demo3)"
  by (simp add: svc_DeleteNode_def isViewer_def update_node_def Let_def set_edited_at_def db_defs demo_defs)

lemma demo_steps: "graph_step graph_lib [] demo_start demo1" "graph_step graph_lib [] demo1 demo2" "graph_step graph_lib [] demo2 demo3"
proof -
  have st: "s\<lparr>gs_db := gs_db s'\<rparr> = s'" if "gs_reads s = gs_reads s'" for s s' :: graph_state
    using that by simp
  show "graph_step graph_lib [] demo_start demo1"
    using demo_create graph_step.create_tree [where s = demo_start and db' = "gs_db demo1"] st [of demo_start demo1]
    by (auto simp: demo1_def)
  show "graph_step graph_lib [] demo1 demo2"
    using demo_node graph_step.create_node [where s = demo1 and db' = "gs_db demo2"] st [of demo1 demo2]
    by (auto simp: demo2_def)
  show "graph_step graph_lib [] demo2 demo3"
    using demo_delete graph_step.delete [where s = demo2 and db' = "gs_db demo3"] st [of demo2 demo3]
    by (auto simp: demo3_def)
qed

lemma demo_state_ok: "state_ok demo_start"
  by (simp add: state_ok_def graph_ok_def skel_ok_def rows_ok_def reads_ok_def demo_start_def)

lemma demo_run: "(graph_step graph_lib [])\<^sup>*\<^sup>* demo_start demo2" "(graph_step graph_lib [])\<^sup>*\<^sup>* demo_start demo3"
  using demo_steps by (meson rtranclp.rtrancl_into_rtrancl rtranclp.rtrancl_refl)+

section \<open>Properties\<close>

text \<open>
  C22: Every call of the tree, node, merge and multi-reference services is, on the conversation
  graph without contents, either no change or a step of the specification: a new tree with its
  root, or a new last message of a tree together with the parent edges its kind must have. The
  two statements of an update of a tree may be separated by any other calls.
\<close>

theorem graph_calls_refine_spec:
  assumes "graph_step lib secret s s'" "state_ok s"
  shows "skeleton (gs_db s') = skeleton (gs_db s) \<or> skel_step (skeleton (gs_db s)) (skeleton (gs_db s'))"
  using graph_step_move [OF assms(1)] assms(2) by (simp add: state_ok_def graph_ok_def db_move_def)

lemma graph_calls_refine_spec_witness:
  "skeleton (gs_db demo2) = skeleton (gs_db demo1) \<or> skel_step (skeleton (gs_db demo1)) (skeleton (gs_db demo2))"
  using graph_calls_refine_spec [OF demo_steps(2)] graph_step_ok [OF demo_steps(1) demo_state_ok] by blast

text \<open>
  C23: In every history that starts from empty tables the graph stays acyclic: each edge joins
  two messages of its own tree, and its source comes strictly before its target in the
  sequence of the tree.
\<close>

theorem reachable_edges_ascend:
  assumes "(graph_step lib secret)\<^sup>*\<^sup>* s0 s" "gs_db s0 = \<lparr>g_trees = [], g_nodes = [], g_edges = [], g_members = [], g_users = us\<rparr>"
    "gs_reads s0 = []" "e \<in> set (g_edges (gs_db s))"
  shows "\<exists>u \<in> set (g_nodes (gs_db s)). \<exists>v \<in> set (g_nodes (gs_db s)). n_ID u = e_SourceID e \<and> n_ID v = e_TargetID e
    \<and> n_TreeID u = e_TreeID e \<and> n_TreeID v = e_TreeID e \<and> n_SequenceNum u < n_SequenceNum v"
proof -
  have "state_ok s0" using assms(2,3) by (simp add: state_ok_def graph_ok_def skel_ok_def rows_ok_def reads_ok_def)
  then have "skel_ok (skeleton (gs_db s))" using graph_history.run_ok [OF assms(1)] by (simp add: state_ok_def graph_ok_def)
  then have "arc_ok (skeleton (gs_db s)) (arc_of e)" using assms(4) by (simp add: skel_okD(5))
  then show ?thesis by (simp add: arc_ok_def before_def) metis
qed

lemma reachable_edges_ascend_witness:
  "\<exists>u \<in> set (g_nodes (gs_db demo2)). \<exists>v \<in> set (g_nodes (gs_db demo2)). n_ID u = e_SourceID demo_edge \<and> n_ID v = e_TargetID demo_edge
    \<and> n_TreeID u = e_TreeID demo_edge \<and> n_TreeID v = e_TreeID demo_edge \<and> n_SequenceNum u < n_SequenceNum v"
  by (rule reachable_edges_ascend [OF demo_run(1), where us = "[\<lparr>us_ID = 1, us_DisplayName = ''ann''\<rparr>]"])
    (simp_all add: demo_start_def demo2_def)

text \<open>
  C24: In every history each message satisfies the parent invariant that the edge repository
  checks: a multi-reference reply has 2 to 20 distinct reference edges of its own tree, one of
  them from its display parent, and no other message has a reference edge or several parents
  of its own lineage.
\<close>

theorem reachable_parent_invariant:
  assumes "(graph_step lib secret)\<^sup>*\<^sup>* s0 s" "state_ok s0" "n \<in> set (g_nodes (gs_db s))"
  shows "ValidateIncomingInvariant ustr (gs_db s) n = None"
  using graph_history.run_ok [OF assms(1,2)] graph_ok_invariant assms(3) by (simp add: state_ok_def)

lemma reachable_parent_invariant_witness: "ValidateIncomingInvariant (\<lambda>_. []) (gs_db demo2) demo_reply = None"
  by (rule reachable_parent_invariant [OF demo_run(1) demo_state_ok]) (simp add: demo2_def)



end
