(* ===== verification/Graph_Reads.thy ===== *)
theory Graph_Reads
  imports Graph_History
begin

text \<open>
  Reads of the conversation graph: the orders in which trees and nodes are listed, and clients
  that follow the cursors of a keyset page until there is no next one. The pages of nodes and
  of trees are two instances of one interface, \<open>keyset\<close>.
\<close>

section \<open>Sorting of trees\<close>

lemma weak_order_less: "weak_order lt \<Longrightarrow> lt x y \<Longrightarrow> \<not> lt z y \<Longrightarrow> lt x z"
  unfolding weak_order_def by blast

lemma weak_order_less': "weak_order lt \<Longrightarrow> lt x z \<Longrightarrow> lt z y \<Longrightarrow> lt x y"
  unfolding weak_order_def by blast

text \<open>Insertion from the right, on the list itself.\<close>

fun ins_after :: "('a \<Rightarrow> 'a \<Rightarrow> bool) \<Rightarrow> 'a \<Rightarrow> 'a list \<Rightarrow> 'a list" where
  "ins_after lt x [] = [x]"
| "ins_after lt x (z # zs) = (if lt x z then x # z # zs else z # ins_after lt x zs)"

lemma ins_after_snoc:
  assumes "weak_order lt" "sorted_wrt (\<lambda>a b. \<not> lt b a) (zs @ [z])"
  shows "ins_after lt x (zs @ [z]) = (if lt x z then ins_after lt x zs @ [z] else zs @ [z, x])"
  using assms(2)
proof (induction zs)
  case (Cons y zs)
  have "\<not> lt z y" using Cons.prems by simp
  then have "lt x y \<Longrightarrow> lt x z" using weak_order_less [OF assms(1)] by blast
  with Cons show ?case by auto
qed simp

lemma move_down_ins_after:
  assumes "weak_order lt"
  shows "sorted_wrt (\<lambda>a b. \<not> lt b a) zs \<Longrightarrow> rev (move_down lt x (rev zs)) = ins_after lt x zs"
proof (induction zs rule: rev_induct)
  case (snoc z zs)
  have "sorted_wrt (\<lambda>a b. \<not> lt b a) zs" using snoc.prems by (simp add: sorted_wrt_append)
  with snoc.IH show ?case by (simp add: ins_after_snoc [OF assms snoc.prems])
qed simp

text \<open>Inserting a later row from the right commutes with inserting an earlier one from the left.\<close>

lemma ins_after_ins_by:
  assumes "weak_order lt"
  shows "ins_after lt x (ins_by lt y zs) = ins_by lt y (ins_after lt x zs)"
proof (induction zs)
  case (Cons z zs)
  have "lt x z \<Longrightarrow> lt z y \<Longrightarrow> lt x y" by (rule weak_order_less' [OF assms])
  moreover have "lt x y \<Longrightarrow> \<not> lt z y \<Longrightarrow> lt x z" by (rule weak_order_less [OF assms])
  ultimately show ?case using Cons by auto
qed simp

lemma ins_after_sort: "weak_order lt \<Longrightarrow> ins_after lt x (sort_stable lt xs) = sort_stable lt (xs @ [x])"
  by (induction xs) (simp_all add: ins_after_ins_by)

lemma insertion_sort_stable:
  assumes "weak_order lt"
  shows "rev (foldl (\<lambda>acc x. move_down lt x acc) [] xs) = sort_stable lt xs"
proof (induction xs rule: rev_induct)
  case (snoc x xs)
  have "rev (foldl (\<lambda>acc x. move_down lt x acc) [] (xs @ [x]))
      = rev (move_down lt x (rev (rev (foldl (\<lambda>acc x. move_down lt x acc) [] xs))))" by simp
  also have "\<dots> = ins_after lt x (sort_stable lt xs)"
    unfolding snoc.IH by (rule move_down_ins_after [OF assms sorted_sort_stable [OF assms]])
  finally show ?case by (simp add: ins_after_sort [OF assms])
qed simp

lemma weak_order_pair:
  fixes f :: "'a \<Rightarrow> 'b :: linorder" and g :: "'a \<Rightarrow> 'c :: linorder"
  shows "weak_order (\<lambda>a b. f a < f b \<or> f a = f b \<and> g a < g b)"
  by (rule weak_orderI) auto

lemma weak_order_by: "weak_order (\<lambda>a b. f a < (f b :: 'b :: linorder))"
  by (rule weak_orderI) auto

lemma weak_order_if: "weak_order f \<Longrightarrow> weak_order g \<Longrightarrow> weak_order (\<lambda>a b. if c then f a b else g a b)"
  by (cases c) simp_all

lemma weak_order_False: "weak_order (\<lambda>_ _. False)"
  by (rule weak_orderI) auto

lemma weak_order_pair_desc:
  fixes f :: "'a \<Rightarrow> 'b :: linorder" and g :: "'a \<Rightarrow> 'c :: linorder"
  shows "weak_order (\<lambda>a b. f b < f a \<or> f a = f b \<and> g b < g a)"
  by (rule weak_orderI) auto

lemma weak_order_by_desc: "weak_order (\<lambda>a b. f b < (f a :: 'b :: linorder))"
  by (rule weak_orderI) auto

lemma treeLess_weak: "weak_order (treeLess lib order)"
  unfolding treeLess_def [abs_def] Let_def
  by (intro weak_order_if weak_order_pair weak_order_pair_desc weak_order_by weak_order_by_desc weak_order_False)

text \<open>
  \<open>sortTreeRows\<close>, the hand-written insertion sort of the tree list, is the stable sort by
  \<open>treeLess\<close> for every sort order: it permutes the rows, orders them, and keeps the order of
  rows that compare equal.
\<close>

lemma sortTreeRows_stable_sort: "sortTreeRows lib order rows = sort_stable (treeLess lib order) rows"
  unfolding sortTreeRows_def by (rule insertion_sort_stable [OF treeLess_weak])

section \<open>Keyset pages\<close>

text \<open>
  A client that reads a page, keeps its rows, and goes on with the next cursor while there is
  more. The loop ends only if the pages make it end.
\<close>

partial_function (option) follow :: "('k option \<Rightarrow> 'r list \<times> 'k option \<times> bool) \<Rightarrow> 'k option \<Rightarrow> 'r list option" where
  "follow page cursor =
     (case page cursor of (rows, nxt, hasMore) \<Rightarrow>
        if hasMore then Option.bind (follow page nxt) (\<lambda>rest. Some (rows @ rest)) else Some rows)"

declare follow.simps [code]

text \<open>The page of the first \<open>n\<close> rows of those that are left, as the client sees them.\<close>

definition chunk :: "('r \<Rightarrow> 'v) \<Rightarrow> ('r \<Rightarrow> 'k) \<Rightarrow> nat \<Rightarrow> 'r list \<Rightarrow> 'v list \<times> 'k option \<times> bool" where
  "chunk view key n rows = (map view (take n rows), if n < length rows then Some (key (last (take n rows))) else None, n < length rows)"

text \<open>What a page query offers: an order that separates rows with different keys.\<close>

locale keyset =
  fixes before :: "'r \<Rightarrow> 'r \<Rightarrow> bool" and key :: "'r \<Rightarrow> 'k"
  assumes order: "weak_order before" and total: "key a \<noteq> key b \<Longrightarrow> before a b \<or> before b a"
begin

lemma asym: "before a b \<Longrightarrow> \<not> before b a"
  using order unfolding weak_order_def by blast

lemma sorted_strict: "distinct (map key xs) \<Longrightarrow> sorted_wrt before (sort_stable before xs)"
proof -
  assume "distinct (map key xs)"
  moreover have "mset (map key (sort_stable before xs)) = mset (map key xs)" by simp
  ultimately have d: "distinct (map key (sort_stable before xs))" using mset_eq_imp_distinct_iff by blast
  from sorted_sort_stable [OF order, of xs] d show ?thesis
  proof (induction "sort_stable before xs" rule: rev_induct)
    case Nil
    then show ?case by (simp add: sorted_wrt.simps)
  next
    case (snoc y ys)
    have "sorted_wrt before zs" if "sorted_wrt (\<lambda>a b. \<not> before b a) zs" "distinct (map key zs)" for zs
      using that
    proof (induction zs)
      case (Cons z zs)
      have "before z w" if "w \<in> set zs" for w
        using Cons.prems that total [of z w] by (auto simp: image_iff)
      with Cons show ?case by simp
    qed simp
    with snoc.prems show ?case by blast
  qed
qed

lemma after_cursor: "sorted_wrt before (as @ m # bs) \<Longrightarrow> filter (before m) (as @ m # bs) = bs"
proof -
  assume s: "sorted_wrt before (as @ m # bs)"
  have "filter (before m) as = []" "filter (before m) bs = bs" "\<not> before m m"
    using s asym by (auto simp: sorted_wrt_append filter_empty_conv filter_id_conv)
  then show ?thesis by simp
qed

text \<open>Following the cursors of a table that does not change returns every row once, in order.\<close>

lemma follow_all:
  assumes s: "sorted_wrt before xs" and n: "0 < n" and first: "page None = chunk view key n xs"
    and later: "\<And>m. m \<in> set xs \<Longrightarrow> page (Some (key m)) = chunk view key n (filter (before m) xs)"
  shows "follow page None = Some (map view xs)"
proof -
  have rest: "follow page (Some (key m)) = Some (map view ys)" if "xs = as @ m # ys" for as m ys
    using that
  proof (induction "length ys" arbitrary: as m ys rule: less_induct)
    case less
    have p: "page (Some (key m)) = chunk view key n ys"
      using later [of m] after_cursor [of as m ys] s less.prems by simp
    show ?case
    proof (cases "n < length ys")
      case True
      define m' where "m' = last (take n ys)"
      have "take n ys \<noteq> []" using True n by auto
      then have "take n ys = butlast (take n ys) @ [m']" by (simp add: m'_def)
      then have "xs = (as @ m # butlast (take n ys)) @ m' # drop n ys"
        using less.prems by (metis append.assoc append_Cons append_Nil append_take_drop_id)
      moreover have "length (drop n ys) < length ys" using True n by simp
      ultimately have "follow page (Some (key m')) = Some (map view (drop n ys))" using less.hyps by blast
      with True show ?thesis by (subst follow.simps) (simp add: p chunk_def m'_def flip: map_append)
    next
      case False
      then show ?thesis by (subst follow.simps) (simp add: p chunk_def)
    qed
  qed
  show ?thesis
  proof (cases "n < length xs")
    case True
    define m where "m = last (take n xs)"
    have "take n xs \<noteq> []" using True n by auto
    then have "take n xs = butlast (take n xs) @ [m]" by (simp add: m_def)
    then have "xs = butlast (take n xs) @ m # drop n xs"
      by (metis append.assoc append_Cons append_Nil append_take_drop_id)
    from rest [OF this] True show ?thesis by (subst follow.simps) (simp add: first chunk_def m_def flip: map_append)
  next
    case False
    then show ?thesis by (subst follow.simps) (simp add: first chunk_def)
  qed
qed

end

interpretation node_pages: keyset keyset_before n_ID
  by unfold_locales (auto simp: keyset_before_def weak_order_def)

interpretation tree_pages: keyset tree_keyset_before tr_ID
  by unfold_locales (auto simp: tree_keyset_before_def weak_order_def)

section \<open>Pages of nodes and trees\<close>

lemma find_key:
  assumes "distinct (map key xs)" "m \<in> set xs"
  shows "find (\<lambda>x. key x = key m) xs = Some m"
  using assms by (induction xs) auto

lemma take_Suc_more: "n < length xs \<Longrightarrow> take n (take (Suc n) xs) = take n xs"
  by (simp add: take_take min_def)

definition node_page_of :: "graph_db \<Rightarrow> uuid \<Rightarrow> int \<Rightarrow> uuid option \<Rightarrow> node list \<times> uuid option \<times> bool" where
  "node_page_of db t limit cursor =
     (let p = ListByTreePage db t cursor limit in (map nd_Node (np_Nodes p), np_NextCursor p, np_HasMore p))"

lemma map_nd_Node_fill: "map nd_Node (fill_names db (map (with_counts db) ns)) = ns"
  by (simp add: fill_names_def Let_def comp_def with_counts_def nodeToDetail_def)

lemma page_limit_pos: "1 \<le> page_limit limit"
  by (simp add: page_limit_def Let_def)

lemma node_page_chunk:
  assumes t: "t \<noteq> uuid_Nil"
    and rows: "node_ListKeyset db t cursor (page_limit limit + 1) = take (nat (page_limit limit + 1)) ns"
  shows "node_page_of db t limit cursor = chunk (\<lambda>n. n) n_ID (nat (page_limit limit)) ns"
proof -
  define k where "k = nat (page_limit limit)"
  have lim: "page_limit limit = int k" "0 < k" using page_limit_pos [of limit] by (simp_all add: k_def)
  have rows': "node_ListKeyset db t cursor (int k + 1) = take (Suc k) ns" using rows by (simp add: lim nat_add_distrib)
  show ?thesis
  proof (cases "k < length ns")
    case True
    then have "take k ns \<noteq> []" using lim(2) by auto
    with True show ?thesis
      using t unfolding node_page_of_def ListByTreePage_def Let_def lim(1)
      by (simp add: rows' chunk_def map_nd_Node_fill take_Suc_more)
  next
    case False
    then show ?thesis
      using t unfolding node_page_of_def ListByTreePage_def Let_def lim(1)
      by (simp add: rows' chunk_def map_nd_Node_fill)
  qed
qed



text \<open>The default list of trees, for a request without search, filter or other order.\<close>

definition tree_page_of :: "tree_lib \<Rightarrow> graph_db \<Rightarrow> int \<Rightarrow> uuid option \<Rightarrow> uuid list \<times> uuid option \<times> bool" where
  "tree_page_of lib db limit cursor =
     (case ListTrees lib db \<lparr>lt_Cursor = cursor, lt_Limit = limit, lt_Sort = [], lt_Status = [], lt_Role = None, lt_Search = []\<rparr> of
        Inl _ \<Rightarrow> ([], None, False)
      | Inr r \<Rightarrow> (map ts_ID (lr_Trees r), lr_NextCursor r, lr_HasMore r))"

lemma ts_ID_summary: "ts_ID (treeToSummary t) = tr_ID t"
  by (simp add: treeToSummary_def fillSessionFields_def split: option.splits)

lemma ts_ID_summaries: "map ts_ID (summaries_of db rows) = map tr_ID rows"
proof -
  have "map ts_ID (fillLastActivity db ss) = map ts_ID ss" "map ts_ID (fillMemberCounts db ss) = map ts_ID ss" for ss
    by (auto simp: fillLastActivity_def fillMemberCounts_def Let_def split: option.splits)
  then show ?thesis
    by (simp add: summaries_of_def fillNodeCounts_def Let_def)
      (auto simp: ts_ID_summary split: option.splits)
qed

lemma clampLimit_bounds: "1 \<le> clampLimit n" "clampLimit n \<le> 100"
  by (simp_all add: clampLimit_def)

lemma tree_page_chunk:
  assumes c: "cursor \<noteq> Some uuid_Nil"
    and rows: "tree_ListKeyset db cursor (clampLimit limit + 1) = take (nat (clampLimit limit + 1)) ts"
  shows "tree_page_of lib db limit cursor = chunk tr_ID tr_ID (nat (clampLimit limit)) ts"
proof -
  define k where "k = nat (clampLimit limit)"
  have lim: "clampLimit limit = int k" "0 < k" using clampLimit_bounds [of limit] by (simp_all add: k_def)
  have rows': "tree_ListKeyset db cursor (int k + 1) = take (Suc k) ts" using rows by (simp add: lim nat_add_distrib)
  have nonempty: "ss \<noteq> [] \<longleftrightarrow> rs \<noteq> []" "rs \<noteq> [] \<Longrightarrow> ts_ID (last ss) = tr_ID (last rs)" if "ss = summaries_of db rs" for ss rs
    using that ts_ID_summaries [of db rs] by (metis map_is_Nil_conv, metis last_map map_is_Nil_conv)
  show ?thesis
  proof (cases "k < length ts")
    case True
    then have "take k ts \<noteq> []" using lim(2) by auto
    with True show ?thesis
      using c nonempty [OF refl] unfolding tree_page_of_def ListTrees_def Let_def
      by (simp add: validateListTrees_def lim(1) listTreesKeyset_def Let_def rows' chunk_def ts_ID_summaries take_Suc_more next_cursor_def)
  next
    case False
    then show ?thesis
      using c unfolding tree_page_of_def ListTrees_def Let_def
      by (simp add: validateListTrees_def lim(1) listTreesKeyset_def Let_def rows' chunk_def ts_ID_summaries next_cursor_def)
  qed
qed

text \<open>
  A client that follows the cursors of the default tree list stops, and has then read every
  tree that is not deleted exactly once, the newest first (while nobody writes).
\<close>

lemma tree_pages_complete:
  assumes "distinct (map tr_ID (g_trees db))" "uuid_Nil \<notin> tr_ID ` set (g_trees db)"
  shows "follow (tree_page_of lib db limit) None = Some (map tr_ID (sort_stable tree_keyset_before (active_trees db)))"
proof -
  let ?xs = "sort_stable tree_keyset_before (active_trees db)"
  have d: "distinct (map tr_ID (active_trees db))" using assms(1) by (simp add: active_trees_def distinct_map_filter)
  have clamp: "clamp_page (clampLimit limit + 1) = clampLimit limit + 1"
    using clampLimit_bounds [of limit] by (simp add: clamp_page_def)
  have "tree_page_of lib db limit None = chunk tr_ID tr_ID (nat (clampLimit limit)) ?xs"
    by (rule tree_page_chunk) (simp_all add: tree_ListKeyset_def Let_def clamp)
  moreover have "tree_page_of lib db limit (Some (tr_ID m)) = chunk tr_ID tr_ID (nat (clampLimit limit)) (filter (tree_keyset_before m) ?xs)"
    if "m \<in> set ?xs" for m
  proof (rule tree_page_chunk)
    have m: "m \<in> set (g_trees db)" using that by (simp add: active_trees_def)
    show "Some (tr_ID m) \<noteq> Some uuid_Nil" using m assms(2) by force
    show "tree_ListKeyset db (Some (tr_ID m)) (clampLimit limit + 1) = take (nat (clampLimit limit + 1)) (filter (tree_keyset_before m) ?xs)"
      using find_key [OF assms(1) m] by (simp add: tree_ListKeyset_def Let_def clamp)
  qed
  ultimately show ?thesis
    using tree_pages.follow_all [OF tree_pages.sorted_strict [OF d], of "nat (clampLimit limit)" "tree_page_of lib db limit" tr_ID]
      clampLimit_bounds [of limit] by simp
qed

lemma tree_pages_complete_witness: "follow (tree_page_of (tree_lib.truncate graph_lib) (gs_db demo2) 1) None = Some [10]"
proof -
  have "sort_stable tree_keyset_before (active_trees (gs_db demo2)) = g_trees (gs_db demo2)"
    by (simp add: demo_defs active_trees_def tr_active_def sort_stable_def)
  then show ?thesis
    using tree_pages_complete [of "gs_db demo2" "tree_lib.truncate graph_lib" 1] by (simp add: demo_defs)
qed

text \<open>A cursor whose message was deleted after the page was read ends the list: the next page is empty.\<close>

lemma deleted_cursor_ends_pages:
  assumes "\<forall>n \<in> set (tree_nodes db t). n_ID n \<noteq> c"
  shows "node_page_of db t limit (Some c) = ([], None, False)"
proof -
  have "find (\<lambda>n. n_ID n = c) (tree_nodes db t) = None" using assms by (auto simp: find_None_iff)
  then show ?thesis
    using page_limit_pos [of limit]
    by (simp add: node_page_of_def ListByTreePage_def Let_def node_ListKeyset_def fill_names_def)
qed

end
