(* ===== verification/Graph_Contracts.thy ===== *)
theory Graph_Contracts
  imports Graph_History
begin

text \<open>
  What single calls of the graph services promise their callers: when a tree cannot be created,
  what a pin changes, that a selection token verifies to what was signed, and that a reply with
  a request identifier is created once.
\<close>

section \<open>Creation of trees\<close>

lemma validateCreateTree_title:
  "validateCreateTree p = None \<Longrightarrow> \<not> 500 < rune_count (trim_space (ct_Title p))"
  by (auto simp: validateCreateTree_def Let_def split: if_splits)

lemma root_row_simps:
  "n_ID (root_row r now t p db) = r" "n_TreeID (root_row r now t p db) = t" "n_ParentID (root_row r now t p db) = None"
  by (simp_all add: root_row_def)

lemma create_tree_inserts:
  assumes "validateCreateTree p = None" "stored_metadata (ct_Metadata p) = Some metadata"
  shows "is_err (CreateTree newIDs now p db) \<longleftrightarrow> has_tree db (fst newIDs)
    \<or> list_ex (\<lambda>m. tm_TreeID m = fst newIDs \<and> tm_UserID m = ct_OwnerID p) (g_members db)
    \<or> \<not> list_ex (\<lambda>u. us_ID u = ct_OwnerID p) (g_users db)
    \<or> ct_ContentFormat p = ''code'' \<or> ct_NodeType p = ''announcement'' \<or> has_node db (snd newIDs)"
proof -
  have fmt: "ct_ContentFormat p \<in> set db_formats \<longleftrightarrow> ct_ContentFormat p \<noteq> ''code''"
    "ct_NodeType p \<in> set db_node_types \<longleftrightarrow> ct_NodeType p \<noteq> ''announcement''"
    using assms(1) by (auto simp: validateCreateTree_def svc_formats_def svc_node_types_def db_formats_def db_node_types_def
        Let_def split: if_splits)
  have checks: "node_checks (root_row r now t p d) \<longleftrightarrow> ct_ContentFormat p \<noteq> ''code'' \<and> ct_NodeType p \<noteq> ''announcement''" for r t d
    by (simp add: node_checks_def root_row_def fmt db_parent_modes_def)
  show ?thesis
    using assms validateCreateTree_title [OF assms(1)]
    by (simp add: CreateTree_def Let_def db_bind_def insert_tree_def insert_member_def insert_node_def checks new_tree_row_def
        has_tree_def has_node_def is_err_def root_row_simps)
qed



section \<open>Pins\<close>

text \<open>
  Pinning or unpinning a message whose metadata is an object changes nothing but the member
  \<open>pinned\<close> of it and the edit time: all other members keep their values and their order, all
  other columns and all other rows of every table stay.
\<close>

lemma pin_changes_pinned_only:
  assumes "svc_UpdateNode lib ctx now i \<lparr>un_Content = None, un_ContentFormat = None, un_Metadata = None, un_Pinned = Some b\<rparr> db
             = Inr (d, effs, db')"
    and "distinct (map n_ID (g_nodes db))" "n \<in> set (g_nodes db)" "n_ID n = i" "n_Metadata n = RawJSON (JObj ms)"
  shows "db' = db\<lparr>g_nodes := map (\<lambda>m. if n_ID m = i then n\<lparr>n_Metadata := RawJSON (JObj (filter (\<lambda>m. fst m \<noteq> ''pinned'') ms
      @ (if b then [(''pinned'', JBool True)] else []))), n_EditedAt := Some now\<rparr> else m) (g_nodes db)\<rparr>"
proof -
  obtain u where ap: "applyUpdate now i \<lparr>un_Content = None, un_ContentFormat = None, un_Metadata = None, un_Pinned = Some b\<rparr> db = Inr (u, db')"
    using assms(1) by (auto simp: svc_UpdateNode_def split: if_splits option.splits sum.splits)
  then obtain n0 where n0: "node_GetByID db i = Some n0" by (auto simp: applyUpdate_def split: option.splits)
  have uniq: "m = n" if "m \<in> set (g_nodes db)" "n_ID m = i" for m
    using assms(2-4) that by (simp add: distinct_map inj_on_def)
  have "n0 = n" using uniq node_GetByID_mem [OF n0] by blast
  with n0 have n: "node_GetByID db i = Some n" and act: "n_active n" using node_GetByID_mem [OF n0] by simp_all
  define md where "md = JObj (filter (\<lambda>m. fst m \<noteq> ''pinned'') ms @ (if b then [(''pinned'', JBool True)] else []))"
  have md: "metadataPinMerge (JObj ms) None (Some b) = Some md"
    by (cases b) (simp_all add: md_def metadataPinMerge_def is_object_def obj_put_def)
  have upd: "update_node now i (\<lambda>m. m\<lparr>n_Metadata := RawJSON md, n_EditedAt := Some now\<rparr>) db = Some (u, db')"
    using ap n md assms(5) by (simp add: applyUpdate_def explicit_metadata_def jsonb_of_def split: option.splits)
  have found: "find (\<lambda>m. n_ID m = i \<and> n_active m) (g_nodes db) = Some n" using n by (simp add: node_GetByID_def)
  have eq: "set_edited_at now n (n\<lparr>n_Metadata := RawJSON md, n_EditedAt := Some now\<rparr>) = n\<lparr>n_Metadata := RawJSON md, n_EditedAt := Some now\<rparr>"
    by (simp add: set_edited_at_def)
  have "db' = db\<lparr>g_nodes := map (\<lambda>m. if n_ID m = i \<and> n_active m then n\<lparr>n_Metadata := RawJSON md, n_EditedAt := Some now\<rparr> else m) (g_nodes db)\<rparr>"
    using upd by (simp add: update_node_def found eq Let_def)
  also have "map (\<lambda>m. if n_ID m = i \<and> n_active m then n\<lparr>n_Metadata := RawJSON md, n_EditedAt := Some now\<rparr> else m) (g_nodes db)
      = map (\<lambda>m. if n_ID m = i then n\<lparr>n_Metadata := RawJSON md, n_EditedAt := Some now\<rparr> else m) (g_nodes db)"
    using uniq act by (intro map_cong) auto
  finally show ?thesis by (simp add: md_def)
qed

lemma demo_pin:
  "\<exists>d effs. svc_UpdateNode (tree_lib.truncate graph_lib) demo_ctx 9 12
     \<lparr>un_Content = None, un_ContentFormat = None, un_Metadata = None, un_Pinned = Some True\<rparr> (gs_db demo2)
     = Inr (d, effs, (gs_db demo2)\<lparr>g_nodes := [demo_root, demo_reply\<lparr>n_Metadata := RawJSON (JObj [(''pinned'', JBool True)]),
         n_EditedAt := Some 9\<rparr>]\<rparr>)"
  by (simp add: svc_UpdateNode_def isViewer_def validateUpdate_def applyUpdate_def explicit_metadata_def jsonb_of_def
      metadataPinMerge_def is_object_def obj_put_def update_node_def node_GetByID_def set_edited_at_def Let_def db_defs demo_defs)

lemma pin_changes_pinned_only_witness:
  "(gs_db demo2)\<lparr>g_nodes := [demo_root, demo_reply\<lparr>n_Metadata := RawJSON (JObj [(''pinned'', JBool True)]), n_EditedAt := Some 9\<rparr>]\<rparr>
   = (gs_db demo2)\<lparr>g_nodes := map (\<lambda>m. if n_ID m = 12 then demo_reply\<lparr>n_Metadata := RawJSON (JObj (filter (\<lambda>m. fst m \<noteq> ''pinned'') []
      @ (if True then [(''pinned'', JBool True)] else []))), n_EditedAt := Some 9\<rparr> else m) (g_nodes (gs_db demo2))\<rparr>"
proof -
  obtain d effs where "svc_UpdateNode (tree_lib.truncate graph_lib) demo_ctx 9 12
     \<lparr>un_Content = None, un_ContentFormat = None, un_Metadata = None, un_Pinned = Some True\<rparr> (gs_db demo2)
     = Inr (d, effs, (gs_db demo2)\<lparr>g_nodes := [demo_root, demo_reply\<lparr>n_Metadata := RawJSON (JObj [(''pinned'', JBool True)]),
         n_EditedAt := Some 9\<rparr>]\<rparr>)"
    using demo_pin by blast
  then show ?thesis
    by (rule pin_changes_pinned_only) (simp_all add: demo_defs)
qed

section \<open>Selection tokens\<close>

lemma of_b64_char:
  "n < 64 \<Longrightarrow> of_char (b64_char n) =
     (if n < 26 then 65 + n else if n < 52 then 71 + n else if n < 62 then n - 4 else if n = 62 then 45 else (95 :: nat))"
  by (simp add: b64_char_def)

lemma b64_value_char:
  assumes "n < 64"
  shows "b64_value (b64_char n) = Some n"
proof -
  have eq: "b64_char n = CHR ''-'' \<longleftrightarrow> of_char (b64_char n) = (45 :: nat)" "b64_char n = CHR ''_'' \<longleftrightarrow> of_char (b64_char n) = (95 :: nat)"
    using of_char_eq_iff [of "b64_char n" "CHR ''-''", where 'a = nat] of_char_eq_iff [of "b64_char n" "CHR ''_''", where 'a = nat] by simp_all
  show ?thesis
    unfolding b64_value_def Let_def byte_in_def eq of_b64_char [OF assms] using assms by auto
qed

lemma b64_char_plain: "n < 64 \<Longrightarrow> b64_char n \<noteq> CHR 0x0A \<and> b64_char n \<noteq> CHR 0x0D \<and> b64_char n \<noteq> CHR ''.''"
  using of_b64_char [of n] by (auto split: if_splits)

lemma digit_split:
  fixes x y k :: nat
  assumes "y < k"
  shows "(x * k + y) div k = x" "(x * k + y) mod k = y"
  using assms by simp_all

lemma digit_bound:
  fixes x y k m :: nat
  assumes "x < m" "y < k"
  shows "x * k + y < m * k"
proof -
  have "x * k + y < (x + 1) * k" using assms(2) by simp
  also have "\<dots> \<le> m * k" using assms(1) by (intro mult_le_mono1) simp
  finally show ?thesis .
qed

lemma byte_digits: "b < 256 \<Longrightarrow> b div 16 < 16" "b < 256 \<Longrightarrow> b div 64 < 4" "b < 256 \<Longrightarrow> b div 4 < 64" for b :: nat
  by (simp_all add: div_less_iff_less_mult)

lemma b64_sextets_bound: "\<forall>b \<in> set bs. b < 256 \<Longrightarrow> \<forall>x \<in> set (b64_sextets bs). x < 64"
proof (induction bs rule: b64_sextets.induct)
  case (2 a)
  then show ?case using digit_bound [of "a mod 4" 4 0 16] by (simp add: byte_digits)
next
  case (3 a b)
  then show ?case using digit_bound [of "a mod 4" 4 "b div 16" 16] digit_bound [of "b mod 16" 16 0 4] by (simp add: byte_digits)
next
  case (4 a b c r)
  then show ?case
    using digit_bound [of "a mod 4" 4 "b div 16" 16] digit_bound [of "b mod 16" 16 "c div 64" 4] by (simp add: byte_digits)
qed simp

lemma b64_bytes_sextets: "\<forall>b \<in> set bs. b < 256 \<Longrightarrow> b64_bytes (b64_sextets bs) = Some bs"
proof (induction bs rule: b64_sextets.induct)
  case (2 a)
  then show ?case using digit_split [of 0 16 "a mod 4"] by simp
next
  case (3 a b)
  then show ?case
    using digit_split [of "b div 16" 16 "a mod 4"] digit_split [of 0 4 "b mod 16"] byte_digits(1) [of b] by simp
next
  case (4 a b c r)
  then show ?case
    using digit_split [of "b div 16" 16 "a mod 4"] digit_split [of "c div 64" 4 "b mod 16"] byte_digits(1) [of b] byte_digits(2) [of c]
    by simp
qed simp

lemma b64_values_chars: "\<forall>x \<in> set xs. x < 64 \<Longrightarrow> b64_values (map b64_char xs) = Some xs"
  by (induction xs) (simp_all add: b64_value_char)

lemma bytes_bound: "\<forall>b \<in> set (map of_char raw :: nat list). b < 256"
  by simp

lemma base64url_plain:
  assumes "c \<in> set (base64url raw)"
  shows "c \<noteq> CHR 0x0A \<and> c \<noteq> CHR 0x0D \<and> c \<noteq> CHR ''.''"
proof -
  obtain x where x: "x \<in> set (b64_sextets (map of_char raw))" "c = b64_char x" using assms by (auto simp: base64url_def)
  have "x < 64" using b64_sextets_bound [OF bytes_bound] x(1) by (rule bspec)
  then show ?thesis unfolding x(2) by (rule b64_char_plain)
qed

lemma base64url_roundtrip: "base64url_decode (base64url raw) = Some raw"
proof -
  note b = bytes_bound [of raw]
  have "filter (\<lambda>c. c \<noteq> CHR 0x0A \<and> c \<noteq> CHR 0x0D) (base64url raw) = base64url raw"
    using base64url_plain by (simp add: filter_id_conv)
  moreover have "b64_values (base64url raw) = Some (b64_sextets (map of_char raw))"
    unfolding base64url_def using b64_values_chars b64_sextets_bound [OF b] by blast
  ultimately show ?thesis by (simp add: base64url_decode_def b64_bytes_sextets [OF b] comp_def)
qed

lemma split_on_plain: "d \<notin> set p \<Longrightarrow> split_on d p = [p]"
  by (induction p) auto

lemma split_on_append: "d \<notin> set p \<Longrightarrow> split_on d (p @ d # r) = p # split_on d r"
  by (induction p) auto

lemma split_token:
  assumes "CHR ''.'' \<notin> set enc" "CHR ''.'' \<notin> set sig"
  shows "split_on (CHR ''.'') (''mrs.v1.'' @ enc @ ''.'' @ sig) = [''mrs'', ''v1'', enc, sig]"
  using split_on_append [OF assms(1), of sig] split_on_plain [OF assms(2)] by simp

lemma those_map_Some: "those (map (\<lambda>x. Some (f x)) xs) = Some (map f xs)"
  by (induction xs) simp_all

lemma json_int64_jint: "int64_min \<le> i \<Longrightarrow> i \<le> int64_max \<Longrightarrow> json_int64 (jint i) = Some i"
  by (simp add: jint_def json_int64_def)

lemma int_member_jint: "int64_min \<le> i \<Longrightarrow> i \<le> int64_max \<Longrightarrow> int_member (jint i) f x = Some (f i)"
  using json_int64_jint [of i] by (simp add: int_member_def jint_def)

lemma claims_fold_keys:
  "fold_key ''v'' = ''v''" "fold_key ''tree_id'' = ''tree_id''" "fold_key ''requester_id'' = ''requester_id''"
  "fold_key ''primary_source_id'' = ''primary_source_id''" "fold_key ''source_ids'' = ''source_ids''"
  "fold_key ''source_hashes'' = ''source_hashes''" "fold_key ''budget'' = ''budget''" "fold_key ''exp'' = ''exp''"
  by code_simp+

lemma decode_claims_json:
  assumes lib: "\<And>u. tl_uparse lib (tl_ustr lib u) = Some u" "tk_unmarshal lib payload = RawJSON (claims_json (tl_ustr lib) c)"
    and ints: "int64_min \<le> sc_Version c" "sc_Version c \<le> int64_max" "int64_min \<le> sc_Budget c" "sc_Budget c \<le> int64_max"
      "int64_min \<le> sc_ExpiresAt c" "sc_ExpiresAt c \<le> int64_max"
  shows "decode_claims lib payload = Some c"
proof -
  have id: "uuid_member (tl_uparse lib) (JStr (tl_ustr lib u)) f x = Some (f u)" for u x and f :: "uuid \<Rightarrow> 'b"
    by (simp add: uuid_member_def lib(1))
  have ids: "uuid_list_member (tl_uparse lib) (JArr (map (\<lambda>i. JStr (tl_ustr lib i)) xs)) f = Some (f xs)"
    for xs and f :: "uuid list \<Rightarrow> selection_claims"
    using those_map_Some [of "\<lambda>u. u" xs] by (simp add: uuid_list_member_def comp_def id)
  have hashes: "strings_member (JArr (map JStr xs)) f = Some (f xs)" for xs and f :: "string list \<Rightarrow> selection_claims"
    using those_map_Some [of "\<lambda>u. u" xs] by (simp add: strings_member_def string_member_def comp_def)
  show ?thesis
    unfolding decode_claims_def lib(2) decode_struct_def claims_json_def
    by (simp add: claims_fold_keys assign_claims_def int_member_jint ints id ids hashes zero_claims_def)
qed

text \<open>
  C28: A selection token verifies for the caller it was signed for, until its expiry five minutes
  later, and gives back the claims that were signed with the version and the expiry stamped.
  \<open>uuid.Parse\<close> inverts \<open>String\<close>, and \<open>encoding/json\<close> decodes what it encoded of the claims.
\<close>

theorem selection_token_roundtrip:
  fixes lib :: token_lib and now now2 :: instant
  defines "stamped \<equiv> \<lambda>claims. claims\<lparr>sc_Version := 1, sc_ExpiresAt := unix_seconds (now + ReferenceSelectionTTL)\<rparr>"
  assumes "\<And>u. tl_uparse lib (tl_ustr lib u) = Some u"
    and "tk_unmarshal lib (tl_marshal lib (claims_json (tl_ustr lib) (stamped claims))) = RawJSON (claims_json (tl_ustr lib) (stamped claims))"
    and "secret \<noteq> []" "sc_TreeID claims \<noteq> uuid_Nil" "sc_SourceIDs claims \<noteq> []"
    and "int64_min \<le> sc_Budget claims" "sc_Budget claims \<le> int64_max"
    and "int64_min \<le> unix_seconds (now + ReferenceSelectionTTL)" "unix_seconds (now + ReferenceSelectionTTL) \<le> int64_max"
    and "unix_seconds now2 \<le> unix_seconds (now + ReferenceSelectionTTL)"
  shows "Verify lib secret now2 (Sign lib secret now claims) (sc_RequesterID claims) = Inr (stamped claims)"
proof -
  let ?c = "stamped claims"
  let ?enc = "base64url (tl_marshal lib (claims_json (tl_ustr lib) ?c))"
  have tok: "Sign lib secret now claims = ''mrs.v1.'' @ ?enc @ ''.'' @ base64url (tk_hmac lib secret ?enc)"
    by (simp add: Sign_def stamped_def Let_def)
  have "split_on (CHR ''.'') (Sign lib secret now claims) = [''mrs'', ''v1'', ?enc, base64url (tk_hmac lib secret ?enc)]"
    unfolding tok by (rule split_token) (use base64url_plain in blast)+
  moreover have "decode_claims lib (tl_marshal lib (claims_json (tl_ustr lib) ?c)) = Some ?c"
    using assms by (intro decode_claims_json) (simp_all add: stamped_def int64_min_def int64_max_def)
  moreover have "check_claims now2 (sc_RequesterID claims) ?c = Inr ?c"
    using assms by (simp add: check_claims_def stamped_def)
  ultimately show ?thesis using assms(4) by (simp add: Verify_def base64url_roundtrip)
qed

text \<open>Identifiers printed in unary, and one document as the only JSON text.\<close>

definition unary_claims :: selection_claims where
  "unary_claims = \<lparr>sc_Version = 1, sc_TreeID = 10, sc_RequesterID = 1, sc_PrimarySourceID = 11, sc_SourceIDs = [11, 12],
     sc_SourceHashes = [''a'', ''b''], sc_Budget = 4000, sc_ExpiresAt = 300 - 62135596800\<rparr>"

definition unary_str :: "uuid \<Rightarrow> string" where "unary_str u = replicate (unat u) (CHR ''x'')"

definition unary_lib :: token_lib where
  "unary_lib = \<lparr>tl_ustr = unary_str, tl_uparse = (\<lambda>s. Some (of_nat (length s))), tl_sha256hex = (\<lambda>s. s), tl_rawlen = (\<lambda>_. 0),
     tl_marshal = (\<lambda>_. ''j''), tl_ilike = (\<lambda>_ _. True), tl_lower = (\<lambda>s. s), tk_hmac = (\<lambda>_ s. s),
     tk_unmarshal = (\<lambda>_. RawJSON (claims_json unary_str unary_claims))\<rparr>"

lemma selection_token_roundtrip_witness:
  "Verify unary_lib ''k'' (200 * 1000000000) (Sign unary_lib ''k'' 0 unary_claims) 1 = Inr unary_claims"
proof -
  have "unary_claims\<lparr>sc_Version := 1, sc_ExpiresAt := unix_seconds (0 + ReferenceSelectionTTL)\<rparr> = unary_claims"
    by (simp add: unary_claims_def unix_seconds_def ReferenceSelectionTTL_def)
  with selection_token_roundtrip [where lib = unary_lib and claims = unary_claims and now = 0 and secret = "''k''"
      and ?now2.0 = "200 * 1000000000"] show ?thesis
    by (simp add: unary_lib_def unary_str_def, simp add: unary_claims_def unix_seconds_def ReferenceSelectionTTL_def int64_min_def int64_max_def)
qed

end
