(* ===== verification/Event_Stream.thy ===== *)
theory Event_Stream
  imports Reference_Selection
begin

text \<open>
  The stream of tree events (\<open>internal/sse\<close>): the event log with a counter and a bounded ring per
  tree (\<open>sse_event_log.go\<close>), the clients with their outboxes (\<open>sse_client.go\<close>), the hub that
  numbers, fans out and replays events (\<open>sse_hub.go\<close>), the write deadlines (\<open>deadline.go\<close>) and
  the handler that opens a stream (\<open>sse_handler.go\<close>). A channel is the list of the frames it
  holds; the clients are objects in a store, found by their identifier. A call is one step: what
  the locks of the hub make of it.
\<close>

section \<open>Events\<close>

definition MaxConnectionsPerUser :: int where [simp]: "MaxConnectionsPerUser = 10"
definition MaxConnectionsPerTree :: int where [simp]: "MaxConnectionsPerTree = 100"
definition MaxConnectionsTotal :: int where [simp]: "MaxConnectionsTotal = 10000"
definition EventBufferSize :: nat where [simp]: "EventBufferSize = 1024"
definition DefaultLogSize :: int where [simp]: "DefaultLogSize = 1000"
definition DefaultRetryMS :: int where [simp]: "DefaultRetryMS = 3000"
definition HeartbeatInterval :: duration where [simp]: "HeartbeatInterval = 30 * 1000000000"

record sse_event =
  ev_ID :: string
  ev_Type :: string
  ev_Data :: raw_message
  ev_Timestamp :: instant
  ev_TreeID :: uuid
  ev_SequenceNum :: int
  ev_ActorID :: uuid

definition EventID :: "tree_lib \<Rightarrow> uuid \<Rightarrow> int \<Rightarrow> string" where
  "EventID lib treeID n = tl_ustr lib treeID @ '':'' @ itoa n"

definition ComposeEvent :: "instant \<Rightarrow> uuid \<Rightarrow> uuid \<Rightarrow> string \<Rightarrow> raw_message \<Rightarrow> sse_event" where
  "ComposeEvent now treeID actorID eventType data =
     \<lparr>ev_ID = [], ev_Type = eventType, ev_Data = data, ev_Timestamp = now, ev_TreeID = treeID,
      ev_SequenceNum = 0, ev_ActorID = actorID\<rparr>"

text \<open>\<open>fmt.Sscanf\<close> with \<open>%d\<close>: blanks, a sign, digits; what follows the digits is left unread.\<close>

definition scan_blank :: "char \<Rightarrow> bool" where
  "scan_blank c \<longleftrightarrow> c \<in> {CHR 0x20, CHR 0x09, CHR 0x0B, CHR 0x0C, CHR 0x0D}"

definition dec_value :: "string \<Rightarrow> int" where
  "dec_value ds = foldl (\<lambda>n c. 10 * n + (int (of_char c) - 48)) 0 ds"

definition scan_int :: "string \<Rightarrow> int option" where
  "scan_int s =
     (let s = dropWhile scan_blank s;
          neg = (case s of c # _ \<Rightarrow> c = CHR ''-'' | [] \<Rightarrow> False);
          rest = (case s of c # r \<Rightarrow> if c = CHR ''-'' \<or> c = CHR ''+'' then r else s | [] \<Rightarrow> []);
          ds = takeWhile (byte_in 48 57) rest;
          v = (if neg then - dec_value ds else dec_value ds)
      in if ds = [] \<or> v < int64_min \<or> int64_max < v then None else Some v)"

text \<open>The identifier of an event is split at its last colon.\<close>

definition parseEventID :: "tree_lib \<Rightarrow> string \<Rightarrow> (uuid \<times> int) option" where
  "parseEventID lib i =
     (if CHR '':'' \<notin> set i then None
      else (let seqStr = rev (takeWhile (\<lambda>c. c \<noteq> CHR '':'') (rev i));
                treeStr = rev (tl (dropWhile (\<lambda>c. c \<noteq> CHR '':'') (rev i)))
            in case tl_uparse lib treeStr of None \<Rightarrow> None
               | Some t \<Rightarrow> map_option (\<lambda>n. (t, n)) (scan_int seqStr)))"

section \<open>Frames\<close>

definition envelope_json :: "string \<Rightarrow> string \<Rightarrow> instant \<Rightarrow> int \<Rightarrow> string \<Rightarrow> json \<Rightarrow> json" where
  "envelope_json eventType treeID now n actor data =
     JObj [(''event_type'', JStr eventType), (''tree_id'', JStr treeID), (''timestamp'', JStr (format_rfc3339 now)),
           (''sequence_num'', jint n), (''actor_id'', JStr actor), (''data'', data)]"

definition newline :: string where "newline = [CHR 0x0A]"

text \<open>Encoding fails only for a payload that is no JSON text.\<close>

definition formatEvent :: "tree_lib \<Rightarrow> sse_event \<Rightarrow> string" where
  "formatEvent lib ev =
     (let i = (if ev_ID ev = [] then EventID lib (ev_TreeID ev) (ev_SequenceNum ev) else ev_ID ev);
          env = (\<lambda>data. tl_marshal lib (envelope_json (ev_Type ev) (tl_ustr lib (ev_TreeID ev)) (ev_Timestamp ev)
                                          (ev_SequenceNum ev) (tl_ustr lib (ev_ActorID ev)) data));
          out = (case ev_Data ev of RawNil \<Rightarrow> env JNull | RawJSON j \<Rightarrow> env j
                 | RawInvalid _ \<Rightarrow> ''{\"event_type\":'' @ strconv_Quote (ev_Type ev) @ '',\"error\":\"encode_failed\"}'')
      in ''id: '' @ i @ newline @ ''event: '' @ ev_Type ev @ newline @ ''data: '' @ out @ newline
         @ ''retry: '' @ itoa DefaultRetryMS @ newline @ newline)"

text \<open>\<open>encoding/json\<close> writes a byte slice as a string in the standard base64 alphabet, with padding.\<close>

definition base64std :: "string \<Rightarrow> string" where
  "base64std raw =
     map (\<lambda>c. if c = CHR ''-'' then CHR ''+'' else if c = CHR ''_'' then CHR ''/'' else c) (base64url raw)
     @ replicate ((3 - length raw mod 3) mod 3) (CHR ''='')"

definition zeroUUIDString :: string where "zeroUUIDString = ''00000000-0000-0000-0000-000000000000''"

definition jsonMustString :: "string \<Rightarrow> string" where
  "jsonMustString bytes = ''\"'' @ base64std bytes @ ''\"''"

definition formatErrorEvent :: "tree_lib \<Rightarrow> instant \<Rightarrow> uuid \<Rightarrow> string \<Rightarrow> string \<Rightarrow> string" where
  "formatErrorEvent lib now treeID code message =
     ''event: error'' @ newline @ ''data: '' @ jsonMustString (tl_marshal lib (envelope_json ''error'' (tl_ustr lib treeID) now 0
        zeroUUIDString (JObj [(''error'', JStr message), (''code'', JStr code)]))) @ newline @ newline"

definition formatDoneEvent :: "tree_lib \<Rightarrow> instant \<Rightarrow> uuid \<Rightarrow> string \<Rightarrow> string \<Rightarrow> string" where
  "formatDoneEvent lib now treeID reason message =
     ''event: done'' @ newline @ ''data: '' @ jsonMustString (tl_marshal lib (envelope_json ''done'' (tl_ustr lib treeID) now 0
        zeroUUIDString (JObj [(''reason'', JStr reason), (''message'', JStr message)]))) @ newline @ newline"

definition formatHeartbeat :: string where "formatHeartbeat = '': heartbeat'' @ newline @ newline"

section \<open>Clients\<close>

datatype client_error = ErrClientClosed | ErrClientSlow | ErrClientWrite

record sse_client =
  cl_ID :: string
  cl_UserID :: uuid
  cl_TreeID :: uuid
  cl_LastEventID :: string
  cl_Outbox :: "string list"
  cl_Cap :: nat
  cl_Closed :: bool
  cl_Wire :: "string list"

definition NewClientWithOutbox :: "string \<Rightarrow> uuid \<Rightarrow> uuid \<Rightarrow> nat \<Rightarrow> sse_client" where
  "NewClientWithOutbox i userID treeID outboxCap =
     \<lparr>cl_ID = i, cl_UserID = userID, cl_TreeID = treeID, cl_LastEventID = [], cl_Outbox = [], cl_Cap = outboxCap,
      cl_Closed = False, cl_Wire = []\<rparr>"

definition NewClient :: "string \<Rightarrow> uuid \<Rightarrow> uuid \<Rightarrow> sse_client" where
  "NewClient i userID treeID = NewClientWithOutbox i userID treeID EventBufferSize"

definition client_SendRaw :: "string \<Rightarrow> sse_client \<Rightarrow> client_error + sse_client" where
  "client_SendRaw raw c =
     (if cl_Closed c then Inl ErrClientClosed
      else if length (cl_Outbox c) < cl_Cap c then Inr (c\<lparr>cl_Outbox := cl_Outbox c @ [raw]\<rparr>)
      else Inl ErrClientSlow)"

definition client_Send :: "tree_lib \<Rightarrow> sse_event \<Rightarrow> sse_client \<Rightarrow> client_error + sse_client" where
  "client_Send lib ev c =
     (if cl_Closed c then Inl ErrClientClosed
      else if length (cl_Outbox c) < cl_Cap c
      then Inr (c\<lparr>cl_Outbox := cl_Outbox c @ [formatEvent lib ev], cl_LastEventID := ev_ID ev\<rparr>)
      else Inl ErrClientSlow)"

text \<open>\<open>accepts\<close> is the number of frames the connection takes before a write fails; that frame is lost.\<close>

definition client_Flush :: "nat \<Rightarrow> sse_client \<Rightarrow> client_error option \<times> sse_client" where
  "client_Flush accepts c =
     (if cl_Closed c then (Some ErrClientClosed, c)
      else if length (cl_Outbox c) \<le> accepts then (None, c\<lparr>cl_Wire := cl_Wire c @ cl_Outbox c, cl_Outbox := []\<rparr>)
      else (Some ErrClientWrite, c\<lparr>cl_Wire := cl_Wire c @ take accepts (cl_Outbox c), cl_Outbox := drop (Suc accepts) (cl_Outbox c)\<rparr>))"

definition client_Close :: "sse_client \<Rightarrow> sse_client" where
  "client_Close c = (if cl_Closed c then c else c\<lparr>cl_Closed := True, cl_Outbox := []\<rparr>)"

section \<open>The event log\<close>

record sse_hub =
  sh_cap :: int
  sh_counters :: "(uuid, int) gomap"
  sh_rings :: "(uuid, sse_event list) gomap"
  sh_subscribers :: "(uuid, string list) gomap"
  sh_clients :: "string list"
  sh_byUser :: "(uuid, int) gomap"
  sh_total :: int
  sh_closed :: bool
  sh_objects :: "(string, sse_client) gomap"

text \<open>A configuration that is not positive reads as the default.\<close>

definition NewHubWithConfig :: "int \<Rightarrow> sse_hub" where
  "NewHubWithConfig logSize =
     \<lparr>sh_cap = (if logSize \<le> 0 then DefaultLogSize else logSize), sh_counters = [], sh_rings = [], sh_subscribers = [],
      sh_clients = [], sh_byUser = [], sh_total = 0, sh_closed = False, sh_objects = []\<rparr>"

definition NewHub :: sse_hub where "NewHub = NewHubWithConfig 0"

definition ring_append :: "int \<Rightarrow> sse_event \<Rightarrow> sse_event list \<Rightarrow> sse_event list" where
  "ring_append cap ev r = (if int (length r) < cap then r @ [ev] else tl r @ [ev])"

definition seq_lt :: "sse_event \<Rightarrow> sse_event \<Rightarrow> bool" where
  "seq_lt a b \<longleftrightarrow> ev_SequenceNum a < ev_SequenceNum b"

definition ring_since :: "int \<Rightarrow> int \<Rightarrow> sse_event list \<Rightarrow> sse_event list \<times> bool" where
  "ring_since sinceSeq maxEvents r =
     (let newer = filter (\<lambda>e. \<not> ev_SequenceNum e \<le> sinceSeq) r
      in (sort_stable seq_lt (take (nat maxEvents) newer), int (length newer) > maxEvents))"

definition stamp_lt :: "sse_event \<Rightarrow> sse_event \<Rightarrow> bool" where
  "stamp_lt a b \<longleftrightarrow> ev_Timestamp a < ev_Timestamp b"

definition ring_sinceTime :: "instant \<Rightarrow> int \<Rightarrow> sse_event list \<Rightarrow> sse_event list \<times> bool" where
  "ring_sinceTime since maxEvents r =
     (let newer = filter (\<lambda>e. since < ev_Timestamp e) r
      in (sort_stable stamp_lt (take (nat maxEvents) newer), int (length newer) > maxEvents))"

definition ring_prune :: "instant \<Rightarrow> sse_event list \<Rightarrow> sse_event list" where
  "ring_prune cutoff r = filter (\<lambda>e. \<not> ev_Timestamp e < cutoff) r"

definition nextSeq :: "uuid \<Rightarrow> sse_hub \<Rightarrow> int \<times> sse_hub" where
  "nextSeq treeID h =
     (let n = map_get 0 (sh_counters h) treeID + 1 in (n, h\<lparr>sh_counters := map_put treeID n (sh_counters h)\<rparr>))"

definition log_Append :: "tree_lib \<Rightarrow> instant \<Rightarrow> uuid \<Rightarrow> string \<Rightarrow> raw_message \<Rightarrow> uuid \<Rightarrow> sse_hub \<Rightarrow> sse_event \<times> sse_hub" where
  "log_Append lib now treeID eventType data actorID h =
     (let (n, h') = nextSeq treeID h;
          ev = \<lparr>ev_ID = EventID lib treeID n, ev_Type = eventType, ev_Data = data, ev_Timestamp = now, ev_TreeID = treeID,
                ev_SequenceNum = n, ev_ActorID = actorID\<rparr>
      in (ev, h'\<lparr>sh_rings := map_put treeID (ring_append (sh_cap h) ev (map_get [] (sh_rings h) treeID)) (sh_rings h')\<rparr>))"

definition log_Since :: "uuid \<Rightarrow> int \<Rightarrow> int \<Rightarrow> sse_hub \<Rightarrow> sse_event list \<times> bool" where
  "log_Since treeID sinceSeq maxEvents h =
     (case map_of (sh_rings h) treeID of None \<Rightarrow> ([], False) | Some r \<Rightarrow> ring_since sinceSeq maxEvents r)"

definition log_SinceTime :: "uuid \<Rightarrow> instant \<Rightarrow> int \<Rightarrow> sse_hub \<Rightarrow> sse_event list \<times> bool" where
  "log_SinceTime treeID since maxEvents h =
     (case map_of (sh_rings h) treeID of None \<Rightarrow> ([], False) | Some r \<Rightarrow> ring_sinceTime since maxEvents r)"

definition log_Prune :: "instant \<Rightarrow> duration \<Rightarrow> sse_hub \<Rightarrow> int \<times> sse_hub" where
  "log_Prune now retention h =
     (let rings = map (\<lambda>(t, r). (t, ring_prune (now - retention) r)) (sh_rings h)
      in (sum_list (map (\<lambda>(t, r). int (length r)) (sh_rings h)) - sum_list (map (\<lambda>(t, r). int (length r)) rings),
          h\<lparr>sh_rings := rings\<rparr>))"

section \<open>The hub\<close>

datatype hub_error =
    HubClosed
  | AlreadySubscribed
  | ErrTooManyConnectionsUser
  | ErrTooManyConnections
  | ErrTooManyConnectionsTree
  | ErrClientNotFound
  | InvalidEventID
  | HubSend client_error

definition client_at :: "sse_hub \<Rightarrow> string \<Rightarrow> sse_client option" where
  "client_at h i = map_of (sh_objects h) i"

definition put_client :: "sse_client \<Rightarrow> sse_hub \<Rightarrow> sse_hub" where
  "put_client c h = h\<lparr>sh_objects := map_put (cl_ID c) c (sh_objects h)\<rparr>"

definition SubscriberCount :: "uuid \<Rightarrow> sse_hub \<Rightarrow> int" where
  "SubscriberCount treeID h = int (length (map_get [] (sh_subscribers h) treeID))"

definition TotalConnections :: "sse_hub \<Rightarrow> int" where
  "TotalConnections h = sh_total h"

definition sse_Subscribe :: "uuid \<Rightarrow> sse_client \<Rightarrow> sse_hub \<Rightarrow> hub_error option \<times> sse_hub" where
  "sse_Subscribe treeID c h =
     (let u = cl_UserID c; ids = map_get [] (sh_subscribers h) treeID
      in if sh_closed h then (Some HubClosed, h)
         else if cl_ID c \<in> set (sh_clients h) then (Some AlreadySubscribed, h)
         else if MaxConnectionsPerUser \<le> map_get 0 (sh_byUser h) u then (Some ErrTooManyConnectionsUser, h)
         else if MaxConnectionsTotal \<le> sh_total h then (Some ErrTooManyConnections, h)
         else if MaxConnectionsPerTree \<le> int (length ids) then (Some ErrTooManyConnectionsTree, h)
         else (None, put_client c (h\<lparr>sh_subscribers := map_put treeID (ids @ [cl_ID c]) (sh_subscribers h),
                 sh_clients := sh_clients h @ [cl_ID c], sh_byUser := map_put u (map_get 0 (sh_byUser h) u + 1) (sh_byUser h),
                 sh_total := sh_total h + 1\<rparr>)))"

definition sse_Unsubscribe :: "uuid \<Rightarrow> string \<Rightarrow> sse_hub \<Rightarrow> sse_hub" where
  "sse_Unsubscribe treeID i h =
     (if i \<notin> set (sh_clients h) then h
      else case client_at h i of None \<Rightarrow> h
      | Some c \<Rightarrow>
          (let ids = removeAll i (map_get [] (sh_subscribers h) treeID)
           in h\<lparr>sh_subscribers := (if ids = [] then map_del treeID (sh_subscribers h) else map_put treeID ids (sh_subscribers h)),
                sh_clients := removeAll i (sh_clients h),
                sh_byUser := map_put (cl_UserID c) (max 0 (map_get 0 (sh_byUser h) (cl_UserID c) - 1)) (sh_byUser h),
                sh_total := sh_total h - 1\<rparr>))"

definition close_client :: "string \<Rightarrow> sse_hub \<Rightarrow> sse_hub" where
  "close_client i h = (case client_at h i of None \<Rightarrow> h | Some c \<Rightarrow> put_client (client_Close c) h)"

text \<open>Sending to the clients of a list: those that could not take the event, and the others served.\<close>

fun send_all :: "tree_lib \<Rightarrow> sse_event \<Rightarrow> string list \<Rightarrow> sse_hub \<Rightarrow> string list \<times> sse_hub" where
  "send_all lib ev [] h = ([], h)"
| "send_all lib ev (i # ids) h =
     (case client_at h i of None \<Rightarrow> send_all lib ev ids h
      | Some c \<Rightarrow>
          (case client_Send lib ev c of
             Inl _ \<Rightarrow> (let (drops, h') = send_all lib ev ids h in (i # drops, h'))
           | Inr c' \<Rightarrow> send_all lib ev ids (put_client c' h)))"

definition drop_client :: "uuid \<Rightarrow> string \<Rightarrow> sse_hub \<Rightarrow> sse_hub" where
  "drop_client treeID i h = close_client i (sse_Unsubscribe treeID i h)"

definition number_event :: "tree_lib \<Rightarrow> instant \<Rightarrow> uuid \<Rightarrow> sse_event \<Rightarrow> sse_hub \<Rightarrow> sse_event \<times> sse_hub" where
  "number_event lib now treeID ev h =
     (let (ev, h) = (if ev_SequenceNum ev = 0 then log_Append lib now treeID (ev_Type ev) (ev_Data ev) (ev_ActorID ev) h else (ev, h))
      in (if ev_ID ev = [] then ev\<lparr>ev_ID := EventID lib (ev_TreeID ev) (ev_SequenceNum ev)\<rparr> else ev, h))"

definition sse_Broadcast :: "tree_lib \<Rightarrow> instant \<Rightarrow> uuid \<Rightarrow> sse_event \<Rightarrow> sse_hub \<Rightarrow> sse_event \<times> sse_hub" where
  "sse_Broadcast lib now treeID ev h =
     (if sh_closed h then (ev, h)
      else (let (ev, h) = number_event lib now treeID ev h;
                (drops, h) = send_all lib ev (map_get [] (sh_subscribers h) treeID) h
            in (ev, fold (drop_client treeID) drops h)))"

fun send_events :: "tree_lib \<Rightarrow> string \<Rightarrow> sse_event list \<Rightarrow> sse_hub \<Rightarrow> hub_error option \<times> sse_hub" where
  "send_events lib i [] h = (None, h)"
| "send_events lib i (ev # evs) h =
     (case client_at h i of None \<Rightarrow> (Some ErrClientNotFound, h)
      | Some c \<Rightarrow>
          (case client_Send lib ev c of Inl e \<Rightarrow> (Some (HubSend e), h)
           | Inr c' \<Rightarrow> send_events lib i evs (put_client c' h)))"

definition overflow_notice :: "tree_lib \<Rightarrow> instant \<Rightarrow> uuid \<Rightarrow> string \<Rightarrow> sse_hub \<Rightarrow> sse_hub" where
  "overflow_notice lib now treeID i h =
     (case client_at h i of None \<Rightarrow> h
      | Some c \<Rightarrow>
          (case client_SendRaw (formatErrorEvent lib now treeID ''EVENT_BUFFER_OVERFLOW''
                  (''event buffer overflow '' @ [CHR 0xE2, CHR 0x80, CHR 0x94] @ '' some events may be missing'')) c of
             Inl _ \<Rightarrow> h | Inr c' \<Rightarrow> put_client c' h))"

definition replay_events :: "tree_lib \<Rightarrow> instant \<Rightarrow> uuid \<Rightarrow> string \<Rightarrow> int \<Rightarrow> int \<Rightarrow> sse_hub \<Rightarrow> hub_error option \<times> sse_hub" where
  "replay_events lib now treeID i sinceSeq maxEvents h =
     (let (evs, truncated) = log_Since treeID sinceSeq maxEvents h
      in send_events lib i evs (if truncated then overflow_notice lib now treeID i h else h))"

definition ReplaySince :: "tree_lib \<Rightarrow> instant \<Rightarrow> uuid \<Rightarrow> string \<Rightarrow> string \<Rightarrow> sse_hub \<Rightarrow> hub_error option \<times> sse_hub" where
  "ReplaySince lib now treeID i sinceEventID h =
     (if i \<notin> set (sh_clients h) then (Some ErrClientNotFound, h)
      else case parseEventID lib sinceEventID of None \<Rightarrow> (Some InvalidEventID, h)
      | Some (_, n) \<Rightarrow> replay_events lib now treeID i n DefaultLogSize h)"

definition ReplayRecent :: "tree_lib \<Rightarrow> instant \<Rightarrow> uuid \<Rightarrow> string \<Rightarrow> int \<Rightarrow> sse_hub \<Rightarrow> hub_error option \<times> sse_hub" where
  "ReplayRecent lib now treeID i maxEvents h =
     (if i \<notin> set (sh_clients h) then (Some ErrClientNotFound, h)
      else replay_events lib now treeID i 0 (if maxEvents \<le> 0 then DefaultLogSize else maxEvents) h)"

text \<open>Shutting down: the notice to every client, and what the end of the drain window does.\<close>

definition send_done :: "tree_lib \<Rightarrow> instant \<Rightarrow> string \<Rightarrow> sse_hub \<Rightarrow> sse_hub" where
  "send_done lib now i h =
     (case client_at h i of None \<Rightarrow> h
      | Some c \<Rightarrow>
          (case client_SendRaw (formatDoneEvent lib now (cl_TreeID c) ''server_shutdown''
                  ''canopyd is shutting down for maintenance'') c of Inl _ \<Rightarrow> h | Inr c' \<Rightarrow> put_client c' h))"

definition Shutdown_begin :: "tree_lib \<Rightarrow> instant \<Rightarrow> sse_hub \<Rightarrow> sse_hub" where
  "Shutdown_begin lib now h = (if sh_closed h then h else fold (send_done lib now) (sh_clients h) (h\<lparr>sh_closed := True\<rparr>))"

definition force_close :: "string \<Rightarrow> sse_hub \<Rightarrow> sse_hub" where
  "force_close i h = (case client_at h i of None \<Rightarrow> h | Some c \<Rightarrow> drop_client (cl_TreeID c) i h)"

definition Shutdown_expire :: "sse_hub \<Rightarrow> sse_hub" where
  "Shutdown_expire h = (fold force_close (sh_clients h) h)\<lparr>sh_total := 0\<rparr>"

section \<open>Write deadlines\<close>

record frame_writer =
  fw_deadline :: duration
  fw_armed :: bool

definition WriteDeadline :: duration where "WriteDeadline = 2 * HeartbeatInterval"

definition NewFrameWriterWithDeadline :: "bool \<Rightarrow> duration \<Rightarrow> frame_writer" where
  "NewFrameWriterWithDeadline exempt deadline =
     (if \<not> exempt then \<lparr>fw_deadline = 0, fw_armed = False\<rparr>
      else \<lparr>fw_deadline = (if deadline \<le> 0 then WriteDeadline else deadline), fw_armed = True\<rparr>)"

definition NewFrameWriter :: "bool \<Rightarrow> frame_writer" where
  "NewFrameWriter exempt = NewFrameWriterWithDeadline exempt WriteDeadline"

text \<open>The deadline of the connection: none is the zero time; \<open>supported\<close> says whether the writer takes one.\<close>

definition ClearWriteDeadline :: "bool \<Rightarrow> frame_writer \<Rightarrow> instant \<Rightarrow> frame_writer \<times> instant" where
  "ClearWriteDeadline supported fw current =
     (if \<not> fw_armed fw then (fw, current) else if supported then (fw, 0) else (fw\<lparr>fw_armed := False\<rparr>, current))"

definition BeforeFrame :: "bool \<Rightarrow> instant \<Rightarrow> frame_writer \<Rightarrow> instant \<Rightarrow> frame_writer \<times> instant" where
  "BeforeFrame supported now fw current =
     (if \<not> fw_armed fw then (fw, current) else if supported then (fw, now + fw_deadline fw)
      else (fw\<lparr>fw_armed := False\<rparr>, current))"

section \<open>The handler\<close>

definition is_hex :: "char \<Rightarrow> bool" where
  "is_hex c \<longleftrightarrow> byte_in 48 57 c \<or> byte_in 97 102 c \<or> byte_in 65 70 c"

definition validateSinceHash :: "string \<Rightarrow> bool" where
  "validateSinceHash s \<longleftrightarrow> length s = 64 \<and> list_all is_hex s"

definition parseProfilesCSV :: "tree_lib \<Rightarrow> string \<Rightarrow> uuid list option" where
  "parseProfilesCSV lib csv =
     (let parts = filter (\<lambda>p. p \<noteq> []) (map trim_space (split_on (CHR '','') csv))
      in if parts = [] then None else those (map (tl_uparse lib) parts))"

definition FormatQueryBool :: "string \<Rightarrow> bool \<Rightarrow> bool" where
  "FormatQueryBool raw def =
     (if raw \<in> set [''1'', ''t'', ''T'', ''TRUE'', ''true'', ''True''] then True
      else if raw \<in> set [''0'', ''f'', ''F'', ''FALSE'', ''false'', ''False''] then False else def)"

record stream_request =
  sr_tree :: string
  sr_since :: string
  sr_profiles :: string
  sr_lastEventID :: string
  sr_flusher :: bool

datatype stream_error = StreamError int string

definition flush_client :: "nat \<Rightarrow> string \<Rightarrow> sse_hub \<Rightarrow> client_error option \<times> sse_hub" where
  "flush_client accepts i h =
     (case client_at h i of None \<Rightarrow> (Some ErrClientClosed, h)
      | Some c \<Rightarrow> (let (e, c') = client_Flush accepts c in (e, put_client c' h)))"

definition check_stream_request :: "tree_lib \<Rightarrow> stream_request \<Rightarrow> sse_hub \<Rightarrow> stream_error + uuid" where
  "check_stream_request lib req h =
     (case tl_uparse lib (sr_tree req) of None \<Rightarrow> Inl (StreamError 400 ''INVALID_TREE_ID'')
      | Some treeID \<Rightarrow>
          (if sr_since req \<noteq> [] \<and> \<not> validateSinceHash (sr_since req) then Inl (StreamError 400 ''INVALID_SINCE_HASH'')
           else if sr_profiles req \<noteq> [] \<and> parseProfilesCSV lib (sr_profiles req) = None
           then Inl (StreamError 400 ''INVALID_PROFILE_ID'')
           else if MaxConnectionsPerTree \<le> SubscriberCount treeID h then Inl (StreamError 429 ''TOO_MANY_CONNECTIONS_TREE'')
           else if MaxConnectionsTotal \<le> TotalConnections h then Inl (StreamError 503 ''TOO_MANY_CONNECTIONS'')
           else if \<not> sr_flusher req then Inl (StreamError 500 ''STREAMING_NOT_SUPPORTED'')
           else Inr treeID))"

text \<open>
  Opening a stream: the answer, or the identifier of the client whose stream goes on. A replay
  for a snapshot hash does nothing, and a failed replay is logged only; a failed write ends the
  handler, which unsubscribes.
\<close>

definition open_stream :: "tree_lib \<Rightarrow> instant \<Rightarrow> string \<Rightarrow> nat \<Rightarrow> nat \<Rightarrow> stream_request \<Rightarrow> sse_hub \<Rightarrow> (stream_error + string option) \<times> sse_hub" where
  "open_stream lib now clientID accepts accepts' req h =
     (case check_stream_request lib req h of Inl e \<Rightarrow> (Inl e, h)
      | Inr treeID \<Rightarrow>
          (case sse_Subscribe treeID (NewClient clientID uuid_Nil treeID) h of
             (Some _, h') \<Rightarrow> (Inl (StreamError 500 ''SUBSCRIPTION_FAILED''), h')
           | (None, h') \<Rightarrow>
               (case flush_client accepts clientID h' of
                  (Some _, h') \<Rightarrow> (Inr None, sse_Unsubscribe treeID clientID h')
                | (None, h') \<Rightarrow>
                    (let h' = (if sr_since req \<noteq> [] \<or> sr_lastEventID req = [] then h'
                               else snd (ReplaySince lib now treeID clientID (sr_lastEventID req) h'))
                     in case flush_client accepts' clientID h' of
                          (Some _, h') \<Rightarrow> (Inr None, sse_Unsubscribe treeID clientID h')
                        | (None, h') \<Rightarrow> (Inr (Some clientID), h')))))"

text \<open>A turn of the event loop: an optional heartbeat, then a flush; a failure ends the stream.\<close>

definition stream_turn :: "bool \<Rightarrow> nat \<Rightarrow> uuid \<Rightarrow> string \<Rightarrow> sse_hub \<Rightarrow> bool \<times> sse_hub" where
  "stream_turn heartbeat accepts treeID i h =
     (case client_at h i of None \<Rightarrow> (False, h)
      | Some c \<Rightarrow>
          (case (if heartbeat then client_SendRaw formatHeartbeat c else Inr c) of
             Inl _ \<Rightarrow> (False, sse_Unsubscribe treeID i h)
           | Inr c' \<Rightarrow>
               (case flush_client accepts i (put_client c' h) of
                  (Some _, h') \<Rightarrow> (False, sse_Unsubscribe treeID i h')
                | (None, h') \<Rightarrow> (True, h'))))"

end
