(* ===== verification/Tree_Sync.thy ===== *)
theory Tree_Sync
  imports Event_Stream
begin

text \<open>
  Synchronisation of trees: the digests and the snapshot hash (\<open>internal/sync/hash.go\<close>), the delta
  between two states (\<open>delta.go\<close>), the tables of snapshots and events with their repositories
  (\<open>internal/db/snapshot_repo.go\<close>, \<open>event_repo.go\<close>), the engine that records mutations and
  broadcasts them (\<open>internal/sync/engine.go\<close>) and the service that answers clients
  (\<open>internal/service/sync_service.go\<close>). A snapshot's data is the value of its \<open>jsonb\<close> column.
\<close>

section \<open>Digests and the snapshot hash\<close>

record NodeDigest =
  nd_ID :: uuid
  nd_SeqNum :: int
  nd_CreatedAtEpoch :: int
  nd_ParentID :: string
  nd_ContentHash :: string
  nd_ContentFormat :: string
  nd_NodeType :: string

record EdgeDigest =
  ed_ID :: uuid
  ed_SourceID :: uuid
  ed_TargetID :: uuid
  ed_EdgeType :: string

text \<open>Milliseconds of the Unix epoch, rounded down.\<close>

definition unix_milli :: "instant \<Rightarrow> int" where
  "unix_milli t = t div 1000000 - 62135596800000"

definition parent_text :: "tree_lib \<Rightarrow> uuid option \<Rightarrow> string" where
  "parent_text lib p = (case p of None \<Rightarrow> ''nil'' | Some u \<Rightarrow> tl_ustr lib u)"

definition NodeFromParts :: "tree_lib \<Rightarrow> uuid \<Rightarrow> int \<Rightarrow> instant \<Rightarrow> uuid option \<Rightarrow> string \<Rightarrow> string \<Rightarrow> string \<Rightarrow> NodeDigest" where
  "NodeFromParts lib i n createdAt parent contentHash contentFormat nodeType =
     \<lparr>nd_ID = i, nd_SeqNum = n, nd_CreatedAtEpoch = unix_milli createdAt, nd_ParentID = parent_text lib parent,
      nd_ContentHash = contentHash, nd_ContentFormat = contentFormat, nd_NodeType = nodeType\<rparr>"

definition EdgeFromParts :: "uuid \<Rightarrow> uuid \<Rightarrow> uuid \<Rightarrow> string \<Rightarrow> EdgeDigest" where
  "EdgeFromParts i sourceID targetID edgeType = \<lparr>ed_ID = i, ed_SourceID = sourceID, ed_TargetID = targetID, ed_EdgeType = edgeType\<rparr>"

definition node_digest_before :: "tree_lib \<Rightarrow> NodeDigest \<Rightarrow> NodeDigest \<Rightarrow> bool" where
  "node_digest_before lib a b \<longleftrightarrow>
     (if nd_SeqNum a \<noteq> nd_SeqNum b then nd_SeqNum a < nd_SeqNum b else tl_ustr lib (nd_ID a) < tl_ustr lib (nd_ID b))"

definition edge_digest_before :: "tree_lib \<Rightarrow> EdgeDigest \<Rightarrow> EdgeDigest \<Rightarrow> bool" where
  "edge_digest_before lib a b \<longleftrightarrow>
     (let si = tl_ustr lib (ed_SourceID a); sj = tl_ustr lib (ed_SourceID b);
          ti = tl_ustr lib (ed_TargetID a); tj = tl_ustr lib (ed_TargetID b)
      in if si \<noteq> sj then si < sj else if ti \<noteq> tj then ti < tj
         else if ed_EdgeType a \<noteq> ed_EdgeType b then ed_EdgeType a < ed_EdgeType b
         else tl_ustr lib (ed_ID a) < tl_ustr lib (ed_ID b))"

text \<open>A line of the canonical text: the fields between colons.\<close>

definition text_line :: "string list \<Rightarrow> string" where
  "text_line parts = strings_Join parts '':'' @ newline"

definition node_fields :: "tree_lib \<Rightarrow> NodeDigest \<Rightarrow> string list" where
  "node_fields lib n = [tl_ustr lib (nd_ID n), itoa (nd_SeqNum n), itoa (nd_CreatedAtEpoch n), nd_ParentID n, nd_ContentHash n,
     nd_ContentFormat n, nd_NodeType n]"

definition edge_fields :: "tree_lib \<Rightarrow> EdgeDigest \<Rightarrow> string list" where
  "edge_fields lib e = [tl_ustr lib (ed_ID e), tl_ustr lib (ed_SourceID e), tl_ustr lib (ed_TargetID e), ed_EdgeType e]"

definition snapshot_text :: "tree_lib \<Rightarrow> NodeDigest list \<Rightarrow> EdgeDigest list \<Rightarrow> string" where
  "snapshot_text lib nodes edges =
     concat (map (\<lambda>n. text_line (node_fields lib n)) (sort_stable (node_digest_before lib) nodes))
     @ concat (map (\<lambda>e. text_line (edge_fields lib e)) (sort_stable (edge_digest_before lib) edges))"

definition ComputeSnapshotHash :: "tree_lib \<Rightarrow> NodeDigest list \<Rightarrow> EdgeDigest list \<Rightarrow> string" where
  "ComputeSnapshotHash lib nodes edges = tl_sha256hex lib (snapshot_text lib nodes edges)"

section \<open>The tables of snapshots and events\<close>

record snapshot_row =
  sn_ID :: uuid
  sn_TreeID :: uuid
  sn_ParentHash :: "string option"
  sn_Hash :: string
  sn_NodeCount :: int
  sn_EdgeCount :: int
  sn_Data :: json
  sn_CreatedAt :: instant

record event_row =
  te_ID :: uuid
  te_TreeID :: uuid
  te_SnapshotID :: "uuid option"
  te_EventType :: string
  te_NodeID :: "uuid option"
  te_EdgeID :: "uuid option"
  te_Payload :: json
  te_SequenceNum :: int
  te_CreatedAt :: instant

record sync_db =
  sd_snapshots :: "snapshot_row list"
  sd_events :: "event_row list"
  sd_next_seq :: "(uuid, int) gomap"

definition newer_snapshot :: "snapshot_row \<Rightarrow> snapshot_row \<Rightarrow> bool" where
  "newer_snapshot a b \<longleftrightarrow> sn_CreatedAt b < sn_CreatedAt a"

definition tree_snapshots :: "sync_db \<Rightarrow> uuid \<Rightarrow> snapshot_row list" where
  "tree_snapshots sd t = filter (\<lambda>s. sn_TreeID s = t) (sd_snapshots sd)"

definition GetSnapshot :: "sync_db \<Rightarrow> string \<Rightarrow> snapshot_row option" where
  "GetSnapshot sd hash = find (\<lambda>s. sn_Hash s = hash) (sd_snapshots sd)"

definition GetLatestSnapshot :: "sync_db \<Rightarrow> uuid \<Rightarrow> snapshot_row option" where
  "GetLatestSnapshot sd t =
     (case sort_stable newer_snapshot (tree_snapshots sd t) of [] \<Rightarrow> None | s # _ \<Rightarrow> Some s)"

text \<open>The rows a snapshot is made of, and its data.\<close>

definition edge_order :: "edge_row \<Rightarrow> edge_row \<Rightarrow> bool" where
  "edge_order a b \<longleftrightarrow> e_SourceID a < e_SourceID b \<or> e_SourceID a = e_SourceID b \<and> (e_TargetID a < e_TargetID b
     \<or> e_TargetID a = e_TargetID b \<and> (e_EdgeType a < e_EdgeType b \<or> e_EdgeType a = e_EdgeType b \<and> e_ID a < e_ID b))"

definition snapshot_nodes :: "graph_db \<Rightarrow> uuid \<Rightarrow> node list" where
  "snapshot_nodes db t = sort_stable keyset_before (tree_nodes db t)"

definition snapshot_edges :: "graph_db \<Rightarrow> uuid \<Rightarrow> edge_row list" where
  "snapshot_edges db t = sort_stable edge_order (filter (\<lambda>e. e_TreeID e = t \<and> e_active e) (g_edges db))"

definition node_member :: "tree_lib \<Rightarrow> node \<Rightarrow> string \<times> json" where
  "node_member lib n =
     (tl_ustr lib (n_ID n), JArr [jint (n_SequenceNum n), JStr (format_rfc3339nano (n_CreatedAt n)), JStr (parent_text lib (n_ParentID n)),
        JStr (content_hash (tl_sha256hex lib) n), JStr (n_ContentFormat n), JStr (n_NodeType n)])"

definition edge_member :: "tree_lib \<Rightarrow> edge_row \<Rightarrow> string \<times> json" where
  "edge_member lib e =
     (tl_ustr lib (e_ID e), JArr [JStr (tl_ustr lib (e_SourceID e)), JStr (tl_ustr lib (e_TargetID e)), JStr (e_EdgeType e)])"

definition snapshot_json :: "tree_lib \<Rightarrow> node list \<Rightarrow> edge_row list \<Rightarrow> json" where
  "snapshot_json lib ns es = JObj [(''nodes'', JObj (map (node_member lib) ns)), (''edges'', JObj (map (edge_member lib) es))]"

text \<open>The repository's own copy of the hash works on the printed identifiers.\<close>

record row_digest =
  rd_id :: string
  rd_seqNum :: int
  rd_createdAtMs :: int
  rd_parentID :: string
  rd_contentHash :: string
  rd_contentFormat :: string
  rd_nodeType :: string

record row_edge_digest =
  re_id :: string
  re_sourceID :: string
  re_targetID :: string
  re_edgeType :: string

definition row_digest_of :: "tree_lib \<Rightarrow> node \<Rightarrow> row_digest" where
  "row_digest_of lib n =
     \<lparr>rd_id = tl_ustr lib (n_ID n), rd_seqNum = n_SequenceNum n, rd_createdAtMs = unix_milli (n_CreatedAt n),
      rd_parentID = parent_text lib (n_ParentID n), rd_contentHash = content_hash (tl_sha256hex lib) n, rd_contentFormat = n_ContentFormat n,
      rd_nodeType = n_NodeType n\<rparr>"

definition row_edge_digest_of :: "tree_lib \<Rightarrow> edge_row \<Rightarrow> row_edge_digest" where
  "row_edge_digest_of lib e =
     \<lparr>re_id = tl_ustr lib (e_ID e), re_sourceID = tl_ustr lib (e_SourceID e), re_targetID = tl_ustr lib (e_TargetID e),
      re_edgeType = e_EdgeType e\<rparr>"

definition row_digest_before :: "row_digest \<Rightarrow> row_digest \<Rightarrow> bool" where
  "row_digest_before a b \<longleftrightarrow> (if rd_seqNum a \<noteq> rd_seqNum b then rd_seqNum a < rd_seqNum b else rd_id a < rd_id b)"

definition row_edge_before :: "row_edge_digest \<Rightarrow> row_edge_digest \<Rightarrow> bool" where
  "row_edge_before a b \<longleftrightarrow>
     (if re_sourceID a \<noteq> re_sourceID b then re_sourceID a < re_sourceID b
      else if re_targetID a \<noteq> re_targetID b then re_targetID a < re_targetID b
      else if re_edgeType a \<noteq> re_edgeType b then re_edgeType a < re_edgeType b else re_id a < re_id b)"

definition computeSnapshotHash_rows :: "tree_lib \<Rightarrow> node list \<Rightarrow> edge_row list \<Rightarrow> string" where
  "computeSnapshotHash_rows lib ns es =
     tl_sha256hex lib
       (concat (map (\<lambda>n. text_line [rd_id n, itoa (rd_seqNum n), itoa (rd_createdAtMs n), rd_parentID n, rd_contentHash n,
                         rd_contentFormat n, rd_nodeType n]) (sort_stable row_digest_before (map (row_digest_of lib) ns)))
        @ concat (map (\<lambda>e. text_line [re_id e, re_sourceID e, re_targetID e, re_edgeType e])
                    (sort_stable row_edge_before (map (row_edge_digest_of lib) es))))"

text \<open>A state that was recorded before is not recorded again: the unique index makes the call return the old row.\<close>

definition CreateSnapshot :: "tree_lib \<Rightarrow> uuid \<Rightarrow> instant \<Rightarrow> uuid \<Rightarrow> graph_db \<Rightarrow> sync_db \<Rightarrow> pg_error + (snapshot_row \<times> sync_db)" where
  "CreateSnapshot lib newID now t db sd =
     (let ns = snapshot_nodes db t; es = snapshot_edges db t; hash = computeSnapshotHash_rows lib ns es;
          snap = \<lparr>sn_ID = newID, sn_TreeID = t, sn_ParentHash = map_option sn_Hash (GetLatestSnapshot sd t), sn_Hash = hash,
                  sn_NodeCount = int (length ns), sn_EdgeCount = int (length es), sn_Data = snapshot_json lib ns es, sn_CreatedAt = now\<rparr>
      in if rune_count hash \<noteq> 64 then Inl CheckViolation
         else case find (\<lambda>s. sn_Hash s = hash) (tree_snapshots sd t) of
           Some old \<Rightarrow> Inr (old, sd)
         | None \<Rightarrow>
             (if \<not> has_tree db t then Inl (ForeignKeyViolation ''tree_snapshots_tree_id_fkey'')
              else Inr (snap, sd\<lparr>sd_snapshots := sd_snapshots sd @ [snap]\<rparr>)))"

text \<open>The chain after a hash; two rows with the hash make the scalar subquery fail.\<close>

definition GetSnapshotChain :: "sync_db \<Rightarrow> uuid \<Rightarrow> string \<Rightarrow> snapshot_row list option" where
  "GetSnapshotChain sd t fromHash =
     (case filter (\<lambda>s. sn_Hash s = fromHash) (sd_snapshots sd) of
        [] \<Rightarrow> Some []
      | [s] \<Rightarrow> Some (sort_stable (\<lambda>a b. newer_snapshot b a) (filter (\<lambda>x. newer_snapshot x s) (tree_snapshots sd t)))
      | _ \<Rightarrow> None)"

text \<open>Deleting snapshots clears them in the events that name them.\<close>

definition forget_snapshots :: "uuid list \<Rightarrow> sync_db \<Rightarrow> sync_db" where
  "forget_snapshots ids sd =
     sd\<lparr>sd_snapshots := filter (\<lambda>s. sn_ID s \<notin> set ids) (sd_snapshots sd),
        sd_events := map (\<lambda>e. case te_SnapshotID e of None \<Rightarrow> e | Some i \<Rightarrow> if i \<in> set ids then e\<lparr>te_SnapshotID := None\<rparr> else e) (sd_events sd)\<rparr>"

definition CompactSnapshots :: "uuid \<Rightarrow> instant \<Rightarrow> sync_db \<Rightarrow> int \<times> sync_db" where
  "CompactSnapshots t before sd =
     (let old = filter (\<lambda>s. sn_CreatedAt s < before) (tree_snapshots sd t);
          kept = (case sort_stable newer_snapshot old of [] \<Rightarrow> [] | s # _ \<Rightarrow> [sn_ID s]);
          gone = filter (\<lambda>i. i \<notin> set kept) (map sn_ID old)
      in (int (length gone), forget_snapshots gone sd))"

definition DeleteSnapshotsBefore :: "uuid \<Rightarrow> instant \<Rightarrow> sync_db \<Rightarrow> int \<times> sync_db" where
  "DeleteSnapshotsBefore t before sd =
     (let gone = map sn_ID (filter (\<lambda>s. sn_CreatedAt s < before) (tree_snapshots sd t))
      in (int (length gone), forget_snapshots gone sd))"

text \<open>
  The event log. The first event of a tree inserts the counter with 1 and takes 0; each later one
  increments the counter and takes the value before.
\<close>

definition sync_event_types :: "string list" where
  "sync_event_types = [''node_added'', ''node_updated'', ''node_removed'', ''edge_added'', ''edge_removed'', ''yjs_update'']"

definition AppendEvent_row :: "uuid \<Rightarrow> instant \<Rightarrow> uuid \<Rightarrow> string \<Rightarrow> uuid option \<Rightarrow> uuid option \<Rightarrow> json \<Rightarrow> uuid option \<Rightarrow> graph_db \<Rightarrow> sync_db \<Rightarrow> pg_error + (event_row \<times> sync_db)" where
  "AppendEvent_row newID now t eventType nodeID edgeID payload snapshotID db sd =
     (let nextSeq = (case map_of (sd_next_seq sd) t of None \<Rightarrow> 1 | Some n \<Rightarrow> n + 1);
          row = \<lparr>te_ID = newID, te_TreeID = t, te_SnapshotID = snapshotID, te_EventType = eventType, te_NodeID = nodeID,
                 te_EdgeID = edgeID, te_Payload = payload, te_SequenceNum = nextSeq - 1, te_CreatedAt = now\<rparr>
      in if eventType \<notin> set sync_event_types then Inl CheckViolation
         else if \<not> has_tree db t then Inl (ForeignKeyViolation ''tree_events_tree_id_fkey'')
         else Inr (row, sd\<lparr>sd_events := sd_events sd @ [row], sd_next_seq := map_put t nextSeq (sd_next_seq sd)\<rparr>))"

definition event_before :: "event_row \<Rightarrow> event_row \<Rightarrow> bool" where
  "event_before a b \<longleftrightarrow> te_SequenceNum a < te_SequenceNum b"

definition GetEventsSince :: "sync_db \<Rightarrow> uuid \<Rightarrow> int \<Rightarrow> int \<Rightarrow> event_row list" where
  "GetEventsSince sd t sinceSeq limit =
     take (nat limit) (sort_stable event_before (filter (\<lambda>e. te_TreeID e = t \<and> sinceSeq < te_SequenceNum e) (sd_events sd)))"

definition GetLatestSequenceNum :: "sync_db \<Rightarrow> uuid \<Rightarrow> int" where
  "GetLatestSequenceNum sd t =
     (case map te_SequenceNum (filter (\<lambda>e. te_TreeID e = t) (sd_events sd)) of [] \<Rightarrow> 0 | n # ns \<Rightarrow> fold max ns n)"

text \<open>The number of the last event that carries a snapshot; without one the upper bound is \<open>NULL\<close>.\<close>

definition snapshot_seq :: "sync_db \<Rightarrow> uuid \<Rightarrow> int option" where
  "snapshot_seq sd i =
     (case map te_SequenceNum (filter (\<lambda>e. te_SnapshotID e = Some i) (sd_events sd)) of [] \<Rightarrow> None | n # ns \<Rightarrow> Some (fold max ns n))"

definition GetEventsBetweenSnapshots :: "sync_db \<Rightarrow> string \<Rightarrow> string \<Rightarrow> event_row list" where
  "GetEventsBetweenSnapshots sd fromHash toHash =
     sort_stable event_before
       (concat (map (\<lambda>e. concat (map (\<lambda>f. concat (map (\<lambda>s.
            if te_TreeID e = sn_TreeID f
               \<and> (case snapshot_seq sd (sn_ID f) of None \<Rightarrow> 0 | Some n \<Rightarrow> n) < te_SequenceNum e
               \<and> (case snapshot_seq sd (sn_ID s) of None \<Rightarrow> False | Some n \<Rightarrow> te_SequenceNum e \<le> n) then [e] else [])
          (filter (\<lambda>s. sn_Hash s = toHash) (sd_snapshots sd))))
          (filter (\<lambda>s. sn_Hash s = fromHash) (sd_snapshots sd)))) (sd_events sd)))"

section \<open>Deltas\<close>

record compact_node =
  cpn_SeqNum :: int
  cpn_CreatedAt :: string
  cpn_ParentID :: string
  cpn_ContentHash :: string
  cpn_ContentFormat :: string
  cpn_NodeType :: string

record compact_edge =
  cpe_SourceID :: string
  cpe_TargetID :: string
  cpe_EdgeType :: string

record tree_delta =
  td_FromHash :: string
  td_ToHash :: string
  td_AddedNodes :: "(uuid, compact_node) gomap"
  td_RemovedNodeIDs :: "uuid list"
  td_ChangedNodes :: "(uuid, compact_node) gomap"
  td_AddedEdges :: "(uuid, compact_edge) gomap"
  td_RemovedEdgeIDs :: "uuid list"
  td_NodeCount :: int
  td_EdgeCount :: int

definition toCompactNode :: "NodeDigest \<Rightarrow> compact_node" where
  "toCompactNode n =
     \<lparr>cpn_SeqNum = nd_SeqNum n, cpn_CreatedAt = itoa (nd_CreatedAtEpoch n), cpn_ParentID = nd_ParentID n,
      cpn_ContentHash = nd_ContentHash n, cpn_ContentFormat = nd_ContentFormat n, cpn_NodeType = nd_NodeType n\<rparr>"

definition toCompactEdge :: "tree_lib \<Rightarrow> EdgeDigest \<Rightarrow> compact_edge" where
  "toCompactEdge lib e =
     \<lparr>cpe_SourceID = tl_ustr lib (ed_SourceID e), cpe_TargetID = tl_ustr lib (ed_TargetID e), cpe_EdgeType = ed_EdgeType e\<rparr>"

definition nodeChanged :: "NodeDigest \<Rightarrow> NodeDigest \<Rightarrow> bool" where
  "nodeChanged a b \<longleftrightarrow> nd_ContentHash a \<noteq> nd_ContentHash b \<or> nd_ContentFormat a \<noteq> nd_ContentFormat b
     \<or> nd_NodeType a \<noteq> nd_NodeType b \<or> nd_ParentID a \<noteq> nd_ParentID b"

definition map_by :: "('a \<Rightarrow> 'k) \<Rightarrow> 'a list \<Rightarrow> ('k, 'a) gomap" where
  "map_by key xs = fold (\<lambda>x. map_put (key x) x) xs []"

text \<open>The loops over the lookup maps; without a snapshot of the client everything is added.\<close>

definition ComputeDelta :: "tree_lib \<Rightarrow> snapshot_row option \<Rightarrow> snapshot_row option \<Rightarrow> NodeDigest list \<Rightarrow> NodeDigest list \<Rightarrow> EdgeDigest list \<Rightarrow> EdgeDigest list \<Rightarrow> tree_delta option" where
  "ComputeDelta lib fromSnapshot toSnapshot fromNodes toNodes fromEdges toEdges =
     (case toSnapshot of None \<Rightarrow> None
      | Some to \<Rightarrow>
         (let fromHash = (case fromSnapshot of None \<Rightarrow> [] | Some f \<Rightarrow> sn_Hash f);
              fromNodeMap = map_by nd_ID fromNodes; toNodeMap = map_by nd_ID toNodes;
              fromEdgeMap = map_by ed_ID fromEdges; toEdgeMap = map_by ed_ID toEdges
          in Some \<lparr>td_FromHash = fromHash, td_ToHash = sn_Hash to,
              td_AddedNodes = map (\<lambda>(i, n). (i, toCompactNode n)) (filter (\<lambda>(i, n). \<not> map_has fromNodeMap i) toNodeMap),
              td_RemovedNodeIDs = filter (\<lambda>i. \<not> map_has toNodeMap i) (map fst fromNodeMap),
              td_ChangedNodes = map (\<lambda>(i, n). (i, toCompactNode n))
                (filter (\<lambda>(i, n). case map_of fromNodeMap i of None \<Rightarrow> False | Some m \<Rightarrow> nodeChanged m n) toNodeMap),
              td_AddedEdges = map (\<lambda>(i, e). (i, toCompactEdge lib e)) (filter (\<lambda>(i, e). \<not> map_has fromEdgeMap i) toEdgeMap),
              td_RemovedEdgeIDs = filter (\<lambda>i. \<not> map_has toEdgeMap i) (map fst fromEdgeMap),
              td_NodeCount = (if fromHash = [] then int (length toNodes) else sn_NodeCount to),
              td_EdgeCount = (if fromHash = [] then int (length toEdges) else sn_EdgeCount to)\<rparr>))"

section \<open>Reading snapshot data\<close>

text \<open>
  A number decoded into \<open>any\<close> is the nearest \<open>float64\<close>, ties to even; the conversion to \<open>int64\<close>
  truncates, and is the least integer for a value out of range.
\<close>

definition round_even :: "rat \<Rightarrow> int" where
  "round_even r =
     (let f = \<lfloor>r\<rfloor>; d = r - of_int f in if d < 1 / 2 then f else if 1 / 2 < d then f + 1 else if even f then f else f + 1)"

definition float64_unit :: "rat \<Rightarrow> rat" where
  "float64_unit r =
     (let n = nat \<lfloor>\<bar>r\<bar>\<rfloor>; ex = (if n = 0 then -1 else int (length (filter (\<lambda>k. 2 ^ k \<le> n) [1..<1100])))
      in if 52 \<le> ex then 2 ^ nat (ex - 52) else 1 / 2 ^ nat (52 - ex))"

definition float64_of :: "rat \<Rightarrow> rat" where
  "float64_of r = of_int (round_even (r / float64_unit r)) * float64_unit r"

definition toInt64 :: "json \<Rightarrow> int" where
  "toInt64 v =
     (case v of
        JNum r \<Rightarrow> (let f = float64_of r; i = (if f < 0 then - \<lfloor>- f\<rfloor> else \<lfloor>f\<rfloor>)
                    in if i < int64_min \<or> int64_max < i then int64_min else i)
      | _ \<Rightarrow> 0)"

definition any_string :: "json \<Rightarrow> string" where
  "any_string v = (case v of JStr s \<Rightarrow> s | _ \<Rightarrow> [])"

record snapshot_data =
  sdt_Nodes :: "(string, json list) gomap"
  sdt_Edges :: "(string, json list) gomap"

text \<open>Decoding into \<open>map[string][]any\<close>: the last of duplicate members stays.\<close>

fun any_lists :: "(string \<times> json) list \<Rightarrow> (string, json list) gomap \<Rightarrow> (string, json list) gomap option" where
  "any_lists [] m = Some m"
| "any_lists ((k, v) # ms) m =
     (case v of JArr vs \<Rightarrow> any_lists ms (map_put k vs m) | JNull \<Rightarrow> any_lists ms (map_put k [] m) | _ \<Rightarrow> None)"

definition any_lists_member :: "json \<Rightarrow> ((string, json list) gomap \<Rightarrow> 'a) \<Rightarrow> (string, json list) gomap \<Rightarrow> 'a option" where
  "any_lists_member v f m = (case v of JObj ms \<Rightarrow> map_option f (any_lists ms m) | JNull \<Rightarrow> Some (f []) | _ \<Rightarrow> None)"

definition assign_snapshot_data :: "string \<Rightarrow> json \<Rightarrow> snapshot_data \<Rightarrow> snapshot_data option" where
  "assign_snapshot_data key v d =
     (if key = ''nodes'' then any_lists_member v (\<lambda>m. d\<lparr>sdt_Nodes := m\<rparr>) (sdt_Nodes d)
      else if key = ''edges'' then any_lists_member v (\<lambda>m. d\<lparr>sdt_Edges := m\<rparr>) (sdt_Edges d)
      else Some d)"

definition parse_snapshot_data :: "json \<Rightarrow> snapshot_data option" where
  "parse_snapshot_data j = decode_struct assign_snapshot_data (RawJSON j) \<lparr>sdt_Nodes = [], sdt_Edges = []\<rparr>"

text \<open>Members with an unreadable key or too few values are skipped. The creation time is not read.\<close>

definition snapshotDataToNodes :: "tree_lib \<Rightarrow> snapshot_data \<Rightarrow> NodeDigest list" where
  "snapshotDataToNodes lib sd =
     concat (map (\<lambda>(k, vals). case tl_uparse lib k of None \<Rightarrow> []
       | Some i \<Rightarrow> (if length vals < 6 then []
           else [\<lparr>nd_ID = i, nd_SeqNum = toInt64 (vals ! 0), nd_CreatedAtEpoch = 0, nd_ParentID = any_string (vals ! 2),
                  nd_ContentHash = any_string (vals ! 3), nd_ContentFormat = any_string (vals ! 4), nd_NodeType = any_string (vals ! 5)\<rparr>]))
       (sdt_Nodes sd))"

definition parse_or_nil :: "tree_lib \<Rightarrow> json \<Rightarrow> uuid" where
  "parse_or_nil lib v = (case tl_uparse lib (any_string v) of None \<Rightarrow> uuid_Nil | Some u \<Rightarrow> u)"

definition snapshotDataToEdges :: "tree_lib \<Rightarrow> snapshot_data \<Rightarrow> EdgeDigest list" where
  "snapshotDataToEdges lib sd =
     concat (map (\<lambda>(k, vals). case tl_uparse lib k of None \<Rightarrow> []
       | Some i \<Rightarrow> (if length vals < 3 then []
           else [\<lparr>ed_ID = i, ed_SourceID = parse_or_nil lib (vals ! 0), ed_TargetID = parse_or_nil lib (vals ! 1),
                  ed_EdgeType = any_string (vals ! 2)\<rparr>]))
       (sdt_Edges sd))"

section \<open>The engine\<close>

record node_mutation =
  nm_Type :: string
  nm_TreeID :: uuid
  nm_NodeID :: uuid
  nm_ActorID :: uuid
  nm_Content :: string
  nm_ContentFormat :: string
  nm_NodeType :: string
  nm_ParentID :: "uuid option"
  nm_EdgeID :: uuid
  nm_EdgeType :: string
  nm_Timestamp :: instant

text \<open>\<open>encoding/json\<close> writes the members of a map in the order of their keys.\<close>

definition buildNodeEventPayload :: "tree_lib \<Rightarrow> node_mutation \<Rightarrow> json" where
  "buildNodeEventPayload lib m =
     JObj ([(''actor_id'', JStr (tl_ustr lib (nm_ActorID m)))]
       @ (if nm_Content m \<noteq> [] then [(''content'', JStr (nm_Content m)), (''content_format'', JStr (nm_ContentFormat m))] else [])
       @ (if nm_EdgeID m \<noteq> uuid_Nil then [(''edge_id'', JStr (tl_ustr lib (nm_EdgeID m))), (''edge_type'', JStr (nm_EdgeType m))] else [])
       @ [(''mutation_type'', JStr (nm_Type m)), (''node_id'', JStr (tl_ustr lib (nm_NodeID m)))]
       @ (if nm_NodeType m \<noteq> [] then [(''node_type'', JStr (nm_NodeType m))] else [])
       @ (case nm_ParentID m of None \<Rightarrow> [] | Some p \<Rightarrow> [(''parent_id'', JStr (tl_ustr lib p))])
       @ [(''timestamp'', JStr (format_rfc3339 (nm_Timestamp m)))])"

definition edgeIDPtr :: "node_mutation \<Rightarrow> uuid option" where
  "edgeIDPtr m = (if nm_EdgeID m = uuid_Nil then None else Some (nm_EdgeID m))"

definition broadcastMutationEvent :: "tree_lib \<Rightarrow> instant \<Rightarrow> uuid \<Rightarrow> string \<Rightarrow> uuid \<Rightarrow> int \<Rightarrow> json \<Rightarrow> sse_hub option \<Rightarrow> sse_hub option" where
  "broadcastMutationEvent lib now t eventType actorID n payload hub =
     map_option (\<lambda>h. snd (sse_Broadcast lib now t \<lparr>ev_ID = EventID lib t n, ev_Type = eventType, ev_Data = RawJSON payload,
        ev_Timestamp = now, ev_TreeID = t, ev_SequenceNum = n, ev_ActorID = actorID\<rparr> h)) hub"

definition try_snapshot :: "tree_lib \<Rightarrow> uuid \<Rightarrow> instant \<Rightarrow> uuid \<Rightarrow> graph_db \<Rightarrow> sync_db \<Rightarrow> sync_db" where
  "try_snapshot lib newID now t db sd = (case CreateSnapshot lib newID now t db sd of Inl _ \<Rightarrow> sd | Inr (_, sd') \<Rightarrow> sd')"

definition OnNodeMutation :: "tree_lib \<Rightarrow> bool \<Rightarrow> uuid \<times> uuid \<Rightarrow> instant \<Rightarrow> node_mutation \<Rightarrow> graph_db \<Rightarrow> sync_db \<Rightarrow> sse_hub option \<Rightarrow> pg_error + (sync_db \<times> sse_hub option)" where
  "OnNodeMutation lib snapshotOnCommit newIDs now m db sd hub =
     (let payload = buildNodeEventPayload lib m
      in case AppendEvent_row (fst newIDs) now (nm_TreeID m) (nm_Type m) (Some (nm_NodeID m)) (edgeIDPtr m) payload None db sd of
           Inl e \<Rightarrow> Inl e
         | Inr (ev, sd') \<Rightarrow>
             Inr (if snapshotOnCommit then try_snapshot lib (snd newIDs) now (nm_TreeID m) db sd' else sd',
                  broadcastMutationEvent lib now (nm_TreeID m) (nm_Type m) (nm_ActorID m) (te_SequenceNum ev) payload hub))"

datatype yjs_error = EmptyYjsUpdate | YjsAppendFailed pg_error

definition ApplyYjsUpdate :: "tree_lib \<Rightarrow> uuid \<Rightarrow> instant \<Rightarrow> uuid \<Rightarrow> uuid \<Rightarrow> string \<Rightarrow> graph_db \<Rightarrow> sync_db \<Rightarrow> sse_hub option \<Rightarrow> yjs_error + (sync_db \<times> sse_hub option)" where
  "ApplyYjsUpdate lib newID now t actorID update db sd hub =
     (if update = [] then Inl EmptyYjsUpdate
      else (let payload = JStr (base64std update)
            in case AppendEvent_row newID now t ''yjs_update'' None None payload None db sd of
                 Inl e \<Rightarrow> Inl (YjsAppendFailed e)
               | Inr (ev, sd') \<Rightarrow> Inr (sd', broadcastMutationEvent lib now t ''yjs_update'' actorID (te_SequenceNum ev) payload hub)))"

definition OnTreeMutation :: "tree_lib \<Rightarrow> bool \<Rightarrow> uuid \<Rightarrow> instant \<Rightarrow> string \<Rightarrow> uuid \<Rightarrow> graph_db \<Rightarrow> sync_db \<Rightarrow> sync_db" where
  "OnTreeMutation lib snapshotOnCommit newID now mutation t db sd =
     (if snapshotOnCommit \<and> mutation \<noteq> ''tree_deleted'' then try_snapshot lib newID now t db sd else sd)"

datatype sync_error = NoSnapshots | BadSnapshotData

definition full_node :: "json list \<Rightarrow> compact_node" where
  "full_node vals = \<lparr>cpn_SeqNum = toInt64 (vals ! 0), cpn_CreatedAt = any_string (vals ! 1), cpn_ParentID = any_string (vals ! 2),
     cpn_ContentHash = any_string (vals ! 3), cpn_ContentFormat = any_string (vals ! 4), cpn_NodeType = any_string (vals ! 5)\<rparr>"

definition full_edge :: "json list \<Rightarrow> compact_edge" where
  "full_edge vals = \<lparr>cpe_SourceID = any_string (vals ! 0), cpe_TargetID = any_string (vals ! 1), cpe_EdgeType = any_string (vals ! 2)\<rparr>"

definition full_members :: "tree_lib \<Rightarrow> nat \<Rightarrow> (json list \<Rightarrow> 'a) \<Rightarrow> (string, json list) gomap \<Rightarrow> (uuid, 'a) gomap" where
  "full_members lib len f members =
     fold (\<lambda>(k, vals) m. case tl_uparse lib k of None \<Rightarrow> m | Some i \<Rightarrow> if length vals < len then m else map_put i (f vals) m) members []"

definition buildFullDelta :: "tree_lib \<Rightarrow> sync_db \<Rightarrow> uuid \<Rightarrow> sync_error + tree_delta" where
  "buildFullDelta lib sd t =
     (case GetLatestSnapshot sd t of None \<Rightarrow> Inl NoSnapshots
      | Some latest \<Rightarrow>
          (case parse_snapshot_data (sn_Data latest) of None \<Rightarrow> Inl BadSnapshotData
           | Some d \<Rightarrow> Inr \<lparr>td_FromHash = [], td_ToHash = sn_Hash latest, td_AddedNodes = full_members lib 6 full_node (sdt_Nodes d),
               td_RemovedNodeIDs = [], td_ChangedNodes = [], td_AddedEdges = full_members lib 3 full_edge (sdt_Edges d),
               td_RemovedEdgeIDs = [], td_NodeCount = sn_NodeCount latest, td_EdgeCount = sn_EdgeCount latest\<rparr>))"

definition computeDeltaFromSnapshots :: "tree_lib \<Rightarrow> snapshot_row \<Rightarrow> snapshot_row \<Rightarrow> sync_error + tree_delta" where
  "computeDeltaFromSnapshots lib f to =
     (case (parse_snapshot_data (sn_Data f), parse_snapshot_data (sn_Data to)) of
        (Some fromData, Some toData) \<Rightarrow>
          (case ComputeDelta lib (Some f) (Some to) (snapshotDataToNodes lib fromData) (snapshotDataToNodes lib toData)
                  (snapshotDataToEdges lib fromData) (snapshotDataToEdges lib toData) of
             None \<Rightarrow> Inl NoSnapshots | Some d \<Rightarrow> Inr d)
      | _ \<Rightarrow> Inl BadSnapshotData)"

definition ComputeDeltaForClient :: "tree_lib \<Rightarrow> sync_db \<Rightarrow> uuid \<Rightarrow> string \<Rightarrow> sync_error + tree_delta" where
  "ComputeDeltaForClient lib sd t lastKnownHash =
     (case GetLatestSnapshot sd t of None \<Rightarrow> Inl NoSnapshots
      | Some latest \<Rightarrow>
          (if lastKnownHash = sn_Hash latest
           then Inr \<lparr>td_FromHash = lastKnownHash, td_ToHash = sn_Hash latest, td_AddedNodes = [], td_RemovedNodeIDs = [],
                     td_ChangedNodes = [], td_AddedEdges = [], td_RemovedEdgeIDs = [], td_NodeCount = sn_NodeCount latest,
                     td_EdgeCount = sn_EdgeCount latest\<rparr>
           else case GetSnapshot sd lastKnownHash of
             None \<Rightarrow> buildFullDelta lib sd t
           | Some f \<Rightarrow> computeDeltaFromSnapshots lib f latest))"

section \<open>The service\<close>

record sync_snapshot =
  ss_Hash :: string
  ss_NodeCount :: int
  ss_EdgeCount :: int
  ss_SnapshotID :: uuid
  ss_TreeID :: uuid
  ss_CreatedAt :: string

record sync_counts =
  sy_AddedNodes :: int
  sy_AddedEdges :: int
  sy_TotalNodes :: int
  sy_TotalEdges :: int

record sync_response =
  sr_TreeID :: uuid
  sr_CurrentHash :: string
  sr_FullSnapshot :: bool
  sr_Snapshot :: "sync_snapshot option"
  sr_Delta :: "sync_counts option"

definition snapshotFromDB :: "snapshot_row \<Rightarrow> sync_snapshot" where
  "snapshotFromDB s =
     \<lparr>ss_Hash = sn_Hash s, ss_NodeCount = sn_NodeCount s, ss_EdgeCount = sn_EdgeCount s, ss_SnapshotID = sn_ID s,
      ss_TreeID = sn_TreeID s, ss_CreatedAt = format_rfc3339 (sn_CreatedAt s)\<rparr>"

definition ComputeSnapshot :: "tree_lib \<Rightarrow> uuid \<Rightarrow> instant \<Rightarrow> uuid \<Rightarrow> graph_db \<Rightarrow> sync_db \<Rightarrow> pg_error + (sync_snapshot \<times> sync_db)" where
  "ComputeSnapshot lib newID now t db sd =
     (case CreateSnapshot lib newID now t db sd of Inl e \<Rightarrow> Inl e | Inr (s, sd') \<Rightarrow> Inr (snapshotFromDB s, sd'))"

text \<open>\<open>None\<close> is the error that the tree is not found.\<close>

definition GetSyncResponse :: "sync_db \<Rightarrow> uuid \<Rightarrow> string \<Rightarrow> sync_response option" where
  "GetSyncResponse sd t lastKnownHash =
     (case GetLatestSnapshot sd t of None \<Rightarrow> None
      | Some latest \<Rightarrow>
          (let resp = \<lparr>sr_TreeID = sn_TreeID latest, sr_CurrentHash = sn_Hash latest, sr_FullSnapshot = False, sr_Snapshot = None, sr_Delta = None\<rparr>;
               full = resp\<lparr>sr_FullSnapshot := True, sr_Snapshot := Some (snapshotFromDB latest)\<rparr>
           in if lastKnownHash = [] then Some full
              else if lastKnownHash = sn_Hash latest then Some resp
              else case GetSnapshot sd lastKnownHash of
                None \<Rightarrow> Some full
              | Some known \<Rightarrow> Some (resp\<lparr>sr_Delta := Some
                  \<lparr>sy_AddedNodes = sn_NodeCount latest - sn_NodeCount known, sy_AddedEdges = sn_EdgeCount latest - sn_EdgeCount known,
                   sy_TotalNodes = sn_NodeCount latest, sy_TotalEdges = sn_EdgeCount latest\<rparr>\<rparr>)))"

end
