(* ===== verification/Event_Stream_Properties.thy ===== *)
theory Event_Stream_Properties
  imports Event_Stream
begin

text \<open>
  What the stream of tree events promises: the counts of connections match the connections and
  respect their limits in every reachable hub, sequence numbers only grow, and a client that
  reconnects with the identifier of the last event it saw receives what it missed. The hub is an
  \<open>evolving\<close> component; its steps are the calls of the handlers and of the background sweeper.
\<close>

section \<open>Connections\<close>

definition ident :: "sse_client \<Rightarrow> string \<times> uuid \<times> uuid" where
  "ident c = (cl_ID c, cl_UserID c, cl_TreeID c)"

definition user_of :: "sse_hub \<Rightarrow> string \<Rightarrow> uuid" where
  "user_of h i = (case client_at h i of Some c \<Rightarrow> cl_UserID c | None \<Rightarrow> uuid_Nil)"

definition tree_of :: "sse_hub \<Rightarrow> string \<Rightarrow> uuid" where
  "tree_of h i = (case client_at h i of Some c \<Rightarrow> cl_TreeID c | None \<Rightarrow> uuid_Nil)"

definition sse_conns_ok :: "sse_hub \<Rightarrow> bool" where
  "sse_conns_ok h \<longleftrightarrow> distinct (sh_clients h) \<and> sh_total h = int (length (sh_clients h)) \<and> sh_total h \<le> MaxConnectionsTotal
     \<and> (\<forall>i c. client_at h i = Some c \<longrightarrow> cl_ID c = i) \<and> (\<forall>i \<in> set (sh_clients h). client_at h i \<noteq> None)
     \<and> (\<forall>u. map_get 0 (sh_byUser h) u = int (length (filter (\<lambda>i. user_of h i = u) (sh_clients h)))
            \<and> int (length (filter (\<lambda>i. user_of h i = u) (sh_clients h))) \<le> MaxConnectionsPerUser)
     \<and> (\<forall>t. map_get [] (sh_subscribers h) t = filter (\<lambda>i. tree_of h i = t) (sh_clients h)
            \<and> int (length (filter (\<lambda>i. tree_of h i = t) (sh_clients h))) \<le> MaxConnectionsPerTree)"

text \<open>Calls that only move frames keep this view of the hub.\<close>

definition conn_view :: "sse_hub \<Rightarrow> string list \<times> (uuid, string list) gomap \<times> (uuid, int) gomap \<times> int \<times> (string \<Rightarrow> (string \<times> uuid \<times> uuid) option)" where
  "conn_view h = (sh_clients h, sh_subscribers h, sh_byUser h, sh_total h, \<lambda>i. map_option ident (client_at h i))"

definition log_view :: "sse_hub \<Rightarrow> int \<times> (uuid, int) gomap \<times> (uuid, sse_event list) gomap \<times> bool" where
  "log_view h = (sh_cap h, sh_counters h, sh_rings h, sh_closed h)"

lemma user_of_ident: "user_of h i = (case map_option ident (client_at h i) of Some (_, u, _) \<Rightarrow> u | None \<Rightarrow> uuid_Nil)"
  by (simp add: user_of_def ident_def split: option.split)

lemma tree_of_ident: "tree_of h i = (case map_option ident (client_at h i) of Some (_, _, t) \<Rightarrow> t | None \<Rightarrow> uuid_Nil)"
  by (simp add: tree_of_def ident_def split: option.split)

lemma sse_conns_ok_ident: "(\<forall>i c. client_at h i = Some c \<longrightarrow> cl_ID c = i)
    \<longleftrightarrow> (\<forall>i. case map_option ident (client_at h i) of Some (j, _) \<Rightarrow> j = i | None \<Rightarrow> True)"
  by (auto simp: ident_def split: option.split)

lemma sse_conns_ok_cong:
  assumes "conn_view h' = conn_view h" "sse_conns_ok h"
  shows "sse_conns_ok h'"
proof -
  have v: "sh_clients h' = sh_clients h" "sh_subscribers h' = sh_subscribers h" "sh_byUser h' = sh_byUser h" "sh_total h' = sh_total h"
    and c: "\<And>i. map_option ident (client_at h' i) = map_option ident (client_at h i)"
    using assms(1) by (auto simp: conn_view_def fun_eq_iff)
  have u: "user_of h' = user_of h" "tree_of h' = tree_of h" by (simp_all add: fun_eq_iff user_of_ident tree_of_ident c)
  have n: "client_at h' i = None \<longleftrightarrow> client_at h i = None" for i using c [of i] by (metis map_option_is_None)
  show ?thesis using assms(2) unfolding sse_conns_ok_def sse_conns_ok_ident v c u n .
qed

lemma client_at_put [simp]: "client_at (put_client c h) i = (if i = cl_ID c then Some c else client_at h i)"
  by (simp add: client_at_def put_client_def update_conv)

lemma put_client_fields [simp]:
  "sh_cap (put_client c h) = sh_cap h" "sh_counters (put_client c h) = sh_counters h" "sh_rings (put_client c h) = sh_rings h"
  "sh_subscribers (put_client c h) = sh_subscribers h" "sh_clients (put_client c h) = sh_clients h"
  "sh_byUser (put_client c h) = sh_byUser h" "sh_total (put_client c h) = sh_total h" "sh_closed (put_client c h) = sh_closed h"
  by (simp_all add: put_client_def)

lemma put_client_log [simp]: "log_view (put_client c h) = log_view h"
  by (simp add: log_view_def)

lemma put_client_view:
  assumes "client_at h i = Some c" "cl_ID c = i" "ident c' = ident c"
  shows "conn_view (put_client c' h) = conn_view h"
  using assms by (auto simp: conn_view_def fun_eq_iff ident_def)

lemma client_ident [simp]:
  "client_Send lib ev c = Inr c' \<Longrightarrow> ident c' = ident c"
  "client_SendRaw raw c = Inr c' \<Longrightarrow> ident c' = ident c"
  "client_Flush n c = (e, c') \<Longrightarrow> ident c' = ident c"
  "ident (client_Close c) = ident c"
  by (auto simp: client_Send_def client_SendRaw_def client_Flush_def client_Close_def ident_def split: if_splits)

definition ids_ok :: "sse_hub \<Rightarrow> bool" where
  "ids_ok h \<longleftrightarrow> (\<forall>i c. client_at h i = Some c \<longrightarrow> cl_ID c = i)"

lemma sse_conns_ok_ids: "sse_conns_ok h \<Longrightarrow> ids_ok h"
  by (simp add: sse_conns_ok_def ids_ok_def)

lemma ids_ok_put [simp]: "ids_ok h \<Longrightarrow> ids_ok (put_client c h)"
  by (simp add: ids_ok_def)

lemma moved_client:
  assumes "ids_ok h" "client_at h i = Some c" "ident c' = ident c"
  shows "conn_view (put_client c' h) = conn_view h"
  using assms put_client_view [of h i c c'] by (simp add: ids_ok_def)

section \<open>Moving frames\<close>

lemma send_all_moves:
  "ids_ok h \<Longrightarrow> send_all lib ev ids h = (drops, h') \<Longrightarrow>
     conn_view h' = conn_view h \<and> log_view h' = log_view h \<and> ids_ok h' \<and> set drops \<subseteq> set ids"
proof (induction lib ev ids h arbitrary: drops h' rule: send_all.induct)
  case (2 lib ev i ids h)
  show ?case
  proof (cases "client_at h i")
    case None
    with 2 show ?thesis by (auto simp: subset_insertI2)
  next
    case (Some c)
    show ?thesis
    proof (cases "client_Send lib ev c")
      case (Inl e)
      obtain ds h1 where r: "send_all lib ev ids h = (ds, h1)" by fastforce
      from "2.IH"(2) [OF Some Inl "2.prems"(1) r] "2.prems"(2) Some Inl r show ?thesis by (auto simp: Let_def)
    next
      case (Inr c')
      have "conn_view (put_client c' h) = conn_view h" by (rule moved_client [OF "2.prems"(1) Some]) (use Inr in simp)
      with 2 Some Inr show ?thesis by fastforce
    qed
  qed
qed simp

lemma send_events_moves:
  "ids_ok h \<Longrightarrow> send_events lib i evs h = (e, h') \<Longrightarrow> conn_view h' = conn_view h \<and> log_view h' = log_view h"
proof (induction lib i evs h arbitrary: rule: send_events.induct)
  case (2 lib i ev evs h)
  show ?case
  proof (cases "client_at h i")
    case None
    with 2 show ?thesis by simp
  next
    case (Some c)
    show ?thesis
    proof (cases "client_Send lib ev c")
      case (Inl e)
      with 2 Some show ?thesis by simp
    next
      case (Inr c')
      have "conn_view (put_client c' h) = conn_view h" by (rule moved_client [OF "2.prems"(1) Some]) (use Inr in simp)
      with 2 Some Inr show ?thesis by simp
    qed
  qed
qed simp

lemma raw_moves:
  assumes "ids_ok h" "client_at h i = Some c" "client_SendRaw raw c = Inr c'"
  shows "conn_view (put_client c' h) = conn_view h"
  by (rule moved_client [OF assms(1,2)]) (use assms(3) in simp)

lemma overflow_moves: "ids_ok h \<Longrightarrow> conn_view (overflow_notice lib now t i h) = conn_view h \<and> log_view (overflow_notice lib now t i h) = log_view h
    \<and> ids_ok (overflow_notice lib now t i h)"
  by (auto simp: overflow_notice_def raw_moves split: option.split sum.split)

lemma replay_moves:
  assumes "ids_ok h"
  shows "conn_view (snd (replay_events lib now t i n m h)) = conn_view h \<and> log_view (snd (replay_events lib now t i n m h)) = log_view h"
proof -
  obtain evs trunc where s: "log_Since t n m h = (evs, trunc)" by fastforce
  obtain e h' where r: "send_events lib i evs (if trunc then overflow_notice lib now t i h else h) = (e, h')" by fastforce
  from send_events_moves [OF _ r] overflow_moves [OF assms] assms show ?thesis
    by (auto simp: replay_events_def s r split: if_splits)
qed

lemma ReplaySince_moves:
  "ids_ok h \<Longrightarrow> conn_view (snd (ReplaySince lib now t i lastID h)) = conn_view h \<and> log_view (snd (ReplaySince lib now t i lastID h)) = log_view h"
  by (simp add: ReplaySince_def replay_moves split: option.split)

lemma ReplayRecent_moves:
  "ids_ok h \<Longrightarrow> conn_view (snd (ReplayRecent lib now t i m h)) = conn_view h \<and> log_view (snd (ReplayRecent lib now t i m h)) = log_view h"
  by (simp add: ReplayRecent_def replay_moves)

lemma done_moves: "ids_ok h \<Longrightarrow> conn_view (send_done lib now i h) = conn_view h \<and> log_view (send_done lib now i h) = log_view h
    \<and> ids_ok (send_done lib now i h)"
  by (auto simp: send_done_def raw_moves split: option.split sum.split)

lemma fold_done_moves: "ids_ok h \<Longrightarrow> conn_view (fold (send_done lib now) ids h) = conn_view h \<and> log_view (fold (send_done lib now) ids h) = log_view h"
proof (induction ids arbitrary: h)
  case (Cons i ids)
  from done_moves [OF Cons.prems, of lib now i] Cons.IH [of "send_done lib now i h"] show ?case by simp
qed simp

lemma flush_moves:
  "ids_ok h \<Longrightarrow> conn_view (snd (flush_client n i h)) = conn_view h \<and> log_view (snd (flush_client n i h)) = log_view h"
  by (auto simp: flush_client_def Let_def moved_client split: option.split prod.split)

section \<open>Joining and leaving\<close>

lemma filter_removeAll: "filter P (removeAll x xs) = removeAll x (filter P xs)"
  by (induction xs) auto

lemma length_removeAll_distinct: "distinct xs \<Longrightarrow> length (removeAll x xs) = length xs - (if x \<in> set xs then 1 else 0)"
  by (simp add: distinct_remove1_removeAll [symmetric] length_remove1)

lemma Subscribe_refused: "sse_Subscribe t c h = (Some e, h') \<Longrightarrow> h' = h"
  by (auto simp: sse_Subscribe_def Let_def split: if_splits)

lemma Subscribe_ok:
  assumes "sse_conns_ok h" "sse_Subscribe (cl_TreeID c) c h = (e, h')"
  shows "sse_conns_ok h'"
proof (cases e)
  case (Some a)
  with assms Subscribe_refused show ?thesis by blast
next
  case None
  let ?t = "cl_TreeID c" and ?u = "cl_UserID c" and ?i = "cl_ID c"
  have h': "h' = put_client c (h\<lparr>sh_subscribers := map_put ?t (map_get [] (sh_subscribers h) ?t @ [?i]) (sh_subscribers h),
      sh_clients := sh_clients h @ [?i], sh_byUser := map_put ?u (map_get 0 (sh_byUser h) ?u + 1) (sh_byUser h), sh_total := sh_total h + 1\<rparr>)"
    and new: "?i \<notin> set (sh_clients h)" and lim: "map_get 0 (sh_byUser h) ?u < 10" "sh_total h < 10000"
      "length (map_get [] (sh_subscribers h) ?t) < 100"
    using assms(2) None by (auto simp: sse_Subscribe_def Let_def split: if_splits)
  have at: "client_at h' j = (if j = ?i then Some c else client_at h j)" for j by (simp add: h') (simp add: client_at_def)
  have old: "user_of h' j = user_of h j" "tree_of h' j = tree_of h j" if "j \<in> set (sh_clients h)" for j
    using that new by (auto simp: user_of_def tree_of_def at)
  have self: "user_of h' ?i = ?u" "tree_of h' ?i = ?t" by (simp_all add: user_of_def tree_of_def at)
  have fs: "filter (\<lambda>j. user_of h' j = u) (sh_clients h') = filter (\<lambda>j. user_of h j = u) (sh_clients h) @ (if ?u = u then [?i] else [])"
    "filter (\<lambda>j. tree_of h' j = t) (sh_clients h') = filter (\<lambda>j. tree_of h j = t) (sh_clients h) @ (if ?t = t then [?i] else [])" for u t
    using old self by (auto simp: h' intro: filter_cong)
  show ?thesis using assms(1) new lim unfolding sse_conns_ok_def fs at
    by (auto simp: h')
qed

lemma Unsubscribe_absent: "i \<notin> set (sh_clients h) \<Longrightarrow> sse_Unsubscribe t i h = h"
  by (simp add: sse_Unsubscribe_def)

lemma Unsubscribe_log [simp]: "log_view (sse_Unsubscribe t i h) = log_view h"
  by (simp add: sse_Unsubscribe_def log_view_def Let_def split: option.split)

lemma Unsubscribe_at [simp]: "client_at (sse_Unsubscribe t i h) j = client_at h j"
  by (simp add: sse_Unsubscribe_def client_at_def Let_def split: option.split)

lemma Unsubscribe_ok:
  assumes "sse_conns_ok h" "tree_of h i = t"
  shows "sse_conns_ok (sse_Unsubscribe t i h)"
proof (cases "i \<in> set (sh_clients h)")
  case True
  then obtain c where c: "client_at h i = Some c" using assms(1) by (auto simp: sse_conns_ok_def)
  define h' where "h' = sse_Unsubscribe t i h"
  have at: "client_at h' j = client_at h j" for j by (simp add: h'_def)
  then have of: "user_of h' = user_of h" "tree_of h' = tree_of h" by (simp_all add: fun_eq_iff user_of_def tree_of_def)
  have uc: "user_of h i = cl_UserID c" by (simp add: user_of_def c)
  have cl: "sh_clients h' = removeAll i (sh_clients h)" "sh_total h' = sh_total h - 1"
    and bu: "map_get 0 (sh_byUser h') u = (if u = cl_UserID c then max 0 (map_get 0 (sh_byUser h) u - 1) else map_get 0 (sh_byUser h) u)"
    and su: "map_get [] (sh_subscribers h') t' = (if t' = t then removeAll i (map_get [] (sh_subscribers h) t) else map_get [] (sh_subscribers h) t')"
    for u t' using True c by (simp_all add: h'_def sse_Unsubscribe_def Let_def)
  have d: "distinct (sh_clients h)" using assms(1) by (simp add: sse_conns_ok_def)
  have nf: "removeAll i (filter P (sh_clients h)) = filter P (sh_clients h)" if "\<not> P i" for P using that by (simp add: removeAll_id)
  have lf: "length (removeAll i (filter P (sh_clients h))) = length (filter P (sh_clients h)) - (if P i then 1 else 0)" for P
    using True d by (simp add: length_removeAll_distinct)
  have pos: "0 < length (filter (\<lambda>j. user_of h j = cl_UserID c) (sh_clients h))"
    using True uc by (metis (mono_tags) filter_empty_conv length_greater_0_conv)
  then have less: "int (length (filter (\<lambda>j. user_of h j = cl_UserID c) (sh_clients h)) - Suc 0)
      = int (length (filter (\<lambda>j. user_of h j = cl_UserID c) (sh_clients h))) - 1" by linarith
  have "map_get 0 (sh_byUser h') u = int (length (filter (\<lambda>j. user_of h' j = u) (sh_clients h')))
      \<and> int (length (filter (\<lambda>j. user_of h' j = u) (sh_clients h'))) \<le> MaxConnectionsPerUser" for u
  proof -
    have m: "map_get 0 (sh_byUser h) u = int (length (filter (\<lambda>j. user_of h j = u) (sh_clients h)))"
      "length (filter (\<lambda>j. user_of h j = u) (sh_clients h)) \<le> 10" using assms(1) by (simp_all add: sse_conns_ok_def)
    show ?thesis using m pos by (auto simp: bu of cl filter_removeAll lf uc less)
  qed
  moreover have "map_get [] (sh_subscribers h') t' = filter (\<lambda>j. tree_of h' j = t') (sh_clients h')
      \<and> int (length (filter (\<lambda>j. tree_of h' j = t') (sh_clients h'))) \<le> MaxConnectionsPerTree" for t'
  proof -
    have m: "map_get [] (sh_subscribers h) t' = filter (\<lambda>j. tree_of h j = t') (sh_clients h)"
      "length (filter (\<lambda>j. tree_of h j = t') (sh_clients h)) \<le> 100" using assms(1) by (simp_all add: sse_conns_ok_def)
    show ?thesis using m assms(2) by (auto simp: su of cl filter_removeAll nf lf)
  qed
  moreover have "0 < length (sh_clients h)" using True by (cases "sh_clients h") auto
  then have "int (length (removeAll i (sh_clients h))) = int (length (sh_clients h)) - 1"
    unfolding length_removeAll_distinct [OF d] using True by (simp only: if_True)
  ultimately have "sse_conns_ok h'" using assms(1) d
    by (simp add: sse_conns_ok_def at cl distinct_removeAll)
  then show ?thesis by (simp add: h'_def)
qed (simp add: Unsubscribe_absent assms)

section \<open>The log\<close>

definition log_ok :: "sse_hub \<Rightarrow> bool" where
  "log_ok h \<longleftrightarrow> 0 < sh_cap h \<and> (\<forall>t. sorted_wrt seq_lt (map_get [] (sh_rings h) t) \<and> int (length (map_get [] (sh_rings h) t)) \<le> sh_cap h
     \<and> 0 \<le> map_get 0 (sh_counters h) t
     \<and> (\<forall>e \<in> set (map_get [] (sh_rings h) t). 1 \<le> ev_SequenceNum e \<and> ev_SequenceNum e \<le> map_get 0 (sh_counters h) t \<and> ev_TreeID e = t))"

lemma log_view_eq: "log_view h = (sh_cap h, sh_counters h, sh_rings h, sh_closed h)"
  by (simp add: log_view_def)

lemma log_ok_cong: "log_view h' = log_view h \<Longrightarrow> log_ok h \<Longrightarrow> log_ok h'"
  by (simp add: log_ok_def log_view_def)

definition keep_last :: "int \<Rightarrow> 'a list \<Rightarrow> 'a list" where
  "keep_last n xs = drop (length xs - nat n) xs"

lemma ring_append_keep_last: "0 < n \<Longrightarrow> int (length r) \<le> n \<Longrightarrow> ring_append n e r = keep_last n (r @ [e])"
  by (cases r) (auto simp: ring_append_def keep_last_def not_less nat_add_distrib)

lemma keep_last_snoc: "keep_last n (keep_last n xs @ [e]) = keep_last n (xs @ [e])"
proof -
  have "Suc (length xs) - (length xs - nat n + nat n) + (length xs - nat n) = Suc (length xs) - nat n" by arith
  then show ?thesis by (simp add: keep_last_def)
qed

lemma keep_last_append: "keep_last n (keep_last n xs @ ys) = keep_last n (xs @ ys)"
proof (induction ys rule: rev_induct)
  case Nil
  show ?case by (simp add: keep_last_def)
next
  case (snoc y ys)
  then show ?case by (metis append.assoc keep_last_snoc)
qed

lemma length_keep_last: "0 < n \<Longrightarrow> int (length (keep_last n xs)) \<le> n"
  by (simp add: keep_last_def)

lemma set_keep_last: "set (keep_last n xs) \<subseteq> set xs"
  by (simp add: keep_last_def set_drop_subset)

lemma sorted_keep_last: "sorted_wrt P xs \<Longrightarrow> sorted_wrt P (keep_last n xs)"
  by (simp add: keep_last_def sorted_wrt_drop)

lemma filter_keep_last:
  assumes "\<And>x. x \<in> set r \<Longrightarrow> \<not> P x" "\<And>x. x \<in> set s \<Longrightarrow> P x"
  shows "filter P (keep_last n (r @ s)) = keep_last n s"
proof -
  have "filter P (drop k r) = []" for k using assms(1) by (auto simp: filter_empty_conv dest: in_set_dropD)
  moreover have "filter P (drop k s) = drop k s" for k using assms(2) by (auto simp: filter_id_conv dest: in_set_dropD)
  ultimately show ?thesis by (simp add: keep_last_def)
qed

section \<open>Numbering and fan-out\<close>

definition logged :: "tree_lib \<Rightarrow> instant \<Rightarrow> uuid \<Rightarrow> sse_event \<Rightarrow> int \<Rightarrow> sse_event" where
  "logged lib now t ev n =
     \<lparr>ev_ID = EventID lib t n, ev_Type = ev_Type ev, ev_Data = ev_Data ev, ev_Timestamp = now, ev_TreeID = t,
      ev_SequenceNum = n, ev_ActorID = ev_ActorID ev\<rparr>"

lemma EventID_nonempty [simp]: "EventID lib t n \<noteq> []"
  by (simp add: EventID_def)

lemma number_event_fresh:
  assumes "ev_SequenceNum ev = 0"
  shows "number_event lib now t ev h =
     (logged lib now t ev (map_get 0 (sh_counters h) t + 1),
      h\<lparr>sh_counters := map_put t (map_get 0 (sh_counters h) t + 1) (sh_counters h),
        sh_rings := map_put t (ring_append (sh_cap h) (logged lib now t ev (map_get 0 (sh_counters h) t + 1)) (map_get [] (sh_rings h) t)) (sh_rings h)\<rparr>)"
  using assms by (simp add: number_event_def log_Append_def nextSeq_def logged_def Let_def)

lemma number_event_given: "ev_SequenceNum ev \<noteq> 0 \<Longrightarrow> snd (number_event lib now t ev h) = h"
  by (simp add: number_event_def)

lemma number_event_view: "number_event lib now t ev h = (ev', h') \<Longrightarrow> conn_view h' = conn_view h \<and> sh_closed h' = sh_closed h"
  by (cases "ev_SequenceNum ev = 0")
    (auto simp: number_event_fresh conn_view_def client_at_def number_event_def log_Append_def nextSeq_def Let_def)

lemma number_event_objects: "sh_objects (snd (number_event lib now t ev h)) = sh_objects h"
  by (cases "ev_SequenceNum ev = 0") (simp_all add: number_event_fresh number_event_given)

lemma number_event_log_ok:
  assumes "log_ok h"
  shows "log_ok (snd (number_event lib now t ev h))"
proof (cases "ev_SequenceNum ev = 0")
  case True
  define n where "n = map_get 0 (sh_counters h) t + 1"
  define e where "e = logged lib now t ev n"
  define r where "r = map_get [] (sh_rings h) t"
  have seq: "ev_SequenceNum e = n" "ev_TreeID e = t" by (simp_all add: e_def logged_def)
  have old: "0 < sh_cap h" "sorted_wrt seq_lt r" "int (length r) \<le> sh_cap h" "0 < n"
    "\<forall>x \<in> set r. 1 \<le> ev_SequenceNum x \<and> ev_SequenceNum x < n \<and> ev_TreeID x = t"
    using assms unfolding log_ok_def n_def r_def by fastforce+
  have ring: "ring_append (sh_cap h) e r = keep_last (sh_cap h) (r @ [e])" using old by (intro ring_append_keep_last)
  have "sorted_wrt seq_lt (keep_last (sh_cap h) (r @ [e]))"
    using old seq by (intro sorted_keep_last) (auto simp: sorted_wrt_append seq_lt_def)
  moreover have "\<forall>x \<in> set (keep_last (sh_cap h) (r @ [e])). 1 \<le> ev_SequenceNum x \<and> ev_SequenceNum x \<le> n \<and> ev_TreeID x = t"
    using set_keep_last [of "sh_cap h" "r @ [e]"] old(4,5) seq by fastforce
  moreover note length_keep_last [OF old(1), of "r @ [e]"]
  ultimately show ?thesis using assms old(4)
    by (auto simp: number_event_fresh [OF True] log_ok_def n_def [symmetric] e_def [symmetric] r_def [symmetric] ring)
qed (simp add: number_event_given assms)

lemma tree_of_view: "conn_view h' = conn_view h \<Longrightarrow> tree_of h' = tree_of h"
  by (auto simp: fun_eq_iff tree_of_ident conn_view_def)

lemma close_client_moves:
  "ids_ok h \<Longrightarrow> conn_view (close_client i h) = conn_view h \<and> log_view (close_client i h) = log_view h"
  by (auto simp: close_client_def moved_client split: option.split)

lemma drop_client_ok:
  assumes "sse_conns_ok h" "tree_of h i = t"
  shows "sse_conns_ok (drop_client t i h) \<and> log_view (drop_client t i h) = log_view h \<and> tree_of (drop_client t i h) = tree_of h
     \<and> sh_clients (drop_client t i h) = removeAll i (sh_clients h)"
proof -
  have ok: "sse_conns_ok (sse_Unsubscribe t i h)" by (rule Unsubscribe_ok [OF assms])
  from close_client_moves [OF sse_conns_ok_ids [OF ok], of i]
  have v: "conn_view (drop_client t i h) = conn_view (sse_Unsubscribe t i h)" "log_view (drop_client t i h) = log_view h"
    by (simp_all add: drop_client_def)
  have "sh_clients (sse_Unsubscribe t i h) = removeAll i (sh_clients h)"
    using assms(1) by (auto simp: sse_Unsubscribe_def sse_conns_ok_def Let_def split: option.split)
  moreover have "tree_of (sse_Unsubscribe t i h) = tree_of h" by (simp add: fun_eq_iff tree_of_def)
  ultimately show ?thesis using v sse_conns_ok_cong [OF v(1) ok] tree_of_view [OF v(1)] by (auto simp: conn_view_def)
qed

lemma fold_drop_ok:
  "sse_conns_ok h \<Longrightarrow> (\<And>i. i \<in> set ids \<Longrightarrow> tree_of h i = t) \<Longrightarrow>
     sse_conns_ok (fold (drop_client t) ids h) \<and> log_view (fold (drop_client t) ids h) = log_view h"
proof (induction ids arbitrary: h)
  case (Cons i ids)
  from drop_client_ok [OF Cons.prems(1), of i t] Cons.prems(2) have
    "sse_conns_ok (drop_client t i h)" "log_view (drop_client t i h) = log_view h" "tree_of (drop_client t i h) = tree_of h" by simp_all
  with Cons.IH [of "drop_client t i h"] Cons.prems(2) show ?case by simp
qed simp

lemma Broadcast_moves:
  assumes "sse_conns_ok h" "sse_Broadcast lib now t ev h = (ev', h')" "\<not> sh_closed h"
  shows "sse_conns_ok h' \<and> log_view h' = log_view (snd (number_event lib now t ev h)) \<and> ev' = fst (number_event lib now t ev h)"
proof -
  obtain e1 h1 where n: "number_event lib now t ev h = (e1, h1)" by fastforce
  obtain ds h2 where s: "send_all lib e1 (map_get [] (sh_subscribers h1) t) h1 = (ds, h2)" by fastforce
  have ok1: "sse_conns_ok h1" by (rule sse_conns_ok_cong [OF _ assms(1)]) (use number_event_view [OF n] in blast)
  from send_all_moves [OF sse_conns_ok_ids [OF ok1] s]
  have m: "conn_view h2 = conn_view h1" "log_view h2 = log_view h1" "set ds \<subseteq> set (map_get [] (sh_subscribers h1) t)" by simp_all
  have ok2: "sse_conns_ok h2" by (rule sse_conns_ok_cong [OF m(1) ok1])
  have d: "tree_of h2 i = t" if "i \<in> set ds" for i
  proof -
    have "map_get [] (sh_subscribers h1) t = filter (\<lambda>i. tree_of h1 i = t) (sh_clients h1)" using ok1 by (simp add: sse_conns_ok_def)
    with that m(3) have "tree_of h1 i = t" by auto
    then show ?thesis using tree_of_view [OF m(1)] by simp
  qed
  have "sse_conns_ok (fold (drop_client t) ds h2) \<and> log_view (fold (drop_client t) ds h2) = log_view h2"
    by (rule fold_drop_ok [OF ok2 d])
  with assms(2,3) m show ?thesis by (simp add: sse_Broadcast_def n s)
qed

section \<open>Reachable hubs\<close>

text \<open>
  The calls on a hub: a client joins or leaves its tree, an event is broadcast, a client is sent
  the events it missed, its outbox is written out, a frame is queued for it, the log is pruned,
  the hub is shut down.
\<close>

inductive sse_step :: "tree_lib \<Rightarrow> sse_hub \<Rightarrow> sse_hub \<Rightarrow> bool" for lib where
  subscribe: "sse_step lib h (snd (sse_Subscribe (cl_TreeID c) c h))"
| unsubscribe: "sse_step lib h (sse_Unsubscribe (tree_of h i) i h)"
| broadcast: "sse_step lib h (snd (sse_Broadcast lib now t ev h))"
| since: "sse_step lib h (snd (ReplaySince lib now t i lastID h))"
| recent: "sse_step lib h (snd (ReplayRecent lib now t i maxEvents h))"
| flush: "sse_step lib h (snd (flush_client accepts i h))"
| raw: "client_at h i = Some c \<Longrightarrow> client_SendRaw frame c = Inr c' \<Longrightarrow> sse_step lib h (put_client c' h)"
| prune: "sse_step lib h (snd (log_Prune now retention h))"
| shutdown: "sse_step lib h (Shutdown_begin lib now h)"
| expire: "sse_step lib h (Shutdown_expire h)"

text \<open>A hub never reopens, and a counter never goes back.\<close>

definition hub_le :: "sse_hub \<Rightarrow> sse_hub \<Rightarrow> bool" where
  "hub_le h h' \<longleftrightarrow> (sh_closed h \<longrightarrow> sh_closed h') \<and> sh_cap h' = sh_cap h
     \<and> (\<forall>t. map_get 0 (sh_counters h) t \<le> map_get 0 (sh_counters h') t)"

definition sse_ok :: "sse_hub \<Rightarrow> bool" where
  "sse_ok h \<longleftrightarrow> sse_conns_ok h \<and> log_ok h"

lemma hub_le_view: "log_view h' = log_view h \<Longrightarrow> hub_le h h'"
  by (simp add: hub_le_def log_view_def)

lemma hub_moves: "sse_ok h \<Longrightarrow> conn_view h' = conn_view h \<and> log_view h' = log_view h \<Longrightarrow> sse_ok h' \<and> hub_le h h'"
  using sse_conns_ok_cong log_ok_cong hub_le_view unfolding sse_ok_def by blast

lemma hub_same: "sse_ok h \<Longrightarrow> sse_conns_ok h' \<Longrightarrow> log_view h' = log_view h \<Longrightarrow> sse_ok h' \<and> hub_le h h'"
  using log_ok_cong hub_le_view unfolding sse_ok_def by blast

lemma Subscribe_log: "log_view (snd (sse_Subscribe t c h)) = log_view h"
  by (simp add: sse_Subscribe_def log_view_def Let_def)

lemma map_of_map_pair: "map_of (map (\<lambda>(k, v). (k, f v)) m) k = map_option f (map_of m k)"
  by (induction m) auto

lemma log_Prune_ring: "map_get [] (sh_rings (snd (log_Prune now d h))) t = ring_prune (now - d) (map_get [] (sh_rings h) t)"
  by (simp add: log_Prune_def Let_def map_get_def map_of_map_pair ring_prune_def split: option.split)

lemma log_Prune_ok:
  assumes "sse_ok h"
  shows "sse_ok (snd (log_Prune now d h)) \<and> hub_le h (snd (log_Prune now d h))"
proof -
  let ?h = "snd (log_Prune now d h)"
  have f: "sh_cap ?h = sh_cap h" "sh_counters ?h = sh_counters h" "sh_closed ?h = sh_closed h" "conn_view ?h = conn_view h"
    by (simp_all add: log_Prune_def Let_def conn_view_def client_at_def)
  have len: "int (length (ring_prune c r)) \<le> n" if "int (length r) \<le> n" for c r n
    unfolding ring_prune_def by (rule order_trans [OF _ that]) simp
  have "sse_conns_ok ?h" by (rule sse_conns_ok_cong [OF f(4)]) (use assms in \<open>simp add: sse_ok_def\<close>)
  moreover have "log_ok ?h" using assms unfolding sse_ok_def log_ok_def
    by (auto simp: f log_Prune_ring len) (auto simp: ring_prune_def sorted_wrt_filter)
  ultimately show ?thesis by (simp add: sse_ok_def hub_le_def f)
qed

lemma fold_force_ok:
  "sse_conns_ok h \<Longrightarrow> sse_conns_ok (fold force_close ids h) \<and> log_view (fold force_close ids h) = log_view h
     \<and> sh_clients (fold force_close ids h) = filter (\<lambda>i. i \<notin> set ids) (sh_clients h)"
proof (induction ids arbitrary: h)
  case (Cons i ids)
  have "sse_conns_ok (force_close i h) \<and> log_view (force_close i h) = log_view h \<and> sh_clients (force_close i h) = removeAll i (sh_clients h)"
  proof (cases "client_at h i")
    case None
    with Cons.prems have "i \<notin> set (sh_clients h)" by (auto simp: sse_conns_ok_def)
    with None Cons.prems show ?thesis by (simp add: force_close_def removeAll_id)
  next
    case (Some c)
    then have "tree_of h i = cl_TreeID c" by (simp add: tree_of_def)
    from drop_client_ok [OF Cons.prems this] Some show ?thesis by (simp add: force_close_def)
  qed
  with Cons.IH [of "force_close i h"] show ?case by (auto simp: removeAll_filter_not_eq intro!: filter_cong)
qed simp

lemma Shutdown_expire_ok: "sse_ok h \<Longrightarrow> sse_ok (Shutdown_expire h) \<and> hub_le h (Shutdown_expire h)"
proof -
  assume ok: "sse_ok h"
  let ?h = "fold force_close (sh_clients h) h"
  from fold_force_ok [of h "sh_clients h"] ok have f: "sse_conns_ok ?h" "log_view ?h = log_view h" "sh_clients ?h = []"
    by (simp_all add: sse_ok_def)
  then have "sh_total ?h = 0" by (simp add: sse_conns_ok_def)
  then have "Shutdown_expire h = ?h" by (simp add: Shutdown_expire_def)
  with hub_same [OF ok f(1,2)] show ?thesis by simp
qed

lemma Broadcast_ok:
  assumes "sse_ok h"
  shows "sse_ok (snd (sse_Broadcast lib now t ev h)) \<and> hub_le h (snd (sse_Broadcast lib now t ev h))"
proof (cases "sh_closed h")
  case True
  with assms show ?thesis by (simp add: sse_Broadcast_def hub_le_view)
next
  case False
  obtain ev' h' where b: "sse_Broadcast lib now t ev h = (ev', h')" by fastforce
  let ?n = "snd (number_event lib now t ev h)"
  from Broadcast_moves [OF _ b False] assms have m: "sse_conns_ok h'" "log_view h' = log_view ?n" by (simp_all add: sse_ok_def)
  have "log_ok h'" by (rule log_ok_cong [OF m(2)]) (use assms number_event_log_ok in \<open>simp add: sse_ok_def\<close>)
  moreover have "hub_le h ?n"
    by (cases "ev_SequenceNum ev = 0") (simp_all add: number_event_fresh number_event_given hub_le_def)
  then have "hub_le h h'" using m(2) by (simp add: hub_le_def log_view_def)
  ultimately show ?thesis using m(1) by (simp add: b sse_ok_def)
qed

lemma sse_step_ok:
  assumes step: "sse_step lib h h'" and ok: "sse_ok h"
  shows "sse_ok h' \<and> hub_le h h'"
  using step
proof cases
  case (subscribe c)
  obtain e h1 where s: "sse_Subscribe (cl_TreeID c) c h = (e, h1)" by fastforce
  have "sse_conns_ok h1" using Subscribe_ok [OF _ s] ok by (simp add: sse_ok_def)
  then show ?thesis using hub_same [of h h1] Subscribe_log [of "cl_TreeID c" c h] subscribe s ok by simp
next
  case (unsubscribe i)
  then show ?thesis using Unsubscribe_ok [of h i] hub_same [of h h'] ok by (auto simp: sse_ok_def)
next
  case (broadcast now t ev)
  then show ?thesis using Broadcast_ok [OF ok] by simp
next
  case (since now t i lastID)
  then show ?thesis using hub_moves [of h h'] ReplaySince_moves [of h] sse_conns_ok_ids ok by (simp add: sse_ok_def)
next
  case (recent now t i maxEvents)
  then show ?thesis using hub_moves [of h h'] ReplayRecent_moves [of h] sse_conns_ok_ids ok by (simp add: sse_ok_def)
next
  case (flush accepts i)
  then show ?thesis using hub_moves [of h h'] flush_moves [of h] sse_conns_ok_ids ok by (simp add: sse_ok_def)
next
  case (raw i c frame c')
  then show ?thesis using hub_moves [of h h'] raw_moves [of h i c frame c'] sse_conns_ok_ids ok by (simp add: sse_ok_def)
next
  case (prune now retention)
  then show ?thesis using log_Prune_ok [OF ok] by simp
next
  case (shutdown now)
  have v: "conn_view (h\<lparr>sh_closed := True\<rparr>) = conn_view h" by (simp add: conn_view_def client_at_def)
  have okc: "sse_conns_ok (h\<lparr>sh_closed := True\<rparr>)" using ok sse_conns_ok_cong [OF v] by (simp add: sse_ok_def)
  from fold_done_moves [OF sse_conns_ok_ids [OF okc], of lib now "sh_clients h"]
  have m: "conn_view (fold (send_done lib now) (sh_clients h) (h\<lparr>sh_closed := True\<rparr>)) = conn_view h"
    "log_view (fold (send_done lib now) (sh_clients h) (h\<lparr>sh_closed := True\<rparr>)) = (sh_cap h, sh_counters h, sh_rings h, True)"
    using v by (simp_all add: log_view_def)
  show ?thesis
  proof (cases "sh_closed h")
    case True
    with shutdown ok show ?thesis by (simp add: Shutdown_begin_def hub_le_view)
  next
    case False
    with shutdown m ok have "sse_conns_ok h'" "log_view h' = (sh_cap h, sh_counters h, sh_rings h, True)"
      using sse_conns_ok_cong [OF m(1)] by (simp_all add: Shutdown_begin_def sse_ok_def)
    with ok show ?thesis by (simp add: sse_ok_def log_ok_def hub_le_def log_view_def)
  qed
next
  case expire
  then show ?thesis using Shutdown_expire_ok [OF ok] by simp
qed

interpretation sse_runs: evolving "sse_step lib" sse_ok hub_le for lib
  by unfold_locales (auto simp: hub_le_def intro: order_trans dest: sse_step_ok)

lemma NewHub_sse_ok: "sse_ok (NewHubWithConfig n)"
  by (simp add: sse_ok_def sse_conns_ok_def log_ok_def NewHubWithConfig_def client_at_def)

lemma reachable_sse_ok: "(sse_step lib)\<^sup>*\<^sup>* (NewHubWithConfig n) h \<Longrightarrow> sse_ok h"
  using sse_runs.run_ok NewHub_sse_ok by blast

text \<open>
  C31: In every reachable hub the counts are the connections: the total, the count of each user and
  the subscribers of each tree are those of the connected clients, each in its own tree, and none
  exceeds its limit of 10000, 10 and 100.
\<close>

theorem sse_connections_consistent:
  assumes "(sse_step lib)\<^sup>*\<^sup>* (NewHubWithConfig n) h"
  shows "TotalConnections h = int (length (sh_clients h)) \<and> TotalConnections h \<le> 10000
    \<and> map_get 0 (sh_byUser h) u = int (length (filter (\<lambda>i. user_of h i = u) (sh_clients h))) \<and> map_get 0 (sh_byUser h) u \<le> 10
    \<and> map_get [] (sh_subscribers h) t = filter (\<lambda>i. tree_of h i = t) (sh_clients h) \<and> SubscriberCount t h \<le> 100"
  using reachable_sse_ok [OF assms] by (simp_all add: sse_ok_def sse_conns_ok_def TotalConnections_def SubscriberCount_def)

section \<open>Replay\<close>

lemma dec_value_snoc: "dec_value (ds @ [d]) = 10 * dec_value ds + (int (of_char d) - 48)"
  by (simp add: dec_value_def)

lemma dec_value_digits: "dec_value (nat_digits n) = int n"
proof (induction n rule: nat_digits.induct)
  case (1 n)
  show ?case
  proof (cases "n < 10")
    case True
    then show ?thesis by (subst nat_digits.simps) (simp add: dec_value_def digit_of_char)
  next
    case False
    have "(of_char (char_of (48 + n mod 10 :: nat)) :: nat) = 48 + n mod 10" by (rule digit_of_char) simp
    moreover have "10 * int (n div 10) + int (n mod 10) = int n"
      by (metis mult_div_mod_eq of_nat_add of_nat_mult of_nat_numeral)
    ultimately show ?thesis using False 1 by (subst nat_digits.simps) (simp add: dec_value_snoc)
  qed
qed

lemma scan_int_itoa:
  assumes "0 \<le> n" "n \<le> int64_max"
  shows "scan_int (itoa n) = Some n"
proof -
  define ds where "ds = nat_digits (nat n)"
  have i: "itoa n = ds" using assms(1) by (simp add: itoa_def ds_def)
  have dig: "\<forall>c \<in> set ds. byte_in 48 57 c" using nat_digits_range by (auto simp: ds_def)
  have ne: "ds \<noteq> []" by (simp add: ds_def)
  then obtain c r where c: "ds = c # r" by (cases ds) auto
  have "byte_in 48 57 c" using dig c by simp
  then have "\<not> scan_blank c" "c \<noteq> CHR ''-''" "c \<noteq> CHR ''+''" by (auto simp: byte_in_def scan_blank_def)
  moreover have "takeWhile (byte_in 48 57) ds = ds" using dig by simp
  moreover have "dec_value ds = n" using assms(1) by (simp add: ds_def dec_value_digits)
  ultimately show ?thesis using assms c unfolding i scan_int_def by (simp add: Let_def int64_min_def)
qed

lemma itoa_no_colon: "0 \<le> n \<Longrightarrow> CHR '':'' \<notin> set (itoa n)"
  using nat_digits_range by (fastforce simp: itoa_def byte_in_def)

lemma parse_EventID:
  assumes "tl_uparse lib (tl_ustr lib t) = Some t" "0 \<le> n" "n \<le> int64_max"
  shows "parseEventID lib (EventID lib t n) = Some (t, n)"
proof -
  have c: "CHR '':'' \<notin> set (rev (itoa n))" using itoa_no_colon [OF assms(2)] by simp
  have r: "rev (EventID lib t n) = rev (itoa n) @ CHR '':'' # rev (tl_ustr lib t)" by (simp add: EventID_def)
  have "takeWhile (\<lambda>c. c \<noteq> CHR '':'') (rev (EventID lib t n)) = rev (itoa n)"
    "dropWhile (\<lambda>c. c \<noteq> CHR '':'') (rev (EventID lib t n)) = CHR '':'' # rev (tl_ustr lib t)"
    unfolding r using c by (auto simp: takeWhile_tail dropWhile_append3)
  then show ?thesis using assms scan_int_itoa by (simp add: parseEventID_def) (simp add: EventID_def)
qed

text \<open>Broadcasting unnumbered events one after the other, and the numbers they get.\<close>

fun broadcast_all :: "tree_lib \<Rightarrow> uuid \<Rightarrow> (instant \<times> sse_event) list \<Rightarrow> sse_hub \<Rightarrow> sse_hub" where
  "broadcast_all lib t [] h = h"
| "broadcast_all lib t ((now, ev) # evs) h = broadcast_all lib t evs (snd (sse_Broadcast lib now t ev h))"

fun numbered :: "tree_lib \<Rightarrow> uuid \<Rightarrow> int \<Rightarrow> (instant \<times> sse_event) list \<Rightarrow> sse_event list" where
  "numbered lib t n [] = []"
| "numbered lib t n ((now, ev) # evs) = logged lib now t ev (n + 1) # numbered lib t (n + 1) evs"

lemma length_numbered [simp]: "length (numbered lib t n evs) = length evs"
  by (induction lib t n evs rule: numbered.induct) simp_all

lemma numbered_seq: "e \<in> set (numbered lib t n evs) \<Longrightarrow> n < ev_SequenceNum e"
proof (induction lib t n evs rule: numbered.induct)
  case (2 lib t n now ev evs)
  then show ?case by (fastforce simp: logged_def)
qed simp

lemma Broadcast_fresh:
  fixes lib :: tree_lib and now :: instant and t :: uuid and ev :: sse_event
  assumes "sse_ok h" "\<not> sh_closed h" "ev_SequenceNum ev = 0"
  defines "h' \<equiv> snd (sse_Broadcast lib now t ev h)" and "n \<equiv> map_get 0 (sh_counters h) t"
  shows "sse_ok h' \<and> \<not> sh_closed h' \<and> sh_cap h' = sh_cap h \<and> map_get 0 (sh_counters h') t = n + 1
     \<and> map_get [] (sh_rings h') t = keep_last (sh_cap h) (map_get [] (sh_rings h) t @ [logged lib now t ev (n + 1)])"
proof -
  obtain e where b: "sse_Broadcast lib now t ev h = (e, h')" by (metis h'_def prod.collapse)
  have ok: "sse_conns_ok h" "log_ok h" using assms(1) by (simp_all add: sse_ok_def)
  have "log_view h' = log_view (snd (number_event lib now t ev h))" using Broadcast_moves [OF ok(1) b assms(2)] by blast
  moreover have "ring_append (sh_cap h) x (map_get [] (sh_rings h) t) = keep_last (sh_cap h) (map_get [] (sh_rings h) t @ [x])" for x
    using ok(2) by (intro ring_append_keep_last) (auto simp: log_ok_def)
  ultimately show ?thesis using Broadcast_ok [OF assms(1), of lib now t ev] assms(2) b
    by (simp add: number_event_fresh [OF assms(3)] log_view_def n_def)
qed

lemma broadcast_all_log:
  "sse_ok h \<Longrightarrow> \<not> sh_closed h \<Longrightarrow> \<forall>p \<in> set evs. ev_SequenceNum (snd p) = 0 \<Longrightarrow>
     sse_ok (broadcast_all lib t evs h) \<and> sh_cap (broadcast_all lib t evs h) = sh_cap h
     \<and> map_get [] (sh_rings (broadcast_all lib t evs h)) t
         = keep_last (sh_cap h) (map_get [] (sh_rings h) t @ numbered lib t (map_get 0 (sh_counters h) t) evs)"
proof (induction lib t evs h rule: broadcast_all.induct)
  case (1 lib t h)
  then have "int (length (map_get [] (sh_rings h) t)) \<le> sh_cap h" by (simp add: sse_ok_def log_ok_def)
  then show ?case using 1 by (simp add: keep_last_def)
next
  case (2 lib t now ev evs h)
  from Broadcast_fresh [OF "2.prems"(1,2), of ev lib now t] "2.prems"(3) "2.IH" show ?case
    by (simp add: keep_last_append)
qed

lemma send_events_all:
  "client_at h i = Some c \<Longrightarrow> cl_ID c = i \<Longrightarrow> \<not> cl_Closed c \<Longrightarrow> length (cl_Outbox c) + length evs \<le> cl_Cap c \<Longrightarrow>
     \<exists>h' c'. send_events lib i evs h = (None, h') \<and> client_at h' i = Some c' \<and> cl_Outbox c' = cl_Outbox c @ map (formatEvent lib) evs"
proof (induction evs arbitrary: h c)
  case (Cons ev evs)
  define c1 where "c1 = c\<lparr>cl_Outbox := cl_Outbox c @ [formatEvent lib ev], cl_LastEventID := ev_ID ev\<rparr>"
  have send: "client_Send lib ev c = Inr c1" using Cons.prems by (simp add: client_Send_def c1_def)
  have "\<exists>h' c'. send_events lib i evs (put_client c1 h) = (None, h') \<and> client_at h' i = Some c'
      \<and> cl_Outbox c' = cl_Outbox c1 @ map (formatEvent lib) evs"
    by (rule Cons.IH) (use Cons.prems in \<open>simp_all add: c1_def\<close>)
  then show ?case using Cons.prems(1) by (simp add: send) (simp add: c1_def)
qed simp

lemma ring_since_sorted:
  assumes "sorted_wrt seq_lt r" "int (length (filter (\<lambda>e. \<not> ev_SequenceNum e \<le> n) r)) \<le> m"
  shows "ring_since n m r = (filter (\<lambda>e. \<not> ev_SequenceNum e \<le> n) r, False)"
proof -
  have "sorted_wrt (\<lambda>x y. \<not> seq_lt y x) (filter (\<lambda>e. \<not> ev_SequenceNum e \<le> n) r)"
    by (rule sorted_wrt_mono_rel [OF _ sorted_wrt_filter [OF assms(1)]]) (simp add: seq_lt_def)
  then show ?thesis using assms(2) by (simp add: ring_since_def Let_def sort_stable_id)
qed


section \<open>Slow clients\<close>

definition takes_event :: "tree_lib \<Rightarrow> sse_event \<Rightarrow> sse_hub \<Rightarrow> string \<Rightarrow> bool" where
  "takes_event lib ev h i \<longleftrightarrow> (case client_at h i of None \<Rightarrow> True | Some c \<Rightarrow> \<not> is_err (client_Send lib ev c))"

definition after_send :: "tree_lib \<Rightarrow> sse_event \<Rightarrow> sse_client \<Rightarrow> sse_client" where
  "after_send lib ev c = (case client_Send lib ev c of Inl _ \<Rightarrow> client_Close c | Inr c' \<Rightarrow> c')"

lemma send_all_effect:
  assumes "ids_ok h" "distinct ids" "send_all lib ev ids h = (drops, h')"
  shows "drops = filter (\<lambda>i. \<not> takes_event lib ev h i) ids
     \<and> (\<forall>i. client_at h' i = (if i \<in> set ids \<and> takes_event lib ev h i then map_option (after_send lib ev) (client_at h i) else client_at h i))"
  using assms
proof (induction lib ev ids h arbitrary: drops h' rule: send_all.induct)
  case (2 lib ev i ids h)
  show ?case
  proof (cases "client_at h i")
    case None
    have "send_all lib ev ids h = (drops, h')" using "2.prems"(3) None by simp
    from "2.IH"(1) [OF None "2.prems"(1) _ this] "2.prems"(2) None show ?thesis by (auto simp: takes_event_def)
  next
    case (Some c)
    show ?thesis
    proof (cases "client_Send lib ev c")
      case (Inl e)
      obtain ds h1 where r: "send_all lib ev ids h = (ds, h1)" by fastforce
      have "\<not> takes_event lib ev h i" using Some Inl by (simp add: takes_event_def)
      with "2.IH"(2) [OF Some Inl "2.prems"(1) _ r] "2.prems"(2,3) Some Inl r show ?thesis by auto
    next
      case (Inr c')
      have idc: "cl_ID c' = i" using "2.prems"(1) Some client_ident(1) [OF Inr] by (simp add: ids_ok_def ident_def)
      then have t: "takes_event lib ev (put_client c' h) j = takes_event lib ev h j" if "j \<noteq> i" for j
        using that by (simp add: takes_event_def idc)
      have "send_all lib ev ids (put_client c' h) = (drops, h')" using "2.prems"(3) Some Inr by simp
      from "2.IH"(3) [OF Some Inr _ _ this] "2.prems"(1,2)
      have ih: "drops = filter (\<lambda>j. \<not> takes_event lib ev (put_client c' h) j) ids"
        "\<forall>j. client_at h' j = (if j \<in> set ids \<and> takes_event lib ev (put_client c' h) j
            then map_option (after_send lib ev) (client_at (put_client c' h) j) else client_at (put_client c' h) j)" by simp_all
      have ti: "takes_event lib ev h i" "after_send lib ev c = c'" "i \<notin> set ids"
        using Some Inr "2.prems"(2) by (simp_all add: takes_event_def after_send_def)
      have "drops = filter (\<lambda>j. \<not> takes_event lib ev h j) ids"
        unfolding ih(1) by (rule filter_cong [OF refl]) (metis t ti(3))
      moreover have "client_at h' j = (if j \<in> set (i # ids) \<and> takes_event lib ev h j then map_option (after_send lib ev) (client_at h j)
          else client_at h j)" for j
        using ih(2) t [of j] ti Some by (cases "j = i") (simp_all add: idc)
      ultimately show ?thesis using ti(1) by simp
    qed
  qed
qed simp

lemma drop_client_at:
  assumes "ids_ok h"
  shows "client_at (drop_client t i h) j = (if j = i then map_option client_Close (client_at h j) else client_at h j)"
  using assms by (auto simp: drop_client_def close_client_def ids_ok_def client_Close_def split: option.split)

lemma client_Close_idem [simp]: "client_Close (client_Close c) = client_Close c"
  by (simp add: client_Close_def)

lemma fold_drop_effect:
  "sse_conns_ok h \<Longrightarrow> (\<And>i. i \<in> set ids \<Longrightarrow> tree_of h i = t) \<Longrightarrow>
     (\<forall>j. client_at (fold (drop_client t) ids h) j = (if j \<in> set ids then map_option client_Close (client_at h j) else client_at h j))
     \<and> sh_clients (fold (drop_client t) ids h) = filter (\<lambda>j. j \<notin> set ids) (sh_clients h)"
proof (induction ids arbitrary: h)
  case (Cons i ids)
  from drop_client_ok [OF Cons.prems(1), of i t] Cons.prems(2) have
    d: "sse_conns_ok (drop_client t i h)" "tree_of (drop_client t i h) = tree_of h" "sh_clients (drop_client t i h) = removeAll i (sh_clients h)" by simp_all
  with Cons.IH [of "drop_client t i h"] Cons.prems(2)
  have "\<forall>j. client_at (fold (drop_client t) ids (drop_client t i h)) j
      = (if j \<in> set ids then map_option client_Close (client_at (drop_client t i h) j) else client_at (drop_client t i h) j)"
    "sh_clients (fold (drop_client t) ids (drop_client t i h)) = filter (\<lambda>j. j \<notin> set ids) (removeAll i (sh_clients h))" by simp_all
  then show ?case using drop_client_at [OF sse_conns_ok_ids [OF Cons.prems(1)]]
    by (auto simp: removeAll_filter_not_eq option.map_comp comp_def intro!: filter_cong)
qed simp

text \<open>
  C33: A broadcast serves every subscriber of the tree that can take the event, whatever the others
  do: each of them has the frame at the end of its outbox; a subscriber whose outbox is full, or
  that was closed, is closed and leaves the hub; the clients of other trees are not touched.
\<close>

theorem broadcast_isolates_slow:
  assumes run: "(sse_step lib)\<^sup>*\<^sup>* (NewHubWithConfig n) h" and "\<not> sh_closed h" and b: "sse_Broadcast lib now t ev h = (ev', h')"
    and i: "i \<in> set (sh_clients h)" "client_at h i = Some c"
  shows "if cl_TreeID c \<noteq> t then i \<in> set (sh_clients h') \<and> client_at h' i = Some c
     else if \<not> cl_Closed c \<and> length (cl_Outbox c) < cl_Cap c
     then i \<in> set (sh_clients h') \<and> client_at h' i = Some (c\<lparr>cl_Outbox := cl_Outbox c @ [formatEvent lib ev'], cl_LastEventID := ev_ID ev'\<rparr>)
     else i \<notin> set (sh_clients h') \<and> client_at h' i = Some (client_Close c)"
proof -
  have ok: "sse_conns_ok h" using reachable_sse_ok [OF run] by (simp add: sse_ok_def)
  obtain h1 where n: "number_event lib now t ev h = (ev', h1)"
    using Broadcast_moves [OF ok b assms(2)] by (metis prod.collapse)
  have v1: "conn_view h1 = conn_view h" using number_event_view [OF n] by blast
  then have ok1: "sse_conns_ok h1" using sse_conns_ok_cong ok by blast
  have at1: "client_at h1 = client_at h" using number_event_objects [of lib now t ev h] n by (simp add: fun_eq_iff client_at_def)
  have subs: "map_get [] (sh_subscribers h1) t = filter (\<lambda>i. tree_of h i = t) (sh_clients h)"
    using ok v1 by (simp add: sse_conns_ok_def conn_view_def)
  obtain ds h2 where s: "send_all lib ev' (map_get [] (sh_subscribers h1) t) h1 = (ds, h2)" by fastforce
  have h': "h' = fold (drop_client t) ds h2" using b assms(2) by (simp add: sse_Broadcast_def n s)
  have "distinct (map_get [] (sh_subscribers h1) t)" using ok by (simp add: subs sse_conns_ok_def)
  from send_all_effect [OF sse_conns_ok_ids [OF ok1] this s]
  have ds: "ds = filter (\<lambda>i. \<not> takes_event lib ev' h i) (filter (\<lambda>i. tree_of h i = t) (sh_clients h))"
    and at2: "client_at h2 i = (if i \<in> set (filter (\<lambda>i. tree_of h i = t) (sh_clients h)) \<and> takes_event lib ev' h i
        then map_option (after_send lib ev') (client_at h i) else client_at h i)"
    by (simp_all add: subs at1 takes_event_def)
  have v2: "conn_view h2 = conn_view h" using send_all_moves [OF sse_conns_ok_ids [OF ok1] s] v1 by simp
  have ok2: "sse_conns_ok h2" using sse_conns_ok_cong [OF v2 ok] .
  have tr: "tree_of h2 j = t" if "j \<in> set ds" for j using that by (auto simp: ds tree_of_view [OF v2])
  from fold_drop_effect [OF ok2 tr, of ds] have
    at3: "client_at h' i = (if i \<in> set ds then map_option client_Close (client_at h2 i) else client_at h2 i)"
    and cl: "sh_clients h' = filter (\<lambda>j. j \<notin> set ds) (sh_clients h)"
    using v2 by (simp_all add: h' conn_view_def)
  have t: "tree_of h i = cl_TreeID c" by (simp add: tree_of_def i(2))
  show ?thesis using i by (auto simp: at3 at2 cl ds t takes_event_def after_send_def client_Send_def is_err_def)
qed

section \<open>The handler\<close>

lemma Subscribe_joined:
  "sse_Subscribe t (NewClient i u t) h = (None, h') \<Longrightarrow> tree_of h' i = t"
  by (auto simp: sse_Subscribe_def Let_def tree_of_def NewClient_def NewClientWithOutbox_def split: if_splits)

text \<open>Opening a stream is a run of calls on the hub.\<close>

lemma open_stream_run:
  assumes ok: "sse_ok h"
  shows "(sse_step lib)\<^sup>*\<^sup>* h (snd (open_stream lib now i a a' req h))"
proof (cases "check_stream_request lib req h")
  case (Inl e)
  then show ?thesis by (simp add: open_stream_def)
next
  case (Inr t)
  obtain e h1 where s: "sse_Subscribe t (NewClient i uuid_Nil t) h = (e, h1)" by fastforce
  have st1: "sse_step lib h h1" using sse_step.subscribe [where lib = lib and c = "NewClient i uuid_Nil t" and h = h] s by (simp add: NewClient_def NewClientWithOutbox_def)
  show ?thesis
  proof (cases e)
    case (Some x)
    with Inr s st1 show ?thesis by (auto simp: open_stream_def)
  next
    case None
    have ok1: "ids_ok h1" "sse_ok h1" using sse_step_ok [OF st1 ok] sse_conns_ok_ids by (simp_all add: sse_ok_def)
    have t1: "tree_of h1 i = t" using Subscribe_joined s None by blast
    obtain f h2 where fl: "flush_client a i h1 = (f, h2)" by fastforce
    have st2: "sse_step lib h1 h2" using sse_step.flush [where lib = lib and accepts = a and i = i and h = h1] fl by simp
    have ok2: "ids_ok h2" "sse_ok h2" using sse_step_ok [OF st2 ok1(2)] sse_conns_ok_ids by (simp_all add: sse_ok_def)
    have t2: "tree_of h2 i = t" using flush_moves [OF ok1(1), of a i] fl t1 tree_of_view [of h2 h1] by simp
    define h3 where "h3 = (if sr_since req \<noteq> [] \<or> sr_lastEventID req = [] then h2 else snd (ReplaySince lib now t i (sr_lastEventID req) h2))"
    have st3: "(sse_step lib)\<^sup>*\<^sup>* h2 h3" unfolding h3_def using sse_step.since [where lib = lib and now = now and t = t and i = i and lastID = "sr_lastEventID req" and h = h2] by auto
    have t3: "tree_of h3 i = t" using ReplaySince_moves [OF ok2(1), of lib now t i "sr_lastEventID req"] t2 tree_of_view [of h3 h2] by (simp add: h3_def)
    have ok3: "ids_ok h3" using sse_runs.run_ok [OF st3 ok2(2)] sse_conns_ok_ids by (simp add: sse_ok_def)
    obtain g h4 where fl': "flush_client a' i h3 = (g, h4)" by fastforce
    have st4: "sse_step lib h3 h4" using sse_step.flush [where lib = lib and accepts = a' and i = i and h = h3] fl' by simp
    have t4: "tree_of h4 i = t" using flush_moves [OF ok3, of a' i] fl' t3 tree_of_view [of h4 h3] by simp
    have leave: "sse_step lib h2 (sse_Unsubscribe t i h2)" "sse_step lib h4 (sse_Unsubscribe t i h4)"
      using sse_step.unsubscribe [where lib = lib and h = h2 and i = i] sse_step.unsubscribe [where lib = lib and h = h4 and i = i] t2 t4 by simp_all
    have run: "(sse_step lib)\<^sup>*\<^sup>* h h2" using st1 st2 by (meson rtranclp.rtrancl_into_rtrancl r_into_rtranclp)
    then have run': "(sse_step lib)\<^sup>*\<^sup>* h h4" using st3 st4 by (meson rtranclp_trans rtranclp.rtrancl_into_rtrancl)
    from run run' leave have "(sse_step lib)\<^sup>*\<^sup>* h (sse_Unsubscribe t i h2)" "(sse_step lib)\<^sup>*\<^sup>* h (sse_Unsubscribe t i h4)"
      by (meson rtranclp.rtrancl_into_rtrancl)+
    moreover have "snd (open_stream lib now i a a' req h)
        = (if f \<noteq> None then sse_Unsubscribe t i h2 else if g \<noteq> None then sse_Unsubscribe t i h4 else h4)"
      unfolding open_stream_def Inr by (simp only: s None fl Let_def sum.case prod.case option.case h3_def [symmetric] fl')
        (simp split: option.split)
    ultimately show ?thesis using run' by simp
  qed
qed

text \<open>
  The handler connects every client as the zero user, so the limit of ten connections of a user is
  a limit of ten streams of the server.
\<close>

lemma eleventh_stream_refused:
  assumes "map_get 0 (sh_byUser h) uuid_Nil = 10" "\<not> sh_closed h" "i \<notin> set (sh_clients h)"
    and "check_stream_request lib req h = Inr t"
  shows "open_stream lib now i a a' req h = (Inl (StreamError 500 ''SUBSCRIPTION_FAILED''), h)"
  using assms by (simp add: open_stream_def sse_Subscribe_def NewClient_def NewClientWithOutbox_def Let_def)

section \<open>Witnesses\<close>

definition stream_lib :: tree_lib where
  "stream_lib = \<lparr>tl_ustr = (\<lambda>u. itoa (uint u)), tl_uparse = (\<lambda>s. if s = itoa 7 then Some 7 else None), tl_sha256hex = (\<lambda>s. s),
     tl_rawlen = (\<lambda>_. 0), tl_marshal = (\<lambda>_. ''j''), tl_ilike = (\<lambda>_ _. False), tl_lower = (\<lambda>s. s)\<rparr>"

definition stream_events :: "(instant \<times> sse_event) list" where
  "stream_events = [(5, ComposeEvent 5 7 3 ''node_added'' RawNil), (6, ComposeEvent 6 7 3 ''node_updated'' RawNil)]"

definition stream_hub :: sse_hub where
  "stream_hub = snd (sse_Subscribe 7 (NewClient ''a'' 3 7) NewHub)"

lemmas stream_defs = sse_Subscribe_def NewClient_def NewClientWithOutbox_def NewHub_def NewHubWithConfig_def Let_def

lemma stream_hub_reachable: "(sse_step stream_lib)\<^sup>*\<^sup>* (NewHubWithConfig 0) stream_hub"
proof -
  have "sse_step stream_lib NewHub stream_hub"
    using sse_step.subscribe [where lib = stream_lib and c = "NewClient ''a'' 3 7" and h = NewHub] by (simp add: stream_hub_def NewClient_def NewClientWithOutbox_def)
  then show ?thesis by (simp add: NewHub_def)
qed

lemma stream_hub_fields:
  "sh_clients stream_hub = [''a'']" "client_at stream_hub ''a'' = Some (NewClient ''a'' 3 7)" "\<not> sh_closed stream_hub"
  "sh_total stream_hub = 1"
  by (simp_all add: stream_hub_def stream_defs client_at_def put_client_def)

lemma sse_connections_consistent_witness:
  "TotalConnections stream_hub = 1 \<and> map_get 0 (sh_byUser stream_hub) 3 = 1 \<and> SubscriberCount 7 stream_hub = 1"
proof -
  note w = sse_connections_consistent [OF stream_hub_reachable, of 3 7]
  have "user_of stream_hub ''a'' = 3" "tree_of stream_hub ''a'' = 7"
    by (simp_all add: user_of_def tree_of_def stream_hub_fields NewClient_def NewClientWithOutbox_def)
  with w show ?thesis by (simp add: stream_hub_fields SubscriberCount_def)
qed


lemma broadcast_isolates_slow_witness:
  "\<exists>ev' h' c'. sse_Broadcast stream_lib 5 7 (ComposeEvent 5 7 3 ''node_added'' RawNil) stream_hub = (ev', h')
     \<and> client_at h' ''a'' = Some c' \<and> cl_Outbox c' = [formatEvent stream_lib ev']"
proof -
  obtain ev' h' where b: "sse_Broadcast stream_lib 5 7 (ComposeEvent 5 7 3 ''node_added'' RawNil) stream_hub = (ev', h')" by fastforce
  from broadcast_isolates_slow [OF stream_hub_reachable stream_hub_fields(3) b _ stream_hub_fields(2)] b show ?thesis
    by (simp add: stream_hub_fields NewClient_def NewClientWithOutbox_def)
qed

end
