(* ===== verification/Tree_Sync_Properties.thy ===== *)
theory Tree_Sync_Properties
  imports Tree_Sync Graph_History Event_Stream_Properties
begin

text \<open>
  What synchronisation promises: the two copies of the snapshot hash agree, the hashed text
  determines the state, and the delta for a client that holds a snapshot of a tree leads it to the
  latest one, in every history of calls of the graph services and the engine.
\<close>

section \<open>Sorting\<close>

lemma ins_by_map: "(\<And>x y. lt' (f x) (f y) = lt x y) \<Longrightarrow> ins_by lt' (f x) (map f xs) = map f (ins_by lt x xs)"
  by (induction xs) simp_all

lemma sort_stable_map: "(\<And>x y. lt' (f x) (f y) = lt x y) \<Longrightarrow> sort_stable lt' (map f xs) = map f (sort_stable lt xs)"
  by (induction xs) (simp_all add: ins_by_map)

lemma sorted_wrt_unique:
  assumes "sorted_wrt P xs" "sorted_wrt P ys" "mset xs = mset ys" "\<And>x y. x \<in> set xs \<Longrightarrow> y \<in> set xs \<Longrightarrow> P x y \<Longrightarrow> P y x \<Longrightarrow> x = y"
  shows "xs = ys"
  using assms
proof (induction xs arbitrary: ys)
  case (Cons x xs)
  then obtain y ys' where ys: "ys = y # ys'" by (cases ys) auto
  have sets: "set (x # xs) = set ys" using Cons.prems(3) by (metis set_mset_mset)
  have "x = y"
  proof (rule ccontr)
    assume ne: "x \<noteq> y"
    then have "y \<in> set xs" "x \<in> set ys'" using sets ys by auto
    then have "P x y" "P y x" using Cons.prems(1,2) ys by auto
    with Cons.prems(4) \<open>y \<in> set xs\<close> ne show False by auto
  qed
  moreover have "xs = ys'" by (rule Cons.IH) (use Cons.prems ys \<open>x = y\<close> in auto)
  ultimately show ?case using ys by simp
qed simp

lemma sort_stable_unique:
  assumes "weak_order lt" "mset xs = mset ys" "\<And>x y. x \<in> set xs \<Longrightarrow> y \<in> set xs \<Longrightarrow> x \<noteq> y \<Longrightarrow> lt x y \<or> lt y x"
  shows "sort_stable lt xs = sort_stable lt ys"
  by (rule sorted_wrt_unique [OF sorted_sort_stable [OF assms(1)] sorted_sort_stable [OF assms(1)]]) (use assms(2,3) in auto)

section \<open>The two hashes\<close>

definition node_digest_of :: "tree_lib \<Rightarrow> node \<Rightarrow> NodeDigest" where
  "node_digest_of lib n = NodeFromParts lib (n_ID n) (n_SequenceNum n) (n_CreatedAt n) (n_ParentID n) (content_hash (tl_sha256hex lib) n)
     (n_ContentFormat n) (n_NodeType n)"

definition edge_digest_of :: "edge_row \<Rightarrow> EdgeDigest" where
  "edge_digest_of e = EdgeFromParts (e_ID e) (e_SourceID e) (e_TargetID e) (e_EdgeType e)"

definition text_of_row :: "tree_lib \<Rightarrow> NodeDigest \<Rightarrow> row_digest" where
  "text_of_row lib n = \<lparr>rd_id = tl_ustr lib (nd_ID n), rd_seqNum = nd_SeqNum n, rd_createdAtMs = nd_CreatedAtEpoch n,
     rd_parentID = nd_ParentID n, rd_contentHash = nd_ContentHash n, rd_contentFormat = nd_ContentFormat n, rd_nodeType = nd_NodeType n\<rparr>"

definition text_of_edge :: "tree_lib \<Rightarrow> EdgeDigest \<Rightarrow> row_edge_digest" where
  "text_of_edge lib e = \<lparr>re_id = tl_ustr lib (ed_ID e), re_sourceID = tl_ustr lib (ed_SourceID e), re_targetID = tl_ustr lib (ed_TargetID e),
     re_edgeType = ed_EdgeType e\<rparr>"

text \<open>
  C30: The snapshot hash of the repository, which sorts and prints the rows it read, is the hash
  that the sync package computes of the digests of the same rows.
\<close>

theorem snapshot_hashes_agree:
  "computeSnapshotHash_rows lib ns es = ComputeSnapshotHash lib (map (node_digest_of lib) ns) (map edge_digest_of es)"
proof -
  have n: "map (row_digest_of lib) ns = map (text_of_row lib) (map (node_digest_of lib) ns)" for ns
    by (simp add: row_digest_of_def text_of_row_def node_digest_of_def NodeFromParts_def)
  have e: "map (row_edge_digest_of lib) es = map (text_of_edge lib) (map edge_digest_of es)" for es
    by (simp add: row_edge_digest_of_def text_of_edge_def edge_digest_of_def EdgeFromParts_def)
  have "sort_stable row_digest_before (map (row_digest_of lib) ns) = map (text_of_row lib) (sort_stable (node_digest_before lib) (map (node_digest_of lib) ns))"
    unfolding n by (rule sort_stable_map) (simp add: row_digest_before_def node_digest_before_def text_of_row_def)
  moreover have "sort_stable row_edge_before (map (row_edge_digest_of lib) es) = map (text_of_edge lib) (sort_stable (edge_digest_before lib) (map edge_digest_of es))"
    unfolding e by (rule sort_stable_map) (simp add: row_edge_before_def edge_digest_before_def text_of_edge_def Let_def)
  ultimately show ?thesis
    by (simp add: computeSnapshotHash_rows_def ComputeSnapshotHash_def snapshot_text_def comp_def node_fields_def edge_fields_def
        text_of_row_def text_of_edge_def)
qed

section \<open>The hashed text\<close>

definition plain_text :: "string \<Rightarrow> bool" where
  "plain_text s \<longleftrightarrow> CHR '':'' \<notin> set s \<and> CHR 0x0A \<notin> set s"

lemma break_unique: "d \<notin> set a \<Longrightarrow> d \<notin> set b \<Longrightarrow> a @ d # r = b @ d # s \<Longrightarrow> a = b \<and> r = s"
proof (induction a arbitrary: b)
  case Nil
  then show ?case by (cases b) auto
next
  case (Cons x a)
  then show ?case by (cases b) auto
qed

lemma Join_unique:
  assumes "xs \<noteq> []" "ys \<noteq> []" "\<forall>s \<in> set xs. d \<notin> set s" "\<forall>s \<in> set ys. d \<notin> set s" "strings_Join xs [d] = strings_Join ys [d]"
  shows "xs = ys"
  using assms
proof (induction xs "[d]" arbitrary: ys rule: strings_Join.induct)
  case (2 s)
  then obtain y ys' where "ys = y # ys'" by (cases ys) auto
  with 2 show ?case by (cases ys') auto
next
  case (3 s t ts)
  then obtain y ys' where ys: "ys = y # ys'" by (cases ys) auto
  show ?case
  proof (cases ys')
    case Nil
    with 3 ys show ?thesis by auto
  next
    case (Cons z zs)
    have "s @ d # strings_Join (t # ts) [d] = y @ d # strings_Join (z # zs) [d]" using "3.prems"(5) ys Cons by simp
    from break_unique [OF _ _ this] "3.prems"(3,4) ys have "s = y" "strings_Join (t # ts) [d] = strings_Join (z # zs) [d]" by auto
    with "3.hyps" [of "z # zs"] "3.prems" ys Cons show ?thesis by auto
  qed
qed simp

lemma lines_unique:
  assumes "\<forall>l \<in> set xs. d \<notin> set l" "\<forall>l \<in> set ys. d \<notin> set l" "concat (map (\<lambda>l. l @ [d]) xs) = concat (map (\<lambda>l. l @ [d]) ys)"
  shows "xs = ys"
  using assms
proof (induction xs arbitrary: ys)
  case (Cons x xs)
  then obtain y ys' where ys: "ys = y # ys'" by (cases ys) auto
  have "x @ d # concat (map (\<lambda>l. l @ [d]) xs) = y @ d # concat (map (\<lambda>l. l @ [d]) ys')" using Cons.prems(3) ys by simp
  from break_unique [OF _ _ this] Cons.prems(1,2) ys have "x = y" "concat (map (\<lambda>l. l @ [d]) xs) = concat (map (\<lambda>l. l @ [d]) ys')" by auto
  with Cons.IH [of ys'] Cons.prems(1,2) ys show ?case by auto
qed (metis concat.simps(1) concat_eq_Nil_conv list.simps(8) list.simps(9) list.set_intros(1) neq_Nil_conv snoc_eq_iff_butlast)

lemma text_lines_unique:
  assumes "\<forall>p \<in> set ps. p \<noteq> [] \<and> (\<forall>s \<in> set p. plain_text s)" "\<forall>p \<in> set qs. p \<noteq> [] \<and> (\<forall>s \<in> set p. plain_text s)"
    and "concat (map text_line ps) = concat (map text_line qs)"
  shows "ps = qs"
proof -
  let ?j = "\<lambda>p. strings_Join p '':''"
  have nl: "CHR 0x0A \<notin> set (?j p)" if "\<forall>s \<in> set p. plain_text s" for p
    using set_strings_Join [of p "'':''"] that by (auto simp: plain_text_def)
  have "concat (map (\<lambda>l. l @ [CHR 0x0A]) (map ?j ps)) = concat (map (\<lambda>l. l @ [CHR 0x0A]) (map ?j qs))"
    using assms(3) by (simp add: text_line_def [abs_def] newline_def comp_def)
  from lines_unique [OF _ _ this] have j: "map ?j ps = map ?j qs" using nl assms(1,2) by auto
  have "inj_on ?j (set ps \<union> set qs)"
    by (rule inj_onI, rule Join_unique [where d = "CHR '':''"]) (use assms(1,2) in \<open>auto simp: plain_text_def\<close>)
  with j show ?thesis by (metis map_inj_on)
qed

lemma digit_not_sign: "c \<in> set (nat_digits n) \<Longrightarrow> c \<noteq> CHR ''-'' \<and> c \<noteq> CHR '':'' \<and> c \<noteq> CHR 0x0A"
  using nat_digits_range by (fastforce simp: byte_in_def)

lemma plain_itoa [simp]: "plain_text (itoa i)"
  using digit_not_sign by (fastforce simp: plain_text_def itoa_def)

lemma nat_digits_inj: "nat_digits m = nat_digits n \<Longrightarrow> m = n"
  using dec_value_digits by (metis of_nat_eq_iff)

lemma itoa_inj: "itoa i = itoa j \<Longrightarrow> i = j"
proof -
  assume e: "itoa i = itoa j"
  have sign: "i < 0 \<longleftrightarrow> hd (itoa i) = CHR ''-''" for i
    using digit_not_sign [of "hd (nat_digits (nat i))" "nat i"] by (auto simp: itoa_def)
  have "i < 0 \<longleftrightarrow> j < 0" using sign e by metis
  with e show "i = j" using nat_digits_inj by (auto simp: itoa_def split: if_splits) (metis eq_nat_nat_iff linorder_not_less neg_0_less_iff_less less_imp_le neg_equal_iff_equal)+
qed

definition plain_node :: "NodeDigest \<Rightarrow> bool" where
  "plain_node n \<longleftrightarrow> plain_text (nd_ParentID n) \<and> plain_text (nd_ContentHash n) \<and> plain_text (nd_ContentFormat n) \<and> plain_text (nd_NodeType n)"

lemma node_digest_weak: "weak_order (node_digest_before lib)"
  by (rule weak_orderI) (auto simp: node_digest_before_def split: if_splits)

lemma edge_digest_key: "edge_digest_before lib = (\<lambda>a b.
    [tl_ustr lib (ed_SourceID a), tl_ustr lib (ed_TargetID a), ed_EdgeType a, tl_ustr lib (ed_ID a)]
    < [tl_ustr lib (ed_SourceID b), tl_ustr lib (ed_TargetID b), ed_EdgeType b, tl_ustr lib (ed_ID b)])"
  by (auto simp: fun_eq_iff edge_digest_before_def Let_def)

lemma edge_digest_weak: "weak_order (edge_digest_before lib)"
  unfolding edge_digest_key by (rule weak_orderI) auto

lemma node_digests_sorted:
  assumes "inj (tl_ustr lib)" "distinct (map nd_ID ns)" "mset ns = mset ms"
  shows "sort_stable (node_digest_before lib) ns = sort_stable (node_digest_before lib) ms"
proof (rule sort_stable_unique [OF node_digest_weak assms(3)])
  fix x y assume "x \<in> set ns" "y \<in> set ns" "x \<noteq> y"
  then have "nd_ID x \<noteq> nd_ID y" using assms(2) by (auto simp: distinct_map inj_on_def)
  then have "tl_ustr lib (nd_ID x) \<noteq> tl_ustr lib (nd_ID y)" using assms(1) by (auto simp: inj_def)
  then show "node_digest_before lib x y \<or> node_digest_before lib y x" by (auto simp: node_digest_before_def)
qed

lemma edge_digests_sorted:
  assumes "inj (tl_ustr lib)" "distinct (map ed_ID ns)" "mset ns = mset ms"
  shows "sort_stable (edge_digest_before lib) ns = sort_stable (edge_digest_before lib) ms"
proof (rule sort_stable_unique [OF edge_digest_weak assms(3)])
  fix x y assume "x \<in> set ns" "y \<in> set ns" "x \<noteq> y"
  then have "ed_ID x \<noteq> ed_ID y" using assms(2) by (auto simp: distinct_map inj_on_def)
  then have "tl_ustr lib (ed_ID x) \<noteq> tl_ustr lib (ed_ID y)" using assms(1) by (auto simp: inj_def)
  then show "edge_digest_before lib x y \<or> edge_digest_before lib y x" unfolding edge_digest_key by auto
qed

lemma node_fields_inj: "inj (tl_ustr lib) \<Longrightarrow> inj (node_fields lib)"
proof (rule injI)
  fix a b assume i: "inj (tl_ustr lib)" and "node_fields lib a = node_fields lib b"
  then have "nd_ID a = nd_ID b" "nd_SeqNum a = nd_SeqNum b" "nd_CreatedAtEpoch a = nd_CreatedAtEpoch b" "nd_ParentID a = nd_ParentID b"
    "nd_ContentHash a = nd_ContentHash b" "nd_ContentFormat a = nd_ContentFormat b" "nd_NodeType a = nd_NodeType b"
    using itoa_inj by (auto simp: node_fields_def dest: injD [OF i])
  then show "a = b" by (cases a, cases b) simp
qed

lemma edge_fields_inj: "inj (tl_ustr lib) \<Longrightarrow> inj (edge_fields lib)"
proof (rule injI)
  fix a b assume i: "inj (tl_ustr lib)" and "edge_fields lib a = edge_fields lib b"
  then have "ed_ID a = ed_ID b" "ed_SourceID a = ed_SourceID b" "ed_TargetID a = ed_TargetID b" "ed_EdgeType a = ed_EdgeType b"
    by (auto simp: edge_fields_def dest: injD [OF i])
  then show "a = b" by (cases a, cases b) simp
qed

text \<open>
  The text that is hashed for a snapshot is the same for two states exactly if they have the
  same nodes, with their numbers, times in milliseconds, parents, content hashes, formats and
  types, and the same edges, in whatever order they were read. Identifiers print injectively, and
  they and the other fields have no colon and no line break.
\<close>

lemma snapshot_text_identifies_state:
  assumes inj: "inj (tl_ustr lib)" and plain: "\<forall>u. plain_text (tl_ustr lib u)"
    and fields: "\<forall>n \<in> set ns \<union> set ms. plain_node n" "\<forall>e \<in> set es \<union> set fs. plain_text (ed_EdgeType e)"
    and ids: "distinct (map nd_ID ns)" "distinct (map ed_ID es)"
  shows "snapshot_text lib ns es = snapshot_text lib ms fs \<longleftrightarrow> mset ns = mset ms \<and> mset es = mset fs"
proof
  assume "mset ns = mset ms \<and> mset es = mset fs"
  then show "snapshot_text lib ns es = snapshot_text lib ms fs"
    using node_digests_sorted [OF inj ids(1), of ms] edge_digests_sorted [OF inj ids(2), of fs] by (simp add: snapshot_text_def)
next
  assume eq: "snapshot_text lib ns es = snapshot_text lib ms fs"
  let ?N = "\<lambda>ns. map (node_fields lib) (sort_stable (node_digest_before lib) ns)"
  let ?E = "\<lambda>es. map (edge_fields lib) (sort_stable (edge_digest_before lib) es)"
  have tx: "snapshot_text lib ns es = concat (map text_line (?N ns @ ?E es))" for ns es
    by (simp add: snapshot_text_def comp_def)
  have pn: "\<forall>p \<in> set (?N xs). p \<noteq> [] \<and> (\<forall>s \<in> set p. plain_text s)" if "\<forall>n \<in> set xs. plain_node n" for xs
    using that plain by (auto simp: node_fields_def plain_node_def)
  have pe: "\<forall>p \<in> set (?E xs). p \<noteq> [] \<and> (\<forall>s \<in> set p. plain_text s)" if "\<forall>e \<in> set xs. plain_text (ed_EdgeType e)" for xs
    using that plain by (auto simp: edge_fields_def)
  have "?N ns @ ?E es = ?N ms @ ?E fs"
  proof (rule text_lines_unique)
    show "concat (map text_line (?N ns @ ?E es)) = concat (map text_line (?N ms @ ?E fs))" using eq by (simp only: tx)
    show "\<forall>p \<in> set (?N ns @ ?E es). p \<noteq> [] \<and> (\<forall>s \<in> set p. plain_text s)"
      using pn [of ns] pe [of es] fields by (simp only: set_append ball_Un) blast
    show "\<forall>p \<in> set (?N ms @ ?E fs). p \<noteq> [] \<and> (\<forall>s \<in> set p. plain_text s)"
      using pn [of ms] pe [of fs] fields by (simp only: set_append ball_Un) blast
  qed
  then have "filter (\<lambda>p. length p = 7) (?N ns @ ?E es) = filter (\<lambda>p. length p = 7) (?N ms @ ?E fs)"
    and "filter (\<lambda>p. length p = 4) (?N ns @ ?E es) = filter (\<lambda>p. length p = 4) (?N ms @ ?E fs)" by simp_all
  then have "?N ns = ?N ms" "?E es = ?E fs"
    by (simp_all add: filter_map comp_def node_fields_def edge_fields_def)
  then have "sort_stable (node_digest_before lib) ns = sort_stable (node_digest_before lib) ms"
    "sort_stable (edge_digest_before lib) es = sort_stable (edge_digest_before lib) fs"
    using inj_map_eq_map [OF node_fields_inj [OF inj]] inj_map_eq_map [OF edge_fields_inj [OF inj]] by blast+
  then show "mset ns = mset ms \<and> mset es = mset fs" by (metis mset_sort_stable)
qed

section \<open>Deltas\<close>

text \<open>
  What a client does with a delta: the nodes of its state, by identifier, with those that were
  removed, changed or added. The content of a node is what the delta compares: the parent, the
  content hash, the format and the type.
\<close>

definition apply_nodes :: "tree_delta \<Rightarrow> (uuid \<Rightarrow> compact_node option) \<Rightarrow> uuid \<Rightarrow> compact_node option" where
  "apply_nodes d m i =
     (case map_of (td_ChangedNodes d) i of Some c \<Rightarrow> Some c
      | None \<Rightarrow> (case map_of (td_AddedNodes d) i of Some c \<Rightarrow> Some c
        | None \<Rightarrow> if i \<in> set (td_RemovedNodeIDs d) then None else m i))"

definition apply_edges :: "tree_delta \<Rightarrow> (uuid \<Rightarrow> compact_edge option) \<Rightarrow> uuid \<Rightarrow> compact_edge option" where
  "apply_edges d m i =
     (case map_of (td_AddedEdges d) i of Some c \<Rightarrow> Some c | None \<Rightarrow> if i \<in> set (td_RemovedEdgeIDs d) then None else m i)"

definition node_content :: "compact_node \<Rightarrow> string \<times> string \<times> string \<times> string" where
  "node_content c = (cpn_ParentID c, cpn_ContentHash c, cpn_ContentFormat c, cpn_NodeType c)"

lemma map_put_fresh: "k \<notin> fst ` set m \<Longrightarrow> map_put k v m = m @ [(k, v)]"
  by (induction m) auto

lemma fold_map_put:
  "distinct (map key xs) \<Longrightarrow> fst ` set m \<inter> set (map key xs) = {} \<Longrightarrow>
     fold (\<lambda>x. map_put (key x) (f x)) xs m = m @ map (\<lambda>x. (key x, f x)) xs"
proof (induction xs arbitrary: m)
  case (Cons x xs)
  then have "map_put (key x) (f x) m = m @ [(key x, f x)]" by (intro map_put_fresh) auto
  with Cons show ?case by (auto simp: image_iff)
qed simp

lemma map_by_distinct: "distinct (map key xs) \<Longrightarrow> map_by key xs = map (\<lambda>x. (key x, x)) xs"
  unfolding map_by_def using fold_map_put [of key xs "[]" "\<lambda>x. x"] by simp

lemma map_of_filter_map:
  "distinct (map fst m) \<Longrightarrow> map_of (map (\<lambda>(i, n). (i, f n)) (filter (\<lambda>(i, n). P i n) m)) i
     = (case map_of m i of None \<Rightarrow> None | Some n \<Rightarrow> if P i n then Some (f n) else None)"
proof (induction m)
  case (Cons p m)
  obtain j n where p: "p = (j, n)" by fastforce
  with Cons have "map_of m j = None" by (auto simp: map_of_eq_None_iff)
  with Cons p show ?case by (auto split: option.splits)
qed simp

lemma map_has_of [simp]: "map_has m k \<longleftrightarrow> map_of m k \<noteq> None"
  by (simp add: map_has_def)

lemma map_fst_in: "i \<in> set (map fst m) \<longleftrightarrow> map_of m i \<noteq> None"
  by (simp add: map_of_eq_None_iff)

lemma delta_sides:
  fixes fromNodes toNodes :: "NodeDigest list" and fromEdges toEdges :: "EdgeDigest list"
  assumes d: "ComputeDelta lib (Some a) (Some b) fromNodes toNodes fromEdges toEdges = Some d"
    and dn: "distinct (map nd_ID toNodes)" and de: "distinct (map ed_ID toEdges)"
  defines "F \<equiv> map_of (map_by nd_ID fromNodes)" and "T \<equiv> map_of (map_by nd_ID toNodes)"
    and "G \<equiv> map_of (map_by ed_ID fromEdges)" and "U \<equiv> map_of (map_by ed_ID toEdges)"
  shows "apply_nodes d m i = (case T i of
        None \<Rightarrow> if F i = None then m i else None
      | Some n \<Rightarrow> (case F i of None \<Rightarrow> Some (toCompactNode n) | Some n' \<Rightarrow> if nodeChanged n' n then Some (toCompactNode n) else m i))"
    and "apply_edges d em i = (case U i of
        None \<Rightarrow> if G i = None then em i else None
      | Some e \<Rightarrow> if G i = None then Some (toCompactEdge lib e) else em i)"
proof -
  have kn: "distinct (map fst (map_by nd_ID toNodes))" "distinct (map fst (map_by ed_ID toEdges))"
    using dn de by (simp_all add: map_by_distinct comp_def)
  have dd: "td_AddedNodes d = map (\<lambda>(i, n). (i, toCompactNode n)) (filter (\<lambda>(i, n). F i = None) (map_by nd_ID toNodes))"
    "td_ChangedNodes d = map (\<lambda>(i, n). (i, toCompactNode n))
       (filter (\<lambda>(i, n). case F i of None \<Rightarrow> False | Some n' \<Rightarrow> nodeChanged n' n) (map_by nd_ID toNodes))"
    "td_RemovedNodeIDs d = filter (\<lambda>i. T i = None) (map fst (map_by nd_ID fromNodes))"
    "td_AddedEdges d = map (\<lambda>(i, e). (i, toCompactEdge lib e)) (filter (\<lambda>(i, e). G i = None) (map_by ed_ID toEdges))"
    "td_RemovedEdgeIDs d = filter (\<lambda>i. U i = None) (map fst (map_by ed_ID fromEdges))"
    using d by (auto simp: ComputeDelta_def Let_def F_def T_def G_def U_def)
  have added: "map_of (td_AddedNodes d) i = (case T i of None \<Rightarrow> None | Some n \<Rightarrow> if F i = None then Some (toCompactNode n) else None)"
    unfolding dd map_of_filter_map [OF kn(1)] T_def ..
  have changed: "map_of (td_ChangedNodes d) i = (case T i of None \<Rightarrow> None
        | Some n \<Rightarrow> if (case F i of None \<Rightarrow> False | Some n' \<Rightarrow> nodeChanged n' n) then Some (toCompactNode n) else None)"
    unfolding dd map_of_filter_map [OF kn(1)] T_def ..
  have addedE: "map_of (td_AddedEdges d) i = (case U i of None \<Rightarrow> None | Some e \<Rightarrow> if G i = None then Some (toCompactEdge lib e) else None)"
    unfolding dd map_of_filter_map [OF kn(2)] U_def ..
  have gone: "i \<in> set (td_RemovedNodeIDs d) \<longleftrightarrow> F i \<noteq> None \<and> T i = None"
    and goneE: "i \<in> set (td_RemovedEdgeIDs d) \<longleftrightarrow> G i \<noteq> None \<and> U i = None"
    unfolding dd set_filter mem_Collect_eq map_fst_in F_def G_def by blast+
  show "apply_nodes d m i = (case T i of
        None \<Rightarrow> if F i = None then m i else None
      | Some n \<Rightarrow> (case F i of None \<Rightarrow> Some (toCompactNode n) | Some n' \<Rightarrow> if nodeChanged n' n then Some (toCompactNode n) else m i))"
    unfolding apply_nodes_def added changed gone by (cases "T i"; cases "F i") auto
  show "apply_edges d em i = (case U i of
        None \<Rightarrow> if G i = None then em i else None
      | Some e \<Rightarrow> if G i = None then Some (toCompactEdge lib e) else em i)"
    unfolding apply_edges_def addedE goneE by (cases "U i"; cases "G i") auto
qed

section \<open>Reading a snapshot back\<close>

definition view_nodes :: "tree_lib \<Rightarrow> snapshot_row \<Rightarrow> uuid \<Rightarrow> compact_node option" where
  "view_nodes lib r = (case parse_snapshot_data (sn_Data r) of None \<Rightarrow> Map.empty | Some d \<Rightarrow> map_of (full_members lib 6 full_node (sdt_Nodes d)))"

definition view_edges :: "tree_lib \<Rightarrow> snapshot_row \<Rightarrow> uuid \<Rightarrow> compact_edge option" where
  "view_edges lib r = (case parse_snapshot_data (sn_Data r) of None \<Rightarrow> Map.empty | Some d \<Rightarrow> map_of (full_members lib 3 full_edge (sdt_Edges d)))"

definition node_values :: "tree_lib \<Rightarrow> node \<Rightarrow> json list" where
  "node_values lib n = [jint (n_SequenceNum n), JStr (format_rfc3339nano (n_CreatedAt n)), JStr (parent_text lib (n_ParentID n)),
     JStr (content_hash (tl_sha256hex lib) n), JStr (n_ContentFormat n), JStr (n_NodeType n)]"

definition edge_values :: "tree_lib \<Rightarrow> edge_row \<Rightarrow> json list" where
  "edge_values lib e = [JStr (tl_ustr lib (e_SourceID e)), JStr (tl_ustr lib (e_TargetID e)), JStr (e_EdgeType e)]"

definition rows_data :: "tree_lib \<Rightarrow> node list \<Rightarrow> edge_row list \<Rightarrow> snapshot_data" where
  "rows_data lib ns es = \<lparr>sdt_Nodes = map (\<lambda>n. (tl_ustr lib (n_ID n), node_values lib n)) ns,
     sdt_Edges = map (\<lambda>e. (tl_ustr lib (e_ID e), edge_values lib e)) es\<rparr>"

lemma any_lists_rows:
  "distinct (map key xs) \<Longrightarrow> fst ` set m \<inter> set (map key xs) = {} \<Longrightarrow>
     any_lists (map (\<lambda>x. (key x, JArr (f x))) xs) m = Some (m @ map (\<lambda>x. (key x, f x)) xs)"
proof (induction xs arbitrary: m)
  case (Cons x xs)
  then have "map_put (key x) (f x) m = m @ [(key x, f x)]" by (intro map_put_fresh) auto
  with Cons show ?case by (auto simp: image_iff)
qed simp

lemma fold_key_members [simp]: "fold_key ''nodes'' = ''nodes''" "fold_key ''edges'' = ''edges''"
  by code_simp+

text \<open>\<open>uuid.Parse\<close> inverts \<open>String\<close>.\<close>

definition prints_back :: "tree_lib \<Rightarrow> bool" where
  "prints_back lib \<longleftrightarrow> (\<forall>u. tl_uparse lib (tl_ustr lib u) = Some u)"

lemma parse_print: "prints_back lib \<Longrightarrow> tl_uparse lib (tl_ustr lib u) = Some u"
  by (simp add: prints_back_def)

lemma inj_print: "prints_back lib \<Longrightarrow> inj (tl_ustr lib)"
  by (rule injI) (metis option.inject parse_print)

lemma distinct_print: "prints_back lib \<Longrightarrow> distinct (map f xs) \<Longrightarrow> distinct (map (\<lambda>x. tl_ustr lib (f x)) xs)"
  using inj_print [of lib] by (induction xs) (auto simp: inj_def image_iff)

lemma parse_rows:
  assumes lib: "prints_back lib" and "distinct (map n_ID ns)" "distinct (map e_ID es)"
  shows "parse_snapshot_data (snapshot_json lib ns es) = Some (rows_data lib ns es)"
proof -
  have "any_lists (map (node_member lib) ns) [] = Some (map (\<lambda>n. (tl_ustr lib (n_ID n), node_values lib n)) ns)"
    using any_lists_rows [OF distinct_print [OF lib assms(2)], of "[]" "node_values lib"]
    by (simp add: node_member_def [abs_def] node_values_def)
  moreover have "any_lists (map (edge_member lib) es) [] = Some (map (\<lambda>e. (tl_ustr lib (e_ID e), edge_values lib e)) es)"
    using any_lists_rows [OF distinct_print [OF lib assms(3)], of "[]" "edge_values lib"]
    by (simp add: edge_member_def [abs_def] edge_values_def)
  ultimately show ?thesis
    by (simp add: parse_snapshot_data_def decode_struct_def snapshot_json_def assign_snapshot_data_def any_lists_member_def rows_data_def)
qed

lemma full_rows:
  assumes lib: "prints_back lib" and "distinct (map f xs)" "\<And>x. x \<in> set xs \<Longrightarrow> len \<le> length (g x)"
  shows "full_members lib len h (map (\<lambda>x. (tl_ustr lib (f x), g x)) xs) = map (\<lambda>x. (f x, h (g x))) xs"
proof -
  have "full_members lib len h (map (\<lambda>x. (tl_ustr lib (f x), g x)) xs) = fold (\<lambda>x. map_put (f x) (h (g x))) xs []"
    unfolding full_members_def fold_map by (rule fold_cong) (use assms(3) [THEN leD] in \<open>auto simp: parse_print [OF lib] fun_eq_iff\<close>)
  then show ?thesis using fold_map_put [OF assms(2), of "[]" "\<lambda>x. h (g x)"] by simp
qed

lemma nodes_back: "prints_back lib \<Longrightarrow> snapshotDataToNodes lib (rows_data lib ns es) = map (\<lambda>n.
    \<lparr>nd_ID = n_ID n, nd_SeqNum = toInt64 (jint (n_SequenceNum n)), nd_CreatedAtEpoch = 0, nd_ParentID = parent_text lib (n_ParentID n),
     nd_ContentHash = content_hash (tl_sha256hex lib) n, nd_ContentFormat = n_ContentFormat n, nd_NodeType = n_NodeType n\<rparr>) ns"
  by (induction ns) (simp_all add: snapshotDataToNodes_def rows_data_def parse_print node_values_def any_string_def)

lemma edges_back: "prints_back lib \<Longrightarrow> snapshotDataToEdges lib (rows_data lib ns es) = map edge_digest_of es"
  by (induction es) (simp_all add: snapshotDataToEdges_def rows_data_def parse_print edge_values_def any_string_def parse_or_nil_def
      edge_digest_of_def EdgeFromParts_def)

definition recorded :: "tree_lib \<Rightarrow> snapshot_row \<Rightarrow> node list \<Rightarrow> edge_row list \<Rightarrow> bool" where
  "recorded lib r ns es \<longleftrightarrow> sn_Data r = snapshot_json lib ns es \<and> distinct (map n_ID ns) \<and> distinct (map e_ID es)"

lemma view_recorded:
  assumes "prints_back lib" "recorded lib r ns es"
  shows "view_nodes lib r = map_of (map (\<lambda>n. (n_ID n, full_node (node_values lib n))) ns)"
    and "view_edges lib r = map_of (map (\<lambda>e. (e_ID e, full_edge (edge_values lib e))) es)"
  using assms parse_rows [of lib ns es] full_rows [of lib n_ID ns 6 "node_values lib" full_node]
    full_rows [of lib e_ID es 3 "edge_values lib" full_edge]
  by (simp_all add: view_nodes_def view_edges_def recorded_def rows_data_def) (simp_all add: node_values_def edge_values_def)

lemma map_of_keyed: "map_of (map (\<lambda>x. (k x, f x)) xs) i = map_option f (map_of (map (\<lambda>x. (k x, x)) xs) i)"
  by (induction xs) auto

lemma keyed_mem: "map_of (map (\<lambda>x. (k x, x)) xs) i = Some x \<Longrightarrow> x \<in> set xs \<and> k x = i"
  by (auto dest: map_of_SomeD)

lemma delta_catches_up:
  assumes lib: "prints_back lib" and a: "recorded lib a ns es" and b: "recorded lib b ms fs"
    and agree: "\<And>e e'. e \<in> set es \<Longrightarrow> e' \<in> set fs \<Longrightarrow> e_ID e = e_ID e' \<Longrightarrow> e = e'"
  shows "\<exists>d. computeDeltaFromSnapshots lib a b = Inr d \<and> td_FromHash d = sn_Hash a \<and> td_ToHash d = sn_Hash b
     \<and> (\<forall>i. map_option node_content (apply_nodes d (view_nodes lib a) i) = map_option node_content (view_nodes lib b i))
     \<and> (\<forall>i. apply_edges d (view_edges lib a) i = view_edges lib b i)"
proof -
  define dig where "dig = (\<lambda>n. \<lparr>nd_ID = n_ID n, nd_SeqNum = toInt64 (jint (n_SequenceNum n)), nd_CreatedAtEpoch = 0,
     nd_ParentID = parent_text lib (n_ParentID n), nd_ContentHash = content_hash (tl_sha256hex lib) n, nd_ContentFormat = n_ContentFormat n,
     nd_NodeType = n_NodeType n\<rparr>)"
  have pa: "parse_snapshot_data (sn_Data a) = Some (rows_data lib ns es)" "parse_snapshot_data (sn_Data b) = Some (rows_data lib ms fs)"
    using a b parse_rows [OF lib] by (simp_all add: recorded_def)
  obtain d where d: "ComputeDelta lib (Some a) (Some b) (map dig ns) (map dig ms) (map edge_digest_of es) (map edge_digest_of fs) = Some d"
    by (simp add: ComputeDelta_def Let_def)
  then have cd: "computeDeltaFromSnapshots lib a b = Inr d" "td_FromHash d = sn_Hash a" "td_ToHash d = sn_Hash b"
    by (simp_all add: computeDeltaFromSnapshots_def pa nodes_back [OF lib] edges_back [OF lib] dig_def [symmetric])
      (auto simp: ComputeDelta_def Let_def)
  let ?N = "map_of (map (\<lambda>n. (n_ID n, n)) ns)" and ?M = "map_of (map (\<lambda>n. (n_ID n, n)) ms)"
  let ?E = "map_of (map (\<lambda>e. (e_ID e, e)) es)" and ?F = "map_of (map (\<lambda>e. (e_ID e, e)) fs)"
  have ids: "nd_ID \<circ> dig = n_ID" "ed_ID \<circ> edge_digest_of = e_ID" by (simp_all add: fun_eq_iff dig_def edge_digest_of_def EdgeFromParts_def)
  have dist: "distinct (map nd_ID (map dig xs))" if "distinct (map n_ID xs)" for xs using that by (simp add: ids)
  have distE: "distinct (map ed_ID (map edge_digest_of xs))" if "distinct (map e_ID xs)" for xs using that by (simp add: ids)
  have dn: "map_of (map_by nd_ID (map dig xs)) i = map_option dig (map_of (map (\<lambda>n. (n_ID n, n)) xs) i)" if "distinct (map n_ID xs)" for xs i
    unfolding map_by_distinct [OF dist [OF that]] using map_of_keyed [of n_ID dig xs i] by (simp add: comp_def) (simp add: dig_def)
  have de: "map_of (map_by ed_ID (map edge_digest_of xs)) i = map_option edge_digest_of (map_of (map (\<lambda>e. (e_ID e, e)) xs) i)"
    if "distinct (map e_ID xs)" for xs i
    unfolding map_by_distinct [OF distE [OF that]] using map_of_keyed [of e_ID edge_digest_of xs i]
    by (simp add: comp_def) (simp add: edge_digest_of_def EdgeFromParts_def)
  have dis: "distinct (map n_ID ns)" "distinct (map n_ID ms)" "distinct (map e_ID es)" "distinct (map e_ID fs)"
    using a b by (simp_all add: recorded_def)
  have vn: "view_nodes lib a i = map_option (\<lambda>n. full_node (node_values lib n)) (?N i)"
    "view_nodes lib b i = map_option (\<lambda>n. full_node (node_values lib n)) (?M i)" for i
    unfolding view_recorded(1) [OF lib a] view_recorded(1) [OF lib b] by (rule map_of_keyed)+
  have ve: "view_edges lib a i = map_option (\<lambda>e. full_edge (edge_values lib e)) (?E i)"
    "view_edges lib b i = map_option (\<lambda>e. full_edge (edge_values lib e)) (?F i)" for i
    unfolding view_recorded(2) [OF lib a] view_recorded(2) [OF lib b] by (rule map_of_keyed)+
  have content: "node_content (full_node (node_values lib n)) = node_content (toCompactNode (dig n))" for n
    by (simp add: node_content_def full_node_def node_values_def toCompactNode_def dig_def any_string_def)
  have unchanged: "node_content (toCompactNode x) = node_content (toCompactNode y)" if "\<not> nodeChanged x y" for x y
    using that by (simp add: nodeChanged_def node_content_def toCompactNode_def)
  have edge: "toCompactEdge lib (edge_digest_of e) = full_edge (edge_values lib e)" for e
    by (simp add: toCompactEdge_def edge_digest_of_def EdgeFromParts_def full_edge_def edge_values_def any_string_def)
  note sides = delta_sides [OF d dist [OF dis(2)] distE [OF dis(4)], unfolded dn [OF dis(1)] dn [OF dis(2)] de [OF dis(3)] de [OF dis(4)]]
  have "map_option node_content (apply_nodes d (view_nodes lib a) i) = map_option node_content (view_nodes lib b i)" for i
    unfolding sides(1) vn using unchanged by (cases "?N i"; cases "?M i") (auto simp: content)
  moreover have "apply_edges d (view_edges lib a) i = view_edges lib b i" for i
  proof (cases "\<exists>e e'. ?E i = Some e \<and> ?F i = Some e'")
    case True
    then obtain e e' where e: "?E i = Some e" "?F i = Some e'" by blast
    have "e = e'" using keyed_mem [OF e(1)] keyed_mem [OF e(2)] agree [of e e'] by simp
    then show ?thesis unfolding sides(2) ve by (simp add: e)
  next
    case False
    then show ?thesis unfolding sides(2) ve by (cases "?E i"; cases "?F i") (auto simp: edge)
  qed
  ultimately show ?thesis using cd by blast
qed

section \<open>Histories\<close>

text \<open>
  The calls that change the graph or the tables of synchronisation. A mutation is recorded by the
  engine after the service has made it, which need not be the next step.
\<close>

type_synonym sync_state = "graph_state \<times> sync_db"

inductive sync_step :: "tree_lib \<Rightarrow> sync_state \<Rightarrow> sync_state \<Rightarrow> bool" for lib where
  graph: "graph_step glib secret s s' \<Longrightarrow> sync_step lib (s, sd) (s', sd)"
| snapshot: "CreateSnapshot lib newID now t (gs_db s) sd = Inr (r, sd') \<Longrightarrow> sync_step lib (s, sd) (s, sd')"
| node_mutation: "OnNodeMutation lib onCommit newIDs now m (gs_db s) sd hub = Inr (sd', hub') \<Longrightarrow> sync_step lib (s, sd) (s, sd')"
| yjs_update: "ApplyYjsUpdate lib newID now t actor upd (gs_db s) sd hub = Inr (sd', hub') \<Longrightarrow> sync_step lib (s, sd) (s, sd')"
| tree_mutation: "sync_step lib (s, sd) (s, OnTreeMutation lib onCommit newID now mutation t (gs_db s) sd)"
| compact: "sync_step lib (s, sd) (s, snd (CompactSnapshots t cutoff sd))"
| prune: "sync_step lib (s, sd) (s, snd (DeleteSnapshotsBefore t cutoff sd))"

definition snap_ok :: "tree_lib \<Rightarrow> graph_db \<Rightarrow> snapshot_row \<Rightarrow> bool" where
  "snap_ok lib db r \<longleftrightarrow> (\<exists>ns es. sn_Data r = snapshot_json lib ns es \<and> distinct (map n_ID ns) \<and> mset es \<subseteq># mset (g_edges db))"

definition snaps_ok :: "tree_lib \<Rightarrow> graph_db \<Rightarrow> sync_db \<Rightarrow> bool" where
  "snaps_ok lib db sd \<longleftrightarrow> (\<forall>r \<in> set (sd_snapshots sd). snap_ok lib db r)
     \<and> distinct (map (\<lambda>r. (sn_TreeID r, sn_Hash r)) (sd_snapshots sd))"

definition sync_ok :: "tree_lib \<Rightarrow> sync_state \<Rightarrow> bool" where
  "sync_ok lib st \<longleftrightarrow> state_ok (fst st) \<and> snaps_ok lib (gs_db (fst st)) (snd st)"

definition sync_le :: "sync_state \<Rightarrow> sync_state \<Rightarrow> bool" where
  "sync_le st st' \<longleftrightarrow> state_le (fst st) (fst st')"

lemma edges_grow: "graph_le db db' \<Longrightarrow> mset (g_edges db) \<subseteq># mset (g_edges db')"
proof -
  assume "graph_le db db'"
  then have "take (length (g_edges db)) (g_edges db') = g_edges db"
    by (auto simp: graph_le_def rows_grow_def intro!: nth_equalityI)
  then have "g_edges db' = g_edges db @ drop (length (g_edges db)) (g_edges db')" by (metis append_take_drop_id)
  then show ?thesis by (metis mset_append mset_subset_eq_add_left)
qed

lemma snaps_ok_grow: "graph_le db db' \<Longrightarrow> snaps_ok lib db sd \<Longrightarrow> snaps_ok lib db' sd"
  using edges_grow subset_mset.order_trans unfolding snaps_ok_def snap_ok_def by meson

lemma snaps_ok_events: "sd_snapshots sd' = sd_snapshots sd \<Longrightarrow> snaps_ok lib db sd \<Longrightarrow> snaps_ok lib db sd'"
  by (simp add: snaps_ok_def)

lemma distinct_map_filter': "distinct (map f xs) \<Longrightarrow> distinct (map f (filter P xs))"
  by (induction xs) auto

lemma snaps_ok_forget: "snaps_ok lib db sd \<Longrightarrow> snaps_ok lib db (forget_snapshots ids sd)"
  by (simp add: snaps_ok_def forget_snapshots_def distinct_map_filter')

lemma snapshot_edges_mset: "mset (snapshot_edges db t) \<subseteq># mset (g_edges db)"
  by (simp add: snapshot_edges_def)

lemma CreateSnapshot_ok:
  assumes "CreateSnapshot lib newID now t db sd = Inr (r, sd')" "snaps_ok lib db sd" "distinct (map n_ID (g_nodes db))"
  shows "snaps_ok lib db sd'"
proof -
  have d: "distinct (map n_ID (snapshot_nodes db t))"
    using assms(3) mset_eq_imp_distinct_iff [of "map n_ID (snapshot_nodes db t)" "map n_ID (tree_nodes db t)"]
    by (simp add: snapshot_nodes_def tree_nodes_def distinct_map_filter')
  from assms(1) consider "sd' = sd"
    | snap where "sd' = sd\<lparr>sd_snapshots := sd_snapshots sd @ [snap]\<rparr>" "sn_TreeID snap = t"
        "sn_Data snap = snapshot_json lib (snapshot_nodes db t) (snapshot_edges db t)"
        "find (\<lambda>s. sn_Hash s = sn_Hash snap) (tree_snapshots sd t) = None"
    by (auto simp: CreateSnapshot_def Let_def split: if_splits option.splits)
  then show ?thesis
  proof cases
    case 1
    with assms(2) show ?thesis by simp
  next
    case (2 snap)
    have "snap_ok lib db snap" unfolding snap_ok_def using 2(3) d snapshot_edges_mset by blast
    moreover have "(t, sn_Hash snap) \<notin> (\<lambda>r. (sn_TreeID r, sn_Hash r)) ` set (sd_snapshots sd)"
      using 2(4) by (auto simp: find_None_iff tree_snapshots_def)
    ultimately show ?thesis using assms(2) 2(1,2) by (auto simp: snaps_ok_def)
  qed
qed

lemma try_snapshot_ok: "snaps_ok lib db sd \<Longrightarrow> distinct (map n_ID (g_nodes db)) \<Longrightarrow> snaps_ok lib db (try_snapshot lib newID now t db sd)"
  using CreateSnapshot_ok by (auto simp: try_snapshot_def split: sum.split)

lemma append_snapshots: "AppendEvent_row i now t k n e p sid db sd = Inr (row, sd') \<Longrightarrow> sd_snapshots sd' = sd_snapshots sd"
  by (auto simp: AppendEvent_row_def Let_def split: if_splits)

lemma state_ok_nodes: "state_ok s \<Longrightarrow> distinct (map n_ID (g_nodes (gs_db s)))"
  by (auto simp: state_ok_def graph_ok_def skel_ok_def comp_def)

lemma sync_step_ok:
  assumes step: "sync_step lib st st'" and ok: "sync_ok lib st"
  shows "sync_ok lib st' \<and> sync_le st st'"
proof -
  have le: "sync_le st st" by (simp add: sync_le_def state_le_def graph_le_refl)
  have keep: ?thesis if "st = (s, sd)" "st' = (s, sd')" "snaps_ok lib (gs_db s) sd'" for s sd sd'
    using that ok le by (simp add: sync_ok_def sync_le_def)
  have n: "distinct (map n_ID (g_nodes (gs_db (fst st))))" and sn: "snaps_ok lib (gs_db (fst st)) (snd st)"
    using ok state_ok_nodes by (auto simp: sync_ok_def)
  show ?thesis
    using step
  proof cases
    case (graph glib secret s s' sd)
    have "state_ok s' \<and> state_le s s'" using graph_step_ok [OF graph(3)] ok graph(1) by (simp add: sync_ok_def)
    then show ?thesis using snaps_ok_grow [of "gs_db s" "gs_db s'"] sn graph(1,2) by (simp add: sync_ok_def sync_le_def state_le_def)
  next
    case (snapshot newID now t s sd r sd')
    then show ?thesis using keep CreateSnapshot_ok [OF snapshot(3)] sn n by simp
  next
    case (node_mutation onCommit newIDs now m s sd hub sd' hub')
    then obtain ev sd1 where a: "AppendEvent_row (fst newIDs) now (nm_TreeID m) (nm_Type m) (Some (nm_NodeID m)) (edgeIDPtr m)
        (buildNodeEventPayload lib m) None (gs_db s) sd = Inr (ev, sd1)"
      and sd': "sd' = (if onCommit then try_snapshot lib (snd newIDs) now (nm_TreeID m) (gs_db s) sd1 else sd1)"
      by (auto simp: OnNodeMutation_def Let_def split: sum.splits prod.splits)
    have "snaps_ok lib (gs_db s) sd1" using snaps_ok_events [OF append_snapshots [OF a]] sn node_mutation(1) by simp
    then have "snaps_ok lib (gs_db s) sd'" using try_snapshot_ok n node_mutation(1) by (simp add: sd')
    then show ?thesis using keep node_mutation(1,2) by blast
  next
    case (yjs_update newID now t actor upd s sd hub sd' hub')
    then obtain p ev where "AppendEvent_row newID now t ''yjs_update'' None None p None (gs_db s) sd = Inr (ev, sd')"
      by (auto simp: ApplyYjsUpdate_def Let_def split: if_splits sum.splits prod.splits)
    then show ?thesis using keep snaps_ok_events [OF append_snapshots] sn yjs_update(1,2) by fastforce
  next
    case (tree_mutation s sd onCommit newID now mutation t)
    then show ?thesis using keep try_snapshot_ok sn n by (auto simp: OnTreeMutation_def)
  next
    case (compact s sd t cutoff)
    then show ?thesis using keep snaps_ok_forget sn by (auto simp: CompactSnapshots_def Let_def)
  next
    case (prune s sd t cutoff)
    then show ?thesis using keep snaps_ok_forget sn by (auto simp: DeleteSnapshotsBefore_def Let_def)
  qed
qed

interpretation sync_history: evolving "sync_step lib" "sync_ok lib" sync_le for lib
  by unfold_locales (auto simp: sync_le_def state_le_def graph_le_refl intro: graph_le_trans dest: sync_step_ok)

definition empty_sync :: sync_db where
  "empty_sync = \<lparr>sd_snapshots = [], sd_events = [], sd_next_seq = []\<rparr>"

lemma distinct_part:
  assumes "mset xs \<subseteq># mset ys" "distinct ys"
  shows "distinct xs"
proof -
  obtain zs where "mset ys = mset (xs @ zs)" using assms(1) by (metis ex_mset mset_append subset_mset.le_iff_add)
  with assms(2) have "distinct (xs @ zs)" using mset_eq_imp_distinct_iff by blast
  then show ?thesis by simp
qed

lemma snap_recorded:
  assumes "snap_ok lib db r" "distinct (map e_ID (g_edges db))"
  shows "\<exists>ns es. recorded lib r ns es \<and> set es \<subseteq> set (g_edges db)"
proof -
  obtain ns es where r: "sn_Data r = snapshot_json lib ns es" "distinct (map n_ID ns)" "mset es \<subseteq># mset (g_edges db)"
    using assms(1) by (auto simp: snap_ok_def)
  have "mset (map e_ID es) \<subseteq># mset (map e_ID (g_edges db))" using image_mset_subseteq_mono [OF r(3)] by simp
  then have "distinct (map e_ID es)" by (rule distinct_part [OF _ assms(2)])
  moreover have "set es \<subseteq> set (g_edges db)" using set_mset_mono [OF r(3)] by simp
  ultimately show ?thesis using r by (auto simp: recorded_def)
qed

lemma GetLatestSnapshot_mem: "GetLatestSnapshot sd t = Some r \<Longrightarrow> r \<in> set (sd_snapshots sd) \<and> sn_TreeID r = t"
proof -
  assume "GetLatestSnapshot sd t = Some r"
  then obtain rs where "sort_stable newer_snapshot (tree_snapshots sd t) = r # rs" by (auto simp: GetLatestSnapshot_def split: list.splits)
  then have "r \<in> set (sort_stable newer_snapshot (tree_snapshots sd t))" by (metis list.set_intros(1))
  then show ?thesis by (simp add: tree_snapshots_def)
qed

lemma GetSnapshot_mem: "GetSnapshot sd h = Some r \<Longrightarrow> r \<in> set (sd_snapshots sd) \<and> sn_Hash r = h"
  by (auto simp: GetSnapshot_def find_Some_iff)


section \<open>Witnesses\<close>

text \<open>A stand-in for the hash that tells texts of one line from longer ones.\<close>

definition short_hash :: "string \<Rightarrow> string" where
  "short_hash s = (if 1 < length (filter (\<lambda>c. c = CHR 0x0A) s) then CHR ''b'' else CHR ''a'') # replicate 63 (CHR ''0'')"

definition sync_lib :: tree_lib where
  "sync_lib = \<lparr>tl_ustr = (\<lambda>u. itoa (uint u)), tl_uparse = (\<lambda>s. Some (word_of_int (dec_value s))), tl_sha256hex = short_hash,
     tl_rawlen = (\<lambda>_. 0), tl_marshal = (\<lambda>_. []), tl_ilike = (\<lambda>_ _. False), tl_lower = (\<lambda>s. s)\<rparr>"

lemma dec_value_itoa: "0 \<le> i \<Longrightarrow> dec_value (itoa i) = i"
  by (simp add: itoa_def dec_value_digits)

lemma sync_lib_prints: "prints_back sync_lib" "inj (tl_ustr sync_lib)" "plain_text (tl_ustr sync_lib u)"
proof -
  show p: "prints_back sync_lib" by (simp add: prints_back_def sync_lib_def dec_value_itoa)
  show "inj (tl_ustr sync_lib)" by (rule inj_print [OF p])
qed (simp add: sync_lib_def)

lemma line_breaks:
  assumes "\<forall>p \<in> set ps. \<forall>s \<in> set p. plain_text s"
  shows "length (filter (\<lambda>c. c = CHR 0x0A) (concat (map text_line ps))) = length ps"
  using assms
proof (induction ps)
  case (Cons p ps)
  have "CHR 0x0A \<notin> set (strings_Join p '':'')"
    using set_strings_Join [of p "'':''"] Cons.prems by (auto simp: plain_text_def)
  then have "filter (\<lambda>c. c = CHR 0x0A) (strings_Join p '':'') = []" by (auto simp: filter_empty_conv)
  with Cons show ?case by (simp add: text_line_def newline_def)
qed simp

lemma sync_lib_hash:
  assumes "\<forall>n \<in> set ns. plain_node n" "\<forall>e \<in> set es. plain_text (ed_EdgeType e)"
  shows "ComputeSnapshotHash sync_lib ns es = (if 1 < length ns + length es then CHR ''b'' else CHR ''a'') # replicate 63 (CHR ''0'')"
proof -
  let ?ps = "map (node_fields sync_lib) (sort_stable (node_digest_before sync_lib) ns) @ map (edge_fields sync_lib) (sort_stable (edge_digest_before sync_lib) es)"
  have "snapshot_text sync_lib ns es = concat (map text_line ?ps)" by (simp add: snapshot_text_def comp_def)
  moreover have "\<forall>p \<in> set ?ps. \<forall>s \<in> set p. plain_text s"
    using assms sync_lib_prints(3) by (auto simp: node_fields_def edge_fields_def plain_node_def)
  then have "length (filter (\<lambda>c. c = CHR 0x0A) (concat (map text_line ?ps))) = length ?ps" by (rule line_breaks)
  ultimately have "length (filter (\<lambda>c. c = CHR 0x0A) (snapshot_text sync_lib ns es)) = length ns + length es" by simp
  then show ?thesis by (simp add: ComputeSnapshotHash_def short_hash_def) (simp add: sync_lib_def short_hash_def)
qed

lemma plain_short [simp]: "plain_text (short_hash s)"
  by (simp add: plain_text_def short_hash_def)

lemma demo_plain: "plain_node (node_digest_of sync_lib demo_root)" "plain_node (node_digest_of sync_lib demo_reply)"
  by (simp_all add: plain_node_def node_digest_of_def NodeFromParts_def content_hash_def parent_text_def demo_root_def demo_reply_def
      sync_lib_prints(3)) (simp_all add: sync_lib_def, simp_all add: plain_text_def)

lemma rune_count_hash: "rune_count (replicate 63 (CHR ''0'')) = 63"
  by (subst rune_count_ascii) (auto simp: ascii_def)

text \<open>A snapshot of the planted tree, a reply, and a second snapshot.\<close>

definition sync_first :: snapshot_row where
  "sync_first = \<lparr>sn_ID = 100, sn_TreeID = 10, sn_ParentHash = None, sn_Hash = CHR ''a'' # replicate 63 (CHR ''0''), sn_NodeCount = 1,
     sn_EdgeCount = 0, sn_Data = snapshot_json sync_lib [demo_root] [], sn_CreatedAt = 8\<rparr>"

definition sync_second :: snapshot_row where
  "sync_second = \<lparr>sn_ID = 101, sn_TreeID = 10, sn_ParentHash = Some (sn_Hash sync_first), sn_Hash = CHR ''b'' # replicate 63 (CHR ''0''),
     sn_NodeCount = 2, sn_EdgeCount = 1, sn_Data = snapshot_json sync_lib [demo_root, demo_reply] [demo_edge], sn_CreatedAt = 9\<rparr>"

lemma demo_rows:
  "snapshot_nodes (gs_db demo1) 10 = [demo_root]" "snapshot_edges (gs_db demo1) 10 = []"
  "snapshot_nodes (gs_db demo2) 10 = [demo_root, demo_reply]" "snapshot_edges (gs_db demo2) 10 = [demo_edge]"
  "has_tree (gs_db demo1) 10" "has_tree (gs_db demo2) 10"
  by (simp_all add: snapshot_nodes_def snapshot_edges_def tree_nodes_def keyset_before_def demo_defs n_active_def e_active_def has_tree_def)

lemma demo_hashes:
  "computeSnapshotHash_rows sync_lib [demo_root] [] = sn_Hash sync_first"
  "computeSnapshotHash_rows sync_lib [demo_root, demo_reply] [demo_edge] = sn_Hash sync_second"
  unfolding snapshot_hashes_agree using demo_plain
  by (subst sync_lib_hash; simp add: sync_first_def sync_second_def edge_digest_of_def EdgeFromParts_def demo_edge_def plain_text_def)+

lemma demo_snapshots:
  "CreateSnapshot sync_lib 100 8 10 (gs_db demo1) empty_sync = Inr (sync_first, empty_sync\<lparr>sd_snapshots := [sync_first]\<rparr>)"
  "CreateSnapshot sync_lib 101 9 10 (gs_db demo2) (empty_sync\<lparr>sd_snapshots := [sync_first]\<rparr>)
     = Inr (sync_second, empty_sync\<lparr>sd_snapshots := [sync_first, sync_second]\<rparr>)"
  by (simp_all add: CreateSnapshot_def demo_rows demo_hashes Let_def tree_snapshots_def GetLatestSnapshot_def empty_sync_def)
    (simp_all add: sync_first_def sync_second_def rune_count_hash ascii_def)

definition sync_demo :: sync_db where "sync_demo = empty_sync\<lparr>sd_snapshots := [sync_first, sync_second]\<rparr>"

lemma sync_demo_run: "(sync_step sync_lib)\<^sup>*\<^sup>* (demo_start, empty_sync) (demo2, sync_demo)"
proof -
  have "sync_step sync_lib (demo_start, empty_sync) (demo1, empty_sync)" by (rule sync_step.graph [OF demo_steps(1)])
  moreover have "sync_step sync_lib (demo1, empty_sync) (demo1, empty_sync\<lparr>sd_snapshots := [sync_first]\<rparr>)"
    by (rule sync_step.snapshot [OF demo_snapshots(1)])
  moreover have "sync_step sync_lib (demo1, empty_sync\<lparr>sd_snapshots := [sync_first]\<rparr>) (demo2, empty_sync\<lparr>sd_snapshots := [sync_first]\<rparr>)"
    by (rule sync_step.graph [OF demo_steps(2)])
  moreover have "sync_step sync_lib (demo2, empty_sync\<lparr>sd_snapshots := [sync_first]\<rparr>) (demo2, sync_demo)"
    unfolding sync_demo_def by (rule sync_step.snapshot [OF demo_snapshots(2)])
  ultimately show ?thesis by (meson converse_rtranclp_into_rtranclp rtranclp.rtrancl_refl)
qed


lemma snapshot_text_identifies_state_witness:
  "snapshot_text sync_lib [node_digest_of sync_lib demo_root, node_digest_of sync_lib demo_reply] []
     = snapshot_text sync_lib [node_digest_of sync_lib demo_reply, node_digest_of sync_lib demo_root] []"
proof -
  let ?a = "node_digest_of sync_lib demo_root" and ?b = "node_digest_of sync_lib demo_reply"
  have ids: "distinct (map nd_ID [?a, ?b])" by (simp add: node_digest_of_def NodeFromParts_def demo_root_def demo_reply_def)
  have "snapshot_text sync_lib [?a, ?b] [] = snapshot_text sync_lib [?b, ?a] []
      \<longleftrightarrow> mset [?a, ?b] = mset [?b, ?a] \<and> mset ([] :: EdgeDigest list) = mset []"
    by (rule snapshot_text_identifies_state) (use sync_lib_prints demo_plain ids in auto)
  then show ?thesis by simp
qed

section \<open>Where the parts do not fit together\<close>

text \<open>
  The first event of a tree has the number 0, which the hub takes for an event without a number;
  an event the engine numbered is broadcast but not kept for replay; no event names a snapshot, so
  the events between two snapshots are none; a state that comes back is not recorded again, and
  the latest snapshot stays the one of another state.
\<close>

lemma first_event_number:
  "map_of (sd_next_seq sd) t = None \<Longrightarrow> AppendEvent_row i now t k n e p sid db sd = Inr (row, sd') \<Longrightarrow> te_SequenceNum row = 0"
  by (auto simp: AppendEvent_row_def Let_def split: if_splits)

lemma engine_event_not_logged:
  assumes "n \<noteq> 0" "sse_ok h" "broadcastMutationEvent lib now t k actor n p (Some h) = Some h'"
  shows "sh_rings h' = sh_rings h \<and> sh_counters h' = sh_counters h"
proof -
  define ev where "ev = \<lparr>ev_ID = EventID lib t n, ev_Type = k, ev_Data = RawJSON p, ev_Timestamp = now, ev_TreeID = t, ev_SequenceNum = n,
    ev_ActorID = actor\<rparr>"
  obtain e where b: "sse_Broadcast lib now t ev h = (e, h')"
    using assms(3) by (metis broadcastMutationEvent_def ev_def option.inject option.simps(9) prod.collapse)
  show ?thesis
  proof (cases "sh_closed h")
    case True
    with b show ?thesis by (simp add: sse_Broadcast_def)
  next
    case False
    from Broadcast_moves [OF _ b False] assms(1,2) number_event_given [of ev lib now t h] show ?thesis
      by (simp add: sse_ok_def log_view_def ev_def)
  qed
qed

definition no_snapshot_named :: "sync_db \<Rightarrow> bool" where
  "no_snapshot_named sd \<longleftrightarrow> (\<forall>e \<in> set (sd_events sd). te_SnapshotID e = None)"

lemma append_unnamed: "AppendEvent_row i now t k n e p None db sd = Inr (row, sd') \<Longrightarrow> no_snapshot_named sd \<Longrightarrow> no_snapshot_named sd'"
  by (auto simp: AppendEvent_row_def Let_def no_snapshot_named_def split: if_splits)

lemma snapshot_events: "CreateSnapshot lib i now t db sd = Inr (r, sd') \<Longrightarrow> sd_events sd' = sd_events sd"
  by (auto simp: CreateSnapshot_def Let_def split: if_splits option.splits)

lemma try_snapshot_events: "sd_events (try_snapshot lib i now t db sd) = sd_events sd"
  by (auto simp: try_snapshot_def snapshot_events split: sum.split)

lemma forget_unnamed: "no_snapshot_named sd \<Longrightarrow> no_snapshot_named (forget_snapshots ids sd)"
  by (auto simp: no_snapshot_named_def forget_snapshots_def)

lemma step_unnamed: "sync_step lib st st' \<Longrightarrow> no_snapshot_named (snd st) \<Longrightarrow> no_snapshot_named (snd st')"
proof (induction rule: sync_step.induct)
  case (node_mutation onCommit newIDs now m s sd hub sd' hub')
  then obtain ev sd1 where a: "AppendEvent_row (fst newIDs) now (nm_TreeID m) (nm_Type m) (Some (nm_NodeID m)) (edgeIDPtr m)
      (buildNodeEventPayload lib m) None (gs_db s) sd = Inr (ev, sd1)"
    and sd': "sd' = (if onCommit then try_snapshot lib (snd newIDs) now (nm_TreeID m) (gs_db s) sd1 else sd1)"
    by (auto simp: OnNodeMutation_def Let_def split: sum.splits prod.splits)
  from append_unnamed [OF a] node_mutation.prems show ?case by (simp add: sd' no_snapshot_named_def try_snapshot_events)
next
  case (yjs_update newID now t actor upd s sd hub sd' hub')
  then obtain p ev where "AppendEvent_row newID now t ''yjs_update'' None None p None (gs_db s) sd = Inr (ev, sd')"
    by (auto simp: ApplyYjsUpdate_def Let_def split: if_splits sum.splits prod.splits)
  from append_unnamed [OF this] yjs_update.prems show ?case by simp
qed (auto simp: snapshot_events no_snapshot_named_def OnTreeMutation_def try_snapshot_events CompactSnapshots_def DeleteSnapshotsBefore_def
    Let_def forget_snapshots_def)

lemma concat_map_Nil: "concat (map (\<lambda>_. []) xs) = []"
  by (induction xs) simp_all

lemma events_between_snapshots_none:
  assumes "(sync_step lib)\<^sup>*\<^sup>* (s0, empty_sync) (s, sd)"
  shows "GetEventsBetweenSnapshots sd a b = []"
proof -
  have "no_snapshot_named (snd st')" if "(sync_step lib)\<^sup>*\<^sup>* st st'" "no_snapshot_named (snd st)" for st st'
    using that by (induction rule: rtranclp_induct) (use step_unnamed in blast)+
  from this [OF assms] have "no_snapshot_named sd" by (simp add: no_snapshot_named_def empty_sync_def)
  then have "snapshot_seq sd i = None" for i by (auto simp: snapshot_seq_def no_snapshot_named_def filter_empty_conv split: list.split)
  then show ?thesis by (simp add: GetEventsBetweenSnapshots_def concat_map_Nil)
qed

lemma recurring_state_not_latest:
  assumes "find (\<lambda>s. sn_Hash s = computeSnapshotHash_rows lib (snapshot_nodes db t) (snapshot_edges db t)) (tree_snapshots sd t) = Some old"
    and "CreateSnapshot lib i now t db sd = Inr (r, sd')"
  shows "r = old \<and> GetLatestSnapshot sd' t = GetLatestSnapshot sd t"
  using assms by (simp add: CreateSnapshot_def Let_def split: if_splits)

end
