(* ===== verification/Topic_Signals.thy ===== *)
theory Topic_Signals
  imports Node_Service
begin

text \<open>
  The signals of the topic detection (\<open>internal/service/topic_detection.go\<close>): the phrases that
  ask for a topic, the shift of subject between two windows of messages, and the fork of a
  branch. A pattern of \<open>regexp\<close> is a list of elements, matched in the priority order of the
  package. Confidences and the ratios of the keyword analysis are rationals: two ratios of counts
  that differ, differ by far more than the rounding of a \<open>float64\<close>, so every comparison with a
  threshold has the same outcome. The two-digit rendering of a ratio, the \<open>LOWER\<close> of the database
  and its rewriting of a content to plain text are parameters.
\<close>

section \<open>Patterns\<close>

datatype rx =
    RWord string
  | RSpaces
  | RBound
  | RAlt "string list"
  | RWordOpt string
  | RSubject

definition re_space :: "char \<Rightarrow> bool" where
  "re_space c \<longleftrightarrow> c \<in> set [CHR 0x09, CHR 0x0A, CHR 0x0C, CHR 0x0D, CHR '' '']"

definition re_word :: "char \<Rightarrow> bool" where
  "re_word c \<longleftrightarrow> byte_in 48 57 c \<or> byte_in 65 90 c \<or> byte_in 97 122 c \<or> c = CHR ''_''"

definition fold_letter :: "char \<Rightarrow> char" where
  "fold_letter c = (if byte_in 65 90 c then char_of (of_char c + 32 :: nat) else c)"

text \<open>A letter under \<open>(?i)\<close>: either case, and the Kelvin sign for \<open>k\<close>, the long \<open>s\<close> for \<open>s\<close>.\<close>

definition eat_letter :: "char \<Rightarrow> string \<Rightarrow> string option" where
  "eat_letter c s =
     (case s of [] \<Rightarrow> None
      | x # r \<Rightarrow> if fold_letter x = c then Some r
                else if c = CHR ''k'' \<and> starts_with [CHR 0xE2, CHR 0x84, CHR 0xAA] s then Some (drop 3 s)
                else if c = CHR ''s'' \<and> starts_with [CHR 0xC5, CHR 0xBF] s then Some (drop 2 s) else None)"

fun eat_word :: "string \<Rightarrow> string \<Rightarrow> string option" where
  "eat_word [] s = Some s"
| "eat_word (c # w) s = (case eat_letter c s of None \<Rightarrow> None | Some r \<Rightarrow> eat_word w r)"

definition word_at :: "string \<Rightarrow> nat \<Rightarrow> bool" where
  "word_at s i \<longleftrightarrow> i < length s \<and> re_word (s ! i)"

definition word_ends :: "string \<Rightarrow> string \<Rightarrow> nat \<Rightarrow> nat list" where
  "word_ends w s i = (case eat_word w (drop i s) of None \<Rightarrow> [] | Some r \<Rightarrow> [length s - length r])"

definition run_length :: "(char \<Rightarrow> bool) \<Rightarrow> string \<Rightarrow> nat \<Rightarrow> nat" where
  "run_length p s i = length (takeWhile p (drop i s))"

definition space_ends :: "string \<Rightarrow> nat \<Rightarrow> nat list" where
  "space_ends s i = rev [i + 1 ..< i + run_length re_space s i + 1]"

definition rest_of_line :: "string \<Rightarrow> nat \<Rightarrow> string" where
  "rest_of_line s i = takeWhile (\<lambda>c. c \<noteq> CHR 0x0A) (drop i s)"

text \<open>The positions after a match at position \<open>i\<close>, in the order in which backtracking tries them.\<close>

fun rx_ends :: "rx \<Rightarrow> string \<Rightarrow> nat \<Rightarrow> nat list" where
  "rx_ends (RWord w) s i = word_ends w s i"
| "rx_ends RSpaces s i = space_ends s i"
| "rx_ends RBound s i = (if (0 < i \<and> word_at s (i - 1)) \<noteq> word_at s i then [i] else [])"
| "rx_ends (RAlt ws) s i = concat (map (\<lambda>w. word_ends w s i) ws)"
| "rx_ends (RWordOpt w) s i = concat (map (space_ends s) (word_ends w s i)) @ [i]"
| "rx_ends RSubject s i = (if rest_of_line s i = [] then [] else [i + length (rest_of_line s i)])"

fun rxs_ends :: "rx list \<Rightarrow> string \<Rightarrow> nat \<Rightarrow> nat list" where
  "rxs_ends [] s i = [i]"
| "rxs_ends (r # rs) s i = concat (map (rxs_ends rs s) (rx_ends r s i))"

definition MatchString :: "rx list \<Rightarrow> string \<Rightarrow> bool" where
  "MatchString rs s \<longleftrightarrow> list_ex (\<lambda>i. rxs_ends rs s i \<noteq> []) [0 ..< Suc (length s)]"

text \<open>The source text of a pattern, which \<open>Evidence\<close> quotes.\<close>

definition esc :: "char \<Rightarrow> string" where "esc c = [CHR 0x5C, c]"

fun rx_source :: "rx \<Rightarrow> string" where
  "rx_source (RWord w) = w"
| "rx_source RSpaces = esc (CHR ''s'') @ ''+''"
| "rx_source RBound = esc (CHR ''b'')"
| "rx_source (RAlt ws) = ''(?:'' @ strings_Join ws ''|'' @ '')''"
| "rx_source (RWordOpt w) = ''(?:'' @ w @ esc (CHR ''s'') @ ''+)?''"
| "rx_source RSubject = ''(?P<subject>.+)''"

definition pattern_source :: "rx list \<Rightarrow> string" where
  "pattern_source rs = ''(?i)'' @ concat (map rx_source rs)"

section \<open>Types\<close>

record detection_config =
  dc_AutoCreate :: bool
  dc_AlwaysAsk :: bool
  dc_DetectionLevel :: string
  dc_MinMessagesPerTopic :: int
  dc_ProposalCooldown :: int

definition DefaultDetectionConfig :: detection_config where
  "DefaultDetectionConfig = \<lparr>dc_AutoCreate = False, dc_AlwaysAsk = True, dc_DetectionLevel = ''full'',
     dc_MinMessagesPerTopic = 3, dc_ProposalCooldown = 10\<rparr>"

datatype detection_type = DetectionExplicit | DetectionImplicit | DetectionStructural

fun detection_text :: "detection_type \<Rightarrow> string" where
  "detection_text DetectionExplicit = ''explicit''"
| "detection_text DetectionImplicit = ''implicit''"
| "detection_text DetectionStructural = ''structural''"

record signal =
  sg_Type :: detection_type
  sg_Confidence :: rat
  sg_RootNodeID :: uuid
  sg_SubjectKey :: string
  sg_Evidence :: "string list"

section \<open>Explicit requests\<close>

definition make_words :: "rx list" where
  "make_words = [RBound, RAlt [''make'', ''turn'', ''mark''], RSpaces, RAlt [''this'', ''that'', ''it''], RSpaces]"

definition into_words :: "rx list" where "into_words = [RAlt [''into'', ''as''], RSpaces]"

definition about_words :: "rx list" where "about_words = [RSpaces, RAlt [''about'', ''on'', ''for''], RSpaces, RSubject]"

definition a_topic :: "rx list" where "a_topic = [RWord ''a'', RSpaces, RWord ''topic'']"

definition explicitPatterns :: "rx list list" where
  "explicitPatterns =
     [make_words @ into_words @ a_topic @ [RBound],
      make_words @ a_topic @ [RBound],
      [RBound, RAlt [''create'', ''start'', ''open'', ''new''], RSpaces, RWordOpt ''a'', RWord ''topic'', RBound],
      [RBound, RWord ''new'', RSpaces, RWord ''topic''] @ about_words,
      make_words @ into_words @ a_topic @ about_words]"

definition subject_words :: "rx list" where
  "subject_words = [RBound, RAlt [''about'', ''on'', ''for''], RSpaces]"

text \<open>\<open>FindStringSubmatch\<close> of \<open>subjectPattern\<close>: the leftmost match, its first way of matching.\<close>

definition find_subject :: "string \<Rightarrow> string option" where
  "find_subject s =
     (let starts = concat (map (rxs_ends subject_words s) [0 ..< Suc (length s)])
      in map_option (rest_of_line s) (find (\<lambda>j. rest_of_line s j \<noteq> []) starts))"

definition trim_right :: "string \<Rightarrow> string \<Rightarrow> string" where
  "trim_right cutset s = rev (dropWhile (\<lambda>c. c \<in> set cutset) (rev s))"

definition trim_chars :: "string \<Rightarrow> string \<Rightarrow> string" where
  "trim_chars cutset s = trim_right cutset (dropWhile (\<lambda>c. c \<in> set cutset) s)"

definition cleanSubject :: "string \<Rightarrow> string" where
  "cleanSubject s =
     (let s = trim_space s;
          s = (if CHR ''#'' \<in> set s then trim_space (takeWhile (\<lambda>c. c \<noteq> CHR ''#'') s) else s)
      in trim_space (trim_right ''.,!?;:'' s))"

definition extractSubject :: "string \<Rightarrow> string" where
  "extractSubject content = (case find_subject content of None \<Rightarrow> [] | Some s \<Rightarrow> cleanSubject s)"

definition DetectExplicit :: "tree_lib \<Rightarrow> node \<Rightarrow> signal option" where
  "DetectExplicit lib n =
     (let content = trim_space (n_Content n)
      in case find (\<lambda>p. MatchString p content) explicitPatterns of None \<Rightarrow> None
         | Some p \<Rightarrow>
             (let subject = extractSubject content
              in Some \<lparr>sg_Type = DetectionExplicit, sg_Confidence = 1, sg_RootNodeID = n_ID n,
                       sg_SubjectKey = (if subject = [] then tl_ustr lib (n_ID n) else subject),
                       sg_Evidence = [''explicit pattern matched: '' @ pattern_source p]\<rparr>))"

section \<open>Keywords\<close>

definition commonStopwords :: "string list" where
  "commonStopwords =
     [''the'', ''a'', ''an'', ''is'', ''are'', ''was'', ''were'', ''be'', ''been'', ''being'',
      ''have'', ''has'', ''had'', ''do'', ''does'', ''did'', ''will'', ''would'', ''should'', ''could'',
      ''may'', ''might'', ''must'', ''shall'', ''can'', ''of'', ''in'', ''on'', ''at'', ''to'', ''for'',
      ''with'', ''by'', ''from'', ''as'', ''into'', ''about'', ''like'', ''through'', ''after'', ''over'',
      ''between'', ''out'', ''against'', ''during'', ''without'', ''within'', ''and'', ''or'', ''but'',
      ''if'', ''then'', ''else'', ''when'', ''where'', ''why'', ''how'', ''all'', ''any'', ''both'',
      ''each'', ''few'', ''more'', ''most'', ''other'', ''some'', ''such'', ''no'', ''not'', ''only'',
      ''own'', ''same'', ''so'', ''than'', ''too'', ''very'', ''just'', ''this'', ''that'', ''these'',
      ''those'', ''i'', ''you'', ''he'', ''she'', ''it'', ''we'', ''they'', ''me'', ''him'',
      ''her'', ''us'', ''them'', ''my'', ''your'', ''his'', ''its'', ''our'', ''their'']"

definition code_fence :: "string \<Rightarrow> bool" where
  "code_fence trimmed \<longleftrightarrow> starts_with ''```'' trimmed"

text \<open>The loop of \<open>splitCodeBlocks\<close>: prose so far, finished blocks, the open block.\<close>

fun split_blocks :: "string list \<Rightarrow> bool \<Rightarrow> string \<Rightarrow> string list \<Rightarrow> string \<Rightarrow> string \<times> string list" where
  "split_blocks [] inCode prose code block = (prose, if inCode then code @ [block] else code)"
| "split_blocks (line # ls) inCode prose code block =
     (if code_fence (trim_space line)
      then (if inCode then split_blocks ls False prose (code @ [block]) [] else split_blocks ls True prose code block)
      else if inCode then split_blocks ls inCode prose code (block @ line @ [CHR 0x0A])
      else split_blocks ls inCode (prose @ line @ [CHR 0x0A]) code block)"

definition splitCodeBlocks :: "string \<Rightarrow> string \<times> string list" where
  "splitCodeBlocks content = split_blocks (split_lines content) False [] [] []"

type_synonym word_counts = "(string, nat) gomap"

definition count_word :: "string \<Rightarrow> word_counts \<Rightarrow> word_counts" where
  "count_word w m = map_put w (Suc (map_get 0 m w)) m"

definition punctuation :: string where
  "punctuation = ''.,!?;:'' @ [CHR 0x22, CHR 0x27] @ ''()[]{}''"

definition keywords_of :: "tree_lib \<Rightarrow> string \<Rightarrow> string list" where
  "keywords_of lib prose =
     filter (\<lambda>w. 2 \<le> length w \<and> w \<notin> set commonStopwords)
       (map (trim_chars punctuation) (strings_Fields (tl_lower lib prose)))"

definition code_words :: "tree_lib \<Rightarrow> string list \<Rightarrow> string list" where
  "code_words lib code =
     filter (\<lambda>w. w \<noteq> []) (concat (map (\<lambda>b. map (\<lambda>w. tl_lower lib (trim_space w)) (strings_Fields b)) code))"

fun tokenize :: "tree_lib \<Rightarrow> node list \<Rightarrow> word_counts \<times> word_counts \<Rightarrow> word_counts \<times> word_counts" where
  "tokenize lib [] counts = counts"
| "tokenize lib (n # ns) (kw, codeTokens) =
     (let (prose, code) = splitCodeBlocks (n_Content n)
      in tokenize lib ns (fold count_word (keywords_of lib prose) kw, fold count_word (code_words lib code) codeTokens))"

definition common_keys :: "word_counts \<Rightarrow> word_counts \<Rightarrow> nat" where
  "common_keys a b = length (filter (\<lambda>p. map_has b (fst p)) a)"

definition jaccardDistance :: "word_counts \<Rightarrow> word_counts \<Rightarrow> rat" where
  "jaccardDistance a b =
     (if a = [] \<and> b = [] then 0
      else 1 - of_nat (common_keys a b) / of_nat (length a + length b - common_keys a b))"

definition overlapRatio :: "word_counts \<Rightarrow> word_counts \<Rightarrow> rat" where
  "overlapRatio a b =
     (if a = [] \<or> b = [] then 0 else of_nat (common_keys a b) / of_nat (min (length a) (length b)))"

text \<open>An \<open>Analyzer\<close> returns the distance and the overlap of two windows, or fails.\<close>

type_synonym analyzer = "node list \<Rightarrow> node list \<Rightarrow> (rat \<times> rat) option"

definition KeywordAnalyzer_Analyze :: "tree_lib \<Rightarrow> analyzer" where
  "KeywordAnalyzer_Analyze lib cur prev =
     (if cur = [] \<or> prev = [] then Some (0, 1)
      else (let (curKw, curCode) = tokenize lib cur ([], []);
                (prevKw, prevCode) = tokenize lib prev ([], []);
                distance = jaccardDistance curKw prevKw
            in Some (if curCode \<noteq> [] \<or> prevCode \<noteq> [] then max distance (jaccardDistance curCode prevCode / 2) else distance,
                     overlapRatio curKw prevKw)))"

text \<open>The most frequent keyword, the smallest of several: one step of the loop over the map.\<close>

definition top_step :: "string \<times> nat \<Rightarrow> string \<times> nat \<Rightarrow> string \<times> nat" where
  "top_step p best = (if snd best < snd p \<or> snd p = snd best \<and> fst p < fst best then p else best)"

definition deriveSubjectKey :: "tree_lib \<Rightarrow> node list \<Rightarrow> string" where
  "deriveSubjectKey lib ns =
     (let kw = fst (tokenize lib ns ([], []))
      in if kw = [] then tl_ustr lib (n_ID (hd ns)) else fst (fold top_step kw ([], 0)))"

section \<open>Shifts of subject\<close>

record topic_lib = tree_lib +
  tp_fmt2 :: "rat \<Rightarrow> string"
  tp_pglower :: "string \<Rightarrow> string"
  tp_plain :: "string \<Rightarrow> string"

definition implicit_confidence :: "nat \<Rightarrow> rat" where
  "implicit_confidence n = (if 5 \<le> n then 65 / 100 else if 4 \<le> n then 75 / 100 else 85 / 100)"

definition DetectImplicit :: "topic_lib \<Rightarrow> analyzer \<Rightarrow> node list \<Rightarrow> node list \<Rightarrow> detection_config \<Rightarrow> signal option" where
  "DetectImplicit lib analyze cur0 prev cfg =
     (if int (length cur0) < max 3 (dc_MinMessagesPerTopic cfg) then None
      else (let cur = drop (length cur0 - 5) cur0
            in case analyze cur prev of None \<Rightarrow> None
               | Some (distance, overlap) \<Rightarrow>
                   if distance < 70 / 100 \<or> 30 / 100 < overlap then None
                   else Some \<lparr>sg_Type = DetectionImplicit, sg_Confidence = implicit_confidence (length cur),
                              sg_RootNodeID = n_ID (hd cur), sg_SubjectKey = deriveSubjectKey (tree_lib.truncate lib) cur,
                              sg_Evidence = [''semantic_distance='' @ tp_fmt2 lib distance @ '' (threshold>=0.70)'',
                                             ''subject_overlap='' @ tp_fmt2 lib overlap @ '' (threshold<=0.30)'',
                                             ''message_count='' @ itoa (int (length cur))]\<rparr>))"

section \<open>Forks\<close>

definition DetectStructural :: "tree_lib \<Rightarrow> graph_db \<Rightarrow> node \<Rightarrow> signal option" where
  "DetectStructural lib db n =
     (if trim_space (n_Content n) = [] then None
      else if list_ex (\<lambda>e. e_EdgeType e = ''fork'') (edge_GetByTarget db (n_ID n))
      then Some \<lparr>sg_Type = DetectionStructural,
                 sg_Confidence = (if n_NodeType n = ''synthesis'' then 80 / 100 else 90 / 100),
                 sg_RootNodeID = n_ID n, sg_SubjectKey = deriveSubjectKey lib [n], sg_Evidence = [''fork edge detected'']\<rparr>
      else None)"

section \<open>Titles\<close>

fun meaningful_line :: "string list \<Rightarrow> bool \<Rightarrow> string" where
  "meaningful_line [] inCode = []"
| "meaningful_line (line # ls) inCode =
     (let trimmed = trim_space line
      in if code_fence trimmed then meaningful_line ls (\<not> inCode)
         else if inCode then meaningful_line ls inCode
         else if trimmed = [] \<or> starts_with ''#'' trimmed then meaningful_line ls inCode
         else trimmed)"

definition firstMeaningfulLine :: "string \<Rightarrow> string" where
  "firstMeaningfulLine content = meaningful_line (split_lines content) False"

fun collapse_spaces :: "string \<Rightarrow> bool \<Rightarrow> string" where
  "collapse_spaces [] inRun = []"
| "collapse_spaces (c # s) inRun =
     (if re_space c then (if inRun then collapse_spaces s True else CHR '' '' # collapse_spaces s True)
      else c # collapse_spaces s False)"

definition normalizeTitle :: "string \<Rightarrow> string" where
  "normalizeTitle s =
     (let s = trim_chars ''*_`'' (collapse_spaces (trim_space s) False)
      in trim_space (if 200 < rune_count s then concat (take 200 (go_runes s)) else s))"

definition GenerateTitle :: "node \<Rightarrow> node list \<Rightarrow> int \<Rightarrow> string" where
  "GenerateTitle root_node contextNodes n =
     (let n = min 5 (if n \<le> 0 then 3 else n);
          titles = map (\<lambda>m. normalizeTitle (firstMeaningfulLine (n_Content m))) (root_node # take (nat (n - 1)) contextNodes)
      in case find (\<lambda>t. t \<noteq> []) titles of None \<Rightarrow> [] | Some t \<Rightarrow> t)"

section \<open>The best signal\<close>

definition HighestConfidenceSignal :: "signal list \<Rightarrow> signal option" where
  "HighestConfidenceSignal signals =
     fold (\<lambda>s best. case best of None \<Rightarrow> Some s | Some b \<Rightarrow> if sg_Confidence b < sg_Confidence s then Some s else best) signals None"

end
