(* ===== verification/Topic_Store.thy ===== *)
theory Topic_Store
  imports Topic_Signals
begin

text \<open>
  The tables of the topics and their repositories (\<open>internal/db/topic_repo.go\<close>,
  \<open>topic_detection_repo.go\<close>, the index functions of \<open>topic_search_repo.go\<close>) with the constraints
  of the migrations \<open>000020\<close>, \<open>000026\<close> and \<open>000030\<close>. The view of the members of a topic is a
  recursive query without a guard on its depth: \<open>scope_levels\<close> returns nothing when the query
  does not end. The columns of the full-text search are not modelled. Identifiers drawn by the
  database and the clock are arguments.
\<close>

section \<open>Rows\<close>

record topic_member =
  tmr_TopicID :: uuid
  tmr_ProfileID :: uuid
  tmr_Role :: string
  tmr_JoinedAt :: instant

record topic_proposal =
  tp_ID :: uuid
  tp_TreeID :: uuid
  tp_RootNodeID :: uuid
  tp_Title :: string
  tp_Description :: string
  tp_DetectionType :: string
  tp_Confidence :: rat
  tp_SubjectKey :: string
  tp_Status :: string
  tp_ExpiresAt :: instant
  tp_CreatedAt :: instant
  tp_ResolvedAt :: "instant option"
  tp_Evidence :: json

record config_record =
  cr_TreeID :: uuid
  cr_AutoCreate :: bool
  cr_AlwaysAsk :: bool
  cr_DetectionLevel :: string
  cr_MinMessagesPerTopic :: int
  cr_ProposalCooldown :: int
  cr_LastProposalSeq :: int
  cr_MessagesSinceProposal :: int
  cr_UpdatedAt :: instant

record subject_cooldown =
  scd_TreeID :: uuid
  scd_SubjectKey :: string
  scd_CooldownUntil :: instant
  scd_CreatedAt :: instant

record content_row =
  cir_TopicID :: uuid
  cir_NodeID :: uuid
  cir_TreeID :: uuid
  cir_ContentText :: string
  cir_UpdatedAt :: instant

record topic_db =
  td_graph :: graph_db
  td_profiles :: "uuid list"
  td_topics :: "topic list"
  td_members :: "topic_member list"
  td_proposals :: "topic_proposal list"
  td_configs :: "config_record list"
  td_cooldowns :: "subject_cooldown list"
  td_content :: "content_row list"

datatype topic_db_error = TopicNotFound | TopicWrite pg_error

definition t_live :: "topic \<Rightarrow> bool" where "t_live t \<longleftrightarrow> t_DeletedAt t = None"

section \<open>The scope of a topic\<close>

text \<open>\<open>topic_member_nodes\<close>: the root and what its replies and forks lead to, level after level.\<close>

partial_function (option) scope_levels :: "('a \<Rightarrow> 'a list) \<Rightarrow> 'a list \<Rightarrow> 'a list option" where
  "scope_levels step level =
     (if level = [] then Some []
      else Option.bind (scope_levels step (concat (map step level))) (\<lambda>r. Some (level @ r)))"

definition scope_seed :: "graph_db \<Rightarrow> topic \<Rightarrow> node list" where
  "scope_seed db t = filter (\<lambda>n. n_ID n = t_RootNodeID t \<and> n_TreeID n = t_TreeID t \<and> n_active n) (g_nodes db)"

definition scope_edges :: "graph_db \<Rightarrow> edge_row list" where
  "scope_edges db = filter (\<lambda>e. e_active e \<and> (e_EdgeType e = ''reply'' \<or> e_EdgeType e = ''fork'')) (g_edges db)"

definition scope_children :: "graph_db \<Rightarrow> node \<Rightarrow> node list" where
  "scope_children db n =
     concat (map (\<lambda>e. filter (\<lambda>m. n_ID m = e_TargetID e \<and> n_active m) (g_nodes db))
              (filter (\<lambda>e. e_SourceID e = n_ID n) (scope_edges db)))"

definition topic_member_nodes :: "graph_db \<Rightarrow> topic \<Rightarrow> node list option" where
  "topic_member_nodes db t = scope_levels (scope_children db) (scope_seed db t)"

section \<open>Topics\<close>

record topic_create_input =
  tci_TreeID :: uuid
  tci_RootNodeID :: uuid
  tci_Title :: string
  tci_Description :: string
  tci_ParentTopicID :: "uuid option"
  tci_TopicTags :: "string list"

record topic_update_input =
  tui_Title :: "string option"
  tui_Description :: "string option"
  tui_TopicTags :: "string list option"

definition generateSlug :: "tree_lib \<Rightarrow> string \<Rightarrow> string" where
  "generateSlug lib title = tl_lower lib (replace_all '' '' ''-'' (trim_space title))"

text \<open>
  The constraints of a row: \<open>lower\<close> is the \<open>LOWER\<close> of the database, on which the index of the
  titles is built. Deleted topics count.
\<close>

definition topic_checks :: "topic \<Rightarrow> bool" where
  "topic_checks t \<longleftrightarrow> t_Status t \<in> set [''active'', ''archived'', ''deleted'']
     \<and> 1 \<le> rune_count (t_Title t) \<and> rune_count (t_Title t) \<le> 200
     \<and> 1 \<le> rune_count (t_Slug t) \<and> rune_count (t_Slug t) \<le> 256"

definition topic_clash :: "(string \<Rightarrow> string) \<Rightarrow> topic \<Rightarrow> topic \<Rightarrow> bool" where
  "topic_clash lower a b \<longleftrightarrow> t_ID a = t_ID b
     \<or> t_TreeID a = t_TreeID b \<and> (t_Slug a = t_Slug b \<or> lower (t_Title a) = lower (t_Title b))"

definition insert_topic :: "(string \<Rightarrow> string) \<Rightarrow> topic \<Rightarrow> topic_db \<Rightarrow> pg_error + topic_db" where
  "insert_topic lower t db =
     (if \<not> topic_checks t then Inl CheckViolation
      else if list_ex (topic_clash lower t) (td_topics db) then Inl UniqueViolation
      else if (case t_ParentTopicID t of None \<Rightarrow> False
               | Some p \<Rightarrow> \<not> list_ex (\<lambda>u. t_ID u = p) (td_topics db) \<and> p \<noteq> t_ID t)
      then Inl (ForeignKeyViolation ''topics_parent_topic_id_fkey'')
      else if \<not> has_tree (td_graph db) (t_TreeID t) then Inl (ForeignKeyViolation ''fk_topics_tree'')
      else if \<not> has_node (td_graph db) (t_RootNodeID t) then Inl (ForeignKeyViolation ''fk_topics_root_node'')
      else Inr (db\<lparr>td_topics := td_topics db @ [t]\<rparr>))"

definition topic_Create ::
    "topic_lib \<Rightarrow> uuid \<Rightarrow> instant \<Rightarrow> topic_create_input \<Rightarrow> topic_db \<Rightarrow> topic_db_error + topic \<times> topic_db" where
  "topic_Create lib newID now input db =
     (let t = \<lparr>t_ID = newID, t_TreeID = tci_TreeID input, t_RootNodeID = tci_RootNodeID input, t_Title = tci_Title input,
               t_Description = tci_Description input, t_Slug = generateSlug (tree_lib.truncate lib) (tci_Title input),
               t_ParentTopicID = tci_ParentTopicID input, t_Status = ''active'', t_TopicTags = tci_TopicTags input,
               t_NodeCount = 0, t_CreatedAt = now, t_ArchivedAt = None, t_DeletedAt = None\<rparr>
      in case insert_topic (tp_pglower lib) t db of Inl e \<Rightarrow> Inl (TopicWrite e) | Inr db' \<Rightarrow> Inr (t, db'))"

definition find_topic :: "(topic \<Rightarrow> bool) \<Rightarrow> topic_db \<Rightarrow> topic option" where
  "find_topic p db = find (\<lambda>t. p t \<and> t_live t) (td_topics db)"

definition topic_GetByID :: "uuid \<Rightarrow> topic_db \<Rightarrow> topic option" where
  "topic_GetByID i = find_topic (\<lambda>t. t_ID t = i)"

definition newest_topic :: "topic \<Rightarrow> topic \<Rightarrow> bool" where
  "newest_topic a b \<longleftrightarrow> t_CreatedAt b < t_CreatedAt a"

definition oldest_topic :: "topic \<Rightarrow> topic \<Rightarrow> bool" where
  "oldest_topic a b \<longleftrightarrow> t_CreatedAt a < t_CreatedAt b"

definition topic_GetByTree :: "uuid \<Rightarrow> string \<Rightarrow> topic_db \<Rightarrow> topic list" where
  "topic_GetByTree treeID status db =
     sort_stable newest_topic
       (filter (\<lambda>t. t_TreeID t = treeID \<and> (status = [] \<or> t_Status t = status) \<and> t_live t) (td_topics db))"

definition topic_GetByRootNode :: "uuid \<Rightarrow> topic_db \<Rightarrow> topic option" where
  "topic_GetByRootNode i = find_topic (\<lambda>t. t_RootNodeID t = i)"

definition topic_GetBySlug :: "uuid \<Rightarrow> string \<Rightarrow> topic_db \<Rightarrow> topic option" where
  "topic_GetBySlug treeID slug = find_topic (\<lambda>t. t_TreeID t = treeID \<and> t_Slug t = slug)"

text \<open>\<open>UPDATE topics SET \<dots> WHERE id = $1 AND deleted_at IS NULL\<close>.\<close>

definition edit_topic :: "uuid \<Rightarrow> (topic \<Rightarrow> topic) \<Rightarrow> topic_db \<Rightarrow> topic_db" where
  "edit_topic i f db = db\<lparr>td_topics := map (\<lambda>t. if t_ID t = i \<and> t_live t then f t else t) (td_topics db)\<rparr>"

definition apply_topic_update :: "tree_lib \<Rightarrow> topic_update_input \<Rightarrow> topic \<Rightarrow> topic" where
  "apply_topic_update lib input t =
     (let t = (case tui_Title input of None \<Rightarrow> t | Some s \<Rightarrow> t\<lparr>t_Title := s, t_Slug := generateSlug lib s\<rparr>);
          t = (case tui_Description input of None \<Rightarrow> t | Some s \<Rightarrow> t\<lparr>t_Description := s\<rparr>)
      in case tui_TopicTags input of None \<Rightarrow> t | Some ts \<Rightarrow> t\<lparr>t_TopicTags := ts\<rparr>)"

definition topic_Update ::
    "topic_lib \<Rightarrow> uuid \<Rightarrow> topic_update_input \<Rightarrow> topic_db \<Rightarrow> topic_db_error + topic \<times> topic_db" where
  "topic_Update lib i input db =
     (case topic_GetByID i db of None \<Rightarrow> Inl TopicNotFound
      | Some t \<Rightarrow>
          if tui_Title input = None \<and> tui_Description input = None \<and> tui_TopicTags input = None then Inr (t, db)
          else (let t' = apply_topic_update (tree_lib.truncate lib) input t
                in if \<not> topic_checks t' then Inl (TopicWrite CheckViolation)
                   else if list_ex (\<lambda>u. t_ID u \<noteq> i \<and> topic_clash (tp_pglower lib) t' u) (td_topics db)
                   then Inl (TopicWrite UniqueViolation)
                   else Inr (t', edit_topic i (\<lambda>_. t') db)))"

definition topic_Archive :: "instant \<Rightarrow> uuid \<Rightarrow> topic_db \<Rightarrow> topic_db" where
  "topic_Archive now i = edit_topic i (\<lambda>t. t\<lparr>t_Status := ''archived'', t_ArchivedAt := Some now\<rparr>)"

definition topic_Restore :: "uuid \<Rightarrow> topic_db \<Rightarrow> topic_db" where
  "topic_Restore i = edit_topic i (\<lambda>t. t\<lparr>t_Status := ''active'', t_ArchivedAt := None\<rparr>)"

definition topic_SoftDelete :: "instant \<Rightarrow> uuid \<Rightarrow> topic_db \<Rightarrow> topic_db" where
  "topic_SoftDelete now i = edit_topic i (\<lambda>t. t\<lparr>t_Status := ''deleted'', t_DeletedAt := Some now\<rparr>)"

text \<open>Deleting the row clears the parent of its children and deletes its members and index rows.\<close>

definition topic_HardDelete :: "uuid \<Rightarrow> topic_db \<Rightarrow> topic_db" where
  "topic_HardDelete i db = db\<lparr>
     td_topics := map (\<lambda>t. if t_ParentTopicID t = Some i then t\<lparr>t_ParentTopicID := None\<rparr> else t)
                    (filter (\<lambda>t. t_ID t \<noteq> i) (td_topics db)),
     td_members := filter (\<lambda>m. tmr_TopicID m \<noteq> i) (td_members db),
     td_content := filter (\<lambda>c. cir_TopicID c \<noteq> i) (td_content db)\<rparr>"

definition topic_GetParentTopics :: "uuid \<Rightarrow> topic_db \<Rightarrow> topic list" where
  "topic_GetParentTopics i db =
     (let up = (\<lambda>t. case t_ParentTopicID t of None \<Rightarrow> [] | Some p \<Rightarrow> filter (\<lambda>u. t_ID u = p) (td_topics db));
          rows = recursive_query up depth_guard 0 (filter (\<lambda>t. t_ID t = i) (td_topics db))
      in sort_stable oldest_topic (filter (\<lambda>t. t_ID t \<noteq> i) (map fst rows)))"

definition topic_GetChildTopics :: "uuid \<Rightarrow> topic_db \<Rightarrow> topic list" where
  "topic_GetChildTopics i db =
     sort_stable oldest_topic (filter (\<lambda>t. t_ParentTopicID t = Some i \<and> t_live t) (td_topics db))"

text \<open>\<open>refresh_topic_node_count\<close>: nothing when the view does not end.\<close>

definition topic_RefreshNodeCount :: "uuid \<Rightarrow> topic_db \<Rightarrow> (int \<times> topic_db) option" where
  "topic_RefreshNodeCount i db =
     (case find (\<lambda>t. t_ID t = i) (td_topics db) of None \<Rightarrow> Some (0, db)
      | Some t \<Rightarrow>
          map_option (\<lambda>ns. (int (length ns),
              db\<lparr>td_topics := map (\<lambda>u. if t_ID u = i then u\<lparr>t_NodeCount := int (length ns)\<rparr> else u) (td_topics db)\<rparr>))
            (topic_member_nodes (td_graph db) t))"

text \<open>Whether a node is in the scope of a topic; a scope that is not computed has no members.\<close>

definition in_scope :: "graph_db \<Rightarrow> uuid \<Rightarrow> topic \<Rightarrow> bool" where
  "in_scope db i t \<longleftrightarrow> (case topic_member_nodes db t of None \<Rightarrow> False | Some ns \<Rightarrow> list_ex (\<lambda>n. n_ID n = i) ns)"

definition topic_GetTopicsForNode :: "uuid \<Rightarrow> topic_db \<Rightarrow> topic list" where
  "topic_GetTopicsForNode i db = filter (\<lambda>t. t_live t \<and> in_scope (td_graph db) i t) (td_topics db)"

definition last_archived :: "topic \<Rightarrow> topic \<Rightarrow> bool" where
  "last_archived a b \<longleftrightarrow>
     (case (t_ArchivedAt a, t_ArchivedAt b) of (None, Some _) \<Rightarrow> True | (Some x, Some y) \<Rightarrow> y < x | _ \<Rightarrow> False)"

definition topic_ListArchived :: "uuid \<Rightarrow> int \<Rightarrow> int \<Rightarrow> topic_db \<Rightarrow> topic list \<times> int" where
  "topic_ListArchived treeID limit offset db =
     (let ts = filter (\<lambda>t. t_TreeID t = treeID \<and> t_Status t = ''archived'' \<and> t_live t) (td_topics db)
      in (take (nat limit) (drop (nat offset) (sort_stable last_archived ts)), int (length ts)))"

section \<open>Members\<close>

definition topic_AddMember ::
    "instant \<Rightarrow> uuid \<Rightarrow> uuid \<Rightarrow> string \<Rightarrow> topic_db \<Rightarrow> pg_error + topic_member \<times> topic_db" where
  "topic_AddMember now topicID profileID role db =
     (let m = \<lparr>tmr_TopicID = topicID, tmr_ProfileID = profileID, tmr_Role = role, tmr_JoinedAt = now\<rparr>
      in if role \<notin> set [''viewer'', ''contributor'', ''manager''] then Inl CheckViolation
         else if list_ex (\<lambda>r. tmr_TopicID r = topicID \<and> tmr_ProfileID r = profileID) (td_members db) then Inl UniqueViolation
         else if \<not> list_ex (\<lambda>t. t_ID t = topicID) (td_topics db) then Inl (ForeignKeyViolation ''topic_members_topic_id_fkey'')
         else if profileID \<notin> set (td_profiles db) then Inl (ForeignKeyViolation ''topic_members_profile_id_fkey'')
         else Inr (m, db\<lparr>td_members := td_members db @ [m]\<rparr>))"

definition topic_RemoveMember :: "uuid \<Rightarrow> uuid \<Rightarrow> topic_db \<Rightarrow> topic_db" where
  "topic_RemoveMember topicID profileID db =
     db\<lparr>td_members := filter (\<lambda>m. \<not> (tmr_TopicID m = topicID \<and> tmr_ProfileID m = profileID)) (td_members db)\<rparr>"

definition topic_UpdateRole :: "uuid \<Rightarrow> uuid \<Rightarrow> string \<Rightarrow> topic_db \<Rightarrow> pg_error + topic_db" where
  "topic_UpdateRole topicID profileID role db =
     (let hit = (\<lambda>m. tmr_TopicID m = topicID \<and> tmr_ProfileID m = profileID)
      in if list_ex hit (td_members db) \<and> role \<notin> set [''viewer'', ''contributor'', ''manager''] then Inl CheckViolation
         else Inr (db\<lparr>td_members := map (\<lambda>m. if hit m then m\<lparr>tmr_Role := role\<rparr> else m) (td_members db)\<rparr>))"

definition topic_GetMembers :: "uuid \<Rightarrow> topic_db \<Rightarrow> topic_member list" where
  "topic_GetMembers topicID db =
     sort_stable (\<lambda>a b. tmr_JoinedAt a < tmr_JoinedAt b) (filter (\<lambda>m. tmr_TopicID m = topicID) (td_members db))"

definition topic_GetTopicsForProfile :: "uuid \<Rightarrow> topic_db \<Rightarrow> topic list" where
  "topic_GetTopicsForProfile profileID db =
     sort_stable newest_topic
       (concat (map (\<lambda>t. map (\<lambda>_. t) (filter (\<lambda>m. tmr_TopicID m = t_ID t \<and> tmr_ProfileID m = profileID) (td_members db)))
         (filter t_live (td_topics db))))"

section \<open>Proposals\<close>

definition proposal_checks :: "topic_proposal \<Rightarrow> bool" where
  "proposal_checks p \<longleftrightarrow> tp_Status p \<in> set [''pending'', ''confirmed'', ''dismissed'', ''expired'']
     \<and> tp_DetectionType p \<in> set [''explicit'', ''implicit'', ''structural'']
     \<and> 0 \<le> tp_Confidence p \<and> tp_Confidence p \<le> 1
     \<and> 1 \<le> rune_count (tp_Title p) \<and> rune_count (tp_Title p) \<le> 200"

definition proposal_Create :: "topic_proposal \<Rightarrow> topic_db \<Rightarrow> pg_error + topic_proposal \<times> topic_db" where
  "proposal_Create p db =
     (if \<not> proposal_checks p then Inl CheckViolation
      else if list_ex (\<lambda>q. tp_ID q = tp_ID p) (td_proposals db) then Inl UniqueViolation
      else if \<not> has_tree (td_graph db) (tp_TreeID p) then Inl (ForeignKeyViolation ''fk_proposal_tree'')
      else if \<not> has_node (td_graph db) (tp_RootNodeID p) then Inl (ForeignKeyViolation ''fk_proposal_root_node'')
      else Inr (p, db\<lparr>td_proposals := td_proposals db @ [p]\<rparr>))"

definition proposal_GetByID :: "uuid \<Rightarrow> topic_db \<Rightarrow> topic_proposal option" where
  "proposal_GetByID i db = find (\<lambda>p. tp_ID p = i) (td_proposals db)"

definition proposal_ListPending :: "uuid \<Rightarrow> topic_db \<Rightarrow> topic_proposal list" where
  "proposal_ListPending treeID db =
     sort_stable (\<lambda>a b. tp_CreatedAt b < tp_CreatedAt a)
       (filter (\<lambda>p. tp_TreeID p = treeID \<and> tp_Status p = ''pending'') (td_proposals db))"

definition edit_proposals :: "(topic_proposal \<Rightarrow> bool) \<Rightarrow> string \<Rightarrow> instant option \<Rightarrow> topic_db \<Rightarrow> topic_db" where
  "edit_proposals hit status at_time db =
     db\<lparr>td_proposals := map (\<lambda>p. if hit p then p\<lparr>tp_Status := status, tp_ResolvedAt := at_time\<rparr> else p) (td_proposals db)\<rparr>"

text \<open>The statuses that the service passes are those the table accepts.\<close>

definition proposal_UpdateStatus :: "uuid \<Rightarrow> string \<Rightarrow> instant option \<Rightarrow> topic_db \<Rightarrow> topic_db" where
  "proposal_UpdateStatus i = edit_proposals (\<lambda>p. tp_ID p = i)"

definition proposal_ExpirePending :: "instant \<Rightarrow> uuid \<Rightarrow> int \<Rightarrow> topic_db \<Rightarrow> topic_db" where
  "proposal_ExpirePending now treeID beforeSeq db =
     edit_proposals (\<lambda>p. tp_TreeID p = treeID \<and> tp_Status p = ''pending''
         \<and> list_ex (\<lambda>n. n_ID n = tp_RootNodeID p \<and> n_TreeID n = treeID \<and> n_SequenceNum n < beforeSeq) (g_nodes (td_graph db)))
       ''expired'' (Some now) db"

section \<open>Configuration and cooldowns\<close>

definition default_config :: "instant \<Rightarrow> uuid \<Rightarrow> config_record" where
  "default_config now treeID =
     \<lparr>cr_TreeID = treeID, cr_AutoCreate = False, cr_AlwaysAsk = True, cr_DetectionLevel = ''full'',
      cr_MinMessagesPerTopic = 3, cr_ProposalCooldown = 10, cr_LastProposalSeq = 0, cr_MessagesSinceProposal = 0,
      cr_UpdatedAt = now\<rparr>"

definition find_config :: "uuid \<Rightarrow> topic_db \<Rightarrow> config_record option" where
  "find_config treeID db = find (\<lambda>c. cr_TreeID c = treeID) (td_configs db)"

definition config_Get :: "instant \<Rightarrow> uuid \<Rightarrow> topic_db \<Rightarrow> pg_error + config_record \<times> topic_db" where
  "config_Get now treeID db =
     (case find_config treeID db of Some c \<Rightarrow> Inr (c, db)
      | None \<Rightarrow>
          if \<not> has_tree (td_graph db) treeID then Inl (ForeignKeyViolation ''fk_detection_config_tree'')
          else Inr (default_config now treeID, db\<lparr>td_configs := td_configs db @ [default_config now treeID]\<rparr>))"

definition config_checks :: "config_record \<Rightarrow> bool" where
  "config_checks c \<longleftrightarrow> cr_DetectionLevel c \<in> set [''off'', ''explicit_only'', ''full'']
     \<and> 1 \<le> cr_MinMessagesPerTopic c \<and> 0 \<le> cr_ProposalCooldown c"

definition edit_config :: "uuid \<Rightarrow> (config_record \<Rightarrow> config_record) \<Rightarrow> topic_db \<Rightarrow> topic_db" where
  "edit_config treeID f db = db\<lparr>td_configs := map (\<lambda>c. if cr_TreeID c = treeID then f c else c) (td_configs db)\<rparr>"

text \<open>An upsert keeps the tracking columns of an existing row.\<close>

definition config_Upsert :: "instant \<Rightarrow> uuid \<Rightarrow> detection_config \<Rightarrow> topic_db \<Rightarrow> pg_error + config_record \<times> topic_db" where
  "config_Upsert now treeID cfg db =
     (let settings = (\<lambda>c. c\<lparr>cr_AutoCreate := dc_AutoCreate cfg, cr_AlwaysAsk := dc_AlwaysAsk cfg,
            cr_DetectionLevel := dc_DetectionLevel cfg, cr_MinMessagesPerTopic := dc_MinMessagesPerTopic cfg,
            cr_ProposalCooldown := dc_ProposalCooldown cfg, cr_UpdatedAt := now\<rparr>);
          fresh = settings (default_config now treeID)
      in if \<not> config_checks fresh then Inl CheckViolation
         else case find_config treeID db of Some c \<Rightarrow> Inr (settings c, edit_config treeID settings db)
         | None \<Rightarrow>
             if \<not> has_tree (td_graph db) treeID then Inl (ForeignKeyViolation ''fk_detection_config_tree'')
             else Inr (fresh, db\<lparr>td_configs := td_configs db @ [fresh]\<rparr>))"

definition config_UpdateProposalTracking :: "instant \<Rightarrow> uuid \<Rightarrow> int \<Rightarrow> int \<Rightarrow> topic_db \<Rightarrow> topic_db" where
  "config_UpdateProposalTracking now treeID lastProposalSeq messagesSince =
     edit_config treeID (\<lambda>c. c\<lparr>cr_LastProposalSeq := lastProposalSeq, cr_MessagesSinceProposal := messagesSince, cr_UpdatedAt := now\<rparr>)"

definition same_subject :: "uuid \<Rightarrow> string \<Rightarrow> subject_cooldown \<Rightarrow> bool" where
  "same_subject treeID key c \<longleftrightarrow> scd_TreeID c = treeID \<and> scd_SubjectKey c = key"

definition cooldown_Add :: "instant \<Rightarrow> uuid \<Rightarrow> string \<Rightarrow> instant \<Rightarrow> topic_db \<Rightarrow> pg_error + topic_db" where
  "cooldown_Add now treeID key until db =
     (if list_ex (same_subject treeID key) (td_cooldowns db)
      then Inr (db\<lparr>td_cooldowns := map (\<lambda>c. if same_subject treeID key c then c\<lparr>scd_CooldownUntil := until, scd_CreatedAt := now\<rparr> else c)
                                    (td_cooldowns db)\<rparr>)
      else if \<not> has_tree (td_graph db) treeID then Inl (ForeignKeyViolation ''fk_cooldown_tree'')
      else Inr (db\<lparr>td_cooldowns := td_cooldowns db @
                   [\<lparr>scd_TreeID = treeID, scd_SubjectKey = key, scd_CooldownUntil = until, scd_CreatedAt = now\<rparr>]\<rparr>))"

definition cooldown_IsActive :: "instant \<Rightarrow> uuid \<Rightarrow> string \<Rightarrow> topic_db \<Rightarrow> bool" where
  "cooldown_IsActive now treeID key db \<longleftrightarrow>
     list_ex (\<lambda>c. same_subject treeID key c \<and> now < scd_CooldownUntil c) (td_cooldowns db)"

definition cooldown_CleanExpired :: "instant \<Rightarrow> topic_db \<Rightarrow> int \<times> topic_db" where
  "cooldown_CleanExpired now db =
     (let gone = filter (\<lambda>c. scd_CooldownUntil c \<le> now) (td_cooldowns db)
      in (int (length gone), db\<lparr>td_cooldowns := filter (\<lambda>c. \<not> scd_CooldownUntil c \<le> now) (td_cooldowns db)\<rparr>))"

section \<open>The content index\<close>

text \<open>
  \<open>refresh_topic_node_content_index\<close>: a row per topic and node, inserted or updated. A statement
  that would touch a row twice fails. The plain text of a content is a parameter.
\<close>

definition put_content :: "content_row \<Rightarrow> content_row list \<Rightarrow> content_row list" where
  "put_content c cs =
     (if list_ex (\<lambda>d. cir_TopicID d = cir_TopicID c \<and> cir_NodeID d = cir_NodeID c) cs
      then map (\<lambda>d. if cir_TopicID d = cir_TopicID c \<and> cir_NodeID d = cir_NodeID c then c else d) cs
      else cs @ [c])"

definition content_rows :: "(string \<Rightarrow> string) \<Rightarrow> instant \<Rightarrow> topic \<Rightarrow> uuid list \<Rightarrow> node list \<Rightarrow> content_row list" where
  "content_rows plain now t nodeIDs ns =
     map (\<lambda>n. \<lparr>cir_TopicID = t_ID t, cir_NodeID = n_ID n, cir_TreeID = n_TreeID n, cir_ContentText = plain (n_Content n), cir_UpdatedAt = now\<rparr>)
       (filter (\<lambda>n. n_ID n \<in> set nodeIDs) ns)"

definition RefreshNodeContentIndex ::
    "(string \<Rightarrow> string) \<Rightarrow> instant \<Rightarrow> uuid \<Rightarrow> uuid list \<Rightarrow> topic_db \<Rightarrow> (int \<times> topic_db) option" where
  "RefreshNodeContentIndex plain now topicID nodeIDs db =
     (case find (\<lambda>t. t_ID t = topicID) (td_topics db) of None \<Rightarrow> Some (0, db)
      | Some t \<Rightarrow>
          (case topic_member_nodes (td_graph db) t of None \<Rightarrow> None
           | Some ns \<Rightarrow>
               (let rows = content_rows plain now t nodeIDs ns
                in if \<not> distinct (map cir_NodeID rows) then None
                   else Some (int (length rows), db\<lparr>td_content := fold put_content rows (td_content db)\<rparr>))))"

text \<open>\<open>GetTopicNodes\<close>: a page of the scope in sequence order, the size of the scope, and whether it is larger.\<close>

definition GetTopicNodes :: "uuid \<Rightarrow> int \<Rightarrow> topic_db \<Rightarrow> (node list \<times> int \<times> bool) option" where
  "GetTopicNodes topicID maxNodes0 db =
     (let maxNodes = (if maxNodes0 \<le> 0 then 500 else maxNodes0)
      in case find (\<lambda>t. t_ID t = topicID) (td_topics db) of None \<Rightarrow> Some ([], 0, False)
         | Some t \<Rightarrow>
             map_option (\<lambda>ns. (take (nat maxNodes) (sort_stable seq_before ns), int (length ns), maxNodes < int (length ns)))
               (topic_member_nodes (td_graph db) t))"

definition GetTopicNodeIDs :: "uuid \<Rightarrow> topic_db \<Rightarrow> uuid list option" where
  "GetTopicNodeIDs topicID db = map_option (\<lambda>(ns, _, _). map n_ID ns) (GetTopicNodes topicID 1000000 db)"

end
