(* ===== verification/Topic_Service.thy ===== *)
theory Topic_Service
  imports Topic_Store Event_Stream
begin

text \<open>
  The topic service (\<open>internal/service/topic_service_impl.go\<close>) and what the effects of the node
  service make of it (\<open>runTopicDetection\<close>, \<open>runTopicContentRefresh\<close>). A call returns its result and the
  state, also when it fails: several statements of a call are separate transactions. The lock of
  \<open>ConfirmProposal\<close> makes it one step. The stream of events is optional, as are the detection
  and the content index.
\<close>

section \<open>State and errors\<close>

record topic_state =
  ts_db :: topic_db
  ts_hub :: "sse_hub option"

record topic_env =
  te_lib :: topic_lib
  te_detection :: bool
  te_index :: bool

definition proposalExpiryMessages :: int where [simp]: "proposalExpiryMessages = 5"
definition proposalExpiryDuration :: duration where [simp]: "proposalExpiryDuration = 24 * 3600 * 1000000000"
definition subjectCooldownDuration :: duration where [simp]: "subjectCooldownDuration = 3600 * 1000000000"

record topic_summary =
  tsm_ID :: uuid
  tsm_TreeID :: uuid
  tsm_RootNodeID :: uuid
  tsm_Title :: string
  tsm_Slug :: string
  tsm_Description :: string
  tsm_Status :: string
  tsm_NodeCount :: int
  tsm_CreatedAt :: instant

definition topicToSummary :: "topic \<Rightarrow> topic_summary" where
  "topicToSummary t =
     \<lparr>tsm_ID = t_ID t, tsm_TreeID = t_TreeID t, tsm_RootNodeID = t_RootNodeID t, tsm_Title = t_Title t, tsm_Slug = t_Slug t,
      tsm_Description = t_Description t, tsm_Status = t_Status t, tsm_NodeCount = t_NodeCount t, tsm_CreatedAt = t_CreatedAt t\<rparr>"

record proposal_view =
  pv_ID :: uuid
  pv_TreeID :: uuid
  pv_RootNodeID :: uuid
  pv_Title :: string
  pv_Description :: string
  pv_DetectionType :: string
  pv_Confidence :: rat
  pv_SubjectKey :: string
  pv_Status :: string
  pv_ExpiresAt :: instant

datatype topic_error =
    TopicTreeMissing | TopicRootMissing | TopicRootElsewhere | TopicStoreError topic_db_error | TopicMissing
  | TopicBadStatus string
  | ProposalNotFound | ProposalExpired | ProposalAlreadyResolved | DetectionDisabled | ProposalDuplicate
  | ProposalRootInvalid | ProposalTitleRequired | ProposalTitleTooLong | InvalidDetectionLevel | InvalidDetectionConfig
  | DetectionStoreError pg_error | AutoConfirmFailed proposal_view topic_error

definition dbProposalToService :: "topic_proposal \<Rightarrow> proposal_view" where
  "dbProposalToService p =
     \<lparr>pv_ID = tp_ID p, pv_TreeID = tp_TreeID p, pv_RootNodeID = tp_RootNodeID p, pv_Title = tp_Title p,
      pv_Description = tp_Description p, pv_DetectionType = tp_DetectionType p, pv_Confidence = tp_Confidence p,
      pv_SubjectKey = tp_SubjectKey p, pv_Status = tp_Status p, pv_ExpiresAt = tp_ExpiresAt p\<rparr>"

definition configRecordToConfig :: "config_record \<Rightarrow> detection_config" where
  "configRecordToConfig c =
     \<lparr>dc_AutoCreate = cr_AutoCreate c, dc_AlwaysAsk = cr_AlwaysAsk c, dc_DetectionLevel = cr_DetectionLevel c,
      dc_MinMessagesPerTopic = cr_MinMessagesPerTopic c, dc_ProposalCooldown = cr_ProposalCooldown c\<rparr>"

definition generateTopicSlug :: "tree_lib \<Rightarrow> string \<Rightarrow> string" where
  "generateTopicSlug lib title = replace_all '' '' ''-'' (tl_lower lib (trim_space title))"

definition update_db :: "(topic_db \<Rightarrow> topic_db) \<Rightarrow> topic_state \<Rightarrow> topic_state" where
  "update_db f s = s\<lparr>ts_db := f (ts_db s)\<rparr>"

section \<open>The content index\<close>

definition refresh_index :: "topic_lib \<Rightarrow> instant \<Rightarrow> uuid \<Rightarrow> uuid list \<Rightarrow> topic_db \<Rightarrow> topic_db" where
  "refresh_index lib now topicID nodeIDs db =
     (case RefreshNodeContentIndex (tp_plain lib) now topicID nodeIDs db of None \<Rightarrow> db | Some (_, db') \<Rightarrow> db')"

definition refreshTopicContentIndex :: "topic_env \<Rightarrow> instant \<Rightarrow> uuid \<Rightarrow> topic_db \<Rightarrow> topic_db" where
  "refreshTopicContentIndex env now topicID db =
     (if \<not> te_index env then db
      else case GetTopicNodeIDs topicID db of None \<Rightarrow> db | Some ids \<Rightarrow> refresh_index (te_lib env) now topicID ids db)"

definition RefreshNodeContentForTopics :: "topic_env \<Rightarrow> instant \<Rightarrow> uuid \<Rightarrow> topic_db \<Rightarrow> topic_db" where
  "RefreshNodeContentForTopics env now nodeID db =
     (if \<not> te_index env then db
      else fold (\<lambda>t. refresh_index (te_lib env) now (t_ID t) [nodeID]) (topic_GetTopicsForNode nodeID db) db)"

section \<open>Topics\<close>

definition svc_CreateTopic ::
    "topic_env \<Rightarrow> uuid \<Rightarrow> instant \<Rightarrow> uuid \<Rightarrow> uuid \<Rightarrow> string \<Rightarrow> string \<Rightarrow> topic_state \<Rightarrow> (topic_error + topic_summary) \<times> topic_state" where
  "svc_CreateTopic env newID now treeID rootNodeID title description s =
     (let g = td_graph (ts_db s)
      in if tree_GetByID g treeID = None then (Inl TopicTreeMissing, s)
         else case node_GetByID g rootNodeID of None \<Rightarrow> (Inl TopicRootMissing, s)
         | Some n \<Rightarrow>
             if n_TreeID n \<noteq> treeID then (Inl TopicRootElsewhere, s)
             else (case topic_Create (te_lib env) newID now
                     \<lparr>tci_TreeID = treeID, tci_RootNodeID = rootNodeID, tci_Title = title, tci_Description = description,
                      tci_ParentTopicID = None, tci_TopicTags = []\<rparr> (ts_db s) of
                     Inl e \<Rightarrow> (Inl (TopicStoreError e), s)
                   | Inr (t, db1) \<Rightarrow>
                       (let (t', db2) = (case topic_RefreshNodeCount (t_ID t) db1 of None \<Rightarrow> (t, db1)
                              | Some (n, db2) \<Rightarrow> (t\<lparr>t_NodeCount := n\<rparr>, db2))
                        in (Inr (topicToSummary t'), s\<lparr>ts_db := refreshTopicContentIndex env now (t_ID t) db2\<rparr>))))"

definition svc_GetTopic :: "uuid \<Rightarrow> topic_state \<Rightarrow> topic_error + topic_summary" where
  "svc_GetTopic topicID s =
     (case topic_GetByID topicID (ts_db s) of None \<Rightarrow> Inl TopicMissing | Some t \<Rightarrow> Inr (topicToSummary t))"

text \<open>The bounds of the page are computed in 64 bits; nothing stands for the panic of \<open>make\<close>.\<close>

definition svc_ListTopics :: "uuid \<Rightarrow> string \<Rightarrow> int \<Rightarrow> int \<Rightarrow> topic_state \<Rightarrow> topic_summary list option" where
  "svc_ListTopics treeID status limit offset s =
     (let topics = topic_GetByTree treeID status (ts_db s); len = int (length topics)
      in if len \<le> offset then Some []
         else (let stop0 = wrap64 (offset + limit);
                   stop = (if limit \<le> 0 \<or> len < stop0 then len else stop0)
               in if offset < 0 \<or> stop < offset then None
                  else Some (map topicToSummary (take (nat (stop - offset)) (drop (nat offset) topics)))))"

definition svc_UpdateTopic ::
    "topic_env \<Rightarrow> instant \<Rightarrow> uuid \<Rightarrow> string option \<Rightarrow> string option \<Rightarrow> string option \<Rightarrow> topic_state
     \<Rightarrow> (topic_error + topic_summary) \<times> topic_state" where
  "svc_UpdateTopic env now topicID title description status s =
     (case topic_Update (te_lib env) topicID \<lparr>tui_Title = title, tui_Description = description, tui_TopicTags = None\<rparr> (ts_db s) of
        Inl e \<Rightarrow> (Inl (TopicStoreError e), s)
      | Inr (t, db1) \<Rightarrow>
          (let s1 = s\<lparr>ts_db := db1\<rparr>
           in case status of None \<Rightarrow> (Inr (topicToSummary t), s1)
              | Some st \<Rightarrow>
                  if st = ''active'' \<or> st = ''archived''
                  then (let s2 = update_db (if st = ''active'' then topic_Restore topicID else topic_Archive now topicID) s1
                        in (case topic_GetByID topicID (ts_db s2) of None \<Rightarrow> Inl TopicMissing | Some t2 \<Rightarrow> Inr (topicToSummary t2), s2))
                  else (Inl (TopicBadStatus st), s1)))"

definition svc_ArchiveTopic :: "instant \<Rightarrow> uuid \<Rightarrow> topic_state \<Rightarrow> topic_state" where
  "svc_ArchiveTopic now topicID = update_db (topic_Archive now topicID)"

section \<open>Events\<close>

definition topic_event :: "topic_env \<Rightarrow> instant \<Rightarrow> uuid \<Rightarrow> string \<Rightarrow> json \<Rightarrow> topic_state \<Rightarrow> topic_state" where
  "topic_event env now treeID eventType data s =
     (case ts_hub s of None \<Rightarrow> s
      | Some h \<Rightarrow> s\<lparr>ts_hub := Some (snd (sse_Broadcast (tree_lib.truncate (te_lib env)) now treeID
           (ComposeEvent now treeID uuid_Nil eventType (RawJSON data)) h))\<rparr>)"

definition broadcastTopicProposed :: "topic_env \<Rightarrow> instant \<Rightarrow> uuid \<Rightarrow> proposal_view \<Rightarrow> topic_state \<Rightarrow> topic_state" where
  "broadcastTopicProposed env now treeID p =
     (let ustr = tl_ustr (te_lib env)
      in topic_event env now treeID ''topic_proposed''
           (JObj [(''confidence'', JNum (pv_Confidence p)), (''detectionType'', JStr (pv_DetectionType p)),
                  (''proposalId'', JStr (ustr (pv_ID p))), (''rootNodeId'', JStr (ustr (pv_RootNodeID p))),
                  (''title'', JStr (pv_Title p)), (''treeId'', JStr (ustr treeID))]))"

definition broadcastTopicCreated :: "topic_env \<Rightarrow> instant \<Rightarrow> uuid \<Rightarrow> uuid \<Rightarrow> topic \<Rightarrow> topic_state \<Rightarrow> topic_state" where
  "broadcastTopicCreated env now treeID proposalID t =
     (let ustr = tl_ustr (te_lib env)
      in topic_event env now treeID ''topic_created''
           (JObj [(''proposalId'', JStr (ustr proposalID)),
                  (''topic'', JObj [(''id'', JStr (ustr (t_ID t))), (''slug'', JStr (t_Slug t)), (''title'', JStr (t_Title t))])]))"

section \<open>Proposals\<close>

definition resolve_proposal :: "uuid \<Rightarrow> string \<Rightarrow> instant \<Rightarrow> topic_state \<Rightarrow> topic_state" where
  "resolve_proposal i status now = update_db (proposal_UpdateStatus i status (Some now))"

text \<open>What \<open>ConfirmProposal\<close> checks of a pending proposal: the title of the topic, or the error.\<close>

definition confirm_checks :: "topic_env \<Rightarrow> topic_db \<Rightarrow> topic_proposal \<Rightarrow> string \<Rightarrow> topic_error + string" where
  "confirm_checks env db p titleOverride =
     (let title = (if titleOverride \<noteq> [] then titleOverride else tp_Title p)
      in if title = [] then Inl ProposalTitleRequired
         else if 200 < rune_count title then Inl ProposalTitleTooLong
         else if (case node_GetByID (td_graph db) (tp_RootNodeID p) of None \<Rightarrow> True | Some n \<Rightarrow> n_TreeID n \<noteq> tp_TreeID p)
         then Inl ProposalRootInvalid
         else if (case topic_GetBySlug (tp_TreeID p) (generateTopicSlug (tree_lib.truncate (te_lib env)) title) db of
                    None \<Rightarrow> False | Some t \<Rightarrow> t_ID t \<noteq> uuid_Nil)
         then Inl ProposalDuplicate
         else Inr title)"

definition proposal_input :: "topic_proposal \<Rightarrow> string \<Rightarrow> topic_create_input" where
  "proposal_input p title = \<lparr>tci_TreeID = tp_TreeID p, tci_RootNodeID = tp_RootNodeID p, tci_Title = title, tci_Description = [],
     tci_ParentTopicID = None, tci_TopicTags = []\<rparr>"

definition confirm_pending ::
    "topic_env \<Rightarrow> uuid \<Rightarrow> instant \<Rightarrow> topic_proposal \<Rightarrow> string \<Rightarrow> topic_state \<Rightarrow> (topic_error + topic) \<times> topic_state" where
  "confirm_pending env newID now p titleOverride s =
     (if tp_ExpiresAt p < now then (Inl ProposalExpired, resolve_proposal (tp_ID p) ''expired'' now s)
      else case confirm_checks env (ts_db s) p titleOverride of Inl e \<Rightarrow> (Inl e, s)
      | Inr title \<Rightarrow>
          (case topic_Create (te_lib env) newID now (proposal_input p title) (ts_db s) of
             Inl _ \<Rightarrow> (Inl ProposalDuplicate, s)
           | Inr (t, db1) \<Rightarrow>
               (Inr t, resolve_proposal (tp_ID p) ''confirmed'' now (s\<lparr>ts_db := refreshTopicContentIndex env now (t_ID t) db1\<rparr>))))"

definition svc_ConfirmProposal ::
    "topic_env \<Rightarrow> uuid \<Rightarrow> instant \<Rightarrow> uuid \<Rightarrow> string \<Rightarrow> topic_state \<Rightarrow> (topic_error + topic) \<times> topic_state" where
  "svc_ConfirmProposal env newID now proposalID titleOverride s =
     (case proposal_GetByID proposalID (ts_db s) of None \<Rightarrow> (Inl ProposalNotFound, s)
      | Some p \<Rightarrow>
          if tp_Status p = ''confirmed''
          then (case topic_GetByRootNode (tp_RootNodeID p) (ts_db s) of
                  Some t \<Rightarrow> (Inr t, s) | None \<Rightarrow> (Inl ProposalAlreadyResolved, s))
          else if tp_Status p \<noteq> ''pending'' then (Inl ProposalAlreadyResolved, s)
          else confirm_pending env newID now p titleOverride s)"

text \<open>A cooldown that cannot be written is ignored.\<close>

definition svc_DismissProposal :: "topic_env \<Rightarrow> instant \<Rightarrow> uuid \<Rightarrow> topic_state \<Rightarrow> topic_error option \<times> topic_state" where
  "svc_DismissProposal env now proposalID s =
     (case proposal_GetByID proposalID (ts_db s) of None \<Rightarrow> (Some ProposalNotFound, s)
      | Some p \<Rightarrow>
          if tp_Status p \<noteq> ''pending'' then (Some ProposalAlreadyResolved, s)
          else (let db1 = (if \<not> te_detection env then ts_db s
                           else case cooldown_Add now (tp_TreeID p) (tp_SubjectKey p) (now + subjectCooldownDuration) (ts_db s) of
                                  Inl _ \<Rightarrow> ts_db s | Inr db1 \<Rightarrow> db1)
                in (None, resolve_proposal proposalID ''dismissed'' now (s\<lparr>ts_db := db1\<rparr>))))"

definition sweepExpired :: "instant \<Rightarrow> uuid \<Rightarrow> topic_db \<Rightarrow> topic_db" where
  "sweepExpired now treeID db =
     (let db1 = fold (\<lambda>p d. if tp_ExpiresAt p < now then proposal_UpdateStatus (tp_ID p) ''expired'' (Some now) d else d)
                  (proposal_ListPending treeID db) db;
          nodes = node_GetByTree (td_graph db1) treeID
      in if nodes = [] then db1
         else (let threshold = n_SequenceNum (last nodes) - proposalExpiryMessages
               in if 0 < threshold then proposal_ExpirePending now treeID threshold db1 else db1))"

definition svc_ListPendingProposals :: "topic_env \<Rightarrow> instant \<Rightarrow> uuid \<Rightarrow> topic_state \<Rightarrow> topic_proposal list \<times> topic_state" where
  "svc_ListPendingProposals env now treeID s =
     (if \<not> te_detection env then ([], s)
      else (let s1 = update_db (sweepExpired now treeID) s in (proposal_ListPending treeID (ts_db s1), s1)))"

section \<open>Detection\<close>

definition detectImplicitWithWindow :: "topic_lib \<Rightarrow> analyzer \<Rightarrow> node \<Rightarrow> node list \<Rightarrow> detection_config \<Rightarrow> signal option" where
  "detectImplicitWithWindow lib analyze n contextNodes cfg =
     (let current = n # take 4 contextNodes; prev = take 10 (drop (length current - 1) contextNodes)
      in DetectImplicit lib analyze current prev cfg)"

definition detect_signals :: "topic_lib \<Rightarrow> graph_db \<Rightarrow> detection_config \<Rightarrow> node \<Rightarrow> node list \<Rightarrow> signal list" where
  "detect_signals lib g cfg n contextNodes =
     (let tl = tree_lib.truncate lib; opt = (\<lambda>x. case x of None \<Rightarrow> [] | Some s \<Rightarrow> [s])
      in opt (DetectExplicit tl n)
         @ (if dc_DetectionLevel cfg = ''full''
            then opt (detectImplicitWithWindow lib (KeywordAnalyzer_Analyze tl) n contextNodes cfg) @ opt (DetectStructural tl g n)
            else []))"

definition or_new_topic :: "string \<Rightarrow> string \<Rightarrow> string" where
  "or_new_topic title key = (if title \<noteq> [] then title else if key \<noteq> [] then key else ''New Topic'')"

definition generateProposal ::
    "uuid \<Rightarrow> instant \<Rightarrow> node \<Rightarrow> node list \<Rightarrow> signal \<Rightarrow> topic_db \<Rightarrow> pg_error + proposal_view \<times> topic_db" where
  "generateProposal newID now n contextNodes sig db =
     (let rootNode = (if sg_RootNodeID sig = n_ID n then n
                      else case node_GetByID (td_graph db) (sg_RootNodeID sig) of None \<Rightarrow> n | Some m \<Rightarrow> m);
          p = \<lparr>tp_ID = newID, tp_TreeID = n_TreeID n, tp_RootNodeID = sg_RootNodeID sig,
               tp_Title = or_new_topic (GenerateTitle rootNode contextNodes 3) (sg_SubjectKey sig), tp_Description = [],
               tp_DetectionType = detection_text (sg_Type sig), tp_Confidence = sg_Confidence sig,
               tp_SubjectKey = sg_SubjectKey sig, tp_Status = ''pending'', tp_ExpiresAt = now + proposalExpiryDuration,
               tp_CreatedAt = now, tp_ResolvedAt = None, tp_Evidence = JArr (map JStr (sg_Evidence sig))\<rparr>
      in case proposal_Create p db of Inl e \<Rightarrow> Inl e | Inr (q, db') \<Rightarrow> Inr (dbProposalToService q, db'))"

text \<open>The limits of the frequency of proposals, by the counter that the last proposal left.\<close>

definition spacing_blocks :: "config_record \<Rightarrow> bool" where
  "spacing_blocks c \<longleftrightarrow> cr_MessagesSinceProposal c < max 3 (cr_MinMessagesPerTopic c) \<and> 0 < cr_MessagesSinceProposal c"

definition cooldown_blocks :: "config_record \<Rightarrow> signal \<Rightarrow> bool" where
  "cooldown_blocks c sig \<longleftrightarrow> sg_Type sig \<noteq> DetectionExplicit
     \<and> 0 < cr_MessagesSinceProposal c \<and> cr_MessagesSinceProposal c < max 10 (cr_ProposalCooldown c)"

definition messages_since :: "config_record \<Rightarrow> node \<Rightarrow> int" where
  "messages_since c n = (if 0 < cr_LastProposalSeq c then max 0 (n_SequenceNum n - cr_LastProposalSeq c) else 0)"

text \<open>The signal that leads to a proposal, if any.\<close>

definition detection_candidate ::
    "topic_env \<Rightarrow> instant \<Rightarrow> config_record \<Rightarrow> node \<Rightarrow> node list \<Rightarrow> topic_db \<Rightarrow> signal option" where
  "detection_candidate env now c n contextNodes db =
     (let cfg = configRecordToConfig c
      in if dc_DetectionLevel cfg = ''off'' \<or> spacing_blocks c then None
         else case HighestConfidenceSignal (detect_signals (te_lib env) (td_graph db) cfg n contextNodes) of None \<Rightarrow> None
         | Some sig \<Rightarrow>
             if cooldown_blocks c sig \<or> topic_GetByRootNode (sg_RootNodeID sig) db \<noteq> None
                \<or> cooldown_IsActive now (n_TreeID n) (sg_SubjectKey sig) db
             then None else Some sig)"

text \<open>The identifiers of the proposal and of the topic that \<open>auto_create\<close> makes of it.\<close>

definition svc_AutoDetect ::
    "topic_env \<Rightarrow> uuid \<times> uuid \<Rightarrow> instant \<Rightarrow> node \<Rightarrow> node list \<Rightarrow> topic_state
     \<Rightarrow> (topic_error + proposal_view option) \<times> topic_state" where
  "svc_AutoDetect env newIDs now n contextNodes s =
     (if \<not> te_detection env then (Inr None, s)
      else case config_Get now (n_TreeID n) (ts_db s) of Inl e \<Rightarrow> (Inl (DetectionStoreError e), s)
      | Inr (c, db1) \<Rightarrow>
          (let s1 = s\<lparr>ts_db := db1\<rparr>
           in case detection_candidate env now c n contextNodes db1 of None \<Rightarrow> (Inr None, s1)
              | Some sig \<Rightarrow>
                  (case generateProposal (fst newIDs) now n contextNodes sig db1 of Inl e \<Rightarrow> (Inl (DetectionStoreError e), s1)
                   | Inr (p, db2) \<Rightarrow>
                       (let s2 = s\<lparr>ts_db := db2\<rparr>
                        in if cr_AutoCreate c \<and> \<not> cr_AlwaysAsk c
                           then (case svc_ConfirmProposal env (snd newIDs) now (pv_ID p) (pv_Title p) s2 of
                                   (Inl e, s3) \<Rightarrow> (Inl (AutoConfirmFailed p e), s3)
                                 | (Inr t, s3) \<Rightarrow> (Inr (Some p), broadcastTopicCreated env now (n_TreeID n) (pv_ID p) t s3))
                           else (Inr (Some p),
                                 update_db (config_UpdateProposalTracking now (n_TreeID n) (n_SequenceNum n) (messages_since c n))
                                   (broadcastTopicProposed env now (n_TreeID n) p s2))))))"

text \<open>
  What follows the commit of a call of the node service: its event, the refresh of the index and
  the detection with the messages before the node. The errors are logged only.
\<close>

definition run_effect :: "topic_env \<Rightarrow> uuid \<times> uuid \<Rightarrow> instant \<Rightarrow> effect \<Rightarrow> topic_state \<Rightarrow> topic_state" where
  "run_effect env newIDs now eff s =
     (case eff of
        Broadcast treeID eventType actor data \<Rightarrow>
          s\<lparr>ts_hub := map_option (\<lambda>h. snd (sse_Broadcast (tree_lib.truncate (te_lib env)) now treeID
              (ComposeEvent now treeID actor eventType (RawJSON data)) h)) (ts_hub s)\<rparr>
      | RefreshTopics i \<Rightarrow> update_db (RefreshNodeContentForTopics env now i) s
      | DetectTopics n contextNodes \<Rightarrow> snd (svc_AutoDetect env newIDs now n contextNodes s))"

section \<open>Configuration\<close>

definition svc_GetDetectionConfig :: "topic_env \<Rightarrow> instant \<Rightarrow> uuid \<Rightarrow> topic_state \<Rightarrow> (topic_error + detection_config) \<times> topic_state" where
  "svc_GetDetectionConfig env now treeID s =
     (if \<not> te_detection env then (Inr DefaultDetectionConfig, s)
      else case config_Get now treeID (ts_db s) of Inl e \<Rightarrow> (Inl (DetectionStoreError e), s)
      | Inr (c, db') \<Rightarrow> (Inr (configRecordToConfig c), s\<lparr>ts_db := db'\<rparr>))"

definition svc_UpdateDetectionConfig ::
    "topic_env \<Rightarrow> instant \<Rightarrow> uuid \<Rightarrow> detection_config \<Rightarrow> topic_state \<Rightarrow> (topic_error + detection_config) \<times> topic_state" where
  "svc_UpdateDetectionConfig env now treeID cfg s =
     (if \<not> te_detection env then (Inl DetectionDisabled, s)
      else if dc_DetectionLevel cfg \<notin> set [''off'', ''explicit_only'', ''full''] then (Inl InvalidDetectionLevel, s)
      else if dc_MinMessagesPerTopic cfg < 1 \<or> dc_ProposalCooldown cfg < 0 then (Inl InvalidDetectionConfig, s)
      else case config_Upsert now treeID cfg (ts_db s) of Inl e \<Rightarrow> (Inl (DetectionStoreError e), s)
      | Inr (c, db') \<Rightarrow> (Inr (configRecordToConfig c), s\<lparr>ts_db := db'\<rparr>))"

text \<open>The context of a preview runs from the oldest of the ten messages to the newest.\<close>

definition preview_context :: "graph_db \<Rightarrow> uuid \<Rightarrow> uuid \<Rightarrow> node list" where
  "preview_context g treeID nodeID =
     (let all_nodes = node_GetByTree g treeID
      in rev (take 10 (drop 1 (dropWhile (\<lambda>m. n_ID m \<noteq> nodeID) (rev all_nodes)))))"

definition svc_PreviewProposal ::
    "topic_env \<Rightarrow> instant \<Rightarrow> uuid \<Rightarrow> uuid \<Rightarrow> topic_state \<Rightarrow> (topic_error + proposal_view option) \<times> topic_state" where
  "svc_PreviewProposal env now treeID nodeID s =
     (if \<not> te_detection env then (Inl DetectionDisabled, s)
      else case node_GetByID (td_graph (ts_db s)) nodeID of None \<Rightarrow> (Inl ProposalRootInvalid, s)
      | Some n \<Rightarrow>
          if n_TreeID n \<noteq> treeID then (Inl ProposalRootInvalid, s)
          else (case svc_GetDetectionConfig env now treeID s of (Inl e, s1) \<Rightarrow> (Inl e, s1)
            | (Inr cfg, s1) \<Rightarrow>
                (if dc_DetectionLevel cfg = ''off'' then Inr None
                 else let g = td_graph (ts_db s1); contextNodes = preview_context g treeID nodeID
                      in case HighestConfidenceSignal (detect_signals (te_lib env) g cfg n contextNodes) of None \<Rightarrow> Inr None
                         | Some sig \<Rightarrow> Inr (Some
                             \<lparr>pv_ID = uuid_Nil, pv_TreeID = treeID, pv_RootNodeID = sg_RootNodeID sig,
                              pv_Title = or_new_topic (GenerateTitle n contextNodes 3) (sg_SubjectKey sig), pv_Description = [],
                              pv_DetectionType = detection_text (sg_Type sig), pv_Confidence = sg_Confidence sig,
                              pv_SubjectKey = sg_SubjectKey sig, pv_Status = ''pending'',
                              pv_ExpiresAt = now + proposalExpiryDuration\<rparr>), s1)))"

end
