(* ===== verification/Topic_Scope.thy ===== *)
theory Topic_Scope
  imports Topic_Store Graph_History
begin

text \<open>
  The members of a topic on the graphs that the services build. \<open>forest_query\<close> is the contract
  under which a recursive query without a depth guard ends and finds each row once: every step
  leads to rows of a higher rank, and a row is found from one other row only. The replies and
  forks of a conversation tree keep it.
\<close>

section \<open>Queries over a forest\<close>

lemma scope_levels_Nil [simp]: "scope_levels step [] = Some []"
  by (simp add: scope_levels.simps)

lemma scope_levels_step:
  "level \<noteq> [] \<Longrightarrow> scope_levels step level = map_option (\<lambda>r. level @ r) (scope_levels step (concat (map step level)))"
  by (subst scope_levels.simps) (simp add: map_conv_bind_option comp_def)

lemma distinct_concat_map:
  assumes "distinct xs" "\<And>x. x \<in> set xs \<Longrightarrow> distinct (f x)"
    "\<And>x y z. x \<in> set xs \<Longrightarrow> y \<in> set xs \<Longrightarrow> z \<in> set (f x) \<Longrightarrow> z \<in> set (f y) \<Longrightarrow> x = y"
  shows "distinct (concat (map f xs))"
  using assms
proof (induction xs)
  case (Cons x xs)
  then have "distinct (concat (map f xs))" by simp
  moreover have "set (f x) \<inter> set (concat (map f xs)) = {}"
  proof (rule equals0I)
    fix z assume "z \<in> set (f x) \<inter> set (concat (map f xs))"
    then obtain y where "y \<in> set xs" "z \<in> set (f x)" "z \<in> set (f y)" by auto
    with Cons.prems(1,3) show False by (metis distinct.simps(2) list.set_intros)
  qed
  ultimately show ?case using Cons.prems(2) by simp
qed simp

locale forest_query =
  fixes step :: "'s \<Rightarrow> 'a \<Rightarrow> 'a list" and inv :: "'s \<Rightarrow> bool" and rows :: "'s \<Rightarrow> 'a list" and rank :: "'a \<Rightarrow> int"
  assumes step_row: "inv s \<Longrightarrow> x \<in> set (rows s) \<Longrightarrow> y \<in> set (step s x) \<Longrightarrow> y \<in> set (rows s) \<and> rank x < rank y"
    and step_parent: "inv s \<Longrightarrow> x \<in> set (rows s) \<Longrightarrow> x' \<in> set (rows s) \<Longrightarrow> y \<in> set (step s x) \<Longrightarrow> y \<in> set (step s x') \<Longrightarrow> x = x'"
    and step_distinct: "inv s \<Longrightarrow> x \<in> set (rows s) \<Longrightarrow> distinct (step s x)"
begin

definition leads :: "'s \<Rightarrow> 'a \<Rightarrow> 'a \<Rightarrow> bool" where
  "leads s x y \<longleftrightarrow> y \<in> set (step s x)"

lemma leads_run: "(leads s)\<^sup>*\<^sup>* x y \<Longrightarrow> inv s \<Longrightarrow> x \<in> set (rows s) \<Longrightarrow> y \<in> set (rows s) \<and> rank x \<le> rank y"
  by (induction rule: rtranclp_induct) (auto simp: leads_def dest: step_row)

lemma leads_up:
  assumes "(leads s)\<^sup>+\<^sup>+ x y" "inv s" "x \<in> set (rows s)"
  shows "rank x < rank y"
proof -
  obtain w where w: "(leads s)\<^sup>*\<^sup>* x w" "leads s w y" using assms(1) by (metis tranclp.cases tranclp_into_rtranclp rtranclp.rtrancl_refl)
  from leads_run [OF w(1) assms(2,3)] have "w \<in> set (rows s)" "rank x \<le> rank w" by simp_all
  moreover from step_row [OF assms(2) this(1)] w(2) have "rank w < rank y" by (simp add: leads_def)
  ultimately show ?thesis by simp
qed

text \<open>A level no row of which leads to another.\<close>

definition antichain :: "'s \<Rightarrow> 'a list \<Rightarrow> bool" where
  "antichain s level \<longleftrightarrow> distinct level \<and> set level \<subseteq> set (rows s) \<and> (\<forall>x \<in> set level. \<forall>y \<in> set level. \<not> (leads s)\<^sup>+\<^sup>+ x y)"

lemma next_antichain:
  assumes "inv s" "antichain s level"
  shows "antichain s (concat (map (step s) level))"
proof -
  have lev: "distinct level" "\<And>x. x \<in> set level \<Longrightarrow> x \<in> set (rows s)"
    "\<And>x y. x \<in> set level \<Longrightarrow> y \<in> set level \<Longrightarrow> \<not> (leads s)\<^sup>+\<^sup>+ x y"
    using assms(2) by (auto simp: antichain_def)
  have "distinct (concat (map (step s) level))"
    using lev step_distinct [OF assms(1)] step_parent [OF assms(1)] by (intro distinct_concat_map) blast+
  moreover have "set (concat (map (step s) level)) \<subseteq> set (rows s)"
    using lev(2) step_row [OF assms(1)] by auto
  moreover have "\<not> (leads s)\<^sup>+\<^sup>+ u v" if uv: "u \<in> set (concat (map (step s) level))" "v \<in> set (concat (map (step s) level))" for u v
  proof
    assume run: "(leads s)\<^sup>+\<^sup>+ u v"
    obtain p q where p: "p \<in> set level" "leads s p u" and q: "q \<in> set level" "leads s q v"
      using uv by (auto simp: leads_def)
    from run obtain w where w: "(leads s)\<^sup>*\<^sup>* u w" "leads s w v" by (metis tranclp.cases tranclp_into_rtranclp rtranclp.rtrancl_refl)
    have u: "u \<in> set (rows s)" using step_row [OF assms(1) lev(2) [OF p(1)]] p(2) by (simp add: leads_def)
    have "w \<in> set (rows s)" using leads_run [OF w(1) assms(1) u] by simp
    then have "w = q" using step_parent [OF assms(1) _ lev(2) [OF q(1)]] w(2) q(2) by (simp add: leads_def)
    then have "(leads s)\<^sup>+\<^sup>+ p q" using p(2) w(1) by (simp add: rtranclp_into_tranclp2)
    with lev(3) [OF p(1) q(1)] show False by simp
  qed
  ultimately show ?thesis by (simp add: antichain_def)
qed

lemma reach_next:
  "{y. \<exists>x \<in> set level. (leads s)\<^sup>*\<^sup>* x y} = set level \<union> {y. \<exists>x \<in> set (concat (map (step s) level)). (leads s)\<^sup>*\<^sup>* x y}"
proof (intro set_eqI iffI)
  fix y assume "y \<in> {y. \<exists>x \<in> set level. (leads s)\<^sup>*\<^sup>* x y}"
  then obtain x where x: "x \<in> set level" "(leads s)\<^sup>*\<^sup>* x y" by blast
  from x(2) show "y \<in> set level \<union> {y. \<exists>x \<in> set (concat (map (step s) level)). (leads s)\<^sup>*\<^sup>* x y}"
    by (cases rule: converse_rtranclpE) (use x(1) in \<open>auto simp: leads_def\<close>)
next
  fix y assume "y \<in> set level \<union> {y. \<exists>x \<in> set (concat (map (step s) level)). (leads s)\<^sup>*\<^sup>* x y}"
  then show "y \<in> {y. \<exists>x \<in> set level. (leads s)\<^sup>*\<^sup>* x y}"
  proof
    assume "y \<in> {y. \<exists>x \<in> set (concat (map (step s) level)). (leads s)\<^sup>*\<^sup>* x y}"
    then obtain x z where "x \<in> set level" "leads s x z" "(leads s)\<^sup>*\<^sup>* z y" by (auto simp: leads_def)
    then show ?thesis by (auto intro: converse_rtranclp_into_rtranclp)
  qed auto
qed

lemma not_reached_again:
  assumes "inv s" "antichain s level" "y \<in> set level" "x \<in> set (concat (map (step s) level))" "(leads s)\<^sup>*\<^sup>* x y"
  shows False
proof -
  obtain p where "p \<in> set level" "leads s p x" using assms(4) by (auto simp: leads_def)
  with assms(2,3,5) show False by (meson antichain_def rtranclp_into_tranclp2)
qed

lemma levels_found:
  assumes "inv s" "antichain s level" "\<forall>x \<in> set level. k \<le> rank x" "\<forall>x \<in> set (rows s). rank x < k + int b"
  shows "\<exists>r. scope_levels (step s) level = Some r \<and> distinct r \<and> set r = {y. \<exists>x \<in> set level. (leads s)\<^sup>*\<^sup>* x y}"
  using assms(2-)
proof (induction b arbitrary: k level)
  case 0
  then have "level = []" by (cases level) (auto simp: antichain_def)
  then show ?case by simp
next
  case (Suc b)
  let ?next = "concat (map (step s) level)"
  have rows: "set level \<subseteq> set (rows s)" using Suc.prems(1) by (simp add: antichain_def)
  have up: "\<forall>x \<in> set ?next. k + 1 \<le> rank x"
  proof
    fix y assume "y \<in> set ?next"
    then obtain x where x: "x \<in> set level" "y \<in> set (step s x)" by auto
    then have "rank x < rank y" using step_row [OF assms(1)] rows by blast
    with Suc.prems(2) x(1) show "k + 1 \<le> rank y" by force
  qed
  have "\<forall>x \<in> set (rows s). rank x < k + 1 + int b" using Suc.prems(3) by (simp add: add.assoc)
  from Suc.IH [OF next_antichain [OF assms(1) Suc.prems(1)] up this]
  obtain r where r: "scope_levels (step s) ?next = Some r" "distinct r" "set r = {y. \<exists>x \<in> set ?next. (leads s)\<^sup>*\<^sup>* x y}" by blast
  show ?case
  proof (cases "level = []")
    case False
    have "set level \<inter> set r = {}" using not_reached_again [OF assms(1) Suc.prems(1)] r(3) by blast
    with r Suc.prems(1) False show ?thesis
      unfolding reach_next [of level] by (simp add: scope_levels_step antichain_def)
  qed simp
qed

lemma query_found:
  assumes "inv s" "x \<in> set (rows s)"
  shows "\<exists>r. scope_levels (step s) [x] = Some r \<and> distinct r \<and> set r = {y. (leads s)\<^sup>*\<^sup>* x y}"
proof -
  have "antichain s [x]" using assms leads_up [of s x x] by (auto simp: antichain_def)
  moreover have "\<exists>b. \<forall>y \<in> set (rows s). rank y < rank x + int b"
  proof (intro exI ballI)
    fix y assume "y \<in> set (rows s)"
    then have "rank y \<le> Max (rank ` set (rows s))" by simp
    then show "rank y < rank x + int (nat (1 + Max (rank ` set (rows s)) - rank x))" by simp
  qed
  ultimately show ?thesis using levels_found [OF assms(1), of "[x]" "rank x"] by auto
qed

end

section \<open>Replies and forks\<close>

lemma distinct_by_key:
  assumes "\<And>k. length (filter (\<lambda>x. f x = k) xs) \<le> Suc 0"
  shows "distinct (map f xs)"
  using assms
proof (induction xs)
  case (Cons x xs)
  have "length (filter (\<lambda>y. f y = k) xs) \<le> Suc 0" for k
    using Cons.prems [of k] by (simp split: if_splits)
  moreover have "filter (\<lambda>y. f y = f x) xs = []" using Cons.prems [of "f x"] by simp
  ultimately show ?case using Cons.IH by (auto simp: filter_empty_conv)
qed simp

lemma scope_edges_into:
  assumes ok: "graph_ok db"
  shows "length (filter (\<lambda>e. e_TargetID e = i) (scope_edges db)) \<le> Suc 0"
proof -
  let ?into = "incoming db i" and ?line = "\<lambda>e. e_EdgeType e = ''reply'' \<or> e_EdgeType e = ''fork''"
  have eq: "filter (\<lambda>e. e_TargetID e = i) (scope_edges db) = filter ?line ?into"
    by (auto simp: scope_edges_def incoming_def conj_ac intro: filter_cong)
  show ?thesis
  proof (cases "?into = []")
    case False
    then obtain e where e: "e \<in> set ?into" by (cases ?into) auto
    then have "arc_ok (skeleton db) (arc_of e)" "e_TargetID e = i"
      using ok skel_okD(5) by (auto simp: graph_ok_def incoming_def)
    then obtain v where "v \<in> set (sk_vertices (skeleton db))" "v_ID v = i" by (metis arc_ok_ends arc_of_simps(2))
    then obtain n where n: "n \<in> set (g_nodes db)" "n_ID n = i" by auto
    from graph_ok_vertex(1) [OF ok n(1)] n(2) have p: "parents_ok (vertex_of n) (map arc_of ?into)" by simp
    have "length (filter ?line ?into) \<le> Suc 0"
    proof -
      consider "reference_parents (vertex_of n) (map arc_of ?into)" | "synthesis_parents (vertex_of n) (map arc_of ?into)"
        | "lineage_parents (vertex_of n) (map arc_of ?into)"
        using p by (auto simp: parents_ok_def split: if_splits)
      then show ?thesis
      proof cases
        case 1
        then have "filter ?line ?into = []" by (auto simp: reference_parents_def filter_empty_conv)
        then show ?thesis by simp
      next
        case 2
        then obtain a es where "?into = a # es" "\<forall>s \<in> set es. e_EdgeType s = ''synthesis''"
          by (cases ?into) (auto simp: synthesis_parents_def)
        then show ?thesis by (simp add: filter_False)
      next
        case 3
        then have "length ?into \<le> Suc 0" by (auto simp: lineage_parents_def split: option.splits list.splits)
        then show ?thesis using length_filter_le order_trans by blast
      qed
    qed
    then show ?thesis by (simp add: eq)
  qed (simp add: eq)
qed

lemma scope_children_mem:
  "m \<in> set (scope_children db n) \<longleftrightarrow>
     m \<in> set (g_nodes db) \<and> n_active m \<and> (\<exists>e \<in> set (scope_edges db). e_SourceID e = n_ID n \<and> e_TargetID e = n_ID m)"
  by (auto simp: scope_children_def)

lemma scope_edge_unique:
  assumes "graph_ok db" "e \<in> set (scope_edges db)" "e' \<in> set (scope_edges db)" "e_TargetID e = e_TargetID e'"
  shows "e = e'"
  using distinct_by_key [of e_TargetID "scope_edges db", OF scope_edges_into [OF assms(1)]] assms(2-) by (auto simp: distinct_map inj_on_def)

lemma scope_step:
  assumes ok: "graph_ok db" and n: "n \<in> set (g_nodes db)" and m: "m \<in> set (scope_children db n)"
  shows "m \<in> set (g_nodes db) \<and> n_SequenceNum n < n_SequenceNum m"
proof -
  obtain e where e: "e \<in> set (g_edges db)" "e_SourceID e = n_ID n" "e_TargetID e = n_ID m"
    using m by (auto simp: scope_children_mem scope_edges_def)
  have sk: "skel_ok (skeleton db)" using ok by (simp add: graph_ok_def)
  have mem: "m \<in> set (g_nodes db)" using m by (simp add: scope_children_mem)
  have "arc_ok (skeleton db) (arc_of e)" using e(1) skel_okD(5) [OF sk] by simp
  then obtain u v where "u \<in> set (g_nodes db)" "v \<in> set (g_nodes db)" "n_ID u = n_ID n" "n_ID v = n_ID m" "before (vertex_of u) (vertex_of v)"
    using e(2,3) by (auto elim!: arc_ok_ends)
  with unique_node [OF sk n, of u] unique_node [OF sk mem, of v] mem show ?thesis by (auto simp: before_def)
qed

lemma graph_ok_node_ids: "graph_ok db \<Longrightarrow> distinct (map n_ID (g_nodes db))"
  using skel_okD(2) [of "skeleton db"] by (simp add: graph_ok_def comp_def)

lemma scope_children_distinct:
  assumes ok: "graph_ok db"
  shows "distinct (scope_children db n)"
proof -
  let ?es = "filter (\<lambda>e. e_SourceID e = n_ID n) (scope_edges db)"
  have edges: "distinct ?es" using distinct_by_key [of e_TargetID "scope_edges db", OF scope_edges_into [OF ok]] by (simp add: distinct_map)
  have nodes: "distinct (g_nodes db)" using graph_ok_node_ids [OF ok] by (simp add: distinct_map)
  show ?thesis unfolding scope_children_def
  proof (rule distinct_concat_map [OF edges])
    show "distinct (filter (\<lambda>m. n_ID m = e_TargetID e \<and> n_active m) (g_nodes db))" for e using nodes by simp
    fix e e' m
    assume "e \<in> set ?es" "e' \<in> set ?es"
      "m \<in> set (filter (\<lambda>m. n_ID m = e_TargetID e \<and> n_active m) (g_nodes db))"
      "m \<in> set (filter (\<lambda>m. n_ID m = e_TargetID e' \<and> n_active m) (g_nodes db))"
    then show "e = e'" using scope_edge_unique [OF ok, of e e'] by simp
  qed
qed

interpretation scope: forest_query scope_children graph_ok g_nodes n_SequenceNum
proof
  fix db x x' y
  assume ok: "graph_ok db" and x: "x \<in> set (g_nodes db)" "x' \<in> set (g_nodes db)"
    and y: "y \<in> set (scope_children db x)" "y \<in> set (scope_children db x')"
  from y have "n_ID x = n_ID x'" using scope_edge_unique [OF ok] by (fastforce simp: scope_children_mem)
  with unique_node [of db x' x] ok x show "x = x'" by (simp add: graph_ok_def)
qed (use scope_step scope_children_distinct in blast)+

text \<open>The messages that a message leads to by replies and forks, through messages that are not deleted.\<close>

definition thread_of :: "graph_db \<Rightarrow> node \<Rightarrow> node set" where
  "thread_of db n = {m. (\<lambda>a b. b \<in> set (scope_children db a))\<^sup>*\<^sup>* n m}"

lemma scope_seed_cases:
  assumes "graph_ok db"
  shows "scope_seed db t = [] \<or> (\<exists>n \<in> set (g_nodes db). scope_seed db t = [n])"
proof -
  have sub: "set (scope_seed db t) \<subseteq> set (g_nodes db)" by (auto simp: scope_seed_def)
  have nodes: "distinct (map n_ID (g_nodes db))" by (rule graph_ok_node_ids [OF assms])
  have ids: "\<forall>n \<in> set (scope_seed db t). n_ID n = t_RootNodeID t" by (auto simp: scope_seed_def)
  have dist: "distinct (map n_ID (scope_seed db t))" using nodes by (simp add: scope_seed_def distinct_map_filter)
  show ?thesis
  proof (cases "scope_seed db t")
    case (Cons a xs)
    have "xs = []"
    proof (rule ccontr)
      assume "xs \<noteq> []"
      then obtain b ys where xs: "xs = b # ys" by (cases xs) auto
      from ids have "n_ID a = n_ID b" unfolding Cons xs by simp
      with dist show False unfolding Cons xs by simp
    qed
    with Cons sub show ?thesis by auto
  qed simp
qed

lemma topic_scope_found:
  assumes ok: "graph_ok db"
  shows "\<exists>ns. topic_member_nodes db t = Some ns \<and> distinct ns \<and> set ns = (\<Union>n \<in> set (scope_seed db t). thread_of db n)"
proof -
  consider "scope_seed db t = []" | n where "n \<in> set (g_nodes db)" "scope_seed db t = [n]"
    using scope_seed_cases [OF ok] by blast
  then show ?thesis
  proof cases
    case 2
    from scope.query_found [OF ok 2(1)] show ?thesis
      by (auto simp: topic_member_nodes_def 2(2) thread_of_def scope.leads_def [abs_def])
  qed (simp add: topic_member_nodes_def)
qed

section \<open>Property\<close>


text \<open>The topic of the root of a small tree, whose reply has not been deleted yet.\<close>

definition scope_topic :: topic where
  "scope_topic = \<lparr>t_ID = 30, t_TreeID = 10, t_RootNodeID = 11, t_Title = ''t'', t_Description = [], t_Slug = ''t'',
     t_ParentTopicID = None, t_Status = ''active'', t_TopicTags = [], t_NodeCount = 0, t_CreatedAt = 8, t_ArchivedAt = None,
     t_DeletedAt = None\<rparr>"

definition scope_db :: topic_db where
  "scope_db = \<lparr>td_graph = gs_db demo2, td_profiles = [], td_topics = [scope_topic], td_members = [], td_proposals = [],
     td_configs = [], td_cooldowns = [], td_content = []\<rparr>"


end
