(* ===== verification/Topic_Histories.thy ===== *)
theory Topic_Histories
  imports Topic_Service Topic_Scope
begin

text \<open>
  What the topic service promises of the topics and proposals of the trees: \<open>topic_move\<close> is the
  specification, in which topics are added and edited, proposals are added and resolved, and a
  confirmation adds its topic. The calls of the service are shown to be sequences of such moves,
  and the invariants are proved once, for the moves.
\<close>

section \<open>Specification\<close>

definition in_tree_node :: "graph_db \<Rightarrow> uuid \<Rightarrow> uuid \<Rightarrow> bool" where
  "in_tree_node g treeID i \<longleftrightarrow> (\<exists>n \<in> set (g_nodes g). n_ID n = i \<and> n_TreeID n = treeID)"

definition topic_ok :: "topic_lib \<Rightarrow> graph_db \<Rightarrow> topic \<Rightarrow> bool" where
  "topic_ok lib g t \<longleftrightarrow> topic_checks t \<and> t_Slug t = generateSlug (tree_lib.truncate lib) (t_Title t)
     \<and> in_tree_node g (t_TreeID t) (t_RootNodeID t) \<and> (t_DeletedAt t = None \<longleftrightarrow> t_Status t \<noteq> ''deleted'')
     \<and> (t_Status t = ''active'' \<longrightarrow> t_ArchivedAt t = None) \<and> (t_Status t = ''archived'' \<longrightarrow> t_ArchivedAt t \<noteq> None)"

definition unique_topics :: "topic_lib \<Rightarrow> topic list \<Rightarrow> bool" where
  "unique_topics lib ts \<longleftrightarrow> distinct (map t_ID ts) \<and> distinct (map (\<lambda>t. (t_TreeID t, t_Slug t)) ts)
     \<and> distinct (map (\<lambda>t. (t_TreeID t, tp_pglower lib (t_Title t))) ts)"

definition fresh_topic :: "topic_lib \<Rightarrow> topic_db \<Rightarrow> topic \<Rightarrow> bool" where
  "fresh_topic lib db t \<longleftrightarrow> topic_ok lib (td_graph db) t \<and> \<not> list_ex (topic_clash (tp_pglower lib) t) (td_topics db)"

definition proposal_ok :: "graph_db \<Rightarrow> topic_proposal \<Rightarrow> bool" where
  "proposal_ok g p \<longleftrightarrow> proposal_checks p \<and> in_tree_node g (tp_TreeID p) (tp_RootNodeID p)
     \<and> (tp_Status p = ''pending'' \<longleftrightarrow> tp_ResolvedAt p = None)"

text \<open>Every confirmed proposal of a root has a topic of that root for itself.\<close>

definition backed :: "topic list \<Rightarrow> topic_proposal list \<Rightarrow> bool" where
  "backed ts ps \<longleftrightarrow> (\<forall>i. length (filter (\<lambda>p. tp_Status p = ''confirmed'' \<and> tp_RootNodeID p = i) ps)
     \<le> length (filter (\<lambda>t. t_RootNodeID t = i) ts))"

definition topics_ok :: "topic_lib \<Rightarrow> topic_db \<Rightarrow> bool" where
  "topics_ok lib db \<longleftrightarrow> (\<forall>t \<in> set (td_topics db). topic_ok lib (td_graph db) t) \<and> unique_topics lib (td_topics db)
     \<and> (\<forall>p \<in> set (td_proposals db). proposal_ok (td_graph db) p) \<and> distinct (map tp_ID (td_proposals db))
     \<and> backed (td_topics db) (td_proposals db)"

definition topic_le :: "topic \<Rightarrow> topic \<Rightarrow> bool" where
  "topic_le t t' \<longleftrightarrow> t_ID t' = t_ID t \<and> t_TreeID t' = t_TreeID t \<and> t_RootNodeID t' = t_RootNodeID t
     \<and> t_CreatedAt t' = t_CreatedAt t \<and> (\<not> t_live t \<longrightarrow> t' = t)"

definition proposal_le :: "topic_proposal \<Rightarrow> topic_proposal \<Rightarrow> bool" where
  "proposal_le p p' \<longleftrightarrow> p' = p \<or> tp_Status p = ''pending''
     \<and> (\<exists>status at_time. status \<in> {''confirmed'', ''dismissed'', ''expired''} \<and> p' = p\<lparr>tp_Status := status, tp_ResolvedAt := Some at_time\<rparr>)"

definition topics_le :: "topic_db \<Rightarrow> topic_db \<Rightarrow> bool" where
  "topics_le db db' \<longleftrightarrow> rows_grow topic_le (td_topics db) (td_topics db') \<and> rows_grow proposal_le (td_proposals db) (td_proposals db')
     \<and> graph_le (td_graph db) (td_graph db')"

inductive topic_move :: "topic_lib \<Rightarrow> topic_db \<Rightarrow> topic_db \<Rightarrow> bool" for lib where
  other: "td_graph db' = td_graph db \<Longrightarrow> td_topics db' = td_topics db \<Longrightarrow> td_proposals db' = td_proposals db \<Longrightarrow> topic_move lib db db'"
| grow: "graph_le (td_graph db) (td_graph db') \<Longrightarrow> td_topics db' = td_topics db \<Longrightarrow> td_proposals db' = td_proposals db \<Longrightarrow>
    topic_move lib db db'"
| add: "fresh_topic lib db t \<Longrightarrow> topic_move lib db (db\<lparr>td_topics := td_topics db @ [t]\<rparr>)"
| edit: "\<forall>t \<in> set (td_topics db). topic_ok lib (td_graph db) (f t) \<and> topic_le t (f t) \<Longrightarrow> unique_topics lib (map f (td_topics db)) \<Longrightarrow>
    topic_move lib db (db\<lparr>td_topics := map f (td_topics db)\<rparr>)"
| propose: "proposal_ok (td_graph db) p \<Longrightarrow> tp_Status p = ''pending'' \<Longrightarrow> tp_ID p \<notin> tp_ID ` set (td_proposals db) \<Longrightarrow>
    topic_move lib db (db\<lparr>td_proposals := td_proposals db @ [p]\<rparr>)"
| resolve: "\<forall>p \<in> set (td_proposals db). hit p \<longrightarrow> tp_Status p = ''pending'' \<Longrightarrow> status \<in> {''dismissed'', ''expired''} \<Longrightarrow>
    topic_move lib db (edit_proposals hit status (Some at_time) db)"
| confirm: "p \<in> set (td_proposals db) \<Longrightarrow> tp_Status p = ''pending'' \<Longrightarrow> fresh_topic lib db t \<Longrightarrow> t_RootNodeID t = tp_RootNodeID p \<Longrightarrow>
    t_TreeID t = tp_TreeID p \<Longrightarrow>
    topic_move lib db (edit_proposals (\<lambda>q. tp_ID q = tp_ID p) ''confirmed'' (Some at_time) (db\<lparr>td_topics := td_topics db @ [t]\<rparr>))"

section \<open>What the moves keep\<close>

lemma topic_le_refl: "topic_le t t" and topic_le_trans: "topic_le a b \<Longrightarrow> topic_le b c \<Longrightarrow> topic_le a c"
  by (auto simp: topic_le_def)

lemma proposal_le_refl: "proposal_le p p"
  by (simp add: proposal_le_def)

lemma proposal_le_trans:
  assumes "proposal_le a b" "proposal_le b c"
  shows "proposal_le a c"
proof (cases "b = a")
  case False
  then obtain status at_time where "status \<in> {''confirmed'', ''dismissed'', ''expired''}" "b = a\<lparr>tp_Status := status, tp_ResolvedAt := Some at_time\<rparr>"
    using assms(1) unfolding proposal_le_def by blast
  then have "tp_Status b \<noteq> ''pending''" by auto
  then have "c = b" using assms(2) by (simp add: proposal_le_def)
  with assms(1) show ?thesis by simp
qed (use assms(2) in simp)

lemma topics_le_refl: "topics_le db db"
  by (simp add: topics_le_def rows_grow_refl topic_le_refl proposal_le_refl graph_le_refl)

lemma topics_le_trans:
  assumes "topics_le a b" "topics_le b c"
  shows "topics_le a c"
proof -
  have ts: "rows_grow topic_le (td_topics a) (td_topics b)" "rows_grow topic_le (td_topics b) (td_topics c)"
    and ps: "rows_grow proposal_le (td_proposals a) (td_proposals b)" "rows_grow proposal_le (td_proposals b) (td_proposals c)"
    and gs: "graph_le (td_graph a) (td_graph b)" "graph_le (td_graph b) (td_graph c)"
    using assms by (simp_all add: topics_le_def)
  have "rows_grow topic_le (td_topics a) (td_topics c)" by (rule rows_grow_trans [OF ts]) (rule topic_le_trans)
  moreover have "rows_grow proposal_le (td_proposals a) (td_proposals c)" by (rule rows_grow_trans [OF ps]) (rule proposal_le_trans)
  ultimately show ?thesis using graph_le_trans [OF gs] by (simp add: topics_le_def)
qed

lemma in_tree_node_le:
  assumes "graph_le g g'" "in_tree_node g treeID i"
  shows "in_tree_node g' treeID i"
proof -
  obtain n where n: "n \<in> set (g_nodes g)" "n_ID n = i" "n_TreeID n = treeID" using assms(2) by (auto simp: in_tree_node_def)
  from assms(1) have "rows_grow node_le (g_nodes g) (g_nodes g')" by (simp add: graph_le_def)
  from rows_grow_mem [OF this n(1)] obtain m where "m \<in> set (g_nodes g')" "vertex_of m = vertex_of n" by (auto simp: node_le_def)
  with n show ?thesis unfolding in_tree_node_def by (metis vertex_of_simps(1,2))
qed

lemma unique_topics_snoc:
  assumes "unique_topics lib ts" "\<not> list_ex (topic_clash (tp_pglower lib) t) ts"
  shows "unique_topics lib (ts @ [t])"
  using assms by (fastforce simp: unique_topics_def list_ex_iff topic_clash_def)

lemma length_filter_map_eq: "(\<And>x. x \<in> set xs \<Longrightarrow> P (f x) = Q x) \<Longrightarrow> length (filter P (map f xs)) = length (filter Q xs)"
  by (induction xs) auto

lemma length_filter_one_more:
  assumes "distinct (map g xs)" "p \<in> set xs" "\<not> Q p" "\<And>x. x \<in> set xs \<Longrightarrow> g x \<noteq> g p \<Longrightarrow> P (f x) = Q x"
  shows "length (filter P (map f xs)) = length (filter Q xs) + (if P (f p) then 1 else 0)"
  using assms
proof (induction xs)
  case (Cons x xs)
  show ?case
  proof (cases "g x = g p")
    case True
    then have x: "x = p" using Cons.prems(1,2) by (auto simp: image_iff)
    then have "length (filter P (map f xs)) = length (filter Q xs)"
      using Cons.prems(1,4) by (intro length_filter_map_eq) (auto simp: image_iff)
    with x Cons.prems(3) show ?thesis by simp
  next
    case False
    then have "p \<in> set xs" using Cons.prems(2) by auto
    with Cons False show ?thesis by auto
  qed
qed simp

definition resolved_by :: "(topic_proposal \<Rightarrow> bool) \<Rightarrow> string \<Rightarrow> instant \<Rightarrow> topic_proposal \<Rightarrow> topic_proposal" where
  "resolved_by hit status at_time p = (if hit p then p\<lparr>tp_Status := status, tp_ResolvedAt := Some at_time\<rparr> else p)"

lemma edit_proposals_eq: "edit_proposals hit status (Some at_time) db = db\<lparr>td_proposals := map (resolved_by hit status at_time) (td_proposals db)\<rparr>"
  by (simp add: edit_proposals_def resolved_by_def [abs_def])

lemma resolved_by_simps [simp]:
  "tp_ID (resolved_by hit status at_time p) = tp_ID p" "tp_RootNodeID (resolved_by hit status at_time p) = tp_RootNodeID p"
  "tp_TreeID (resolved_by hit status at_time p) = tp_TreeID p"
  by (simp_all add: resolved_by_def)

lemma resolved_by_ok:
  assumes "proposal_ok g p" "status \<in> {''confirmed'', ''dismissed'', ''expired''}"
  shows "proposal_ok g (resolved_by hit status at_time p)"
  using assms by (auto simp: resolved_by_def proposal_ok_def proposal_checks_def)

lemma resolved_by_le:
  "hit p \<longrightarrow> tp_Status p = ''pending'' \<Longrightarrow> status \<in> {''confirmed'', ''dismissed'', ''expired''} \<Longrightarrow>
    proposal_le p (resolved_by hit status at_time p)"
  unfolding resolved_by_def proposal_le_def by (cases "hit p") (simp, blast, simp)

lemma topic_moveD:
  assumes "topic_move lib db db'" "topics_ok lib db"
  shows "topics_ok lib db' \<and> topics_le db db'"
  using assms(1)
proof cases
  case other
  then show ?thesis using assms(2) by (simp add: topics_ok_def topics_le_def rows_grow_refl topic_le_refl proposal_le_refl graph_le_refl)
next
  case grow
  then show ?thesis using assms(2) in_tree_node_le [OF grow(1)]
    by (simp add: topics_ok_def topics_le_def rows_grow_refl topic_le_refl proposal_le_refl topic_ok_def proposal_ok_def)
next
  case (add t)
  moreover have "backed (td_topics db @ [t]) (td_proposals db)"
    using assms(2) by (auto simp: topics_ok_def backed_def intro: le_SucI)
  ultimately have "topics_ok lib db'" using assms(2) unique_topics_snoc [of lib "td_topics db" t]
    by (simp add: topics_ok_def fresh_topic_def)
  with add show ?thesis by (simp add: topics_le_def rows_grow_append rows_grow_refl topic_le_refl proposal_le_refl graph_le_refl)
next
  case (edit f)
  then have "length (filter (\<lambda>t. t_RootNodeID t = i) (map f (td_topics db))) = length (filter (\<lambda>t. t_RootNodeID t = i) (td_topics db))" for i
    by (intro length_filter_map_eq) (simp add: topic_le_def)
  with edit have "topics_ok lib db'" using assms(2) by (simp add: topics_ok_def backed_def)
  with edit show ?thesis by (simp add: topics_le_def rows_grow_map rows_grow_refl topic_le_refl proposal_le_refl graph_le_refl)
next
  case (propose p)
  then have "topics_ok lib db'" using assms(2) by (auto simp: topics_ok_def backed_def)
  with propose show ?thesis by (simp add: topics_le_def rows_grow_append rows_grow_refl topic_le_refl proposal_le_refl graph_le_refl)
next
  case (resolve hit status at_time)
  let ?r = "resolved_by hit status at_time"
  have st: "status \<in> {''confirmed'', ''dismissed'', ''expired''}" "status \<noteq> ''confirmed''" using resolve(3) by auto
  have "length (filter (\<lambda>p. tp_Status p = ''confirmed'' \<and> tp_RootNodeID p = i) (map ?r (td_proposals db)))
      = length (filter (\<lambda>p. tp_Status p = ''confirmed'' \<and> tp_RootNodeID p = i) (td_proposals db))" for i
    using resolve(2) st(2) by (intro length_filter_map_eq) (auto simp: resolved_by_def)
  then have "topics_ok lib db'" using assms(2) resolve(1) resolved_by_ok [OF _ st(1)]
    by (simp add: topics_ok_def backed_def edit_proposals_eq comp_def)
  moreover have "rows_grow proposal_le (td_proposals db) (map ?r (td_proposals db))"
    using resolve(2) resolved_by_le [OF _ st(1)] by (intro rows_grow_map) blast
  ultimately show ?thesis using resolve(1) by (simp add: topics_le_def edit_proposals_eq rows_grow_refl topic_le_refl graph_le_refl)
next
  case (confirm p t at_time)
  let ?hit = "\<lambda>q. tp_ID q = tp_ID p" let ?r = "resolved_by ?hit ''confirmed'' at_time"
  have dist: "distinct (map tp_ID (td_proposals db))" using assms(2) by (simp add: topics_ok_def)
  have hit: "?hit q \<longrightarrow> q = p" if "q \<in> set (td_proposals db)" for q
    using dist confirm(2) that by (auto simp: distinct_map inj_on_def)
  have more: "length (filter (\<lambda>p. tp_Status p = ''confirmed'' \<and> tp_RootNodeID p = i) (map ?r (td_proposals db)))
      \<le> length (filter (\<lambda>p. tp_Status p = ''confirmed'' \<and> tp_RootNodeID p = i) (td_proposals db)) + (if tp_RootNodeID p = i then 1 else 0)" for i
    using confirm(3)
    by (subst length_filter_one_more [OF dist confirm(2), where Q = "\<lambda>p. tp_Status p = ''confirmed'' \<and> tp_RootNodeID p = i"])
      (auto simp: resolved_by_def)
  have "backed (td_topics db @ [t]) (map ?r (td_proposals db))"
  proof -
    have le: "length (filter (\<lambda>p. tp_Status p = ''confirmed'' \<and> tp_RootNodeID p = i) (td_proposals db))
        \<le> length (filter (\<lambda>t. t_RootNodeID t = i) (td_topics db))" for i
      using assms(2) by (simp add: topics_ok_def backed_def)
    have eq: "length (filter (\<lambda>u. t_RootNodeID u = i) (td_topics db @ [t]))
        = length (filter (\<lambda>t. t_RootNodeID t = i) (td_topics db)) + (if tp_RootNodeID p = i then 1 else 0)" for i
      using confirm(5) by simp
    show ?thesis unfolding backed_def eq by (intro allI order_trans [OF more] add_le_mono1 le)
  qed
  with assms(2) confirm(1,4) have "topics_ok lib db'" using unique_topics_snoc [of lib "td_topics db" t] resolved_by_ok [of _ _ "''confirmed''"]
    by (simp add: topics_ok_def edit_proposals_eq comp_def fresh_topic_def)
  moreover have "rows_grow proposal_le (td_proposals db) (map ?r (td_proposals db))"
    using hit confirm(3) by (intro rows_grow_map resolved_by_le) auto
  ultimately show ?thesis using confirm(1)
    by (simp add: topics_le_def edit_proposals_eq rows_grow_append topic_le_refl graph_le_refl)
qed

interpretation topic_moves: evolving "topic_move lib" "topics_ok lib" topics_le for lib
  by unfold_locales (auto intro: topics_le_refl topics_le_trans dest: topic_moveD)

section \<open>The calls are moves\<close>

definition same_parts :: "topic_db \<Rightarrow> topic_db \<Rightarrow> bool" where
  "same_parts db db' \<longleftrightarrow> td_graph db' = td_graph db \<and> td_topics db' = td_topics db \<and> td_proposals db' = td_proposals db"

lemma same_parts_move: "same_parts db db' \<Longrightarrow> topic_move lib db db'"
  by (simp add: same_parts_def topic_move.other)

lemma same_parts_refl [simp]: "same_parts db db"
  by (simp add: same_parts_def)

lemma refresh_index_same [simp]: "same_parts db (refresh_index lib now i ns db)"
  by (auto simp: same_parts_def refresh_index_def RefreshNodeContentIndex_def Let_def split: option.splits if_splits)

lemma refreshTopicContentIndex_same [simp]: "same_parts db (refreshTopicContentIndex env now i db)"
  by (auto simp: refreshTopicContentIndex_def split: option.splits)

lemma fold_same: "(\<And>x db. same_parts db (f x db)) \<Longrightarrow> same_parts db (fold f xs db)"
  by (induction xs arbitrary: db) (simp, simp add: same_parts_def)

lemma refreshTopicContentIndex_content: "\<exists>content. refreshTopicContentIndex env now i db = db\<lparr>td_content := content\<rparr>"
  by (auto simp: refreshTopicContentIndex_def refresh_index_def RefreshNodeContentIndex_def Let_def
      intro: exI [of _ "td_content db"] split: option.split)

lemma RefreshNodeContentForTopics_same [simp]: "same_parts db (RefreshNodeContentForTopics env now i db)"
  by (simp add: RefreshNodeContentForTopics_def fold_same)

lemma config_Get_same: "config_Get now treeID db = Inr (c, db') \<Longrightarrow> same_parts db db'"
  by (auto simp: config_Get_def same_parts_def split: option.splits if_splits)

lemma config_Upsert_same: "config_Upsert now treeID cfg db = Inr (c, db') \<Longrightarrow> same_parts db db'"
  by (auto simp: config_Upsert_def edit_config_def same_parts_def Let_def split: option.splits if_splits)

lemma tracking_same [simp]: "same_parts db (config_UpdateProposalTracking now treeID q m db)"
  by (simp add: config_UpdateProposalTracking_def edit_config_def same_parts_def)

lemma cooldown_Add_same: "cooldown_Add now treeID key until db = Inr db' \<Longrightarrow> same_parts db db'"
  by (auto simp: cooldown_Add_def same_parts_def split: if_splits)

lemma members_same:
  "topic_AddMember now i j role db = Inr (m, db1) \<Longrightarrow> same_parts db db1" "same_parts db (topic_RemoveMember i j db)"
  "topic_UpdateRole i j role db = Inr db2 \<Longrightarrow> same_parts db db2"
  by (auto simp: topic_AddMember_def topic_RemoveMember_def topic_UpdateRole_def same_parts_def Let_def split: if_splits)

lemma topic_event_db [simp]: "ts_db (topic_event env now i e data s) = ts_db s"
  by (simp add: topic_event_def split: option.split)

lemma broadcast_db [simp]: "ts_db (broadcastTopicCreated env now i p t s) = ts_db s" "ts_db (broadcastTopicProposed env now i v s) = ts_db s"
  by (simp_all add: broadcastTopicCreated_def broadcastTopicProposed_def Let_def)

lemma update_db_ts [simp]: "ts_db (update_db f s) = f (ts_db s)"
  by (simp add: update_db_def)

lemma topic_CreateD:
  assumes "topic_Create lib i now input db = Inr (t, db')" "in_tree_node (td_graph db) (tci_TreeID input) (tci_RootNodeID input)"
  shows "fresh_topic lib db t" "db' = db\<lparr>td_topics := td_topics db @ [t]\<rparr>" "t_RootNodeID t = tci_RootNodeID input"
    "t_TreeID t = tci_TreeID input" "t_live t"
  using assms by (auto simp: topic_Create_def insert_topic_def fresh_topic_def topic_ok_def t_live_def Let_def split: sum.splits if_splits)

lemma unique_topics_map:
  assumes "unique_topics lib ts"
    "\<And>t. t \<in> set ts \<Longrightarrow> t_ID (f t) = t_ID t \<and> t_TreeID (f t) = t_TreeID t \<and> t_Slug (f t) = t_Slug t \<and> t_Title (f t) = t_Title t"
  shows "unique_topics lib (map f ts)"
proof -
  have "map t_ID (map f ts) = map t_ID ts" "map (\<lambda>t. (t_TreeID t, t_Slug t)) (map f ts) = map (\<lambda>t. (t_TreeID t, t_Slug t)) ts"
    "map (\<lambda>t. (t_TreeID t, tp_pglower lib (t_Title t))) (map f ts) = map (\<lambda>t. (t_TreeID t, tp_pglower lib (t_Title t))) ts"
    using assms(2) by simp_all
  with assms(1) show ?thesis by (simp only: unique_topics_def)
qed

lemma edit_topic_move:
  assumes "topics_ok lib db"
    "\<And>t. t_live t \<Longrightarrow> topic_ok lib (td_graph db) t \<Longrightarrow> topic_ok lib (td_graph db) (f t) \<and> topic_le t (f t) \<and> t_Slug (f t) = t_Slug t \<and> t_Title (f t) = t_Title t"
  shows "topic_move lib db (edit_topic i f db)"
  unfolding edit_topic_def
proof (rule topic_move.edit)
  have ok: "topic_ok lib (td_graph db) t" if "t \<in> set (td_topics db)" for t using assms(1) that by (simp add: topics_ok_def)
  show "\<forall>t \<in> set (td_topics db). topic_ok lib (td_graph db) (if t_ID t = i \<and> t_live t then f t else t)
      \<and> topic_le t (if t_ID t = i \<and> t_live t then f t else t)"
    using assms(2) ok by (simp add: topic_le_refl)
  have "unique_topics lib (td_topics db)" using assms(1) by (simp add: topics_ok_def)
  then show "unique_topics lib (map (\<lambda>t. if t_ID t = i \<and> t_live t then f t else t) (td_topics db))"
    by (rule unique_topics_map) (use assms(2) ok in \<open>auto simp: topic_le_def\<close>)
qed

lemma status_moves:
  assumes "topics_ok lib db"
  shows "topic_move lib db (topic_Archive now i db)" "topic_move lib db (topic_Restore i db)" "topic_move lib db (topic_SoftDelete now i db)"
  unfolding topic_Archive_def topic_Restore_def topic_SoftDelete_def
  by (rule edit_topic_move [OF assms]; force simp: topic_ok_def topic_checks_def topic_le_def t_live_def)+

lemma refresh_count_move:
  assumes ok: "topics_ok lib db" and t: "t \<in> set (td_topics db)" "t_live t"
    and c: "topic_RefreshNodeCount (t_ID t) db = Some (n, db')"
  shows "topic_move lib db db'"
proof -
  have dist: "distinct (map t_ID (td_topics db))" using ok by (simp add: topics_ok_def unique_topics_def)
  have same: "u = t" if "u \<in> set (td_topics db)" "t_ID u = t_ID t" for u
    using dist t(1) that by (auto simp: distinct_map inj_on_def)
  have f: "find (\<lambda>u. t_ID u = t_ID t) (td_topics db) \<noteq> None" using t(1) by (auto simp: find_None_iff)
  then obtain k where db': "db' = db\<lparr>td_topics := map (\<lambda>u. if t_ID u = t_ID t then u\<lparr>t_NodeCount := k\<rparr> else u) (td_topics db)\<rparr>"
    using c by (auto simp: topic_RefreshNodeCount_def)
  have "\<forall>u \<in> set (td_topics db). t_ID u = t_ID t \<longrightarrow> t_live u" using same t(2) by blast
  moreover have "\<forall>u \<in> set (td_topics db). topic_ok lib (td_graph db) u" using ok by (simp add: topics_ok_def)
  ultimately show ?thesis unfolding db'
    by (intro topic_move.edit unique_topics_map) (use ok in \<open>auto simp: topics_ok_def topic_ok_def topic_checks_def topic_le_def\<close>)
qed

lemma apply_update_keeps:
  "t_ID (apply_topic_update lib input t) = t_ID t" "t_TreeID (apply_topic_update lib input t) = t_TreeID t"
  "t_RootNodeID (apply_topic_update lib input t) = t_RootNodeID t" "t_CreatedAt (apply_topic_update lib input t) = t_CreatedAt t"
  "t_Status (apply_topic_update lib input t) = t_Status t" "t_DeletedAt (apply_topic_update lib input t) = t_DeletedAt t"
  "t_ArchivedAt (apply_topic_update lib input t) = t_ArchivedAt t"
  by (simp_all add: apply_topic_update_def Let_def split: option.split)

lemma apply_update_slug:
  "t_Slug t = generateSlug lib (t_Title t) \<Longrightarrow>
    t_Slug (apply_topic_update lib input t) = generateSlug lib (t_Title (apply_topic_update lib input t))"
  by (simp add: apply_topic_update_def Let_def split: option.split)

lemma distinct_map_replace:
  assumes "distinct (map key ts)" "distinct (map t_ID ts)" "\<And>u. u \<in> set ts \<Longrightarrow> t_ID u \<noteq> i \<Longrightarrow> key u \<noteq> key t'"
  shows "distinct (map key (map (\<lambda>t. if t_ID t = i \<and> t_live t then t' else t) ts))"
  using assms
proof (induction ts)
  case (Cons a ts)
  let ?f = "\<lambda>t. if t_ID t = i \<and> t_live t then t' else t"
  have ih: "distinct (map key (map ?f ts))" using Cons by simp
  have ids: "\<forall>u \<in> set ts. t_ID u \<noteq> t_ID a" and keys: "\<forall>u \<in> set ts. key u \<noteq> key a" using Cons.prems(1,2) by (auto simp: image_iff)
  have "key (?f a) \<noteq> key (?f u)" if u: "u \<in> set ts" for u
  proof (cases "t_ID a = i")
    case True
    then have "?f u = u" "t_ID u \<noteq> i" using ids u by auto
    with Cons.prems(3) [of u] keys u show ?thesis by (auto simp: eq_commute)
  next
    case False
    with Cons.prems(3) [of a] keys u show ?thesis by auto
  qed
  then have "key (?f a) \<notin> key ` ?f ` set ts" by (blast elim!: imageE)
  with ih show ?case by (simp only: list.map distinct.simps set_map simp_thms)
qed simp

lemma topic_Update_move:
  assumes ok: "topics_ok lib db" and c: "topic_Update lib i input db = Inr (t', db')"
  shows "topic_move lib db db'"
proof (cases "db' = db")
  case True
  then show ?thesis by (simp add: same_parts_move)
next
  case False
  with c obtain t where t: "topic_GetByID i db = Some t" "t' = apply_topic_update (tree_lib.truncate lib) input t" "topic_checks t'"
    and free: "\<not> list_ex (\<lambda>u. t_ID u \<noteq> i \<and> topic_clash (tp_pglower lib) t' u) (td_topics db)" and db': "db' = edit_topic i (\<lambda>_. t') db"
    by (auto simp: topic_Update_def Let_def split: option.splits if_splits)
  have mem: "t \<in> set (td_topics db)" "t_ID t = i" "t_live t" using t(1) by (auto simp: topic_GetByID_def find_topic_def find_Some_iff)
  have uni: "unique_topics lib (td_topics db)" and all_ok: "\<forall>u \<in> set (td_topics db). topic_ok lib (td_graph db) u"
    using ok by (simp_all add: topics_ok_def)
  then have tok: "topic_ok lib (td_graph db) t" using mem(1) by blast
  have ids: "distinct (map t_ID (td_topics db))" using uni by (simp add: unique_topics_def)
  have same: "u = t" if "u \<in> set (td_topics db)" "t_ID u = i" for u
    using ids mem(1,2) that by (auto simp: distinct_map inj_on_def)
  have ok': "topic_ok lib (td_graph db) t'" and le: "topic_le t t'"
    using tok t(3) mem(3) apply_update_slug [of t "tree_lib.truncate lib" input]
    by (simp_all add: t(2) topic_ok_def topic_le_def apply_update_keeps)
  have other: "t_ID u \<noteq> t_ID t'" "(t_TreeID u, t_Slug u) \<noteq> (t_TreeID t', t_Slug t')"
      "(t_TreeID u, tp_pglower lib (t_Title u)) \<noteq> (t_TreeID t', tp_pglower lib (t_Title t'))"
    if "u \<in> set (td_topics db)" "t_ID u \<noteq> i" for u
    using free that by (auto simp: list_ex_iff topic_clash_def)
  have "unique_topics lib (map (\<lambda>t. if t_ID t = i \<and> t_live t then t' else t) (td_topics db))"
    unfolding unique_topics_def
    using uni other by (intro conjI distinct_map_replace [OF _ ids]) (auto simp: unique_topics_def)
  then show ?thesis unfolding db' edit_topic_def
    by (intro topic_move.edit) (use all_ok ok' le same in \<open>auto simp: topic_le_refl\<close>)
qed

text \<open>The sequences of moves of the calls.\<close>

abbreviation topic_moves_run :: "topic_lib \<Rightarrow> topic_db \<Rightarrow> topic_db \<Rightarrow> bool" where
  "topic_moves_run lib \<equiv> (topic_move lib)\<^sup>*\<^sup>*"

lemma moves_same: "same_parts db db' \<Longrightarrow> topic_moves_run lib db db'"
  by (simp add: r_into_rtranclp same_parts_move)

lemma moves_then_same: "topic_moves_run lib db db1 \<Longrightarrow> same_parts db1 db' \<Longrightarrow> topic_moves_run lib db db'"
  using moves_same rtranclp_trans by metis

lemma node_GetByID_tree: "node_GetByID g i = Some n \<Longrightarrow> in_tree_node g (n_TreeID n) i"
  by (auto simp: node_GetByID_def find_Some_iff in_tree_node_def)

lemma create_moves:
  assumes ok: "topics_ok (te_lib env) (ts_db s)" and c: "svc_CreateTopic env newID now treeID rootID title description s = (r, s')"
  shows "topic_moves_run (te_lib env) (ts_db s) (ts_db s')"
proof (cases "ts_db s' = ts_db s")
  case False
  define input where "input = \<lparr>tci_TreeID = treeID, tci_RootNodeID = rootID, tci_Title = title, tci_Description = description,
    tci_ParentTopicID = None, tci_TopicTags = []\<rparr>"
  obtain n t db1 where n: "node_GetByID (td_graph (ts_db s)) rootID = Some n" "n_TreeID n = treeID"
    and t: "topic_Create (te_lib env) newID now input (ts_db s) = Inr (t, db1)"
    and s': "ts_db s' = refreshTopicContentIndex env now (t_ID t)
        (case topic_RefreshNodeCount (t_ID t) db1 of None \<Rightarrow> db1 | Some (k, db2) \<Rightarrow> db2)"
    using c False by (auto simp: svc_CreateTopic_def input_def Let_def split: if_splits option.splits sum.splits)
  have "in_tree_node (td_graph (ts_db s)) (tci_TreeID input) (tci_RootNodeID input)"
    using node_GetByID_tree [OF n(1)] n(2) by (simp add: input_def)
  note new = topic_CreateD [OF t this]
  have m1: "topic_move (te_lib env) (ts_db s) db1" unfolding new(2) by (rule topic_move.add [OF new(1)])
  then have ok1: "topics_ok (te_lib env) db1" using topic_moveD ok by blast
  have m2: "topic_moves_run (te_lib env) (ts_db s) (case topic_RefreshNodeCount (t_ID t) db1 of None \<Rightarrow> db1 | Some (k, db2) \<Rightarrow> db2)"
    using m1 refresh_count_move [OF ok1 _ new(5)] new(2)
    by (auto split: option.split intro: converse_rtranclp_into_rtranclp)
  show ?thesis unfolding s' by (rule moves_then_same [OF m2]) simp
qed simp

lemma update_moves:
  assumes ok: "topics_ok (te_lib env) (ts_db s)" and c: "svc_UpdateTopic env now i title description status s = (r, s')"
  shows "topic_moves_run (te_lib env) (ts_db s) (ts_db s')"
proof (cases "topic_Update (te_lib env) i \<lparr>tui_Title = title, tui_Description = description, tui_TopicTags = None\<rparr> (ts_db s)")
  case (Inr p)
  obtain t db1 where p: "p = (t, db1)" by (cases p)
  have m1: "topic_move (te_lib env) (ts_db s) db1" using topic_Update_move [OF ok] Inr p by blast
  then have ok1: "topics_ok (te_lib env) db1" using topic_moveD ok by blast
  have "ts_db s' \<in> {db1, topic_Restore i db1, topic_Archive now i db1}"
    using c Inr p by (auto simp: svc_UpdateTopic_def Let_def split: option.splits if_splits)
  with status_moves(1,2) [OF ok1] have "topic_moves_run (te_lib env) db1 (ts_db s')" by auto
  with m1 show ?thesis by (rule converse_rtranclp_into_rtranclp)
qed (use c in \<open>simp add: svc_UpdateTopic_def\<close>)

lemma proposal_GetByIDD: "proposal_GetByID i db = Some p \<Longrightarrow> p \<in> set (td_proposals db) \<and> tp_ID p = i"
  by (auto simp: proposal_GetByID_def find_Some_iff)

lemma proposal_unique:
  assumes "topics_ok lib db" "p \<in> set (td_proposals db)" "q \<in> set (td_proposals db)" "tp_ID q = tp_ID p"
  shows "q = p"
proof -
  have "distinct (map tp_ID (td_proposals db))" using assms(1) by (simp add: topics_ok_def)
  then show ?thesis using assms(2-) by (simp add: distinct_map inj_on_def)
qed

lemma resolve_move:
  assumes "topics_ok lib db" "p \<in> set (td_proposals db)" "tp_Status p = ''pending''" "status \<in> {''dismissed'', ''expired''}"
  shows "topic_move lib db (proposal_UpdateStatus (tp_ID p) status (Some now) db)"
  unfolding proposal_UpdateStatus_def
  using proposal_unique [OF assms(1,2)] assms(3,4) by (intro topic_move.resolve) auto

text \<open>A confirmation that succeeds: the proposal was pending, the topic is new and is the last row.\<close>

lemma confirm_pendingD:
  assumes c: "confirm_pending env newID now p title s = (Inr t, s')"
  shows "fresh_topic (te_lib env) (ts_db s) t" "t_RootNodeID t = tp_RootNodeID p" "t_TreeID t = tp_TreeID p" "t_live t"
    "\<exists>content. ts_db s' = (edit_proposals (\<lambda>q. tp_ID q = tp_ID p) ''confirmed'' (Some now)
       ((ts_db s)\<lparr>td_topics := td_topics (ts_db s) @ [t]\<rparr>))\<lparr>td_content := content\<rparr>"
    "now \<le> tp_ExpiresAt p"
proof -
  from c have exp: "\<not> tp_ExpiresAt p < now" by (auto simp: confirm_pending_def)
  then show "now \<le> tp_ExpiresAt p" by simp
  from c exp obtain title' db1 where t: "confirm_checks env (ts_db s) p title = Inr title'"
      "topic_Create (te_lib env) newID now (proposal_input p title') (ts_db s) = Inr (t, db1)"
    and s': "s' = resolve_proposal (tp_ID p) ''confirmed'' now (s\<lparr>ts_db := refreshTopicContentIndex env now (t_ID t) db1\<rparr>)"
    by (auto simp: confirm_pending_def split: sum.splits prod.splits)
  obtain n where "node_GetByID (td_graph (ts_db s)) (tp_RootNodeID p) = Some n" "n_TreeID n = tp_TreeID p"
    using t(1) by (auto simp: confirm_checks_def Let_def split: if_splits option.splits)
  then have "in_tree_node (td_graph (ts_db s)) (tci_TreeID (proposal_input p title')) (tci_RootNodeID (proposal_input p title'))"
    using node_GetByID_tree by (fastforce simp: proposal_input_def)
  note new = topic_CreateD [OF t(2) this]
  show "fresh_topic (te_lib env) (ts_db s) t" "t_live t" using new by simp_all
  show "t_RootNodeID t = tp_RootNodeID p" "t_TreeID t = tp_TreeID p" using new(3,4) by (simp_all add: proposal_input_def)
  have "\<exists>content. refreshTopicContentIndex env now (t_ID t) db1 = db1\<lparr>td_content := content\<rparr>"
    by (rule refreshTopicContentIndex_content)
  then obtain content where content: "refreshTopicContentIndex env now (t_ID t) db1 = db1\<lparr>td_content := content\<rparr>" ..
  show "\<exists>content. ts_db s' = (edit_proposals (\<lambda>q. tp_ID q = tp_ID p) ''confirmed'' (Some now)
       ((ts_db s)\<lparr>td_topics := td_topics (ts_db s) @ [t]\<rparr>))\<lparr>td_content := content\<rparr>"
    by (rule exI [of _ content]) (simp add: s' resolve_proposal_def content [unfolded new(2)] new(2) proposal_UpdateStatus_def edit_proposals_def)
qed

lemma confirm_pending_moves:
  assumes ok: "topics_ok (te_lib env) (ts_db s)" and p: "p \<in> set (td_proposals (ts_db s))" "tp_Status p = ''pending''"
    and c: "confirm_pending env newID now p title s = (r, s')"
  shows "topic_moves_run (te_lib env) (ts_db s) (ts_db s')"
proof (cases r)
  case (Inl e)
  then have "ts_db s' = ts_db s \<or> ts_db s' = proposal_UpdateStatus (tp_ID p) ''expired'' (Some now) (ts_db s)"
    using c by (auto simp: confirm_pending_def resolve_proposal_def split: if_splits sum.splits)
  with resolve_move [OF ok p] show ?thesis by auto
next
  case (Inr t)
  note d = confirm_pendingD [OF c [unfolded Inr]]
  obtain content where s': "ts_db s' = (edit_proposals (\<lambda>q. tp_ID q = tp_ID p) ''confirmed'' (Some now)
       ((ts_db s)\<lparr>td_topics := td_topics (ts_db s) @ [t]\<rparr>))\<lparr>td_content := content\<rparr>" using d(5) ..
  have "topic_move (te_lib env) (ts_db s) (edit_proposals (\<lambda>q. tp_ID q = tp_ID p) ''confirmed'' (Some now)
       ((ts_db s)\<lparr>td_topics := td_topics (ts_db s) @ [t]\<rparr>))" by (rule topic_move.confirm [OF p d(1-3)])
  then show ?thesis unfolding s' by (intro moves_then_same [OF r_into_rtranclp]) (simp_all add: same_parts_def)
qed

lemma confirm_moves:
  assumes ok: "topics_ok (te_lib env) (ts_db s)" and c: "svc_ConfirmProposal env newID now i title s = (r, s')"
  shows "topic_moves_run (te_lib env) (ts_db s) (ts_db s')"
proof (cases "proposal_GetByID i (ts_db s)")
  case (Some p)
  note p = proposal_GetByIDD [OF Some]
  show ?thesis
  proof (cases "tp_Status p = ''pending''")
    case True
    with c Some have "confirm_pending env newID now p title s = (r, s')" by (simp add: svc_ConfirmProposal_def)
    with p True show ?thesis using confirm_pending_moves [OF ok] by blast
  next
    case False
    with c Some have "s' = s" by (auto simp: svc_ConfirmProposal_def split: if_splits option.splits)
    then show ?thesis by simp
  qed
qed (use c in \<open>simp add: svc_ConfirmProposal_def\<close>)

lemma dismiss_moves:
  assumes ok: "topics_ok lib (ts_db s)" and c: "svc_DismissProposal env now i s = (r, s')"
  shows "topic_moves_run lib (ts_db s) (ts_db s')"
proof (cases "proposal_GetByID i (ts_db s)")
  case (Some p)
  note p = proposal_GetByIDD [OF Some]
  define db1 where "db1 = (if \<not> te_detection env then ts_db s
      else case cooldown_Add now (tp_TreeID p) (tp_SubjectKey p) (now + subjectCooldownDuration) (ts_db s) of Inl _ \<Rightarrow> ts_db s | Inr db1 \<Rightarrow> db1)"
  have same: "same_parts (ts_db s) db1" using cooldown_Add_same by (auto simp: db1_def split: sum.split)
  then have ok1: "topics_ok lib db1" using ok same_parts_move topic_moveD by metis
  show ?thesis
  proof (cases "tp_Status p = ''pending''")
    case True
    then have "ts_db s' = proposal_UpdateStatus i ''dismissed'' (Some now) db1"
      using c Some unfolding svc_DismissProposal_def by (auto simp: resolve_proposal_def db1_def Let_def)
    then have "topic_move lib db1 (ts_db s')"
      using resolve_move [OF ok1, of p "''dismissed''"] p True same by (simp add: same_parts_def)
    then show ?thesis using same_parts_move [OF same] by (meson converse_rtranclp_into_rtranclp r_into_rtranclp)
  next
    case False
    with c Some show ?thesis by (auto simp: svc_DismissProposal_def)
  qed
qed (use c in \<open>simp add: svc_DismissProposal_def\<close>)

lemma expire_listed_moves:
  assumes "topics_ok lib db" "\<forall>p \<in> set ps. \<exists>q \<in> set (td_proposals db). tp_ID q = tp_ID p \<and> tp_Status q = ''pending''"
    "distinct (map tp_ID ps)"
  shows "topic_moves_run lib db (fold (\<lambda>p d. if tp_ExpiresAt p < now then proposal_UpdateStatus (tp_ID p) ''expired'' (Some now) d else d) ps db)"
  using assms
proof (induction ps arbitrary: db)
  case (Cons p ps)
  show ?case
  proof (cases "tp_ExpiresAt p < now")
    case True
    let ?d = "proposal_UpdateStatus (tp_ID p) ''expired'' (Some now) db"
    obtain q where q: "q \<in> set (td_proposals db)" "tp_ID q = tp_ID p" "tp_Status q = ''pending''" using Cons.prems(2) by auto
    have m: "topic_move lib db ?d" using resolve_move [OF Cons.prems(1) q(1,3), of "''expired''"] q(2) by simp
    have "\<exists>q \<in> set (td_proposals ?d). tp_ID q = tp_ID p' \<and> tp_Status q = ''pending''" if p': "p' \<in> set ps" for p'
    proof -
      have "tp_ID p' \<noteq> tp_ID p" using Cons.prems(3) p' by (auto simp: image_iff)
      moreover obtain q' where "q' \<in> set (td_proposals db)" "tp_ID q' = tp_ID p'" "tp_Status q' = ''pending''" using Cons.prems(2) p' by auto
      ultimately show ?thesis unfolding proposal_UpdateStatus_def edit_proposals_eq by (force simp: resolved_by_def)
    qed
    then have "topic_moves_run lib ?d (fold (\<lambda>p d. if tp_ExpiresAt p < now then proposal_UpdateStatus (tp_ID p) ''expired'' (Some now) d else d) ps ?d)"
      using Cons.IH [of ?d] Cons.prems(3) topic_moveD [OF m Cons.prems(1)] by simp
    with m True show ?thesis by (simp add: converse_rtranclp_into_rtranclp)
  qed (use Cons in simp)
qed simp

lemma sweep_moves:
  assumes ok: "topics_ok lib db"
  shows "topic_moves_run lib db (sweepExpired now treeID db)"
proof -
  define db1 where "db1 = fold (\<lambda>p d. if tp_ExpiresAt p < now then proposal_UpdateStatus (tp_ID p) ''expired'' (Some now) d else d)
                  (proposal_ListPending treeID db) db"
  have m1: "topic_moves_run lib db db1" unfolding db1_def
  proof (rule expire_listed_moves [OF ok])
    show "\<forall>p \<in> set (proposal_ListPending treeID db). \<exists>q \<in> set (td_proposals db). tp_ID q = tp_ID p \<and> tp_Status q = ''pending''"
      by (auto simp: proposal_ListPending_def)
    have "mset (map tp_ID (proposal_ListPending treeID db))
        = mset (map tp_ID (filter (\<lambda>p. tp_TreeID p = treeID \<and> tp_Status p = ''pending'') (td_proposals db)))"
      by (simp add: proposal_ListPending_def)
    moreover have "distinct (map tp_ID (filter (\<lambda>p. tp_TreeID p = treeID \<and> tp_Status p = ''pending'') (td_proposals db)))"
      using ok by (simp add: topics_ok_def distinct_map_filter)
    ultimately show "distinct (map tp_ID (proposal_ListPending treeID db))" using mset_eq_imp_distinct_iff by blast
  qed
  have ok1: "topics_ok lib db1" using topic_moves.run_ok [OF m1 ok] by simp
  have "topic_move lib db1 (proposal_ExpirePending now treeID k db1)" for k
    unfolding proposal_ExpirePending_def by (rule topic_move.resolve) auto
  with m1 show ?thesis unfolding sweepExpired_def db1_def [symmetric] Let_def by (auto intro: rtranclp.rtrancl_into_rtrancl)
qed

section \<open>Detection\<close>

lemma highest_mem: "HighestConfidenceSignal sigs = Some sig \<Longrightarrow> sig \<in> set sigs"
proof -
  let ?f = "\<lambda>s best. case best of None \<Rightarrow> Some s | Some b \<Rightarrow> if sg_Confidence b < sg_Confidence s then Some s else best"
  have "fold ?f sigs b = Some sig \<Longrightarrow> sig \<in> set sigs \<or> b = Some sig" for b
    by (induction sigs arbitrary: b) (auto split: option.splits if_splits)
  then show "HighestConfidenceSignal sigs = Some sig \<Longrightarrow> sig \<in> set sigs" by (fastforce simp: HighestConfidenceSignal_def)
qed

lemma highest_best: "HighestConfidenceSignal sigs = Some sig \<Longrightarrow> s \<in> set sigs \<Longrightarrow> sg_Confidence s \<le> sg_Confidence sig"
proof -
  let ?f = "\<lambda>s best. case best of None \<Rightarrow> Some s | Some b \<Rightarrow> if sg_Confidence b < sg_Confidence s then Some s else best"
  have "fold ?f sigs b = Some sig \<Longrightarrow> (s \<in> set sigs \<or> b = Some s) \<Longrightarrow> sg_Confidence s \<le> sg_Confidence sig" for b
  proof (induction sigs arbitrary: b)
    case (Cons x xs)
    then show ?case
    proof (cases b)
      case (Some y)
      have grow: "fold ?f xs (Some z) = Some sig \<Longrightarrow> sg_Confidence z \<le> sg_Confidence sig" for z
        by (induction xs arbitrary: z) (auto split: if_splits, fastforce)
      show ?thesis
      proof (cases "sg_Confidence y < sg_Confidence x")
        case True
        then have run: "fold ?f xs (Some x) = Some sig" using Cons.prems(1) Some by simp
        from grow [OF run] True Cons.IH [OF run] Cons.prems(2) Some show ?thesis by auto
      next
        case False
        then have run: "fold ?f xs (Some y) = Some sig" using Cons.prems(1) Some by simp
        from grow [OF run] False Cons.IH [OF run] Cons.prems(2) Some show ?thesis by auto
      qed
    qed auto
  qed simp
  then show "HighestConfidenceSignal sigs = Some sig \<Longrightarrow> s \<in> set sigs \<Longrightarrow> sg_Confidence s \<le> sg_Confidence sig"
    by (simp add: HighestConfidenceSignal_def)
qed

text \<open>Whatever the signal, the message that was just written is its root.\<close>

lemma implicit_root:
  "detectImplicitWithWindow lib analyze n ctx cfg = Some sig \<Longrightarrow> sg_RootNodeID sig = n_ID n"
  by (auto simp: detectImplicitWithWindow_def DetectImplicit_def Let_def split: option.splits if_splits)

lemma explicit_root: "DetectExplicit base n = Some sig \<Longrightarrow> sg_RootNodeID sig = n_ID n"
  by (auto simp: DetectExplicit_def Let_def split: option.splits)

lemma structural_root: "DetectStructural base g n = Some sig \<Longrightarrow> sg_RootNodeID sig = n_ID n"
  by (auto simp: DetectStructural_def split: if_splits)

lemma detect_root:
  assumes "sig \<in> set (detect_signals lib g cfg n ctx)"
  shows "sg_RootNodeID sig = n_ID n"
proof -
  let ?tl = "tree_lib.truncate lib"
  have "DetectExplicit ?tl n = Some sig \<or> detectImplicitWithWindow lib (KeywordAnalyzer_Analyze ?tl) n ctx cfg = Some sig
      \<or> DetectStructural ?tl g n = Some sig"
    using assms by (auto simp: detect_signals_def Let_def split: option.splits if_splits)
  then show ?thesis using explicit_root implicit_root structural_root by blast
qed

lemma candidate_signal:
  "detection_candidate env now c n ctx db = Some sig \<Longrightarrow>
     sig \<in> set (detect_signals (te_lib env) (td_graph db) (configRecordToConfig c) n ctx)"
  by (auto simp: detection_candidate_def Let_def dest: highest_mem split: option.splits if_splits)

lemma generateProposalD:
  assumes "generateProposal newID now n ctx sig db = Inr (v, db')"
  obtains p where "db' = db\<lparr>td_proposals := td_proposals db @ [p]\<rparr>" "proposal_checks p" "tp_ID p = newID" "tp_Status p = ''pending''"
    "tp_ResolvedAt p = None" "tp_TreeID p = n_TreeID n" "tp_RootNodeID p = sg_RootNodeID sig" "tp_SubjectKey p = sg_SubjectKey sig"
    "tp_ExpiresAt p = now + proposalExpiryDuration" "v = dbProposalToService p" "newID \<notin> tp_ID ` set (td_proposals db)"
  using assms unfolding generateProposal_def Let_def proposal_Create_def
  by (fastforce simp: list_ex_iff split: sum.splits if_splits)

lemma propose_move:
  assumes g: "generateProposal newID now n ctx sig db = Inr (v, db')"
    and r: "sg_RootNodeID sig = n_ID n" "in_tree_node (td_graph db) (n_TreeID n) (n_ID n)"
  shows "topic_move lib db db'"
proof -
  obtain p where p: "db' = db\<lparr>td_proposals := td_proposals db @ [p]\<rparr>" "proposal_checks p" "tp_ID p = newID" "tp_Status p = ''pending''"
    "tp_ResolvedAt p = None" "tp_TreeID p = n_TreeID n" "tp_RootNodeID p = sg_RootNodeID sig" "newID \<notin> tp_ID ` set (td_proposals db)"
    by (rule generateProposalD [OF g])
  then have "proposal_ok (td_graph db) p" using r by (simp add: proposal_ok_def)
  then show ?thesis unfolding p(1) by (rule topic_move.propose) (use p in simp_all)
qed

lemma same_then_propose:
  assumes "same_parts db db1" "generateProposal newID now n ctx sig db1 = Inr (v, db2)"
    "sig \<in> set (detect_signals lib' g cfg n ctx')" "in_tree_node (td_graph db) (n_TreeID n) (n_ID n)"
  shows "topic_moves_run lib db db2"
proof -
  have "in_tree_node (td_graph db1) (n_TreeID n) (n_ID n)" using assms(1,4) by (simp add: same_parts_def)
  from propose_move [OF assms(2) detect_root [OF assms(3)] this] have "topic_moves_run lib db1 db2" by (rule r_into_rtranclp)
  with same_parts_move [OF assms(1)] show ?thesis by (rule converse_rtranclp_into_rtranclp)
qed

text \<open>What a call of \<open>AutoDetect\<close> with all its parts wired does to the tables.\<close>

lemma AutoDetect_cases:
  assumes c: "svc_AutoDetect env newIDs now n ctx s = (r, s')"
  obtains (nothing) "s' = s" "\<And>p. r \<noteq> Inr (Some p)"
  | (config) cfg db1 where "config_Get now (n_TreeID n) (ts_db s) = Inr (cfg, db1)" "s' = s\<lparr>ts_db := db1\<rparr>" "\<And>p. r \<noteq> Inr (Some p)"
      "detection_candidate env now cfg n ctx db1 = None \<or>
        (\<exists>sig e. detection_candidate env now cfg n ctx db1 = Some sig \<and> generateProposal (fst newIDs) now n ctx sig db1 = Inl e)"
  | (auto) cfg db1 sig v db2 r2 s3 where "config_Get now (n_TreeID n) (ts_db s) = Inr (cfg, db1)"
      "detection_candidate env now cfg n ctx db1 = Some sig" "generateProposal (fst newIDs) now n ctx sig db1 = Inr (v, db2)"
      "svc_ConfirmProposal env (snd newIDs) now (pv_ID v) (pv_Title v) (s\<lparr>ts_db := db2\<rparr>) = (r2, s3)" "ts_db s' = ts_db s3"
      "cr_AutoCreate cfg" "\<not> cr_AlwaysAsk cfg"
  | (ask) cfg db1 sig v db2 where "config_Get now (n_TreeID n) (ts_db s) = Inr (cfg, db1)"
      "detection_candidate env now cfg n ctx db1 = Some sig" "generateProposal (fst newIDs) now n ctx sig db1 = Inr (v, db2)"
      "ts_db s' = config_UpdateProposalTracking now (n_TreeID n) (n_SequenceNum n) (messages_since cfg n) db2" "r = Inr (Some v)"
proof (cases "te_detection env")
  case False
  show ?thesis by (rule nothing) (use c False in \<open>auto simp: svc_AutoDetect_def\<close>)
next
  case True
  show ?thesis
  proof (cases "config_Get now (n_TreeID n) (ts_db s)")
    case (Inl e)
    show ?thesis by (rule nothing) (use c True Inl in \<open>auto simp: svc_AutoDetect_def\<close>)
  next
    case (Inr p)
    obtain cfg db1 where p: "p = (cfg, db1)" by (cases p)
    note get = Inr [unfolded p]
    show ?thesis
    proof (cases "detection_candidate env now cfg n ctx db1")
      case None
      show ?thesis by (intro config [OF get]) (use c True get None in \<open>auto simp: svc_AutoDetect_def Let_def\<close>)
    next
      case (Some sig)
      show ?thesis
      proof (cases "generateProposal (fst newIDs) now n ctx sig db1")
        case (Inl e)
        show ?thesis by (intro config [OF get]) (use c True get Some Inl in \<open>auto simp: svc_AutoDetect_def Let_def\<close>)
      next
        case (Inr q)
        obtain v db2 where q: "q = (v, db2)" by (cases q)
        note gen = Inr [unfolded q]
        show ?thesis
        proof (cases "cr_AutoCreate cfg \<and> \<not> cr_AlwaysAsk cfg")
          case True
          obtain r2 s3 where conf: "svc_ConfirmProposal env (snd newIDs) now (pv_ID v) (pv_Title v) (s\<lparr>ts_db := db2\<rparr>) = (r2, s3)"
            by fastforce
          have "ts_db s' = ts_db s3" using c \<open>te_detection env\<close> get Some gen conf True
            by (auto simp: svc_AutoDetect_def Let_def split: sum.splits)
          then show ?thesis using auto [OF get Some gen conf] True by blast
        next
          case False
          then have "ts_db s' = config_UpdateProposalTracking now (n_TreeID n) (n_SequenceNum n) (messages_since cfg n) db2" "r = Inr (Some v)"
            using c \<open>te_detection env\<close> get Some gen by (auto simp: svc_AutoDetect_def Let_def)
          then show ?thesis using ask [OF get Some gen] by blast
        qed
      qed
    qed
  qed
qed

lemma detect_moves:
  assumes ok: "topics_ok (te_lib env) (ts_db s)" and c: "svc_AutoDetect env newIDs now n ctx s = (r, s')"
    and n: "in_tree_node (td_graph (ts_db s)) (n_TreeID n) (n_ID n)"
  shows "topic_moves_run (te_lib env) (ts_db s) (ts_db s')"
  using c
proof (cases rule: AutoDetect_cases)
  case (config cfg db1)
  then show ?thesis using moves_same [OF config_Get_same [OF config(1)]] by simp
next
  case (auto cfg db1 sig v db2 r2 s3)
  have same: "same_parts (ts_db s) db1" by (rule config_Get_same [OF auto(1)])
  have m: "topic_moves_run (te_lib env) (ts_db s) db2"
    by (rule same_then_propose [OF same auto(3) candidate_signal [OF auto(2)] n])
  then have "topics_ok (te_lib env) (ts_db (s\<lparr>ts_db := db2\<rparr>))" using topic_moves.run_ok ok by simp
  from rtranclp_trans [OF m] confirm_moves [OF this auto(4)] show ?thesis by (simp add: auto(5))
next
  case (ask cfg db1 sig v db2)
  have same: "same_parts (ts_db s) db1" by (rule config_Get_same [OF ask(1)])
  have "topic_moves_run (te_lib env) (ts_db s) db2"
    by (rule same_then_propose [OF same ask(3) candidate_signal [OF ask(2)] n])
  then show ?thesis unfolding ask(4) by (rule moves_then_same) simp
qed simp

section \<open>Histories\<close>

text \<open>
  The calls of the service, the statements of its repositories that no call makes, changes of the
  graph and of the streams. A message that is examined is a row of its tree.
\<close>

inductive topic_step :: "topic_env \<Rightarrow> topic_state \<Rightarrow> topic_state \<Rightarrow> bool" for env where
  graph: "graph_le (td_graph (ts_db s)) g \<Longrightarrow> topic_step env s (update_db (\<lambda>db. db\<lparr>td_graph := g\<rparr>) s)"
| stream: "topic_step env s (s\<lparr>ts_hub := h\<rparr>)"
| create: "svc_CreateTopic env newID now treeID rootID title description s = (r, s') \<Longrightarrow> topic_step env s s'"
| update: "svc_UpdateTopic env now i new_title new_description status s = (r, s') \<Longrightarrow> topic_step env s s'"
| archive: "topic_step env s (svc_ArchiveTopic now i s)"
| soft_delete: "topic_step env s (update_db (topic_SoftDelete now i) s)"
| confirm: "svc_ConfirmProposal env newID now i title s = (r2, s') \<Longrightarrow> topic_step env s s'"
| dismiss: "svc_DismissProposal env now i s = (r3, s') \<Longrightarrow> topic_step env s s'"
| list_pending: "svc_ListPendingProposals env now treeID s = (ps, s') \<Longrightarrow> topic_step env s s'"
| detect: "in_tree_node (td_graph (ts_db s)) (n_TreeID n) (n_ID n) \<Longrightarrow> topic_step env s (snd (svc_AutoDetect env newIDs now n ctx s))"
| get_config: "svc_GetDetectionConfig env now treeID s = (r4, s') \<Longrightarrow> topic_step env s s'"
| set_config: "svc_UpdateDetectionConfig env now treeID cfg s = (r4, s') \<Longrightarrow> topic_step env s s'"
| preview: "svc_PreviewProposal env now treeID i s = (r5, s') \<Longrightarrow> topic_step env s s'"
| index_node: "topic_step env s (update_db (RefreshNodeContentForTopics env now i) s)"
| clean: "topic_step env s (update_db (\<lambda>db. snd (cooldown_CleanExpired now db)) s)"
| add_member: "topic_AddMember now i j role (ts_db s) = Inr (m, db) \<Longrightarrow> topic_step env s (s\<lparr>ts_db := db\<rparr>)"
| remove_member: "topic_step env s (update_db (topic_RemoveMember i j) s)"
| set_role: "topic_UpdateRole i j role (ts_db s) = Inr db \<Longrightarrow> topic_step env s (s\<lparr>ts_db := db\<rparr>)"

lemma get_config_same: "svc_GetDetectionConfig env now treeID s = (r, s') \<Longrightarrow> same_parts (ts_db s) (ts_db s')"
  by (auto simp: svc_GetDetectionConfig_def dest: config_Get_same split: if_splits sum.splits)

lemma set_config_same: "svc_UpdateDetectionConfig env now treeID cfg s = (r, s') \<Longrightarrow> same_parts (ts_db s) (ts_db s')"
  by (auto simp: svc_UpdateDetectionConfig_def dest: config_Upsert_same split: if_splits sum.splits)

lemma preview_same:
  assumes "svc_PreviewProposal env now treeID i s = (r, s')"
  shows "same_parts (ts_db s) (ts_db s')"
proof (cases "svc_GetDetectionConfig env now treeID s")
  case (Pair r1 s1)
  have "s' = s \<or> s' = s1" using assms Pair by (auto simp: svc_PreviewProposal_def split: if_splits option.splits sum.splits)
  then show ?thesis using get_config_same [OF Pair] by auto
qed

lemma topic_step_moves:
  assumes "topic_step env s s'" "topics_ok (te_lib env) (ts_db s)"
  shows "topic_moves_run (te_lib env) (ts_db s) (ts_db s')"
  using assms(1)
proof cases
  case (graph g)
  then show ?thesis by (intro r_into_rtranclp topic_move.grow) simp_all
next
  case (list_pending now treeID ps)
  then have "ts_db s' = ts_db s \<or> ts_db s' = sweepExpired now treeID (ts_db s)"
    by (auto simp: svc_ListPendingProposals_def Let_def split: if_splits)
  then show ?thesis using sweep_moves [OF assms(2)] by auto
next
  case (detect n newIDs now ctx)
  obtain r where "svc_AutoDetect env newIDs now n ctx s = (r, s')" using detect(1) by (metis prod.collapse)
  from detect_moves [OF assms(2) this detect(2)] show ?thesis .
next
  case (clean now)
  then show ?thesis by (intro moves_same) (simp add: same_parts_def cooldown_CleanExpired_def Let_def)
qed (use assms(2) in \<open>auto simp: svc_ArchiveTopic_def intro: status_moves create_moves update_moves confirm_moves dismiss_moves
      moves_same members_same get_config_same set_config_same preview_same\<close>)

lemma topic_step_ok:
  "topic_step env s s' \<Longrightarrow> topics_ok (te_lib env) (ts_db s) \<Longrightarrow> topics_ok (te_lib env) (ts_db s') \<and> topics_le (ts_db s) (ts_db s')"
  using topic_step_moves topic_moves.run_ok by blast

interpretation topic_history: evolving "topic_step env" "\<lambda>s. topics_ok (te_lib env) (ts_db s)" "\<lambda>s s'. topics_le (ts_db s) (ts_db s')" for env
  by unfold_locales (auto intro: topics_le_refl topics_le_trans dest: topic_step_ok)

text \<open>The effects of the node service are steps, in which the detection looks at a message of the tables.\<close>

lemma effect_step:
  assumes "\<And>n ctx. eff = DetectTopics n ctx \<Longrightarrow> in_tree_node (td_graph (ts_db s)) (n_TreeID n) (n_ID n)"
  shows "topic_step env s (run_effect env newIDs now eff s)"
  using assms by (cases eff) (auto simp: run_effect_def intro: topic_step.intros)

end
