(* ===== verification/Topic_Properties.thy ===== *)
theory Topic_Properties
  imports Topic_Histories
begin

text \<open>
  Properties of the topics in all histories: what is unique, what is final, what a confirmation
  does when it is repeated, and what the counter of the detection makes of two proposals close
  to each other.
\<close>

section \<open>Topics and proposals\<close>

lemma empty_topics_ok: "td_topics db = [] \<Longrightarrow> td_proposals db = [] \<Longrightarrow> topics_ok lib db"
  by (simp add: topics_ok_def unique_topics_def backed_def)

text \<open>
  C35: In every history that starts without topics, each topic has a valid title and status, the
  slug of its title and a root in its own tree, and no two topics of a tree, deleted ones
  included, share a slug or a title up to case.
\<close>

theorem topics_well_formed:
  assumes "(topic_step env)\<^sup>*\<^sup>* s0 s" "td_topics (ts_db s0) = []" "td_proposals (ts_db s0) = []"
  shows "(\<forall>t \<in> set (td_topics (ts_db s)). topic_ok (te_lib env) (td_graph (ts_db s)) t)
    \<and> unique_topics (te_lib env) (td_topics (ts_db s))"
  using topic_history.run_ok [OF assms(1)] empty_topics_ok [OF assms(2,3)] by (simp add: topics_ok_def)


section \<open>Confirming twice\<close>

lemma find_appended: "find q (xs @ ys) = (case find q xs of None \<Rightarrow> find q ys | Some x \<Rightarrow> Some x)"
  by (induction xs) simp_all

text \<open>The tables after a confirmation.\<close>

lemma confirmed_state:
  assumes "svc_ConfirmProposal env newID now i title s = (Inr t, s')" "proposal_GetByID i (ts_db s) = Some p" "tp_Status p = ''pending''"
  obtains q where "proposal_GetByID i (ts_db s') = Some q" "tp_Status q = ''confirmed''" "tp_RootNodeID q = tp_RootNodeID p"
    "td_topics (ts_db s') = td_topics (ts_db s) @ [t]" "t_RootNodeID t = tp_RootNodeID p" "t_live t"
proof -
  have "confirm_pending env newID now p title s = (Inr t, s')" using assms by (simp add: svc_ConfirmProposal_def)
  note d = confirm_pendingD [OF this]
  obtain content where s': "ts_db s' = (edit_proposals (\<lambda>q. tp_ID q = tp_ID p) ''confirmed'' (Some now)
       ((ts_db s)\<lparr>td_topics := td_topics (ts_db s) @ [t]\<rparr>))\<lparr>td_content := content\<rparr>" using d(5) ..
  let ?r = "resolved_by (\<lambda>q. tp_ID q = tp_ID p) ''confirmed'' now"
  have id: "tp_ID p = i" using proposal_GetByIDD [OF assms(2)] by simp
  have "find (\<lambda>q. tp_ID q = i) (map ?r ps) = map_option ?r (find (\<lambda>q. tp_ID q = i) ps)" for ps
    by (induction ps) simp_all
  then have "proposal_GetByID i (ts_db s') = Some (?r p)"
    using assms(2) by (simp add: proposal_GetByID_def s' edit_proposals_eq)
  moreover have "tp_Status (?r p) = ''confirmed''" by (simp add: resolved_by_def)
  ultimately show ?thesis using that d(2,4) by (simp add: s' edit_proposals_eq)
qed

text \<open>
  C37: Confirming is idempotent as long as the message is the root of no other topic: when a
  pending proposal is confirmed, every later confirmation, with any title, returns the same topic
  and changes nothing.
\<close>

theorem confirm_idempotent:
  assumes "svc_ConfirmProposal env newID now i title s = (Inr t, s')" "proposal_GetByID i (ts_db s) = Some p"
    "tp_Status p = ''pending''" "topic_GetByRootNode (tp_RootNodeID p) (ts_db s) = None"
  shows "svc_ConfirmProposal env newID' now' i title' s' = (Inr t, s')"
proof -
  obtain q where q: "proposal_GetByID i (ts_db s') = Some q" "tp_Status q = ''confirmed''" "tp_RootNodeID q = tp_RootNodeID p"
    "td_topics (ts_db s') = td_topics (ts_db s) @ [t]" "t_RootNodeID t = tp_RootNodeID p" "t_live t"
    by (rule confirmed_state [OF assms(1-3)])
  then have "topic_GetByRootNode (tp_RootNodeID p) (ts_db s') = Some t"
    using assms(4) by (simp add: topic_GetByRootNode_def find_topic_def find_appended)
  with q show ?thesis by (simp add: svc_ConfirmProposal_def)
qed

text \<open>
  With another topic at the message, which nothing prevents, the second confirmation returns
  that topic instead of the one it created.
\<close>

lemma confirm_other_topic:
  assumes "svc_ConfirmProposal env newID now i title s = (Inr t, s')" "proposal_GetByID i (ts_db s) = Some p"
    "tp_Status p = ''pending''" "topic_GetByRootNode (tp_RootNodeID p) (ts_db s) = Some u"
  shows "svc_ConfirmProposal env newID' now' i title' s' = (Inr u, s')"
proof -
  obtain q where q: "proposal_GetByID i (ts_db s') = Some q" "tp_Status q = ''confirmed''" "tp_RootNodeID q = tp_RootNodeID p"
    "td_topics (ts_db s') = td_topics (ts_db s) @ [t]"
    by (rule confirmed_state [OF assms(1-3)])
  then have "topic_GetByRootNode (tp_RootNodeID p) (ts_db s') = Some u"
    using assms(4) by (simp add: topic_GetByRootNode_def find_topic_def find_appended)
  with q show ?thesis by (simp add: svc_ConfirmProposal_def)
qed

section \<open>The counter of the detection\<close>

text \<open>What the detection reads of a tree: its configuration and the proposals it has had.\<close>

definition detection_view :: "uuid \<Rightarrow> topic_db \<Rightarrow> config_record option \<times> uuid list" where
  "detection_view treeID db =
     (find_config treeID db, map tp_ID (filter (\<lambda>p. tp_TreeID p = treeID) (td_proposals db)))"

definition stuck :: "uuid \<Rightarrow> topic_db \<Rightarrow> bool" where
  "stuck treeID db \<longleftrightarrow> (\<exists>c. find_config treeID db = Some c \<and> 0 < cr_MessagesSinceProposal c \<and> cr_MessagesSinceProposal c < 3)"

definition same_proposals :: "uuid \<Rightarrow> topic_db \<Rightarrow> topic_db \<Rightarrow> bool" where
  "same_proposals treeID db db' \<longleftrightarrow> snd (detection_view treeID db') = snd (detection_view treeID db)"

lemma filter_map_keep: "(\<And>x. P (f x) = P x) \<Longrightarrow> filter P (map f xs) = map f (filter P xs)"
  by (induction xs) simp_all

lemma view_edit_proposals [simp]: "detection_view treeID (edit_proposals hit status (Some at_time) db) = detection_view treeID db"
  by (simp add: detection_view_def find_config_def edit_proposals_eq filter_map_keep comp_def)

lemma view_status [simp]: "detection_view treeID (proposal_UpdateStatus i status (Some at_time) db) = detection_view treeID db"
  by (simp add: proposal_UpdateStatus_def)

lemma view_topics [simp]:
  "detection_view treeID (db\<lparr>td_topics := ts\<rparr>) = detection_view treeID db"
  "detection_view treeID (db\<lparr>td_content := cs\<rparr>) = detection_view treeID db"
  "detection_view treeID (db\<lparr>td_graph := g\<rparr>) = detection_view treeID db"
  "detection_view treeID (db\<lparr>td_members := ms\<rparr>) = detection_view treeID db"
  "detection_view treeID (db\<lparr>td_cooldowns := ds\<rparr>) = detection_view treeID db"
  by (simp_all add: detection_view_def find_config_def)

lemma view_index [simp]: "detection_view treeID (refreshTopicContentIndex env now i db) = detection_view treeID db"
  using refreshTopicContentIndex_content [of env now i db] by auto

lemma view_refresh_index [simp]: "detection_view treeID (refresh_index lib now i ns db) = detection_view treeID db"
  by (auto simp: refresh_index_def RefreshNodeContentIndex_def Let_def split: option.split)

lemma view_edit_topic [simp]: "detection_view treeID (edit_topic i f db) = detection_view treeID db"
  by (simp add: edit_topic_def)

lemma view_create: "topic_Create lib newID now input db = Inr (t, db') \<Longrightarrow> detection_view treeID db' = detection_view treeID db"
  by (auto simp: topic_Create_def insert_topic_def Let_def split: sum.splits if_splits)

lemma view_count: "topic_RefreshNodeCount i db = Some (n, db') \<Longrightarrow> detection_view treeID db' = detection_view treeID db"
  by (auto simp: topic_RefreshNodeCount_def split: option.splits)

lemma view_update: "topic_Update lib i input db = Inr (t, db') \<Longrightarrow> detection_view treeID db' = detection_view treeID db"
  by (auto simp: topic_Update_def Let_def split: option.splits if_splits)

lemma view_cooldown: "cooldown_Add now t key until db = Inr db' \<Longrightarrow> detection_view treeID db' = detection_view treeID db"
  by (auto simp: cooldown_Add_def split: if_splits)

lemma view_sweep [simp]: "detection_view treeID (sweepExpired now t db) = detection_view treeID db"
proof -
  have "detection_view treeID (fold (\<lambda>p d. if tp_ExpiresAt p < now then proposal_UpdateStatus (tp_ID p) ''expired'' (Some now) d else d) ps db)
      = detection_view treeID db" for ps db
    by (induction ps arbitrary: db) simp_all
  then show ?thesis by (simp add: sweepExpired_def Let_def proposal_ExpirePending_def)
qed

lemma view_confirm:
  assumes "svc_ConfirmProposal env newID now i title s = (r, s')"
  shows "detection_view treeID (ts_db s') = detection_view treeID (ts_db s)"
proof (cases "proposal_GetByID i (ts_db s)")
  case (Some p)
  show ?thesis
  proof (cases "tp_Status p = ''pending''")
    case True
    with assms Some have "confirm_pending env newID now p title s = (r, s')" by (simp add: svc_ConfirmProposal_def)
    then show ?thesis by (auto simp: confirm_pending_def resolve_proposal_def dest: view_create [where treeID = treeID] split: if_splits sum.splits)
  next
    case False
    with assms Some have "s' = s" by (auto simp: svc_ConfirmProposal_def split: if_splits option.splits)
    then show ?thesis by simp
  qed
qed (use assms in \<open>simp add: svc_ConfirmProposal_def\<close>)

lemma find_config_keep: "(\<And>c. cr_TreeID (f c) = cr_TreeID c) \<Longrightarrow>
    find (\<lambda>c. cr_TreeID c = t) (map (\<lambda>c. if cr_TreeID c = t' then f c else c) cs)
      = map_option (\<lambda>c. if t = t' then f c else c) (find (\<lambda>c. cr_TreeID c = t) cs)"
  by (induction cs) auto

text \<open>Reading the configuration never changes that of a tree that has one.\<close>

lemma view_get:
  assumes "config_Get now t db = Inr (c, db')" "find_config treeID db \<noteq> None"
  shows "detection_view treeID db' = detection_view treeID db"
  using assms by (auto simp: config_Get_def detection_view_def find_config_def find_appended split: option.splits if_splits)

lemma stuck_view: "detection_view treeID db' = detection_view treeID db \<Longrightarrow> stuck treeID db \<Longrightarrow> stuck treeID db' \<and> same_proposals treeID db db'"
  by (simp add: stuck_def same_proposals_def detection_view_def)

lemma stuck_upsert:
  assumes "config_Upsert now t cfg db = Inr (c, db')" "stuck treeID db"
  shows "stuck treeID db' \<and> same_proposals treeID db db'"
proof -
  obtain c0 where c0: "find (\<lambda>c. cr_TreeID c = treeID) (td_configs db) = Some c0" "0 < cr_MessagesSinceProposal c0" "cr_MessagesSinceProposal c0 < 3"
    using assms(2) by (auto simp: stuck_def find_config_def)
  from assms(1) have "(\<exists>f. db' = edit_config t f db \<and> (\<forall>c. cr_TreeID (f c) = cr_TreeID c \<and> cr_MessagesSinceProposal (f c) = cr_MessagesSinceProposal c))
      \<or> (\<exists>c. db' = db\<lparr>td_configs := td_configs db @ [c]\<rparr>)"
    by (auto simp: config_Upsert_def Let_def split: if_splits option.splits)
  then show ?thesis
    using c0 by (auto simp: stuck_def same_proposals_def detection_view_def find_config_def edit_config_def find_config_keep find_appended)
qed

lemma stuck_tracking:
  assumes "stuck treeID db" "t \<noteq> treeID"
  shows "detection_view treeID (config_UpdateProposalTracking now t q m db) = detection_view treeID db"
  using assms by (simp add: config_UpdateProposalTracking_def edit_config_def detection_view_def find_config_def find_config_keep option.map_ident)

lemma blocked_candidate:
  "0 < cr_MessagesSinceProposal c \<Longrightarrow> cr_MessagesSinceProposal c < 3 \<Longrightarrow> detection_candidate env now c n ctx db = None"
  by (simp add: detection_candidate_def spacing_blocks_def less_max_iff_disj Let_def)

lemma stuck_detect:
  assumes c: "svc_AutoDetect env newIDs now n ctx s = (r, s')" and st: "stuck treeID (ts_db s)"
  shows "detection_view treeID (ts_db s') = detection_view treeID (ts_db s) \<and> (n_TreeID n = treeID \<longrightarrow> s' = s)"
proof (cases "n_TreeID n = treeID")
  case True
  obtain c0 where c0: "find_config treeID (ts_db s) = Some c0" "0 < cr_MessagesSinceProposal c0" "cr_MessagesSinceProposal c0 < 3"
    using st by (auto simp: stuck_def)
  have "detection_candidate env now c0 n ctx (ts_db s) = None" using c0(2,3) by (rule blocked_candidate)
  then have "s' = s" using c c0(1) True by (auto simp: svc_AutoDetect_def config_Get_def split: if_splits)
  then show ?thesis by simp
next
  case False
  have found: "find_config treeID (ts_db s) \<noteq> None" using st by (auto simp: stuck_def)
  have gen: "detection_view treeID db2 = detection_view treeID db1" if "generateProposal i now n ctx sig db1 = Inr (v, db2)" for i sig v db1 db2
    by (rule generateProposalD [OF that]) (use False in \<open>simp add: detection_view_def find_config_def\<close>)
  from c have "detection_view treeID (ts_db s') = detection_view treeID (ts_db s)"
  proof (cases rule: AutoDetect_cases)
    case (config cfg db1)
    then show ?thesis using view_get [OF config(1) found] by simp
  next
    case (auto cfg db1 sig v db2 r2 s3)
    then show ?thesis using view_get [OF auto(1) found] gen [OF auto(3)] view_confirm [OF auto(4)] by simp
  next
    case (ask cfg db1 sig v db2)
    have eq: "detection_view treeID db2 = detection_view treeID (ts_db s)" using view_get [OF ask(1) found] gen [OF ask(3)] by simp
    then have "stuck treeID db2" using st stuck_view by metis
    then show ?thesis using eq stuck_tracking False by (simp add: ask(4))
  qed simp
  with False show ?thesis by simp
qed

lemma stuck_step:
  assumes "topic_step env s s'" "stuck treeID (ts_db s)"
  shows "stuck treeID (ts_db s') \<and> same_proposals treeID (ts_db s) (ts_db s')"
proof -
  have found: "find_config treeID (ts_db s) \<noteq> None" using assms(2) by (auto simp: stuck_def)
  have get: "detection_view treeID (ts_db s2) = detection_view treeID (ts_db s)"
    if "svc_GetDetectionConfig env now t s = (r, s2)" for now t r s2
    using that view_get [OF _ found] by (auto simp: svc_GetDetectionConfig_def split: if_splits sum.splits)
  have "detection_view treeID (ts_db s') = detection_view treeID (ts_db s) \<or> (\<exists>now t cfg c. config_Upsert now t cfg (ts_db s) = Inr (c, ts_db s'))"
    using assms(1)
  proof cases
    case (create newID now t rootID title description r)
    then show ?thesis
      by (auto simp: svc_CreateTopic_def Let_def dest!: view_create [where treeID = treeID] view_count [where treeID = treeID] split: if_splits option.splits sum.splits)
  next
    case (update now i title description status r)
    then show ?thesis
      by (auto simp: svc_UpdateTopic_def Let_def topic_Restore_def topic_Archive_def dest!: view_update [where treeID = treeID] split: if_splits option.splits sum.splits)
  next
    case (dismiss now i r)
    then show ?thesis
      by (auto simp: svc_DismissProposal_def resolve_proposal_def Let_def dest: view_cooldown [where treeID = treeID] split: if_splits option.splits sum.splits)
  next
    case (list_pending now t ps)
    then show ?thesis by (auto simp: svc_ListPendingProposals_def Let_def split: if_splits)
  next
    case (detect n newIDs now ctx)
    then show ?thesis using stuck_detect [OF _ assms(2)] by (metis prod.collapse)
  next
    case (set_config now t cfg r)
    then show ?thesis by (auto simp: svc_UpdateDetectionConfig_def split: if_splits sum.splits)
  next
    case (preview now t i r)
    then show ?thesis
    proof (cases "svc_GetDetectionConfig env now t s")
      case (Pair r1 s1)
      have "s' = s \<or> s' = s1" using preview Pair by (auto simp: svc_PreviewProposal_def split: if_splits option.splits sum.splits)
      then show ?thesis using get [OF Pair] by auto
    qed
  next
    case (index_node now i)
    have "detection_view treeID (fold (\<lambda>t::topic. refresh_index lib now (t_ID t) [i]) ts db) = detection_view treeID db" for lib ts db
      by (induction ts arbitrary: db) simp_all
    with index_node show ?thesis by (simp add: RefreshNodeContentForTopics_def)
  qed (auto simp: svc_ArchiveTopic_def topic_Archive_def topic_SoftDelete_def cooldown_CleanExpired_def topic_RemoveMember_def
      topic_AddMember_def topic_UpdateRole_def Let_def dest: view_confirm get split: if_splits)
  then show ?thesis using stuck_view assms(2) stuck_upsert by metis
qed

interpretation lockout: evolving "topic_step env" "\<lambda>s. stuck treeID (ts_db s)" "\<lambda>s s'. same_proposals treeID (ts_db s) (ts_db s')" for env treeID
  by unfold_locales (auto simp: same_proposals_def dest: stuck_step)

text \<open>
  C38: The counter of the messages since the last proposal is written only when a proposal is
  made, so it does not count: once it stands at one or two, no message of the tree ever leads to
  a proposal again, whatever happens and however the detection is configured.
\<close>

theorem detection_lockout:
  assumes "(topic_step env)\<^sup>*\<^sup>* s s'" "find_config treeID (ts_db s) = Some c"
    "0 < cr_MessagesSinceProposal c" "cr_MessagesSinceProposal c < 3"
  shows "map tp_ID (filter (\<lambda>p. tp_TreeID p = treeID) (td_proposals (ts_db s')))
      = map tp_ID (filter (\<lambda>p. tp_TreeID p = treeID) (td_proposals (ts_db s)))
    \<and> (n_TreeID n = treeID \<longrightarrow> svc_AutoDetect env newIDs now n ctx s' = (Inr None, s'))"
proof -
  have "stuck treeID (ts_db s)" using assms(2-) by (simp add: stuck_def)
  from lockout.run_ok [OF assms(1) this] have st: "stuck treeID (ts_db s')" and same: "same_proposals treeID (ts_db s) (ts_db s')" by simp_all
  obtain c0 where c0: "find_config treeID (ts_db s') = Some c0" "0 < cr_MessagesSinceProposal c0" "cr_MessagesSinceProposal c0 < 3"
    using st by (auto simp: stuck_def)
  then have "n_TreeID n = treeID \<Longrightarrow> svc_AutoDetect env newIDs now n ctx s' = (Inr None, s')"
    by (simp add: svc_AutoDetect_def config_Get_def blocked_candidate)
  with same show ?thesis by (simp add: same_proposals_def detection_view_def)
qed

text \<open>
  A proposal leaves the counter so when the one before it was one or two messages earlier: the
  spacing it should keep is not checked then, because the first proposal left the counter at zero.
\<close>

lemma close_proposals_stick:
  assumes "svc_AutoDetect env newIDs now n ctx s = (Inr (Some v), s')" "find_config (n_TreeID n) (ts_db s) = Some c"
    "cr_AlwaysAsk c" "0 < cr_LastProposalSeq c" "cr_LastProposalSeq c < n_SequenceNum n" "n_SequenceNum n < cr_LastProposalSeq c + 3"
  shows "stuck (n_TreeID n) (ts_db s')"
  using assms(1)
proof (cases rule: AutoDetect_cases)
  case (ask cfg db1 sig v' db2)
  have cfg: "cfg = c" "db1 = ts_db s" using ask(1) assms(2) by (simp_all add: config_Get_def)
  have "find_config (n_TreeID n) db2 = Some c"
    by (rule generateProposalD [OF ask(3)]) (use assms(2) in \<open>simp add: find_config_def cfg(2)\<close>)
  then show ?thesis using assms(4-)
    by (auto simp: ask(4) stuck_def config_UpdateProposalTracking_def edit_config_def find_config_def find_config_keep messages_since_def cfg(1))
next
  case (auto cfg db1 sig v' db2 r2 s3)
  then show ?thesis using assms(2,3) by (simp add: config_Get_def)
qed blast+

section \<open>Signals\<close>

text \<open>The window of five messages cannot reach a minimum above five.\<close>

lemma implicit_off_above_five:
  assumes "5 < dc_MinMessagesPerTopic cfg"
  shows "detectImplicitWithWindow lib analyze n ctx cfg = None"
proof -
  have "int (length (n # take 4 ctx)) \<le> 5" by simp
  also have "\<dots> < max 3 (dc_MinMessagesPerTopic cfg)" using assms by simp
  finally show ?thesis unfolding detectImplicitWithWindow_def DetectImplicit_def Let_def by (rule if_P)
qed

lemma common_keys_le: "common_keys a b \<le> length a"
  by (simp add: common_keys_def)

lemma jaccard_le_1: "jaccardDistance a b \<le> 1"
  by (simp add: jaccardDistance_def)

text \<open>The blend of the code tokens never decides whether the distance reaches its threshold.\<close>

lemma code_blend_idle:
  assumes "KeywordAnalyzer_Analyze lib cur prev = Some (distance, overlap)" "cur \<noteq> []" "prev \<noteq> []"
  shows "70 / 100 \<le> distance \<longleftrightarrow> 70 / 100 \<le> jaccardDistance (fst (tokenize lib cur ([], []))) (fst (tokenize lib prev ([], [])))"
proof -
  obtain kw code where c: "tokenize lib cur ([], []) = (kw, code)" by fastforce
  obtain kw' code' where p: "tokenize lib prev ([], []) = (kw', code')" by fastforce
  have "jaccardDistance code code' / 2 \<le> 1 / 2" using jaccard_le_1 [of code code'] by simp
  moreover have "distance = (if code \<noteq> [] \<or> code' \<noteq> [] then max (jaccardDistance kw kw') (jaccardDistance code code' / 2) else jaccardDistance kw kw')"
    using assms c p by (auto simp: KeywordAnalyzer_Analyze_def Let_def split: if_splits)
  ultimately show ?thesis by (auto simp: c p max_def)
qed

text \<open>The subject key does not depend on the order in which the loop visits the map.\<close>

lemma top_step_swap: "top_step p (top_step q b) = top_step q (top_step p b)"
proof -
  have "fst p = fst q \<and> snd p = snd q \<Longrightarrow> p = q" by (simp add: prod_eq_iff)
  then show ?thesis unfolding top_step_def by (smt (verit) linorder_neqE order_less_asym order_less_trans)
qed

lemma subject_key_order: "mset kw = mset kw' \<Longrightarrow> fold top_step kw best = fold top_step kw' best"
  by (rule fold_multiset_equiv [THEN fun_cong]) (auto simp: top_step_swap)

section \<open>A small history\<close>

text \<open>A tree with a root and a reply, for which a proposal is pending and the counter stands at two.\<close>

definition topic_demo_lib :: topic_lib where
  "topic_demo_lib = \<lparr>tl_ustr = (\<lambda>u. itoa (uint u)), tl_uparse = (\<lambda>_. None), tl_sha256hex = (\<lambda>s. s), tl_rawlen = (\<lambda>_. 0),
     tl_marshal = (\<lambda>_. []), tl_ilike = (\<lambda>_ _. True), tl_lower = (\<lambda>s. s), tp_fmt2 = (\<lambda>_. []), tp_pglower = (\<lambda>s. s),
     tp_plain = (\<lambda>s. s)\<rparr>"

definition topic_demo_env :: topic_env where
  "topic_demo_env = \<lparr>te_lib = topic_demo_lib, te_detection = True, te_index = False\<rparr>"

definition demo_proposal :: topic_proposal where
  "demo_proposal = \<lparr>tp_ID = 40, tp_TreeID = 10, tp_RootNodeID = 12, tp_Title = ''hi'', tp_Description = [], tp_DetectionType = ''explicit'',
     tp_Confidence = 1, tp_SubjectKey = ''hi'', tp_Status = ''pending'', tp_ExpiresAt = 1000, tp_CreatedAt = 6, tp_ResolvedAt = None,
     tp_Evidence = JArr []\<rparr>"

definition demo_config :: config_record where
  "demo_config = \<lparr>cr_TreeID = 10, cr_AutoCreate = False, cr_AlwaysAsk = True, cr_DetectionLevel = ''full'', cr_MinMessagesPerTopic = 3,
     cr_ProposalCooldown = 10, cr_LastProposalSeq = 2, cr_MessagesSinceProposal = 2, cr_UpdatedAt = 6\<rparr>"

definition topic_demo :: topic_state where
  "topic_demo = \<lparr>ts_db = \<lparr>td_graph = gs_db demo2, td_profiles = [], td_topics = [], td_members = [], td_proposals = [demo_proposal],
     td_configs = [demo_config], td_cooldowns = [], td_content = []\<rparr>, ts_hub = None\<rparr>"

definition demo_topic :: topic where
  "demo_topic = \<lparr>t_ID = 50, t_TreeID = 10, t_RootNodeID = 12, t_Title = ''hi'', t_Description = [], t_Slug = ''hi'',
     t_ParentTopicID = None, t_Status = ''active'', t_TopicTags = [], t_NodeCount = 0, t_CreatedAt = 9, t_ArchivedAt = None,
     t_DeletedAt = None\<rparr>"

definition demo_confirmed :: topic_state where
  "demo_confirmed = topic_demo\<lparr>ts_db := (ts_db topic_demo)\<lparr>td_topics := [demo_topic],
     td_proposals := [demo_proposal\<lparr>tp_Status := ''confirmed'', tp_ResolvedAt := Some 9\<rparr>]\<rparr>\<rparr>"

lemmas topic_demo_defs = topic_demo_lib_def topic_demo_env_def demo_proposal_def demo_config_def topic_demo_def demo_topic_def
  demo_confirmed_def

lemma hi_strings [simp]: "trim_space ''hi'' = ''hi''" "replace_all '' '' ''-'' ''hi'' = ''hi''"
  by code_simp+

lemma demo_confirm: "svc_ConfirmProposal topic_demo_env 50 9 40 [] topic_demo = (Inr demo_topic, demo_confirmed)"
  by (simp add: svc_ConfirmProposal_def confirm_pending_def confirm_checks_def proposal_input_def proposal_GetByID_def
      topic_Create_def insert_topic_def topic_checks_def topic_GetBySlug_def find_topic_def generateTopicSlug_def generateSlug_def
      node_GetByID_def refreshTopicContentIndex_def resolve_proposal_def update_db_def proposal_UpdateStatus_def edit_proposals_def
      has_tree_def has_node_def n_active_def tree_lib.truncate_def Let_def topic_demo_defs demo_defs)

lemma confirm_idempotent_witness:
  "svc_ConfirmProposal topic_demo_env 51 10 40 ''new'' demo_confirmed = (Inr demo_topic, demo_confirmed)"
  by (rule confirm_idempotent [OF demo_confirm, where p = demo_proposal]) (simp_all add: proposal_GetByID_def topic_GetByRootNode_def find_topic_def topic_demo_defs)

lemma topic_demo_ok: "topics_ok (te_lib topic_demo_env) (ts_db topic_demo)"
  by (simp add: topics_ok_def unique_topics_def backed_def proposal_ok_def proposal_checks_def in_tree_node_def topic_demo_defs demo_defs)

lemma topic_step_run: "topic_step env s s' \<Longrightarrow> (topic_step env)\<^sup>*\<^sup>* s s'"
  by (rule r_into_rtranclp)

lemma confirmed_step: "(topic_step topic_demo_env)\<^sup>*\<^sup>* topic_demo demo_confirmed"
  by (rule r_into_rtranclp) (rule topic_step.confirm [OF demo_confirm])


text \<open>A topic made by a user in a tree without topics.\<close>

definition topic_start :: topic_state where
  "topic_start = topic_demo\<lparr>ts_db := (ts_db topic_demo)\<lparr>td_proposals := []\<rparr>\<rparr>"

lemma topics_well_formed_witness:
  "\<exists>s. svc_CreateTopic topic_demo_env 50 9 10 12 ''hi'' [] topic_start = (Inr (topicToSummary (demo_topic\<lparr>t_NodeCount := 1\<rparr>)), s)
     \<and> td_topics (ts_db s) = [demo_topic\<lparr>t_NodeCount := 1\<rparr>] \<and> topic_ok topic_demo_lib (gs_db demo2) (demo_topic\<lparr>t_NodeCount := 1\<rparr>)"
proof -
  have "topic_member_nodes (gs_db demo2) demo_topic = Some [demo_reply]"
    by (simp add: topic_member_nodes_def scope_seed_def scope_levels_step scope_children_def scope_edges_def
        n_active_def e_active_def topic_demo_defs demo_defs)
  then have c: "svc_CreateTopic topic_demo_env 50 9 10 12 ''hi'' [] topic_start
      = (Inr (topicToSummary (demo_topic\<lparr>t_NodeCount := 1\<rparr>)), topic_start\<lparr>ts_db := (ts_db topic_start)\<lparr>td_topics := [demo_topic\<lparr>t_NodeCount := 1\<rparr>]\<rparr>\<rparr>)"
    by (simp add: svc_CreateTopic_def topic_Create_def insert_topic_def topic_checks_def topic_RefreshNodeCount_def generateSlug_def
        node_GetByID_def tree_GetByID_def tr_active_def n_active_def has_tree_def has_node_def refreshTopicContentIndex_def
        tree_lib.truncate_def topicToSummary_def Let_def topic_start_def topic_demo_defs demo_defs)
  from topics_well_formed [OF topic_step_run [OF topic_step.create [OF c]]]
  have "topic_ok topic_demo_lib (gs_db demo2) (demo_topic\<lparr>t_NodeCount := 1\<rparr>)"
    by (simp add: topic_start_def topic_demo_def topic_demo_env_def)
  with c show ?thesis by simp
qed

text \<open>Turning the level off and on again does not help.\<close>

lemma detection_lockout_witness:
  "\<exists>s. svc_UpdateDetectionConfig topic_demo_env 20 10 DefaultDetectionConfig topic_demo = (Inr DefaultDetectionConfig, s)
     \<and> svc_AutoDetect topic_demo_env (60, 61) 21 demo_reply [] s = (Inr None, s)"
proof -
  obtain s where c: "svc_UpdateDetectionConfig topic_demo_env 20 10 DefaultDetectionConfig topic_demo = (Inr DefaultDetectionConfig, s)"
    by (simp add: svc_UpdateDetectionConfig_def DefaultDetectionConfig_def config_Upsert_def config_checks_def default_config_def
        find_config_def configRecordToConfig_def Let_def topic_demo_defs)
  have "map tp_ID (filter (\<lambda>p. tp_TreeID p = 10) (td_proposals (ts_db s)))
      = map tp_ID (filter (\<lambda>p. tp_TreeID p = 10) (td_proposals (ts_db topic_demo)))
    \<and> (n_TreeID demo_reply = 10 \<longrightarrow> svc_AutoDetect topic_demo_env (60, 61) 21 demo_reply [] s = (Inr None, s))"
    by (rule detection_lockout [OF topic_step_run [OF topic_step.set_config [OF c]], where c = demo_config])
      (simp_all add: find_config_def topic_demo_defs)
  with c show ?thesis by (simp add: demo_reply_def)
qed

end
