(* ===== verification/Topic_Context.thy ===== *)
theory Topic_Context
  imports Topic_Service Topic_Scope Topic_Histories Context_Compiler
begin

text \<open>
  Search over the topics of a tree and the injection of their messages into the context of an
  agent (\<open>internal/search/service.go\<close>, \<open>context.go\<close>, \<open>impl.go\<close>, \<open>internal/db/topic_search_repo.go\<close>,
  \<open>topic_search_log_repo.go\<close>). The full-text search of the database is a parameter: parsed
  queries, the rows they match, ranks, headlines and the collation. \<open>search_lib\<close> also has the
  SHA-256 of the concatenated identifiers and the letters and digits of Unicode. The time of the
  last activity of a topic is a column that the database fills when the row is inserted and
  nothing updates; it is an argument.
\<close>

section \<open>Types\<close>

datatype search_error =
  QueryTooShort | QueryTooLong | StopWordsOnly | InvalidSort | InvalidLimit
| SearchTopicNotFound | TopicIsDeleted | TopicIsArchived | TooManyTopics | ContextTooLarge int
| SearchFailed

record context_node =
  xn_ID :: uuid
  xn_TreeID :: uuid
  xn_AuthorID :: uuid
  xn_Content :: string
  xn_CreatedAt :: instant
  xn_SequenceNum :: int

record search_result =
  sh_TopicID :: uuid
  sh_TreeID :: uuid
  sh_Title :: string
  sh_Slug :: string
  sh_Snippet :: string
  sh_Status :: string
  sh_NodeCount :: int
  sh_LastActive :: instant
  sh_Relevance :: rat

record search_options =
  so_Query :: string
  so_MaxResults :: int
  so_Offset :: int
  so_StatusFilter :: string
  so_SortBy :: string
  so_MatchAnyTerms :: bool

record inject_request =
  ir_TopicIDs :: "uuid list"
  ir_MaxNodes :: int

record topic_context =
  tc_TopicID :: uuid
  tc_Title :: string
  tc_Slug :: string
  tc_RootNodeID :: uuid
  tc_Nodes :: "context_node list"
  tc_TotalNodes :: int
  tc_HasMore :: bool
  tc_ContextHash :: string

record multi_context =
  mc_Topics :: "topic_context list"
  mc_MergedText :: string
  mc_TotalNodes :: int
  mc_Truncated :: bool

record search_log_row =
  sl_TreeID :: uuid
  sl_ProfileID :: "uuid option"
  sl_QueryText :: string
  sl_ResultCount :: int
  sl_FiltersApplied :: raw_message
  sl_InjectedCount :: int
  sl_SearchDurationMs :: int
  sl_CreatedAt :: instant

record topic_preview =
  pv_TopicID :: uuid
  pv_Title :: string
  pv_Snippets :: "string list"
  pv_ParticipantCount :: int
  pv_NodeCount :: int
  pv_LastActive :: instant
  pv_LastActiveRel :: string

record search_lib = tree_lib +
  sx_idhash :: "uuid list \<Rightarrow> string"
  sx_alnum :: "string \<Rightarrow> bool"

record 'q fts =
  ft_stopwords :: "string \<Rightarrow> bool"
  ft_plain :: "string \<Rightarrow> 'q"
  ft_to :: "string \<Rightarrow> 'q"
  ft_topic :: "topic \<Rightarrow> 'q \<Rightarrow> bool"
  ft_topic_rank :: "topic \<Rightarrow> 'q \<Rightarrow> rat"
  ft_topic_headline :: "topic \<Rightarrow> 'q \<Rightarrow> string"
  ft_content :: "content_row \<Rightarrow> 'q \<Rightarrow> bool"
  ft_content_rank :: "content_row \<Rightarrow> 'q \<Rightarrow> rat"
  ft_headline :: "string \<Rightarrow> 'q \<Rightarrow> string"
  ft_less :: "string \<Rightarrow> string \<Rightarrow> bool"

definition GlobalMaxNodes :: int where "GlobalMaxNodes = 5000"
definition DefaultMaxNodes :: int where "DefaultMaxNodes = 500"
definition MaxTopics :: nat where "MaxTopics = 5"

section \<open>Rendering\<close>

text \<open>\<open>stripMarkdown\<close>: the marks of headings, line by line, then the tokens of a \<open>strings.Replacer\<close>, leftmost first.\<close>

definition blank_char :: "char \<Rightarrow> bool" where
  "blank_char c \<longleftrightarrow> c = CHR '' '' \<or> c = CHR 0x09"

definition strip_heading :: "string \<Rightarrow> string" where
  "strip_heading line =
     (case dropWhile (\<lambda>c. c = CHR ''#'') line of
        c # r \<Rightarrow> if starts_with ''#'' line \<and> blank_char c then dropWhile blank_char r else line
      | [] \<Rightarrow> line)"

definition md_tokens :: "string list" where
  "md_tokens = [''**'', ''*'', ''`'', ''['', '']'', ''('', '')'', ''> '', ''- '']"

lemma md_token_found: "find P md_tokens = Some p \<Longrightarrow> p \<noteq> []"
proof -
  assume "find P md_tokens = Some p"
  then have "p \<in> set md_tokens" by (metis find_Some_iff nth_mem)
  then show ?thesis by (auto simp: md_tokens_def)
qed

function md_replace :: "string \<Rightarrow> string" where
  "md_replace s =
     (case s of [] \<Rightarrow> []
      | c # r \<Rightarrow> (case find (\<lambda>p. starts_with p s) md_tokens of None \<Rightarrow> c # md_replace r
                | Some p \<Rightarrow> md_replace (drop (length p) s)))"
  by pat_completeness auto
termination
  by (relation "measure length") (auto dest: md_token_found)

declare md_replace.simps [simp del]

definition stripMarkdown :: "string \<Rightarrow> string" where
  "stripMarkdown s = trim_space (md_replace (strings_Join (map strip_heading (split_lines s)) [CHR 0x0A]))"

definition formatNodeForContext :: "tree_lib \<Rightarrow> context_node \<Rightarrow> string" where
  "formatNodeForContext lib n =
     ''--- node '' @ tl_ustr lib (xn_ID n) @ '' (author: '' @ tl_ustr lib (xn_AuthorID n) @ '') ---'' @ [CHR 0x0A]
     @ stripMarkdown (xn_Content n)"

definition boundary :: "tree_lib \<Rightarrow> topic_context \<Rightarrow> string" where
  "boundary lib tc =
     [CHR 0x0A] @ ''--- topic boundary: '' @ tc_Slug tc @ '' (id: '' @ tl_ustr lib (tc_TopicID tc) @ '') ---'' @ [CHR 0x0A]
     @ ''Topic: '' @ tc_Title tc @ [CHR 0x0A] @ ''Root node: '' @ tl_ustr lib (tc_RootNodeID tc) @ [CHR 0x0A]
     @ ''Total nodes in topic: '' @ itoa (tc_TotalNodes tc) @ [CHR 0x0A]
     @ ''Nodes included: '' @ itoa (int (length (tc_Nodes tc))) @ [CHR 0x0A, CHR 0x0A]"

text \<open>The loop over the nodes of a topic: the text, the number included, whether the budget cut it.\<close>

fun include_nodes :: "tree_lib \<Rightarrow> int \<Rightarrow> int \<Rightarrow> context_node list \<Rightarrow> string \<times> int \<times> bool" where
  "include_nodes lib budget included [] = ([], included, False)"
| "include_nodes lib budget included (n # ns) =
     (if budget \<le> included then ([], included, True)
      else (let (out, k, cut) = include_nodes lib budget (included + 1) ns
            in (formatNodeForContext lib n @ [CHR 0x0A] @ out, k, cut)))"

definition more_nodes :: "int \<Rightarrow> topic_context \<Rightarrow> string" where
  "more_nodes included tc =
     (if included < int (length (tc_Nodes tc))
      then [CHR 0x0A] @ ''[... '' @ itoa (tc_TotalNodes tc - included) @ '' more nodes in topic '' @ tc_Slug tc
           @ '' '' @ [CHR 0xE2, CHR 0x80, CHR 0x94] @ '' truncated by context budget]'' @ [CHR 0x0A]
      else [])"

text \<open>The loop over the topics: the text, the nodes written so far, whether something was cut.\<close>

fun merge_topics :: "tree_lib \<Rightarrow> int \<Rightarrow> int \<Rightarrow> topic_context list \<Rightarrow> string \<times> int \<times> bool" where
  "merge_topics lib globalMax totalNodes [] = ([], totalNodes, False)"
| "merge_topics lib globalMax totalNodes (tc # tcs) =
     (if globalMax \<le> totalNodes then ([], totalNodes, True)
      else (let (body, included, cut) = include_nodes lib (globalMax - totalNodes) 0 (tc_Nodes tc);
                (rest, total_nodes, cut') = merge_topics lib globalMax (totalNodes + included) tcs
            in (boundary lib tc @ body @ more_nodes included tc @ rest, total_nodes, cut \<or> cut')))"

definition context_warning :: "nat \<Rightarrow> string" where
  "context_warning n =
     [CHR 0x0A] @ ''[CONTEXT WARNING: '' @ itoa (int n) @ '' topics requested, total nodes exceed budget. Some nodes omitted. ''
     @ ''Consider re-injecting with fewer topics or higher max_nodes.]'' @ [CHR 0x0A]"

definition compileMultiTopicContext :: "tree_lib \<Rightarrow> topic_context list \<Rightarrow> int \<Rightarrow> multi_context" where
  "compileMultiTopicContext lib contexts globalMax =
     (let (out, totalNodes, truncated) = merge_topics lib globalMax 0 contexts
      in \<lparr>mc_Topics = contexts, mc_MergedText = out @ (if truncated then context_warning (length contexts) else []),
          mc_TotalNodes = totalNodes, mc_Truncated = truncated\<rparr>)"

text \<open>The key of a node is its creation time and its identifier as text; the hash is over the identifiers only.\<close>

definition nodeOrderKey :: "tree_lib \<Rightarrow> context_node \<Rightarrow> string" where
  "nodeOrderKey lib n = format_rfc3339nano (xn_CreatedAt n) @ ''_'' @ tl_ustr lib (xn_ID n)"

definition contextHash :: "search_lib \<Rightarrow> context_node list \<Rightarrow> string" where
  "contextHash lib nodes =
     sx_idhash lib (map xn_ID
       (sort_stable (\<lambda>a b. nodeOrderKey (tree_lib.truncate lib) a < nodeOrderKey (tree_lib.truncate lib) b) nodes))"

definition resolveMaxNodes :: "int \<Rightarrow> int" where
  "resolveMaxNodes m = (if m \<le> 0 then DefaultMaxNodes else if 10000 < m then 10000 else m)"

text \<open>The quotients are exact; the code divides floating point numbers.\<close>

definition formatRelativeTime :: "instant \<Rightarrow> instant \<Rightarrow> string" where
  "formatRelativeTime now t =
     (let d = time_Sub now t; minute = 60000000000; hour = 60 * minute
      in if d < minute then ''just now''
         else if d < hour then itoa (d div minute) @ ''m ago''
         else if d < 24 * hour then itoa (d div hour) @ ''h ago''
         else if d < 48 * hour then ''yesterday''
         else if d < 30 * 24 * hour then itoa (d div (24 * hour)) @ ''d ago''
         else itoa (d div (24 * 30 * hour)) @ ''mo ago'')"

fun word_cut :: "string \<Rightarrow> nat \<Rightarrow> nat" where
  "word_cut s 0 = 0"
| "word_cut s (Suc n) = (if s ! Suc n = CHR '' '' then Suc n else word_cut s n)"

definition truncateSnippet :: "string \<Rightarrow> nat \<Rightarrow> string" where
  "truncateSnippet s maxLen =
     (if length s \<le> maxLen then s
      else (let cut = word_cut s maxLen; cut = (if cut = 0 then maxLen else cut) in take cut s @ ''...''))"

section \<open>The operand of a search for any term\<close>

text \<open>\<open>buildAnyTermQuery\<close>: runs of letters and digits, in lower case, each once, in order of occurrence. The set
  \<open>seen\<close> holds the terms found.\<close>

definition minAnyTermRunes :: nat where "minAnyTermRunes = 2"
definition maxAnyTermLexemes :: int where "maxAnyTermLexemes = 12"

definition flush_term :: "search_lib \<Rightarrow> nat \<Rightarrow> string list \<Rightarrow> string list \<Rightarrow> string list" where
  "flush_term lib maxTerms terms token =
     (if token = [] then terms
      else let term = tl_lower lib (concat token)
           in if maxTerms \<le> length terms \<or> rune_count term < minAnyTermRunes \<or> term \<in> set terms then terms
              else terms @ [term])"

fun scan_terms :: "search_lib \<Rightarrow> nat \<Rightarrow> string list \<Rightarrow> string list \<Rightarrow> string list \<Rightarrow> string list" where
  "scan_terms lib maxTerms terms token [] = flush_term lib maxTerms terms token"
| "scan_terms lib maxTerms terms token (r # rs) =
     (if maxTerms \<le> length terms then flush_term lib maxTerms terms token
      else if sx_alnum lib r then scan_terms lib maxTerms terms (token @ [r]) rs
      else scan_terms lib maxTerms (flush_term lib maxTerms terms token) [] rs)"

definition buildAnyTermQuery :: "search_lib \<Rightarrow> string \<Rightarrow> int \<Rightarrow> string" where
  "buildAnyTermQuery lib txt maxTerms =
     (if maxTerms \<le> 0 \<or> txt = [] then []
      else strings_Join (scan_terms lib (nat maxTerms) [] [] (go_runes txt)) '' | '')"

definition tsQueryExprFor :: "search_lib \<Rightarrow> 'q fts \<Rightarrow> bool \<Rightarrow> string \<Rightarrow> 'q option" where
  "tsQueryExprFor lib ft matchAny query =
     (if \<not> matchAny then Some (ft_plain ft query)
      else let arg = buildAnyTermQuery lib query maxAnyTermLexemes
           in if arg = [] then None else Some (ft_to ft arg))"

section \<open>The repository\<close>

definition scanContextNode :: "node \<Rightarrow> context_node" where
  "scanContextNode n = \<lparr>xn_ID = n_ID n, xn_TreeID = n_TreeID n, xn_AuthorID = n_AuthorID n, xn_Content = n_Content n,
     xn_CreatedAt = n_CreatedAt n, xn_SequenceNum = n_SequenceNum n\<rparr>"

definition status_clause :: "string \<Rightarrow> topic \<Rightarrow> bool" where
  "status_clause status t =
     (if status = ''all'' then t_Status t \<noteq> ''deleted'' else if status = ''archived'' then t_Status t = ''archived''
      else t_Status t = ''active'')"

definition clamp_limit :: "int \<Rightarrow> int \<Rightarrow> int \<Rightarrow> int" where
  "clamp_limit dflt most limit = (if limit \<le> 0 then dflt else if most < limit then most else limit)"

text \<open>The rows of \<open>combined\<close> of a topic, rank and headline: its own match and that of its index rows.\<close>

definition content_hits :: "'q fts \<Rightarrow> 'q \<Rightarrow> content_row list \<Rightarrow> topic \<Rightarrow> content_row list" where
  "content_hits ft q rows t = filter (\<lambda>c. cir_TopicID c = t_ID t \<and> ft_content ft c q) rows"

definition topic_hits :: "'q fts \<Rightarrow> 'q \<Rightarrow> content_row list \<Rightarrow> topic \<Rightarrow> (rat \<times> string) list" where
  "topic_hits ft q rows t =
     (let hits = content_hits ft q rows t
      in (if ft_topic ft t q then [(ft_topic_rank ft t q, ft_topic_headline ft t q)] else [])
         @ (if hits = [] then []
            else [(1 / 2 * Max (set (map (\<lambda>c. ft_content_rank ft c q) hits)),
                   ft_headline ft (strings_Join (map cir_ContentText hits) '' '') q)]))"

fun best_text :: "(string \<Rightarrow> string \<Rightarrow> bool) \<Rightarrow> string list \<Rightarrow> string" where
  "best_text lt [] = []"
| "best_text lt [s] = s"
| "best_text lt (s # ss) = (let b = best_text lt ss in if lt b s then s else b)"

definition merged_row :: "'q fts \<Rightarrow> (uuid \<Rightarrow> instant) \<Rightarrow> topic \<Rightarrow> (rat \<times> string) list \<Rightarrow> search_result" where
  "merged_row ft last_active t hits =
     \<lparr>sh_TopicID = t_ID t, sh_TreeID = t_TreeID t, sh_Title = t_Title t, sh_Slug = t_Slug t,
      sh_Snippet = best_text (ft_less ft) (map snd hits), sh_Status = t_Status t, sh_NodeCount = t_NodeCount t,
      sh_LastActive = last_active (t_ID t), sh_Relevance = Max (set (map fst hits))\<rparr>"

definition search_order :: "'q fts \<Rightarrow> string \<Rightarrow> search_result \<Rightarrow> search_result \<Rightarrow> bool" where
  "search_order ft sortBy a b =
     (if sortBy = ''last_active'' then sh_LastActive b < sh_LastActive a
      else if sortBy = ''title'' then ft_less ft (sh_Title a) (sh_Title b)
      else sh_Relevance b < sh_Relevance a)"

text \<open>A negative offset is an error of the database. The total is that of all rows, on an empty page by a query of its own.\<close>

definition SearchTopics ::
    "search_lib \<Rightarrow> 'q fts \<Rightarrow> (uuid \<Rightarrow> instant) \<Rightarrow> uuid \<Rightarrow> search_options \<Rightarrow> topic_db
       \<Rightarrow> search_error + search_result list \<times> int" where
  "SearchTopics lib ft last_active treeID opts db =
     (if ft_stopwords ft (so_Query opts) then Inl StopWordsOnly
      else case tsQueryExprFor lib ft (so_MatchAnyTerms opts) (so_Query opts) of None \<Rightarrow> Inl StopWordsOnly
      | Some q \<Rightarrow>
          if so_Offset opts < 0 then Inl SearchFailed
          else (let ts = filter (\<lambda>t. t_TreeID t = treeID \<and> status_clause (so_StatusFilter opts) t) (td_topics db);
                    merged = map (\<lambda>(t, hits). merged_row ft last_active t hits)
                               (filter (\<lambda>(t, hits). hits \<noteq> []) (map (\<lambda>t. (t, topic_hits ft q (td_content db) t)) ts));
                    results = take (nat (clamp_limit 20 100 (so_MaxResults opts)))
                                (drop (nat (so_Offset opts)) (sort_stable (search_order ft (so_SortBy opts)) merged))
                in if results = []
                   then Inr ([], int (length (remdups (map t_ID (filter (\<lambda>t. ft_topic ft t q) ts)
                                @ map t_ID (filter (\<lambda>t. content_hits ft q (td_content db) t \<noteq> []) ts)))))
                   else Inr (results, int (length merged))))"

definition recent_row :: "(uuid \<Rightarrow> instant) \<Rightarrow> topic \<Rightarrow> search_result" where
  "recent_row last_active t =
     \<lparr>sh_TopicID = t_ID t, sh_TreeID = t_TreeID t, sh_Title = t_Title t, sh_Slug = t_Slug t,
      sh_Snippet = concat (take 200 (rune_chunks (t_Description t))), sh_Status = t_Status t, sh_NodeCount = t_NodeCount t,
      sh_LastActive = last_active (t_ID t), sh_Relevance = 0\<rparr>"

definition GetRecentTopics :: "(uuid \<Rightarrow> instant) \<Rightarrow> uuid \<Rightarrow> int \<Rightarrow> topic_db \<Rightarrow> search_result list" where
  "GetRecentTopics last_active treeID limit db =
     take (nat (clamp_limit 10 50 limit))
       (sort_stable (\<lambda>a b. sh_LastActive b < sh_LastActive a)
         (map (recent_row last_active) (filter (\<lambda>t. t_TreeID t = treeID \<and> t_Status t \<noteq> ''deleted'') (td_topics db))))"

definition GetTopicForInject :: "uuid \<Rightarrow> topic_db \<Rightarrow> topic option" where
  "GetTopicForInject i db = find (\<lambda>t. t_ID t = i) (td_topics db)"

definition GetTopicPreviewNodes :: "uuid \<Rightarrow> int \<Rightarrow> topic_db \<Rightarrow> context_node list option" where
  "GetTopicPreviewNodes i limit db =
     map_option (\<lambda>(ns, _, _). map scanContextNode ns) (GetTopicNodes i (if limit \<le> 0 then 3 else limit) db)"

text \<open>The metadata of a preview: the topic, the time of its last activity and the number of its authors.\<close>

definition GetTopicPreviewMeta :: "(uuid \<Rightarrow> instant) \<Rightarrow> uuid \<Rightarrow> topic_db \<Rightarrow> (topic \<times> instant \<times> int) option option" where
  "GetTopicPreviewMeta last_active i db =
     (case find (\<lambda>t. t_ID t = i) (td_topics db) of None \<Rightarrow> Some None
      | Some t \<Rightarrow> map_option (\<lambda>ns. Some (t, last_active i, int (length (remdups (map n_AuthorID ns)))))
                   (topic_member_nodes (td_graph db) t))"

text \<open>\<open>InsertSearchLog\<close>: an insert that fails with a profile is tried again without it.\<close>

definition insert_log :: "uuid list \<Rightarrow> search_log_row \<Rightarrow> search_log_row list \<Rightarrow> search_log_row list option" where
  "insert_log profiles row rows =
     (if (case sl_FiltersApplied row of RawJSON _ \<Rightarrow> False | _ \<Rightarrow> True) then None
      else case sl_ProfileID row of None \<Rightarrow> Some (rows @ [row])
      | Some p \<Rightarrow> if p \<in> set profiles then Some (rows @ [row]) else None)"

definition InsertSearchLog :: "uuid list \<Rightarrow> search_log_row \<Rightarrow> search_log_row list \<Rightarrow> search_log_row list option" where
  "InsertSearchLog profiles entry rows =
     (let filters = (if sl_FiltersApplied entry = RawNil then RawJSON (JObj []) else sl_FiltersApplied entry);
          profile = (if sl_ProfileID entry = Some uuid_Nil then None else sl_ProfileID entry);
          row = entry\<lparr>sl_FiltersApplied := filters, sl_ProfileID := profile\<rparr>
      in case insert_log profiles row rows of Some rows' \<Rightarrow> Some rows'
         | None \<Rightarrow> if profile \<noteq> None then insert_log profiles (row\<lparr>sl_ProfileID := None\<rparr>) rows else None)"

section \<open>The injection of topics\<close>

definition topic_context_of :: "search_lib \<Rightarrow> topic \<Rightarrow> node list \<times> int \<times> bool \<Rightarrow> topic_context" where
  "topic_context_of lib t page =
     (case page of (ns, totalCount, hasMore) \<Rightarrow>
        \<lparr>tc_TopicID = t_ID t, tc_Title = t_Title t, tc_Slug = t_Slug t, tc_RootNodeID = t_RootNodeID t,
         tc_Nodes = map scanContextNode ns, tc_TotalNodes = totalCount, tc_HasMore = hasMore,
         tc_ContextHash = contextHash lib (map scanContextNode ns)\<rparr>)"

text \<open>The loop over the topics of a request; nothing when a scope is not found.\<close>

fun inject_topics :: "search_lib \<Rightarrow> int \<Rightarrow> topic_db \<Rightarrow> uuid list \<Rightarrow> (search_error + topic_context list) option" where
  "inject_topics lib maxNodes db [] = Some (Inr [])"
| "inject_topics lib maxNodes db (i # is) =
     (case GetTopicForInject i db of None \<Rightarrow> Some (Inl SearchTopicNotFound)
      | Some t \<Rightarrow>
          if t_Status t = ''deleted'' then Some (Inl TopicIsDeleted)
          else if t_Status t = ''archived'' then Some (Inl TopicIsArchived)
          else case GetTopicNodes i maxNodes db of None \<Rightarrow> None
          | Some page \<Rightarrow>
              (case inject_topics lib maxNodes db is of None \<Rightarrow> None
               | Some (Inl e) \<Rightarrow> Some (Inl e)
               | Some (Inr tcs) \<Rightarrow> Some (Inr (topic_context_of lib t page # tcs))))"

definition CompileInjectContext :: "search_lib \<Rightarrow> inject_request \<Rightarrow> topic_db \<Rightarrow> (search_error + multi_context) option" where
  "CompileInjectContext lib req db =
     (case inject_topics lib (resolveMaxNodes (ir_MaxNodes req)) db (ir_TopicIDs req) of None \<Rightarrow> None
      | Some (Inl e) \<Rightarrow> Some (Inl e)
      | Some (Inr contexts) \<Rightarrow>
          (let requested = sum_list (map tc_TotalNodes contexts)
           in if GlobalMaxNodes < requested then Some (Inl (ContextTooLarge requested))
              else Some (Inr (compileMultiTopicContext (tree_lib.truncate lib) contexts GlobalMaxNodes))))"

section \<open>The service\<close>

text \<open>\<open>Search\<close> without the time it took: the checks look at the trimmed query, the repository gets the query as it came.\<close>

definition svc_Search ::
    "search_lib \<Rightarrow> 'q fts \<Rightarrow> (uuid \<Rightarrow> instant) \<Rightarrow> uuid \<Rightarrow> search_options \<Rightarrow> topic_db
       \<Rightarrow> search_error + search_result list \<times> int" where
  "svc_Search lib ft last_active treeID opts db =
     (let query = trim_space (so_Query opts);
          opts' = (if so_MaxResults opts \<le> 0 then opts\<lparr>so_MaxResults := 20\<rparr> else opts)
      in if length query < 2 then Inl QueryTooShort
         else if 200 < length query then Inl QueryTooLong
         else if so_SortBy opts \<notin> set [[], ''relevance'', ''last_active'', ''title''] then Inl InvalidSort
         else if 100 < so_MaxResults opts' then Inl InvalidLimit
         else SearchTopics lib ft last_active treeID opts' db)"

definition svc_GetRecent :: "(uuid \<Rightarrow> instant) \<Rightarrow> uuid \<Rightarrow> int \<Rightarrow> topic_db \<Rightarrow> search_result list" where
  "svc_GetRecent last_active treeID limit db = GetRecentTopics last_active treeID (clamp_limit 10 50 limit) db"

definition svc_InjectContext :: "search_lib \<Rightarrow> inject_request \<Rightarrow> topic_db \<Rightarrow> (search_error + multi_context) option" where
  "svc_InjectContext lib req db =
     (if ir_TopicIDs req = [] then Some (Inl TooManyTopics)
      else if MaxTopics < length (ir_TopicIDs req) then Some (Inl TooManyTopics)
      else CompileInjectContext lib req db)"

definition svc_GetTopicPreview ::
    "instant \<Rightarrow> (uuid \<Rightarrow> instant) \<Rightarrow> uuid \<Rightarrow> int \<Rightarrow> topic_db \<Rightarrow> (search_error + topic_preview) option" where
  "svc_GetTopicPreview now last_active i snippetCount0 db =
     (let snippetCount = (if snippetCount0 \<le> 0 then 3 else snippetCount0)
      in case GetTopicPreviewMeta last_active i db of None \<Rightarrow> None
         | Some None \<Rightarrow> Some (Inl SearchTopicNotFound)
         | Some (Some (t, active, participants)) \<Rightarrow>
             if t_Status t = ''deleted'' \<or> t_ID t = uuid_Nil then Some (Inl SearchTopicNotFound)
             else map_option (\<lambda>ns. Inr \<lparr>pv_TopicID = t_ID t, pv_Title = t_Title t,
                      pv_Snippets = filter (\<lambda>s. s \<noteq> []) (map (\<lambda>n. truncateSnippet (stripMarkdown (xn_Content n)) 120) ns),
                      pv_ParticipantCount = participants, pv_NodeCount = t_NodeCount t, pv_LastActive = active,
                      pv_LastActiveRel = formatRelativeTime now active\<rparr>)
                    (GetTopicPreviewNodes i snippetCount db))"

section \<open>The retrieved tier of the context compiler\<close>

text \<open>\<open>internal/retrieval/retrieval.go\<close>: all terms first, any term when that finds nothing; an error is handed on as its text.\<close>

fun search_error_text :: "search_error \<Rightarrow> string" where
  "search_error_text QueryTooShort = ''search query must be at least 2 characters''"
| "search_error_text QueryTooLong = ''search query must be at most 200 characters''"
| "search_error_text StopWordsOnly = ''search query contains only common words; try adding more specific terms''"
| "search_error_text InvalidSort = ''sort must be one of: relevance, last_active, title''"
| "search_error_text InvalidLimit = ''limit must be between 1 and 100''"
| "search_error_text SearchTopicNotFound = ''topic not found''"
| "search_error_text TopicIsDeleted = ''topic has been deleted''"
| "search_error_text TopicIsArchived = ''archived topics cannot be injected. Unarchive first''"
| "search_error_text TooManyTopics = ''cannot inject more than 5 topics at once''"
| "search_error_text (ContextTooLarge n) =
     ''requested topics exceed the per-injection global max nodes: requested '' @ itoa n @ '', max '' @ itoa GlobalMaxNodes"
| "search_error_text SearchFailed = ''search topics''"

type_synonym searcher = "uuid \<Rightarrow> search_options \<Rightarrow> search_error + search_result list \<times> int"

definition retriever_search :: "searcher \<Rightarrow> uuid \<Rightarrow> string \<Rightarrow> int \<Rightarrow> bool \<Rightarrow> search_error + search_result list" where
  "retriever_search searcher treeID query limit matchAny =
     map_sum id fst (searcher treeID \<lparr>so_Query = query, so_MaxResults = limit, so_Offset = 0, so_StatusFilter = [],
                                     so_SortBy = [], so_MatchAnyTerms = matchAny\<rparr>)"

definition retrieval_of :: "search_result \<Rightarrow> retrieval_item" where
  "retrieval_of r = \<lparr>ri_ID = sh_TopicID r, ri_Slug = sh_Slug r, ri_Title = sh_Title r, ri_Content = sh_Snippet r,
     ri_Relevance = sh_Relevance r\<rparr>"

definition Retrieve :: "searcher \<Rightarrow> uuid \<Rightarrow> string \<Rightarrow> int \<Rightarrow> reader_error + retrieval_item list" where
  "Retrieve searcher treeID query limit =
     (if query = [] \<or> limit \<le> 0 then Inr []
      else case retriever_search searcher treeID query limit False of Inl e \<Rightarrow> Inl (Failure (search_error_text e))
      | Inr results \<Rightarrow>
          (case (if results = [] then retriever_search searcher treeID query limit True else Inr results) of
             Inl e \<Rightarrow> Inl (Failure (search_error_text e))
           | Inr results' \<Rightarrow> Inr (map retrieval_of results')))"

end
