(* ===== verification/Topic_Context_Properties.thy ===== *)
theory Topic_Context_Properties
  imports Topic_Context
begin

text \<open>
  What the search and the injection promise: an injection holds the messages of the topics that
  were asked for, without a cut; the operand of a search for any term is a list of distinct
  words without operators; the hash of a context does not depend on the order of its nodes.
\<close>

section \<open>The loops of the compiler\<close>

text \<open>The text of a topic whose nodes are all included.\<close>

definition topic_section :: "tree_lib \<Rightarrow> topic_context \<Rightarrow> string" where
  "topic_section lib tc = boundary lib tc @ concat (map (\<lambda>n. formatNodeForContext lib n @ [CHR 0x0A]) (tc_Nodes tc))"

definition context_size :: "topic_context \<Rightarrow> int" where
  "context_size tc = int (length (tc_Nodes tc))"

lemma context_size_nonneg [simp]: "0 \<le> context_size tc"
  by (simp add: context_size_def)

lemma include_nodes_all:
  "included + int (length ns) \<le> budget \<Longrightarrow>
     include_nodes lib budget included ns = (concat (map (\<lambda>n. formatNodeForContext lib n @ [CHR 0x0A]) ns), included + int (length ns), False)"
  by (induction ns arbitrary: included) simp_all

lemma merge_topics_all:
  assumes "used + sum_list (map context_size tcs) \<le> globalMax" "\<And>tc. tc \<in> set tcs \<Longrightarrow> tc_Nodes tc \<noteq> []"
  shows "merge_topics lib globalMax used tcs = (concat (map (topic_section lib) tcs), used + sum_list (map context_size tcs), False)"
  using assms
proof (induction tcs arbitrary: used)
  case (Cons tc tcs)
  have rest: "0 \<le> sum_list (map context_size tcs)" by (rule sum_list_nonneg) auto
  have size: "0 < context_size tc" using Cons.prems(2) [of tc] by (simp add: context_size_def)
  have "context_size tc \<le> globalMax - used" using Cons.prems(1) rest by simp
  then have "include_nodes lib (globalMax - used) 0 (tc_Nodes tc)
      = (concat (map (\<lambda>n. formatNodeForContext lib n @ [CHR 0x0A]) (tc_Nodes tc)), context_size tc, False)"
    using include_nodes_all [of 0 "tc_Nodes tc" "globalMax - used" lib] by (simp add: context_size_def)
  moreover have "merge_topics lib globalMax (used + context_size tc) tcs
      = (concat (map (topic_section lib) tcs), used + context_size tc + sum_list (map context_size tcs), False)"
    by (rule Cons.IH) (use Cons.prems in auto)
  moreover have "\<not> globalMax \<le> used" using Cons.prems(1) rest size by simp
  moreover have "more_nodes (context_size tc) tc = []" by (simp add: more_nodes_def context_size_def)
  ultimately show ?case by (simp add: topic_section_def [of lib tc])
qed simp

section \<open>The topics of an injection\<close>

lemma GetTopicNodes_found:
  assumes "find (\<lambda>t. t_ID t = i) (td_topics db) = Some t" "topic_member_nodes (td_graph db) t = Some ns" "0 < maxNodes"
  shows "GetTopicNodes i maxNodes db
    = Some (take (nat maxNodes) (sort_stable seq_before ns), int (length ns), maxNodes < int (length ns))"
  using assms by (simp add: GetTopicNodes_def)

text \<open>What the context of a topic holds: a page of its messages in the order of the tree.\<close>

definition holds_topic :: "int \<Rightarrow> topic_db \<Rightarrow> topic_context \<Rightarrow> bool" where
  "holds_topic maxNodes db tc \<longleftrightarrow> (\<exists>t ns. t \<in> set (td_topics db) \<and> t_ID t = tc_TopicID tc
     \<and> t_Status t \<noteq> ''deleted'' \<and> t_Status t \<noteq> ''archived''
     \<and> tc_Title tc = t_Title t \<and> tc_Slug tc = t_Slug t \<and> tc_RootNodeID tc = t_RootNodeID t
     \<and> distinct ns \<and> set ns = (\<Union>n \<in> set (scope_seed (td_graph db) t). thread_of (td_graph db) n)
     \<and> sorted_wrt (\<lambda>a b. n_SequenceNum a \<le> n_SequenceNum b) ns
     \<and> tc_Nodes tc = map scanContextNode (take (nat maxNodes) ns)
     \<and> tc_TotalNodes tc = int (length ns) \<and> (tc_HasMore tc \<longleftrightarrow> maxNodes < int (length ns)))"

lemma seq_before_sorted: "sorted_wrt (\<lambda>a b. n_SequenceNum a \<le> n_SequenceNum b) (sort_stable seq_before ns)"
proof -
  have "weak_order seq_before" by (rule weak_orderI) (auto simp: seq_before_def)
  from sorted_sort_stable [OF this] show ?thesis
    by (rule sorted_wrt_mono_rel [rotated]) (auto simp: seq_before_def)
qed

lemma inject_topics_found:
  assumes ok: "graph_ok (td_graph db)" and pos: "0 < maxNodes"
  shows "\<exists>r. inject_topics lib maxNodes db is = Some r \<and>
    (\<forall>tcs. r = Inr tcs \<longrightarrow> map tc_TopicID tcs = is \<and> (\<forall>tc \<in> set tcs. holds_topic maxNodes db tc))"
proof (induction "is")
  case (Cons i "is")
  show ?case
  proof (cases "find (\<lambda>t. t_ID t = i) (td_topics db)")
    case (Some t)
    then have t: "t \<in> set (td_topics db)" "t_ID t = i" by (auto simp: find_Some_iff)
    obtain ns where ns: "topic_member_nodes (td_graph db) t = Some ns" "distinct ns"
      "set ns = (\<Union>n \<in> set (scope_seed (td_graph db) t). thread_of (td_graph db) n)"
      using topic_scope_found [OF ok, of t] by blast
    note page = GetTopicNodes_found [OF Some ns(1) pos]
    let ?tc = "topic_context_of lib t (take (nat maxNodes) (sort_stable seq_before ns), int (length ns), maxNodes < int (length ns))"
    have holds: "holds_topic maxNodes db ?tc" if "t_Status t \<noteq> ''deleted''" "t_Status t \<noteq> ''archived''"
      unfolding holds_topic_def
      by (rule exI [of _ t], rule exI [of _ "sort_stable seq_before ns"])
        (use t ns that seq_before_sorted in \<open>simp add: topic_context_of_def\<close>)
    have id: "tc_TopicID ?tc = i" using t(2) by (simp add: topic_context_of_def)
    obtain r where r: "inject_topics lib maxNodes db is = Some r"
      "\<And>tcs. r = Inr tcs \<Longrightarrow> map tc_TopicID tcs = is \<and> (\<forall>tc \<in> set tcs. holds_topic maxNodes db tc)"
      using Cons.IH by blast
    show ?thesis
      using holds id r by (cases r) (auto simp: GetTopicForInject_def Some page)
  qed (simp add: GetTopicForInject_def)
qed simp

lemma holds_topic_size:
  assumes "holds_topic maxNodes db tc"
  shows "context_size tc \<le> tc_TotalNodes tc"
  using assms by (auto simp: holds_topic_def context_size_def)

lemma inject_fits:
  assumes "graph_ok (td_graph db)" "0 < maxNodes" "inject_topics lib maxNodes db is = Some (Inr tcs)"
  shows "sum_list (map context_size tcs) \<le> sum_list (map tc_TotalNodes tcs)"
proof -
  have "\<forall>tc \<in> set tcs. context_size tc \<le> tc_TotalNodes tc"
    using inject_topics_found [OF assms(1,2), of lib "is"] assms(3) by (auto intro: holds_topic_size)
  then show ?thesis by (intro sum_list_mono) simp
qed

lemma resolveMaxNodes_pos: "0 < resolveMaxNodes m"
  by (simp add: resolveMaxNodes_def DefaultMaxNodes_def)

text \<open>A topic whose root is there holds at least the root.\<close>

lemma holds_topic_nodes:
  assumes "holds_topic maxNodes db tc" "0 < maxNodes" "distinct (map t_ID (td_topics db))"
    "t \<in> set (td_topics db)" "t_ID t = tc_TopicID tc" "scope_seed (td_graph db) t \<noteq> []"
  shows "tc_Nodes tc \<noteq> []"
proof -
  from assms(1) obtain u ns where u: "u \<in> set (td_topics db)" "t_ID u = tc_TopicID tc"
    "set ns = (\<Union>n \<in> set (scope_seed (td_graph db) u). thread_of (td_graph db) n)" "tc_Nodes tc = map scanContextNode (take (nat maxNodes) ns)"
    by (auto simp: holds_topic_def)
  have "u = t" using assms(3-5) u(1,2) by (auto simp: distinct_map inj_on_def)
  obtain n where "n \<in> set (scope_seed (td_graph db) t)" using assms(6) by (cases "scope_seed (td_graph db) t") auto
  moreover have "n \<in> thread_of (td_graph db) n" by (simp add: thread_of_def)
  ultimately have "ns \<noteq> []" using u(3) \<open>u = t\<close> by auto
  with u(4) assms(2) show ?thesis by simp
qed

section \<open>The terms of a query\<close>

fun alnum_runs :: "(string \<Rightarrow> bool) \<Rightarrow> string list \<Rightarrow> string list \<Rightarrow> string list list" where
  "alnum_runs p token [] = (if token = [] then [] else [token])"
| "alnum_runs p token (r # rs) =
     (if p r then alnum_runs p (token @ [r]) rs
      else (if token = [] then [] else [token]) @ alnum_runs p [] rs)"

definition query_terms :: "search_lib \<Rightarrow> string \<Rightarrow> string list" where
  "query_terms lib s =
     filter (\<lambda>t. minAnyTermRunes \<le> rune_count t) (map (\<lambda>run. tl_lower lib (concat run)) (alnum_runs (sx_alnum lib) [] (go_runes s)))"

lemma dedup_by_append:
  "dedup_by f seen (xs @ ys) = dedup_by f seen xs @ dedup_by f (rev (map f (dedup_by f seen xs)) @ seen) ys"
  by (induction xs arbitrary: seen) simp_all

lemma dedup_by_seen_cong: "set seen = set seen' \<Longrightarrow> dedup_by f seen xs = dedup_by f seen' xs"
proof (induction xs arbitrary: seen seen')
  case (Cons x xs)
  from Cons.prems have "set (f x # seen) = set (f x # seen')" by simp
  from Cons.IH [OF this] Cons.IH [OF Cons.prems] Cons.prems show ?case by simp
qed simp

definition fresh_terms :: "search_lib \<Rightarrow> string list \<Rightarrow> string list list \<Rightarrow> string list" where
  "fresh_terms lib terms runs =
     dedup_by (\<lambda>t. t) terms (filter (\<lambda>t. minAnyTermRunes \<le> rune_count t) (map (\<lambda>run. tl_lower lib (concat run)) runs))"

lemma fresh_terms_cong: "set terms = set terms' \<Longrightarrow> fresh_terms lib terms runs = fresh_terms lib terms' runs"
  unfolding fresh_terms_def by (rule dedup_by_seen_cong)

lemma flush_term_fresh:
  "take m (terms @ fresh_terms lib terms ((if token = [] then [] else [token]) @ runs))
    = take m (flush_term lib m terms token @ fresh_terms lib (flush_term lib m terms token) runs)"
proof -
  have cong: "fresh_terms lib (term # terms) runs = fresh_terms lib (terms @ [term]) runs" for "term"
    by (rule fresh_terms_cong) simp
  show ?thesis
    using cong by (auto simp: flush_term_def fresh_terms_def Let_def not_less take_Cons')
qed

lemma scan_terms_spec:
  "scan_terms lib m terms token rs = take m (terms @ fresh_terms lib terms (alnum_runs (sx_alnum lib) token rs))"
  if "length terms \<le> m"
  using that
proof (induction rs arbitrary: terms token)
  case Nil
  have "length (flush_term lib m terms token) \<le> m" using Nil by (simp add: flush_term_def Let_def)
  then have "take m (terms @ fresh_terms lib terms ((if token = [] then [] else [token]) @ [])) = flush_term lib m terms token"
    unfolding flush_term_fresh by (simp add: fresh_terms_def)
  then show ?case by (simp split: if_splits)
next
  case (Cons r rs)
  show ?case
  proof (cases "m \<le> length terms")
    case True
    then show ?thesis using Cons.prems by (simp add: flush_term_def Let_def)
  next
    case False
    have "length (flush_term lib m terms token) \<le> m" using Cons.prems by (simp add: flush_term_def Let_def)
    note IH = Cons.IH [OF this] Cons.IH [OF Cons.prems]
    show ?thesis using False IH flush_term_fresh [of m terms lib token "alnum_runs (sx_alnum lib) [] rs"] by auto
  qed
qed

lemma buildAnyTermQuery_spec:
  "buildAnyTermQuery lib s m = strings_Join (take (nat m) (dedup_by (\<lambda>t. t) [] (query_terms lib s))) '' | ''"
  by (simp add: buildAnyTermQuery_def scan_terms_spec fresh_terms_def query_terms_def go_runes_def)

lemma alnum_runs_runes:
  "run \<in> set (alnum_runs p token rs) \<Longrightarrow> \<forall>r \<in> set token. p r \<Longrightarrow> set run \<subseteq> set token \<union> set rs \<and> (\<forall>r \<in> set run. p r)"
proof (induction p token rs rule: alnum_runs.induct)
  case (2 p token r rs)
  show ?case
  proof (cases "p r")
    case True
    with 2 show ?thesis by fastforce
  next
    case False
    with 2 show ?thesis by (auto split: if_splits)
  qed
qed (auto split: if_splits)

lemma distinct_terms: "distinct (dedup_by (\<lambda>t. t) seen xs)"
  using dedup_by_distinct [of "\<lambda>t. t"] by simp

lemma query_terms_words:
  assumes "\<And>run. \<forall>r \<in> set run. rune_ok r \<and> sx_alnum lib r \<Longrightarrow> \<forall>r \<in> set (go_runes (tl_lower lib (concat run))). sx_alnum lib r"
    and "t \<in> set (query_terms lib s)"
  shows "minAnyTermRunes \<le> rune_count t" "\<forall>r \<in> set (go_runes t). sx_alnum lib r"
proof -
  from assms(2) obtain run where run: "run \<in> set (alnum_runs (sx_alnum lib) [] (go_runes s))" "t = tl_lower lib (concat run)"
    "minAnyTermRunes \<le> rune_count t" by (auto simp: query_terms_def)
  then show "minAnyTermRunes \<le> rune_count t" by simp
  have "\<forall>r \<in> set run. rune_ok r \<and> sx_alnum lib r" using alnum_runs_runes [OF run(1)] go_runes_ok by fastforce
  from assms(1) [OF this] show "\<forall>r \<in> set (go_runes t). sx_alnum lib r" by (simp add: run(2))
qed

lemma strings_Join_empty: "sep \<noteq> [] \<Longrightarrow> strings_Join ss sep = [] \<longleftrightarrow> ss = [] \<or> ss = [[]]"
  by (induction ss sep rule: strings_Join.induct) auto

section \<open>The key of the hash\<close>

lemma format_rfc3339nano_no_underscore: "CHR ''_'' \<notin> set (format_rfc3339nano t)"
proof -
  have pad: "CHR ''_'' \<notin> set (pad_digits w i)" for w i
    using nat_digits_range [of "CHR ''_''"] by (auto simp: pad_digits_def Let_def byte_in_def)
  then have "CHR ''_'' \<notin> set (format_rfc3339 t)" by (auto simp: format_rfc3339_def Let_def split: prod.split)
  then have "CHR ''_'' \<notin> set (butlast (format_rfc3339 t))" using in_set_butlastD by fast
  moreover have "CHR ''_'' \<notin> set (dropWhile (\<lambda>c. c = CHR ''0'') (rev (pad_digits 9 (t mod 1000000000))))"
    using pad [of 9 "t mod 1000000000"] set_dropWhileD by fastforce
  ultimately show ?thesis by (auto simp: format_rfc3339nano_def Let_def)
qed

lemma nodeOrderKey_id:
  assumes "nodeOrderKey lib a = nodeOrderKey lib b" "inj (tl_ustr lib)"
  shows "xn_ID a = xn_ID b"
proof -
  have "dropWhile (\<lambda>c. c \<noteq> CHR ''_'') (nodeOrderKey lib n) = CHR ''_'' # tl_ustr lib (xn_ID n)" for n
  proof -
    have "\<forall>c \<in> set (format_rfc3339nano (xn_CreatedAt n)). c \<noteq> CHR ''_''" using format_rfc3339nano_no_underscore by fastforce
    then show ?thesis by (simp add: nodeOrderKey_def dropWhile_append3)
  qed
  from this [of a] this [of b] assms show ?thesis by (simp add: inj_eq)
qed

text \<open>Sorting by a key that tells the elements apart does not depend on their order.\<close>

lemma sort_stable_key_unique:
  fixes key :: "'a \<Rightarrow> 'b::linorder"
  assumes "inj_on key (set xs)" "mset xs = mset ys"
  shows "sort_stable (\<lambda>a b. key a < key b) xs = sort_stable (\<lambda>a b. key a < key b) ys"
proof -
  let ?s = "sort_stable (\<lambda>a b. key a < key b)"
  have "weak_order (\<lambda>a b. key a < key b)" by (rule weak_orderI) auto
  from sorted_sort_stable [OF this] have sorted: "sorted (map key (?s zs))" for zs
    by (simp add: sorted_wrt_map not_less)
  have "mset (map key (?s xs)) = mset (map key (?s ys))" by (simp add: assms(2))
  then have "map key (?s xs) = map key (?s ys)" using properties_for_sort [OF _ sorted] sorted_sort_id [OF sorted] by metis
  moreover have "set (?s xs) \<union> set (?s ys) = set xs" using assms(2) by (metis set_sort_stable set_mset_mset Un_absorb)
  ultimately show ?thesis using assms(1) by (metis inj_on_map_eq_map)
qed

text \<open>The hash that names a context depends on the set of its nodes only, not on the order in which they are listed.\<close>

lemma contextHash_order_free:
  assumes "inj (tl_ustr lib)" "distinct (map xn_ID ns)" "mset ms = mset ns"
  shows "contextHash lib ms = contextHash lib ns"
proof -
  have "inj_on (nodeOrderKey (tree_lib.truncate lib)) (set ns)"
  proof (rule inj_onI)
    fix a b assume ab: "a \<in> set ns" "b \<in> set ns" "nodeOrderKey (tree_lib.truncate lib) a = nodeOrderKey (tree_lib.truncate lib) b"
    have "xn_ID a = xn_ID b" by (rule nodeOrderKey_id [OF ab(3)]) (simp add: assms(1) tree_lib.truncate_def)
    with ab(1,2) assms(2) show "a = b" by (auto simp: distinct_map inj_on_def)
  qed
  from sort_stable_key_unique [OF this, of ms] assms(3) show ?thesis by (simp add: contextHash_def)
qed

section \<open>The retrieved tier\<close>

text \<open>
  The compiler asks for the text of a message of up to 300 characters, the search takes 200 bytes
  at most: for a longer message the tier only ever adds a warning.
\<close>

lemma retrieved_tier_long_message:
  assumes "200 < length (trim_space query)" "0 < limit"
  shows "Retrieve (\<lambda>i opts. svc_Search lib ft last_active i opts db) treeID query limit
    = Inl (Failure ''search query must be at most 200 characters'')"
proof -
  have "query \<noteq> []" using assms(1) by (auto simp: trim_space_def)
  with assms show ?thesis by (simp add: Retrieve_def retriever_search_def svc_Search_def Let_def)
qed

section \<open>Properties\<close>


text \<open>The search library of the examples: words are made of ASCII letters and digits, lower case is taken as it is.\<close>

definition search_demo :: search_lib where
  "search_demo = tree_lib.extend (tree_lib.truncate graph_lib)
     (search_lib.fields (\<lambda>is. concat (map (tl_ustr graph_lib) is))
       (\<lambda>r. case r of [c] \<Rightarrow> byte_in 48 57 c \<or> byte_in 65 90 c \<or> byte_in 97 122 c | _ \<Rightarrow> False))"


text \<open>
  C40: The operand of a search for any term, which the database parses as an expression, is made
  of at most twelve distinct words of two letters or digits or more, joined by the operator of
  alternatives: the first such words of the text, in lower case. Without a word there is no search.
\<close>

theorem any_term_operand:
  assumes "\<And>run. \<forall>r \<in> set run. rune_ok r \<and> sx_alnum lib r \<Longrightarrow> \<forall>r \<in> set (go_runes (tl_lower lib (concat run))). sx_alnum lib r"
  shows "\<exists>ts. ts = take 12 (dedup_by (\<lambda>t. t) [] (query_terms lib s))
    \<and> tsQueryExprFor lib ft True s = (if ts = [] then None else Some (ft_to ft (strings_Join ts '' | '')))
    \<and> distinct ts \<and> (\<forall>t \<in> set ts. 2 \<le> rune_count t \<and> (\<forall>r \<in> set (go_runes t). sx_alnum lib r))"
proof -
  let ?ts = "take 12 (dedup_by (\<lambda>t. t) [] (query_terms lib s))"
  have sub: "set ?ts \<subseteq> set (query_terms lib s)" using dedup_by_set set_take_subset by fastforce
  have words: "2 \<le> rune_count t \<and> (\<forall>r \<in> set (go_runes t). sx_alnum lib r)" if "t \<in> set ?ts" for t
    using query_terms_words [OF assms, of t s] sub that by (auto simp: minAnyTermRunes_def)
  have "?ts \<noteq> [[]]" using words [of "[]"] by force
  then have "strings_Join ?ts '' | '' = [] \<longleftrightarrow> ?ts = []" by (simp add: strings_Join_empty)
  then have "tsQueryExprFor lib ft True s = (if ?ts = [] then None else Some (ft_to ft (strings_Join ?ts '' | '')))"
    by (simp add: tsQueryExprFor_def buildAnyTermQuery_spec maxAnyTermLexemes_def)
  then show ?thesis using words by (intro exI [of _ ?ts] conjI) (simp_all add: distinct_terms)
qed

lemma go_runes_concat: "\<forall>r \<in> set run. rune_ok r \<Longrightarrow> go_runes (concat run) = run"
  using rune_chunks_concat_append [of run "[]"] by (simp add: go_runes_def fix_rune_def map_idI)

text \<open>A search that takes the operand itself as the parsed query and finds nothing.\<close>

definition text_fts :: "string fts" where
  "text_fts = \<lparr>ft_stopwords = (\<lambda>_. False), ft_plain = (\<lambda>s. s), ft_to = (\<lambda>s. s), ft_topic = (\<lambda>_ _. False),
     ft_topic_rank = (\<lambda>_ _. 0), ft_topic_headline = (\<lambda>_ _. []), ft_content = (\<lambda>_ _. False), ft_content_rank = (\<lambda>_ _. 0),
     ft_headline = (\<lambda>_ _. []), ft_less = (<)\<rparr>"

lemma any_term_operand_witness:
  "tsQueryExprFor search_demo text_fts True ''ab | cd! ab e'' = Some ''ab | cd''"
proof -
  have "\<exists>ts. ts = take 12 (dedup_by (\<lambda>t. t) [] (query_terms search_demo ''ab | cd! ab e''))
    \<and> tsQueryExprFor search_demo text_fts True ''ab | cd! ab e''
        = (if ts = [] then None else Some (ft_to text_fts (strings_Join ts '' | '')))
    \<and> distinct ts \<and> (\<forall>t \<in> set ts. 2 \<le> rune_count t \<and> (\<forall>r \<in> set (go_runes t). sx_alnum search_demo r))"
    by (rule any_term_operand)
      (simp add: go_runes_concat search_demo_def tree_lib.defs graph_lib_def)
  moreover have "query_terms search_demo ''ab | cd! ab e'' = [''ab'', ''cd'', ''ab'']" by code_simp
  ultimately show ?thesis by (simp add: text_fts_def)
qed

end
