(* ===== verification/Spec2Isabelle.thy ===== *)
theory Spec2Isabelle
  imports Context_Properties Federation_Relay Card_Store Relay_Service Iteration_Lifecycle
    Graph_Reads Graph_Contracts Tree_Sync_Properties Topic_Properties Topic_Context_Properties
begin

text \<open>
  Verification of hermes-canopy, the server of a workspace of conversation trees in which
  people and agents work on the same nodes. The server compiles the context of a prompt from
  a tree, federates trees with other servers, shows the work of agents as cards, groups
  messages into topics, streams events to its clients and moves messages over several transports.

  \<^bold>\<open>Parts and theories.\<close>

  \<^item> \<open>Canopy_Prelude\<close>, \<open>Go_Strings\<close>: the Go types and library functions the packages share
    (identifiers, instants, 64-bit arithmetic, maps as association lists, stable sorting,
    strings as bytes with UTF-8 runes, \<open>strconv.Quote\<close>, RFC 3339 times), and the locale
    \<open>evolving\<close> of components whose steps keep an invariant and only move their state up a
    preorder. \<open>Canopy_Models\<close>: JSON values, nodes, edges and topics.
  \<^item> Context compilation (\<open>internal/context\<close>, \<open>internal/reference\<close>): \<open>Token_Estimator\<close> (locale
    \<open>token_estimator\<close>, interpreted on the rune counter), \<open>Reference_Budget\<close> and
    \<open>Multi_Reference\<close> (\<open>multi_reference.go\<close>: admission, distribution and rendering of selected
    sources), \<open>Reference_Parser\<close> (\<open>@node\<close> and \<open>@card\<close> references in messages),
    \<open>Context_Compiler\<close> and \<open>Context_Properties\<close> (\<open>compiler.go\<close>, \<open>manifest.go\<close> and the tiers).
    A compiler call is a function of the rows it reads; the manifest and the text are its result.
  \<^item> Federation (\<open>internal/federation\<close>): \<open>Federation_Clock\<close> (\<open>clock.go\<close>, \<open>conflict.go\<close>; locale
    \<open>causal_clock\<close>) and \<open>Federation_Relay\<close> (\<open>relay.go\<close>, \<open>frames.go\<close>, \<open>repository.go\<close>, \<open>limiter.go\<close>,
    \<open>router.go\<close>). Tables are lists of rows with their unique keys checked on insert; a call is
    one transaction.
  \<^item> Cards (\<open>internal/card\<close>): \<open>Event_Hub\<close> (\<open>events_stream.go\<close>) and \<open>Card_Store\<close> (\<open>models.go\<close>,
    \<open>repo.go\<close>, \<open>service.go\<close>, \<open>action.go\<close>): one database per card type, the service over them, live
    subscribers and declared actions. The writing calls are the steps of \<open>card_step\<close>.
  \<^item> Transports (\<open>internal/transport\<close>): \<open>Message_Queue\<close> (\<open>message_queue.go\<close>; locale
    \<open>bounded_queue\<close>, interpreted on the ring buffer), \<open>Transport_Selector\<close> (\<open>selector.go\<close>,
    \<open>health.go\<close>, \<open>rate_limiter.go\<close>, \<open>tenant.go\<close>), \<open>Connection_Manager\<close> (\<open>connection_manager.go\<close>,
    \<open>bandwidth.go\<close>) and \<open>Relay_Service\<close> (\<open>relay_service.go\<close>). Connections are objects in a store,
    shared by address; \<open>cm_step\<close> has the calls of the manager and what adapters do to objects.

  \<^item> Iteration cards (\<open>internal/card/iteration\<close>): \<open>Iteration_Model\<close> (\<open>models.go\<close>, the validators),
    \<open>Iteration_Reducer\<close> (\<open>reducer.go\<close>), \<open>Iteration_Progress\<close> (progress and header), \<open>Iteration_Service\<close>
    (\<open>service.go\<close>, the monitor) and \<open>Iteration_Lifecycle\<close> (the step relation \<open>iter_step\<close> and what
    it keeps).
  \<^item> Conversation trees (\<open>internal/db\<close>, \<open>internal/service\<close>): \<open>Tree_Store\<close> has the tables \<open>graph_db\<close> of
    trees, nodes, edges and members with their constraints and triggers; \<open>Node_Service\<close>,
    \<open>Tree_Service\<close>, \<open>Merge_Service\<close>, \<open>Reference_Selection\<close> and \<open>Reference_Reply\<close> have the calls of the
    services. \<open>Tree_Graph\<close> states what the graph promises, on a skeleton of vertices and arcs
    with the moves \<open>skel_step\<close>; \<open>Tree_Lifecycle\<close> and \<open>Graph_History\<close> show that every call is a move
    of the skeleton or leaves it (\<open>graph_step\<close>, \<open>graph_ok\<close>). \<open>UpdateTree\<close> is two statements, as in the
    code; imports of trees and writes of federated conflicts are not steps. \<open>Graph_Reads\<close> has
    pages and sorting, \<open>Graph_Contracts\<close> the errors of a creation, pins and selection tokens.
  \<^item> Events and synchronisation (\<open>internal/sse\<close>, \<open>internal/sync\<close>): \<open>Event_Stream\<close> (log, hub, streams,
    SSE frames) with \<open>Event_Stream_Properties\<close>, \<open>Tree_Sync\<close> (digests, snapshots, deltas, engine and
    service) with \<open>Tree_Sync_Properties\<close>.
  \<^item> Topics (\<open>internal/service/topic_*.go\<close>, \<open>internal/db/topic_*.go\<close>): \<open>Topic_Signals\<close> (detection),
    \<open>Topic_Store\<close> (tables), \<open>Topic_Service\<close> (the calls), \<open>Topic_Scope\<close> (the members of a topic;
    locale \<open>forest_query\<close>), \<open>Topic_Histories\<close> (what each call does to topics and proposals,
    \<open>topic_step\<close>) and \<open>Topic_Properties\<close>.
  \<^item> Search (\<open>internal/search\<close>, \<open>internal/retrieval\<close>): \<open>Topic_Context\<close> (search over topics, injection of
    their messages, previews, the search log, the reader of the compiler's retrieved tier) and
    \<open>Topic_Context_Properties\<close>.

  \<^bold>\<open>What the theorems show.\<close> Budgets: shares respect every bound, strand no token and admit
  what the rules say; a compiled context accounts for every omission, never drops a pinned
  node and is a function of its inputs; rendered blocks cannot be closed by their content.
  References parse to what was written. Replicas that receive the same mutations in any order
  agree on winner and clock; deliveries are in order, frames reassemble, queues and rates are
  bounded. Cards keep their identity and only move forward, actions leave a complete trail,
  subscribers see events in order; iteration cards follow their lifecycle, settle, and stay
  interrupted until they are resumed. The ring buffer implements a bounded list; a routed
  message was sent or is queued; a peer has one active connection per transport; the relay
  delivers an event once within its window; health follows its thresholds.
  In every history of a tree the calls refine the moves of the skeleton: edges lead to later
  messages, the parents of a message are those its kind allows, a deleted message stays as it
  is, pages list every row once. A client that applies a delta has the tree; the two copies of
  the snapshot hash agree; a reconnecting stream gets what it missed, and a slow client loses
  only its own stream. Topics stay well formed, a proposal is resolved once, the scope of a
  topic is found and exact, an injection holds what was asked for, and no operator of a text
  reaches the search expression. Some lemmas show where the code falls short: the counter that
  locks detection (\<open>detection_lockout\<close>), the retrieved tier that refuses long messages
  (\<open>retrieved_tier_long_message\<close>).

  \<^bold>\<open>Conventions.\<close> A fallible call returns a sum or an option; a call that can fail after a write
  returns the state it leaves. Fresh identifiers, the clock, contexts and the answers of
  networks and adapters are arguments. Third-party code is a parameter: printing and parsing
  of identifiers, hashes, the JSON encoding of envelopes, the tables of Unicode, pattern
  matching and full-text search of the database, the executor of actions; what a theorem needs
  of it is a hypothesis that its witness instantiates. Tables are lists of rows with their
  constraints checked by the statements, and one transaction is one step under one clock.
  Loops are recursive functions with termination proofs. No fuel is added: the recursive
  queries that the source guards carry its depth of 10000, and the two walks without a guard
  (\<open>follow\<close>, \<open>scope_levels\<close>) are partial functions, shown to return on the graphs that the
  services build. Floats of the rate limiter, of ratios and of relevance are exact rationals;
  \<open>sort.Slice\<close> is the stable sort; the counters of the event log are unbounded. Mutexes make
  each call one step; interleavings are sequences of steps. Failures of a database connection
  and checks for an absent pool are not modelled.

  \<^bold>\<open>Not modelled.\<close> HTTP handlers and middleware decode requests and encode answers around the
  modelled calls. The SQLite repositories repeat the PostgreSQL ones. Gateway and agent
  clients, transport adapters, the updater, commands, configuration, telemetry and packaging
  are network, file or process I/O. Group encryption, pairing tokens and sealed envelopes are
  calls of cryptographic libraries around little state. Approvals, resolution of topic references
  against the tables, presence, export, plugins, sessions, calendar, file viewer, the relay hub and the
  accounts are self-contained components that no modelled call depends on; they are outside
  the scope of this development.
\<close>

end
